(* ===== verification/Prelude.thy ===== *)
theory Prelude
  imports Main "HOL-Library.AList" "HOL-Library.List_Lexorder" "HOL-Library.Char_ord"
    "HOL-Library.Sublist" "HOL-Library.Multiset"
begin

text \<open>
  The vocabulary every component of the model shares.

  \<^item> A Go slice is a header over a backing array. Passing \<open>opts...\<close> hands the callee a
    copy of the header over the \<^emph>\<open>same\<close> array, so a callee that removes an element in place
    is visible to its caller. \<open>'a slice\<close> keeps both parts: \<open>arr\<close> is the array from the
    slice's first element to its capacity and \<open>len\<close> the length in the header.
  \<^item> A Go map is an association list with one entry per key (\<open>gomap\<close>): a lookup is
    \<open>map_of\<close>, an assignment \<open>AList.update\<close>, a \<open>delete\<close> is \<open>AList.delete\<close>. The order of
    the list stands for one iteration order of \<open>range\<close>; a statement about every
    association list is a statement about every iteration order.
  \<^item> A pair \<open>(V, error)\<close> is \<open>err + 'v\<close>, an \<open>error\<close> result an \<open>err option\<close>.
\<close>

named_theorems op_defs "definitions of the operations of the components"
named_theorems option_simps "evaluation of the option matchers"
named_theorems inv_intros "preservation of the invariants of the components"

section \<open>Slices\<close>

datatype 'a slice = Slice (arr: "'a list") (len: nat)

abbreviation nil_slice :: "'a slice" where
  "nil_slice \<equiv> Slice [] 0"

text \<open>The elements a slice shows, and the slice a variadic call builds from its arguments.\<close>

definition live :: "'a slice \<Rightarrow> 'a list" where
  "live s = take (len s) (arr s)"

definition slice_of :: "'a list \<Rightarrow> 'a slice" where
  "slice_of xs = Slice xs (length xs)"

definition wf_slice :: "'a slice \<Rightarrow> bool" where
  "wf_slice s \<longleftrightarrow> len s \<le> length (arr s)"

text \<open>
  What a caller sees of its own slice after a callee has worked on a copy of its header:
  the caller's length over the array the callee left behind.
\<close>

definition caller_view :: "'a slice \<Rightarrow> 'a list \<Rightarrow> 'a slice" where
  "caller_view s a = Slice a (len s)"

text \<open>\<open>s[i] = x\<close> on the shared array.\<close>

definition slice_set :: "'a slice \<Rightarrow> nat \<Rightarrow> 'a \<Rightarrow> 'a slice" where
  "slice_set s i x = Slice ((arr s)[i := x]) (len s)"

text \<open>
  \<open>append(s, x)\<close>: in place while the array has room, otherwise into a new array. The second
  component says whether the result still shares the old array.
\<close>

definition slice_append :: "'a slice \<Rightarrow> 'a \<Rightarrow> 'a slice \<times> bool" where
  "slice_append s x =
     (if len s < length (arr s) then (Slice ((arr s)[len s := x]) (Suc (len s)), True)
      else (Slice (live s @ [x]) (Suc (len s)), False))"

lemma slice_append_nil [simp]: "slice_append nil_slice x = (Slice [x] (Suc 0), False)"
  by (simp add: slice_append_def live_def)

lemma live_nil [simp]: "live (Slice [] n) = []"
  by (simp add: live_def)

lemma live_Slice0 [simp]: "live (Slice a 0) = []"
  by (simp add: live_def)

lemma live_slice_of [simp]: "live (slice_of xs) = xs"
  by (simp add: live_def slice_of_def)

lemma slice_of_Nil [simp]: "slice_of [] = nil_slice"
  by (simp add: slice_of_def)

lemma wf_slice_of [simp]: "wf_slice (slice_of xs)"
  by (simp add: wf_slice_def slice_of_def)

lemma len_slice_of [simp]: "len (slice_of xs) = length xs"
  by (simp add: slice_of_def)

lemma arr_slice_of [simp]: "arr (slice_of xs) = xs"
  by (simp add: slice_of_def)

lemma length_live: "wf_slice s \<Longrightarrow> length (live s) = len s"
  by (simp add: live_def wf_slice_def)

lemma set_live_subset: "set (live s) \<subseteq> set (arr s)"
  by (simp add: live_def set_take_subset)

lemma live_slice_set: "live (slice_set s i x) = (live s)[i := x]"
  by (simp add: live_def slice_set_def take_update_swap)

section \<open>Maps\<close>

type_synonym ('k, 'v) gomap = "('k \<times> 'v) list"

abbreviation wf_map :: "('k, 'v) gomap \<Rightarrow> bool" where
  "wf_map m \<equiv> distinct (map fst m)"

lemma map_of_update [simp]: "map_of (AList.update k v m) = (map_of m)(k \<mapsto> v)"
  by (simp add: update_conv' fun_eq_iff)

lemma map_of_delete [simp]: "map_of (AList.delete k m) = (map_of m)(k := None)"
  by (simp add: delete_conv' fun_eq_iff)

lemma wf_update [simp]: "wf_map m \<Longrightarrow> wf_map (AList.update k v m)"
  by (rule distinct_update)

lemma wf_delete [simp]: "wf_map m \<Longrightarrow> wf_map (AList.delete k m)"
  by (rule distinct_delete)

lemma map_of_eq_None: "map_of m k = None \<longleftrightarrow> k \<notin> fst ` set m"
  by (simp add: map_of_eq_None_iff)

lemma map_of_in_set: "wf_map m \<Longrightarrow> (k, v) \<in> set m \<longleftrightarrow> map_of m k = Some v"
  by (metis Some_eq_map_of_iff)

lemma update_new_key: "k \<notin> fst ` set m \<Longrightarrow> AList.update k v m = m @ [(k, v)]"
  by (induction m) auto

text \<open>A list of pairs with one entry per key is its own map, in whatever order it stands.\<close>

lemma map_of_same_set:
  assumes "wf_map m" "wf_map m'" "set m = set m'"
  shows "map_of m = map_of m'"
proof
  fix k show "map_of m k = map_of m' k"
    using assms by (metis map_of_eq_None map_of_in_set option.exhaust)
qed

lemma map_of_filter_key:
  "map_of (filter (\<lambda>(k, v). P k) m) k = (if P k then map_of m k else None)"
  by (induction m) auto

lemma map_of_sort_key: "wf_map m \<Longrightarrow> map_of (sort_key fst m) = map_of m"
  by (rule map_of_same_set) (simp_all add: distinct_map)

lemma wf_sort_key: "wf_map m \<Longrightarrow> wf_map (sort_key fst m)"
  by (simp add: distinct_map)

lemma wf_filter: "wf_map m \<Longrightarrow> wf_map (filter P m)"
  by (rule distinct_map_filter)

lemma filter_key_eq: "filter (\<lambda>(k, v). P k) m = filter (\<lambda>x. P (fst x)) m"
  by (rule filter_cong) auto

text \<open>\<open>strings.Join\<close>.\<close>

fun strings_Join :: "string list \<Rightarrow> string \<Rightarrow> string" where
  "strings_Join [] sep = []"
| "strings_Join [x] sep = x"
| "strings_Join (x # xs) sep = x @ sep @ strings_Join xs sep"

text \<open>Strings in the byte order of Go: a common prefix does not change the order.\<close>

lemma append_le_append [simp]: "pre @ xs \<le> pre @ ys \<longleftrightarrow> (xs :: 'a::linorder list) \<le> ys"
  by (induction pre) auto

text \<open>The first hit of a loop over a collection in any order, when there is at most one.\<close>

lemma find_unique:
  assumes "x \<in> set xs" "P x" "\<And>y. y \<in> set xs \<Longrightarrow> P y \<Longrightarrow> y = x"
  shows "find P xs = Some x"
proof (cases "find P xs")
  case None
  with assms(1,2) show ?thesis by (simp add: find_None_iff)
next
  case (Some y)
  then have "y \<in> set xs" "P y" by (auto simp: find_Some_iff)
  with assms(3) Some show ?thesis by blast
qed

text \<open>Whether a loop hits at all.\<close>

lemma find_list_ex:
  "find P xs = None \<Longrightarrow> list_ex P xs = False" "find P xs = Some x \<Longrightarrow> list_ex P xs = True"
  by (auto simp: list_ex_iff find_None_iff find_Some_iff)

lemma find_none: "(\<And>y. y \<in> set xs \<Longrightarrow> \<not> P y) \<Longrightarrow> find P xs = None"
  by (simp add: find_None_iff)

lemma find_append:
  "find P (xs @ ys) = (case find P xs of None \<Rightarrow> find P ys | Some x \<Rightarrow> Some x)"
  by (induction xs) auto

end
