(* ===== verification/Errors.thy ===== *)
theory Errors
  imports Prelude
begin

text \<open>
  Go errors and package \<open>pkg/errors\<close>.

  An error value is a package-level variable, compared by identity (\<open>Sentinel\<close>), a value built
  by \<open>fmt.Errorf\<close> or \<open>errors.Join\<close> that wraps others (\<open>Errorf\<close>), a Kubernetes
  \<open>StatusError\<close> with its HTTP code and reason (\<open>ApiError\<close>), or a value of the standard
  library or of a third party, of which the code only asks which interfaces it satisfies
  (\<open>Foreign\<close>). \<open>errors.Is\<close> and \<open>errors.As\<close> walk the tree of wrapped errors in
  pre-order.
\<close>

section \<open>Error values\<close>

text \<open>The variables of \<open>errors.go\<close> that stand for an HTTP status.\<close>

datatype http_error =
    ErrBadRequest | ErrUnauthorized | ErrPaymentRequired | ErrForbidden | ErrNotFound
  | ErrMethodNotAllowed | ErrNotAcceptable | ErrProxyAuthRequired | ErrRequestTimeout
  | ErrConflict | ErrGone | ErrLocked | ErrTooEarly | ErrTooManyRequests
  | ErrInternalServerError | ErrNotImplemented | ErrBadGateway | ErrServiceUnavailable
  | ErrGatewayTimeout

text \<open>
  All error variables the modelled packages compare by identity, those of the standard library
  (\<open>context\<close>, \<open>io\<close>, \<open>os\<close>) and of \<open>wait\<close> included.
\<close>

datatype sentinel =
    ErrHTTPStatus
  | Http http_error
  | ErrBuildRequest | ErrEnvironmentVariable | ErrInvalidResponse | ErrFailedRequestOption
  | ErrUnsupportedOption | ErrNotSerializable
  | ErrNameableKeyMismatch | ErrRollbackFailed
  | ErrJobAlreadyRegistered | ErrJobNotStarted | ErrJobTimeout
  | ErrPanicRecovered
  | ErrDeliveryMsg | ErrInvalidStatsData | ErrProducerNotHealthy | ErrConsumerNotHealthy
  | ErrFatalError | ErrNotRetriable | ErrAllBrokersDown | ErrCommitFailed | ErrMsgIgnored
  | ErrOffsetNotStored | ErrNoContent | ErrInvalidConfig | ErrNewClient | ErrSubscribe
  | ErrCertificateInvalid | ErrCertificateNotParsable | ErrValidation
  | ErrUnsupportedContentEncoding | ErrAuthFailed | ErrProviderNotInitialized
  | ErrProviderNotOpenShift | ErrTimeout | ErrUnsupportedPatchType
  | CtxCanceled | CtxDeadlineExceeded | IoEOF | IoErrUnexpectedEOF | OsErrNotExist | OsErrExist
  | ErrWaitTimeout | HttpErrServerClosed

text \<open>
  What \<open>errors.As\<close> can find in a foreign error: \<open>net.Error\<close> with its \<open>Timeout()\<close>,
  \<open>*net.DNSError\<close> with \<open>IsTemporary\<close> and \<open>Timeout()\<close>, an error with a
  \<open>Temporary()\<close> method, a \<open>syscall.Errno\<close>, and \<open>*url.Error\<close> with its
  \<open>Timeout()\<close>. \<open>None\<close> means that the value is not of that type.
\<close>

datatype errno =
    ECONNRESET | ECONNABORTED | ECONNREFUSED | ETIMEDOUT | EHOSTUNREACH | ENETUNREACH | EPIPE
  | OtherErrno nat

record traits =
  as_net :: "bool option"
  as_dns :: "(bool \<times> bool) option"
  as_temporary :: "bool option"
  as_errno :: "errno option"
  as_url :: "bool option"

definition no_traits :: traits where
  "no_traits = \<lparr>as_net = None, as_dns = None, as_temporary = None, as_errno = None, as_url = None\<rparr>"

datatype err =
    Sentinel sentinel
  | Errorf string "err list"
  | ApiError int string
  | Foreign string traits "err list"

abbreviation http_err :: "http_error \<Rightarrow> err" where
  "http_err e \<equiv> Sentinel (Http e)"

text \<open>\<open>errors.New\<close>: a fresh value that wraps nothing.\<close>

abbreviation new_error :: "string \<Rightarrow> err" where
  "new_error msg \<equiv> Errorf msg []"

text \<open>What the variables wrap: \<open>fmt.Errorf("%w...")\<close> in their declarations.\<close>

fun sentinel_wraps :: "sentinel \<Rightarrow> sentinel option" where
  "sentinel_wraps (Http _) = Some ErrHTTPStatus"
| "sentinel_wraps ErrNotSerializable = Some ErrUnsupportedOption"
| "sentinel_wraps _ = None"

text \<open>\<open>errors.Is\<close> against a package-level variable.\<close>

fun is_err :: "err \<Rightarrow> sentinel \<Rightarrow> bool" where
  "is_err (Sentinel s) t \<longleftrightarrow> s = t \<or> sentinel_wraps s = Some t"
| "is_err (Errorf _ es) t \<longleftrightarrow> list_ex (\<lambda>e. is_err e t) es"
| "is_err (ApiError _ _) t \<longleftrightarrow> False"
| "is_err (Foreign _ _ es) t \<longleftrightarrow> list_ex (\<lambda>e. is_err e t) es"

text \<open>\<open>errors.As\<close> for one of the types \<open>traits\<close> lists: the first match in pre-order.\<close>

fun as_err :: "(traits \<Rightarrow> 'a option) \<Rightarrow> err \<Rightarrow> 'a option" where
  "as_err f (Sentinel _) = None"
| "as_err f (ApiError _ _) = None"
| "as_err f (Errorf _ es) =
     fold (\<lambda>e r. case r of None \<Rightarrow> as_err f e | Some x \<Rightarrow> Some x) es None"
| "as_err f (Foreign _ tr es) =
     (case f tr of Some x \<Rightarrow> Some x
      | None \<Rightarrow> fold (\<lambda>e r. case r of None \<Rightarrow> as_err f e | Some x \<Rightarrow> Some x) es None)"

text \<open>\<open>errors.Join\<close>: \<open>nil\<close> when every argument is \<open>nil\<close>.\<close>

definition join_errors :: "err option list \<Rightarrow> err option" where
  "join_errors es =
     (case List.map_filter id es of [] \<Rightarrow> None | xs \<Rightarrow> Some (Errorf ''join'' xs))"

section \<open>Status codes\<close>

text \<open>\<open>lookupStatusAsErr\<close>, and \<open>lookupErrAsStatus\<close>, its inverse built by \<open>init\<close>.\<close>

definition lookupStatusAsErr :: "(int, sentinel) gomap" where
  "lookupStatusAsErr =
    [(400, Http ErrBadRequest), (401, Http ErrUnauthorized), (402, Http ErrPaymentRequired),
     (403, Http ErrForbidden), (404, Http ErrNotFound), (405, Http ErrMethodNotAllowed),
     (406, Http ErrNotAcceptable), (407, Http ErrProxyAuthRequired),
     (408, Http ErrRequestTimeout), (409, Http ErrConflict), (410, Http ErrGone),
     (425, Http ErrTooEarly), (429, Http ErrTooManyRequests),
     (500, Http ErrInternalServerError), (501, Http ErrNotImplemented),
     (502, Http ErrBadGateway), (423, Http ErrLocked), (503, Http ErrServiceUnavailable),
     (504, Http ErrGatewayTimeout)]"

definition lookupErrAsStatus :: "(sentinel, int) gomap" where
  "lookupErrAsStatus = fold (\<lambda>(status, e) m. AList.update e status m) lookupStatusAsErr []"

definition StatusCodeAsErr :: "int \<Rightarrow> err option" where
  "StatusCodeAsErr status =
     (if 0 < status \<and> status < 400 then None
      else case map_of lookupStatusAsErr status of
          Some e \<Rightarrow> Some (Sentinel e)
        | None \<Rightarrow> Some (Sentinel ErrHTTPStatus))"

text \<open>
  \<open>ErrAsStatusCode\<close> ranges over the map \<open>lookupErrAsStatus\<close>, whose order Go leaves
  open: \<open>order\<close> is the order of this run.
\<close>

definition api_to_http :: "err option \<Rightarrow> err option" where
  "api_to_http e = (case e of Some (ApiError code _) \<Rightarrow> StatusCodeAsErr code | _ \<Rightarrow> e)"

definition ErrAsStatusCode :: "(sentinel \<times> int) list \<Rightarrow> err option \<Rightarrow> int" where
  "ErrAsStatusCode order e =
     (case e of None \<Rightarrow> 200
      | Some _ \<Rightarrow>
          (case api_to_http e of None \<Rightarrow> 500
           | Some e' \<Rightarrow>
               (case find (\<lambda>(target, _). is_err e' target) order of
                  Some (_, status) \<Rightarrow> status
                | None \<Rightarrow> 500)))"

section \<open>Classification of errors\<close>

text \<open>\<open>apierrors.IsNotFound\<close> and \<open>IsAlreadyExists\<close> of Kubernetes are arguments.\<close>

definition IsNotFound :: "(err \<Rightarrow> bool) \<Rightarrow> err \<Rightarrow> bool" where
  "IsNotFound api_IsNotFound e = (if is_err e (Http ErrNotFound) then True else api_IsNotFound e)"

definition IsAlreadyExists :: "(err \<Rightarrow> bool) \<Rightarrow> err \<Rightarrow> bool" where
  "IsAlreadyExists api_IsAlreadyExists e =
     (if is_err e (Http ErrConflict) then True else api_IsAlreadyExists e)"

definition IsTransportRetryable :: "err option \<Rightarrow> bool" where
  "IsTransportRetryable e0 =
     (case e0 of None \<Rightarrow> False
      | Some e \<Rightarrow>
          if is_err e CtxCanceled \<or> is_err e CtxDeadlineExceeded then False
          else if as_err as_net e = Some True then True
          else if (case as_err as_dns e of Some (temp, tmo) \<Rightarrow> temp \<or> tmo | None \<Rightarrow> False) then True
          else if as_err as_temporary e = Some True then True
          else if is_err e IoEOF \<or> is_err e IoErrUnexpectedEOF then True
          else if (case as_err as_errno e of
                     Some se \<Rightarrow> se \<in> {ECONNRESET, ECONNABORTED, ECONNREFUSED, ETIMEDOUT,
                                      EHOSTUNREACH, ENETUNREACH, EPIPE}
                   | None \<Rightarrow> False) then True
          else if as_err as_url e = Some True then True
          else False)"

definition retryable_targets :: "sentinel list" where
  "retryable_targets = [Http ErrRequestTimeout, Http ErrTooEarly, Http ErrTooManyRequests,
     Http ErrInternalServerError, Http ErrBadGateway, Http ErrServiceUnavailable,
     Http ErrGatewayTimeout]"

definition IsRetryableError :: "err option \<Rightarrow> bool" where
  "IsRetryableError e0 =
     (let e = api_to_http e0 in
      if (case e of Some e' \<Rightarrow> is_err e' ErrHTTPStatus \<and>
                               list_ex (is_err e') retryable_targets
          | None \<Rightarrow> False) then True
      else if IsTransportRetryable e then True
      else False)"

definition AlwaysRetry :: "err option \<Rightarrow> bool" where
  "AlwaysRetry _ = True"

definition RunOnError :: "err option \<Rightarrow> bool" where
  "RunOnError e = (if e \<noteq> None then True else False)"

definition RetriableErrorFn :: "err option \<Rightarrow> bool" where
  "RetriableErrorFn e = (if e \<noteq> None then IsRetryableError e else False)"

section \<open>The two lookup tables\<close>

lemma wf_lookupStatusAsErr: "wf_map lookupStatusAsErr"
  by (simp add: lookupStatusAsErr_def)

lemma set_lookupErrAsStatus:
  "set lookupErrAsStatus = (\<lambda>(status, e). (e, status)) ` set lookupStatusAsErr"
  by (simp add: lookupErrAsStatus_def lookupStatusAsErr_def)

lemma status_table_injective:
  assumes "(c, e) \<in> set lookupStatusAsErr" "(c', e) \<in> set lookupStatusAsErr"
  shows "c = c'"
  using assms by (auto simp: lookupStatusAsErr_def)

lemma status_table_http: "(c, e) \<in> set lookupStatusAsErr \<Longrightarrow> \<exists>h. e = Http h"
  by (auto simp: lookupStatusAsErr_def)

lemma status_table_range: "(c, e) \<in> set lookupStatusAsErr \<Longrightarrow> 400 \<le> c"
  by (auto simp: lookupStatusAsErr_def)

lemma StatusCodeAsErr_table:
  "(c, e) \<in> set lookupStatusAsErr \<Longrightarrow> StatusCodeAsErr c = Some (Sentinel e)"
  using status_table_range [of c e] map_of_in_set [OF wf_lookupStatusAsErr, of c e]
  by (simp add: StatusCodeAsErr_def)

lemma StatusCodeAsErr_unknown:
  "c \<le> 0 \<or> 400 \<le> c \<Longrightarrow> c \<notin> fst ` set lookupStatusAsErr \<Longrightarrow>
   StatusCodeAsErr c = Some (Sentinel ErrHTTPStatus)"
  by (auto simp: StatusCodeAsErr_def simp flip: map_of_eq_None)

lemma transport_sentinel:
  "IsTransportRetryable (Some (Sentinel s)) \<longleftrightarrow> s \<in> {IoEOF, IoErrUnexpectedEOF}"
  by (cases s) (simp_all add: IsTransportRetryable_def)

lemma transport_None [simp]: "\<not> IsTransportRetryable None"
  by (simp add: IsTransportRetryable_def)

lemma retryable_sentinel:
  "IsRetryableError (Some (Sentinel s)) \<longleftrightarrow>
     s \<in> set retryable_targets \<union> {IoEOF, IoErrUnexpectedEOF}"
  by (cases s) (auto simp: IsRetryableError_def api_to_http_def transport_sentinel
      retryable_targets_def)

lemma every_http_error_has_a_status: "\<exists>c. (c, Http h) \<in> set lookupStatusAsErr"
  by (cases h) (auto simp: lookupStatusAsErr_def)

lemma is_err_http [simp]: "is_err (http_err h) (Http h') \<longleftrightarrow> h = h'"
  by auto

lemma is_err_http_status [simp]: "is_err (http_err h) ErrHTTPStatus"
  by simp

text \<open>
  Wrapping keeps identity: whatever an error is, an error that wraps it is too. This is why the
  code may decorate an error with \<open>%w\<close> and still dispatch on it.
\<close>

lemma is_err_wrap: "is_err e t \<Longrightarrow> e \<in> set es \<Longrightarrow> is_err (Errorf msg es) t"
  by (auto simp: list_ex_iff)

lemma is_err_new [simp]: "\<not> is_err (new_error msg) t"
  by simp

text \<open>An error of the table has its status, in whatever order the table is searched.\<close>

lemma ErrAsStatusCode_table:
  assumes "set order = set lookupErrAsStatus" "(c, e) \<in> set lookupStatusAsErr"
  shows "ErrAsStatusCode order (Some (Sentinel e)) = c"
proof -
  obtain h where h: "e = Http h" using status_table_http [OF assms(2)] by blast
  have "find (\<lambda>(target, _). is_err (Sentinel e) target) order = Some (e, c)"
  proof (rule find_unique)
    show "(e, c) \<in> set order" using assms by (force simp: set_lookupErrAsStatus)
  next
    fix y assume "y \<in> set order" and hit: "case y of (target, _) \<Rightarrow> is_err (Sentinel e) target"
    then obtain c' e' where y: "y = (e', c')" "(c', e') \<in> set lookupStatusAsErr"
      using assms(1) by (auto simp: set_lookupErrAsStatus)
    with hit h status_table_http [OF y(2)] have "e' = e" by auto
    with y assms(2) show "y = (e, c)" using status_table_injective by blast
  qed (simp add: h)
  then show ?thesis by (simp add: ErrAsStatusCode_def api_to_http_def)
qed

section \<open>Properties\<close>

text \<open>
  C6. The status tables agree: whatever order Go picks to range over the inverse table, the
  status of an error that \<open>StatusCodeAsErr\<close> built from a known status is that status, and an
  unknown client or server status comes back as 500.
\<close>

theorem status_error_roundtrip:
  assumes "set order = set lookupErrAsStatus" and "400 \<le> c"
  shows "ErrAsStatusCode order (StatusCodeAsErr c) =
    (if c \<in> fst ` set lookupStatusAsErr then c else 500)"
proof (cases "c \<in> fst ` set lookupStatusAsErr")
  case True
  then obtain e where e: "(c, e) \<in> set lookupStatusAsErr" by auto
  with True assms(1) show ?thesis by (simp add: StatusCodeAsErr_table ErrAsStatusCode_table)
next
  case False
  have "find (\<lambda>(target, _). is_err (Sentinel ErrHTTPStatus) target) order = None"
    using assms(1) by (intro find_none) (auto simp: set_lookupErrAsStatus dest: status_table_http)
  with False assms(2) show ?thesis
    by (simp add: ErrAsStatusCode_def StatusCodeAsErr_unknown api_to_http_def)
qed

theorem status_error_roundtrip_witness:
  "ErrAsStatusCode lookupErrAsStatus (StatusCodeAsErr 409) = 409 \<and>
   ErrAsStatusCode (rev lookupErrAsStatus) (StatusCodeAsErr 507) = 500"
  using status_error_roundtrip [of lookupErrAsStatus 409]
    status_error_roundtrip [of "rev lookupErrAsStatus" 507]
  by (simp add: lookupStatusAsErr_def)

text \<open>
  Which Kubernetes statuses are retried: a \<open>StatusError\<close> is retryable exactly when its code
  is one of the seven transient ones. In particular 501 and every status without a variable of
  its own (507, say) are not retried.
\<close>

theorem api_error_retryable_iff:
  "IsRetryableError (Some (ApiError code reason)) \<longleftrightarrow>
     code \<in> {408, 425, 429, 500, 502, 503, 504}"
proof -
  have api: "IsRetryableError (Some (ApiError code reason)) \<longleftrightarrow>
      IsRetryableError (StatusCodeAsErr code)"
    by (simp add: IsRetryableError_def api_to_http_def StatusCodeAsErr_def split: option.splits)
  consider "0 < code \<and> code < 400" | e where "(code, e) \<in> set lookupStatusAsErr"
    | "code \<le> 0 \<or> 400 \<le> code" "code \<notin> fst ` set lookupStatusAsErr" by force
  then show ?thesis
  proof cases
    case 1
    then show ?thesis
      by (simp add: api IsRetryableError_def api_to_http_def StatusCodeAsErr_def)
  next
    case 2
    then show ?thesis
      unfolding api StatusCodeAsErr_table [OF 2] retryable_sentinel
      by (auto simp: retryable_targets_def lookupStatusAsErr_def)
  next
    case 3
    then show ?thesis
      unfolding api StatusCodeAsErr_unknown [OF 3] retryable_sentinel
      by (auto simp: retryable_targets_def lookupStatusAsErr_def)
  qed
qed

text \<open>
  A cancelled or expired context is never classified as a transport failure worth
  retrying, however deeply the context error is wrapped and whatever else the error tree holds.
\<close>

theorem context_errors_not_retried:
  assumes "is_err e CtxCanceled \<or> is_err e CtxDeadlineExceeded"
  shows "\<not> IsTransportRetryable (Some e)"
  using assms by (auto simp: IsTransportRetryable_def)

theorem context_errors_not_retried_witness:
  "\<not> IsTransportRetryable (Some (Foreign ''net'' (no_traits\<lparr>as_net := Some True\<rparr>)
      [Errorf ''dial'' [Sentinel CtxDeadlineExceeded]])) \<and>
   IsTransportRetryable (Some (Foreign ''net'' (no_traits\<lparr>as_net := Some True\<rparr>) []))"
  using context_errors_not_retried
    [of "Foreign ''net'' (no_traits\<lparr>as_net := Some True\<rparr>)
      [Errorf ''dial'' [Sentinel CtxDeadlineExceeded]]"]
  by (simp add: IsTransportRetryable_def no_traits_def)

end
