(* ===== verification/Slices.thy ===== *)
theory Slices
  imports Prelude
begin

text \<open>
  Packages \<open>pkg/slices\<close>, \<open>pkg/opt\<close> and \<open>pkg/defaultmap\<close>: generic helpers on slices and
  maps, and the mutex-guarded slice \<open>ThreadSafe\<close>. A loop over a slice is a recursion over the
  list of its elements with the loop's variables as accumulators. Functions that build a new
  slice return the list of its elements; \<open>RemoveIndex\<close>, which shifts the caller's array in
  place, works on \<open>slice\<close>.
\<close>

section \<open>opt and defaultmap\<close>

fun Opt :: "'a \<Rightarrow> 'a list \<Rightarrow> 'a" where
  "Opt dflt [] = dflt"
| "Opt dflt (x # _) = x"

definition DefaultMap_Update ::
  "('k, 'v) gomap \<Rightarrow> 'k \<Rightarrow> 'v \<Rightarrow> ('v \<Rightarrow> 'v \<Rightarrow> 'v) \<Rightarrow> ('k, 'v) gomap" where
  "DefaultMap_Update d key new collision =
     (case map_of d key of
        None \<Rightarrow> AList.update key new d
      | Some current \<Rightarrow> AList.update key (collision current new) d)"

definition DefaultMap_Set :: "('k, 'v) gomap \<Rightarrow> 'k \<Rightarrow> 'v \<Rightarrow> ('k, 'v) gomap" where
  "DefaultMap_Set d key new = DefaultMap_Update d key new (\<lambda>old new. new)"

fun DefaultMap_Merge ::
  "('k, 'v) gomap \<Rightarrow> ('k, 'v) gomap \<Rightarrow> ('v \<Rightarrow> 'v \<Rightarrow> 'v) \<Rightarrow> ('k, 'v) gomap" where
  "DefaultMap_Merge d [] collision = d"
| "DefaultMap_Merge d ((k, v) # other) collision =
     DefaultMap_Merge (DefaultMap_Update d k v collision) other collision"

section \<open>Functions that build a new slice\<close>

fun UniqueCmp_loop :: "('a \<Rightarrow> 'b) \<Rightarrow> 'a list \<Rightarrow> ('b, 'a) gomap \<Rightarrow> 'a list \<Rightarrow> 'a list" where
  "UniqueCmp_loop serialize [] exists uniques = uniques"
| "UniqueCmp_loop serialize (item # s) exists uniques =
     (let serial = serialize item in
      if map_of exists serial \<noteq> None then UniqueCmp_loop serialize s exists uniques
      else UniqueCmp_loop serialize s (AList.update serial item exists) (uniques @ [item]))"

definition UniqueCmp :: "'a list \<Rightarrow> ('a \<Rightarrow> 'b) \<Rightarrow> 'a list" where
  "UniqueCmp s serialize = UniqueCmp_loop serialize s [] []"

definition Unique :: "'a list \<Rightarrow> 'a list" where
  "Unique s = UniqueCmp s (\<lambda>e. e)"

definition Transform :: "'a list \<Rightarrow> ('a \<Rightarrow> 'b) \<Rightarrow> 'b list" where
  "Transform s tr = map tr s"

fun MatchAny :: "'a list \<Rightarrow> 'a list \<Rightarrow> 'a option" where
  "MatchAny collection [] = None"
| "MatchAny collection (v # sub) =
     (if v \<in> set collection then Some v else MatchAny collection sub)"

fun FlatMap_loop :: "('a \<Rightarrow> 'b list) \<Rightarrow> 'a list \<Rightarrow> 'b list \<Rightarrow> 'b list" where
  "FlatMap_loop f [] result = result"
| "FlatMap_loop f (v # s) result = FlatMap_loop f s (result @ f v)"

definition FlatMap :: "'a list \<Rightarrow> ('a \<Rightarrow> 'b list) \<Rightarrow> 'b list" where
  "FlatMap s f = FlatMap_loop f s []"

fun Filter_loop :: "('a \<Rightarrow> bool) \<Rightarrow> 'a list \<Rightarrow> 'a list \<Rightarrow> 'a list" where
  "Filter_loop keep [] filtered = filtered"
| "Filter_loop keep (item # s) filtered =
     Filter_loop keep s (if keep item then filtered @ [item] else filtered)"

definition Filter :: "'a list \<Rightarrow> ('a \<Rightarrow> bool) \<Rightarrow> 'a list" where
  "Filter s keep = Filter_loop keep s []"

text \<open>A pointer is an \<open>option\<close>: \<open>FilterEmpty\<close> keeps the pointers that are not \<open>nil\<close>.\<close>

definition FilterEmpty :: "'a option list \<Rightarrow> 'a option list" where
  "FilterEmpty s = Filter s (\<lambda>item. item \<noteq> None)"

definition IsSubset :: "'a list \<Rightarrow> 'a list \<Rightarrow> bool" where
  "IsSubset a b = list_all (\<lambda>item. item \<in> set b) a"

definition Contains :: "'a list \<Rightarrow> 'a \<Rightarrow> bool" where
  "Contains s v = (v \<in> set s)"

definition Concat :: "'a list list \<Rightarrow> 'a list" where
  "Concat s = Unique (concat s)"

definition Overlap :: "'a list \<Rightarrow> 'a list \<Rightarrow> 'a list" where
  "Overlap a b = Filter_loop (\<lambda>item. item \<in> set b) a []"

definition Difference :: "'a list \<Rightarrow> 'a list \<Rightarrow> 'a list" where
  "Difference a b = Filter_loop (\<lambda>item. item \<notin> set b) a []"

definition DifferenceCmp :: "'a list \<Rightarrow> 'a list \<Rightarrow> ('a \<Rightarrow> 'b) \<Rightarrow> 'a list" where
  "DifferenceCmp a b cmp =
     (let lookup = fold (\<lambda>v l. AList.update (cmp v) () l) b [] in
      Filter_loop (\<lambda>v. map_of lookup (cmp v) = None) a [])"

definition SymmetricDifference :: "'a list \<Rightarrow> 'a list \<Rightarrow> 'a list" where
  "SymmetricDifference a b =
     (let differenceA = Difference a b; differenceB = Difference b a in
      differenceA @ differenceB)"

definition SymmetricDifferenceCmp :: "'a list \<Rightarrow> 'a list \<Rightarrow> ('a \<Rightarrow> 'b) \<Rightarrow> 'a list" where
  "SymmetricDifferenceCmp a b cmp =
     (let differenceA = DifferenceCmp a b cmp; differenceB = DifferenceCmp b a cmp in
      differenceA @ differenceB)"

definition RemoveFunc :: "'a list \<Rightarrow> ('a \<Rightarrow> bool) \<Rightarrow> 'a list" where
  "RemoveFunc s f = (if s = [] then s else Filter s (\<lambda>item. \<not> f item))"

definition Remove :: "'a list \<Rightarrow> 'a \<Rightarrow> 'a list" where
  "Remove s item = RemoveFunc s (\<lambda>current. current = item)"

text \<open>
  \<open>RemoveIndex\<close>: \<open>append((*s)[:index], (*s)[index+1:]...)\<close> moves the tail down by one inside the
  backing array and shortens the header. The slot of the last element keeps its old content, and
  whoever else holds a header over the array sees the shifted elements.
\<close>

fun RemoveIndex :: "'a slice \<Rightarrow> int \<Rightarrow> 'a slice" where
  "RemoveIndex (Slice a n) index =
     (if index < 0 \<or> index \<ge> int n then Slice a n
      else let i = nat index in
        Slice (take i a @ take (n - 1 - i) (drop (i + 1) a) @ drop (n - 1) a) (n - 1))"

text \<open>\<open>Clone\<close>: the same elements over a fresh array.\<close>

definition Clone :: "'a slice \<Rightarrow> 'a slice" where
  "Clone s = slice_of (live s)"

section \<open>Functions on maps\<close>

definition Map :: "'a list \<Rightarrow> ('a \<Rightarrow> 'b) \<Rightarrow> ('b, 'a) gomap" where
  "Map s key = fold (\<lambda>item mapped. AList.update (key item) item mapped) s []"

definition MapItems :: "('k::linorder, 'v) gomap \<Rightarrow> 'k list \<times> 'v list" where
  "MapItems s = (let keys = sort (map fst s) in (keys, map (\<lambda>key. the (map_of s key)) keys))"

definition MapValues :: "('k::linorder, 'v) gomap \<Rightarrow> 'v list" where
  "MapValues s = (case MapItems s of (_, values) \<Rightarrow> values)"

definition maps_Copy :: "('k, 'v) gomap \<Rightarrow> ('k, 'v) gomap \<Rightarrow> ('k, 'v) gomap" where
  "maps_Copy dst src = fold (\<lambda>(k, v) m. AList.update k v m) src dst"

definition MergeMap :: "('k, 'v) gomap \<Rightarrow> ('k, 'v) gomap list \<Rightarrow> ('k, 'v) gomap" where
  "MergeMap a bs = fold (\<lambda>b c. maps_Copy c b) bs (maps_Copy [] a)"

definition ReMap :: "('k::linorder, 'v) gomap \<Rightarrow> ('v \<Rightarrow> 't) \<Rightarrow> ('t, 'v) gomap" where
  "ReMap s key = Map (MapValues s) key"

fun Count_loop :: "'a list \<Rightarrow> ('a, nat) gomap \<Rightarrow> ('a, nat) gomap" where
  "Count_loop [] counts = counts"
| "Count_loop (item # s) counts =
     (case map_of counts item of
        Some n \<Rightarrow> Count_loop s (AList.update item (n + 1) counts)
      | None \<Rightarrow> Count_loop s (AList.update item 1 counts))"

definition Count :: "'a list \<Rightarrow> ('a, nat) gomap" where
  "Count s = Count_loop s []"

section \<open>ThreadSafe\<close>

text \<open>
  Every method takes the lock for its whole body, so concurrent calls are a sequence of whole
  calls. \<open>SortFunc\<close> calls the unstable sort of the standard library and is not modelled.
\<close>

record 'a ThreadSafe =
  ts_data :: "'a list"

definition NewSlice :: "'a list \<Rightarrow> 'a ThreadSafe" where
  "NewSlice data = \<lparr>ts_data = data\<rparr>"

definition TS_Add :: "'a ThreadSafe \<Rightarrow> 'a \<Rightarrow> 'a ThreadSafe" where
  "TS_Add ts v = ts\<lparr>ts_data := ts_data ts @ [v]\<rparr>"

definition TS_AddIfNotExists :: "'a ThreadSafe \<Rightarrow> 'a \<Rightarrow> 'a ThreadSafe \<times> bool" where
  "TS_AddIfNotExists ts v =
     (if v \<notin> set (ts_data ts) then (ts\<lparr>ts_data := ts_data ts @ [v]\<rparr>, True) else (ts, False))"

definition TS_Contains :: "'a ThreadSafe \<Rightarrow> 'a \<Rightarrow> bool" where
  "TS_Contains ts v = (v \<in> set (ts_data ts))"

definition TS_Get :: "'a ThreadSafe \<Rightarrow> int \<Rightarrow> 'a option" where
  "TS_Get ts index =
     (if index < 0 \<or> index \<ge> int (length (ts_data ts)) then None
      else Some (ts_data ts ! nat index))"

definition TS_Delete :: "'a ThreadSafe \<Rightarrow> int \<Rightarrow> 'a ThreadSafe \<times> bool" where
  "TS_Delete ts index =
     (if index < 0 \<or> index \<ge> int (length (ts_data ts)) then (ts, False)
      else (ts\<lparr>ts_data := take (nat index) (ts_data ts) @ drop (nat index + 1) (ts_data ts)\<rparr>, True))"

definition TS_DeleteByValue :: "'a ThreadSafe \<Rightarrow> 'a \<Rightarrow> 'a ThreadSafe \<times> bool" where
  "TS_DeleteByValue ts v =
     (ts\<lparr>ts_data := filter (\<lambda>x. x \<noteq> v) (ts_data ts)\<rparr>, list_ex (\<lambda>x. x = v) (ts_data ts))"

definition TS_Update :: "'a ThreadSafe \<Rightarrow> int \<Rightarrow> 'a \<Rightarrow> 'a ThreadSafe \<times> bool" where
  "TS_Update ts index v =
     (if index < 0 \<or> index \<ge> int (length (ts_data ts)) then (ts, False)
      else (ts\<lparr>ts_data := (ts_data ts)[nat index := v]\<rparr>, True))"

text \<open>\<open>List\<close> calls \<open>fn\<close> on the values in order until it answers false; \<open>fn\<close> threads its own state.\<close>

fun TS_List :: "'a list \<Rightarrow> ('s \<Rightarrow> 'a \<Rightarrow> 's \<times> bool) \<Rightarrow> 's \<Rightarrow> 's" where
  "TS_List [] fn st = st"
| "TS_List (v # vs) fn st = (case fn st v of (st', go) \<Rightarrow> if \<not> go then st' else TS_List vs fn st')"

definition TS_Clear :: "'a ThreadSafe \<Rightarrow> 'a ThreadSafe" where
  "TS_Clear ts = ts\<lparr>ts_data := []\<rparr>"

definition TS_Length :: "'a ThreadSafe \<Rightarrow> nat" where
  "TS_Length ts = length (ts_data ts)"

text \<open>\<open>Values\<close> hands out the slice itself; \<open>sort_by\<close> is \<open>slices.SortFunc\<close> of the standard library.\<close>

definition TS_Values :: "'a ThreadSafe \<Rightarrow> 'a list" where
  "TS_Values ts = ts_data ts"

definition TS_SortFunc ::
  "(('a \<Rightarrow> 'a \<Rightarrow> int) \<Rightarrow> 'a list \<Rightarrow> 'a list) \<Rightarrow> ('a \<Rightarrow> 'a \<Rightarrow> int) \<Rightarrow> 'a ThreadSafe \<Rightarrow> 'a ThreadSafe" where
  "TS_SortFunc sort_by cmp ts = ts\<lparr>ts_data := sort_by cmp (ts_data ts)\<rparr>"

section \<open>What the functions compute\<close>

lemma Filter_loop_eq: "Filter_loop keep s acc = acc @ filter keep s"
  by (induction s arbitrary: acc) auto

lemma Filter_eq [simp]: "Filter s keep = filter keep s"
  by (simp add: Filter_def Filter_loop_eq)

lemma Overlap_eq [simp]: "Overlap a b = filter (\<lambda>x. x \<in> set b) a"
  by (simp add: Overlap_def Filter_loop_eq)

lemma Difference_eq [simp]: "Difference a b = filter (\<lambda>x. x \<notin> set b) a"
  by (simp add: Difference_def Filter_loop_eq)

lemma RemoveFunc_eq [simp]: "RemoveFunc s f = filter (\<lambda>x. \<not> f x) s"
  by (simp add: RemoveFunc_def)

lemma FlatMap_loop_eq: "FlatMap_loop f s acc = acc @ concat (map f s)"
  by (induction s arbitrary: acc) auto

lemma FlatMap_eq [simp]: "FlatMap s f = concat (map f s)"
  by (simp add: FlatMap_def FlatMap_loop_eq)

lemma Clone_live [simp]: "live (Clone s) = live s"
  by (simp add: Clone_def)

lemma MatchAny_Some: "MatchAny c sub = Some v \<Longrightarrow> v \<in> set c \<and> v \<in> set sub"
  by (induction sub) (auto split: if_splits)

lemma MatchAny_None: "MatchAny c sub = None \<longleftrightarrow> set c \<inter> set sub = {}"
  by (induction sub) auto

lemma lookup_keys:
  "map_of (fold (\<lambda>v l. AList.update (f v) () l) b l0) k = None \<longleftrightarrow>
     map_of l0 k = None \<and> k \<notin> f ` set b"
  by (induction b arbitrary: l0) auto

lemma DifferenceCmp_eq: "DifferenceCmp a b cmp = filter (\<lambda>v. cmp v \<notin> cmp ` set b) a"
  by (simp add: DifferenceCmp_def Filter_loop_eq lookup_keys)

text \<open>
  The reference for \<open>UniqueCmp\<close>: keep an element, drop every later one with the same serial.
\<close>

fun first_by :: "('a \<Rightarrow> 'b) \<Rightarrow> 'a list \<Rightarrow> 'a list" where
  "first_by f [] = []"
| "first_by f (x # xs) = x # first_by f (filter (\<lambda>y. f y \<noteq> f x) xs)"

lemma UniqueCmp_loop_eq:
  "UniqueCmp_loop f s ex acc = acc @ first_by f (filter (\<lambda>x. map_of ex (f x) = None) s)"
proof (induction s arbitrary: ex acc)
  case (Cons x s)
  have "filter (\<lambda>y. map_of (AList.update (f x) x ex) (f y) = None) s =
      filter (\<lambda>y. f y \<noteq> f x) (filter (\<lambda>y. map_of ex (f y) = None) s)"
    by (auto intro: filter_cong)
  then show ?case by (auto simp: Cons.IH Let_def simp del: map_of_update)
qed simp

lemma set_first_by: "f ` set (first_by f s) = f ` set s"
  by (induction f s rule: first_by.induct) force+

lemma subset_first_by: "set (first_by f s) \<subseteq> set s"
  by (induction f s rule: first_by.induct) auto

lemma distinct_first_by: "distinct (map f (first_by f s))"
proof (induction f s rule: first_by.induct)
  case (2 f x xs)
  then show ?case using subset_first_by [of f "filter (\<lambda>y. f y \<noteq> f x) xs"] by auto
qed simp

lemma subseq_first_by: "subseq (first_by f s) s"
proof (induction f s rule: first_by.induct)
  case (2 f x xs)
  then show ?case by (auto intro: subseq_order.trans [OF _ subseq_filter_left])
qed simp

lemma UniqueCmp_eq: "UniqueCmp s f = first_by f s"
  by (simp add: UniqueCmp_def UniqueCmp_loop_eq)

lemma set_Unique [simp]: "set (Unique s) = set s"
  using set_first_by [of "\<lambda>e. e" s] by (simp add: Unique_def UniqueCmp_eq)

lemma distinct_Unique [simp]: "distinct (Unique s)"
  using distinct_first_by [of "\<lambda>e. e" s] by (simp add: Unique_def UniqueCmp_eq)

lemma wf_maps_Copy [simp]: "wf_map d \<Longrightarrow> wf_map (maps_Copy d s)"
  unfolding maps_Copy_def by (induction s arbitrary: d) auto

lemma map_of_maps_Copy: "wf_map s \<Longrightarrow> map_of (maps_Copy d s) = map_of d ++ map_of s"
proof (induction s arbitrary: d)
  case (Cons p s)
  obtain k v where p: "p = (k, v)" by (cases p)
  with Cons have "map_of (maps_Copy d (p # s)) = (map_of d)(k \<mapsto> v) ++ map_of s"
    by (simp add: maps_Copy_def)
  moreover have "k \<notin> dom (map_of s)" using Cons.prems p by (simp add: dom_map_of_conv_image_fst)
  ultimately show ?case by (auto simp: p map_add_def fun_eq_iff split: option.splits)
qed (simp add: maps_Copy_def)

lemma wf_MergeMap: "wf_map (MergeMap a bs)"
proof -
  have "wf_map c \<Longrightarrow> wf_map (fold (\<lambda>b c. maps_Copy c b) bs c)" for c :: "('a, 'b) gomap"
    by (induction bs arbitrary: c) auto
  then show ?thesis by (simp add: MergeMap_def)
qed

lemma map_of_MergeMap:
  assumes "wf_map a" "\<forall>b \<in> set bs. wf_map b"
  shows "map_of (MergeMap a bs) = fold (\<lambda>b c. c ++ map_of b) bs (map_of a)"
proof -
  have "map_of (fold (\<lambda>b c. maps_Copy c b) bs c) = fold (\<lambda>b c. c ++ map_of b) bs (map_of c)"
    for c :: "('a, 'b) gomap"
    using assms(2) by (induction bs arbitrary: c) (simp_all add: map_of_maps_Copy)
  then show ?thesis using assms(1) by (simp add: MergeMap_def map_of_maps_Copy)
qed

lemma map_of_Count_loop:
  "map_of (Count_loop s m) x =
     (if x \<in> set s then Some (count_list s x + (case map_of m x of None \<Rightarrow> 0 | Some n \<Rightarrow> n))
      else map_of m x)"
  by (induction s m rule: Count_loop.induct) (auto split: option.splits simp: count_list_0_iff)

lemma wf_DefaultMap_Update [simp]: "wf_map d \<Longrightarrow> wf_map (DefaultMap_Update d k v c)"
  by (simp add: DefaultMap_Update_def split: option.splits)

lemma map_of_DefaultMap_Update [simp]:
  "map_of (DefaultMap_Update d k v c) =
     (map_of d)(k \<mapsto> (case map_of d k of None \<Rightarrow> v | Some w \<Rightarrow> c w v))"
  by (simp add: DefaultMap_Update_def split: option.splits)

text \<open>How a merge combines the two sides at one key.\<close>

definition merged :: "('v \<Rightarrow> 'v \<Rightarrow> 'v) \<Rightarrow> 'v option \<Rightarrow> 'v option \<Rightarrow> 'v option" where
  "merged c old new =
     (case new of None \<Rightarrow> old
      | Some v \<Rightarrow> Some (case old of None \<Rightarrow> v | Some w \<Rightarrow> c w v))"

lemma map_of_DefaultMap_Merge:
  "wf_map other \<Longrightarrow>
   map_of (DefaultMap_Merge d other c) k = merged c (map_of d k) (map_of other k)"
proof (induction d other c rule: DefaultMap_Merge.induct)
  case (2 d k' v other c)
  show ?case
  proof (cases "k = k'")
    case True
    then have "map_of other k = None" using "2.prems" by (simp add: map_of_eq_None)
    with True 2 show ?thesis by (simp add: merged_def)
  next
    case False
    with 2 show ?thesis by simp
  qed
qed (simp add: merged_def)

section \<open>In-place removal\<close>

lemma arr_RemoveIndex_length [simp]: "wf_slice s \<Longrightarrow> length (arr (RemoveIndex s i)) = length (arr s)"
  by (cases s) (auto simp: wf_slice_def Let_def)

lemma RemoveIndex_out: "i < 0 \<or> int (len s) \<le> i \<Longrightarrow> RemoveIndex s i = s"
  by (cases s) auto

lemma len_RemoveIndex: "i < len s \<Longrightarrow> len (RemoveIndex s (int i)) = len s - 1"
  by (cases s) auto

lemma wf_RemoveIndex: "wf_slice s \<Longrightarrow> wf_slice (RemoveIndex s i)"
  by (cases s) (auto simp: wf_slice_def Let_def)

lemma live_RemoveIndex:
  assumes "wf_slice s" "i < len s"
  shows "live (RemoveIndex s (int i)) = take i (live s) @ drop (Suc i) (live s)"
proof (cases s)
  case (Slice a n)
  with assms have "i < n" "n \<le> length a" by (auto simp: wf_slice_def)
  moreover from this have "length (take i a @ take (n - 1 - i) (drop (i + 1) a)) = n - 1"
    by simp
  ultimately show ?thesis by (simp add: Slice live_def drop_take del: append_assoc flip: append_assoc)
qed

text \<open>
  What the holder of another header over the same array sees: the elements after the removed one
  have moved down and the last one stands twice.
\<close>

lemma caller_view_RemoveIndex:
  assumes "wf_slice s" "i < len s"
  shows "live (caller_view s (arr (RemoveIndex s (int i)))) =
    take i (live s) @ drop (Suc i) (live s) @ [last (live s)]"
proof (cases s)
  case (Slice a n)
  with assms have n: "i < n" "n \<le> length a" by (auto simp: wf_slice_def)
  then have last: "take (Suc 0) (drop (n - Suc 0) a) = [last (take n a)]"
    by (subst last_conv_nth) (auto simp: hd_drop_conv_nth take_Suc)
  have sz: "length (take i a @ take (n - 1 - i) (drop (i + 1) a)) = n - 1"
    using n by simp
  have "take n ((take i a @ take (n - 1 - i) (drop (i + 1) a)) @ drop (n - 1) a) =
      (take i a @ take (n - 1 - i) (drop (i + 1) a)) @ take 1 (drop (n - 1) a)"
    using n by (subst take_append, subst sz) simp
  then show ?thesis using n
    by (simp add: Slice caller_view_def live_def last drop_take)
qed

section \<open>Properties\<close>

text \<open>
  \<open>UniqueCmp\<close> keeps, in order, exactly the first element of every class of equal serials: the
  result is a subsequence of the input, its serials are pairwise different, and no serial of the
  input is lost.
\<close>

theorem UniqueCmp_first_of_each_class:
  "subseq (UniqueCmp s f) s \<and> distinct (map f (UniqueCmp s f)) \<and>
   f ` set (UniqueCmp s f) = f ` set s \<and> UniqueCmp s f = first_by f s"
  by (simp add: UniqueCmp_eq subseq_first_by distinct_first_by set_first_by)

text \<open>
  \<open>SymmetricDifferenceCmp\<close> returns the elements whose serial occurs on one side only, those
  of the first argument before those of the second, each side in its own order; on plain values
  it is the symmetric difference of the two sets.
\<close>

theorem SymmetricDifferenceCmp_spec:
  "SymmetricDifferenceCmp a b f =
     filter (\<lambda>v. f v \<notin> f ` set b) a @ filter (\<lambda>v. f v \<notin> f ` set a) b \<and>
   set (SymmetricDifference a b) = (set a - set b) \<union> (set b - set a)"
  by (auto simp: SymmetricDifferenceCmp_def DifferenceCmp_eq SymmetricDifference_def)

text \<open>
  \<open>RemoveIndex\<close> removes the element at a valid index from the slice it is given, leaves the
  slice alone for any other index, and never grows or shrinks the backing array. A second holder
  of the array (the caller of a variadic function) sees the tail moved down and the last element
  twice.
\<close>

theorem RemoveIndex_in_place:
  assumes "wf_slice s"
  shows "length (arr (RemoveIndex s i)) = length (arr s) \<and>
    (if 0 \<le> i \<and> i < int (len s)
     then live (RemoveIndex s i) = take (nat i) (live s) @ drop (Suc (nat i)) (live s) \<and>
       live (caller_view s (arr (RemoveIndex s i))) =
         take (nat i) (live s) @ drop (Suc (nat i)) (live s) @ [last (live s)]
     else RemoveIndex s i = s)"
proof (cases "0 \<le> i \<and> i < int (len s)")
  case True
  then have "int (nat i) = i" "nat i < len s" by auto
  with assms live_RemoveIndex [of s "nat i"] caller_view_RemoveIndex [of s "nat i"] True
  show ?thesis by (simp only: arr_RemoveIndex_length simp_thms if_True)
next
  case False
  with assms show ?thesis by (auto simp: RemoveIndex_out not_le)
qed

theorem RemoveIndex_in_place_witness:
  "live (RemoveIndex (slice_of [1, 2, 3::nat]) 0) = [2, 3] \<and>
   live (caller_view (slice_of [1, 2, 3::nat]) (arr (RemoveIndex (slice_of [1, 2, 3]) 0))) = [2, 3, 3]"
  using RemoveIndex_in_place [of "slice_of [1, 2, 3::nat]" 0] by simp

end
