(* ===== verification/Options.thy ===== *)
theory Options
  imports Errors Slices
begin

text \<open>
  The options of \<open>pkg/store/options.go\<close> and their serialisation,
  \<open>pkg/store/serialize_options.go\<close>.

  \<open>Option\<close> is \<open>any\<close> in Go: an option is recognised by its dynamic type. The type \<open>opt\<close> has
  one constructor per dynamic type the repository passes, \<open>OOther\<close> for a value of any further type
  (with the name of the type) and \<open>ONested\<close> for a \<open>[]Option\<close> inside the options. A matcher
  works on its own copy of the header and shifts the shared array; a nested slice is kept as a
  value inside its slot, so two slots that hold headers over one nested array are not related.
\<close>

section \<open>Options\<close>

datatype opt =
    ONil
  | OBool string bool
  | OString string string
  | OMap string "(string, string) gomap"
  | OSkipCache bool
  | OLabelSelector string
  | OLabels "(string, string) gomap"
  | ODoFunc nat
  | ORollback nat
  | OOther string
  | ONested "opt slice"

lemma size_list_take: "size_list f (take n xs) \<le> size_list f xs"
proof (induction xs arbitrary: n)
  case (Cons x xs)
  then show ?case by (cases n) auto
qed simp

lemma size_live: "size_list f (live s) \<le> size_slice f s"
  using size_list_take [of f "len s" "arr s"] by (cases s) (simp add: live_def)

lemma size_nested: "2 * size_list f (live s) \<le> Suc (Suc (2 * size_slice f s + 2 * n))"
  using size_live [of f s] by linarith

text \<open>
  \<open>MatchOption[T]\<close>. The type assertion \<open>option.(T)\<close> is the predicate \<open>P\<close>, \<open>skip\<close> is
  \<open>SkipConsume\<close>. The nested call passes no configuration, so it always consumes.
\<close>

function (sequential) MatchOption ::
    "(opt \<Rightarrow> bool) \<Rightarrow> bool \<Rightarrow> opt slice \<Rightarrow> opt option \<times> opt slice"
  and MatchOption_loop ::
    "(opt \<Rightarrow> bool) \<Rightarrow> bool \<Rightarrow> opt list \<Rightarrow> nat \<Rightarrow> opt slice \<Rightarrow> opt option \<times> opt slice"
where
  "MatchOption P skip opts = MatchOption_loop P skip (live opts) 0 opts"
| "MatchOption_loop P skip [] i opts = (None, opts)"
| "MatchOption_loop P skip (opt # rest) i opts =
     (if P opt then (Some opt, if \<not> skip then RemoveIndex opts (int i) else opts)
      else case opt of
          ONested v \<Rightarrow>
            (case MatchOption P False v of
               (Some nested, v') \<Rightarrow>
                 (let opts' = slice_set opts i (ONested v') in
                  (Some nested, if \<not> skip \<and> len v' = 0 then RemoveIndex opts' (int i) else opts'))
             | (None, _) \<Rightarrow> MatchOption_loop P skip rest (Suc i) opts)
        | _ \<Rightarrow> MatchOption_loop P skip rest (Suc i) opts)"
  by pat_completeness auto
termination
  by (relation "measure (case_sum (\<lambda>(P, skip, s). 2 * size_list size (live s) + 1)
      (\<lambda>(P, skip, xs, i, s). 2 * size_list size xs))")
    (auto simp: less_Suc_eq_le size_nested)

declare MatchOption.simps [simp del] MatchOption_loop.simps [simp del]

text \<open>
  \<open>MatchOptionBy[T]\<close> is the same loop where an option counts only if it has the type and
  satisfies the predicate.
\<close>

definition MatchOptionBy ::
  "(opt \<Rightarrow> bool) \<Rightarrow> (opt \<Rightarrow> bool) \<Rightarrow> bool \<Rightarrow> opt slice \<Rightarrow> opt option \<times> opt slice" where
  "MatchOptionBy is_T predicate skip opts = MatchOption (\<lambda>v. is_T v \<and> predicate v) skip opts"

text \<open>
  \<open>CheckOptionsExhausted\<close>: an option is left when it is not \<open>nil\<close> and, if it is a nested slice,
  that slice holds something other than \<open>nil\<close>.
\<close>

fun opt_left :: "opt \<Rightarrow> bool" where
  "opt_left ONil = False"
| "opt_left (ONested v) = list_ex (\<lambda>x. x \<noteq> ONil) (live v)"
| "opt_left _ = True"

definition CheckOptionsExhausted :: "opt slice \<Rightarrow> err option" where
  "CheckOptionsExhausted opts =
     (if len opts > 0 then
        if \<not> list_ex opt_left (live opts) then None
        else Some (Errorf ''unsupported option'' [Sentinel ErrUnsupportedOption])
      else None)"

section \<open>Typed option builders\<close>

text \<open>
  A builder returns a constructor and a matcher and registers a deserialiser. The matchers return
  the value and whether it was found, here an \<open>option\<close>, and the caller's new header.
\<close>

fun is_bool_key :: "string \<Rightarrow> opt \<Rightarrow> bool" where
  "is_bool_key key (OBool k _) = (k = key)"
| "is_bool_key key _ = False"

fun is_string_key :: "string \<Rightarrow> opt \<Rightarrow> bool" where
  "is_string_key key (OString k _) = (k = key)"
| "is_string_key key _ = False"

fun is_map_key :: "string \<Rightarrow> opt \<Rightarrow> bool" where
  "is_map_key key (OMap k _) = (k = key)"
| "is_map_key key _ = False"

definition match_bool :: "string \<Rightarrow> opt slice \<Rightarrow> bool option \<times> opt slice" where
  "match_bool key opts =
     (case MatchOptionBy (is_bool_key key) (\<lambda>_. True) False opts of
        (Some (OBool _ v), opts') \<Rightarrow> (Some v, opts') | (_, opts') \<Rightarrow> (None, opts'))"

definition match_string :: "string \<Rightarrow> opt slice \<Rightarrow> string option \<times> opt slice" where
  "match_string key opts =
     (case MatchOptionBy (is_string_key key) (\<lambda>_. True) False opts of
        (Some (OString _ v), opts') \<Rightarrow> (Some v, opts') | (_, opts') \<Rightarrow> (None, opts'))"

definition match_map ::
  "string \<Rightarrow> opt slice \<Rightarrow> (string, string) gomap option \<times> opt slice" where
  "match_map key opts =
     (case MatchOptionBy (is_map_key key) (\<lambda>_. True) False opts of
        (Some (OMap _ v), opts') \<Rightarrow> (Some v, opts') | (_, opts') \<Rightarrow> (None, opts'))"

definition DryRun :: opt where "DryRun = OBool ''dryRun'' True"
definition ListKeysOnly :: opt where "ListKeysOnly = OBool ''keysOnly'' True"
definition NoCache :: opt where "NoCache = OBool ''noCache'' True"
definition WithPrefix :: "string \<Rightarrow> opt" where "WithPrefix p = OString ''prefix'' p"

text \<open>\<open>dryRun, _ := MatchDryRun(&opts)\<close>: the value, which is false when the option is absent.\<close>

definition MatchDryRun :: "opt slice \<Rightarrow> bool option \<times> opt slice" where
  "MatchDryRun = match_bool ''dryRun''"

definition MatchListKeyOnly :: "opt slice \<Rightarrow> bool option \<times> opt slice" where
  "MatchListKeyOnly = match_bool ''keysOnly''"

definition MatchNoCache :: "opt slice \<Rightarrow> bool option \<times> opt slice" where
  "MatchNoCache = match_bool ''noCache''"

definition MatchPrefix :: "opt slice \<Rightarrow> string option \<times> opt slice" where
  "MatchPrefix = match_string ''prefix''"

abbreviation or_false :: "bool option \<Rightarrow> bool" where
  "or_false b \<equiv> b = Some True"

definition or_empty :: "string option \<Rightarrow> string" where
  "or_empty v = (case v of None \<Rightarrow> [] | Some x \<Rightarrow> x)"

section \<open>Serialisation\<close>

text \<open>
  \<open>labels_String\<close> is \<open>labels.Set.String\<close> and \<open>parse_labels\<close> is
  \<open>labels.ConvertSelectorToLabelsMap\<close> of Kubernetes. \<open>None\<close> means that the type has no method
  \<open>Serialize\<close>.
\<close>

definition bool_text :: "bool \<Rightarrow> string" where
  "bool_text b = (if b then ''true'' else ''false'')"

fun Serialize ::
  "((string, string) gomap \<Rightarrow> string) \<Rightarrow> opt \<Rightarrow> (string \<times> string) option" where
  "Serialize labels_String (OBool k v) = Some (k, bool_text v)"
| "Serialize labels_String (OString k v) = Some (k, v)"
| "Serialize labels_String (OMap k m) = Some (k, labels_String m)"
| "Serialize labels_String (OSkipCache v) = Some (''skipCache'', bool_text v)"
| "Serialize labels_String (OLabelSelector v) = Some (''labelSelector'', v)"
| "Serialize labels_String (OLabels m) = Some (''labels'', labels_String m)"
| "Serialize labels_String _ = None"

fun SerializeOptions_loop ::
  "((string, string) gomap \<Rightarrow> string) \<Rightarrow> opt list \<Rightarrow> (string, string) gomap \<Rightarrow>
   err + (string, string) gomap" where
  "SerializeOptions_loop labels_String [] acc = Inr acc"
| "SerializeOptions_loop labels_String (opt # opts) acc =
     (case Serialize labels_String opt of
        None \<Rightarrow> Inl (Sentinel ErrNotSerializable)
      | Some (key, v) \<Rightarrow> SerializeOptions_loop labels_String opts (AList.update key v acc))"

definition SerializeOptions ::
  "((string, string) gomap \<Rightarrow> string) \<Rightarrow> opt list \<Rightarrow> err + (string, string) gomap" where
  "SerializeOptions labels_String opts = SerializeOptions_loop labels_String opts []"

text \<open>The registry maps a key to its deserialiser; the last registration of a key wins.\<close>

type_synonym registry = "(string, string \<Rightarrow> err + opt) gomap"

definition register_bool :: "string \<Rightarrow> registry \<Rightarrow> registry" where
  "register_bool key = AList.update key (\<lambda>val. Inr (OBool key (val = ''true'')))"

definition register_string :: "string \<Rightarrow> registry \<Rightarrow> registry" where
  "register_string key = AList.update key (\<lambda>val. Inr (OString key val))"

definition register_map ::
  "(string \<Rightarrow> err + (string, string) gomap) \<Rightarrow> string \<Rightarrow> registry \<Rightarrow> registry" where
  "register_map parse_labels key = AList.update key
     (\<lambda>val. case parse_labels val of Inl e \<Rightarrow> Inl e | Inr m \<Rightarrow> Inr (OMap key m))"

definition register :: "string \<Rightarrow> (string \<Rightarrow> err + opt) \<Rightarrow> registry \<Rightarrow> registry" where
  "register key deserialize = AList.update key deserialize"

text \<open>The registrations of the packages \<open>store\<close>, \<open>labels\<close> and \<open>cache\<close>.\<close>

definition builtin_registry :: "(string \<Rightarrow> err + (string, string) gomap) \<Rightarrow> registry" where
  "builtin_registry parse_labels =
     register ''skipCache'' (\<lambda>val. Inr (OSkipCache (val = ''true'')))
      (register_map parse_labels ''labels''
       (register_string ''labelSelector''
        (register_bool ''keysOnly''
         (register_bool ''noCache'' (register_string ''prefix'' (register_bool ''dryRun'' []))))))"

fun UnserializeOptions_loop ::
  "registry \<Rightarrow> (string \<times> string) list \<Rightarrow> opt list \<Rightarrow> err + opt list" where
  "UnserializeOptions_loop reg [] opts = Inr opts"
| "UnserializeOptions_loop reg ((key, v) # params) opts =
     (case map_of reg key of
        None \<Rightarrow> Inl (Errorf (''cannot match deserializer for key '' @ key)
          [Sentinel ErrUnsupportedOption])
      | Some deserializer \<Rightarrow>
          (case deserializer v of
             Inl e \<Rightarrow> Inl (Errorf (''cannot deserialize key '' @ key)
               [Sentinel ErrUnsupportedOption, e])
           | Inr opt \<Rightarrow> UnserializeOptions_loop reg params (opts @ [opt])))"

definition UnserializeOptions ::
  "registry \<Rightarrow> (string, string) gomap \<Rightarrow> err + opt list" where
  "UnserializeOptions reg params = UnserializeOptions_loop reg params []"

section \<open>Matching short option lists\<close>

lemma MatchOption_empty [simp, option_simps]:
  "MatchOption P skip (Slice a 0) = (None, Slice a 0)"
  by (simp add: MatchOption.simps MatchOption_loop.simps)

lemma MatchOption_hit [option_simps]:
  "P x \<Longrightarrow> MatchOption P False (Slice [x] (Suc 0)) = (Some x, Slice [x] 0)"
  by (simp add: MatchOption.simps MatchOption_loop.simps live_def)

lemma MatchOption_miss [option_simps]:
  "\<not> P x \<Longrightarrow> (\<And>v. x \<noteq> ONested v) \<Longrightarrow>
   MatchOption P skip (Slice [x] (Suc 0)) = (None, Slice [x] (Suc 0))"
  by (cases x) (auto simp: MatchOption.simps MatchOption_loop.simps live_def)

lemmas matcher_defs = MatchDryRun_def MatchListKeyOnly_def MatchNoCache_def MatchPrefix_def
  match_bool_def match_string_def match_map_def MatchOptionBy_def

lemma match_empty [simp]:
  "match_bool key (Slice a 0) = (None, Slice a 0)"
  "match_string key (Slice a 0) = (None, Slice a 0)"
  "match_map key (Slice a 0) = (None, Slice a 0)"
  by (simp_all add: matcher_defs)

lemma MatchDryRun_empty [simp]: "MatchDryRun (Slice a 0) = (None, Slice a 0)"
  by (simp add: MatchDryRun_def)

lemma MatchListKeyOnly_empty [simp]: "MatchListKeyOnly (Slice a 0) = (None, Slice a 0)"
  by (simp add: MatchListKeyOnly_def)

lemma MatchPrefix_empty [simp]: "MatchPrefix (Slice a 0) = (None, Slice a 0)"
  by (simp add: MatchPrefix_def)

lemma MatchDryRun_DryRun [simp]:
  "MatchDryRun (Slice [DryRun] (Suc 0)) = (Some True, Slice [DryRun] 0)"
  by (simp add: matcher_defs option_simps DryRun_def)

lemma MatchPrefix_WithPrefix [simp]:
  "MatchPrefix (Slice [WithPrefix p] (Suc 0)) = (Some p, Slice [WithPrefix p] 0)"
  by (simp add: matcher_defs option_simps WithPrefix_def)

lemma MatchListKeyOnly_WithPrefix [simp]:
  "MatchListKeyOnly (Slice [WithPrefix p] (Suc 0)) = (None, Slice [WithPrefix p] (Suc 0))"
  by (simp add: matcher_defs option_simps WithPrefix_def)

lemma CheckOptionsExhausted_empty [simp]: "CheckOptionsExhausted (Slice a 0) = None"
  by (simp add: CheckOptionsExhausted_def)

lemma or_empty_simps [simp]: "or_empty None = []" "or_empty (Some x) = x"
  by (simp_all add: or_empty_def)

section \<open>Deep matching\<close>

text \<open>The leaves of an option tree in the order the matcher visits them, and well-formed headers.\<close>

lemma size_live_less: "x \<in> set (live v) \<Longrightarrow> size x < Suc (size_slice size v)"
  using size_live [of size v] size_list_estimation' [of x "live v" "size x" size] by simp

function flatten_opt :: "opt \<Rightarrow> opt list" where
  "flatten_opt (ONested v) = concat (map flatten_opt (live v))"
| "(\<And>v. x \<noteq> ONested v) \<Longrightarrow> flatten_opt x = [x]"
  by (atomize_elim, auto)
termination
  by (relation "measure size") (auto simp: size_live_less)

definition flatten :: "opt list \<Rightarrow> opt list" where
  "flatten xs = concat (map flatten_opt xs)"

function wf_opt :: "opt \<Rightarrow> bool" where
  "wf_opt (ONested v) \<longleftrightarrow> wf_slice v \<and> list_all wf_opt (live v)"
| "(\<And>v. x \<noteq> ONested v) \<Longrightarrow> wf_opt x \<longleftrightarrow> True"
  by (atomize_elim, auto)
termination
  by (relation "measure size") (auto simp: size_live_less)

definition wf_opts :: "opt slice \<Rightarrow> bool" where
  "wf_opts s \<longleftrightarrow> wf_slice s \<and> list_all wf_opt (live s)"

lemma flatten_simps [simp]:
  "flatten [] = []" "flatten (x # xs) = flatten_opt x @ flatten xs"
  "flatten (xs @ ys) = flatten xs @ flatten ys"
  by (simp_all add: flatten_def)

lemma flatten_opt_nested [simp]: "flatten_opt (ONested v) = flatten (live v)"
  by (simp add: flatten_def)

declare flatten_opt.simps(1) [simp del]

text \<open>What a match leaves behind, for a loop that starts at index \<open>i\<close>.\<close>

definition consumed :: "(opt \<Rightarrow> bool) \<Rightarrow> opt list \<Rightarrow> opt list \<Rightarrow> opt slice \<Rightarrow>
    opt option \<times> opt slice \<Rightarrow> bool" where
  "consumed P before rest opts r =
     (case r of
        (None, opts') \<Rightarrow> opts' = opts \<and> (\<forall>y \<in> set (flatten rest). \<not> P y)
      | (Some x, opts') \<Rightarrow> wf_opts opts' \<and> P x \<and>
          (\<exists>a b. flatten rest = a @ x # b \<and> (\<forall>y \<in> set a. \<not> P y) \<and>
             flatten (live opts') = flatten before @ a @ b))"

lemma wf_opts_RemoveIndex:
  assumes "wf_opts s" "i < len s"
  shows "wf_opts (RemoveIndex s (int i))"
  using assms wf_RemoveIndex [of s "int i"]
  by (auto simp: wf_opts_def live_RemoveIndex list_all_iff dest: in_set_takeD in_set_dropD)

lemma wf_opts_slice_set:
  assumes "wf_opts s" "wf_opt x"
  shows "wf_opts (slice_set s i x)"
proof -
  have "wf_slice (slice_set s i x)"
    using assms(1) by (simp add: wf_opts_def wf_slice_def slice_set_def)
  moreover have "list_all wf_opt (live (slice_set s i x))"
    using assms set_update_subset_insert [of "live s" i x]
    by (auto simp: wf_opts_def live_slice_set list_all_iff)
  ultimately show ?thesis by (simp add: wf_opts_def)
qed

lemma consumed_step:
  assumes "\<forall>y \<in> set (flatten_opt x). \<not> P y" "consumed P (before @ [x]) rest opts r"
  shows "consumed P before (x # rest) opts r"
proof (cases "fst r")
  case None
  with assms show ?thesis by (auto simp: consumed_def split: prod.splits)
next
  case (Some y)
  then obtain opts' a b where r: "r = (Some y, opts')" "wf_opts opts'" "P y"
      "flatten rest = a @ y # b" "\<forall>z \<in> set a. \<not> P z"
      "flatten (live opts') = (flatten before @ flatten_opt x) @ a @ b"
    using assms(2) by (cases r) (auto simp: consumed_def)
  then have "flatten (x # rest) = (flatten_opt x @ a) @ y # b"
    "\<forall>z \<in> set (flatten_opt x @ a). \<not> P z"
    "flatten (live opts') = flatten before @ (flatten_opt x @ a) @ b" using assms(1) by auto
  then have "\<exists>a b. flatten (x # rest) = a @ y # b \<and> (\<forall>z \<in> set a. \<not> P z) \<and>
      flatten (live opts') = flatten before @ a @ b" by blast
  with r(2,3) show ?thesis unfolding consumed_def r(1) by simp
qed

text \<open>The two ways a loop stops at the element in slot \<open>i\<close>.\<close>

lemma consumed_here:
  assumes "wf_opts s" "i < len s" "live s ! i = x" "flatten_opt x = [x]" "P x"
  shows "consumed P (take i (live s)) (x # drop (Suc i) (live s)) s
    (Some x, RemoveIndex s (int i))"
proof -
  have "live (RemoveIndex s (int i)) = take i (live s) @ drop (Suc i) (live s)"
    using assms(1,2) by (simp add: live_RemoveIndex wf_opts_def)
  then have "flatten (live (RemoveIndex s (int i))) =
      flatten (take i (live s)) @ [] @ flatten (drop (Suc i) (live s))"
    by simp
  moreover have "flatten (x # drop (Suc i) (live s)) = [] @ x # flatten (drop (Suc i) (live s))"
    using assms(4) by simp
  ultimately show ?thesis
    using assms wf_opts_RemoveIndex [of s i] unfolding consumed_def by fastforce
qed

lemma consumed_nested:
  assumes s: "wf_opts s" "i < len s"
    and v: "consumed P [] (live v) v (Some y, v')" "wf_opts v'"
  defines "s' \<equiv> slice_set s i (ONested v')"
  shows "consumed P (take i (live s)) (ONested v # drop (Suc i) (live s)) s
    (Some y, if len v' = 0 then RemoveIndex s' (int i) else s')"
proof -
  obtain a b where ab: "flatten (live v) = a @ y # b" "\<forall>z \<in> set a. \<not> P z"
      "flatten (live v') = a @ b" "P y"
    using v(1) by (auto simp: consumed_def)
  have len: "len s' = len s" and wf: "wf_opts s'"
    using s v(2) by (auto simp: s'_def slice_set_def wf_opts_def [of v'] intro!: wf_opts_slice_set
        [unfolded slice_set_def])
  have i: "i < length (live s)" using s by (simp add: length_live wf_opts_def)
  have live: "live s' = take i (live s) @ ONested v' # drop (Suc i) (live s)"
    using i by (simp add: s'_def live_slice_set upd_conv_take_nth_drop)
  have "flatten (live (if len v' = 0 then RemoveIndex s' (int i) else s')) =
      flatten (take i (live s)) @ a @ b @ flatten (drop (Suc i) (live s))"
  proof (cases "len v' = 0")
    case True
    then have "a @ b = []" using ab(3) by (cases v') simp
    with True wf len s live i show ?thesis by (simp add: live_RemoveIndex wf_opts_def)
  next
    case False
    with live ab(3) show ?thesis by simp
  qed
  moreover have "wf_opts (if len v' = 0 then RemoveIndex s' (int i) else s')"
    using wf len s wf_opts_RemoveIndex [of s' i] by simp
  moreover have "flatten (ONested v # drop (Suc i) (live s)) =
      a @ y # b @ flatten (drop (Suc i) (live s))" using ab(1) by simp
  ultimately show ?thesis using ab(2,4) unfolding consumed_def by fastforce
qed

lemma take_Suc_drop:
  assumes "drop i xs = x # rest"
  shows "i < length xs" "xs ! i = x" "take (Suc i) xs = take i xs @ [x]" "rest = drop (Suc i) xs"
proof -
  show i: "i < length xs" using assms by (metis drop_eq_Nil list.distinct(1) not_le)
  then show x: "xs ! i = x" using assms by (simp add: nth_via_drop)
  show "take (Suc i) xs = take i xs @ [x]" using i x by (simp add: take_Suc_conv_app_nth)
  show "rest = drop (Suc i) xs" using assms by (metis drop_Suc list.sel(3) tl_drop)
qed

lemma wf_opts_nested: "wf_opts s \<Longrightarrow> ONested v \<in> set (live s) \<Longrightarrow> wf_opts v"
  by (auto simp: wf_opts_def list_all_iff)

lemma MatchOption_consumed:
  shows "wf_opts s \<Longrightarrow> (\<And>v. \<not> P (ONested v)) \<Longrightarrow> \<not> skip \<Longrightarrow>
      consumed P [] (live s) s (MatchOption P skip s)"
    and "wf_opts s \<Longrightarrow> (\<And>v. \<not> P (ONested v)) \<Longrightarrow> \<not> skip \<Longrightarrow> drop i (live s) = xs \<Longrightarrow>
      consumed P (take i (live s)) xs s (MatchOption_loop P skip xs i s)"
proof (induction P skip s and P skip xs i s rule: MatchOption_MatchOption_loop.induct)
  case (1 P skip opts)
  then show ?case by (simp add: MatchOption.simps)
next
  case (2 P skip i opts)
  then show ?case by (simp add: MatchOption_loop.simps consumed_def)
next
  case (3 P skip x rest i opts)
  note d = take_Suc_drop [OF "3.prems"(4)]
  have i: "i < len opts" using d(1) "3.prems"(1) by (simp add: length_live wf_opts_def)
  have next_slot: "consumed P (take i (live opts)) (x # rest) opts
      (MatchOption_loop P skip rest (Suc i) opts)"
    if "consumed P (take (Suc i) (live opts)) rest opts (MatchOption_loop P skip rest (Suc i) opts)"
      "\<forall>y \<in> set (flatten_opt x). \<not> P y"
    using that consumed_step d(3) by metis
  show ?case
  proof (cases "P x")
    case True
    then have "flatten_opt x = [x]" using "3.prems"(2) by (cases x) auto
    with True "3.prems" i d show ?thesis
      by (simp add: MatchOption_loop.simps consumed_here)
  next
    case False
    show ?thesis
    proof (cases "\<exists>v. x = ONested v")
      case True
      then obtain v where x: "x = ONested v" by blast
      have wf: "wf_opts v" using wf_opts_nested [OF "3.prems"(1)] d(1,2) x by (metis nth_mem)
      have v: "consumed P [] (live v) v (MatchOption P False v)"
        using "3.IH"(11) [OF False x wf] "3.prems"(2) by blast
      show ?thesis
      proof (cases "MatchOption P False v")
        case (Pair r v')
        show ?thesis
        proof (cases r)
          case None
          with v Pair have "\<forall>y \<in> set (flatten_opt x). \<not> P y" by (simp add: consumed_def x)
          moreover have "consumed P (take (Suc i) (live opts)) rest opts
              (MatchOption_loop P skip rest (Suc i) opts)"
            using "3.IH"(12) [OF False x Pair [symmetric] None] "3.prems" d(4) by blast
          ultimately show ?thesis
            using next_slot None Pair False x by (simp add: MatchOption_loop.simps)
        next
          case (Some y)
          then have "wf_opts v'" using v Pair by (simp add: consumed_def)
          with consumed_nested [OF "3.prems"(1) i v [unfolded Pair Some]] show ?thesis
            using Some Pair False x "3.prems"(3) d(4)
            by (simp add: MatchOption_loop.simps Let_def)
        qed
      qed
    next
      case nested: False
      then have "flatten_opt x = [x]" by simp
      moreover have "MatchOption_loop P skip (x # rest) i opts =
          MatchOption_loop P skip rest (Suc i) opts"
        using nested False by (cases x) (auto simp: MatchOption_loop.simps)
      moreover have "consumed P (take (Suc i) (live opts)) rest opts
          (MatchOption_loop P skip rest (Suc i) opts)"
        using "3.IH"(1-10) [OF False _ "3.prems"(1-3) d(4) [symmetric]] nested by (cases x) blast+
      ultimately show ?thesis using next_slot False by simp
    qed
  qed
qed

section \<open>Round trip of the serialisation\<close>

text \<open>The options the registry can rebuild, given what the label printer and parser do.\<close>

fun registered ::
  "((string, string) gomap \<Rightarrow> string) \<Rightarrow> (string \<Rightarrow> err + (string, string) gomap) \<Rightarrow> opt \<Rightarrow> bool"
where
  "registered labels_String parse_labels (OBool k v) \<longleftrightarrow> k \<in> {''dryRun'', ''noCache'', ''keysOnly''}"
| "registered labels_String parse_labels (OString k v) \<longleftrightarrow> k \<in> {''prefix'', ''labelSelector''}"
| "registered labels_String parse_labels (OMap k m) \<longleftrightarrow>
     k = ''labels'' \<and> parse_labels (labels_String m) = Inr m"
| "registered labels_String parse_labels (OSkipCache v) \<longleftrightarrow> True"
| "registered labels_String parse_labels _ \<longleftrightarrow> False"

definition wire :: "((string, string) gomap \<Rightarrow> string) \<Rightarrow> opt \<Rightarrow> string \<times> string" where
  "wire labels_String opt = the (Serialize labels_String opt)"

lemma bool_text_eq [simp]: "bool_text b = ''true'' \<longleftrightarrow> b"
  by (simp add: bool_text_def)

lemma registered_decodes:
  assumes "registered ls pl opt"
  obtains k v d where "Serialize ls opt = Some (k, v)" "wire ls opt = (k, v)"
    "map_of (builtin_registry pl) k = Some d" "d v = Inr opt"
proof -
  have "\<exists>k v d. Serialize ls opt = Some (k, v) \<and> map_of (builtin_registry pl) k = Some d \<and>
      d v = Inr opt"
    using assms
    by (cases opt) (auto simp: builtin_registry_def register_bool_def register_string_def
        register_map_def register_def)
  then show thesis using that by (auto simp: wire_def)
qed

lemma SerializeOptions_loop_wire:
  assumes "\<forall>x \<in> set opts. registered ls pl x"
    and "distinct (map fst acc @ map (\<lambda>x. fst (wire ls x)) opts)"
  shows "SerializeOptions_loop ls opts acc = Inr (acc @ map (wire ls) opts)"
  using assms
proof (induction opts arbitrary: acc)
  case (Cons x opts)
  from Cons.prems(1) obtain k v d where x: "Serialize ls x = Some (k, v)" "wire ls x = (k, v)"
    by (auto elim!: registered_decodes)
  moreover have "AList.update k v acc = acc @ [(k, v)]"
    using Cons.prems(2) x(2) by (intro update_new_key) auto
  ultimately show ?case using Cons by simp
qed simp

lemma UnserializeOptions_loop_wire:
  assumes "set m \<subseteq> wire ls ` {x. registered ls pl x}"
  shows "\<exists>opts. UnserializeOptions_loop (builtin_registry pl) m acc = Inr (acc @ opts) \<and>
    list_all (registered ls pl) opts \<and> map (wire ls) opts = m"
  using assms
proof (induction m arbitrary: acc)
  case (Cons p m)
  then obtain x where x: "registered ls pl x" "wire ls x = p" by auto
  then obtain k v d where "p = (k, v)" "map_of (builtin_registry pl) k = Some d" "d v = Inr x"
    by (auto elim!: registered_decodes)
  then have "UnserializeOptions_loop (builtin_registry pl) (p # m) acc =
      UnserializeOptions_loop (builtin_registry pl) m (acc @ [x])" by simp
  moreover obtain opts where
      "UnserializeOptions_loop (builtin_registry pl) m (acc @ [x]) = Inr ((acc @ [x]) @ opts)"
      "list_all (registered ls pl) opts" "map (wire ls) opts = m"
    using Cons.IH [of "acc @ [x]"] Cons.prems by auto
  ultimately show ?case using x by (intro exI [of _ "x # opts"]) simp
qed simp

lemma wire_inject:
  assumes "registered ls pl x" "registered ls pl y" "wire ls x = wire ls y"
  shows "x = y"
  using assms by (elim registered_decodes) auto

section \<open>Properties\<close>

text \<open>
  \<open>MatchOption\<close> finds the first leaf of the requested type in a depth-first walk through the
  nested slices, whatever the nesting, and removes exactly that leaf: the leaves that remain, in
  order, are the old ones without it, and no header grows past its array. When no leaf has the
  type, nothing is found and the options stay as they were.
\<close>

theorem MatchOption_first_leaf:
  assumes "wf_opts s" "\<And>v. \<not> P (ONested v)"
  shows "case MatchOption P False s of
      (Some x, s') \<Rightarrow> wf_opts s' \<and> P x \<and>
        (\<exists>a b. flatten (live s) = a @ x # b \<and> (\<forall>y \<in> set a. \<not> P y) \<and> flatten (live s') = a @ b)
    | (None, s') \<Rightarrow> s' = s \<and> (\<forall>y \<in> set (flatten (live s)). \<not> P y)"
  using MatchOption_consumed(1) [of s P False, OF assms]
  by (auto simp: consumed_def split: prod.splits option.splits)

theorem MatchOption_first_leaf_witness:
  "fst (MatchOption (is_bool_key ''dryRun'') False
     (slice_of [OOther ''x'', ONested (slice_of [ONil, DryRun])])) = Some DryRun \<and>
   \<not> (\<forall>y \<in> set (flatten (live (slice_of [OOther ''x'', ONested (slice_of [ONil, DryRun])]))).
       \<not> is_bool_key ''dryRun'' y)"
proof -
  let ?s = "slice_of [OOther ''x'', ONested (slice_of [ONil, DryRun])]"
  have "wf_opts ?s" by (simp add: wf_opts_def DryRun_def)
  note * = MatchOption_first_leaf [OF this, of "is_bool_key ''dryRun''"]
  have "fst (MatchOption (is_bool_key ''dryRun'') False ?s) = Some DryRun"
    by (simp add: MatchOption.simps MatchOption_loop.simps DryRun_def slice_of_def live_def)
  with * show ?thesis by (simp add: DryRun_def split: prod.splits option.splits)
qed

text \<open>
  C5. Serialising options with pairwise different keys and unserialising the map, read in any
  iteration order, gives the same options back, up to that order. It needs of the label printer
  only that the labels in question can be parsed back.
\<close>

theorem options_wire_roundtrip:
  assumes "\<forall>x \<in> set opts. registered labels_String parse_labels x"
    and "distinct (map (fst \<circ> wire labels_String) opts)"
  shows "\<exists>m. SerializeOptions labels_String opts = Inr m \<and> wf_map m \<and>
    (\<forall>m'. mset m' = mset m \<longrightarrow>
       (\<exists>opts'. UnserializeOptions (builtin_registry parse_labels) m' = Inr opts' \<and>
          mset opts' = mset opts))"
proof (rule exI [of _ "map (wire labels_String) opts"], intro conjI allI impI)
  let ?m = "map (wire labels_String) opts"
  show "SerializeOptions labels_String opts = Inr ?m"
    using SerializeOptions_loop_wire [of opts labels_String parse_labels "[]"] assms
    by (simp add: SerializeOptions_def comp_def)
  show "wf_map ?m" using assms(2) by (simp add: comp_def)
  fix m' assume m': "mset m' = mset ?m"
  then have "set m' = set ?m" by (metis set_mset_mset)
  with assms(1) have "set m' \<subseteq> wire labels_String ` {x. registered labels_String parse_labels x}"
    by auto
  then obtain opts' where o': "UnserializeOptions (builtin_registry parse_labels) m' = Inr opts'"
      "list_all (registered labels_String parse_labels) opts'" "map (wire labels_String) opts' = m'"
    using UnserializeOptions_loop_wire [of m' labels_String parse_labels "[]"]
    by (auto simp: UnserializeOptions_def)
  have inj: "inj_on (wire labels_String) (set opts \<union> set opts')"
    using assms(1) o'(2) by (auto intro!: inj_onI wire_inject simp: list_all_iff)
  have "image_mset (wire labels_String) (mset opts') =
      image_mset (wire labels_String) (mset opts)"
    using m' o'(3) by (metis mset_map)
  moreover have "map (inv_into (set opts \<union> set opts') (wire labels_String) \<circ> wire labels_String) xs = xs"
    if "set xs \<subseteq> set opts \<union> set opts'" for xs
    using that inj by (intro map_idI) auto
  then have "image_mset (inv_into (set opts \<union> set opts') (wire labels_String))
      (image_mset (wire labels_String) (mset xs)) = mset xs"
    if "set xs \<subseteq> set opts \<union> set opts'" for xs
    using that by (simp flip: mset_map add: map_map)
  ultimately have "mset opts' = mset opts" by (metis sup_ge1 sup_ge2)
  with o'(1) show "\<exists>opts'. UnserializeOptions (builtin_registry parse_labels) m' = Inr opts' \<and>
      mset opts' = mset opts" by blast
qed

theorem options_wire_roundtrip_witness:
  "\<exists>opts'. UnserializeOptions (builtin_registry (\<lambda>_. Inr [(''a'', ''b'')]))
      [(''labels'', ''a=b''), (''dryRun'', ''true'')] = Inr opts' \<and>
    mset opts' = {#DryRun, OMap ''labels'' [(''a'', ''b'')]#}"
proof -
  let ?opts = "[DryRun, OMap ''labels'' [(''a'', ''b'')]]"
  have *: "\<forall>x \<in> set ?opts. registered (\<lambda>_. ''a=b'') (\<lambda>_. Inr [(''a'', ''b'')]) x"
    by (simp add: DryRun_def)
  have "distinct (map (fst \<circ> wire (\<lambda>_. ''a=b'')) ?opts)" by (simp add: wire_def DryRun_def)
  from options_wire_roundtrip [OF * this] show ?thesis
    by (simp add: SerializeOptions_def DryRun_def bool_text_def)
qed

end
