(* ===== verification/Store_API.thy ===== *)
theory Store_API
  imports Options
begin

text \<open>
  The interface \<open>Store\<close> of \<open>pkg/store/store.go\<close>, its helpers \<open>AsMap\<close>, \<open>Reset\<close> and
  \<open>New\<close>, and the contract that backends and middlewares share.

  A store is a record of operations over a state \<open>'s\<close>. An operation takes a copy of the
  caller's slice header \<open>opts\<close> and returns the new state, the array it leaves behind the
  header (\<open>caller_view\<close> is what its caller then sees) and the result. A middleware is a function
  from records to records.

  The locale \<open>kv_store\<close> says what a store promises for calls without options: it implements a
  finite map \<open>abs s\<close> for the keys and values it supports (\<open>kok\<close>, \<open>vok\<close>). The locale
  \<open>typed_store\<close> adds which errors it returns. The clients of a store (\<open>Reset\<close>, \<open>AsMap\<close>,
  \<open>DefaultMap\<close>, a sequence of calls) are verified once, inside these locales.
\<close>

section \<open>Operations\<close>

type_synonym ('s, 'r) outcome = "'s \<times> opt list \<times> 'r"

type_synonym ('k, 'v) ListItems = "('k \<times> 'v) list"

record ('s, 'k, 'v) store =
  Create :: "opt slice \<Rightarrow> 'k \<Rightarrow> 'v \<Rightarrow> 's \<Rightarrow> ('s, err option) outcome"
  Read :: "opt slice \<Rightarrow> 'k \<Rightarrow> 's \<Rightarrow> ('s, err + 'v) outcome"
  Update :: "opt slice \<Rightarrow> 'k \<Rightarrow> 'v \<Rightarrow> 's \<Rightarrow> ('s, err option) outcome"
  Apply :: "opt slice \<Rightarrow> 'k \<Rightarrow> 'v \<Rightarrow> 's \<Rightarrow> ('s, err option) outcome"
  Delete :: "opt slice \<Rightarrow> 'k \<Rightarrow> 's \<Rightarrow> ('s, err option) outcome"
  List :: "opt slice \<Rightarrow> 's \<Rightarrow> ('s, err + ('k, 'v) ListItems) outcome"

definition Keys :: "('k, 'v) ListItems \<Rightarrow> 'k list" where
  "Keys items = Transform items fst"

definition items_AsMap :: "('k, 'v) ListItems \<Rightarrow> ('k, 'v) gomap" where
  "items_AsMap items = fold (\<lambda>(k, v) m. AList.update k v m) items []"

definition AsMap ::
  "('s, 'k, 'v) store \<Rightarrow> opt slice \<Rightarrow> 's \<Rightarrow> ('s, err + ('k, 'v) gomap) outcome" where
  "AsMap S listOptions s =
     (case List S listOptions s of
        (s, a, Inl e) \<Rightarrow> (s, a, Inl e)
      | (s, a, Inr items) \<Rightarrow> (s, a, Inr (items_AsMap items)))"

fun Reset_loop ::
  "('s, 'k, 'v) store \<Rightarrow> ('k, 'v) ListItems \<Rightarrow> 's \<Rightarrow> 's \<times> err option" where
  "Reset_loop S [] s = (s, None)"
| "Reset_loop S ((k, v) # items) s =
     (case Delete S nil_slice k s of
        (s, _, Some e) \<Rightarrow> (s, Some e)
      | (s, _, None) \<Rightarrow> Reset_loop S items s)"

definition Reset :: "('s, 'k, 'v) store \<Rightarrow> 's \<Rightarrow> 's \<times> err option" where
  "Reset S s =
     (case List S nil_slice s of
        (s, _, Inl e) \<Rightarrow> (s, Some e)
      | (s, _, Inr items) \<Rightarrow> Reset_loop S items s)"

text \<open>\<open>New\<close> applies the builders from left to right and stops at the first error.\<close>

fun New_loop :: "('st \<Rightarrow> err + 'st) list \<Rightarrow> 'st \<Rightarrow> err + 'st" where
  "New_loop [] st = Inr st"
| "New_loop (b # middleware) st =
     (case b st of Inl e \<Rightarrow> Inl e | Inr st \<Rightarrow> New_loop middleware st)"

definition New :: "(unit \<Rightarrow> err + 'st) \<Rightarrow> ('st \<Rightarrow> err + 'st) list \<Rightarrow> err + 'st" where
  "New outer middleware =
     (case outer () of Inl e \<Rightarrow> Inl e | Inr st \<Rightarrow> New_loop middleware st)"

lemma New_loop_append:
  "New_loop (bs @ cs) st = (case New_loop bs st of Inl e \<Rightarrow> Inl e | Inr st \<Rightarrow> New_loop cs st)"
  by (induction bs st rule: New_loop.induct) (auto split: sum.splits)

lemma map_of_items_AsMap:
  assumes "wf_map items"
  shows "map_of (items_AsMap items) = map_of items" and "wf_map (items_AsMap items)"
proof -
  have "fold (\<lambda>(k, v) m. AList.update k v m) items d = maps_Copy d items" for d :: "('a, 'b) gomap"
    by (simp add: maps_Copy_def)
  then have "items_AsMap items = maps_Copy [] items" by (simp add: items_AsMap_def)
  then show "map_of (items_AsMap items) = map_of items" "wf_map (items_AsMap items)"
    using assms by (simp_all add: map_of_maps_Copy)
qed

section \<open>The contract of a store\<close>

text \<open>A listing is the map, in ascending order of the keys.\<close>

definition listing :: "('k::linorder \<Rightarrow> 'v option) \<Rightarrow> ('k, 'v) ListItems \<Rightarrow> bool" where
  "listing m items \<longleftrightarrow> sorted (map fst items) \<and> distinct (map fst items) \<and> map_of items = m"

lemma listing_sort: "wf_map m \<Longrightarrow> map_of m = f \<Longrightarrow> listing f (sort_key fst m)"
  by (simp add: listing_def wf_sort_key map_of_sort_key)

locale kv_store =
  fixes S :: "('s, 'k::linorder, 'v) store"
    and abs :: "'s \<Rightarrow> 'k \<Rightarrow> 'v option"
    and inv :: "'s \<Rightarrow> bool"
    and kok :: "'k \<Rightarrow> bool"
    and vok :: "'k \<Rightarrow> 'v \<Rightarrow> bool"
  assumes dom_ok: "inv s \<Longrightarrow> abs s k \<noteq> None \<Longrightarrow> kok k"
    and create_new: "inv s \<Longrightarrow> kok k \<Longrightarrow> vok k v \<Longrightarrow> abs s k = None \<Longrightarrow>
      Create S nil_slice k v s = (s', a, r) \<Longrightarrow> r = None \<and> inv s' \<and> abs s' = (abs s)(k \<mapsto> v)"
    and create_dup: "inv s \<Longrightarrow> kok k \<Longrightarrow> vok k v \<Longrightarrow> abs s k \<noteq> None \<Longrightarrow>
      Create S nil_slice k v s = (s', a, r) \<Longrightarrow> r \<noteq> None \<and> inv s' \<and> abs s' = abs s"
    and read_found: "inv s \<Longrightarrow> kok k \<Longrightarrow> abs s k = Some v \<Longrightarrow>
      Read S nil_slice k s = (s', a, r') \<Longrightarrow> r' = Inr v \<and> inv s' \<and> abs s' = abs s"
    and read_missing: "inv s \<Longrightarrow> kok k \<Longrightarrow> abs s k = None \<Longrightarrow>
      Read S nil_slice k s = (s', a, r') \<Longrightarrow> isl r' \<and> inv s' \<and> abs s' = abs s"
    and update_found: "inv s \<Longrightarrow> kok k \<Longrightarrow> vok k v \<Longrightarrow> abs s k \<noteq> None \<Longrightarrow>
      Update S nil_slice k v s = (s', a, r) \<Longrightarrow> r = None \<and> inv s' \<and> abs s' = (abs s)(k \<mapsto> v)"
    and update_missing: "inv s \<Longrightarrow> kok k \<Longrightarrow> vok k v \<Longrightarrow> abs s k = None \<Longrightarrow>
      Update S nil_slice k v s = (s', a, r) \<Longrightarrow> r \<noteq> None \<and> inv s' \<and> abs s' = abs s"
    and apply_ok: "inv s \<Longrightarrow> kok k \<Longrightarrow> vok k v \<Longrightarrow>
      Apply S nil_slice k v s = (s', a, r) \<Longrightarrow> r = None \<and> inv s' \<and> abs s' = (abs s)(k \<mapsto> v)"
    and delete_found: "inv s \<Longrightarrow> kok k \<Longrightarrow> abs s k \<noteq> None \<Longrightarrow>
      Delete S nil_slice k s = (s', a, r) \<Longrightarrow> r = None \<and> inv s' \<and> abs s' = (abs s)(k := None)"
    and delete_missing: "inv s \<Longrightarrow> kok k \<Longrightarrow> abs s k = None \<Longrightarrow>
      Delete S nil_slice k s = (s', a, r) \<Longrightarrow> inv s' \<and> abs s' = abs s"
    and list_ok: "inv s \<Longrightarrow> List S nil_slice s = (s', a, r'') \<Longrightarrow>
      (\<exists>items. r'' = Inr items \<and> listing (abs s) items) \<and> inv s' \<and> abs s' = abs s"

locale typed_store = kv_store +
  assumes create_conflict: "inv s \<Longrightarrow> kok k \<Longrightarrow> vok k v \<Longrightarrow> abs s k \<noteq> None \<Longrightarrow>
      Create S nil_slice k v s = (s', a, r) \<Longrightarrow> \<exists>e. r = Some e \<and> is_err e (Http ErrConflict)"
    and read_notfound: "inv s \<Longrightarrow> kok k \<Longrightarrow> abs s k = None \<Longrightarrow>
      Read S nil_slice k s = (s', a, r') \<Longrightarrow> \<exists>e. r' = Inl e \<and> is_err e (Http ErrNotFound)"
    and update_notfound: "inv s \<Longrightarrow> kok k \<Longrightarrow> vok k v \<Longrightarrow> abs s k = None \<Longrightarrow>
      Update S nil_slice k v s = (s', a, r) \<Longrightarrow> \<exists>e. r = Some e \<and> is_err e (Http ErrNotFound)"

text \<open>String keys that can be listed by prefix, which the \<open>Prefix\<close> middleware relies on.\<close>

locale prefix_store = kv_store S abs inv kok vok
  for S :: "('s, string, 'v) store" and abs inv kok vok +
  assumes list_prefix: "inv s \<Longrightarrow> pre \<noteq> [] \<Longrightarrow>
    List S (Slice [WithPrefix pre] (Suc 0)) s = (s', a, r'') \<Longrightarrow>
    (\<exists>items. r'' = Inr items \<and> listing (\<lambda>k. if prefix pre k then abs s k else None) items) \<and>
    inv s' \<and> abs s' = abs s"

section \<open>A reference store and sequences of calls\<close>

text \<open>
  The abstract specification: a map, and what a call on it answers. \<open>Answer\<close> keeps of a result
  what a caller can rely on: that it failed, the value, or the listing.
\<close>

datatype ('k, 'v) call =
    CCreate 'k 'v | CRead 'k | CUpdate 'k 'v | CApply 'k 'v | CDelete 'k | CList

datatype ('k, 'v) answer = Done | Failed | Value 'v | Items "('k, 'v) ListItems"

definition answer_of :: "err option \<Rightarrow> ('k, 'v) answer" where
  "answer_of r = (if r = None then Done else Failed)"

fun exec :: "('s, 'k, 'v) store \<Rightarrow> ('k, 'v) call \<Rightarrow> 's \<Rightarrow> 's \<times> ('k, 'v) answer" where
  "exec S (CCreate k v) s = (case Create S nil_slice k v s of (s, _, r) \<Rightarrow> (s, answer_of r))"
| "exec S (CRead k) s =
     (case Read S nil_slice k s of (s, _, Inl e) \<Rightarrow> (s, Failed) | (s, _, Inr v) \<Rightarrow> (s, Value v))"
| "exec S (CUpdate k v) s = (case Update S nil_slice k v s of (s, _, r) \<Rightarrow> (s, answer_of r))"
| "exec S (CApply k v) s = (case Apply S nil_slice k v s of (s, _, r) \<Rightarrow> (s, answer_of r))"
| "exec S (CDelete k) s = (case Delete S nil_slice k s of (s, _, r) \<Rightarrow> (s, answer_of r))"
| "exec S CList s =
     (case List S nil_slice s of (s, _, Inl e) \<Rightarrow> (s, Failed) | (s, _, Inr xs) \<Rightarrow> (s, Items xs))"

fun run :: "('s, 'k, 'v) store \<Rightarrow> ('k, 'v) call list \<Rightarrow> 's \<Rightarrow> 's \<times> ('k, 'v) answer list" where
  "run S [] s = (s, [])"
| "run S (c # cs) s =
     (case exec S c s of (s, x) \<Rightarrow> (case run S cs s of (s, xs) \<Rightarrow> (s, x # xs)))"

text \<open>
  The same calls on a map. A \<open>Delete\<close> of a missing key may answer either way (the S3 backend
  reports success), so the specification is a relation.
\<close>

fun spec_step ::
  "('k::linorder, 'v) call \<Rightarrow> ('k \<Rightarrow> 'v option) \<Rightarrow> ('k \<Rightarrow> 'v option) \<Rightarrow> ('k, 'v) answer \<Rightarrow> bool"
where
  "spec_step (CCreate k v) m m' x \<longleftrightarrow>
     (if m k = None then m' = m(k \<mapsto> v) \<and> x = Done else m' = m \<and> x = Failed)"
| "spec_step (CRead k) m m' x \<longleftrightarrow>
     m' = m \<and> (case m k of None \<Rightarrow> x = Failed | Some v \<Rightarrow> x = Value v)"
| "spec_step (CUpdate k v) m m' x \<longleftrightarrow>
     (if m k = None then m' = m \<and> x = Failed else m' = m(k \<mapsto> v) \<and> x = Done)"
| "spec_step (CApply k v) m m' x \<longleftrightarrow> m' = m(k \<mapsto> v) \<and> x = Done"
| "spec_step (CDelete k) m m' x \<longleftrightarrow>
     m' = m(k := None) \<and> (if m k = None then x \<in> {Done, Failed} else x = Done)"
| "spec_step CList m m' x \<longleftrightarrow> m' = m \<and> (\<exists>items. x = Items items \<and> listing m items)"

fun spec_run ::
  "('k::linorder, 'v) call list \<Rightarrow> ('k \<Rightarrow> 'v option) \<Rightarrow> ('k \<Rightarrow> 'v option) \<Rightarrow>
   ('k, 'v) answer list \<Rightarrow> bool" where
  "spec_run [] m m' xs \<longleftrightarrow> m' = m \<and> xs = []"
| "spec_run (c # cs) m m' xs \<longleftrightarrow>
     (\<exists>m1 y ys. xs = y # ys \<and> spec_step c m m1 y \<and> spec_run cs m1 m' ys)"

fun call_ok :: "('k \<Rightarrow> bool) \<Rightarrow> ('k \<Rightarrow> 'v \<Rightarrow> bool) \<Rightarrow> ('k, 'v) call \<Rightarrow> bool" where
  "call_ok kok vok (CCreate k v) \<longleftrightarrow> kok k \<and> vok k v"
| "call_ok kok vok (CRead k) \<longleftrightarrow> kok k"
| "call_ok kok vok (CUpdate k v) \<longleftrightarrow> kok k \<and> vok k v"
| "call_ok kok vok (CApply k v) \<longleftrightarrow> kok k \<and> vok k v"
| "call_ok kok vok (CDelete k) \<longleftrightarrow> kok k"
| "call_ok kok vok CList \<longleftrightarrow> True"

section \<open>Clients of the contract\<close>

context kv_store begin

lemma exec_refines:
  assumes "inv s" "call_ok kok vok c" "exec S c s = (s', x)"
  shows "inv s' \<and> spec_step c (abs s) (abs s') x"
proof (cases c)
  case (CCreate k v)
  obtain s1 a r where e: "Create S nil_slice k v s = (s1, a, r)" by (metis prod_cases3)
  with assms CCreate create_new [OF _ _ _ _ e] create_dup [OF _ _ _ _ e] show ?thesis
    by (cases "abs s k") (simp_all add: answer_of_def)
next
  case (CRead k)
  obtain s1 a r where e: "Read S nil_slice k s = (s1, a, r)" by (metis prod_cases3)
  with assms CRead read_found [OF _ _ _ e] read_missing [OF _ _ _ e] show ?thesis
    by (cases "abs s k"; cases r) simp_all
next
  case (CUpdate k v)
  obtain s1 a r where e: "Update S nil_slice k v s = (s1, a, r)" by (metis prod_cases3)
  with assms CUpdate update_found [OF _ _ _ _ e] update_missing [OF _ _ _ _ e] show ?thesis
    by (cases "abs s k") (simp_all add: answer_of_def)
next
  case (CApply k v)
  obtain s1 a r where e: "Apply S nil_slice k v s = (s1, a, r)" by (metis prod_cases3)
  with assms CApply apply_ok [OF _ _ _ e] show ?thesis by (simp add: answer_of_def)
next
  case (CDelete k)
  obtain s1 a r where e: "Delete S nil_slice k s = (s1, a, r)" by (metis prod_cases3)
  with assms CDelete delete_found [OF _ _ _ e] delete_missing [OF _ _ _ e] show ?thesis
    by (cases "abs s k"; cases r) (simp_all add: answer_of_def fun_upd_idem)
next
  case CList
  obtain s1 a r where e: "List S nil_slice s = (s1, a, r)" by (metis prod_cases3)
  with assms CList list_ok [OF _ e] show ?thesis by auto
qed

text \<open>Every sequence of calls answers as the map does.\<close>

lemma run_refines:
  assumes "inv s" "\<forall>c \<in> set cs. call_ok kok vok c" "run S cs s = (s', xs)"
  shows "inv s' \<and> spec_run cs (abs s) (abs s') xs"
  using assms
proof (induction cs arbitrary: s xs)
  case (Cons c cs)
  then obtain s1 y ys where "exec S c s = (s1, y)" "run S cs s1 = (s', ys)" "xs = y # ys"
    by (auto split: prod.splits)
  with Cons exec_refines [of s c s1 y] show ?case by auto
qed simp

lemma AsMap_ok:
  assumes "inv s" "AsMap S nil_slice s = (s', a, r)"
  shows "inv s' \<and> abs s' = abs s \<and> (\<exists>m. r = Inr m \<and> wf_map m \<and> map_of m = abs s)"
proof -
  obtain s1 a1 r1 where e: "List S nil_slice s = (s1, a1, r1)" by (metis prod_cases3)
  with list_ok [OF assms(1) e] obtain items where items: "r1 = Inr items" "listing (abs s) items"
    "inv s1" "abs s1 = abs s" by auto
  with e assms(2) map_of_items_AsMap [of items] show ?thesis
    by (auto simp: AsMap_def listing_def)
qed

lemma Reset_loop_ok:
  assumes "inv s" "abs s = map_of items" "wf_map items" "Reset_loop S items s = (s', r)"
  shows "r = None \<and> inv s' \<and> abs s' = Map.empty"
  using assms
proof (induction items arbitrary: s)
  case (Cons p items)
  obtain k v where p: "p = (k, v)" by (cases p)
  obtain s1 a r1 where d: "Delete S nil_slice k s = (s1, a, r1)" by (metis prod_cases3)
  have k: "abs s k = Some v" using Cons.prems(2) p by simp
  with delete_found [OF Cons.prems(1) _ _ d] dom_ok [OF Cons.prems(1), of k]
  have s1: "r1 = None" "inv s1" "abs s1 = (abs s)(k := None)" by auto
  moreover have "(abs s)(k := None) = map_of items"
    using Cons.prems(2,3) p map_of_eq_None [of items k] by (auto simp: fun_eq_iff)
  ultimately show ?case using Cons.IH [of s1] Cons.prems p d by simp
qed simp

lemma Reset_empties:
  assumes "inv s" "Reset S s = (s', r)"
  shows "r = None \<and> inv s' \<and> abs s' = Map.empty"
proof -
  obtain s1 a r1 where l: "List S nil_slice s = (s1, a, r1)" by (metis prod_cases3)
  with list_ok [OF assms(1) l] obtain items where items: "r1 = Inr items" "listing (abs s) items"
    "inv s1" "abs s1 = abs s" by auto
  with assms l Reset_loop_ok [of s1 items s' r] show ?thesis
    by (simp add: Reset_def listing_def)
qed

end

end
