(* ===== verification/Memory.thy ===== *)
theory Memory
  imports Store_API
begin

text \<open>
  The in-memory backend, \<open>pkg/store/backends/memory/memory.go\<close>.

  The state is the Go map. \<open>as_string\<close> says whether the key type is \<open>string\<close>
  (\<open>any(zero).(string)\<close>) and \<open>zero\<close> is the zero value \<open>*new(V)\<close>.
\<close>

section \<open>Operations\<close>

definition Mem_New :: "('k, 'v) gomap" where
  "Mem_New = []"

definition Mem_NewFromMap :: "('k, 'v) gomap \<Rightarrow> ('k, 'v) gomap" where
  "Mem_NewFromMap m = m"

definition Mem_Read ::
  "opt slice \<Rightarrow> 'k \<Rightarrow> ('k, 'v) gomap \<Rightarrow> (('k, 'v) gomap, err + 'v) outcome" where
  "Mem_Read opts key m =
     (case CheckOptionsExhausted opts of
        Some e \<Rightarrow> (m, arr opts, Inl e)
      | None \<Rightarrow>
          (m, arr opts, case map_of m key of
             None \<Rightarrow> Inl (http_err ErrNotFound) | Some item \<Rightarrow> Inr item))"

definition Mem_Create ::
  "opt slice \<Rightarrow> 'k \<Rightarrow> 'v \<Rightarrow> ('k, 'v) gomap \<Rightarrow> (('k, 'v) gomap, err option) outcome" where
  "Mem_Create opts key value m =
     (case MatchDryRun opts of (dryRun, opts) \<Rightarrow>
        if or_false dryRun then
          (case Mem_Read nil_slice key m of
             (m, _, Inr _) \<Rightarrow> (m, arr opts, Some (http_err ErrConflict))
           | (m, _, Inl e) \<Rightarrow>
               if is_err e (Http ErrNotFound) \<or> is_err e OsErrNotExist then (m, arr opts, None)
               else (m, arr opts, Some e))
        else case CheckOptionsExhausted opts of
            Some e \<Rightarrow> (m, arr opts, Some e)
          | None \<Rightarrow>
              if map_of m key \<noteq> None then (m, arr opts, Some (http_err ErrConflict))
              else (AList.update key value m, arr opts, None))"

definition err_of :: "err + 'v \<Rightarrow> err option" where
  "err_of r = (case r of Inl e \<Rightarrow> Some e | Inr _ \<Rightarrow> None)"

definition Mem_Update ::
  "opt slice \<Rightarrow> 'k \<Rightarrow> 'v \<Rightarrow> ('k, 'v) gomap \<Rightarrow> (('k, 'v) gomap, err option) outcome" where
  "Mem_Update opts key value m =
     (case MatchDryRun opts of (dryRun, opts) \<Rightarrow>
        if or_false dryRun then
          (case Mem_Read nil_slice key m of (m, _, r) \<Rightarrow> (m, arr opts, err_of r))
        else if len opts > 0 then (m, arr opts, Some (Sentinel ErrUnsupportedOption))
        else if map_of m key = None then (m, arr opts, Some (http_err ErrNotFound))
        else (AList.update key value m, arr opts, None))"

definition Mem_Apply ::
  "opt slice \<Rightarrow> 'k \<Rightarrow> 'v \<Rightarrow> ('k, 'v) gomap \<Rightarrow> (('k, 'v) gomap, err option) outcome" where
  "Mem_Apply opts key value m =
     (case MatchDryRun opts of (dryRun, opts) \<Rightarrow>
        if or_false dryRun then (m, arr opts, None)
        else case CheckOptionsExhausted opts of
            Some e \<Rightarrow> (m, arr opts, Some e)
          | None \<Rightarrow> (AList.update key value m, arr opts, None))"

definition Mem_Delete ::
  "opt slice \<Rightarrow> 'k \<Rightarrow> ('k, 'v) gomap \<Rightarrow> (('k, 'v) gomap, err option) outcome" where
  "Mem_Delete opts key m =
     (case MatchDryRun opts of (dryRun, opts) \<Rightarrow>
        if or_false dryRun then
          (case Mem_Read nil_slice key m of (m, _, r) \<Rightarrow> (m, arr opts, err_of r))
        else case CheckOptionsExhausted opts of
            Some e \<Rightarrow> (m, arr opts, Some e)
          | None \<Rightarrow>
              if map_of m key = None then (m, arr opts, Some (http_err ErrNotFound))
              else (AList.delete key m, arr opts, None))"

fun Mem_List_loop ::
  "('k \<Rightarrow> string) option \<Rightarrow> 'v \<Rightarrow> string \<Rightarrow> bool \<Rightarrow> ('k, 'v) gomap \<Rightarrow> ('k, 'v) ListItems" where
  "Mem_List_loop as_string zero pre keysOnly [] = []"
| "Mem_List_loop as_string zero pre keysOnly ((k, v) # m) =
     (if pre \<noteq> [] \<and> \<not> prefix pre (case as_string of None \<Rightarrow> [] | Some f \<Rightarrow> f k)
      then Mem_List_loop as_string zero pre keysOnly m
      else (k, if keysOnly then zero else v) # Mem_List_loop as_string zero pre keysOnly m)"

definition Mem_List ::
  "('k::linorder \<Rightarrow> string) option \<Rightarrow> 'v \<Rightarrow> opt slice \<Rightarrow> ('k, 'v) gomap \<Rightarrow>
   (('k, 'v) gomap, err + ('k, 'v) ListItems) outcome" where
  "Mem_List as_string zero opts m =
     (case MatchPrefix opts of (pre, opts) \<Rightarrow>
      case MatchListKeyOnly opts of (keysOnly, opts) \<Rightarrow>
        if or_empty pre \<noteq> [] \<and> as_string = None then
          (m, arr opts, Inl (Errorf ''match prefix option is only supported for string keys: ''
             [Sentinel ErrUnsupportedOption]))
        else case CheckOptionsExhausted opts of
            Some e \<Rightarrow> (m, arr opts, Inl e)
          | None \<Rightarrow>
              (m, arr opts, Inr (sort_key fst
                 (Mem_List_loop as_string zero (or_empty pre) (or_false keysOnly) m))))"

definition Memory ::
  "('k::linorder \<Rightarrow> string) option \<Rightarrow> 'v \<Rightarrow> (('k, 'v) gomap, 'k, 'v) store" where
  "Memory as_string zero =
     \<lparr>Create = Mem_Create, Read = Mem_Read, Update = Mem_Update, Apply = Mem_Apply,
      Delete = Mem_Delete, List = Mem_List as_string zero\<rparr>"

lemmas Mem_defs = Memory_def Mem_Create_def Mem_Read_def Mem_Update_def Mem_Apply_def
  Mem_Delete_def Mem_List_def err_of_def

section \<open>Listings\<close>

lemma Mem_List_loop_all: "Mem_List_loop f zero [] False m = m"
  by (induction m) auto

text \<open>A listing by prefix of string keys is a filter; \<open>keysOnly\<close> blanks the values.\<close>

lemma Mem_List_loop_eq:
  "Mem_List_loop (Some f) zero pre ko m =
     map (\<lambda>(k, v). (k, if ko then zero else v)) (filter (\<lambda>(k, v). prefix pre (f k)) m)"
  by (induction m) auto

lemma map_fst_blank: "map fst (map (\<lambda>(k, v). (k, g k v)) m) = map fst m"
  by (induction m) auto

section \<open>The contract\<close>

interpretation mem: typed_store "Memory f zero" map_of wf_map "\<lambda>_. True" "\<lambda>_ _. True"
  by unfold_locales (auto simp: Mem_defs Mem_List_loop_all listing_sort split: option.splits)

section \<open>Options\<close>

text \<open>
  What an operation answers, without the array it leaves behind, and what a dry run should do:
  keep the state and answer as the real call would.
\<close>

definition predicts :: "('s, 'r) outcome \<Rightarrow> ('s, 'r) outcome \<Rightarrow> 's \<Rightarrow> bool" where
  "predicts dry real s \<longleftrightarrow> fst dry = s \<and> snd (snd dry) = snd (snd real)"

lemma is_err_refl [simp]: "is_err (Sentinel s) s"
  by simp

lemma slice_of_single: "slice_of [x] = Slice [x] (Suc 0)"
  by (simp add: slice_of_def)

section \<open>Properties\<close>

text \<open>
  C1. The memory backend implements a finite map: whatever sequence of calls is made on it, every
  answer (success, failure, value read, sorted listing) is the one the map gives, and the state
  afterwards is that map with one entry per key.
\<close>

theorem Memory_refines_map:
  assumes "wf_map m" "run (Memory as_string zero) cs m = (m', answers)"
  shows "wf_map m' \<and> spec_run cs (map_of m) (map_of m') answers"
  using assms by (intro mem.run_refines) (auto intro: call_ok.elims)

theorem Memory_refines_map_witness:
  "spec_run [CCreate (1::nat) ''a'', CCreate 1 ''b'', CRead 1] Map.empty [1 \<mapsto> ''a'']
     [Done, Failed, Value ''a'']"
proof -
  let ?cs = "[CCreate (1::nat) ''a'', CCreate 1 ''b'', CRead 1]"
  have "run (Memory None []) ?cs [] = ([(1, ''a'')], [Done, Failed, Value ''a''])"
    by (simp add: Mem_defs answer_of_def)
  from Memory_refines_map [OF _ this] show ?thesis by simp
qed

text \<open>
  A dry run of any modifying operation of the memory backend leaves the store as it is and
  returns exactly what the real call would return, conflicts and missing keys included.
\<close>

theorem Memory_dry_run_predicts:
  "predicts (Mem_Create (slice_of [DryRun]) k v m) (Mem_Create nil_slice k v m) m \<and>
   predicts (Mem_Update (slice_of [DryRun]) k v m) (Mem_Update nil_slice k v m) m \<and>
   predicts (Mem_Apply (slice_of [DryRun]) k v m) (Mem_Apply nil_slice k v m) m \<and>
   predicts (Mem_Delete (slice_of [DryRun]) k m) (Mem_Delete nil_slice k m) m"
  by (auto simp: predicts_def Mem_defs slice_of_single split: option.splits)

text \<open>
  Listing string keys by prefix returns, in ascending order and without duplicates, exactly
  the entries whose key starts with the prefix, and leaves the store alone. For any other key type
  a non-empty prefix is refused with \<open>ErrUnsupportedOption\<close>.
\<close>

theorem Memory_list_by_prefix:
  assumes "wf_map m" "pre \<noteq> []"
  shows "(\<exists>items. Mem_List (Some f) zero (slice_of [WithPrefix pre]) m =
       (m, [WithPrefix pre], Inr items) \<and>
     listing (\<lambda>k. if prefix pre (f k) then map_of m k else None) items) \<and>
   (\<exists>e. Mem_List None zero (slice_of [WithPrefix pre]) m = (m, [WithPrefix pre], Inl e) \<and>
     is_err e ErrUnsupportedOption)"
proof -
  have "listing (\<lambda>k. if prefix pre (f k) then map_of m k else None)
      (sort_key fst (Mem_List_loop (Some f) zero pre False m))"
    unfolding Mem_List_loop_eq using assms(1)
    by (intro listing_sort) (simp_all add: wf_filter map_of_filter_key fun_eq_iff)
  with assms(2) show ?thesis by (simp add: Mem_List_def slice_of_single)
qed

theorem Memory_list_by_prefix_witness:
  "\<exists>items. Mem_List (Some id) 0 (slice_of [WithPrefix ''a'']) [(''b'', 1), (''ab'', 2::nat)] =
     ([(''b'', 1), (''ab'', 2)], [WithPrefix ''a''], Inr items) \<and>
   listing (\<lambda>k. if prefix ''a'' (id k) then map_of [(''b'', 1), (''ab'', 2)] k else None) items"
  using Memory_list_by_prefix [of "[(''b'', 1), (''ab'', 2::nat)]" "''a''" id 0] by simp

end
