(* ===== verification/Middleware.thy ===== *)
theory Middleware
  imports Memory
begin

text \<open>
  The middlewares that wrap one store: \<open>prefix\<close>, \<open>nameable\<close>, \<open>validatable\<close>, \<open>threadsafe\<close>,
  \<open>logger\<close> and \<open>metrics\<close> of \<open>pkg/store/middleware\<close>.

  Each is a function from the inner store to the outer one. Those that only observe (\<open>logger\<close>,
  \<open>metrics\<close>) pair the inner state with what they record and are shown transparent;
  \<open>nameable\<close> and \<open>validatable\<close> are instances of a guarded store; \<open>prefix\<close> is a view of the
  inner map.
\<close>

section \<open>Prefix\<close>

definition Prefix_New :: "string \<Rightarrow> err option" where
  "Prefix_New pre = (if pre = [] then Some (new_error ''prefix should not be empty'') else None)"

definition TrimPrefix :: "string \<Rightarrow> string \<Rightarrow> string" where
  "TrimPrefix s pre = (if prefix pre s then drop (length pre) s else s)"

definition Prefix_List ::
  "string \<Rightarrow> ('s, string, 'v) store \<Rightarrow> opt slice \<Rightarrow> 's \<Rightarrow>
   ('s, err + (string, 'v) ListItems) outcome" where
  "Prefix_List pre S opts s =
     (case MatchPrefix opts of
        (Some _, opts) \<Rightarrow> (s, arr opts, Inl (new_error
          ''prefix option is not supported in List when using Prefix middleware''))
      | (None, opts) \<Rightarrow>
          (case slice_append opts (WithPrefix pre) of (opts', shared) \<Rightarrow>
             (case List S opts' s of
                (s, a, Inl e) \<Rightarrow> (s, if shared then a else arr opts, Inl e)
              | (s, a, Inr items) \<Rightarrow>
                  (s, if shared then a else arr opts,
                   Inr (map (\<lambda>(k, v). (TrimPrefix k pre, v)) items)))))"

definition Prefix :: "string \<Rightarrow> ('s, string, 'v) store \<Rightarrow> ('s, string, 'v) store" where
  "Prefix pre S =
     \<lparr>Create = \<lambda>opts key. Create S opts (pre @ key),
      Read = \<lambda>opts key. Read S opts (pre @ key),
      Update = \<lambda>opts key. Update S opts (pre @ key),
      Apply = \<lambda>opts key. Apply S opts (pre @ key),
      Delete = \<lambda>opts key. Delete S opts (pre @ key),
      List = Prefix_List pre S\<rparr>"

section \<open>Nameable and validatable\<close>

definition Named_Create where
  "Named_Create GetName S opts key value s =
     (if key \<noteq> GetName value then (s, arr opts, Some (Sentinel ErrNameableKeyMismatch))
      else Create S opts key value s)"

definition Named_Update where
  "Named_Update GetName S opts key value s =
     (if key \<noteq> GetName value then (s, arr opts, Some (Sentinel ErrNameableKeyMismatch))
      else Update S opts key value s)"

definition Named_Apply where
  "Named_Apply GetName S opts key value s =
     (if key \<noteq> GetName value then (s, arr opts, Some (Sentinel ErrNameableKeyMismatch))
      else Apply S opts key value s)"

definition Named :: "('v \<Rightarrow> string) \<Rightarrow> ('s, string, 'v) store \<Rightarrow> ('s, string, 'v) store" where
  "Named GetName S =
     \<lparr>Create = Named_Create GetName S, Read = Read S, Update = Named_Update GetName S,
      Apply = Named_Apply GetName S, Delete = Delete S, List = List S\<rparr>"

definition Validating_Create where
  "Validating_Create Validate S opts key value s =
     (case Validate value of Some e \<Rightarrow> (s, arr opts, Some e)
      | None \<Rightarrow> Create S opts key value s)"

definition Validating_Update where
  "Validating_Update Validate S opts key value s =
     (case Validate value of Some e \<Rightarrow> (s, arr opts, Some e)
      | None \<Rightarrow> Update S opts key value s)"

definition Validating_Apply where
  "Validating_Apply Validate S opts key value s =
     (case Validate value of Some e \<Rightarrow> (s, arr opts, Some e)
      | None \<Rightarrow> Apply S opts key value s)"

definition Validating :: "('v \<Rightarrow> err option) \<Rightarrow> ('s, 'k, 'v) store \<Rightarrow> ('s, 'k, 'v) store" where
  "Validating Validate S =
     \<lparr>Create = Validating_Create Validate S, Read = Read S,
      Update = Validating_Update Validate S, Apply = Validating_Apply Validate S,
      Delete = Delete S, List = List S\<rparr>"

section \<open>Logger\<close>

datatype ('k, 'v) log_entry =
  LogEntry (is_error: bool) (message: string) (log_key: "'k option") (log_value: "'v option")
    (log_error: "err option") (log_length: "nat option") (log_options: string)

definition OptionsToString :: "(opt \<Rightarrow> string) \<Rightarrow> opt slice \<Rightarrow> string" where
  "OptionsToString fmt opts = strings_Join (Transform (live opts) fmt) '',''"

definition log_outcome ::
  "string \<Rightarrow> string \<Rightarrow> 'k \<Rightarrow> 'v option \<Rightarrow> string \<Rightarrow> ('k, 'v) log_entry list \<Rightarrow>
   ('s, err option) outcome \<Rightarrow> ('s \<times> ('k, 'v) log_entry list, err option) outcome" where
  "log_outcome failed done key value desc w r =
     (case r of
        (s, a, Some e) \<Rightarrow>
          ((s, w @ [LogEntry True failed (Some key) value (Some e) None desc]), a, Some e)
      | (s, a, None) \<Rightarrow>
          ((s, w @ [LogEntry False done (Some key) value None None desc]), a, None))"

definition Logger_Create where
  "Logger_Create fmt S opts key value = (\<lambda>(s, w).
     log_outcome ''creating store entry failed'' ''store entry created'' key (Some value)
       (OptionsToString fmt opts) w (Create S opts key value s))"

definition Logger_Read where
  "Logger_Read fmt S opts key = (\<lambda>(s, w).
     case Read S opts key s of
       (s, a, Inl e) \<Rightarrow>
         ((s, w @ [LogEntry True ''reading store entry failed'' (Some key) None (Some e) None
             (OptionsToString fmt opts)]), a, Inl e)
     | (s, a, Inr item) \<Rightarrow>
         ((s, w @ [LogEntry False ''store entry read'' (Some key) (Some item) None None
             (OptionsToString fmt opts)]), a, Inr item))"

definition Logger_Update where
  "Logger_Update fmt S opts key value = (\<lambda>(s, w).
     log_outcome ''updating store entry failed'' ''store entry updated'' key (Some value)
       (OptionsToString fmt opts) w (Update S opts key value s))"

definition Logger_Apply where
  "Logger_Apply fmt S opts key value = (\<lambda>(s, w).
     log_outcome ''applying store entry failed'' ''store entry applied'' key (Some value)
       (OptionsToString fmt opts) w (Apply S opts key value s))"

definition Logger_Delete where
  "Logger_Delete fmt S opts key = (\<lambda>(s, w).
     log_outcome ''deleting store entry failed'' ''store entry deleted'' key None
       (OptionsToString fmt opts) w (Delete S opts key s))"

definition Logger_List where
  "Logger_List fmt S opts = (\<lambda>(s, w).
     case List S opts s of
       (s, a, Inl e) \<Rightarrow>
         ((s, w @ [LogEntry True ''listing store entries failed'' None None (Some e) None
             (OptionsToString fmt opts)]), a, Inl e)
     | (s, a, Inr items) \<Rightarrow>
         ((s, w @ [LogEntry False ''listing store entries succeeded'' None None None
             (Some (length items)) (OptionsToString fmt opts)]), a, Inr items))"

definition Logger ::
  "(opt \<Rightarrow> string) \<Rightarrow> ('s, 'k, 'v) store \<Rightarrow> ('s \<times> ('k, 'v) log_entry list, 'k, 'v) store" where
  "Logger fmt S =
     \<lparr>Create = Logger_Create fmt S, Read = Logger_Read fmt S, Update = Logger_Update fmt S,
      Apply = Logger_Apply fmt S, Delete = Logger_Delete fmt S, List = Logger_List fmt S\<rparr>"

section \<open>Metrics\<close>

text \<open>
  The counters of Prometheus, one per pair of labels (operation, name). The histogram keeps only
  its number of observations: durations are not modelled.
\<close>

record metrics =
  m_calls :: "(string \<times> string, nat) gomap"
  m_errors :: "(string \<times> string, nat) gomap"
  m_duration :: "(string \<times> string, nat) gomap"

definition counter :: "(string \<times> string, nat) gomap \<Rightarrow> string \<times> string \<Rightarrow> nat" where
  "counter m l = (case map_of m l of None \<Rightarrow> 0 | Some n \<Rightarrow> n)"

definition Inc :: "string \<times> string \<Rightarrow> (string \<times> string, nat) gomap \<Rightarrow> (string \<times> string, nat) gomap" where
  "Inc l m = AList.update l (counter m l + 1) m"

definition observe :: "string \<Rightarrow> string \<Rightarrow> err option \<Rightarrow> metrics \<Rightarrow> metrics" where
  "observe name op e w =
     (let labels = (op, name);
          w = w\<lparr>m_calls := Inc labels (m_calls w), m_duration := Inc labels (m_duration w)\<rparr>
      in if e \<noteq> None then w\<lparr>m_errors := Inc labels (m_errors w)\<rparr> else w)"

definition observed ::
  "string \<Rightarrow> string \<Rightarrow> ('r \<Rightarrow> err option) \<Rightarrow> metrics \<Rightarrow> ('s, 'r) outcome \<Rightarrow>
   ('s \<times> metrics, 'r) outcome" where
  "observed name op error_of w r = (case r of (s, a, x) \<Rightarrow> ((s, observe name op (error_of x) w), a, x))"

definition Metrics :: "string \<Rightarrow> ('s, 'k, 'v) store \<Rightarrow> ('s \<times> metrics, 'k, 'v) store" where
  "Metrics name S =
     \<lparr>Create = \<lambda>opts key value (s, w). observed name ''create'' id w (Create S opts key value s),
      Read = \<lambda>opts key (s, w). observed name ''read'' err_of w (Read S opts key s),
      Update = \<lambda>opts key value (s, w). observed name ''update'' id w (Update S opts key value s),
      Apply = \<lambda>opts key value (s, w). observed name ''apply'' id w (Apply S opts key value s),
      Delete = \<lambda>opts key (s, w). observed name ''delete'' id w (Delete S opts key s),
      List = \<lambda>opts (s, w). observed name ''list'' err_of w (List S opts s)\<rparr>"

lemmas Named_defs = Named_def Named_Create_def Named_Update_def Named_Apply_def
lemmas Validating_defs = Validating_def Validating_Create_def Validating_Update_def
  Validating_Apply_def
lemmas Logger_defs = Logger_def Logger_Create_def Logger_Read_def Logger_Update_def
  Logger_Apply_def Logger_Delete_def Logger_List_def log_outcome_def
lemmas Metrics_defs = Metrics_def observed_def

section \<open>Observers are transparent\<close>

text \<open>
  \<open>T\<close> wraps \<open>S\<close> and records something in a second component: with the record forgotten,
  every operation is that of \<open>S\<close>, for all options and states.
\<close>

definition forget :: "('s \<times> 'w, 'r) outcome \<Rightarrow> ('s, 'r) outcome" where
  "forget r = (case r of ((s, w), a, x) \<Rightarrow> (s, a, x))"

definition transparent :: "('s \<times> 'w, 'k, 'v) store \<Rightarrow> ('s, 'k, 'v) store \<Rightarrow> bool" where
  "transparent T S \<longleftrightarrow> (\<forall>opts k v s w.
     forget (Create T opts k v (s, w)) = Create S opts k v s \<and>
     forget (Read T opts k (s, w)) = Read S opts k s \<and>
     forget (Update T opts k v (s, w)) = Update S opts k v s \<and>
     forget (Apply T opts k v (s, w)) = Apply S opts k v s \<and>
     forget (Delete T opts k (s, w)) = Delete S opts k s \<and>
     forget (List T opts (s, w)) = List S opts s)"

lemma forget_eq: "X = ((s', w'), a, r) \<Longrightarrow> forget X = (s', a, r)"
  by (simp add: forget_def)

lemma transparent_Logger: "transparent (Logger fmt S) S"
  unfolding transparent_def
  by (intro allI conjI; simp add: Logger_defs forget_def split: prod.split sum.split option.split)

lemma transparent_Metrics: "transparent (Metrics name S) S"
  unfolding transparent_def forget_def Metrics_defs by (auto split: prod.splits)

lemma transparentD:
  assumes "transparent T S"
  shows "Create T opts k v p = (p', a, r) \<Longrightarrow> Create S opts k v (fst p) = (fst p', a, r)"
    and "Read T opts k p = (p', a, r') \<Longrightarrow> Read S opts k (fst p) = (fst p', a, r')"
    and "Update T opts k v p = (p', a, r) \<Longrightarrow> Update S opts k v (fst p) = (fst p', a, r)"
    and "Apply T opts k v p = (p', a, r) \<Longrightarrow> Apply S opts k v (fst p) = (fst p', a, r)"
    and "Delete T opts k p = (p', a, r) \<Longrightarrow> Delete S opts k (fst p) = (fst p', a, r)"
    and "List T opts p = (p', a, r'') \<Longrightarrow> List S opts (fst p) = (fst p', a, r'')"
  using assms unfolding transparent_def
  by (metis prod.collapse forget_eq)+

section \<open>The contracts of the wrapped stores\<close>

lemma prefix_take: "prefix pre xs \<Longrightarrow> pre @ drop (length pre) xs = xs"
  by (auto simp: prefix_def)

text \<open>\<open>guarded g S\<close> refuses the writes the guard objects to and passes everything else on.\<close>

definition guarded :: "('k \<Rightarrow> 'v \<Rightarrow> err option) \<Rightarrow> ('s, 'k, 'v) store \<Rightarrow> ('s, 'k, 'v) store" where
  "guarded g S =
     \<lparr>Create = \<lambda>opts k v s. (case g k v of Some e \<Rightarrow> (s, arr opts, Some e)
        | None \<Rightarrow> Create S opts k v s),
      Read = Read S,
      Update = \<lambda>opts k v s. (case g k v of Some e \<Rightarrow> (s, arr opts, Some e)
        | None \<Rightarrow> Update S opts k v s),
      Apply = \<lambda>opts k v s. (case g k v of Some e \<Rightarrow> (s, arr opts, Some e)
        | None \<Rightarrow> Apply S opts k v s),
      Delete = Delete S, List = List S\<rparr>"

definition name_guard :: "('v \<Rightarrow> string) \<Rightarrow> string \<Rightarrow> 'v \<Rightarrow> err option" where
  "name_guard GetName k v =
     (if k \<noteq> GetName v then Some (Sentinel ErrNameableKeyMismatch) else None)"

lemma Named_guarded: "Named GetName S = guarded (name_guard GetName) S"
  by (simp add: guarded_def Named_defs name_guard_def fun_eq_iff)

lemma Validating_guarded: "Validating Validate S = guarded (\<lambda>_. Validate) S"
  by (simp add: guarded_def Validating_defs fun_eq_iff)

lemma guarded_simps [simp]:
  "g k v = None \<Longrightarrow> Create (guarded g S) opts k v s = Create S opts k v s"
  "g k v = None \<Longrightarrow> Update (guarded g S) opts k v s = Update S opts k v s"
  "g k v = None \<Longrightarrow> Apply (guarded g S) opts k v s = Apply S opts k v s"
  "g k v = Some e \<Longrightarrow> Create (guarded g S) opts k v s = (s, arr opts, Some e)"
  "g k v = Some e \<Longrightarrow> Update (guarded g S) opts k v s = (s, arr opts, Some e)"
  "g k v = Some e \<Longrightarrow> Apply (guarded g S) opts k v s = (s, arr opts, Some e)"
  "Read (guarded g S) = Read S" "Delete (guarded g S) = Delete S" "List (guarded g S) = List S"
  by (simp_all add: guarded_def)

lemma Prefix_simps [simp]:
  "Create (Prefix pre S) opts k = Create S opts (pre @ k)"
  "Read (Prefix pre S) opts k = Read S opts (pre @ k)"
  "Update (Prefix pre S) opts k = Update S opts (pre @ k)"
  "Apply (Prefix pre S) opts k = Apply S opts (pre @ k)"
  "Delete (Prefix pre S) opts k = Delete S opts (pre @ k)"
  "List (Prefix pre S) opts = Prefix_List pre S opts"
  by (simp_all add: Prefix_def)

context kv_store begin

lemma transparent_contract:
  assumes "transparent T S"
  shows "kv_store T (\<lambda>p. abs (fst p)) (\<lambda>p. inv (fst p)) kok vok"
  by unfold_locales
    (rule dom_ok create_new [OF _ _ _ _ transparentD(1) [OF assms]]
      create_dup [OF _ _ _ _ transparentD(1) [OF assms]]
      read_found [OF _ _ _ transparentD(2) [OF assms]]
      read_missing [OF _ _ _ transparentD(2) [OF assms]]
      update_found [OF _ _ _ _ transparentD(3) [OF assms]]
      update_missing [OF _ _ _ _ transparentD(3) [OF assms]]
      apply_ok [OF _ _ _ transparentD(4) [OF assms]]
      delete_found [OF _ _ _ transparentD(5) [OF assms]]
      delete_missing [OF _ _ _ transparentD(5) [OF assms]]
      list_ok [OF _ transparentD(6) [OF assms]]; assumption)+

lemma guarded_contract:
  "kv_store (guarded g S) abs (\<lambda>s. inv s \<and> (\<forall>k v. abs s k = Some v \<longrightarrow> g k v = None)) kok
     (\<lambda>k v. vok k v \<and> g k v = None)"
proof (unfold_locales, goal_cases)
  case (1 s k) then show ?case using dom_ok [of s k] by simp
next
  case (2 s k v s' a r) then show ?case using create_new [of s k v s' a r] by auto
next
  case (3 s k v s' a r) then show ?case using create_dup [of s k v s' a r] by simp
next
  case (4 s k v s' a r) then show ?case using read_found [of s k v s' a r] by simp
next
  case (5 s k s' a r) then show ?case using read_missing [of s k s' a r] by simp
next
  case (6 s k v s' a r) then show ?case using update_found [of s k v s' a r] by auto
next
  case (7 s k v s' a r) then show ?case using update_missing [of s k v s' a r] by simp
next
  case (8 s k v s' a r) then show ?case using apply_ok [of s k v s' a r] by auto
next
  case (9 s k s' a r) then show ?case using delete_found [of s k s' a r] by auto
next
  case (10 s k s' a r) then show ?case using delete_missing [of s k s' a r] by simp
next
  case (11 s s' a r) then show ?case using list_ok [of s s' a r] by simp
qed

end

context prefix_store begin

lemma Prefix_list:
  assumes "inv s" "pre \<noteq> []" "Prefix_List pre S nil_slice s = (s', a, r)"
  shows "(\<exists>items. r = Inr items \<and> listing (\<lambda>k. abs s (pre @ k)) items) \<and> inv s' \<and> abs s' = abs s"
proof -
  obtain s1 a1 r1 where l: "List S (Slice [WithPrefix pre] (Suc 0)) s = (s1, a1, r1)"
    by (metis prod_cases3)
  with list_prefix [OF assms(1,2) l] obtain items where items: "r1 = Inr items"
    "listing (\<lambda>k. if prefix pre k then abs s k else None) items" "inv s1" "abs s1 = abs s" by auto
  have "\<exists>ys. items = map (\<lambda>(k, v). (pre @ k, v)) ys" (is "\<exists>ys. _ = ?add ys")
  proof
    have pre: "prefix pre (fst p)" if "p \<in> set items" for p
      using items(2) that map_of_in_set [of items "fst p" "snd p"]
      by (auto simp: listing_def split: if_splits)
    show "items = ?add (map (\<lambda>(k, v). (drop (length pre) k, v)) items)"
      by (auto simp: split_def prefix_take dest: pre intro!: map_idI [symmetric])
  qed
  then obtain ys where ys: "items = ?add ys" ..
  have "map fst items = map (\<lambda>k. pre @ k) (map fst ys)" by (simp add: ys comp_def split_def)
  then have s: "sorted (map fst ys)" "distinct (map fst ys)"
    using items(2) by (auto simp: listing_def sorted_map distinct_map dest: inj_on_imageI2)
  have "map_of (?add zs) (pre @ k) = map_of zs k" for zs k
    by (induction zs) auto
  then have "map_of items (pre @ k) = map_of ys k" for k by (simp add: ys)
  moreover have "map_of items (pre @ k) = abs s (pre @ k)" for k
    using items(2) by (simp add: listing_def)
  moreover have "map (\<lambda>(k, v). (TrimPrefix k pre, v)) items = ys"
    by (auto simp: ys TrimPrefix_def split_def intro!: map_idI)
  ultimately show ?thesis
    using assms(3) l items s by (auto simp: Prefix_List_def listing_def fun_eq_iff)
qed

lemma Prefix_contract:
  assumes "pre \<noteq> []"
  shows "kv_store (Prefix pre S) (\<lambda>s k. abs s (pre @ k)) inv (\<lambda>k. kok (pre @ k))
    (\<lambda>k v. vok (pre @ k) v)"
proof (unfold_locales, goal_cases)
  case (1 s k) then show ?case using dom_ok [of s] by simp
next
  case (2 s k v s' a r) then show ?case using create_new [of s "pre @ k" v s' a r] by auto
next
  case (3 s k v s' a r) then show ?case using create_dup [of s "pre @ k" v s' a r] by simp
next
  case (4 s k v s' a r) then show ?case using read_found [of s "pre @ k" v s' a r] by simp
next
  case (5 s k s' a r) then show ?case using read_missing [of s "pre @ k" s' a r] by simp
next
  case (6 s k v s' a r) then show ?case using update_found [of s "pre @ k" v s' a r] by auto
next
  case (7 s k v s' a r) then show ?case using update_missing [of s "pre @ k" v s' a r] by simp
next
  case (8 s k v s' a r) then show ?case using apply_ok [of s "pre @ k" v s' a r] by auto
next
  case (9 s k s' a r) then show ?case using delete_found [of s "pre @ k" s' a r] by auto
next
  case (10 s k s' a r) then show ?case using delete_missing [of s "pre @ k" s' a r] by simp
next
  case (11 s s' a r) then show ?case using Prefix_list [OF _ assms, of s s' a r] by simp
qed

end

section \<open>Sequences of calls through a wrapper\<close>

lemma transparent_exec:
  assumes "transparent T S"
  shows "(case exec T c p of (p', x) \<Rightarrow> (fst p', x)) = exec S c (fst p)"
  using transparentD [OF assms]
  by (cases c) (auto split: prod.splits sum.splits)

text \<open>The calls a guard refuses.\<close>

fun refused :: "('k \<Rightarrow> 'v \<Rightarrow> err option) \<Rightarrow> ('k, 'v) call \<Rightarrow> bool" where
  "refused g (CCreate k v) \<longleftrightarrow> g k v \<noteq> None"
| "refused g (CUpdate k v) \<longleftrightarrow> g k v \<noteq> None"
| "refused g (CApply k v) \<longleftrightarrow> g k v \<noteq> None"
| "refused g _ \<longleftrightarrow> False"

lemma guarded_refused: "refused g c \<Longrightarrow> exec (guarded g S) c s = (s, Failed)"
  by (cases c) (auto simp: answer_of_def)

lemma call_ok_guarded:
  "call_ok kok (\<lambda>k v. vok k v \<and> g k v = None) c \<longleftrightarrow> call_ok kok vok c \<and> \<not> refused g c"
  by (cases c) auto

context kv_store begin

lemma guarded_run:
  assumes "inv s" "\<forall>k v. abs s k = Some v \<longrightarrow> g k v = None" "\<forall>c \<in> set cs. call_ok kok vok c"
    and "run (guarded g S) cs s = (s', xs)"
  shows "inv s' \<and> (\<forall>k v. abs s' k = Some v \<longrightarrow> g k v = None) \<and>
    (\<forall>(c, x) \<in> set (zip cs xs). refused g c \<longrightarrow> x = Failed) \<and>
    spec_run (filter (\<lambda>c. \<not> refused g c) cs) (abs s) (abs s')
      (map snd (filter (\<lambda>(c, x). \<not> refused g c) (zip cs xs)))"
  using assms
proof (induction cs arbitrary: s xs)
  case (Cons c cs)
  obtain s1 y where e: "exec (guarded g S) c s = (s1, y)" by (cases "exec (guarded g S) c s")
  obtain ys where r: "run (guarded g S) cs s1 = (s', ys)" "xs = y # ys"
    using Cons.prems(4) e by (auto split: prod.splits)
  show ?case
  proof (cases "refused g c")
    case True
    with e have "s1 = s" "y = Failed" by (auto simp: guarded_refused)
    with True Cons r show ?thesis by simp
  next
    case False
    with kv_store.exec_refines [OF guarded_contract [of g], of s c s1 y] Cons.prems e
    have "inv s1" "\<forall>k v. abs s1 k = Some v \<longrightarrow> g k v = None" "spec_step c (abs s) (abs s1) y"
      by (auto simp: call_ok_guarded)
    moreover from this Cons.IH [of s1 ys] Cons.prems(3) r(1)
    have "inv s' \<and> (\<forall>k v. abs s' k = Some v \<longrightarrow> g k v = None) \<and>
      (\<forall>(c, x) \<in> set (zip cs ys). refused g c \<longrightarrow> x = Failed) \<and>
      spec_run (filter (\<lambda>c. \<not> refused g c) cs) (abs s1) (abs s')
        (map snd (filter (\<lambda>(c, x). \<not> refused g c) (zip cs ys)))" by simp
    ultimately show ?thesis
      using False unfolding r(2) by (simp, intro exI [of _ "abs s1"]) simp
  qed
qed simp

end

fun prefixed :: "string \<Rightarrow> (string, 'v) call \<Rightarrow> (string, 'v) call" where
  "prefixed pre (CCreate k v) = CCreate (pre @ k) v"
| "prefixed pre (CRead k) = CRead (pre @ k)"
| "prefixed pre (CUpdate k v) = CUpdate (pre @ k) v"
| "prefixed pre (CApply k v) = CApply (pre @ k) v"
| "prefixed pre (CDelete k) = CDelete (pre @ k)"
| "prefixed pre CList = CList"

lemma exec_Prefix: "c \<noteq> CList \<Longrightarrow> exec (Prefix pre S) c s = exec S (prefixed pre c) s"
  by (cases c) simp_all

lemma spec_step_frame:
  "spec_step (prefixed pre c) m m' x \<Longrightarrow> \<not> prefix pre k \<Longrightarrow> m' k = m k"
  by (cases c) (auto split: if_splits)

context prefix_store begin

lemma Prefix_frame:
  assumes "pre \<noteq> []" "inv s" "call_ok (\<lambda>k. kok (pre @ k)) (\<lambda>k v. vok (pre @ k) v) c"
    "exec (Prefix pre S) c s = (s', x)"
  shows "inv s' \<and> (\<forall>k. \<not> prefix pre k \<longrightarrow> abs s' k = abs s k)"
proof (cases "c = CList")
  case True
  obtain s1 a r where "Prefix_List pre S nil_slice s = (s1, a, r)" by (metis prod_cases3)
  with True assms Prefix_list [of s pre s1 a r] show ?thesis by (cases r) auto
next
  case False
  with assms(3) have "call_ok kok vok (prefixed pre c)" by (cases c) auto
  with exec_refines [of s "prefixed pre c" s' x] False assms show ?thesis
    by (auto simp: exec_Prefix dest: spec_step_frame)
qed

lemma Prefix_run_frame:
  assumes "pre \<noteq> []" "inv s" "\<forall>c \<in> set cs. call_ok (\<lambda>k. kok (pre @ k)) (\<lambda>k v. vok (pre @ k) v) c"
    "run (Prefix pre S) cs s = (s', xs)"
  shows "inv s' \<and> (\<forall>k. \<not> prefix pre k \<longrightarrow> abs s' k = abs s k)"
  using assms(2-)
proof (induction cs arbitrary: s xs)
  case (Cons c cs)
  obtain s1 y where e: "exec (Prefix pre S) c s = (s1, y)" by (cases "exec (Prefix pre S) c s")
  with Prefix_frame [OF assms(1) Cons.prems(1) _ e] Cons show ?case
    by (auto split: prod.splits)
qed simp

end

interpretation mem_prefix: prefix_store "Memory (Some id) zero" map_of wf_map "\<lambda>_. True" "\<lambda>_ _. True"
proof unfold_locales
  fix s :: "(string, 'a) gomap" and pre s' a r
  assume "wf_map s" "pre \<noteq> []"
    "List (Memory (Some id) zero) (Slice [WithPrefix pre] (Suc 0)) s = (s', a, r)"
  then show "(\<exists>items. r = Inr items \<and>
      listing (\<lambda>k. if prefix pre k then map_of s k else None) items) \<and> wf_map s' \<and> map_of s' = map_of s"
    by (auto simp: Memory_def Mem_List_def Mem_List_loop_eq map_of_filter_key wf_filter fun_eq_iff
        intro!: listing_sort)
qed

section \<open>Counting calls\<close>

fun op_name :: "('k, 'v) call \<Rightarrow> string" where
  "op_name (CCreate _ _) = ''create''"
| "op_name (CRead _) = ''read''"
| "op_name (CUpdate _ _) = ''update''"
| "op_name (CApply _ _) = ''apply''"
| "op_name (CDelete _) = ''delete''"
| "op_name CList = ''list''"

lemma counter_Inc [simp]:
  "counter (Inc l m) l' = counter m l' + (if l' = l then 1 else 0)"
  by (simp add: counter_def Inc_def)

lemma exec_Metrics:
  assumes "exec (Metrics name S) c (s, w) = ((s', w'), x)"
  shows "exec S c s = (s', x)" and
    "counter (m_calls w') l = counter (m_calls w) l + (if l = (op_name c, name) then 1 else 0)" and
    "counter (m_errors w') l =
       counter (m_errors w) l + (if l = (op_name c, name) \<and> x = Failed then 1 else 0)"
  using assms
  by (cases c; auto simp: Metrics_defs observe_def Let_def answer_of_def err_of_def
      split: prod.splits sum.splits if_splits)+

lemma run_Metrics:
  assumes "run (Metrics name S) cs (s, w) = ((s', w'), xs)"
  shows "run S cs s = (s', xs) \<and>
    counter (m_calls w') (op, name) =
      counter (m_calls w) (op, name) + length (filter (\<lambda>c. op_name c = op) cs) \<and>
    counter (m_errors w') (op, name) = counter (m_errors w) (op, name) +
      length (filter (\<lambda>(c, x). op_name c = op \<and> x = Failed) (zip cs xs))"
  using assms
proof (induction cs arbitrary: s w xs)
  case (Cons c cs)
  obtain s1 w1 y where e: "exec (Metrics name S) c (s, w) = ((s1, w1), y)" by (metis surj_pair)
  obtain ys where r: "run (Metrics name S) cs (s1, w1) = ((s', w'), ys)" "xs = y # ys"
    using Cons.prems e by (auto split: prod.splits)
  from Cons.IH [OF r(1)] exec_Metrics [OF e] show ?case by (simp add: r(2))
qed simp

section \<open>Properties\<close>

text \<open>
  C2. The \<open>Prefix\<close> middleware over the memory backend is a store of its own: every sequence of
  calls answers as a map over the unprefixed keys does, and no call touches an entry outside the
  prefix, so two disjoint prefixes share a backend without interfering.
\<close>

theorem Prefix_isolated:
  assumes "wf_map m" "pre \<noteq> []" "run (Prefix pre (Memory (Some id) zero)) cs m = (m', answers)"
  shows "spec_run cs (\<lambda>k. map_of m (pre @ k)) (\<lambda>k. map_of m' (pre @ k)) answers \<and>
    wf_map m' \<and> (\<forall>k. \<not> prefix pre k \<longrightarrow> map_of m' k = map_of m k)"
proof -
  have ok: "call_ok (\<lambda>_. True) (\<lambda>_ _. True) c" for c :: "(string, 'a) call" by (cases c) simp_all
  from kv_store.run_refines [OF mem_prefix.Prefix_contract [OF assms(2)], OF assms(1) _ assms(3)]
    mem_prefix.Prefix_run_frame [OF assms(2,1) _ assms(3)] ok
  show ?thesis by simp
qed

theorem Prefix_isolated_witness:
  "spec_run [CApply ''x'' (1::nat), CList] Map.empty [''x'' \<mapsto> 1] [Done, Items [(''x'', 1)]]"
proof -
  have "run (Prefix ''a/'' (Memory (Some id) 0)) [CApply ''x'' (1::nat), CList] [(''b/x'', 2)] =
      ([(''b/x'', 2), (''a/x'', 1)], [Done, Items [(''x'', 1)]])"
    by (simp add: Memory_def Mem_Apply_def Mem_List_def Prefix_List_def TrimPrefix_def answer_of_def)
  from Prefix_isolated [OF _ _ this] show ?thesis by (simp add: fun_eq_iff)
qed

text \<open>
  C3. A store behind \<open>nameable\<close> or \<open>validatable\<close> never holds an entry its guard refuses,
  whatever is called, valid or not: a refused write fails and leaves the map alone, and the other
  calls answer as the map does.
\<close>

theorem guarded_stores_keep_guard:
  fixes GetName :: "'v \<Rightarrow> string" and Validate :: "'v \<Rightarrow> err option" and zero :: 'v
  assumes "S = Named GetName (Memory f zero) \<and> g = name_guard GetName \<or>
      S = Validating Validate (Memory f zero) \<and> g = (\<lambda>_. Validate)"
    and "wf_map m" "\<forall>k v. map_of m k = Some v \<longrightarrow> g k v = None" "run S cs m = (m', answers)"
  shows "(\<forall>k v. map_of m' k = Some v \<longrightarrow> g k v = None) \<and>
    (\<forall>(c, x) \<in> set (zip cs answers). refused g c \<longrightarrow> x = Failed) \<and>
    spec_run (filter (\<lambda>c. \<not> refused g c) cs) (map_of m) (map_of m')
      (map snd (filter (\<lambda>(c, x). \<not> refused g c) (zip cs answers)))"
proof -
  have "call_ok (\<lambda>_. True) (\<lambda>_ _. True) c" for c :: "(string, 'v) call" by (cases c) simp_all
  moreover have "S = guarded g (Memory f zero)"
    using assms(1) by (auto simp: Named_guarded Validating_guarded)
  ultimately show ?thesis using mem.guarded_run [of m g cs f zero m' answers] assms(2-) by simp
qed

theorem guarded_stores_keep_guard_witness:
  "spec_run [CCreate ''k'' ''k''] Map.empty [''k'' \<mapsto> ''k''] [Done]"
proof -
  have "run (Named (\<lambda>v. v) (Memory None [])) [CCreate ''k'' ''other'', CCreate ''k'' ''k''] [] =
      ([(''k'', ''k'')], [Failed, Done])"
    by (simp add: Named_defs Mem_defs answer_of_def)
  from guarded_stores_keep_guard [OF disjI1 [OF conjI [OF refl refl]] _ _ this]
  show ?thesis by (simp add: name_guard_def)
qed

text \<open>
  C4. \<open>Logger\<close> and \<open>Metrics\<close> only observe: for every store, state and options they return the
  result of the wrapped operation and leave the wrapped state and the caller's options exactly as
  it does.
\<close>

theorem observers_are_transparent:
  "transparent (Logger fmt S) S \<and> transparent (Metrics name S) S"
  by (simp add: transparent_Logger transparent_Metrics)

text \<open>
  The counters of \<open>Metrics\<close> tell the truth: after any sequence of calls the call counter of
  an operation has grown by the number of those calls, its error counter by the number of them
  that failed.
\<close>

theorem Metrics_count_calls_and_errors:
  assumes "run (Metrics name S) cs (s, w) = ((s', w'), answers)"
  shows "counter (m_calls w') (op, name) =
      counter (m_calls w) (op, name) + length (filter (\<lambda>c. op_name c = op) cs) \<and>
    counter (m_errors w') (op, name) = counter (m_errors w) (op, name) +
      length (filter (\<lambda>(c, x). op_name c = op \<and> x = Failed) (zip cs answers))"
  using run_Metrics [OF assms, of op] by blast

theorem Metrics_count_calls_and_errors_witness:
  "\<exists>w. run (Metrics ''db'' (Memory None (0::nat))) [CRead (1::nat)]
     ([], \<lparr>m_calls = [], m_errors = [], m_duration = []\<rparr>) = (([], w), [Failed]) \<and>
   counter (m_errors w) (''read'', ''db'') = 1"
proof -
  obtain w where r: "run (Metrics ''db'' (Memory None (0::nat))) [CRead (1::nat)]
     ([], \<lparr>m_calls = [], m_errors = [], m_duration = []\<rparr>) = (([], w), [Failed])"
    by (simp add: Metrics_defs Mem_defs)
  from Metrics_count_calls_and_errors [OF this, of "''read''"] r show ?thesis
    by (simp add: counter_def)
qed

end
