(* ===== verification/DefaultMap_Store.thy ===== *)
theory DefaultMap_Store
  imports Middleware
begin

text \<open>
  \<open>DefaultMap\<close> over a store, \<open>pkg/store/utilities/defaultmap/defaultmap.go\<close>: updates with a
  collision function, \<open>Merge\<close> and \<open>Clone\<close>.

  \<open>Merge\<close> and \<open>Clone\<close> work on two stores that may share state, so both are stores over one
  common state; \<open>on_fst\<close> and \<open>on_snd\<close> put two independent stores side by side. The loops
  range over Go maps; their lemmas hold for every order of the association list.
\<close>

section \<open>Two stores side by side\<close>

definition with_snd :: "'b \<Rightarrow> ('a, 'r) outcome \<Rightarrow> ('a \<times> 'b, 'r) outcome" where
  "with_snd t r = (case r of (s, a, x) \<Rightarrow> ((s, t), a, x))"

definition with_fst :: "'a \<Rightarrow> ('b, 'r) outcome \<Rightarrow> ('a \<times> 'b, 'r) outcome" where
  "with_fst s r = (case r of (t, a, x) \<Rightarrow> ((s, t), a, x))"

definition on_fst :: "('a, 'k, 'v) store \<Rightarrow> ('a \<times> 'b, 'k, 'v) store" where
  "on_fst S =
     \<lparr>Create = \<lambda>opts k v (s, t). with_snd t (Create S opts k v s),
      Read = \<lambda>opts k (s, t). with_snd t (Read S opts k s),
      Update = \<lambda>opts k v (s, t). with_snd t (Update S opts k v s),
      Apply = \<lambda>opts k v (s, t). with_snd t (Apply S opts k v s),
      Delete = \<lambda>opts k (s, t). with_snd t (Delete S opts k s),
      List = \<lambda>opts (s, t). with_snd t (List S opts s)\<rparr>"

definition on_snd :: "('b, 'k, 'v) store \<Rightarrow> ('a \<times> 'b, 'k, 'v) store" where
  "on_snd S =
     \<lparr>Create = \<lambda>opts k v (s, t). with_fst s (Create S opts k v t),
      Read = \<lambda>opts k (s, t). with_fst s (Read S opts k t),
      Update = \<lambda>opts k v (s, t). with_fst s (Update S opts k v t),
      Apply = \<lambda>opts k v (s, t). with_fst s (Apply S opts k v t),
      Delete = \<lambda>opts k (s, t). with_fst s (Delete S opts k t),
      List = \<lambda>opts (s, t). with_fst s (List S opts t)\<rparr>"

section \<open>Operations\<close>

definition DM_Update ::
  "('s, 'k, 'v) store \<Rightarrow> 'k \<Rightarrow> 'v \<Rightarrow> ('v \<Rightarrow> 'v \<Rightarrow> 'v) \<Rightarrow> 's \<Rightarrow> 's \<times> err option" where
  "DM_Update S key new collision s =
     (case Read S nil_slice key s of
        (s, _, Inl e) \<Rightarrow>
          if \<not> is_err e (Http ErrNotFound) then (s, Some e)
          else (case Create S nil_slice key new s of (s, _, r) \<Rightarrow> (s, r))
      | (s, _, Inr current) \<Rightarrow>
          (case Update S nil_slice key (collision current new) s of (s, _, r) \<Rightarrow> (s, r)))"

definition DM_Apply :: "('s, 'k, 'v) store \<Rightarrow> 'k \<Rightarrow> 'v \<Rightarrow> 's \<Rightarrow> 's \<times> err option" where
  "DM_Apply S key new s = DM_Update S key new (\<lambda>old new. new) s"

definition DM_Read where
  "DM_Read S opts key s = Read S opts key s"

definition DM_Delete where
  "DM_Delete S opts key s = Delete S opts key s"

definition DM_List where
  "DM_List S opts s = List S opts s"

fun DM_update_all ::
  "('s, 'k, 'v) store \<Rightarrow> ('v \<Rightarrow> 'v \<Rightarrow> 'v) \<Rightarrow> ('k, 'v) gomap \<Rightarrow> 's \<Rightarrow> 's \<times> err option" where
  "DM_update_all S collision [] s = (s, None)"
| "DM_update_all S collision ((k, v) # items) s =
     (case DM_Update S k v collision s of
        (s, Some e) \<Rightarrow> (s, Some e)
      | (s, None) \<Rightarrow> DM_update_all S collision items s)"

definition DM_Merge ::
  "('s, 'k, 'v) store \<Rightarrow> ('s, 'k, 'v) store \<Rightarrow> ('v \<Rightarrow> 'v \<Rightarrow> 'v) \<Rightarrow> 's \<Rightarrow> 's \<times> err option" where
  "DM_Merge S other collision s =
     (case AsMap other nil_slice s of
        (s, _, Inl e) \<Rightarrow> (s, Some e)
      | (s, _, Inr items) \<Rightarrow> DM_update_all S collision items s)"

fun DM_delete_missing ::
  "('s, 'k, 'v) store \<Rightarrow> ('k, 'v) gomap \<Rightarrow> ('k, 'v) gomap \<Rightarrow> 's \<Rightarrow> 's \<times> err option" where
  "DM_delete_missing S their [] s = (s, None)"
| "DM_delete_missing S their ((k, _) # ours) s =
     (if map_of their k = None then
        (case DM_Delete S nil_slice k s of
           (s, _, Some e) \<Rightarrow> (s, Some e)
         | (s, _, None) \<Rightarrow> DM_delete_missing S their ours s)
      else DM_delete_missing S their ours s)"

definition DM_Clone ::
  "('s, 'k, 'v) store \<Rightarrow> ('s, 'k, 'v) store \<Rightarrow> ('v \<Rightarrow> 'v \<Rightarrow> 'v) \<Rightarrow> 's \<Rightarrow> 's \<times> err option" where
  "DM_Clone S other collision s =
     (case AsMap other nil_slice s of
        (s, _, Inl e) \<Rightarrow> (s, Some e)
      | (s, _, Inr theirItems) \<Rightarrow>
          (case DM_update_all S collision theirItems s of
             (s, Some e) \<Rightarrow> (s, Some e)
           | (s, None) \<Rightarrow>
               (case AsMap S nil_slice s of
                  (s, _, Inl e) \<Rightarrow> (s, Some e)
                | (s, _, Inr ourItems) \<Rightarrow> DM_delete_missing S theirItems ourItems s)))"

section \<open>Lifting\<close>

lemma on_snd_simps [simp]:
  "Create (on_snd S) opts k v (s, t) = with_fst s (Create S opts k v t)"
  "Read (on_snd S) opts k (s, t) = with_fst s (Read S opts k t)"
  "Update (on_snd S) opts k v (s, t) = with_fst s (Update S opts k v t)"
  "Apply (on_snd S) opts k v (s, t) = with_fst s (Apply S opts k v t)"
  "Delete (on_snd S) opts k (s, t) = with_fst s (Delete S opts k t)"
  "List (on_snd S) opts (s, t) = with_fst s (List S opts t)"
  by (simp_all add: on_snd_def)

lemma on_fst_simps [simp]:
  "Create (on_fst S) opts k v (s, t) = with_snd t (Create S opts k v s)"
  "Read (on_fst S) opts k (s, t) = with_snd t (Read S opts k s)"
  "Update (on_fst S) opts k v (s, t) = with_snd t (Update S opts k v s)"
  "Apply (on_fst S) opts k v (s, t) = with_snd t (Apply S opts k v s)"
  "Delete (on_fst S) opts k (s, t) = with_snd t (Delete S opts k s)"
  "List (on_fst S) opts (s, t) = with_snd t (List S opts s)"
  by (simp_all add: on_fst_def)

lemma with_simps [simp]:
  "with_fst s (t, a, r) = ((s, t), a, r)" "with_snd t (s, a, r) = ((s, t), a, r)"
  by (simp_all add: with_fst_def with_snd_def)

lemma DM_Update_on_snd:
  "DM_Update (on_snd S) k v c (s, t) = (case DM_Update S k v c t of (t, r) \<Rightarrow> ((s, t), r))"
  by (simp add: DM_Update_def with_fst_def split: prod.split sum.split)

lemma DM_update_all_on_snd:
  "DM_update_all (on_snd S) c items (s, t) =
     (case DM_update_all S c items t of (t, r) \<Rightarrow> ((s, t), r))"
  by (induction S c items t rule: DM_update_all.induct)
    (simp_all add: DM_Update_on_snd split: prod.split option.split)

lemma DM_delete_missing_on_snd:
  "DM_delete_missing (on_snd S) their ours (s, t) =
     (case DM_delete_missing S their ours t of (t, r) \<Rightarrow> ((s, t), r))"
  by (induction S their ours t rule: DM_delete_missing.induct)
    (simp_all add: DM_Delete_def with_fst_def split: prod.split option.split)

lemma AsMap_on_snd: "AsMap (on_snd S) opts (s, t) = with_fst s (AsMap S opts t)"
  by (simp add: AsMap_def with_fst_def split: prod.split sum.split)

lemma AsMap_on_fst: "AsMap (on_fst S) opts (s, t) = with_snd t (AsMap S opts s)"
  by (simp add: AsMap_def with_snd_def split: prod.split sum.split)

lemmas AsMap_lift = AsMap_on_snd AsMap_on_fst

section \<open>Over a store that keeps its contract\<close>

text \<open>The value \<open>Update\<close> leaves under a key.\<close>

definition combined :: "('v \<Rightarrow> 'v \<Rightarrow> 'v) \<Rightarrow> 'v option \<Rightarrow> 'v \<Rightarrow> 'v" where
  "combined c old new = (case old of None \<Rightarrow> new | Some w \<Rightarrow> c w new)"

lemma merged_combined:
  "merged c old (Some v) = Some (combined c old v)" "merged c old None = old"
  by (simp_all add: merged_def combined_def split: option.split)

context typed_store begin

lemma DM_Update_ok:
  assumes "inv s" "kok k" "vok k (combined c (abs s k) v)" "DM_Update S k v c s = (s', r)"
  shows "r = None \<and> inv s' \<and> abs s' = (abs s)(k \<mapsto> combined c (abs s k) v)"
proof (cases "abs s k")
  case None
  obtain s1 a r1 where e: "Read S nil_slice k s = (s1, a, r1)" by (metis prod_cases3)
  obtain s2 b r2 where e2: "Create S nil_slice k v s1 = (s2, b, r2)" by (metis prod_cases3)
  from read_missing [OF assms(1,2) None e] read_notfound [OF assms(1,2) None e]
  obtain x where x: "r1 = Inl x" "is_err x (Http ErrNotFound)" "inv s1" "abs s1 = abs s" by auto
  with create_new [OF x(3) assms(2) _ _ e2] assms(3,4) None e e2 show ?thesis
    by (simp add: DM_Update_def combined_def)
next
  case (Some w)
  obtain s1 a r1 where e: "Read S nil_slice k s = (s1, a, r1)" by (metis prod_cases3)
  obtain s2 b r2 where e2: "Update S nil_slice k (c w v) s1 = (s2, b, r2)" by (metis prod_cases3)
  from read_found [OF assms(1,2) Some e] have x: "r1 = Inr w" "inv s1" "abs s1 = abs s" by auto
  with update_found [OF x(2) assms(2) _ _ e2] assms(3,4) Some e e2 show ?thesis
    by (simp add: DM_Update_def combined_def)
qed

lemma DM_update_all_ok:
  assumes "inv s" "wf_map items"
    and "\<forall>(k, v) \<in> set items. kok k \<and> vok k (combined c (abs s k) v)"
    and "DM_update_all S c items s = (s', r)"
  shows "r = None \<and> inv s' \<and> abs s' = (\<lambda>k. merged c (abs s k) (map_of items k))"
  using assms
proof (induction items arbitrary: s)
  case Nil
  then show ?case by (simp add: merged_def)
next
  case (Cons p items)
  obtain k v where p: "p = (k, v)" by (cases p)
  obtain s1 r1 where u: "DM_Update S k v c s = (s1, r1)" by (metis surj_pair)
  have s1: "r1 = None" "inv s1" "abs s1 = (abs s)(k \<mapsto> combined c (abs s k) v)"
    using DM_Update_ok [OF Cons.prems(1) _ _ u] Cons.prems(3) p by auto
  have k: "k \<notin> fst ` set items" using Cons.prems(2) p by simp
  then have "\<forall>(j, w) \<in> set items. kok j \<and> vok j (combined c (abs s1 j) w)"
    using Cons.prems(3) p s1(3) by (auto simp: rev_image_eqI)
  with Cons.IH [OF s1(2)] Cons.prems(2,4) p u s1(1)
  have "r = None \<and> inv s' \<and> abs s' = (\<lambda>k. merged c (abs s1 k) (map_of items k))" by simp
  then show ?case using s1(3) p k
    by (auto simp: fun_eq_iff merged_combined simp flip: map_of_eq_None)
qed

lemma DM_delete_missing_ok:
  assumes "inv s" "wf_map ours" "\<forall>k \<in> fst ` set ours. abs s k \<noteq> None"
    and "DM_delete_missing S their ours s = (s', r)"
  shows "r = None \<and> inv s' \<and>
    abs s' = (\<lambda>k. if k \<in> fst ` set ours \<and> map_of their k = None then None else abs s k)"
  using assms
proof (induction ours arbitrary: s)
  case (Cons p ours)
  obtain k v where p: "p = (k, v)" by (cases p)
  show ?case
  proof (cases "map_of their k = None")
    case True
    obtain s1 a r1 where d: "Delete S nil_slice k s = (s1, a, r1)" by (metis prod_cases3)
    have "abs s k \<noteq> None" using Cons.prems(3) p by simp
    with delete_found [OF Cons.prems(1) _ _ d] dom_ok [OF Cons.prems(1)]
    have s1: "r1 = None" "inv s1" "abs s1 = (abs s)(k := None)" by auto
    moreover have "\<forall>j \<in> fst ` set ours. abs s1 j \<noteq> None"
      using Cons.prems(2,3) p s1(3) by (auto simp: rev_image_eqI)
    ultimately have "r = None \<and> inv s' \<and>
        abs s' = (\<lambda>k. if k \<in> fst ` set ours \<and> map_of their k = None then None else abs s1 k)"
      using Cons.IH [OF s1(2)] Cons.prems(2,4) p d True by (simp add: DM_Delete_def)
    then show ?thesis using s1(3) p True by (auto simp: fun_eq_iff)
  next
    case False
    with Cons.IH [OF Cons.prems(1)] Cons.prems p show ?thesis by (auto simp: fun_eq_iff)
  qed
qed simp

end

section \<open>Merging and cloning an independent store\<close>

locale two_stores = D: typed_store D absD invD kok vok + R: kv_store R absR invR kok vok
  for D :: "('d, 'k::linorder, 'v) store" and absD invD kok vok
    and R :: "('o, 'k, 'v) store" and absR invR +
  assumes stored_ok: "invR t \<Longrightarrow> absR t k = Some v \<Longrightarrow> vok k v"
begin

lemma DM_Merge_ok:
  assumes "invR t" "invD s"
    and "\<And>k v. absR t k = Some v \<Longrightarrow> vok k (combined c (absD s k) v)"
    and "DM_Merge (on_snd D) (on_fst R) c (t, s) = ((t', s'), r)"
  shows "r = None \<and> invR t' \<and> absR t' = absR t \<and> invD s' \<and>
    absD s' = (\<lambda>k. merged c (absD s k) (absR t k))"
proof -
  obtain t1 a m where l: "AsMap R nil_slice t = (t1, a, m)" by (metis prod_cases3)
  from R.AsMap_ok [OF assms(1) l] obtain items where items: "m = Inr items" "wf_map items"
    "map_of items = absR t" "invR t1" "absR t1 = absR t" by auto
  have "\<forall>(k, v) \<in> set items. kok k \<and> vok k (combined c (absD s k) v)"
    using assms(3) items R.dom_ok [OF assms(1)] by (auto simp: map_of_in_set)
  moreover obtain s1 r1 where "DM_update_all D c items s = (s1, r1)" by (metis surj_pair)
  ultimately show ?thesis using D.DM_update_all_ok [OF assms(2) items(2)] assms(4) l items
    by (auto simp: DM_Merge_def AsMap_lift DM_update_all_on_snd)
qed

lemma DM_Clone_ok:
  assumes "invR t" "invD s"
    and "\<And>k v. absR t k = Some v \<Longrightarrow> vok k (combined c (absD s k) v)"
    and "DM_Clone (on_snd D) (on_fst R) c (t, s) = ((t', s'), r)"
  shows "r = None \<and> invR t' \<and> absR t' = absR t \<and> invD s' \<and>
    absD s' = (\<lambda>k. case absR t k of None \<Rightarrow> None | Some v \<Rightarrow> Some (combined c (absD s k) v))"
proof -
  obtain t1 a m where l: "AsMap R nil_slice t = (t1, a, m)" by (metis prod_cases3)
  from R.AsMap_ok [OF assms(1) l] obtain items where items: "m = Inr items" "wf_map items"
    "map_of items = absR t" "invR t1" "absR t1 = absR t" by auto
  have "\<forall>(k, v) \<in> set items. kok k \<and> vok k (combined c (absD s k) v)"
    using assms(3) items R.dom_ok [OF assms(1)] by (auto simp: map_of_in_set)
  moreover obtain s1 r1 where u: "DM_update_all D c items s = (s1, r1)" by (metis surj_pair)
  ultimately have s1: "r1 = None" "invD s1" "absD s1 = (\<lambda>k. merged c (absD s k) (absR t k))"
    using D.DM_update_all_ok [OF assms(2) items(2) _ u] items(3) by auto
  obtain s2 b m2 where l2: "AsMap D nil_slice s1 = (s2, b, m2)" by (metis prod_cases3)
  from D.AsMap_ok [OF s1(2) l2] obtain ours where ours: "m2 = Inr ours" "wf_map ours"
    "map_of ours = absD s1" "invD s2" "absD s2 = absD s1" by auto
  have dom: "k \<in> fst ` set ours \<longleftrightarrow> absD s1 k \<noteq> None" for k
    using map_of_eq_None [of ours k] ours(3) by auto
  obtain s3 r3 where d: "DM_delete_missing D items ours s2 = (s3, r3)" by (metis surj_pair)
  from D.DM_delete_missing_ok [OF ours(4,2) _ d] dom ours(5)
  have s3: "r3 = None" "invD s3"
    "absD s3 = (\<lambda>k. if absD s1 k \<noteq> None \<and> absR t k = None then None else absD s1 k)"
    by (auto simp: items(3))
  have "absD s3 k = (case absR t k of None \<Rightarrow> None | Some v \<Rightarrow> Some (combined c (absD s k) v))"
    for k by (cases "absR t k") (simp_all add: s3(3) s1(3) merged_combined)
  with assms(4) l items u s1 l2 ours d s3 show ?thesis
    by (auto simp: DM_Clone_def AsMap_lift DM_update_all_on_snd DM_delete_missing_on_snd fun_eq_iff)
qed

end

interpretation mem_pair: two_stores "Memory f zero" map_of wf_map "\<lambda>_. True" "\<lambda>_ _. True"
    "Memory g zero'" map_of wf_map
  by unfold_locales simp

section \<open>Properties\<close>

text \<open>
  \<open>Merge\<close> and \<open>Clone\<close> of a \<open>DefaultMap\<close>, over memory stores: a colliding key gets what
  the collision function makes of the two values, a key of the other store is added as it is, and
  the other store is untouched. \<open>Merge\<close> keeps the keys only we have, \<open>Clone\<close> deletes them, so
  with a collision function that takes the new value it makes an identical copy.
\<close>

theorem DefaultMap_merge_and_clone:
  fixes t s :: "('k::linorder, 'v) gomap"
  assumes "wf_map t" "wf_map s"
  shows "(\<exists>t1 s1. DM_Merge (on_snd (Memory f zero)) (on_fst (Memory f zero)) c (t, s) = ((t1, s1), None) \<and>
      wf_map s1 \<and> map_of t1 = map_of t \<and> map_of s1 = (\<lambda>k. merged c (map_of s k) (map_of t k))) \<and>
    (\<exists>t1 s1. DM_Clone (on_snd (Memory f zero)) (on_fst (Memory f zero)) c (t, s) = ((t1, s1), None) \<and>
      wf_map s1 \<and> map_of t1 = map_of t \<and>
      map_of s1 = (\<lambda>k. if map_of t k = None then None else merged c (map_of s k) (map_of t k)))"
proof (intro conjI)
  obtain t1 s1 r where m: "DM_Merge (on_snd (Memory f zero)) (on_fst (Memory f zero)) c (t, s) = ((t1, s1), r)" by (metis surj_pair)
  from mem_pair.DM_Merge_ok [OF assms _ m] m
  show "\<exists>t1 s1. DM_Merge (on_snd (Memory f zero)) (on_fst (Memory f zero)) c (t, s) = ((t1, s1), None) \<and>
      wf_map s1 \<and> map_of t1 = map_of t \<and> map_of s1 = (\<lambda>k. merged c (map_of s k) (map_of t k))"
    by simp
next
  obtain t1 s1 r where m: "DM_Clone (on_snd (Memory f zero)) (on_fst (Memory f zero)) c (t, s) = ((t1, s1), r)" by (metis surj_pair)
  from mem_pair.DM_Clone_ok [OF assms _ m] m
  show "\<exists>t1 s1. DM_Clone (on_snd (Memory f zero)) (on_fst (Memory f zero)) c (t, s) = ((t1, s1), None) \<and>
      wf_map s1 \<and> map_of t1 = map_of t \<and>
      map_of s1 = (\<lambda>k. if map_of t k = None then None else merged c (map_of s k) (map_of t k))"
    by (auto simp: fun_eq_iff merged_combined split: option.split)
qed

theorem DefaultMap_merge_and_clone_witness:
  "\<exists>t1 s1. DM_Clone (on_snd (Memory None 0)) (on_fst (Memory None 0)) (+)
     ([(''foo'', 5), (''bar'', 7::nat)], [(''foo'', 3), (''old'', 1)]) = ((t1, s1), None) \<and>
   map_of s1 ''foo'' = Some 8 \<and> map_of s1 ''bar'' = Some 7 \<and> map_of s1 ''old'' = None"
  using conjunct2 [OF DefaultMap_merge_and_clone [of "[(''foo'', 5), (''bar'', 7::nat)]"
        "[(''foo'', 3), (''old'', 1)]" None 0 "(+)"]]
  by (auto simp: merged_def)

end
