(* ===== verification/Cache.thy ===== *)
theory Cache
  imports DefaultMap_Store
begin

text \<open>
  The cache middleware, \<open>pkg/store/middleware/cache/cache.go\<close>: a persistent store \<open>P\<close> with a
  local store \<open>L\<close> in front of it. The state is the pair of their states.

  The contract is that of the persistent store as long as the two are in step (\<open>in_step\<close>), which
  \<open>New\<close> establishes and every call keeps. The case the code handles wrongly is stated too: after a
  change behind the cache a listing with \<open>SkipCache\<close> is still the old one.
\<close>

section \<open>Operations\<close>

fun is_skip_cache :: "opt \<Rightarrow> bool" where
  "is_skip_cache (OSkipCache _) = True"
| "is_skip_cache _ = False"

definition MatchSkipCache :: "opt slice \<Rightarrow> bool \<times> opt slice" where
  "MatchSkipCache opts =
     (case MatchOption is_skip_cache False opts of
        (Some (OSkipCache b), opts) \<Rightarrow> (b, opts) | (_, opts) \<Rightarrow> (False, opts))"

definition take_new :: "'v \<Rightarrow> 'v \<Rightarrow> 'v" where
  "take_new old new = new"

definition Cache_New ::
  "('p, 'k, 'v) store \<Rightarrow> ('l, 'k, 'v) store \<Rightarrow> 'p \<times> 'l \<Rightarrow> ('p \<times> 'l) \<times> err option" where
  "Cache_New P L s = DM_Clone (on_snd L) (on_fst P) take_new s"

definition Cache_Create ::
  "('p, 'k, 'v) store \<Rightarrow> ('l, 'k, 'v) store \<Rightarrow> opt slice \<Rightarrow> 'k \<Rightarrow> 'v \<Rightarrow> 'p \<times> 'l \<Rightarrow>
   ('p \<times> 'l, err option) outcome" where
  "Cache_Create P L opts key value = (\<lambda>(p, l).
     let dupOps = Clone opts in
     case Create P opts key value p of
       (p, a, Some e) \<Rightarrow> ((p, l), a, Some e)
     | (p, a, None) \<Rightarrow>
         (case Create L dupOps key value l of (l, _, _) \<Rightarrow> ((p, l), a, None)))"

definition Cache_Read ::
  "('p, 'k, 'v) store \<Rightarrow> ('l, 'k, 'v) store \<Rightarrow> opt slice \<Rightarrow> 'k \<Rightarrow> 'p \<times> 'l \<Rightarrow>
   ('p \<times> 'l, err + 'v) outcome" where
  "Cache_Read P L opts key = (\<lambda>(p, l).
     case MatchSkipCache opts of (skipCache, opts) \<Rightarrow>
       if skipCache then with_snd l (Read P opts key p)
       else (let dupOps = Clone opts in
         case Read L dupOps key l of
           (l, _, Inr item) \<Rightarrow> ((p, l), arr opts, Inr item)
         | (l, _, Inl _) \<Rightarrow> with_snd l (Read P opts key p)))"

definition Cache_Update ::
  "('p, 'k, 'v) store \<Rightarrow> ('l, 'k, 'v) store \<Rightarrow> opt slice \<Rightarrow> 'k \<Rightarrow> 'v \<Rightarrow> 'p \<times> 'l \<Rightarrow>
   ('p \<times> 'l, err option) outcome" where
  "Cache_Update P L opts key value = (\<lambda>(p, l).
     let dupOps = Clone opts in
     case Update P opts key value p of
       (p, a, Some e) \<Rightarrow> ((p, l), a, Some e)
     | (p, a, None) \<Rightarrow>
         (case Update L dupOps key value l of (l, _, _) \<Rightarrow> ((p, l), a, None)))"

definition Cache_Apply ::
  "('p, 'k, 'v) store \<Rightarrow> ('l, 'k, 'v) store \<Rightarrow> opt slice \<Rightarrow> 'k \<Rightarrow> 'v \<Rightarrow> 'p \<times> 'l \<Rightarrow>
   ('p \<times> 'l, err option) outcome" where
  "Cache_Apply P L opts key value = (\<lambda>(p, l).
     let dupOps = Clone opts in
     case Apply P opts key value p of
       (p, a, Some e) \<Rightarrow> ((p, l), a, Some e)
     | (p, a, None) \<Rightarrow>
         (case Apply L dupOps key value l of (l, _, _) \<Rightarrow> ((p, l), a, None)))"

definition Cache_Delete ::
  "('p, 'k, 'v) store \<Rightarrow> ('l, 'k, 'v) store \<Rightarrow> opt slice \<Rightarrow> 'k \<Rightarrow> 'p \<times> 'l \<Rightarrow>
   ('p \<times> 'l, err option) outcome" where
  "Cache_Delete P L opts key = (\<lambda>(p, l).
     let dupOps = Clone opts in
     case Delete P opts key p of
       (p, a, Some e) \<Rightarrow> ((p, l), a, Some e)
     | (p, a, None) \<Rightarrow>
         (case Delete L dupOps key l of (l, _, _) \<Rightarrow> ((p, l), a, None)))"

text \<open>\<open>List\<close>: the merger is built on \<open>t.store\<close> and clones \<open>t.store\<close> into itself.\<close>

definition Cache_List ::
  "('p, 'k, 'v) store \<Rightarrow> ('l, 'k, 'v) store \<Rightarrow> opt slice \<Rightarrow> 'p \<times> 'l \<Rightarrow>
   ('p \<times> 'l, err + ('k, 'v) ListItems) outcome" where
  "Cache_List P L opts = (\<lambda>(p, l).
     case MatchSkipCache opts of (skipCache, opts) \<Rightarrow>
       if skipCache \<and> len opts > 0 then with_snd l (List P opts p)
       else if skipCache then
         (case DM_Clone P P take_new p of
            (p, Some e) \<Rightarrow> ((p, l), arr opts, Inl e)
          | (p, None) \<Rightarrow> with_fst p (List L opts l))
       else with_fst p (List L opts l))"

definition Cache ::
  "('p, 'k, 'v) store \<Rightarrow> ('l, 'k, 'v) store \<Rightarrow> ('p \<times> 'l, 'k, 'v) store" where
  "Cache P L =
     \<lparr>Create = Cache_Create P L, Read = Cache_Read P L, Update = Cache_Update P L,
      Apply = Cache_Apply P L, Delete = Cache_Delete P L, List = Cache_List P L\<rparr>"

section \<open>Calls without options\<close>

lemma MatchSkipCache_empty [simp]: "MatchSkipCache (Slice a 0) = (False, Slice a 0)"
  by (simp add: MatchSkipCache_def)

lemma MatchSkipCache_skip [simp]:
  "MatchSkipCache (slice_of [OSkipCache b]) = (b, Slice [OSkipCache b] 0)"
  by (simp add: MatchSkipCache_def slice_of_single option_simps)

lemma Clone_nil [simp]: "Clone nil_slice = nil_slice"
  by (simp add: Clone_def)

lemma Cache_simps:
  "Create (Cache P L) nil_slice k v (p, l) =
     (case Create P nil_slice k v p of (p, a, Some e) \<Rightarrow> ((p, l), a, Some e)
      | (p, a, None) \<Rightarrow> (case Create L nil_slice k v l of (l, _, _) \<Rightarrow> ((p, l), a, None)))"
  "Read (Cache P L) nil_slice k (p, l) =
     (case Read L nil_slice k l of (l, _, Inr x) \<Rightarrow> ((p, l), [], Inr x)
      | (l, _, Inl _) \<Rightarrow> with_snd l (Read P nil_slice k p))"
  "Update (Cache P L) nil_slice k v (p, l) =
     (case Update P nil_slice k v p of (p, a, Some e) \<Rightarrow> ((p, l), a, Some e)
      | (p, a, None) \<Rightarrow> (case Update L nil_slice k v l of (l, _, _) \<Rightarrow> ((p, l), a, None)))"
  "Apply (Cache P L) nil_slice k v (p, l) =
     (case Apply P nil_slice k v p of (p, a, Some e) \<Rightarrow> ((p, l), a, Some e)
      | (p, a, None) \<Rightarrow> (case Apply L nil_slice k v l of (l, _, _) \<Rightarrow> ((p, l), a, None)))"
  "Delete (Cache P L) nil_slice k (p, l) =
     (case Delete P nil_slice k p of (p, a, Some e) \<Rightarrow> ((p, l), a, Some e)
      | (p, a, None) \<Rightarrow> (case Delete L nil_slice k l of (l, _, _) \<Rightarrow> ((p, l), a, None)))"
  "List (Cache P L) nil_slice (p, l) = with_fst p (List L nil_slice l)"
  by (simp_all add: Cache_def Cache_Create_def Cache_Read_def Cache_Update_def Cache_Apply_def
      Cache_Delete_def Cache_List_def)

section \<open>A cache in step keeps the contract of the persistent store\<close>

definition in_step ::
  "('p \<Rightarrow> bool) \<Rightarrow> ('l \<Rightarrow> bool) \<Rightarrow> ('p \<Rightarrow> 'm) \<Rightarrow> ('l \<Rightarrow> 'm) \<Rightarrow> 'p \<times> 'l \<Rightarrow> bool" where
  "in_step invP invL absP absL s \<longleftrightarrow>
     invP (fst s) \<and> invL (snd s) \<and> absL (snd s) = absP (fst s)"

lemma in_stepE:
  assumes "in_step invP invL absP absL s"
  obtains p l where "s = (p, l)" "invP p" "invL l" "absL l = absP p"
  using assms by (cases s) (auto simp: in_step_def)

locale cache_pair = P: typed_store P absP invP kok vok + L: typed_store L absL invL kok vok
  for P :: "('p, 'k::linorder, 'v) store" and absP invP kok vok
    and L :: "('l, 'k, 'v) store" and absL invL +
  assumes stored_ok: "invP p \<Longrightarrow> absP p k = Some v \<Longrightarrow> vok k v"
begin

text \<open>\<open>New\<close> brings any local store into step.\<close>

sublocale two_stores L absL invL kok vok P absP invP
  by unfold_locales (rule stored_ok)

lemma Cache_New_syncs:
  assumes "invP p" "invL l" "Cache_New P L (p, l) = (s', r)"
  shows "r = None \<and> in_step invP invL absP absL s' \<and> absP (fst s') = absP p"
proof -
  obtain p' l' where s': "s' = (p', l')" by (cases s')
  have v: "vok k (combined take_new old v)" if "absP p k = Some v" for k old v
    using stored_ok [OF assms(1) that] by (simp add: combined_def take_new_def split: option.split)
  have "(case absP p k of None \<Rightarrow> None | Some v \<Rightarrow> Some (combined take_new old v)) = absP p k" for k old
    by (simp add: combined_def take_new_def split: option.split)
  with DM_Clone_ok [OF assms(1,2) v assms(3) [unfolded Cache_New_def s']] s'
  show ?thesis by (auto simp: in_step_def fun_eq_iff)
qed

sublocale cached: typed_store "Cache P L" "\<lambda>s. absP (fst s)" "in_step invP invL absP absL" kok vok
proof (unfold_locales, goal_cases)
  case (1 s k) then show ?case using P.dom_ok [of "fst s" k] by (simp add: in_step_def)
next
  case (2 s k v s' a r)
  then obtain p l where s: "s = (p, l)" "invP p" "invL l" "absL l = absP p" by (elim in_stepE)
  obtain p1 a1 r1 where p: "Create P nil_slice k v p = (p1, a1, r1)" by (metis prod_cases3)
  obtain l1 b r2 where l: "Create L nil_slice k v l = (l1, b, r2)" by (metis prod_cases3)
  from P.create_new [OF s(2) 2(2,3) _ p] L.create_new [OF s(3) 2(2,3) _ l] 2 s p l
  show ?case by (auto simp: Cache_simps in_step_def)
next
  case (3 s k v s' a r)
  then obtain p l where s: "s = (p, l)" "invP p" "invL l" "absL l = absP p" by (elim in_stepE)
  obtain p1 a1 r1 where p: "Create P nil_slice k v p = (p1, a1, r1)" by (metis prod_cases3)
  from P.create_dup [OF s(2) 3(2,3) _ p] 3 s p
  show ?case by (auto simp: Cache_simps in_step_def)
next
  case (4 s k v s' a r)
  then obtain p l where s: "s = (p, l)" "invP p" "invL l" "absL l = absP p" by (elim in_stepE)
  obtain l1 b r2 where l: "Read L nil_slice k l = (l1, b, r2)" by (metis prod_cases3)
  from L.read_found [OF s(3) 4(2) _ l] 4 s l
  show ?case by (auto simp: Cache_simps in_step_def)
next
  case (5 s k s' a r)
  then obtain p l where s: "s = (p, l)" "invP p" "invL l" "absL l = absP p" by (elim in_stepE)
  obtain p1 a1 r1 where p: "Read P nil_slice k p = (p1, a1, r1)" by (metis prod_cases3)
  obtain l1 b r2 where l: "Read L nil_slice k l = (l1, b, r2)" by (metis prod_cases3)
  from P.read_missing [OF s(2) 5(2) _ p] L.read_missing [OF s(3) 5(2) _ l] 5 s p l
  show ?case by (auto simp: Cache_simps in_step_def split: sum.splits)
next
  case (6 s k v s' a r)
  then obtain p l where s: "s = (p, l)" "invP p" "invL l" "absL l = absP p" by (elim in_stepE)
  obtain p1 a1 r1 where p: "Update P nil_slice k v p = (p1, a1, r1)" by (metis prod_cases3)
  obtain l1 b r2 where l: "Update L nil_slice k v l = (l1, b, r2)" by (metis prod_cases3)
  from P.update_found [OF s(2) 6(2,3) _ p] L.update_found [OF s(3) 6(2,3) _ l] 6 s p l
  show ?case by (auto simp: Cache_simps in_step_def)
next
  case (7 s k v s' a r)
  then obtain p l where s: "s = (p, l)" "invP p" "invL l" "absL l = absP p" by (elim in_stepE)
  obtain p1 a1 r1 where p: "Update P nil_slice k v p = (p1, a1, r1)" by (metis prod_cases3)
  from P.update_missing [OF s(2) 7(2,3) _ p] 7 s p
  show ?case by (auto simp: Cache_simps in_step_def)
next
  case (8 s k v s' a r)
  then obtain p l where s: "s = (p, l)" "invP p" "invL l" "absL l = absP p" by (elim in_stepE)
  obtain p1 a1 r1 where p: "Apply P nil_slice k v p = (p1, a1, r1)" by (metis prod_cases3)
  obtain l1 b r2 where l: "Apply L nil_slice k v l = (l1, b, r2)" by (metis prod_cases3)
  from P.apply_ok [OF s(2) 8(2,3) p] L.apply_ok [OF s(3) 8(2,3) l] 8 s p l
  show ?case by (auto simp: Cache_simps in_step_def)
next
  case (9 s k s' a r)
  then obtain p l where s: "s = (p, l)" "invP p" "invL l" "absL l = absP p" by (elim in_stepE)
  obtain p1 a1 r1 where p: "Delete P nil_slice k p = (p1, a1, r1)" by (metis prod_cases3)
  obtain l1 b r2 where l: "Delete L nil_slice k l = (l1, b, r2)" by (metis prod_cases3)
  from P.delete_found [OF s(2) 9(2) _ p] L.delete_found [OF s(3) 9(2) _ l] 9 s p l
  show ?case by (auto simp: Cache_simps in_step_def)
next
  case (10 s k s' a r)
  then obtain p l where s: "s = (p, l)" "invP p" "invL l" "absL l = absP p" by (elim in_stepE)
  obtain p1 a1 r1 where p: "Delete P nil_slice k p = (p1, a1, r1)" by (metis prod_cases3)
  obtain l1 b r2 where l: "Delete L nil_slice k l = (l1, b, r2)" by (metis prod_cases3)
  from P.delete_missing [OF s(2) 10(2) _ p] L.delete_missing [OF s(3) 10(2) _ l] 10 s p l
  show ?case by (auto simp: Cache_simps in_step_def split: option.splits)
next
  case (11 s s' a r)
  then obtain p l where s: "s = (p, l)" "invP p" "invL l" "absL l = absP p" by (elim in_stepE)
  obtain l1 b r2 where l: "List L nil_slice l = (l1, b, r2)" by (metis prod_cases3)
  from L.list_ok [OF s(3) l] 11 s l show ?case by (auto simp: Cache_simps in_step_def)
next
  case (12 s k v s' a r)
  then obtain p l where s: "s = (p, l)" "invP p" by (elim in_stepE)
  obtain p1 a1 r1 where p: "Create P nil_slice k v p = (p1, a1, r1)" by (metis prod_cases3)
  from P.create_conflict [OF s(2) 12(2,3) _ p] 12 s p show ?case by (auto simp: Cache_simps)
next
  case (13 s k s' a r)
  then obtain p l where s: "s = (p, l)" "invP p" "invL l" "absL l = absP p" by (elim in_stepE)
  obtain p1 a1 r1 where p: "Read P nil_slice k p = (p1, a1, r1)" by (metis prod_cases3)
  obtain l1 b r2 where l: "Read L nil_slice k l = (l1, b, r2)" by (metis prod_cases3)
  from P.read_notfound [OF s(2) 13(2) _ p] L.read_missing [OF s(3) 13(2) _ l] 13 s p l
  show ?case by (auto simp: Cache_simps split: sum.splits)
next
  case (14 s k v s' a r)
  then obtain p l where s: "s = (p, l)" "invP p" by (elim in_stepE)
  obtain p1 a1 r1 where p: "Update P nil_slice k v p = (p1, a1, r1)" by (metis prod_cases3)
  from P.update_notfound [OF s(2) 14(2,3) _ p] 14 s p show ?case by (auto simp: Cache_simps)
qed

end

interpretation mem_cache: cache_pair "Memory f zero" map_of wf_map "\<lambda>_. True" "\<lambda>_ _. True"
    "Memory g zero'" map_of wf_map
  by unfold_locales simp

text \<open>Cloning a store into itself changes nothing, which is what a listing with \<open>SkipCache\<close> does.\<close>

context typed_store begin

lemma DM_Clone_self:
  assumes "inv s" "\<And>k v. abs s k = Some v \<Longrightarrow> vok k v" "DM_Clone S S take_new s = (s', r)"
  shows "r = None \<and> inv s' \<and> abs s' = abs s"
proof -
  obtain s1 a m where l: "AsMap S nil_slice s = (s1, a, m)" by (metis prod_cases3)
  from AsMap_ok [OF assms(1) l] obtain items where items: "m = Inr items" "wf_map items"
    "map_of items = abs s" "inv s1" "abs s1 = abs s" by auto
  have same: "merged take_new old old = old" for old
    by (simp add: merged_def take_new_def split: option.split)
  have "\<forall>(k, v) \<in> set items. kok k \<and> vok k (combined take_new (abs s1 k) v)"
    using assms(1,2) items dom_ok [of s]
    by (auto simp: map_of_in_set combined_def take_new_def split: option.split)
  moreover obtain s2 r2 where u: "DM_update_all S take_new items s1 = (s2, r2)" by (metis surj_pair)
  ultimately have s2: "r2 = None" "inv s2" "abs s2 = abs s"
    using DM_update_all_ok [OF items(4,2) _ u] items(3,5) by (auto simp: same)
  obtain s3 b m3 where l3: "AsMap S nil_slice s2 = (s3, b, m3)" by (metis prod_cases3)
  from AsMap_ok [OF s2(2) l3] obtain ours where ours: "m3 = Inr ours" "wf_map ours"
    "map_of ours = abs s2" "inv s3" "abs s3 = abs s2" by auto
  have dom: "k \<in> fst ` set ours \<longleftrightarrow> abs s k \<noteq> None" for k
    using map_of_eq_None [of ours k] ours(3) s2(3) by auto
  obtain s4 r4 where d: "DM_delete_missing S items ours s3 = (s4, r4)" by (metis surj_pair)
  from DM_delete_missing_ok [OF ours(4,2) _ d] dom ours(5) s2(3) items(3)
  have "r4 = None" "inv s4" "abs s4 = abs s" by (auto simp: fun_eq_iff)
  with assms(3) l items u s2 l3 ours d show ?thesis by (auto simp: DM_Clone_def)
qed

end

section \<open>Properties\<close>

text \<open>
  C7. A cache over memory stores is invisible: \<open>New\<close> brings any local store into step with the
  persistent one, and from then on every sequence of calls answers as the map of the persistent
  store does and leaves both stores holding that map.
\<close>

theorem Cache_refines_map:
  assumes "wf_map p" "wf_map l"
    and "Cache_New (Memory f zero) (Memory f zero) (p, l) = (s, r)"
    and "run (Cache (Memory f zero) (Memory f zero)) cs s = ((p', l'), answers)"
  shows "r = None \<and> spec_run cs (map_of p) (map_of p') answers \<and> map_of l' = map_of p'"
proof -
  have ok: "call_ok (\<lambda>_. True) (\<lambda>_ _. True) c" for c :: "('a, 'b) call" by (cases c) simp_all
  from mem_cache.Cache_New_syncs [OF assms(1,2,3)]
  have s: "r = None" "in_step wf_map wf_map map_of map_of s" "map_of (fst s) = map_of p" by auto
  from mem_cache.cached.run_refines [OF s(2) _ assms(4)] ok s
  show ?thesis by (simp add: in_step_def)
qed

theorem Cache_refines_map_witness:
  "spec_run [CDelete (1::nat), CRead 1] [1 \<mapsto> ''a''] Map.empty [Done, Failed]"
proof -
  have n: "Cache_New (Memory None []) (Memory None []) ([(1::nat, ''a'')], [(2, ''stale'')]) =
      (([(1, ''a'')], [(1, ''a'')]), None)"
    by (simp add: Cache_New_def DM_Clone_def AsMap_lift AsMap_def items_AsMap_def DM_Update_def
        DM_Delete_def Mem_defs Mem_List_loop_all)
  have "run (Cache (Memory None []) (Memory None [])) [CDelete (1::nat), CRead 1]
      ([(1, ''a'')], [(1, ''a'')]) = (([], []), [Done, Failed])"
    by (simp add: Cache_simps Mem_defs answer_of_def)
  from Cache_refines_map [OF _ _ n this] show ?thesis by (simp add: fun_eq_iff)
qed

text \<open>
  A listing with \<open>SkipCache\<close> and no other option does not refresh the cache: it clones the
  persistent store into itself and then lists the local store, so whatever was changed behind the
  cache is missing from the result and the local store stays as it was.
\<close>

theorem Cache_skip_listing_is_stale:
  assumes "wf_map p" "wf_map l"
  shows "\<exists>p' a items. Cache_List (Memory f zero) (Memory f zero) (slice_of [OSkipCache True]) (p, l) =
      ((p', l), a, Inr items) \<and> listing (map_of l) items \<and> map_of p' = map_of p"
proof -
  obtain p' r where c: "DM_Clone (Memory f zero) (Memory f zero) take_new p = (p', r)"
    by (metis surj_pair)
  from mem.DM_Clone_self [OF assms(1) _ c] have "r = None" "map_of p' = map_of p" by auto
  moreover have "listing (map_of l) (sort_key fst l)" using assms(2) by (simp add: listing_sort)
  ultimately show ?thesis using c
    by (simp add: Cache_List_def Memory_def Mem_List_def Mem_List_loop_all)
qed

theorem Cache_skip_listing_is_stale_witness:
  "\<exists>p' a. Cache_List (Memory None []) (Memory None []) (slice_of [OSkipCache True])
     ([(1::nat, ''new'')], []) = ((p', []), a, Inr [])"
  using Cache_skip_listing_is_stale [of "[(1::nat, ''new'')]" "[]" None "[]"]
  by (auto simp: listing_def)

end
