(* ===== verification/FS.thy ===== *)
theory FS
  imports Store_API
begin

text \<open>
  The file backend, \<open>pkg/store/backends/fs\<close>: \<open>fs.go\<close> over an \<open>RWFS\<close>, and the in-memory
  file system \<open>MemFS\<close> of \<open>fake.go\<close>.

  \<open>rwfs\<close> is the interface \<open>RWFS\<close> as a record of operations over a state of its own. A writer
  returned by \<open>Create\<close> or \<open>Update\<close> is used for one \<open>WriteJSON\<close> and closed, which
  \<open>fs_commit\<close> does with the bytes that were written. The codec of \<open>encoding/json\<close> is a pair
  of arguments, \<open>enc\<close> and \<open>dec\<close>. \<open>path/filepath\<close> is modelled on \<open>/\<close>-separated paths.
\<close>

section \<open>Paths\<close>

fun split_on :: "'a \<Rightarrow> 'a list \<Rightarrow> 'a list list" where
  "split_on c [] = [[]]"
| "split_on c (x # xs) =
     (if x = c then [] # split_on c xs
      else (case split_on c xs of y # ys \<Rightarrow> (x # y) # ys | [] \<Rightarrow> [[x]]))"

fun clean_step :: "bool \<Rightarrow> string list \<Rightarrow> string \<Rightarrow> string list" where
  "clean_step rooted stack c =
     (if c = [] \<or> c = ''.'' then stack
      else if c = ''..'' then
        (if stack \<noteq> [] \<and> last stack \<noteq> ''..'' then butlast stack
         else if rooted then stack else stack @ [c])
      else stack @ [c])"

definition is_rooted :: "string \<Rightarrow> bool" where
  "is_rooted p \<longleftrightarrow> p \<noteq> [] \<and> hd p = CHR ''/''"

definition render_path :: "bool \<Rightarrow> string list \<Rightarrow> string" where
  "render_path rooted cs =
     (if rooted then ''/'' @ strings_Join cs ''/''
      else if cs = [] then ''.'' else strings_Join cs ''/'')"

definition Clean :: "string \<Rightarrow> string" where
  "Clean p =
     render_path (is_rooted p) (foldl (clean_step (is_rooted p)) [] (split_on (CHR ''/'') p))"

text \<open>\<open>filepath.Join\<close> of a base path, which \<open>Validate\<close> requires to be non-empty, and a name.\<close>

definition Join :: "string \<Rightarrow> string \<Rightarrow> string" where
  "Join base name = Clean (base @ ''/'' @ name)"

definition Base :: "string \<Rightarrow> string" where
  "Base p = last (split_on (CHR ''/'') p)"

definition HasSuffix :: "string \<Rightarrow> string \<Rightarrow> bool" where
  "HasSuffix s suf = suffix suf s"

definition TrimSuffix :: "string \<Rightarrow> string \<Rightarrow> string" where
  "TrimSuffix s suf = (if HasSuffix s suf then take (length s - length suf) s else s)"

text \<open>\<open>filepath.Ext\<close> of a name without separators: from the last dot on.\<close>

definition Ext :: "string \<Rightarrow> string" where
  "Ext name =
     (if CHR ''.'' \<in> set name then CHR ''.'' # last (split_on (CHR ''.'') name) else [])"

section \<open>The file system interface and its in-memory implementation\<close>

type_synonym bytes = string

record 'f rwfs =
  fs_Create :: "string \<Rightarrow> 'f \<Rightarrow> 'f \<times> err option"
  fs_Read :: "string \<Rightarrow> 'f \<Rightarrow> err + bytes"
  fs_Update :: "string \<Rightarrow> 'f \<Rightarrow> 'f \<times> err option"
  fs_Delete :: "string \<Rightarrow> 'f \<Rightarrow> 'f \<times> err option"
  fs_ReadDir :: "string \<Rightarrow> 'f \<Rightarrow> err + (string \<times> bool) list"
  fs_MakeDir :: "string \<Rightarrow> 'f \<Rightarrow> 'f \<times> err option"
  fs_commit :: "string \<Rightarrow> bytes \<Rightarrow> 'f \<Rightarrow> 'f"

type_synonym memfs = "(string, bytes) gomap"

record memFileWriter =
  w_name :: string
  w_buf :: bytes
  w_closed :: bool

definition NewMemFS :: memfs where
  "NewMemFS = []"

definition MemFS_Create :: "string \<Rightarrow> memfs \<Rightarrow> err + memFileWriter" where
  "MemFS_Create name m =
     (if map_of m name \<noteq> None then Inl (Sentinel OsErrExist)
      else Inr \<lparr>w_name = name, w_buf = [], w_closed = False\<rparr>)"

definition MemFS_Read :: "string \<Rightarrow> memfs \<Rightarrow> err + bytes" where
  "MemFS_Read name m =
     (case map_of m name of None \<Rightarrow> Inl (Sentinel OsErrNotExist) | Some data \<Rightarrow> Inr data)"

definition MemFS_Update :: "string \<Rightarrow> memfs \<Rightarrow> err + memFileWriter" where
  "MemFS_Update name m =
     (if map_of m name = None then Inl (Sentinel OsErrNotExist)
      else Inr \<lparr>w_name = name, w_buf = [], w_closed = False\<rparr>)"

definition MemFS_Delete :: "string \<Rightarrow> memfs \<Rightarrow> memfs \<times> err option" where
  "MemFS_Delete name m =
     (if map_of m name \<noteq> None then (AList.delete name m, None)
      else (m, Some (Sentinel OsErrNotExist)))"

fun MemFS_ReadDir_loop :: "string \<Rightarrow> memfs \<Rightarrow> (string \<times> bool) list" where
  "MemFS_ReadDir_loop name [] = []"
| "MemFS_ReadDir_loop name ((fname, _) # m) =
     (if prefix name fname then (Base fname, False) # MemFS_ReadDir_loop name m
      else MemFS_ReadDir_loop name m)"

definition MemFS_ReadDir :: "string \<Rightarrow> memfs \<Rightarrow> err + (string \<times> bool) list" where
  "MemFS_ReadDir name m = Inr (MemFS_ReadDir_loop name m)"

definition Writer_Write :: "bytes \<Rightarrow> memFileWriter \<Rightarrow> memFileWriter \<times> (err + nat)" where
  "Writer_Write p w =
     (if w_closed w then (w, Inl (new_error ''write to closed file''))
      else (w\<lparr>w_buf := w_buf w @ p\<rparr>, Inr (length p)))"

definition Writer_Close :: "memFileWriter \<Rightarrow> memfs \<Rightarrow> memFileWriter \<times> memfs \<times> err option" where
  "Writer_Close w m =
     (if w_closed w then (w, m, Some (new_error ''already closed''))
      else (w\<lparr>w_closed := True\<rparr>, AList.update (w_name w) (w_buf w) m, None))"

definition MemFS_commit :: "string \<Rightarrow> bytes \<Rightarrow> memfs \<Rightarrow> memfs" where
  "MemFS_commit name data m =
     (let w = fst (Writer_Write data \<lparr>w_name = name, w_buf = [], w_closed = False\<rparr>)
      in fst (snd (Writer_Close w m)))"

definition MemFS :: "memfs rwfs" where
  "MemFS =
     \<lparr>fs_Create = \<lambda>name m. (m, case MemFS_Create name m of Inl e \<Rightarrow> Some e | Inr _ \<Rightarrow> None),
      fs_Read = MemFS_Read,
      fs_Update = \<lambda>name m. (m, case MemFS_Update name m of Inl e \<Rightarrow> Some e | Inr _ \<Rightarrow> None),
      fs_Delete = MemFS_Delete, fs_ReadDir = MemFS_ReadDir,
      fs_MakeDir = \<lambda>path m. (m, None), fs_commit = MemFS_commit\<rparr>"

section \<open>The store\<close>

definition FS_Validate :: "string \<Rightarrow> err option" where
  "FS_Validate basepath = (if basepath = [] then Some (new_error ''basepath is required'') else None)"

definition FS_New :: "'f rwfs \<Rightarrow> string \<Rightarrow> 'f \<Rightarrow> 'f \<times> err option" where
  "FS_New F basepath f =
     (case FS_Validate basepath of Some e \<Rightarrow> (f, Some e)
      | None \<Rightarrow> (case fs_MakeDir F basepath f of (f, Some e) \<Rightarrow> (f, Some e) | (f, None) \<Rightarrow> (f, None)))"

definition FS_path :: "string \<Rightarrow> string \<Rightarrow> string" where
  "FS_path basepath key = Join basepath (key @ ''.json'')"

text \<open>
  \<open>WriteJSON\<close> on the writer for \<open>name\<close>, and the deferred \<open>Close\<close>: when the value cannot be
  encoded nothing has been written, but the writer is closed all the same.
\<close>

definition FS_WriteJSON ::
  "'f rwfs \<Rightarrow> ('v \<Rightarrow> err + bytes) \<Rightarrow> string \<Rightarrow> 'v \<Rightarrow> 'f \<Rightarrow> 'f \<times> err option" where
  "FS_WriteJSON F enc name value f =
     (case enc value of
        Inl e \<Rightarrow> (fs_commit F name [] f, Some e)
      | Inr data \<Rightarrow> (fs_commit F name data f, None))"

definition FS_ReadJSON ::
  "'f rwfs \<Rightarrow> (bytes \<Rightarrow> err + 'v) \<Rightarrow> string \<Rightarrow> string \<Rightarrow> 'f \<Rightarrow> err + 'v" where
  "FS_ReadJSON F dec basepath key f =
     (case fs_Read F (FS_path basepath key) f of
        Inl _ \<Rightarrow> Inl (http_err ErrNotFound)
      | Inr data \<Rightarrow> dec data)"

definition FS_Read ::
  "'f rwfs \<Rightarrow> (bytes \<Rightarrow> err + 'v) \<Rightarrow> string \<Rightarrow> opt slice \<Rightarrow> string \<Rightarrow> 'f \<Rightarrow>
   ('f, err + 'v) outcome" where
  "FS_Read F dec basepath opts key f =
     (if len opts > 0 then (f, arr opts, Inl (Sentinel ErrUnsupportedOption))
      else (f, arr opts, FS_ReadJSON F dec basepath key f))"

definition FS_Create ::
  "'f rwfs \<Rightarrow> ('v \<Rightarrow> err + bytes) \<Rightarrow> (bytes \<Rightarrow> err + 'v) \<Rightarrow> string \<Rightarrow> opt slice \<Rightarrow> string \<Rightarrow>
   'v \<Rightarrow> 'f \<Rightarrow> ('f, err option) outcome" where
  "FS_Create F enc dec basepath opts key value f =
     (case MatchDryRun opts of (dryRun, opts) \<Rightarrow>
        if or_false dryRun then
          (case FS_Read F dec basepath nil_slice key f of
             (f, _, Inr _) \<Rightarrow> (f, arr opts, Some (http_err ErrConflict))
           | (f, _, Inl e) \<Rightarrow>
               if is_err e (Http ErrNotFound) \<or> is_err e OsErrNotExist then (f, arr opts, None)
               else (f, arr opts, Some e))
        else if len opts > 0 then (f, arr opts, Some (Sentinel ErrUnsupportedOption))
        else
          (case fs_Create F (FS_path basepath key) f of
             (f, Some _) \<Rightarrow> (f, arr opts, Some (http_err ErrConflict))
           | (f, None) \<Rightarrow>
               (case FS_WriteJSON F enc (FS_path basepath key) value f of
                  (f, r) \<Rightarrow> (f, arr opts, r))))"

definition FS_Update ::
  "'f rwfs \<Rightarrow> ('v \<Rightarrow> err + bytes) \<Rightarrow> (bytes \<Rightarrow> err + 'v) \<Rightarrow> string \<Rightarrow> opt slice \<Rightarrow> string \<Rightarrow>
   'v \<Rightarrow> 'f \<Rightarrow> ('f, err option) outcome" where
  "FS_Update F enc dec basepath opts key value f =
     (case MatchDryRun opts of (dryRun, opts) \<Rightarrow>
        if or_false dryRun then
          (case FS_Read F dec basepath nil_slice key f of
             (f, _, Inr _) \<Rightarrow> (f, arr opts, None) | (f, _, Inl e) \<Rightarrow> (f, arr opts, Some e))
        else if len opts > 0 then (f, arr opts, Some (Sentinel ErrUnsupportedOption))
        else
          (case fs_Update F (FS_path basepath key) f of
             (f, Some _) \<Rightarrow> (f, arr opts, Some (http_err ErrNotFound))
           | (f, None) \<Rightarrow>
               (case FS_WriteJSON F enc (FS_path basepath key) value f of
                  (f, r) \<Rightarrow> (f, arr opts, r))))"

definition FS_Apply ::
  "'f rwfs \<Rightarrow> ('v \<Rightarrow> err + bytes) \<Rightarrow> string \<Rightarrow> opt slice \<Rightarrow> string \<Rightarrow> 'v \<Rightarrow> 'f \<Rightarrow>
   ('f, err option) outcome" where
  "FS_Apply F enc basepath opts key value f =
     (case MatchDryRun opts of (dryRun, opts) \<Rightarrow>
        if or_false dryRun then (f, arr opts, None)
        else if len opts > 0 then (f, arr opts, Some (Sentinel ErrUnsupportedOption))
        else
          (let fpath = FS_path basepath key;
               write = (\<lambda>f. case FS_WriteJSON F enc fpath value f of (f, r) \<Rightarrow> (f, arr opts, r))
           in case fs_Update F fpath f of
                (f, None) \<Rightarrow> write f
              | (f, Some _) \<Rightarrow>
                  (case fs_Create F fpath f of
                     (f, Some e) \<Rightarrow> (f, arr opts, Some e)
                   | (f, None) \<Rightarrow> write f)))"

definition FS_Delete ::
  "'f rwfs \<Rightarrow> (bytes \<Rightarrow> err + 'v) \<Rightarrow> string \<Rightarrow> opt slice \<Rightarrow> string \<Rightarrow> 'f \<Rightarrow>
   ('f, err option) outcome" where
  "FS_Delete F dec basepath opts key f =
     (case MatchDryRun opts of (dryRun, opts) \<Rightarrow>
        if or_false dryRun then
          (case FS_Read F dec basepath nil_slice key f of
             (f, _, Inr _) \<Rightarrow> (f, arr opts, None) | (f, _, Inl e) \<Rightarrow> (f, arr opts, Some e))
        else if len opts > 0 then (f, arr opts, Some (Sentinel ErrUnsupportedOption))
        else (case fs_Delete F (FS_path basepath key) f of (f, r) \<Rightarrow> (f, arr opts, r)))"

fun FS_List_loop ::
  "'f rwfs \<Rightarrow> (bytes \<Rightarrow> err + 'v) \<Rightarrow> 'v \<Rightarrow> string \<Rightarrow> string \<Rightarrow> bool \<Rightarrow> 'f \<Rightarrow>
   (string \<times> bool) list \<Rightarrow> (string, 'v) ListItems \<Rightarrow> err + (string, 'v) ListItems" where
  "FS_List_loop F dec zero basepath pre keyOnly f [] items = Inr items"
| "FS_List_loop F dec zero basepath pre keyOnly f ((name, is_dir) # files) items =
     (if is_dir \<or> Ext name \<noteq> ''.json'' then
        FS_List_loop F dec zero basepath pre keyOnly f files items
      else if pre \<noteq> [] \<and> \<not> prefix pre name then
        FS_List_loop F dec zero basepath pre keyOnly f files items
      else
        (let key = TrimSuffix name ''.json'' in
         case (if keyOnly then Inr zero else FS_ReadJSON F dec basepath key f) of
           Inl e \<Rightarrow> Inl e
         | Inr value \<Rightarrow>
             FS_List_loop F dec zero basepath pre keyOnly f files (items @ [(key, value)])))"

definition FS_List ::
  "'f rwfs \<Rightarrow> (bytes \<Rightarrow> err + 'v) \<Rightarrow> 'v \<Rightarrow> string \<Rightarrow> opt slice \<Rightarrow> 'f \<Rightarrow>
   ('f, err + (string, 'v) ListItems) outcome" where
  "FS_List F dec zero basepath opts f =
     (case MatchPrefix opts of (pre, opts) \<Rightarrow>
      case MatchListKeyOnly opts of (keyOnly, opts) \<Rightarrow>
        (f, arr opts,
         case CheckOptionsExhausted opts of
           Some e \<Rightarrow> Inl e
         | None \<Rightarrow>
             (case fs_ReadDir F basepath f of
                Inl e \<Rightarrow> Inl e
              | Inr files \<Rightarrow>
                  (case FS_List_loop F dec zero basepath (or_empty pre) (or_false keyOnly) f files [] of
                     Inl e \<Rightarrow> Inl e
                   | Inr items \<Rightarrow> Inr (sort_key fst items)))))"

definition FS_Store ::
  "'f rwfs \<Rightarrow> ('v \<Rightarrow> err + bytes) \<Rightarrow> (bytes \<Rightarrow> err + 'v) \<Rightarrow> 'v \<Rightarrow> string \<Rightarrow> ('f, string, 'v) store"
where
  "FS_Store F enc dec zero basepath =
     \<lparr>Create = FS_Create F enc dec basepath, Read = FS_Read F dec basepath,
      Update = FS_Update F enc dec basepath, Apply = FS_Apply F enc basepath,
      Delete = FS_Delete F dec basepath, List = FS_List F dec zero basepath\<rparr>"

lemmas FS_defs = FS_Store_def FS_Create_def FS_Read_def FS_Update_def FS_Apply_def FS_Delete_def
  FS_WriteJSON_def FS_ReadJSON_def

lemma MemFS_simps [simp]:
  "fs_Create MemFS n m = (m, if map_of m n = None then None else Some (Sentinel OsErrExist))"
  "fs_Read MemFS n m = (case map_of m n of None \<Rightarrow> Inl (Sentinel OsErrNotExist) | Some d \<Rightarrow> Inr d)"
  "fs_Update MemFS n m = (m, if map_of m n = None then Some (Sentinel OsErrNotExist) else None)"
  "fs_Delete MemFS n m = (if map_of m n = None then (m, Some (Sentinel OsErrNotExist))
     else (AList.delete n m, None))"
  "fs_ReadDir MemFS n m = Inr (MemFS_ReadDir_loop n m)"
  "fs_commit MemFS n d m = AList.update n d m"
  by (simp_all add: MemFS_def MemFS_Create_def MemFS_Read_def MemFS_Update_def MemFS_Delete_def
      MemFS_ReadDir_def MemFS_commit_def Writer_Write_def Writer_Close_def)

section \<open>Paths of keys\<close>

lemma split_on_not_Nil [simp]: "split_on c xs \<noteq> []"
  by (induction xs) (auto split: list.split)

lemma split_on_append [simp]: "split_on c (xs @ c # ys) = split_on c xs @ split_on c ys"
proof (induction xs)
  case (Cons x xs)
  then show ?case by (cases "split_on c xs") (auto simp: split_on_not_Nil)
qed simp

lemma split_on_simple [simp]: "c \<notin> set xs \<Longrightarrow> split_on c xs = [xs]"
  by (induction xs) auto

lemma strings_Join_snoc:
  "strings_Join (cs @ [x]) sep = (if cs = [] then x else strings_Join cs sep @ sep @ x)"
  by (induction cs sep rule: strings_Join.induct) auto

definition components :: "string \<Rightarrow> string list" where
  "components b = foldl (clean_step (is_rooted b)) [] (split_on (CHR ''/'') b)"

definition file_name :: "string \<Rightarrow> bool" where
  "file_name n \<longleftrightarrow> CHR ''/'' \<notin> set n \<and> n \<notin> {[], ''.'', ''..''}"

lemma Join_file:
  assumes "b \<noteq> []" "file_name n"
  shows "Join b n = render_path (is_rooted b) (components b @ [n])"
proof -
  have "is_rooted (b @ ''/'' @ n) = is_rooted b" using assms(1) by (simp add: is_rooted_def)
  moreover have "split_on (CHR ''/'') (b @ ''/'' @ n) = split_on (CHR ''/'') b @ [n]"
    using assms(2) by (simp add: file_name_def)
  ultimately show ?thesis using assms(2)
    by (simp add: Join_def Clean_def components_def file_name_def)
qed

lemma Base_Join: "b \<noteq> [] \<Longrightarrow> file_name n \<Longrightarrow> Base (Join b n) = n"
  by (auto simp: Join_file Base_def render_path_def strings_Join_snoc file_name_def)

definition clean_base :: "string \<Rightarrow> bool" where
  "clean_base b \<longleftrightarrow> b \<noteq> [] \<and> b \<noteq> ''.'' \<and> Clean b = b"

lemma prefix_Join:
  assumes "clean_base b" "file_name n"
  shows "prefix b (Join b n)"
proof -
  have b: "b = render_path (is_rooted b) (components b)"
    using assms(1) by (simp add: clean_base_def Clean_def components_def)
  then have "is_rooted b \<or> components b \<noteq> []"
    using assms(1) by (auto simp: render_path_def clean_base_def)
  then have "prefix (render_path (is_rooted b) (components b))
      (render_path (is_rooted b) (components b @ [n]))"
    by (auto simp: render_path_def strings_Join_snoc)
  then show ?thesis using assms b by (simp add: Join_file clean_base_def)
qed

lemma file_name_json [simp]: "file_name (k @ ''.json'') \<longleftrightarrow> CHR ''/'' \<notin> set k"
  by (cases k) (auto simp: file_name_def)

lemma Ext_json [simp]: "Ext (k @ ''.json'') = ''.json''"
  by (simp add: Ext_def split_on_append)

lemma TrimSuffix_append [simp]: "TrimSuffix (k @ suf) suf = k"
  by (simp add: TrimSuffix_def HasSuffix_def suffix_def)

lemma FS_path_inject:
  assumes "b \<noteq> []" "CHR ''/'' \<notin> set k" "CHR ''/'' \<notin> set k'" "FS_path b k = FS_path b k'"
  shows "k = k'"
proof -
  have "Base (FS_path b j) = j @ ''.json''" if "CHR ''/'' \<notin> set j" for j
    unfolding FS_path_def by (rule Base_Join [OF assms(1)]) (simp add: that)
  from this [OF assms(2)] this [OF assms(3)] assms(4) have "k @ ''.json'' = k' @ ''.json''"
    by metis
  then show ?thesis by simp
qed

section \<open>The contract\<close>

definition FS_key :: "string \<Rightarrow> bool" where
  "FS_key k \<longleftrightarrow> CHR ''/'' \<notin> set k"

definition encodable :: "('v \<Rightarrow> err + bytes) \<Rightarrow> (bytes \<Rightarrow> err + 'v) \<Rightarrow> 'v \<Rightarrow> bool" where
  "encodable enc dec v \<longleftrightarrow> (case enc v of Inl _ \<Rightarrow> False | Inr d \<Rightarrow> dec d = Inr v)"

definition decoded :: "(bytes \<Rightarrow> err + 'v) \<Rightarrow> bytes option \<Rightarrow> 'v option" where
  "decoded dec d =
     (case d of None \<Rightarrow> None | Some d \<Rightarrow> (case dec d of Inl _ \<Rightarrow> None | Inr v \<Rightarrow> Some v))"

definition FS_abs :: "(bytes \<Rightarrow> err + 'v) \<Rightarrow> string \<Rightarrow> memfs \<Rightarrow> string \<Rightarrow> 'v option" where
  "FS_abs dec b m k = (if FS_key k then decoded dec (map_of m (FS_path b k)) else None)"

text \<open>Every file of the store holds, under the path of a key, something that decodes.\<close>

definition FS_inv :: "(bytes \<Rightarrow> err + 'v) \<Rightarrow> string \<Rightarrow> memfs \<Rightarrow> bool" where
  "FS_inv dec b m \<longleftrightarrow> wf_map m \<and>
     (\<forall>(p, d) \<in> set m. (\<exists>k. FS_key k \<and> p = FS_path b k) \<and> \<not> isl (dec d))"

lemma FS_inv_lookup:
  assumes "FS_inv dec b m" "map_of m p = Some d"
  obtains k v where "FS_key k" "p = FS_path b k" "dec d = Inr v"
proof -
  have "(p, d) \<in> set m" using assms(2) by (rule map_of_SomeD)
  with assms(1) obtain k where "FS_key k" "p = FS_path b k" "\<not> isl (dec d)"
    by (auto simp: FS_inv_def)
  with that show thesis by (cases "dec d") auto
qed

lemma FS_abs_None: "FS_inv dec b m \<Longrightarrow> FS_key k \<Longrightarrow> FS_abs dec b m k = None \<longleftrightarrow> map_of m (FS_path b k) = None"
  by (auto simp: FS_abs_def decoded_def split: option.split elim: FS_inv_lookup)

lemma set_AList_update: "set (AList.update k v m) \<subseteq> insert (k, v) (set m)"
  by (induction m) auto

lemma set_AList_delete: "set (AList.delete k m) \<subseteq> set m"
  by (auto simp: AList.delete_eq)

lemma FS_write_ok:
  assumes "b \<noteq> []" "FS_inv dec b m" "FS_key k" "enc v = Inr d" "encodable enc dec v"
  shows "FS_inv dec b (AList.update (FS_path b k) d m)"
    and "FS_abs dec b (AList.update (FS_path b k) d m) = (FS_abs dec b m)(k \<mapsto> v)"
proof -
  have d: "dec d = Inr v" using assms(4,5) by (simp add: encodable_def)
  show "FS_inv dec b (AList.update (FS_path b k) d m)"
    using assms(2,3) d set_AList_update [of "FS_path b k" d m] by (fastforce simp: FS_inv_def)
  show "FS_abs dec b (AList.update (FS_path b k) d m) = (FS_abs dec b m)(k \<mapsto> v)"
    using assms(1,3) d FS_path_inject [of b]
    by (auto simp: FS_abs_def FS_key_def decoded_def fun_eq_iff)
qed

lemma FS_delete_ok:
  assumes "b \<noteq> []" "FS_inv dec b m" "FS_key k"
  shows "FS_inv dec b (AList.delete (FS_path b k) m)"
    and "FS_abs dec b (AList.delete (FS_path b k) m) = (FS_abs dec b m)(k := None)"
  using assms set_AList_delete [of "FS_path b k" m] FS_path_inject [of b]
  by (auto simp: FS_inv_def FS_abs_def FS_key_def decoded_def fun_eq_iff)

lemma ReadDir_keys:
  assumes "clean_base b" "list_all (\<lambda>(k, d). FS_key k) ks"
  shows "MemFS_ReadDir_loop b (map (\<lambda>(k, d). (FS_path b k, d)) ks) =
    map (\<lambda>(k, d). (k @ ''.json'', False)) ks"
  using assms(2)
  by (induction ks)
    (auto simp: FS_key_def FS_path_def prefix_Join [OF assms(1)] Base_Join
      assms(1) [unfolded clean_base_def])

lemma List_loop_keys:
  assumes "list_all (\<lambda>(k, v). FS_ReadJSON F dec b k f = Inr v) kvs"
  shows "FS_List_loop F dec zero b [] False f (map (\<lambda>(k, v). (k @ ''.json'', False)) kvs) items =
    Inr (items @ kvs)"
  using assms by (induction kvs arbitrary: items) auto

lemma FS_entries:
  assumes "FS_inv dec b m"
  obtains ks where "m = map (\<lambda>(k, d). (FS_path b k, d)) ks" "list_all (\<lambda>(k, d). FS_key k) ks"
proof -
  have "\<exists>ks. m = map (\<lambda>(k, d). (FS_path b k, d)) ks \<and> list_all (\<lambda>(k, d). FS_key k) ks"
    using assms[unfolded FS_inv_def, THEN conjunct2]
  proof (induction m)
    case (Cons p m)
    then obtain ks where ks: "m = map (\<lambda>(k, d). (FS_path b k, d)) ks" "list_all (\<lambda>(k, d). FS_key k) ks"
      by auto
    obtain k d where "p = (FS_path b k, d)" "FS_key k" using Cons.prems by (cases p) auto
    with ks show ?case by (intro exI [of _ "(k, d) # ks"]) simp
  qed simp
  with that show thesis by blast
qed

lemma FS_List_ok:
  assumes "clean_base b" "FS_inv dec b m"
  shows "\<exists>items. List (FS_Store MemFS enc dec zero b) nil_slice m = (m, [], Inr items) \<and>
    listing (FS_abs dec b m) items"
proof -
  obtain ks where m: "m = map (\<lambda>(k, d). (FS_path b k, d)) ks" "list_all (\<lambda>(k, d). FS_key k) ks"
    using FS_entries [OF assms(2)] .
  let ?kvs = "map (\<lambda>(k, d). (k, projr (dec d))) ks"
  have wf: "wf_map m" using assms(2) by (simp add: FS_inv_def)
  have read: "map_of m (FS_path b k) = Some d \<and> dec d = Inr (projr (dec d))"
    if "(k, d) \<in> set ks" for k d
  proof -
    have "(FS_path b k, d) \<in> set m" using that by (force simp: m(1))
    then show ?thesis using assms(2) wf
      by (auto simp: FS_inv_def)
  qed
  then have rd: "list_all (\<lambda>(k, v). FS_ReadJSON MemFS dec b k m = Inr v) ?kvs"
    by (auto simp: list_all_iff FS_ReadJSON_def)
  have dir: "MemFS_ReadDir_loop b m = map (\<lambda>(k, v). (k @ ''.json'', False)) ?kvs"
    using ReadDir_keys [OF assms(1) m(2)] m(1) by (simp add: comp_def split_def)
  have keys: "distinct (map fst ks)"
    using wf by (simp add: m(1) comp_def split_def distinct_map inj_on_def)
  have "map_of ?kvs k = FS_abs dec b m k" for k
  proof (cases "k \<in> fst ` set ks")
    case True
    then obtain d where d: "(k, d) \<in> set ks" by auto
    with keys have "map_of ?kvs k = Some (projr (dec d))"
      by (intro map_of_is_SomeI) (force simp: comp_def split_def)+
    moreover have "FS_key k" using d m(2) by (auto simp: list_all_iff)
    ultimately show ?thesis using read [OF d] by (auto simp: FS_abs_def decoded_def split: sum.split)
  next
    case False
    then have "map_of ?kvs k = None" by (force simp: map_of_eq_None)
    moreover have "map_of m (FS_path b k) = None" if "FS_key k"
    proof (rule ccontr)
      assume "map_of m (FS_path b k) \<noteq> None"
      then obtain d where "(FS_path b k, d) \<in> set m" by (auto dest: map_of_SomeD)
      then obtain j where j: "(j, d) \<in> set ks" "FS_path b k = FS_path b j" by (auto simp: m(1))
      then have "FS_key j" using m(2) by (auto simp: list_all_iff)
      then have "k = j" using assms(1) that
        by (intro FS_path_inject [OF _ _ _ j(2)]) (simp_all add: FS_key_def clean_base_def)
      with j(1) False show False by force
    qed
    ultimately show ?thesis by (simp add: FS_abs_def decoded_def)
  qed
  then have "listing (FS_abs dec b m) (sort_key fst ?kvs)"
    using keys by (intro listing_sort) (auto simp: comp_def split_def fun_eq_iff)
  with List_loop_keys [OF rd, of zero "[]"] dir show ?thesis
    by (simp add: FS_Store_def FS_List_def)
qed

lemma FS_contract:
  assumes "clean_base b"
  shows "typed_store (FS_Store MemFS enc dec zero b) (FS_abs dec b) (FS_inv dec b) FS_key
    (\<lambda>_. encodable enc dec)"
proof -
  have b: "b \<noteq> []" using assms by (simp add: clean_base_def)
  have enc: "\<exists>d. enc v = Inr d \<and> dec d = Inr v" if "encodable enc dec v" for v
    using that by (auto simp: encodable_def split: sum.splits)
  have found: "\<exists>d. map_of m (FS_path b k) = Some d \<and> dec d = Inr v"
    if "FS_abs dec b m k = Some v" for m k v
    using that by (auto simp: FS_abs_def decoded_def split: if_splits option.splits sum.splits)
  show ?thesis
  proof (unfold_locales, goal_cases)
    case (1 s k) then show ?case by (simp add: FS_abs_def split: if_splits)
  next
    case (2 s k v s' a r)
    with enc [of v] FS_write_ok [OF b 2(1,2) _ 2(3)] FS_abs_None [OF 2(1,2)] show ?case
      by (auto simp: FS_defs)
  next
    case (3 s k v s' a r) with FS_abs_None [OF 3(1,2)] show ?case by (auto simp: FS_defs)
  next
    case (4 s k v s' a r) with found [OF 4(3)] show ?case by (auto simp: FS_defs)
  next
    case (5 s k s' a r) with FS_abs_None [OF 5(1,2)] show ?case by (auto simp: FS_defs)
  next
    case (6 s k v s' a r)
    with enc [of v] FS_write_ok [OF b 6(1,2) _ 6(3)] FS_abs_None [OF 6(1,2)] show ?case
      by (auto simp: FS_defs)
  next
    case (7 s k v s' a r) with FS_abs_None [OF 7(1,2)] show ?case by (auto simp: FS_defs)
  next
    case (8 s k v s' a r)
    with enc [of v] FS_write_ok [OF b 8(1,2) _ 8(3)] show ?case
      by (auto simp: FS_defs Let_def split: if_splits)
  next
    case (9 s k s' a r)
    with FS_delete_ok [OF b 9(1,2)] FS_abs_None [OF 9(1,2)] show ?case by (auto simp: FS_defs)
  next
    case (10 s k s' a r) with FS_abs_None [OF 10(1,2)] show ?case by (auto simp: FS_defs)
  next
    case (11 s s' a r) with FS_List_ok [OF assms 11(1), of enc zero] show ?case by auto
  next
    case (12 s k v s' a r) with FS_abs_None [OF 12(1,2)] show ?case by (auto simp: FS_defs)
  next
    case (13 s k s' a r) with FS_abs_None [OF 13(1,2)] show ?case by (auto simp: FS_defs)
  next
    case (14 s k v s' a r) with FS_abs_None [OF 14(1,2)] show ?case by (auto simp: FS_defs)
  qed
qed

section \<open>Properties\<close>

text \<open>
  C8. The file store over the in-memory file system implements a map for keys without a slash
  and values the codec round-trips: every sequence of calls answers as the map does, and every
  file stays the encoding of a value under the path of a key. The base path has to be clean and
  not \<open>.\<close>, since the fake lists a directory by string prefix.
\<close>

theorem FS_refines_map:
  assumes "clean_base b" "FS_inv dec b m" "\<forall>c \<in> set cs. call_ok FS_key (\<lambda>_. encodable enc dec) c"
    and "run (FS_Store MemFS enc dec zero b) cs m = (m', answers)"
  shows "FS_inv dec b m' \<and> spec_run cs (FS_abs dec b m) (FS_abs dec b m') answers"
  using kv_store.run_refines [OF typed_store.axioms(1) [OF FS_contract [OF assms(1)]] assms(2-4)] .

theorem FS_refines_map_witness:
  "\<exists>m'. run (FS_Store MemFS Inr Inr [] ''/tmp'') [CApply ''a'' ''1'', CRead ''a''] [] =
     (m', [Done, Value ''1'']) \<and> FS_inv Inr ''/tmp'' m'"
proof -
  have "clean_base ''/tmp''"
    by (simp add: clean_base_def Clean_def is_rooted_def render_path_def)
  moreover have "FS_inv Inr ''/tmp'' []" by (simp add: FS_inv_def)
  moreover obtain m' where "run (FS_Store MemFS Inr Inr [] ''/tmp'')
      [CApply ''a'' ''1'', CRead ''a''] [] = (m', [Done, Value ''1''])"
    by (simp add: FS_defs answer_of_def Let_def)
  ultimately show ?thesis
    using FS_refines_map [of "''/tmp''" Inr "[]" "[CApply ''a'' ''1'', CRead ''a'']" Inr "[]"]
    by (auto simp: FS_key_def encodable_def)
qed

text \<open>
  A write that fails to encode its value destroys the entry: \<open>Update\<close> has truncated the file
  before it encodes, and the deferred \<open>Close\<close> commits the empty buffer. The call returns the
  error, and from then on a \<open>Read\<close> of the key returns whatever decoding an empty file gives.
\<close>

theorem FS_failed_update_truncates:
  assumes "map_of m (FS_path b k) \<noteq> None" "enc v = Inl e"
  shows "FS_Update MemFS enc dec b nil_slice k v m =
      (AList.update (FS_path b k) [] m, [], Some e) \<and>
    FS_Read MemFS dec b nil_slice k (AList.update (FS_path b k) [] m) =
      (AList.update (FS_path b k) [] m, [], dec [])"
  using assms by (auto simp: FS_defs)

theorem FS_failed_update_truncates_witness:
  "\<exists>m'. FS_Update MemFS (\<lambda>_. Inl (new_error ''unsupported'')) Inr ''/tmp'' nil_slice ''a'' ''2''
     [(FS_path ''/tmp'' ''a'', ''1'')] = (m', [], Some (new_error ''unsupported'')) \<and>
   FS_Read MemFS Inr ''/tmp'' nil_slice ''a'' m' = (m', [], Inr [])"
  using FS_failed_update_truncates [of "[(FS_path ''/tmp'' ''a'', ''1'')]" "''/tmp''" "''a''"
      "\<lambda>_. Inl (new_error ''unsupported'')" "''2''" "new_error ''unsupported''" Inr]
  by auto

end
