(* ===== verification/S3.thy ===== *)
theory S3
  imports Store_API
begin

text \<open>
  The S3 backend, \<open>pkg/store/backends/s3\<close>: the store of \<open>s3.go\<close> over a client, and the mock
  client of \<open>fake.go\<close>, whose objects live in one map under \<open>bucket|key\<close>. \<open>Encode\<close> and
  \<open>Decode\<close> of the configuration are arguments. The client of \<open>aws.go\<close> is in \<open>S3_AWS\<close>.
\<close>

section \<open>Clients\<close>

record 'c client =
  PutObject :: "string \<Rightarrow> string \<Rightarrow> string \<Rightarrow> 'c \<Rightarrow> 'c \<times> err option"
  GetObject :: "string \<Rightarrow> string \<Rightarrow> 'c \<Rightarrow> err + string"
  DeleteObject :: "string \<Rightarrow> string \<Rightarrow> 'c \<Rightarrow> 'c \<times> err option"
  ListObjects :: "string \<Rightarrow> 'c \<Rightarrow> err + string list"
  CreateBucket :: "string \<Rightarrow> 'c \<Rightarrow> 'c \<times> err option"

record mock =
  mock_objects :: "(string, string) gomap"
  mock_buckets :: "(string, bool) gomap"

definition NewMockS3Client :: mock where
  "NewMockS3Client = \<lparr>mock_objects = [], mock_buckets = []\<rparr>"

definition Mock_PutObject :: "string \<Rightarrow> string \<Rightarrow> string \<Rightarrow> mock \<Rightarrow> mock \<times> err option" where
  "Mock_PutObject bucket key body m =
     (m\<lparr>mock_objects := AList.update (bucket @ ''|'' @ key) body (mock_objects m)\<rparr>, None)"

definition Mock_GetObject :: "string \<Rightarrow> string \<Rightarrow> mock \<Rightarrow> err + string" where
  "Mock_GetObject bucket key m =
     (case map_of (mock_objects m) (bucket @ ''|'' @ key) of
        None \<Rightarrow> Inl (new_error ''not found'') | Some data \<Rightarrow> Inr data)"

definition Mock_DeleteObject :: "string \<Rightarrow> string \<Rightarrow> mock \<Rightarrow> mock \<times> err option" where
  "Mock_DeleteObject bucket key m =
     (m\<lparr>mock_objects := AList.delete (bucket @ ''|'' @ key) (mock_objects m)\<rparr>, None)"

fun Mock_ListObjects_loop :: "string \<Rightarrow> (string, string) gomap \<Rightarrow> string list" where
  "Mock_ListObjects_loop pre [] = []"
| "Mock_ListObjects_loop pre ((k, _) # m) =
     (if length k > length pre \<and> take (length pre) k = pre
      then drop (length pre) k # Mock_ListObjects_loop pre m
      else Mock_ListObjects_loop pre m)"

definition Mock_ListObjects :: "string \<Rightarrow> mock \<Rightarrow> err + string list" where
  "Mock_ListObjects bucket m = Inr (Mock_ListObjects_loop (bucket @ ''|'') (mock_objects m))"

definition Mock_CreateBucket :: "string \<Rightarrow> mock \<Rightarrow> mock \<times> err option" where
  "Mock_CreateBucket bucket m =
     (if map_of (mock_buckets m) bucket = Some True then (m, Some (new_error ''bucket already exists''))
      else (m\<lparr>mock_buckets := AList.update bucket True (mock_buckets m)\<rparr>, None))"

definition Mock_DeleteBucket :: "string \<Rightarrow> mock \<Rightarrow> mock \<times> err option" where
  "Mock_DeleteBucket bucket m =
     (if map_of (mock_buckets m) bucket \<noteq> Some True then (m, Some (new_error ''bucket does not exist''))
      else
        (let pre = bucket @ ''|'' in
         (m\<lparr>mock_buckets := AList.delete bucket (mock_buckets m),
            mock_objects := filter (\<lambda>(k, _). \<not> (length k > length pre \<and> take (length pre) k = pre))
              (mock_objects m)\<rparr>, None)))"

definition MockS3Client :: "mock client" where
  "MockS3Client =
     \<lparr>PutObject = Mock_PutObject, GetObject = Mock_GetObject, DeleteObject = Mock_DeleteObject,
      ListObjects = Mock_ListObjects, CreateBucket = Mock_CreateBucket\<rparr>"

section \<open>The store\<close>

record 'v s3_config =
  SkipBucketCreate :: bool
  Bucket :: string
  Encode :: "'v \<Rightarrow> err + string"
  Decode :: "string \<Rightarrow> err + 'v"

definition S3_Validate :: "'v s3_config \<Rightarrow> err option" where
  "S3_Validate cfg = (if Bucket cfg = [] then Some (new_error ''bucket name is required'') else None)"

definition S3_New :: "'c client \<Rightarrow> 'v s3_config \<Rightarrow> 'c \<Rightarrow> 'c \<times> err option" where
  "S3_New C cfg c =
     (case S3_Validate cfg of Some e \<Rightarrow> (c, Some e)
      | None \<Rightarrow>
          if \<not> SkipBucketCreate cfg then
            (case CreateBucket C (Bucket cfg) c of
               (c, Some e) \<Rightarrow> (c, Some (Errorf ''failed to create bucket'' [e]))
             | (c, None) \<Rightarrow> (c, None))
          else (c, None))"

definition S3_Read ::
  "'c client \<Rightarrow> 'v s3_config \<Rightarrow> opt slice \<Rightarrow> string \<Rightarrow> 'c \<Rightarrow> ('c, err + 'v) outcome" where
  "S3_Read C cfg opts key c =
     (c, arr opts,
      if len opts > 0 then Inl (Sentinel ErrUnsupportedOption)
      else case GetObject C (Bucket cfg) key c of
          Inl e \<Rightarrow> Inl e
        | Inr data \<Rightarrow> Decode cfg data)"

definition S3_put ::
  "'c client \<Rightarrow> 'v s3_config \<Rightarrow> opt slice \<Rightarrow> string \<Rightarrow> 'v \<Rightarrow> 'c \<Rightarrow> ('c, err option) outcome" where
  "S3_put C cfg opts key value c =
     (case Encode cfg value of
        Inl e \<Rightarrow> (c, arr opts, Some e)
      | Inr data \<Rightarrow> (case PutObject C (Bucket cfg) key data c of (c, r) \<Rightarrow> (c, arr opts, r)))"

definition S3_Create ::
  "'c client \<Rightarrow> 'v s3_config \<Rightarrow> opt slice \<Rightarrow> string \<Rightarrow> 'v \<Rightarrow> 'c \<Rightarrow> ('c, err option) outcome" where
  "S3_Create C cfg opts key value c =
     (if len opts > 0 then (c, arr opts, Some (Sentinel ErrUnsupportedOption))
      else case S3_Read C cfg nil_slice key c of
          (c, _, Inr _) \<Rightarrow> (c, arr opts, Some (new_error ''object already exists''))
        | (c, _, Inl _) \<Rightarrow> S3_put C cfg opts key value c)"

definition S3_Update ::
  "'c client \<Rightarrow> 'v s3_config \<Rightarrow> opt slice \<Rightarrow> string \<Rightarrow> 'v \<Rightarrow> 'c \<Rightarrow> ('c, err option) outcome" where
  "S3_Update C cfg opts key value c =
     (if len opts > 0 then (c, arr opts, Some (Sentinel ErrUnsupportedOption))
      else case S3_Read C cfg nil_slice key c of
          (c, _, Inl _) \<Rightarrow> (c, arr opts, Some (new_error ''object not found''))
        | (c, _, Inr _) \<Rightarrow> S3_put C cfg opts key value c)"

definition S3_Apply ::
  "'c client \<Rightarrow> 'v s3_config \<Rightarrow> opt slice \<Rightarrow> string \<Rightarrow> 'v \<Rightarrow> 'c \<Rightarrow> ('c, err option) outcome" where
  "S3_Apply C cfg opts key value c =
     (if len opts > 0 then (c, arr opts, Some (Sentinel ErrUnsupportedOption))
      else S3_put C cfg opts key value c)"

definition S3_Delete ::
  "'c client \<Rightarrow> 'v s3_config \<Rightarrow> opt slice \<Rightarrow> string \<Rightarrow> 'c \<Rightarrow> ('c, err option) outcome" where
  "S3_Delete C cfg opts key c =
     (if len opts > 0 then (c, arr opts, Some (Sentinel ErrUnsupportedOption))
      else case DeleteObject C (Bucket cfg) key c of (c, r) \<Rightarrow> (c, arr opts, r))"

text \<open>\<open>List\<close> skips the objects it cannot fetch or decode.\<close>

fun S3_List_loop ::
  "'c client \<Rightarrow> 'v s3_config \<Rightarrow> 'v \<Rightarrow> string \<Rightarrow> bool \<Rightarrow> 'c \<Rightarrow> string list \<Rightarrow> (string, 'v) ListItems" where
  "S3_List_loop C cfg zero pre keysOnly c [] = []"
| "S3_List_loop C cfg zero pre keysOnly c (k # ks) =
     (if pre \<noteq> [] \<and> \<not> prefix pre k then S3_List_loop C cfg zero pre keysOnly c ks
      else if keysOnly then (k, zero) # S3_List_loop C cfg zero pre keysOnly c ks
      else case GetObject C (Bucket cfg) k c of
          Inl _ \<Rightarrow> S3_List_loop C cfg zero pre keysOnly c ks
        | Inr data \<Rightarrow>
            (case Decode cfg data of
               Inl _ \<Rightarrow> S3_List_loop C cfg zero pre keysOnly c ks
             | Inr v \<Rightarrow> (k, v) # S3_List_loop C cfg zero pre keysOnly c ks))"

definition S3_List ::
  "'c client \<Rightarrow> 'v s3_config \<Rightarrow> 'v \<Rightarrow> opt slice \<Rightarrow> 'c \<Rightarrow> ('c, err + (string, 'v) ListItems) outcome" where
  "S3_List C cfg zero opts c =
     (case MatchPrefix opts of (pre, opts) \<Rightarrow>
      case MatchListKeyOnly opts of (keysOnly, opts) \<Rightarrow>
        (c, arr opts,
         case CheckOptionsExhausted opts of
           Some e \<Rightarrow> Inl e
         | None \<Rightarrow>
             (case ListObjects C (Bucket cfg) c of
                Inl e \<Rightarrow> Inl e
              | Inr keys \<Rightarrow>
                  Inr (S3_List_loop C cfg zero (or_empty pre) (or_false keysOnly) c (sort keys)))))"

definition S3_Store :: "'c client \<Rightarrow> 'v s3_config \<Rightarrow> 'v \<Rightarrow> ('c, string, 'v) store" where
  "S3_Store C cfg zero =
     \<lparr>Create = S3_Create C cfg, Read = S3_Read C cfg, Update = S3_Update C cfg,
      Apply = S3_Apply C cfg, Delete = S3_Delete C cfg, List = S3_List C cfg zero\<rparr>"

lemmas S3_defs = S3_Store_def S3_Create_def S3_Read_def S3_Update_def S3_Apply_def S3_Delete_def
  S3_put_def MockS3Client_def Mock_PutObject_def Mock_GetObject_def Mock_DeleteObject_def

section \<open>The objects of a bucket\<close>

text \<open>
  The store over the mock client as a map: the objects of its bucket. The listing of the mock
  leaves out the empty key, so a key has to be non-empty.
\<close>

definition S3_key :: "string \<Rightarrow> bool" where
  "S3_key k \<longleftrightarrow> k \<noteq> []"

definition S3_abs :: "'v s3_config \<Rightarrow> mock \<Rightarrow> string \<Rightarrow> 'v option" where
  "S3_abs cfg m k =
     (if S3_key k then
        (case map_of (mock_objects m) (Bucket cfg @ ''|'' @ k) of None \<Rightarrow> None
         | Some data \<Rightarrow> (case Decode cfg data of Inl _ \<Rightarrow> None | Inr v \<Rightarrow> Some v))
      else None)"

definition S3_inv :: "mock \<Rightarrow> bool" where
  "S3_inv m \<longleftrightarrow> wf_map (mock_objects m)"

definition S3_encodable :: "'v s3_config \<Rightarrow> 'v \<Rightarrow> bool" where
  "S3_encodable cfg v \<longleftrightarrow> (case Encode cfg v of Inl _ \<Rightarrow> False | Inr d \<Rightarrow> Decode cfg d = Inr v)"

lemma S3_update_abs:
  assumes "S3_key k" "Decode cfg d = Inr v"
  shows "S3_abs cfg (m\<lparr>mock_objects := AList.update (Bucket cfg @ ''|'' @ k) d (mock_objects m)\<rparr>) =
    (S3_abs cfg m)(k \<mapsto> v)"
  using assms by (auto simp: S3_abs_def fun_eq_iff)

lemma S3_delete_abs:
  "S3_key k \<Longrightarrow>
   S3_abs cfg (m\<lparr>mock_objects := AList.delete (Bucket cfg @ ''|'' @ k) (mock_objects m)\<rparr>) =
     (S3_abs cfg m)(k := None)"
  by (auto simp: S3_abs_def fun_eq_iff)

lemma strictly_prefixed:
  "length pre < length f \<and> take (length pre) f = pre \<longleftrightarrow> (\<exists>k. k \<noteq> [] \<and> f = pre @ k)"
proof
  assume l: "length pre < length f \<and> take (length pre) f = pre"
  then have "f = pre @ drop (length pre) f" by (metis append_take_drop_id)
  moreover have "drop (length pre) f \<noteq> []" using l by simp
  ultimately show "\<exists>k. k \<noteq> [] \<and> f = pre @ k" by blast
qed auto

lemma ListObjects_loop_Cons:
  "Mock_ListObjects_loop pre ((pre @ k, d) # m) =
     (if k = [] then Mock_ListObjects_loop pre m else k # Mock_ListObjects_loop pre m)"
  "\<nexists>k. k \<noteq> [] \<and> f = pre @ k \<Longrightarrow>
     Mock_ListObjects_loop pre ((f, d) # m) = Mock_ListObjects_loop pre m"
  using strictly_prefixed [of pre f] by auto

lemma ListObjects_loop_set:
  "set (Mock_ListObjects_loop pre m) = {k. k \<noteq> [] \<and> pre @ k \<in> fst ` set m}"
proof (induction m)
  case (Cons p m)
  obtain f d where p: "p = (f, d)" by (cases p)
  show ?case
  proof (cases "\<exists>k. k \<noteq> [] \<and> f = pre @ k")
    case True
    then obtain k where "k \<noteq> []" "f = pre @ k" by blast
    with Cons p show ?thesis
      by (auto simp del: Mock_ListObjects_loop.simps simp: ListObjects_loop_Cons(1))
  next
    case False
    then have "pre @ k \<noteq> f" if "k \<noteq> []" for k using that by blast
    then show ?thesis unfolding p ListObjects_loop_Cons(2) [OF False] Cons by auto
  qed
qed simp

lemma ListObjects_loop_distinct:
  "wf_map m \<Longrightarrow> distinct (Mock_ListObjects_loop pre m)"
proof (induction m)
  case (Cons p m)
  obtain f d where p: "p = (f, d)" by (cases p)
  show ?case
  proof (cases "\<exists>k. k \<noteq> [] \<and> f = pre @ k")
    case True
    then obtain k where "k \<noteq> []" "f = pre @ k" by blast
    with Cons p show ?thesis
      by (simp del: Mock_ListObjects_loop.simps
          add: ListObjects_loop_Cons(1) ListObjects_loop_set)
  next
    case False
    then show ?thesis using Cons p
      by (simp del: Mock_ListObjects_loop.simps add: ListObjects_loop_Cons(2))
  qed
qed simp

text \<open>What the loop of \<open>List\<close> returns: the decodable objects with the prefix.\<close>

lemma S3_List_loop_keys:
  "map fst (S3_List_loop MockS3Client cfg zero pre False m ks) =
     filter (\<lambda>k. prefix pre k \<and> (\<exists>v. snd (snd (S3_Read MockS3Client cfg nil_slice k m)) = Inr v)) ks"
  by (induction ks) (auto simp: S3_Read_def split: sum.splits)

lemma S3_List_loop_values:
  "(k, v) \<in> set (S3_List_loop MockS3Client cfg zero pre False m ks) \<Longrightarrow>
     snd (snd (S3_Read MockS3Client cfg nil_slice k m)) = Inr v"
  by (induction ks) (auto simp: S3_Read_def split: sum.splits if_splits)

lemma S3_Read_abs:
  "S3_key k \<Longrightarrow> snd (snd (S3_Read MockS3Client cfg nil_slice k m)) = Inr v \<longleftrightarrow> S3_abs cfg m k = Some v"
  by (auto simp: S3_defs S3_abs_def split: option.splits sum.splits)

lemma S3_listing:
  assumes "S3_inv m"
  shows "listing (\<lambda>k. if prefix pre k then S3_abs cfg m k else None)
    (S3_List_loop MockS3Client cfg zero pre False m
      (sort (Mock_ListObjects_loop (Bucket cfg @ ''|'') (mock_objects m))))"
    (is "listing ?f ?items")
proof -
  let ?ks = "sort (Mock_ListObjects_loop (Bucket cfg @ ''|'') (mock_objects m))"
  have ks: "k \<in> set ?ks \<longleftrightarrow> k \<noteq> [] \<and> map_of (mock_objects m) (Bucket cfg @ ''|'' @ k) \<noteq> None" for k
    by (simp add: ListObjects_loop_set map_of_eq_None)
  have "distinct ?ks" using assms by (simp add: S3_inv_def ListObjects_loop_distinct)
  then have d: "distinct (map fst ?items)" "sorted (map fst ?items)"
    unfolding S3_List_loop_keys by (auto intro: sorted_wrt_filter)
  have key: "k \<in> fst ` set ?items \<longleftrightarrow> prefix pre k \<and> S3_abs cfg m k \<noteq> None" for k
  proof -
    have "S3_abs cfg m k \<noteq> None \<longleftrightarrow>
        k \<in> set ?ks \<and> (\<exists>v. snd (snd (S3_Read MockS3Client cfg nil_slice k m)) = Inr v)"
      unfolding ks by (auto simp: S3_defs S3_abs_def S3_key_def split: option.splits sum.splits)
    moreover have "k \<in> fst ` set ?items \<longleftrightarrow> k \<in> set ?ks \<and> prefix pre k \<and>
        (\<exists>v. snd (snd (S3_Read MockS3Client cfg nil_slice k m)) = Inr v)"
      unfolding set_map [symmetric] S3_List_loop_keys set_filter by blast
    ultimately show ?thesis by blast
  qed
  have "map_of ?items k = ?f k" for k
  proof (cases "map_of ?items k")
    case None
    then show ?thesis using key [of k] by (auto simp: map_of_eq_None)
  next
    case (Some v)
    then have "(k, v) \<in> set ?items" by (rule map_of_SomeD)
    moreover from this have "prefix pre k \<and> S3_abs cfg m k \<noteq> None" using key [of k] by force
    moreover from this have "S3_key k" by (auto simp: S3_abs_def split: if_splits)
    ultimately show ?thesis using Some S3_List_loop_values S3_Read_abs by fastforce
  qed
  with d show ?thesis by (auto simp: listing_def)
qed

section \<open>The contract\<close>

lemma S3_put_abs:
  assumes "S3_key k" "S3_encodable cfg v" "S3_inv m"
    and "S3_put MockS3Client cfg opts k v m = (m', a, r)"
  shows "r = None \<and> S3_inv m' \<and> S3_abs cfg m' = (S3_abs cfg m)(k \<mapsto> v)"
proof -
  obtain d where "Encode cfg v = Inr d" "Decode cfg d = Inr v"
    using assms(2) by (auto simp: S3_encodable_def split: sum.splits)
  with assms S3_update_abs [of k cfg d v m] show ?thesis
    by (auto simp: S3_put_def MockS3Client_def Mock_PutObject_def S3_inv_def)
qed

lemma S3_Read_cases:
  assumes "S3_key k"
  shows "S3_Read MockS3Client cfg nil_slice k m =
      (m, [], snd (snd (S3_Read MockS3Client cfg nil_slice k m)))"
    and "S3_abs cfg m k = None \<longleftrightarrow> isl (snd (snd (S3_Read MockS3Client cfg nil_slice k m)))"
  using S3_Read_abs [OF assms, of cfg m]
  by (simp_all add: S3_Read_def) (metis isl_def not_None_eq sum.disc(2) sum.exhaust_sel)

lemma S3_store_simps:
  assumes "S3_key k"
  shows "S3_abs cfg m k \<noteq> None \<Longrightarrow> Create (S3_Store MockS3Client cfg zero) nil_slice k v m =
      (m, [], Some (new_error ''object already exists''))"
    and "S3_abs cfg m k = None \<Longrightarrow> Create (S3_Store MockS3Client cfg zero) nil_slice k v m =
      S3_put MockS3Client cfg nil_slice k v m"
    and "S3_abs cfg m k = None \<Longrightarrow> Update (S3_Store MockS3Client cfg zero) nil_slice k v m =
      (m, [], Some (new_error ''object not found''))"
    and "S3_abs cfg m k \<noteq> None \<Longrightarrow> Update (S3_Store MockS3Client cfg zero) nil_slice k v m =
      S3_put MockS3Client cfg nil_slice k v m"
  using S3_Read_cases [OF assms, of cfg m]
  by (simp_all add: S3_Store_def S3_Create_def S3_Update_def) (auto split: sum.splits prod.splits)

interpretation s3: prefix_store "S3_Store MockS3Client cfg zero" "S3_abs cfg" S3_inv S3_key
    "\<lambda>_. S3_encodable cfg"
proof (unfold_locales, goal_cases)
  case (1 s k) then show ?case by (simp add: S3_abs_def split: if_splits)
next
  case (2 s k v s' a r) then show ?case using S3_put_abs [OF 2(2,3,1)] by (simp add: S3_store_simps)
next
  case (3 s k v s' a r) then show ?case by (auto simp: S3_store_simps)
next
  case (4 s k v s' a r)
  then show ?case using S3_Read_cases [of k cfg s] S3_Read_abs [of k cfg s v]
    by (simp add: S3_Store_def)
next
  case (5 s k s' a r)
  then show ?case using S3_Read_cases [of k cfg s] by (simp add: S3_Store_def)
next
  case (6 s k v s' a r) then show ?case using S3_put_abs [OF 6(2,3,1)] by (simp add: S3_store_simps)
next
  case (7 s k v s' a r) then show ?case by (auto simp: S3_store_simps)
next
  case (8 s k v s' a r) then show ?case using S3_put_abs [OF 8(2,3,1)]
    by (simp add: S3_Store_def S3_Apply_def)
next
  case (9 s k s' a r)
  then show ?case using S3_delete_abs [of k cfg s]
    by (auto simp: S3_Store_def S3_Delete_def MockS3Client_def Mock_DeleteObject_def S3_inv_def)
next
  case (10 s k s' a r)
  then show ?case using S3_delete_abs [of k cfg s]
    by (auto simp: S3_Store_def S3_Delete_def MockS3Client_def Mock_DeleteObject_def S3_inv_def
        fun_upd_idem)
next
  case (11 s s' a r)
  from 11 S3_listing [of s "[]" cfg zero] show ?case
    by (auto simp: S3_Store_def S3_List_def MockS3Client_def Mock_ListObjects_def)
next
  case (12 s pre s' a r)
  from 12 S3_listing [of s pre cfg zero] show ?case
    by (auto simp: S3_Store_def S3_List_def MockS3Client_def Mock_ListObjects_def)
qed

section \<open>Properties\<close>

text \<open>
  C9. The S3 store over the mock client implements a map for non-empty keys and values its codec
  round-trips: every sequence of calls, from any contents of the bucket (undecodable objects
  included, which it treats as absent), answers as the map does.
\<close>

theorem S3_refines_map:
  assumes "S3_inv m" "\<forall>c \<in> set cs. call_ok S3_key (\<lambda>_. S3_encodable cfg) c"
    and "run (S3_Store MockS3Client cfg zero) cs m = (m', answers)"
  shows "S3_inv m' \<and> spec_run cs (S3_abs cfg m) (S3_abs cfg m') answers"
  using assms by (rule s3.run_refines)

theorem S3_refines_map_witness:
  "\<exists>m'. run (S3_Store MockS3Client \<lparr>SkipBucketCreate = True, Bucket = ''b'', Encode = Inr, Decode = Inr\<rparr> [])
     [CCreate ''k'' ''v'', CDelete ''x''] NewMockS3Client = (m', [Done, Done]) \<and> S3_inv m'"
proof -
  let ?cfg = "\<lparr>SkipBucketCreate = True, Bucket = ''b'', Encode = Inr, Decode = Inr\<rparr>"
  obtain m' where r: "run (S3_Store MockS3Client ?cfg []) [CCreate ''k'' ''v'', CDelete ''x'']
      NewMockS3Client = (m', [Done, Done])"
    by (simp add: S3_defs answer_of_def NewMockS3Client_def)
  have "S3_inv NewMockS3Client" by (simp add: S3_inv_def NewMockS3Client_def)
  from S3_refines_map [OF this _ r] r show ?thesis by (auto simp: S3_key_def S3_encodable_def)
qed

end
