(* ===== verification/Retry.thy ===== *)
theory Retry
  imports Errors
begin

text \<open>
  Retrying with exponential backoff, \<open>pkg/retry/retry.go\<close>.

  The function that is retried works on a state \<open>'s\<close>. The context is a record over the same
  state: \<open>ctx_err\<close> is what polling \<open>ctx.Done()\<close> and \<open>ctx.Err()\<close> says, \<open>after\<close> is the wait
  between two attempts, during which anything may happen to the state. \<open>Step\<close>, which computes the
  next delay and uses up steps, and \<open>wait.Interrupted\<close> belong to Kubernetes and are arguments.
  A loop with \<open>RunForever\<close> need not end, so \<open>ExponentialBackoffWithContext\<close> is a partial
  function: \<open>None\<close> means that it does not return. Panics of the condition are not modelled.
\<close>

section \<open>Backoffs\<close>

record 'x backoff =
  bo_Steps :: int
  bo_rest :: 'x
  bo_RunForever :: bool

record 's ctx =
  ctx_err :: "'s \<Rightarrow> err option"
  after :: "nat \<Rightarrow> 's \<Rightarrow> 's"
  pick_done :: "'s \<Rightarrow> bool"

text \<open>The delays, factors and jitter of the predefined backoffs, in nanoseconds and per mille.\<close>

record delays =
  d_Duration :: int
  d_Factor :: int
  d_Jitter :: int
  d_Cap :: int

definition RunForever :: "delays backoff" where
  "RunForever = \<lparr>bo_Steps = 2 ^ 63 - 1,
     bo_rest = \<lparr>d_Duration = 250000000, d_Factor = 5000, d_Jitter = 100, d_Cap = 3600000000000\<rparr>,
     bo_RunForever = True\<rparr>"

definition RetryOnce :: "delays backoff" where
  "RetryOnce = \<lparr>bo_Steps = 2,
     bo_rest = \<lparr>d_Duration = 50000000, d_Factor = 2000, d_Jitter = 0, d_Cap = 0\<rparr>,
     bo_RunForever = False\<rparr>"

definition NoRetry :: "delays backoff" where
  "NoRetry = \<lparr>bo_Steps = 1, bo_rest = \<lparr>d_Duration = 0, d_Factor = 0, d_Jitter = 0, d_Cap = 0\<rparr>,
     bo_RunForever = False\<rparr>"

definition NewBackoff :: "int \<Rightarrow> int \<Rightarrow> int \<Rightarrow> int \<Rightarrow> bool \<Rightarrow> delays backoff" where
  "NewBackoff step duration factor jitter runForever =
     \<lparr>bo_Steps = step,
      bo_rest = \<lparr>d_Duration = duration, d_Factor = factor, d_Jitter = jitter, d_Cap = 0\<rparr>,
      bo_RunForever = runForever\<rparr>"

definition NewDefaultBackoff :: "int \<Rightarrow> int \<Rightarrow> delays backoff" where
  "NewDefaultBackoff step duration =
     \<lparr>bo_Steps = step,
      bo_rest = \<lparr>d_Duration = duration, d_Factor = 2000, d_Jitter = 100, d_Cap = 0\<rparr>,
      bo_RunForever = False\<rparr>"

section \<open>The loop\<close>

partial_function (option) ExponentialBackoffWithContext ::
  "'s ctx \<Rightarrow> ('x backoff \<Rightarrow> 'x backoff \<times> nat) \<Rightarrow> 'x backoff \<Rightarrow>
   ('s \<Rightarrow> 's \<times> bool \<times> err option) \<Rightarrow> 's \<Rightarrow> ('s \<times> err option) option" where
  "ExponentialBackoffWithContext ctx Step backoff condition s =
     (if bo_Steps backoff \<le> 0 \<and> \<not> bo_RunForever backoff then
        Some (s, Some (Sentinel ErrWaitTimeout))
      else case ctx_err ctx s of
          Some e \<Rightarrow> Some (s, Some e)
        | None \<Rightarrow>
            (case condition s of (s, ok, e) \<Rightarrow>
               if e \<noteq> None \<or> ok then Some (s, e)
               else if bo_Steps backoff = 1 \<and> \<not> bo_RunForever backoff then
                 Some (s, Some (Sentinel ErrWaitTimeout))
               else (case Step backoff of (backoff, waitBeforeRetry) \<Rightarrow>
                 (case ctx_err ctx (after ctx waitBeforeRetry s) of
                    Some e \<Rightarrow> Some (after ctx waitBeforeRetry s, Some e)
                  | None \<Rightarrow> ExponentialBackoffWithContext ctx Step backoff condition
                      (after ctx waitBeforeRetry s)))))"

text \<open>
  \<open>OnError\<close>: the variable \<open>lastErr\<close> of the closure is a second component of the state.
\<close>

definition OnError_condition ::
  "(err \<Rightarrow> 's \<Rightarrow> 's \<times> bool) \<Rightarrow> ('s \<Rightarrow> 's \<times> err option) \<Rightarrow> 's \<times> err option \<Rightarrow>
   ('s \<times> err option) \<times> bool \<times> err option" where
  "OnError_condition retriable fn = (\<lambda>(s, lastErr).
     case fn s of
       (s, None) \<Rightarrow> ((s, lastErr), True, None)
     | (s, Some e) \<Rightarrow>
         (case retriable e s of
            (s, True) \<Rightarrow> ((s, Some e), False, None)
          | (s, False) \<Rightarrow> ((s, lastErr), False, Some e)))"

definition lift_ctx :: "'s ctx \<Rightarrow> ('s \<times> 'a) ctx" where
  "lift_ctx ctx =
     \<lparr>ctx_err = \<lambda>(s, _). ctx_err ctx s, after = \<lambda>d (s, x). (after ctx d s, x),
      pick_done = \<lambda>(s, _). pick_done ctx s\<rparr>"

definition OnError ::
  "(err \<Rightarrow> bool) \<Rightarrow> 's ctx \<Rightarrow> ('x backoff \<Rightarrow> 'x backoff \<times> nat) \<Rightarrow> 'x backoff \<Rightarrow>
   (err \<Rightarrow> 's \<Rightarrow> 's \<times> bool) \<Rightarrow> ('s \<Rightarrow> 's \<times> err option) \<Rightarrow> 's \<Rightarrow> ('s \<times> err option) option" where
  "OnError Interrupted ctx Step backoff retriable fn s =
     (case ExponentialBackoffWithContext (lift_ctx ctx) Step backoff
         (OnError_condition retriable fn) (s, None) of
        None \<Rightarrow> None
      | Some ((s, lastErr), e) \<Rightarrow>
          Some (s, if (case e of None \<Rightarrow> False | Some x \<Rightarrow> Interrupted x) \<and> lastErr \<noteq> None
                   then lastErr else e))"

definition OnErrorWithTimer ::
  "(err \<Rightarrow> bool) \<Rightarrow> 's ctx \<Rightarrow> (delays backoff \<Rightarrow> delays backoff \<times> nat) \<Rightarrow> int \<Rightarrow> int \<Rightarrow>
   (err \<Rightarrow> 's \<Rightarrow> 's \<times> bool) \<Rightarrow> ('s \<Rightarrow> 's \<times> err option) \<Rightarrow> 's \<Rightarrow> ('s \<times> err option) option" where
  "OnErrorWithTimer Interrupted ctx Step steps duration retriable fn s =
     (if steps = 0 then Some (s, Some (new_error ''steps cannot be zero''))
      else OnError Interrupted ctx Step
        \<lparr>bo_Steps = steps,
         bo_rest = \<lparr>d_Duration = duration, d_Factor = 0, d_Jitter = 0, d_Cap = 0\<rparr>,
         bo_RunForever = False\<rparr> retriable fn s)"

section \<open>Termination and the number of attempts\<close>

text \<open>What Kubernetes documents of \<open>Step\<close>: it uses up at least one step and keeps the rest.\<close>

definition uses_steps :: "('x backoff \<Rightarrow> 'x backoff \<times> nat) \<Rightarrow> bool" where
  "uses_steps Step \<longleftrightarrow> (\<forall>b. 1 < bo_Steps b \<longrightarrow>
     bo_Steps (fst (Step b)) < bo_Steps b \<and> bo_RunForever (fst (Step b)) = bo_RunForever b)"

text \<open>A condition with a counter of its calls.\<close>

definition counted :: "('s \<Rightarrow> 's \<times> 'r) \<Rightarrow> 's \<times> nat \<Rightarrow> ('s \<times> nat) \<times> 'r" where
  "counted f = (\<lambda>(s, n). case f s of (s, r) \<Rightarrow> ((s, Suc n), r))"

lemma backoff_bounded:
  assumes "uses_steps Step"
    and "\<And>s s' r. cond s = (s', r) \<Longrightarrow> cost s' \<le> Suc (cost s)"
    and "\<And>d s. cost (after ctx d s) \<le> cost s"
    and "\<not> bo_RunForever b"
  shows "\<exists>s' r. ExponentialBackoffWithContext ctx Step b cond s = Some (s', r) \<and>
    cost s' \<le> cost s + nat (bo_Steps b)"
  using assms(4)
proof (induction "nat (bo_Steps b)" arbitrary: b s rule: less_induct)
  case less
  note unfold = ExponentialBackoffWithContext.simps [of ctx Step b cond s]
  show ?case
  proof (cases "bo_Steps b \<le> 0 \<or> ctx_err ctx s \<noteq> None")
    case True
    then show ?thesis using less.prems by (subst unfold) (auto split: option.split)
  next
    case False
    obtain s1 ok e where c: "cond s = (s1, ok, e)" by (metis prod_cases3)
    have m1: "cost s1 \<le> Suc (cost s)" using assms(2) [OF c] .
    obtain b' d where st: "Step b = (b', d)" by (cases "Step b")
    show ?thesis
    proof (cases "e \<noteq> None \<or> ok \<or> bo_Steps b = 1")
      case True
      then show ?thesis using False m1 less.prems c by (subst unfold) auto
    next
      case more: False
      then have b': "bo_Steps b' < bo_Steps b" "\<not> bo_RunForever b'"
        using assms(1) st False less.prems by (auto simp: uses_steps_def dest!: spec [of _ b])
      let ?s2 = "after ctx d s1"
      have m2: "cost ?s2 \<le> Suc (cost s)" using assms(3) [of d s1] m1 by linarith
      have "nat (bo_Steps b') < nat (bo_Steps b)" using b'(1) False by auto
      from less.hyps [OF this b'(2), of ?s2] obtain s3 r where r:
        "ExponentialBackoffWithContext ctx Step b' cond ?s2 = Some (s3, r)"
        "cost s3 \<le> cost ?s2 + nat (bo_Steps b')" by blast
      have "cost ?s2 + nat (bo_Steps b') \<le> cost s + nat (bo_Steps b)"
        using m2 b'(1) False by linarith
      then show ?thesis using r False more less.prems m2 c st
        by (subst unfold) (auto split: option.split)
    qed
  qed
qed

section \<open>Bounded attempts\<close>

text \<open>
  The specification of \<open>n\<close> attempts: the first success or the first error that is not retriable,
  else the error of the last attempt.
\<close>

fun tries :: "(err \<Rightarrow> bool) \<Rightarrow> ('s \<Rightarrow> 's \<times> err option) \<Rightarrow> nat \<Rightarrow> 's \<Rightarrow> 's \<times> err option" where
  "tries retriable fn 0 s = (s, None)"
| "tries retriable fn (Suc n) s =
     (case fn s of
        (s, None) \<Rightarrow> (s, None)
      | (s, Some e) \<Rightarrow> if \<not> retriable e \<or> n = 0 then (s, Some e) else tries retriable fn n s)"

text \<open>A script of results, for examples.\<close>

fun next_result :: "err option list \<Rightarrow> err option list \<times> err option" where
  "next_result [] = ([], None)"
| "next_result (r # rs) = (rs, r)"

definition background :: "'s ctx" where
  "background = \<lparr>ctx_err = \<lambda>_. None, after = \<lambda>_ s. s, pick_done = \<lambda>_. False\<rparr>"

definition one_step :: "('x backoff \<Rightarrow> 'x backoff \<times> nat) \<Rightarrow> bool" where
  "one_step Step \<longleftrightarrow> (\<forall>b. 1 < bo_Steps b \<longrightarrow>
     bo_Steps (fst (Step b)) = bo_Steps b - 1 \<and> bo_RunForever (fst (Step b)) = bo_RunForever b)"

lemma lift_ctx_background [simp]: "lift_ctx background = background"
  by (simp add: lift_ctx_def background_def split_def)

lemma background_simps [simp]: "ctx_err background s = None" "after background d s = s"
  by (simp_all add: background_def)

text \<open>
  The loop, started with \<open>n\<close> steps left: its state is that of the attempts and \<open>OnError\<close>'s choice
  between its error and \<open>lastErr\<close> is the result of the attempts.
\<close>

lemma backoff_tries:
  assumes "one_step Step"
    and "Interrupted (Sentinel ErrWaitTimeout)" "\<And>e. \<not> retriable e \<Longrightarrow> \<not> Interrupted e"
    and "bo_Steps b = int (Suc n)" "\<not> bo_RunForever b"
  shows "\<exists>last e. ExponentialBackoffWithContext background Step b
      (OnError_condition (\<lambda>e s. (s, retriable e)) fn) (s, l) =
        Some ((fst (tries retriable fn (Suc n) s), last), e) \<and>
    (if (case e of None \<Rightarrow> False | Some x \<Rightarrow> Interrupted x) \<and> last \<noteq> None then last else e) =
      snd (tries retriable fn (Suc n) s)"
  using assms(4,5)
proof (induction n arbitrary: b s l)
  case (0 b s l)
  obtain s1 r where r: "fn s = (s1, r)" by (cases "fn s")
  let ?l = "case r of Some e \<Rightarrow> if retriable e then Some e else l | None \<Rightarrow> l"
  let ?e = "case r of Some e \<Rightarrow> Some (if retriable e then Sentinel ErrWaitTimeout else e) | None \<Rightarrow> None"
  from 0 show ?case using assms(2,3) r
    by (intro exI [of _ ?l] exI [of _ ?e], subst ExponentialBackoffWithContext.simps)
      (cases r; simp add: OnError_condition_def)
next
  case (Suc n b s l)
  let ?cond = "OnError_condition (\<lambda>e s. (s, retriable e)) fn"
  note unfold = ExponentialBackoffWithContext.simps [of background Step b ?cond "(s, l)"]
  obtain s1 r where r: "fn s = (s1, r)" by (cases "fn s")
  show ?case
  proof (cases "\<exists>e. r = Some e \<and> retriable e")
    case False
    then show ?thesis using Suc.prems assms(3) r
      by (intro exI [of _ l] exI [of _ r], subst unfold) (cases r; auto simp: OnError_condition_def)
  next
    case True
    then obtain e where e: "r = Some e" "retriable e" by blast
    obtain b' d where st: "Step b = (b', d)" by (cases "Step b")
    have b': "bo_Steps b' = int (Suc n)" "\<not> bo_RunForever b'"
      using assms(1) st Suc.prems by (auto simp: one_step_def dest!: spec [of _ b])
    have "?cond (s, l) = ((s1, Some e), False, None)" using r e by (simp add: OnError_condition_def)
    then have "ExponentialBackoffWithContext background Step b ?cond (s, l) =
        ExponentialBackoffWithContext background Step b' ?cond (s1, Some e)"
      using Suc.prems st by (subst unfold) simp
    moreover have "tries retriable fn (Suc (Suc n)) s = tries retriable fn (Suc n) s1"
      using r e by simp
    ultimately show ?thesis using Suc.IH [OF b', of s1 "Some e"] by simp
  qed
qed

lemma OnError_tries:
  assumes "one_step Step" "\<not> bo_RunForever b" "0 < bo_Steps b"
    and "Interrupted (Sentinel ErrWaitTimeout)" "\<And>e. \<not> retriable e \<Longrightarrow> \<not> Interrupted e"
  shows "OnError Interrupted background Step b (\<lambda>e s. (s, retriable e)) fn s =
    Some (tries retriable fn (nat (bo_Steps b)) s)"
proof -
  obtain n where n: "bo_Steps b = int (Suc n)"
    using assms(3) by (metis Suc_pred zero_less_imp_eq_int of_nat_0_less_iff)
  obtain last e where r: "ExponentialBackoffWithContext background Step b
      (OnError_condition (\<lambda>e s. (s, retriable e)) fn) (s, None) =
        Some ((fst (tries retriable fn (Suc n) s), last), e)"
    "(if (case e of None \<Rightarrow> False | Some x \<Rightarrow> Interrupted x) \<and> last \<noteq> None then last else e) =
      snd (tries retriable fn (Suc n) s)"
    using backoff_tries [where Interrupted = Interrupted and retriable = retriable and fn = fn
        and s = s and l = None, OF assms(1,4,5) n assms(2)] by blast
  have "nat (bo_Steps b) = Suc n" using n by simp
  then show ?thesis unfolding OnError_def lift_ctx_background r(1) option.case prod.case r(2) by simp
qed

section \<open>Properties\<close>

text \<open>
  C11. A backoff that does not run forever returns, whatever the function does and whenever the
  context is cancelled, and calls the function at most \<open>Steps\<close> times.
\<close>

theorem backoff_returns_within_Steps:
  fixes s :: 's
  assumes "uses_steps Step" "\<not> bo_RunForever b"
  shows "\<exists>s' n e. ExponentialBackoffWithContext (lift_ctx ctx) Step b (counted cond) (s, 0) =
      Some ((s', n), e) \<and> n \<le> nat (bo_Steps b)"
proof -
  have "snd p' \<le> Suc (snd p)" if "counted cond p = (p', r)" for p p' r
    using that by (auto simp: counted_def split: prod.splits)
  moreover have "snd (after (lift_ctx ctx) d p) \<le> snd p" for d and p :: "'s \<times> nat"
    by (simp add: lift_ctx_def split_def)
  ultimately show ?thesis
    using backoff_bounded [of Step "counted cond" snd "lift_ctx ctx" b "(s, 0)"] assms
    by auto
qed

theorem backoff_returns_within_Steps_witness:
  "\<exists>s' n e. ExponentialBackoffWithContext (lift_ctx (background :: nat ctx))
     (\<lambda>b. (b\<lparr>bo_Steps := bo_Steps b - 1\<rparr>, 0)) RetryOnce (counted (\<lambda>s. (s, False, None))) (0, 0) =
       Some ((s', n), e) \<and> n \<le> 2"
  using backoff_returns_within_Steps [of "\<lambda>b. (b\<lparr>bo_Steps := bo_Steps b - 1\<rparr>, 0)" RetryOnce
      background "\<lambda>s. (s, False, None)" "0 :: nat"]
  by (simp add: uses_steps_def RetryOnce_def)

text \<open>
  What \<open>OnError\<close> returns when the context is not cancelled: the result of the first attempt
  that succeeds or fails with an error that is not retriable, and after \<open>Steps\<close> attempts the error
  of the last one, not the timeout of the loop. No attempt is made after that.
\<close>

theorem OnError_result:
  assumes "one_step Step" "\<not> bo_RunForever b" "0 < bo_Steps b"
    and "Interrupted (Sentinel ErrWaitTimeout)" "\<And>e. \<not> retriable e \<Longrightarrow> \<not> Interrupted e"
  shows "OnError Interrupted background Step b (\<lambda>e s. (s, retriable e)) fn s =
    Some (tries retriable fn (nat (bo_Steps b)) s)"
  using assms by (rule OnError_tries)

theorem OnError_result_witness:
  "OnError (\<lambda>e. e = Sentinel ErrWaitTimeout) background (\<lambda>b. (b\<lparr>bo_Steps := bo_Steps b - 1\<rparr>, 0))
     RetryOnce (\<lambda>e s. (s, True)) next_result
     [Some (new_error ''a''), Some (new_error ''b''), None] = Some ([None], Some (new_error ''b''))"
  using OnError_result [of "\<lambda>b. (b\<lparr>bo_Steps := bo_Steps b - 1\<rparr>, 0)" RetryOnce
      "\<lambda>e. e = Sentinel ErrWaitTimeout" "\<lambda>_. True" next_result
      "[Some (new_error ''a''), Some (new_error ''b''), None]"]
  by (simp add: one_step_def RetryOnce_def numeral_2_eq_2)

end
