(* ===== verification/Workflow.thy ===== *)
theory Workflow
  imports Retry Slices
begin

text \<open>
  Tasks and workflows: \<open>pkg/task/runnable\<close> and \<open>pkg/task/workflow\<close>.

  A task works on a state \<open>'s\<close> and returns an error or panics. Concurrent tasks are executed one
  after the other in the order of a schedule; the theorems quantify over the schedule. This is
  faithful for tasks that touch disjoint parts of the state, which is how the workflows of the
  repository use them, and for those the result is shown not to depend on the schedule. When both a
  result and \<open>ctx.Done()\<close> are ready, \<open>select\<close> takes either: \<open>pick_done\<close> of the context decides.

  A workflow keeps the identifiers of its running executions and the Prometheus counters. Spans,
  durations and log lines are not modelled.
\<close>

section \<open>Runnables\<close>

datatype task_result = Returned "err option" | Panicked

type_synonym 's task = "'s \<Rightarrow> 's \<times> task_result"

definition select_result :: "'s ctx \<Rightarrow> 's \<Rightarrow> err \<Rightarrow> err option \<Rightarrow> err option" where
  "select_result ctx s done_error r =
     (if ctx_err ctx s \<noteq> None \<and> pick_done ctx s then Some done_error else r)"

definition DynamicRun :: "'s task option \<Rightarrow> 's task" where
  "DynamicRun run s = (case run of None \<Rightarrow> (s, Returned None) | Some f \<Rightarrow> f s)"

definition run_task :: "'s ctx \<Rightarrow> 's task \<Rightarrow> 's \<Rightarrow> 's \<times> err option" where
  "run_task ctx t s =
     (case t s of
        (s, Panicked) \<Rightarrow>
          (s, select_result ctx s (new_error ''timeout'') (Some (new_error ''internal server error'')))
      | (s, Returned r) \<Rightarrow> (s, select_result ctx s (new_error ''timeout'') r))"

fun Run_loop ::
  "'s ctx \<Rightarrow> 's task list \<Rightarrow> nat list \<Rightarrow> err option list \<Rightarrow> 's \<Rightarrow> 's \<times> err option list" where
  "Run_loop ctx tasks [] taskErrors s = (s, taskErrors)"
| "Run_loop ctx tasks (i # order) taskErrors s =
     (case run_task ctx (tasks ! i) s of (s, e) \<Rightarrow>
        Run_loop ctx tasks order (taskErrors[i := e]) s)"

definition Run :: "'s ctx \<Rightarrow> nat list \<Rightarrow> 's task list \<Rightarrow> 's \<Rightarrow> 's \<times> err option list" where
  "Run ctx order tasks s = Run_loop ctx tasks order (replicate (length tasks) None) s"

fun AnyError :: "err option list \<Rightarrow> bool" where
  "AnyError [] = False"
| "AnyError (e # errors) = (if e \<noteq> None then True else AnyError errors)"

section \<open>Activities\<close>

record ('t, 's) activity =
  act_name :: string
  act_run :: "'t \<Rightarrow> 's task"

type_synonym ('t, 's) chain = "('t, 's) activity list"

definition NewChain :: "('t, 's) activity list \<Rightarrow> ('t, 's) chain" where
  "NewChain acts = [] @ acts"

fun Weave_loop ::
  "('t, 's) activity list \<Rightarrow> ('t, 's) chain \<Rightarrow> ('t, 's) chain \<Rightarrow> ('t, 's) chain" where
  "Weave_loop acts [] chain = chain"
| "Weave_loop acts (item # c) chain = Weave_loop acts c ((chain @ [item]) @ acts)"

definition Weave :: "('t, 's) chain \<Rightarrow> ('t, 's) activity list \<Rightarrow> ('t, 's) chain" where
  "Weave c acts = Weave_loop acts c []"

definition Describe :: "('t, 's) chain \<Rightarrow> string" where
  "Describe c = strings_Join (map act_name c) '', ''"

definition NewActivity :: "string \<Rightarrow> ('t \<Rightarrow> 's task) \<Rightarrow> ('t, 's) activity" where
  "NewActivity name run = \<lparr>act_name = name, act_run = run\<rparr>"

section \<open>Workflows\<close>

text \<open>
  The state around a workflow: the world its activities work on, the map \<open>mu\<close> of running
  executions, and the counters, by metric and labels.
\<close>

datatype metric =
    WfStarted | WfSucceeded | WfFailed | ActStarted | ActSucceeded | ActFailed

record 's wf_state =
  world :: 's
  running :: "(string, unit) gomap"
  counters :: "(metric \<times> string \<times> string, nat) gomap"

definition count_of :: "'s wf_state \<Rightarrow> metric \<times> string \<times> string \<Rightarrow> nat" where
  "count_of st l = (case map_of (counters st) l of None \<Rightarrow> 0 | Some n \<Rightarrow> n)"

definition inc :: "metric \<times> string \<times> string \<Rightarrow> 's wf_state \<Rightarrow> 's wf_state" where
  "inc l st = st\<lparr>counters := AList.update l (count_of st l + 1) (counters st)\<rparr>"

record ('t, 's, 'x) workflow =
  wf_Name :: string
  wf_chain :: "('t, 's) chain"
  Backoff :: "'x backoff"
  OnStepFailure :: "(string \<Rightarrow> 't \<Rightarrow> err \<Rightarrow> 's \<Rightarrow> 's) option"
  WorkflowID :: "'t \<Rightarrow> string"
  IsRetriable :: "err \<Rightarrow> bool"

definition WithRetryPolicy :: "'x backoff \<Rightarrow> ('t, 's, 'x) workflow \<Rightarrow> ('t, 's, 'x) workflow" where
  "WithRetryPolicy backoff w = w\<lparr>Backoff := backoff\<rparr>"

definition WithOnStepFailure where
  "WithOnStepFailure callback w = w\<lparr>OnStepFailure := Some callback\<rparr>"

definition WithWorkflowID where
  "WithWorkflowID wid w = w\<lparr>WorkflowID := wid\<rparr>"

definition WithIsRetriable where
  "WithIsRetriable retriable w = w\<lparr>IsRetriable := retriable\<rparr>"

text \<open>\<open>NewWorkflow\<close>: the default backoff of Kubernetes and \<open>xid.New\<close> are arguments.\<close>

definition NewWorkflow ::
  "'x backoff \<Rightarrow> ('t \<Rightarrow> string) \<Rightarrow> string \<Rightarrow> ('t, 's) chain \<Rightarrow> ('t, 's, 'x) workflow" where
  "NewWorkflow DefaultBackoff xid name chain =
     \<lparr>wf_Name = name, wf_chain = chain, Backoff = DefaultBackoff, OnStepFailure = None,
      WorkflowID = xid, IsRetriable = \<lambda>_. True\<rparr>"

definition NewWorkflowFor ::
  "'x backoff \<Rightarrow> ('t \<Rightarrow> string) \<Rightarrow> string \<Rightarrow> 'i list \<Rightarrow> ('i \<Rightarrow> 't \<Rightarrow> 's task) \<Rightarrow>
   ('t, 's, 'x) workflow" where
  "NewWorkflowFor DefaultBackoff xid name items do =
     NewWorkflow DefaultBackoff xid name (map (\<lambda>item. NewActivity name (do item)) items)"

definition wf_register :: "string \<Rightarrow> 's wf_state \<Rightarrow> 's wf_state" where
  "wf_register i st = st\<lparr>running := AList.update i () (running st)\<rparr>"

definition wf_unregister :: "string \<Rightarrow> 's wf_state \<Rightarrow> 's wf_state" where
  "wf_unregister i st = st\<lparr>running := AList.delete i (running st)\<rparr>"

definition Finished :: "string \<Rightarrow> 's wf_state \<Rightarrow> bool" where
  "Finished i st \<longleftrightarrow> map_of (running st) i = None"

text \<open>\<open>run\<close>: one attempt of an activity, with its metrics; a panic becomes an internal error.\<close>

definition wf_run ::
  "('t, 's, 'x) workflow \<Rightarrow> ('t, 's) activity \<Rightarrow> 't \<Rightarrow> 's wf_state \<Rightarrow> 's wf_state \<times> err option" where
  "wf_run w activity t st =
     (let labels = (wf_Name w, act_name activity);
          st = inc (ActStarted, labels) st
      in case act_run activity t (world st) of
           (s, Panicked) \<Rightarrow> (inc (ActFailed, labels) (st\<lparr>world := s\<rparr>), Some (http_err ErrInternalServerError))
         | (s, Returned (Some e)) \<Rightarrow> (inc (ActFailed, labels) (st\<lparr>world := s\<rparr>), Some e)
         | (s, Returned None) \<Rightarrow> (inc (ActSucceeded, labels) (st\<lparr>world := s\<rparr>), None))"

definition wf_retriable ::
  "'s wf_state ctx \<Rightarrow> ('t, 's, 'x) workflow \<Rightarrow> ('t, 's) activity \<Rightarrow> 't \<Rightarrow> err \<Rightarrow> 's wf_state \<Rightarrow>
   's wf_state \<times> bool" where
  "wf_retriable ctx w activity t e st =
     (if ctx_err ctx st \<noteq> None then (st, False)
      else
        (case OnStepFailure w of
           Some f \<Rightarrow> (st\<lparr>world := f (act_name activity) t e (world st)\<rparr>, IsRetriable w e)
         | None \<Rightarrow> (st, IsRetriable w e)))"

definition attempt ::
  "'s wf_state ctx \<Rightarrow> ('t, 's, 'x) workflow \<Rightarrow> ('t, 's) activity \<Rightarrow> 't \<Rightarrow> 's wf_state \<Rightarrow>
   's wf_state \<times> err option" where
  "attempt ctx w activity t st =
     (case wf_run w activity t st of (st, r) \<Rightarrow>
        (st, case ctx_err ctx st of Some e \<Rightarrow> select_result ctx st e r | None \<Rightarrow> r))"

definition executeActivity ::
  "(err \<Rightarrow> bool) \<Rightarrow> ('x backoff \<Rightarrow> 'x backoff \<times> nat) \<Rightarrow> 's wf_state ctx \<Rightarrow> ('t, 's, 'x) workflow \<Rightarrow>
   't \<Rightarrow> ('t, 's) activity \<Rightarrow> 's wf_state \<Rightarrow> ('s wf_state \<times> err option) option" where
  "executeActivity Interrupted Step ctx w t activity st =
     (case OnError Interrupted ctx Step (Backoff w) (wf_retriable ctx w activity t)
         (attempt ctx w activity t) st of
        None \<Rightarrow> None
      | Some (st, Some e) \<Rightarrow> Some (st, Some (Errorf (act_name activity) [e]))
      | Some (st, None) \<Rightarrow> Some (st, None))"

fun Execute_loop ::
  "(err \<Rightarrow> bool) \<Rightarrow> ('x backoff \<Rightarrow> 'x backoff \<times> nat) \<Rightarrow> 's wf_state ctx \<Rightarrow> ('t, 's, 'x) workflow \<Rightarrow>
   't \<Rightarrow> ('t, 's) chain \<Rightarrow> 's wf_state \<Rightarrow> ('s wf_state \<times> err option) option" where
  "Execute_loop Interrupted Step ctx w t [] st = Some (st, None)"
| "Execute_loop Interrupted Step ctx w t (activity # chain) st =
     (case executeActivity Interrupted Step ctx w t activity st of
        None \<Rightarrow> None
      | Some (st, Some e) \<Rightarrow> Some (st, Some e)
      | Some (st, None) \<Rightarrow> Execute_loop Interrupted Step ctx w t chain st)"

definition Execute ::
  "(err \<Rightarrow> bool) \<Rightarrow> ('x backoff \<Rightarrow> 'x backoff \<times> nat) \<Rightarrow> 's wf_state ctx \<Rightarrow> ('t, 's, 'x) workflow \<Rightarrow>
   't \<Rightarrow> 's wf_state \<Rightarrow> ('s wf_state \<times> err option) option" where
  "Execute Interrupted Step ctx w t st =
     (let labels = (wf_Name w, ''false'');
          wid = WorkflowID w t;
          st = wf_register wid (inc (WfStarted, labels) st)
      in case Execute_loop Interrupted Step ctx w t (wf_chain w) st of
           None \<Rightarrow> None
         | Some (st, Some e) \<Rightarrow> Some (wf_unregister wid (inc (WfFailed, labels) st), Some e)
         | Some (st, None) \<Rightarrow> Some (wf_unregister wid (inc (WfSucceeded, labels) st), None))"

fun ExecuteConcurrent_loop ::
  "(err \<Rightarrow> bool) \<Rightarrow> ('x backoff \<Rightarrow> 'x backoff \<times> nat) \<Rightarrow> 's wf_state ctx \<Rightarrow> ('t, 's, 'x) workflow \<Rightarrow>
   't \<Rightarrow> nat list \<Rightarrow> err option list \<Rightarrow> 's wf_state \<Rightarrow> ('s wf_state \<times> err option list) option" where
  "ExecuteConcurrent_loop Interrupted Step ctx w t [] errs st = Some (st, errs)"
| "ExecuteConcurrent_loop Interrupted Step ctx w t (i # order) errs st =
     (case executeActivity Interrupted Step ctx w t (wf_chain w ! i) st of
        None \<Rightarrow> None
      | Some (st, e) \<Rightarrow>
          ExecuteConcurrent_loop Interrupted Step ctx w t order
            (errs[i := select_result ctx st (new_error ''timeout'') e]) st)"

definition ExecuteConcurrent ::
  "(err \<Rightarrow> bool) \<Rightarrow> ('x backoff \<Rightarrow> 'x backoff \<times> nat) \<Rightarrow> 's wf_state ctx \<Rightarrow> nat list \<Rightarrow>
   ('t, 's, 'x) workflow \<Rightarrow> 't \<Rightarrow> 's wf_state \<Rightarrow> ('s wf_state \<times> err option list) option" where
  "ExecuteConcurrent Interrupted Step ctx order w t st =
     (let labels = (wf_Name w, ''true'');
          wid = WorkflowID w t;
          st = wf_register wid (inc (WfStarted, labels) st)
      in case ExecuteConcurrent_loop Interrupted Step ctx w t order
             (replicate (length (wf_chain w)) None) st of
           None \<Rightarrow> None
         | Some (st, errs) \<Rightarrow>
             (let filteredErrs = Filter errs (\<lambda>item. item \<noteq> None);
                  st = (if length filteredErrs > 0 then inc (WfFailed, labels) st
                        else inc (WfSucceeded, labels) st)
              in Some (wf_unregister wid st, filteredErrs)))"

section \<open>Metrics and registration\<close>

lemma count_of_inc [simp]: "count_of (inc l st) l' = count_of st l' + (if l' = l then 1 else 0)"
  by (simp add: inc_def count_of_def)

lemma count_of_world [simp]: "count_of (st\<lparr>world := s\<rparr>) l = count_of st l"
  by (simp add: count_of_def)

lemma count_of_running [simp]:
  "count_of (wf_register i st) l = count_of st l" "count_of (wf_unregister i st) l = count_of st l"
  by (simp_all add: count_of_def wf_register_def wf_unregister_def)

lemma running_simps [simp]:
  "running (inc l st) = running st"
  "running (wf_register i st) = AList.update i () (running st)"
  "running (wf_unregister i st) = AList.delete i (running st)"
  by (simp_all add: inc_def wf_register_def wf_unregister_def)

text \<open>Every started attempt has either succeeded or failed.\<close>

definition balanced :: "'s wf_state \<Rightarrow> bool" where
  "balanced st \<longleftrightarrow> (\<forall>w a. count_of st (ActStarted, w, a) =
     count_of st (ActSucceeded, w, a) + count_of st (ActFailed, w, a))"

text \<open>A context whose waiting only concerns the world.\<close>

definition quiet :: "'s wf_state ctx \<Rightarrow> bool" where
  "quiet ctx \<longleftrightarrow> (\<forall>d st. \<exists>s. after ctx d st = st\<lparr>world := s\<rparr>)"

definition kept :: "'s wf_state \<Rightarrow> 's wf_state \<Rightarrow> bool" where
  "kept st st' \<longleftrightarrow> (balanced st \<longrightarrow> balanced st') \<and> running st' = running st \<and>
     (\<forall>m l. m \<in> {WfStarted, WfSucceeded, WfFailed} \<longrightarrow> count_of st' (m, l) = count_of st (m, l))"

lemma kept_refl [simp]: "kept st st"
  by (simp add: kept_def)

lemma kept_trans: "kept a b \<Longrightarrow> kept b c \<Longrightarrow> kept a c"
  by (auto simp: kept_def)

lemma kept_world: "kept st (st\<lparr>world := s\<rparr>)"
  by (simp add: kept_def balanced_def)

lemma kept_run: "kept st (fst (wf_run w activity t st))"
  by (auto simp: kept_def balanced_def wf_run_def Let_def split: prod.split task_result.split option.split)

lemma kept_attempt: "kept st (fst (attempt ctx w activity t st))"
  using kept_run [of st w activity t] by (simp add: attempt_def split_def)

lemma kept_retriable: "kept st (fst (wf_retriable ctx w activity t e st))"
  by (simp add: wf_retriable_def kept_world split: option.split)

lemma backoff_invariant:
  assumes "ExponentialBackoffWithContext ctx Step b cond s = Some r" "Q s"
    and "\<And>s. Q s \<Longrightarrow> Q (fst (cond s))" "\<And>d s. Q s \<Longrightarrow> Q (after ctx d s)"
  shows "Q (fst r)"
proof -
  have "Q s \<longrightarrow> (\<forall>s. Q s \<longrightarrow> Q (fst (cond s))) \<longrightarrow> (\<forall>d s. Q s \<longrightarrow> Q (after ctx d s)) \<longrightarrow> Q (fst r)"
  proof (rule ExponentialBackoffWithContext.raw_induct [OF _ assms(1)], intro impI, goal_cases)
    case (1 EB ctx Step b cond s r)
    obtain s1 ok e where c: "cond s = (s1, ok, e)" by (metis prod_cases3)
    obtain b' d where st: "Step b = (b', d)" by (cases "Step b")
    have q: "Q s1" using 1(3,4) c by (metis fst_conv)
    then have "Q (after ctx d s1)" using 1(5) by blast
    then show ?case using 1(2,3) 1(1) [of ctx Step b' cond "after ctx d s1" r] 1(4,5) c st q
      by (auto split: if_splits option.splits)
  qed
  with assms(2-4) show ?thesis by blast
qed

lemma kept_executeActivity:
  fixes st :: "'s wf_state"
  assumes "quiet ctx" "executeActivity Interrupted Step ctx w t activity st = Some (st', e)"
  shows "kept st st'"
proof -
  let ?cond = "OnError_condition (wf_retriable ctx w activity t) (attempt ctx w activity t)"
  obtain l r where b: "ExponentialBackoffWithContext (lift_ctx ctx) Step (Backoff w) ?cond (st, None) =
      Some ((st', l), r)"
    using assms(2) by (auto simp: executeActivity_def OnError_def split: option.splits prod.splits)
  have "kept st (fst (fst ((st', l), r)))"
  proof (rule backoff_invariant [OF b, where Q = "\<lambda>p. kept st (fst p)"])
    fix p :: "'s wf_state \<times> err option"
    assume p: "kept st (fst p)"
    obtain s1 r1 where a: "attempt ctx w activity t (fst p) = (s1, r1)"
      by (cases "attempt ctx w activity t (fst p)")
    have s1: "kept st s1" using p kept_attempt [of "fst p" ctx w activity t] a by (auto intro: kept_trans)
    then have "kept st (fst (wf_retriable ctx w activity t e s1))" for e
      by (rule kept_trans) (rule kept_retriable)
    with s1 a show "kept st (fst (fst (?cond p)))"
      by (auto simp: OnError_condition_def split_def split: option.split bool.split)
  next
    fix d and p :: "'s wf_state \<times> err option"
    assume p: "kept st (fst p)"
    obtain s where "after ctx d (fst p) = (fst p)\<lparr>world := s\<rparr>" using assms(1) by (auto simp: quiet_def)
    with p show "kept st (fst (after (lift_ctx ctx) d p))"
      by (auto simp: lift_ctx_def split_def intro: kept_trans kept_world)
  qed simp
  then show ?thesis by simp
qed

lemma kept_Execute_loop:
  assumes "quiet ctx" "Execute_loop Interrupted Step ctx w t chain st = Some (st', e)"
  shows "kept st st'"
  using assms(2)
proof (induction chain arbitrary: st)
  case (Cons a chain)
  then obtain st1 e1 where x: "executeActivity Interrupted Step ctx w t a st = Some (st1, e1)"
    by (auto split: option.splits)
  from kept_executeActivity [OF assms(1) x] Cons x show ?case
    by (cases e1) (auto intro: kept_trans)
qed simp

section \<open>Tasks on disjoint parts of the state\<close>

text \<open>Task \<open>i\<close> works on component \<open>i\<close> of a list of states.\<close>

definition on_component :: "nat \<Rightarrow> 's task \<Rightarrow> 's list task" where
  "on_component i f xs = (case f (xs ! i) of (x, r) \<Rightarrow> (xs[i := x], r))"

definition recovered :: "task_result \<Rightarrow> err option" where
  "recovered r = (case r of Returned e \<Rightarrow> e | Panicked \<Rightarrow> Some (new_error ''internal server error''))"

definition component_tasks :: "'s task list \<Rightarrow> 's list task list" where
  "component_tasks fs = map (\<lambda>i. on_component i (fs ! i)) [0..<length fs]"

lemma run_component:
  assumes "i < length fs"
  shows "run_task background (component_tasks fs ! i) xs =
    (xs[i := fst ((fs ! i) (xs ! i))], recovered (snd ((fs ! i) (xs ! i))))"
  using assms
  by (simp add: component_tasks_def run_task_def on_component_def select_result_def background_def
      recovered_def split: prod.split task_result.split)

lemma Run_loop_disjoint:
  assumes "length xs = length fs" "length errs = length fs" "distinct order"
    "set order \<subseteq> {..<length fs}"
  shows "Run_loop background (component_tasks fs) order errs xs =
    (map (\<lambda>i. if i \<in> set order then fst ((fs ! i) (xs ! i)) else xs ! i) [0..<length fs],
     map (\<lambda>i. if i \<in> set order then recovered (snd ((fs ! i) (xs ! i))) else errs ! i) [0..<length fs])"
  using assms
proof (induction order arbitrary: xs errs)
  case Nil
  then show ?case by (auto intro: nth_equalityI)
next
  case (Cons i order)
  then show ?case
    by (auto simp: run_component nth_list_update intro!: map_cong)
qed

section \<open>One attempt per activity\<close>

text \<open>The chain run in order until the first error, which gets the name of its activity.\<close>

fun in_order :: "'t \<Rightarrow> ('t, 's) chain \<Rightarrow> 's \<Rightarrow> 's \<times> err option" where
  "in_order t [] s = (s, None)"
| "in_order t (a # acts) s =
     (case act_run a t s of
        (s, Returned None) \<Rightarrow> in_order t acts s
      | (s, Returned (Some e)) \<Rightarrow> (s, Some (Errorf (act_name a) [e]))
      | (s, Panicked) \<Rightarrow> (s, Some (Errorf (act_name a) [http_err ErrInternalServerError])))"

lemma world_inc [simp]: "world (inc l st) = world st"
  by (simp add: inc_def)

lemma world_register [simp]:
  "world (wf_register i st) = world st" "world (wf_unregister i st) = world st"
  by (simp_all add: wf_register_def wf_unregister_def)

lemma executeActivity_once:
  assumes "bo_Steps (Backoff w) = 1" "\<not> bo_RunForever (Backoff w)" "OnStepFailure w = None"
    "Interrupted (Sentinel ErrWaitTimeout)"
  shows "\<exists>st'. executeActivity Interrupted Step background w t a st =
      Some (st', snd (in_order t [a] (world st))) \<and> world st' = fst (in_order t [a] (world st))"
proof -
  obtain st1 r where a: "wf_run w a t st = (st1, r)" by (cases "wf_run w a t st")
  have "r = (case snd (act_run a t (world st)) of Returned e \<Rightarrow> e
      | Panicked \<Rightarrow> Some (http_err ErrInternalServerError))" "world st1 = fst (act_run a t (world st))"
    using a by (auto simp: wf_run_def Let_def split: prod.splits task_result.splits option.splits)
  moreover have "OnError Interrupted background Step (Backoff w) (wf_retriable background w a t)
      (attempt background w a t) st = Some (st1, r)"
  proof -
    have "attempt background w a t st = (st1, r)" using a by (simp add: attempt_def background_def)
    moreover have "wf_retriable background w a t x st1 = (st1, IsRetriable w x)" for x
      using assms(3) by (simp add: wf_retriable_def background_def)
    ultimately have "OnError_condition (wf_retriable background w a t) (attempt background w a t) (st, None) =
        (case r of None \<Rightarrow> ((st1, None), True, None)
         | Some x \<Rightarrow> if IsRetriable w x then ((st1, Some x), False, None) else ((st1, None), False, Some x))"
      by (simp add: OnError_condition_def split: option.split)
    then have "ExponentialBackoffWithContext (lift_ctx background) Step (Backoff w)
        (OnError_condition (wf_retriable background w a t) (attempt background w a t)) (st, None) =
        Some (case r of None \<Rightarrow> ((st1, None), None)
         | Some x \<Rightarrow> if IsRetriable w x then ((st1, Some x), Some (Sentinel ErrWaitTimeout))
             else ((st1, None), Some x))"
      using assms(1,2)
      by (subst ExponentialBackoffWithContext.simps) (simp add: background_simps split: option.split)
    then show ?thesis using assms(4) by (simp add: OnError_def split: option.split)
  qed
  ultimately show ?thesis
    by (auto simp: executeActivity_def split: option.split prod.split task_result.split)
qed

lemma Execute_loop_once:
  assumes "bo_Steps (Backoff w) = 1" "\<not> bo_RunForever (Backoff w)" "OnStepFailure w = None"
    "Interrupted (Sentinel ErrWaitTimeout)"
  shows "\<exists>st'. Execute_loop Interrupted Step background w t chain st =
      Some (st', snd (in_order t chain (world st))) \<and> world st' = fst (in_order t chain (world st))"
proof (induction chain arbitrary: st)
  case (Cons a chain)
  obtain st1 where st1: "executeActivity Interrupted Step background w t a st =
      Some (st1, snd (in_order t [a] (world st)))" "world st1 = fst (in_order t [a] (world st))"
    using executeActivity_once [where Interrupted = Interrupted, OF assms] by blast
  with Cons [of st1] show ?case
    by (auto split: prod.splits task_result.splits option.splits)
qed simp

lemma Execute_once:
  assumes "bo_Steps (Backoff w) = 1" "\<not> bo_RunForever (Backoff w)" "OnStepFailure w = None"
    "Interrupted (Sentinel ErrWaitTimeout)"
  shows "\<exists>st'. Execute Interrupted Step background w t st =
      Some (st', snd (in_order t (wf_chain w) (world st))) \<and>
    world st' = fst (in_order t (wf_chain w) (world st))"
proof -
  let ?st0 = "wf_register (WorkflowID w t) (inc (WfStarted, wf_Name w, ''false'') st)"
  have "world ?st0 = world st" by (simp add: wf_register_def)
  with Execute_loop_once [where Interrupted = Interrupted, OF assms, of Step t "wf_chain w" ?st0] show ?thesis
    by (auto simp: Execute_def Let_def wf_unregister_def split: option.split)
qed

text \<open>Two activities that count up, a third that must not run, and a refusal in between.\<close>

definition example_workflow :: "(unit, nat, delays) workflow" where
  "example_workflow =
     \<lparr>wf_Name = ''w'', wf_chain = [\<lparr>act_name = ''a'', act_run = \<lambda>_ s. (Suc s, Returned None)\<rparr>,
        \<lparr>act_name = ''b'', act_run = \<lambda>_ s. (s, Returned (Some (new_error ''full'')))\<rparr>,
        \<lparr>act_name = ''c'', act_run = \<lambda>_ s. (Suc s, Returned None)\<rparr>],
      Backoff = NoRetry, OnStepFailure = None, WorkflowID = \<lambda>_. ''id'', IsRetriable = \<lambda>_. True\<rparr>"

section \<open>Properties\<close>

text \<open>
  Whatever its activities do, an execution of a workflow that returns has counted itself once
  as started and once as succeeded or failed, according to its result; its identifier is no longer
  registered and no other is affected; and every started attempt of an activity is counted as
  succeeded or failed.
\<close>

theorem Execute_bookkeeping:
  assumes "quiet ctx" "Execute Interrupted Step ctx w t st = Some (st', e)"
  shows "(balanced st \<longrightarrow> balanced st') \<and>
    (\<forall>i. Finished i st' \<longleftrightarrow> i = WorkflowID w t \<or> Finished i st) \<and>
    (let n = (\<lambda>m st. count_of st (m, wf_Name w, ''false'')) in
       n WfStarted st' = n WfStarted st + 1 \<and>
       n WfSucceeded st' = n WfSucceeded st + (if e = None then 1 else 0) \<and>
       n WfFailed st' = n WfFailed st + (if e = None then 0 else 1))"
proof -
  let ?st0 = "wf_register (WorkflowID w t) (inc (WfStarted, wf_Name w, ''false'') st)"
  obtain st1 where l: "Execute_loop Interrupted Step ctx w t (wf_chain w) ?st0 = Some (st1, e)"
      "st' = wf_unregister (WorkflowID w t)
         (inc (if e = None then WfSucceeded else WfFailed, wf_Name w, ''false'') st1)"
    using assms(2) by (auto simp: Execute_def Let_def split: option.splits)
  have k: "kept ?st0 st1" using kept_Execute_loop [OF assms(1) l(1)] .
  have "balanced st \<longrightarrow> balanced ?st0" by (simp add: balanced_def)
  then show ?thesis using k
    by (auto simp: l(2) kept_def balanced_def Finished_def Let_def)
qed

theorem Execute_bookkeeping_witness:
  "\<exists>st' :: nat wf_state. Finished ''id'' st' \<and> balanced st' \<and> count_of st' (WfFailed, ''w'', ''false'') = 1"
proof -
  let ?st = "\<lparr>world = 0, running = [], counters = []\<rparr> :: nat wf_state"
  obtain st' where e: "Execute (\<lambda>e. e = Sentinel ErrWaitTimeout) (\<lambda>b. (b, 0)) background
      example_workflow () ?st = Some (st', Some (Errorf ''b'' [new_error ''full'']))"
    using Execute_once [of example_workflow "\<lambda>e. e = Sentinel ErrWaitTimeout" "\<lambda>b. (b, 0)" "()" ?st]
    by (auto simp: example_workflow_def NoRetry_def)
  have "quiet background" by (simp add: quiet_def background_def) (metis wf_state.surjective
      wf_state.update_convs(1))
  moreover have "balanced ?st" by (simp add: balanced_def count_of_def)
  ultimately show ?thesis using Execute_bookkeeping [OF _ e]
    by (auto simp: example_workflow_def count_of_def Let_def)
qed

text \<open>
  C10. With a backoff of one step and a context that stays open, a workflow runs its activities in
  order up to the first that fails or panics and returns that error under the name of the
  activity; no later activity is started.
\<close>

theorem Execute_in_order:
  assumes "bo_Steps (Backoff w) = 1" "\<not> bo_RunForever (Backoff w)" "OnStepFailure w = None"
    "Interrupted (Sentinel ErrWaitTimeout)"
  shows "\<exists>st'. Execute Interrupted Step background w t st =
      Some (st', snd (in_order t (wf_chain w) (world st))) \<and>
    world st' = fst (in_order t (wf_chain w) (world st))"
  using assms by (rule Execute_once)

theorem Execute_in_order_witness:
  "\<exists>st'. Execute (\<lambda>e. e = Sentinel ErrWaitTimeout) (\<lambda>b. (b, 0)) background example_workflow ()
      \<lparr>world = 0, running = [], counters = []\<rparr> = Some (st', Some (Errorf ''b'' [new_error ''full''])) \<and>
    world st' = 1"
  using Execute_in_order [of example_workflow "\<lambda>e. e = Sentinel ErrWaitTimeout" "\<lambda>b. (b, 0)" "()"
      "\<lparr>world = 0, running = [], counters = []\<rparr>"]
  by (simp add: example_workflow_def NoRetry_def)

text \<open>
  \<open>Run\<close> returns the errors in the order of the tasks, whatever the schedule: for tasks that
  work on disjoint parts of the state the final state and the list of errors are those of running
  each task on its own part, and a panic shows up as an error in its place.
\<close>

theorem Run_schedule_independent:
  assumes "length xs = length fs" "distinct order" "set order = {..<length fs}"
  shows "Run background order (component_tasks fs) xs =
    (map (\<lambda>i. fst ((fs ! i) (xs ! i))) [0..<length fs],
     map (\<lambda>i. recovered (snd ((fs ! i) (xs ! i)))) [0..<length fs])"
  using assms
  by (auto simp: Run_def component_tasks_def [THEN arg_cong, of length] Run_loop_disjoint
      intro!: map_cong)

theorem Run_schedule_independent_witness:
  "Run background [1, 0] (component_tasks [\<lambda>s. (Suc s, Returned None), \<lambda>s. (s, Panicked)]) [3, 4] =
    ([4, 4], [None, Some (new_error ''internal server error'')])"
  using Run_schedule_independent [of "[3, 4]" "[\<lambda>s. (Suc s, Returned None), \<lambda>s. (s, Panicked)]" "[1, 0]"]
  by (simp add: recovered_def lessThan_Suc numeral_2_eq_2 upt_conv_Cons)

lemma AnyError_iff: "AnyError es \<longleftrightarrow> (\<exists>e \<in> set es. e \<noteq> None)"
  by (induction es) auto

end
