(* ===== verification/Replicate.thy ===== *)
theory Replicate
  imports Workflow Memory
begin

text \<open>
  The replicating backend, \<open>pkg/store/backends/replicate/replicate.go\<close>: every write goes to all
  stores through a concurrent workflow with one retry, with an optional rollback.

  The stores share a type of state; \<open>rep\<close> holds their states, the array behind the options, which
  all goroutines share, and the map \<open>didLock\<close>, indexed by store. \<open>order\<close> and \<open>order'\<close> are the
  schedules of the two workflows. \<open>is_nil\<close> is the test \<open>any(backup) == nil\<close>.
\<close>

section \<open>State\<close>

record ('s, 'v) rep =
  r_states :: "'s list"
  r_arr :: "opt list"
  r_lock :: "(nat, 'v) gomap"

fun is_rollback :: "opt \<Rightarrow> bool" where
  "is_rollback (ORollback _) = True"
| "is_rollback _ = False"

definition matchWithRollback :: "opt slice \<Rightarrow> opt option \<times> opt slice" where
  "matchWithRollback = MatchOption is_rollback False"

type_synonym ('s, 'k, 'v) do_fun =
  "('s, 'k, 'v) store \<Rightarrow> 'k \<Rightarrow> 'v \<Rightarrow> opt slice \<Rightarrow> 's \<Rightarrow> ('s, 'v \<times> err option) outcome"

type_synonym ('s, 'k, 'v) undo_fun =
  "('s, 'k, 'v) store \<Rightarrow> 'k \<Rightarrow> 'v \<Rightarrow> opt slice \<Rightarrow> 's \<Rightarrow> ('s, err option) outcome"

section \<open>What each operation does and undoes\<close>

definition with_backup :: "'v \<Rightarrow> ('s, err option) outcome \<Rightarrow> ('s, 'v \<times> err option) outcome" where
  "with_backup b r = (case r of (s, a, e) \<Rightarrow> (s, a, b, e))"

definition do_Create :: "'v \<Rightarrow> ('s, 'k, 'v) do_fun" where
  "do_Create zero S key value opts s = with_backup zero (Create S opts key value s)"

definition undo_Create :: "('s, 'k, 'v) undo_fun" where
  "undo_Create S key _ opts s = Delete S opts key s"

definition do_Update :: "'v \<Rightarrow> ('s, 'k, 'v) do_fun" where
  "do_Update zero S key value opts s =
     (case matchWithRollback opts of
        (None, opts) \<Rightarrow> with_backup zero (Update S opts key value s)
      | (Some _, opts) \<Rightarrow>
          (case Read S nil_slice key s of
             (s, _, Inl e) \<Rightarrow> (s, arr opts, zero, Some e)
           | (s, _, Inr backup) \<Rightarrow> with_backup backup (Update S opts key value s)))"

definition undo_Update :: "('s, 'k, 'v) undo_fun" where
  "undo_Update S key backup opts s = Update S opts key backup s"

definition do_Apply :: "'v \<Rightarrow> ('s, 'k, 'v) do_fun" where
  "do_Apply zero S key value opts s =
     (case matchWithRollback opts of
        (None, opts) \<Rightarrow> with_backup zero (Apply S opts key value s)
      | (Some _, opts) \<Rightarrow>
          (case Read S nil_slice key s of
             (s, _, Inl e) \<Rightarrow>
               if \<not> is_err e (Http ErrNotFound) then (s, arr opts, zero, Some e)
               else with_backup zero (Apply S opts key value s)
           | (s, _, Inr backup) \<Rightarrow> with_backup backup (Apply S opts key value s)))"

definition undo_Apply :: "('v \<Rightarrow> bool) \<Rightarrow> ('s, 'k, 'v) undo_fun" where
  "undo_Apply is_nil S key backup opts s =
     (if is_nil backup then Delete S opts key s else Update S opts key backup s)"

definition do_Delete :: "'v \<Rightarrow> ('s, 'k, 'v) do_fun" where
  "do_Delete zero S key value opts s =
     (case matchWithRollback opts of
        (None, opts) \<Rightarrow> with_backup zero (Delete S opts key s)
      | (Some _, opts) \<Rightarrow>
          (case Read S nil_slice key s of
             (s, _, Inl e) \<Rightarrow>
               if \<not> is_err e (Http ErrNotFound) then (s, arr opts, zero, Some e)
               else with_backup zero (Delete S opts key s)
           | (s, _, Inr backup) \<Rightarrow> with_backup backup (Delete S opts key s)))"

definition undo_Delete :: "('v \<Rightarrow> bool) \<Rightarrow> ('s, 'k, 'v) undo_fun" where
  "undo_Delete is_nil S key backup opts s =
     (if is_nil backup then Apply S opts key backup s else (s, arr opts, None))"

section \<open>Execution\<close>

text \<open>One attempt at store \<open>i\<close>: an error is remembered in \<open>didLock\<close>, with the backup.\<close>

definition lock_task ::
  "('s, 'k, 'v) store list \<Rightarrow> ('s, 'k, 'v) do_fun \<Rightarrow> 'k \<Rightarrow> 'v \<Rightarrow> opt slice \<Rightarrow> nat \<Rightarrow> ('s, 'v) rep task"
where
  "lock_task Ss f key value opts i w =
     (case f (Ss ! i) key value (caller_view opts (r_arr w)) (r_states w ! i) of (s, a, backup, r) \<Rightarrow>
        (w\<lparr>r_states := (r_states w)[i := s], r_arr := a,
           r_lock := (if r \<noteq> None then AList.update i backup (r_lock w) else r_lock w)\<rparr>,
         Returned r))"

definition unlock_task ::
  "('s, 'k, 'v) store list \<Rightarrow> ('s, 'k, 'v) undo_fun \<Rightarrow> 'k \<Rightarrow> opt slice \<Rightarrow> nat \<Rightarrow> ('s, 'v) rep task"
where
  "unlock_task Ss undo key opts i w =
     (case map_of (r_lock w) i of
        None \<Rightarrow> (w, Returned None)
      | Some backup \<Rightarrow>
          (case undo (Ss ! i) key backup (caller_view opts (r_arr w)) (r_states w ! i) of (s, a, r) \<Rightarrow>
             (w\<lparr>r_states := (r_states w)[i := s], r_arr := a\<rparr>, Returned r)))"

text \<open>The parameters of the two workflows that come from outside the package.\<close>

record env =
  env_Step :: "delays backoff \<Rightarrow> delays backoff \<times> nat"
  env_Interrupted :: "err \<Rightarrow> bool"
  env_DefaultBackoff :: "delays backoff"
  env_xid :: string
  env_WorkflowName :: string

definition rep_workflow ::
  "env \<Rightarrow> nat \<Rightarrow> (nat \<Rightarrow> ('s, 'v) rep task) \<Rightarrow> (unit, ('s, 'v) rep, delays) workflow" where
  "rep_workflow E n f =
     NewWorkflowFor (env_DefaultBackoff E) (\<lambda>_. env_xid E) (env_WorkflowName E) [0..<n] (\<lambda>i _. f i)"

definition Rep_Execute ::
  "env \<Rightarrow> nat list \<Rightarrow> nat list \<Rightarrow> ('s, 'k, 'v) store list \<Rightarrow> 'k \<Rightarrow> 'v \<Rightarrow> ('s, 'k, 'v) do_fun \<Rightarrow>
   ('s, 'k, 'v) undo_fun \<Rightarrow> opt slice \<Rightarrow> 's list \<Rightarrow> ('s list \<times> err list \<times> err option) option" where
  "Rep_Execute E order order' Ss key value f undo opts ss =
     (case matchWithRollback opts of (errCh, opts) \<Rightarrow>
        let st = \<lparr>world = \<lparr>r_states = ss, r_arr = arr opts, r_lock = []\<rparr>, running = [], counters = []\<rparr>;
            w = WithRetryPolicy RetryOnce (rep_workflow E (length Ss) (lock_task Ss f key value opts))
        in case ExecuteConcurrent (env_Interrupted E) (env_Step E) background order w () st of
             None \<Rightarrow> None
           | Some (st, errs) \<Rightarrow>
               if errCh \<noteq> None \<and> AnyError errs then
                 (case ExecuteConcurrent (env_Interrupted E) (env_Step E) background order'
                      (rep_workflow E (length Ss) (unlock_task Ss undo key opts)) () st of
                    None \<Rightarrow> None
                  | Some (st, rollbackErrs) \<Rightarrow>
                      Some (r_states (world st),
                        map (\<lambda>e. Errorf ''rollback failed'' [Sentinel ErrRollbackFailed, e])
                          (List.map_filter id rollbackErrs),
                        join_errors errs))
               else Some (r_states (world st), [], join_errors errs))"

definition Rep_Create where
  "Rep_Create E order order' zero Ss opts key value =
     Rep_Execute E order order' Ss key value (do_Create zero) undo_Create opts"

definition Rep_Update where
  "Rep_Update E order order' zero Ss opts key value =
     Rep_Execute E order order' Ss key value (do_Update zero) undo_Update opts"

definition Rep_Apply where
  "Rep_Apply E order order' zero is_nil Ss opts key value =
     Rep_Execute E order order' Ss key value (do_Apply zero) (undo_Apply is_nil) opts"

definition Rep_Delete where
  "Rep_Delete E order order' zero is_nil Ss opts key =
     Rep_Execute E order order' Ss key zero (do_Delete zero) (undo_Delete is_nil) opts"

definition Rep_Read :: "('s, 'k, 'v) store list \<Rightarrow> opt slice \<Rightarrow> 'k \<Rightarrow> 's list \<Rightarrow> ('s list, err + 'v) outcome" where
  "Rep_Read Ss opts key ss =
     (case Read (Ss ! 0) opts key (ss ! 0) of (s, a, r) \<Rightarrow> (ss[0 := s], a, r))"

definition Rep_List ::
  "('s, 'k, 'v) store list \<Rightarrow> opt slice \<Rightarrow> 's list \<Rightarrow> ('s list, err + ('k, 'v) ListItems) outcome" where
  "Rep_List Ss opts ss = (case List (Ss ! 0) opts (ss ! 0) of (s, a, r) \<Rightarrow> (ss[0 := s], a, r))"

section \<open>Two attempts\<close>

text \<open>An activity under \<open>RetryOnce\<close> with a context that stays open.\<close>

definition good_env :: "env \<Rightarrow> bool" where
  "good_env E \<longleftrightarrow> one_step (env_Step E) \<and> env_Interrupted E (Sentinel ErrWaitTimeout)"

definition twice :: "('s \<Rightarrow> 's \<times> err option) \<Rightarrow> 's \<Rightarrow> 's \<times> err option" where
  "twice f s = (case f s of (s, None) \<Rightarrow> (s, None) | (s, Some _) \<Rightarrow> f s)"

lemma OnError_twice:
  assumes "good_env E" "bo_Steps b = 2" "\<not> bo_RunForever b"
    and "\<And>e s. retriable e s = (s, True)"
  shows "OnError (env_Interrupted E) background (env_Step E) b retriable f s = Some (twice f s)"
proof -
  have "retriable = (\<lambda>e s. (s, True))" using assms(4) by (simp add: fun_eq_iff)
  with OnError_tries [of "env_Step E" b "env_Interrupted E" "\<lambda>_. True" f s] assms(1-3)
  show ?thesis
    by (simp add: good_env_def twice_def numeral_2_eq_2 split: prod.split option.split)
qed

lemma OnError_success:
  assumes "f s = (s', None)" "0 < bo_Steps b"
  shows "OnError I background Step b retriable f s = Some (s', None)"
  using assms unfolding OnError_def
  by (subst ExponentialBackoffWithContext.simps) (simp add: OnError_condition_def background_simps)

section \<open>Steady activities\<close>

text \<open>
  An activity that, when it fails, leaves a world in which it fails again in the same way. Under
  \<open>RetryOnce\<close> it acts as if it ran once.
\<close>

definition steady :: "('w \<Rightarrow> 'w \<times> err option) \<Rightarrow> bool" where
  "steady act \<longleftrightarrow> (\<forall>w. snd (act w) \<noteq> None \<longrightarrow> act (fst (act w)) = act w)"

definition named_error :: "string \<Rightarrow> err option \<Rightarrow> err option" where
  "named_error name r = map_option (\<lambda>e. Errorf name [e]) r"

lemma attempt_background:
  assumes "\<And>s. act_run a t s = (fst (act s), Returned (snd (act s)))"
  shows "\<exists>st'. attempt background w a t st = (st', snd (act (world st))) \<and>
    world st' = fst (act (world st))"
  by (auto simp: attempt_def wf_run_def background_def Let_def assms split: option.split)

lemma executeActivity_steady:
  assumes "good_env E" "OnStepFailure w = None" "IsRetriable w = (\<lambda>_. True)"
    and "\<And>s. act_run a t s = (fst (act s), Returned (snd (act s)))"
    and "bo_Steps (Backoff w) = 2 \<and> \<not> bo_RunForever (Backoff w) \<and> steady act \<or>
      0 < bo_Steps (Backoff w) \<and> snd (act (world st)) = None"
  shows "\<exists>st'. executeActivity (env_Interrupted E) (env_Step E) background w t a st =
      Some (st', named_error (act_name a) (snd (act (world st)))) \<and> world st' = fst (act (world st))"
proof -
  obtain st1 where a1: "attempt background w a t st = (st1, snd (act (world st)))"
      "world st1 = fst (act (world st))"
    using attempt_background [where act = act, OF assms(4)] by blast
  obtain st2 where a2: "attempt background w a t st1 = (st2, snd (act (world st1)))"
      "world st2 = fst (act (world st1))"
    using attempt_background [where act = act, OF assms(4)] by blast
  have "\<exists>st'. OnError (env_Interrupted E) background (env_Step E) (Backoff w)
      (wf_retriable background w a t) (attempt background w a t) st = Some (st', snd (act (world st))) \<and>
    world st' = fst (act (world st))"
  proof (cases "snd (act (world st)) = None")
    case True
    with a1 assms(5) show ?thesis by (auto simp: OnError_success)
  next
    case False
    with assms(5) have b: "bo_Steps (Backoff w) = 2" "\<not> bo_RunForever (Backoff w)" "steady act"
      by auto
    have "OnError (env_Interrupted E) background (env_Step E) (Backoff w)
        (wf_retriable background w a t) (attempt background w a t) st = Some (twice (attempt background w a t) st)"
      by (rule OnError_twice [OF assms(1) b(1,2)])
        (simp add: wf_retriable_def background_def assms(2,3))
    moreover have "act (world st1) = act (world st)" using b(3) False a1(2) by (auto simp: steady_def)
    ultimately show ?thesis using a1 a2 False by (auto simp: twice_def)
  qed
  then show ?thesis
    by (cases "snd (act (world st))") (auto simp: executeActivity_def named_error_def)
qed

text \<open>The loop over a schedule, when every activity is steady.\<close>

fun effects :: "(nat \<Rightarrow> 'w \<Rightarrow> 'w \<times> err option) \<Rightarrow> string \<Rightarrow> nat list \<Rightarrow> err option list \<Rightarrow> 'w \<Rightarrow>
    'w \<times> err option list" where
  "effects act name [] errs w = (w, errs)"
| "effects act name (i # order) errs w =
     effects act name order (errs[i := named_error name (snd (act i w))]) (fst (act i w))"

fun all_succeed :: "(nat \<Rightarrow> 'w \<Rightarrow> 'w \<times> err option) \<Rightarrow> nat list \<Rightarrow> 'w \<Rightarrow> bool" where
  "all_succeed act [] w \<longleftrightarrow> True"
| "all_succeed act (i # order) w \<longleftrightarrow>
     snd (act i w) = None \<and> all_succeed act order (fst (act i w))"

lemma ExecuteConcurrent_steady:
  assumes "good_env E" "n = length Ss"
    and "\<And>i s. i < n \<Longrightarrow> T i s = (fst (act i s), Returned (snd (act i s)))"
    and "bo_Steps b = 2 \<and> \<not> bo_RunForever b \<and> (\<forall>i < n. steady (act i)) \<or>
      0 < bo_Steps b \<and> all_succeed act order (world st)"
    and "set order \<subseteq> {..<n}"
  shows "\<exists>st'. ExecuteConcurrent (env_Interrupted E) (env_Step E) background order
      (WithRetryPolicy b (rep_workflow E n T)) () st =
        Some (st', filter (\<lambda>e. e \<noteq> None)
          (snd (effects act (env_WorkflowName E) order (replicate n None) (world st)))) \<and>
      world st' = fst (effects act (env_WorkflowName E) order (replicate n None) (world st))"
proof -
  let ?w = "WithRetryPolicy b (rep_workflow E n T)"
  have w: "OnStepFailure ?w = None" "IsRetriable ?w = (\<lambda>_. True)" "Backoff ?w = b"
    "length (wf_chain ?w) = n"
    "\<And>i. i < n \<Longrightarrow> wf_chain ?w ! i = \<lparr>act_name = env_WorkflowName E, act_run = \<lambda>_. T i\<rparr>"
    by (simp_all add: WithRetryPolicy_def rep_workflow_def NewWorkflowFor_def NewWorkflow_def NewActivity_def)
  have "\<exists>st'. ExecuteConcurrent_loop (env_Interrupted E) (env_Step E) background ?w () order errs st =
        Some (st', snd (effects act (env_WorkflowName E) order errs (world st))) \<and>
      world st' = fst (effects act (env_WorkflowName E) order errs (world st))" 
    if "bo_Steps b = 2 \<and> \<not> bo_RunForever b \<and> (\<forall>i < n. steady (act i)) \<or>
      0 < bo_Steps b \<and> all_succeed act order (world st)" for errs st
    using assms(5) that
  proof (induction order arbitrary: errs st)
    case (Cons i order)
    then have i: "i < n" by simp
    obtain st1 where st1: "executeActivity (env_Interrupted E) (env_Step E) background ?w () (wf_chain ?w ! i) st =
        Some (st1, named_error (env_WorkflowName E) (snd (act i (world st))))"
        "world st1 = fst (act i (world st))"
      using executeActivity_steady [where act = "act i" and a = "wf_chain ?w ! i" and w = ?w and st = st and t = "()",
          OF assms(1) w(1,2)] assms(3) Cons.prems(2) i w(3,5) by auto
    moreover have "select_result background st1 (new_error ''timeout'') e = e" for e
      by (simp add: select_result_def background_def)
    moreover obtain st' where "ExecuteConcurrent_loop (env_Interrupted E) (env_Step E) background ?w () order
          (errs[i := named_error (env_WorkflowName E) (snd (act i (world st)))]) st1 =
        Some (st', snd (effects act (env_WorkflowName E) (i # order) errs (world st)))"
        "world st' = fst (effects act (env_WorkflowName E) (i # order) errs (world st))"
      using Cons.IH [of st1 "errs[i := named_error (env_WorkflowName E) (snd (act i (world st)))]"]
        Cons.prems st1(2) by auto
    ultimately show ?case by simp
  qed simp
  from this [of "wf_register (WorkflowID ?w ()) (inc (WfStarted, wf_Name ?w, ''true'') st)"
      "replicate n None"] w(4) assms(4)
  show ?thesis
    by (auto simp: ExecuteConcurrent_def Let_def Filter_eq)
qed

section \<open>Creating over memory stores\<close>

lemma update_idem [simp]: "AList.update k v (AList.update k v m) = AList.update k v m"
  by (induction m) auto

definition had :: "'k \<Rightarrow> ('k, 'v) gomap \<Rightarrow> bool" where
  "had k m \<longleftrightarrow> map_of m k \<noteq> None"

definition create_effect :: "'v \<Rightarrow> 'k \<Rightarrow> 'v \<Rightarrow> nat \<Rightarrow> (('k, 'v) gomap, 'v) rep \<Rightarrow>
    (('k, 'v) gomap, 'v) rep \<times> err option" where
  "create_effect zero k v i w =
     (if had k (r_states w ! i)
      then (w\<lparr>r_lock := AList.update i zero (r_lock w)\<rparr>, Some (http_err ErrConflict))
      else (w\<lparr>r_states := (r_states w)[i := AList.update k v (r_states w ! i)]\<rparr>, None))"

lemma create_task:
  assumes "i < n"
  shows "lock_task (replicate n (Memory f z)) (do_Create zero) k v (Slice a 0) i w =
    (fst (create_effect zero k v i w), Returned (snd (create_effect zero k v i w)))"
  using assms
  by (auto simp: lock_task_def do_Create_def with_backup_def Mem_defs create_effect_def had_def caller_view_def)

lemma steady_create: "steady (create_effect zero k v i)"
  by (auto simp: steady_def create_effect_def)

definition created :: "'k \<Rightarrow> 'v \<Rightarrow> ('k, 'v) gomap \<Rightarrow> ('k, 'v) gomap" where
  "created k v m = (if had k m then m else AList.update k v m)"

definition conflict :: "'k \<Rightarrow> ('k, 'v) gomap \<Rightarrow> err option" where
  "conflict k m = (if had k m then Some (http_err ErrConflict) else None)"

lemma effects_create:
  assumes "distinct order" "set order \<subseteq> {..<n}" "length (r_states w) = n" "length errs = n"
    and "effects (create_effect zero k v) name order errs w = (w', errs')"
  shows "r_states w' = map (\<lambda>i. if i \<in> set order then created k v (r_states w ! i) else r_states w ! i) [0..<n]"
    and "map_of (r_lock w') j =
      (if j \<in> set order \<and> had k (r_states w ! j) then Some zero else map_of (r_lock w) j)"
    and "errs' = map (\<lambda>i. if i \<in> set order then named_error name (conflict k (r_states w ! i)) else errs ! i) [0..<n]"
    and "r_arr w' = r_arr w"
proof -
  have "r_states w' = map (\<lambda>i. if i \<in> set order then created k v (r_states w ! i) else r_states w ! i) [0..<n] \<and>
    (\<forall>j. map_of (r_lock w') j =
      (if j \<in> set order \<and> had k (r_states w ! j) then Some zero else map_of (r_lock w) j)) \<and>
    errs' = map (\<lambda>i. if i \<in> set order then named_error name (conflict k (r_states w ! i)) else errs ! i) [0..<n] \<and>
    r_arr w' = r_arr w"
    using assms
  proof (induction order arbitrary: w errs)
    case Nil
    then show ?case by (auto intro: nth_equalityI)
  next
    case (Cons i order)
    let ?w = "fst (create_effect zero k v i w)"
    let ?errs = "errs[i := named_error name (snd (create_effect zero k v i w))]"
    have len: "length (r_states ?w) = n" "length ?errs = n"
      using Cons.prems by (auto simp: create_effect_def)
    have others: "r_states ?w ! j = r_states w ! j" if "j \<noteq> i" for j
      using that by (simp add: create_effect_def)
    have i: "i < n" "i \<notin> set order" using Cons.prems by auto
    have later: "r_states ?w ! j = r_states w ! j" if "j \<in> set order" for j
      using that others [of j] i(2) by auto
    from Cons.IH [OF _ _ len] Cons.prems
    have IH: "r_states w' = map (\<lambda>i. if i \<in> set order then created k v (r_states ?w ! i) else r_states ?w ! i) [0..<n]"
      "\<forall>j. map_of (r_lock w') j =
        (if j \<in> set order \<and> had k (r_states ?w ! j) then Some zero else map_of (r_lock ?w) j)"
      "errs' = map (\<lambda>i. if i \<in> set order then named_error name (conflict k (r_states ?w ! i)) else ?errs ! i) [0..<n]"
      "r_arr w' = r_arr ?w"
      by auto
    have st: "r_states ?w ! i = created k v (r_states w ! i)"
      using i(1) Cons.prems(3) by (simp add: create_effect_def created_def)
    have "r_states w' = map (\<lambda>j. if j \<in> set (i # order) then created k v (r_states w ! j) else r_states w ! j) [0..<n]"
      unfolding IH(1) using st others later i(2) by (intro map_cong) auto
    moreover have "map_of (r_lock ?w) j = (if j = i \<and> had k (r_states w ! i) then Some zero else map_of (r_lock w) j)" for j
      by (simp add: create_effect_def)
    then have "\<forall>j. map_of (r_lock w') j =
        (if j \<in> set (i # order) \<and> had k (r_states w ! j) then Some zero else map_of (r_lock w) j)"
      using IH(2) later i(2) by auto
    moreover have "snd (create_effect zero k v i w) = conflict k (r_states w ! i)"
      by (simp add: create_effect_def conflict_def)
    then have "errs' = map (\<lambda>j. if j \<in> set (i # order) then named_error name (conflict k (r_states w ! j)) else errs ! j) [0..<n]"
      unfolding IH(3) using later i Cons.prems(4) by (intro map_cong) (auto simp: nth_list_update)
    moreover have "r_arr w' = r_arr w" using IH(4) by (simp add: create_effect_def)
    ultimately show ?case by blast
  qed
  then show "r_states w' = map (\<lambda>i. if i \<in> set order then created k v (r_states w ! i) else r_states w ! i) [0..<n]"
    "map_of (r_lock w') j =
      (if j \<in> set order \<and> had k (r_states w ! j) then Some zero else map_of (r_lock w) j)"
    "errs' = map (\<lambda>i. if i \<in> set order then named_error name (conflict k (r_states w ! i)) else errs ! i) [0..<n]"
    "r_arr w' = r_arr w" by blast+
qed

lemma map_covered:
  assumes "set order = {..<length xs}"
  shows "map (\<lambda>i. if i \<in> set order then g (xs ! i) else c i) [0..<length xs] = map g xs"
  by (rule nth_equalityI) (simp_all add: assms)

text \<open>The first workflow of a \<open>Create\<close> over all stores.\<close>

definition start :: "opt list \<Rightarrow> 's list \<Rightarrow> ('s, 'v) rep wf_state" where
  "start a ss = \<lparr>world = \<lparr>r_states = ss, r_arr = a, r_lock = []\<rparr>, running = [], counters = []\<rparr>"

lemma create_workflow:
  assumes "good_env E" "n = length ss" "distinct order" "set order = {..<n}"
  shows "\<exists>st. ExecuteConcurrent (env_Interrupted E) (env_Step E) background order
      (WithRetryPolicy RetryOnce (rep_workflow E n
        (lock_task (replicate n (Memory f z)) (do_Create zero) k v (Slice a 0)))) () (start a ss) =
      Some (st, filter (\<lambda>e. e \<noteq> None) (map (\<lambda>m. named_error (env_WorkflowName E) (conflict k m)) ss)) \<and>
    r_states (world st) = map (created k v) ss \<and> r_arr (world st) = a \<and>
    (\<forall>i < n. map_of (r_lock (world st)) i = (if had k (ss ! i) then Some zero else None))"
proof -
  obtain w' errs' where e: "effects (create_effect zero k v) (env_WorkflowName E) order (replicate n None)
      (world (start a ss)) = (w', errs')" by (metis surj_pair)
  have w: "length (r_states (world (start a ss))) = n" using assms(2) by (simp add: start_def)
  have start: "r_states (world (start a ss)) = ss" "r_lock (world (start a ss)) = []"
    "r_arr (world (start a ss)) = a" by (simp_all add: start_def)
  note eff = effects_create [OF assms(3) equalityD1 [OF assms(4)] w length_replicate e, unfolded start]
  have "\<exists>st'. ExecuteConcurrent (env_Interrupted E) (env_Step E) background order
      (WithRetryPolicy RetryOnce (rep_workflow E n
        (lock_task (replicate n (Memory f z)) (do_Create zero) k v (Slice a 0)))) () (start a ss) =
        Some (st', filter (\<lambda>e. e \<noteq> None) errs') \<and> world st' = w'"
  proof -
    have "bo_Steps RetryOnce = 2 \<and> \<not> bo_RunForever RetryOnce \<and> (\<forall>i < n. steady (create_effect zero k v i)) \<or>
        0 < bo_Steps RetryOnce \<and> all_succeed (create_effect zero k v) order (world (start a ss))"
      by (simp add: RetryOnce_def steady_create)
    from ExecuteConcurrent_steady [OF assms(1,2) create_task [where f = f and z = z and a = a]
        this equalityD1 [OF assms(4)]]
    show ?thesis unfolding e fst_conv snd_conv .
  qed
  moreover have "errs' = map (\<lambda>m. named_error (env_WorkflowName E) (conflict k m)) ss"
    unfolding eff(3) assms(2) by (rule map_covered) (simp add: assms)
  moreover have "r_states w' = map (created k v) ss"
    unfolding eff(1) assms(2) by (rule map_covered) (simp add: assms)
  moreover have "r_arr w' = a" by (rule eff(4))
  moreover have "map_of (r_lock w') i = (if had k (ss ! i) then Some zero else None)" if "i < n" for i
    using eff(2) [of i] that assms(4) by simp
  ultimately show ?thesis by auto
qed

section \<open>Rolling a \<open>Create\<close> back\<close>

definition undo_effect :: "'k \<Rightarrow> nat \<Rightarrow> (('k, 'v) gomap, 'v) rep \<Rightarrow>
    (('k, 'v) gomap, 'v) rep \<times> err option" where
  "undo_effect k i w =
     (if map_of (r_lock w) i = None then (w, None)
      else if had k (r_states w ! i)
      then (w\<lparr>r_states := (r_states w)[i := AList.delete k (r_states w ! i)]\<rparr>, None)
      else (w, Some (http_err ErrNotFound)))"

lemma undo_task:
  assumes "i < n"
  shows "unlock_task (replicate n (Memory f z)) undo_Create k (Slice a 0) i w =
    (fst (undo_effect k i w), Returned (snd (undo_effect k i w)))"
  using assms
  by (auto simp: unlock_task_def undo_Create_def Mem_defs undo_effect_def had_def caller_view_def
      split: option.split)

lemma effects_undo:
  assumes "distinct order" "set order \<subseteq> {..<n}" "length (r_states w) = n"
    and "\<forall>i \<in> set order. map_of (r_lock w) i \<noteq> None \<longrightarrow> had k (r_states w ! i)"
    and "list_all (\<lambda>e. e = None) errs"
  shows "all_succeed (undo_effect k) order w \<and>
    list_all (\<lambda>e. e = None) (snd (effects (undo_effect k) name order errs w)) \<and>
    r_states (fst (effects (undo_effect k) name order errs w)) =
      map (\<lambda>i. if i \<in> set order \<and> map_of (r_lock w) i \<noteq> None then AList.delete k (r_states w ! i)
        else r_states w ! i) [0..<n]"
  using assms
proof (induction order arbitrary: w errs)
  case Nil
  then show ?case by (auto intro: nth_equalityI)
next
  case (Cons i order)
  let ?w = "fst (undo_effect k i w)"
  have none: "snd (undo_effect k i w) = None" using Cons.prems(4) by (auto simp: undo_effect_def)
  have lock: "r_lock ?w = r_lock w" and len: "length (r_states ?w) = n"
    using Cons.prems(3) by (simp_all add: undo_effect_def)
  have later: "r_states ?w ! j = r_states w ! j" if "j \<noteq> i" for j
    using that by (simp add: undo_effect_def)
  have i: "i < n" "i \<notin> set order" using Cons.prems by auto
  have st: "r_states ?w ! i =
      (if map_of (r_lock w) i \<noteq> None then AList.delete k (r_states w ! i) else r_states w ! i)"
    using i(1) Cons.prems(3,4) by (auto simp: undo_effect_def)
  have "\<forall>j \<in> set order. map_of (r_lock ?w) j \<noteq> None \<longrightarrow> had k (r_states ?w ! j)"
    using Cons.prems(4) later i(2) lock by (metis list.set_intros(2))
  moreover have "list_all (\<lambda>e. e = None) (errs[i := named_error name None])"
    using Cons.prems(5) set_update_subset_insert [of errs i "None"]
    by (auto simp: list_all_iff named_error_def)
  ultimately have IH: "all_succeed (undo_effect k) order ?w"
    "list_all (\<lambda>e. e = None) (snd (effects (undo_effect k) name order (errs[i := named_error name None]) ?w))"
    "r_states (fst (effects (undo_effect k) name order (errs[i := named_error name None]) ?w)) =
      map (\<lambda>j. if j \<in> set order \<and> map_of (r_lock ?w) j \<noteq> None then AList.delete k (r_states ?w ! j)
        else r_states ?w ! j) [0..<n]"
    using Cons.IH [of ?w "errs[i := named_error name None]"] Cons.prems(1,2) len by auto
  have "map (\<lambda>j. if j \<in> set order \<and> map_of (r_lock ?w) j \<noteq> None then AList.delete k (r_states ?w ! j)
        else r_states ?w ! j) [0..<n] =
      map (\<lambda>j. if j \<in> set (i # order) \<and> map_of (r_lock w) j \<noteq> None then AList.delete k (r_states w ! j)
        else r_states w ! j) [0..<n]"
    (is "map ?f _ = map ?g _")
  proof (rule map_cong [OF refl])
    fix j show "?f j = ?g j" using st later [of j] lock i(2) by (cases "j = i") auto
  qed
  with IH none show ?case by simp
qed

lemma undo_workflow:
  assumes "good_env E" "n = length ss" "distinct order" "set order = {..<n}"
    and "0 < bo_Steps (env_DefaultBackoff E)" "r_states (world st) = ss"
    and "\<forall>i < n. map_of (r_lock (world st)) i \<noteq> None \<longrightarrow> had k (ss ! i)"
  shows "\<exists>st'. ExecuteConcurrent (env_Interrupted E) (env_Step E) background order
      (rep_workflow E n (unlock_task (replicate n (Memory f z)) undo_Create k (Slice a 0))) () st =
        Some (st', []) \<and>
    r_states (world st') = map (\<lambda>i. if map_of (r_lock (world st)) i \<noteq> None
      then AList.delete k (ss ! i) else ss ! i) [0..<n]"
proof -
  let ?T = "unlock_task (replicate n (Memory f z)) undo_Create k (Slice a 0)"
  let ?e = "effects (undo_effect k) (env_WorkflowName E) order (replicate n None) (world st)"
  have eff: "all_succeed (undo_effect k) order (world st)" "list_all (\<lambda>e. e = None) (snd ?e)"
    "r_states (fst ?e) = map (\<lambda>i. if i \<in> set order \<and> map_of (r_lock (world st)) i \<noteq> None
      then AList.delete k (ss ! i) else ss ! i) [0..<n]"
    using effects_undo [OF assms(3) equalityD1 [OF assms(4)], of "world st" k "replicate n None"
        "env_WorkflowName E"] assms(2,4,6,7)
    by (auto simp: list_all_iff)
  have w: "WithRetryPolicy (env_DefaultBackoff E) (rep_workflow E n ?T) = rep_workflow E n ?T"
    by (simp add: WithRetryPolicy_def rep_workflow_def NewWorkflowFor_def NewWorkflow_def)
  obtain st' where st': "ExecuteConcurrent (env_Interrupted E) (env_Step E) background order
      (rep_workflow E n ?T) () st = Some (st', filter (\<lambda>e. e \<noteq> None) (snd ?e))" "world st' = fst ?e"
    using ExecuteConcurrent_steady [OF assms(1,2) undo_task [where n = n and f = f and z = z and a = a]
        disjI2 [OF conjI [OF assms(5) eff(1)]] equalityD1 [OF assms(4)]] unfolding w by blast
  moreover have "filter (\<lambda>e. e \<noteq> None) (snd ?e) = []"
    using eff(2) by (simp add: filter_empty_conv list_all_iff)
  moreover have "r_states (fst ?e) = map (\<lambda>i. if map_of (r_lock (world st)) i \<noteq> None
      then AList.delete k (ss ! i) else ss ! i) [0..<n]"
    unfolding eff(3) using assms(4) by (intro map_cong) auto
  ultimately show ?thesis by auto
qed

section \<open>Properties\<close>

lemma map_filter_id_Nil: "List.map_filter id es = [] \<longleftrightarrow> (\<forall>e \<in> set es. e = None)"
  by (auto simp: List.map_filter_def filter_empty_conv)

lemma join_errors_None: "join_errors es = None \<longleftrightarrow> (\<forall>e \<in> set es. e = None)"
  by (simp add: join_errors_def map_filter_id_Nil [symmetric] split: list.split)

definition create_errors :: "string \<Rightarrow> 'k \<Rightarrow> ('k, 'v) gomap list \<Rightarrow> err option list" where
  "create_errors name k ss = filter (\<lambda>e. e \<noteq> None) (map (\<lambda>m. named_error name (conflict k m)) ss)"

lemma set_create_errors:
  "(\<forall>e \<in> set (create_errors name k ss). e = None) \<longleftrightarrow> (\<forall>m \<in> set ss. map_of m k = None)"
  by (auto simp: create_errors_def named_error_def conflict_def had_def split: if_splits)

lemma create_errors_join:
  "join_errors (create_errors name k ss) = None \<longleftrightarrow> (\<forall>m \<in> set ss. map_of m k = None)"
  by (simp only: join_errors_None set_create_errors)

lemma create_errors_any:
  "AnyError (create_errors name k ss) \<longleftrightarrow> \<not> (\<forall>m \<in> set ss. map_of m k = None)"
  unfolding set_create_errors [of name k ss, symmetric] AnyError_iff by simp

text \<open>
  A replicated \<open>Create\<close> without options over memory stores reaches every store, whatever the
  schedule: each store that lacks the key gets the entry, each that has it keeps its own, and the
  call succeeds exactly when no store had the key.
\<close>

theorem Replicated_Create_reaches_all:
  assumes "good_env E" "distinct order" "set order = {..<length ss}"
  shows "\<exists>e. Rep_Create E order order' zero (replicate (length ss) (Memory f z)) nil_slice k v ss =
      Some (map (created k v) ss, [], e) \<and> (e = None \<longleftrightarrow> (\<forall>m \<in> set ss. map_of m k = None))"
proof -
  obtain st where st: "ExecuteConcurrent (env_Interrupted E) (env_Step E) background order
      (WithRetryPolicy RetryOnce (rep_workflow E (length ss)
        (lock_task (replicate (length ss) (Memory f z)) (do_Create zero) k v (Slice [] 0)))) () (start [] ss) =
      Some (st, create_errors (env_WorkflowName E) k ss)"
    "r_states (world st) = map (created k v) ss"
    using create_workflow [OF assms(1) refl assms(2,3), of f z zero k v "[]"]
    unfolding create_errors_def by blast
  have m: "matchWithRollback nil_slice = (None, nil_slice)" by (simp add: matchWithRollback_def)
  show ?thesis
    unfolding Rep_Create_def Rep_Execute_def m
    using st by (simp add: start_def create_errors_join)
qed

theorem Replicated_Create_reaches_all_witness:
  "\<exists>e. Rep_Create \<lparr>env_Step = \<lambda>b. (b\<lparr>bo_Steps := bo_Steps b - 1\<rparr>, 0),
      env_Interrupted = \<lambda>e. e = Sentinel ErrWaitTimeout, env_DefaultBackoff = NoRetry,
      env_xid = ''x'', env_WorkflowName = ''w''\<rparr> [1, 0] [] 0
      (replicate 2 (Memory None (0::nat))) nil_slice (1::nat) 5 [[], [(1, 7)]] =
    Some ([[(1, 5)], [(1, 7)]], [], e) \<and> e \<noteq> None"
  using Replicated_Create_reaches_all [of "\<lparr>env_Step = \<lambda>b. (b\<lparr>bo_Steps := bo_Steps b - 1\<rparr>, 0),
      env_Interrupted = \<lambda>e. e = Sentinel ErrWaitTimeout, env_DefaultBackoff = NoRetry,
      env_xid = ''x'', env_WorkflowName = ''w''\<rparr>" "[1, 0]" "[[], [(1, 7::nat)]]" "[]" 0 None 0 "1::nat" 5]
  by (auto simp: good_env_def one_step_def created_def had_def numeral_2_eq_2 lessThan_Suc)

text \<open>
  The rollback of a \<open>Create\<close> undoes the wrong stores: \<open>didLock\<close> remembers the stores that
  failed. When some store already had the key, the call fails, the new entry stays in every store
  that lacked it, and the stores that had the key lose their own entry.
\<close>

theorem Replicated_Create_rollback_inverted:
  assumes "good_env E" "distinct order" "set order = {..<length ss}"
    and "distinct order'" "set order' = {..<length ss}" "0 < bo_Steps (env_DefaultBackoff E)"
    and "\<exists>m \<in> set ss. map_of m k \<noteq> None"
  shows "\<exists>e. Rep_Create E order order' zero (replicate (length ss) (Memory f z)) (slice_of [ORollback c]) k v ss =
      Some (map (\<lambda>m. if map_of m k = None then AList.update k v m else AList.delete k m) ss, [], Some e)"
proof -
  let ?a = "[ORollback c]" and ?n = "length ss"
  let ?errs = "create_errors (env_WorkflowName E) k ss"
  obtain st where st: "ExecuteConcurrent (env_Interrupted E) (env_Step E) background order
      (WithRetryPolicy RetryOnce (rep_workflow E ?n
        (lock_task (replicate ?n (Memory f z)) (do_Create zero) k v (Slice ?a 0)))) () (start ?a ss) =
      Some (st, ?errs)"
    "r_states (world st) = map (created k v) ss"
    "\<forall>i < ?n. map_of (r_lock (world st)) i = (if had k (ss ! i) then Some zero else None)"
    using create_workflow [OF assms(1) refl assms(2,3), of f z zero k v ?a]
    unfolding create_errors_def by blast
  have "\<forall>i < ?n. map_of (r_lock (world st)) i \<noteq> None \<longrightarrow> had k (map (created k v) ss ! i)"
    using st(3) by (simp add: created_def had_def)
  then obtain st' where st': "ExecuteConcurrent (env_Interrupted E) (env_Step E) background order'
      (rep_workflow E ?n (unlock_task (replicate ?n (Memory f z)) undo_Create k (Slice ?a 0))) () st =
        Some (st', [])"
    "r_states (world st') = map (\<lambda>i. if map_of (r_lock (world st)) i \<noteq> None
      then AList.delete k (map (created k v) ss ! i) else map (created k v) ss ! i) [0..<?n]"
    using undo_workflow [OF assms(1) _ assms(4) _ assms(6) st(2), of ?n k f z ?a] assms(5) by auto
  have "r_states (world st') =
      map (\<lambda>m. if map_of m k = None then AList.update k v m else AList.delete k m) ss"
    unfolding st'(2) using st(3) by (intro nth_equalityI) (auto simp: created_def had_def)
  moreover have "matchWithRollback (slice_of ?a) = (Some (ORollback c), Slice ?a 0)"
    by (simp add: matchWithRollback_def slice_of_single option_simps)
  moreover have "AnyError ?errs" "join_errors ?errs \<noteq> None"
    using assms(7) by (simp_all only: create_errors_any create_errors_join) auto
  ultimately show ?thesis using st(1) st'(1)
    by (auto simp: Rep_Create_def Rep_Execute_def start_def map_filter_def)
qed

theorem Replicated_Create_rollback_inverted_witness:
  "\<exists>e. Rep_Create \<lparr>env_Step = \<lambda>b. (b\<lparr>bo_Steps := bo_Steps b - 1\<rparr>, 0),
      env_Interrupted = \<lambda>e. e = Sentinel ErrWaitTimeout, env_DefaultBackoff = NoRetry,
      env_xid = ''x'', env_WorkflowName = ''w''\<rparr> [0, 1] [0, 1] 0
      (replicate 2 (Memory None (0::nat))) (slice_of [ORollback 0]) (1::nat) 5 [[], [(1, 7)]] =
    Some ([[(1, 5)], []], [], Some e)"
  using Replicated_Create_rollback_inverted [of "\<lparr>env_Step = \<lambda>b. (b\<lparr>bo_Steps := bo_Steps b - 1\<rparr>, 0),
      env_Interrupted = \<lambda>e. e = Sentinel ErrWaitTimeout, env_DefaultBackoff = NoRetry,
      env_xid = ''x'', env_WorkflowName = ''w''\<rparr>" "[0, 1]" "[[], [(1, 7::nat)]]" "[0, 1]" "1::nat" 0 None 0 0 5]
  by (auto simp: good_env_def one_step_def NoRetry_def numeral_2_eq_2 lessThan_Suc)

end
