(* ===== verification/Access.thy ===== *)
theory Access
  imports Errors
begin

text \<open>
  Access reviews: \<open>pkg/access\<close> with its label tree (\<open>node.go\<close>), the basic scope and the trust
  that a request context carries.

  A \<open>Node\<close> is a Go map from labels to nodes, which \<open>Insert\<close> changes in place; here \<open>Insert\<close>
  returns the changed node and the node the code returns. A \<open>Scope\<close> is an interface: a record of
  its two methods. The request context is the value stored under \<open>CtxTrust\<close>.
\<close>

section \<open>The label tree\<close>

datatype node = Node "(string, node) gomap"

definition Wildcard :: string where
  "Wildcard = ''*''"

fun Insert :: "string list \<Rightarrow> node \<Rightarrow> node \<times> node" where
  "Insert [] (Node n) = (Node n, Node n)"
| "Insert (label # labels) (Node n) =
     (case map_of n label of
        Some node \<Rightarrow>
          (case Insert labels node of (node, r) \<Rightarrow> (Node (AList.update label node n), r))
      | None \<Rightarrow>
          (case (if labels = [] then map_of n Wildcard else None) of
             Some node \<Rightarrow> (Node n, node)
           | None \<Rightarrow>
               (let n = (if label = Wildcard \<and> labels = [] \<and> length n > 0 then [] else n)
                in case Insert labels (Node []) of
                     (node, r) \<Rightarrow> (Node (AList.update label node n), r))))"

fun Find :: "string list \<Rightarrow> node \<Rightarrow> bool" where
  "Find [] n = True"
| "Find (label # labels) (Node n) =
     (if (case map_of n label of None \<Rightarrow> False | Some node \<Rightarrow> Find labels node) then True
      else if (case map_of n Wildcard of None \<Rightarrow> False | Some node \<Rightarrow> Find labels node) then True
      else False)"

section \<open>Scopes\<close>

record scope =
  scope_Validate :: "err option"
  AsLabels :: "string list list"

record basic_scope =
  Actions :: "string list"
  Environments :: "string list"
  Teams :: "string list"
  Roles :: "string list"

definition Basic_Validate :: "basic_scope \<Rightarrow> err option" where
  "Basic_Validate s =
     (if Actions s = [] then Some (new_error ''scope must have at least one action'')
      else if Environments s = [] then Some (new_error ''scope must have at least one environment'')
      else if Teams s = [] then Some (new_error ''scope must have at least one team'')
      else if Roles s = [] then Some (new_error ''scope must have at least one role'')
      else None)"

definition Basic_AsLabels :: "basic_scope \<Rightarrow> string list list" where
  "Basic_AsLabels s =
     concat (map (\<lambda>team.
       concat (map (\<lambda>environment.
         concat (map (\<lambda>action.
           if Roles s \<noteq> [] then map (\<lambda>role. [team, environment, action, role]) (Roles s)
           else [[team, environment, action]])
         (Actions s)))
       (Environments s)))
     (Teams s))"

definition basic :: "basic_scope \<Rightarrow> scope" where
  "basic s = \<lparr>scope_Validate = Basic_Validate s, AsLabels = Basic_AsLabels s\<rparr>"

definition NewScope :: "string \<Rightarrow> string \<Rightarrow> string \<Rightarrow> string \<Rightarrow> basic_scope" where
  "NewScope method environment team role =
     \<lparr>Actions = [method], Environments = [environment], Teams = [team], Roles = [role]\<rparr>"

text \<open>\<open>ParseUserHeader\<close>: \<open>split_comma\<close> is \<open>strings.Split(raw, ",")\<close>.\<close>

fun split_comma :: "string \<Rightarrow> string list" where
  "split_comma [] = [[]]"
| "split_comma (c # cs) =
     (if c = CHR '','' then [] # split_comma cs
      else (case split_comma cs of x # xs \<Rightarrow> (c # x) # xs | [] \<Rightarrow> [[c]]))"

definition ParseUserHeader :: "string \<Rightarrow> scope list" where
  "ParseUserHeader teamsRaw =
     (if teamsRaw = [] then []
      else
        (let teams = split_comma teamsRaw in
         [basic \<lparr>Actions = [Wildcard], Environments = [''dev'', ''tst''], Teams = teams,
            Roles = [''user'']\<rparr>,
          basic \<lparr>Actions = [Wildcard], Environments = [''acc'', ''prd''], Teams = teams,
            Roles = [''user'']\<rparr>]))"

section \<open>The registry of parsers\<close>

text \<open>
  Parsers of type \<open>'p\<close> are registered under their name; \<open>conv\<close> is the type assertion to the
  interface a client asks for.
\<close>

definition RegisterParser :: "('p \<Rightarrow> string) \<Rightarrow> 'p \<Rightarrow> (string, 'p) gomap \<Rightarrow> (string, 'p) gomap" where
  "RegisterParser GetName parser registry = AList.update (GetName parser) parser registry"

definition MatchScopeParser :: "string \<Rightarrow> (string, 'p) gomap \<Rightarrow> err + 'p" where
  "MatchScopeParser name registry =
     (case map_of registry name of
        None \<Rightarrow> Inl (http_err ErrNotFound)
      | Some parser \<Rightarrow> Inr parser)"

definition MatchCustomParser ::
  "('p \<Rightarrow> 't option) \<Rightarrow> string \<Rightarrow> (string, 'p) gomap \<Rightarrow> err + 't" where
  "MatchCustomParser conv name registry =
     (case MatchScopeParser name registry of
        Inl e \<Rightarrow> Inl e
      | Inr parser \<Rightarrow>
          (case conv parser of
             None \<Rightarrow> Inl (new_error ''expected another type'')
           | Some c \<Rightarrow> Inr c))"

lemma MatchScopeParser_Register:
  "MatchScopeParser name (RegisterParser GetName parser registry) =
     (if name = GetName parser then Inr parser else MatchScopeParser name registry)"
  by (simp add: MatchScopeParser_def RegisterParser_def)

section \<open>Reviews\<close>

record account =
  Trust :: string
  acc_Name :: string
  Scopes :: "scope list"

definition Account_Validate :: "account \<Rightarrow> err option" where
  "Account_Validate a =
     (if Trust a = [] then Some (new_error ''account trust level is required'')
      else fold (\<lambda>s r. case r of Some e \<Rightarrow> Some e | None \<Rightarrow> scope_Validate s) (Scopes a) None)"

definition MatchScope :: "scope list \<Rightarrow> scope \<Rightarrow> bool" where
  "MatchScope allowed requested =
     (let root = fold (\<lambda>s root. fold (\<lambda>labels root. fst (Insert labels root)) (AsLabels s) root)
            allowed (Node [])
      in list_all (\<lambda>labels. Find labels root) (AsLabels requested))"

text \<open>A context holds no trust, an account, or a value of another type under the key.\<close>

datatype trust_value = TrustAccount account | TrustOther

type_synonym request_ctx = "trust_value option"

definition SetTrust :: "request_ctx \<Rightarrow> account \<Rightarrow> err + request_ctx" where
  "SetTrust ctx account =
     (case Account_Validate account of
        Some e \<Rightarrow> Inl (Errorf ''cannot set trust because account is invalid'' [e])
      | None \<Rightarrow> Inr (Some (TrustAccount account)))"

definition SetTrustInGinContext :: "account \<Rightarrow> request_ctx \<Rightarrow> request_ctx \<times> err option" where
  "SetTrustInGinContext account c =
     (case SetTrust c account of Inl e \<Rightarrow> (c, Some e) | Inr ctx \<Rightarrow> (ctx, None))"

definition no_trust :: account where
  "no_trust = \<lparr>Trust = ''No trust'', acc_Name = [], Scopes = []\<rparr>"

definition GetTrust :: "request_ctx \<Rightarrow> account" where
  "GetTrust ctx =
     (case ctx of Some (TrustAccount val) \<Rightarrow> val | Some TrustOther \<Rightarrow> no_trust | None \<Rightarrow> no_trust)"

definition GetTrustFromGinContext :: "request_ctx \<Rightarrow> account" where
  "GetTrustFromGinContext c = GetTrust c"

record status =
  Account :: account
  Allowed :: bool
  Reason :: "string \<times> string \<times> string list list"

record review =
  Spec :: scope
  Status :: status

definition reviewSAR ::
  "scope \<Rightarrow> account \<Rightarrow> (string \<times> string \<times> string list list) \<times> bool" where
  "reviewSAR spec account =
     (let allowed = MatchScope (Scopes account) spec;
          humanAllowed = (if allowed then ''can'' else ''cannot'')
      in ((Trust account, humanAllowed, AsLabels spec), allowed))"

definition NewSubjectAccessReview :: "request_ctx \<Rightarrow> scope \<Rightarrow> err + review" where
  "NewSubjectAccessReview ctx requested =
     (case scope_Validate requested of
        Some e \<Rightarrow> Inl (Errorf ''cannot create subject access review because scope is invalid'' [e])
      | None \<Rightarrow>
          (let account = GetTrust ctx in
           case reviewSAR requested account of
             (reason, allowed) \<Rightarrow>
               Inr \<lparr>Spec = requested,
                    Status = \<lparr>Account = account, Allowed = allowed, Reason = reason\<rparr>\<rparr>))"

section \<open>What a tree accepts\<close>

text \<open>A sequence of allowed labels covers a requested one of the same length, label by label.\<close>

definition covers :: "string list \<Rightarrow> string list \<Rightarrow> bool" where
  "covers allowed requested \<longleftrightarrow> list_all2 (\<lambda>a r. a = r \<or> a = Wildcard) allowed requested"

lemma covers_simps [simp]:
  "covers [] rs \<longleftrightarrow> rs = []" "covers (a # as) [] \<longleftrightarrow> False"
  "covers (a # as) (r # rs) \<longleftrightarrow> (a = r \<or> a = Wildcard) \<and> covers as rs"
  by (simp_all add: covers_def)

lemma Find_Cons:
  "Find (r # rs) (Node n) \<longleftrightarrow>
     (\<exists>m. map_of n r = Some m \<and> Find rs m) \<or> (\<exists>m. map_of n Wildcard = Some m \<and> Find rs m)"
  by (auto split: option.split)

lemma Find_empty: "Find rs (Node []) \<longleftrightarrow> rs = []"
  by (cases rs) simp_all

declare Find.simps(2) [simp del]

text \<open>
  Inserting a sequence of labels extends what is found, among the requests of its length, by
  exactly the requests it covers. This holds for every tree.
\<close>

lemma Find_Insert:
  "length rs = length labels \<Longrightarrow>
   Find rs (fst (Insert labels n)) \<longleftrightarrow> Find rs n \<or> covers labels rs"
proof (induction labels n arbitrary: rs rule: Insert.induct)
  case (1 n)
  then show ?case by simp
next
  case (2 label labels n)
  then obtain r rs' where rs: "rs = r # rs'" "length rs' = length labels" by (cases rs) auto
  show ?case
  proof (cases "map_of n label")
    case (Some node)
    obtain node' x where i: "Insert labels node = (node', x)" by (cases "Insert labels node")
    with "2.IH"(2) [OF Some rs(2)] have "Find rs' node' \<longleftrightarrow> Find rs' node \<or> covers labels rs'" by simp
    then show ?thesis using Some i by (auto simp: rs Find_Cons)
  next
    case None
    show ?thesis
    proof (cases "labels = []")
      case True
      then show ?thesis using None rs
        by (cases "map_of n Wildcard") (auto simp: Find_Cons Let_def)
    next
      case False
      obtain node' x where i: "Insert labels (Node []) = (node', x)"
        by (cases "Insert labels (Node [])")
      have "Find rs' node' \<longleftrightarrow> covers labels rs'"
        using "2.IH"(1) [OF None _ refl, of rs'] False i rs by (auto simp: Find_empty)
      then show ?thesis using None False i by (auto simp: rs Find_Cons Let_def)
    qed
  qed
qed

lemma Find_fold_Insert:
  assumes "\<forall>labels \<in> set lss. length labels = length rs"
  shows "Find rs (fold (\<lambda>labels root. fst (Insert labels root)) lss n) \<longleftrightarrow>
    Find rs n \<or> (\<exists>labels \<in> set lss. covers labels rs)"
  using assms by (induction lss arbitrary: n) (auto simp: Find_Insert)

lemma MatchScope_tree:
  "MatchScope allowed requested \<longleftrightarrow>
     list_all (\<lambda>labels. Find labels (fold (\<lambda>labels root. fst (Insert labels root))
       (concat (map AsLabels allowed)) (Node []))) (AsLabels requested)"
proof -
  have "fold (\<lambda>s root. fold (\<lambda>labels root. fst (Insert labels root)) (AsLabels s) root) allowed n =
      fold (\<lambda>labels root. fst (Insert labels root)) (concat (map AsLabels allowed)) n" for n
    by (induction allowed arbitrary: n) auto
  then show ?thesis by (simp add: MatchScope_def)
qed

lemma set_Basic_AsLabels:
  "Roles s \<noteq> [] \<Longrightarrow> set (Basic_AsLabels s) =
     {[t, e, a, r] | t e a r. t \<in> set (Teams s) \<and> e \<in> set (Environments s) \<and> a \<in> set (Actions s) \<and>
       r \<in> set (Roles s)}"
  by (auto simp: Basic_AsLabels_def)

lemma Basic_Validate_ok:
  "Basic_Validate s = None \<longleftrightarrow> Actions s \<noteq> [] \<and> Environments s \<noteq> [] \<and> Teams s \<noteq> [] \<and> Roles s \<noteq> []"
  by (simp add: Basic_Validate_def)

lemma Find_all_scopes:
  assumes "\<forall>s \<in> set allowed. \<forall>labels \<in> set (AsLabels s). length labels = length rs" "rs \<noteq> []"
  shows "Find rs (fold (\<lambda>labels root. fst (Insert labels root)) (concat (map AsLabels allowed)) (Node [])) \<longleftrightarrow>
    (\<exists>s \<in> set allowed. \<exists>labels \<in> set (AsLabels s). covers labels rs)"
  using Find_fold_Insert [of "concat (map AsLabels allowed)" rs "Node []"] assms
  by (auto simp: Find_empty)

section \<open>The trust a request carries\<close>

definition valid_account :: "account \<Rightarrow> bool" where
  "valid_account a \<longleftrightarrow> Trust a \<noteq> [] \<and> (\<forall>s \<in> set (Scopes a). scope_Validate s = None)"

lemma first_error_validates:
  "fold (\<lambda>s r. case r of Some e \<Rightarrow> Some e | None \<Rightarrow> scope_Validate s) ss r = None \<longleftrightarrow>
    r = None \<and> (\<forall>s \<in> set ss. scope_Validate s = None)"
  by (induction ss arbitrary: r) (auto split: option.split)

lemma Account_Validate_ok: "Account_Validate a = None \<longleftrightarrow> valid_account a"
  using first_error_validates [of "Scopes a" None] by (simp add: Account_Validate_def valid_account_def)

text \<open>Of the accounts offered for a request the last valid one stays in its context.\<close>

lemma SetTrust_sequence:
  assumes "\<nexists>a. ctx = Some (TrustAccount a)"
  shows "GetTrust (fold (\<lambda>a c. fst (SetTrustInGinContext a c)) as ctx) =
    (case find valid_account (rev as) of None \<Rightarrow> no_trust | Some a \<Rightarrow> a)"
proof (induction as rule: rev_induct)
  case Nil
  then show ?case using assms by (auto simp: GetTrust_def split: option.split trust_value.split)
next
  case (snoc a as)
  then show ?case
    using Account_Validate_ok [of a]
    by (auto simp: SetTrustInGinContext_def SetTrust_def GetTrust_def split: option.splits)
qed

lemma review_answer:
  "NewSubjectAccessReview ctx requested =
     (case scope_Validate requested of
        Some e \<Rightarrow> Inl (Errorf ''cannot create subject access review because scope is invalid'' [e])
      | None \<Rightarrow> Inr \<lparr>Spec = requested, Status =
          \<lparr>Account = GetTrust ctx, Allowed = MatchScope (Scopes (GetTrust ctx)) requested,
           Reason = (Trust (GetTrust ctx),
             if MatchScope (Scopes (GetTrust ctx)) requested then ''can'' else ''cannot'',
             AsLabels requested)\<rparr>\<rparr>)"
  by (simp add: NewSubjectAccessReview_def reviewSAR_def Let_def split: option.split)

section \<open>Properties\<close>

text \<open>
  C12. Soundness and completeness of \<open>MatchScope\<close>: when all scopes have labels of one depth, a
  request is allowed exactly when each of its label sequences is covered, label by label and up to
  wildcards, by some label sequence of an allowed scope. Neither the order in which the scopes are
  inserted nor the condensing of wildcards makes a difference.
\<close>

theorem MatchScope_iff_covered:
  assumes "\<forall>s \<in> insert requested (set allowed). \<forall>labels \<in> set (AsLabels s). length labels = d" "0 < d"
  shows "MatchScope allowed requested \<longleftrightarrow>
    (\<forall>rs \<in> set (AsLabels requested). \<exists>s \<in> set allowed. \<exists>labels \<in> set (AsLabels s). covers labels rs)"
proof -
  have "Find rs (fold (\<lambda>labels root. fst (Insert labels root)) (concat (map AsLabels allowed)) (Node [])) \<longleftrightarrow>
      (\<exists>s \<in> set allowed. \<exists>labels \<in> set (AsLabels s). covers labels rs)"
    if "rs \<in> set (AsLabels requested)" for rs
    using assms that by (intro Find_all_scopes) force+
  then show ?thesis by (simp add: MatchScope_tree list_all_iff)
qed

theorem MatchScope_iff_covered_witness:
  "MatchScope [basic \<lparr>Actions = [''*''], Environments = [''dev''], Teams = [''a''], Roles = [''user'']\<rparr>]
     (basic (NewScope ''GET'' ''dev'' ''a'' ''user'')) \<and>
   \<not> MatchScope [basic \<lparr>Actions = [''*''], Environments = [''dev''], Teams = [''a''], Roles = [''user'']\<rparr>]
     (basic (NewScope ''GET'' ''prd'' ''a'' ''user''))"
  using MatchScope_iff_covered [of "basic (NewScope ''GET'' ''dev'' ''a'' ''user'')"
      "[basic \<lparr>Actions = [''*''], Environments = [''dev''], Teams = [''a''], Roles = [''user'']\<rparr>]" 4]
    MatchScope_iff_covered [of "basic (NewScope ''GET'' ''prd'' ''a'' ''user'')"
      "[basic \<lparr>Actions = [''*''], Environments = [''dev''], Teams = [''a''], Roles = [''user'']\<rparr>]" 4]
  by (simp add: basic_def NewScope_def Basic_AsLabels_def Wildcard_def)

text \<open>
  C13. A review follows the trust that was put into the request. Let any accounts be offered to
  \<open>SetTrustInGinContext\<close>, in order, for a request that carries none, and let all scopes have labels
  of one depth. A valid request for at least one label sequence is then allowed exactly when one of
  the accounts is valid (a trust level, and every scope valid) and the last valid one has, for every
  label sequence requested, a scope that covers it; without a valid account nothing is allowed. An
  invalid request is refused with an error.
\<close>

theorem review_follows_trust:
  assumes "\<nexists>a. ctx = Some (TrustAccount a)" "AsLabels requested \<noteq> []" "0 < d"
    and "\<forall>s \<in> insert requested (\<Union>a \<in> set as. set (Scopes a)). \<forall>labels \<in> set (AsLabels s). length labels = d"
  shows "((\<exists>r. NewSubjectAccessReview (fold (\<lambda>a c. fst (SetTrustInGinContext a c)) as ctx) requested = Inr r \<and>
      Allowed (Status r)) \<longleftrightarrow>
    scope_Validate requested = None \<and>
    (\<exists>a. find (\<lambda>a. Trust a \<noteq> [] \<and> (\<forall>s \<in> set (Scopes a). scope_Validate s = None)) (rev as) = Some a \<and>
      (\<forall>rs \<in> set (AsLabels requested). \<exists>s \<in> set (Scopes a). \<exists>labels \<in> set (AsLabels s). covers labels rs))) \<and>
    (\<forall>e. scope_Validate requested = Some e \<longrightarrow>
      NewSubjectAccessReview (fold (\<lambda>a c. fst (SetTrustInGinContext a c)) as ctx) requested =
        Inl (Errorf ''cannot create subject access review because scope is invalid'' [e]))"
proof -
  have find: "find (\<lambda>a. Trust a \<noteq> [] \<and> (\<forall>s \<in> set (Scopes a). scope_Validate s = None)) xs = find valid_account xs"
    for xs by (simp add: valid_account_def [abs_def])
  have none: "\<not> MatchScope (Scopes no_trust) requested"
    using assms(2-4) by (cases "AsLabels requested") (auto simp: MatchScope_tree no_trust_def Find_empty)
  have match: "MatchScope (Scopes a) requested \<longleftrightarrow>
      (\<forall>rs \<in> set (AsLabels requested). \<exists>s \<in> set (Scopes a). \<exists>labels \<in> set (AsLabels s). covers labels rs)"
    if "a \<in> set as" for a
  proof -
    have "Find rs (fold (\<lambda>labels root. fst (Insert labels root)) (concat (map AsLabels (Scopes a))) (Node [])) \<longleftrightarrow>
        (\<exists>s \<in> set (Scopes a). \<exists>labels \<in> set (AsLabels s). covers labels rs)"
      if "rs \<in> set (AsLabels requested)" for rs
      using Find_all_scopes [of "Scopes a" rs] assms(3,4) that \<open>a \<in> set as\<close> by force
    then show ?thesis by (simp add: MatchScope_tree list_all_iff)
  qed
  show ?thesis
  proof (cases "find valid_account (rev as)")
    case None
    then show ?thesis using none
      by (auto simp: find review_answer SetTrust_sequence [OF assms(1)] split: option.split)
  next
    case (Some a)
    then have "a \<in> set as" by (metis find_Some_iff nth_mem set_rev length_rev)
    with Some match show ?thesis
      by (simp add: find review_answer SetTrust_sequence [OF assms(1)] split: option.split)
  qed
qed

theorem review_follows_trust_witness:
  "\<exists>r. NewSubjectAccessReview (fold (\<lambda>a c. fst (SetTrustInGinContext a c))
       [\<lparr>Trust = ''cert'', acc_Name = ''a'',
         Scopes = [basic \<lparr>Actions = [''*''], Environments = [''dev''], Teams = [''a''], Roles = [''user'']\<rparr>]\<rparr>,
        \<lparr>Trust = [], acc_Name = ''b'', Scopes = []\<rparr>] None)
     (basic (NewScope ''GET'' ''dev'' ''a'' ''user'')) = Inr r \<and> Allowed (Status r)"
  using review_follows_trust [where d = 4 and ctx = None and
      requested = "basic (NewScope ''GET'' ''dev'' ''a'' ''user'')" and
      as = "[\<lparr>Trust = ''cert'', acc_Name = ''a'',
         Scopes = [basic \<lparr>Actions = [''*''], Environments = [''dev''], Teams = [''a''], Roles = [''user'']\<rparr>]\<rparr>,
        \<lparr>Trust = [], acc_Name = ''b'', Scopes = []\<rparr>]"]
  by (simp add: basic_def NewScope_def Basic_Validate_def Basic_AsLabels_def Wildcard_def)

text \<open>
  Scopes of different depths do not mix: inserting a lone wildcard into a tree that has other
  labels removes their subtrees, so a longer sequence that was granted before is no longer found.
\<close>

theorem lone_wildcard_revokes_deeper_labels:
  assumes "map_of n Wildcard = None" "n \<noteq> []"
  shows "Find (a # b # rs) (fst (Insert [Wildcard] (Node n))) = False"
  using assms by (simp add: Let_def Find_Cons)

theorem lone_wildcard_revokes_deeper_labels_witness:
  "Find [''team'', ''dev''] (fst (Insert [''team'', ''dev''] (Node []))) \<and>
   \<not> Find [''team'', ''dev''] (fst (Insert [''*''] (fst (Insert [''team'', ''dev''] (Node [])))))"
  using lone_wildcard_revokes_deeper_labels [of "[(''team'', Node [(''dev'', Node [])])]" "''team''" "''dev''" "[]"]
  by (simp add: Wildcard_def Find_Cons)

end
