(* ===== verification/Strings.thy ===== *)
theory Strings
  imports Prelude
begin

text \<open>
  What the components use of Go's \<open>strings\<close>, \<open>strconv\<close> and \<open>net\<close>: searching, splitting and
  trimming, decimal numbers, and \<open>net.SplitHostPort\<close>. Strings are lists of bytes.
\<close>

section \<open>Searching and splitting\<close>

fun strings_Contains :: "string \<Rightarrow> string \<Rightarrow> bool" where
  "strings_Contains [] sub = (sub = [])"
| "strings_Contains (c # s) sub = (prefix sub (c # s) \<or> strings_Contains s sub)"

text \<open>\<open>strings.Split\<close> at a separator of one byte.\<close>

fun split_at :: "char \<Rightarrow> string \<Rightarrow> string list" where
  "split_at sep [] = [[]]"
| "split_at sep (c # s) =
     (if c = sep then [] # split_at sep s
      else case split_at sep s of [] \<Rightarrow> [[c]] | part # parts \<Rightarrow> (c # part) # parts)"

definition trim_left :: "(char \<Rightarrow> bool) \<Rightarrow> string \<Rightarrow> string" where
  "trim_left P s = dropWhile P s"

definition trim_right :: "(char \<Rightarrow> bool) \<Rightarrow> string \<Rightarrow> string" where
  "trim_right P s = rev (dropWhile P (rev s))"

definition is_space :: "char \<Rightarrow> bool" where
  "is_space c \<longleftrightarrow> c \<in> {CHR '' '', CHR 0x09, CHR 0x0A, CHR 0x0B, CHR 0x0C, CHR 0x0D}"

definition TrimSpace :: "string \<Rightarrow> string" where
  "TrimSpace s = trim_right is_space (trim_left is_space s)"

definition to_lower :: "char \<Rightarrow> char" where
  "to_lower c = (if CHR ''A'' \<le> c \<and> c \<le> CHR ''Z'' then char_of (of_char c + 32 :: nat) else c)"

definition ToLower :: "string \<Rightarrow> string" where
  "ToLower s = map to_lower s"

lemma strings_Contains_iff: "strings_Contains s sub \<longleftrightarrow> sublist sub s"
  by (induction s) (auto simp: sublist_Cons_right)

lemma split_at_ne [simp]: "split_at sep s \<noteq> []"
  by (induction s) (auto split: list.splits)

lemma split_at_join: "strings_Join (split_at sep s) [sep] = s"
proof (induction s)
  case (Cons c s)
  obtain p ps where "split_at sep s = p # ps" by (cases "split_at sep s") auto
  with Cons show ?case by (cases ps) auto
qed simp

lemma split_at_parts: "part \<in> set (split_at sep s) \<Longrightarrow> sep \<notin> set part"
  by (induction s arbitrary: part) (auto split: if_splits list.splits)

lemma split_at_single: "sep \<notin> set s \<Longrightarrow> split_at sep s = [s]"
  by (induction s) auto

lemma split_at_append:
  "sep \<notin> set s \<Longrightarrow> split_at sep (s @ sep # t) = s # split_at sep t"
  by (induction s) auto

section \<open>Decimal numbers\<close>

definition digit :: "nat \<Rightarrow> char" where
  "digit d = char_of (48 + d)"

definition digit_of :: "char \<Rightarrow> nat option" where
  "digit_of c = (if CHR ''0'' \<le> c \<and> c \<le> CHR ''9'' then Some (of_char c - 48) else None)"

fun itoa :: "nat \<Rightarrow> string" where
  "itoa n = (if n < 10 then [digit n] else itoa (n div 10) @ [digit (n mod 10)])"

declare itoa.simps [simp del]

fun digits_value :: "nat \<Rightarrow> string \<Rightarrow> nat option" where
  "digits_value acc [] = Some acc"
| "digits_value acc (c # s) =
     (case digit_of c of None \<Rightarrow> None | Some d \<Rightarrow> digits_value (10 * acc + d) s)"

text \<open>\<open>strconv.Atoi\<close>: an optional sign, digits, and the range of \<open>int64\<close>.\<close>

definition Atoi :: "string \<Rightarrow> int option" where
  "Atoi s =
     (let neg = (s \<noteq> [] \<and> hd s = CHR ''-'');
          ds = (if s \<noteq> [] \<and> (hd s = CHR ''-'' \<or> hd s = CHR ''+'') then tl s else s)
      in if ds = [] then None
         else case digits_value 0 ds of
             None \<Rightarrow> None
           | Some n \<Rightarrow>
               (let i = (if neg then - int n else int n) in
                if - (2 ^ 63) \<le> i \<and> i < 2 ^ 63 then Some i else None))"

lemma of_digit: "d < 10 \<Longrightarrow> digit_of (digit d) = Some d"
proof -
  assume "d < 10"
  then have "d \<in> {0, 1, 2, 3, 4, 5, 6, 7, 8, 9}" by auto
  then show ?thesis by (auto simp: digit_of_def digit_def less_eq_char_def)
qed

lemma digits_value_append:
  "digits_value acc (s @ t) = (case digits_value acc s of None \<Rightarrow> None | Some n \<Rightarrow> digits_value n t)"
  by (induction s arbitrary: acc) (auto split: option.splits)

lemma itoa_ne [simp]: "itoa n \<noteq> []"
  by (subst itoa.simps) simp

lemma digits_value_itoa: "digits_value 0 (itoa n) = Some n"
proof (induction n rule: itoa.induct)
  case (1 n)
  then show ?case
    by (subst itoa.simps) (auto simp: digits_value_append of_digit)
qed

lemma itoa_digit: "c \<in> set (itoa n) \<Longrightarrow> digit_of c \<noteq> None"
proof (induction n rule: itoa.induct)
  case (1 n)
  then show ?case
    by (subst (asm) (2) itoa.simps) (auto simp: of_digit split: if_splits)
qed

lemma Atoi_itoa: "n < 2 ^ 63 \<Longrightarrow> Atoi (itoa n) = Some (int n)"
proof -
  assume n: "n < 2 ^ 63"
  have "digit_of (hd (itoa n)) \<noteq> None" by (rule itoa_digit [OF hd_in_set]) simp
  then have "hd (itoa n) \<noteq> CHR ''-'' \<and> hd (itoa n) \<noteq> CHR ''+''"
    by (auto simp: digit_of_def less_eq_char_def split: if_splits)
  moreover have "int n < 2 ^ 63" using n by simp
  ultimately show ?thesis by (simp add: Atoi_def digits_value_itoa)
qed

lemma itoa_no_colon: "CHR '':'' \<notin> set (itoa n)"
  using itoa_digit [of "CHR '':''" n] by (auto simp: digit_of_def less_eq_char_def)

section \<open>Host and port\<close>

text \<open>The parts before and after the last colon.\<close>

definition cut_last :: "char \<Rightarrow> string \<Rightarrow> (string \<times> string) option" where
  "cut_last sep s =
     (if sep \<in> set s then
        Some (rev (tl (dropWhile (\<lambda>c. c \<noteq> sep) (rev s))), rev (takeWhile (\<lambda>c. c \<noteq> sep) (rev s)))
      else None)"

text \<open>
  \<open>net.SplitHostPort\<close>; \<open>None\<close> stands for each of its errors. A host in brackets may hold colons,
  the brackets may not occur elsewhere.
\<close>

definition SplitHostPort :: "string \<Rightarrow> (string \<times> string) option" where
  "SplitHostPort hostport =
     (case cut_last (CHR '':'') hostport of
        None \<Rightarrow> None
      | Some (host, port) \<Rightarrow>
          if hostport \<noteq> [] \<and> hd hostport = CHR ''['' then
            (let inner = takeWhile (\<lambda>c. c \<noteq> CHR '']'') (tl hostport)
             in if CHR '']'' \<notin> set hostport then None
                else if host \<noteq> CHR ''['' # inner @ [CHR '']''] then None
                else if CHR ''['' \<in> set inner \<or> CHR ''['' \<in> set port \<or> CHR '']'' \<in> set port then None
                else Some (inner, port))
          else if CHR '':'' \<in> set host then None
          else if CHR ''['' \<in> set hostport \<or> CHR '']'' \<in> set hostport then None
          else Some (host, port))"

lemma cut_last_append:
  assumes "sep \<notin> set port"
  shows "cut_last sep (host @ sep # port) = Some (host, port)"
proof -
  have d: "dropWhile (\<lambda>c. c \<noteq> sep) (rev (host @ sep # port)) = sep # rev host"
    using assms by (subst rev_append, simp, subst dropWhile_append2) auto
  have t: "takeWhile (\<lambda>c. c \<noteq> sep) (rev (host @ sep # port)) = rev port"
    using assms by (subst rev_append, simp, subst takeWhile_append2) auto
  show ?thesis by (simp only: cut_last_def d t) simp
qed

text \<open>\<open>utils.ExtractHostPort\<close>: the host, the port and the error.\<close>

definition ExtractHostPort :: "string \<Rightarrow> string \<times> int \<times> bool" where
  "ExtractHostPort addr =
     (if addr = [] then ([], 0, True)
      else case SplitHostPort addr of
          Some (host, portStr) \<Rightarrow>
            (case Atoi portStr of Some p \<Rightarrow> (host, p, False) | None \<Rightarrow> (host, 0, True))
        | None \<Rightarrow>
            if hd addr = CHR '':'' then
              (case Atoi (tl addr) of Some p \<Rightarrow> ([], p, False) | None \<Rightarrow> ([], 0, True))
            else (addr, 0, False))"

lemma SplitHostPort_plain:
  assumes "CHR '':'' \<notin> set host" "CHR ''['' \<notin> set host" "CHR '']'' \<notin> set host"
    and "CHR '':'' \<notin> set port" "CHR ''['' \<notin> set port" "CHR '']'' \<notin> set port"
  shows "SplitHostPort (host @ CHR '':'' # port) = Some (host, port)"
proof -
  have "hd (host @ CHR '':'' # port) \<noteq> CHR ''[''" using assms(2) by (cases host) auto
  then show ?thesis using assms by (simp add: SplitHostPort_def cut_last_append)
qed

lemma ExtractHostPort_plain:
  assumes "CHR '':'' \<notin> set host" "CHR ''['' \<notin> set host" "CHR '']'' \<notin> set host" "n < 2 ^ 63"
  shows "ExtractHostPort (host @ CHR '':'' # itoa n) = (host, int n, False)"
proof -
  have "CHR ''['' \<notin> set (itoa n)" "CHR '']'' \<notin> set (itoa n)"
    using itoa_digit [of "CHR ''[''" n] itoa_digit [of "CHR '']''" n]
    by (auto simp: digit_of_def less_eq_char_def)
  with assms itoa_no_colon [of n] show ?thesis
    by (simp add: ExtractHostPort_def SplitHostPort_plain Atoi_itoa)
qed

end
