(* ===== verification/HTTP_Client.thy ===== *)
theory HTTP_Client
  imports Retry
begin

text \<open>
  The HTTP client: \<open>pkg/http\<close>, \<open>pkg/http/response\<close>, \<open>pkg/http/tripperware\<close> and the options of
  \<open>pkg/config\<close>.

  A request is a record of what the code sets on it. An \<open>Endpoint\<close> takes a request to a response
  and may change the state \<open>'s\<close> of the world (the servers it talks to). The standard library's
  \<open>http.NewRequestWithContext\<close>, \<open>Client.Do\<close>, JSON codec, query encoding, header canonicalisation
  and base64 are arguments, and so are the circuit breaker and the rate limiter, which are third
  party. Contexts matter here only through \<open>pkg/retry\<close>.
\<close>

section \<open>Options of \<open>pkg/config\<close>\<close>

text \<open>An option changes the object it is applied to or fails; \<open>None\<close> is a \<open>nil\<close> option.\<close>

type_synonym 't cfg_option = "'t \<Rightarrow> err + 't"

fun ApplyOpts :: "'t \<Rightarrow> 't cfg_option option list \<Rightarrow> err + 't" where
  "ApplyOpts base [] = Inr base"
| "ApplyOpts base (None # opts) = ApplyOpts base opts"
| "ApplyOpts base (Some o' # opts) =
     (case o' base of Inl e \<Rightarrow> Inl e | Inr base \<Rightarrow> ApplyOpts base opts)"

definition NewOptions :: "'t cfg_option list \<Rightarrow> 't cfg_option option list" where
  "NewOptions opts = map Some opts"

fun ChainValidations :: "(unit \<Rightarrow> err option) list \<Rightarrow> err option" where
  "ChainValidations [] = None"
| "ChainValidations (configuration # configurations) =
     (case configuration () of Some e \<Rightarrow> Some e | None \<Rightarrow> ChainValidations configurations)"

section \<open>Requests and responses\<close>

type_synonym headers = "(string, string list) gomap"

record request =
  req_Method :: string
  req_URL :: string
  RawQuery :: string
  Header :: headers
  Body :: "string option"

record data =
  Headers :: headers
  Raw :: string
  Status :: int
  Err :: "err option"

definition err_data :: "err \<Rightarrow> data" where
  "err_data e = \<lparr>Headers = [], Raw = [], Status = 0, Err = Some e\<rparr>"

definition Parse_data :: "(string \<Rightarrow> err + 'v) \<Rightarrow> data \<Rightarrow> data \<times> 'v option" where
  "Parse_data dec r =
     (if Err r = None then
        (case dec (Raw r) of
           Inl e \<Rightarrow> (r\<lparr>Err := Some e\<rparr>, None)
         | Inr v \<Rightarrow> (r\<lparr>Err := None\<rparr>, Some v))
      else (r, None))"

definition MustParse :: "(string \<Rightarrow> bool) \<Rightarrow> (string \<Rightarrow> err + 'v) \<Rightarrow> data \<Rightarrow> data \<times> (err + 'v)" where
  "MustParse json_Valid dec r =
     (if length (Raw r) = 0 \<or> \<not> json_Valid (Raw r) then
        (r, Inl (Errorf ''failed to parse request payload'' [Sentinel ErrInvalidResponse]))
      else (r, dec (Raw r)))"

definition IsOK :: "data \<Rightarrow> bool" where
  "IsOK r \<longleftrightarrow> Err r = None \<and> StatusCodeAsErr (Status r) = None"

definition Error :: "data \<Rightarrow> err option" where
  "Error r =
     (if IsOK r then None
      else case Err r of Some e \<Rightarrow> Some e | None \<Rightarrow> StatusCodeAsErr (Status r))"

section \<open>Request options\<close>

definition WithBasicAuth :: "(string \<Rightarrow> string \<Rightarrow> string) \<Rightarrow> string \<Rightarrow> string \<Rightarrow> request cfg_option" where
  "WithBasicAuth basicAuth username password request =
     Inr (request\<lparr>Header := AList.update ''Authorization'' [''Basic '' @ basicAuth username password]
        (Header request)\<rparr>)"

definition TrimSuffix :: "string \<Rightarrow> string \<Rightarrow> string" where
  "TrimSuffix s suff = (if suffix suff s then take (length s - length suff) s else s)"

definition WithBasicAuthEnv ::
  "(string \<Rightarrow> string \<Rightarrow> string) \<Rightarrow> (string \<Rightarrow> string) \<Rightarrow> string \<Rightarrow> string \<Rightarrow> request cfg_option" where
  "WithBasicAuthEnv basicAuth Getenv envUser envPass request =
     (if Getenv envUser = [] then
        Inl (Errorf (envUser @ '' is not set'') [Sentinel ErrEnvironmentVariable])
      else if Getenv envPass = [] then
        Inl (Errorf (envPass @ '' is not set'') [Sentinel ErrEnvironmentVariable])
      else WithBasicAuth basicAuth (TrimSuffix (Getenv envUser) [CHR 0x0A])
        (TrimSuffix (Getenv envPass) [CHR 0x0A]) request)"

text \<open>\<open>kubeconfig\<close> is the bearer token of \<open>ctrl.GetConfig()\<close>.\<close>

definition WithBearerAuth :: "err + string \<Rightarrow> string \<Rightarrow> request cfg_option" where
  "WithBearerAuth kubeconfig token request =
     (if token \<noteq> [] then
        Inr (request\<lparr>Header := AList.update ''Authorization'' [''Bearer '' @ token] (Header request)\<rparr>)
      else case kubeconfig of
          Inl e \<Rightarrow> Inl (Errorf ''failed to get kubeconfig'' [e])
        | Inr t \<Rightarrow>
            Inr (request\<lparr>Header := AList.update ''Authorization'' [''Bearer '' @ t] (Header request)\<rparr>))"

definition WithHeaders :: "(string \<Rightarrow> string) \<Rightarrow> (string, string) gomap \<Rightarrow> request cfg_option" where
  "WithHeaders canonical headers request =
     Inr (request\<lparr>Header :=
       fold (\<lambda>(header, val) h. AList.update (canonical header) [val] h) headers (Header request)\<rparr>)"

definition WithAddHeaders :: "(string \<Rightarrow> string) \<Rightarrow> (string, string) gomap \<Rightarrow> request cfg_option" where
  "WithAddHeaders canonical headers request =
     Inr (request\<lparr>Header :=
       fold (\<lambda>(header, val) h. AList.update (canonical header)
           ((case map_of h (canonical header) of None \<Rightarrow> [] | Some vs \<Rightarrow> vs) @ [val]) h)
         headers (Header request)\<rparr>)"

text \<open>\<open>parse_query\<close> and \<open>encode_query\<close> are \<open>URL.Query\<close> and \<open>Values.Encode\<close>.\<close>

definition WithParams ::
  "(string \<Rightarrow> (string, string list) gomap) \<Rightarrow> ((string, string list) gomap \<Rightarrow> string) \<Rightarrow>
   (string, string) gomap \<Rightarrow> request cfg_option" where
  "WithParams parse_query encode_query params request =
     Inr (request\<lparr>RawQuery := encode_query
       (fold (\<lambda>(param, val) q. AList.update param
           ((case map_of q param of None \<Rightarrow> [] | Some vs \<Rightarrow> vs) @ [val]) q)
         params (parse_query (RawQuery request)))\<rparr>)"

definition WithRawQuery :: "string \<Rightarrow> request cfg_option" where
  "WithRawQuery rawQuery request = Inr (request\<lparr>RawQuery := rawQuery\<rparr>)"

section \<open>Tripperware\<close>

type_synonym 's endpoint = "request \<Rightarrow> 's \<Rightarrow> 's \<times> data"

type_synonym 's tripperware = "'s endpoint \<Rightarrow> 's endpoint"

definition Chain :: "'s tripperware \<Rightarrow> 's tripperware list \<Rightarrow> 's tripperware" where
  "Chain outer others next' = outer (fold (\<lambda>other next'. other next') (rev others) next')"

subsection \<open>Retries\<close>

record retrier =
  RetryableErrorFn :: "err \<Rightarrow> bool"
  Backoff :: "delays backoff"

definition WithRetryableErrorFn :: "(err \<Rightarrow> bool) \<Rightarrow> retrier cfg_option" where
  "WithRetryableErrorFn fn r = Inr (r\<lparr>RetryableErrorFn := fn\<rparr>)"

definition WithBackoff :: "delays backoff \<Rightarrow> retrier cfg_option" where
  "WithBackoff b r = Inr (r\<lparr>Backoff := b\<rparr>)"

record retrier_config =
  Retries :: int
  rc_Duration :: int

definition DefaultRetryAttempts :: int where
  "DefaultRetryAttempts = 3"

definition DefaultRetryDelay :: int where
  "DefaultRetryDelay = 100000000"

definition ApplyDefaultRetrierConfig :: "retrier_config \<Rightarrow> retrier_config" where
  "ApplyDefaultRetrierConfig c =
     (let c = (if Retries c = 0 then c\<lparr>Retries := DefaultRetryAttempts\<rparr> else c)
      in if rc_Duration c = 0 then c\<lparr>rc_Duration := DefaultRetryDelay\<rparr> else c)"

definition DefaultRetrierConfig :: retrier_config where
  "DefaultRetrierConfig = ApplyDefaultRetrierConfig \<lparr>Retries = 0, rc_Duration = 0\<rparr>"

definition RetrierConfig_Validate :: "retrier_config \<Rightarrow> err option" where
  "RetrierConfig_Validate c =
     (if Retries c \<le> 0 then
        Some (new_error ''invalid retrier config: retries must be greater than zero'')
      else if rc_Duration c \<le> 0 then
        Some (new_error ''invalid retrier config: duration must be greater than zero'')
      else None)"

definition IsRetryable :: "err \<Rightarrow> bool" where
  "IsRetryable e = IsRetryableError (Some e)"

definition NewRetrierForConfig ::
  "retrier_config option \<Rightarrow> retrier cfg_option option list \<Rightarrow> err + retrier" where
  "NewRetrierForConfig c opts =
     (case c of
        None \<Rightarrow> Inl (new_error ''config is nil'')
      | Some c \<Rightarrow>
          (let cfg = ApplyDefaultRetrierConfig c in
           case RetrierConfig_Validate cfg of
             Some e \<Rightarrow> Inl (Errorf ''invalid retrier config'' [e])
           | None \<Rightarrow>
               (case ApplyOpts \<lparr>RetryableErrorFn = IsRetryable,
                    Backoff = NewDefaultBackoff (Retries cfg) (rc_Duration cfg)\<rparr> opts of
                  Inl e \<Rightarrow> Inl (Errorf ''failed to apply retrier options'' [e])
                | Inr r \<Rightarrow> Inr r)))"

text \<open>
  The closure assigns \<open>resp\<close>, which is the second component of the state of the retried function.
  A clone has the body of the original, which is buffered.
\<close>

definition Retrier_fn ::
  "'s endpoint \<Rightarrow> request \<Rightarrow> 's \<times> data option \<Rightarrow> ('s \<times> data option) \<times> err option" where
  "Retrier_fn next' request = (\<lambda>(s, _).
     case next' request s of (s, resp) \<Rightarrow> ((s, Some resp), Error resp))"

definition Retrier_Tripperware ::
  "(err \<Rightarrow> bool) \<Rightarrow> 's ctx \<Rightarrow> (delays backoff \<Rightarrow> delays backoff \<times> nat) \<Rightarrow> retrier \<Rightarrow>
   's endpoint \<Rightarrow> request \<Rightarrow> 's \<Rightarrow> ('s \<times> data option) option" where
  "Retrier_Tripperware Interrupted ctx Step r next' request s =
     (case OnError Interrupted (lift_ctx ctx) Step (Backoff r)
         (\<lambda>e s. (s, RetryableErrorFn r e)) (Retrier_fn next' request) (s, None) of
        None \<Rightarrow> None
      | Some ((s, resp), e) \<Rightarrow>
          Some (s, case resp of None \<Rightarrow> None
            | Some resp \<Rightarrow> Some (if Err resp = None then resp\<lparr>Err := e\<rparr> else resp)))"

subsection \<open>Circuit breakers and rate limits per host\<close>

text \<open>
  The pool of breakers is a map from hosts to breakers of type \<open>'b\<close>; \<open>Execute\<close> and
  \<open>NewCircuitBreaker\<close> belong to \<open>gobreaker\<close>. \<open>Execute\<close> gets the function, which returns the
  response and the error \<open>nil\<close>; it may also answer with an error of its own and no value. The type
  assertion on the result panics when there is none, here \<open>None\<close>. \<open>url_Host\<close> is
  \<open>url.Parse(request.URL.String())\<close>.
\<close>

type_synonym ('b, 's) execute =
  "'b \<Rightarrow> ('s \<Rightarrow> 's \<times> data option \<times> err option) \<Rightarrow> 's \<Rightarrow> 'b \<times> 's \<times> data option \<times> err option"

definition GetBreakerWithSettings ::
  "'b \<Rightarrow> string \<Rightarrow> (string, 'b) gomap \<Rightarrow> 'b \<times> (string, 'b) gomap" where
  "GetBreakerWithSettings NewCircuitBreaker host pool =
     (case map_of pool host of
        Some b \<Rightarrow> (b, pool)
      | None \<Rightarrow> (NewCircuitBreaker, AList.update host NewCircuitBreaker pool))"

definition Breaker_Tripperware ::
  "(request \<Rightarrow> err + string) \<Rightarrow> 'b \<Rightarrow> ('b, 's) execute \<Rightarrow> 's endpoint \<Rightarrow> request \<Rightarrow>
   (string, 'b) gomap \<Rightarrow> 's \<Rightarrow> ((string, 'b) gomap \<times> 's \<times> data) option" where
  "Breaker_Tripperware url_Host NewCircuitBreaker Execute next' request pool s =
     (case url_Host request of
        Inl e \<Rightarrow> Some (pool, s, err_data e)
      | Inr host \<Rightarrow>
          (case GetBreakerWithSettings NewCircuitBreaker host pool of (b, pool) \<Rightarrow>
           case Execute b (\<lambda>s. case next' request s of (s, r) \<Rightarrow> (s, Some r, None)) s of
             (b, s, Some resp, _) \<Rightarrow> Some (AList.update host b pool, s, resp)
           | (b, s, None, _) \<Rightarrow> None))"

definition GetRateLimitWithSettings ::
  "(int \<times> int \<Rightarrow> 'l) \<Rightarrow> (string, int \<times> int) gomap \<Rightarrow> int \<times> int \<Rightarrow> string \<Rightarrow>
   (string, 'l) gomap \<Rightarrow> 'l \<times> (string, 'l) gomap" where
  "GetRateLimitWithSettings NewLimiter endpoints dflt name pool =
     (case map_of pool name of
        Some limiter \<Rightarrow> (limiter, pool)
      | None \<Rightarrow>
          (let endpointDefault =
             (case map_of endpoints name of None \<Rightarrow> dflt | Some x \<Rightarrow> x);
             limiter = NewLimiter endpointDefault
           in (limiter, AList.update name limiter pool)))"

definition RateLimiter_Tripperware ::
  "(request \<Rightarrow> err + string) \<Rightarrow> (int \<times> int \<Rightarrow> 'l) \<Rightarrow> ('l \<Rightarrow> 's \<Rightarrow> 'l \<times> 's \<times> err option) \<Rightarrow>
   (string, int \<times> int) gomap \<Rightarrow> int \<times> int \<Rightarrow> 's endpoint \<Rightarrow> request \<Rightarrow>
   (string, 'l) gomap \<Rightarrow> 's \<Rightarrow> (string, 'l) gomap \<times> 's \<times> data" where
  "RateLimiter_Tripperware url_Host NewLimiter Wait endpoints dflt next' request pool s =
     (case url_Host request of
        Inl e \<Rightarrow> (pool, s, err_data e)
      | Inr host \<Rightarrow>
          (case GetRateLimitWithSettings NewLimiter endpoints dflt host pool of (l, pool) \<Rightarrow>
           case Wait l s of
             (l, s, Some e) \<Rightarrow> (AList.update host l pool, s, err_data e)
           | (l, s, None) \<Rightarrow>
               (case next' request s of (s, resp) \<Rightarrow> (AList.update host l pool, s, resp))))"

section \<open>The client\<close>

text \<open>The dynamic types of a request body that \<open>build\<close> distinguishes.\<close>

datatype 'v payload = PRequest request | PBytes string | PNil | PValue 'v

record http_response =
  resp_Status :: int
  resp_Header :: headers
  resp_Body :: "string \<times> err option"

text \<open>
  What the client uses of \<open>net/http\<close> and \<open>encoding/json\<close>: \<open>NewRequestWithContext\<close>, \<open>Do\<close>
  (\<open>resp_Body\<close> is what \<open>io.ReadAll\<close> returns of the body) and \<open>Marshal\<close>.
\<close>

record ('s, 'v) net =
  NewRequest :: "string \<Rightarrow> string \<Rightarrow> string option \<Rightarrow> err + request"
  Do :: "request \<Rightarrow> 's \<Rightarrow> 's \<times> (err + http_response)"
  Marshal :: "'v \<Rightarrow> err + string"

record ('s, 'v) http_client =
  cl_Http :: "('s, 'v) net"
  Tripperware :: "'s tripperware"
  DefaultRequestOptions :: "request cfg_option option list"

definition build :: "('s, 'v) net \<Rightarrow> string \<Rightarrow> string \<Rightarrow> 'v payload \<Rightarrow> err + request" where
  "build N method url request =
     (case request of
        PRequest v \<Rightarrow> Inr v
      | PBytes v \<Rightarrow> NewRequest N method url (Some v)
      | PNil \<Rightarrow> NewRequest N method url None
      | PValue x \<Rightarrow>
          (case Marshal N x of
             Inl marshalErr \<Rightarrow> Inl marshalErr
           | Inr raw \<Rightarrow> NewRequest N method url (Some raw)))"

definition send :: "('s, 'v) net \<Rightarrow> 's endpoint" where
  "send N request s =
     (case Do N request s of
        (s, Inl e) \<Rightarrow> (s, err_data e)
      | (s, Inr resp) \<Rightarrow>
          (s, \<lparr>Headers = resp_Header resp, Raw = fst (resp_Body resp), Status = resp_Status resp,
               Err = snd (resp_Body resp)\<rparr>))"

definition do_request ::
  "('s, 'v) http_client \<Rightarrow> string \<Rightarrow> string \<Rightarrow> 'v payload \<Rightarrow> request cfg_option option list \<Rightarrow>
   's \<Rightarrow> 's \<times> data" where
  "do_request c method url request options s =
     (case build (cl_Http c) method url request of
        Inl e \<Rightarrow> (s, err_data (Errorf (method @ '' '' @ url) [Sentinel ErrBuildRequest]))
      | Inr req \<Rightarrow>
          (case ApplyOpts req (DefaultRequestOptions c @ options) of
             Inl e \<Rightarrow> (s, err_data (Errorf [] [Sentinel ErrFailedRequestOption]))
           | Inr req \<Rightarrow> Tripperware c (send (cl_Http c)) req s))"

definition Exec_request ::
  "('s, 'v) http_client \<Rightarrow> request \<Rightarrow> request cfg_option option list \<Rightarrow> 's \<Rightarrow> 's \<times> data" where
  "Exec_request c req options = do_request c (req_Method req) (req_URL req) (PRequest req) options"

definition http_Get ::
  "('s, 'v) http_client \<Rightarrow> string \<Rightarrow> request cfg_option option list \<Rightarrow> 's \<Rightarrow> 's \<times> data" where
  "http_Get c url options = do_request c ''GET'' url PNil options"

definition http_Post ::
  "('s, 'v) http_client \<Rightarrow> string \<Rightarrow> 'v payload \<Rightarrow> request cfg_option option list \<Rightarrow> 's \<Rightarrow> 's \<times> data" where
  "http_Post c url request options = do_request c ''POST'' url request options"

definition http_Put ::
  "('s, 'v) http_client \<Rightarrow> string \<Rightarrow> 'v payload \<Rightarrow> request cfg_option option list \<Rightarrow> 's \<Rightarrow> 's \<times> data" where
  "http_Put c url request options = do_request c ''PUT'' url request options"

definition http_Patch ::
  "('s, 'v) http_client \<Rightarrow> string \<Rightarrow> 'v payload \<Rightarrow> request cfg_option option list \<Rightarrow> 's \<Rightarrow> 's \<times> data" where
  "http_Patch c url request options = do_request c ''PATCH'' url request options"

definition http_Delete ::
  "('s, 'v) http_client \<Rightarrow> string \<Rightarrow> 'v payload \<Rightarrow> request cfg_option option list \<Rightarrow> 's \<Rightarrow> 's \<times> data" where
  "http_Delete c url request options = do_request c ''DELETE'' url request options"

definition http_Head ::
  "('s, 'v) http_client \<Rightarrow> string \<Rightarrow> request cfg_option option list \<Rightarrow> 's \<Rightarrow> 's \<times> data" where
  "http_Head c url options = do_request c ''HEAD'' url PNil options"

definition http_Options ::
  "('s, 'v) http_client \<Rightarrow> string \<Rightarrow> request cfg_option option list \<Rightarrow> 's \<Rightarrow> 's \<times> data" where
  "http_Options c url options = do_request c ''OPTIONS'' url PNil options"

definition http_Trace ::
  "('s, 'v) http_client \<Rightarrow> string \<Rightarrow> request cfg_option option list \<Rightarrow> 's \<Rightarrow> 's \<times> data" where
  "http_Trace c url options = do_request c ''TRACE'' url PNil options"

text \<open>
  \<open>NewClient\<close> starts without tripperware and applies the client options. \<open>Await\<close> polls; \<open>sleep\<close>
  is what may happen in between.
\<close>

definition NewClient ::
  "('s, 'v) net \<Rightarrow> ('s, 'v) http_client cfg_option option list \<Rightarrow> err + ('s, 'v) http_client" where
  "NewClient N opts =
     (case ApplyOpts \<lparr>cl_Http = N, Tripperware = (\<lambda>endpoint. endpoint), DefaultRequestOptions = []\<rparr> opts of
        Inl e \<Rightarrow> Inl (Errorf ''failed to apply client options'' [e])
      | Inr client \<Rightarrow> Inr client)"

definition client_With ::
  "('s, 'v) http_client \<Rightarrow> ('s, 'v) http_client cfg_option option list \<Rightarrow> err + ('s, 'v) http_client" where
  "client_With c opts = ApplyOpts c opts"

definition WithTripperware :: "'s tripperware \<Rightarrow> ('s, 'v) http_client cfg_option" where
  "WithTripperware chain c = Inr (c\<lparr>Tripperware := chain\<rparr>)"

definition WithRequestOptions ::
  "request cfg_option option list \<Rightarrow> ('s, 'v) http_client cfg_option" where
  "WithRequestOptions opts c = Inr (c\<lparr>DefaultRequestOptions := opts\<rparr>)"

fun Await_loop ::
  "('s, 'v) http_client \<Rightarrow> (int \<Rightarrow> 's \<Rightarrow> 's) \<Rightarrow> int \<Rightarrow> string \<Rightarrow> (data \<Rightarrow> bool) \<Rightarrow> nat \<Rightarrow> 's \<Rightarrow>
   's \<times> err option" where
  "Await_loop c sleep delay url ready 0 s = (s, Some (new_error ''timed out awaiting status change''))"
| "Await_loop c sleep delay url ready (Suc n) s =
     (case http_Get c url [] s of (s, resp) \<Rightarrow>
        if ready resp then (s, None) else Await_loop c sleep delay url ready n (sleep delay s))"

definition Await ::
  "('s, 'v) http_client \<Rightarrow> (int \<Rightarrow> 's \<Rightarrow> 's) \<Rightarrow> string \<Rightarrow> (data \<Rightarrow> bool) \<Rightarrow> (int \<times> int) list \<Rightarrow> 's \<Rightarrow>
   's \<times> err option" where
  "Await c sleep url ready awaitOpt s =
     (case (case awaitOpt of [] \<Rightarrow> (5000000000, 100) | x # _ \<Rightarrow> x) of
        (delay, steps) \<Rightarrow> Await_loop c sleep delay url ready (nat steps) s)"

section \<open>Attempts of a retrying client\<close>

text \<open>
  The specification: send up to \<open>n\<close> times, stop at the first response without an error or with
  one that is not retriable, and return the last response with its error recorded.
\<close>

fun sends :: "(err \<Rightarrow> bool) \<Rightarrow> 's endpoint \<Rightarrow> request \<Rightarrow> nat \<Rightarrow> 's \<Rightarrow> 's \<times> data" where
  "sends retriable next' request 0 s = next' request s"
| "sends retriable next' request (Suc n) s =
     (case next' request s of (s, resp) \<Rightarrow>
        if n = 0 \<or> (case Error resp of None \<Rightarrow> True | Some e \<Rightarrow> \<not> retriable e)
        then (s, resp\<lparr>Err := Error resp\<rparr>)
        else sends retriable next' request n s)"

lemma Error_Err: "Err resp = Some e \<Longrightarrow> Error resp = Some e"
  by (simp add: Error_def IsOK_def)

lemma tries_sends:
  "tries retriable (Retrier_fn next' request) (Suc n) (s, r) = ((s', resp), e) \<Longrightarrow>
   \<exists>d. resp = Some d \<and> sends retriable next' request (Suc n) s = (s', d\<lparr>Err := e\<rparr>) \<and> Error d = e"
proof (induction n arbitrary: s r)
  case 0
  then show ?case by (auto simp: Retrier_fn_def split: prod.splits option.splits if_splits)
next
  case (Suc n)
  obtain s1 d where n: "next' request s = (s1, d)" by (cases "next' request s")
  show ?case
  proof (cases "\<exists>x. Error d = Some x \<and> retriable x")
    case True
    with Suc.prems n have "tries retriable (Retrier_fn next' request) (Suc n) (s1, Some d) = ((s', resp), e)"
      by (auto simp: Retrier_fn_def)
    from Suc.IH [OF this] True n show ?thesis by auto
  next
    case False
    with Suc.prems n show ?thesis
      by (auto simp: Retrier_fn_def split: option.splits)
  qed
qed

section \<open>Properties\<close>

text \<open>
  The retrying tripperware always answers when its context is not cancelled: it sends the
  request until a response has no error or one that is not retriable, at most \<open>Steps\<close> times, and
  returns that response with its transport or status error in \<open>Err\<close>.
\<close>

theorem Retrier_sends_until_final:
  assumes "one_step Step" "\<not> bo_RunForever (Backoff r)" "0 < bo_Steps (Backoff r)"
    and "Interrupted (Sentinel ErrWaitTimeout)" "\<And>e. \<not> RetryableErrorFn r e \<Longrightarrow> \<not> Interrupted e"
  shows "Retrier_Tripperware Interrupted background Step r next' request s =
    Some (case sends (RetryableErrorFn r) next' request (nat (bo_Steps (Backoff r))) s of
      (s', resp) \<Rightarrow> (s', Some resp))"
proof -
  obtain n where n: "nat (bo_Steps (Backoff r)) = Suc n" using assms(3) by (metis Suc_pred zero_less_nat_eq)
  obtain s' resp e where t: "tries (RetryableErrorFn r) (Retrier_fn next' request) (Suc n) (s, None) =
      ((s', resp), e)" by (metis prod.exhaust)
  from tries_sends [OF t] obtain d where
    d: "resp = Some d" "sends (RetryableErrorFn r) next' request (Suc n) s = (s', d\<lparr>Err := e\<rparr>)"
      "Error d = e" by blast
  have "(if Err d = None then d\<lparr>Err := e\<rparr> else d) = d\<lparr>Err := e\<rparr>"
    using d(3) Error_Err [of d] by (cases "Err d") auto
  moreover have "OnError Interrupted background Step (Backoff r)
      (\<lambda>e s. (s, RetryableErrorFn r e)) (Retrier_fn next' request) (s, None) =
    Some (tries (RetryableErrorFn r) (Retrier_fn next' request) (Suc n) (s, None))"
    unfolding n [symmetric] by (rule OnError_tries) (use assms in auto)
  ultimately show ?thesis
    by (simp only: Retrier_Tripperware_def lift_ctx_background n t d option.case prod.case)
qed

theorem Retrier_sends_until_final_witness:
  "Retrier_Tripperware (\<lambda>e. e = Sentinel ErrWaitTimeout) background
     (\<lambda>b. (b\<lparr>bo_Steps := bo_Steps b - 1\<rparr>, 0))
     \<lparr>RetryableErrorFn = (\<lambda>_. True), Backoff = RetryOnce\<rparr>
     (\<lambda>_ n. (Suc n, \<lparr>Headers = [], Raw = [], Status = 503, Err = None\<rparr>)) undefined 0 =
   Some (2, Some \<lparr>Headers = [], Raw = [], Status = 503, Err = StatusCodeAsErr 503\<rparr>)"
  using Retrier_sends_until_final [of "\<lambda>b. (b\<lparr>bo_Steps := bo_Steps b - 1\<rparr>, 0)"
      "\<lparr>RetryableErrorFn = (\<lambda>_. True), Backoff = RetryOnce\<rparr>" "\<lambda>e. e = Sentinel ErrWaitTimeout"
      "\<lambda>_ n. (Suc n, \<lparr>Headers = [], Raw = [], Status = 503, Err = None\<rparr>)" undefined 0]
  by (simp add: one_step_def RetryOnce_def numeral_2_eq_2 Error_def IsOK_def StatusCodeAsErr_def
      lookupStatusAsErr_def)

end
