(* ===== verification/Flags.thy ===== *)
theory Flags
  imports HTTP_Client Slices "HOL-Library.Word"
begin

text \<open>
  Loading a configuration, \<open>pkg/config\<close>, and the command line flags the configurations bind.

  The flag library is not modelled: a flag set is the map of the flags that were changed to the
  values they hold. Access to a flag with the wrong type fails, as in \<open>pflag\<close>. Registration gives
  the list of flags with their default values.
\<close>

section \<open>Flags\<close>

type_synonym u16 = "16 word"

datatype flag_value =
    is_FStrings: FStrings (the_strings: "string list")
  | is_FString: FString (the_string: string)
  | is_FInt: FInt (the_int: int)
  | is_FBool: FBool (the_bool: bool)
  | is_FPort: FPort (the_port: u16)
  | is_FDuration: FDuration (the_duration: int)

text \<open>A flag set: what a flag holds when it was changed, \<open>None\<close> otherwise.\<close>

type_synonym flags = "string \<Rightarrow> flag_value option"

definition flag_type_error :: err where
  "flag_type_error = new_error ''trying to get a flag of another type''"

definition get_strings :: "flags \<Rightarrow> string \<Rightarrow> (err + string list) option" where
  "get_strings fs name = map_option (\<lambda>v. case v of FStrings x \<Rightarrow> Inr x | _ \<Rightarrow> Inl flag_type_error) (fs name)"

definition get_string :: "flags \<Rightarrow> string \<Rightarrow> (err + string) option" where
  "get_string fs name = map_option (\<lambda>v. case v of FString x \<Rightarrow> Inr x | _ \<Rightarrow> Inl flag_type_error) (fs name)"

definition get_int :: "flags \<Rightarrow> string \<Rightarrow> (err + int) option" where
  "get_int fs name = map_option (\<lambda>v. case v of FInt x \<Rightarrow> Inr x | _ \<Rightarrow> Inl flag_type_error) (fs name)"

definition get_bool :: "flags \<Rightarrow> string \<Rightarrow> (err + bool) option" where
  "get_bool fs name = map_option (\<lambda>v. case v of FBool x \<Rightarrow> Inr x | _ \<Rightarrow> Inl flag_type_error) (fs name)"

definition get_port :: "flags \<Rightarrow> string \<Rightarrow> (err + u16) option" where
  "get_port fs name = map_option (\<lambda>v. case v of FPort x \<Rightarrow> Inr x | _ \<Rightarrow> Inl flag_type_error) (fs name)"

definition get_duration :: "flags \<Rightarrow> string \<Rightarrow> (err + int) option" where
  "get_duration fs name = map_option (\<lambda>v. case v of FDuration x \<Rightarrow> Inr x | _ \<Rightarrow> Inl flag_type_error) (fs name)"

text \<open>One \<open>if fs.Changed(name) { c.f, err = fs.Get(name); if err != nil { return err } }\<close>.\<close>

definition bind_flag :: "(err + 'x) option \<Rightarrow> ('x \<Rightarrow> 'c \<Rightarrow> 'c) \<Rightarrow> err + 'c \<Rightarrow> err + 'c" where
  "bind_flag flag set' c =
     (case c of
        Inl e \<Rightarrow> Inl e
      | Inr c \<Rightarrow>
          (case flag of None \<Rightarrow> Inr c | Some (Inl e) \<Rightarrow> Inl e | Some (Inr x) \<Rightarrow> Inr (set' x c)))"

text \<open>\<open>return fmt.Errorf("what: %w", err)\<close> instead of \<open>return err\<close>.\<close>

definition wrap_flag :: "string \<Rightarrow> (err + 'x) option \<Rightarrow> (err + 'x) option" where
  "wrap_flag msg flag = map_option (map_sum (\<lambda>e. Errorf msg [e]) (\<lambda>x. x)) flag"

lemma wrap_flag_typed [simp]:
  "wrap_flag msg (map_option (\<lambda>v. Inr (f v)) flag) = map_option (\<lambda>v. Inr (f v)) flag"
  by (cases flag) (simp_all add: wrap_flag_def)

section \<open>Loading\<close>

text \<open>
  A configuration that binds flags, is validated, or has defaults is the record of the methods it
  has. \<open>config_env\<close> holds what loading uses of the outside: cleaning a path, reading a file, and
  decoding YAML or JSON over the value the target already has (an error leaves what was decoded
  until then).
\<close>

record 'c config_type =
  ct_Validate :: "'c \<Rightarrow> err option"
  ct_ApplyDefaults :: "('c \<Rightarrow> 'c) option"

record 'c config_env =
  cv_Clean :: "string \<Rightarrow> string"
  cv_ReadFile :: "string \<Rightarrow> err + string"
  cv_Decode :: "string \<Rightarrow> 'c \<Rightarrow> 'c \<times> err option"

text \<open>Each configuration of the chain is its \<open>BindFlags\<close> method with its receiver; the state holds all.\<close>

fun ChainFlags :: "flags \<Rightarrow> (flags \<Rightarrow> 's \<Rightarrow> 's \<times> err option) list \<Rightarrow> 's \<Rightarrow> 's \<times> err option" where
  "ChainFlags fs [] s = (s, None)"
| "ChainFlags fs (configuration # configurations) s =
     (case configuration fs s of
        (s, Some e) \<Rightarrow> (s, Some e)
      | (s, None) \<Rightarrow> ChainFlags fs configurations s)"

definition LoadOnly :: "'c config_env \<Rightarrow> string list \<Rightarrow> 'c \<Rightarrow> 'c \<times> err option" where
  "LoadOnly E path target =
     (let pathToConfig = Opt ''/config/config.yaml'' path;
          cleanPath = cv_Clean E pathToConfig
      in case cv_ReadFile E cleanPath of
           Inl e \<Rightarrow> (target, Some e)
         | Inr raw \<Rightarrow> cv_Decode E raw target)"

definition config_Load :: "'c config_env \<Rightarrow> 'c config_type \<Rightarrow> string list \<Rightarrow> 'c \<Rightarrow> 'c \<times> err option" where
  "config_Load E T path target =
     (case LoadOnly E path target of
        (target, Some e) \<Rightarrow> (target, Some e)
      | (target, None) \<Rightarrow>
          (let target = (case ct_ApplyDefaults T of None \<Rightarrow> target | Some ApplyDefaults \<Rightarrow> ApplyDefaults target)
           in (target, ct_Validate T target)))"

text \<open>\<open>LoadType\<close> starts from the zero value and also returns the configuration with an error.\<close>

definition LoadType :: "'c config_env \<Rightarrow> 'c config_type \<Rightarrow> 'c \<Rightarrow> string list \<Rightarrow> 'c \<times> err option" where
  "LoadType E T zero path = config_Load E T path zero"

text \<open>A loaded configuration without an error is valid, and complete when defaults are idempotent.\<close>

lemma config_Load_valid:
  "config_Load E T path c = (c', None) \<Longrightarrow> ct_Validate T c' = None"
  by (auto simp: config_Load_def Let_def split: prod.splits option.splits)

lemma config_Load_defaults:
  assumes "config_Load E T path c = (c', None)" "ct_ApplyDefaults T = Some d" "\<And>c. d (d c) = d c"
  shows "d c' = c'"
  using assms by (auto simp: config_Load_def Let_def split: prod.splits option.splits)

section \<open>The contract of binding\<close>

fun same_kind :: "flag_value \<Rightarrow> flag_value \<Rightarrow> bool" where
  "same_kind (FStrings _) (FStrings _) = True"
| "same_kind (FString _) (FString _) = True"
| "same_kind (FInt _) (FInt _) = True"
| "same_kind (FBool _) (FBool _) = True"
| "same_kind (FPort _) (FPort _) = True"
| "same_kind (FDuration _) (FDuration _) = True"
| "same_kind _ _ = False"

text \<open>A command line sets a registered flag only to a value of its kind.\<close>

definition parsed_flags :: "(string, flag_value) gomap \<Rightarrow> flags \<Rightarrow> bool" where
  "parsed_flags reg fs \<longleftrightarrow> list_all (\<lambda>(n, d). pred_option (same_kind d) (fs n)) reg"

definition flag_or :: "flags \<Rightarrow> string \<Rightarrow> flag_value \<Rightarrow> flag_value" where
  "flag_or fs n v = (case fs n of None \<Rightarrow> v | Some v' \<Rightarrow> v')"

definition overlay :: "flags \<Rightarrow> (string, flag_value) gomap \<Rightarrow> (string, flag_value) gomap" where
  "overlay fs vs = map (\<lambda>(n, v). (n, flag_or fs n v)) vs"

lemma same_kind_simps:
  "same_kind (FStrings d1) = is_FStrings" "same_kind (FString d2) = is_FString"
  "same_kind (FInt d3) = is_FInt" "same_kind (FBool d4) = is_FBool"
  "same_kind (FPort d5) = is_FPort" "same_kind (FDuration d6) = is_FDuration"
proof -
  show "same_kind (FStrings d1) = is_FStrings" by (rule ext, case_tac x) auto
  show "same_kind (FString d2) = is_FString" by (rule ext, case_tac x) auto
  show "same_kind (FInt d3) = is_FInt" by (rule ext, case_tac x) auto
  show "same_kind (FBool d4) = is_FBool" by (rule ext, case_tac x) auto
  show "same_kind (FPort d5) = is_FPort" by (rule ext, case_tac x) auto
  show "same_kind (FDuration d6) = is_FDuration" by (rule ext, case_tac x) auto
qed

lemma get_typed:
  "pred_option is_FStrings (fs n) \<Longrightarrow> get_strings fs n = map_option (\<lambda>v. Inr (the_strings v)) (fs n)"
  "pred_option is_FString (fs n) \<Longrightarrow> get_string fs n = map_option (\<lambda>v. Inr (the_string v)) (fs n)"
  "pred_option is_FInt (fs n) \<Longrightarrow> get_int fs n = map_option (\<lambda>v. Inr (the_int v)) (fs n)"
  "pred_option is_FBool (fs n) \<Longrightarrow> get_bool fs n = map_option (\<lambda>v. Inr (the_bool v)) (fs n)"
  "pred_option is_FPort (fs n) \<Longrightarrow> get_port fs n = map_option (\<lambda>v. Inr (the_port v)) (fs n)"
  "pred_option is_FDuration (fs n) \<Longrightarrow> get_duration fs n = map_option (\<lambda>v. Inr (the_duration v)) (fs n)"
  by (cases "fs n"; cases "the (fs n)";
      simp add: get_strings_def get_string_def get_int_def get_bool_def get_port_def get_duration_def)+

text \<open>A flag of the right type is bound to its field.\<close>

definition bound_value :: "(flag_value \<Rightarrow> 'x) \<Rightarrow> flag_value option \<Rightarrow> 'x \<Rightarrow> 'x" where
  "bound_value f flag x = (case flag of None \<Rightarrow> x | Some v \<Rightarrow> f v)"

lemma bound_flag:
  "pred_option is_FStrings (fs n) \<Longrightarrow> FStrings (bound_value the_strings (fs n) x1) = flag_or fs n (FStrings x1)"
  "pred_option is_FString (fs n) \<Longrightarrow> FString (bound_value the_string (fs n) x2) = flag_or fs n (FString x2)"
  "pred_option is_FInt (fs n) \<Longrightarrow> FInt (bound_value the_int (fs n) x3) = flag_or fs n (FInt x3)"
  "pred_option is_FBool (fs n) \<Longrightarrow> FBool (bound_value the_bool (fs n) x4) = flag_or fs n (FBool x4)"
  "pred_option is_FPort (fs n) \<Longrightarrow> FPort (bound_value the_port (fs n) x5) = flag_or fs n (FPort x5)"
  "pred_option is_FDuration (fs n) \<Longrightarrow> FDuration (bound_value the_duration (fs n) x6) = flag_or fs n (FDuration x6)"
  by (auto simp: bound_value_def flag_or_def split: option.split)

lemma bind_field:
  assumes "\<And>c. set' (get c) c = c"
  shows "bind_flag (map_option (\<lambda>v. Inr (f v)) flag) set' (Inr c) = Inr (set' (bound_value f flag (get c)) c)"
  using assms by (cases flag) (simp_all add: bind_flag_def bound_value_def)

text \<open>
  Every configuration of the program keeps this contract: a parsed command line is bound without an
  error, the fields behind changed flags take their values and all other fields keep theirs.
\<close>

locale flag_config =
  fixes reg :: "(string, flag_value) gomap"
    and vals :: "'c \<Rightarrow> (string, flag_value) gomap"
    and bind :: "flags \<Rightarrow> 'c \<Rightarrow> err + 'c"
  assumes vals_names: "map fst (vals c) = map fst reg"
    and bind_parsed: "parsed_flags reg fs \<Longrightarrow> \<exists>c'. bind fs c = Inr c' \<and> vals c' = overlay fs (vals c)"
begin

lemma overlay_quiet:
  assumes "\<And>n. n \<in> fst ` set reg \<Longrightarrow> fs n = None"
  shows "overlay fs (vals c) = vals c"
proof -
  have "fst ` set (vals c) = fst ` set reg" using arg_cong [OF vals_names [of c], of set] by simp
  then have "flag_or fs n v = v" if "(n, v) \<in> set (vals c)" for n v
    using assms [of n] that by (force simp: flag_or_def)
  then show ?thesis unfolding overlay_def by (intro map_idI) auto
qed

lemma parsed_quiet: "(\<And>n. n \<in> fst ` set reg \<Longrightarrow> fs n = None) \<Longrightarrow> parsed_flags reg fs"
  by (force simp: parsed_flags_def list_all_iff)

text \<open>A command line without flags of the configuration changes no field.\<close>

lemma bind_quiet:
  assumes "\<And>n. n \<in> fst ` set reg \<Longrightarrow> fs n = None"
  shows "\<exists>c'. bind fs c = Inr c' \<and> vals c' = vals c"
  using bind_parsed [of fs c] parsed_quiet [of fs] overlay_quiet [of fs c] assms by auto

text \<open>Two flag sets one after the other: the later one wins, flag by flag; binding twice is binding once.\<close>

lemma overlay_overlay: "overlay fs' (overlay fs vs) = overlay (\<lambda>n. case fs' n of None \<Rightarrow> fs n | v \<Rightarrow> v) vs"
  by (auto simp: overlay_def flag_or_def split: option.split)

lemma bind_again:
  assumes "parsed_flags reg fs" "parsed_flags reg fs'"
  shows "\<exists>c' c''. bind fs c = Inr c' \<and> bind fs' c' = Inr c'' \<and>
    vals c'' = overlay (\<lambda>n. case fs' n of None \<Rightarrow> fs n | v \<Rightarrow> v) (vals c)"
  using bind_parsed [OF assms(1), of c] bind_parsed [OF assms(2)] overlay_overlay by metis

lemma bind_twice:
  assumes "parsed_flags reg fs"
  shows "\<exists>c' c''. bind fs c = Inr c' \<and> bind fs c' = Inr c'' \<and> vals c'' = vals c'"
proof -
  have "(\<lambda>n. case fs n of None \<Rightarrow> fs n | Some v \<Rightarrow> Some v) = fs" by (auto split: option.split)
  with bind_again [OF assms assms, of c] bind_parsed [OF assms, of c] show ?thesis by auto
qed

text \<open>What a field holds after binding.\<close>

lemma map_of_overlay: "map_of (overlay fs vs) n = map_option (flag_or fs n) (map_of vs n)"
  by (induction vs) (auto simp: overlay_def)

lemma bind_field_value:
  assumes "parsed_flags reg fs" "n \<in> fst ` set reg" "fs n = Some v"
  shows "\<exists>c'. bind fs c = Inr c' \<and> map_of (vals c') n = Some v"
proof -
  have "fst ` set (vals c) = fst ` set reg" using arg_cong [OF vals_names [of c], of set] by simp
  with assms(2) have "map_of (vals c) n \<noteq> None" by (simp add: map_of_eq_None_iff)
  with assms(3) show ?thesis using bind_parsed [OF assms(1), of c]
    by (auto simp: map_of_overlay flag_or_def)
qed

end

end
