(* ===== verification/Tls.thy ===== *)
theory Tls
  imports Flags
begin

text \<open>
  TLS configuration: \<open>pkg/tlsutils\<close>, \<open>pkg/tlsclient\<close> and \<open>pkg/tlsserver\<close>.

  What the packages use of the standard library is the record \<open>tls_env\<close>: files and path cleaning,
  the certificates of a PEM file (none when it cannot be parsed), key pairs, ASN.1 certificates and
  verification against a pool of roots. Certificates are of type \<open>'c\<close>, key pairs of type \<open>'k\<close>; the
  zero \<open>tls.Certificate\<close> is \<open>None\<close>. Versions are the \<open>uint16\<close> numbers of the protocol.
\<close>

section \<open>The shared configuration\<close>

record tls_config =
  tls_Cert :: string
  tls_Key :: string
  tls_RootCAs :: "string list"
  tls_MinVersion :: string
  tls_Disabled :: bool

datatype client_auth =
  NoClientCert | RequestClientCert | RequireAnyClientCert | VerifyClientCertIfGiven |
  RequireAndVerifyClientCert

fun ClientAuthType_String :: "client_auth \<Rightarrow> string" where
  "ClientAuthType_String NoClientCert = ''NoClientCert''"
| "ClientAuthType_String RequestClientCert = ''RequestClientCert''"
| "ClientAuthType_String RequireAnyClientCert = ''RequireAnyClientCert''"
| "ClientAuthType_String VerifyClientCertIfGiven = ''VerifyClientCertIfGiven''"
| "ClientAuthType_String RequireAndVerifyClientCert = ''RequireAndVerifyClientCert''"

definition VersionName :: "nat \<Rightarrow> string" where
  "VersionName v =
     (if v = 769 then ''TLS 1.0'' else if v = 770 then ''TLS 1.1'' else if v = 771 then ''TLS 1.2''
      else if v = 772 then ''TLS 1.3'' else ''unknown'')"

definition DefaultMinVersion :: nat where
  "DefaultMinVersion = 771"

definition tls_DefaultConfig :: tls_config where
  "tls_DefaultConfig =
     \<lparr>tls_Cert = [], tls_Key = [], tls_RootCAs = [], tls_MinVersion = VersionName DefaultMinVersion,
      tls_Disabled = False\<rparr>"

definition tls_ApplyDefaults :: "('a tls_config_scheme) \<Rightarrow> 'a tls_config_scheme" where
  "tls_ApplyDefaults c =
     (if tls_MinVersion c = [] then c\<lparr>tls_MinVersion := VersionName DefaultMinVersion\<rparr> else c)"

definition ParseClientAuthType :: "string \<Rightarrow> err + client_auth" where
  "ParseClientAuthType clientAuthType =
     (if clientAuthType = ''RequireAndVerifyClientCert'' then Inr RequireAndVerifyClientCert
      else if clientAuthType = ''VerifyClientCertIfGiven'' then Inr VerifyClientCertIfGiven
      else if clientAuthType = ''RequestClientCert'' then Inr RequestClientCert
      else if clientAuthType = ''NoClientCert'' then Inr NoClientCert
      else if clientAuthType = ''RequireAnyClientCert'' then Inr RequireAnyClientCert
      else Inl (new_error (''unknown client auth type: '' @ clientAuthType)))"

definition ParseTLSVersion :: "string \<Rightarrow> err + nat" where
  "ParseTLSVersion version =
     (if version = ''TLS 1.0'' then Inr 769 else if version = ''TLS 1.1'' then Inr 770
      else if version = ''TLS 1.2'' then Inr 771 else if version = ''TLS 1.3'' then Inr 772
      else Inr 0)"

definition tls_NewConfig :: "string \<Rightarrow> string \<Rightarrow> string list \<Rightarrow> tls_config" where
  "tls_NewConfig cert key cacerts =
     \<lparr>tls_Cert = cert, tls_Key = key, tls_RootCAs = cacerts,
      tls_MinVersion = VersionName DefaultMinVersion, tls_Disabled = False\<rparr>"

definition UseTLS :: "('a tls_config_scheme) option \<Rightarrow> bool" where
  "UseTLS c =
     (case c of
        None \<Rightarrow> False
      | Some c \<Rightarrow> if tls_Cert c \<noteq> [] \<and> tls_Key c \<noteq> [] then \<not> tls_Disabled c else False)"

section \<open>Key pairs and pools\<close>

record ('c, 'k) tls_env =
  filepath_Clean :: "string \<Rightarrow> string"
  tls_ReadFile :: "string \<Rightarrow> err + string"
  parse_pem :: "string \<Rightarrow> 'c list"
  LoadX509KeyPair :: "string \<Rightarrow> string \<Rightarrow> err + 'k"
  ParseCertificate :: "string \<Rightarrow> err + 'c"
  cert_Verify :: "'c list option \<Rightarrow> 'c \<Rightarrow> err option"

fun NewCertPool_loop :: "('c, 'k) tls_env \<Rightarrow> 'c list \<Rightarrow> string list \<Rightarrow> err + 'c list" where
  "NewCertPool_loop E certPool [] = Inr certPool"
| "NewCertPool_loop E certPool (v # cacerts) =
     (case tls_ReadFile E (filepath_Clean E v) of
        Inl e \<Rightarrow> Inl (new_error (''failed to read CA '' @ v))
      | Inr caCertIngFile \<Rightarrow>
          if parse_pem E caCertIngFile = [] then Inl (Errorf v [Sentinel ErrCertificateInvalid])
          else NewCertPool_loop E (certPool @ parse_pem E caCertIngFile) cacerts)"

definition NewCertPool :: "('c, 'k) tls_env \<Rightarrow> string list \<Rightarrow> err + 'c list" where
  "NewCertPool E cacerts = NewCertPool_loop E [] cacerts"

definition NewX509KeyPair ::
  "('c, 'k) tls_env \<Rightarrow> string \<Rightarrow> string \<Rightarrow> string list \<Rightarrow> err + 'c list \<times> 'k" where
  "NewX509KeyPair E cert key cacerts =
     (case NewCertPool E cacerts of
        Inl e \<Rightarrow> Inl (Errorf ''failed to create cert pool'' [e])
      | Inr pool \<Rightarrow>
          (case LoadX509KeyPair E cert key of
             Inl e \<Rightarrow> Inl (Errorf ''failed to load keypair'' [e])
           | Inr keypair \<Rightarrow> Inr (pool, keypair)))"

fun parse_certificates :: "('c, 'k) tls_env \<Rightarrow> string list \<Rightarrow> err + 'c list" where
  "parse_certificates E [] = Inr []"
| "parse_certificates E (asn1Data # certificates) =
     (case ParseCertificate E asn1Data of
        Inl e \<Rightarrow> Inl (Errorf [] [Sentinel ErrCertificateNotParsable, e])
      | Inr cert \<Rightarrow>
          (case parse_certificates E certificates of Inl e \<Rightarrow> Inl e | Inr certs \<Rightarrow> Inr (cert # certs)))"

fun verify_certificates :: "('c, 'k) tls_env \<Rightarrow> 'c list option \<Rightarrow> 'c list \<Rightarrow> err option" where
  "verify_certificates E certPool [] = None"
| "verify_certificates E certPool (cert # certs) =
     (case cert_Verify E certPool cert of
        Some e \<Rightarrow> Some (Errorf [] [Sentinel ErrCertificateInvalid])
      | None \<Rightarrow> verify_certificates E certPool certs)"

definition VerifyPeerCertificate ::
  "('c, 'k) tls_env \<Rightarrow> 'c list option \<Rightarrow> string list \<Rightarrow> err option" where
  "VerifyPeerCertificate E certPool certificates =
     (case parse_certificates E certificates of
        Inl e \<Rightarrow> Some e
      | Inr certs \<Rightarrow> verify_certificates E certPool certs)"

section \<open>Names in certificates\<close>

record 'u certificate =
  CommonName :: string
  DNSNames :: "string list"
  URIs :: "'u option list"

definition ExtractCommonNames :: "'u certificate list \<Rightarrow> string list" where
  "ExtractCommonNames certs = Filter (Transform certs CommonName) (\<lambda>cn. cn \<noteq> [])"

definition ExtractDNSNames :: "'u certificate list \<Rightarrow> string list" where
  "ExtractDNSNames certs = Unique (Filter (FlatMap certs DNSNames) (\<lambda>dns. dns \<noteq> []))"

definition ExtractCommonNamesAndDNSNames :: "'u certificate list \<Rightarrow> string list" where
  "ExtractCommonNamesAndDNSNames certs = Concat [ExtractCommonNames certs, ExtractDNSNames certs]"

definition ExtractCommonNamesAndDNSNamesSeparate ::
  "'u certificate list \<Rightarrow> string list \<times> string list" where
  "ExtractCommonNamesAndDNSNamesSeparate certs = (ExtractCommonNames certs, ExtractDNSNames certs)"

definition ExtractURLs :: "'u certificate list \<Rightarrow> 'u option list" where
  "ExtractURLs certs = FilterEmpty (FlatMap certs URIs)"

fun ExtractLeafCommonName :: "'u certificate list \<Rightarrow> string" where
  "ExtractLeafCommonName [] = []"
| "ExtractLeafCommonName (cert # certs) = CommonName cert"

section \<open>Options on a \<open>tls.Config\<close>\<close>

record ('c, 'k) gotls =
  go_MinVersion :: nat
  go_Certificates :: "'k option list"
  go_RootCAs :: "'c list option"
  go_ClientCAs :: "'c list option"
  go_ClientAuth :: client_auth
  go_InsecureSkipVerify :: bool
  go_VerifyPeerCertificate :: "(string list \<Rightarrow> 'c list list \<Rightarrow> err option) option"

definition WithCertificates :: "'k option list \<Rightarrow> ('c, 'k) gotls cfg_option" where
  "WithCertificates cert t = Inr (t\<lparr>go_Certificates := go_Certificates t @ cert\<rparr>)"

definition WithRootCAPools :: "'c list option \<Rightarrow> ('c, 'k) gotls cfg_option" where
  "WithRootCAPools pool t = Inr (t\<lparr>go_RootCAs := pool\<rparr>)"

definition WithMinVersion :: "nat \<Rightarrow> ('c, 'k) gotls cfg_option" where
  "WithMinVersion version t = Inr (t\<lparr>go_MinVersion := version\<rparr>)"

definition WithClientAuth :: "client_auth \<Rightarrow> ('c, 'k) gotls cfg_option" where
  "WithClientAuth authType t = Inr (t\<lparr>go_ClientAuth := authType\<rparr>)"

definition WithClientCAs :: "'c list option \<Rightarrow> ('c, 'k) gotls cfg_option" where
  "WithClientCAs pool t = Inr (t\<lparr>go_ClientCAs := pool\<rparr>)"

definition WithVerifyPeerCertificate ::
  "(string list \<Rightarrow> 'c list list \<Rightarrow> err option) \<Rightarrow> ('c, 'k) gotls cfg_option" where
  "WithVerifyPeerCertificate verifyPeerCertificate t =
     Inr (t\<lparr>go_VerifyPeerCertificate := Some verifyPeerCertificate\<rparr>)"

section \<open>Clients\<close>

record tls_client_config = tls_config +
  tc_InsecureSkipVerify :: bool

definition tlsclient_NewConfig :: "string \<Rightarrow> string \<Rightarrow> bool \<Rightarrow> string list \<Rightarrow> tls_client_config" where
  "tlsclient_NewConfig cert key insecureSkipVerify cacerts =
     tls_config.extend (tls_NewConfig cert key cacerts)
       (tls_client_config.fields insecureSkipVerify)"

definition tlsclient_ApplyDefaults :: "tls_client_config \<Rightarrow> tls_client_config" where
  "tlsclient_ApplyDefaults c = tls_ApplyDefaults c"

definition tlsclient_DefaultConfig :: tls_client_config where
  "tlsclient_DefaultConfig = tlsclient_ApplyDefaults
     \<lparr>tls_Cert = [], tls_Key = [], tls_RootCAs = [], tls_MinVersion = [], tls_Disabled = False,
      tc_InsecureSkipVerify = False\<rparr>"

text \<open>\<open>TLSConfig.Validate\<close> rejects only a missing configuration.\<close>

definition TLSConfig_Validate :: "'t option \<Rightarrow> err option" where
  "TLSConfig_Validate t = (if t = None then Some (new_error ''tls config is nil'') else None)"

definition tlsclient_NewForConfig ::
  "('c, 'k) tls_env \<Rightarrow> tls_client_config \<Rightarrow> ('c, 'k) gotls cfg_option option list \<Rightarrow>
   err + ('c, 'k) gotls" where
  "tlsclient_NewForConfig E cfg opts =
     (let cfg = tlsclient_ApplyDefaults cfg in
      case (if tls_Key cfg \<noteq> [] \<and> tls_Cert cfg \<noteq> [] then
              (case NewX509KeyPair E (tls_Cert cfg) (tls_Key cfg) (tls_RootCAs cfg) of
                 Inl e \<Rightarrow> Inl (Errorf ''failed to load x509 key pair'' [e])
               | Inr (pool, keypair) \<Rightarrow> Inr (Some pool, Some keypair))
            else Inr (None, None)) of
        Inl e \<Rightarrow> Inl e
      | Inr (pool, keypair) \<Rightarrow>
          (case ParseTLSVersion (tls_MinVersion cfg) of
             Inl e \<Rightarrow> Inl e
           | Inr minVersion \<Rightarrow>
               (case ApplyOpts
                    \<lparr>go_MinVersion = minVersion, go_Certificates = [keypair], go_RootCAs = pool,
                     go_ClientCAs = None, go_ClientAuth = NoClientCert,
                     go_InsecureSkipVerify = tc_InsecureSkipVerify cfg, go_VerifyPeerCertificate = None\<rparr>
                    opts of
                  Inl e \<Rightarrow> Inl (Errorf ''failed to apply TLS option'' [e])
                | Inr tlsConfig \<Rightarrow>
                    (case TLSConfig_Validate (Some tlsConfig) of
                       Some e \<Rightarrow> Inl (Errorf ''failed to create HTTP server'' [e])
                     | None \<Rightarrow> Inr tlsConfig))))"

definition tlsclient_New ::
  "('c, 'k) tls_env \<Rightarrow> string \<Rightarrow> string \<Rightarrow> bool \<Rightarrow> string list \<Rightarrow> err + ('c, 'k) gotls" where
  "tlsclient_New E cert key insecureSkipVerify cacerts =
     tlsclient_NewForConfig E (tlsclient_NewConfig cert key insecureSkipVerify cacerts) []"

section \<open>Servers\<close>

record tls_server_config = tls_config +
  ClientAuthType :: string

definition tlsserver_ApplyDefaults :: "tls_server_config \<Rightarrow> tls_server_config" where
  "tlsserver_ApplyDefaults c =
     (let c = tls_ApplyDefaults c in
      if ClientAuthType c = [] then c\<lparr>ClientAuthType := ClientAuthType_String NoClientCert\<rparr> else c)"

definition tlsserver_DefaultConfig :: tls_server_config where
  "tlsserver_DefaultConfig = tlsserver_ApplyDefaults
     \<lparr>tls_Cert = [], tls_Key = [], tls_RootCAs = [], tls_MinVersion = [], tls_Disabled = False,
      ClientAuthType = []\<rparr>"

definition tlsserver_RegisterFlags :: "(string, flag_value) gomap" where
  "tlsserver_RegisterFlags =
     (let c = tlsserver_DefaultConfig in
     [(''tls-client-auth'', FString (ClientAuthType c)),
      (''tls-server-cert'', FString (tls_Cert c)),
      (''tls-server-key'', FString (tls_Key c)),
      (''tls-server-cacerts'', FStrings (tls_RootCAs c)),
      (''tls-server-min-version'', FString (tls_MinVersion c))])"

definition tlsserver_BindFlags :: "flags \<Rightarrow> tls_server_config \<Rightarrow> err + tls_server_config" where
  "tlsserver_BindFlags fs c =
     bind_flag (get_string fs ''tls-client-auth'') (\<lambda>x c. c\<lparr>ClientAuthType := x\<rparr>)
       (bind_flag (get_string fs ''tls-server-min-version'') (\<lambda>x c. c\<lparr>tls_MinVersion := x\<rparr>)
         (bind_flag (get_strings fs ''tls-server-cacerts'') (\<lambda>x c. c\<lparr>tls_RootCAs := x\<rparr>)
           (bind_flag (get_string fs ''tls-server-key'') (\<lambda>x c. c\<lparr>tls_Key := x\<rparr>)
             (bind_flag (get_string fs ''tls-server-cert'') (\<lambda>x c. c\<lparr>tls_Cert := x\<rparr>) (Inr c)))))"

definition cfg_ParseClientAuthType :: "tls_server_config \<Rightarrow> err + client_auth" where
  "cfg_ParseClientAuthType c = ParseClientAuthType (ClientAuthType c)"

definition tlsserver_Validate :: "tls_server_config \<Rightarrow> err option" where
  "tlsserver_Validate c =
     (case ParseClientAuthType (ClientAuthType c) of
        Inl e \<Rightarrow> Some e
      | Inr _ \<Rightarrow>
          if tls_Cert c = [] then Some (new_error ''tls-cert must be provided'')
          else if tls_Key c = [] then Some (new_error ''tls-key must be provided'')
          else
            (case (if tls_MinVersion c \<noteq> [] then ParseTLSVersion (tls_MinVersion c) else Inr 0) of
               Inl e \<Rightarrow> Some (Errorf ''invalid tls-min-version'' [e])
             | Inr _ \<Rightarrow>
                 if ClientAuthType c = ''RequireAndVerifyClientCert'' \<and> tls_RootCAs c = [] then
                   Some (new_error ''at least one CA certificate must be provided'')
                 else None))"

definition tlsserver_NewForConfig ::
  "('c, 'k) tls_env \<Rightarrow> tls_server_config \<Rightarrow> ('c, 'k) gotls cfg_option option list \<Rightarrow>
   err + ('c, 'k) gotls" where
  "tlsserver_NewForConfig E cfg opts =
     (let cfg = tlsserver_ApplyDefaults cfg in
      case cfg_ParseClientAuthType cfg of
        Inl e \<Rightarrow> Inl e
      | Inr clientAuthType \<Rightarrow>
          (case (if UseTLS (Some cfg) then
                   (case NewX509KeyPair E (tls_Cert cfg) (tls_Key cfg) (tls_RootCAs cfg) of
                      Inl e \<Rightarrow> Inl (Errorf ''failed to load x509 key pair'' [e])
                    | Inr (pool, keypair) \<Rightarrow> Inr (Some pool, Some keypair))
                 else Inr (None, None)) of
             Inl e \<Rightarrow> Inl e
           | Inr (pool, keypair) \<Rightarrow>
               (case ParseTLSVersion (tls_MinVersion cfg) of
                  Inl e \<Rightarrow> Inl e
                | Inr minVersion \<Rightarrow>
                    (case ApplyOpts
                         \<lparr>go_MinVersion = minVersion, go_Certificates = [keypair], go_RootCAs = None,
                          go_ClientCAs = pool, go_ClientAuth = clientAuthType,
                          go_InsecureSkipVerify = False, go_VerifyPeerCertificate = None\<rparr> opts of
                       Inl e \<Rightarrow> Inl (Errorf ''failed to apply TLS option'' [e])
                     | Inr tlsConfig \<Rightarrow>
                         (case TLSConfig_Validate (Some tlsConfig) of
                            Some e \<Rightarrow> Inl (Errorf ''failed to create HTTP server'' [e])
                          | None \<Rightarrow> Inr tlsConfig)))))"

definition tlsserver_New ::
  "('c, 'k) tls_env \<Rightarrow> string \<Rightarrow> string \<Rightarrow> string list \<Rightarrow> err + ('c, 'k) gotls" where
  "tlsserver_New E cert key cacerts =
     tlsserver_NewForConfig E
       (tls_config.extend (tls_NewConfig cert key cacerts) (tls_server_config.fields [])) []"

section \<open>Pools and verification\<close>

text \<open>The certificates of one CA file.\<close>

definition ca_certs :: "('c, 'k) tls_env \<Rightarrow> string \<Rightarrow> 'c list" where
  "ca_certs E v =
     (case tls_ReadFile E (filepath_Clean E v) of Inl _ \<Rightarrow> [] | Inr raw \<Rightarrow> parse_pem E raw)"

lemma NewCertPool_loop_Inr:
  "NewCertPool_loop E acc cacerts = Inr pool \<Longrightarrow>
     pool = acc @ concat (map (ca_certs E) cacerts) \<and> (\<forall>v \<in> set cacerts. ca_certs E v \<noteq> [])"
proof (induction cacerts arbitrary: acc)
  case (Cons v cacerts)
  from Cons.prems obtain raw where raw: "tls_ReadFile E (filepath_Clean E v) = Inr raw"
    "parse_pem E raw \<noteq> []" "NewCertPool_loop E (acc @ parse_pem E raw) cacerts = Inr pool"
    by (auto split: sum.splits if_splits)
  then have "ca_certs E v = parse_pem E raw" by (simp add: ca_certs_def)
  with raw(2) Cons.IH [OF raw(3)] show ?case by simp
qed simp

lemma NewX509KeyPair_Inr:
  assumes "NewX509KeyPair E cert key cacerts = Inr (pool, keypair)"
  shows "pool = concat (map (ca_certs E) cacerts) \<and> (\<forall>v \<in> set cacerts. ca_certs E v \<noteq> []) \<and>
    LoadX509KeyPair E cert key = Inr keypair"
  using assms NewCertPool_loop_Inr [of E "[]" cacerts pool]
  by (auto simp: NewX509KeyPair_def NewCertPool_def split: sum.splits)

lemma parse_certificates_Inr:
  "parse_certificates E cs = Inr certs \<Longrightarrow> map (ParseCertificate E) cs = map Inr certs"
  by (induction cs arbitrary: certs) (auto split: sum.splits)

lemma parse_certificates_Inl:
  "parse_certificates E cs = Inl e \<Longrightarrow>
     is_err e ErrCertificateNotParsable \<and> (\<exists>c \<in> set cs. isl (ParseCertificate E c))"
  by (induction cs) (auto split: sum.splits)

lemma parse_certificates_ok:
  "isl (parse_certificates E cs) \<longleftrightarrow> (\<exists>c \<in> set cs. isl (ParseCertificate E c))"
  by (induction cs) (auto split: sum.splits)

lemma verify_certificates_eq:
  "verify_certificates E pool certs =
     (if \<forall>c \<in> set certs. cert_Verify E pool c = None then None
      else Some (Errorf [] [Sentinel ErrCertificateInvalid]))"
  by (induction certs) (auto split: option.splits)

lemma ParseClientAuthType_String [simp]:
  "ParseClientAuthType (ClientAuthType_String a) = Inr a"
  by (cases a) (simp_all add: ParseClientAuthType_def)

lemma ParseClientAuthType_Inr:
  "ParseClientAuthType t = Inr a \<longleftrightarrow> t = ClientAuthType_String a"
proof
  assume "ParseClientAuthType t = Inr a"
  then show "t = ClientAuthType_String a"
    by (simp add: ParseClientAuthType_def split: if_splits)
qed simp

text \<open>
  Whatever is not one of the four names, the \<open>1.2\<close> of the package's own example included, is read as
  version 0, the default of \<open>crypto/tls\<close>; the check of \<open>Validate\<close> never fails.
\<close>

lemma ParseTLSVersion_total:
  "ParseTLSVersion v = Inr (if v \<in> {''TLS 1.0'', ''TLS 1.1'', ''TLS 1.2'', ''TLS 1.3''}
     then (SOME n. n \<in> {769, 770, 771, 772} \<and> VersionName n = v) else 0)"
proof -
  have "(SOME n. n \<in> {769, 770, 771, 772} \<and> VersionName n = VersionName m) = m"
    if "m \<in> {769, 770, 771, 772}" for m
    by (rule some_equality) (use that in \<open>auto simp: VersionName_def\<close>)
  from this [of 769] this [of 770] this [of 771] this [of 772] show ?thesis
    by (auto simp: ParseTLSVersion_def VersionName_def)
qed

lemma unknown_version_is_default: "ParseTLSVersion ''1.3'' = Inr 0"
  by (simp add: ParseTLSVersion_def)

text \<open>A client without a key pair trusts the system roots, whatever \<open>RootCAs\<close> says.\<close>

lemma client_ignores_root_CAs:
  "tls_Key cfg = [] \<or> tls_Cert cfg = [] \<Longrightarrow> \<exists>t. tlsclient_NewForConfig E cfg [] = Inr t \<and> go_RootCAs t = None"
  by (auto simp: tlsclient_NewForConfig_def tlsclient_ApplyDefaults_def tls_ApplyDefaults_def
      ParseTLSVersion_def TLSConfig_Validate_def Let_def)

section \<open>Flags of the server\<close>

definition tlsserver_values :: "tls_server_config \<Rightarrow> (string, flag_value) gomap" where
  "tlsserver_values c =
     [(''tls-client-auth'', FString (ClientAuthType c)),
      (''tls-server-cert'', FString (tls_Cert c)),
      (''tls-server-key'', FString (tls_Key c)),
      (''tls-server-cacerts'', FStrings (tls_RootCAs c)),
      (''tls-server-min-version'', FString (tls_MinVersion c))]"

lemma bind_tlsserver_fields:
  "bind_flag (map_option (\<lambda>v. Inr (f0 v)) flag) (\<lambda>x c. c\<lparr>ClientAuthType := x\<rparr>) (Inr (c :: tls_server_config)) = Inr (c\<lparr>ClientAuthType := bound_value f0 flag (ClientAuthType c)\<rparr>)"
  "bind_flag (map_option (\<lambda>v. Inr (f1 v)) flag) (\<lambda>x c. c\<lparr>tls_Cert := x\<rparr>) (Inr (c :: tls_server_config)) = Inr (c\<lparr>tls_Cert := bound_value f1 flag (tls_Cert c)\<rparr>)"
  "bind_flag (map_option (\<lambda>v. Inr (f2 v)) flag) (\<lambda>x c. c\<lparr>tls_Key := x\<rparr>) (Inr (c :: tls_server_config)) = Inr (c\<lparr>tls_Key := bound_value f2 flag (tls_Key c)\<rparr>)"
  "bind_flag (map_option (\<lambda>v. Inr (f3 v)) flag) (\<lambda>x c. c\<lparr>tls_RootCAs := x\<rparr>) (Inr (c :: tls_server_config)) = Inr (c\<lparr>tls_RootCAs := bound_value f3 flag (tls_RootCAs c)\<rparr>)"
  "bind_flag (map_option (\<lambda>v. Inr (f4 v)) flag) (\<lambda>x c. c\<lparr>tls_MinVersion := x\<rparr>) (Inr (c :: tls_server_config)) = Inr (c\<lparr>tls_MinVersion := bound_value f4 flag (tls_MinVersion c)\<rparr>)"
  by (rule bind_field, simp)+

interpretation tlsserver_flags: flag_config tlsserver_RegisterFlags tlsserver_values tlsserver_BindFlags
proof (unfold_locales, goal_cases)
  case (1 c)
  show ?case by (simp add: tlsserver_values_def tlsserver_RegisterFlags_def Let_def)
next
  case (2 fs c)
  note typed = 2 [unfolded parsed_flags_def tlsserver_RegisterFlags_def Let_def, simplified, unfolded same_kind_simps]
  show ?case
    unfolding tlsserver_BindFlags_def tlsserver_values_def overlay_def
    by (simp add: get_typed typed bind_tlsserver_fields bound_flag)
qed

section \<open>Properties\<close>

text \<open>
  \<open>VerifyPeerCertificate\<close> accepts exactly the chains all of whose certificates parse and verify
  against the pool; a certificate that does not parse is reported as not parsable, before any is
  verified, and otherwise the error is \<open>ErrCertificateInvalid\<close>.
\<close>

theorem VerifyPeerCertificate_spec:
  "(VerifyPeerCertificate E pool certificates = None) =
     list_all (\<lambda>c. case ParseCertificate E c of Inl e \<Rightarrow> False | Inr cert \<Rightarrow> cert_Verify E pool cert = None)
       certificates \<and>
   (list_ex (\<lambda>c. isl (ParseCertificate E c)) certificates =
     (case VerifyPeerCertificate E pool certificates of
        None \<Rightarrow> False | Some e \<Rightarrow> is_err e ErrCertificateNotParsable)) \<and>
   pred_option (\<lambda>e. is_err e ErrCertificateNotParsable \<or> is_err e ErrCertificateInvalid)
     (VerifyPeerCertificate E pool certificates)"
proof (cases "parse_certificates E certificates")
  case (Inl e)
  then obtain c e' where c: "c \<in> set certificates" "ParseCertificate E c = Inl e'"
    using parse_certificates_Inl [OF Inl] by (auto simp: isl_def)
  then have "\<not> list_all (\<lambda>c. case ParseCertificate E c of Inl e \<Rightarrow> False
      | Inr cert \<Rightarrow> cert_Verify E pool cert = None) certificates"
    by (force simp: list_all_iff)
  moreover have "list_ex (\<lambda>c. isl (ParseCertificate E c)) certificates"
    using c by (force simp: list_ex_iff)
  ultimately show ?thesis using Inl parse_certificates_Inl [OF Inl]
    by (simp add: VerifyPeerCertificate_def)
next
  case (Inr certs)
  have ne: "\<not> list_ex (\<lambda>c. isl (ParseCertificate E c)) certificates"
    using parse_certificates_ok [of E certificates] Inr by (auto simp: list_ex_iff)
  have "list_all (\<lambda>c. case ParseCertificate E c of Inl e \<Rightarrow> False | Inr cert \<Rightarrow> cert_Verify E pool cert = None)
      certificates = (\<forall>r \<in> set (map (ParseCertificate E) certificates).
        case r of Inl e \<Rightarrow> False | Inr cert \<Rightarrow> cert_Verify E pool cert = None)"
    by (simp add: list_all_iff)
  also have "\<dots> = (\<forall>c \<in> set certs. cert_Verify E pool c = None)"
    by (simp add: parse_certificates_Inr [OF Inr])
  finally show ?thesis using Inr ne by (simp add: VerifyPeerCertificate_def verify_certificates_eq)
qed

text \<open>
  A server made from a configuration that \<open>Validate\<close> accepts and that is not disabled asks its
  clients for certificates exactly as configured and verifies them against exactly the certificates
  of the CA files, in their order. With \<open>RequireAndVerifyClientCert\<close> that pool is not empty, so it
  never falls back on the roots of the system.
\<close>

theorem tlsserver_verifies_clients:
  assumes "tlsserver_Validate cfg = None" "\<not> tls_Disabled cfg"
    and "tlsserver_NewForConfig E cfg [] = Inr t"
  shows "ClientAuthType cfg = ClientAuthType_String (go_ClientAuth t) \<and>
    go_ClientCAs t = Some (concat (map (ca_certs E) (tls_RootCAs cfg))) \<and>
    (\<exists>keypair. LoadX509KeyPair E (tls_Cert cfg) (tls_Key cfg) = Inr keypair \<and>
      go_Certificates t = [Some keypair]) \<and>
    (go_ClientAuth t = RequireAndVerifyClientCert \<longrightarrow> go_ClientCAs t \<noteq> Some [])"
proof -
  have v: "tls_Cert cfg \<noteq> []" "tls_Key cfg \<noteq> []"
    "ClientAuthType cfg = ''RequireAndVerifyClientCert'' \<longrightarrow> tls_RootCAs cfg \<noteq> []"
    "\<exists>a. ParseClientAuthType (ClientAuthType cfg) = Inr a"
    using assms(1) by (auto simp: tlsserver_Validate_def split: sum.splits if_splits)
  then obtain a where a: "ClientAuthType cfg = ClientAuthType_String a"
    by (auto simp: ParseClientAuthType_Inr)
  let ?c = "tlsserver_ApplyDefaults cfg"
  have c: "tls_Cert ?c = tls_Cert cfg" "tls_Key ?c = tls_Key cfg" "tls_RootCAs ?c = tls_RootCAs cfg"
    "tls_Disabled ?c = tls_Disabled cfg" "ClientAuthType ?c = ClientAuthType cfg"
    using a by (cases a; simp add: tlsserver_ApplyDefaults_def tls_ApplyDefaults_def Let_def)+
  have u: "UseTLS (Some ?c)" using v(1,2) c assms(2) by (simp add: UseTLS_def)
  obtain pool keypair where x: "NewX509KeyPair E (tls_Cert cfg) (tls_Key cfg) (tls_RootCAs cfg) = Inr (pool, keypair)"
    using assms(3) u c(1-3) a
    by (cases "NewX509KeyPair E (tls_Cert cfg) (tls_Key cfg) (tls_RootCAs cfg)")
      (auto simp: tlsserver_NewForConfig_def cfg_ParseClientAuthType_def c Let_def)
  have t: "go_ClientAuth t = a" "go_ClientCAs t = Some pool" "go_Certificates t = [Some keypair]"
    using assms(3) u x a
    by (auto simp: tlsserver_NewForConfig_def cfg_ParseClientAuthType_def c Let_def ParseTLSVersion_def
        TLSConfig_Validate_def split: if_splits)
  note p = NewX509KeyPair_Inr [OF x]
  have "pool \<noteq> []" if "a = RequireAndVerifyClientCert"
  proof -
    from that a v(3) have "tls_RootCAs cfg \<noteq> []" by simp
    with p show ?thesis by (cases "tls_RootCAs cfg") auto
  qed
  with t p a show ?thesis by auto
qed

theorem tlsserver_verifies_clients_witness:
  "\<exists>t. tlsserver_NewForConfig
     \<lparr>filepath_Clean = (\<lambda>p. p), tls_ReadFile = (\<lambda>_. Inr ''pem''), parse_pem = (\<lambda>_. [7 :: nat]),
      LoadX509KeyPair = (\<lambda>_ _. Inr True), ParseCertificate = (\<lambda>_. Inr 0), cert_Verify = (\<lambda>_ _. None)\<rparr>
     \<lparr>tls_Cert = ''crt'', tls_Key = ''key'', tls_RootCAs = [''ca''], tls_MinVersion = [],
      tls_Disabled = False, ClientAuthType = ''RequireAndVerifyClientCert''\<rparr> [] = Inr t \<and>
     go_ClientCAs t = Some [7]"
proof -
  let ?E = "\<lparr>filepath_Clean = (\<lambda>p. p), tls_ReadFile = (\<lambda>_. Inr ''pem''), parse_pem = (\<lambda>_. [7 :: nat]),
      LoadX509KeyPair = (\<lambda>_ _. Inr True), ParseCertificate = (\<lambda>_. Inr 0), cert_Verify = (\<lambda>_ _. None)\<rparr>"
  let ?c = "\<lparr>tls_Cert = ''crt'', tls_Key = ''key'', tls_RootCAs = [''ca''], tls_MinVersion = [],
      tls_Disabled = False, ClientAuthType = ''RequireAndVerifyClientCert''\<rparr>"
  have "\<exists>t. tlsserver_NewForConfig ?E ?c [] = Inr t"
    by (simp add: tlsserver_NewForConfig_def tlsserver_ApplyDefaults_def tls_ApplyDefaults_def UseTLS_def
        cfg_ParseClientAuthType_def ParseClientAuthType_def NewX509KeyPair_def NewCertPool_def
        ParseTLSVersion_def TLSConfig_Validate_def Let_def)
  then obtain t where t: "tlsserver_NewForConfig ?E ?c [] = Inr t" by blast
  from tlsserver_verifies_clients [OF _ _ t] have "go_ClientCAs t = Some [7]"
    by (simp add: tlsserver_Validate_def ParseClientAuthType_def ParseTLSVersion_def ca_certs_def)
  with t show ?thesis by blast
qed

end
