(* ===== verification/Auth.thy ===== *)
theory Auth
  imports Access Strings Tls
begin

text \<open>
  The authorization middlewares \<open>certificate\<close>, \<open>npa\<close>, \<open>user\<close>, \<open>trust\<close> and \<open>oauth\<close> of
  \<open>pkg/middleware/authorization\<close>, and the dynamic scope types they parse.

  A request is what the handlers read of the gin context: path, headers, the certificates of the
  TLS connection (\<open>None\<close> without TLS), the trust in its context and the keys set on it. A handler
  either calls \<open>Next\<close> with the changed request, aborts with a status, or panics; a chain runs its
  handlers in order. Tracing spans and logging change nothing of this and are left out.
\<close>

section \<open>Requests and chains of handlers\<close>

record session_state =
  User :: string
  Email :: string
  AccessToken :: string

datatype gin_value = VSession session_state | VString string

record 'u gin_request =
  req_Path :: string
  GetHeader :: "string \<Rightarrow> string"
  PeerCertificates :: "'u certificate list option"
  req_Context :: request_ctx
  gin_Keys :: "(string, gin_value) gomap"

datatype 'b body = ErrorJSON err | Custom 'b

datatype ('u, 'b) outcome = Next "'u gin_request" | Abort int "'b body option" | Panics

type_synonym ('u, 'b) handler = "'u gin_request \<Rightarrow> ('u, 'b) outcome"

definition StatusUnauthorized :: int where
  "StatusUnauthorized = 401"

fun run_chain :: "('u, 'b) handler list \<Rightarrow> ('u, 'b) handler" where
  "run_chain [] r = Next r"
| "run_chain (h # hs) r = (case h r of Next r' \<Rightarrow> run_chain hs r' | o' \<Rightarrow> o')"

lemma run_chain_append:
  "run_chain (hs @ hs') r = (case run_chain hs r of Next r' \<Rightarrow> run_chain hs' r' | o' \<Rightarrow> o')"
  by (induction hs arbitrary: r) (auto split: outcome.split)

lemma run_chain_two:
  "run_chain [h, g] r = Next r' \<longleftrightarrow> (\<exists>r1. h r = Next r1 \<and> g r1 = Next r')"
  by (auto split: outcome.splits)

fun first_error :: "err option list \<Rightarrow> err option" where
  "first_error [] = None"
| "first_error (None # es) = first_error es"
| "first_error (Some e # es) = Some e"

lemma first_error_None: "first_error es = None \<longleftrightarrow> (\<forall>e \<in> set es. e = None)"
  by (induction es rule: first_error.induct) auto

section \<open>Parsers of scopes\<close>

text \<open>
  A registered parser, of which the clients ask by a type assertion whether it has the method they
  need. \<open>FromJSON\<close> returns the value together with the error of \<open>json.Unmarshal\<close>, which may have
  filled it in part. Raw JSON is of type \<open>'j\<close>.
\<close>

type_synonym 'j parse_scope = "'j \<Rightarrow> scope option \<times> err option"

record ('j, 'u) scope_parser =
  GetName :: string
  ParseNpaScope :: "'j parse_scope option"
  ParseCertificateScope :: "'j parse_scope option"
  ParseTrustScope :: "'j parse_scope option"
  parser_ParseUserHeader :: "('u gin_request \<Rightarrow> scope list) option"

definition FromJSON :: "('j \<Rightarrow> 't \<times> err option) \<Rightarrow> ('t \<Rightarrow> scope) \<Rightarrow> 'j parse_scope" where
  "FromJSON unmarshal as_scope raw = (case unmarshal raw of (t, e) \<Rightarrow> (Some (as_scope t), e))"

definition AsScopeSlice :: "('t \<Rightarrow> scope) \<Rightarrow> 't list \<Rightarrow> scope list" where
  "AsScopeSlice as_scope items = Transform items as_scope"

definition ScopeType :: string where
  "ScopeType = ''basic''"

definition BasicParser ::
  "('j \<Rightarrow> basic_scope \<times> err option) \<Rightarrow> string \<Rightarrow> ('j, 'u) scope_parser" where
  "BasicParser unmarshal teamNameHeader =
     \<lparr>GetName = ScopeType, ParseNpaScope = Some (FromJSON unmarshal basic),
      ParseCertificateScope = None, ParseTrustScope = None,
      parser_ParseUserHeader = Some (\<lambda>c. ParseUserHeader (GetHeader c teamNameHeader))\<rparr>"

record ('t, 'u) anon_parser =
  anon_name :: string
  parseUserHeaders :: "('u gin_request \<Rightarrow> 't list) option"

definition WithUserHeaderParser ::
  "('u gin_request \<Rightarrow> 't list) \<Rightarrow> ('t, 'u) anon_parser cfg_option" where
  "WithUserHeaderParser headerParser f = Inr (f\<lparr>parseUserHeaders := Some headerParser\<rparr>)"

definition Anon_ParseUserHeader ::
  "('t \<Rightarrow> scope) \<Rightarrow> ('t, 'u) anon_parser \<Rightarrow> 'u gin_request \<Rightarrow> scope list" where
  "Anon_ParseUserHeader as_scope a c =
     (case parseUserHeaders a of None \<Rightarrow> [] | Some p \<Rightarrow> AsScopeSlice as_scope (p c))"

definition AnonScopeParser ::
  "('j \<Rightarrow> 't \<times> err option) \<Rightarrow> ('t \<Rightarrow> scope) \<Rightarrow> ('t, 'u) anon_parser \<Rightarrow> ('j, 'u) scope_parser" where
  "AnonScopeParser unmarshal as_scope a =
     \<lparr>GetName = anon_name a, ParseNpaScope = Some (FromJSON unmarshal as_scope),
      ParseCertificateScope = Some (FromJSON unmarshal as_scope), ParseTrustScope = None,
      parser_ParseUserHeader = Some (Anon_ParseUserHeader as_scope a)\<rparr>"

type_synonym ('j, 'u) parsers = "(string, ('j, 'u) scope_parser) gomap"

definition RegisterScopeType ::
  "('j \<Rightarrow> 't \<times> err option) \<Rightarrow> ('t \<Rightarrow> scope) \<Rightarrow> string \<Rightarrow>
    ('t, 'u) anon_parser cfg_option option list \<Rightarrow> ('j, 'u) parsers \<Rightarrow> err + ('j, 'u) parsers" where
  "RegisterScopeType unmarshal as_scope name options registry =
     (case ApplyOpts \<lparr>anon_name = name, parseUserHeaders = None\<rparr> options of
        Inl e \<Rightarrow> Inl e
      | Inr parser \<Rightarrow>
          Inr (RegisterParser GetName (AnonScopeParser unmarshal as_scope parser) registry))"

text \<open>\<open>parser, _ := MatchCustomParser(...)\<close>: \<open>nil\<close> when there is none.\<close>

definition match_parser ::
  "(('j, 'u) scope_parser \<Rightarrow> 't option) \<Rightarrow> string \<Rightarrow> ('j, 'u) parsers \<Rightarrow> 't option" where
  "match_parser conv name registry =
     (case MatchCustomParser conv name registry of Inl e \<Rightarrow> None | Inr parser \<Rightarrow> Some parser)"

section \<open>Certificates\<close>

record 'j allowed_certificate =
  CNs :: "string list"
  cert_Scopes :: "scope list"
  cert_RawScopes :: "'j list"

record 'j certificate_config =
  cert_Enabled :: bool
  SkipServerCNInjection :: bool
  Certificates :: "'j allowed_certificate list"
  SkipPaths :: "string list option"
  cert_ScopeType :: string
  cert_ScopeParser :: "'j parse_scope option"

definition cert_DefaultSkipPaths :: "string list" where
  "cert_DefaultSkipPaths =
     [''/metrics'', ''/health'', ''/ready'', ''/healthz'', ''/readyz'', ''/swagger'']"

definition certificate_ApplyDefaults ::
  "('j, 'u) parsers \<Rightarrow> 'j certificate_config \<Rightarrow> 'j certificate_config" where
  "certificate_ApplyDefaults registry c =
     (let c = (if SkipPaths c = None then c\<lparr>SkipPaths := Some cert_DefaultSkipPaths\<rparr> else c)
      in if cert_ScopeParser c \<noteq> None then c
         else
           (let c = (if cert_ScopeType c = [] then c\<lparr>cert_ScopeType := ScopeType\<rparr> else c)
            in c\<lparr>cert_ScopeParser :=
                 match_parser ParseCertificateScope (cert_ScopeType c) registry\<rparr>))"

definition certificate_Validate :: "'j certificate_config \<Rightarrow> err option" where
  "certificate_Validate c =
     (if cert_Enabled c \<and> Certificates c = [] then
        Some (new_error ''certificateAuth is enabled but no allowed hosts certificates are configured'')
      else
        first_error (map (\<lambda>(i, cert).
          if CNs cert = [] then
            Some (new_error ''certificateAuth is enabled but no allowed hosts certificate CNs are configured'')
          else first_error (map (\<lambda>s. case scope_Validate s of None \<Rightarrow> None
            | Some e \<Rightarrow> Some (Errorf (''invalid scope in certificateAuth configuration at index '' @ itoa i)
                [e])) (cert_Scopes cert))) (enumerate 0 (Certificates c))))"

definition MatchAnyCommonName :: "'j allowed_certificate \<Rightarrow> string list \<Rightarrow> string option" where
  "MatchAnyCommonName h cns = MatchAny (CNs h) cns"

fun MatchCertificate ::
  "'j allowed_certificate list \<Rightarrow> string list \<Rightarrow> ('j allowed_certificate \<times> string) option" where
  "MatchCertificate [] commonNames = None"
| "MatchCertificate (host # hosts) commonNames =
     (case MatchAnyCommonName host commonNames of
        Some cn \<Rightarrow> Some (host, cn)
      | None \<Rightarrow> MatchCertificate hosts commonNames)"

definition TrustCertificate :: string where "TrustCertificate = ''Certificate''"

text \<open>The end of the middlewares that authenticate: the account becomes the trust of the context.\<close>

definition set_trust :: "account \<Rightarrow> ('u, 'b) handler" where
  "set_trust account c =
     (case SetTrust (req_Context c) account of
        Inl e \<Rightarrow> Abort StatusUnauthorized None
      | Inr ctx \<Rightarrow> Next (c\<lparr>req_Context := ctx\<rparr>))"

definition certificate_Middleware :: "'j certificate_config \<Rightarrow> ('u, 'b) handler" where
  "certificate_Middleware cfg c =
     (if \<not> cert_Enabled cfg then Next c
      else
        (case PeerCertificates c of
           None \<Rightarrow> Abort StatusUnauthorized None
         | Some [] \<Rightarrow> Abort StatusUnauthorized None
         | Some certs \<Rightarrow>
             (let cns = ExtractCommonNames certs; dnsNames = ExtractDNSNames certs in
              case MatchCertificate (Certificates cfg) (Concat [cns, dnsNames]) of
                None \<Rightarrow> Abort StatusUnauthorized None
              | Some (cert, matchBy) \<Rightarrow>
                  set_trust \<lparr>Trust = TrustCertificate, acc_Name = matchBy, Scopes = cert_Scopes cert\<rparr>
                    c)))"

definition FlagCertificateAuthEnabled :: string where
  "FlagCertificateAuthEnabled = ''middleware-certificate-auth-enabled''"

definition certificate_RegisterFlags :: "(string, flag_value) gomap" where
  "certificate_RegisterFlags = [(FlagCertificateAuthEnabled, FBool False)]"

definition certificate_BindFlags ::
  "flags \<Rightarrow> 'j certificate_config \<Rightarrow> err + 'j certificate_config" where
  "certificate_BindFlags fs c =
     bind_flag (get_bool fs FlagCertificateAuthEnabled) (\<lambda>x c. c\<lparr>cert_Enabled := x\<rparr>) (Inr c)"

section \<open>Non-personal accounts\<close>

record 'j allowed_npa =
  npa_Scopes :: "scope option list option"
  npa_RawScopes :: "'j list option"
  npa_Name :: string

record 'j npa_config =
  npa_Enabled :: bool
  npa_Header :: string
  AllowedNPAs :: "'j allowed_npa list"
  npa_ScopeType :: string
  npa_ScopeParser :: "'j parse_scope option"

text \<open>
  The loops of \<open>ApplyDefaults\<close>; \<open>None\<close> is a panic. The range variable \<open>npa\<close> is a copy, so the
  slice made for it is not the one that \<open>c.AllowedNPAs[i].Scopes[j]\<close> writes to.
\<close>

definition store_scope :: "nat \<Rightarrow> nat \<Rightarrow> scope option \<Rightarrow> 'j npa_config \<Rightarrow> 'j npa_config option" where
  "store_scope i j s c =
     (if i < length (AllowedNPAs c) then
        (case npa_Scopes (AllowedNPAs c ! i) of
           None \<Rightarrow> None
         | Some scopes \<Rightarrow>
             if j < length scopes then
               Some (c\<lparr>AllowedNPAs := (AllowedNPAs c)[i := (AllowedNPAs c ! i)
                 \<lparr>npa_Scopes := Some (scopes[j := s])\<rparr>]\<rparr>)
             else None)
      else None)"

fun parse_raw :: "nat \<Rightarrow> nat \<Rightarrow> 'j list \<Rightarrow> 'j npa_config \<Rightarrow> 'j npa_config option" where
  "parse_raw i j [] c = Some c"
| "parse_raw i j (rawScope # raws) c =
     (case npa_ScopeParser c of
        None \<Rightarrow> None
      | Some parser \<Rightarrow>
          (case store_scope i j (fst (parser rawScope)) c of
             None \<Rightarrow> None
           | Some c \<Rightarrow> parse_raw i (Suc j) raws c))"

fun parse_npas :: "nat \<Rightarrow> 'j allowed_npa list \<Rightarrow> 'j npa_config \<Rightarrow> 'j npa_config option" where
  "parse_npas i [] c = Some c"
| "parse_npas i (npa # npas) c =
     (case (if npa_Scopes npa = None then npa_RawScopes npa else None) of
        None \<Rightarrow> parse_npas (Suc i) npas c
      | Some raws \<Rightarrow>
          (case parse_raw i 0 raws c of
             None \<Rightarrow> None
           | Some c \<Rightarrow> parse_npas (Suc i) npas c))"

definition npa_ApplyDefaults ::
  "('j, 'u) parsers \<Rightarrow> 'j npa_config \<Rightarrow> 'j npa_config option" where
  "npa_ApplyDefaults registry c =
     (if npa_ScopeParser c \<noteq> None then Some c
      else
        (let c = (if npa_ScopeType c = [] then c\<lparr>npa_ScopeType := ScopeType\<rparr> else c);
             c = c\<lparr>npa_ScopeParser := match_parser ParseNpaScope (npa_ScopeType c) registry\<rparr>
         in parse_npas 0 (AllowedNPAs c) c))"

text \<open>\<open>auth.Validate()\<close> on a \<open>nil\<close> scope panics; here the outer \<open>None\<close>.\<close>

fun validate_scopes :: "nat \<Rightarrow> nat \<Rightarrow> scope option list \<Rightarrow> err option option" where
  "validate_scopes i j [] = Some None"
| "validate_scopes i j (None # scopes) = None"
| "validate_scopes i j (Some auth # scopes) =
     (case scope_Validate auth of
        Some e \<Rightarrow> Some (Some (Errorf (''invalid scope in NPA configuration at index '' @ itoa i @ '' - '' @
          itoa j) [e]))
      | None \<Rightarrow> validate_scopes i (Suc j) scopes)"

fun validate_npas :: "nat \<Rightarrow> 'j allowed_npa list \<Rightarrow> err option option" where
  "validate_npas i [] = Some None"
| "validate_npas i (npa # npas) =
     (if npa_Name npa = [] then Some (Some (new_error ''NPA name cannot be empty''))
      else
        (case npa_Scopes npa of
           None \<Rightarrow> Some (Some (new_error (''empty or unparsed scope in NPA configuration at index '' @ itoa i)))
         | Some scopes \<Rightarrow>
             (case validate_scopes i 0 scopes of
                Some None \<Rightarrow> validate_npas (Suc i) npas
              | r \<Rightarrow> r)))"

definition npa_Validate :: "'j npa_config \<Rightarrow> err option option" where
  "npa_Validate c =
     (if npa_Enabled c then
        (if npa_Header c = [] then Some (Some (new_error ''NPA header cannot be empty''))
         else if AllowedNPAs c = [] then
           Some (Some (new_error ''allowedNPA middleware is enabled but no allowed NPAs are configured''))
         else validate_npas 0 (AllowedNPAs c))
      else Some None)"

definition TrustNPA :: string where "TrustNPA = ''NPA''"

text \<open>
  \<open>Account.Validate\<close> stops at the first scope that is invalid and panics when it comes to a
  \<open>nil\<close> one before.
\<close>

fun reaches_nil :: "scope option list \<Rightarrow> bool" where
  "reaches_nil [] = False"
| "reaches_nil (None # scopes) = True"
| "reaches_nil (Some s # scopes) = (scope_Validate s = None \<and> reaches_nil scopes)"

definition npa_account :: "string \<Rightarrow> scope option list option \<Rightarrow> account" where
  "npa_account name scopes =
     \<lparr>Trust = TrustNPA, acc_Name = name,
      Scopes = (case scopes of None \<Rightarrow> [] | Some ss \<Rightarrow> List.map_filter id ss)\<rparr>"

definition npa_lookup :: "'j npa_config \<Rightarrow> (string, 'j allowed_npa) gomap" where
  "npa_lookup cfg = Map (AllowedNPAs cfg) (\<lambda>item. ToLower (npa_Name item))"

definition npa_Middleware :: "'j npa_config \<Rightarrow> ('u, 'b) handler" where
  "npa_Middleware cfg c =
     (if \<not> npa_Enabled cfg then Next c
      else
        (let name = GetHeader c (npa_Header cfg) in
         case map_of (npa_lookup cfg) (ToLower name) of
           None \<Rightarrow> Next c
         | Some auth \<Rightarrow>
             (if (case npa_Scopes auth of None \<Rightarrow> False | Some ss \<Rightarrow> reaches_nil ss) then Panics
              else set_trust (npa_account name (npa_Scopes auth)) c)))"

section \<open>Users\<close>

record 'u user_config =
  user_Enabled :: bool
  UsernameHeader :: string
  user_ScopeType :: string
  user_ScopeParser :: "('u gin_request \<Rightarrow> scope list) option"

definition user_ApplyDefaults ::
  "('j, 'u) parsers \<Rightarrow> 'u user_config \<Rightarrow> 'u user_config" where
  "user_ApplyDefaults registry c =
     (let c = (if user_ScopeType c = [] then c\<lparr>user_ScopeType := ScopeType\<rparr> else c)
      in if user_ScopeParser c \<noteq> None then c
         else
           (case MatchCustomParser parser_ParseUserHeader (user_ScopeType c) registry of
              Inl e \<Rightarrow> c
            | Inr parser \<Rightarrow> c\<lparr>user_ScopeParser := Some parser\<rparr>))"

definition user_Validate :: "'u user_config \<Rightarrow> err option" where
  "user_Validate c =
     (if \<not> user_Enabled c then None
      else if UsernameHeader c = [] then Some (new_error ''username header is required'')
      else if user_ScopeParser c = None then Some (new_error ''no parser found'')
      else None)"

definition TrustUser :: string where "TrustUser = ''User''"

definition user_Middleware :: "'u user_config \<Rightarrow> ('u, 'b) handler" where
  "user_Middleware cfg c =
     (if \<not> user_Enabled cfg then Next c
      else
        (let name = GetHeader c (UsernameHeader cfg) in
         if name \<noteq> [] then
           (case user_ScopeParser cfg of
              None \<Rightarrow> Panics
            | Some parser \<Rightarrow>
                set_trust \<lparr>Trust = TrustUser, acc_Name = name, Scopes = parser c\<rparr> c)
         else Next c))"

section \<open>The required trust\<close>

record 'j trust_config =
  trust_Enabled :: bool
  RequiredScope :: "scope option"
  RawRequiredScope :: "'j option"
  trust_ScopeType :: string
  trust_ScopeParser :: "'j parse_scope option"

definition trust_ApplyDefaults ::
  "('j, 'u) parsers \<Rightarrow> 'j trust_config \<Rightarrow> 'j trust_config option" where
  "trust_ApplyDefaults registry c =
     (if trust_ScopeParser c \<noteq> None then Some c
      else
        (let c = (if trust_ScopeType c = [] then c\<lparr>trust_ScopeType := ScopeType\<rparr> else c);
             c = c\<lparr>trust_ScopeParser := match_parser ParseTrustScope (trust_ScopeType c) registry\<rparr>
         in case (if RequiredScope c = None then RawRequiredScope c else None) of
              None \<Rightarrow> Some c
            | Some raw \<Rightarrow>
                (case trust_ScopeParser c of
                   None \<Rightarrow> None
                 | Some parser \<Rightarrow> Some (c\<lparr>RequiredScope := fst (parser raw)\<rparr>))))"

definition trust_Validate :: "'j trust_config \<Rightarrow> err option" where
  "trust_Validate c =
     (if \<not> trust_Enabled c then None
      else
        (case RequiredScope c of
           None \<Rightarrow> Some (new_error ''required scope is missing'')
         | Some s \<Rightarrow> scope_Validate s))"

definition trust_Middleware :: "'j trust_config \<Rightarrow> ('u, 'b) handler" where
  "trust_Middleware cfg c =
     (if \<not> trust_Enabled cfg then Next c
      else
        (case RequiredScope cfg of
           None \<Rightarrow> Panics
         | Some required \<Rightarrow>
             (case NewSubjectAccessReview (req_Context c) required of
                Inl e \<Rightarrow> Abort StatusUnauthorized None
              | Inr sar \<Rightarrow>
                  if Allowed (Access.Status sar) then Next c else Abort StatusUnauthorized None)))"

section \<open>What the handlers leave alone\<close>

text \<open>
  The contract of a handler of this package: it changes the context only, and an account that it
  finds or leaves there is valid.
\<close>

definition valid_trust :: "request_ctx \<Rightarrow> bool" where
  "valid_trust ctx = (case ctx of Some (TrustAccount a) \<Rightarrow> Account_Validate a = None | _ \<Rightarrow> True)"

locale trust_handler =
  fixes h :: "('u, 'b) handler"
  assumes frame: "h r = Next r' \<Longrightarrow> r' = r\<lparr>req_Context := req_Context r'\<rparr>"
    and keeps_valid: "h r = Next r' \<Longrightarrow> valid_trust (req_Context r) \<Longrightarrow> valid_trust (req_Context r')"
begin

lemma keeps_certificates: "h r = Next r' \<Longrightarrow> PeerCertificates r' = PeerCertificates r"
  by (drule frame, cases r, cases r') simp

lemma keeps_headers: "h r = Next r' \<Longrightarrow> GetHeader r' = GetHeader r"
  by (drule frame, cases r, cases r') simp

lemma keeps_path: "h r = Next r' \<Longrightarrow> req_Path r' = req_Path r"
  by (drule frame, cases r, cases r') simp

end

lemma set_trust_eq:
  "set_trust a r = (if Account_Validate a = None then Next (r\<lparr>req_Context := Some (TrustAccount a)\<rparr>)
     else Abort StatusUnauthorized None)"
  by (auto simp: set_trust_def SetTrust_def split: option.split)

lemma set_trust_Next:
  "set_trust a r = Next r' \<longleftrightarrow>
     Account_Validate a = None \<and> r' = r\<lparr>req_Context := Some (TrustAccount a)\<rparr>"
  by (auto simp: set_trust_eq)

lemma trust_Middleware_Next:
  "trust_Middleware cfg r = Next r' \<longleftrightarrow>
     r' = r \<and> (trust_Enabled cfg \<longrightarrow> (\<exists>s. RequiredScope cfg = Some s \<and> scope_Validate s = None \<and>
       MatchScope (Scopes (GetTrust (req_Context r))) s))"
  by (auto simp: trust_Middleware_def NewSubjectAccessReview_def reviewSAR_def Let_def
      split: option.splits)

interpretation certificate_handler: trust_handler "certificate_Middleware cfg"
proof (unfold_locales, goal_cases)
  case (1 r r')
  then show ?case
    by (auto simp: certificate_Middleware_def set_trust_Next Let_def
        split: if_splits option.splits list.splits prod.splits)
next
  case (2 r r')
  then show ?case
    by (auto simp: certificate_Middleware_def set_trust_Next valid_trust_def Let_def
        split: if_splits option.splits list.splits prod.splits)
qed

interpretation npa_handler: trust_handler "npa_Middleware cfg"
proof (unfold_locales, goal_cases)
  case (1 r r')
  then show ?case
    by (auto simp: npa_Middleware_def set_trust_Next Let_def split: if_splits option.splits)
next
  case (2 r r')
  then show ?case
    by (auto simp: npa_Middleware_def set_trust_Next valid_trust_def Let_def
        split: if_splits option.splits)
qed

interpretation user_handler: trust_handler "user_Middleware cfg"
proof (unfold_locales, goal_cases)
  case (1 r r')
  then show ?case
    by (auto simp: user_Middleware_def set_trust_Next Let_def split: if_splits option.splits)
next
  case (2 r r')
  then show ?case
    by (auto simp: user_Middleware_def set_trust_Next valid_trust_def Let_def
        split: if_splits option.splits)
qed

interpretation required_handler: trust_handler "trust_Middleware cfg"
  by unfold_locales (simp_all add: trust_Middleware_Next)

section \<open>Which certificate is matched\<close>

lemma MatchCertificate_find:
  "MatchCertificate hosts names =
     (case find (\<lambda>h. set (CNs h) \<inter> set names \<noteq> {}) hosts of
        None \<Rightarrow> None
      | Some h \<Rightarrow> map_option (Pair h) (MatchAny (CNs h) names))"
proof (induction hosts)
  case (Cons host hosts)
  show ?case
  proof (cases "MatchAny (CNs host) names")
    case None
    moreover have "set (CNs host) \<inter> set names = {}" using None by (simp only: MatchAny_None)
    ultimately show ?thesis using Cons by (simp add: MatchAnyCommonName_def)
  next
    case (Some cn)
    then have "set (CNs host) \<inter> set names \<noteq> {}" using MatchAny_None by (metis option.distinct(1))
    then show ?thesis using Some by (simp add: MatchAnyCommonName_def)
  qed
qed simp

definition presented_names :: "'u certificate list \<Rightarrow> string set" where
  "presented_names certs =
     {n. n \<noteq> [] \<and> (\<exists>cert \<in> set certs. n = CommonName cert \<or> n \<in> set (DNSNames cert))}"

lemma set_presented_names:
  "set (Concat [ExtractCommonNames certs, ExtractDNSNames certs]) = presented_names certs"
  by (auto simp: presented_names_def ExtractCommonNames_def ExtractDNSNames_def Concat_def
      Transform_def)

definition certificate_account :: "'j allowed_certificate \<Rightarrow> string \<Rightarrow> account" where
  "certificate_account host cn =
     \<lparr>Trust = TrustCertificate, acc_Name = cn, Scopes = cert_Scopes host\<rparr>"

lemma certificate_Middleware_Next:
  fixes r :: "'u gin_request"
  assumes "cert_Enabled cfg"
  shows "(certificate_Middleware cfg r :: ('u, 'b) outcome) = Next r' \<longleftrightarrow>
    (\<exists>certs host cn. PeerCertificates r = Some certs \<and>
       find (\<lambda>h. set (CNs h) \<inter> presented_names certs \<noteq> {}) (Certificates cfg) = Some host \<and>
       MatchAny (CNs host) (Concat [ExtractCommonNames certs, ExtractDNSNames certs]) = Some cn \<and>
       Account_Validate (certificate_account host cn) = None \<and>
       r' = r\<lparr>req_Context := Some (TrustAccount (certificate_account host cn))\<rparr>)"
proof (cases "\<exists>cert certs. PeerCertificates r = Some (cert # certs)")
  case False
  then have "PeerCertificates r = None \<or> PeerCertificates r = Some []"
    by (cases "PeerCertificates r") (auto simp: neq_Nil_conv intro: list.exhaust)
  then show ?thesis using assms
    by (auto simp: certificate_Middleware_def presented_names_def find_Some_iff)
next
  case True
  then obtain cert certs' where r: "PeerCertificates r = Some (cert # certs')" by blast
  let ?names = "Concat [ExtractCommonNames (cert # certs'), ExtractDNSNames (cert # certs')]"
  have "(certificate_Middleware cfg r :: ('u, 'b) outcome) =
      (case MatchCertificate (Certificates cfg) ?names of None \<Rightarrow> Abort StatusUnauthorized None
       | Some (host, cn) \<Rightarrow> set_trust (certificate_account host cn) r)"
    using assms by (simp add: certificate_Middleware_def r Let_def certificate_account_def split: option.split)
  then have "(certificate_Middleware cfg r :: ('u, 'b) outcome) = Next r' \<longleftrightarrow>
      (\<exists>host cn. MatchCertificate (Certificates cfg) ?names = Some (host, cn) \<and>
         set_trust (certificate_account host cn) r = (Next r' :: ('u, 'b) outcome))"
    by (simp split: option.split)
  also have "\<dots> \<longleftrightarrow> (\<exists>host cn.
       find (\<lambda>h. set (CNs h) \<inter> presented_names (cert # certs') \<noteq> {}) (Certificates cfg) = Some host \<and>
       MatchAny (CNs host) ?names = Some cn \<and> set_trust (certificate_account host cn) r = (Next r' :: ('u, 'b) outcome))"
    unfolding MatchCertificate_find set_presented_names by (auto split: option.split)
  finally show ?thesis by (simp add: r set_trust_Next)
qed

section \<open>Scopes of the configuration\<close>

lemma parse_npas_eq:
  assumes "drop i (AllowedNPAs c) = npas"
  shows "parse_npas i npas c =
    (if \<exists>npa \<in> set npas. npa_Scopes npa = None \<and> (\<exists>raw raws. npa_RawScopes npa = Some (raw # raws))
     then None else Some c)"
  using assms
proof (induction npas arbitrary: i)
  case (Cons npa npas)
  from Cons.prems have i: "i < length (AllowedNPAs c)" "AllowedNPAs c ! i = npa"
    "drop (Suc i) (AllowedNPAs c) = npas"
    by (metis drop_eq_Nil2 leI list.distinct(1), metis nth_via_drop, metis drop_Suc list.sel(3) tl_drop)
  note IH = Cons.IH [OF i(3)]
  show ?case
  proof (cases "npa_Scopes npa = None \<and> (\<exists>raw raws. npa_RawScopes npa = Some (raw # raws))")
    case True
    then have "parse_raw i 0 raws c = None" if "npa_RawScopes npa = Some raws" for raws
      using that i by (auto simp: store_scope_def split: option.split)
    then show ?thesis using True by auto
  next
    case False
    then have "npa_Scopes npa \<noteq> None \<or> npa_RawScopes npa = None \<or> npa_RawScopes npa = Some []"
      by (auto simp: neq_Nil_conv)
    then show ?thesis using IH False by (auto split: if_splits)
  qed
qed simp

lemma npa_ApplyDefaults_cases:
  assumes "npa_ScopeParser c = None"
  shows "npa_ApplyDefaults registry c = None \<or>
    (\<exists>c'. npa_ApplyDefaults registry c = Some c' \<and> AllowedNPAs c' = AllowedNPAs c \<and>
       npa_Enabled c' = npa_Enabled c)"
  using assms by (auto simp: npa_ApplyDefaults_def Let_def parse_npas_eq)

lemma validate_npas_unparsed:
  "npas \<noteq> [] \<Longrightarrow> \<forall>npa \<in> set npas. npa_Scopes npa = None \<Longrightarrow> validate_npas i npas \<noteq> Some None"
  by (cases npas) auto

lemma match_parser_Some:
  assumes "\<forall>p \<in> snd ` set registry. conv p = None"
  shows "match_parser conv name registry = None"
proof (cases "map_of registry name")
  case (Some p)
  then have "conv p = None" using assms by (metis image_eqI map_of_SomeD snd_conv)
  then show ?thesis using Some by (simp add: match_parser_def MatchCustomParser_def MatchScopeParser_def)
qed (simp add: match_parser_def MatchCustomParser_def MatchScopeParser_def)

section \<open>Accounts from headers\<close>

lemma map_of_Map: "map_of (Map xs key) k = find (\<lambda>x. key x = k) (rev xs)"
proof -
  have "map_of (fold (\<lambda>item m. AList.update (key item) item m) xs m) k =
      (case find (\<lambda>x. key x = k) (rev xs) of Some x \<Rightarrow> Some x | None \<Rightarrow> map_of m k)" for m
  proof (induction xs arbitrary: m)
    case (Cons x xs)
    show ?case
    proof (cases "find (\<lambda>x. key x = k) (rev xs)")
      case None
      then have "find (\<lambda>x. key x = k) (rev xs @ [x]) = (if key x = k then Some x else None)"
        by (simp add: find_append)
      then show ?thesis using Cons None by simp
    next
      case (Some y)
      then have "find (\<lambda>x. key x = k) (rev xs @ [x]) = Some y" by (simp add: find_append)
      then show ?thesis using Cons Some by simp
    qed
  qed simp
  from this [of "[]"] show ?thesis by (simp add: Map_def split: option.split)
qed

text \<open>
  The names of non-personal accounts are compared without regard to case and the last of equal ones
  counts; a request with another name goes on with the trust it has.
\<close>

lemma npa_Middleware_Next:
  "npa_Middleware cfg r = Next r' \<longleftrightarrow>
     (if \<not> npa_Enabled cfg then r' = r
      else
        (case find (\<lambda>a. ToLower (npa_Name a) = ToLower (GetHeader r (npa_Header cfg)))
            (rev (AllowedNPAs cfg)) of
           None \<Rightarrow> r' = r
         | Some a \<Rightarrow>
             \<not> (case npa_Scopes a of None \<Rightarrow> False | Some ss \<Rightarrow> reaches_nil ss) \<and>
             Account_Validate (npa_account (GetHeader r (npa_Header cfg)) (npa_Scopes a)) = None \<and>
             r' = r\<lparr>req_Context :=
               Some (TrustAccount (npa_account (GetHeader r (npa_Header cfg)) (npa_Scopes a)))\<rparr>))"
  by (auto simp: npa_Middleware_def npa_lookup_def map_of_Map set_trust_Next Let_def
      split: option.split)

text \<open>
  The last handler that authenticates wins: behind the certificate middleware a user name in the
  header replaces the account of the certificate.
\<close>

lemma last_authentication_wins:
  assumes "user_Enabled u" "user_ScopeParser u = Some parser" "GetHeader r (UsernameHeader u) \<noteq> []"
    and "run_chain (hs @ [user_Middleware u]) r = Next r'" "run_chain hs r = Next r1"
    and "GetHeader r1 = GetHeader r"
  shows "GetTrust (req_Context r') =
    \<lparr>Trust = TrustUser, acc_Name = GetHeader r (UsernameHeader u), Scopes = parser r1\<rparr>"
  using assms by (auto simp: run_chain_append user_Middleware_def set_trust_Next GetTrust_def Let_def
      split: outcome.splits if_splits)

section \<open>Examples\<close>

definition example_scope :: basic_scope where
  "example_scope = \<lparr>Actions = [''*''], Environments = [''dev''], Teams = [''a''], Roles = [''user'']\<rparr>"

definition example_host :: "unit allowed_certificate" where
  "example_host = \<lparr>CNs = [''payments''], cert_Scopes = [basic example_scope], cert_RawScopes = []\<rparr>"

definition example_request :: "unit gin_request" where
  "example_request =
     \<lparr>req_Path = ''/x'', GetHeader = (\<lambda>_. []),
      PeerCertificates = Some [
        \<lparr>CommonName = ''mallory'', DNSNames = [], URIs = []\<rparr>,
        \<lparr>CommonName = ''payments'', DNSNames = [], URIs = []\<rparr>],
      req_Context = None, gin_Keys = []\<rparr>"

definition example_certificates :: "unit certificate_config" where
  "example_certificates =
     \<lparr>cert_Enabled = True, SkipServerCNInjection = False,
      Certificates = [example_host],
      SkipPaths = None, cert_ScopeType = [], cert_ScopeParser = None\<rparr>"

definition example_trust :: "unit trust_config" where
  "example_trust =
     \<lparr>trust_Enabled = True,
      RequiredScope = Some (basic (NewScope ''GET'' ''dev'' ''a'' ''user'')),
      RawRequiredScope = None, trust_ScopeType = [], trust_ScopeParser = None\<rparr>"

definition admitted_request :: "unit gin_request" where
  "admitted_request = example_request
     \<lparr>req_Context := Some (TrustAccount (certificate_account example_host ''payments''))\<rparr>"

definition npa_from_file :: "nat list option \<Rightarrow> nat npa_config" where
  "npa_from_file raws =
     \<lparr>npa_Enabled = True, npa_Header = ''X-Npa'',
      AllowedNPAs = [\<lparr>npa_Scopes = None, npa_RawScopes = raws, npa_Name = ''batch''\<rparr>],
      npa_ScopeType = [], npa_ScopeParser = None\<rparr>"

definition trust_from_file :: "nat trust_config" where
  "trust_from_file =
     \<lparr>trust_Enabled = True, RequiredScope = None, RawRequiredScope = Some 0, trust_ScopeType = [],
      trust_ScopeParser = None\<rparr>"

definition shipped_parsers :: "(nat, unit) parsers" where
  "shipped_parsers =
     RegisterParser GetName (BasicParser (\<lambda>_. (NewScope ''GET'' ''dev'' ''a'' ''user'', None)) ''X-Teams'') []"

lemma example_scope_grants:
  "scope_Validate (basic example_scope) = None"
  "scope_Validate (basic (NewScope ''GET'' ''dev'' ''a'' ''user'')) = None"
  "MatchScope [basic example_scope] (basic (NewScope ''GET'' ''dev'' ''a'' ''user''))"
  by (simp_all add: basic_def Basic_Validate_def example_scope_def NewScope_def MatchScope_def
      Basic_AsLabels_def Wildcard_def Find_Cons)

lemma example_admitted:
  "run_chain [certificate_Middleware example_certificates, trust_Middleware example_trust] example_request =
     (Next admitted_request :: (unit, unit) outcome)"
proof -
  have "certificate_Middleware example_certificates example_request =
      (Next admitted_request :: (unit, unit) outcome)"
    by (subst certificate_Middleware_Next)
      (auto simp: example_certificates_def example_request_def admitted_request_def example_host_def
        presented_names_def certificate_account_def Account_Validate_def TrustCertificate_def
        example_scope_grants ExtractCommonNames_def ExtractDNSNames_def Concat_def Transform_def
        Filter_def Unique_def UniqueCmp_def)
  moreover have "trust_Middleware example_trust admitted_request =
      (Next admitted_request :: (unit, unit) outcome)"
    by (simp add: trust_Middleware_Next example_trust_def admitted_request_def GetTrust_def
        certificate_account_def example_host_def example_scope_grants)
  ultimately show ?thesis by simp
qed

section \<open>Properties\<close>

text \<open>
  C28. The guard: whatever handlers run before it, a request passes the trust middleware only when
  a required scope is configured and valid and the account in its context, as the handlers before
  left it, has scopes that grant it.
\<close>

theorem guarded_request_is_authorized:
  assumes "trust_Enabled cfg" "run_chain (hs @ [trust_Middleware cfg]) r = Next r'"
  shows "\<exists>s. RequiredScope cfg = Some s \<and> scope_Validate s = None \<and>
    MatchScope (Scopes (GetTrust (req_Context r'))) s \<and> run_chain hs r = Next r'"
  using assms by (auto simp: run_chain_append trust_Middleware_Next split: outcome.splits)

theorem guarded_request_is_authorized_witness:
  "run_chain ([certificate_Middleware example_certificates] @ [trust_Middleware example_trust])
     example_request = (Next admitted_request :: (unit, unit) outcome) \<and>
   (\<exists>s. RequiredScope example_trust = Some s \<and> MatchScope (Scopes (GetTrust (req_Context admitted_request))) s)"
proof -
  have r: "run_chain ([certificate_Middleware example_certificates] @ [trust_Middleware example_trust])
      example_request = (Next admitted_request :: (unit, unit) outcome)"
    using example_admitted by simp
  then show ?thesis
    using guarded_request_is_authorized [OF _ r] by (auto simp: example_trust_def)
qed

text \<open>
  Mutual TLS in front of the guard: a request is let through exactly when it presents
  certificates, the first configured entry with one of their names exists, and the scopes of that
  entry are valid and grant the required one; the handlers behind see its account.
\<close>

theorem certificate_guard_iff:
  assumes "cert_Enabled cfg" "trust_Enabled t" "RequiredScope t = Some s" "scope_Validate s = None"
  shows "run_chain [certificate_Middleware cfg, trust_Middleware t] r = Next r' \<longleftrightarrow>
    (\<exists>certs host cn. PeerCertificates r = Some certs \<and>
       find (\<lambda>h. set (CNs h) \<inter> presented_names certs \<noteq> {}) (Certificates cfg) = Some host \<and>
       MatchAny (CNs host) (Concat [ExtractCommonNames certs, ExtractDNSNames certs]) = Some cn \<and>
       Account_Validate (certificate_account host cn) = None \<and>
       r' = r\<lparr>req_Context := Some (TrustAccount (certificate_account host cn))\<rparr> \<and>
       MatchScope (cert_Scopes host) s)"
  using assms(2-4)
  by (auto simp: run_chain_two certificate_Middleware_Next [OF assms(1)] trust_Middleware_Next
      GetTrust_def certificate_account_def simp del: run_chain.simps)

theorem certificate_guard_iff_witness:
  "\<exists>certs host cn. PeerCertificates example_request = Some certs \<and> length certs = 2 \<and>
     find (\<lambda>h. set (CNs h) \<inter> presented_names certs \<noteq> {}) (Certificates example_certificates) = Some host \<and>
     admitted_request = example_request\<lparr>req_Context := Some (TrustAccount (certificate_account host cn))\<rparr>"
proof -
  have t: "cert_Enabled example_certificates" "trust_Enabled example_trust"
    "RequiredScope example_trust = Some (basic (NewScope ''GET'' ''dev'' ''a'' ''user''))"
    by (simp_all add: example_certificates_def example_trust_def)
  from example_admitted show ?thesis
    unfolding certificate_guard_iff [OF t example_scope_grants(2)]
    by (fastforce simp: example_request_def)
qed

text \<open>
  C29. The name that authenticates may be that of any certificate the client sends: only the first
  one is proven to be its own by the handshake, yet appending the certificate of an allowed host to
  an unrelated one is enough to get an account of the configured hosts.
\<close>

theorem appended_certificate_authenticates:
  assumes "cert_Enabled cfg" "PeerCertificates r = Some (leaf # certs)"
    and "cert \<in> set certs" "CommonName cert = cn" "cn \<noteq> []"
    and "host \<in> set (Certificates cfg)" "cn \<in> set (CNs host)"
    and "\<forall>h \<in> set (Certificates cfg). \<forall>s \<in> set (cert_Scopes h). scope_Validate s = None"
  shows "\<exists>h \<in> set (Certificates cfg). \<exists>n \<in> set (CNs h).
    certificate_Middleware cfg r = Next (r\<lparr>req_Context := Some (TrustAccount (certificate_account h n))\<rparr>)"
proof -
  let ?P = "\<lambda>h. set (CNs h) \<inter> presented_names (leaf # certs) \<noteq> {}"
  have "cn \<in> presented_names (leaf # certs)" using assms(3-5) by (auto simp: presented_names_def)
  with assms(6,7) have "find ?P (Certificates cfg) \<noteq> None" by (auto simp: find_None_iff)
  then obtain h where h: "find ?P (Certificates cfg) = Some h" by blast
  then have hs: "h \<in> set (Certificates cfg)" "?P h" by (auto simp: find_Some_iff)
  obtain n where n: "MatchAny (CNs h) (Concat [ExtractCommonNames (leaf # certs),
      ExtractDNSNames (leaf # certs)]) = Some n"
    using hs(2) set_presented_names MatchAny_None by (metis not_None_eq)
  have "fold (\<lambda>s r. case r of Some e \<Rightarrow> Some e | None \<Rightarrow> scope_Validate s) ss None = None"
    if "\<forall>s \<in> set ss. scope_Validate s = None" for ss
    using that by (induction ss) auto
  from this [of "cert_Scopes h"] have "Account_Validate (certificate_account h n) = None"
    using assms(8) hs(1)
    by (simp add: Account_Validate_def certificate_account_def TrustCertificate_def)
  then have "certificate_Middleware cfg r =
      Next (r\<lparr>req_Context := Some (TrustAccount (certificate_account h n))\<rparr>)"
    using certificate_Middleware_Next [OF assms(1)] assms(2) h n by blast
  then show ?thesis using MatchAny_Some [OF n] hs(1) by blast
qed

theorem appended_certificate_authenticates_witness:
  "certificate_Middleware example_certificates example_request = (Next admitted_request :: (unit, unit) outcome)"
proof -
  have c: "\<exists>h \<in> set (Certificates example_certificates). \<exists>n \<in> set (CNs h).
      certificate_Middleware example_certificates example_request =
        (Next (example_request\<lparr>req_Context := Some (TrustAccount (certificate_account h n))\<rparr>) :: (unit, unit) outcome)"
    by (rule appended_certificate_authenticates [where cert = "\<lparr>CommonName = ''payments'', DNSNames = [], URIs = []\<rparr>"
          and host = example_host and cn = "''payments''"
          and leaf = "\<lparr>CommonName = ''mallory'', DNSNames = [], URIs = []\<rparr>"
          and certs = "[\<lparr>CommonName = ''payments'', DNSNames = [], URIs = []\<rparr>]"])
      (simp_all add: example_certificates_def example_request_def example_host_def example_scope_grants)
  then show ?thesis
    by (simp add: example_certificates_def example_host_def admitted_request_def)
qed

text \<open>
  A configuration that is read from a file never brings its scopes along: for the middleware
  of non-personal accounts, applying the defaults panics or leaves a configuration that does not
  validate, since the parsed scopes are written to a slice that was not made; for the required
  scope it is the same with every parser of the repository, since none can parse it.
\<close>

theorem configured_scopes_never_load:
  assumes "npa_Enabled n" "npa_ScopeParser n = None"
    and "\<forall>npa \<in> set (AllowedNPAs n). npa_Scopes npa = None"
    and "trust_Enabled t" "trust_ScopeParser t = None" "RequiredScope t = None"
    and "\<forall>p \<in> snd ` set registry. ParseTrustScope p = None"
  shows "(case npa_ApplyDefaults registry n of None \<Rightarrow> True | Some n' \<Rightarrow> npa_Validate n' \<noteq> Some None) \<and>
    (case trust_ApplyDefaults registry t of None \<Rightarrow> True | Some t' \<Rightarrow> trust_Validate t' \<noteq> None)"
proof
  show "case npa_ApplyDefaults registry n of None \<Rightarrow> True | Some n' \<Rightarrow> npa_Validate n' \<noteq> Some None"
    using npa_ApplyDefaults_cases [OF assms(2), of registry] assms(1,3)
      validate_npas_unparsed [of "AllowedNPAs n" 0]
    by (auto simp: npa_Validate_def)
  show "case trust_ApplyDefaults registry t of None \<Rightarrow> True | Some t' \<Rightarrow> trust_Validate t' \<noteq> None"
    using assms(4-6) match_parser_Some [OF assms(7)]
    by (auto simp: trust_ApplyDefaults_def trust_Validate_def Let_def split: option.split)
qed

theorem configured_scopes_never_load_witness:
  "npa_ApplyDefaults shipped_parsers (npa_from_file (Some [0])) = None \<and>
   (case npa_ApplyDefaults shipped_parsers (npa_from_file (Some [])) of None \<Rightarrow> False
    | Some n \<Rightarrow> npa_Validate n \<noteq> Some None) \<and>
   trust_ApplyDefaults shipped_parsers trust_from_file = None"
proof -
  have p: "\<forall>p \<in> snd ` set shipped_parsers. ParseTrustScope p = None"
    by (simp add: shipped_parsers_def RegisterParser_def BasicParser_def)
  have "npa_ApplyDefaults shipped_parsers (npa_from_file (Some [])) \<noteq> None"
    by (simp add: npa_ApplyDefaults_def npa_from_file_def Let_def)
  moreover have "npa_ApplyDefaults shipped_parsers (npa_from_file (Some [0])) = None"
    by (simp add: npa_ApplyDefaults_def npa_from_file_def Let_def store_scope_def split: option.split)
  moreover have "trust_ApplyDefaults shipped_parsers trust_from_file = None"
    using match_parser_Some [OF p] by (simp add: trust_ApplyDefaults_def trust_from_file_def Let_def)
  moreover note configured_scopes_never_load [of "npa_from_file (Some [])" trust_from_file, OF _ _ _ _ _ _ p]
  ultimately show ?thesis
    by (auto simp: npa_from_file_def trust_from_file_def split: option.splits)
qed

end
