(* ===== verification/OAuth.thy ===== *)
theory OAuth
  imports Auth
begin

text \<open>
  The OAuth middleware: \<open>pkg/middleware/authorization/oauth\<close>.

  The OpenShift provider is third party: of its value the fields that the code sets, and the record
  \<open>openshift_env\<close> of the calls the code makes. It is shared by pointer, so providers live in a heap
  of type \<open>nat \<Rightarrow> openshift\<close>. A \<open>Provider\<close> of this package holds a provider interface, which may be
  an OpenShift one, another \<open>Provider\<close>, a foreign one or \<open>nil\<close>.
\<close>

section \<open>Providers\<close>

record authentication_options =
  authn_RemoteKubeConfigFile :: string
  authn_ClientCA :: string
  CacheTTL :: int

record authorization_options =
  authz_RemoteKubeConfigFile :: string
  AllowCacheTTL :: int

record kube_client_options =
  client_RemoteKubeConfigFile :: string

record openshift =
  KubeClientOptions :: kube_client_options
  AuthenticationOptions :: authentication_options
  AuthorizationOptions :: authorization_options

type_synonym heap = "nat \<Rightarrow> openshift"

type_synonym ('u, 'b) response = "'u gin_request \<Rightarrow> err \<Rightarrow> 'b body"

text \<open>A value of the provider interface; \<open>'p\<close> are the providers of this package.\<close>

datatype 'p provider_value = NilProvider | OpenShift nat | ForeignProvider nat | Wrapped 'p

datatype ('u, 'b) oauth_provider =
  Provider (prov_Provider: "('u, 'b) oauth_provider provider_value") (prov_response: "('u, 'b) response option")

type_synonym ('u, 'b) oauth_state = "heap \<times> ('u, 'b) oauth_provider"

text \<open>The type assertion to \<open>*openshift.OpenShiftProvider\<close>, and a change of what it points to.\<close>

definition with_openshift ::
  "(openshift \<Rightarrow> openshift) \<Rightarrow> ('u, 'b) oauth_state \<Rightarrow> ('u, 'b) oauth_state option" where
  "with_openshift f s =
     (case prov_Provider (snd s) of
        OpenShift a \<Rightarrow> Some ((fst s)(a := f (fst s a)), snd s)
      | _ \<Rightarrow> None)"

definition openshift_option :: "(openshift \<Rightarrow> openshift) \<Rightarrow> ('u, 'b) oauth_state cfg_option" where
  "openshift_option f s =
     (if prov_Provider (snd s) = NilProvider then Inl (Sentinel ErrProviderNotInitialized)
      else (case with_openshift f s of Some s \<Rightarrow> Inr s | None \<Rightarrow> Inl (Sentinel ErrProviderNotOpenShift)))"

definition set_kube_config :: "string \<Rightarrow> openshift \<Rightarrow> openshift" where
  "set_kube_config kubeconfig p = p
     \<lparr>KubeClientOptions := (KubeClientOptions p)\<lparr>client_RemoteKubeConfigFile := kubeconfig\<rparr>,
      AuthenticationOptions := (AuthenticationOptions p)\<lparr>authn_RemoteKubeConfigFile := kubeconfig\<rparr>,
      AuthorizationOptions := (AuthorizationOptions p)\<lparr>authz_RemoteKubeConfigFile := kubeconfig\<rparr>\<rparr>"

definition SetKubeConfig :: "string \<Rightarrow> ('u, 'b) oauth_state cfg_option" where
  "SetKubeConfig kubeconfig s =
     (case with_openshift (set_kube_config kubeconfig) s of
        Some s \<Rightarrow> Inr s
      | None \<Rightarrow> Inl (Sentinel ErrProviderNotOpenShift))"

section \<open>Options\<close>

definition WithProvider :: "('u, 'b) oauth_provider option \<Rightarrow> ('u, 'b) oauth_state cfg_option" where
  "WithProvider p s =
     (case p of
        None \<Rightarrow> Inl (new_error ''oauth Provider cannot be nil'')
      | Some p \<Rightarrow> Inr (fst s, Provider (Wrapped p) (prov_response (snd s))))"

definition WithResponse :: "('u, 'b) response option \<Rightarrow> ('u, 'b) oauth_state cfg_option" where
  "WithResponse handler s = Inr (fst s, Provider (prov_Provider (snd s)) handler)"

text \<open>
  \<open>WithAuthenticationOptions\<close> sets the options of an OpenShift provider and goes on to the error
  for a provider of another kind.
\<close>

definition WithAuthenticationOptions ::
  "authentication_options \<Rightarrow> ('u, 'b) oauth_state cfg_option" where
  "WithAuthenticationOptions opts s =
     (if prov_Provider (snd s) = NilProvider then Inl (Sentinel ErrProviderNotInitialized)
      else
        (let s = (case with_openshift (\<lambda>p. p\<lparr>AuthenticationOptions := opts\<rparr>) s of
                    Some s' \<Rightarrow> s' | None \<Rightarrow> s)
         in Inl (Sentinel ErrProviderNotOpenShift)))"

definition WithAuthorizationOptions ::
  "authorization_options \<Rightarrow> ('u, 'b) oauth_state cfg_option" where
  "WithAuthorizationOptions opts = openshift_option (\<lambda>p. p\<lparr>AuthorizationOptions := opts\<rparr>)"

definition WithKubeClientOptions ::
  "kube_client_options \<Rightarrow> ('u, 'b) oauth_state cfg_option" where
  "WithKubeClientOptions opts = openshift_option (\<lambda>p. p\<lparr>KubeClientOptions := opts\<rparr>)"

definition WithKubeConfig :: "string \<Rightarrow> ('u, 'b) oauth_state cfg_option" where
  "WithKubeConfig kubeconfig s =
     (if prov_Provider (snd s) = NilProvider then Inl (Sentinel ErrProviderNotInitialized)
      else SetKubeConfig kubeconfig s)"

definition WithClientCertAuthenticationOptions ::
  "string \<Rightarrow> ('u, 'b) oauth_state cfg_option" where
  "WithClientCertAuthenticationOptions clientCA =
     openshift_option (\<lambda>p. p\<lparr>AuthenticationOptions := (AuthenticationOptions p)\<lparr>authn_ClientCA := clientCA\<rparr>\<rparr>)"

definition WithCacheTTL :: "int \<Rightarrow> ('u, 'b) oauth_state cfg_option" where
  "WithCacheTTL t =
     openshift_option (\<lambda>p. p
       \<lparr>AuthenticationOptions := (AuthenticationOptions p)\<lparr>CacheTTL := t\<rparr>,
        AuthorizationOptions := (AuthorizationOptions p)\<lparr>AllowCacheTTL := t\<rparr>\<rparr>)"

section \<open>Configuration\<close>

record oauth_config =
  oauth_Enabled :: bool
  ClientCAFile :: string
  ClientID :: string
  ClientSecret :: string
  ReviewCAs :: "string list"
  ServiceAccount :: string
  DelegateURLs :: string
  ReviewByHostURL :: string
  Resources :: string
  LoginURL :: string
  RedeemURL :: string
  ReviewURL :: string
  oauth_ValidateURL :: string
  oauth_Scope :: string
  BypassAuthForPaths :: "string list"

definition oauth_DefaultSkipPaths :: "string list" where
  "oauth_DefaultSkipPaths = [''/metrics'', ''/health'', ''/ready'', ''/healthz'', ''/readyz'']"

definition oauth_Validate :: "oauth_config \<Rightarrow> err option" where
  "oauth_Validate c = None"

definition oauth_ApplyDefaults :: "oauth_config \<Rightarrow> oauth_config" where
  "oauth_ApplyDefaults c =
     (if BypassAuthForPaths c = [] then c\<lparr>BypassAuthForPaths := oauth_DefaultSkipPaths\<rparr> else c)"

section \<open>A provider for a configuration\<close>

record 'l provider_data =
  pd_ClientID :: string
  pd_ClientSecret :: string
  pd_Scope :: string
  ConfigLoginURL :: "'l option"
  ConfigRedeemURL :: "'l option"
  ValidateURL :: "'l option"

record 'l openshift_env =
  openshift_New :: openshift
  SetClientCAFile :: "string \<Rightarrow> openshift \<Rightarrow> openshift"
  SetReviewCAs :: "string list \<Rightarrow> openshift \<Rightarrow> openshift"
  LoadDefaults :: "string \<Rightarrow> string \<Rightarrow> string \<Rightarrow> string \<Rightarrow> openshift \<Rightarrow> openshift \<times> (err + 'l provider_data)"
  Complete :: "'l provider_data \<Rightarrow> 'l option \<Rightarrow> openshift \<Rightarrow> openshift \<times> err option"
  url_Parse :: "string \<Rightarrow> err + 'l"
  LookupEnv :: "string \<Rightarrow> bool"
  GetDefaultFilename :: string

definition parse_url ::
  "'l openshift_env \<Rightarrow> string \<Rightarrow> string \<Rightarrow> ('l \<Rightarrow> 'd \<Rightarrow> 'd) \<Rightarrow> err + 'd \<Rightarrow> err + 'd" where
  "parse_url env what raw set_url r =
     (case r of Inl e \<Rightarrow> Inl e
      | Inr d \<Rightarrow>
          if raw = [] then Inr d
          else (case url_Parse env raw of
                  Inl e \<Rightarrow> Inl (Errorf (''error parsing '' @ what) [e])
                | Inr u \<Rightarrow> Inr (set_url u d)))"

definition override_data :: "oauth_config \<Rightarrow> 'l provider_data \<Rightarrow> 'l provider_data" where
  "override_data cfg d =
     (let d = (if ClientID cfg \<noteq> [] then d\<lparr>pd_ClientID := ClientID cfg\<rparr> else d);
          d = (if ClientSecret cfg \<noteq> [] then d\<lparr>pd_ClientSecret := ClientSecret cfg\<rparr> else d)
      in if oauth_Scope cfg \<noteq> [] then d\<lparr>pd_Scope := oauth_Scope cfg\<rparr> else d)"

definition parse_urls ::
  "'l openshift_env \<Rightarrow> oauth_config \<Rightarrow> 'l provider_data \<Rightarrow> err + 'l option \<times> 'l provider_data" where
  "parse_urls env cfg d =
     parse_url env ''validate URL'' (oauth_ValidateURL cfg) (\<lambda>u (review, d). (review, d\<lparr>ValidateURL := Some u\<rparr>))
       (parse_url env ''redeem URL'' (RedeemURL cfg) (\<lambda>u (review, d). (review, d\<lparr>ConfigRedeemURL := Some u\<rparr>))
         (parse_url env ''login URL'' (LoginURL cfg) (\<lambda>u (review, d). (review, d\<lparr>ConfigLoginURL := Some u\<rparr>))
           (parse_url env ''review URL'' (ReviewURL cfg) (\<lambda>u (review, d). (Some u, d))
             (Inr (None, d)))))"

definition NoContent :: "'u gin_request \<Rightarrow> err \<Rightarrow> 'b body" where
  "NoContent c e = ErrorJSON e"

definition AuthFailed :: "('u, 'b) response" where
  "AuthFailed c e = NoContent c e"

text \<open>The new OpenShift provider is stored at the address \<open>a\<close>, which \<open>Complete\<close> completes.\<close>

definition in_cluster :: "'l openshift_env \<Rightarrow> bool" where
  "in_cluster env \<longleftrightarrow>
     LookupEnv env ''KUBERNETES_SERVICE_HOST'' \<or> LookupEnv env ''KUBERNETES_SERVICE_PORT''"

definition finish_provider ::
  "'l openshift_env \<Rightarrow> ('u, 'b) oauth_state cfg_option option list \<Rightarrow> nat \<Rightarrow> 'l option \<Rightarrow>
    'l provider_data \<Rightarrow> ('u, 'b) oauth_state \<Rightarrow> err + ('u, 'b) oauth_state" where
  "finish_provider env opts a reviewURL d s =
     (case (if in_cluster env then Inr s else SetKubeConfig (GetDefaultFilename env) s) of
        Inl e \<Rightarrow> Inl (Errorf ''failed to set kubeconfig'' [e])
      | Inr s \<Rightarrow>
          (case ApplyOpts s opts of
             Inl e \<Rightarrow> Inl (Errorf ''failed to apply TLS option'' [e])
           | Inr (h, p) \<Rightarrow>
               (let p = (if prov_response p = None then Provider (prov_Provider p) (Some AuthFailed) else p)
                in case Complete env d reviewURL (h a) of
                     (o', Some e) \<Rightarrow> Inl (Errorf ''error completing OpenShift provider setup'' [e])
                   | (o', None) \<Rightarrow> Inr (h(a := o'), p))))"

definition oauth_New ::
  "'l openshift_env \<Rightarrow> oauth_config \<Rightarrow> ('u, 'b) oauth_state cfg_option option list \<Rightarrow> nat \<Rightarrow> heap \<Rightarrow>
    err + heap \<times> ('u, 'b) oauth_provider option" where
  "oauth_New env cfg opts a h =
     (if \<not> oauth_Enabled cfg then Inr (h, None)
      else
        (let cfg = oauth_ApplyDefaults cfg in
         case oauth_Validate cfg of
           Some e \<Rightarrow> Inl (Errorf ''invalid OpenShift OAuth configuration'' [e])
         | None \<Rightarrow>
             (let os = openshift_New env;
                  os = (if ClientCAFile cfg \<noteq> [] then SetClientCAFile env (ClientCAFile cfg) os else os);
                  os = (if ReviewCAs cfg \<noteq> [] then SetReviewCAs env (ReviewCAs cfg) os else os)
              in case LoadDefaults env (ServiceAccount cfg) (DelegateURLs cfg) (ReviewByHostURL cfg)
                   (Resources cfg) os of
                   (os, Inl e) \<Rightarrow> Inl (Errorf ''error loading OpenShift provider defaults'' [e])
                 | (os, Inr d) \<Rightarrow>
                     (case parse_urls env cfg (override_data cfg d) of
                        Inl e \<Rightarrow> Inl e
                      | Inr (reviewURL, d) \<Rightarrow>
                          map_sum (\<lambda>e. e) (apsnd Some)
                            (finish_provider env opts a reviewURL d
                               (h(a := os), Provider (OpenShift a) None))))))"

definition oauth_NewForConfig ::
  "'l openshift_env \<Rightarrow> oauth_config \<Rightarrow> nat \<Rightarrow> heap \<Rightarrow> err + heap \<times> ('u, 'b) oauth_provider option" where
  "oauth_NewForConfig env cfg a h = oauth_New env cfg [] a h"

section \<open>The middleware\<close>

text \<open>\<open>ValidateRequest\<close> is promoted from the innermost provider; \<open>nil\<close> panics.\<close>

function (sequential) innermost :: "('u, 'b) oauth_provider provider_value \<Rightarrow> ('u, 'b) oauth_provider provider_value" where
  "innermost (Wrapped (Provider p r)) = innermost p"
| "innermost p = p"
  by pat_completeness auto

termination innermost
  by (relation "measure (size_provider_value size)") simp_all

type_synonym ('u, 'b) validate_request =
  "heap \<Rightarrow> ('u, 'b) oauth_provider provider_value \<Rightarrow> 'u gin_request \<Rightarrow> err + session_state option"

definition setSessionInContext :: "'u gin_request \<Rightarrow> session_state \<Rightarrow> 'u gin_request" where
  "setSessionInContext c session = c\<lparr>gin_Keys :=
     AList.update ''oauth_access_token'' (VString (AccessToken session))
      (AList.update ''oauth_email'' (VString (Email session))
       (AList.update ''oauth_user'' (VString (User session))
        (AList.update ''oauth_session'' (VSession session) (gin_Keys c))))\<rparr>"

definition Response :: "('u, 'b) response \<Rightarrow> err option \<Rightarrow> ('u, 'b) handler" where
  "Response fn e c =
     Abort StatusUnauthorized
       (Some (fn c (case e of None \<Rightarrow> Sentinel ErrAuthFailed | Some e \<Rightarrow> e)))"

definition oauth_handler ::
  "oauth_config \<Rightarrow> ('u, 'b) validate_request \<Rightarrow> heap \<Rightarrow> ('u, 'b) oauth_provider \<Rightarrow> ('u, 'b) handler" where
  "oauth_handler cfg validate h p c =
     (if Contains (BypassAuthForPaths cfg) (req_Path c) then Next c
      else if innermost (prov_Provider p) = NilProvider then Panics
      else
        (case validate h (innermost (prov_Provider p)) c of
           Inl e \<Rightarrow> Response (the (prov_response p)) (Some e) c
         | Inr None \<Rightarrow> Response (the (prov_response p)) None c
         | Inr (Some session) \<Rightarrow> Next (setSessionInContext c session)))"

text \<open>\<open>None\<close>: the process has ended with \<open>log.Fatalf\<close>. A \<open>nil\<close> provider has no method to call.\<close>

definition oauth_Middleware ::
  "'l openshift_env \<Rightarrow> ('u, 'b) validate_request \<Rightarrow> oauth_config \<Rightarrow>
    ('u, 'b) oauth_state cfg_option option list \<Rightarrow> nat \<Rightarrow> heap \<Rightarrow> ('u, 'b) handler option" where
  "oauth_Middleware env validate cfg opts a h =
     (if \<not> oauth_Enabled cfg then Some Next
      else
        (case oauth_New env cfg opts a h of
           Inl e \<Rightarrow> None
         | Inr (h, None) \<Rightarrow> Some (\<lambda>c. Panics)
         | Inr (h, Some p) \<Rightarrow> Some (oauth_handler cfg validate h p)))"

section \<open>Lemmas\<close>

lemma ApplyOpts_fails:
  "Some f \<in> set opts \<Longrightarrow> (\<And>s. \<exists>e. f s = Inl e) \<Longrightarrow> \<exists>e. ApplyOpts s opts = Inl e"
proof (induction s opts rule: ApplyOpts.induct)
  case (3 s f' opts)
  show ?case
  proof (cases "f' s")
    case (Inr b)
    then have "f \<noteq> f'" using "3.prems"(2) [of s] by auto
    then show ?thesis using 3 Inr by simp
  qed simp
qed auto

lemma finish_provider_response:
  "finish_provider env opts a reviewURL d s = Inr (h, p) \<Longrightarrow> prov_response p \<noteq> None"
  by (auto simp: finish_provider_def Let_def split: sum.splits prod.splits option.splits if_splits)

lemma map_sum_Inr: "map_sum f g x = Inr y \<longleftrightarrow> (\<exists>z. x = Inr z \<and> y = g z)"
  by (cases x) auto

lemma oauth_New_enabled:
  assumes "oauth_Enabled cfg" "oauth_New env cfg opts a h = Inr (h', p')"
  shows "\<exists>p d reviewURL s. p' = Some p \<and> prov_response p \<noteq> None \<and>
    finish_provider env opts a reviewURL d s = Inr (h', p)"
proof -
  from assms have "\<exists>d reviewURL s r. finish_provider env opts a reviewURL d s = Inr r \<and>
      (h', p') = apsnd Some r"
    unfolding oauth_New_def oauth_Validate_def Let_def
    by (simp split: prod.split_asm sum.split_asm add: map_sum_Inr) blast+
  then obtain d reviewURL s p where "finish_provider env opts a reviewURL d s = Inr (h', p)" "p' = Some p"
    by (auto simp: apsnd_def map_prod_def split: prod.splits)
  then show ?thesis using finish_provider_response by blast
qed

text \<open>A middleware that was built has a provider, and answers as the handler on the configuration.\<close>

lemma oauth_Middleware_Some:
  assumes "oauth_Enabled cfg" "oauth_Middleware env validate cfg opts a h = Some m"
  shows "\<exists>h' p. oauth_New env cfg opts a h = Inr (h', Some p) \<and> m = oauth_handler cfg validate h' p"
proof (cases "oauth_New env cfg opts a h")
  case (Inr r)
  obtain h' p' where r: "r = (h', p')" by (cases r)
  with Inr obtain p where "p' = Some p" using oauth_New_enabled [OF assms(1)] by blast
  then show ?thesis using assms Inr r by (simp add: oauth_Middleware_def)
qed (use assms in \<open>simp add: oauth_Middleware_def\<close>)

section \<open>Examples\<close>

definition example_openshift :: openshift where
  "example_openshift =
     \<lparr>KubeClientOptions = \<lparr>client_RemoteKubeConfigFile = []\<rparr>,
      AuthenticationOptions = \<lparr>authn_RemoteKubeConfigFile = [], authn_ClientCA = [], CacheTTL = 0\<rparr>,
      AuthorizationOptions = \<lparr>authz_RemoteKubeConfigFile = [], AllowCacheTTL = 0\<rparr>\<rparr>"

definition example_env :: "string openshift_env" where
  "example_env =
     \<lparr>openshift_New = example_openshift, SetClientCAFile = (\<lambda>_ p. p), SetReviewCAs = (\<lambda>_ p. p),
      LoadDefaults = (\<lambda>_ _ _ _ p. (p, Inr \<lparr>pd_ClientID = [], pd_ClientSecret = [], pd_Scope = [],
        ConfigLoginURL = None, ConfigRedeemURL = None, ValidateURL = None\<rparr>)),
      Complete = (\<lambda>_ _ p. (p, None)), url_Parse = Inr, LookupEnv = (\<lambda>_. True), GetDefaultFilename = []\<rparr>"

definition example_oauth :: oauth_config where
  "example_oauth =
     \<lparr>oauth_Enabled = True, ClientCAFile = [], ClientID = [], ClientSecret = [], ReviewCAs = [],
      ServiceAccount = [], DelegateURLs = [], ReviewByHostURL = [], Resources = [], LoginURL = [],
      RedeemURL = [], ReviewURL = [], oauth_ValidateURL = [], oauth_Scope = [], BypassAuthForPaths = []\<rparr>"

definition health_request :: "unit gin_request" where
  "health_request = \<lparr>req_Path = ''/health'', GetHeader = (\<lambda>_. []), PeerCertificates = None,
     req_Context = None, gin_Keys = []\<rparr>"

definition no_session :: "(unit, unit) validate_request" where
  "no_session h p r = Inr None"

section \<open>Properties\<close>

text \<open>
  C30. The OAuth middleware lets a request through exactly when its path is one of the paths that
  the given configuration exempts or the provider finds a session for it; then the handlers behind
  see that session. The default paths, which \<open>New\<close> fills in a copy, are not exempt.
\<close>

theorem oauth_admits_sessions_only:
  assumes "oauth_Enabled cfg" "oauth_Middleware env validate cfg opts a h = Some m"
  shows "\<exists>h' p. oauth_New env cfg opts a h = Inr (h', Some p) \<and>
    (m r = Next r' \<longleftrightarrow>
      (if req_Path r \<in> set (BypassAuthForPaths cfg) then r' = r
       else innermost (prov_Provider p) \<noteq> NilProvider \<and>
         (\<exists>session. validate h' (innermost (prov_Provider p)) r = Inr (Some session) \<and>
            r' = setSessionInContext r session \<and>
            map_of (gin_Keys r') ''oauth_session'' = Some (VSession session) \<and>
            map_of (gin_Keys r') ''oauth_user'' = Some (VString (User session)))))"
proof -
  obtain h' p where n: "oauth_New env cfg opts a h = Inr (h', Some p)"
    and m: "m = oauth_handler cfg validate h' p"
    using oauth_Middleware_Some [OF assms] by blast
  show ?thesis
    using n by (auto simp: m oauth_handler_def Contains_def Response_def setSessionInContext_def
        split: sum.splits option.splits)
qed

theorem oauth_admits_sessions_only_witness:
  "\<exists>m. oauth_Middleware example_env no_session example_oauth [] 0 (\<lambda>_. example_openshift) = Some m \<and>
     \<not> (\<exists>r'. m health_request = Next r') \<and>
     ''/health'' \<in> set (BypassAuthForPaths (oauth_ApplyDefaults example_oauth))"
proof -
  have e: "oauth_Enabled example_oauth" by (simp add: example_oauth_def)
  have "\<exists>m. oauth_Middleware example_env no_session example_oauth [] 0 (\<lambda>_. example_openshift) = Some m"
    by (simp add: oauth_Middleware_def oauth_New_def example_oauth_def example_env_def
        oauth_ApplyDefaults_def oauth_Validate_def Let_def parse_urls_def parse_url_def
        finish_provider_def in_cluster_def override_data_def)
  then obtain m where m: "oauth_Middleware example_env no_session example_oauth [] 0 (\<lambda>_. example_openshift) = Some m"
    by blast
  have "\<not> (\<exists>r'. m health_request = Next r')"
    using oauth_admits_sessions_only [OF e m]
    by (force simp: no_session_def example_oauth_def)
  then show ?thesis using m by (simp add: oauth_ApplyDefaults_def example_oauth_def oauth_DefaultSkipPaths_def)
qed

text \<open>
  The option for the authentication can never be used: with it among the options the provider
  is not built whatever the rest of the configuration says, and the middleware ends the process.
\<close>

theorem WithAuthenticationOptions_never_works:
  fixes opts :: "('c, 'd) oauth_state cfg_option option list"
  assumes "oauth_Enabled cfg" "Some (WithAuthenticationOptions o') \<in> set opts"
  shows "oauth_Middleware env validate cfg opts a h = None"
proof -
  have "\<exists>e. ApplyOpts s opts = Inl e" for s :: "('c, 'd) oauth_state"
    by (rule ApplyOpts_fails [OF assms(2)]) (auto simp: WithAuthenticationOptions_def Let_def)
  then have "ApplyOpts s opts \<noteq> Inr x" for s x by (metis Inl_Inr_False)
  then have "finish_provider env opts a reviewURL d s \<noteq> Inr r" for reviewURL d s r
    by (auto simp: finish_provider_def split: sum.split)
  then have "oauth_New env cfg opts a h \<noteq> Inr x" for x
    using oauth_New_enabled [OF assms(1), of env opts a h "fst x" "snd x"] by (metis prod.collapse)
  then show ?thesis using assms(1)
    by (cases "oauth_New env cfg opts a h") (auto simp: oauth_Middleware_def)
qed

theorem WithAuthenticationOptions_never_works_witness:
  "oauth_Middleware example_env no_session example_oauth
     [Some (WithAuthenticationOptions (AuthenticationOptions example_openshift))] 0
     (\<lambda>_. example_openshift) = None"
  by (rule WithAuthenticationOptions_never_works) (auto simp: example_oauth_def)

end
