(* ===== verification/Labels.thy ===== *)
theory Labels
  imports Memory
begin

text \<open>
  Labels: \<open>pkg/store/backends/labels\<close>, a store that keeps every value with labels and lists by
  label selector.

  Selectors belong to Kubernetes (\<open>k8s.io/apimachinery/pkg/labels\<close>): a record of the functions the
  package calls, over types \<open>'sel\<close> of selectors and \<open>'req\<close> of requirements. What the code
  relies on is \<open>selector_laws\<close>.
\<close>

section \<open>Selectors\<close>

type_synonym labels = "(string, string) gomap"

record ('sel, 'req) selectors =
  Parse :: "string \<Rightarrow> err + 'sel"
  SelectorFromSet :: "labels \<Rightarrow> 'sel"
  Requirements :: "'sel \<Rightarrow> 'req list \<times> bool"
  req_Key :: "'req \<Rightarrow> string"
  NewSelectorAdd :: "'req list \<Rightarrow> 'sel"
  Matches :: "'sel \<Rightarrow> labels \<Rightarrow> bool"
  sel_String :: "'sel \<Rightarrow> string"

text \<open>
  The documented behaviour: the empty text selects everything; a selector is the conjunction of its
  requirements, each of which depends on the labels only (\<open>req_Matches\<close>); \<open>SelectorFromSet\<close> asks
  for each label of the set, under its key.
\<close>

definition selector_laws ::
  "('sel, 'req) selectors \<Rightarrow> ('req \<Rightarrow> labels \<Rightarrow> bool) \<Rightarrow> bool" where
  "selector_laws K req_Matches \<longleftrightarrow>
     (\<exists>sel. Parse K [] = Inr sel \<and> Requirements K sel = ([], True)) \<and>
     (\<forall>sel rs. Requirements K sel = (rs, True) \<longrightarrow>
        (\<forall>ls. Matches K sel ls \<longleftrightarrow> list_all (\<lambda>r. req_Matches r ls) rs)) \<and>
     (\<forall>rs ls. Matches K (NewSelectorAdd K rs) ls \<longleftrightarrow> list_all (\<lambda>r. req_Matches r ls) rs) \<and>
     (\<forall>m. wf_map m \<longrightarrow> (\<exists>rs. Requirements K (SelectorFromSet K m) = (rs, True) \<and>
        req_Key K ` set rs = fst ` set m \<and>
        (\<forall>ls. list_all (\<lambda>r. req_Matches r ls) rs \<longleftrightarrow> list_all (\<lambda>(k, v). map_of ls k = Some v) m)))"

definition WithLabelSelector :: "string \<Rightarrow> opt" where
  "WithLabelSelector s = OString ''labelSelector'' s"

definition MatchLabelSelector :: "opt slice \<Rightarrow> string option \<times> opt slice" where
  "MatchLabelSelector = match_string ''labelSelector''"

definition WithLabels :: "labels \<Rightarrow> opt" where
  "WithLabels m = OMap ''labels'' m"

definition MatchLabels :: "opt slice \<Rightarrow> labels option \<times> opt slice" where
  "MatchLabels = match_map ''labels''"

definition WithLabel :: "string \<Rightarrow> string \<Rightarrow> opt" where
  "WithLabel key value = WithLabels [(key, value)]"

text \<open>\<open>as_selector\<close> is \<open>metav1.LabelSelectorAsSelector\<close> of the map, printed.\<close>

definition WithMapLabelSelector :: "(labels \<Rightarrow> string) \<Rightarrow> labels \<Rightarrow> opt" where
  "WithMapLabelSelector as_selector m = OLabelSelector (as_selector m)"

definition WithSingleLabelSelector :: "(labels \<Rightarrow> string) \<Rightarrow> string \<Rightarrow> string \<Rightarrow> opt" where
  "WithSingleLabelSelector as_selector key value = WithMapLabelSelector as_selector [(key, value)]"

section \<open>Helpers\<close>

definition GenerateLabelSelector ::
  "('sel, 'req) selectors \<Rightarrow> labels \<Rightarrow> string \<Rightarrow> err + 'sel" where
  "GenerateLabelSelector K immutable additional =
     (case Parse K additional of
        Inl e \<Rightarrow> Inl e
      | Inr additionalSelector \<Rightarrow>
          if length immutable = 0 then Inr additionalSelector
          else
            (case Requirements K (SelectorFromSet K immutable) of (baseReqs, selectable) \<Rightarrow>
             if \<not> selectable then Inl (new_error ''base selector is not selectable'')
             else
               (case Requirements K additionalSelector of (additionalReqs, selectable) \<Rightarrow>
                if \<not> selectable then Inl (new_error ''additional selector is not selectable'')
                else
                  (case find (\<lambda>aReq. list_ex (\<lambda>bReq. req_Key K aReq = req_Key K bReq) baseReqs)
                          additionalReqs of
                     Some aReq \<Rightarrow> Inl (new_error
                       (''cannot override additional label selector over immutable key '' @
                        req_Key K aReq))
                   | None \<Rightarrow> Inr (NewSelectorAdd K (baseReqs @ additionalReqs))))))"

definition EnrichWithLabelSelectorOption ::
  "('sel, 'req) selectors \<Rightarrow> labels \<Rightarrow> opt slice \<Rightarrow> err option \<times> opt slice" where
  "EnrichWithLabelSelectorOption K immutable opts =
     (case MatchLabelSelector opts of (additional, opts) \<Rightarrow>
      case GenerateLabelSelector K immutable (or_empty additional) of
        Inl e \<Rightarrow> (Some e, opts)
      | Inr selector \<Rightarrow>
          (None, fst (slice_append opts (WithLabelSelector (sel_String K selector)))))"

definition or_no_labels :: "labels option \<Rightarrow> labels" where
  "or_no_labels m = (case m of None \<Rightarrow> [] | Some m \<Rightarrow> m)"

definition EnrichWithLabelsOption :: "labels \<Rightarrow> opt slice \<Rightarrow> err option \<times> opt slice" where
  "EnrichWithLabelsOption immutable opts =
     (case MatchLabels opts of (customLabels, opts) \<Rightarrow>
      case find (\<lambda>(_, customLabel). map_of immutable customLabel \<noteq> None)
             (or_no_labels customLabels) of
        Some (_, customLabel) \<Rightarrow>
          (Some (new_error (''label is immutable and cannot be set as a custom label: '' @
             customLabel)), opts)
      | None \<Rightarrow>
          (None, fst (slice_append opts
             (WithLabels (MergeMap (or_no_labels customLabels) [immutable])))))"

definition BuildLabels ::
  "'v \<Rightarrow> labels \<Rightarrow> ('v \<Rightarrow> err + labels) option \<Rightarrow> opt slice \<Rightarrow> (err + labels) \<times> opt slice" where
  "BuildLabels obj immutable enricher opts =
     (case MatchLabels opts of (found, opts) \<Rightarrow>
      let customLabels = or_no_labels found in
      case (case enricher of None \<Rightarrow> Inr [] | Some f \<Rightarrow> f obj) of
        Inl e \<Rightarrow> (Inl e, opts)
      | Inr objLabels \<Rightarrow>
          (case find (\<lambda>(k, _). map_of customLabels k \<noteq> None \<or> map_of objLabels k \<noteq> None) immutable of
             Some (k, _) \<Rightarrow> (Inl (new_error (''label is immutable: '' @ k)), opts)
           | None \<Rightarrow> (Inr (MergeMap objLabels [customLabels, immutable]), opts)))"

section \<open>The store\<close>

record ('k, 'v) labeled =
  ld_Name :: 'k
  ld_Labels :: labels
  ld_Data :: 'v

record 'v lab_config =
  ImmutableLabels :: labels
  LabelsEnricher :: "('v \<Rightarrow> err + labels) option"

type_synonym ('s, 'k, 'v) inner = "('s, 'k, ('k, 'v) labeled) store"

definition Lab_BuildLabels ::
  "'v lab_config \<Rightarrow> 'v \<Rightarrow> opt slice \<Rightarrow> (err + labels) \<times> opt slice" where
  "Lab_BuildLabels cfg obj opts = BuildLabels obj (ImmutableLabels cfg) (LabelsEnricher cfg) opts"

definition Lab_Read ::
  "('s, 'k, 'v) inner \<Rightarrow> opt slice \<Rightarrow> 'k \<Rightarrow> 's \<Rightarrow> ('s, err + 'v) outcome" where
  "Lab_Read S opts key s =
     (case Read S opts key s of
        (s, a, Inl e) \<Rightarrow> (s, a, Inl e)
      | (s, a, Inr enriched) \<Rightarrow> (s, a, Inr (ld_Data enriched)))"

definition Lab_filter ::
  "('sel, 'req) selectors \<Rightarrow> 'sel \<Rightarrow> ('k, ('k, 'v) labeled) ListItems \<Rightarrow> ('k, 'v) ListItems" where
  "Lab_filter K sel enriched =
     map (\<lambda>(k, d). (k, ld_Data d)) (filter (\<lambda>(k, d). Matches K sel (ld_Labels d)) enriched)"

definition Lab_List ::
  "('sel, 'req) selectors \<Rightarrow> 'v lab_config \<Rightarrow> ('s, 'k, 'v) inner \<Rightarrow> opt slice \<Rightarrow> 's \<Rightarrow>
   ('s, err + ('k, 'v) ListItems) outcome" where
  "Lab_List K cfg S opts s =
     (case MatchLabelSelector opts of (selector, opts) \<Rightarrow>
      case GenerateLabelSelector K (ImmutableLabels cfg) (or_empty selector) of
        Inl e \<Rightarrow> (s, arr opts, Inl (Errorf ''failed to parse label selector'' [e]))
      | Inr parsedSelector \<Rightarrow>
          (case List S opts s of
             (s, a, Inl _) \<Rightarrow> (s, a, Inr [])
           | (s, a, Inr enriched) \<Rightarrow> (s, a, Inr (Lab_filter K parsedSelector enriched))))"

definition Lab_write ::
  "(opt slice \<Rightarrow> 'k \<Rightarrow> ('k, 'v) labeled \<Rightarrow> 's \<Rightarrow> ('s, err option) outcome) \<Rightarrow> 'v lab_config \<Rightarrow>
   opt slice \<Rightarrow> 'k \<Rightarrow> 'v \<Rightarrow> 's \<Rightarrow> ('s, err option) outcome" where
  "Lab_write op cfg opts key value s =
     (case Lab_BuildLabels cfg value opts of
        (Inl e, opts) \<Rightarrow> (s, arr opts, Some e)
      | (Inr lbls, opts) \<Rightarrow>
          op opts key \<lparr>ld_Name = key, ld_Labels = lbls, ld_Data = value\<rparr> s)"

definition Lab_Create ::
  "'v lab_config \<Rightarrow> ('s, 'k, 'v) inner \<Rightarrow> opt slice \<Rightarrow> 'k \<Rightarrow> 'v \<Rightarrow> 's \<Rightarrow> ('s, err option) outcome" where
  "Lab_Create cfg S = Lab_write (Create S) cfg"

definition Lab_Update ::
  "'v lab_config \<Rightarrow> ('s, 'k, 'v) inner \<Rightarrow> opt slice \<Rightarrow> 'k \<Rightarrow> 'v \<Rightarrow> 's \<Rightarrow> ('s, err option) outcome" where
  "Lab_Update cfg S = Lab_write (Update S) cfg"

definition Lab_Apply ::
  "'v lab_config \<Rightarrow> ('s, 'k, 'v) inner \<Rightarrow> opt slice \<Rightarrow> 'k \<Rightarrow> 'v \<Rightarrow> 's \<Rightarrow> ('s, err option) outcome" where
  "Lab_Apply cfg S = Lab_write (Apply S) cfg"

definition Lab_Delete ::
  "('s, 'k, 'v) inner \<Rightarrow> opt slice \<Rightarrow> 'k \<Rightarrow> 's \<Rightarrow> ('s, err option) outcome" where
  "Lab_Delete S opts key s = Delete S opts key s"

definition Labeller ::
  "('sel, 'req) selectors \<Rightarrow> 'v lab_config \<Rightarrow> ('s, 'k, 'v) inner \<Rightarrow> ('s, 'k, 'v) store" where
  "Labeller K cfg S =
     \<lparr>Create = Lab_Create cfg S, Read = Lab_Read S, Update = Lab_Update cfg S,
      Apply = Lab_Apply cfg S, Delete = Lab_Delete S, List = Lab_List K cfg S\<rparr>"

lemmas Lab_defs = Labeller_def Lab_Create_def Lab_Read_def Lab_Update_def Lab_Apply_def
  Lab_Delete_def Lab_List_def Lab_write_def Lab_BuildLabels_def

section \<open>Selectors and labels\<close>

lemma match_labels_empty [simp]:
  "MatchLabels (Slice a 0) = (None, Slice a 0)"
  "MatchLabelSelector (Slice a 0) = (None, Slice a 0)"
  by (simp_all add: MatchLabels_def MatchLabelSelector_def)

lemma match_labels_single [simp]:
  "MatchLabels (Slice [WithLabels m] (Suc 0)) = (Some m, Slice [WithLabels m] 0)"
  "MatchLabelSelector (Slice [WithLabelSelector t] (Suc 0)) = (Some t, Slice [WithLabelSelector t] 0)"
  by (simp_all add: MatchLabels_def WithLabels_def MatchLabelSelector_def WithLabelSelector_def
      matcher_defs option_simps)

lemma or_no_labels_simps [simp]: "or_no_labels None = []" "or_no_labels (Some m) = m"
  by (simp_all add: or_no_labels_def)

abbreviation has_labels :: "labels \<Rightarrow> labels \<Rightarrow> bool" where
  "has_labels m ls \<equiv> list_all (\<lambda>(k, v). map_of ls k = Some v) m"

lemma selector_lawsD:
  assumes "selector_laws K rm"
  shows "\<exists>sel. Parse K [] = Inr sel \<and> Requirements K sel = ([], True)"
    and "Requirements K sel = (rs, True) \<Longrightarrow> Matches K sel ls \<longleftrightarrow> list_all (\<lambda>r. rm r ls) rs"
    and "Matches K (NewSelectorAdd K rs) ls \<longleftrightarrow> list_all (\<lambda>r. rm r ls) rs"
    and "wf_map m \<Longrightarrow> \<exists>rs. Requirements K (SelectorFromSet K m) = (rs, True) \<and>
        req_Key K ` set rs = fst ` set m \<and>
        (\<forall>ls. list_all (\<lambda>r. rm r ls) rs \<longleftrightarrow> has_labels m ls)"
  using assms by (simp_all only: selector_laws_def)

text \<open>
  The generated selector: it asks for the immutable labels and for what the text asks for, and is
  refused when the text has a requirement on an immutable key.
\<close>

lemma GenerateLabelSelector_ok:
  assumes "selector_laws K rm" "wf_map immutable" "Parse K additional = Inr sel"
    "Requirements K sel = (rs, True)"
  shows "if list_ex (\<lambda>r. map_of immutable (req_Key K r) \<noteq> None) rs
    then isl (GenerateLabelSelector K immutable additional)
    else \<exists>sel'. GenerateLabelSelector K immutable additional = Inr sel' \<and>
      (\<forall>ls. Matches K sel' ls \<longleftrightarrow> has_labels immutable ls \<and> Matches K sel ls)"
proof (cases "immutable = []")
  case True
  then show ?thesis using assms by (simp add: GenerateLabelSelector_def list_ex_iff)
next
  case False
  from selector_lawsD(4) [OF assms(1,2)] obtain bs where bs: "Requirements K (SelectorFromSet K immutable) = (bs, True)"
    "req_Key K ` set bs = fst ` set immutable"
    "\<And>ls. list_all (\<lambda>r. rm r ls) bs \<longleftrightarrow> has_labels immutable ls" by blast
  note m = selector_lawsD(2) [OF assms(1,4)] selector_lawsD(3) [OF assms(1)]
  have key: "list_ex (\<lambda>b. req_Key K r = req_Key K b) bs \<longleftrightarrow> map_of immutable (req_Key K r) \<noteq> None" for r
    using bs(2) by (auto simp: list_ex_iff map_of_eq_None)
  let ?P = "\<lambda>a. list_ex (\<lambda>b. req_Key K a = req_Key K b) bs"
  have ex: "list_ex (\<lambda>r. map_of immutable (req_Key K r) \<noteq> None) rs = list_ex ?P rs"
    by (simp only: key)
  show ?thesis
  proof (cases "find ?P rs")
    case None
    with False assms(3,4) bs(1,3) m ex find_list_ex(1) [OF None] show ?thesis
      by (simp add: GenerateLabelSelector_def)
  next
    case (Some r)
    with False assms(3,4) bs(1) ex find_list_ex(2) [OF Some] show ?thesis
      by (simp add: GenerateLabelSelector_def)
  qed
qed

lemma GenerateLabelSelector_none:
  assumes "selector_laws K rm" "wf_map immutable"
  obtains sel where "GenerateLabelSelector K immutable [] = Inr sel"
    "\<And>ls. Matches K sel ls \<longleftrightarrow> has_labels immutable ls"
proof -
  from selector_lawsD(1) [OF assms(1)]
  obtain sel where sel: "Parse K [] = Inr sel" "Requirements K sel = ([], True)" by blast
  with selector_lawsD(2) [OF assms(1) sel(2)] GenerateLabelSelector_ok [OF assms sel] that show ?thesis by auto
qed

lemma MergeMap_2:
  "wf_map a \<Longrightarrow> wf_map b \<Longrightarrow> wf_map c \<Longrightarrow>
   map_of (MergeMap a [b, c]) = map_of a ++ map_of b ++ map_of c"
  by (simp add: MergeMap_def map_of_maps_Copy)

lemma has_labels_map: "wf_map m \<Longrightarrow> map_of ls = f ++ map_of m \<Longrightarrow> has_labels m ls"
  by (auto simp: list_all_iff map_add_Some_iff)

text \<open>The labels a value gets: object labels, then custom ones, then the immutable ones.\<close>

definition obj_labels :: "'v lab_config \<Rightarrow> 'v \<Rightarrow> labels option" where
  "obj_labels cfg v =
     (case LabelsEnricher cfg of None \<Rightarrow> Some []
      | Some f \<Rightarrow> (case f v of Inl _ \<Rightarrow> None | Inr m \<Rightarrow> Some m))"

lemma Lab_BuildLabels_eq:
  assumes "MatchLabels opts = (found, opts')"
  shows "case obj_labels cfg v of
      None \<Rightarrow> \<exists>e. Lab_BuildLabels cfg v opts = (Inl e, opts')
    | Some ol \<Rightarrow>
        if list_ex (\<lambda>(k, _). map_of (or_no_labels found) k \<noteq> None \<or> map_of ol k \<noteq> None)
             (ImmutableLabels cfg)
        then \<exists>e. Lab_BuildLabels cfg v opts = (Inl e, opts')
        else Lab_BuildLabels cfg v opts =
          (Inr (MergeMap ol [or_no_labels found, ImmutableLabels cfg]), opts')"
proof (cases "obj_labels cfg v")
  case None
  then show ?thesis using assms
    by (auto simp: Lab_BuildLabels_def BuildLabels_def obj_labels_def Let_def
        split: option.splits sum.splits)
next
  case (Some ol)
  then have ol: "(case LabelsEnricher cfg of None \<Rightarrow> Inr [] | Some f \<Rightarrow> f v) = Inr ol"
    by (auto simp: obj_labels_def split: option.splits sum.splits)
  let ?P = "\<lambda>(k, _). map_of (or_no_labels found) k \<noteq> None \<or> map_of ol k \<noteq> None"
  show ?thesis
  proof (cases "find ?P (ImmutableLabels cfg)")
    case None
    with Some ol assms find_list_ex(1) [OF None] show ?thesis
      by (simp add: Lab_BuildLabels_def BuildLabels_def Let_def)
  next
    case (Some kv)
    with \<open>obj_labels cfg v = Some ol\<close> ol assms find_list_ex(2) [OF Some] show ?thesis
      by (simp add: Lab_BuildLabels_def BuildLabels_def Let_def split: prod.split)
  qed
qed

section \<open>The contract\<close>

text \<open>
  The values a labeller accepts, the labels it gives them without options, and its invariant: all
  entries carry the immutable labels.
\<close>

definition lab_vok ::
  "'v lab_config \<Rightarrow> ('k \<Rightarrow> ('k, 'v) labeled \<Rightarrow> bool) \<Rightarrow> 'k \<Rightarrow> 'v \<Rightarrow> bool" where
  "lab_vok cfg vok k v \<longleftrightarrow>
     (case obj_labels cfg v of None \<Rightarrow> False
      | Some ol \<Rightarrow> list_all (\<lambda>(l, _). map_of ol l = None) (ImmutableLabels cfg) \<and>
          vok k \<lparr>ld_Name = k, ld_Labels = MergeMap ol [[], ImmutableLabels cfg], ld_Data = v\<rparr>)"

definition lab_abs :: "('k \<Rightarrow> ('k, 'v) labeled option) \<Rightarrow> 'k \<Rightarrow> 'v option" where
  "lab_abs m k = map_option ld_Data (m k)"

definition lab_inv :: "labels \<Rightarrow> ('k \<Rightarrow> ('k, 'v) labeled option) \<Rightarrow> bool" where
  "lab_inv immutable m \<longleftrightarrow> (\<forall>k d. m k = Some d \<longrightarrow> has_labels immutable (ld_Labels d))"

lemma lab_abs_simps [simp]:
  "lab_abs Map.empty = Map.empty"
  "lab_abs (m(k \<mapsto> d)) = (lab_abs m)(k \<mapsto> ld_Data d)"
  "lab_abs (m(k := None)) = (lab_abs m)(k := None)"
  "lab_abs m k = None \<longleftrightarrow> m k = None"
  "lab_abs m k = Some v \<longleftrightarrow> (\<exists>d. m k = Some d \<and> v = ld_Data d)"
  by (auto simp: lab_abs_def fun_eq_iff)

lemma lab_inv_upd:
  "lab_inv im m \<Longrightarrow> lab_inv im (m(k := None))"
  "lab_inv im m \<Longrightarrow> has_labels im (ld_Labels d) \<Longrightarrow> lab_inv im (m(k \<mapsto> d))"
  by (auto simp: lab_inv_def)

lemma map_of_MergeMap_last:
  assumes "wf_map im"
  shows "map_of (MergeMap a [b, im]) = map_of (MergeMap a [b]) ++ map_of im"
  using assms by (simp add: MergeMap_def map_of_maps_Copy)

lemma lab_write_ok:
  assumes "lab_vok cfg vok k v" "wf_map (ImmutableLabels cfg)"
  obtains d where "\<And>op s. Lab_write op cfg nil_slice k v s = op nil_slice k d s"
    "vok k d" "ld_Data d = v" "has_labels (ImmutableLabels cfg) (ld_Labels d)"
proof -
  from assms(1) obtain ol where ol: "obj_labels cfg v = Some ol"
    "list_all (\<lambda>(l, _). map_of ol l = None) (ImmutableLabels cfg)"
    "vok k \<lparr>ld_Name = k, ld_Labels = MergeMap ol [[], ImmutableLabels cfg], ld_Data = v\<rparr>"
    by (auto simp: lab_vok_def split: option.splits)
  have "\<not> list_ex (\<lambda>(l, _). map_of ([] :: labels) l \<noteq> None \<or> map_of ol l \<noteq> None) (ImmutableLabels cfg)"
    using ol(2) by (auto simp: list_all_iff list_ex_iff)
  with Lab_BuildLabels_eq [of "nil_slice" None nil_slice cfg v] ol(1)
  have "Lab_BuildLabels cfg v nil_slice = (Inr (MergeMap ol [[], ImmutableLabels cfg]), nil_slice)"
    by simp
  then have "Lab_write op cfg nil_slice k v s = op nil_slice k
      \<lparr>ld_Name = k, ld_Labels = MergeMap ol [[], ImmutableLabels cfg], ld_Data = v\<rparr> s" for op s
    by (simp add: Lab_write_def)
  then show ?thesis
    by (rule that [OF _ ol(3)])
      (simp_all add: has_labels_map [OF assms(2) map_of_MergeMap_last [OF assms(2)]])
qed

text \<open>A filtered listing with its values unwrapped.\<close>

lemma Lab_filter_listing:
  assumes "listing m items"
  shows "listing (\<lambda>k. case m k of None \<Rightarrow> None
      | Some d \<Rightarrow> if Matches K sel (ld_Labels d) then Some (ld_Data d) else None)
    (Lab_filter K sel items)"
proof -
  have fst: "map fst (Lab_filter K sel xs) = map fst (filter (\<lambda>(k, d). Matches K sel (ld_Labels d)) xs)"
    for xs :: "('a, ('a, 'b) labeled) ListItems"
    unfolding Lab_filter_def by (rule map_fst_blank)
  have map: "wf_map xs \<Longrightarrow> map_of (Lab_filter K sel xs) = (\<lambda>k. case map_of xs k of None \<Rightarrow> None
      | Some d \<Rightarrow> if Matches K sel (ld_Labels d) then Some (ld_Data d) else None)"
    for xs :: "('a, ('a, 'b) labeled) ListItems"
  proof (induction xs)
    case (Cons x xs)
    obtain k d where x: "x = (k, d)" by (cases x)
    with Cons.prems have "map_of xs k = None" by (simp add: map_of_eq_None)
    with Cons x show ?case by (simp add: Lab_filter_def fun_eq_iff)
  qed (simp add: Lab_filter_def)
  show ?thesis
    using assms unfolding listing_def fst
    by (auto simp: map sorted_filter distinct_map_filter)
qed


text \<open>A labeller over a store that keeps its contract keeps it too.\<close>

lemma Labels_contract:
  assumes S: "kv_store S abst I kok vok"
    and K: "selector_laws K rm" and im: "wf_map (ImmutableLabels cfg)"
  shows "kv_store (Labeller K cfg S) (\<lambda>s. lab_abs (abst s))
    (\<lambda>s. I s \<and> lab_inv (ImmutableLabels cfg) (abst s)) kok (lab_vok cfg vok)"
proof (unfold_locales, goal_cases)
  case (1 s k) then show ?case using kv_store.dom_ok [OF S] by auto
next
  case (2 s k v s' a r)
  from lab_write_ok [OF 2(3) im] obtain d where
    d: "Lab_write (Create S) cfg nil_slice k v s = Create S nil_slice k d s" "vok k d"
      "ld_Data d = v" "has_labels (ImmutableLabels cfg) (ld_Labels d)" by metis
  with 2 kv_store.create_new [OF S, of s k d s' a r] show ?case
    by (simp add: Labeller_def Lab_Create_def lab_inv_upd)
next
  case (3 s k v s' a r)
  from lab_write_ok [OF 3(3) im] obtain d where
    d: "Lab_write (Create S) cfg nil_slice k v s = Create S nil_slice k d s" "vok k d" by metis
  with 3 kv_store.create_dup [OF S, of s k d s' a r] show ?case by (simp add: Labeller_def Lab_Create_def)
next
  case (4 s k v s' a r)
  obtain s1 a1 r1 where e: "Read S nil_slice k s = (s1, a1, r1)" by (metis prod_cases3)
  from 4(3) obtain d where "abst s k = Some d" "v = ld_Data d" by auto
  with 4 e kv_store.read_found [OF S _ _ _ e] show ?case by (simp add: Labeller_def Lab_Read_def)
next
  case (5 s k s' a r)
  obtain s1 a1 r1 where e: "Read S nil_slice k s = (s1, a1, r1)" by (metis prod_cases3)
  with 5 kv_store.read_missing [OF S _ _ _ e] show ?case
    by (cases r1) (auto simp: Labeller_def Lab_Read_def)
next
  case (6 s k v s' a r)
  from lab_write_ok [OF 6(3) im] obtain d where
    d: "Lab_write (Update S) cfg nil_slice k v s = Update S nil_slice k d s" "vok k d"
      "ld_Data d = v" "has_labels (ImmutableLabels cfg) (ld_Labels d)" by metis
  with 6 kv_store.update_found [OF S, of s k d s' a r] show ?case
    by (simp add: Labeller_def Lab_Update_def lab_inv_upd)
next
  case (7 s k v s' a r)
  from lab_write_ok [OF 7(3) im] obtain d where
    d: "Lab_write (Update S) cfg nil_slice k v s = Update S nil_slice k d s" "vok k d" by metis
  with 7 kv_store.update_missing [OF S, of s k d s' a r] show ?case by (simp add: Labeller_def Lab_Update_def)
next
  case (8 s k v s' a r)
  from lab_write_ok [OF 8(3) im] obtain d where
    d: "Lab_write (Apply S) cfg nil_slice k v s = Apply S nil_slice k d s" "vok k d"
      "ld_Data d = v" "has_labels (ImmutableLabels cfg) (ld_Labels d)" by metis
  with 8 kv_store.apply_ok [OF S, of s k d s' a r] show ?case
    by (simp add: Labeller_def Lab_Apply_def lab_inv_upd)
next
  case (9 s k s' a r)
  with kv_store.delete_found [OF S, of s k s' a r] show ?case
    by (simp add: Labeller_def Lab_Delete_def lab_inv_upd)
next
  case (10 s k s' a r)
  with kv_store.delete_missing [OF S, of s k s' a r] show ?case by (simp add: Labeller_def Lab_Delete_def)
next
  case (11 s s' a r)
  from GenerateLabelSelector_none [OF K im] obtain sel where
    sel: "GenerateLabelSelector K (ImmutableLabels cfg) [] = Inr sel"
      "\<And>ls. Matches K sel ls \<longleftrightarrow> has_labels (ImmutableLabels cfg) ls" by blast
  obtain s1 a1 r1 where e: "List S nil_slice s = (s1, a1, r1)" by (metis prod_cases3)
  with kv_store.list_ok [OF S _ e] 11 obtain items where
    items: "r1 = Inr items" "listing (abst s) items" "I s1" "abst s1 = abst s" by auto
  have "lab_abs (abst s) = (\<lambda>k. case abst s k of None \<Rightarrow> None
      | Some d \<Rightarrow> if Matches K sel (ld_Labels d) then Some (ld_Data d) else None)"
    using 11(1) by (auto simp: lab_abs_def lab_inv_def sel(2) fun_eq_iff split: option.split)
  with items Lab_filter_listing [OF items(2), of K sel] e sel(1) 11 show ?case
    by (auto simp: Labeller_def Lab_List_def)
qed

section \<open>An instance of the selectors\<close>

text \<open>
  Selectors of one equality \<open>key=value\<close>, which keep the laws. They show that the hypotheses of
  the properties can hold; the repository does not use them.
\<close>

definition eq_selectors :: "((string \<times> string) list, string \<times> string) selectors" where
  "eq_selectors =
     \<lparr>Parse = (\<lambda>t. Inr (if t = [] then []
        else [(takeWhile (\<lambda>c. c \<noteq> CHR ''='') t, tl (dropWhile (\<lambda>c. c \<noteq> CHR ''='') t))])),
      SelectorFromSet = (\<lambda>m. m), Requirements = (\<lambda>sel. (sel, True)), req_Key = fst,
      NewSelectorAdd = (\<lambda>rs. rs), Matches = (\<lambda>sel ls. has_labels sel ls),
      sel_String = (\<lambda>sel. strings_Join (map (\<lambda>(k, v). k @ ''='' @ v) sel) '','')\<rparr>"

lemma eq_selector_laws: "selector_laws eq_selectors (\<lambda>r ls. (\<lambda>(k, v). map_of ls k = Some v) r)"
  by (auto simp: selector_laws_def eq_selectors_def)

section \<open>Properties\<close>

text \<open>
  C14. A labeller over the memory backend is a map of the plain values, for values whose object
  labels stay clear of the immutable ones: every sequence of calls answers as the map does, and
  every entry keeps the immutable labels.
\<close>

theorem Labels_refines_map:
  assumes "selector_laws K rm" "wf_map (ImmutableLabels cfg)" "wf_map m"
    and "lab_inv (ImmutableLabels cfg) (map_of m)"
    and "\<forall>c \<in> set cs. call_ok (\<lambda>_. True) (lab_vok cfg (\<lambda>_ _. True)) c"
    and "run (Labeller K cfg (Memory as_string zero)) cs m = (m', answers)"
  shows "lab_inv (ImmutableLabels cfg) (map_of m') \<and>
    spec_run cs (lab_abs (map_of m)) (lab_abs (map_of m')) answers"
  using kv_store.run_refines [OF Labels_contract [OF mem.kv_store_axioms assms(1,2)] _ assms(5,6)] assms(3,4)
  by simp

theorem Labels_refines_map_witness:
  "spec_run [CApply (1::nat) ''a'', CRead 1] Map.empty [1 \<mapsto> ''a''] [Done, Value ''a'']"
proof -
  let ?cfg = "\<lparr>ImmutableLabels = [(''app'', ''x'')], LabelsEnricher = None\<rparr> :: string lab_config"
  let ?m = "[(1::nat, \<lparr>ld_Name = 1, ld_Labels = [(''app'', ''x'')], ld_Data = ''a''\<rparr>)]"
  have "run (Labeller eq_selectors ?cfg (Memory None undefined)) [CApply 1 ''a'', CRead 1] [] =
      (?m, [Done, Value ''a''])"
    by (simp add: Lab_defs BuildLabels_def Mem_defs answer_of_def MergeMap_def maps_Copy_def)
  from Labels_refines_map [OF eq_selector_laws _ _ _ _ this] show ?thesis
    by (simp add: lab_inv_def lab_vok_def obj_labels_def)
qed

text \<open>
  What a selector shows of a memory store: a requirement on an immutable label is refused,
  otherwise the listing has exactly the entries with the immutable labels that the selector matches,
  in ascending order, and the store is left alone.
\<close>

theorem Labels_list_by_selector:
  assumes "selector_laws K rm" "wf_map (ImmutableLabels cfg)" "wf_map m"
    and "Parse K text = Inr sel" "Requirements K sel = (rs, True)"
  shows "if list_ex (\<lambda>r. map_of (ImmutableLabels cfg) (req_Key K r) \<noteq> None) rs
    then \<exists>e. Lab_List K cfg (Memory as_string zero) (slice_of [WithLabelSelector text]) m =
      (m, [WithLabelSelector text], Inl e)
    else \<exists>items. Lab_List K cfg (Memory as_string zero) (slice_of [WithLabelSelector text]) m =
        (m, [WithLabelSelector text], Inr items) \<and>
      listing (\<lambda>k. case map_of m k of None \<Rightarrow> None
        | Some d \<Rightarrow> if has_labels (ImmutableLabels cfg) (ld_Labels d) \<and> Matches K sel (ld_Labels d)
            then Some (ld_Data d) else None) items"
proof (cases "list_ex (\<lambda>r. map_of (ImmutableLabels cfg) (req_Key K r) \<noteq> None) rs")
  case True
  with GenerateLabelSelector_ok [OF assms(1,2,4,5)] obtain e where
    "GenerateLabelSelector K (ImmutableLabels cfg) text = Inl e"
    by (auto simp: isl_def)
  with True show ?thesis by (simp add: Lab_List_def slice_of_single)
next
  case False
  with GenerateLabelSelector_ok [OF assms(1,2,4,5)] obtain sel' where
    sel': "GenerateLabelSelector K (ImmutableLabels cfg) text = Inr sel'"
    "\<And>ls. Matches K sel' ls \<longleftrightarrow> has_labels (ImmutableLabels cfg) ls \<and> Matches K sel ls" by auto
  have "listing (map_of m) (sort_key fst m)" using assms(3) by (simp add: listing_sort)
  from Lab_filter_listing [OF this, of K sel', unfolded sel'(2)] False show ?thesis
    by (simp add: Lab_List_def slice_of_single sel'(1) Memory_def Mem_List_def Mem_List_loop_all)
qed

theorem Labels_list_by_selector_witness:
  "Lab_List eq_selectors \<lparr>ImmutableLabels = [(''app'', ''x'')], LabelsEnricher = None\<rparr>
     (Memory None undefined) (slice_of [WithLabelSelector ''app=y'']) ([] :: (nat, (nat, string) labeled) gomap) =
     ([], [WithLabelSelector ''app=y''], Inl (Errorf ''failed to parse label selector''
        [new_error ''cannot override additional label selector over immutable key app'']))"
  using Labels_list_by_selector [OF eq_selector_laws, of
      "\<lparr>ImmutableLabels = [(''app'', ''x'')], LabelsEnricher = None\<rparr> :: string lab_config"
      "[] :: (nat, (nat, string) labeled) gomap" "''app=y''" "[(''app'', ''y'')]" "[(''app'', ''y'')]"
      None undefined]
  by (simp add: eq_selectors_def Lab_List_def GenerateLabelSelector_def slice_of_single)

text \<open>
  The labels an \<open>Apply\<close> stores: custom labels win over those of the enricher and nothing wins
  over the immutable ones; an immutable label among the custom or object labels, and an error of the
  enricher, are errors that leave the store alone.
\<close>

theorem Labels_precedence:
  assumes "wf_map custom" "wf_map (ImmutableLabels cfg)"
    and "\<forall>ol. obj_labels cfg v = Some ol \<longrightarrow> wf_map ol"
  shows "case Lab_Apply cfg (Memory as_string zero) (slice_of [WithLabels custom]) k v m of
      (m', _, r) \<Rightarrow>
        (case obj_labels cfg v of
           None \<Rightarrow> r \<noteq> None \<and> m' = m
         | Some ol \<Rightarrow>
             if list_ex (\<lambda>(l, _). map_of custom l \<noteq> None \<or> map_of ol l \<noteq> None) (ImmutableLabels cfg)
             then r \<noteq> None \<and> m' = m
             else r = None \<and> (\<exists>d. map_of m' = (map_of m)(k \<mapsto> d) \<and> ld_Name d = k \<and> ld_Data d = v \<and>
               map_of (ld_Labels d) = map_of ol ++ map_of custom ++ map_of (ImmutableLabels cfg)))"
proof (cases "obj_labels cfg v")
  case None
  with Lab_BuildLabels_eq [of "slice_of [WithLabels custom]" _ _ cfg v] show ?thesis
    by (auto simp: slice_of_single Lab_Apply_def Lab_write_def)
next
  case (Some ol)
  with Lab_BuildLabels_eq [of "slice_of [WithLabels custom]" _ _ cfg v] assms show ?thesis
    by (auto simp: slice_of_single Lab_Apply_def Lab_write_def Memory_def Mem_Apply_def MergeMap_2
        split: if_splits)
qed

theorem Labels_precedence_witness:
  "\<exists>m' a d. Lab_Apply \<lparr>ImmutableLabels = [(''app'', ''x'')],
       LabelsEnricher = Some (\<lambda>_. Inr [(''size'', ''s''), (''kind'', ''k'')])\<rparr>
       (Memory None undefined) (slice_of [WithLabels [(''size'', ''m'')]]) (1::nat) ''a'' [] = (m', a, None) \<and>
     map_of m' = [1 \<mapsto> d] \<and>
     map_of (ld_Labels d) = [''kind'' \<mapsto> ''k'', ''size'' \<mapsto> ''m'', ''app'' \<mapsto> ''x'']"
  using Labels_precedence [of "[(''size'', ''m'')]" "\<lparr>ImmutableLabels = [(''app'', ''x'')],
       LabelsEnricher = Some (\<lambda>_. Inr [(''size'', ''s''), (''kind'', ''k'')])\<rparr>" "''a''" "[]" "1::nat"
      None undefined]
  by (auto simp: obj_labels_def split: prod.splits)

text \<open>
  A listing never reports a failure of the store below: \<open>List\<close> ignores its error and answers
  with no items.
\<close>

theorem Labels_list_swallows_errors:
  assumes "GenerateLabelSelector K (ImmutableLabels cfg) [] = Inr sel"
    and "List S nil_slice s = (s', a, Inl e)"
  shows "Lab_List K cfg S nil_slice s = (s', a, Inr [])"
  using assms by (simp add: Lab_List_def)

theorem Labels_list_swallows_errors_witness:
  "Lab_List eq_selectors \<lparr>ImmutableLabels = [], LabelsEnricher = None\<rparr>
     ((Memory None undefined) \<lparr>List := \<lambda>opts m. (m, [], Inl (new_error ''unavailable''))\<rparr>)
     nil_slice ([] :: (nat, (nat, string) labeled) gomap) = ([], [], Inr [])"
  by (rule Labels_list_swallows_errors) (simp_all add: GenerateLabelSelector_def eq_selectors_def)

end
