(* ===== verification/HTTP_Store.thy ===== *)
theory HTTP_Store
  imports HTTP_Client Labels
begin

text \<open>
  A store over HTTP: the server (\<open>pkg/store/backends/http/server\<close>), which answers requests from a
  store, and the client (\<open>pkg/store/backends/http/client\<close>), which is a store again.

  A handler returns the new state of the store and the list of its writes to the response, since
  some handlers write more than once. What \<open>gin\<close> sends for such a list, how it matches a URL to a
  route, and the codecs are arguments; \<open>link_ok\<close> says what the code relies on.
\<close>

section \<open>The server\<close>

record srv_config =
  OptionParser :: "((string, string) gomap \<Rightarrow> err + opt list) option"
  PluralResourceName :: string
  ResourceVersion :: string
  UseLabels :: bool

definition srv_ApplyDefaults :: "registry \<Rightarrow> srv_config \<Rightarrow> srv_config" where
  "srv_ApplyDefaults reg c =
     (if OptionParser c = None then c\<lparr>OptionParser := Some (UnserializeOptions reg)\<rparr> else c)"

definition srv_Validate :: "registry \<Rightarrow> srv_config \<Rightarrow> srv_config \<times> err option" where
  "srv_Validate reg c =
     (let c = srv_ApplyDefaults reg c in
      (c, if OptionParser c = None then Some (new_error ''option parser is required'')
          else if UseLabels c \<and> (ResourceVersion c = [] \<or> PluralResourceName c = []) then
            Some (new_error ''resource version and plural resource name is required when using labels'')
          else None))"

text \<open>
  The server with its store, and the methods of the value type: \<open>ShouldBindJSON\<close>, \<open>GetName\<close>,
  \<open>Validate\<close>.
\<close>

record ('s, 'v, 'sel, 'req) server =
  srv_store :: "('s, string, 'v) store"
  srv_cfg :: srv_config
  srv_K :: "('sel, 'req) selectors"
  Bind :: "string option \<Rightarrow> err + 'v"
  GetName :: "'v \<Rightarrow> string"
  Validate :: "'v \<Rightarrow> err option"

definition srv_New ::
  "registry \<Rightarrow> ('s, string, 'v) store \<Rightarrow> srv_config list \<Rightarrow> ('sel, 'req) selectors \<Rightarrow>
   (string option \<Rightarrow> err + 'v) \<Rightarrow> ('v \<Rightarrow> string) \<Rightarrow> ('v \<Rightarrow> err option) \<Rightarrow>
   err + ('s, 'v, 'sel, 'req) server" where
  "srv_New reg s optCfg K bind getName validate =
     (let cfg = (case optCfg of
          [] \<Rightarrow> \<lparr>OptionParser = None, PluralResourceName = [], ResourceVersion = [], UseLabels = False\<rparr>
        | x # _ \<Rightarrow> x) in
      case srv_Validate reg cfg of
        (cfg, Some e) \<Rightarrow> Inl e
      | (cfg, None) \<Rightarrow>
          Inr \<lparr>srv_store = s, srv_cfg = cfg, srv_K = K, Bind = bind, GetName = getName,
               Validate = validate\<rparr>)"

text \<open>A request as the handlers see it, and their writes: \<open>c.JSON\<close> and \<open>c.Status\<close>.\<close>

record gin_ctx =
  Query :: "(string, string list) gomap"
  Param_name :: string
  Req_body :: "string option"

datatype 'v reply =
    JSON_error int err
  | JSON_value int 'v
  | JSON_items int "(string, 'v) ListItems"
  | StatusOnly int

definition GetLabels :: "('s, 'v, 'sel, 'req) server \<Rightarrow> labels" where
  "GetLabels p = [(''resourceVersion'', ResourceVersion (srv_cfg p)),
     (''pluralResourceName'', PluralResourceName (srv_cfg p))]"

definition SetLabelsIfNeeded ::
  "('s, 'v, 'sel, 'req) server \<Rightarrow> opt slice \<Rightarrow> err option \<times> opt slice" where
  "SetLabelsIfNeeded p opts =
     (if \<not> UseLabels (srv_cfg p) then (None, opts)
      else EnrichWithLabelsOption (GetLabels p) opts)"

text \<open>The first value of every query parameter, in the order \<open>range\<close> happens to take.\<close>

definition flatten_query :: "(string, string list) gomap \<Rightarrow> (string, string) gomap" where
  "flatten_query query =
     fold (\<lambda>(key, values) flat. AList.update key (case values of [] \<Rightarrow> [] | v # _ \<Rightarrow> v) flat) query []"

definition GetOptions :: "('s, 'v, 'sel, 'req) server \<Rightarrow> gin_ctx \<Rightarrow> err + opt list" where
  "GetOptions p c =
     (case OptionParser (srv_cfg p) of
        None \<Rightarrow> Inl (new_error ''empty option parser'')
      | Some parser \<Rightarrow> parser (flatten_query (Query c)))"

definition first_write :: "err option \<Rightarrow> 'v reply list" where
  "first_write e = (case e of None \<Rightarrow> [] | Some e \<Rightarrow> [JSON_error 400 e])"

definition srv_create ::
  "('s, 'v, 'sel, 'req) server \<Rightarrow> gin_ctx \<Rightarrow> 's \<Rightarrow> 's \<times> 'v reply list" where
  "srv_create p c s =
     (case GetOptions p c of
        Inl e \<Rightarrow> (s, [JSON_error 400 e])
      | Inr opts \<Rightarrow>
          (case SetLabelsIfNeeded p (slice_of opts) of (err, opts) \<Rightarrow>
           case Bind p (Req_body c) of
             Inl e \<Rightarrow> (s, first_write err @ [JSON_error 400 e])
           | Inr body \<Rightarrow>
               (case Validate p body of
                  Some e \<Rightarrow> (s, first_write err @ [JSON_error 400 e])
                | None \<Rightarrow>
                    (case Create (srv_store p) opts (GetName p body) body s of
                       (s, _, None) \<Rightarrow> (s, first_write err @ [StatusOnly 201])
                     | (s, _, Some e) \<Rightarrow>
                         (s, first_write err @
                           [if is_err e (Http ErrConflict) then JSON_error 409 e
                            else if is_err e ErrUnsupportedOption then JSON_error 400 e
                            else JSON_error 500 e,
                            StatusOnly 201])))))"

definition srv_read ::
  "('s, 'v, 'sel, 'req) server \<Rightarrow> gin_ctx \<Rightarrow> 's \<Rightarrow> 's \<times> 'v reply list" where
  "srv_read p c s =
     (case GetOptions p c of
        Inl e \<Rightarrow> (s, [JSON_error 400 e])
      | Inr opts \<Rightarrow>
          (case Read (srv_store p) (slice_of opts) (Param_name c) s of
             (s, _, Inl e) \<Rightarrow>
               (s, [if is_err e (Http ErrNotFound) then JSON_error 404 e
                    else if is_err e ErrUnsupportedOption then JSON_error 400 e
                    else JSON_error 500 e])
           | (s, _, Inr val) \<Rightarrow> (s, [JSON_value 200 val])))"

definition srv_update ::
  "('s, 'v, 'sel, 'req) server \<Rightarrow> gin_ctx \<Rightarrow> 's \<Rightarrow> 's \<times> 'v reply list" where
  "srv_update p c s =
     (case GetOptions p c of
        Inl e \<Rightarrow> (s, [JSON_error 400 e])
      | Inr opts \<Rightarrow>
          (case SetLabelsIfNeeded p (slice_of opts) of (err, opts) \<Rightarrow>
           case Bind p (Req_body c) of
             Inl e \<Rightarrow> (s, first_write err @ [JSON_error 400 e])
           | Inr body \<Rightarrow>
               (case Validate p body of
                  Some e \<Rightarrow> (s, first_write err @ [JSON_error 400 e])
                | None \<Rightarrow>
                    (case Update (srv_store p) opts (Param_name c) body s of
                       (s, _, None) \<Rightarrow> (s, first_write err @ [StatusOnly 200])
                     | (s, _, Some e) \<Rightarrow>
                         (s, first_write err @
                           [if is_err e (Http ErrNotFound) then JSON_error 404 e
                            else if is_err e ErrUnsupportedOption then JSON_error 400 e
                            else JSON_error 500 e])))))"

definition srv_delete ::
  "('s, 'v, 'sel, 'req) server \<Rightarrow> gin_ctx \<Rightarrow> 's \<Rightarrow> 's \<times> 'v reply list" where
  "srv_delete p c s =
     (case GetOptions p c of
        Inl e \<Rightarrow> (s, [JSON_error 400 e])
      | Inr opts \<Rightarrow>
          (case Delete (srv_store p) (slice_of opts) (Param_name c) s of
             (s, _, Some e) \<Rightarrow>
               (s, [if is_err e (Http ErrNotFound) then JSON_error 404 e
                    else if is_err e ErrUnsupportedOption then JSON_error 400 e
                    else JSON_error 500 e])
           | (s, _, None) \<Rightarrow> (s, [StatusOnly 204])))"

definition srv_list ::
  "('s, 'v, 'sel, 'req) server \<Rightarrow> gin_ctx \<Rightarrow> 's \<Rightarrow> 's \<times> 'v reply list" where
  "srv_list p c s =
     (case GetOptions p c of
        Inl e \<Rightarrow> (s, [JSON_error 400 e])
      | Inr opts \<Rightarrow>
          (case (if UseLabels (srv_cfg p)
                 then EnrichWithLabelSelectorOption (srv_K p) (GetLabels p) (slice_of opts)
                 else (None, slice_of opts)) of (err, opts) \<Rightarrow>
           case List (srv_store p) opts s of
             (s, _, Inl e) \<Rightarrow>
               (s, first_write err @
                 [if is_err e ErrUnsupportedOption then JSON_error 400 e else JSON_error 500 e])
           | (s, _, Inr items) \<Rightarrow> (s, first_write err @ [JSON_items 200 items])))"

definition srv_apply ::
  "('s, 'v, 'sel, 'req) server \<Rightarrow> gin_ctx \<Rightarrow> 's \<Rightarrow> 's \<times> 'v reply list" where
  "srv_apply p c s =
     (case GetOptions p c of
        Inl e \<Rightarrow> (s, [JSON_error 400 e])
      | Inr opts \<Rightarrow>
          (case SetLabelsIfNeeded p (slice_of opts) of (err, opts) \<Rightarrow>
           case Bind p (Req_body c) of
             Inl e \<Rightarrow> (s, first_write err @ [JSON_error 400 e])
           | Inr body \<Rightarrow>
               (case Validate p body of
                  Some e \<Rightarrow> (s, first_write err @ [JSON_error 400 e])
                | None \<Rightarrow>
                    if GetName p body \<noteq> Param_name c then
                      (s, first_write err @
                        [JSON_error 400 (new_error ''body name does not match path name'')])
                    else
                      (case Apply (srv_store p) opts (Param_name c) body s of
                         (s, _, None) \<Rightarrow> (s, first_write err @ [StatusOnly 200])
                       | (s, _, Some e) \<Rightarrow>
                           (s, first_write err @
                             [if is_err e ErrUnsupportedOption then JSON_error 400 e
                              else JSON_error 500 e])))))"

text \<open>The routes: method, whether the path ends in \<open>/:name\<close>, and the handler.\<close>

definition Register ::
  "('s, 'v, 'sel, 'req) server \<Rightarrow>
   ((string \<times> bool) \<times> (gin_ctx \<Rightarrow> 's \<Rightarrow> 's \<times> 'v reply list)) list" where
  "Register p =
     [((''POST'', False), srv_create p),
      ((''GET'', True), srv_read p),
      ((''PUT'', True), srv_update p),
      ((''DELETE'', True), srv_delete p),
      ((''GET'', False), srv_list p),
      ((''POST'', True), srv_apply p)]"

section \<open>The client\<close>

record ('s, 'v) hclient =
  hc_url :: string
  hc_http :: "('s, 'v) http_client"
  OptionSerializer :: "opt list \<Rightarrow> err + (string, string) gomap"
  Encode :: "(string, string list) gomap \<Rightarrow> string"
  hc_dec :: "string \<Rightarrow> err + 'v"
  hc_dec_items :: "string \<Rightarrow> err + (string, 'v) ListItems"
  hc_GetName :: "'v \<Rightarrow> string"

definition AsQuery :: "((string, string list) gomap \<Rightarrow> string) \<Rightarrow> (string, string) gomap \<Rightarrow> string" where
  "AsQuery encode s = encode (fold (\<lambda>(k, v) values. AList.update k [v] values) s [])"

definition query_option ::
  "('s, 'v) hclient \<Rightarrow> (string, string) gomap \<Rightarrow> request cfg_option option list" where
  "query_option c serialized = [Some (WithRawQuery (AsQuery (Encode c) serialized))]"

definition item_url :: "('s, 'v) hclient \<Rightarrow> string \<Rightarrow> string" where
  "item_url c key = hc_url c @ ''/'' @ key"

definition expect :: "int \<Rightarrow> 's \<times> data \<Rightarrow> opt slice \<Rightarrow> ('s, err option) outcome" where
  "expect status r opts =
     (case r of (s, resp) \<Rightarrow> (s, arr opts, if Status resp = status then None else Error resp))"

definition HC_Create ::
  "('s, 'v) hclient \<Rightarrow> opt slice \<Rightarrow> string \<Rightarrow> 'v \<Rightarrow> 's \<Rightarrow> ('s, err option) outcome" where
  "HC_Create c opts key value s =
     (if key \<noteq> hc_GetName c value then (s, arr opts, Some (new_error ''key does not match value name''))
      else case OptionSerializer c (live opts) of
          Inl e \<Rightarrow> (s, arr opts, Some e)
        | Inr serialized \<Rightarrow>
            expect 201 (http_Post (hc_http c) (hc_url c) (PValue value) (query_option c serialized) s) opts)"

definition HC_Read ::
  "('s, 'v) hclient \<Rightarrow> opt slice \<Rightarrow> string \<Rightarrow> 's \<Rightarrow> ('s, err + 'v) outcome" where
  "HC_Read c opts key s =
     (case OptionSerializer c (live opts) of
        Inl e \<Rightarrow> (s, arr opts, Inl e)
      | Inr serialized \<Rightarrow>
          (case http_Get (hc_http c) (item_url c key) (query_option c serialized) s of (s, resp) \<Rightarrow>
           case Parse_data (hc_dec c) resp of
             (resp, out) \<Rightarrow>
               (s, arr opts, case Error resp of Some e \<Rightarrow> Inl e | None \<Rightarrow> Inr (the out))))"

definition HC_Update ::
  "('s, 'v) hclient \<Rightarrow> opt slice \<Rightarrow> string \<Rightarrow> 'v \<Rightarrow> 's \<Rightarrow> ('s, err option) outcome" where
  "HC_Update c opts key value s =
     (if key \<noteq> hc_GetName c value then (s, arr opts, Some (new_error ''key does not match value name''))
      else case OptionSerializer c (live opts) of
          Inl e \<Rightarrow> (s, arr opts, Some e)
        | Inr serialized \<Rightarrow>
            expect 200 (http_Put (hc_http c) (item_url c key) (PValue value) (query_option c serialized) s) opts)"

definition HC_Apply ::
  "('s, 'v) hclient \<Rightarrow> opt slice \<Rightarrow> string \<Rightarrow> 'v \<Rightarrow> 's \<Rightarrow> ('s, err option) outcome" where
  "HC_Apply c opts key value s =
     (if key \<noteq> hc_GetName c value then (s, arr opts, Some (new_error ''key does not match value name''))
      else case OptionSerializer c (live opts) of
          Inl e \<Rightarrow> (s, arr opts, Some e)
        | Inr serialized \<Rightarrow>
            expect 200 (http_Post (hc_http c) (item_url c key) (PValue value) (query_option c serialized) s) opts)"

definition HC_Delete ::
  "('s, 'v) hclient \<Rightarrow> opt slice \<Rightarrow> string \<Rightarrow> 's \<Rightarrow> ('s, err option) outcome" where
  "HC_Delete c opts key s =
     (case OptionSerializer c (live opts) of
        Inl e \<Rightarrow> (s, arr opts, Some e)
      | Inr serialized \<Rightarrow>
          expect 204 (http_Delete (hc_http c) (item_url c key) PNil (query_option c serialized) s) opts)"

definition HC_List ::
  "('s, 'v) hclient \<Rightarrow> opt slice \<Rightarrow> 's \<Rightarrow> ('s, err + (string, 'v) ListItems) outcome" where
  "HC_List c opts s =
     (case OptionSerializer c (live opts) of
        Inl e \<Rightarrow> (s, arr opts, Inl e)
      | Inr serialized \<Rightarrow>
          (case http_Get (hc_http c) (hc_url c) (query_option c serialized) s of (s, resp) \<Rightarrow>
           case Parse_data (hc_dec_items c) resp of
             (resp, items) \<Rightarrow>
               (s, arr opts, case Error resp of Some e \<Rightarrow> Inl e | None \<Rightarrow> Inr (the items))))"

definition HC :: "('s, 'v) hclient \<Rightarrow> ('s, string, 'v) store" where
  "HC c =
     \<lparr>Create = HC_Create c, Read = HC_Read c, Update = HC_Update c, Apply = HC_Apply c,
      Delete = HC_Delete c, List = HC_List c\<rparr>"

section \<open>The connection\<close>

text \<open>
  What the standard library and \<open>gin\<close> contribute: the response for a list of writes, the route of
  a URL (\<open>Some None\<close> is the collection, \<open>Some (Some name)\<close> an item), the answer when there is no
  route, and the parsed query.
\<close>

record 'v gin =
  gin_Write :: "'v reply list \<Rightarrow> http_response"
  gin_match :: "string \<Rightarrow> string option option"
  no_route :: http_response
  URL_Query :: "string \<Rightarrow> (string, string list) gomap"

definition serve ::
  "'v gin \<Rightarrow> ('s, 'v, 'sel, 'req) server \<Rightarrow> request \<Rightarrow> 's \<Rightarrow> 's \<times> (err + http_response)" where
  "serve w p r s =
     (case gin_match w (req_URL r) of
        None \<Rightarrow> (s, Inr (no_route w))
      | Some target \<Rightarrow>
          (case map_of (Register p) (req_Method r, target \<noteq> None) of
             None \<Rightarrow> (s, Inr (no_route w))
           | Some handler \<Rightarrow>
               (case handler \<lparr>Query = URL_Query w (RawQuery r), Param_name = or_empty target,
                    Req_body = Body r\<rparr> s of
                  (s, ws) \<Rightarrow> (s, Inr (gin_Write w ws)))))"

text \<open>
  The documented behaviour the refinement needs, for the names \<open>rt\<close> that survive in a URL and the
  values \<open>tr\<close> the codec keeps: requests with the methods of the routes and the URLs of the store are
  built as asked, each of these URLs leads to its route, the first write of a handler decides the
  status, and JSON bodies arrive. The headers of a response are left open.
\<close>

definition transport_ok :: "('s, 'v, 'sel, 'req) server \<Rightarrow> 'v gin \<Rightarrow> ('s, 'v) hclient \<Rightarrow> bool" where
  "transport_ok p w c \<longleftrightarrow>
     Do (cl_Http (hc_http c)) = serve w p \<and> Tripperware (hc_http c) = (\<lambda>endpoint. endpoint) \<and>
     DefaultRequestOptions (hc_http c) = [] \<and> OptionSerializer c [] = Inr [] \<and>
     URL_Query w (Encode c []) = [] \<and> \<not> UseLabels (srv_cfg p) \<and>
     (\<exists>parser. OptionParser (srv_cfg p) = Some parser \<and> parser [] = Inr [])"

definition urls_ok :: "'v gin \<Rightarrow> ('s, 'v) hclient \<Rightarrow> (string \<Rightarrow> bool) \<Rightarrow> bool" where
  "urls_ok w c rt \<longleftrightarrow>
     (\<forall>meth \<in> {''GET'', ''POST'', ''PUT'', ''DELETE''}. \<forall>url body.
        url = hc_url c \<or> (\<exists>k. rt k \<and> url = item_url c k) \<longrightarrow>
        NewRequest (cl_Http (hc_http c)) meth url body =
          Inr \<lparr>req_Method = meth, req_URL = url, RawQuery = [], Header = [], Body = body\<rparr>) \<and>
     gin_match w (hc_url c) = Some None \<and>
     (\<forall>k. rt k \<longrightarrow> gin_match w (item_url c k) = Some (Some k))"

definition codec_ok ::
  "('s, 'v, 'sel, 'req) server \<Rightarrow> 'v gin \<Rightarrow> ('s, 'v) hclient \<Rightarrow> (string \<Rightarrow> bool) \<Rightarrow> ('v \<Rightarrow> bool) \<Rightarrow> bool"
where
  "codec_ok p w c rt tr \<longleftrightarrow>
     hc_GetName c = GetName p \<and>
     (\<forall>v. tr v \<longrightarrow> (\<exists>raw. Marshal (cl_Http (hc_http c)) v = Inr raw \<and> Bind p (Some raw) = Inr v)) \<and>
     (\<forall>code e ws. 400 \<le> code \<longrightarrow> code < 600 \<longrightarrow>
        resp_Status (gin_Write w (JSON_error code e # ws)) = code) \<and>
     (\<forall>code \<in> {200, 201, 204}. resp_Status (gin_Write w [StatusOnly code]) = code) \<and>
     (\<forall>v. tr v \<longrightarrow> (\<exists>raw. resp_Status (gin_Write w [JSON_value 200 v]) = 200 \<and>
        resp_Body (gin_Write w [JSON_value 200 v]) = (raw, None) \<and> hc_dec c raw = Inr v)) \<and>
     (\<forall>items. list_all (\<lambda>(k, v). rt k \<and> tr v) items \<longrightarrow>
        (\<exists>raw. resp_Status (gin_Write w [JSON_items 200 items]) = 200 \<and>
          resp_Body (gin_Write w [JSON_items 200 items]) = (raw, None) \<and> hc_dec_items c raw = Inr items))"

text \<open>The response the client gets for the writes of a handler.\<close>

definition received :: "'v gin \<Rightarrow> 'v reply list \<Rightarrow> data" where
  "received w ws =
     \<lparr>Headers = resp_Header (gin_Write w ws), Raw = fst (resp_Body (gin_Write w ws)),
      Status = resp_Status (gin_Write w ws), Err = snd (resp_Body (gin_Write w ws))\<rparr>"

lemma serve_route:
  assumes "transport_ok p w c" "urls_ok w c rt" "gin_match w url = Some target"
    and "meth \<in> {''GET'', ''POST'', ''PUT'', ''DELETE''}" "url = hc_url c \<or> (\<exists>k. rt k \<and> url = item_url c k)"
    and "map_of (Register p) (meth, target \<noteq> None) = Some handler"
    and "pl = PNil \<and> body = None \<or> (\<exists>v raw. pl = PValue v \<and>
      Marshal (cl_Http (hc_http c)) v = Inr raw \<and> body = Some raw)"
  shows "do_request (hc_http c) meth url pl (query_option c []) s =
    (case handler \<lparr>Query = [], Param_name = or_empty target, Req_body = body\<rparr> s of
       (s, ws) \<Rightarrow> (s, received w ws))"
proof -
  have "build (cl_Http (hc_http c)) meth url pl =
      Inr \<lparr>req_Method = meth, req_URL = url, RawQuery = [], Header = [], Body = body\<rparr>"
  proof -
    have "\<forall>url body. url = hc_url c \<or> (\<exists>k. rt k \<and> url = item_url c k) \<longrightarrow>
        NewRequest (cl_Http (hc_http c)) meth url body =
          Inr \<lparr>req_Method = meth, req_URL = url, RawQuery = [], Header = [], Body = body\<rparr>"
      by (rule bspec [OF conjunct1 [OF assms(2) [unfolded urls_ok_def]] assms(4)])
    from this [THEN spec, THEN spec, THEN mp, OF assms(5)] have "NewRequest (cl_Http (hc_http c)) meth url body =
        Inr \<lparr>req_Method = meth, req_URL = url, RawQuery = [], Header = [], Body = body\<rparr>" .
    with assms(7) show ?thesis by (auto simp: build_def)
  qed
  with assms(1,3,6) show ?thesis
    by (simp add: do_request_def transport_ok_def query_option_def WithRawQuery_def AsQuery_def
        send_def serve_def received_def split: prod.split)
qed

lemma GetOptions_empty:
  assumes "transport_ok p w c"
  shows "GetOptions p \<lparr>Query = [], Param_name = n, Req_body = b\<rparr> = Inr []"
    and "SetLabelsIfNeeded p opts = (None, opts)" and "UseLabels (srv_cfg p) = False"
    and "OptionSerializer c [] = Inr []"
  using assms by (auto simp: transport_ok_def GetOptions_def flatten_query_def SetLabelsIfNeeded_def)

lemma Register_lookup:
  "map_of (Register p) (''POST'', False) = Some (srv_create p)"
  "map_of (Register p) (''GET'', True) = Some (srv_read p)"
  "map_of (Register p) (''PUT'', True) = Some (srv_update p)"
  "map_of (Register p) (''DELETE'', True) = Some (srv_delete p)"
  "map_of (Register p) (''GET'', False) = Some (srv_list p)"
  "map_of (Register p) (''POST'', True) = Some (srv_apply p)"
  by (simp_all add: Register_def)

lemma StatusCodeAsErr_ge400: "400 \<le> c \<Longrightarrow> StatusCodeAsErr c \<noteq> None"
  by (auto simp: StatusCodeAsErr_def split: option.split)

lemma Error_None: "Error r = None \<longleftrightarrow> Err r = None \<and> StatusCodeAsErr (Status r) = None"
  by (auto simp: Error_def IsOK_def split: option.split)

lemma StatusCodeAsErr_ok: "0 < c \<Longrightarrow> c < 400 \<Longrightarrow> StatusCodeAsErr c = None"
  by (simp add: StatusCodeAsErr_def)

lemma Error_status: "400 \<le> Status r \<Longrightarrow> \<exists>y. Error r = Some y"
  using Error_None [of r] StatusCodeAsErr_ge400 [of "Status r"] by (cases "Error r") auto

section \<open>Calls through the connection\<close>

text \<open>
  Each operation of the client, without options, makes the same call on the server's store; it
  fails exactly when that call fails.
\<close>

definition link_ok ::
  "('s, 'v, 'sel, 'req) server \<Rightarrow> 'v gin \<Rightarrow> ('s, 'v) hclient \<Rightarrow> (string \<Rightarrow> bool) \<Rightarrow> ('v \<Rightarrow> bool) \<Rightarrow> bool"
where
  "link_ok p w c rt tr \<longleftrightarrow> transport_ok p w c \<and> urls_ok w c rt \<and> codec_ok p w c rt tr"

lemma link_okD:
  assumes "link_ok p w c rt tr"
  shows "transport_ok p w c" "urls_ok w c rt" "hc_GetName c = GetName p"
    "gin_match w (hc_url c) = Some None" "\<And>k. rt k \<Longrightarrow> gin_match w (item_url c k) = Some (Some k)"
    "\<And>code e ws. 400 \<le> code \<Longrightarrow> code < 600 \<Longrightarrow> resp_Status (gin_Write w (JSON_error code e # ws)) = code"
    "\<And>code. code \<in> {200, 201, 204} \<Longrightarrow> resp_Status (gin_Write w [StatusOnly code]) = code"
  using assms by (auto simp: link_ok_def urls_ok_def codec_ok_def)

lemma link_value:
  assumes "link_ok p w c rt tr" "tr v"
  obtains raw where "Marshal (cl_Http (hc_http c)) v = Inr raw" "Bind p (Some raw) = Inr v"
proof -
  from assms(1) have "\<forall>v. tr v \<longrightarrow>
      (\<exists>raw. Marshal (cl_Http (hc_http c)) v = Inr raw \<and> Bind p (Some raw) = Inr v)"
    by (simp add: link_ok_def codec_ok_def)
  with assms(2) that show ?thesis by blast
qed

lemma link_json:
  assumes "link_ok p w c rt tr" "tr v"
  obtains raw where "resp_Status (gin_Write w [JSON_value 200 v]) = 200"
    "resp_Body (gin_Write w [JSON_value 200 v]) = (raw, None)" "hc_dec c raw = Inr v"
proof -
  from assms(1) have "\<forall>v. tr v \<longrightarrow> (\<exists>raw. resp_Status (gin_Write w [JSON_value 200 v]) = 200 \<and>
      resp_Body (gin_Write w [JSON_value 200 v]) = (raw, None) \<and> hc_dec c raw = Inr v)"
    by (simp add: link_ok_def codec_ok_def)
  with assms(2) that show ?thesis by blast
qed

lemma link_items:
  assumes "link_ok p w c rt tr" "list_all (\<lambda>(k, v). rt k \<and> tr v) items"
  obtains raw where "resp_Status (gin_Write w [JSON_items 200 items]) = 200"
    "resp_Body (gin_Write w [JSON_items 200 items]) = (raw, None)"
    "hc_dec_items c raw = Inr items"
proof -
  from assms(1) have "\<forall>items. list_all (\<lambda>(k, v). rt k \<and> tr v) items \<longrightarrow>
      (\<exists>raw. resp_Status (gin_Write w [JSON_items 200 items]) = 200 \<and>
        resp_Body (gin_Write w [JSON_items 200 items]) = (raw, None) \<and> hc_dec_items c raw = Inr items)"
    by (simp add: link_ok_def codec_ok_def)
  with assms(2) that show ?thesis by blast
qed

lemma link_error:
  assumes "link_ok p w c rt tr"
  shows "400 \<le> code \<Longrightarrow> code < 600 \<Longrightarrow> Status (received w (JSON_error code e # ws)) = code"
    and "code \<in> {200, 201, 204} \<Longrightarrow> Status (received w [StatusOnly code]) = code"
    and "400 \<le> code \<Longrightarrow> code < 600 \<Longrightarrow> \<exists>y. Error (received w (JSON_error code e # ws)) = Some y"
  using Error_status [of "received w (JSON_error code e # ws)"]
  by (simp_all add: received_def link_okD(6) [OF assms] link_okD(7) [OF assms])

lemma link_parse:
  assumes "link_ok p w c rt tr" "400 \<le> code" "code < 600"
  shows "isl (case Error (fst (Parse_data d (received w (JSON_error code e # ws)))) of
    None \<Rightarrow> Inr x | Some y \<Rightarrow> Inl y)"
proof -
  have "Status (fst (Parse_data d r)) = Status r" for r
    by (simp add: Parse_data_def split: sum.split)
  with Error_status [of "fst (Parse_data d (received w (JSON_error code e # ws)))"] assms(2,3)
  show ?thesis by (auto simp: link_error(1) [OF assms(1)])
qed

lemma HC_Create_ok:
  assumes "link_ok p w c rt tr" "tr v" "GetName p v = k" "Validate p v = None"
    and "Create (srv_store p) nil_slice k v s = (s1, a, r)"
  shows "\<exists>r'. HC_Create c nil_slice k v s = (s1, [], r') \<and> (r' = None \<longleftrightarrow> r = None)"
proof -
  note L = link_okD [OF assms(1)] and G = GetOptions_empty [OF link_okD(1) [OF assms(1)]]
  obtain raw where raw: "Marshal (cl_Http (hc_http c)) v = Inr raw" "Bind p (Some raw) = Inr v"
    using link_value [OF assms(1,2)] .
  have "do_request (hc_http c) ''POST'' (hc_url c) (PValue v) (query_option c []) s =
      (case srv_create p \<lparr>Query = [], Param_name = or_empty None, Req_body = Some raw\<rparr> s of
       (s, ws) \<Rightarrow> (s, received w ws))"
    by (rule serve_route [OF L(1,2,4)]) (simp_all add: Register_lookup raw)
  then show ?thesis using assms(3-5) L(3) raw(2)
    by (cases r) (simp_all add: HC_Create_def http_Post_def srv_create_def G first_write_def
        expect_def link_error [OF assms(1)])
qed

lemma HC_Read_ok:
  assumes "link_ok p w c rt tr" "rt k" "Read (srv_store p) nil_slice k s = (s1, a, r)"
    and "\<And>v. r = Inr v \<Longrightarrow> tr v"
  shows "\<exists>r'. HC_Read c nil_slice k s = (s1, [], r') \<and>
    (case r of Inr v \<Rightarrow> r' = Inr v | Inl e \<Rightarrow> isl r')"
proof -
  note L = link_okD [OF assms(1)] and G = GetOptions_empty [OF link_okD(1) [OF assms(1)]]
  have req: "do_request (hc_http c) ''GET'' (item_url c k) PNil (query_option c []) s =
      (case srv_read p \<lparr>Query = [], Param_name = or_empty (Some k), Req_body = None\<rparr> s of
       (s, ws) \<Rightarrow> (s, received w ws))"
    by (rule serve_route [OF L(1,2) L(5) [OF assms(2)]]) (use assms(2) in \<open>auto simp: Register_lookup\<close>)
  show ?thesis
  proof (cases r)
    case (Inl e)
    then show ?thesis using req assms(3)
      by (simp add: HC_Read_def http_Get_def srv_read_def G split_beta link_parse [OF assms(1)])
  next
    case (Inr v)
    obtain raw where raw: "resp_Status (gin_Write w [JSON_value 200 v]) = 200"
      "resp_Body (gin_Write w [JSON_value 200 v]) = (raw, None)" "hc_dec c raw = Inr v"
      using link_json [OF assms(1) assms(4) [OF Inr]] .
    then show ?thesis using Inr req assms(3)
      by (simp add: HC_Read_def http_Get_def srv_read_def G Parse_data_def received_def
          Error_def IsOK_def StatusCodeAsErr_ok)
  qed
qed

lemma HC_Update_ok:
  assumes "link_ok p w c rt tr" "rt k" "tr v" "GetName p v = k" "Validate p v = None"
    and "Update (srv_store p) nil_slice k v s = (s1, a, r)"
  shows "\<exists>r'. HC_Update c nil_slice k v s = (s1, [], r') \<and> (r' = None \<longleftrightarrow> r = None)"
proof -
  note L = link_okD [OF assms(1)] and G = GetOptions_empty [OF link_okD(1) [OF assms(1)]]
  obtain raw where raw: "Marshal (cl_Http (hc_http c)) v = Inr raw" "Bind p (Some raw) = Inr v"
    using link_value [OF assms(1,3)] .
  have "do_request (hc_http c) ''PUT'' (item_url c k) (PValue v) (query_option c []) s =
      (case srv_update p \<lparr>Query = [], Param_name = or_empty (Some k), Req_body = Some raw\<rparr> s of
       (s, ws) \<Rightarrow> (s, received w ws))"
    by (rule serve_route [OF L(1,2) L(5) [OF assms(2)]]) (use assms(2) in \<open>auto simp: Register_lookup raw\<close>)
  then show ?thesis using assms(4-6) L(3) raw(2)
    by (cases r) (simp_all add: HC_Update_def http_Put_def srv_update_def G first_write_def
        expect_def link_error [OF assms(1)])
qed

lemma HC_Apply_ok:
  assumes "link_ok p w c rt tr" "rt k" "tr v" "GetName p v = k" "Validate p v = None"
    and "Apply (srv_store p) nil_slice k v s = (s1, a, r)"
  shows "\<exists>r'. HC_Apply c nil_slice k v s = (s1, [], r') \<and> (r' = None \<longleftrightarrow> r = None)"
proof -
  note L = link_okD [OF assms(1)] and G = GetOptions_empty [OF link_okD(1) [OF assms(1)]]
  obtain raw where raw: "Marshal (cl_Http (hc_http c)) v = Inr raw" "Bind p (Some raw) = Inr v"
    using link_value [OF assms(1,3)] .
  have "do_request (hc_http c) ''POST'' (item_url c k) (PValue v) (query_option c []) s =
      (case srv_apply p \<lparr>Query = [], Param_name = or_empty (Some k), Req_body = Some raw\<rparr> s of
       (s, ws) \<Rightarrow> (s, received w ws))"
    by (rule serve_route [OF L(1,2) L(5) [OF assms(2)]]) (use assms(2) in \<open>auto simp: Register_lookup raw\<close>)
  then show ?thesis using assms(4-6) L(3) raw(2)
    by (cases r) (simp_all add: HC_Apply_def http_Post_def srv_apply_def G first_write_def
        expect_def link_error [OF assms(1)])
qed

lemma HC_Delete_ok:
  assumes "link_ok p w c rt tr" "rt k" "Delete (srv_store p) nil_slice k s = (s1, a, r)"
  shows "\<exists>r'. HC_Delete c nil_slice k s = (s1, [], r') \<and> (r' = None \<longleftrightarrow> r = None)"
proof -
  note L = link_okD [OF assms(1)] and G = GetOptions_empty [OF link_okD(1) [OF assms(1)]]
  have "do_request (hc_http c) ''DELETE'' (item_url c k) PNil (query_option c []) s =
      (case srv_delete p \<lparr>Query = [], Param_name = or_empty (Some k), Req_body = None\<rparr> s of
       (s, ws) \<Rightarrow> (s, received w ws))"
    by (rule serve_route [OF L(1,2) L(5) [OF assms(2)]]) (use assms(2) in \<open>auto simp: Register_lookup\<close>)
  then show ?thesis using assms(3)
    by (cases r) (simp_all add: HC_Delete_def http_Delete_def srv_delete_def G
        expect_def link_error [OF assms(1)])
qed

lemma HC_List_ok:
  assumes "link_ok p w c rt tr" "List (srv_store p) nil_slice s = (s1, a, Inr items)"
    and "list_all (\<lambda>(k, v). rt k \<and> tr v) items"
  shows "HC_List c nil_slice s = (s1, [], Inr items)"
proof -
  note L = link_okD [OF assms(1)] and G = GetOptions_empty [OF link_okD(1) [OF assms(1)]]
  have req: "do_request (hc_http c) ''GET'' (hc_url c) PNil (query_option c []) s =
      (case srv_list p \<lparr>Query = [], Param_name = or_empty None, Req_body = None\<rparr> s of
       (s, ws) \<Rightarrow> (s, received w ws))"
    by (rule serve_route [OF L(1,2,4)]) (simp_all add: Register_lookup)
  obtain raw where raw: "resp_Status (gin_Write w [JSON_items 200 items]) = 200"
    "resp_Body (gin_Write w [JSON_items 200 items]) = (raw, None)" "hc_dec_items c raw = Inr items"
    using link_items [OF assms(1,3)] .
  with req assms(2) show ?thesis
    by (simp add: HC_List_def http_Get_def srv_list_def G first_write_def Parse_data_def received_def
        Error_def IsOK_def StatusCodeAsErr_ok)
qed

section \<open>The contract\<close>

definition link_vok ::
  "('s, 'v, 'sel, 'req) server \<Rightarrow> (string \<Rightarrow> 'v \<Rightarrow> bool) \<Rightarrow> ('v \<Rightarrow> bool) \<Rightarrow> string \<Rightarrow> 'v \<Rightarrow> bool" where
  "link_vok p vok tr k v \<longleftrightarrow> vok k v \<and> tr v \<and> GetName p v = k \<and> Validate p v = None"

definition link_inv :: "(string \<Rightarrow> bool) \<Rightarrow> ('v \<Rightarrow> bool) \<Rightarrow> (string \<Rightarrow> 'v option) \<Rightarrow> bool" where
  "link_inv rt tr m \<longleftrightarrow> (\<forall>k v. m k = Some v \<longrightarrow> rt k \<and> tr v)"

lemma link_inv_upd:
  "link_inv rt tr m \<Longrightarrow> link_inv rt tr (m(k := None))"
  "link_inv rt tr m \<Longrightarrow> rt k \<Longrightarrow> tr v \<Longrightarrow> link_inv rt tr (m(k \<mapsto> v))"
  by (auto simp: link_inv_def)

lemma link_inv_items:
  "link_inv rt tr m \<Longrightarrow> listing m items \<Longrightarrow> list_all (\<lambda>(k, v). rt k \<and> tr v) items"
  by (auto simp: link_inv_def listing_def list_all_iff dest: map_of_in_set)

text \<open>A client over a server whose store keeps its contract keeps it too.\<close>

lemma HTTP_contract:
  assumes S: "kv_store (srv_store p) abst I kok vok" and L: "link_ok p w c rt tr"
  shows "kv_store (HC c) abst (\<lambda>s. I s \<and> link_inv rt tr (abst s))
    (\<lambda>k. kok k \<and> rt k) (link_vok p vok tr)"
proof (unfold_locales, goal_cases)
  case (1 s k) then show ?case using kv_store.dom_ok [OF S] by (auto simp: link_inv_def)
next
  case (2 s k v s' a r)
  obtain s1 a1 r1 where e: "Create (srv_store p) nil_slice k v s = (s1, a1, r1)" by (metis prod_cases3)
  with 2 HC_Create_ok [OF L _ _ _ e] kv_store.create_new [OF S _ _ _ _ e] show ?case
    by (auto simp: HC_def link_vok_def link_inv_upd)
next
  case (3 s k v s' a r)
  obtain s1 a1 r1 where e: "Create (srv_store p) nil_slice k v s = (s1, a1, r1)" by (metis prod_cases3)
  with 3 HC_Create_ok [OF L _ _ _ e] kv_store.create_dup [OF S _ _ _ _ e] show ?case
    by (auto simp: HC_def link_vok_def)
next
  case (4 s k v s' a r)
  obtain s1 a1 r1 where e: "Read (srv_store p) nil_slice k s = (s1, a1, r1)" by (metis prod_cases3)
  with 4 kv_store.read_found [OF S _ _ _ e] have r: "r1 = Inr v" "I s1" "abst s1 = abst s" by auto
  moreover have "tr v" using 4 by (auto simp: link_inv_def)
  ultimately show ?case using 4 HC_Read_ok [OF L _ e] by (auto simp: HC_def)
next
  case (5 s k s' a r)
  obtain s1 a1 r1 where e: "Read (srv_store p) nil_slice k s = (s1, a1, r1)" by (metis prod_cases3)
  with 5 kv_store.read_missing [OF S _ _ _ e] obtain x where r: "r1 = Inl x" "I s1" "abst s1 = abst s"
    by (auto simp: isl_def)
  with 5 HC_Read_ok [OF L _ e] show ?case by (auto simp: HC_def)
next
  case (6 s k v s' a r)
  obtain s1 a1 r1 where e: "Update (srv_store p) nil_slice k v s = (s1, a1, r1)" by (metis prod_cases3)
  with 6 HC_Update_ok [OF L _ _ _ _ e] kv_store.update_found [OF S _ _ _ _ e] show ?case
    by (auto simp: HC_def link_vok_def link_inv_upd)
next
  case (7 s k v s' a r)
  obtain s1 a1 r1 where e: "Update (srv_store p) nil_slice k v s = (s1, a1, r1)" by (metis prod_cases3)
  with 7 HC_Update_ok [OF L _ _ _ _ e] kv_store.update_missing [OF S _ _ _ _ e] show ?case
    by (auto simp: HC_def link_vok_def)
next
  case (8 s k v s' a r)
  obtain s1 a1 r1 where e: "Apply (srv_store p) nil_slice k v s = (s1, a1, r1)" by (metis prod_cases3)
  with 8 HC_Apply_ok [OF L _ _ _ _ e] kv_store.apply_ok [OF S _ _ _ e] show ?case
    by (auto simp: HC_def link_vok_def link_inv_upd)
next
  case (9 s k s' a r)
  obtain s1 a1 r1 where e: "Delete (srv_store p) nil_slice k s = (s1, a1, r1)" by (metis prod_cases3)
  with 9 HC_Delete_ok [OF L _ e] kv_store.delete_found [OF S _ _ _ e] show ?case
    by (auto simp: HC_def link_inv_upd)
next
  case (10 s k s' a r)
  obtain s1 a1 r1 where e: "Delete (srv_store p) nil_slice k s = (s1, a1, r1)" by (metis prod_cases3)
  with 10 HC_Delete_ok [OF L _ e] kv_store.delete_missing [OF S _ _ _ e] show ?case
    by (auto simp: HC_def)
next
  case (11 s s' a r)
  obtain s1 a1 r1 where e: "List (srv_store p) nil_slice s = (s1, a1, r1)" by (metis prod_cases3)
  with 11 kv_store.list_ok [OF S _ e] obtain items where
    r: "r1 = Inr items" "listing (abst s) items" "I s1" "abst s1 = abst s" by auto
  with 11 HC_List_ok [OF L e [unfolded r(1)]] link_inv_items [OF _ r(2), of rt tr] show ?case
    by (auto simp: HC_def)
qed

section \<open>An instance of the connection\<close>

text \<open>
  Strings as values that are their own names, listings with a line for each key and each value, and paths below
  \<open>/v1\<close>: a connection that keeps the laws. It shows that the hypotheses of the properties can hold;
  the repository does not use it.
\<close>

abbreviation newline :: char where
  "newline \<equiv> CHR 0x0A"

fun lines_of :: "string \<Rightarrow> string list" where
  "lines_of [] = []"
| "lines_of (x # xs) =
     (if x = newline then [] # lines_of xs
      else (case lines_of xs of [] \<Rightarrow> [[x]] | l # ls \<Rightarrow> (x # l) # ls))"

lemma lines_of_append: "newline \<notin> set l \<Longrightarrow> lines_of (l @ newline # xs) = l # lines_of xs"
  by (induction l) auto

fun pairs_of :: "string list \<Rightarrow> (string \<times> string) list" where
  "pairs_of (k # v # ls) = (k, v) # pairs_of ls"
| "pairs_of _ = []"

fun lines_text :: "(string \<times> string) list \<Rightarrow> string" where
  "lines_text [] = []"
| "lines_text ((k, v) # items) = k @ newline # v @ newline # lines_text items"

lemma pairs_of_lines_text:
  "list_all (\<lambda>(k, v). newline \<notin> set k \<and> newline \<notin> set v) items \<Longrightarrow>
   pairs_of (lines_of (lines_text items)) = items"
  by (induction items rule: lines_text.induct) (simp_all add: lines_of_append)

definition json_header :: headers where
  "json_header = [(''Content-Type'', [''application/json; charset=utf-8''])]"

definition line_gin :: "string gin" where
  "line_gin =
     \<lparr>gin_Write = (\<lambda>ws. case ws of
        [] \<Rightarrow> \<lparr>resp_Status = 200, resp_Header = [], resp_Body = ([], None)\<rparr>
      | JSON_error code e # _ \<Rightarrow> \<lparr>resp_Status = code, resp_Header = json_header, resp_Body = (''error'', None)\<rparr>
      | JSON_value code v # _ \<Rightarrow> \<lparr>resp_Status = code, resp_Header = json_header, resp_Body = (v, None)\<rparr>
      | JSON_items code items # _ \<Rightarrow> \<lparr>resp_Status = code, resp_Header = json_header,
          resp_Body = (lines_text items, None)\<rparr>
      | StatusOnly code # _ \<Rightarrow> \<lparr>resp_Status = code, resp_Header = [], resp_Body = ([], None)\<rparr>),
      gin_match = (\<lambda>url. if url = ''/v1'' then Some None
        else if prefix ''/v1/'' url then Some (Some (drop 4 url)) else None),
      no_route = \<lparr>resp_Status = 404, resp_Header = [], resp_Body = ([], None)\<rparr>,
      URL_Query = (\<lambda>_. [])\<rparr>"

definition line_server ::
  "('s, string, string) store \<Rightarrow> ('s, string, (string \<times> string) list, string \<times> string) server" where
  "line_server S =
     \<lparr>srv_store = S, srv_cfg = \<lparr>OptionParser = Some (UnserializeOptions []), PluralResourceName = [],
        ResourceVersion = ''v1'', UseLabels = False\<rparr>,
      srv_K = eq_selectors, Bind = (\<lambda>b. Inr (or_empty b)), GetName = (\<lambda>v. v), Validate = (\<lambda>_. None)\<rparr>"

definition line_client :: "('s, string, string) store \<Rightarrow> ('s, string) hclient" where
  "line_client S =
     \<lparr>hc_url = ''/v1'',
      hc_http =
        \<lparr>cl_Http =
           \<lparr>NewRequest = (\<lambda>meth url body. Inr \<lparr>req_Method = meth, req_URL = url, RawQuery = [],
              Header = [], Body = body\<rparr>),
            Do = serve line_gin (line_server S), Marshal = Inr\<rparr>,
         Tripperware = (\<lambda>endpoint. endpoint), DefaultRequestOptions = []\<rparr>,
      OptionSerializer = SerializeOptions (\<lambda>_. []), Encode = (\<lambda>_. []), hc_dec = Inr,
      hc_dec_items = (\<lambda>raw. Inr (pairs_of (lines_of raw))), hc_GetName = (\<lambda>v. v)\<rparr>"

abbreviation one_line :: "string \<Rightarrow> bool" where
  "one_line l \<equiv> newline \<notin> set l"

lemma line_link: "link_ok (line_server S) line_gin (line_client S) one_line one_line"
proof -
  have "transport_ok (line_server S) line_gin (line_client S)"
    by (simp add: transport_ok_def line_client_def line_server_def line_gin_def SerializeOptions_def
        UnserializeOptions_def)
  moreover have "urls_ok line_gin (line_client S) one_line"
    by (simp add: urls_ok_def line_client_def line_gin_def item_url_def prefix_def)
  moreover have "codec_ok (line_server S) line_gin (line_client S) one_line one_line"
    using pairs_of_lines_text
    by (simp add: codec_ok_def line_client_def line_server_def line_gin_def)
  ultimately show ?thesis by (simp add: link_ok_def)
qed

section \<open>Properties\<close>

text \<open>
  C15. A store over HTTP: for names that survive in a URL and valid values that the codec keeps, the
  client over the server over a memory store answers every sequence of calls as a map, and the map
  is that of the server's store.
\<close>

theorem HTTP_refines_map:
  assumes "link_ok p w c rt tr" "srv_store p = Memory as_string zero"
    and "wf_map m" "link_inv rt tr (map_of m)"
    and "\<forall>x \<in> set cs. call_ok rt (link_vok p (\<lambda>_ _. True) tr) x"
    and "run (HC c) cs m = (m', answers)"
  shows "wf_map m' \<and> link_inv rt tr (map_of m') \<and> spec_run cs (map_of m) (map_of m') answers"
proof -
  have "kv_store (srv_store p) map_of wf_map (\<lambda>_. True) (\<lambda>_ _. True)"
    unfolding assms(2) by (rule mem.kv_store_axioms)
  from kv_store.run_refines [OF HTTP_contract [OF this assms(1)] _ _ assms(6)] assms(3-5)
  show ?thesis by simp
qed

theorem HTTP_refines_map_witness:
  "spec_run [CCreate ''a'' ''a'', CCreate ''a'' ''a'', CList] Map.empty [''a'' \<mapsto> ''a'']
     [Done, Failed, Items [(''a'', ''a'')]]"
proof -
  let ?S = "Memory (Some id) [] :: ((string, string) gomap, string, string) store"
  let ?cs = "[CCreate ''a'' ''a'', CCreate ''a'' ''a'', CList]"
  have "srv_store (line_server ?S) = ?S" by (simp add: line_server_def)
  moreover have "run (HC (line_client ?S)) ?cs [] = ([(''a'', ''a'')], [Done, Failed, Items [(''a'', ''a'')]])"
    by code_simp
  ultimately show ?thesis
    using HTTP_refines_map [OF line_link, of ?S "Some id" "[]" "[]" ?cs "[(''a'', ''a'')]"]
    by (simp add: link_inv_def link_vok_def line_server_def)
qed

text \<open>
  The error of a \<open>Read\<close> for a missing key: \<open>ErrNotFound\<close> when the error body happens to decode
  as a value, otherwise the error of the decoder, since \<open>Parse\<close> decodes the body whatever the
  status.
\<close>

theorem HTTP_read_missing:
  assumes "link_ok p w c rt tr" "rt k" "Read (srv_store p) nil_slice k s = (s1, a, Inl e)"
    and "is_err e (Http ErrNotFound)" "resp_Body (gin_Write w [JSON_error 404 e]) = (raw, None)"
  shows "HC_Read c nil_slice k s = (s1, [], Inl (case hc_dec c raw of
    Inl de \<Rightarrow> de | Inr _ \<Rightarrow> http_err ErrNotFound))"
proof -
  note L = link_okD [OF assms(1)] and G = GetOptions_empty [OF link_okD(1) [OF assms(1)]]
  have "do_request (hc_http c) ''GET'' (item_url c k) PNil (query_option c []) s =
      (case srv_read p \<lparr>Query = [], Param_name = or_empty (Some k), Req_body = None\<rparr> s of
       (s, ws) \<Rightarrow> (s, received w ws))"
    by (rule serve_route [OF L(1,2) L(5) [OF assms(2)]]) (use assms(2) in \<open>auto simp: Register_lookup\<close>)
  moreover have "StatusCodeAsErr 404 = Some (http_err ErrNotFound)"
    by (simp add: StatusCodeAsErr_def lookupStatusAsErr_def)
  ultimately show ?thesis using assms(3-5) L(6) [of 404 e "[]"]
    by (cases "hc_dec c raw")
      (simp_all add: HC_Read_def http_Get_def srv_read_def G received_def Parse_data_def Error_def
        IsOK_def)
qed

theorem HTTP_read_missing_witness:
  "HC_Read (line_client (Memory (Some id) [])) nil_slice ''a'' [] = ([], [], Inl (http_err ErrNotFound))"
  using HTTP_read_missing [OF line_link, of "''a''" "Memory (Some id) []" "[]" "[]" "[]"
      "http_err ErrNotFound" "''error''"]
  by (simp add: line_server_def line_gin_def line_client_def Mem_defs)

text \<open>
  A create request whose labels are refused is answered with status 400 and carried out all the
  same: the handler goes on after the first reply, and the store has the new entry.
\<close>

theorem HTTP_refused_labels_still_create:
  assumes "GetOptions p c = Inr opts" "SetLabelsIfNeeded p (slice_of opts) = (Some e, opts')"
    and "Bind p (Req_body c) = Inr body" "Validate p body = None"
    and "Create (srv_store p) opts' (GetName p body) body s = (s1, a, None)"
  shows "srv_create p c s = (s1, [JSON_error 400 e, StatusOnly 201])"
  using assms by (simp add: srv_create_def first_write_def)

theorem HTTP_refused_labels_still_create_witness:
  "\<exists>e. srv_create ((line_server (Memory (Some id) []))\<lparr>srv_cfg :=
       \<lparr>OptionParser = Some (UnserializeOptions (builtin_registry (\<lambda>t. Inr [(''team'', t)]))),
        PluralResourceName = ''things'', ResourceVersion = ''v1'', UseLabels = True\<rparr>\<rparr>)
     \<lparr>Query = [(''labels'', [''resourceVersion''])], Param_name = [], Req_body = Some ''a''\<rparr> [] =
   ([(''a'', ''a'')], [JSON_error 400 e, StatusOnly 201])"
proof -
  let ?p = "(line_server (Memory (Some id) []))\<lparr>srv_cfg :=
       \<lparr>OptionParser = Some (UnserializeOptions (builtin_registry (\<lambda>t. Inr [(''team'', t)]))),
        PluralResourceName = ''things'', ResourceVersion = ''v1'', UseLabels = True\<rparr>\<rparr>"
  let ?c = "\<lparr>Query = [(''labels'', [''resourceVersion''])], Param_name = [], Req_body = Some ''a''\<rparr>"
  let ?opts = "[WithLabels [(''team'', ''resourceVersion'')]]"
  have "GetOptions ?p ?c = Inr ?opts"
    by (simp add: GetOptions_def flatten_query_def UnserializeOptions_def builtin_registry_def
        register_def register_map_def register_string_def register_bool_def WithLabels_def)
  moreover obtain e where "SetLabelsIfNeeded ?p (slice_of ?opts) = (Some e, Slice ?opts 0)"
    by (simp add: SetLabelsIfNeeded_def EnrichWithLabelsOption_def slice_of_single GetLabels_def)
  moreover have "Bind ?p (Req_body ?c) = Inr ''a''" "Validate ?p ''a'' = None"
    by (simp_all add: line_server_def)
  moreover have "Create (srv_store ?p) (Slice ?opts 0) (GetName ?p ''a'') ''a'' [] =
      ([(''a'', ''a'')], ?opts, None)"
    by (simp add: line_server_def Mem_defs)
  ultimately have "srv_create ?p ?c [] = ([(''a'', ''a'')], [JSON_error 400 e, StatusOnly 201])"
    by (rule HTTP_refused_labels_still_create)
  then show ?thesis ..
qed

end
