(* ===== verification/Threadsafe.thy ===== *)
theory Threadsafe
  imports Memory
begin

text \<open>
  The threadsafe middleware, \<open>pkg/store/middleware/threadsafe/threadsafe.go\<close>, as a step relation.

  Any number of goroutines call the store. \<open>Create\<close>, \<open>Update\<close>, \<open>Apply\<close> and \<open>Delete\<close> take the
  write lock of an \<open>RWMutex\<close>, \<open>Read\<close> and \<open>List\<close> the read lock, and release it when they return.
  The operation of the wrapped store is not atomic: it works on the state it finds when it starts
  (\<open>Inside\<close> keeps it) and leaves its effect when it ends. Without the lock two writers would lose
  an update. The mutex is that of the standard library: a writer is alone, a waiting writer keeps
  new readers out. The log records calls and results in the order in which they return.
\<close>

section \<open>Calls with options\<close>

datatype ('k, 'v) op =
    OpCreate "opt slice" 'k 'v
  | OpRead "opt slice" 'k
  | OpUpdate "opt slice" 'k 'v
  | OpApply "opt slice" 'k 'v
  | OpDelete "opt slice" 'k
  | OpList "opt slice"

datatype ('k, 'v) op_result =
    RError "err option"
  | RValue "err + 'v"
  | RItems "err + ('k, 'v) ListItems"

fun perform :: "('s, 'k, 'v) store \<Rightarrow> ('k, 'v) op \<Rightarrow> 's \<Rightarrow> 's \<times> ('k, 'v) op_result" where
  "perform S (OpCreate opts k v) s = (case Create S opts k v s of (s, _, r) \<Rightarrow> (s, RError r))"
| "perform S (OpRead opts k) s = (case Read S opts k s of (s, _, r) \<Rightarrow> (s, RValue r))"
| "perform S (OpUpdate opts k v) s = (case Update S opts k v s of (s, _, r) \<Rightarrow> (s, RError r))"
| "perform S (OpApply opts k v) s = (case Apply S opts k v s of (s, _, r) \<Rightarrow> (s, RError r))"
| "perform S (OpDelete opts k) s = (case Delete S opts k s of (s, _, r) \<Rightarrow> (s, RError r))"
| "perform S (OpList opts) s = (case List S opts s of (s, _, r) \<Rightarrow> (s, RItems r))"

text \<open>Which methods call \<open>Lock\<close>; the others call \<open>RLock\<close>.\<close>

fun takes_write_lock :: "('k, 'v) op \<Rightarrow> bool" where
  "takes_write_lock (OpRead _ _) = False"
| "takes_write_lock (OpList _) = False"
| "takes_write_lock _ = True"

section \<open>The step relation\<close>

datatype ('s, 'k, 'v) pc = Idle | Blocked "('k, 'v) op" | Inside "('k, 'v) op" 's

record ('s, 'k, 'v) sys =
  shared :: 's
  pcs :: "('s, 'k, 'v) pc list"
  writer :: "nat option"
  readers :: "nat set"
  history :: "(('k, 'v) op \<times> ('k, 'v) op_result) list"

definition ts_start :: "nat \<Rightarrow> 's \<Rightarrow> ('s, 'k, 'v) sys" where
  "ts_start n s = \<lparr>shared = s, pcs = replicate n Idle, writer = None, readers = {}, history = []\<rparr>"

definition writer_waits :: "('s, 'k, 'v) sys \<Rightarrow> bool" where
  "writer_waits s \<longleftrightarrow>
     list_ex (\<lambda>p. case p of Blocked c \<Rightarrow> takes_write_lock c | _ \<Rightarrow> False) (pcs s)"

text \<open>
  The steps after a call: \<open>Lock\<close> or \<open>RLock\<close> returns and the operation starts; the operation ends,
  the deferred \<open>Unlock\<close> or \<open>RUnlock\<close> runs and the method returns.
\<close>

inductive ts_progress ::
  "('s, 'k, 'v) store \<Rightarrow> ('s, 'k, 'v) sys \<Rightarrow> ('s, 'k, 'v) sys \<Rightarrow> bool" for S where
  lock: "i < length (pcs s) \<Longrightarrow> pcs s ! i = Blocked c \<Longrightarrow> takes_write_lock c \<Longrightarrow>
    writer s = None \<Longrightarrow> readers s = {} \<Longrightarrow>
    ts_progress S s (s\<lparr>pcs := (pcs s)[i := Inside c (shared s)], writer := Some i\<rparr>)"
| rlock: "i < length (pcs s) \<Longrightarrow> pcs s ! i = Blocked c \<Longrightarrow> \<not> takes_write_lock c \<Longrightarrow>
    writer s = None \<Longrightarrow> \<not> writer_waits s \<Longrightarrow>
    ts_progress S s (s\<lparr>pcs := (pcs s)[i := Inside c (shared s)], readers := insert i (readers s)\<rparr>)"
| unlock: "i < length (pcs s) \<Longrightarrow> pcs s ! i = Inside c seen \<Longrightarrow> takes_write_lock c \<Longrightarrow>
    perform S c seen = (s', r) \<Longrightarrow>
    ts_progress S s (s\<lparr>shared := s', pcs := (pcs s)[i := Idle], writer := None,
      history := history s @ [(c, r)]\<rparr>)"
| runlock: "i < length (pcs s) \<Longrightarrow> pcs s ! i = Inside c seen \<Longrightarrow> \<not> takes_write_lock c \<Longrightarrow>
    perform S c seen = (s', r) \<Longrightarrow>
    ts_progress S s (s\<lparr>shared := s', pcs := (pcs s)[i := Idle], readers := readers s - {i},
      history := history s @ [(c, r)]\<rparr>)"

inductive ts_step ::
  "('s, 'k, 'v) store \<Rightarrow> ('s, 'k, 'v) sys \<Rightarrow> ('s, 'k, 'v) sys \<Rightarrow> bool" for S where
  call: "i < length (pcs s) \<Longrightarrow> pcs s ! i = Idle \<Longrightarrow>
    ts_step S s (s\<lparr>pcs := (pcs s)[i := Blocked c]\<rparr>)"
| progress: "ts_progress S s t \<Longrightarrow> ts_step S s t"

inductive ts_reachable ::
  "('s, 'k, 'v) store \<Rightarrow> nat \<Rightarrow> 's \<Rightarrow> ('s, 'k, 'v) sys \<Rightarrow> bool" for S n s0 where
  start: "ts_reachable S n s0 (ts_start n s0)"
| step: "ts_reachable S n s0 s \<Longrightarrow> ts_step S s t \<Longrightarrow> ts_reachable S n s0 t"

section \<open>Sequential executions\<close>

fun replay ::
  "('s, 'k, 'v) store \<Rightarrow> (('k, 'v) op \<times> ('k, 'v) op_result) list \<Rightarrow> 's \<Rightarrow> 's option" where
  "replay S [] s = Some s"
| "replay S ((c, r) # log) s =
     (case perform S c s of (s', r') \<Rightarrow> if r' = r then replay S log s' else None)"

lemma replay_append:
  "replay S (xs @ ys) s = (case replay S xs s of None \<Rightarrow> None | Some s' \<Rightarrow> replay S ys s')"
  by (induction S xs s rule: replay.induct) (auto split: prod.split)

text \<open>A store whose reads leave its state alone, which is what a read lock is for.\<close>

definition reads_keep_state :: "('s, 'k, 'v) store \<Rightarrow> bool" where
  "reads_keep_state S \<longleftrightarrow>
     (\<forall>opts k s. fst (Read S opts k s) = s) \<and> (\<forall>opts s. fst (List S opts s) = s)"

lemma reads_keep_state_perform:
  "reads_keep_state S \<Longrightarrow> \<not> takes_write_lock c \<Longrightarrow> perform S c s = (s', r) \<Longrightarrow> s' = s"
  by (cases c) (auto simp: reads_keep_state_def split: prod.splits dest: arg_cong [of _ _ fst])

lemma Memory_reads_keep_state: "reads_keep_state (Memory as_string zero)"
  by (auto simp: reads_keep_state_def Mem_defs split: prod.split option.split)

section \<open>The invariant\<close>

text \<open>
  The mutex knows who is inside; a writer is alone; whoever is inside has seen the present state;
  the history, run sequentially, gives the present state.
\<close>

definition inside :: "('s, 'k, 'v) sys \<Rightarrow> nat \<Rightarrow> bool \<Rightarrow> bool" where
  "inside s i w \<longleftrightarrow> i < length (pcs s) \<and>
     (\<exists>c seen. pcs s ! i = Inside c seen \<and> takes_write_lock c = w)"

definition ts_inv :: "('s, 'k, 'v) store \<Rightarrow> nat \<Rightarrow> 's \<Rightarrow> ('s, 'k, 'v) sys \<Rightarrow> bool" where
  "ts_inv S n s0 s \<longleftrightarrow> length (pcs s) = n \<and>
     (\<forall>i. inside s i True \<longleftrightarrow> writer s = Some i) \<and>
     (\<forall>i. inside s i False \<longleftrightarrow> i \<in> readers s) \<and>
     (writer s \<noteq> None \<longrightarrow> readers s = {}) \<and>
     (\<forall>i c seen. i < n \<longrightarrow> pcs s ! i = Inside c seen \<longrightarrow> seen = shared s) \<and>
     replay S (history s) s0 = Some (shared s)"

lemma ts_inv_start: "ts_inv S n s0 (ts_start n s0)"
  by (auto simp: ts_inv_def ts_start_def inside_def)

lemma ts_inv_call:
  assumes "ts_inv S n s0 s" "i < length (pcs s)" "pcs s ! i = Idle"
  shows "ts_inv S n s0 (s\<lparr>pcs := (pcs s)[i := Blocked c]\<rparr>)"
proof -
  have "inside (s\<lparr>pcs := (pcs s)[i := Blocked c]\<rparr>) j w \<longleftrightarrow> inside s j w" for j w
    using assms(2,3) by (auto simp: inside_def nth_list_update)
  with assms show ?thesis by (auto simp: ts_inv_def nth_list_update)
qed

lemma ts_inv_progress:
  assumes "ts_progress S s t" "ts_inv S n s0 s" "reads_keep_state S"
  shows "ts_inv S n s0 t"
  using assms(1,2)
proof (cases rule: ts_progress.cases)
  case (lock i c)
  have "inside t j w \<longleftrightarrow> (if j = i then w else inside s j w)" for j w
    using lock by (auto simp: inside_def nth_list_update)
  then show ?thesis using lock assms(2) by (auto simp: ts_inv_def nth_list_update)
next
  case (rlock i c)
  have "inside t j w \<longleftrightarrow> (if j = i then \<not> w else inside s j w)" for j w
    using rlock by (auto simp: inside_def nth_list_update)
  then show ?thesis using rlock assms(2) by (auto simp: ts_inv_def nth_list_update)
next
  case (unlock i c seen s' r)
  have ins: "inside t j w \<longleftrightarrow> j \<noteq> i \<and> inside s j w" for j w
    using unlock by (auto simp: inside_def nth_list_update)
  have i: "inside s i True" using unlock by (auto simp: inside_def)
  then have w: "writer s = Some i" "readers s = {}" using assms(2) by (auto simp: ts_inv_def)
  have seen: "seen = shared s" using unlock assms(2) by (auto simp: ts_inv_def)
  have alone: "\<not> inside t j v" for j v
    using ins [of j v] w assms(2) by (cases v) (auto simp: ts_inv_def)
  then have none: "pcs t ! j \<noteq> Inside c' x" if "j < length (pcs t)" for j c' x
    using that by (auto simp: inside_def)
  have old: "length (pcs s) = n" "replay S (history s) s0 = Some (shared s)"
    using assms(2) by (simp_all add: ts_inv_def)
  have t: "length (pcs t) = n" "writer t = None" "readers t = {}" "shared t = s'"
    "history t = history s @ [(c, r)]" using unlock(1) w old by simp_all
  have "replay S (history t) s0 = Some (shared t)"
    using unlock(5) old(2) by (simp add: t replay_append seen)
  with alone none t show ?thesis by (simp add: ts_inv_def)
next
  case (runlock i c seen s' r)
  have ins: "inside t j w \<longleftrightarrow> j \<noteq> i \<and> inside s j w" for j w
    using runlock by (auto simp: inside_def nth_list_update)
  have seen: "seen = shared s" using runlock assms(2) by (auto simp: ts_inv_def)
  have s': "s' = seen" using reads_keep_state_perform [OF assms(3)] runlock by blast
  have "i \<in> readers s" using runlock assms(2) by (auto simp: ts_inv_def inside_def)
  then have w: "writer s = None" using assms(2) by (auto simp: ts_inv_def)
  note I = assms(2) [unfolded ts_inv_def]
  have t: "writer t = None" "readers t = readers s - {i}" "shared t = shared s"
    "history t = history s @ [(c, r)]" "pcs t = (pcs s)[i := Idle]"
    using runlock(1) w s' seen by simp_all
  have p: "perform S c (shared s) = (shared s, r)" using runlock(5) seen s' by simp
  have "inside t j True \<longleftrightarrow> writer t = Some j" for j using ins [of j True] I w t(1) by simp
  moreover have "inside t j False \<longleftrightarrow> j \<in> readers t" for j using ins [of j False] I t(2) by auto
  moreover have "replay S (history t) s0 = Some (shared t)" using I p by (simp add: t replay_append)
  moreover have "x = shared t" if "j < n" "pcs t ! j = Inside c' x" for j c' x
    using that I t(3,5) by (cases "j = i") (simp_all add: nth_list_update)
  ultimately show ?thesis using I t(1,5) by (simp add: ts_inv_def)
qed

lemma ts_inv_reachable:
  "ts_reachable S n s0 s \<Longrightarrow> reads_keep_state S \<Longrightarrow> ts_inv S n s0 s"
proof (induction rule: ts_reachable.induct)
  case (step s t)
  from step.hyps(2) show ?case
  proof cases
    case (call i c)
    with ts_inv_call [OF step.IH [OF step.prems]] show ?thesis by simp
  next
    case progress
    with ts_inv_progress [OF _ step.IH [OF step.prems] step.prems] show ?thesis by simp
  qed
qed (rule ts_inv_start)

section \<open>Progress\<close>

text \<open>The steps a pending call still needs.\<close>

fun steps_left :: "('s, 'k, 'v) pc \<Rightarrow> nat" where
  "steps_left Idle = 0"
| "steps_left (Blocked _) = 2"
| "steps_left (Inside _ _) = 1"

definition pending :: "('s, 'k, 'v) sys \<Rightarrow> nat" where
  "pending s = sum_list (map steps_left (pcs s))"

lemma pending_update:
  assumes "i < length ps"
  shows "sum_list (map steps_left (ps[i := p])) + steps_left (ps ! i) =
    sum_list (map steps_left ps) + steps_left p"
  using assms by (induction ps arbitrary: i) (auto split: nat.split)

lemma pending_progress:
  assumes "ts_progress S s t"
  shows "Suc (pending t) = pending s"
  using assms
proof (cases rule: ts_progress.cases)
  case (lock i c)
  then show ?thesis using pending_update [of i "pcs s" "Inside c (shared s)"] by (simp add: pending_def)
next
  case (rlock i c)
  then show ?thesis using pending_update [of i "pcs s" "Inside c (shared s)"] by (simp add: pending_def)
next
  case (unlock i c seen s' r)
  then show ?thesis using pending_update [of i "pcs s" Idle] by (simp add: pending_def)
next
  case (runlock i c seen s' r)
  then show ?thesis using pending_update [of i "pcs s" Idle] by (simp add: pending_def)
qed

lemma pending_0: "pending s = 0 \<longleftrightarrow> (\<forall>p \<in> set (pcs s). p = Idle)"
proof -
  have "steps_left p = 0 \<longleftrightarrow> p = Idle" for p :: "('a, 'b, 'c) pc" by (cases p) auto
  then show ?thesis by (simp add: pending_def)
qed

text \<open>No deadlock: as long as a call is pending, some goroutine can move.\<close>

lemma ts_not_stuck:
  assumes "ts_inv S n s0 s" "pending s \<noteq> 0"
  shows "\<exists>t. ts_progress S s t"
proof (cases "\<exists>i c seen. i < length (pcs s) \<and> pcs s ! i = Inside c seen")
  case True
  then obtain i c seen where i: "i < length (pcs s)" "pcs s ! i = Inside c seen" by blast
  obtain s' r where "perform S c seen = (s', r)" by (cases "perform S c seen")
  with i show ?thesis by (cases "takes_write_lock c") (blast intro: ts_progress.intros)+
next
  case False
  then have out: "\<not> inside s i w" for i w by (auto simp: inside_def)
  with assms(1) have free: "writer s = None" "readers s = {}"
    unfolding ts_inv_def by (metis option.exhaust) (use assms(1) out in \<open>auto simp: ts_inv_def\<close>)
  from assms(2) obtain p where "p \<in> set (pcs s)" "p \<noteq> Idle" by (auto simp: pending_0)
  then obtain i where i: "i < length (pcs s)" "pcs s ! i \<noteq> Idle" by (auto simp: in_set_conv_nth)
  with False obtain c where c: "pcs s ! i = Blocked c" by (cases "pcs s ! i") auto
  show ?thesis
  proof (cases "writer_waits s")
    case True
    then obtain p where "p \<in> set (pcs s)" "case p of Blocked c \<Rightarrow> takes_write_lock c | _ \<Rightarrow> False"
      by (auto simp: writer_waits_def list_ex_iff)
    then obtain j c' where "j < length (pcs s)" "pcs s ! j = Blocked c'" "takes_write_lock c'"
      by (auto simp: in_set_conv_nth split: pc.splits)
    with free show ?thesis by (blast intro: ts_progress.lock)
  next
    case False
    have "\<not> takes_write_lock c"
      using False i(1) c by (force simp: writer_waits_def list_ex_iff in_set_conv_nth)
    with False free i(1) c show ?thesis by (blast intro: ts_progress.rlock)
  qed
qed

text \<open>A run of progress steps, counted.\<close>

fun ts_run :: "('s, 'k, 'v) store \<Rightarrow> ('s, 'k, 'v) sys \<Rightarrow> ('s, 'k, 'v) sys list \<Rightarrow> bool" where
  "ts_run S s [] \<longleftrightarrow> True"
| "ts_run S s (t # ts) \<longleftrightarrow> ts_progress S s t \<and> ts_run S t ts"

lemma ts_run_pending: "ts_run S s ts \<Longrightarrow> pending (last (s # ts)) + length ts = pending s"
proof (induction ts arbitrary: s)
  case (Cons t ts)
  then show ?case using pending_progress [of S s t] by fastforce
qed simp

lemma ts_inv_run:
  "ts_run S s ts \<Longrightarrow> ts_inv S n s0 s \<Longrightarrow> reads_keep_state S \<Longrightarrow> ts_inv S n s0 (last (s # ts))"
proof (induction ts arbitrary: s)
  case (Cons t ts)
  then show ?case using ts_inv_progress [of S s t n s0] by fastforce
qed simp

section \<open>A lost update without the lock\<close>

text \<open>
  The proof needs \<open>reads_keep_state\<close>: two readers may be inside together, and when a \<open>Read\<close> of the
  wrapped store writes (the cache middleware stores what it has read, the timed store refreshes the
  timestamp) the second overwrites the effect of the first. A store that counts its reads:
\<close>

definition counting_store :: "(nat, nat, nat) store" where
  "counting_store =
     \<lparr>Create = (\<lambda>opts k v s. (s, [], None)), Read = (\<lambda>opts k s. (Suc s, [], Inr s)),
      Update = (\<lambda>opts k v s. (s, [], None)), Apply = (\<lambda>opts k v s. (s, [], None)),
      Delete = (\<lambda>opts k s. (s, [], None)), List = (\<lambda>opts s. (s, [], Inr []))\<rparr>"

lemma writing_reads_are_not_serialised:
  "\<exists>s. ts_reachable counting_store 2 0 s \<and>
     history s = [(OpRead nil_slice 0, RValue (Inr 0)), (OpRead nil_slice 0, RValue (Inr 0))] \<and>
     replay counting_store (history s) 0 = None"
proof -
  let ?c = "OpRead nil_slice (0 :: nat)"
  let ?s = "\<lambda>ps sh rs h. \<lparr>shared = sh, pcs = ps, writer = None, readers = rs, history = h\<rparr>
    :: (nat, nat, nat) sys"
  note st = ts_reachable.step [OF _ ts_step.call] ts_reachable.step [OF _ ts_step.progress]
  have "ts_reachable counting_store 2 0 (?s [Idle, Idle] 0 {} [])"
    using ts_reachable.start [of counting_store 2 0] by (simp add: ts_start_def numeral_2_eq_2)
  from st(1) [OF this, of 0 ?c]
  have "ts_reachable counting_store 2 0 (?s [Blocked ?c, Idle] 0 {} [])" by simp
  from st(1) [OF this, of 1 ?c]
  have "ts_reachable counting_store 2 0 (?s [Blocked ?c, Blocked ?c] 0 {} [])" by simp
  from st(2) [OF this ts_progress.rlock, of 0 ?c]
  have "ts_reachable counting_store 2 0 (?s [Inside ?c 0, Blocked ?c] 0 {0} [])"
    by (simp add: writer_waits_def)
  from st(2) [OF this ts_progress.rlock, of 1 ?c]
  have "ts_reachable counting_store 2 0 (?s [Inside ?c 0, Inside ?c 0] 0 {0, 1} [])"
    by (simp add: writer_waits_def insert_commute)
  from st(2) [OF this ts_progress.runlock, of 0 ?c 0 1 "RValue (Inr 0)"]
  have "ts_reachable counting_store 2 0 (?s [Idle, Inside ?c 0] 1 {1} [(?c, RValue (Inr 0))])"
    by (simp add: counting_store_def)
  from st(2) [OF this ts_progress.runlock, of 1 ?c 0 1 "RValue (Inr 0)"]
  have "ts_reachable counting_store 2 0
      (?s [Idle, Idle] 1 {} [(?c, RValue (Inr 0)), (?c, RValue (Inr 0))])"
    by (simp add: counting_store_def)
  moreover have "replay counting_store [(?c, RValue (Inr 0)), (?c, RValue (Inr 0))] 0 = None"
    by (simp add: counting_store_def)
  ultimately show ?thesis by force
qed

section \<open>Properties\<close>

text \<open>
  C16. Linearizability over a store whose \<open>Read\<close> and \<open>List\<close> leave its state alone (the memory store
  is one): whatever the goroutines and their interleaving, the calls that have returned, taken in the
  order of their returns and run one after the other on the initial store, give every result that
  was returned and the present state; and no goroutine is inside together with a writer. Over a
  store whose reads write this fails, see \<open>writing_reads_are_not_serialised\<close>.
\<close>

theorem Threadsafe_linearizable:
  assumes "ts_reachable S n s0 s" "reads_keep_state S"
  shows "replay S (history s) s0 = Some (shared s) \<and>
    (inside s i True \<and> inside s j w \<longrightarrow> i = j)"
proof -
  have inv: "ts_inv S n s0 s" using assms by (rule ts_inv_reachable)
  have "i = j" if "inside s i True" "inside s j w"
    using that inv by (cases w) (auto simp: ts_inv_def)
  then show ?thesis using inv by (simp add: ts_inv_def)
qed

theorem Threadsafe_linearizable_witness:
  "\<exists>s. ts_reachable (Memory None 0) 1 [] s \<and>
     history s = [(OpApply nil_slice (1::nat) (2::nat), RError None)] \<and>
     replay (Memory None 0) (history s) [] = Some [(1, 2)]"
proof -
  let ?c = "OpApply nil_slice (1::nat) (2::nat)" and ?S = "Memory None 0 :: (_, nat, nat) store"
  let ?s = "\<lambda>p sh w h. \<lparr>shared = sh, pcs = [p], writer = w, readers = {}, history = h\<rparr>"
  note st = ts_reachable.step [OF _ ts_step.call] ts_reachable.step [OF _ ts_step.progress]
  have "ts_reachable ?S 1 [] (?s Idle [] None [])"
    using ts_reachable.start [of ?S 1 "[]"] by (simp add: ts_start_def)
  from st(1) [OF this, of 0 ?c] have "ts_reachable ?S 1 [] (?s (Blocked ?c) [] None [])" by simp
  from st(2) [OF this ts_progress.lock, of 0 ?c]
  have "ts_reachable ?S 1 [] (?s (Inside ?c []) [] (Some 0) [])" by simp
  from st(2) [OF this ts_progress.unlock, of 0 ?c "[]" "[(1, 2)]" "RError None"]
  have "ts_reachable ?S 1 [] (?s Idle [(1, 2)] None [(?c, RError None)])" by (simp add: Mem_defs)
  with Threadsafe_linearizable [OF this Memory_reads_keep_state] show ?thesis by force
qed

text \<open>
  No deadlock and no starvation once calls stop arriving: while a call is pending some goroutine
  can move, every run of the pending calls ends within two steps per call whatever the schedule, and
  where it ends all calls have returned.
\<close>

theorem Threadsafe_calls_return:
  assumes "ts_reachable S n s0 s" "reads_keep_state S" "ts_run S s ts"
  shows "length ts \<le> 2 * n \<and>
    ((\<nexists>t. ts_progress S (last (s # ts)) t) \<longleftrightarrow> (\<forall>p \<in> set (pcs (last (s # ts))). p = Idle))"
proof -
  have inv: "ts_inv S n s0 s" using assms(1,2) by (rule ts_inv_reachable)
  have "sum_list (map steps_left ps) \<le> 2 * length ps" for ps :: "('a, 'b, 'c) pc list"
  proof (induction ps)
    case (Cons p ps)
    moreover have "steps_left p \<le> 2" by (cases p) auto
    ultimately show ?case by simp
  qed simp
  then have "pending s \<le> 2 * n" using inv unfolding pending_def ts_inv_def by metis
  moreover note ts_run_pending [OF assms(3)]
  moreover have "(\<nexists>t. ts_progress S (last (s # ts)) t) \<longleftrightarrow> pending (last (s # ts)) = 0"
    using ts_not_stuck [OF ts_inv_run [OF assms(3) inv assms(2)]] pending_progress [of S "last (s # ts)"]
    by force
  ultimately show ?thesis by (auto simp: pending_0)
qed

theorem Threadsafe_calls_return_witness:
  "\<exists>s ts. ts_reachable (Memory None 0) 1 [] s \<and>
     pcs s = [Blocked (OpApply nil_slice (1::nat) (2::nat))] \<and> ts_run (Memory None 0) s ts \<and>
     length ts = 2 \<and> pcs (last (s # ts)) = [Idle] \<and> shared (last (s # ts)) = [(1, 2)] \<and>
     (\<nexists>t. ts_progress (Memory None 0) (last (s # ts)) t)"
proof -
  let ?c = "OpApply nil_slice (1::nat) (2::nat)" and ?S = "Memory None 0 :: (_, nat, nat) store"
  let ?s = "\<lambda>p sh w h. \<lparr>shared = sh, pcs = [p], writer = w, readers = {}, history = h\<rparr>"
  let ?A = "?s (Blocked ?c) [] None []" and ?B = "?s (Inside ?c []) [] (Some 0) []"
    and ?C = "?s Idle [(1, 2)] None [(?c, RError None)]"
  have "ts_reachable ?S 1 [] (?s Idle [] None [])"
    using ts_reachable.start [of ?S 1 "[]"] by (simp add: ts_start_def)
  from ts_reachable.step [OF this ts_step.call, of 0 ?c] have r: "ts_reachable ?S 1 [] ?A" by simp
  have "ts_progress ?S ?A ?B" using ts_progress.lock [of 0 ?A ?c ?S] by simp
  moreover have "ts_progress ?S ?B ?C"
    using ts_progress.unlock [of 0 ?B ?c "[]" ?S "[(1, 2)]" "RError None"] by (simp add: Mem_defs)
  ultimately have run: "ts_run ?S ?A [?B, ?C]" by simp
  have "\<nexists>t. ts_progress ?S ?C t"
    using Threadsafe_calls_return [OF r Memory_reads_keep_state run] by simp
  with r run show ?thesis by (intro exI [of _ ?A] exI [of _ "[?B, ?C]"]) simp
qed

end
