(* ===== verification/Job.thy ===== *)
theory Job
  imports Slices Errors
begin

text \<open>
  Jobs, \<open>pkg/task/job\<close>: a check function with a timeout, run once or many at a time.

  Durations and times are nanoseconds; the zero \<open>time.Time\<close> is \<open>None\<close>. A check sees the world
  \<open>'w\<close> and answers after some time, or never. \<open>Run\<close> waits for whichever comes first: the answer,
  the timeout or the end of its context; \<open>re_pick\<close> stands for the choice of \<open>select\<close> when several
  are ready. The textual durations of a result are kept as durations, identifiers are numbers.
\<close>

section \<open>Configuration\<close>

definition job_DefaultTimeout :: int where
  "job_DefaultTimeout = 5000000000"

definition StateSuccess :: string where
  "StateSuccess = ''SUCCESS''"

definition StateFailed :: string where
  "StateFailed = ''FAILED''"

type_synonym availability = int

definition StatusOK :: availability where
  "StatusOK = 200"

definition StatusPartiallyAvailable :: availability where
  "StatusPartiallyAvailable = 206"

definition StatusUnavailable :: availability where
  "StatusUnavailable = 503"

definition StatusTimeout :: availability where
  "StatusTimeout = 408"

text \<open>\<open>http.StatusText\<close> on the statuses the code uses.\<close>

definition StatusText :: "int \<Rightarrow> string" where
  "StatusText code =
     (if code = 200 then ''OK'' else if code = 206 then ''Partial Content''
      else if code = 503 then ''Service Unavailable'' else if code = 408 then ''Request Timeout''
      else if code = 500 then ''Internal Server Error'' else if code = 404 then ''Not Found'' else [])"

definition Availability_String :: "availability \<Rightarrow> string" where
  "Availability_String a = StatusText a"

lemmas status_defs = StatusOK_def StatusPartiallyAvailable_def StatusUnavailable_def
  StatusTimeout_def Availability_String_def StatusText_def

record job_config =
  job_Name :: string
  job_Description :: string
  job_MayFail :: bool
  job_Timeout :: int

definition job_config_Validate :: "job_config \<Rightarrow> err option" where
  "job_config_Validate c =
     (if job_Name c = [] then Some (new_error ''name is required'') else None)"

definition job_ApplyDefaults :: "job_config \<Rightarrow> job_config" where
  "job_ApplyDefaults c = (if job_Timeout c = 0 then c\<lparr>job_Timeout := job_DefaultTimeout\<rparr> else c)"

text \<open>
  A check either returns an error or \<open>nil\<close>, panics, or ends its goroutine with \<open>runtime.Goexit\<close>.
  The first component is the time until it answers; \<open>None\<close> when it never does.
\<close>

datatype check_outcome = Returned "err option" | Panicked | Goexit

type_synonym 'w check = "'w \<Rightarrow> (int \<times> check_outcome) option"

record 'w job =
  job_Config :: job_config
  job_Check :: "'w check option"

definition job_Name_of :: "'w job \<Rightarrow> string" where
  "job_Name_of j = job_Name (job_Config j)"

definition job_Validate :: "'w job \<Rightarrow> err option" where
  "job_Validate j =
     (case job_config_Validate (job_Config j) of
        Some e \<Rightarrow> Some e
      | None \<Rightarrow>
          if job_Check j = None then Some (new_error ''check function is required'') else None)"

definition job_New ::
  "string \<Rightarrow> string \<Rightarrow> int \<Rightarrow> bool \<Rightarrow> 'w check option \<Rightarrow> err + 'w job" where
  "job_New name description timeout mayFail check =
     (let job = \<lparr>job_Config = job_ApplyDefaults
            \<lparr>job_Name = name, job_Description = description, job_MayFail = mayFail, job_Timeout = timeout\<rparr>,
          job_Check = check\<rparr>
      in case job_Validate job of Some e \<Rightarrow> Inl e | None \<Rightarrow> Inr job)"

text \<open>\<open>None\<close> is the panic.\<close>

definition job_NewOrDie ::
  "string \<Rightarrow> string \<Rightarrow> int \<Rightarrow> bool \<Rightarrow> 'w check option \<Rightarrow> 'w job option" where
  "job_NewOrDie name description timeout mayFail check =
     (case job_New name description timeout mayFail check of Inl e \<Rightarrow> None | Inr job \<Rightarrow> Some job)"

section \<open>Results\<close>

record job_result =
  jr_ID :: nat
  jr_Name :: string
  jr_Description :: string
  jr_Timeout :: int
  jr_MayFail :: bool
  jr_StartedAt :: "int option"
  jr_FinishedAt :: "int option"
  jr_Duration :: "int option"
  jr_State :: string
  jr_Error :: "err option"

definition AddError :: "err option \<Rightarrow> job_result \<Rightarrow> job_result" where
  "AddError e js = js\<lparr>jr_Error := e\<rparr>"

definition IsRunning :: "job_result \<Rightarrow> bool" where
  "IsRunning js \<longleftrightarrow> jr_FinishedAt js = None"

definition HasErrors :: "job_result \<Rightarrow> bool" where
  "HasErrors js \<longleftrightarrow> jr_Error js \<noteq> None"

definition IsSuccessful :: "job_result \<Rightarrow> bool" where
  "IsSuccessful js = (if IsRunning js then False else \<not> HasErrors js)"

definition GetAvailability :: "job_result \<Rightarrow> availability" where
  "GetAvailability js =
     (if IsSuccessful js then StatusOK
      else if \<not> jr_MayFail js \<and> HasErrors js then StatusUnavailable
      else StatusPartiallyAvailable)"

definition MarkAsStarted :: "int \<Rightarrow> job_result \<Rightarrow> job_result" where
  "MarkAsStarted now js = js\<lparr>jr_StartedAt := Some now\<rparr>"

definition MarkAsCompleted :: "int \<Rightarrow> job_result \<Rightarrow> job_result" where
  "MarkAsCompleted now js =
     (let js = js\<lparr>jr_FinishedAt := Some now\<rparr>;
          js = js\<lparr>jr_Duration := Some (now - (case jr_StartedAt js of None \<Rightarrow> 0 | Some t \<Rightarrow> t))\<rparr>
      in js\<lparr>jr_State := (if IsSuccessful js then StateSuccess else StateFailed)\<rparr>)"

definition ToJobResult :: "nat \<Rightarrow> 'w job \<Rightarrow> job_result" where
  "ToJobResult uuid j =
     \<lparr>jr_ID = uuid, jr_Name = job_Name (job_Config j), jr_Description = job_Description (job_Config j),
      jr_Timeout = job_Timeout (job_Config j), jr_MayFail = job_MayFail (job_Config j),
      jr_StartedAt = None, jr_FinishedAt = None, jr_Duration = None, jr_State = [],
      jr_Error = Some (Sentinel ErrJobNotStarted)\<rparr>"

section \<open>Runs\<close>

record 'w run_env =
  re_world :: 'w
  re_ctx :: "(int \<times> err) option"
  re_pick :: nat
  re_now :: int
  re_id :: nat

datatype job_event = Answered check_outcome | TimedOut | CtxEnded err

text \<open>A \<open>nil\<close> check panics when it is called.\<close>

definition check_answer :: "'w \<Rightarrow> 'w job \<Rightarrow> (int \<times> check_outcome) option" where
  "check_answer w j = (case job_Check j of None \<Rightarrow> Some (0, Panicked) | Some f \<Rightarrow> f w)"

definition race :: "'w run_env \<Rightarrow> 'w job \<Rightarrow> (int \<times> job_event) list" where
  "race env j =
     (case check_answer (re_world env) j of None \<Rightarrow> [] | Some (d, a) \<Rightarrow> [(max 0 d, Answered a)]) @
     [(max 0 (job_Timeout (job_Config j)), TimedOut)] @
     (case re_ctx env of None \<Rightarrow> [] | Some (d, e) \<Rightarrow> [(max 0 d, CtxEnded e)])"

definition job_select :: "nat \<Rightarrow> (int \<times> job_event) list \<Rightarrow> int \<times> job_event" where
  "job_select pick events =
     (let first = Min (fst ` set events); ready = filter (\<lambda>(d, _). d = first) events
      in ready ! (pick mod length ready))"

text \<open>
  What the goroutine sends: after a panic the recovered error, after \<open>Goexit\<close> nothing, and the
  receive from the closed channel gives \<open>nil\<close>.
\<close>

fun received :: "check_outcome \<Rightarrow> err option" where
  "received (Returned e) = e"
| "received Panicked = Some (new_error ''internal server error'')"
| "received Goexit = None"

definition event_error :: "job_event \<Rightarrow> err option" where
  "event_error ev =
     (case ev of Answered a \<Rightarrow> received a | TimedOut \<Rightarrow> Some (Sentinel ErrJobTimeout)
      | CtxEnded e \<Rightarrow> Some e)"

definition job_Run :: "'w run_env \<Rightarrow> 'w job \<Rightarrow> job_result" where
  "job_Run env j =
     (let jobResult = MarkAsStarted (re_now env) (ToJobResult (re_id env) j)
      in case job_select (re_pick env) (race env j) of (d, ev) \<Rightarrow>
           MarkAsCompleted (re_now env + d) (AddError (event_error ev) jobResult))"

text \<open>
  \<open>RunAny\<close>: the goroutines write their slot of \<open>results\<close> in the order \<open>order\<close> in which they
  finish; a slot not written yet holds the zero value.
\<close>

definition zero_result :: job_result where
  "zero_result =
     \<lparr>jr_ID = 0, jr_Name = [], jr_Description = [], jr_Timeout = 0, jr_MayFail = False,
      jr_StartedAt = None, jr_FinishedAt = None, jr_Duration = None, jr_State = [], jr_Error = None\<rparr>"

definition RunAny :: "(nat \<Rightarrow> 'w run_env) \<Rightarrow> nat list \<Rightarrow> 'w job list \<Rightarrow> job_result list" where
  "RunAny envs order jobs =
     fold (\<lambda>i results. results[i := job_Run (envs i) (jobs ! i)]) order
       (replicate (length jobs) zero_result)"

section \<open>Well-formed results\<close>

text \<open>
  A result is one of a job that has not started, with the error that says so, or a finished one
  whose state is determined by its error.
\<close>

definition wf_result :: "job_result \<Rightarrow> bool" where
  "wf_result js \<longleftrightarrow>
     (if IsRunning js then jr_StartedAt js = None \<and> jr_State js = [] \<and>
        jr_Error js = Some (Sentinel ErrJobNotStarted)
      else jr_StartedAt js \<noteq> None \<and>
        jr_State js = (if jr_Error js = None then StateSuccess else StateFailed))"

lemmas result_defs = IsRunning_def HasErrors_def IsSuccessful_def MarkAsStarted_def
  MarkAsCompleted_def AddError_def ToJobResult_def

lemma wf_ToJobResult [intro]: "wf_result (ToJobResult i j)"
  by (simp add: wf_result_def result_defs)

lemma race_ne: "race env j \<noteq> []"
  by (simp add: race_def)

lemma select_min:
  assumes "events \<noteq> []"
  shows "job_select pick events \<in> set events"
    and "\<forall>x \<in> set events. fst (job_select pick events) \<le> fst x"
proof -
  let ?first = "Min (fst ` set events)"
  let ?ready = "filter (\<lambda>(d, _). d = ?first) events"
  have "?first \<in> fst ` set events" using assms by (intro Min_in) auto
  then have ne: "?ready \<noteq> []" by (auto simp: filter_empty_conv)
  then have "?ready ! (pick mod length ?ready) \<in> set ?ready" by (intro nth_mem) simp
  then have r: "job_select pick events \<in> set ?ready" by (simp only: job_select_def Let_def)
  then show "job_select pick events \<in> set events" by simp
  from r have "fst (job_select pick events) = ?first" by auto
  then show "\<forall>x \<in> set events. fst (job_select pick events) \<le> fst x" by simp
qed

lemma Run_fields [simp]:
  "jr_Name (job_Run env j) = job_Name (job_Config j)"
  "jr_MayFail (job_Run env j) = job_MayFail (job_Config j)"
  "\<not> IsRunning (job_Run env j)"
  by (auto simp: job_Run_def result_defs split: prod.splits)

lemma Run_error:
  "jr_Error (job_Run env j) = event_error (snd (job_select (re_pick env) (race env j)))"
  by (auto simp: job_Run_def result_defs split: prod.splits)

lemma Run_duration:
  "jr_Duration (job_Run env j) = Some (fst (job_select (re_pick env) (race env j)))"
  by (auto simp: job_Run_def result_defs split: prod.splits)

lemma wf_Run [intro]: "wf_result (job_Run env j)"
  by (auto simp: job_Run_def wf_result_def result_defs split: prod.splits)

lemma GetAvailability_cases:
  "GetAvailability js \<in> {StatusOK, StatusPartiallyAvailable, StatusUnavailable}"
  by (simp add: GetAvailability_def)

lemma Run_availability:
  "GetAvailability (job_Run env j) =
     (if jr_Error (job_Run env j) = None then StatusOK
      else if job_MayFail (job_Config j) then StatusPartiallyAvailable else StatusUnavailable)"
  by (simp add: GetAvailability_def IsSuccessful_def HasErrors_def)

text \<open>Writes to different slots commute: what is left is the last write to every slot.\<close>

lemma fold_update_nth:
  "length (fold (\<lambda>i r. r[i := f i]) is xs) = length xs"
  "i < length xs \<Longrightarrow> fold (\<lambda>i r. r[i := f i]) is xs ! i = (if i \<in> set is then f i else xs ! i)"
  by (induction "is" arbitrary: xs) (auto simp: nth_list_update)

lemma RunAny_eq:
  assumes "{..<length jobs} \<subseteq> set order"
  shows "RunAny envs order jobs = map (\<lambda>i. job_Run (envs i) (jobs ! i)) [0..<length jobs]"
  by (rule nth_equalityI) (use assms in \<open>auto simp: RunAny_def fold_update_nth\<close>)

section \<open>Properties\<close>

text \<open>
  A run ends within its timeout, whatever the check does, also when it never answers, panics or
  has not been given. If the check answers before the timeout and before the end of the context,
  its answer is the result; if it answers later or never, and the context goes on, the result is
  \<open>ErrJobTimeout\<close>.
\<close>

theorem job_Run_bounded:
  assumes "0 \<le> job_Timeout (job_Config j)"
  shows "(\<exists>d. jr_Duration (job_Run env j) = Some d \<and> 0 \<le> d \<and> d \<le> job_Timeout (job_Config j)) \<and>
    (\<forall>d a. check_answer (re_world env) j = Some (d, a) \<longrightarrow> 0 \<le> d \<longrightarrow> d < job_Timeout (job_Config j) \<longrightarrow>
       (\<forall>c e. re_ctx env = Some (c, e) \<longrightarrow> d < c) \<longrightarrow> jr_Error (job_Run env j) = received a) \<and>
    (re_ctx env = None \<longrightarrow>
       (\<forall>d a. check_answer (re_world env) j = Some (d, a) \<longrightarrow> job_Timeout (job_Config j) < d) \<longrightarrow>
       jr_Error (job_Run env j) = Some (Sentinel ErrJobTimeout))"
proof (intro conjI allI impI)
  let ?s = "job_select (re_pick env) (race env j)"
  note s = select_min [where pick = "re_pick env", OF race_ne [of env j]]
  have "(job_Timeout (job_Config j), TimedOut) \<in> set (race env j)" using assms by (simp add: race_def)
  with s(2) have "fst ?s \<le> job_Timeout (job_Config j)" by fastforce
  moreover have "0 \<le> fst x" if "x \<in> set (race env j)" for x
    using that by (auto simp: race_def split: option.splits)
  ultimately show "\<exists>d. jr_Duration (job_Run env j) = Some d \<and> 0 \<le> d \<and> d \<le> job_Timeout (job_Config j)"
    using s(1) by (simp add: Run_duration)
  {
    fix d a
    assume a: "check_answer (re_world env) j = Some (d, a)" "0 \<le> d" "d < job_Timeout (job_Config j)"
      "\<forall>c e. re_ctx env = Some (c, e) \<longrightarrow> d < c"
    from a(1,2) have "(d, Answered a) \<in> set (race env j)" by (simp add: race_def)
    with s(2) have "fst ?s \<le> d" by fastforce
    with s(1) a have "?s = (d, Answered a)" by (fastforce simp: race_def split: option.splits)
    then show "jr_Error (job_Run env j) = received a" by (simp add: Run_error event_error_def)
  next
    assume a: "re_ctx env = None"
      "\<forall>d a. check_answer (re_world env) j = Some (d, a) \<longrightarrow> job_Timeout (job_Config j) < d"
    have "(job_Timeout (job_Config j), TimedOut) \<in> set (race env j)" using assms by (simp add: race_def)
    with s(2) have "fst ?s \<le> job_Timeout (job_Config j)" by fastforce
    with s(1) a have "snd ?s = TimedOut" by (fastforce simp: race_def split: option.splits)
    then show "jr_Error (job_Run env j) = Some (Sentinel ErrJobTimeout)"
      by (simp add: Run_error event_error_def)
  }
qed

theorem job_Run_bounded_witness:
  "jr_Error (job_Run \<lparr>re_world = (), re_ctx = None, re_pick = 3, re_now = 7, re_id = 1\<rparr>
     \<lparr>job_Config = \<lparr>job_Name = ''db'', job_Description = [], job_MayFail = False, job_Timeout = 5\<rparr>,
      job_Check = Some (\<lambda>_. None)\<rparr>) = Some (Sentinel ErrJobTimeout)"
  using job_Run_bounded [of "\<lparr>job_Config = \<lparr>job_Name = ''db'', job_Description = [], job_MayFail = False,
      job_Timeout = 5\<rparr>, job_Check = Some (\<lambda>_. None)\<rparr>"
    "\<lparr>re_world = (), re_ctx = None, re_pick = 3, re_now = 7, re_id = 1\<rparr>"]
  by (simp add: check_answer_def)

text \<open>
  \<open>RunAny\<close> gives one result per job, in the order of the jobs, whatever the order in which the
  goroutines finish; every result is well-formed and finished, with the state and the availability
  its error and the job's \<open>MayFail\<close> determine.
\<close>

theorem RunAny_in_order:
  assumes "set order = {..<length jobs}"
  shows "RunAny envs order jobs = map (\<lambda>i. job_Run (envs i) (jobs ! i)) [0..<length jobs] \<and>
    list_all wf_result (RunAny envs order jobs) \<and>
    list_all (\<lambda>js. jr_State js = (if jr_Error js = None then StateSuccess else StateFailed) \<and>
      GetAvailability js = (if jr_Error js = None then StatusOK
        else if jr_MayFail js then StatusPartiallyAvailable else StatusUnavailable))
      (RunAny envs order jobs)"
proof -
  have eq: "RunAny envs order jobs = map (\<lambda>i. job_Run (envs i) (jobs ! i)) [0..<length jobs]"
    by (rule RunAny_eq) (use assms in auto)
  have "jr_State (job_Run env j) = (if jr_Error (job_Run env j) = None then StateSuccess else StateFailed)"
    for env and j :: "'a job"
    using wf_Run [of env j] by (simp add: wf_result_def)
  then show ?thesis by (auto simp: eq list_all_iff Run_availability)
qed

theorem RunAny_in_order_witness:
  "map jr_Name (RunAny (\<lambda>_. \<lparr>re_world = (), re_ctx = None, re_pick = 0, re_now = 0, re_id = 0\<rparr>) [1, 0]
     [\<lparr>job_Config = \<lparr>job_Name = ''a'', job_Description = [], job_MayFail = False, job_Timeout = 5\<rparr>,
       job_Check = Some (\<lambda>_. Some (1, Returned None))\<rparr>,
      \<lparr>job_Config = \<lparr>job_Name = ''b'', job_Description = [], job_MayFail = True, job_Timeout = 5\<rparr>,
       job_Check = None\<rparr>]) = [''a'', ''b'']"
  by (subst conjunct1 [OF RunAny_in_order]) (auto simp: upt_rec)

end
