(* ===== verification/Probes.thy ===== *)
theory Probes
  imports Tls Job Strings
begin

text \<open>
  The checks of \<open>pkg/healthcheck/checks\<close>: HTTP, telnet, ok and custom functions.

  \<open>probe_env\<close> holds what the checks use of the outside: the TLS files, \<open>url.Parse\<close> followed by
  \<open>String\<close>, \<open>net.ParseIP\<close>, a dial with the result of closing the connection, the HTTP transport
  for a TLS configuration (which does not follow redirects), the token of the Kubernetes
  configuration, header canonicalisation, and how long a probe takes (\<open>None\<close> when it never ends).
\<close>

record ('w, 'c, 'k) probe_env =
  pe_tls :: "('c, 'k) tls_env"
  parse_url :: "string \<Rightarrow> err + string"
  ParseIP :: "string \<Rightarrow> bool"
  Dial :: "('c, 'k) gotls option \<Rightarrow> int \<Rightarrow> string \<Rightarrow> string \<Rightarrow> 'w \<Rightarrow> err + err option"
  transport_for :: "('c, 'k) gotls option \<Rightarrow> ('w, unit) net"
  pe_kubeconfig :: "err + string"
  pe_canonical :: "string \<Rightarrow> string"
  latency :: "'w \<Rightarrow> int option"

section \<open>HTTP\<close>

record http_check_config =
  hc_Path :: string
  hc_Scheme :: string
  hc_Host :: string
  hc_Port :: u16
  hc_TLSConfig :: tls_client_config
  hc_HTTPHeaders :: "(string, string) gomap list"

definition hc_Validate :: "http_check_config \<Rightarrow> err option" where
  "hc_Validate c =
     (if hc_Host c = [] then Some (new_error ''host is required'')
      else if unat (hc_Port c) < 1 \<or> unat (hc_Port c) > 65535 then
        Some (new_error ''port must be between 1 and 65535'')
      else if hc_Scheme c \<noteq> [] \<and> hc_Scheme c \<noteq> ''http'' \<and> hc_Scheme c \<noteq> ''https'' then
        Some (new_error ''scheme must be either http or https'')
      else if UseTLS (Some (hc_TLSConfig c)) \<and> hc_Scheme c = ''http'' then
        Some (new_error ''TLSConfig is set but scheme is http'')
      else None)"

definition valid_label_char :: "char \<Rightarrow> bool" where
  "valid_label_char r \<longleftrightarrow> r = CHR ''-'' \<or> r = CHR ''_'' \<or> (CHR ''A'' \<le> r \<and> r \<le> CHR ''Z'') \<or>
     (CHR ''a'' \<le> r \<and> r \<le> CHR ''z'') \<or> (CHR ''0'' \<le> r \<and> r \<le> CHR ''9'')"

fun valid_parts :: "string list \<Rightarrow> bool" where
  "valid_parts [] = True"
| "valid_parts (part # parts) =
     (if length part = 0 \<or> length part > 63 then False
      else if \<not> list_all valid_label_char part then False
      else if hd part = CHR ''-'' \<or> last part = CHR ''-'' then False
      else valid_parts parts)"

definition isValidHostname :: "string \<Rightarrow> bool" where
  "isValidHostname host =
     (if length host = 0 \<or> length host > 253 then False else valid_parts (split_at (CHR ''.'') host))"

definition WithAddress ::
  "('w, 'c, 'k) probe_env \<Rightarrow> string \<Rightarrow> http_check_config \<Rightarrow> err + http_check_config" where
  "WithAddress E address c =
     (case ExtractHostPort address of
        (host, port, True) \<Rightarrow> Inl (new_error ''failed to extract host and port'')
      | (host, port, False) \<Rightarrow>
          if host = [] \<or> (\<not> ParseIP E host \<and> \<not> isValidHostname host) then
            Inl (new_error ''invalid host'')
          else if port < 1 \<or> port > 65535 then Inl (new_error ''invalid port'')
          else
            (let c = (if hc_Host c = [] then c\<lparr>hc_Host := host\<rparr> else c)
             in Inr (if hc_Port c = 0 then c\<lparr>hc_Port := word_of_int port\<rparr> else c)))"

definition NormalizeURLFor :: "('w, 'c, 'k) probe_env \<Rightarrow> http_check_config \<Rightarrow> err + string" where
  "NormalizeURLFor E cfg =
     (let urlStr = (if hc_Port cfg \<noteq> 0 then hc_Host cfg @ '':'' @ itoa (unat (hc_Port cfg))
                    else hc_Host cfg);
          urlStr = (if hc_Path cfg \<noteq> [] then urlStr @ hc_Path cfg else urlStr);
          scheme = (if hc_Scheme cfg = [] then
                      (if UseTLS (Some (hc_TLSConfig cfg)) then ''https'' else ''http'')
                    else hc_Scheme cfg);
          urlStr = (if \<not> strings_Contains urlStr ''://'' then scheme @ ''://'' @ urlStr else urlStr)
      in case parse_url E urlStr of
           Inl e \<Rightarrow> Inl (Errorf ''invalid URL'' [e])
         | Inr parsed \<Rightarrow> Inr parsed)"

record 'w http_check_client =
  hcl_httpClient :: "('w, unit) http_client"
  hcl_urlz :: string
  hcl_headers :: "(string, string) gomap list"

definition hc_New ::
  "('w, 'c, 'k) probe_env \<Rightarrow> http_check_config \<Rightarrow> err + 'w http_check_client" where
  "hc_New E c =
     (case hc_Validate c of
        Some e \<Rightarrow> Inl (Errorf ''invalid HTTP health check config'' [e])
      | None \<Rightarrow>
          (case (if UseTLS (Some (hc_TLSConfig c)) then
                   (case tlsclient_NewForConfig (pe_tls E) (hc_TLSConfig c) [] of
                      Inl e \<Rightarrow> Inl (Errorf ''failed to create TLS config for health check'' [e])
                    | Inr tlsconfig \<Rightarrow> Inr (Some tlsconfig))
                 else Inr None) of
             Inl e \<Rightarrow> Inl e
           | Inr tlsconfig \<Rightarrow>
               (case NewClient (transport_for E tlsconfig) [] of
                  Inl e \<Rightarrow> Inl (Errorf ''failed to create HTTP client'' [e])
                | Inr client \<Rightarrow>
                    (case NormalizeURLFor E c of
                       Inl e \<Rightarrow> Inl (Errorf ''failed to normalize URL'' [e])
                     | Inr normalizedURL \<Rightarrow>
                         Inr \<lparr>hcl_httpClient = client, hcl_urlz = normalizedURL,
                              hcl_headers = hc_HTTPHeaders c\<rparr>))))"

definition UseContextToken :: string where
  "UseContextToken = ''<<use-context>>''"

definition buildRequestOptions ::
  "('w, 'c, 'k) probe_env \<Rightarrow> (string, string) gomap list \<Rightarrow> request cfg_option option list" where
  "buildRequestOptions E headersList =
     (let mergedHeaders = fold (\<lambda>headerMap merged. maps_Copy merged headerMap) headersList []
      in if map_of mergedHeaders ''Authorization'' = Some UseContextToken then
           [Some (WithBearerAuth (pe_kubeconfig E) []),
            Some (WithHeaders (pe_canonical E) (AList.delete ''Authorization'' mergedHeaders))]
         else [Some (WithHeaders (pe_canonical E) mergedHeaders)])"

definition hc_Check ::
  "('w, 'c, 'k) probe_env \<Rightarrow> 'w http_check_client \<Rightarrow> 'w \<Rightarrow> 'w \<times> err option" where
  "hc_Check E c w =
     (case http_Get (hcl_httpClient c) (hcl_urlz c) (buildRequestOptions E (hcl_headers c)) w of
        (w, resp) \<Rightarrow>
          (w, case Error resp of
                Some e \<Rightarrow>
                  if Status resp = 0 then Some (Errorf ''failed to perform HTTP GET request'' [e])
                  else Some (new_error (''HTTP request failed: '' @ StatusText (Status resp)))
              | None \<Rightarrow> None))"

section \<open>Telnet\<close>

record telnet_config =
  tn_Address :: string
  tn_RequestTimeout :: int
  tn_TLSConfig :: tls_client_config
  tn_Protocol :: string

definition tn_Validate :: "telnet_config \<Rightarrow> err option" where
  "tn_Validate c =
     (if tn_Address c = [] then Some (new_error ''address is required'')
      else if tn_Protocol c \<noteq> [] \<and> tn_Protocol c \<noteq> ''tcp'' \<and> tn_Protocol c \<noteq> ''udp'' then
        Some (new_error ''protocol must be either tcp or udp'')
      else None)"

record ('c, 'k) telnet_client =
  tcl_timeout :: int
  tcl_tls :: "('c, 'k) gotls option"
  tcl_address :: string
  tcl_protocol :: string

definition tn_New :: "('w, 'c, 'k) probe_env \<Rightarrow> telnet_config \<Rightarrow> err + ('c, 'k) telnet_client" where
  "tn_New E c =
     (let cfg = (if tn_RequestTimeout c = 0 then c\<lparr>tn_RequestTimeout := 5000000000\<rparr> else c);
          cfg = (if tn_Protocol cfg = [] then cfg\<lparr>tn_Protocol := ''tcp''\<rparr> else cfg)
      in case tn_Validate cfg of
           Some e \<Rightarrow> Inl (Errorf ''invalid telnet health check config'' [e])
         | None \<Rightarrow>
             (case (if UseTLS (Some (tn_TLSConfig cfg)) then
                      (case tlsclient_NewForConfig (pe_tls E) (tn_TLSConfig c) [] of
                         Inl e \<Rightarrow> Inl (Errorf ''failed to create TLS config for health check'' [e])
                       | Inr tlsConfig \<Rightarrow> Inr (Some tlsConfig))
                    else Inr None) of
                Inl e \<Rightarrow> Inl e
              | Inr tlsdialer \<Rightarrow>
                  Inr \<lparr>tcl_timeout = tn_RequestTimeout cfg, tcl_tls = tlsdialer,
                       tcl_address = tn_Address cfg, tcl_protocol = tn_Protocol cfg\<rparr>))"

definition tn_NewOrDie ::
  "('w, 'c, 'k) probe_env \<Rightarrow> telnet_config \<Rightarrow> ('c, 'k) telnet_client option" where
  "tn_NewOrDie E c = (case tn_New E c of Inl e \<Rightarrow> None | Inr h \<Rightarrow> Some h)"

definition tn_Check ::
  "('w, 'c, 'k) probe_env \<Rightarrow> ('c, 'k) telnet_client \<Rightarrow> 'w \<Rightarrow> err option" where
  "tn_Check E c w =
     (case tcl_tls c of
        Some t \<Rightarrow>
          (case Dial E (Some t) (tcl_timeout c) (tcl_protocol c) (tcl_address c) w of
             Inl e \<Rightarrow> Some (Errorf ''telnet health check TLS dial failed'' [e])
           | Inr closed \<Rightarrow> closed)
      | None \<Rightarrow>
          (case Dial E None (tcl_timeout c) (tcl_protocol c) (tcl_address c) w of
             Inl e \<Rightarrow> Some (Errorf ''telnet health check failed'' [e])
           | Inr closed \<Rightarrow> closed))"

section \<open>Handlers\<close>

definition ok_Check :: "'w \<Rightarrow> err option" where
  "ok_Check w = None"

datatype ('w, 'c, 'k) probe_handler =
    OKHandler
  | HTTPHandler "'w http_check_client"
  | TelnetHandler "('c, 'k) telnet_client"
  | CustomHandler "'w check"

definition HandlerFunc :: "'w check \<Rightarrow> ('w, 'c, 'k) probe_handler" where
  "HandlerFunc handlerFn = CustomHandler handlerFn"

text \<open>The method \<open>Check\<close> of a handler as the function a job runs.\<close>

fun handler_Check :: "('w, 'c, 'k) probe_env \<Rightarrow> ('w, 'c, 'k) probe_handler \<Rightarrow> 'w check" where
  "handler_Check E OKHandler w = Some (0, Returned (ok_Check w))"
| "handler_Check E (HTTPHandler c) w =
     map_option (\<lambda>d. (d, Returned (snd (hc_Check E c w)))) (latency E w)"
| "handler_Check E (TelnetHandler c) w =
     map_option (\<lambda>d. (d, Returned (tn_Check E c w))) (latency E w)"
| "handler_Check E (CustomHandler f) w = f w"

section \<open>Hosts and responses\<close>

lemma valid_parts_iff:
  "valid_parts parts \<longleftrightarrow> (\<forall>p \<in> set parts. p \<noteq> [] \<and> length p \<le> 63 \<and> list_all valid_label_char p \<and>
     hd p \<noteq> CHR ''-'' \<and> last p \<noteq> CHR ''-'')"
  by (induction parts) auto

lemma hostname_chars:
  assumes "isValidHostname host" "c \<in> set host"
  shows "valid_label_char c \<or> c = CHR ''.''"
proof -
  have "set (strings_Join parts [sep]) \<subseteq> insert sep (\<Union> (set ` set parts))" for parts and sep :: char
    by (induction parts "[sep]" rule: strings_Join.induct) auto
  from this [of "split_at (CHR ''.'') host" "CHR ''.''"] assms(2)
  have "c = CHR ''.'' \<or> (\<exists>p \<in> set (split_at (CHR ''.'') host). c \<in> set p)"
    by (auto simp: split_at_join)
  with assms(1) show ?thesis
    by (auto simp: isValidHostname_def valid_parts_iff list_all_iff split: if_splits)
qed

lemma hostname_plain:
  assumes "isValidHostname host"
  shows "host \<noteq> []" "CHR '':'' \<notin> set host" "CHR ''['' \<notin> set host" "CHR '']'' \<notin> set host"
  using assms hostname_chars [OF assms, of "CHR '':''"] hostname_chars [OF assms, of "CHR ''[''"]
    hostname_chars [OF assms, of "CHR '']''"]
  by (auto simp: isValidHostname_def valid_label_char_def less_eq_char_def)

lemma no_error_iff: "Error r = None \<longleftrightarrow> Err r = None \<and> 0 < Status r \<and> Status r < 400"
  by (auto simp: Error_def IsOK_def StatusCodeAsErr_def split: option.splits)

lemma hc_New_client:
  assumes "hc_New E cfg = Inr c"
  shows "Tripperware (hcl_httpClient c) = (\<lambda>endpoint. endpoint)"
    and "DefaultRequestOptions (hcl_httpClient c) = []"
    and "hcl_headers c = hc_HTTPHeaders cfg"
  using assms by (auto simp: hc_New_def NewClient_def split: option.splits sum.splits if_splits)

section \<open>Properties\<close>

text \<open>
  The HTTP check sends one GET request with the options built from the configured headers and
  passes exactly when a whole response arrives whose status is below 400: a redirect passes, a
  client error such as 404 fails, although the package promises every status below 500.
\<close>

theorem http_check_passes_below_400:
  assumes "hc_New E cfg = Inr c"
    and "NewRequest (cl_Http (hcl_httpClient c)) ''GET'' (hcl_urlz c) None = Inr req"
    and "ApplyOpts req (buildRequestOptions E (hc_HTTPHeaders cfg)) = Inr req'"
    and "Do (cl_Http (hcl_httpClient c)) req' w = (w', r)"
  shows "fst (hc_Check E c w) = w' \<and>
    (snd (hc_Check E c w) = None \<longleftrightarrow>
      (case r of Inl e \<Rightarrow> False
       | Inr resp \<Rightarrow> snd (resp_Body resp) = None \<and> 0 < resp_Status resp \<and> resp_Status resp < 400))"
proof -
  have "http_Get (hcl_httpClient c) (hcl_urlz c) (buildRequestOptions E (hcl_headers c)) w =
      send (cl_Http (hcl_httpClient c)) req' w"
    using assms(2,3) hc_New_client [OF assms(1)]
    by (simp add: http_Get_def do_request_def build_def)
  then have "fst (hc_Check E c w) = fst (send (cl_Http (hcl_httpClient c)) req' w)"
    "snd (hc_Check E c w) = None \<longleftrightarrow> Error (snd (send (cl_Http (hcl_httpClient c)) req' w)) = None"
    by (auto simp: hc_Check_def split: prod.splits option.splits)
  then show ?thesis using assms(4)
    by (cases r) (simp_all add: send_def err_data_def no_error_iff)
qed

definition example_net :: "(nat, unit) net" where
  "example_net =
     \<lparr>NewRequest = (\<lambda>m u b. Inr \<lparr>req_Method = m, req_URL = u, RawQuery = [], Header = [], Body = b\<rparr>),
      Do = (\<lambda>r n. (Suc n, Inr \<lparr>resp_Status = 404, resp_Header = [], resp_Body = ([], None)\<rparr>)),
      Marshal = (\<lambda>_. Inr [])\<rparr>"

definition example_env :: "(nat, unit, unit) probe_env" where
  "example_env =
     \<lparr>pe_tls = undefined, parse_url = Inr, ParseIP = (\<lambda>_. False), Dial = (\<lambda>_ _ _ _ _. Inr None),
      transport_for = (\<lambda>_. example_net), pe_kubeconfig = Inr ''t'', pe_canonical = (\<lambda>h. h),
      latency = (\<lambda>_. Some 1)\<rparr>"

theorem http_check_passes_below_400_witness:
  "\<exists>c. hc_New example_env \<lparr>hc_Path = [], hc_Scheme = [], hc_Host = ''svc'', hc_Port = 80,
      hc_TLSConfig = tlsclient_DefaultConfig, hc_HTTPHeaders = []\<rparr> = Inr c \<and>
    snd (hc_Check example_env c 0) \<noteq> None"
proof -
  let ?cfg = "\<lparr>hc_Path = [], hc_Scheme = [], hc_Host = ''svc'', hc_Port = 80,
      hc_TLSConfig = tlsclient_DefaultConfig, hc_HTTPHeaders = []\<rparr>"
  let ?c = "\<lparr>hcl_httpClient = \<lparr>cl_Http = example_net, Tripperware = (\<lambda>endpoint. endpoint),
        DefaultRequestOptions = []\<rparr>, hcl_urlz = ''http://svc:80'', hcl_headers = []\<rparr>"
  let ?r = "\<lparr>req_Method = ''GET'', req_URL = ''http://svc:80'', RawQuery = [], Header = [], Body = None\<rparr>"
  have tls: "\<not> UseTLS (Some tlsclient_DefaultConfig)"
    by (simp add: UseTLS_def tlsclient_DefaultConfig_def tlsclient_ApplyDefaults_def tls_ApplyDefaults_def)
  have "itoa 80 = ''80''" by code_simp
  then have new: "hc_New example_env ?cfg = Inr ?c"
    by (simp add: hc_New_def hc_Validate_def tls NewClient_def NormalizeURLFor_def Let_def example_env_def)
  have opts: "buildRequestOptions example_env [] = [Some (WithHeaders (\<lambda>h. h) [])]"
    by (simp add: buildRequestOptions_def Let_def example_env_def)
  from http_check_passes_below_400 [OF new, of ?r ?r 0] have "snd (hc_Check example_env ?c 0) \<noteq> None"
    by (simp add: opts WithHeaders_def example_net_def)
  with new show ?thesis by blast
qed

text \<open>
  An address \<open>host:port\<close> with a valid host name fills the host and port of a configuration that
  has none, the result is valid, and its URL is the scheme, the address and the path.
\<close>

theorem WithAddress_builds_url:
  assumes "isValidHostname host" "1 \<le> port" "port \<le> 65535" "hc_Host cfg = []" "hc_Port cfg = 0"
    and "hc_Scheme cfg = []" "\<not> strings_Contains (host @ '':'' @ itoa port @ hc_Path cfg) ''://''"
    and "\<And>u. parse_url E u = Inr u"
  shows "\<exists>c. WithAddress E (host @ '':'' @ itoa port) cfg = Inr c \<and> hc_Validate c = None \<and>
    NormalizeURLFor E c = Inr ((if UseTLS (Some (hc_TLSConfig cfg)) then ''https'' else ''http'') @
      ''://'' @ host @ '':'' @ itoa port @ hc_Path cfg)"
proof -
  let ?c = "cfg\<lparr>hc_Host := host, hc_Port := word_of_int (int port)\<rparr>"
  have "port < 2 ^ 63" using assms(3) by simp
  from ExtractHostPort_plain [OF hostname_plain(2-4) [OF assms(1)] this]
  have x: "ExtractHostPort (host @ '':'' @ itoa port) = (host, int port, False)" by simp
  have p: "unat (word_of_int (int port) :: u16) = port"
    using assms(3) by (simp add: unat_of_nat)
  have p0: "(word_of_int (int port) :: u16) \<noteq> 0"
    using p assms(2) by (metis not_one_le_zero unat_0)
  have "WithAddress E (host @ '':'' @ itoa port) cfg = Inr ?c"
    using assms(1-5) hostname_plain(1) [OF assms(1)] x by (simp add: WithAddress_def)
  moreover have "hc_Validate ?c = None"
    using assms(2,3,6) hostname_plain(1) [OF assms(1)] p by (simp add: hc_Validate_def)
  moreover have "NormalizeURLFor E ?c = Inr ((if UseTLS (Some (hc_TLSConfig cfg)) then ''https'' else ''http'') @
      ''://'' @ host @ '':'' @ itoa port @ hc_Path cfg)"
    using assms(6,7,8) p p0 by (cases "hc_Path cfg = []") (simp_all add: NormalizeURLFor_def Let_def)
  ultimately show ?thesis by blast
qed

theorem WithAddress_builds_url_witness:
  "\<exists>c. WithAddress example_env ''svc:80'' \<lparr>hc_Path = ''/h'', hc_Scheme = [], hc_Host = [], hc_Port = 0,
      hc_TLSConfig = tlsclient_DefaultConfig, hc_HTTPHeaders = []\<rparr> = Inr c \<and>
    NormalizeURLFor example_env c = Inr ''http://svc:80/h''"
proof -
  have i: "itoa 80 = ''80''" by code_simp
  have "isValidHostname ''svc''" "\<not> strings_Contains ''svc:80/h'' ''://''" by code_simp+
  with WithAddress_builds_url [of "''svc''" 80 "\<lparr>hc_Path = ''/h'', hc_Scheme = [], hc_Host = [],
      hc_Port = 0, hc_TLSConfig = tlsclient_DefaultConfig, hc_HTTPHeaders = []\<rparr>" example_env]
  show ?thesis
    by (auto simp: i example_env_def UseTLS_def tlsclient_DefaultConfig_def tlsclient_ApplyDefaults_def
        tls_ApplyDefaults_def)
qed

end
