(* ===== verification/Timed.thy ===== *)
theory Timed
  imports Memory "HOL-Library.Word" "HOL-Library.Log_Nat"
begin

text \<open>
  The timed store, \<open>pkg/store/utilities/timed\<close>: values with a timestamp, and a sweep that deletes
  what is older than \<open>MaxAge\<close>.

  Timestamps are Unix seconds in \<open>int64\<close>, here \<open>64 word\<close> read by \<open>sint\<close>; their difference wraps.
  Durations are nanoseconds. The state is the time of \<open>time.Now()\<close> and the state of the store
  below; the clock moves between calls only. \<open>Run\<close> gets the events its \<open>select\<close> sees, in order.
\<close>

section \<open>Items and configuration\<close>

type_synonym i64 = "64 word"

record 'v item =
  it_Value :: 'v
  Timestamp :: i64

definition NewCacheItem :: "i64 \<Rightarrow> 'v \<Rightarrow> 'v item" where
  "NewCacheItem now value = \<lparr>it_Value = value, Timestamp = now\<rparr>"

text \<open>
  \<open>int64(maxAge.Seconds())\<close>. The standard library computes \<open>float64(sec) + float64(nsec) / 1e9\<close>
  with the seconds and the nanoseconds of the duration, and the conversion truncates. A floating
  point number is an integer mantissa over a power of two: \<open>nearest\<close> is a quotient rounded to the
  nearest integer, ties to even; \<open>float_scale\<close> is the power of two that gives \<open>nsec / 1e9\<close>, which
  lies in \<open>[2^-30, 1)\<close>, its 53 bits; \<open>round53\<close> rounds a mantissa to 53 bits in its place. Seconds
  and nanoseconds have fewer than 53 bits and are exact. The sign only mirrors the computation.
\<close>

definition nearest :: "int \<Rightarrow> int \<Rightarrow> int" where
  "nearest p q =
     (let d = p div q; r = p mod q in if 2 * r < q \<or> (2 * r = q \<and> even d) then d else d + 1)"

definition round53 :: "int \<Rightarrow> int" where
  "round53 n = nearest n (2 ^ nat (bitlen n - 53)) * 2 ^ nat (bitlen n - 53)"

definition float_scale :: "int \<Rightarrow> nat" where
  "float_scale nsec = nat (83 - bitlen ((nsec * 2 ^ 30) div 1000000000))"

definition float_seconds :: "int \<Rightarrow> int \<Rightarrow> int" where
  "float_seconds sec nsec =
     (let k = float_scale nsec
      in round53 (sec * 2 ^ k + nearest (nsec * 2 ^ k) 1000000000) div 2 ^ k)"

definition whole_seconds :: "int \<Rightarrow> i64" where
  "whole_seconds d =
     word_of_int (sgn d * float_seconds (\<bar>d\<bar> div 1000000000) (\<bar>d\<bar> mod 1000000000))"

definition IsExpired :: "i64 \<Rightarrow> int \<Rightarrow> 'v item \<Rightarrow> bool" where
  "IsExpired now maxAge ci \<longleftrightarrow> sint (whole_seconds maxAge) \<le> sint (now - Timestamp ci)"

definition RefreshTimestamp :: "i64 \<Rightarrow> 'v item \<Rightarrow> 'v item" where
  "RefreshTimestamp now ci = ci\<lparr>Timestamp := now\<rparr>"

record timed_config =
  RefreshAgeOnRead :: bool
  SyncPeriod :: int
  MaxAge :: int

definition timed_DefaultConfig :: timed_config where
  "timed_DefaultConfig =
     \<lparr>RefreshAgeOnRead = False, SyncPeriod = 3600000000000, MaxAge = 3600000000000\<rparr>"

definition timed_Validate :: "timed_config option \<Rightarrow> err option" where
  "timed_Validate cfg =
     (case cfg of
        None \<Rightarrow> Some (new_error ''options cannot be nil'')
      | Some c \<Rightarrow>
          if MaxAge c \<le> 0 then Some (new_error ''MaxAgeSec must be greater than 0'')
          else if SyncPeriod c \<le> 0 then Some (new_error ''SyncPeriod must be greater than 0'')
          else None)"

section \<open>Operations\<close>

type_synonym ('s, 'k, 'v) timed_inner = "('s, 'k, 'v item) store"

definition Timed_New ::
  "timed_config option \<Rightarrow> 'st \<Rightarrow> err + timed_config \<times> 'st" where
  "Timed_New cfg backend =
     (case timed_Validate cfg of Some e \<Rightarrow> Inl e | None \<Rightarrow> Inr (the cfg, backend))"

definition Timed_NewForBuilders ::
  "timed_config option \<Rightarrow> (unit \<Rightarrow> err + 'st) \<Rightarrow> ('st \<Rightarrow> err + 'st) list \<Rightarrow> err + timed_config \<times> 'st"
where
  "Timed_NewForBuilders cfg outer others =
     (case New outer others of Inl e \<Rightarrow> Inl e | Inr st \<Rightarrow> Timed_New cfg st)"

definition Timed_Create ::
  "('s, 'k, 'v) timed_inner \<Rightarrow> opt slice \<Rightarrow> 'k \<Rightarrow> 'v \<Rightarrow> i64 \<times> 's \<Rightarrow> (i64 \<times> 's, err option) outcome" where
  "Timed_Create S opts key value = (\<lambda>(now, s).
     case Create S opts key (NewCacheItem now value) s of (s, a, r) \<Rightarrow> ((now, s), a, r))"

definition Timed_Read ::
  "timed_config \<Rightarrow> ('s, 'k, 'v) timed_inner \<Rightarrow> opt slice \<Rightarrow> 'k \<Rightarrow> i64 \<times> 's \<Rightarrow>
   (i64 \<times> 's, err + 'v) outcome" where
  "Timed_Read cfg S opts key = (\<lambda>(now, s).
     case Read S opts key s of
       (s, a, Inl e) \<Rightarrow> ((now, s), a, Inl e)
     | (s, a, Inr item) \<Rightarrow>
         if RefreshAgeOnRead cfg then
           (case Update S nil_slice key (RefreshTimestamp now item) s of
              (s, _, Some e) \<Rightarrow> ((now, s), a, Inl e)
            | (s, _, None) \<Rightarrow> ((now, s), a, Inr (it_Value item)))
         else ((now, s), a, Inr (it_Value item)))"

definition Timed_Update ::
  "('s, 'k, 'v) timed_inner \<Rightarrow> opt slice \<Rightarrow> 'k \<Rightarrow> 'v \<Rightarrow> i64 \<times> 's \<Rightarrow> (i64 \<times> 's, err option) outcome" where
  "Timed_Update S opts key value = (\<lambda>(now, s).
     case Update S opts key (NewCacheItem now value) s of (s, a, r) \<Rightarrow> ((now, s), a, r))"

definition Timed_Apply ::
  "('s, 'k, 'v) timed_inner \<Rightarrow> opt slice \<Rightarrow> 'k \<Rightarrow> 'v \<Rightarrow> i64 \<times> 's \<Rightarrow> (i64 \<times> 's, err option) outcome" where
  "Timed_Apply S opts key value = (\<lambda>(now, s).
     case Apply S opts key (NewCacheItem now value) s of (s, a, r) \<Rightarrow> ((now, s), a, r))"

definition Timed_Delete ::
  "('s, 'k, 'v) timed_inner \<Rightarrow> opt slice \<Rightarrow> 'k \<Rightarrow> i64 \<times> 's \<Rightarrow> (i64 \<times> 's, err option) outcome" where
  "Timed_Delete S opts key = (\<lambda>(now, s).
     case Delete S opts key s of (s, a, r) \<Rightarrow> ((now, s), a, r))"

definition Timed_List ::
  "('s, 'k, 'v) timed_inner \<Rightarrow> opt slice \<Rightarrow> i64 \<times> 's \<Rightarrow> (i64 \<times> 's, err + ('k, 'v) ListItems) outcome" where
  "Timed_List S opts = (\<lambda>(now, s).
     case List S opts s of
       (s, a, Inl e) \<Rightarrow> ((now, s), a, Inl e)
     | (s, a, Inr items) \<Rightarrow> ((now, s), a, Inr (map (\<lambda>(k, item). (k, it_Value item)) items)))"

definition Timed ::
  "timed_config \<Rightarrow> ('s, 'k, 'v) timed_inner \<Rightarrow> (i64 \<times> 's, 'k, 'v) store" where
  "Timed cfg S =
     \<lparr>Create = Timed_Create S, Read = Timed_Read cfg S, Update = Timed_Update S,
      Apply = Timed_Apply S, Delete = Timed_Delete S, List = Timed_List S\<rparr>"

definition ReadEntry ::
  "('s, 'k, 'v) timed_inner \<Rightarrow> opt slice \<Rightarrow> 'k \<Rightarrow> i64 \<times> 's \<Rightarrow> (i64 \<times> 's, err + 'v item) outcome" where
  "ReadEntry S opts key = (\<lambda>(now, s).
     case Read S opts key s of (s, a, r) \<Rightarrow> ((now, s), a, r))"

section \<open>The sweep\<close>

fun DeleteItemsOlderThan_loop ::
  "('s, 'k, 'v) timed_inner \<Rightarrow> i64 \<Rightarrow> int \<Rightarrow> ('k, 'v item) ListItems \<Rightarrow> 's \<Rightarrow> 's \<times> err option" where
  "DeleteItemsOlderThan_loop S now maxAge [] s = (s, None)"
| "DeleteItemsOlderThan_loop S now maxAge ((k, item) # items) s =
     (if IsExpired now maxAge item then
        (case Delete S nil_slice k s of
           (s, _, Some e) \<Rightarrow> (s, Some e)
         | (s, _, None) \<Rightarrow> DeleteItemsOlderThan_loop S now maxAge items s)
      else DeleteItemsOlderThan_loop S now maxAge items s)"

definition DeleteItemsOlderThan ::
  "('s, 'k, 'v) timed_inner \<Rightarrow> int \<Rightarrow> i64 \<times> 's \<Rightarrow> (i64 \<times> 's) \<times> err option" where
  "DeleteItemsOlderThan S maxAge = (\<lambda>(now, s).
     case List S nil_slice s of
       (s, _, Inl e) \<Rightarrow> ((now, s), Some e)
     | (s, _, Inr items) \<Rightarrow>
         (case DeleteItemsOlderThan_loop S now maxAge items s of (s, r) \<Rightarrow> ((now, s), r)))"

text \<open>
  \<open>Run\<close>: each event is a tick of the ticker at some time or the end of the context. The result
  \<open>None\<close> means that it is still waiting after the last event. The function of \<open>WithFunc\<close> is looked
  up by its number.
\<close>

datatype timed_event = CtxDone | TickAt i64

fun is_do_func :: "opt \<Rightarrow> bool" where
  "is_do_func (ODoFunc _) = True"
| "is_do_func _ = False"

definition WithFunc :: "nat \<Rightarrow> opt" where
  "WithFunc f = ODoFunc f"

definition matchWithFunc :: "opt slice \<Rightarrow> nat option \<times> opt slice" where
  "matchWithFunc opts =
     (case MatchOption is_do_func False opts of
        (Some (ODoFunc f), opts) \<Rightarrow> (Some f, opts) | (_, opts) \<Rightarrow> (None, opts))"

fun Timed_Run_loop ::
  "timed_config \<Rightarrow> ('s, 'k, 'v) timed_inner \<Rightarrow> (i64 \<times> 's \<Rightarrow> (i64 \<times> 's) \<times> err option) option \<Rightarrow>
   timed_event list \<Rightarrow> i64 \<times> 's \<Rightarrow> (i64 \<times> 's) \<times> err option option" where
  "Timed_Run_loop cfg S do' [] s = (s, None)"
| "Timed_Run_loop cfg S do' (CtxDone # es) s = (s, Some None)"
| "Timed_Run_loop cfg S do' (TickAt t # es) s =
     (case (case do' of None \<Rightarrow> ((t, snd s), None) | Some f \<Rightarrow> f (t, snd s)) of
        (s, Some e) \<Rightarrow> (s, Some (Some e))
      | (s, None) \<Rightarrow>
          (case DeleteItemsOlderThan S (MaxAge cfg) s of
             (s, Some e) \<Rightarrow> (s, Some (Some e))
           | (s, None) \<Rightarrow> Timed_Run_loop cfg S do' es s))"

definition Timed_Run ::
  "(nat \<Rightarrow> i64 \<times> 's \<Rightarrow> (i64 \<times> 's) \<times> err option) \<Rightarrow> timed_config \<Rightarrow> ('s, 'k, 'v) timed_inner \<Rightarrow>
   opt slice \<Rightarrow> timed_event list \<Rightarrow> i64 \<times> 's \<Rightarrow> (i64 \<times> 's) \<times> err option option" where
  "Timed_Run funcs cfg S opts es s =
     (case matchWithFunc opts of (f, _) \<Rightarrow> Timed_Run_loop cfg S (map_option funcs f) es s)"

lemmas Timed_defs = Timed_def Timed_Create_def Timed_Read_def Timed_Update_def Timed_Apply_def
  Timed_Delete_def Timed_List_def

section \<open>Ages\<close>

text \<open>Within the times a clock can show the difference does not wrap.\<close>

definition clock_range :: "i64 \<Rightarrow> bool" where
  "clock_range t \<longleftrightarrow> 0 \<le> sint t"

lemma sint_age:
  assumes "clock_range now" "clock_range t"
  shows "sint (now - t) = sint now - sint t"
proof -
  have "- (2 ^ 63) \<le> sint now - sint t \<and> sint now - sint t < 2 ^ 63"
    using assms sint_lt [of now] sint_lt [of t] by (simp add: clock_range_def)
  then show ?thesis by (simp add: sint_word_ariths(2) signed_take_bit_int_eq_self)
qed

section \<open>Whole seconds\<close>

text \<open>
  The floating point detour yields the whole seconds or one more, and exactly the whole seconds
  below \<open>2^24\<close> of them, about 194 days.
\<close>

lemma nearest_bounds:
  assumes "0 < q"
  shows "a * q \<le> p \<Longrightarrow> a \<le> nearest p q" "p \<le> b * q \<Longrightarrow> nearest p q \<le> b"
    "2 * (nearest p q * q) \<le> 2 * p + q"
proof -
  have pq: "p = p div q * q + p mod q" "0 \<le> p mod q" "p mod q < q" using assms by simp_all
  show "a \<le> nearest p q" if "a * q \<le> p"
  proof -
    have "a * q div q \<le> p div q" using that assms by (rule zdiv_mono1)
    then show ?thesis using assms by (simp add: nearest_def Let_def)
  qed
  show "nearest p q \<le> b" if le: "p \<le> b * q"
  proof -
    have div: "p div q \<le> b" using zdiv_mono1 [OF le assms] assms by simp
    show ?thesis
    proof (cases "p div q = b")
      case True
      then have "p mod q = 0" using pq le by auto
      with True assms show ?thesis by (simp add: nearest_def)
    qed (use div in \<open>simp add: nearest_def Let_def\<close>)
  qed
  have "nearest p q * q \<le> p \<or> (nearest p q * q = p - p mod q + q \<and> q \<le> 2 * (p mod q))"
  proof -
    obtain d r where dr: "p div q = d" "p mod q = r" "p = d * q + r" using pq(1) by blast
    with pq(2) show ?thesis by (simp add: nearest_def Let_def distrib_right)
  qed
  then show "2 * (nearest p q * q) \<le> 2 * p + q" using assms by linarith
qed

lemma zdiv_lessI:
  fixes p q k :: int
  assumes "0 < q" "p < k * q"
  shows "p div q < k"
proof (rule ccontr)
  assume "\<not> p div q < k"
  then have "k * q \<le> p div q * q" using assms(1) by simp
  also have "\<dots> \<le> p" using div_mult_mod_eq [of p q] pos_mod_sign [OF assms(1), of p] by linarith
  finally show False using assms(2) by simp
qed

lemma float_scale_ge:
  assumes "0 \<le> nsec" "nsec < 1000000000"
  shows "53 \<le> float_scale nsec"
proof -
  have "(nsec * 2 ^ 30) div 1000000000 < 2 ^ 30" using assms by (intro zdiv_lessI) simp_all
  then have "bitlen ((nsec * 2 ^ 30) div 1000000000) \<le> 30"
    by (simp add: bitlen_le_iff_power)
  then show ?thesis by (simp add: float_scale_def)
qed

lemma round53_ge:
  assumes "bitlen n \<le> int k + 53" "a * 2 ^ k \<le> n"
  shows "a * 2 ^ k \<le> round53 n"
proof -
  have s: "(2 :: int) ^ k = 2 ^ (k - nat (bitlen n - 53)) * 2 ^ nat (bitlen n - 53)"
    using assms(1) by (simp flip: power_add)
  show ?thesis
    using nearest_bounds(1) [of "2 ^ nat (bitlen n - 53)" "a * 2 ^ (k - nat (bitlen n - 53))" n] assms(2)
    by (simp add: round53_def s mult.assoc [symmetric])
qed

lemma round53_le:
  assumes "bitlen n \<le> int k + 53" "n \<le> b * 2 ^ k"
  shows "round53 n \<le> b * 2 ^ k"
proof -
  have s: "(2 :: int) ^ k = 2 ^ (k - nat (bitlen n - 53)) * 2 ^ nat (bitlen n - 53)"
    using assms(1) by (simp flip: power_add)
  show ?thesis
    using nearest_bounds(2) [of "2 ^ nat (bitlen n - 53)" n "b * 2 ^ (k - nat (bitlen n - 53))"] assms(2)
    by (simp add: round53_def s mult.assoc [symmetric])
qed

lemma bitlen_sum_le:
  assumes "0 \<le> n" "n \<le> (sec + 1) * 2 ^ k" "0 \<le> sec" "sec + 1 < 2 ^ b"
  shows "bitlen n \<le> int k + int b"
proof -
  have "(sec + 1) * 2 ^ k < 2 ^ b * 2 ^ k" using assms(4) by simp
  with assms(2) have "n < 2 ^ b * 2 ^ k" by (rule le_less_trans)
  then have "n < 2 ^ (k + b)" by (simp add: power_add mult.commute)
  then show ?thesis by (simp add: bitlen_le_iff_power nat_add_distrib)
qed

lemma float_seconds_bounds:
  assumes "0 \<le> sec" "sec + 1 < 2 ^ 53" "0 \<le> nsec" "nsec < 1000000000"
  shows "sec \<le> float_seconds sec nsec" "float_seconds sec nsec \<le> sec + 1"
proof -
  let ?k = "float_scale nsec"
  let ?m = "nearest (nsec * 2 ^ ?k) 1000000000"
  let ?n = "sec * 2 ^ ?k + ?m"
  have m: "0 \<le> ?m" "?m \<le> 2 ^ ?k"
    using nearest_bounds(1) [of 1000000000 0 "nsec * 2 ^ ?k"]
      nearest_bounds(2) [of 1000000000 "nsec * 2 ^ ?k" "2 ^ ?k"] assms(3,4) by simp_all
  have n: "sec * 2 ^ ?k \<le> ?n" "?n \<le> (sec + 1) * 2 ^ ?k" using m by (simp_all add: algebra_simps)
  have "0 \<le> ?n" using n(1) assms(1) by (meson order_trans zero_le_mult_iff zero_le_power zero_le_numeral)
  with bitlen_sum_le [OF _ n(2) assms(1,2)] have b: "bitlen ?n \<le> int ?k + 53" by simp
  have "sec * 2 ^ ?k div 2 ^ ?k \<le> round53 ?n div 2 ^ ?k"
    by (rule zdiv_mono1 [OF round53_ge [OF b n(1)]]) simp
  then show "sec \<le> float_seconds sec nsec" by (simp add: float_seconds_def Let_def)
  have "round53 ?n div 2 ^ ?k \<le> (sec + 1) * 2 ^ ?k div 2 ^ ?k"
    by (rule zdiv_mono1 [OF round53_le [OF b n(2)]]) simp
  then show "float_seconds sec nsec \<le> sec + 1" by (simp add: float_seconds_def Let_def)
qed

lemma rounding_slack:
  fixes R S m e K N :: int
  assumes "2 * R \<le> 2 * (S + m) + e" "536870912 * e \<le> K" "2 * (m * 1000000000) \<le> 2 * N + 1000000000"
    "N \<le> 999999999 * K" "9007199254740992 \<le> K"
  shows "R < S + K"
proof (rule ccontr)
  assume "\<not> R < S + K"
  with assms(1) have "2 * K \<le> 2 * m + e" by (simp add: distrib_left)
  then have "2000000000 * K \<le> 2 * (m * 1000000000) + 1000000000 * e" by linarith
  with assms(3,4) have "2 * K \<le> 1000000000 + 1000000000 * e" by linarith
  with assms(2,5) show False by linarith
qed

lemma float_seconds_exact:
  assumes "0 \<le> sec" "sec < 2 ^ 24" "0 \<le> nsec" "nsec < 1000000000"
  shows "float_seconds sec nsec = sec"
proof -
  let ?k = "float_scale nsec"
  let ?m = "nearest (nsec * 2 ^ ?k) 1000000000"
  let ?n = "sec * 2 ^ ?k + ?m"
  have k: "53 \<le> ?k" using assms(3,4) by (rule float_scale_ge)
  have m: "0 \<le> ?m" "2 * (?m * 1000000000) \<le> 2 * (nsec * 2 ^ ?k) + 1000000000"
    using nearest_bounds(1) [of 1000000000 0 "nsec * 2 ^ ?k"]
      nearest_bounds(3) [of 1000000000 "nsec * 2 ^ ?k"] assms(3) by simp_all
  have "(2 :: int) ^ 53 \<le> 2 ^ ?k" using k by (rule power_increasing) simp
  then have big: "9007199254740992 \<le> (2 :: int) ^ ?k" by simp
  have ns: "nsec * 2 ^ ?k \<le> 999999999 * 2 ^ ?k" using assms(4) by simp
  have lt: "?m < 2 ^ ?k" using m(2) ns big by linarith
  have "sec * 2 ^ ?k \<le> 16777215 * 2 ^ ?k" using assms(2) by (intro mult_right_mono) simp_all
  with lt have "?n < 16777216 * 2 ^ ?k" by linarith
  moreover have "0 \<le> sec * 2 ^ ?k" using assms(1) by simp
  ultimately have n: "0 \<le> ?n" "?n < 2 ^ (24 + ?k)" using m(1) by (simp_all add: power_add)
  let ?s = "nat (bitlen ?n - 53)"
  have "bitlen ?n \<le> int (24 + ?k)" using n(2) by (simp only: bitlen_le_iff_power nat_int of_nat_0_le_iff)
  then have s: "?s \<le> ?k - 29" using k by linarith
  have "29 \<le> ?k" using k by simp
  have "(2 :: int) ^ ?s \<le> 2 ^ (?k - 29)" using s by (rule power_increasing) simp
  then have p: "536870912 * (2 :: int) ^ ?s \<le> 2 ^ ?k"
    using power_add [of "2 :: int" "?k - 29" 29] k by simp
  have r: "2 * round53 ?n \<le> 2 * ?n + 2 ^ ?s"
    using nearest_bounds(3) [of "2 ^ ?s" ?n] by (simp add: round53_def)
  have "round53 ?n < (sec + 1) * 2 ^ ?k"
    using rounding_slack [OF r p m(2) ns big] by (simp add: distrib_right)
  then have "round53 ?n div 2 ^ ?k < sec + 1" by (rule zdiv_lessI [rotated]) simp
  with float_seconds_bounds(1) [of sec nsec] assms show ?thesis
    by (simp add: float_seconds_def Let_def)
qed

lemma whole_seconds_bounds:
  assumes "0 < d" "d < 2 ^ 63"
  shows "d div 1000000000 \<le> sint (whole_seconds d)" "sint (whole_seconds d) \<le> d div 1000000000 + 1"
    "d < 2 ^ 24 * 1000000000 \<Longrightarrow> sint (whole_seconds d) = d div 1000000000"
proof -
  have sec: "0 \<le> d div 1000000000" "d div 1000000000 + 1 < 2 ^ 53" using assms by simp_all
  have nsec: "0 \<le> d mod 1000000000" "d mod 1000000000 < 1000000000" by simp_all
  note b = float_seconds_bounds [OF sec nsec]
  have "sint (whole_seconds d) = float_seconds (d div 1000000000) (d mod 1000000000)"
    using b sec assms(1) by (simp add: whole_seconds_def sint_sbintrunc' signed_take_bit_int_eq_self)
  with b float_seconds_exact [OF sec(1) _ nsec]
  show "d div 1000000000 \<le> sint (whole_seconds d)" "sint (whole_seconds d) \<le> d div 1000000000 + 1"
    "d < 2 ^ 24 * 1000000000 \<Longrightarrow> sint (whole_seconds d) = d div 1000000000"
    by (auto intro: zdiv_lessI)
qed

text \<open>The computation rounds up where the seconds leave too few bits for the nanoseconds.\<close>

lemma whole_seconds_rounds_up: "whole_seconds 16777216999999999 = 16777217"
  by code_simp

section \<open>The contract\<close>

definition timed_abs :: "('k \<Rightarrow> 'v item option) \<Rightarrow> 'k \<Rightarrow> 'v option" where
  "timed_abs m k = map_option it_Value (m k)"

lemma timed_abs_simps [simp]:
  "timed_abs (m(k \<mapsto> d)) = (timed_abs m)(k \<mapsto> it_Value d)"
  "timed_abs (m(k := None)) = (timed_abs m)(k := None)"
  "timed_abs m k = None \<longleftrightarrow> m k = None"
  "timed_abs m k = Some v \<longleftrightarrow> (\<exists>d. m k = Some d \<and> v = it_Value d)"
  by (auto simp: timed_abs_def fun_eq_iff)

lemma timed_items_listing:
  assumes "listing m items"
  shows "listing (timed_abs m) (map (\<lambda>(k, item). (k, it_Value item)) items)"
proof -
  have "map_of (map (\<lambda>(k, item). (k, it_Value item)) items) = timed_abs (map_of items)"
    by (simp add: map_of_map timed_abs_def fun_eq_iff comp_def)
  moreover have "map fst (map (\<lambda>(k, item). (k, it_Value item)) items) = map fst items"
    by (rule map_fst_blank)
  ultimately show ?thesis using assms by (simp only: listing_def)
qed

lemma refresh_abs: "m k = Some d \<Longrightarrow> (timed_abs m)(k \<mapsto> it_Value d) = timed_abs m"
  by (simp add: fun_upd_idem timed_abs_def)

text \<open>A timed store over a store that keeps its contract is a map of the plain values.\<close>

lemma Timed_contract:
  assumes S: "kv_store S abst I kok (\<lambda>_ _. True)"
  shows "kv_store (Timed cfg S) (\<lambda>(now, s). timed_abs (abst s)) (\<lambda>(now, s). I s) kok (\<lambda>_ _. True)"
proof (unfold_locales, goal_cases)
  case (1 s k) then show ?case using kv_store.dom_ok [OF S] by (auto split: prod.splits)
next
  case (2 s k v s' a r)
  obtain now st where s: "s = (now, st)" by (cases s)
  obtain s1 a1 r1 where e: "Create S nil_slice k (NewCacheItem now v) st = (s1, a1, r1)" by (metis prod_cases3)
  with 2 s kv_store.create_new [OF S _ _ _ _ e] show ?case
    by (auto simp: Timed_defs NewCacheItem_def)
next
  case (3 s k v s' a r)
  obtain now st where s: "s = (now, st)" by (cases s)
  obtain s1 a1 r1 where e: "Create S nil_slice k (NewCacheItem now v) st = (s1, a1, r1)" by (metis prod_cases3)
  with 3 s kv_store.create_dup [OF S _ _ _ _ e] show ?case by (auto simp: Timed_defs)
next
  case (4 s k v s' a r)
  obtain now st where s: "s = (now, st)" by (cases s)
  obtain s1 a1 r1 where e: "Read S nil_slice k st = (s1, a1, r1)" by (metis prod_cases3)
  from 4(3) s obtain d where d: "abst st k = Some d" "v = it_Value d" by auto
  with 4 s kv_store.read_found [OF S _ _ _ e] have r1: "r1 = Inr d" "I s1" "abst s1 = abst st" by auto
  obtain s2 a2 r2 where u: "Update S nil_slice k (RefreshTimestamp now d) s1 = (s2, a2, r2)"
    by (metis prod_cases3)
  with 4 r1 d kv_store.update_found [OF S _ _ _ _ u]
  have "r2 = None" "I s2" "abst s2 = (abst st)(k \<mapsto> RefreshTimestamp now d)" by auto
  with 4 s e r1 d u refresh_abs [of "abst st" k d] show ?case
    by (auto simp: Timed_defs RefreshTimestamp_def split: if_splits)
next
  case (5 s k s' a r)
  obtain now st where s: "s = (now, st)" by (cases s)
  obtain s1 a1 r1 where e: "Read S nil_slice k st = (s1, a1, r1)" by (metis prod_cases3)
  with 5 s kv_store.read_missing [OF S _ _ _ e] show ?case by (auto simp: Timed_defs isl_def)
next
  case (6 s k v s' a r)
  obtain now st where s: "s = (now, st)" by (cases s)
  obtain s1 a1 r1 where e: "Update S nil_slice k (NewCacheItem now v) st = (s1, a1, r1)" by (metis prod_cases3)
  with 6 s kv_store.update_found [OF S _ _ _ _ e] show ?case by (auto simp: Timed_defs NewCacheItem_def)
next
  case (7 s k v s' a r)
  obtain now st where s: "s = (now, st)" by (cases s)
  obtain s1 a1 r1 where e: "Update S nil_slice k (NewCacheItem now v) st = (s1, a1, r1)" by (metis prod_cases3)
  with 7 s kv_store.update_missing [OF S _ _ _ _ e] show ?case by (auto simp: Timed_defs)
next
  case (8 s k v s' a r)
  obtain now st where s: "s = (now, st)" by (cases s)
  obtain s1 a1 r1 where e: "Apply S nil_slice k (NewCacheItem now v) st = (s1, a1, r1)" by (metis prod_cases3)
  with 8 s kv_store.apply_ok [OF S _ _ _ e] show ?case by (auto simp: Timed_defs NewCacheItem_def)
next
  case (9 s k s' a r)
  obtain now st where s: "s = (now, st)" by (cases s)
  obtain s1 a1 r1 where e: "Delete S nil_slice k st = (s1, a1, r1)" by (metis prod_cases3)
  with 9 s kv_store.delete_found [OF S _ _ _ e] show ?case by (auto simp: Timed_defs)
next
  case (10 s k s' a r)
  obtain now st where s: "s = (now, st)" by (cases s)
  obtain s1 a1 r1 where e: "Delete S nil_slice k st = (s1, a1, r1)" by (metis prod_cases3)
  with 10 s kv_store.delete_missing [OF S _ _ _ e] show ?case by (auto simp: Timed_defs)
next
  case (11 s s' a r)
  obtain now st where s: "s = (now, st)" by (cases s)
  obtain s1 a1 r1 where e: "List S nil_slice st = (s1, a1, r1)" by (metis prod_cases3)
  with 11 s kv_store.list_ok [OF S _ e] obtain items where
    "r1 = Inr items" "listing (abst st) items" "I s1" "abst s1 = abst st" by auto
  with 11 s e timed_items_listing [of "abst st" items] show ?case by (auto simp: Timed_defs)
qed

section \<open>The sweep over a map\<close>

definition young :: "i64 \<Rightarrow> int \<Rightarrow> ('k \<Rightarrow> 'v item option) \<Rightarrow> 'k \<Rightarrow> 'v item option" where
  "young now maxAge m k =
     (case m k of None \<Rightarrow> None | Some item \<Rightarrow> if IsExpired now maxAge item then None else Some item)"

lemma sweep_loop_ok:
  assumes S: "kv_store S abst I kok (\<lambda>_ _. True)"
  shows "I s \<Longrightarrow> wf_map items \<Longrightarrow> \<forall>(k, item) \<in> set items. abst s k = Some item \<Longrightarrow>
    DeleteItemsOlderThan_loop S now maxAge items s = (s', r) \<Longrightarrow>
    r = None \<and> I s' \<and> abst s' =
      (\<lambda>k. case map_of items k of Some item \<Rightarrow> young now maxAge (abst s) k | None \<Rightarrow> abst s k)"
proof (induction items arbitrary: s)
  case (Cons x items)
  obtain k item where x: "x = (k, item)" by (cases x)
  have k: "abst s k = Some item" "map_of items k = None"
    using Cons.prems(2,3) x by (auto simp: map_of_eq_None)
  show ?case
  proof (cases "IsExpired now maxAge item")
    case True
    obtain s1 a1 r1 where d: "Delete S nil_slice k s = (s1, a1, r1)" by (metis prod_cases3)
    have kok: "kok k" using kv_store.dom_ok [OF S Cons.prems(1), of k] k(1) by simp
    have s1: "r1 = None" "I s1" "abst s1 = (abst s)(k := None)"
      using kv_store.delete_found [OF S Cons.prems(1) kok _ d] k(1) by auto
    have rest: "\<forall>(k', item) \<in> set items. abst s1 k' = Some item"
      using Cons.prems(2,3) x s1(3) by (force simp: map_of_eq_None)
    have "DeleteItemsOlderThan_loop S now maxAge items s1 = (s', r)"
      using Cons.prems(4) x True d s1(1) by simp
    from Cons.IH [OF s1(2) _ rest this] Cons.prems(2) x
    have r: "r = None" "I s'" "abst s' = (\<lambda>k. case map_of items k of
        Some item \<Rightarrow> young now maxAge (abst s1) k | None \<Rightarrow> abst s1 k)" by auto
    have "abst s' j = (case map_of (x # items) j of
        Some item \<Rightarrow> young now maxAge (abst s) j | None \<Rightarrow> abst s j)" for j
      using True k by (simp add: r(3) s1(3) x young_def split: option.split)
    with r(1,2) show ?thesis by auto
  next
    case False
    with Cons x have r: "r = None" "I s'" "abst s' = (\<lambda>k. case map_of items k of
        Some item \<Rightarrow> young now maxAge (abst s) k | None \<Rightarrow> abst s k)" by auto
    have "abst s' j = (case map_of (x # items) j of
        Some item \<Rightarrow> young now maxAge (abst s) j | None \<Rightarrow> abst s j)" for j
      using False k by (simp add: r(3) x young_def)
    with r(1,2) show ?thesis by auto
  qed
qed simp

lemma sweep_ok:
  assumes S: "kv_store S abst I kok (\<lambda>_ _. True)" and "I s"
    and "DeleteItemsOlderThan S maxAge (now, s) = (ns', r)"
  shows "r = None \<and> fst ns' = now \<and> I (snd ns') \<and> abst (snd ns') = young now maxAge (abst s)"
proof -
  obtain s1 a1 r1 where l: "List S nil_slice s = (s1, a1, r1)" by (metis prod_cases3)
  with kv_store.list_ok [OF S assms(2) l] obtain items where
    i: "r1 = Inr items" "listing (abst s) items" "I s1" "abst s1 = abst s" by auto
  obtain s2 r2 where d: "DeleteItemsOlderThan_loop S now maxAge items s1 = (s2, r2)"
    by (cases "DeleteItemsOlderThan_loop S now maxAge items s1")
  have m: "map_of items = abst s" "wf_map items" using i(2) by (simp_all add: listing_def)
  have "\<forall>(k, item) \<in> set items. abst s1 k = Some item"
    using m i(4) by (auto simp: map_of_in_set)
  with sweep_loop_ok [OF S i(3) m(2) _ d]
  have "r2 = None" "I s2" "abst s2 = young now maxAge (abst s)"
    by (auto simp: i(4) m(1) young_def fun_eq_iff split: option.split)
  with assms(3) l i(1) d show ?thesis by (auto simp: DeleteItemsOlderThan_def)
qed

text \<open>The ticks a run sees before its context ends, and whether it ends.\<close>

fun ticks :: "timed_event list \<Rightarrow> i64 list" where
  "ticks (TickAt t # es) = t # ticks es"
| "ticks _ = []"

lemma Run_loop_ok:
  assumes S: "kv_store S abst I kok (\<lambda>_ _. True)"
  shows "I s \<Longrightarrow> Timed_Run_loop cfg S None es (now, s) = (ns', r) \<Longrightarrow>
    I (snd ns') \<and> abst (snd ns') = fold (\<lambda>t. young t (MaxAge cfg)) (ticks es) (abst s) \<and>
    r = (if CtxDone \<in> set es then Some None else None)"
proof (induction es arbitrary: now s)
  case (Cons e es)
  show ?case
  proof (cases e)
    case (TickAt t)
    obtain ns1 r1 where d: "DeleteItemsOlderThan S (MaxAge cfg) (t, s) = (ns1, r1)"
      by (cases "DeleteItemsOlderThan S (MaxAge cfg) (t, s)")
    from sweep_ok [OF S Cons.prems(1) d]
    have o: "r1 = None" "I (snd ns1)" "abst (snd ns1) = young t (MaxAge cfg) (abst s)" by auto
    obtain t1 s1 where ns1: "ns1 = (t1, s1)" by (cases ns1)
    have "Timed_Run_loop cfg S None es (t1, s1) = (ns', r)"
      using Cons.prems(2) TickAt d o(1) ns1 by simp
    from Cons.IH [OF _ this] o ns1 TickAt show ?thesis by simp
  qed (use Cons in auto)
qed auto

section \<open>Properties\<close>

text \<open>
  C17. A sweep of a memory store deletes exactly the entries whose age has reached the seconds that
  \<open>IsExpired\<close> computes from \<open>MaxAge\<close>, and reports no error. These are its whole seconds, or one
  more where the floating point sum rounds up, which needs a \<open>MaxAge\<close> of at least \<open>2^24\<close> seconds.
  Clock times do not overflow the 64-bit difference; with a \<open>MaxAge\<close> below one second, which
  \<open>Validate\<close> accepts, even the entries written in that very second go.
\<close>

theorem Timed_sweep_bounds_age:
  assumes "wf_map m" "0 < maxAge" "maxAge < 2 ^ 63" "clock_range now"
    and "\<forall>item \<in> snd ` set m. clock_range (Timestamp item)"
  shows "\<exists>m'. DeleteItemsOlderThan (Memory as_string zero) maxAge (now, m) = ((now, m'), None) \<and>
    (\<forall>k item. map_of m' k = Some item \<longleftrightarrow> map_of m k = Some item \<and>
      sint now - sint (Timestamp item) < sint (whole_seconds maxAge)) \<and>
    maxAge div 1000000000 \<le> sint (whole_seconds maxAge) \<and>
    sint (whole_seconds maxAge) \<le> maxAge div 1000000000 + 1 \<and>
    (maxAge < 2 ^ 24 * 1000000000 \<longrightarrow> sint (whole_seconds maxAge) = maxAge div 1000000000) \<and>
    (maxAge < 1000000000 \<longrightarrow> (\<forall>item \<in> snd ` set m. Timestamp item = now) \<longrightarrow> map_of m' = Map.empty)"
proof -
  obtain ns' r where d: "DeleteItemsOlderThan (Memory as_string zero) maxAge (now, m) = (ns', r)"
    by (cases "DeleteItemsOlderThan (Memory as_string zero) maxAge (now, m)")
  from sweep_ok [OF mem.kv_store_axioms assms(1) d]
  have r: "r = None" "fst ns' = now" "map_of (snd ns') = young now maxAge (map_of m)" by auto
  note secs = whole_seconds_bounds [OF assms(2,3)]
  have item: "IsExpired now maxAge item \<longleftrightarrow>
      sint (whole_seconds maxAge) \<le> sint now - sint (Timestamp item)"
    if "map_of m k = Some item" for k item
  proof -
    have "clock_range (Timestamp item)" using that assms(5) by (force dest: map_of_SomeD)
    with assms(4) show ?thesis by (simp add: IsExpired_def sint_age)
  qed
  have exact: "map_of (snd ns') k = Some item \<longleftrightarrow> map_of m k = Some item \<and>
      sint now - sint (Timestamp item) < sint (whole_seconds maxAge)" for k item
    using item [of k item] by (auto simp: r(3) young_def split: option.split if_splits)
  have "map_of (snd ns') = Map.empty"
    if "maxAge < 1000000000" "\<forall>item \<in> snd ` set m. Timestamp item = now"
  proof (rule ccontr)
    assume "map_of (snd ns') \<noteq> Map.empty"
    then obtain k where "map_of (snd ns') k \<noteq> None" by blast
    then obtain it where it: "map_of (snd ns') k = Some it" by auto
    with exact have "map_of m k = Some it"
      "sint now - sint (Timestamp it) < sint (whole_seconds maxAge)" by auto
    moreover from this(1) that(2) have "Timestamp it = now" by (force dest: map_of_SomeD)
    moreover have "sint (whole_seconds maxAge) = 0" using secs(3) that(1) assms(2) by simp
    ultimately show False by simp
  qed
  with d r(1,2) exact secs show ?thesis by (cases ns') auto
qed

theorem Timed_sweep_bounds_age_witness:
  "\<exists>m'. DeleteItemsOlderThan (Memory None undefined) 5000000000
      (100, [(1 :: nat, \<lparr>it_Value = ''old'', Timestamp = 95\<rparr>), (2, \<lparr>it_Value = ''new'', Timestamp = 96\<rparr>)]) =
      ((100, m'), None) \<and> map_of m' 1 = None \<and> map_of m' 2 = Some \<lparr>it_Value = ''new'', Timestamp = 96\<rparr>"
proof -
  let ?m = "[(1 :: nat, \<lparr>it_Value = ''old'', Timestamp = 95\<rparr>), (2, \<lparr>it_Value = ''new'', Timestamp = 96\<rparr>)]"
  obtain m' where m': "DeleteItemsOlderThan (Memory None undefined) 5000000000 (100, ?m) = ((100, m'), None)"
    "\<And>k item. map_of m' k = Some item \<longleftrightarrow> map_of ?m k = Some item \<and>
      sint (100 :: i64) - sint (Timestamp item) < sint (whole_seconds 5000000000)"
    "sint (whole_seconds 5000000000) = 5"
    using Timed_sweep_bounds_age [of ?m 5000000000 100 None undefined] by (auto simp: clock_range_def)
  have "map_of m' 1 = None" using m'(2) [of 1] m'(3) by (cases "map_of m' 1") auto
  moreover have "map_of m' 2 = Some \<lparr>it_Value = ''new'', Timestamp = 96\<rparr>" using m'(2,3) by simp
  ultimately show ?thesis using m'(1) by blast
qed

text \<open>
  The maintenance loop over a memory store: it never fails, it returns exactly when its context
  ends, and it leaves what every sweep has left, nothing else touched.
\<close>

theorem Timed_Run_sweeps:
  assumes "wf_map m"
  shows "\<exists>now' m'. Timed_Run funcs cfg (Memory as_string zero) nil_slice es (now, m) =
      ((now', m'), if CtxDone \<in> set es then Some None else None) \<and> wf_map m' \<and>
    map_of m' = fold (\<lambda>t. young t (MaxAge cfg)) (ticks es) (map_of m)"
proof -
  obtain ns' r where d: "Timed_Run_loop cfg (Memory as_string zero) None es (now, m) = (ns', r)"
    by (cases "Timed_Run_loop cfg (Memory as_string zero) None es (now, m)")
  from Run_loop_ok [OF mem.kv_store_axioms assms d] d show ?thesis
    by (cases ns') (simp add: Timed_Run_def matchWithFunc_def)
qed

theorem Timed_Run_sweeps_witness:
  "\<exists>now' m'. Timed_Run (\<lambda>_ s. (s, None)) timed_DefaultConfig (Memory None undefined) nil_slice
     [TickAt 3600, CtxDone] (0, [(1 :: nat, \<lparr>it_Value = ''a'', Timestamp = 0\<rparr>)]) = ((now', m'), Some None) \<and>
   map_of m' = Map.empty"
proof -
  let ?m = "[(1 :: nat, \<lparr>it_Value = ''a'', Timestamp = 0\<rparr>)]"
  have e: "IsExpired 3600 3600000000000 \<lparr>it_Value = ''a'', Timestamp = 0\<rparr>"
    by code_simp
  have "young 3600 3600000000000 (map_of ?m) = Map.empty"
    by (simp add: young_def fun_eq_iff e)
  with Timed_Run_sweeps [of ?m "\<lambda>_ s. (s, None)" timed_DefaultConfig None undefined
      "[TickAt 3600, CtxDone]" 0]
  show ?thesis by (simp add: timed_DefaultConfig_def)
qed

end
