(* ===== verification/Health.thy ===== *)
theory Health
  imports Probes Timed
begin

text \<open>
  The health check, \<open>pkg/healthcheck\<close>: jobs registered for endpoints, a cache of their last results
  that a background loop fills, and the handlers that answer from the cache.

  The cache is the timed store over a memory store (its thread-safe layer changes no result), keyed
  by position. The state a handler changes is the cache with the Unix time of the call.
\<close>

section \<open>Configuration\<close>

type_synonym endpoint_path = string

definition RootEndpoint :: endpoint_path where
  "RootEndpoint = ''/''"

definition HealthEndpoint :: endpoint_path where
  "HealthEndpoint = ''/healthz''"

definition ReadyEndpoint :: endpoint_path where
  "ReadyEndpoint = ''/readyz''"

definition StatusEndpoint :: endpoint_path where
  "StatusEndpoint = ''/status''"

record component_info =
  ci_Enabled :: bool
  ci_Name :: string
  ci_Version :: string
  ci_Environment :: string

text \<open>The fields of a job with its handler configuration; a custom handler is a function.\<close>

record ('w, 'c, 'k) hjob_config =
  hj_Config :: job_config
  HTTPGet :: "http_check_config option"
  OK :: bool
  Telnet :: "telnet_config option"
  hj_CustomHandler :: "'w check option"
  Endpoints :: "endpoint_path list"

record ('w, 'c, 'k) hconfig =
  hcfg_Jobs :: "('w, 'c, 'k) hjob_config list"
  hcfg_Interval :: int
  hcfg_CacheConfig :: timed_config
  hcfg_SystemInfo :: bool
  hcfg_Component :: "component_info option"

text \<open>Sums of durations wrap in \<open>int64\<close>.\<close>

definition wrap64 :: "int \<Rightarrow> int" where
  "wrap64 x = sint (word_of_int x :: i64)"

lemma wrap64_id: "- (2 ^ 63) \<le> x \<Longrightarrow> x < 2 ^ 63 \<Longrightarrow> wrap64 x = x"
  by (simp add: wrap64_def signed_take_bit_int_eq_self sint_sbintrunc')

definition hcfg_ApplyDefaults :: "('w, 'c, 'k) hconfig \<Rightarrow> ('w, 'c, 'k) hconfig" where
  "hcfg_ApplyDefaults c =
     (let c = (if hcfg_Interval c \<le> 0 then c\<lparr>hcfg_Interval := 5000000000\<rparr> else c);
          c = (if SyncPeriod (hcfg_CacheConfig c) \<le> 0 then
                 c\<lparr>hcfg_CacheConfig := (hcfg_CacheConfig c)\<lparr>SyncPeriod := wrap64 (hcfg_Interval c + 5000000000)\<rparr>\<rparr>
               else c)
      in if MaxAge (hcfg_CacheConfig c) \<le> 0 then
           c\<lparr>hcfg_CacheConfig := (hcfg_CacheConfig c)\<lparr>MaxAge := wrap64 (SyncPeriod (hcfg_CacheConfig c) * 2)\<rparr>\<rparr>
         else c)"

definition hcfg_zero :: "('w, 'c, 'k) hconfig" where
  "hcfg_zero =
     \<lparr>hcfg_Jobs = [], hcfg_Interval = 0,
      hcfg_CacheConfig = \<lparr>RefreshAgeOnRead = False, SyncPeriod = 0, MaxAge = 0\<rparr>,
      hcfg_SystemInfo = False, hcfg_Component = None\<rparr>"

definition health_DefaultConfig :: "('w, 'c, 'k) hconfig" where
  "health_DefaultConfig = hcfg_ApplyDefaults hcfg_zero"

definition ApplyDefaultConfig :: "('w, 'c, 'k) hconfig \<Rightarrow> ('w, 'c, 'k) hconfig" where
  "ApplyDefaultConfig cfg = hcfg_ApplyDefaults cfg"

fun first_error :: "('a \<Rightarrow> err option) \<Rightarrow> 'a list \<Rightarrow> err option" where
  "first_error f [] = None"
| "first_error f (x # xs) = (case f x of Some e \<Rightarrow> Some e | None \<Rightarrow> first_error f xs)"

definition hcfg_Validate :: "('w, 'c, 'k) hconfig \<Rightarrow> err option" where
  "hcfg_Validate c =
     (if hcfg_Interval c \<le> 0 then Some (new_error ''interval must be greater than 0'')
      else case timed_Validate (Some (hcfg_CacheConfig c)) of
          Some e \<Rightarrow> Some (Errorf ''invalid cache config'' [e])
        | None \<Rightarrow>
            if hcfg_Interval c > SyncPeriod (hcfg_CacheConfig c) then
              Some (new_error ''interval must be less than or equal to cache sync period'')
            else first_error (\<lambda>j. job_config_Validate (hj_Config j)) (hcfg_Jobs c))"

section \<open>The container\<close>

record 'w registered =
  reg_Job :: "'w job"
  reg_Endpoint :: "endpoint_path list"

type_synonym health_cache = "timed_config \<times> (int, job_result item) gomap"

record 'w health =
  h_Component :: "component_info option"
  h_Checks :: "'w registered list"
  h_cache :: "health_cache option"
  h_interval :: int
  h_systemInfoEnabled :: bool

definition NewHandlerFor ::
  "('w, 'c, 'k) probe_env \<Rightarrow> ('w, 'c, 'k) hjob_config \<Rightarrow> err + ('w, 'c, 'k) probe_handler" where
  "NewHandlerFor E c =
     (if OK c then Inr OKHandler
      else case HTTPGet c of
          Some cfg \<Rightarrow> (case hc_New E cfg of Inl e \<Rightarrow> Inl e | Inr cl \<Rightarrow> Inr (HTTPHandler cl))
        | None \<Rightarrow>
            (case Telnet c of
               Some cfg \<Rightarrow> (case tn_New E cfg of Inl e \<Rightarrow> Inl e | Inr cl \<Rightarrow> Inr (TelnetHandler cl))
             | None \<Rightarrow>
                 (case hj_CustomHandler c of
                    Some f \<Rightarrow> Inr (CustomHandler f)
                  | None \<Rightarrow> Inl (new_error ''no health checks configured''))))"

text \<open>Jobs registered before an error stay registered: the state comes with the error.\<close>

fun Add ::
  "('w, 'c, 'k) probe_env \<Rightarrow> ('w, 'c, 'k) hjob_config list \<Rightarrow> 'w health \<Rightarrow> 'w health \<times> err option" where
  "Add E [] h = (h, None)"
| "Add E (c # jobs) h =
     (case NewHandlerFor E c of
        Inl e \<Rightarrow> (h, Some (Errorf ''could not create handler for job'' [e]))
      | Inr handler \<Rightarrow>
          (case job_New (job_Name (hj_Config c)) (job_Description (hj_Config c)) (job_Timeout (hj_Config c))
              (job_MayFail (hj_Config c)) (Some (handler_Check E handler)) of
             Inl e \<Rightarrow> (h, Some (Errorf ''could not create job'' [e]))
           | Inr j \<Rightarrow>
               Add E jobs (h\<lparr>h_Checks := h_Checks h @ [\<lparr>reg_Job = j, reg_Endpoint = Endpoints c\<rparr>]\<rparr>)))"

definition DefaultCheck :: "('w, 'c, 'k) hjob_config" where
  "DefaultCheck =
     \<lparr>hj_Config = \<lparr>job_Name = ''default'', job_Description = ''Default health check'', job_MayFail = False,
        job_Timeout = 1000000000\<rparr>,
      HTTPGet = None, OK = True, Telnet = None, hj_CustomHandler = None,
      Endpoints = [HealthEndpoint, ReadyEndpoint]\<rparr>"

definition NewTimedCache :: "timed_config \<Rightarrow> err + health_cache" where
  "NewTimedCache cfg =
     (case New (\<lambda>_. Inr Mem_New) [Inr] of
        Inl e \<Rightarrow> Inl e
      | Inr backend \<Rightarrow> Timed_New (Some cfg) backend)"

definition lift_add :: "string \<Rightarrow> 'w health \<times> err option \<Rightarrow> err + 'w health" where
  "lift_add msg r = (case r of (h, None) \<Rightarrow> Inr h | (h, Some e) \<Rightarrow> Inl (Errorf msg [e]))"

definition WithNewChecks ::
  "('w, 'c, 'k) probe_env \<Rightarrow> ('w, 'c, 'k) hjob_config list \<Rightarrow> 'w health cfg_option" where
  "WithNewChecks E checks h = lift_add ''could not register check'' (Add E checks (h\<lparr>h_Checks := []\<rparr>))"

definition WithAddChecks ::
  "('w, 'c, 'k) probe_env \<Rightarrow> ('w, 'c, 'k) hjob_config list \<Rightarrow> 'w health cfg_option" where
  "WithAddChecks E checks h = lift_add ''could not register check'' (Add E checks h)"

definition WithComponent :: "component_info option \<Rightarrow> 'w health cfg_option" where
  "WithComponent component h = Inr (h\<lparr>h_Component := component\<rparr>)"

definition WithSystemInfo :: "'w health cfg_option" where
  "WithSystemInfo h = Inr (h\<lparr>h_systemInfoEnabled := True\<rparr>)"

definition WithInterval :: "int \<Rightarrow> 'w health cfg_option" where
  "WithInterval interval h =
     (if interval \<le> 0 then Inl (new_error ''interval must be greater than zero'')
      else Inr (h\<lparr>h_interval := interval\<rparr>))"

definition health_With :: "'w health \<Rightarrow> 'w health cfg_option option list \<Rightarrow> err + 'w health" where
  "health_With h opts = ApplyOpts h opts"

definition NewForConfig ::
  "('w, 'c, 'k) probe_env \<Rightarrow> ('w, 'c, 'k) hconfig option \<Rightarrow> 'w health cfg_option option list \<Rightarrow>
   err + 'w health" where
  "NewForConfig E c opts =
     (case c of
        None \<Rightarrow> Inl (new_error ''no health check config provided'')
      | Some c \<Rightarrow>
          (let cfg = ApplyDefaultConfig c in
           case hcfg_Validate cfg of
             Some e \<Rightarrow> Inl (Errorf ''invalid health check config'' [e])
           | None \<Rightarrow>
               (case NewTimedCache (hcfg_CacheConfig cfg) of
                  Inl e \<Rightarrow> Inl (Errorf ''failed to create timed cache'' [e])
                | Inr timedCache \<Rightarrow>
                    (case ApplyOpts
                         \<lparr>h_Component = hcfg_Component cfg, h_Checks = [], h_cache = Some timedCache,
                          h_interval = hcfg_Interval cfg, h_systemInfoEnabled = hcfg_SystemInfo cfg\<rparr>
                         opts of
                       Inl e \<Rightarrow> Inl (Errorf ''failed to apply TLS option'' [e])
                     | Inr h \<Rightarrow>
                         (case (if hcfg_Jobs cfg = [] then Add E [DefaultCheck] h else (h, None)) of
                            (h, Some e) \<Rightarrow> Inl e
                          | (h, None) \<Rightarrow>
                              lift_add ''could not register checks'' (Add E (hcfg_Jobs cfg) h))))))"

definition health_New ::
  "('w, 'c, 'k) probe_env \<Rightarrow> 'w health cfg_option option list \<Rightarrow> err + 'w health" where
  "health_New E opts =
     (case NewForConfig E (Some health_DefaultConfig) opts of
        Inl e \<Rightarrow> Inl (Errorf ''failed to create health check'' [e])
      | Inr h \<Rightarrow> Inr h)"

section \<open>Endpoints\<close>

definition HasEndpoint :: "'w health \<Rightarrow> endpoint_path \<Rightarrow> bool" where
  "HasEndpoint h e = list_ex (\<lambda>c. e \<in> set (reg_Endpoint c)) (h_Checks h)"

definition AllChecks :: "'w health \<Rightarrow> 'w job list" where
  "AllChecks h = map reg_Job (h_Checks h)"

definition JobsForEndpoint :: "'w health \<Rightarrow> endpoint_path \<Rightarrow> 'w job list" where
  "JobsForEndpoint h endpoint =
     map reg_Job (filter (\<lambda>c. endpoint \<in> set (reg_Endpoint c)) (h_Checks h))"

section \<open>Results\<close>

definition zero_item :: "job_result item" where
  "zero_item = \<lparr>it_Value = zero_result, Timestamp = 0\<rparr>"

definition cache_store :: "timed_config \<Rightarrow> (i64 \<times> (int, job_result item) gomap, int, job_result) store" where
  "cache_store cfg = Timed cfg (Memory None zero_item)"

text \<open>\<open>uuid i\<close> is the identifier drawn for the placeholder of job \<open>i\<close>.\<close>

fun FetchJobResults_loop ::
  "(nat \<Rightarrow> nat) \<Rightarrow> timed_config \<Rightarrow> nat \<Rightarrow> 'w job list \<Rightarrow> i64 \<times> (int, job_result item) gomap \<Rightarrow>
   (i64 \<times> (int, job_result item) gomap) \<times> job_result list" where
  "FetchJobResults_loop uuid cfg i [] s = (s, [])"
| "FetchJobResults_loop uuid cfg i (j # jobs) s =
     (case Read (cache_store cfg) nil_slice (int i) s of
        (s, _, r) \<Rightarrow>
          (case FetchJobResults_loop uuid cfg (Suc i) jobs s of
             (s, results) \<Rightarrow>
               (s, (case r of Inr cached \<Rightarrow> cached | Inl _ \<Rightarrow> ToJobResult (uuid i) j) # results)))"

definition FetchJobResults ::
  "(nat \<Rightarrow> nat) \<Rightarrow> i64 \<Rightarrow> 'w job list \<Rightarrow> 'w health \<Rightarrow> 'w health \<times> job_result list" where
  "FetchJobResults uuid now jobs h =
     (case h_cache h of
        None \<Rightarrow> (h, [])
      | Some (cfg, m) \<Rightarrow>
          (case FetchJobResults_loop uuid cfg 0 jobs (now, m) of
             ((_, m), results) \<Rightarrow> (h\<lparr>h_cache := Some (cfg, m)\<rparr>, results)))"

definition getStatusResponse :: "availability list \<Rightarrow> string" where
  "getStatusResponse statuses =
     (if length statuses = 0 then Availability_String StatusUnavailable
      else if Contains statuses StatusUnavailable then Availability_String StatusUnavailable
      else if Contains statuses StatusPartiallyAvailable then Availability_String StatusPartiallyAvailable
      else if Contains statuses StatusOK then Availability_String StatusOK
      else Availability_String StatusUnavailable)"

definition AvailabilityFromString :: "string \<Rightarrow> int" where
  "AvailabilityFromString s =
     (if s = Availability_String StatusOK then StatusOK
      else if s = Availability_String StatusUnavailable then StatusUnavailable
      else if s = Availability_String StatusPartiallyAvailable then StatusPartiallyAvailable
      else StatusUnavailable)"

text \<open>\<open>runtime.MemStats\<close> counts in \<open>uint64\<close>; two of the counters are capped, the third is not.\<close>

record mem_stats =
  HeapObjects :: i64
  Alloc :: i64
  TotalAlloc :: i64

record system_info =
  si_Version :: string
  si_Goroutines :: int
  si_TotalAllocBytes :: int
  si_HeapObjectsCount :: int
  si_AllocBytes :: int

definition cap_int :: "i64 \<Rightarrow> int" where
  "cap_int w = (if uint w > 9223372036854775807 then 9223372036854775807 else sint w)"

definition newSystemMetrics :: "string \<Rightarrow> int \<Rightarrow> mem_stats \<Rightarrow> system_info" where
  "newSystemMetrics version goroutines s =
     \<lparr>si_Version = version, si_Goroutines = goroutines, si_TotalAllocBytes = sint (TotalAlloc s),
      si_HeapObjectsCount = cap_int (HeapObjects s), si_AllocBytes = cap_int (Alloc s)\<rparr>"

record health_response =
  hr_Component :: "component_info option"
  hr_Status :: string
  hr_JobResults :: "job_result list"
  hr_System :: "system_info option"

definition newResponse ::
  "job_result list \<Rightarrow> component_info option \<Rightarrow> system_info option \<Rightarrow> health_response" where
  "newResponse jobResults component system =
     \<lparr>hr_Component = component, hr_Status = getStatusResponse (Transform jobResults GetAvailability),
      hr_JobResults = jobResults, hr_System = system\<rparr>"

text \<open>What a handler sees of the runtime: time, identifiers and the memory statistics.\<close>

record call_env =
  ce_now :: i64
  ce_uuid :: "nat \<Rightarrow> nat"
  ce_system :: system_info

definition health_run ::
  "call_env \<Rightarrow> 'w job list \<Rightarrow> component_info option \<Rightarrow> 'w health \<Rightarrow> 'w health \<times> health_response" where
  "health_run C jobs component h =
     (case FetchJobResults (ce_uuid C) (ce_now C) jobs h of
        (h, jobResults) \<Rightarrow>
          (h, newResponse jobResults component
             (if h_systemInfoEnabled h then Some (ce_system C) else None)))"

definition health_handle ::
  "call_env \<Rightarrow> 'w job list \<Rightarrow> 'w health \<Rightarrow> 'w health \<times> int \<times> health_response" where
  "health_handle C jobs h =
     (case health_run C jobs (h_Component h) h of
        (h, result) \<Rightarrow> (h, AvailabilityFromString (hr_Status result), result))"

definition HandlerFuncReadyz :: "call_env \<Rightarrow> 'w health \<Rightarrow> 'w health \<times> int \<times> health_response" where
  "HandlerFuncReadyz C h = health_handle C (JobsForEndpoint h ReadyEndpoint) h"

definition HandlerFuncHealthz :: "call_env \<Rightarrow> 'w health \<Rightarrow> 'w health \<times> int \<times> health_response" where
  "HandlerFuncHealthz C h = health_handle C (JobsForEndpoint h HealthEndpoint) h"

definition HandlerFuncStatus :: "call_env \<Rightarrow> 'w health \<Rightarrow> 'w health \<times> int \<times> health_response" where
  "HandlerFuncStatus C h = health_handle C (AllChecks h) h"

record endpoint_option =
  eo_Root :: endpoint_path
  eo_Readyz :: endpoint_path
  eo_Healthz :: endpoint_path
  eo_Status :: endpoint_path

text \<open>The routes \<open>RouteRegister\<close> adds: group, path and handler.\<close>

definition RouteRegister ::
  "'w health \<Rightarrow> endpoint_option list \<Rightarrow>
   (endpoint_path \<times> endpoint_path \<times> (call_env \<Rightarrow> 'w health \<Rightarrow> 'w health \<times> int \<times> health_response)) list"
where
  "RouteRegister h prefixOpt =
     (let pre = Opt \<lparr>eo_Root = RootEndpoint, eo_Readyz = ReadyEndpoint, eo_Healthz = HealthEndpoint,
           eo_Status = StatusEndpoint\<rparr> prefixOpt
      in [(eo_Root pre, eo_Status pre, HandlerFuncStatus)] @
         (if HasEndpoint h HealthEndpoint then [(eo_Root pre, eo_Healthz pre, HandlerFuncHealthz)] else []) @
         (if HasEndpoint h ReadyEndpoint then [(eo_Root pre, eo_Readyz pre, HandlerFuncReadyz)] else []))"

section \<open>The background loop\<close>

text \<open>
  \<open>RunBackground\<close> takes the jobs once, when it starts. A tick runs all of them and stores every
  result under its position; the purger sweeps the cache.
\<close>

fun apply_results ::
  "timed_config \<Rightarrow> nat \<Rightarrow> job_result list \<Rightarrow> i64 \<times> (int, job_result item) gomap \<Rightarrow>
   i64 \<times> (int, job_result item) gomap" where
  "apply_results cfg k [] s = s"
| "apply_results cfg k (v # runner) s =
     (case Apply (cache_store cfg) nil_slice (int k) v s of
        (s, _, _) \<Rightarrow> apply_results cfg (Suc k) runner s)"

definition background_tick ::
  "'w job list \<Rightarrow> (nat \<Rightarrow> 'w run_env) \<Rightarrow> nat list \<Rightarrow> i64 \<Rightarrow> 'w health \<Rightarrow> 'w health" where
  "background_tick jobs envs order now h =
     (case h_cache h of
        None \<Rightarrow> h
      | Some (cfg, m) \<Rightarrow>
          h\<lparr>h_cache := Some (cfg, snd (apply_results cfg 0 (RunAny envs order jobs) (now, m)))\<rparr>)"

definition background_purge :: "i64 \<Rightarrow> 'w health \<Rightarrow> 'w health \<times> err option" where
  "background_purge now h =
     (case h_cache h of
        None \<Rightarrow> (h, None)
      | Some (cfg, m) \<Rightarrow>
          (case DeleteItemsOlderThan (Memory None zero_item) (MaxAge cfg) (now, m) of
             ((_, m), e) \<Rightarrow> (h\<lparr>h_cache := Some (cfg, m)\<rparr>, e)))"

section \<open>The cache\<close>

abbreviation cache_map :: "(int, job_result item) gomap \<Rightarrow> int \<Rightarrow> job_result option" where
  "cache_map m \<equiv> timed_abs (map_of m)"

lemma cache_contract:
  "kv_store (cache_store cfg) (\<lambda>(now, m). cache_map m) (\<lambda>(now, m). wf_map m) (\<lambda>_. True) (\<lambda>_ _. True)"
  unfolding cache_store_def by (rule Timed_contract [OF mem.kv_store_axioms])

text \<open>The result an entry gives to a job that is asked for at its position.\<close>

definition result_at :: "(nat \<Rightarrow> nat) \<Rightarrow> (int, job_result item) gomap \<Rightarrow> nat \<Rightarrow> 'w job \<Rightarrow> job_result" where
  "result_at uuid m i j = (case cache_map m (int i) of Some v \<Rightarrow> v | None \<Rightarrow> ToJobResult (uuid i) j)"

lemma Fetch_loop:
  "wf_map m \<Longrightarrow> FetchJobResults_loop uuid cfg i jobs (now, m) = ((now', m'), rs) \<Longrightarrow>
   wf_map m' \<and> cache_map m' = cache_map m \<and>
   rs = map (\<lambda>k. result_at uuid m (i + k) (jobs ! k)) [0..<length jobs]"
proof (induction jobs arbitrary: i now m rs)
  case (Cons j jobs)
  obtain s1 a r where rd: "Read (cache_store cfg) nil_slice (int i) (now, m) = (s1, a, r)"
    by (metis prod_cases3)
  obtain now1 m1 where s1: "s1 = (now1, m1)" by (cases s1)
  obtain rs' where lp: "FetchJobResults_loop uuid cfg (Suc i) jobs (now1, m1) = ((now', m'), rs')"
    and rs: "rs = (case r of Inr v \<Rightarrow> v | Inl _ \<Rightarrow> ToJobResult (uuid i) j) # rs'"
    using Cons.prems(2) rd s1 by (auto split: prod.splits)
  have r: "wf_map m1 \<and> cache_map m1 = cache_map m \<and>
    (case r of Inr v \<Rightarrow> v | Inl _ \<Rightarrow> ToJobResult (uuid i) j) = result_at uuid m i j"
  proof (cases "cache_map m (int i)")
    case None
    with kv_store.read_missing [OF cache_contract _ _ _ rd] Cons.prems(1) s1
    have "isl r \<and> wf_map m1 \<and> cache_map m1 = cache_map m" by auto
    moreover have "result_at uuid m i j = ToJobResult (uuid i) j"
      unfolding result_at_def None by simp
    ultimately show ?thesis by (cases r) simp_all
  next
    case (Some v)
    with kv_store.read_found [OF cache_contract _ _ _ rd, of v] Cons.prems(1) s1
    have "r = Inr v \<and> wf_map m1 \<and> cache_map m1 = cache_map m" by auto
    moreover have "result_at uuid m i j = v" unfolding result_at_def Some by simp
    ultimately show ?thesis by simp
  qed
  note ih = Cons.IH [OF conjunct1 [OF r] lp]
  have "result_at uuid m1 = (result_at uuid m :: nat \<Rightarrow> 'a job \<Rightarrow> job_result)"
    using r by (simp add: result_at_def fun_eq_iff)
  with ih have "rs' = map (\<lambda>k. result_at uuid m (Suc i + k) (jobs ! k)) [0..<length jobs]" by simp
  then have "rs = map (\<lambda>k. result_at uuid m (i + k) ((j # jobs) ! k)) [0..<length (j # jobs)]"
    using rs r by (simp add: upt_conv_Cons map_Suc_upt [symmetric] del: upt_Suc)
  with ih r show ?case by simp
qed simp

lemma apply_results_ok:
  "wf_map m \<Longrightarrow> apply_results cfg i rs (now, m) = (now', m') \<Longrightarrow>
   wf_map m' \<and> (\<forall>k. cache_map m' (int k) = (if i \<le> k \<and> k < i + length rs then Some (rs ! (k - i)) else cache_map m (int k)))"
proof (induction rs arbitrary: i now m)
  case (Cons v rs)
  obtain s1 a r where ap: "Apply (cache_store cfg) nil_slice (int i) v (now, m) = (s1, a, r)"
    by (metis prod_cases3)
  obtain now1 m1 where s1: "s1 = (now1, m1)" by (cases s1)
  have w: "wf_map m1" "cache_map m1 = (cache_map m)(int i \<mapsto> v)"
    using kv_store.apply_ok [OF cache_contract _ _ _ ap] Cons.prems(1) s1 by auto
  have "apply_results cfg (Suc i) rs (now1, m1) = (now', m')" using Cons.prems(2) ap s1 by simp
  from Cons.IH [OF w(1) this] w(2) show ?case by (auto simp: nth_Cons' Suc_diff_Suc)
qed auto

lemma apply_results_neg:
  "wf_map m \<Longrightarrow> apply_results cfg i rs (now, m) = (now', m') \<Longrightarrow> k < 0 \<Longrightarrow> cache_map m' k = cache_map m k"
proof (induction rs arbitrary: i now m)
  case (Cons v rs)
  obtain s1 a r where ap: "Apply (cache_store cfg) nil_slice (int i) v (now, m) = (s1, a, r)"
    by (metis prod_cases3)
  obtain now1 m1 where s1: "s1 = (now1, m1)" by (cases s1)
  have w: "wf_map m1" "cache_map m1 = (cache_map m)(int i \<mapsto> v)"
    using kv_store.apply_ok [OF cache_contract _ _ _ ap] Cons.prems(1) s1 by auto
  have "apply_results cfg (Suc i) rs (now1, m1) = (now', m')" using Cons.prems(2) ap s1 by simp
  from Cons.IH [OF w(1) this Cons.prems(3)] w(2) Cons.prems(3) show ?case by auto
qed simp

text \<open>What the handlers show after a tick: the results of the run, by position.\<close>

lemma tick_fetch:
  assumes "h_cache h = Some (cfg, m)" "wf_map m" "length jobs' \<le> length jobs"
    and "{..<length jobs} \<subseteq> set order"
  shows "snd (FetchJobResults uuid now' jobs' (background_tick jobs envs order now h)) =
    take (length jobs') (RunAny envs order jobs)"
proof -
  let ?rs = "RunAny envs order jobs"
  obtain now1 m1 where ap: "apply_results cfg 0 ?rs (now, m) = (now1, m1)"
    by (cases "apply_results cfg 0 ?rs (now, m)")
  note w = apply_results_ok [OF assms(2) ap]
  obtain now2 m2 rs where f: "FetchJobResults_loop uuid cfg 0 jobs' (now', m1) = ((now2, m2), rs)"
    by (metis prod.collapse)
  have len: "length ?rs = length jobs" by (simp add: RunAny_eq [OF assms(4)])
  from w have "wf_map m1" by simp
  from Fetch_loop [OF this f]
  have "rs = map (\<lambda>k. result_at uuid m1 k (jobs' ! k)) [0..<length jobs']" by simp
  also have "\<dots> = map (\<lambda>k. ?rs ! k) [0..<length jobs']"
    using w assms(3) len by (simp add: result_at_def)
  also have "\<dots> = take (length jobs') ?rs"
    by (rule nth_equalityI) (use assms(3) len in auto)
  finally show ?thesis using ap f assms(1) by (simp add: FetchJobResults_def background_tick_def)
qed

lemma tick_keeps [simp]:
  "h_Checks (background_tick jobs envs order now h) = h_Checks h"
  "h_Component (background_tick jobs envs order now h) = h_Component h"
  by (auto simp: background_tick_def split: option.splits prod.splits)

section \<open>Statuses\<close>

lemma AvailabilityFromString_String:
  "a \<in> {StatusOK, StatusPartiallyAvailable, StatusUnavailable} \<Longrightarrow>
   AvailabilityFromString (Availability_String a) = a"
  by (auto simp: AvailabilityFromString_def status_defs)

text \<open>The status of a list of results, as one rule.\<close>

definition overall :: "job_result list \<Rightarrow> int" where
  "overall rs =
     (if rs = [] \<or> (\<exists>r \<in> set rs. GetAvailability r = 503) then 503
      else if \<exists>r \<in> set rs. GetAvailability r = 206 then 206 else 200)"

lemma newResponse_code: "AvailabilityFromString (hr_Status (newResponse rs cinfo sinfo)) = overall rs"
proof -
  let ?as = "map GetAvailability rs"
  have st: "hr_Status (newResponse rs cinfo sinfo) = getStatusResponse ?as"
    by (simp add: newResponse_def Transform_def)
  have sub: "set ?as \<subseteq> {200, 206, 503}"
    using GetAvailability_cases by (fastforce simp: StatusOK_def StatusPartiallyAvailable_def StatusUnavailable_def)
  have ov: "overall rs = (if ?as = [] \<or> 503 \<in> set ?as then 503 else if 206 \<in> set ?as then 206 else 200)"
    by (auto simp: overall_def)
  have ne: "200 \<in> set ?as" if "?as \<noteq> []" "503 \<notin> set ?as" "206 \<notin> set ?as"
    using sub that hd_in_set [OF that(1)] by auto
  show ?thesis unfolding st ov
    by (simp add: getStatusResponse_def Contains_def AvailabilityFromString_def status_defs ne
        del: set_map)
qed

lemma handle_code:
  "fst (snd (health_handle C jobs h)) = overall (snd (FetchJobResults (ce_uuid C) (ce_now C) jobs h))"
  "hr_JobResults (snd (snd (health_handle C jobs h))) = snd (FetchJobResults (ce_uuid C) (ce_now C) jobs h)"
  by (simp_all add: health_handle_def health_run_def newResponse_code split: prod.splits)
    (simp add: newResponse_def)

section \<open>Runs of the service\<close>

text \<open>The background loop and the handlers, in whatever order they run.\<close>

datatype 'w hevent =
    Tick "nat \<Rightarrow> 'w run_env" "nat list" i64
  | Purge i64
  | CallStatus call_env
  | CallReadyz call_env
  | CallHealthz call_env

fun health_step :: "'w job list \<Rightarrow> 'w hevent \<Rightarrow> 'w health \<Rightarrow> 'w health" where
  "health_step jobs (Tick envs order now) h = background_tick jobs envs order now h"
| "health_step jobs (Purge now) h = fst (background_purge now h)"
| "health_step jobs (CallStatus C) h = fst (HandlerFuncStatus C h)"
| "health_step jobs (CallReadyz C) h = fst (HandlerFuncReadyz C h)"
| "health_step jobs (CallHealthz C) h = fst (HandlerFuncHealthz C h)"

text \<open>Every job of a tick finishes.\<close>

fun complete :: "'w job list \<Rightarrow> 'w hevent \<Rightarrow> bool" where
  "complete jobs (Tick envs order now) = (set order = {..<length jobs})"
| "complete jobs _ = True"

definition cache_ok :: "'w health \<Rightarrow> bool" where
  "cache_ok h = (case h_cache h of None \<Rightarrow> False
     | Some (cfg, m) \<Rightarrow> wf_map m \<and> (\<forall>k v. cache_map m k = Some v \<longrightarrow> wf_result v \<and> \<not> IsRunning v))"

lemma cache_okI:
  "h_cache h = Some (cfg, m) \<Longrightarrow> wf_map m \<Longrightarrow>
   (\<And>k v. cache_map m k = Some v \<Longrightarrow> wf_result v \<and> \<not> IsRunning v) \<Longrightarrow> cache_ok h"
  by (simp add: cache_ok_def)

lemma cache_okD:
  "cache_ok h \<Longrightarrow> \<exists>cfg m. h_cache h = Some (cfg, m) \<and> wf_map m \<and>
     (\<forall>k v. cache_map m k = Some v \<longrightarrow> wf_result v \<and> \<not> IsRunning v)"
  by (auto simp: cache_ok_def split: option.splits)

lemma Add_keeps: "Add E js h = (h', e) \<Longrightarrow> h_cache h' = h_cache h"
  by (induction E js h rule: Add.induct) (auto split: sum.splits)

lemma New_cache_ok:
  assumes "NewForConfig E c [] = Inr h"
  shows "cache_ok h"
proof -
  have "\<exists>cfg. h_cache h = Some (cfg, [])"
    using assms
    by (auto simp: NewForConfig_def NewTimedCache_def Timed_New_def New_def Mem_New_def lift_add_def Let_def
        split: option.splits sum.splits prod.splits if_splits dest!: Add_keeps)
  then show ?thesis by (auto intro: cache_okI)
qed

lemma fetch_ok:
  assumes "cache_ok h"
  shows "cache_ok (fst (FetchJobResults uuid now jobs h))"
    and "list_all wf_result (snd (FetchJobResults uuid now jobs h))"
    and "length (snd (FetchJobResults uuid now jobs h)) = length jobs"
proof -
  obtain cfg m where h: "h_cache h = Some (cfg, m)" "wf_map m"
    "\<And>k v. cache_map m k = Some v \<Longrightarrow> wf_result v \<and> \<not> IsRunning v"
    using cache_okD [OF assms] by blast
  obtain now' m' rs where f: "FetchJobResults_loop uuid cfg 0 jobs (now, m) = ((now', m'), rs)"
    by (metis prod.collapse)
  note l = Fetch_loop [OF h(2) f]
  have F: "FetchJobResults uuid now jobs h = (h\<lparr>h_cache := Some (cfg, m')\<rparr>, rs)"
    using h(1) f by (simp add: FetchJobResults_def)
  show "cache_ok (fst (FetchJobResults uuid now jobs h))"
    unfolding F by (rule cache_okI [of _ cfg m']) (use l h(3) in auto)
  have "wf_result (result_at uuid m k j)" for k and j :: "'a job"
  proof (cases "cache_map m (int k)")
    case None
    then have "result_at uuid m k j = ToJobResult (uuid k) j" unfolding result_at_def None by simp
    then show ?thesis by auto
  next
    case (Some v)
    then have "result_at uuid m k j = v" unfolding result_at_def Some by simp
    with h(3) [OF Some] show ?thesis by simp
  qed
  then show "list_all wf_result (snd (FetchJobResults uuid now jobs h))"
    using l by (auto simp: F list_all_iff)
  show "length (snd (FetchJobResults uuid now jobs h)) = length jobs" using l by (simp add: F)
qed

lemma handle_keeps: "fst (health_handle C jobs h) = fst (FetchJobResults (ce_uuid C) (ce_now C) jobs h)"
  by (auto simp: health_handle_def health_run_def split: prod.splits)

lemma fetch_checks [simp]: "h_Checks (fst (FetchJobResults uuid now jobs h)) = h_Checks h"
  by (auto simp: FetchJobResults_def split: option.splits prod.splits)

lemma tick_ok:
  assumes "cache_ok h" "set order = {..<length jobs}"
  shows "cache_ok (background_tick jobs envs order now h)"
proof -
  obtain cfg m where h: "h_cache h = Some (cfg, m)" "wf_map m"
    "\<And>k v. cache_map m k = Some v \<Longrightarrow> wf_result v \<and> \<not> IsRunning v"
    using cache_okD [OF assms(1)] by blast
  let ?rs = "RunAny envs order jobs"
  obtain now1 m1 where ap: "apply_results cfg 0 ?rs (now, m) = (now1, m1)"
    by (cases "apply_results cfg 0 ?rs (now, m)")
  have eq: "?rs = map (\<lambda>i. job_Run (envs i) (jobs ! i)) [0..<length jobs]"
    by (rule RunAny_eq) (use assms(2) in auto)
  from apply_results_ok [OF h(2) ap]
  have w: "wf_map m1" "\<And>k. cache_map m1 (int k) = (if k < length ?rs then Some (?rs ! k) else cache_map m (int k))"
    by auto
  show ?thesis
  proof (rule cache_okI [of _ cfg m1])
    show "h_cache (background_tick jobs envs order now h) = Some (cfg, m1)"
      using h(1) ap by (simp add: background_tick_def)
    fix k v assume v: "cache_map m1 k = Some v"
    show "wf_result v \<and> \<not> IsRunning v"
    proof (cases "0 \<le> k")
      case True
      with w(2) [of "nat k"] v h(3) [of k v] show ?thesis
        by (auto simp: eq split: if_splits)
    next
      case False
      with apply_results_neg [OF h(2) ap] v h(3) [of k v] show ?thesis by simp
    qed
  qed (rule w(1))
qed

lemma purge_ok:
  assumes "cache_ok h"
  shows "cache_ok (fst (background_purge now h))" and "snd (background_purge now h) = None"
    and "h_Checks (fst (background_purge now h)) = h_Checks h"
proof -
  obtain cfg m where h: "h_cache h = Some (cfg, m)" "wf_map m"
    "\<And>k v. cache_map m k = Some v \<Longrightarrow> wf_result v \<and> \<not> IsRunning v"
    using cache_okD [OF assms] by blast
  obtain now1 m1 r where d: "DeleteItemsOlderThan (Memory None zero_item) (MaxAge cfg) (now, m) = ((now1, m1), r)"
    by (metis prod.collapse)
  from sweep_ok [OF mem.kv_store_axioms h(2) d]
  have w: "r = None" "wf_map m1" "map_of m1 = young now (MaxAge cfg) (map_of m)" by auto
  have "wf_result v \<and> \<not> IsRunning v" if "cache_map m1 k = Some v" for k v
  proof (rule h(3))
    show "cache_map m k = Some v"
      using that w(3) by (auto simp: timed_abs_def young_def split: option.splits if_splits)
  qed
  with h(1) d w show "cache_ok (fst (background_purge now h))"
    by (intro cache_okI [of _ cfg m1]) (simp_all add: background_purge_def)
  show "snd (background_purge now h) = None" "h_Checks (fst (background_purge now h)) = h_Checks h"
    using h(1) d w by (simp_all add: background_purge_def)
qed

lemma step_ok:
  assumes "cache_ok h" "complete jobs e"
  shows "cache_ok (health_step jobs e h) \<and> h_Checks (health_step jobs e h) = h_Checks h"
proof (cases e)
  case (Tick envs order now)
  with assms tick_ok show ?thesis by simp
next
  case (Purge now)
  with purge_ok [OF assms(1)] show ?thesis by simp
qed (use fetch_ok(1) [OF assms(1)] in
    \<open>simp_all add: HandlerFuncStatus_def HandlerFuncReadyz_def HandlerFuncHealthz_def handle_keeps\<close>)

lemma steps_ok:
  "cache_ok h \<Longrightarrow> list_all (complete jobs) es \<Longrightarrow>
   cache_ok (fold (health_step jobs) es h) \<and> h_Checks (fold (health_step jobs) es h) = h_Checks h"
  by (induction es arbitrary: h) (auto simp: step_ok)

lemma overall_range: "overall rs \<in> {200, 206, 503}"
  by (simp add: overall_def)

section \<open>Properties\<close>

text \<open>
  C19. Whatever ticks, purges and calls a service made by \<open>NewForConfig\<close> has seen, in whatever order, an
  answer has one result per job of its endpoint, every result is well-formed (a job that has not
  started, or a finished one whose state its error determines), the status code is 200, 206 or 503,
  the one its results determine, and the purger never fails.
\<close>

theorem health_answers_well_formed:
  assumes "NewForConfig E c [] = Inr h0" "list_all (complete (AllChecks h0)) es"
  shows "let h = fold (health_step (AllChecks h0)) es h0;
      (_, code, resp) = health_handle C (JobsForEndpoint h e) h
    in list_all wf_result (hr_JobResults resp) \<and>
       length (hr_JobResults resp) = length (JobsForEndpoint h0 e) \<and>
       code = overall (hr_JobResults resp) \<and> code \<in> {200, 206, 503} \<and>
       snd (background_purge now h) = None"
proof -
  let ?h = "fold (health_step (AllChecks h0)) es h0"
  have ok: "cache_ok ?h" "h_Checks ?h = h_Checks h0"
    using steps_ok [OF New_cache_ok [OF assms(1)] assms(2)] by auto
  have "JobsForEndpoint ?h e = JobsForEndpoint h0 e" using ok(2) by (simp add: JobsForEndpoint_def)
  with ok(1) show ?thesis
    using fetch_ok(2,3) [of ?h "ce_uuid C" "ce_now C" "JobsForEndpoint h0 e"] purge_ok(2) [of ?h now]
      handle_code [of C "JobsForEndpoint h0 e" ?h]
      overall_range [of "snd (FetchJobResults (ce_uuid C) (ce_now C) (JobsForEndpoint h0 e) ?h)"]
    by (auto simp: Let_def split: prod.splits)
qed

theorem health_answers_well_formed_witness:
  "\<exists>h0. NewForConfig example_env (Some hcfg_zero) [] = Inr h0 \<and>
     snd (background_purge 9 (fold (health_step (AllChecks h0)) [Purge 7] h0)) = None"
proof -
  have "\<exists>h0. NewForConfig example_env (Some hcfg_zero) [] = Inr h0"
    by (simp add: NewForConfig_def ApplyDefaultConfig_def hcfg_ApplyDefaults_def hcfg_zero_def Let_def
        hcfg_Validate_def timed_Validate_def wrap64_def NewTimedCache_def Timed_New_def New_def
        DefaultCheck_def NewHandlerFor_def job_New_def job_ApplyDefaults_def job_Validate_def
        job_config_Validate_def lift_add_def sint_sbintrunc')
  then obtain h0 where "NewForConfig example_env (Some hcfg_zero) [] = Inr h0" by blast
  with health_answers_well_formed [OF this, of "[Purge 7]" undefined "[]" 9] show ?thesis
    by (auto simp: Let_def split: prod.splits)
qed

text \<open>A service with two checks: a liveness check that passes and a readiness check that fails.\<close>

definition example_checks :: "nat registered list" where
  "example_checks =
     [\<lparr>reg_Job = \<lparr>job_Config = \<lparr>job_Name = ''alive'', job_Description = [], job_MayFail = False, job_Timeout = 9\<rparr>,
         job_Check = Some (\<lambda>_. Some (1, Returned None))\<rparr>, reg_Endpoint = [''/healthz'']\<rparr>,
      \<lparr>reg_Job = \<lparr>job_Config = \<lparr>job_Name = ''database'', job_Description = [], job_MayFail = False, job_Timeout = 9\<rparr>,
         job_Check = Some (\<lambda>_. Some (1, Returned (Some (new_error ''down''))))\<rparr>, reg_Endpoint = [''/readyz'']\<rparr>]"

definition example_health :: "nat health" where
  "example_health =
     \<lparr>h_Component = None, h_Checks = example_checks, h_cache = Some (timed_DefaultConfig, []),
      h_interval = 5, h_systemInfoEnabled = False\<rparr>"

definition example_run :: "nat \<Rightarrow> nat run_env" where
  "example_run i = \<lparr>re_world = 0, re_ctx = None, re_pick = 0, re_now = 0, re_id = i\<rparr>"

definition example_call :: call_env where
  "example_call = \<lparr>ce_now = 0, ce_uuid = (\<lambda>i. i),
     ce_system = \<lparr>si_Version = [], si_Goroutines = 0, si_TotalAllocBytes = 0, si_HeapObjectsCount = 0, si_AllocBytes = 0\<rparr>\<rparr>"

lemma example_results:
  "map jr_Error (RunAny example_run [1, 0] (AllChecks example_health)) = [None, Some (new_error ''down'')]"
  "map jr_MayFail (RunAny example_run [1, 0] (AllChecks example_health)) = [False, False]"
  "map IsRunning (RunAny example_run [1, 0] (AllChecks example_health)) = [False, False]"
  by (code_simp)+

lemma example_list:
  "\<exists>a b. RunAny example_run [1, 0] (AllChecks example_health) = [a, b] \<and> jr_Error a = None \<and>
     \<not> IsRunning a \<and> jr_Error b \<noteq> None \<and> \<not> jr_MayFail b"
  using example_results by (auto simp: map_eq_Cons_conv)

lemma example_order: "set [1, 0] = {..<length (AllChecks example_health)}"
  by (auto simp: AllChecks_def example_health_def example_checks_def)

text \<open>
  C18. The status endpoint, after a tick of the background loop: it shows the results of that run in
  the order of the checks; its code is 503 when there is no check or a mandatory one failed, 206 when
  only optional ones failed, and 200 when all passed.
\<close>

theorem status_after_tick:
  assumes "h_cache h = Some (cfg, m)" "wf_map m" "set order = {..<length (AllChecks h)}"
  shows "let rs = RunAny envs order (AllChecks h);
      (_, code, resp) = HandlerFuncStatus C (background_tick (AllChecks h) envs order now h)
    in hr_JobResults resp = rs \<and>
       code = (if rs = [] \<or> list_ex (\<lambda>r. jr_Error r \<noteq> None \<and> \<not> jr_MayFail r) rs then 503
               else if list_ex (\<lambda>r. jr_Error r \<noteq> None) rs then 206 else 200)"
proof -
  let ?rs = "RunAny envs order (AllChecks h)"
  let ?h = "background_tick (AllChecks h) envs order now h"
  have eq: "?rs = map (\<lambda>i. job_Run (envs i) (AllChecks h ! i)) [0..<length (AllChecks h)]"
    by (rule RunAny_eq) (use assms(3) in auto)
  then have len: "length ?rs = length (AllChecks h)" by simp
  have "AllChecks ?h = AllChecks h" by (simp add: AllChecks_def)
  with tick_fetch [OF assms(1,2) order_refl, of "AllChecks h" order] assms(3) len
  have f: "snd (FetchJobResults (ce_uuid C) (ce_now C) (AllChecks ?h) ?h) = ?rs" by simp
  have av: "GetAvailability r = (if jr_Error r = None then 200 else if jr_MayFail r then 206 else 503)"
    if "r \<in> set ?rs" for r
  proof -
    from that obtain i where "r = job_Run (envs i) (AllChecks h ! i)" by (auto simp: eq)
    then show ?thesis using Run_availability [of "envs i" "AllChecks h ! i"]
      by (simp add: StatusOK_def StatusPartiallyAvailable_def StatusUnavailable_def)
  qed
  have "overall ?rs = (if ?rs = [] \<or> list_ex (\<lambda>r. jr_Error r \<noteq> None \<and> \<not> jr_MayFail r) ?rs then 503
               else if list_ex (\<lambda>r. jr_Error r \<noteq> None) ?rs then 206 else 200)"
    using av by (auto simp: overall_def list_ex_iff)
  with f show ?thesis using handle_code [of C "AllChecks ?h" ?h]
    by (auto simp: Let_def HandlerFuncStatus_def split: prod.splits)
qed

theorem status_after_tick_witness:
  "fst (snd (HandlerFuncStatus example_call
     (background_tick (AllChecks example_health) example_run [1, 0] 0 example_health))) = 503"
  using status_after_tick [of example_health timed_DefaultConfig "[]" "[1, 0]" example_run example_call 0]
    example_list example_order
  by (auto simp: example_health_def Let_def split: prod.splits)

text \<open>
  What the readiness endpoint shows after a tick: the results of the \<^emph>\<open>first\<close> checks of all, as many
  as are registered for the endpoint, and the code they give. They are the results of its own checks
  only when these come first: the cache is keyed by position in the list of all checks, and the
  handler reads it by position in its own list.
\<close>

theorem readyz_after_tick:
  assumes "h_cache h = Some (cfg, m)" "wf_map m" "set order = {..<length (AllChecks h)}"
  shows "let rs = take (length (JobsForEndpoint h ReadyEndpoint)) (RunAny envs order (AllChecks h));
      (_, code, resp) = HandlerFuncReadyz C (background_tick (AllChecks h) envs order now h)
    in hr_JobResults resp = rs \<and> code = overall rs"
proof -
  let ?h = "background_tick (AllChecks h) envs order now h"
  have "length (JobsForEndpoint h ReadyEndpoint) \<le> length (AllChecks h)"
    by (simp add: JobsForEndpoint_def AllChecks_def)
  moreover have "JobsForEndpoint ?h ReadyEndpoint = JobsForEndpoint h ReadyEndpoint"
    by (simp add: JobsForEndpoint_def)
  ultimately show ?thesis
    using tick_fetch [OF assms(1,2), of "JobsForEndpoint h ReadyEndpoint" "AllChecks h" order] assms(3)
      handle_code [of C "JobsForEndpoint h ReadyEndpoint" ?h]
    by (auto simp: Let_def HandlerFuncReadyz_def split: prod.splits)
qed

text \<open>The readiness endpoint answers 200 although its only check has failed.\<close>

theorem readyz_after_tick_witness:
  "fst (snd (HandlerFuncReadyz example_call
     (background_tick (AllChecks example_health) example_run [1, 0] 0 example_health))) = 200"
proof -
  have "length (JobsForEndpoint example_health ReadyEndpoint) = 1"
    by (simp add: JobsForEndpoint_def ReadyEndpoint_def example_health_def example_checks_def)
  moreover have "overall [a] = 200" if "jr_Error a = None" "\<not> IsRunning a" for a
    using that by (simp add: overall_def GetAvailability_def IsSuccessful_def HasErrors_def StatusOK_def)
  ultimately show ?thesis
    using readyz_after_tick [of example_health timed_DefaultConfig "[]" "[1, 0]" example_run example_call 0]
      example_list example_order
    by (auto simp: example_health_def Let_def split: prod.splits)
qed

end
