(* ===== verification/Kube.thy ===== *)
theory Kube
  imports Labels
begin

text \<open>
  Kubernetes backends: \<open>pkg/store/backends/configmap\<close>, which keeps every entry in a ConfigMap, and the
  helpers of \<open>pkg/kubemock\<close>.

  The Kubernetes client of one namespace is a record over a state \<open>'s\<close> of the cluster and objects
  \<open>'o\<close>; the first argument of a modifying call is its \<open>DryRun\<close> list. \<open>kube_laws\<close> is its documented
  behaviour: it keeps one object per name, refuses to create a name twice and to change a missing
  one, and a dry run answers the same and changes nothing.
\<close>

section \<open>The client\<close>

record ('s, 'o) kube_client =
  kc_Get :: "string \<Rightarrow> 's \<Rightarrow> err + 'o"
  kc_Create :: "string list \<Rightarrow> 'o \<Rightarrow> 's \<Rightarrow> 's \<times> err option"
  kc_Update :: "string list \<Rightarrow> 'o \<Rightarrow> 's \<Rightarrow> 's \<times> err option"
  kc_UpdateStatus :: "string list \<Rightarrow> 'o \<Rightarrow> 's \<Rightarrow> 's \<times> err option"
  kc_ApplyStatus :: "string list \<Rightarrow> string \<Rightarrow> 'o \<Rightarrow> 's \<Rightarrow> 's \<times> err option"
  kc_Delete :: "string list \<Rightarrow> string \<Rightarrow> 's \<Rightarrow> 's \<times> err option"
  kc_List :: "string \<Rightarrow> 's \<Rightarrow> err + 'o list"
  apierrors_IsNotFound :: "err \<Rightarrow> bool"
  apierrors_IsAlreadyExists :: "err \<Rightarrow> bool"

definition DryRunOption :: "bool \<Rightarrow> string list" where
  "DryRunOption isDryRun = (if \<not> isDryRun then [] else [''All''])"

text \<open>
  The laws, for a view \<open>abst\<close> of the cluster as a map from names to objects. Listing by the text of a
  selector gives the objects the selector matches, each once, in some order; the empty text gives
  all.
\<close>

definition lists :: "(string \<Rightarrow> 'o option) \<Rightarrow> ('o \<Rightarrow> bool) \<Rightarrow> ('o \<Rightarrow> string) \<Rightarrow> 'o list \<Rightarrow> bool" where
  "lists m P nm os \<longleftrightarrow> distinct (map nm os) \<and> (\<forall>o'. o' \<in> set os \<longleftrightarrow> m (nm o') = Some o' \<and> P o')"

definition kube_laws ::
  "('sel, 'req) selectors \<Rightarrow> ('s, 'o) kube_client \<Rightarrow> ('o \<Rightarrow> string) \<Rightarrow> ('o \<Rightarrow> labels) \<Rightarrow>
   ('s \<Rightarrow> string \<Rightarrow> 'o option) \<Rightarrow> bool" where
  "kube_laws K C nm lbl abst \<longleftrightarrow>
     (\<forall>s n. case abst s n of Some o' \<Rightarrow> kc_Get C n s = Inr o'
        | None \<Rightarrow> \<exists>e. kc_Get C n s = Inl e \<and> apierrors_IsNotFound C e) \<and>
     (\<forall>s n o'. abst s n = Some o' \<longrightarrow> nm o' = n) \<and>
     (\<forall>d o' s. case kc_Create C (DryRunOption d) o' s of (s', r) \<Rightarrow>
        if abst s (nm o') = None
        then r = None \<and> abst s' = (if d then abst s else (abst s)(nm o' \<mapsto> o'))
        else abst s' = abst s \<and> (\<exists>e. r = Some e \<and> \<not> apierrors_IsNotFound C e \<and>
          (\<not> d \<longrightarrow> apierrors_IsAlreadyExists C e))) \<and>
     (\<forall>d o' s. case kc_Update C (DryRunOption d) o' s of (s', r) \<Rightarrow>
        if abst s (nm o') = None
        then abst s' = abst s \<and> (\<exists>e. r = Some e \<and> apierrors_IsNotFound C e)
        else r = None \<and> abst s' = (if d then abst s else (abst s)(nm o' \<mapsto> o'))) \<and>
     (\<forall>d n s. case kc_Delete C (DryRunOption d) n s of (s', r) \<Rightarrow>
        if abst s n = None then abst s' = abst s \<and> (\<exists>e. r = Some e \<and> apierrors_IsNotFound C e)
        else r = None \<and> abst s' = (if d then abst s else (abst s)(n := None))) \<and>
     (\<forall>sel s. \<exists>os. kc_List C (sel_String K sel) s = Inr os \<and>
        lists (abst s) (\<lambda>o'. Matches K sel (lbl o')) nm os) \<and>
     (\<forall>s. \<exists>os. kc_List C [] s = Inr os \<and> lists (abst s) (\<lambda>_. True) nm os)"

text \<open>A lister reads the objects of a namespace, from a cache or, in the mock, from the client.\<close>

record ('s, 'o, 'sel) lister =
  li_Get :: "string \<Rightarrow> 's \<Rightarrow> err + 'o"
  li_List :: "'sel \<Rightarrow> 's \<Rightarrow> err + 'o list"

definition MockLister_List ::
  "('sel, 'req) selectors \<Rightarrow> ('s, 'o) kube_client \<Rightarrow> 'sel \<Rightarrow> 's \<Rightarrow> err + 'o list" where
  "MockLister_List K C selector s = kc_List C (sel_String K selector) s"

definition MockLister_Get :: "('s, 'o) kube_client \<Rightarrow> string \<Rightarrow> 's \<Rightarrow> err + 'o" where
  "MockLister_Get C name s = kc_Get C name s"

definition NewMockConfigMapLister ::
  "('sel, 'req) selectors \<Rightarrow> ('s, 'o) kube_client \<Rightarrow> ('s, 'o, 'sel) lister" where
  "NewMockConfigMapLister K C = \<lparr>li_Get = MockLister_Get C, li_List = MockLister_List K C\<rparr>"

section \<open>The reactor of the fake client\<close>

text \<open>
  The fake client keeps its objects in an object tracker of client-go, here its \<open>Get\<close>. The reactor
  answers the calls with a dry-run option and passes on all others (\<open>None\<close>). A conflict, not
  "already exists", is what it answers to a dry run of a create.
\<close>

datatype 'o kube_action =
    CreateAction "string list" 'o
  | UpdateAction "string list" 'o
  | PatchAction "string list" string
  | DeleteAction "string list" string
  | OtherAction

definition NewConflict :: "string \<Rightarrow> err" where
  "NewConflict name = ApiError 409 ''Conflict''"

definition NewNotFound :: "string \<Rightarrow> err" where
  "NewNotFound name = ApiError 404 ''NotFound''"

definition DryRunReactor ::
  "('o \<Rightarrow> err + string) \<Rightarrow> (string \<Rightarrow> err + 'o) \<Rightarrow> 'o kube_action \<Rightarrow> (err + 'o option) option" where
  "DryRunReactor Accessor tracker_Get action =
     (case action of
        CreateAction dryRun obj \<Rightarrow>
          if length dryRun > 0 then
            Some (case Accessor obj of
                Inl e \<Rightarrow> Inl e
              | Inr name \<Rightarrow> (case tracker_Get name of Inr _ \<Rightarrow> Inl (NewConflict name) | Inl _ \<Rightarrow> Inr (Some obj)))
          else None
      | UpdateAction dryRun obj \<Rightarrow>
          if length dryRun > 0 then
            Some (case Accessor obj of
                Inl e \<Rightarrow> Inl e
              | Inr name \<Rightarrow> (case tracker_Get name of Inl _ \<Rightarrow> Inl (NewNotFound name) | Inr _ \<Rightarrow> Inr (Some obj)))
          else None
      | PatchAction dryRun name \<Rightarrow>
          if length dryRun > 0 then
            Some (case tracker_Get name of Inl _ \<Rightarrow> Inl (NewNotFound name) | Inr _ \<Rightarrow> Inr None)
          else None
      | DeleteAction dryRun name \<Rightarrow>
          if length dryRun > 0 then
            Some (case tracker_Get name of Inl _ \<Rightarrow> Inl (NewNotFound name) | Inr _ \<Rightarrow> Inr None)
          else None
      | OtherAction \<Rightarrow> None)"

section \<open>The ConfigMap store\<close>

record config_map =
  cm_Name :: string
  cm_Labels :: labels
  cm_Data :: "(string, string) gomap"

record 'v cm_config =
  cm_Namespace :: string
  cm_ImmutableLabels :: labels
  cm_LabelsEnricher :: "('v \<Rightarrow> err + labels) option"

text \<open>
  What a store holds besides its configuration: the client, the lister of its namespace, and the
  codec of \<open>encoding/json\<close>; \<open>zero\<close> is the zero value of \<open>V\<close>.
\<close>

record ('s, 'v, 'sel) cm_store =
  cms_client :: "('s, config_map) kube_client"
  cms_lister :: "string \<Rightarrow> ('s, config_map, 'sel) lister"
  cms_cfg :: "'v cm_config"
  cms_enc :: "'v \<Rightarrow> err + string"
  cms_dec :: "string \<Rightarrow> err + 'v"
  cms_zero :: 'v

definition CM_BuildLabels ::
  "('s, 'v, 'sel) cm_store \<Rightarrow> 'v \<Rightarrow> opt slice \<Rightarrow> (err + labels) \<times> opt slice" where
  "CM_BuildLabels c obj opts =
     BuildLabels obj (cm_ImmutableLabels (cms_cfg c)) (cm_LabelsEnricher (cms_cfg c)) opts"

definition CM_Create ::
  "('s, 'v, 'sel) cm_store \<Rightarrow> opt slice \<Rightarrow> string \<Rightarrow> 'v \<Rightarrow> 's \<Rightarrow> ('s, err option) outcome" where
  "CM_Create c opts key value s =
     (case cms_enc c value of
        Inl e \<Rightarrow> (s, arr opts, Some e)
      | Inr raw \<Rightarrow>
          (case CM_BuildLabels c value opts of
             (Inl e, opts) \<Rightarrow> (s, arr opts, Some e)
           | (Inr cmLabels, opts) \<Rightarrow>
               (case MatchDryRun opts of (dryRun, opts) \<Rightarrow>
                if len opts > 0 then (s, arr opts, Some (Sentinel ErrUnsupportedOption))
                else case kc_Create (cms_client c) (DryRunOption (or_false dryRun))
                    \<lparr>cm_Name = key, cm_Labels = cmLabels, cm_Data = [(''payload'', raw)]\<rparr> s of
                  (s, r) \<Rightarrow> (s, arr opts, r))))"

definition payload :: "config_map \<Rightarrow> string" where
  "payload cm = (case map_of (cm_Data cm) ''payload'' of None \<Rightarrow> [] | Some raw \<Rightarrow> raw)"

definition CM_Read ::
  "('s, 'v, 'sel) cm_store \<Rightarrow> opt slice \<Rightarrow> string \<Rightarrow> 's \<Rightarrow> ('s, err + 'v) outcome" where
  "CM_Read c opts key s =
     (s, arr opts,
      if len opts > 0 then Inl (Sentinel ErrUnsupportedOption)
      else case li_Get (cms_lister c (cm_Namespace (cms_cfg c))) key s of
          Inl e \<Rightarrow>
            if apierrors_IsNotFound (cms_client c) e then Inl (http_err ErrNotFound) else Inl e
        | Inr cm \<Rightarrow>
            (case cms_dec c (payload cm) of
               Inl e \<Rightarrow> Inl (Errorf ''failed to unmarshal configmap data'' [e])
             | Inr result \<Rightarrow> Inr result))"

definition CM_Update ::
  "('s, 'v, 'sel) cm_store \<Rightarrow> opt slice \<Rightarrow> string \<Rightarrow> 'v \<Rightarrow> 's \<Rightarrow> ('s, err option) outcome" where
  "CM_Update c opts key value s =
     (case cms_enc c value of
        Inl e \<Rightarrow> (s, arr opts, Some e)
      | Inr raw \<Rightarrow>
          (case CM_BuildLabels c value opts of
             (Inl e, opts) \<Rightarrow> (s, arr opts, Some e)
           | (Inr cmLabels, opts) \<Rightarrow>
               (case MatchDryRun opts of (dryRun, opts) \<Rightarrow>
                if len opts > 0 then (s, arr opts, Some (Sentinel ErrUnsupportedOption))
                else case kc_Update (cms_client c) (DryRunOption (or_false dryRun))
                    \<lparr>cm_Name = key, cm_Labels = cmLabels, cm_Data = [(''payload'', raw)]\<rparr> s of
                  (s, Some e) \<Rightarrow>
                    (s, arr opts, Some (if apierrors_IsNotFound (cms_client c) e then http_err ErrNotFound else e))
                | (s, None) \<Rightarrow> (s, arr opts, None))))"

definition CM_Apply ::
  "('s, 'v, 'sel) cm_store \<Rightarrow> opt slice \<Rightarrow> string \<Rightarrow> 'v \<Rightarrow> 's \<Rightarrow> ('s, err option) outcome" where
  "CM_Apply c opts key value s =
     (case CM_Update c opts key value s of
        (s, a, Some e) \<Rightarrow>
          if IsNotFound (apierrors_IsNotFound (cms_client c)) e then
            CM_Create c (caller_view opts a) key value s
          else (s, a, Some e)
      | (s, a, None) \<Rightarrow> (s, a, None))"

definition CM_Delete ::
  "('s, 'v, 'sel) cm_store \<Rightarrow> opt slice \<Rightarrow> string \<Rightarrow> 's \<Rightarrow> ('s, err option) outcome" where
  "CM_Delete c opts key s =
     (case MatchDryRun opts of (dryRun, opts) \<Rightarrow>
      if len opts > 0 then (s, arr opts, Some (Sentinel ErrUnsupportedOption))
      else case kc_Delete (cms_client c) (DryRunOption (or_false dryRun)) key s of
        (s, Some e) \<Rightarrow>
          (s, arr opts, Some (if apierrors_IsNotFound (cms_client c) e then http_err ErrNotFound else e))
      | (s, None) \<Rightarrow> (s, arr opts, None))"

fun CM_List_loop ::
  "('s, 'v, 'sel) cm_store \<Rightarrow> string \<Rightarrow> bool \<Rightarrow> config_map list \<Rightarrow> (string, 'v) ListItems \<Rightarrow>
   err + (string, 'v) ListItems" where
  "CM_List_loop c pre keysOnly [] items = Inr items"
| "CM_List_loop c pre keysOnly (item # maps) items =
     (if pre = [] \<or> prefix pre (cm_Name item) then
        (case (if \<not> keysOnly then cms_dec c (payload item) else Inr (cms_zero c)) of
           Inl e \<Rightarrow> Inl (Errorf (''failed to unmarshal configmap data for item '' @ cm_Name item) [e])
         | Inr parsed \<Rightarrow> CM_List_loop c pre keysOnly maps (items @ [(cm_Name item, parsed)]))
      else CM_List_loop c pre keysOnly maps items)"

definition CM_List ::
  "('sel, 'req) selectors \<Rightarrow> ('s, 'v, 'sel) cm_store \<Rightarrow> opt slice \<Rightarrow> 's \<Rightarrow>
   ('s, err + (string, 'v) ListItems) outcome" where
  "CM_List K c opts s =
     (case MatchLabelSelector opts of (selector, opts) \<Rightarrow>
      case MatchPrefix opts of (pre, opts) \<Rightarrow>
      case MatchListKeyOnly opts of (keysOnly, opts) \<Rightarrow>
      (s, arr opts,
       case CheckOptionsExhausted opts of
         Some e \<Rightarrow> Inl e
       | None \<Rightarrow>
           (case GenerateLabelSelector K (cm_ImmutableLabels (cms_cfg c)) (or_empty selector) of
              Inl e \<Rightarrow> Inl (Errorf ''failed to parse label selector'' [e])
            | Inr parsedSelector \<Rightarrow>
                (case li_List (cms_lister c (cm_Namespace (cms_cfg c))) parsedSelector s of
                   Inl e \<Rightarrow> Inl e
                 | Inr maps \<Rightarrow> CM_List_loop c (or_empty pre) (or_false keysOnly) maps []))))"

definition ConfigMap ::
  "('sel, 'req) selectors \<Rightarrow> ('s, 'v, 'sel) cm_store \<Rightarrow> ('s, string, 'v) store" where
  "ConfigMap K c =
     \<lparr>Create = CM_Create c, Read = CM_Read c, Update = CM_Update c, Apply = CM_Apply c,
      Delete = CM_Delete c, List = CM_List K c\<rparr>"

definition CM_New ::
  "'v cm_config \<Rightarrow> (string \<Rightarrow> ('s, config_map, 'sel) lister) \<Rightarrow> ('s, config_map) kube_client \<Rightarrow>
   ('v \<Rightarrow> err + string) \<Rightarrow> (string \<Rightarrow> err + 'v) \<Rightarrow> 'v \<Rightarrow> ('s, 'v, 'sel) cm_store" where
  "CM_New cfg lister cms enc dec zero =
     \<lparr>cms_client = cms, cms_lister = lister, cms_cfg = cfg, cms_enc = enc, cms_dec = dec, cms_zero = zero\<rparr>"

text \<open>\<open>NewFake\<close>: lister and store share one fake client, here the client of the namespace.\<close>

definition CM_NewFake ::
  "('sel, 'req) selectors \<Rightarrow> 'v cm_config \<Rightarrow> ('s, config_map) kube_client \<Rightarrow> ('v \<Rightarrow> err + string) \<Rightarrow>
   (string \<Rightarrow> err + 'v) \<Rightarrow> 'v \<Rightarrow> ('s, 'v, 'sel) cm_store" where
  "CM_NewFake K cfg client enc dec zero =
     CM_New cfg (\<lambda>namespace. NewMockConfigMapLister K client) client enc dec zero"

lemmas CM_defs = ConfigMap_def CM_Create_def CM_Read_def CM_Update_def CM_Apply_def CM_Delete_def
  CM_List_def CM_NewFake_def CM_New_def NewMockConfigMapLister_def MockLister_Get_def MockLister_List_def

section \<open>The laws, one by one\<close>

lemma kube_lawsD:
  assumes "kube_laws K C nm lbl abst"
  shows "abst s n = Some o' \<Longrightarrow> kc_Get C n s = Inr o'"
    and "abst s n = None \<Longrightarrow> \<exists>e. kc_Get C n s = Inl e \<and> apierrors_IsNotFound C e"
    and "abst s n = Some o' \<Longrightarrow> nm o' = n"
    and "kc_Create C (DryRunOption d) o' s = (s', r) \<Longrightarrow> abst s (nm o') = None \<Longrightarrow>
      r = None \<and> abst s' = (if d then abst s else (abst s)(nm o' \<mapsto> o'))"
    and "kc_Create C (DryRunOption d) o' s = (s', r) \<Longrightarrow> abst s (nm o') \<noteq> None \<Longrightarrow>
      abst s' = abst s \<and> (\<exists>e. r = Some e \<and> \<not> apierrors_IsNotFound C e \<and>
        (\<not> d \<longrightarrow> apierrors_IsAlreadyExists C e))"
    and "kc_Update C (DryRunOption d) o' s = (s', r) \<Longrightarrow> abst s (nm o') = None \<Longrightarrow>
      abst s' = abst s \<and> (\<exists>e. r = Some e \<and> apierrors_IsNotFound C e)"
    and "kc_Update C (DryRunOption d) o' s = (s', r) \<Longrightarrow> abst s (nm o') \<noteq> None \<Longrightarrow>
      r = None \<and> abst s' = (if d then abst s else (abst s)(nm o' \<mapsto> o'))"
    and "kc_Delete C (DryRunOption d) n s = (s', r) \<Longrightarrow> abst s n = None \<Longrightarrow>
      abst s' = abst s \<and> (\<exists>e. r = Some e \<and> apierrors_IsNotFound C e)"
    and "kc_Delete C (DryRunOption d) n s = (s', r) \<Longrightarrow> abst s n \<noteq> None \<Longrightarrow>
      r = None \<and> abst s' = (if d then abst s else (abst s)(n := None))"
    and "\<exists>os. kc_List C (sel_String K sel) s = Inr os \<and> lists (abst s) (\<lambda>o'. Matches K sel (lbl o')) nm os"
    and "\<exists>os. kc_List C [] s = Inr os \<and> lists (abst s) (\<lambda>_. True) nm os"
proof -
  note l = assms [unfolded kube_laws_def]
  show "kc_Get C n s = Inr o'" if "abst s n = Some o'"
    using l [THEN conjunct1, THEN spec, of s, THEN spec, of n] that by simp
  show "\<exists>e. kc_Get C n s = Inl e \<and> apierrors_IsNotFound C e" if "abst s n = None"
    using l [THEN conjunct1, THEN spec, of s, THEN spec, of n] that by simp
  show "nm o' = n" if "abst s n = Some o'"
    using l [THEN conjunct2, THEN conjunct1] that by blast
  note l = l [THEN conjunct2, THEN conjunct2]
  note cr = l [THEN conjunct1, THEN spec, of d, THEN spec, of o', THEN spec, of s]
  show "r = None \<and> abst s' = (if d then abst s else (abst s)(nm o' \<mapsto> o'))"
    if "kc_Create C (DryRunOption d) o' s = (s', r)" "abst s (nm o') = None"
    using cr that by simp
  show "abst s' = abst s \<and> (\<exists>e. r = Some e \<and> \<not> apierrors_IsNotFound C e \<and>
        (\<not> d \<longrightarrow> apierrors_IsAlreadyExists C e))"
    if "kc_Create C (DryRunOption d) o' s = (s', r)" "abst s (nm o') \<noteq> None"
    using cr that by simp
  note l = l [THEN conjunct2]
  note up = l [THEN conjunct1, THEN spec, of d, THEN spec, of o', THEN spec, of s]
  show "abst s' = abst s \<and> (\<exists>e. r = Some e \<and> apierrors_IsNotFound C e)"
    if "kc_Update C (DryRunOption d) o' s = (s', r)" "abst s (nm o') = None"
    using up that by simp
  show "r = None \<and> abst s' = (if d then abst s else (abst s)(nm o' \<mapsto> o'))"
    if "kc_Update C (DryRunOption d) o' s = (s', r)" "abst s (nm o') \<noteq> None"
    using up that by simp
  note l = l [THEN conjunct2]
  note de = l [THEN conjunct1, THEN spec, of d, THEN spec, of n, THEN spec, of s]
  show "abst s' = abst s \<and> (\<exists>e. r = Some e \<and> apierrors_IsNotFound C e)"
    if "kc_Delete C (DryRunOption d) n s = (s', r)" "abst s n = None"
    using de that by simp
  show "r = None \<and> abst s' = (if d then abst s else (abst s)(n := None))"
    if "kc_Delete C (DryRunOption d) n s = (s', r)" "abst s n \<noteq> None"
    using de that by simp
  note l = l [THEN conjunct2]
  show "\<exists>os. kc_List C (sel_String K sel) s = Inr os \<and> lists (abst s) (\<lambda>o'. Matches K sel (lbl o')) nm os"
    using l by blast
  show "\<exists>os. kc_List C [] s = Inr os \<and> lists (abst s) (\<lambda>_. True) nm os"
    using l by blast
qed

lemma DryRunOption_off [simp]: "DryRunOption False = []"
  by (simp add: DryRunOption_def)

lemmas kube_create = kube_lawsD(4,5) [where d = False, unfolded DryRunOption_off, simplified]
lemmas kube_update = kube_lawsD(6,7) [where d = False, unfolded DryRunOption_off, simplified]
lemmas kube_delete = kube_lawsD(8,9) [where d = False, unfolded DryRunOption_off, simplified]

section \<open>Listings up to order\<close>

text \<open>
  Kubernetes lists in no particular order. Up to that order: the store whose listings are sorted by
  key.
\<close>

definition sorted_lists :: "('s, 'k::linorder, 'v) store \<Rightarrow> ('s, 'k, 'v) store" where
  "sorted_lists S = S\<lparr>List := \<lambda>opts s. case List S opts s of
       (s, a, Inl e) \<Rightarrow> (s, a, Inl e)
     | (s, a, Inr items) \<Rightarrow> (s, a, Inr (sort_key fst items))\<rparr>"

lemma sorted_lists_simps [simp]:
  "Create (sorted_lists S) = Create S" "Read (sorted_lists S) = Read S"
  "Update (sorted_lists S) = Update S" "Apply (sorted_lists S) = Apply S"
  "Delete (sorted_lists S) = Delete S"
  by (simp_all add: sorted_lists_def)

lemma sorted_List:
  "List S opts s = (s', a, Inr items) \<Longrightarrow> List (sorted_lists S) opts s = (s', a, Inr (sort_key fst items))"
  by (simp add: sorted_lists_def)

text \<open>Objects listed once, as a listing of their values.\<close>

lemma lists_listing:
  assumes "lists m P nm os" "\<And>n o'. m n = Some o' \<Longrightarrow> nm o' = n"
  shows "listing (\<lambda>k. case m k of None \<Rightarrow> None | Some o' \<Rightarrow> if P o' then Some (f o') else None)
    (sort_key fst (map (\<lambda>o'. (nm o', f o')) os))"
proof (rule listing_sort)
  let ?xs = "map (\<lambda>o'. (nm o', f o')) os"
  show w: "wf_map ?xs" using assms(1) by (simp add: lists_def comp_def)
  show "map_of ?xs = (\<lambda>k. case m k of None \<Rightarrow> None | Some o' \<Rightarrow> if P o' then Some (f o') else None)"
  proof
    fix k
    show "map_of ?xs k = (case m k of None \<Rightarrow> None | Some o' \<Rightarrow> if P o' then Some (f o') else None)"
    proof (cases "\<exists>o' \<in> set os. nm o' = k")
      case True
      then obtain o' where o': "o' \<in> set os" "nm o' = k" by blast
      then have "(k, f o') \<in> set ?xs" by force
      then have "map_of ?xs k = Some (f o')" using w by (simp only: map_of_in_set)
      moreover have "m k = Some o'" "P o'" using o' assms(1) by (auto simp: lists_def)
      ultimately show ?thesis by simp
    next
      case False
      then have "map_of ?xs k = None" by (force simp: map_of_eq_None_iff)
      moreover have "\<not> P o'" if "m k = Some o'" for o'
      proof -
        have "nm o' = k" using that by (rule assms(2))
        with that False assms(1) show ?thesis unfolding lists_def by blast
      qed
      ultimately show ?thesis by (auto split: option.split)
    qed
  qed
qed

section \<open>The contract of the ConfigMap store\<close>

definition cm_value :: "('s, 'v, 'sel) cm_store \<Rightarrow> config_map \<Rightarrow> 'v" where
  "cm_value c cm = (case cms_dec c (payload cm) of Inl _ \<Rightarrow> cms_zero c | Inr v \<Rightarrow> v)"

definition CM_abs :: "('s, 'v, 'sel) cm_store \<Rightarrow> (string \<Rightarrow> config_map option) \<Rightarrow> string \<Rightarrow> 'v option" where
  "CM_abs c m k = map_option (cm_value c) (m k)"

definition CM_inv :: "('s, 'v, 'sel) cm_store \<Rightarrow> (string \<Rightarrow> config_map option) \<Rightarrow> bool" where
  "CM_inv c m \<longleftrightarrow> (\<forall>k cm. m k = Some cm \<longrightarrow>
     has_labels (cm_ImmutableLabels (cms_cfg c)) (cm_Labels cm) \<and> \<not> isl (cms_dec c (payload cm)))"

definition lab_cfg :: "'v cm_config \<Rightarrow> 'v lab_config" where
  "lab_cfg cfg = \<lparr>ImmutableLabels = cm_ImmutableLabels cfg, LabelsEnricher = cm_LabelsEnricher cfg\<rparr>"

definition CM_vok :: "('s, 'v, 'sel) cm_store \<Rightarrow> string \<Rightarrow> 'v \<Rightarrow> bool" where
  "CM_vok c k v \<longleftrightarrow> lab_vok (lab_cfg (cms_cfg c)) (\<lambda>_ _. True) k v \<and>
     (case cms_enc c v of Inl _ \<Rightarrow> False | Inr raw \<Rightarrow> cms_dec c raw = Inr v)"

lemma CM_abs_simps [simp]:
  "CM_abs c (m(k \<mapsto> cm)) = (CM_abs c m)(k \<mapsto> cm_value c cm)"
  "CM_abs c (m(k := None)) = (CM_abs c m)(k := None)"
  "CM_abs c m k = None \<longleftrightarrow> m k = None"
  by (auto simp: CM_abs_def fun_eq_iff)

lemma CM_inv_upd:
  "CM_inv c m \<Longrightarrow> CM_inv c (m(k := None))"
  "CM_inv c m \<Longrightarrow> has_labels (cm_ImmutableLabels (cms_cfg c)) (cm_Labels cm) \<Longrightarrow>
   \<not> isl (cms_dec c (payload cm)) \<Longrightarrow> CM_inv c (m(k \<mapsto> cm))"
  by (auto simp: CM_inv_def)

text \<open>The object an accepted value is written as.\<close>

lemma CM_write_ok:
  assumes "CM_vok c k v" "wf_map (cm_ImmutableLabels (cms_cfg c))"
  obtains raw ls where "cms_enc c v = Inr raw" "CM_BuildLabels c v nil_slice = (Inr ls, nil_slice)"
    "cm_value c \<lparr>cm_Name = k, cm_Labels = ls, cm_Data = [(''payload'', raw)]\<rparr> = v"
    "\<And>m. CM_inv c m \<Longrightarrow> CM_inv c (m(k \<mapsto> \<lparr>cm_Name = k, cm_Labels = ls, cm_Data = [(''payload'', raw)]\<rparr>))"
proof -
  let ?L = "lab_cfg (cms_cfg c)"
  have L: "CM_BuildLabels c v nil_slice = Lab_BuildLabels ?L v nil_slice"
    by (simp add: CM_BuildLabels_def Lab_BuildLabels_def lab_cfg_def)
  obtain raw where raw: "cms_enc c v = Inr raw" "cms_dec c raw = Inr v"
    using assms(1) by (auto simp: CM_vok_def split: sum.splits)
  from assms(1) obtain ol where ol: "obj_labels ?L v = Some ol"
    "list_all (\<lambda>(l, _). map_of ol l = None) (ImmutableLabels ?L)"
    by (auto simp: CM_vok_def lab_vok_def split: option.splits)
  let ?ls = "MergeMap ol [[], ImmutableLabels ?L]"
  let ?cm = "\<lparr>cm_Name = k, cm_Labels = ?ls, cm_Data = [(''payload'', raw)]\<rparr>"
  have "\<not> list_ex (\<lambda>(l, _). map_of ([] :: labels) l \<noteq> None \<or> map_of ol l \<noteq> None) (ImmutableLabels ?L)"
    using ol(2) by (auto simp: list_all_iff list_ex_iff)
  with Lab_BuildLabels_eq [of nil_slice None nil_slice ?L v] ol(1) L
  have b: "CM_BuildLabels c v nil_slice = (Inr ?ls, nil_slice)" by simp
  have im: "ImmutableLabels ?L = cm_ImmutableLabels (cms_cfg c)" by (simp add: lab_cfg_def)
  have h: "has_labels (cm_ImmutableLabels (cms_cfg c)) ?ls"
    using has_labels_map [OF _ map_of_MergeMap_last, of "ImmutableLabels ?L" ol "[]"] assms(2) im by simp
  have p: "payload ?cm = raw" by (simp add: payload_def)
  show thesis
  proof (rule that [OF raw(1) b])
    show "cm_value c ?cm = v" using raw(2) p by (simp add: cm_value_def)
    show "CM_inv c (m(k \<mapsto> ?cm))" if "CM_inv c m" for m
      by (rule CM_inv_upd(2) [OF that]) (use h p raw(2) in simp_all)
  qed
qed

lemma CM_List_loop_ok:
  "(\<And>cm. cm \<in> set maps \<Longrightarrow> \<not> isl (cms_dec c (payload cm))) \<Longrightarrow>
   CM_List_loop c [] False maps items = Inr (items @ map (\<lambda>cm. (cm_Name cm, cm_value c cm)) maps)"
proof (induction maps arbitrary: items)
  case (Cons cm maps)
  then have "\<not> isl (cms_dec c (payload cm))" by simp
  then obtain v where "cms_dec c (payload cm) = Inr v" by (cases "cms_dec c (payload cm)") auto
  with Cons show ?case by (simp add: cm_value_def)
qed simp

lemma ConfigMap_contract:
  assumes K: "selector_laws K rm" and C: "kube_laws K C cm_Name cm_Labels abst"
    and im: "wf_map (cm_ImmutableLabels cfg)"
    and c_def: "c = CM_NewFake K cfg C enc dec zero"
  shows "kv_store (sorted_lists (ConfigMap K c)) (\<lambda>s. CM_abs c (abst s)) (\<lambda>s. CM_inv c (abst s))
    (\<lambda>_. True) (CM_vok c)"
proof -
  have cfg: "cms_cfg c = cfg" "cms_client c = C" "cms_lister c = (\<lambda>_. NewMockConfigMapLister K C)"
    by (simp_all add: c_def CM_NewFake_def CM_New_def)
  have im': "wf_map (cm_ImmutableLabels (cms_cfg c))" using im by (simp add: cfg)
  have get: "CM_Read c nil_slice k s = (s, [], Inr v)" if "CM_inv c (abst s)" "CM_abs c (abst s) k = Some v" for s k v
  proof -
    from that(2) obtain cm where cm: "abst s k = Some cm" "v = cm_value c cm" by (auto simp: CM_abs_def)
    with that(1) have "\<not> isl (cms_dec c (payload cm))" by (auto simp: CM_inv_def)
    then have "cms_dec c (payload cm) = Inr v" using cm(2) by (cases "cms_dec c (payload cm)") (auto simp: cm_value_def)
    with kube_lawsD(1) [OF C cm(1)] show ?thesis
      by (simp add: CM_Read_def cfg NewMockConfigMapLister_def MockLister_Get_def)
  qed
  show ?thesis
  proof (unfold_locales, goal_cases)
    case (2 s k v s' a r)
    from CM_write_ok [OF 2(3) im'] obtain raw ls where w: "cms_enc c v = Inr raw"
      "CM_BuildLabels c v nil_slice = (Inr ls, nil_slice)"
      "cm_value c \<lparr>cm_Name = k, cm_Labels = ls, cm_Data = [(''payload'', raw)]\<rparr> = v"
      "\<And>m. CM_inv c m \<Longrightarrow> CM_inv c (m(k \<mapsto> \<lparr>cm_Name = k, cm_Labels = ls, cm_Data = [(''payload'', raw)]\<rparr>))" by metis
    obtain s1 r1 where e: "kc_Create C [] \<lparr>cm_Name = k, cm_Labels = ls, cm_Data = [(''payload'', raw)]\<rparr> s = (s1, r1)"
      by fastforce
    from kube_create(1) [OF C e] 2(4) have "r1 = None"
      "abst s1 = (abst s)(k \<mapsto> \<lparr>cm_Name = k, cm_Labels = ls, cm_Data = [(''payload'', raw)]\<rparr>)" by auto
    with 2 w e show ?case by (simp add: ConfigMap_def CM_Create_def cfg)
  next
    case (3 s k v s' a r)
    from CM_write_ok [OF 3(3) im'] obtain raw ls where w: "cms_enc c v = Inr raw"
      "CM_BuildLabels c v nil_slice = (Inr ls, nil_slice)" by metis
    obtain s1 r1 where e: "kc_Create C [] \<lparr>cm_Name = k, cm_Labels = ls, cm_Data = [(''payload'', raw)]\<rparr> s = (s1, r1)"
      by fastforce
    from kube_create(2) [OF C e] 3(4) have "r1 \<noteq> None" "abst s1 = abst s" by auto
    with 3 w e show ?case by (simp add: ConfigMap_def CM_Create_def cfg)
  next
    case (4 s k v s' a r)
    with get [OF 4(1,3)] show ?case by (simp add: ConfigMap_def)
  next
    case (5 s k s' a r)
    then have "abst s k = None" by simp
    from kube_lawsD(2) [OF C this] 5 show ?case
      by (auto simp: ConfigMap_def CM_Read_def cfg NewMockConfigMapLister_def MockLister_Get_def isl_def)
  next
    case (6 s k v s' a r)
    from CM_write_ok [OF 6(3) im'] obtain raw ls where w: "cms_enc c v = Inr raw"
      "CM_BuildLabels c v nil_slice = (Inr ls, nil_slice)"
      "cm_value c \<lparr>cm_Name = k, cm_Labels = ls, cm_Data = [(''payload'', raw)]\<rparr> = v"
      "\<And>m. CM_inv c m \<Longrightarrow> CM_inv c (m(k \<mapsto> \<lparr>cm_Name = k, cm_Labels = ls, cm_Data = [(''payload'', raw)]\<rparr>))" by metis
    obtain s1 r1 where e: "kc_Update C [] \<lparr>cm_Name = k, cm_Labels = ls, cm_Data = [(''payload'', raw)]\<rparr> s = (s1, r1)"
      by fastforce
    from kube_update(2) [OF C e] 6(4) have "r1 = None"
      "abst s1 = (abst s)(k \<mapsto> \<lparr>cm_Name = k, cm_Labels = ls, cm_Data = [(''payload'', raw)]\<rparr>)" by auto
    with 6 w e show ?case by (simp add: ConfigMap_def CM_Update_def cfg)
  next
    case (7 s k v s' a r)
    from CM_write_ok [OF 7(3) im'] obtain raw ls where w: "cms_enc c v = Inr raw"
      "CM_BuildLabels c v nil_slice = (Inr ls, nil_slice)" by metis
    obtain s1 r1 where e: "kc_Update C [] \<lparr>cm_Name = k, cm_Labels = ls, cm_Data = [(''payload'', raw)]\<rparr> s = (s1, r1)"
      by fastforce
    from kube_update(1) [OF C e] 7(4) have "r1 \<noteq> None" "abst s1 = abst s" by auto
    with 7 w e show ?case by (auto simp: ConfigMap_def CM_Update_def cfg)
  next
    case (8 s k v s' a r)
    from CM_write_ok [OF 8(3) im'] obtain raw ls where w: "cms_enc c v = Inr raw"
      "CM_BuildLabels c v nil_slice = (Inr ls, nil_slice)"
      "cm_value c \<lparr>cm_Name = k, cm_Labels = ls, cm_Data = [(''payload'', raw)]\<rparr> = v"
      "\<And>m. CM_inv c m \<Longrightarrow> CM_inv c (m(k \<mapsto> \<lparr>cm_Name = k, cm_Labels = ls, cm_Data = [(''payload'', raw)]\<rparr>))" by metis
    let ?cm = "\<lparr>cm_Name = k, cm_Labels = ls, cm_Data = [(''payload'', raw)]\<rparr>"
    obtain s1 r1 where e: "kc_Update C [] ?cm s = (s1, r1)" by fastforce
    show ?case
    proof (cases "abst s k")
      case None
      from kube_update(1) [OF C e] None obtain er where u: "r1 = Some er" "apierrors_IsNotFound C er" "abst s1 = abst s"
        by auto
      obtain s2 r2 where e2: "kc_Create C [] ?cm s1 = (s2, r2)" by fastforce
      from kube_create(1) [OF C e2] None u have "r2 = None" "abst s2 = (abst s)(k \<mapsto> ?cm)" by auto
      with 8 w e e2 u show ?thesis
        by (simp add: ConfigMap_def CM_Apply_def CM_Update_def CM_Create_def cfg IsNotFound_def caller_view_def)
    next
      case (Some cm0)
      from kube_update(2) [OF C e] Some have "r1 = None" "abst s1 = (abst s)(k \<mapsto> ?cm)" by auto
      with 8 w e show ?thesis by (simp add: ConfigMap_def CM_Apply_def CM_Update_def cfg)
    qed
  next
    case (9 s k s' a r)
    obtain s1 r1 where e: "kc_Delete C [] k s = (s1, r1)" by fastforce
    from kube_delete(2) [OF C e] 9 have "r1 = None" "abst s1 = (abst s)(k := None)" by auto
    with 9 e show ?case by (simp add: ConfigMap_def CM_Delete_def cfg CM_inv_upd)
  next
    case (10 s k s' a r)
    obtain s1 r1 where e: "kc_Delete C [] k s = (s1, r1)" by fastforce
    from kube_delete(1) [OF C e] 10 obtain er where "r1 = Some er" "abst s1 = abst s" by auto
    with 10 e show ?case by (auto simp: ConfigMap_def CM_Delete_def cfg)
  next
    case (11 s s' a r)
    from GenerateLabelSelector_none [OF K im'] obtain sel where
      sel: "GenerateLabelSelector K (cm_ImmutableLabels (cms_cfg c)) [] = Inr sel"
        "\<And>ls. Matches K sel ls \<longleftrightarrow> has_labels (cm_ImmutableLabels (cms_cfg c)) ls" by blast
    from kube_lawsD(10) [OF C, of sel s] obtain os where
      os: "kc_List C (sel_String K sel) s = Inr os" "lists (abst s) (\<lambda>o'. Matches K sel (cm_Labels o')) cm_Name os" by blast
    have "\<not> isl (cms_dec c (payload cm))" if "cm \<in> set os" for cm
      using that os(2) 11(1) by (auto simp: lists_def CM_inv_def)
    from CM_List_loop_ok [OF this, of os "[]"]
    have l: "List (ConfigMap K c) nil_slice s = (s, [], Inr (map (\<lambda>cm. (cm_Name cm, cm_value c cm)) os))"
      using sel(1) os(1)
      by (simp add: ConfigMap_def CM_List_def cfg NewMockConfigMapLister_def MockLister_List_def)
    have "CM_abs c (abst s) = (\<lambda>k. case abst s k of None \<Rightarrow> None
        | Some o' \<Rightarrow> if Matches K sel (cm_Labels o') then Some (cm_value c o') else None)"
      using 11(1) by (auto simp: CM_abs_def CM_inv_def sel(2) fun_eq_iff split: option.split)
    with lists_listing [where f = "cm_value c", OF os(2) kube_lawsD(3) [OF C]] sorted_List [OF l] 11
    show ?case by auto
  qed simp
qed

section \<open>An instance of the client\<close>

text \<open>
  A cluster as a list of objects, and selectors whose text can be read back. They keep the laws and
  show that the hypotheses of the properties can hold; the repository does not use them.
\<close>

definition text_of_string :: "string \<Rightarrow> string" where
  "text_of_string s = concat (map (\<lambda>c. [CHR ''x'', c]) s) @ [CHR ''.'']"

fun strings_of_text :: "string \<Rightarrow> string \<Rightarrow> string list" where
  "strings_of_text acc [] = []"
| "strings_of_text acc [c] = [acc]"
| "strings_of_text acc (c # d # t) =
     (if c = CHR ''x'' then strings_of_text (acc @ [d]) t else acc # strings_of_text [] (d # t))"

fun pair_up :: "'a list \<Rightarrow> ('a \<times> 'a) list" where
  "pair_up (a # b # xs) = (a, b) # pair_up xs"
| "pair_up _ = []"

definition text_selectors :: "((string \<times> string) list, string \<times> string) selectors" where
  "text_selectors = eq_selectors\<lparr>sel_String := \<lambda>sel. concat (map (\<lambda>(k, v). text_of_string k @ text_of_string v) sel)\<rparr>"

lemma strings_of_text: "strings_of_text acc (text_of_string s @ t) = (acc @ s) # strings_of_text [] t"
proof (induction s arbitrary: acc)
  case Nil
  then show ?case by (cases t) (simp_all add: text_of_string_def)
qed (simp add: text_of_string_def)

lemma text_selectors_read: "pair_up (strings_of_text [] (sel_String text_selectors sel)) = sel"
  by (induction sel) (auto simp: text_selectors_def strings_of_text split: prod.splits)

lemma text_selector_laws: "selector_laws text_selectors (\<lambda>r ls. (\<lambda>(k, v). map_of ls k = Some v) r)"
  using eq_selector_laws by (simp add: selector_laws_def text_selectors_def)

definition list_client :: "('o \<Rightarrow> string) \<Rightarrow> ('o \<Rightarrow> labels) \<Rightarrow> ('o list, 'o) kube_client" where
  "list_client nm lbl =
     (let at = (\<lambda>n s. find (\<lambda>o'. nm o' = n) s) in
     \<lparr>kc_Get = (\<lambda>n s. case at n s of None \<Rightarrow> Inl (NewNotFound n) | Some o' \<Rightarrow> Inr o'),
      kc_Create = (\<lambda>d o' s. if at (nm o') s = None then (if d = [] then s @ [o'] else s, None)
        else (s, Some (ApiError 409 ''AlreadyExists''))),
      kc_Update = (\<lambda>d o' s. if at (nm o') s = None then (s, Some (NewNotFound (nm o')))
        else (if d = [] then map (\<lambda>x. if nm x = nm o' then o' else x) s else s, None)),
      kc_UpdateStatus = (\<lambda>d o' s. (s, None)), kc_ApplyStatus = (\<lambda>d n o' s. (s, None)),
      kc_Delete = (\<lambda>d n s. if at n s = None then (s, Some (NewNotFound n))
        else (if d = [] then filter (\<lambda>x. nm x \<noteq> n) s else s, None)),
      kc_List = (\<lambda>t s. Inr (filter (\<lambda>o'. Matches text_selectors (pair_up (strings_of_text [] t)) (lbl o') \<and>
        at (nm o') s = Some o') (remdups s))),
      apierrors_IsNotFound = (\<lambda>e. e = ApiError 404 ''NotFound''),
      apierrors_IsAlreadyExists = (\<lambda>e. e = ApiError 409 ''AlreadyExists'')\<rparr>)"

lemma find_named: "find (\<lambda>o'. nm o' = n) s = Some o' \<Longrightarrow> nm o' = n \<and> o' \<in> set s"
  by (auto simp: find_Some_iff)

lemma find_replace_other:
  "k \<noteq> n \<Longrightarrow> nm x = n \<Longrightarrow>
   find (\<lambda>o'. nm o' = k) (map (\<lambda>y. if nm y = n then x else y) s) = find (\<lambda>o'. nm o' = k) s"
  by (induction s) auto

lemma find_replace_same:
  "find (\<lambda>o'. nm o' = n) s \<noteq> None \<Longrightarrow> nm x = n \<Longrightarrow>
   find (\<lambda>o'. nm o' = n) (map (\<lambda>y. if nm y = n then x else y) s) = Some x"
  by (induction s) (auto split: if_splits)

lemma find_replace:
  "find (\<lambda>o'. nm o' = n) s \<noteq> None \<Longrightarrow> nm x = n \<Longrightarrow>
   find (\<lambda>o'. nm o' = k) (map (\<lambda>y. if nm y = n then x else y) s) =
     (if k = n then Some x else find (\<lambda>o'. nm o' = k) s)"
  using find_replace_other [of k n nm x s] find_replace_same [of nm n s x] by simp

lemma find_remove:
  "find (\<lambda>o'. nm o' = k) (filter (\<lambda>x. nm x \<noteq> n) s) = (if k = n then None else find (\<lambda>o'. nm o' = k) s)"
  by (induction s) auto

lemma list_client_lists:
  "lists (\<lambda>n. find (\<lambda>o'. nm o' = n) s) P nm
     (filter (\<lambda>o'. P o' \<and> find (\<lambda>x. nm x = nm o') s = Some o') (remdups s))"
proof -
  let ?os = "filter (\<lambda>o'. P o' \<and> find (\<lambda>x. nm x = nm o') s = Some o') (remdups s)"
  have "inj_on nm (set ?os)" by (rule inj_onI) simp
  then have "distinct (map nm ?os)" by (simp add: distinct_map del: set_filter)
  moreover have "o' \<in> set ?os \<longleftrightarrow> find (\<lambda>x. nm x = nm o') s = Some o' \<and> P o'" for o'
    using find_named [of nm "nm o'" s o'] by auto
  ultimately show ?thesis unfolding lists_def by blast
qed

lemma list_client_laws:
  "kube_laws text_selectors (list_client nm lbl) nm lbl (\<lambda>s n. find (\<lambda>o'. nm o' = n) s)"
proof -
  have all: "(\<lambda>o'. Matches text_selectors [] (lbl o')) = (\<lambda>_. True)"
    by (simp add: text_selectors_def eq_selectors_def)
  show ?thesis unfolding kube_laws_def
  proof (intro conjI allI, goal_cases)
    case (6 sel s)
    show ?case using list_client_lists [of nm s "\<lambda>o'. Matches text_selectors sel (lbl o')"]
      by (simp add: list_client_def Let_def text_selectors_read)
  next
    case (7 s)
    show ?case using list_client_lists [of nm s "\<lambda>o'. Matches text_selectors [] (lbl o')"]
      by (simp add: list_client_def Let_def all)
  qed (auto simp: list_client_def Let_def NewNotFound_def DryRunOption_def find_append find_replace
      find_remove fun_eq_iff dest: find_named split: option.splits)
qed

section \<open>Properties\<close>

text \<open>
  C21. The ConfigMap store with the fake client answers every sequence of calls as a map of the decoded
  payloads, listings up to order, for values that can be encoded and whose labels stay clear of the
  immutable ones; every object keeps the immutable labels and a payload that decodes.
\<close>

theorem ConfigMap_refines_map:
  assumes "selector_laws K rm" "kube_laws K C cm_Name cm_Labels abst" "wf_map (cm_ImmutableLabels cfg)"
    and "c = CM_NewFake K cfg C enc dec zero" "CM_inv c (abst s)"
    and "\<forall>x \<in> set cs. call_ok (\<lambda>_. True) (CM_vok c) x"
    and "run (sorted_lists (ConfigMap K c)) cs s = (s', answers)"
  shows "CM_inv c (abst s') \<and> spec_run cs (CM_abs c (abst s)) (CM_abs c (abst s')) answers"
  using kv_store.run_refines [OF ConfigMap_contract [OF assms(1-4)] assms(5,6,7)] .

text \<open>A store of texts under one immutable label.\<close>

definition example_cm :: "(config_map list, string, (string \<times> string) list) cm_store" where
  "example_cm = CM_NewFake text_selectors
     \<lparr>cm_Namespace = ''ns'', cm_ImmutableLabels = [(''app'', ''x'')], cm_LabelsEnricher = None\<rparr>
     (list_client cm_Name cm_Labels) Inr Inr []"

theorem ConfigMap_refines_map_witness:
  "spec_run [CApply ''a'' ''1'', CRead ''a''] Map.empty [''a'' \<mapsto> ''1''] [Done, Value ''1'']"
proof -
  let ?s = "[\<lparr>cm_Name = ''a'', cm_Labels = [(''app'', ''x'')], cm_Data = [(''payload'', ''1'')]\<rparr>]"
  have "run (sorted_lists (ConfigMap text_selectors example_cm)) [CApply ''a'' ''1'', CRead ''a''] [] =
      (?s, [Done, Value ''1''])"
    by (simp add: example_cm_def CM_defs CM_BuildLabels_def BuildLabels_def list_client_def MergeMap_def
        maps_Copy_def IsNotFound_def NewNotFound_def caller_view_def answer_of_def payload_def Let_def)
  from ConfigMap_refines_map [OF text_selector_laws list_client_laws _ example_cm_def _ _ this]
  have "spec_run [CApply ''a'' ''1'', CRead ''a''] (CM_abs example_cm (\<lambda>n. find (\<lambda>o'. cm_Name o' = n) []))
      (CM_abs example_cm (\<lambda>n. find (\<lambda>o'. cm_Name o' = n) ?s)) [Done, Value ''1'']"
    by (simp add: CM_inv_def CM_vok_def lab_vok_def obj_labels_def lab_cfg_def example_cm_def
        CM_NewFake_def CM_New_def)
  moreover have "CM_abs example_cm (\<lambda>n. find (\<lambda>o'. cm_Name o' = n) []) = Map.empty"
    "CM_abs example_cm (\<lambda>n. find (\<lambda>o'. cm_Name o' = n) ?s) = [''a'' \<mapsto> ''1'']"
    by (auto simp: CM_abs_def fun_eq_iff cm_value_def payload_def example_cm_def CM_NewFake_def CM_New_def)
  ultimately show ?thesis by simp
qed

text \<open>
  An \<open>Apply\<close> with labels and a dry run of a key that does not exist fails with
  \<open>ErrUnsupportedOption\<close>: its \<open>Update\<close> has taken the options out of the array they share, and its
  \<open>Create\<close> finds the dry run twice.
\<close>

theorem CM_Apply_consumes_options:
  assumes "kube_laws K (cms_client c) cm_Name cm_Labels abst" "abst s key = None"
    and "cms_enc c value = Inr raw" "cm_LabelsEnricher (cms_cfg c) = None"
    and "\<not> list_ex (\<lambda>(l, _). map_of ls l \<noteq> None) (cm_ImmutableLabels (cms_cfg c))"
  shows "\<exists>s' a. CM_Apply c (slice_of [WithLabels ls, DryRun]) key value s =
    (s', a, Some (Sentinel ErrUnsupportedOption)) \<and> abst s' = abst s"
proof -
  have m: "MatchLabels (slice_of [WithLabels ls, DryRun]) = (Some ls, Slice [DryRun, DryRun] 1)"
    "MatchDryRun (Slice [DryRun, DryRun] (Suc 0)) = (Some True, Slice [DryRun, DryRun] 0)"
    "MatchLabels (Slice [DryRun, DryRun] 2) = (None, Slice [DryRun, DryRun] 2)"
    "MatchDryRun (Slice [DryRun, DryRun] 2) = (Some True, Slice [DryRun, DryRun] 1)"
    by (simp_all add: MatchLabels_def WithLabels_def DryRun_def matcher_defs slice_of_def
        MatchOption.simps MatchOption_loop.simps live_def)
  have nf: "find (\<lambda>(k, _). map_of ls k \<noteq> None) (cm_ImmutableLabels (cms_cfg c)) = None"
    using assms(5) by (auto simp: find_None_iff list_ex_iff)
  obtain L where L: "CM_BuildLabels c value (slice_of [WithLabels ls, DryRun]) = (Inr L, Slice [DryRun, DryRun] 1)"
    using nf by (simp add: CM_BuildLabels_def BuildLabels_def m assms(4) Let_def)
  have none: "find (\<lambda>(k, _). False) xs = None" for xs :: labels
    by (induction xs) auto
  obtain L2 where L2: "CM_BuildLabels c value (Slice [DryRun, DryRun] 2) = (Inr L2, Slice [DryRun, DryRun] 2)"
    by (simp add: CM_BuildLabels_def BuildLabels_def m assms(4) Let_def none)
  let ?cm = "\<lparr>cm_Name = key, cm_Labels = L, cm_Data = [(''payload'', raw)]\<rparr>"
  obtain s1 r1 where e: "kc_Update (cms_client c) (DryRunOption True) ?cm s = (s1, r1)" by fastforce
  from kube_lawsD(6) [OF assms(1) e] assms(2) obtain er where
    er: "r1 = Some er" "apierrors_IsNotFound (cms_client c) er" "abst s1 = abst s" by auto
  have "CM_Update c (slice_of [WithLabels ls, DryRun]) key value s =
      (s1, [DryRun, DryRun], Some (http_err ErrNotFound))"
    using e er by (simp add: CM_Update_def assms(3) L m)
  then have "CM_Apply c (slice_of [WithLabels ls, DryRun]) key value s =
      CM_Create c (Slice [DryRun, DryRun] 2) key value s1"
    by (simp add: CM_Apply_def IsNotFound_def caller_view_def numeral_2_eq_2)
  also have "\<dots> = (s1, [DryRun, DryRun], Some (Sentinel ErrUnsupportedOption))"
    by (simp add: CM_Create_def assms(3) L2 m)
  finally show ?thesis using er(3) by blast
qed

theorem CM_Apply_consumes_options_witness:
  "\<exists>s' a. CM_Apply example_cm (slice_of [WithLabels [], DryRun]) ''a'' ''1'' [] =
    (s', a, Some (Sentinel ErrUnsupportedOption))"
proof -
  have "kube_laws text_selectors (cms_client example_cm) cm_Name cm_Labels (\<lambda>s n. find (\<lambda>o'. cm_Name o' = n) s)"
    using list_client_laws by (simp add: example_cm_def CM_NewFake_def CM_New_def)
  from CM_Apply_consumes_options [of text_selectors example_cm "\<lambda>s n. find (\<lambda>o'. cm_Name o' = n) s" "[]" "''a''"
      "''1''" "''1''" "[]", OF this] show ?thesis
    by (auto simp: example_cm_def CM_NewFake_def CM_New_def)
qed

end
