(* ===== verification/Claimlock.thy ===== *)
theory Claimlock
  imports Store_API Slices
begin

text \<open>
  Delegation of locks, \<open>pkg/store/utilities/claimlock\<close>: the runner lists the running controllers,
  claims every lock whose owner is not among them, and then waits for a controller to be deleted.

  The claimer is a record over the state \<open>'s\<close> of the locks. The Kubernetes client is what it answers:
  the names of the pods of a listing, and the signals a watch delivers. The clock of the \<open>Sleep\<close>
  before a round is not modelled; what others do to the locks meanwhile is a change of the state.
\<close>

section \<open>Configuration\<close>

record claim_config =
  Latency :: int
  WatchTimeout :: int
  cl_LabelSelector :: string

definition claim_ApplyDefaults :: "claim_config \<Rightarrow> claim_config" where
  "claim_ApplyDefaults c =
     (let c = (if Latency c = 0 then c\<lparr>Latency := 60000000000\<rparr> else c)
      in if WatchTimeout c = 0 then c\<lparr>WatchTimeout := 3600\<rparr> else c)"

text \<open>\<open>Validate\<close> fills in the defaults of the configuration it is given, also when it fails.\<close>

definition claim_Validate :: "claim_config \<Rightarrow> claim_config \<times> err option" where
  "claim_Validate c =
     (let c = claim_ApplyDefaults c
      in (c, if cl_LabelSelector c = [] then Some (new_error ''label selector cannot be empty'') else None))"

section \<open>The claimer\<close>

record ('s, 'v) claimer =
  GetLocks :: "'s \<Rightarrow> err + (string, 'v) ListItems"
  GetLockOwner :: "'v \<Rightarrow> 's \<Rightarrow> err + string"
  ClaimLock :: "string \<Rightarrow> 'v \<Rightarrow> 's \<Rightarrow> 's \<times> err option"

definition NewAnonymousClaimer ::
  "('s \<Rightarrow> err + (string, 'v) ListItems) \<Rightarrow> ('v \<Rightarrow> 's \<Rightarrow> err + string) \<Rightarrow>
   (string \<Rightarrow> 'v \<Rightarrow> 's \<Rightarrow> 's \<times> err option) \<Rightarrow> ('s, 'v) claimer" where
  "NewAnonymousClaimer locks owner claim = \<lparr>GetLocks = locks, GetLockOwner = owner, ClaimLock = claim\<rparr>"

record ('s, 'v) claim_lock =
  cl_claimer :: "('s, 'v) claimer"
  cl_cfg :: claim_config

definition claim_New :: "('s, 'v) claimer \<Rightarrow> claim_config \<Rightarrow> err + ('s, 'v) claim_lock" where
  "claim_New claimer cfg =
     (case claim_Validate cfg of
        (cfg, Some e) \<Rightarrow> Inl e
      | (cfg, None) \<Rightarrow> Inr \<lparr>cl_claimer = claimer, cl_cfg = cfg\<rparr>)"

section \<open>A check\<close>

fun CheckLocks_loop ::
  "('s, 'v) claimer \<Rightarrow> (string, string) gomap \<Rightarrow> (string, 'v) ListItems \<Rightarrow> 's \<Rightarrow> 's \<times> err option" where
  "CheckLocks_loop cl controllers [] s = (s, None)"
| "CheckLocks_loop cl controllers ((k, v) # locks) s =
     (case GetLockOwner cl v s of
        Inl e \<Rightarrow> (s, Some e)
      | Inr lockOwner \<Rightarrow>
          if lockOwner = [] then CheckLocks_loop cl controllers locks s
          else if map_of controllers lockOwner = None then
            (case ClaimLock cl k v s of
               (s, Some e) \<Rightarrow> (s, Some e)
             | (s, None) \<Rightarrow> CheckLocks_loop cl controllers locks s)
          else CheckLocks_loop cl controllers locks s)"

definition CheckLocks :: "('s, 'v) claim_lock \<Rightarrow> err + string list \<Rightarrow> 's \<Rightarrow> 's \<times> err option" where
  "CheckLocks c pods s =
     (case pods of
        Inl e \<Rightarrow> (s, Some e)
      | Inr names \<Rightarrow>
          (let controllers = Slices.Map (Transform names (\<lambda>n. n)) (\<lambda>name. name) in
           case GetLocks (cl_claimer c) s of
             Inl e \<Rightarrow> (s, Some e)
           | Inr locks \<Rightarrow> CheckLocks_loop (cl_claimer c) controllers locks s))"

section \<open>The loop\<close>

text \<open>
  What the \<open>select\<close> of \<open>monitorEvents\<close> receives, one after the other. \<open>None\<close>: it still waits when
  they are used up.
\<close>

datatype event_type = Added | Modified | Deleted | Bookmark | WatchError

datatype signal = Event event_type | ResultClosed | CtxDone

fun monitor_loop :: "signal list \<Rightarrow> signal list option" where
  "monitor_loop [] = None"
| "monitor_loop (Event t # signals) = (if t = Deleted then Some signals else monitor_loop signals)"
| "monitor_loop (ResultClosed # signals) = Some signals"
| "monitor_loop (CtxDone # signals) = Some signals"

definition monitorEvents :: "err + signal list \<Rightarrow> err option option" where
  "monitorEvents watch =
     (case watch of
        Inl e \<Rightarrow> Some (Some e)
      | Inr signals \<Rightarrow> (case monitor_loop signals of None \<Rightarrow> None | Some _ \<Rightarrow> Some None))"

text \<open>
  A round of \<open>Run\<close>: whether the context is done at its start, what others do to the locks before it
  looks at them, what its listing answers, and what its watch delivers. After its rounds \<open>Run\<close>
  either still runs or has returned.
\<close>

record 's round =
  rd_done :: bool
  rd_env :: "'s \<Rightarrow> 's"
  rd_pods :: "err + string list"
  rd_watch :: "err + signal list"

datatype run_result = Running | Returned "err option"

fun claim_Run :: "('s, 'v) claim_lock \<Rightarrow> 's round list \<Rightarrow> 's \<Rightarrow> 's \<times> run_result" where
  "claim_Run c [] s = (s, Running)"
| "claim_Run c (r # rs) s =
     (if rd_done r then (s, Returned None)
      else case CheckLocks c (rd_pods r) (rd_env r s) of
          (s, Some e) \<Rightarrow> (s, Returned (Some e))
        | (s, None) \<Rightarrow>
            (case monitorEvents (rd_watch r) of
               None \<Rightarrow> (s, Running)
             | Some (Some e) \<Rightarrow> (s, Returned (Some e))
             | Some None \<Rightarrow> claim_Run c rs s))"

section \<open>Orphaned locks\<close>

text \<open>
  The contract of a claimer, for a view of the locks as a map: it lists each lock once, the owner is
  a function of the lock, and a claim gives the lock to one of the controllers \<open>alive\<close> or fails and
  changes nothing.
\<close>

definition claimer_laws ::
  "('s, 'v) claimer \<Rightarrow> ('s \<Rightarrow> string \<Rightarrow> 'v option) \<Rightarrow> ('v \<Rightarrow> string) \<Rightarrow> string list \<Rightarrow> bool" where
  "claimer_laws cl abst owner alive \<longleftrightarrow>
     (\<forall>s. case GetLocks cl s of Inl _ \<Rightarrow> True | Inr items \<Rightarrow> wf_map items \<and> map_of items = abst s) \<and>
     (\<forall>v s. GetLockOwner cl v s = Inr (owner v)) \<and>
     (\<forall>k v s. case ClaimLock cl k v s of
        (s', Some _) \<Rightarrow> abst s' = abst s
      | (s', None) \<Rightarrow> \<exists>w. abst s' = (abst s)(k \<mapsto> w) \<and> owner w \<in> set alive)"

definition orphan :: "('v \<Rightarrow> string) \<Rightarrow> string list \<Rightarrow> 'v \<Rightarrow> bool" where
  "orphan owner alive v \<longleftrightarrow> owner v \<noteq> [] \<and> owner v \<notin> set alive"

lemma claimer_lawsD:
  assumes "claimer_laws cl abst owner alive"
  shows "GetLocks cl s = Inr items \<Longrightarrow> wf_map items \<and> map_of items = abst s"
    and "GetLockOwner cl v s = Inr (owner v)"
    and "ClaimLock cl k v s = (s', Some e) \<Longrightarrow> abst s' = abst s"
    and "ClaimLock cl k v s = (s', None) \<Longrightarrow> \<exists>w. abst s' = (abst s)(k \<mapsto> w) \<and> owner w \<in> set alive"
proof -
  note l = assms [unfolded claimer_laws_def]
  show "GetLocks cl s = Inr items \<Longrightarrow> wf_map items \<and> map_of items = abst s"
    using l [THEN conjunct1, THEN spec, of s] by simp
  show "GetLockOwner cl v s = Inr (owner v)" using l by blast
  note l3 = l [THEN conjunct2, THEN conjunct2, THEN spec, of k, THEN spec, of v, THEN spec, of s]
  show "ClaimLock cl k v s = (s', Some e) \<Longrightarrow> abst s' = abst s" using l3 by simp
  show "ClaimLock cl k v s = (s', None) \<Longrightarrow> \<exists>w. abst s' = (abst s)(k \<mapsto> w) \<and> owner w \<in> set alive"
    using l3 by simp
qed

lemma Map_of_names: "map_of (Slices.Map (Transform names (\<lambda>n. n)) (\<lambda>name. name)) n = None \<longleftrightarrow> n \<notin> set names"
proof -
  have "map_of (fold (\<lambda>x m. AList.update x x m) names m0) n = None \<longleftrightarrow> n \<notin> set names \<and> map_of m0 n = None" for m0
    by (induction names arbitrary: m0) auto
  then show ?thesis by (simp add: Slices.Map_def Transform_def)
qed

text \<open>
  What the loop does to the locks it has listed: it touches no others, keeps those with an owner that
  is alive, and when it ends without an error leaves none orphaned.
\<close>

lemma CheckLocks_loop_ok:
  assumes l: "claimer_laws cl abst owner alive" and m: "\<And>n. map_of m n = None \<longleftrightarrow> n \<notin> set alive"
  shows "CheckLocks_loop cl m locks s = (s', r) \<Longrightarrow> wf_map locks \<Longrightarrow> \<forall>k v. (k, v) \<in> set locks \<longrightarrow> abst s k = Some v \<Longrightarrow>
    dom (abst s') = dom (abst s) \<and> (\<forall>k. k \<notin> fst ` set locks \<longrightarrow> abst s' k = abst s k) \<and>
    (\<forall>k v. abst s k = Some v \<and> \<not> orphan owner alive v \<longrightarrow> abst s' k = Some v) \<and>
    (r = None \<longrightarrow> (\<forall>k \<in> fst ` set locks. \<forall>v. abst s' k = Some v \<longrightarrow> \<not> orphan owner alive v))"
proof (induction locks arbitrary: s)
  case (Cons kv locks)
  obtain k v where kv: "kv = (k, v)" by fastforce
  have v: "abst s k = Some v" using Cons.prems(3) kv by simp
  have k: "k \<notin> fst ` set locks" using Cons.prems(2) kv by simp
  have w: "wf_map locks" using Cons.prems(2) kv by simp
  have pre: "\<forall>k v. (k, v) \<in> set locks \<longrightarrow> abst s k = Some v" using Cons.prems(3) by simp
  show ?case
  proof (cases "orphan owner alive v")
    case False
    then have "CheckLocks_loop cl m locks s = (s', r)"
      using Cons.prems(1) kv m by (auto simp: claimer_lawsD(2) [OF l] orphan_def split: if_splits)
    note IH = Cons.IH [OF this w pre]
    then have at: "abst s' k = Some v" using v False by blast
    have img: "fst ` set (kv # locks) = insert k (fst ` set locks)" by (simp add: kv)
    have "\<not> orphan owner alive v'" if "abst s' k = Some v'" for v' using at False that by simp
    then show ?thesis unfolding img using IH by blast
  next
    case True
    obtain s1 r1 where c: "ClaimLock cl k v s = (s1, r1)" by fastforce
    show ?thesis
    proof (cases r1)
      case (Some e)
      with c have "abst s1 = abst s" using claimer_lawsD(3) [OF l] by blast
      moreover have "s' = s1 \<and> r = Some e" using Cons.prems(1) True c Some kv m
        by (auto simp: claimer_lawsD(2) [OF l] orphan_def)
      ultimately show ?thesis by simp
    next
      case None
      from claimer_lawsD(4) [OF l c [unfolded None]] obtain u where
        u: "abst s1 = (abst s)(k \<mapsto> u)" "owner u \<in> set alive" by blast
      have e: "CheckLocks_loop cl m locks s1 = (s', r)" using Cons.prems(1) True c None kv m
        by (auto simp: claimer_lawsD(2) [OF l] orphan_def)
      have "\<forall>k v. (k, v) \<in> set locks \<longrightarrow> abst s1 k = Some v"
      proof (intro allI impI)
        fix k' v' assume kv': "(k', v') \<in> set locks"
        then have "k' \<noteq> k" using k by force
        with kv' pre u(1) show "abst s1 k' = Some v'" by simp
      qed
      note IH = Cons.IH [OF e w this]
      note IH = IH [THEN conjunct1] IH [THEN conjunct2, THEN conjunct1]
        IH [THEN conjunct2, THEN conjunct2, THEN conjunct1] IH [THEN conjunct2, THEN conjunct2, THEN conjunct2]
      have new: "abst s' k = Some u" "\<not> orphan owner alive u" using IH(2) k u by (simp_all add: orphan_def)
      have old: "abst s1 k' = abst s k'" if "k' \<noteq> k" for k' using u(1) that by simp
      have keep: "abst s' k' = Some v'" if "abst s k' = Some v'" "\<not> orphan owner alive v'" for k' v'
      proof (cases "k' = k")
        case False
        with old that IH(3) show ?thesis by simp
      qed (use that v True in simp)
      have "\<not> orphan owner alive v'" if "r = None" "k' \<in> insert k (fst ` set locks)" "abst s' k' = Some v'" for k' v'
        using that new IH(4) by (cases "k' = k") auto
      moreover have "dom (abst s') = dom (abst s)"
        unfolding IH(1) u(1) using v by (simp add: insert_absorb domI)
      moreover have "abst s' k' = abst s k'" if "k' \<noteq> k" "k' \<notin> fst ` set locks" for k' using that old IH(2) by simp
      ultimately show ?thesis using keep by (simp add: kv)
    qed
  qed
qed simp

lemma CheckLocks_ok:
  assumes l: "claimer_laws (cl_claimer c) abst owner alive" and e: "CheckLocks c (Inr alive) s = (s', r)"
  shows "dom (abst s') = dom (abst s)"
    and "abst s k = Some v \<Longrightarrow> \<not> orphan owner alive v \<Longrightarrow> abst s' k = Some v"
    and "r = None \<Longrightarrow> abst s' k = Some v \<Longrightarrow> \<not> orphan owner alive v"
proof -
  have "dom (abst s') = dom (abst s) \<and>
    (\<forall>k v. abst s k = Some v \<and> \<not> orphan owner alive v \<longrightarrow> abst s' k = Some v) \<and>
    (r = None \<longrightarrow> (\<forall>k v. abst s' k = Some v \<longrightarrow> \<not> orphan owner alive v))"
  proof (cases "GetLocks (cl_claimer c) s")
    case (Inl er)
    with e show ?thesis by (auto simp: CheckLocks_def Let_def)
  next
    case (Inr locks)
    from claimer_lawsD(1) [OF l Inr] have w: "wf_map locks" "map_of locks = abst s" by auto
    have "CheckLocks_loop (cl_claimer c) (Slices.Map (Transform alive (\<lambda>n. n)) (\<lambda>name. name)) locks s = (s', r)"
      using e Inr by (simp add: CheckLocks_def Let_def)
    note ok = CheckLocks_loop_ok [OF l Map_of_names this w(1)]
    have "\<forall>k v. (k, v) \<in> set locks \<longrightarrow> abst s k = Some v" using w by (metis map_of_is_SomeI)
    note ok = ok [OF this]
    moreover have "k \<in> fst ` set locks" if "abst s' k = Some v" for k v
    proof -
      have "k \<in> dom (abst s)" using ok that by blast
      then show ?thesis using w(2) by (metis dom_map_of_conv_image_fst)
    qed
    ultimately show ?thesis by blast
  qed
  then show "dom (abst s') = dom (abst s)"
    "abst s k = Some v \<Longrightarrow> \<not> orphan owner alive v \<Longrightarrow> abst s' k = Some v"
    "r = None \<Longrightarrow> abst s' k = Some v \<Longrightarrow> \<not> orphan owner alive v" by blast+
qed

lemma monitor_loop_deleted: "monitor_loop (pre @ Event Deleted # post) \<noteq> None"
proof (induction pre)
  case (Cons x pre)
  then show ?case by (cases x) auto
qed simp

lemma CheckLocks_succeeds:
  assumes l: "claimer_laws (cl_claimer c) abst owner alive"
    and "\<forall>s. \<not> isl (GetLocks (cl_claimer c) s)" "\<forall>k v s. snd (ClaimLock (cl_claimer c) k v s) = None"
  shows "snd (CheckLocks c (Inr alive) s) = None"
proof -
  have "snd (CheckLocks_loop (cl_claimer c) m locks s) = None" for m locks s
  proof (induction locks arbitrary: s)
    case (Cons kv locks)
    obtain k v where kv: "kv = (k, v)" by fastforce
    obtain s1 where "ClaimLock (cl_claimer c) k v s = (s1, None)" using assms(3) by (metis prod.collapse)
    with Cons kv show ?case by (simp add: claimer_lawsD(2) [OF l])
  qed simp
  moreover obtain locks where "GetLocks (cl_claimer c) s = Inr locks" using assms(2) by (metis isl_def sum.collapse(2))
  ultimately show ?thesis by (simp add: CheckLocks_def Let_def)
qed

section \<open>Properties\<close>

text \<open>A claimer of locks whose value is their owner, which hands every lock to one controller.\<close>

definition example_claimer :: "string \<Rightarrow> ((string, string) gomap, string) claimer" where
  "example_claimer me = NewAnonymousClaimer (\<lambda>s. Inr (AList.clearjunk s)) (\<lambda>v s. Inr v)
     (\<lambda>k v s. (AList.update k me s, None))"

definition example_lock :: "((string, string) gomap, string) claim_lock" where
  "example_lock = \<lparr>cl_claimer = example_claimer ''p2'',
     cl_cfg = \<lparr>Latency = 1, WatchTimeout = 1, cl_LabelSelector = ''a''\<rparr>\<rparr>"

lemma example_lock_laws: "''p2'' \<in> set alive \<Longrightarrow> claimer_laws (cl_claimer example_lock) map_of (\<lambda>v. v) alive"
  by (auto simp: claimer_laws_def example_lock_def example_claimer_def NewAnonymousClaimer_def
      distinct_clearjunk map_of_clearjunk)

text \<open>
  C24. A check of the locks never adds or removes a lock, leaves the locks of running controllers and
  those without an owner alone, and when it returns without an error every lock with an owner
  belongs to a running controller.
\<close>

theorem CheckLocks_leaves_no_orphans:
  assumes "claimer_laws (cl_claimer c) abst owner alive"
    and "CheckLocks c (Inr alive) s = (s', r)"
  shows "dom (abst s') = dom (abst s) \<and>
    (\<forall>k v. abst s k = Some v \<and> \<not> orphan owner alive v \<longrightarrow> abst s' k = Some v) \<and>
    (r = None \<longrightarrow> (\<forall>k v. abst s' k = Some v \<longrightarrow> \<not> orphan owner alive v))"
  using CheckLocks_ok [OF assms] by blast

theorem CheckLocks_leaves_no_orphans_witness:
  "map_of (fst (CheckLocks example_lock (Inr [''p1'', ''p2'']) [(''a'', ''p1''), (''b'', ''p9'')])) ''a'' = Some ''p1''"
proof -
  obtain s' r where e: "CheckLocks example_lock (Inr [''p1'', ''p2'']) [(''a'', ''p1''), (''b'', ''p9'')] = (s', r)"
    by fastforce
  have "map_of [(''a'', ''p1''), (''b'', ''p9'')] ''a'' = Some ''p1''" "\<not> orphan (\<lambda>v. v) [''p1'', ''p2''] ''p1''"
    by (simp_all add: orphan_def)
  with CheckLocks_leaves_no_orphans [OF example_lock_laws e] e show ?thesis by simp
qed

text \<open>
  While nothing fails and the context is not done, every deletion of a controller starts a new
  round, and after it no lock belongs to a controller that is not in the listing of the last round,
  whatever others did to the locks in between.
\<close>

theorem claim_Run_reacts:
  assumes "\<forall>r \<in> set (rs @ [l]). \<not> rd_done r \<and>
      (\<exists>alive. rd_pods r = Inr alive \<and> claimer_laws (cl_claimer c) abst owner alive)"
    and "\<forall>s. \<not> isl (GetLocks (cl_claimer c) s)" "\<forall>k v s. snd (ClaimLock (cl_claimer c) k v s) = None"
    and "\<forall>r \<in> set rs. \<exists>pre post. rd_watch r = Inr (pre @ Event Deleted # post)"
    and "rd_pods l = Inr alive"
  shows "\<forall>k v. abst (fst (claim_Run c (rs @ [l]) s)) k = Some v \<longrightarrow> \<not> orphan owner alive v"
  using assms(1,4)
proof (induction rs arbitrary: s)
  case Nil
  then have l: "claimer_laws (cl_claimer c) abst owner alive" using assms(5) by auto
  obtain s1 where e: "CheckLocks c (Inr alive) (rd_env l s) = (s1, None)"
    using CheckLocks_succeeds [OF l assms(2,3)] by (metis prod.collapse)
  have "fst (claim_Run c [l] s) = s1"
    using Nil e assms(5) by (auto split: option.split)
  with CheckLocks_ok(3) [OF l e] show ?case by simp
next
  case (Cons r rs)
  from Cons.prems(1) have "\<exists>alive. rd_pods r = Inr alive \<and> claimer_laws (cl_claimer c) abst owner alive" by simp
  then obtain al where l: "rd_pods r = Inr al" "claimer_laws (cl_claimer c) abst owner al" by blast
  obtain s1 where e: "CheckLocks c (Inr al) (rd_env r s) = (s1, None)"
    using CheckLocks_succeeds [OF l(2) assms(2,3)] by (metis prod.collapse)
  have "monitorEvents (rd_watch r) = Some None"
    using Cons.prems(2) monitor_loop_deleted by (fastforce simp: monitorEvents_def split: option.split)
  then have "claim_Run c ((r # rs) @ [l']) s = claim_Run c (rs @ [l']) s1" for l'
    using e l(1) Cons.prems(1) by simp
  moreover have "\<forall>k v. abst (fst (claim_Run c (rs @ [l]) s1)) k = Some v \<longrightarrow> \<not> orphan owner alive v"
    using Cons.prems by (intro Cons.IH) auto
  ultimately show ?case by simp
qed

theorem claim_Run_reacts_witness:
  "map_of (fst (claim_Run example_lock
     [\<lparr>rd_done = False, rd_env = id, rd_pods = Inr [''p1'', ''p2''], rd_watch = Inr [Event Added, Event Deleted]\<rparr>,
      \<lparr>rd_done = False, rd_env = id, rd_pods = Inr [''p2''], rd_watch = Inr []\<rparr>]
     [(''a'', ''p1'')])) ''a'' \<noteq> Some ''p1''"
proof -
  let ?r = "\<lparr>rd_done = False, rd_env = id, rd_pods = Inr [''p1'', ''p2''], rd_watch = Inr ([Event Added] @ Event Deleted # [])\<rparr>"
  let ?l = "\<lparr>rd_done = False, rd_env = id, rd_pods = Inr [''p2''], rd_watch = Inr []\<rparr>"
  have laws: "claimer_laws (cl_claimer example_lock) map_of (\<lambda>v. v) [''p1'', ''p2'']"
    "claimer_laws (cl_claimer example_lock) map_of (\<lambda>v. v) [''p2'']"
    by (rule example_lock_laws, simp)+
  have locks: "GetLocks (cl_claimer example_lock) s = Inr (AList.clearjunk s)"
    "snd (ClaimLock (cl_claimer example_lock) k v s) = None" for k v s
    by (simp_all add: example_lock_def example_claimer_def NewAnonymousClaimer_def)
  have "\<forall>k v. map_of (fst (claim_Run example_lock ([?r] @ [?l]) [(''a'', ''p1'')])) k = Some v \<longrightarrow> \<not> orphan (\<lambda>v. v) [''p2''] v"
    by (rule claim_Run_reacts)
      (use laws in \<open>auto simp: locks simp del: append.simps\<close>)
  then show ?thesis by (auto simp: orphan_def)
qed

end
