(* ===== verification/Graceful.thy ===== *)
theory Graceful
  imports Errors Slices
begin

text \<open>
  Graceful shutdown, \<open>pkg/graceful\<close>.

  Times are nanoseconds on one clock. A function under supervision is described by what it does for
  a given time of cancellation of its context: the time at which it ends and how, or \<open>None\<close> when it
  never ends. A context is the error it already has, or the time at which it will be done (its
  parent is cancelled or the process gets SIGINT or SIGTERM). \<open>pick\<close> is the choice of \<open>select\<close> when a
  function ends at the very moment its time is up: true for the channel of the function.
\<close>

section \<open>Options\<close>

definition DefaultShutdownTimeout :: int where
  "DefaultShutdownTimeout = 30000000000"

definition DefaultFailFast :: bool where
  "DefaultFailFast = True"

record RunAllOptions =
  ra_FailFast :: bool
  ra_ShutdownTimeout :: int

type_synonym RunOptions = int

definition DefaultRunAllOptions :: RunAllOptions where
  "DefaultRunAllOptions = \<lparr>ra_FailFast = DefaultFailFast, ra_ShutdownTimeout = DefaultShutdownTimeout\<rparr>"

definition FailFast :: RunAllOptions where
  "FailFast = DefaultRunAllOptions"

definition NewRunOptions :: "int \<Rightarrow> RunOptions" where
  "NewRunOptions shutdownTimeout = shutdownTimeout"

definition NewRunAllOptions :: "bool \<Rightarrow> int \<Rightarrow> RunAllOptions" where
  "NewRunAllOptions failFast shutdownTimeout =
     \<lparr>ra_FailFast = failFast, ra_ShutdownTimeout = shutdownTimeout\<rparr>"

section \<open>One function\<close>

text \<open>After \<open>runtime.Goexit\<close> the deferred close runs and \<open>data\<close> keeps its zero value.\<close>

datatype 'a ending = Ends 'a | Panics | Goexits

type_synonym 'a supervised = "int option \<Rightarrow> (int \<times> 'a ending) option"

record go_ctx =
  cx_Err :: "err option"
  cx_Done :: "int option"

fun ending_result :: "'a \<Rightarrow> 'a ending \<Rightarrow> 'a \<times> err option" where
  "ending_result zero (Ends a) = (a, None)"
| "ending_result zero Panics = (zero, Some (Errorf [] [Sentinel ErrPanicRecovered]))"
| "ending_result zero Goexits = (zero, None)"

definition shutdown_error :: err where
  "shutdown_error = Errorf ''the provided do function did not finish'' [Sentinel CtxDeadlineExceeded]"

text \<open>
  \<open>RunT\<close>, called at time \<open>t0\<close>: the time at which it returns, the data and the error. The first
  \<open>select\<close> ends at \<open>s\<close>, when the function ends or the context is done; the second waits for the
  function until \<open>s\<close> plus the timeout. Where both channels are ready at once \<open>pick\<close> decides, and a
  choice of the timer replaces the error while \<open>data\<close> has been written. With a timeout of zero or less
  the timer is ready when the second \<open>select\<close> is entered, also after a function that has ended.
\<close>

definition RunT ::
  "bool \<Rightarrow> 'a \<Rightarrow> int \<Rightarrow> go_ctx \<Rightarrow> 'a supervised \<Rightarrow> RunOptions list \<Rightarrow> (int \<times> 'a \<times> err option) option" where
  "RunT pick zero t0 ctx do' opts =
     (case cx_Err ctx of
        Some e \<Rightarrow> Some (t0, zero, Some e)
      | None \<Rightarrow>
          (let timeout = max 0 (Opt DefaultShutdownTimeout opts) in
           case (do' (cx_Done ctx), cx_Done ctx) of
             (None, None) \<Rightarrow> None
           | (None, Some c) \<Rightarrow> Some (c + timeout, zero, Some shutdown_error)
           | (Some (t, a), done_at) \<Rightarrow>
               (let s = (case done_at of None \<Rightarrow> t | Some c \<Rightarrow> min t c) in
                if t < s + timeout \<or> t = s + timeout \<and> pick then Some (t, ending_result zero a)
                else if t = s + timeout then Some (t, fst (ending_result zero a), Some shutdown_error)
                else Some (s + timeout, zero, Some shutdown_error))))"

definition Run ::
  "bool \<Rightarrow> int \<Rightarrow> go_ctx \<Rightarrow> err option supervised \<Rightarrow> RunOptions list \<Rightarrow> (int \<times> err option) option" where
  "Run pick t0 ctx do' opts =
     (case RunT pick None t0 ctx do' [Opt DefaultShutdownTimeout opts] of
        None \<Rightarrow> None
      | Some (t, result, Some e) \<Rightarrow> Some (t, Some e)
      | Some (t, result, None) \<Rightarrow> Some (t, result))"

section \<open>Many functions\<close>

text \<open>
  With \<open>FailFast\<close> the first function that returns an error cancels the context of all. \<open>first_failure\<close>
  is that moment.
\<close>

definition failures :: "(int \<times> err option) option list \<Rightarrow> (int \<times> err) list" where
  "failures rs = List.map_filter (\<lambda>r. case r of Some (t, Some e) \<Rightarrow> Some (t, e) | _ \<Rightarrow> None) rs"

definition first_failure :: "(int \<times> err option) option list \<Rightarrow> int option" where
  "first_failure rs = (case failures rs of [] \<Rightarrow> None | fs \<Rightarrow> Some (Min (fst ` set fs)))"

fun earliest :: "int option \<Rightarrow> int option \<Rightarrow> int option" where
  "earliest None b = b"
| "earliest a None = a"
| "earliest (Some a) (Some b) = Some (min a b)"

definition RunAllBackground ::
  "bool \<Rightarrow> int \<Rightarrow> go_ctx \<Rightarrow> err option supervised list \<Rightarrow> RunAllOptions list \<Rightarrow>
   (int \<times> err option) option list" where
  "RunAllBackground pick t0 ctx doFn opts =
     (let o' = Opt \<lparr>ra_FailFast = DefaultFailFast, ra_ShutdownTimeout = DefaultShutdownTimeout\<rparr> opts;
          alone = map (\<lambda>fn. Run pick t0 ctx fn [ra_ShutdownTimeout o']) doFn
      in if ra_FailFast o' then
           map (\<lambda>fn. Run pick t0 (ctx\<lparr>cx_Done := earliest (cx_Done ctx) (first_failure alone)\<rparr>) fn
             [ra_ShutdownTimeout o']) doFn
         else alone)"

definition RunBackground ::
  "bool \<Rightarrow> int \<Rightarrow> go_ctx \<Rightarrow> err option supervised \<Rightarrow> RunAllOptions list \<Rightarrow>
   (int \<times> err option) option list" where
  "RunBackground pick t0 ctx doFn opts = RunAllBackground pick t0 ctx [doFn] opts"

text \<open>
  The error channel holds the errors in the order of time and is closed when every goroutine has
  returned; a range over it ends then, or never.
\<close>

definition error_channel :: "(int \<times> err option) option list \<Rightarrow> (int \<times> err list) option" where
  "error_channel rs =
     (if None \<in> set rs then None
      else Some (Max (insert 0 (fst ` the ` set rs)), map snd (sort_key fst (failures rs))))"

definition RunAll ::
  "bool \<Rightarrow> int \<Rightarrow> go_ctx \<Rightarrow> err option supervised list \<Rightarrow> (int \<times> err option) option" where
  "RunAll pick t0 ctx doFn =
     map_option (\<lambda>(t, allErrs). (t, join_errors (map Some allErrs)))
       (error_channel (RunAllBackground pick t0 ctx doFn [FailFast]))"

text \<open>
  A function that returns a channel is described by the first value its channel delivers (\<open>nil\<close> when
  it is closed); \<open><-f(ctx)\<close> makes it a function as above.
\<close>

type_synonym channel_fn = "int option \<Rightarrow> (int \<times> err option) option"

definition receive_from :: "channel_fn \<Rightarrow> err option supervised" where
  "receive_from f c = map_option (\<lambda>(t, e). (t, Ends e)) (f c)"

definition RunAllBackgroundFunc ::
  "bool \<Rightarrow> int \<Rightarrow> go_ctx \<Rightarrow> channel_fn list \<Rightarrow> RunAllOptions list \<Rightarrow> (int \<times> err option) option list" where
  "RunAllBackgroundFunc pick t0 ctx doFn opts =
     RunAllBackground pick t0 ctx (map receive_from doFn) opts"

definition RunAllBackgroundFuncE ::
  "bool \<Rightarrow> int \<Rightarrow> go_ctx \<Rightarrow> channel_fn list \<Rightarrow> RunAllOptions list \<Rightarrow> (int \<times> err option) option" where
  "RunAllBackgroundFuncE pick t0 ctx doFn opts =
     map_option (\<lambda>(t, allErrs). (t, join_errors (map Some allErrs)))
       (error_channel (RunAllBackgroundFunc pick t0 ctx doFn opts))"

section \<open>Periodic functions\<close>

text \<open>
  The goroutine of \<open>RunPeriodically\<close> waits in its \<open>select\<close>, or for room in the channel of one
  element, or has returned and closed the channel. \<open>PTick r\<close> is a tick at which the function returned
  \<open>r\<close> (\<open>None\<close> is \<open>nil\<close>), \<open>PRecv\<close> a receive by the consumer.
\<close>

datatype 'a periodic_pc = Selecting | Sending 'a | Closed

record 'a periodic =
  pp_pc :: "'a periodic_pc"
  pp_buffer :: "'a option"
  pp_received :: "'a list"

datatype 'a periodic_event = PTick "'a option" | PDone | PRecv

definition periodic_start :: "'a periodic" where
  "periodic_start = \<lparr>pp_pc = Selecting, pp_buffer = None, pp_received = []\<rparr>"

fun RunPeriodically_step :: "'a periodic_event \<Rightarrow> 'a periodic \<Rightarrow> 'a periodic" where
  "RunPeriodically_step (PTick r) s =
     (case (pp_pc s, r) of
        (Selecting, Some res) \<Rightarrow>
          (if pp_buffer s = None then s\<lparr>pp_buffer := Some res\<rparr> else s\<lparr>pp_pc := Sending res\<rparr>)
      | _ \<Rightarrow> s)"
| "RunPeriodically_step PDone s =
     (case pp_pc s of Selecting \<Rightarrow> s\<lparr>pp_pc := Closed\<rparr> | _ \<Rightarrow> s)"
| "RunPeriodically_step PRecv s =
     (case pp_buffer s of
        None \<Rightarrow> s
      | Some x \<Rightarrow>
          (case pp_pc s of
             Sending res \<Rightarrow> s\<lparr>pp_received := pp_received s @ [x], pp_buffer := Some res, pp_pc := Selecting\<rparr>
           | _ \<Rightarrow> s\<lparr>pp_received := pp_received s @ [x], pp_buffer := None\<rparr>))"

definition RunPeriodically :: "'a periodic_event list \<Rightarrow> 'a periodic" where
  "RunPeriodically es = fold RunPeriodically_step es periodic_start"

text \<open>A consumer that stops reading keeps the goroutine in its send, also after the end of the context.\<close>

lemma blocked_forever:
  assumes "pp_pc s = Sending r" "PRecv \<notin> set es"
  shows "fold RunPeriodically_step es s = s"
proof -
  have "RunPeriodically_step e s = s" if "e \<noteq> PRecv" for e
    using assms(1) that by (cases e) simp_all
  with assms(2) show ?thesis by (induction es) auto
qed

section \<open>Returning in time\<close>

lemma RunT_ends:
  assumes "cx_Err ctx = None" "do' (Some c) = Some (t, a)" "cx_Done ctx = Some c"
  shows "RunT pick zero t0 ctx do' [timeout] =
      (let s = min t c; d = max 0 timeout in
       if t < s + d \<or> t = s + d \<and> pick then Some (t, ending_result zero a)
       else if t = s + d then Some (t, fst (ending_result zero a), Some shutdown_error)
       else Some (s + d, zero, Some shutdown_error))"
  using assms by (simp add: RunT_def Let_def)

lemma RunT_done:
  assumes "cx_Err ctx = None" "cx_Done ctx = Some c"
  shows "do' (Some c) = None \<Longrightarrow>
      RunT pick zero t0 ctx do' [timeout] = Some (c + max 0 timeout, zero, Some shutdown_error)"
    and "do' (Some c) = Some (t, a) \<Longrightarrow> t < c + max 0 timeout \<Longrightarrow> 0 < timeout \<Longrightarrow>
      RunT pick zero t0 ctx do' [timeout] = Some (t, ending_result zero a)"
    and "do' (Some c) = Some (t, a) \<Longrightarrow>
      \<exists>t' r. RunT pick zero t0 ctx do' [timeout] = Some (t', r) \<and> t' \<le> c + max 0 timeout \<and>
        (r = (zero, Some shutdown_error) \<or>
         t' = t \<and> (r = ending_result zero a \<or> r = (fst (ending_result zero a), Some shutdown_error)))"
proof -
  show "RunT pick zero t0 ctx do' [timeout] = Some (c + max 0 timeout, zero, Some shutdown_error)"
    if "do' (Some c) = None"
    using assms that by (simp add: RunT_def)
  note e = RunT_ends [where do' = do' and c = c and t = t and a = a and ctx = ctx, OF assms(1) _ assms(2)]
  show "RunT pick zero t0 ctx do' [timeout] = Some (t, ending_result zero a)"
    if "do' (Some c) = Some (t, a)" "t < c + max 0 timeout" "0 < timeout"
    using that(2,3) by (simp add: e [OF that(1)] Let_def min_def)
  show "\<exists>t' r. RunT pick zero t0 ctx do' [timeout] = Some (t', r) \<and> t' \<le> c + max 0 timeout \<and>
        (r = (zero, Some shutdown_error) \<or>
         t' = t \<and> (r = ending_result zero a \<or> r = (fst (ending_result zero a), Some shutdown_error)))"
    if "do' (Some c) = Some (t, a)"
  proof -
    have "min t c + max 0 timeout \<le> c + max 0 timeout" by simp
    moreover from this have "t \<le> min t c + max 0 timeout \<Longrightarrow> t \<le> c + max 0 timeout" by linarith
    ultimately show ?thesis
      by (cases "ending_result zero a")
        (auto simp: e [OF that] Let_def)
  qed
qed

lemma RunT_not_done:
  assumes "cx_Err ctx = None" "cx_Done ctx = None"
  shows "RunT pick zero t0 ctx do' [timeout] =
    map_option (\<lambda>(t, a). (t, if 0 < timeout \<or> pick then ending_result zero a
      else (fst (ending_result zero a), Some shutdown_error))) (do' None)"
  using assms by (cases "do' None") (auto simp: RunT_def Let_def max_def)

definition flat :: "int \<times> err option \<times> err option \<Rightarrow> int \<times> err option" where
  "flat r = (case r of (t, result, None) \<Rightarrow> (t, result) | (t, result, Some e) \<Rightarrow> (t, Some e))"

lemma Run_flat: "Run pick t0 ctx do' [timeout] = map_option flat (RunT pick None t0 ctx do' [timeout])"
  by (auto simp: Run_def flat_def split: option.splits prod.splits)

lemma fst_flat [simp]: "fst (flat r) = fst r"
  by (simp add: flat_def split: prod.splits option.splits)

lemma Run_cancelled:
  assumes "cx_Err ctx = None" "cx_Done ctx = Some c"
  shows "\<exists>t e. Run pick t0 ctx do' [timeout] = Some (t, e) \<and> t \<le> c + max 0 timeout"
proof -
  have "\<exists>r. RunT pick None t0 ctx do' [timeout] = Some r \<and> fst r \<le> c + max 0 timeout"
  proof (cases "do' (Some c)")
    case None
    with RunT_done(1) [OF assms, of do' pick None t0 timeout] show ?thesis by auto
  next
    case (Some ta)
    obtain t a where "ta = (t, a)" by (cases ta)
    with Some RunT_done(3) [OF assms, of do' t a pick None t0 timeout] show ?thesis by auto
  qed
  then obtain r where "RunT pick None t0 ctx do' [timeout] = Some r" "fst (flat r) \<le> c + max 0 timeout"
    by auto
  then show ?thesis by (cases "flat r") (simp add: Run_flat)
qed

text \<open>
  A function does not know the future: if it ends by two times of cancellation, it ends the same way
  for both.
\<close>

definition causal :: "'a supervised \<Rightarrow> bool" where
  "causal do' \<longleftrightarrow> (\<forall>c c' t a. do' c = Some (t, a) \<longrightarrow> pred_option (\<lambda>x. t \<le> x) c \<longrightarrow>
     pred_option (\<lambda>x. t \<le> x) c' \<longrightarrow> do' c' = Some (t, a))"

lemma causalD:
  "causal do' \<Longrightarrow> do' c = Some (t, a) \<Longrightarrow> pred_option (\<lambda>x. t \<le> x) c \<Longrightarrow>
   pred_option (\<lambda>x. t \<le> x) c' \<Longrightarrow> do' c' = Some (t, a)"
  unfolding causal_def by blast

lemma failures_iff: "(t, e) \<in> set (failures rs) \<longleftrightarrow> Some (t, Some e) \<in> set rs"
  by (induction rs) (auto simp: failures_def List.map_filter_simps split: option.splits prod.splits)

lemma first_failure_Some:
  assumes "first_failure rs = Some f"
  shows "\<exists>e. Some (f, Some e) \<in> set rs"
proof -
  from assms have ne: "failures rs \<noteq> []" and f: "f = Min (fst ` set (failures rs))"
    by (auto simp: first_failure_def split: list.splits)
  from ne have "f \<in> fst ` set (failures rs)" unfolding f by (intro Min_in) auto
  then show ?thesis using failures_iff by fastforce
qed

lemma first_failure_le:
  assumes "Some (t, Some e) \<in> set rs"
  shows "\<exists>f. first_failure rs = Some f \<and> f \<le> t"
proof -
  have m: "(t, e) \<in> set (failures rs)" using assms by (simp add: failures_iff)
  then have ne: "failures rs \<noteq> []" by auto
  have "t \<in> fst ` set (failures rs)" using m by force
  then have "Min (fst ` set (failures rs)) \<le> t" by simp
  with ne show ?thesis by (auto simp: first_failure_def split: list.splits)
qed

text \<open>The function that fails first fails the same way under the cancellation it causes.\<close>

lemma Run_first:
  assumes "causal fn" "0 < timeout" "cx_Err ctx = None"
    and "Run pick t0 ctx fn [timeout] = Some (f, Some e)"
  shows "Run pick t0 (ctx\<lparr>cx_Done := earliest (cx_Done ctx) (Some f)\<rparr>) fn [timeout] = Some (f, Some e)"
proof (cases "\<exists>c. cx_Done ctx = Some c \<and> c \<le> f")
  case True
  then have "ctx\<lparr>cx_Done := earliest (cx_Done ctx) (Some f)\<rparr> = ctx" by (auto simp: min_def)
  with assms(4) show ?thesis by simp
next
  case False
  have d: "earliest (cx_Done ctx) (Some f) = Some f"
    using False by (cases "cx_Done ctx") (auto simp: min_def)
  obtain r where r: "RunT pick None t0 ctx fn [timeout] = Some r" "flat r = (f, Some e)"
    using assms(4) by (auto simp: Run_flat)
  obtain a where a: "fn (cx_Done ctx) = Some (f, a)" "r = (f, ending_result None a)"
  proof (cases "cx_Done ctx")
    case None
    with r(1) assms(2,3) obtain t a where ta: "fn None = Some (t, a)" "r = (t, ending_result None a)"
      by (cases "fn None") (auto simp: RunT_not_done)
    moreover have "t = f" using ta(2) r(2) fst_flat [of r] by simp
    ultimately show ?thesis using None that by simp
  next
    case (Some c)
    then have fc: "f < c" using False by simp
    show ?thesis
    proof (cases "fn (Some c)")
      case None
      from RunT_done(1) [where timeout = timeout and do' = fn, OF assms(3) \<open>cx_Done ctx = Some c\<close> None] r fc assms(2) show ?thesis
        by (auto simp: flat_def)
    next
      case (Some ta)
      obtain t a where ta: "ta = (t, a)" by (cases ta)
      have fr: "fst r = f" using r(2) fst_flat [of r] by simp
      note e = RunT_ends [where do' = fn, OF assms(3) Some [unfolded ta] \<open>cx_Done ctx = Some c\<close>,
          of pick None t0 timeout]
      have "t \<le> c"
      proof (rule ccontr)
        assume "\<not> t \<le> c"
        then have "c < fst r" using e r(1) assms(2) by (auto simp: min_def Let_def split: if_splits)
        with fr fc show False by simp
      qed
      then have "RunT pick None t0 ctx fn [timeout] = Some (t, ending_result None a)"
        using e assms(2) by (simp add: min_def Let_def)
      with r(1) have "r = (t, ending_result None a)" by (simp only: option.inject)
      with fr have "r = (f, ending_result None a)" "t = f" by auto
      with that Some ta \<open>cx_Done ctx = Some c\<close> show ?thesis by simp
    qed
  qed
  have "fn (Some f) = Some (f, a)"
    by (rule causalD [OF assms(1) a(1)]) (use False in \<open>cases "cx_Done ctx"; simp\<close>)+
  from RunT_done(2) [of "ctx\<lparr>cx_Done := Some f\<rparr>" f fn f a timeout pick None t0] this assms(2,3)
  have "RunT pick None t0 (ctx\<lparr>cx_Done := Some f\<rparr>) fn [timeout] = Some (f, ending_result None a)" by simp
  with r(2) a(2) d show ?thesis by (simp add: Run_flat)
qed

section \<open>Properties\<close>

text \<open>
  C20. Once its context is done, \<open>RunT\<close> returns within the shutdown timeout, whatever the function
  does: with its result when it ends in time, a panic as an error, and with a deadline error
  otherwise (beside the data of a function that ends at the very last moment). Without cancellation
  it returns exactly when the function ends and with its data, and with its error too, unless the
  timeout is zero or less: then the deadline error may come although the function has finished.
\<close>

theorem RunT_returns_in_time:
  "(\<forall>c. cx_Err ctx = None \<longrightarrow> cx_Done ctx = Some c \<longrightarrow>
     (\<exists>t r. RunT pick zero t0 ctx do' [timeout] = Some (t, r) \<and> t \<le> c + max 0 timeout \<and>
       (r = (zero, Some shutdown_error) \<or>
        (\<exists>a. do' (Some c) = Some (t, a) \<and>
          (r = ending_result zero a \<or> r = (fst (ending_result zero a), Some shutdown_error)))) \<and>
       (\<forall>t' a. do' (Some c) = Some (t', a) \<longrightarrow> t' < c + timeout \<longrightarrow> 0 < timeout \<longrightarrow>
          t = t' \<and> r = ending_result zero a))) \<and>
   (cx_Err ctx = None \<longrightarrow> cx_Done ctx = None \<longrightarrow>
     RunT pick zero t0 ctx do' [timeout] =
       map_option (\<lambda>(t, a). (t, if 0 < timeout \<or> pick then ending_result zero a
         else (fst (ending_result zero a), Some shutdown_error))) (do' None))"
proof (intro conjI allI impI)
  fix c assume c: "cx_Err ctx = None" "cx_Done ctx = Some c"
  show "\<exists>t r. RunT pick zero t0 ctx do' [timeout] = Some (t, r) \<and> t \<le> c + max 0 timeout \<and>
       (r = (zero, Some shutdown_error) \<or>
        (\<exists>a. do' (Some c) = Some (t, a) \<and>
          (r = ending_result zero a \<or> r = (fst (ending_result zero a), Some shutdown_error)))) \<and>
       (\<forall>t' a. do' (Some c) = Some (t', a) \<longrightarrow> t' < c + timeout \<longrightarrow> 0 < timeout \<longrightarrow>
          t = t' \<and> r = ending_result zero a)"
  proof (cases "do' (Some c)")
    case None
    with RunT_done(1) [OF c, of do' pick zero t0 timeout] show ?thesis by simp
  next
    case (Some ta)
    obtain t a where ta: "do' (Some c) = Some (t, a)" using Some by (cases ta) simp
    show ?thesis
    proof (cases "t < c + timeout \<and> 0 < timeout")
      case True
      with RunT_done(2) [where do' = do' and t = t and a = a, OF c ta, of timeout pick zero t0] ta show ?thesis by simp
    next
      case False
      with RunT_done(3) [where do' = do' and t = t and a = a, OF c ta, of pick zero t0 timeout] ta show ?thesis
        by auto
    qed
  qed
qed (rule RunT_not_done)

theorem RunT_returns_in_time_witness:
  "\<exists>t r. RunT True 0 0 \<lparr>cx_Err = None, cx_Done = Some 5\<rparr> (\<lambda>_. None :: (int \<times> nat ending) option) [3] = Some (t, r) \<and>
     t \<le> 8"
  using conjunct1 [OF RunT_returns_in_time [of "\<lparr>cx_Err = None, cx_Done = Some 5\<rparr>" True "0 :: nat" 0 "\<lambda>_. None" 3]]
  by fastforce

text \<open>
  \<open>RunAll\<close> fails fast: if one of the functions would fail at some time, all have been cancelled by
  then, \<open>RunAll\<close> returns within the shutdown timeout of that time, even if the others would never end
  by themselves, and the error it returns is one that joins the error of the first to fail.
\<close>

theorem RunAll_fails_fast:
  assumes "list_all causal doFn" "cx_Err ctx = None" "fn \<in> set doFn"
    and "Run pick t0 ctx fn [DefaultShutdownTimeout] = Some (f, Some e)" "0 \<le> f"
  shows "\<exists>t es f' e'. RunAll pick t0 ctx doFn = Some (t, Some (Errorf ''join'' es)) \<and>
    t \<le> f + DefaultShutdownTimeout \<and> f' \<le> f \<and> e' \<in> set es \<and>
    (\<exists>fn \<in> set doFn. Run pick t0 ctx fn [DefaultShutdownTimeout] = Some (f', Some e'))"
proof -
  let ?T = DefaultShutdownTimeout
  have T: "0 < ?T" by (simp add: DefaultShutdownTimeout_def)
  let ?alone = "map (\<lambda>fn. Run pick t0 ctx fn [?T]) doFn"
  have "Some (f, Some e) \<in> set ?alone" using assms(3,4) by force
  then obtain f' where f': "first_failure ?alone = Some f'" "f' \<le> f" using first_failure_le by blast
  then obtain fn' e' where fn': "fn' \<in> set doFn" "Run pick t0 ctx fn' [?T] = Some (f', Some e')"
    using first_failure_Some [OF f'(1)] by (metis (no_types, lifting) image_iff list.set_map)
  let ?c = "earliest (cx_Done ctx) (Some f')"
  let ?ctx = "ctx\<lparr>cx_Done := ?c\<rparr>"
  let ?rs = "map (\<lambda>fn. Run pick t0 ?ctx fn [?T]) doFn"
  have bg: "RunAllBackground pick t0 ctx doFn [FailFast] = ?rs"
    by (simp add: RunAllBackground_def FailFast_def DefaultRunAllOptions_def DefaultFailFast_def Let_def f'(1))
  obtain c where c: "?c = Some c" "c \<le> f'" by (cases "cx_Done ctx") auto
  have ret: "\<exists>t e. r = Some (t, e) \<and> t \<le> f + ?T" if "r \<in> set ?rs" for r
    using that Run_cancelled [of ?ctx c pick t0 _ ?T] assms(2) c f'(2) T by fastforce
  then have "None \<notin> set ?rs" by blast
  then have ch: "error_channel ?rs =
      Some (Max (insert 0 (fst ` the ` set ?rs)), map snd (sort_key fst (failures ?rs)))"
    by (simp only: error_channel_def if_False)
  have "\<forall>x \<in> insert 0 (fst ` the ` set ?rs). x \<le> f + ?T" using ret assms(5) T by fastforce
  then have t: "Max (insert 0 (fst ` the ` set ?rs)) \<le> f + ?T" by (subst Max_le_iff) auto
  have "Run pick t0 ?ctx fn' [?T] = Some (f', Some e')"
    using Run_first [of fn' ?T ctx pick t0 f' e'] assms(1,2) fn' T by (simp add: list_all_iff)
  then have "Some (f', Some e') \<in> set ?rs" using fn'(1) by force
  then have m: "(f', e') \<in> set (failures ?rs)" by (simp only: failures_iff)
  let ?es = "map snd (sort_key fst (failures ?rs))"
  have e': "e' \<in> set ?es" using m by force
  have "join_errors (map Some ?es) = Some (Errorf ''join'' ?es)"
  proof -
    have "List.map_filter id (map Some xs) = xs" for xs :: "err list"
      by (induction xs) (simp_all add: List.map_filter_simps)
    with e' show ?thesis by (cases ?es) (auto simp: join_errors_def)
  qed
  then have "RunAll pick t0 ctx doFn =
      Some (Max (insert 0 (fst ` the ` set ?rs)), Some (Errorf ''join'' ?es))"
    by (simp only: RunAll_def bg ch option.map prod.case)
  with t e' f'(2) fn' show ?thesis by blast
qed

theorem RunAll_fails_fast_witness:
  "\<exists>t es. RunAll True 0 \<lparr>cx_Err = None, cx_Done = None\<rparr>
     [\<lambda>_. Some (3, Ends (Some (new_error ''boom''))), \<lambda>c. map_option (\<lambda>c. (c + 1, Ends None)) c] =
     Some (t, Some (Errorf ''join'' es)) \<and> t \<le> 3 + DefaultShutdownTimeout"
proof -
  let ?fs = "[\<lambda>_. Some (3, Ends (Some (new_error ''boom''))), \<lambda>c. map_option (\<lambda>c. (c + 1, Ends None)) c]"
  have "list_all causal ?fs" by (auto simp: causal_def)
  moreover have "Run True 0 \<lparr>cx_Err = None, cx_Done = None\<rparr> (hd ?fs) [DefaultShutdownTimeout] =
      Some (3, Some (new_error ''boom''))"
    by (simp add: Run_def RunT_def DefaultShutdownTimeout_def Let_def)
  ultimately show ?thesis
    using RunAll_fails_fast [of ?fs "\<lparr>cx_Err = None, cx_Done = None\<rparr>" "hd ?fs" True 0 3 "new_error ''boom''"]
    by fastforce
qed

end
