(* ===== verification/Reload.thy ===== *)
theory Reload
  imports Kube Claimlock Graceful Strings HTTP_Client
begin

text \<open>
  Watching files and restarting deployments: \<open>pkg/fsnotify\<close> and \<open>pkg/reloader\<close>.

  A file system is what reading a file answers at one moment, SHA-256 is an argument, byte strings are
  strings. A run of \<open>Watch\<close> is the list of what its \<open>select\<close> receives; a tick carries the file system
  at that moment and what others did to the cluster before it.
\<close>

section \<open>The interval watcher\<close>

type_synonym filesystem = "string \<Rightarrow> err + string"

definition calcFileHash :: "(string \<Rightarrow> string) \<Rightarrow> filesystem \<Rightarrow> string \<Rightarrow> err + string" where
  "calcFileHash sha256 FS file = (case FS file of Inl e \<Rightarrow> Inl e | Inr raw \<Rightarrow> Inr (sha256 raw))"

definition watched_name :: "bool \<Rightarrow> string \<Rightarrow> string" where
  "watched_name notRootFS file =
     (if \<not> notRootFS \<and> length file > 2 \<and> hd file = CHR ''/'' then tl file else file)"

fun fileHashChanged ::
  "(string \<Rightarrow> string) \<Rightarrow> bool \<Rightarrow> filesystem \<Rightarrow> string list \<Rightarrow> (string, string) gomap \<Rightarrow>
   (string, string) gomap \<times> (err + bool)" where
  "fileHashChanged sha256 notRootFS FS [] hashes = (hashes, Inr False)"
| "fileHashChanged sha256 notRootFS FS (file # files) hashes =
     (let file = watched_name notRootFS file in
      case calcFileHash sha256 FS file of
        Inl e \<Rightarrow> (hashes, Inl e)
      | Inr hash \<Rightarrow>
          (case map_of hashes file of
             None \<Rightarrow> fileHashChanged sha256 notRootFS FS files (AList.update file hash hashes)
           | Some old \<Rightarrow>
               if old \<noteq> hash then (AList.update file hash hashes, Inr True)
               else fileHashChanged sha256 notRootFS FS files hashes))"

datatype 's tick = CtxEnds | Tick filesystem "'s \<Rightarrow> 's"

fun Watch_loop ::
  "(string \<Rightarrow> string) \<Rightarrow> bool \<Rightarrow> string list \<Rightarrow> ((string, string) gomap \<Rightarrow> 's \<Rightarrow> 's) \<Rightarrow> 's tick list \<Rightarrow>
   (string, string) gomap \<Rightarrow> 's \<Rightarrow> (string, string) gomap \<times> 's \<times> run_result" where
  "Watch_loop sha256 notRootFS files do' [] hashes s = (hashes, s, Running)"
| "Watch_loop sha256 notRootFS files do' (CtxEnds # ticks) hashes s = (hashes, s, Returned None)"
| "Watch_loop sha256 notRootFS files do' (Tick FS env # ticks) hashes s =
     (case fileHashChanged sha256 notRootFS FS files hashes of
        (hashes, Inl e) \<Rightarrow> (hashes, env s, Returned (Some e))
      | (hashes, Inr ok) \<Rightarrow>
          Watch_loop sha256 notRootFS files do' ticks hashes (if ok then do' hashes (env s) else env s))"

definition Watch ::
  "(string \<Rightarrow> string) \<Rightarrow> bool \<Rightarrow> string list \<Rightarrow> ((string, string) gomap \<Rightarrow> 's \<Rightarrow> 's) \<Rightarrow> 's tick list \<Rightarrow> 's \<Rightarrow>
   's \<times> run_result" where
  "Watch sha256 notRootFS files do' ticks s =
     (case Watch_loop sha256 notRootFS files do' ticks [] s of (_, s, r) \<Rightarrow> (s, r))"

section \<open>The configuration of the reloader\<close>

record reload_config =
  rl_Namespace :: string
  rl_Deployment :: string
  rl_Files :: "string list"
  rl_Interval :: int

definition AnnotationPrefix :: string where
  "AnnotationPrefix = ''hash''"

definition DefaultInterval :: int where
  "DefaultInterval = 60000000000"

text \<open>\<open>ReadFile\<close> is that of \<open>os\<close>, \<open>Getenv\<close> answers the empty text for a variable that is not set.\<close>

definition GetNamespace :: "(string \<Rightarrow> err + string) \<Rightarrow> reload_config \<Rightarrow> err + string" where
  "GetNamespace ReadFile c =
     (if rl_Namespace c \<noteq> [] then Inr (rl_Namespace c)
      else case ReadFile ''/var/run/secrets/kubernetes.io/serviceaccount/namespace'' of
          Inl e \<Rightarrow> Inl (Errorf ''failed to read namespace from file'' [e])
        | Inr data \<Rightarrow> Inr (TrimSpace data))"

definition GetDeployment :: "(string \<Rightarrow> string) \<Rightarrow> reload_config \<Rightarrow> err + string" where
  "GetDeployment Getenv c =
     (if rl_Deployment c \<noteq> [] then Inr (rl_Deployment c)
      else let v = TrimSpace (Getenv ''POD_NAME'') in
      if v \<noteq> [] then Inr v
      else let hostname = TrimSpace (Getenv ''HOSTNAME'') in
      if hostname = [] then
        Inl (new_error ''failed to get deployment name: HOSTNAME environment variable is not set'')
      else let parts = split_at (CHR ''-'') hostname in
      if length parts \<le> 2 then Inl (new_error (''failed to get deployment name from hostname: '' @ hostname))
      else Inr (strings_Join (take (length parts - 2) parts) ''-''))"

definition reload_ApplyDefaults :: "reload_config \<Rightarrow> reload_config" where
  "reload_ApplyDefaults c = (if rl_Interval c = 0 then c\<lparr>rl_Interval := DefaultInterval\<rparr> else c)"

definition reload_cfg_Validate :: "reload_config \<Rightarrow> err option" where
  "reload_cfg_Validate c =
     (if rl_Namespace c = [] then Some (new_error ''namespace is required'')
      else if rl_Deployment c = [] then Some (new_error ''deployment is required'')
      else if length (rl_Files c) = 0 then Some (new_error ''at least one file is required'')
      else None)"

section \<open>The reloader\<close>

text \<open>A deployment: the annotations of its pod template (\<open>None\<close> for a nil map), and the rest of it.\<close>

record deployment =
  dp_Name :: string
  dp_Annotations :: "(string, string) gomap option"
  dp_Rest :: string

record 's deployment_reloader =
  rl_cfg :: reload_config
  rl_client :: "('s, deployment) kube_client"

definition reload_NewForConfig ::
  "(string \<Rightarrow> err + string) \<Rightarrow> (string \<Rightarrow> string) \<Rightarrow> err + 'kc \<Rightarrow> ('kc \<Rightarrow> err + ('s, deployment) kube_client) \<Rightarrow>
   reload_config \<Rightarrow> 's deployment_reloader cfg_option option list \<Rightarrow> err + 's deployment_reloader" where
  "reload_NewForConfig ReadFile Getenv GetConfig kube_NewForConfig cfg opts =
     (let c = reload_ApplyDefaults cfg in
      case GetNamespace ReadFile c of
        Inl e \<Rightarrow> Inl (Errorf ''failed to get namespace'' [e])
      | Inr ns \<Rightarrow>
          (let c = c\<lparr>rl_Namespace := ns\<rparr> in
           case GetDeployment Getenv c of
             Inl e \<Rightarrow> Inl (Errorf ''failed to get deployment name'' [e])
           | Inr deploy \<Rightarrow>
               (let c = c\<lparr>rl_Deployment := deploy\<rparr> in
                case reload_cfg_Validate c of
                  Some e \<Rightarrow> Inl (Errorf ''invalid configuration'' [e])
                | None \<Rightarrow>
                    (case GetConfig of
                       Inl e \<Rightarrow> Inl (Errorf ''failed to get kubeconfig'' [e])
                     | Inr kubeconfig \<Rightarrow>
                         (case kube_NewForConfig kubeconfig of
                            Inl e \<Rightarrow> Inl (Errorf ''failed to create kubeclient'' [e])
                          | Inr kubeclient \<Rightarrow>
                              (case ApplyOpts \<lparr>rl_cfg = c, rl_client = kubeclient\<rparr> opts of
                                 Inl e \<Rightarrow> Inl (Errorf ''failed to apply options'' [e])
                               | Inr r \<Rightarrow> Inr r))))))"

definition hex_digit :: "nat \<Rightarrow> char" where
  "hex_digit d = (if d < 10 then digit d else char_of (87 + d))"

text \<open>The format \<open>%x\<close> of bytes.\<close>

definition hex :: "string \<Rightarrow> string" where
  "hex bs = concat (map (\<lambda>c. [hex_digit (of_char c div 16), hex_digit (of_char c mod 16)]) bs)"

definition annotation_key :: "string \<Rightarrow> string" where
  "annotation_key filename =
     (let key = AnnotationPrefix @ ''/'' @ hex filename
      in if length key > 42 then take 42 key else key)"

definition UpdateHashAnnotation :: "deployment \<Rightarrow> string \<Rightarrow> string \<Rightarrow> deployment" where
  "UpdateHashAnnotation dep filename hash =
     (let annotations = (case dp_Annotations dep of None \<Rightarrow> [] | Some m \<Rightarrow> m)
      in dep\<lparr>dp_Annotations := Some (AList.update (annotation_key filename) (hex hash) annotations)\<rparr>)"

text \<open>What \<open>Watch\<close> does about a change; errors are only logged.\<close>

definition on_change ::
  "(string \<Rightarrow> string) \<Rightarrow> 's deployment_reloader \<Rightarrow> (string, string) gomap \<Rightarrow> 's \<Rightarrow> 's" where
  "on_change sha256 r hashes s =
     (case kc_Get (rl_client r) (rl_Deployment (rl_cfg r)) s of
        Inl e \<Rightarrow> s
      | Inr dep \<Rightarrow>
          (let dep = fold (\<lambda>(filename, hash) dep. UpdateHashAnnotation dep (sha256 filename) hash) hashes dep
           in fst (kc_Update (rl_client r) [] dep s)))"

text \<open>\<open>dirFS\<close> chooses between the root and the working directory, \<open>fs_at\<close> opens either.\<close>

definition dirFS :: "'s deployment_reloader \<Rightarrow> string" where
  "dirFS r = (if list_ex (prefix ''/'') (rl_Files (rl_cfg r)) then ''/'' else ''.'')"

definition reload_Watch ::
  "(string \<Rightarrow> string) \<Rightarrow> 's deployment_reloader \<Rightarrow> (string \<Rightarrow> 's tick list) \<Rightarrow> 's \<Rightarrow> 's \<times> run_result" where
  "reload_Watch sha256 r ticks_of s =
     Watch sha256 False (rl_Files (rl_cfg r)) (on_change sha256 r) (ticks_of (dirFS r)) s"

definition reload_Validate :: "'s deployment_reloader \<Rightarrow> 's \<Rightarrow> 's \<times> err option" where
  "reload_Validate r s =
     (let rootFS = list_ex (prefix ''/'') (rl_Files (rl_cfg r));
          nonRootFS = list_ex (\<lambda>file. \<not> prefix ''/'' file) (rl_Files (rl_cfg r))
      in if rootFS \<and> nonRootFS then (s, Some (new_error ''cannot watch files from both root fs and non-root fs''))
         else case kc_Get (rl_client r) (rl_Deployment (rl_cfg r)) s of
             Inl e \<Rightarrow> (s, Some e)
           | Inr dep \<Rightarrow>
               kc_Update (rl_client r) [''All''] (UpdateHashAnnotation dep ''reloader-dry-run'' ''any'') s)"

text \<open>
  \<open>Run\<close> hands \<open>Watch\<close>, here what it does for a time of cancellation, to \<open>graceful.Run\<close>.
\<close>

definition reload_Run ::
  "bool \<Rightarrow> int \<Rightarrow> go_ctx \<Rightarrow> 's deployment_reloader \<Rightarrow> err option supervised \<Rightarrow> 's \<Rightarrow>
   's \<times> (int \<times> err option) option" where
  "reload_Run pick t0 ctx r watch s =
     (case reload_Validate r s of
        (s, Some e) \<Rightarrow> (s, Some (t0, Some (Errorf ''rbac validation failed'' [e])))
      | (s, None) \<Rightarrow> (s, Graceful.Run pick t0 ctx watch []))"

section \<open>The names of deployments\<close>

lemma split_at_append_any: "split_at sep (a @ sep # b) = split_at sep a @ split_at sep b"
  by (induction a) (auto split: list.split)

lemma split_at_pod:
  assumes "CHR ''-'' \<notin> set h" "CHR ''-'' \<notin> set r"
  shows "split_at (CHR ''-'') (d @ ''-'' @ h @ ''-'' @ r) = split_at (CHR ''-'') d @ [h, r]"
proof -
  have "split_at (CHR ''-'') (h @ CHR ''-'' # r) = [h, r]"
    using assms by (simp add: split_at_append split_at_single)
  then show ?thesis by (simp add: split_at_append_any)
qed

section \<open>The watcher\<close>











section \<open>Annotations\<close>

definition annotation :: "deployment \<Rightarrow> string \<Rightarrow> string option" where
  "annotation dep key = map_of (case dp_Annotations dep of None \<Rightarrow> [] | Some m \<Rightarrow> m) key"

lemma annotation_key_length: "length (annotation_key filename) \<le> 42"
  by (simp add: annotation_key_def AnnotationPrefix_def Let_def)

lemma annotation_Update [simp]:
  "annotation (UpdateHashAnnotation dep filename hash) =
     (annotation dep)(annotation_key filename \<mapsto> hex hash)"
  "dp_Name (UpdateHashAnnotation dep filename hash) = dp_Name dep"
  "dp_Rest (UpdateHashAnnotation dep filename hash) = dp_Rest dep"
  by (auto simp: UpdateHashAnnotation_def annotation_def Let_def fun_eq_iff split: option.split)




section \<open>Rolling out a change\<close>






section \<open>Properties\<close>

text \<open>
  The host name of a pod \<open>deployment-hash-replica\<close> gives back the name of its deployment, dashes in
  it included.
\<close>

theorem GetDeployment_of_pod:
  assumes "CHR ''-'' \<notin> set hash" "CHR ''-'' \<notin> set replica"
    and "rl_Deployment c = []" "TrimSpace (Getenv ''POD_NAME'') = []"
    and "TrimSpace (Getenv ''HOSTNAME'') = name @ ''-'' @ hash @ ''-'' @ replica"
  shows "GetDeployment Getenv c = Inr name"
proof -
  have "Suc 0 \<le> length (split_at (CHR ''-'') name)" by (cases "split_at (CHR ''-'') name") auto
  with assms split_at_join [of "CHR ''-''" name] show ?thesis
    by (simp add: GetDeployment_def split_at_pod [simplified] Let_def)
qed

theorem GetDeployment_of_pod_witness:
  "GetDeployment (\<lambda>v. if v = ''HOSTNAME'' then ''logging-mux-6cb-kdm'' else [])
     \<lparr>rl_Namespace = ''ns'', rl_Deployment = [], rl_Files = [], rl_Interval = 0\<rparr> = Inr ''logging-mux''"
  by (rule GetDeployment_of_pod [where hash = "''6cb''" and replica = "''kdm''"])
    (simp_all add: TrimSpace_def trim_left_def trim_right_def is_space_def)


text \<open>A watched certificate, and a deployment to restart when it changes.\<close>

definition example_reloader :: "deployment list deployment_reloader" where
  "example_reloader = \<lparr>rl_cfg = \<lparr>rl_Namespace = ''ns'', rl_Deployment = ''d'', rl_Files = [''/etc/crt''], rl_Interval = 1\<rparr>,
     rl_client = list_client dp_Name (\<lambda>_. [])\<rparr>"



text \<open>
  A change is reported once: when the deployment cannot be read at that moment, the error is logged
  and the change never reaches the deployment, however long the watch goes on.
\<close>

theorem reloader_loses_change:
  assumes "rl_Files (rl_cfg r) = [file']" "watched_name False file' = f"
    and "FS0 f = Inr raw0" "FS1 f = Inr raw1" "sha256 raw0 \<noteq> sha256 raw1"
    and "isl (kc_Get (rl_client r) (rl_Deployment (rl_cfg r)) s)"
    and "ticks_of (dirFS r) = Tick FS0 id # Tick FS1 id # map (Tick FS1) envs"
  shows "reload_Watch sha256 r ticks_of s = (fold (\<lambda>env s. env s) envs s, Running)"
proof -
  let ?h0 = "[(f, sha256 raw0)]" and ?h1 = "[(f, sha256 raw1)]"
  have look: "fileHashChanged sha256 False FS0 [file'] [] = (?h0, Inr False)"
    "fileHashChanged sha256 False FS1 [file'] ?h0 = (?h1, Inr True)"
    "fileHashChanged sha256 False FS1 [file'] ?h1 = (?h1, Inr False)"
    using assms(2-5) by (simp_all add: calcFileHash_def Let_def)
  have lost: "on_change sha256 r ?h1 s = s" using assms(6) by (auto simp: on_change_def isl_def)
  have rest: "Watch_loop sha256 False [file'] do' (map (Tick FS1) envs) ?h1 s1 =
      (?h1, fold (\<lambda>env s. env s) envs s1, Running)" for do' s1
    by (induction envs arbitrary: s1) (simp_all add: look(3) del: fileHashChanged.simps)
  show ?thesis
    by (simp add: reload_Watch_def Watch_def assms(1,7) look lost rest del: fileHashChanged.simps)
qed

theorem reloader_loses_change_witness:
  "reload_Watch (\<lambda>x. x) example_reloader
     (\<lambda>_. [Tick (\<lambda>_. Inr ''1'') id, Tick (\<lambda>_. Inr ''2'') id,
        Tick (\<lambda>_. Inr ''2'') (\<lambda>_. [\<lparr>dp_Name = ''d'', dp_Annotations = None, dp_Rest = []\<rparr>]), Tick (\<lambda>_. Inr ''2'') id]) [] =
    ([\<lparr>dp_Name = ''d'', dp_Annotations = None, dp_Rest = []\<rparr>], Running)"
proof -
  have "reload_Watch (\<lambda>x. x) example_reloader
     (\<lambda>_. Tick (\<lambda>_. Inr ''1'') id # Tick (\<lambda>_. Inr ''2'') id # map (Tick (\<lambda>_. Inr ''2''))
        [\<lambda>_. [\<lparr>dp_Name = ''d'', dp_Annotations = None, dp_Rest = []\<rparr>], id]) [] =
    (fold (\<lambda>env s. env s) [\<lambda>_. [\<lparr>dp_Name = ''d'', dp_Annotations = None, dp_Rest = []\<rparr>], id] [], Running)"
    by (rule reloader_loses_change [where file' = "''/etc/crt''" and f = "''etc/crt''" and ?raw0.0 = "''1''" and ?raw1.0 = "''2''"
          and ?FS0.0 = "\<lambda>_. Inr ''1''"])
      (simp_all add: example_reloader_def watched_name_def list_client_def Let_def)
  then show ?thesis by simp
qed

end
