(* ===== verification/Kafka.thy ===== *)
theory Kafka
  imports Tls Slices Claimlock
begin

text \<open>
  Kafka clients, \<open>pkg/kafka\<close>: configuration, statistics and status, the consumer and the producer.

  The client library is a record over a state \<open>'s\<close> that also holds what the handler of the messages
  works on. What it delivers is a list of steps: results of \<open>Poll\<close>, events, the end of the context,
  and the receives of a reader of the error channel.
\<close>

section \<open>Configuration\<close>

datatype conf_value = CStr string | CInt int | CBool bool

record kafka_tls =
  kt_SecurityProtocol :: string
  kt_SslCertificateLocation :: string
  kt_SslKeyLocation :: string
  kt_SslCaLocation :: string

subsection \<open>The consumer\<close>

record consumer_config = kafka_tls +
  cc_GroupID :: string
  cc_AutoOffsetReset :: string
  cc_DryRun :: bool
  cc_Topics :: "string list"
  cc_CommitInterval :: int
  cc_HeartbeatInterval :: int
  cc_MaxPollInterval :: int
  cc_SessionTimeout :: int
  cc_StatisticsInterval :: int
  cc_Brokers :: "string list"

definition or_default :: "int \<Rightarrow> int \<Rightarrow> int" where
  "or_default d x = (if x \<le> 0 then d else x)"

definition consumer_ApplyDefaults :: "consumer_config \<Rightarrow> consumer_config" where
  "consumer_ApplyDefaults cfg = cfg\<lparr>
     cc_AutoOffsetReset := (if cc_AutoOffsetReset cfg = [] then ''earliest'' else cc_AutoOffsetReset cfg),
     cc_CommitInterval := or_default 15000 (cc_CommitInterval cfg),
     cc_HeartbeatInterval := or_default 6000 (cc_HeartbeatInterval cfg),
     cc_MaxPollInterval := or_default 60000 (cc_MaxPollInterval cfg),
     cc_SessionTimeout := or_default 30000 (cc_SessionTimeout cfg),
     cc_StatisticsInterval := or_default 5000 (cc_StatisticsInterval cfg),
     kt_SecurityProtocol := (if kt_SecurityProtocol cfg = [] then ''plaintext'' else kt_SecurityProtocol cfg)\<rparr>"

definition consumer_zero :: consumer_config where
  "consumer_zero = \<lparr>kt_SecurityProtocol = [], kt_SslCertificateLocation = [], kt_SslKeyLocation = [],
     kt_SslCaLocation = [], cc_GroupID = [], cc_AutoOffsetReset = [], cc_DryRun = False, cc_Topics = [],
     cc_CommitInterval = 0, cc_HeartbeatInterval = 0, cc_MaxPollInterval = 0, cc_SessionTimeout = 0,
     cc_StatisticsInterval = 0, cc_Brokers = []\<rparr>"

definition consumer_DefaultConfig :: consumer_config where
  "consumer_DefaultConfig = consumer_ApplyDefaults consumer_zero"

definition consumer_ConfigMap :: "consumer_config \<Rightarrow> (string, conf_value) gomap" where
  "consumer_ConfigMap c =
     [(''bootstrap.servers'', CStr (strings_Join (cc_Brokers c) '','')),
      (''group.id'', CStr (cc_GroupID c)),
      (''session.timeout.ms'', CInt (cc_SessionTimeout c)),
      (''auto.offset.reset'', CStr (cc_AutoOffsetReset c)),
      (''enable.auto.commit'', CBool (\<not> cc_DryRun c)),
      (''heartbeat.interval.ms'', CInt (cc_HeartbeatInterval c)),
      (''auto.commit.interval.ms'', CInt (cc_CommitInterval c)),
      (''max.poll.interval.ms'', CInt (cc_MaxPollInterval c)),
      (''enable.auto.offset.store'', CBool False),
      (''statistics.interval.ms'', CInt (cc_StatisticsInterval c)),
      (''security.protocol'', CStr (kt_SecurityProtocol c)),
      (''ssl.certificate.location'', CStr (kt_SslCertificateLocation c)),
      (''ssl.key.location'', CStr (kt_SslKeyLocation c)),
      (''ssl.ca.location'', CStr (kt_SslCaLocation c))]"

definition consumer_Validate :: "consumer_config \<Rightarrow> err option" where
  "consumer_Validate c =
     (if length (cc_Topics c) = 0 then Some (new_error ''no topics defined'')
      else if cc_GroupID c = [] then Some (new_error ''no group ID defined'')
      else if length (cc_Brokers c) = 0 then Some (new_error ''no brokers defined'')
      else None)"

text \<open>The flags, by name, with their default values.\<close>

definition consumer_RegisterFlags :: "(string, flag_value) gomap" where
  "consumer_RegisterFlags =
     (let c = consumer_DefaultConfig in
     [(''kafka-consumer-topics'', FStrings (cc_Topics c)),
      (''kafka-consumer-brokers'', FStrings (cc_Brokers c)),
      (''kafka-consumer-group-id'', FString (cc_GroupID c)),
      (''kafka-consumer-commit-interval-ms'', FInt (cc_CommitInterval c)),
      (''kafka-consumer-heartbeat-interval-ms'', FInt (cc_HeartbeatInterval c)),
      (''kafka-consumer-max-poll-interval-ms'', FInt (cc_MaxPollInterval c)),
      (''kafka-consumer-session-timeout-ms'', FInt (cc_SessionTimeout c)),
      (''kafka-consumer-statistics-interval-ms'', FInt (cc_StatisticsInterval c)),
      (''kafka-consumer-dry-run'', FBool (cc_DryRun c)),
      (''kafka-consumer-auto-offset-reset'', FString (cc_AutoOffsetReset c)),
      (''kafka-consumer-security-protocol'', FString (kt_SecurityProtocol c)),
      (''kafka-consumer-ssl-certificate-location'', FString (kt_SslCertificateLocation c)),
      (''kafka-consumer-ssl-key-location'', FString (kt_SslKeyLocation c)),
      (''kafka-consumer-ssl-ca-location'', FString (kt_SslCaLocation c))])"

definition consumer_BindFlags :: "flags \<Rightarrow> consumer_config \<Rightarrow> err + consumer_config" where
  "consumer_BindFlags fs c = fold (\<lambda>bind. bind)
     [bind_flag (get_strings fs ''kafka-consumer-topics'') (\<lambda>x c. c\<lparr>cc_Topics := x\<rparr>),
      bind_flag (get_strings fs ''kafka-consumer-brokers'') (\<lambda>x c. c\<lparr>cc_Brokers := x\<rparr>),
      bind_flag (get_string fs ''kafka-consumer-group-id'') (\<lambda>x c. c\<lparr>cc_GroupID := x\<rparr>),
      bind_flag (get_int fs ''kafka-consumer-commit-interval-ms'') (\<lambda>x c. c\<lparr>cc_CommitInterval := x\<rparr>),
      bind_flag (get_int fs ''kafka-consumer-heartbeat-interval-ms'') (\<lambda>x c. c\<lparr>cc_HeartbeatInterval := x\<rparr>),
      bind_flag (get_int fs ''kafka-consumer-max-poll-interval-ms'') (\<lambda>x c. c\<lparr>cc_MaxPollInterval := x\<rparr>),
      bind_flag (get_int fs ''kafka-consumer-session-timeout-ms'') (\<lambda>x c. c\<lparr>cc_SessionTimeout := x\<rparr>),
      bind_flag (get_int fs ''kafka-consumer-statistics-interval-ms'') (\<lambda>x c. c\<lparr>cc_StatisticsInterval := x\<rparr>),
      bind_flag (get_bool fs ''kafka-consumer-dry-run'') (\<lambda>x c. c\<lparr>cc_DryRun := x\<rparr>),
      bind_flag (get_string fs ''kafka-consumer-auto-offset-reset'') (\<lambda>x c. c\<lparr>cc_AutoOffsetReset := x\<rparr>),
      bind_flag (get_string fs ''kafka-consumer-security-protocol'') (\<lambda>x c. c\<lparr>kt_SecurityProtocol := x\<rparr>),
      bind_flag (get_string fs ''kafka-consumer-ssl-certificate-location'') (\<lambda>x c. c\<lparr>kt_SslCertificateLocation := x\<rparr>),
      bind_flag (get_string fs ''kafka-consumer-ssl-key-location'') (\<lambda>x c. c\<lparr>kt_SslKeyLocation := x\<rparr>),
      bind_flag (get_string fs ''kafka-consumer-ssl-ca-location'') (\<lambda>x c. c\<lparr>kt_SslCaLocation := x\<rparr>)]
     (Inr c)"

subsection \<open>The producer\<close>

record producer_config = kafka_tls +
  pc_Brokers :: "string list"
  pc_Topic :: string
  pc_DryRun :: bool
  pc_StatisticsInterval :: int

definition producer_ApplyDefaults :: "producer_config \<Rightarrow> producer_config" where
  "producer_ApplyDefaults cfg = cfg\<lparr>
     kt_SecurityProtocol := (if kt_SecurityProtocol cfg = [] then ''plaintext'' else kt_SecurityProtocol cfg),
     pc_StatisticsInterval := or_default 5000 (pc_StatisticsInterval cfg)\<rparr>"

definition producer_DefaultConfig :: producer_config where
  "producer_DefaultConfig = producer_ApplyDefaults
     \<lparr>kt_SecurityProtocol = [], kt_SslCertificateLocation = [], kt_SslKeyLocation = [],
      kt_SslCaLocation = [], pc_Brokers = [], pc_Topic = [], pc_DryRun = False, pc_StatisticsInterval = 0\<rparr>"

definition producer_ConfigMap :: "producer_config \<Rightarrow> (string, conf_value) gomap" where
  "producer_ConfigMap c =
     [(''bootstrap.servers'', CStr (strings_Join (pc_Brokers c) '','')),
      (''statistics.interval.ms'', CInt (pc_StatisticsInterval c)),
      (''security.protocol'', CStr (kt_SecurityProtocol c)),
      (''ssl.certificate.location'', CStr (kt_SslCertificateLocation c)),
      (''ssl.key.location'', CStr (kt_SslKeyLocation c)),
      (''ssl.ca.location'', CStr (kt_SslCaLocation c)),
      (''enable.idempotence'', CBool True)]"

definition producer_Validate :: "producer_config \<Rightarrow> err option" where
  "producer_Validate c =
     (if pc_Topic c = [] then Some (new_error ''no topic defined'')
      else if length (pc_Brokers c) = 0 then Some (new_error ''no brokers defined'')
      else None)"

definition producer_RegisterFlags :: "(string, flag_value) gomap" where
  "producer_RegisterFlags =
     (let c = producer_DefaultConfig in
     [(''kafka-producer-topic'', FString (pc_Topic c)),
      (''kafka-producer-brokers'', FStrings (pc_Brokers c)),
      (''kafka-producer-dry-run'', FBool (pc_DryRun c)),
      (''kafka-producer-statistics-interval-ms'', FInt (pc_StatisticsInterval c)),
      (''kafka-producer-security-protocol'', FString (kt_SecurityProtocol c)),
      (''kafka-producer-ssl-certificate-location'', FString (kt_SslCertificateLocation c)),
      (''kafka-producer-ssl-key-location'', FString (kt_SslKeyLocation c)),
      (''kafka-producer-ssl-ca-location'', FString (kt_SslCaLocation c))])"

definition producer_BindFlags :: "flags \<Rightarrow> producer_config \<Rightarrow> err + producer_config" where
  "producer_BindFlags fs c = fold (\<lambda>bind. bind)
     [bind_flag (get_string fs ''kafka-producer-topic'') (\<lambda>x c. c\<lparr>pc_Topic := x\<rparr>),
      bind_flag (get_strings fs ''kafka-producer-brokers'') (\<lambda>x c. c\<lparr>pc_Brokers := x\<rparr>),
      bind_flag (get_bool fs ''kafka-producer-dry-run'') (\<lambda>x c. c\<lparr>pc_DryRun := x\<rparr>),
      bind_flag (get_int fs ''kafka-producer-statistics-interval-ms'') (\<lambda>x c. c\<lparr>pc_StatisticsInterval := x\<rparr>),
      bind_flag (get_string fs ''kafka-producer-security-protocol'') (\<lambda>x c. c\<lparr>kt_SecurityProtocol := x\<rparr>),
      bind_flag (get_string fs ''kafka-producer-ssl-certificate-location'') (\<lambda>x c. c\<lparr>kt_SslCertificateLocation := x\<rparr>),
      bind_flag (get_string fs ''kafka-producer-ssl-key-location'') (\<lambda>x c. c\<lparr>kt_SslKeyLocation := x\<rparr>),
      bind_flag (get_string fs ''kafka-producer-ssl-ca-location'') (\<lambda>x c. c\<lparr>kt_SslCaLocation := x\<rparr>)]
     (Inr c)"

section \<open>Statistics and status\<close>

text \<open>
  Of the statistics the code reads three texts and the brokers; \<open>any\<close> values other than texts are
  only compared with texts.
\<close>

datatype any_value = AnyStr string | AnyOther string

record statistics =
  st_IdempState :: string
  st_JoinState :: string
  st_CgrpState :: string
  st_Brokers :: "(string, (string, any_value) gomap) gomap"

text \<open>
  What a JSON text holds: the fields that occur, and an error. \<open>Unmarshal\<close> leaves absent fields alone
  and adds to a map that exists, one fresh value per key.
\<close>

record stats_update =
  up_IdempState :: "string option"
  up_JoinState :: "string option"
  up_CgrpState :: "string option"
  up_Brokers :: "(string, (string, any_value) gomap) gomap"

definition Load :: "(string \<Rightarrow> stats_update \<times> err option) \<Rightarrow> string \<Rightarrow> statistics \<Rightarrow> statistics \<times> err option" where
  "Load parse data st =
     (case parse data of (u, e) \<Rightarrow>
      (\<lparr>st_IdempState = (case up_IdempState u of None \<Rightarrow> st_IdempState st | Some x \<Rightarrow> x),
        st_JoinState = (case up_JoinState u of None \<Rightarrow> st_JoinState st | Some x \<Rightarrow> x),
        st_CgrpState = (case up_CgrpState u of None \<Rightarrow> st_CgrpState st | Some x \<Rightarrow> x),
        st_Brokers = fold (\<lambda>(k, v) m. AList.update k v m) (up_Brokers u) (st_Brokers st)\<rparr>,
       map_option (\<lambda>e. Errorf ''failed to parse stats'' [e]) e))"

definition stats_New :: statistics where
  "stats_New = \<lparr>st_IdempState = [], st_JoinState = [], st_CgrpState = [], st_Brokers = []\<rparr>"

definition IsProducerAssigned :: "statistics \<Rightarrow> bool" where
  "IsProducerAssigned st = (if st_IdempState st = ''Assigned'' then True else False)"

definition IsConsumerUp :: "statistics \<Rightarrow> bool" where
  "IsConsumerUp st = (if st_JoinState st = ''steady'' \<and> st_CgrpState st = ''up'' then True else False)"

definition DownState :: string where "DownState = ''DOWN''"
definition UpState :: string where "UpState = ''UP''"
definition PartialState :: string where "PartialState = ''PARTIAL''"
definition UnknownState :: string where "UnknownState = ''UNKNOWN''"

record kafka_status =
  ks_Status :: string
  ks_Code :: int
  ks_Consuming :: string

definition DefaultKafkaStatus :: kafka_status where
  "DefaultKafkaStatus = \<lparr>ks_Status = DownState, ks_Code = 0, ks_Consuming = DownState\<rparr>"

definition SetCode :: "int \<Rightarrow> kafka_status \<Rightarrow> kafka_status" where
  "SetCode code s = s\<lparr>ks_Code := code\<rparr>"

definition status_IsHealthy :: "kafka_status \<Rightarrow> bool" where
  "status_IsHealthy s =
     (if ks_Status s = DownState then False
      else if ks_Consuming s = DownState then False
      else ks_Code s = 0)"

fun count_states :: "(string, (string, any_value) gomap) gomap \<Rightarrow> nat \<Rightarrow> nat \<Rightarrow> nat \<times> nat" where
  "count_states [] upCount downCount = (upCount, downCount)"
| "count_states ((_, m) # brokers) upCount downCount =
     (if map_of m ''state'' = Some (AnyStr UpState) then count_states brokers (Suc upCount) downCount
      else if map_of m ''state'' = Some (AnyStr DownState) then count_states brokers upCount (Suc downCount)
      else count_states brokers upCount downCount)"

definition ParseStatus :: "(string, (string, any_value) gomap) gomap \<Rightarrow> string" where
  "ParseStatus brokers =
     (if length brokers = 0 then UnknownState
      else case count_states brokers 0 0 of (upCount, downCount) \<Rightarrow>
        if upCount = length brokers then UpState
        else if downCount = length brokers then DownState
        else if upCount = 0 \<and> downCount = 0 then UnknownState
        else PartialState)"

definition NewInternalStatus :: "statistics \<Rightarrow> bool \<Rightarrow> kafka_status" where
  "NewInternalStatus s consuming =
     \<lparr>ks_Status = ParseStatus (st_Brokers s), ks_Code = 0,
      ks_Consuming = (if consuming then UpState else DownState)\<rparr>"

definition Refresh :: "kafka_status option \<Rightarrow> int \<Rightarrow> kafka_status \<Rightarrow> kafka_status" where
  "Refresh status code s =
     (case status of
        None \<Rightarrow> s\<lparr>ks_Code := code\<rparr>
      | Some st \<Rightarrow> s\<lparr>ks_Status := ks_Status st, ks_Consuming := ks_Consuming st, ks_Code := code\<rparr>)"

definition SetDown :: "kafka_status \<Rightarrow> kafka_status" where
  "SetDown s = s\<lparr>ks_Status := DownState, ks_Consuming := DownState\<rparr>"

text \<open>The status route: the HTTP code and the status it shows.\<close>

definition HandleStatus :: "kafka_status \<Rightarrow> int \<times> kafka_status" where
  "HandleStatus s = (if \<not> status_IsHealthy s then (503, s) else (200, s))"

definition HandleStats :: "statistics \<Rightarrow> int \<times> statistics" where
  "HandleStats st = (200, st)"

section \<open>Messages and events\<close>

record kmessage =
  km_Topic :: string
  km_Partition :: int
  km_Offset :: int
  km_Value :: string
  km_Headers :: "(string \<times> string) list"
  km_Error :: "err option"

record kafka_error =
  ke_Text :: string
  ke_Code :: int
  ke_Fatal :: bool
  ke_Retriable :: bool
  ke_Timeout :: bool
  ke_TxnRequiresAbort :: bool

text \<open>Events of the library; a message pointer may be nil.\<close>

datatype kevent = KMessage "kmessage option" | KStats string | KError kafka_error | KOffsetsCommitted | KOther string

definition kafka_err :: "kafka_error \<Rightarrow> err" where
  "kafka_err e = Foreign (ke_Text e) no_traits []"

text \<open>The codes of librdkafka for "all brokers down" and any partition.\<close>

definition AllBrokersDownCode :: int where "AllBrokersDownCode = -187"
definition PartitionAny :: int where "PartitionAny = -1"

definition IsRetryableErrorFn :: "kafka_error option \<Rightarrow> bool" where
  "IsRetryableErrorFn err =
     (case err of
        None \<Rightarrow> False
      | Some e \<Rightarrow> if ke_Retriable e \<or> ke_Timeout e then True else False)"

definition wrap1 :: "sentinel \<Rightarrow> err" where
  "wrap1 e = Errorf [] [Sentinel e]"

section \<open>The consumer\<close>

record 's consumer_client =
  kc_StoreMessage :: "kmessage \<Rightarrow> 's \<Rightarrow> 's \<times> err option"
  kc_Commit :: "'s \<Rightarrow> 's \<times> err option"
  kc_CommitMessage :: "kmessage \<Rightarrow> 's \<Rightarrow> 's \<times> err option"

record 's consumer =
  co_client :: "'s consumer_client"
  co_stats :: statistics
  co_status :: kafka_status
  co_enableAutoCommit :: bool
  co_errCh :: "(kevent \<times> err) list"

definition errCh_capacity :: nat where "errCh_capacity = 1000"

definition consumer_NewForConfig ::
  "((string, conf_value) gomap \<Rightarrow> err + 's consumer_client) \<Rightarrow> ('s consumer_client \<Rightarrow> string list \<Rightarrow> err option) \<Rightarrow>
   consumer_config \<Rightarrow> err + 's consumer" where
  "consumer_NewForConfig NewConsumer SubscribeTopics c =
     (let cfg = consumer_ApplyDefaults c in
      case consumer_Validate cfg of
        Some _ \<Rightarrow> Inl (wrap1 ErrInvalidConfig)
      | None \<Rightarrow>
          (case NewConsumer (consumer_ConfigMap cfg) of
             Inl _ \<Rightarrow> Inl (wrap1 ErrNewClient)
           | Inr client \<Rightarrow>
               (case SubscribeTopics client (cc_Topics cfg) of
                  Some _ \<Rightarrow> Inl (wrap1 ErrSubscribe)
                | None \<Rightarrow> Inr \<lparr>co_client = client, co_stats = stats_New, co_status = DefaultKafkaStatus,
                    co_enableAutoCommit = \<not> cc_DryRun cfg, co_errCh = []\<rparr>)))"

type_synonym 's handler = "kmessage \<Rightarrow> 's \<Rightarrow> 's \<times> err option"

definition StoreMessage :: "'s consumer \<Rightarrow> kmessage \<Rightarrow> 's \<Rightarrow> 's \<times> err option" where
  "StoreMessage c msg s =
     (if \<not> co_enableAutoCommit c then (s, None)
      else case kc_StoreMessage (co_client c) msg s of
          (s, Some _) \<Rightarrow> (s, Some (wrap1 ErrOffsetNotStored))
        | (s, None) \<Rightarrow> (s, None))"

definition Commit :: "'s consumer \<Rightarrow> 's \<Rightarrow> 's \<times> err option" where
  "Commit c s =
     (case kc_Commit (co_client c) s of (s, Some _) \<Rightarrow> (s, Some (wrap1 ErrCommitFailed)) | (s, None) \<Rightarrow> (s, None))"

definition CommitMessage :: "'s consumer \<Rightarrow> kmessage option \<Rightarrow> 's \<Rightarrow> 's \<times> err option" where
  "CommitMessage c msg s =
     (case msg of
        None \<Rightarrow> (s, Some (wrap1 ErrNoContent))
      | Some msg \<Rightarrow>
          (case kc_CommitMessage (co_client c) msg s of
             (s, Some _) \<Rightarrow> (s, Some (wrap1 ErrCommitFailed))
           | (s, None) \<Rightarrow> (s, None)))"

definition consumer_handleMessageEvent ::
  "'s consumer \<Rightarrow> 's handler option \<Rightarrow> kmessage option \<Rightarrow> 's \<Rightarrow> 's \<times> err option" where
  "consumer_handleMessageEvent c processMessageFunc msg s =
     (case msg of
        None \<Rightarrow> (s, Some (wrap1 ErrNoContent))
      | Some msg \<Rightarrow>
          if length (km_Value msg) = 0 then (s, Some (wrap1 ErrNoContent))
          else (case processMessageFunc of
              None \<Rightarrow> (s, Some (new_error ''error: no processMessageFunc provided''))
            | Some process \<Rightarrow>
                (case process msg s of
                   (s, Some e) \<Rightarrow> (s, Some e)
                 | (s, None) \<Rightarrow>
                     if \<not> co_enableAutoCommit c then (s, None) else StoreMessage c msg s)))"

definition consumer_handleStatsEvent ::
  "(string \<Rightarrow> stats_update \<times> err option) \<Rightarrow> 's consumer \<Rightarrow> string \<Rightarrow> 's consumer \<times> err option" where
  "consumer_handleStatsEvent parse c ev =
     (case Load parse ev (co_stats c) of
        (st, Some e) \<Rightarrow> (c\<lparr>co_stats := st\<rparr>, Some (Errorf [] [Sentinel ErrInvalidStatsData, e]))
      | (st, None) \<Rightarrow>
          (let isConsumerUp = IsConsumerUp st;
               internalStatus = NewInternalStatus st isConsumerUp;
               c = c\<lparr>co_stats := st, co_status := Refresh (Some internalStatus) 0 (co_status c)\<rparr>
           in (c, if \<not> status_IsHealthy (co_status c) then Some (wrap1 ErrConsumerNotHealthy) else None)))"

text \<open>What an error event means, the same for consumer and producer.\<close>

definition error_event :: "kafka_error \<Rightarrow> err" where
  "error_event e =
     (if ke_Fatal e then Sentinel ErrFatalError
      else if \<not> ke_Retriable e \<or> ke_TxnRequiresAbort e then Sentinel ErrNotRetriable
      else if ke_Code e = AllBrokersDownCode then Sentinel ErrAllBrokersDown
      else kafka_err e)"

definition consumer_handleErrorEvent :: "'s consumer \<Rightarrow> kafka_error \<Rightarrow> 's consumer \<times> err option" where
  "consumer_handleErrorEvent c e = (c\<lparr>co_status := SetCode (ke_Code e) (co_status c)\<rparr>, Some (error_event e))"

definition consumer_handleEvent ::
  "(string \<Rightarrow> stats_update \<times> err option) \<Rightarrow> 's handler option \<Rightarrow> kevent \<Rightarrow> 's consumer \<Rightarrow> 's \<Rightarrow>
   's consumer \<times> 's \<times> err option" where
  "consumer_handleEvent parse processMessageFunc event c s =
     (case event of
        KMessage msg \<Rightarrow> (case consumer_handleMessageEvent c processMessageFunc msg s of (s, r) \<Rightarrow> (c, s, r))
      | KStats ev \<Rightarrow> (case consumer_handleStatsEvent parse c ev of (c, r) \<Rightarrow> (c, s, r))
      | KError e \<Rightarrow> (case consumer_handleErrorEvent c e of (c, r) \<Rightarrow> (c, s, r))
      | KOffsetsCommitted \<Rightarrow> (c, s, None)
      | KOther _ \<Rightarrow> (c, s, Some (wrap1 ErrMsgIgnored)))"

definition consumer_sendError :: "'s consumer \<Rightarrow> kevent \<Rightarrow> err \<Rightarrow> 's consumer" where
  "consumer_sendError c ev e =
     (if length (co_errCh c) < errCh_capacity then c\<lparr>co_errCh := co_errCh c @ [(ev, e)]\<rparr> else c)"

text \<open>
  The goroutine of \<open>HandleEvents\<close>. A step is one look at the context and one \<open>Poll\<close>, or a receive of
  whoever reads the error channel.
\<close>

datatype consumer_step = CtxEnded | PollNothing | PollEvent kevent | ReceiveError

fun HandleEvents ::
  "(string \<Rightarrow> stats_update \<times> err option) \<Rightarrow> 's handler option \<Rightarrow> consumer_step list \<Rightarrow> 's consumer \<Rightarrow> 's \<Rightarrow>
   's consumer \<times> 's \<times> run_result" where
  "HandleEvents parse process [] c s = (c, s, Running)"
| "HandleEvents parse process (CtxEnded # steps) c s = (c, s, Returned None)"
| "HandleEvents parse process (PollNothing # steps) c s = HandleEvents parse process steps c s"
| "HandleEvents parse process (PollEvent ev # steps) c s =
     (case consumer_handleEvent parse process ev c s of
        (c, s, Some e) \<Rightarrow> HandleEvents parse process steps (consumer_sendError c ev e) s
      | (c, s, None) \<Rightarrow> HandleEvents parse process steps c s)"
| "HandleEvents parse process (ReceiveError # steps) c s =
     HandleEvents parse process steps (c\<lparr>co_errCh := tl (co_errCh c)\<rparr>) s"

section \<open>The producer\<close>

text \<open>
  The client: the asynchronous \<open>Produce\<close>, and what it delivers on a channel of one message, after how
  long. The shared delivery channel holds its reports up to a capacity; reports the library itself
  sends there are not modelled.
\<close>

record 'b producer_client =
  kp_Produce :: "kmessage \<Rightarrow> 'b \<Rightarrow> 'b \<times> err option"
  kp_Delivery :: "kmessage \<Rightarrow> 'b \<Rightarrow> (int \<times> kevent) option"
  kp_GetFatalError :: "'b \<Rightarrow> err option"

record 'b producer =
  pr_client :: "'b producer_client"
  pr_stats :: statistics
  pr_status :: kafka_status
  pr_monitorErrCh :: "err list"
  pr_dryRun :: bool
  pr_deliveryCh :: "(nat \<times> kevent list) option"
  pr_isRetryableErrorFn :: "(err \<Rightarrow> bool) option"
  pr_topic :: string

definition WithIsRetryableErrorFn :: "(err \<Rightarrow> bool) option \<Rightarrow> 'b producer cfg_option" where
  "WithIsRetryableErrorFn fn p = Inr (p\<lparr>pr_isRetryableErrorFn := fn\<rparr>)"

definition producer_WithDryRun :: "bool \<Rightarrow> 'b producer cfg_option" where
  "producer_WithDryRun dryRun p = Inr (p\<lparr>pr_dryRun := dryRun\<rparr>)"

definition WithDeliveryCh :: "(nat \<times> kevent list) option \<Rightarrow> 'b producer cfg_option" where
  "WithDeliveryCh ch p = Inr (p\<lparr>pr_deliveryCh := ch\<rparr>)"

fun apply_each :: "'t cfg_option list \<Rightarrow> 't \<Rightarrow> err + 't" where
  "apply_each [] p = Inr p"
| "apply_each (option # opts) p = (case option p of Inl e \<Rightarrow> Inl e | Inr p \<Rightarrow> apply_each opts p)"

definition producer_NewForConfig ::
  "((string, conf_value) gomap \<Rightarrow> err + 'b producer_client) \<Rightarrow> producer_config \<Rightarrow> 'b producer cfg_option list \<Rightarrow>
   err + 'b producer" where
  "producer_NewForConfig NewProducer cfg opts =
     (let cfg = producer_ApplyDefaults cfg in
      case producer_Validate cfg of
        Some _ \<Rightarrow> Inl (wrap1 ErrInvalidConfig)
      | None \<Rightarrow>
          (case NewProducer (producer_ConfigMap cfg) of
             Inl _ \<Rightarrow> Inl (wrap1 ErrNewClient)
           | Inr client \<Rightarrow>
               apply_each opts \<lparr>pr_client = client, pr_stats = stats_New, pr_status = DefaultKafkaStatus,
                 pr_monitorErrCh = [], pr_dryRun = pc_DryRun cfg, pr_deliveryCh = None,
                 pr_isRetryableErrorFn = None, pr_topic = pc_Topic cfg\<rparr>))"

definition NewMessage :: "string \<Rightarrow> string \<Rightarrow> (string \<times> string) list \<Rightarrow> kmessage" where
  "NewMessage v topic headers =
     \<lparr>km_Topic = topic, km_Partition = PartitionAny, km_Offset = 0, km_Value = v, km_Headers = headers,
      km_Error = None\<rparr>"

definition producer_NewMessage :: "'b producer \<Rightarrow> string \<Rightarrow> (string \<times> string) list \<Rightarrow> kmessage" where
  "producer_NewMessage p v headers = NewMessage v (pr_topic p) headers"

record produce_options =
  WaitForDeliveryTimeout :: int
  WaitForDelivery :: bool

definition NewProduceOptions :: produce_options where
  "NewProduceOptions =
     (let p = \<lparr>WaitForDeliveryTimeout = 0, WaitForDelivery = False\<rparr>
      in if WaitForDeliveryTimeout p = 0 then p\<lparr>WaitForDeliveryTimeout := 10000000000\<rparr> else p)"

definition WithWaitForDelivery :: "bool \<Rightarrow> produce_options cfg_option" where
  "WithWaitForDelivery wait p = Inr (p\<lparr>WaitForDelivery := wait\<rparr>)"

definition WithWaitForDeliveryTimeout :: "int \<Rightarrow> produce_options cfg_option" where
  "WithWaitForDeliveryTimeout timeout p = Inr (p\<lparr>WaitForDeliveryTimeout := timeout\<rparr>)"

text \<open>\<open>pick\<close> is the choice of \<open>select\<close> when the report comes at the very moment the time is up.\<close>

definition produceAndWait ::
  "bool \<Rightarrow> kmessage \<Rightarrow> produce_options \<Rightarrow> 'b producer \<Rightarrow> 'b \<Rightarrow> 'b producer \<times> 'b \<times> err option" where
  "produceAndWait pick msg options p b =
     (case kp_Produce (pr_client p) msg b of
        (b, Some e) \<Rightarrow> (p, b, Some e)
      | (b, None) \<Rightarrow>
          (case kp_Delivery (pr_client p) msg b of
             None \<Rightarrow> (p, b, Some (wrap1 ErrDeliveryMsg))
           | Some (t, event) \<Rightarrow>
               if t < max 0 (WaitForDeliveryTimeout options) \<or> t = max 0 (WaitForDeliveryTimeout options) \<and> pick then
                 (case event of
                    KMessage (Some report) \<Rightarrow>
                      if km_Error report \<noteq> None then (p, b, Some (wrap1 ErrDeliveryMsg))
                      else (case pr_deliveryCh p of
                          None \<Rightarrow> (p, b, None)
                        | Some (cap, reports) \<Rightarrow>
                            (if length reports < cap then p\<lparr>pr_deliveryCh := Some (cap, reports @ [event])\<rparr> else p,
                             b, None))
                  | _ \<Rightarrow> (p, b, Some (wrap1 ErrDeliveryMsg)))
               else (p, b, Some (wrap1 ErrDeliveryMsg))))"

definition Produce ::
  "bool \<Rightarrow> kmessage \<Rightarrow> produce_options cfg_option list \<Rightarrow> 'b producer \<Rightarrow> 'b \<Rightarrow> 'b producer \<times> 'b \<times> err option" where
  "Produce pick msg opts p b =
     (case apply_each opts NewProduceOptions of
        Inl e \<Rightarrow> (p, b, Some e)
      | Inr options \<Rightarrow>
          if WaitForDelivery options then produceAndWait pick msg options p b
          else (case kp_Produce (pr_client p) msg b of (b, r) \<Rightarrow> (p, b, r)))"

definition producer_handleStatsEvent ::
  "(string \<Rightarrow> stats_update \<times> err option) \<Rightarrow> 'b producer \<Rightarrow> string \<Rightarrow> 'b producer \<times> err option" where
  "producer_handleStatsEvent parse p ev =
     (case Load parse ev (pr_stats p) of
        (st, Some e) \<Rightarrow> (p\<lparr>pr_stats := st\<rparr>, Some (wrap1 ErrInvalidStatsData))
      | (st, None) \<Rightarrow>
          (let producerAssigned = IsProducerAssigned st;
               internalStatus = NewInternalStatus st producerAssigned;
               p = p\<lparr>pr_stats := st, pr_status := Refresh (Some internalStatus) 0 (pr_status p)\<rparr>
           in (p, if \<not> status_IsHealthy (pr_status p) then Some (wrap1 ErrProducerNotHealthy) else None)))"

definition producer_handleMessageEvent :: "kmessage \<Rightarrow> err option" where
  "producer_handleMessageEvent msg = (if km_Error msg \<noteq> None then Some (wrap1 ErrDeliveryMsg) else None)"

definition producer_handleErrorEvent :: "'b producer \<Rightarrow> kafka_error \<Rightarrow> 'b producer \<times> err option" where
  "producer_handleErrorEvent p e = (p\<lparr>pr_status := SetCode (ke_Code e) (pr_status p)\<rparr>, Some (error_event e))"

definition producer_handleEvents ::
  "(string \<Rightarrow> stats_update \<times> err option) \<Rightarrow> kevent \<Rightarrow> 'b producer \<Rightarrow> 'b producer \<times> err option" where
  "producer_handleEvents parse event p =
     (case event of
        KMessage (Some msg) \<Rightarrow> (p, producer_handleMessageEvent msg)
      | KStats ev \<Rightarrow> producer_handleStatsEvent parse p ev
      | KError e \<Rightarrow> producer_handleErrorEvent p e
      | _ \<Rightarrow> (p, None))"

definition producer_sendError :: "'b producer \<Rightarrow> err \<Rightarrow> 'b producer" where
  "producer_sendError p e =
     (if length (pr_monitorErrCh p) < errCh_capacity
      then p\<lparr>pr_monitorErrCh := pr_monitorErrCh p @ [e]\<rparr> else p)"

text \<open>The goroutine of \<open>MonitorEvents\<close>, with the same steps; it has no \<open>Poll\<close> that returns nothing.\<close>

fun MonitorEvents ::
  "(string \<Rightarrow> stats_update \<times> err option) \<Rightarrow> consumer_step list \<Rightarrow> 'b producer \<Rightarrow> 'b producer \<times> run_result" where
  "MonitorEvents parse [] p = (p, Running)"
| "MonitorEvents parse (CtxEnded # steps) p = (p, Returned None)"
| "MonitorEvents parse (PollNothing # steps) p = MonitorEvents parse steps p"
| "MonitorEvents parse (PollEvent ev # steps) p =
     (case producer_handleEvents parse ev p of
        (p, Some e) \<Rightarrow> MonitorEvents parse steps (producer_sendError p e)
      | (p, None) \<Rightarrow> MonitorEvents parse steps p)"
| "MonitorEvents parse (ReceiveError # steps) p =
     MonitorEvents parse steps (p\<lparr>pr_monitorErrCh := tl (pr_monitorErrCh p)\<rparr>)"

section \<open>Flags\<close>

text \<open>The fields of a configuration under the names of their flags.\<close>

definition consumer_values :: "consumer_config \<Rightarrow> (string, flag_value) gomap" where
  "consumer_values c =
     [(''kafka-consumer-topics'', FStrings (cc_Topics c)),
      (''kafka-consumer-brokers'', FStrings (cc_Brokers c)),
      (''kafka-consumer-group-id'', FString (cc_GroupID c)),
      (''kafka-consumer-commit-interval-ms'', FInt (cc_CommitInterval c)),
      (''kafka-consumer-heartbeat-interval-ms'', FInt (cc_HeartbeatInterval c)),
      (''kafka-consumer-max-poll-interval-ms'', FInt (cc_MaxPollInterval c)),
      (''kafka-consumer-session-timeout-ms'', FInt (cc_SessionTimeout c)),
      (''kafka-consumer-statistics-interval-ms'', FInt (cc_StatisticsInterval c)),
      (''kafka-consumer-dry-run'', FBool (cc_DryRun c)),
      (''kafka-consumer-auto-offset-reset'', FString (cc_AutoOffsetReset c)),
      (''kafka-consumer-security-protocol'', FString (kt_SecurityProtocol c)),
      (''kafka-consumer-ssl-certificate-location'', FString (kt_SslCertificateLocation c)),
      (''kafka-consumer-ssl-key-location'', FString (kt_SslKeyLocation c)),
      (''kafka-consumer-ssl-ca-location'', FString (kt_SslCaLocation c))]"

lemma bind_consumer_fields:
  "bind_flag (map_option (\<lambda>v. Inr (f0 v)) flag) (\<lambda>x c. c\<lparr>cc_Topics := x\<rparr>) (Inr (c :: consumer_config)) = Inr (c\<lparr>cc_Topics := bound_value f0 flag (cc_Topics c)\<rparr>)"
  "bind_flag (map_option (\<lambda>v. Inr (f1 v)) flag) (\<lambda>x c. c\<lparr>cc_Brokers := x\<rparr>) (Inr (c :: consumer_config)) = Inr (c\<lparr>cc_Brokers := bound_value f1 flag (cc_Brokers c)\<rparr>)"
  "bind_flag (map_option (\<lambda>v. Inr (f2 v)) flag) (\<lambda>x c. c\<lparr>cc_GroupID := x\<rparr>) (Inr (c :: consumer_config)) = Inr (c\<lparr>cc_GroupID := bound_value f2 flag (cc_GroupID c)\<rparr>)"
  "bind_flag (map_option (\<lambda>v. Inr (f3 v)) flag) (\<lambda>x c. c\<lparr>cc_CommitInterval := x\<rparr>) (Inr (c :: consumer_config)) = Inr (c\<lparr>cc_CommitInterval := bound_value f3 flag (cc_CommitInterval c)\<rparr>)"
  "bind_flag (map_option (\<lambda>v. Inr (f4 v)) flag) (\<lambda>x c. c\<lparr>cc_HeartbeatInterval := x\<rparr>) (Inr (c :: consumer_config)) = Inr (c\<lparr>cc_HeartbeatInterval := bound_value f4 flag (cc_HeartbeatInterval c)\<rparr>)"
  "bind_flag (map_option (\<lambda>v. Inr (f5 v)) flag) (\<lambda>x c. c\<lparr>cc_MaxPollInterval := x\<rparr>) (Inr (c :: consumer_config)) = Inr (c\<lparr>cc_MaxPollInterval := bound_value f5 flag (cc_MaxPollInterval c)\<rparr>)"
  "bind_flag (map_option (\<lambda>v. Inr (f6 v)) flag) (\<lambda>x c. c\<lparr>cc_SessionTimeout := x\<rparr>) (Inr (c :: consumer_config)) = Inr (c\<lparr>cc_SessionTimeout := bound_value f6 flag (cc_SessionTimeout c)\<rparr>)"
  "bind_flag (map_option (\<lambda>v. Inr (f7 v)) flag) (\<lambda>x c. c\<lparr>cc_StatisticsInterval := x\<rparr>) (Inr (c :: consumer_config)) = Inr (c\<lparr>cc_StatisticsInterval := bound_value f7 flag (cc_StatisticsInterval c)\<rparr>)"
  "bind_flag (map_option (\<lambda>v. Inr (f8 v)) flag) (\<lambda>x c. c\<lparr>cc_DryRun := x\<rparr>) (Inr (c :: consumer_config)) = Inr (c\<lparr>cc_DryRun := bound_value f8 flag (cc_DryRun c)\<rparr>)"
  "bind_flag (map_option (\<lambda>v. Inr (f9 v)) flag) (\<lambda>x c. c\<lparr>cc_AutoOffsetReset := x\<rparr>) (Inr (c :: consumer_config)) = Inr (c\<lparr>cc_AutoOffsetReset := bound_value f9 flag (cc_AutoOffsetReset c)\<rparr>)"
  "bind_flag (map_option (\<lambda>v. Inr (f10 v)) flag) (\<lambda>x c. c\<lparr>kt_SecurityProtocol := x\<rparr>) (Inr (c :: consumer_config)) = Inr (c\<lparr>kt_SecurityProtocol := bound_value f10 flag (kt_SecurityProtocol c)\<rparr>)"
  "bind_flag (map_option (\<lambda>v. Inr (f11 v)) flag) (\<lambda>x c. c\<lparr>kt_SslCertificateLocation := x\<rparr>) (Inr (c :: consumer_config)) = Inr (c\<lparr>kt_SslCertificateLocation := bound_value f11 flag (kt_SslCertificateLocation c)\<rparr>)"
  "bind_flag (map_option (\<lambda>v. Inr (f12 v)) flag) (\<lambda>x c. c\<lparr>kt_SslKeyLocation := x\<rparr>) (Inr (c :: consumer_config)) = Inr (c\<lparr>kt_SslKeyLocation := bound_value f12 flag (kt_SslKeyLocation c)\<rparr>)"
  "bind_flag (map_option (\<lambda>v. Inr (f13 v)) flag) (\<lambda>x c. c\<lparr>kt_SslCaLocation := x\<rparr>) (Inr (c :: consumer_config)) = Inr (c\<lparr>kt_SslCaLocation := bound_value f13 flag (kt_SslCaLocation c)\<rparr>)"
  by (rule bind_field, simp)+

text \<open>
  Every registered flag is bound to the field it was registered for: binding never fails, gives the
  fields the values of the flags that were changed and keeps all others.
\<close>

interpretation consumer_flags: flag_config consumer_RegisterFlags consumer_values consumer_BindFlags
proof (unfold_locales, goal_cases)
  case (1 c)
  show ?case by (simp add: consumer_values_def consumer_RegisterFlags_def Let_def)
next
  case (2 fs c)
  note typed = 2 [unfolded parsed_flags_def consumer_RegisterFlags_def Let_def, simplified, unfolded same_kind_simps]
  show ?case
    unfolding consumer_BindFlags_def consumer_values_def overlay_def
    by (simp add: get_typed typed bind_consumer_fields bound_flag)
qed

definition producer_values :: "producer_config \<Rightarrow> (string, flag_value) gomap" where
  "producer_values c =
     [(''kafka-producer-topic'', FString (pc_Topic c)),
      (''kafka-producer-brokers'', FStrings (pc_Brokers c)),
      (''kafka-producer-dry-run'', FBool (pc_DryRun c)),
      (''kafka-producer-statistics-interval-ms'', FInt (pc_StatisticsInterval c)),
      (''kafka-producer-security-protocol'', FString (kt_SecurityProtocol c)),
      (''kafka-producer-ssl-certificate-location'', FString (kt_SslCertificateLocation c)),
      (''kafka-producer-ssl-key-location'', FString (kt_SslKeyLocation c)),
      (''kafka-producer-ssl-ca-location'', FString (kt_SslCaLocation c))]"

lemma bind_producer_fields:
  "bind_flag (map_option (\<lambda>v. Inr (f0 v)) flag) (\<lambda>x c. c\<lparr>pc_Topic := x\<rparr>) (Inr (c :: producer_config)) = Inr (c\<lparr>pc_Topic := bound_value f0 flag (pc_Topic c)\<rparr>)"
  "bind_flag (map_option (\<lambda>v. Inr (f1 v)) flag) (\<lambda>x c. c\<lparr>pc_Brokers := x\<rparr>) (Inr (c :: producer_config)) = Inr (c\<lparr>pc_Brokers := bound_value f1 flag (pc_Brokers c)\<rparr>)"
  "bind_flag (map_option (\<lambda>v. Inr (f2 v)) flag) (\<lambda>x c. c\<lparr>pc_DryRun := x\<rparr>) (Inr (c :: producer_config)) = Inr (c\<lparr>pc_DryRun := bound_value f2 flag (pc_DryRun c)\<rparr>)"
  "bind_flag (map_option (\<lambda>v. Inr (f3 v)) flag) (\<lambda>x c. c\<lparr>pc_StatisticsInterval := x\<rparr>) (Inr (c :: producer_config)) = Inr (c\<lparr>pc_StatisticsInterval := bound_value f3 flag (pc_StatisticsInterval c)\<rparr>)"
  "bind_flag (map_option (\<lambda>v. Inr (f4 v)) flag) (\<lambda>x c. c\<lparr>kt_SecurityProtocol := x\<rparr>) (Inr (c :: producer_config)) = Inr (c\<lparr>kt_SecurityProtocol := bound_value f4 flag (kt_SecurityProtocol c)\<rparr>)"
  "bind_flag (map_option (\<lambda>v. Inr (f5 v)) flag) (\<lambda>x c. c\<lparr>kt_SslCertificateLocation := x\<rparr>) (Inr (c :: producer_config)) = Inr (c\<lparr>kt_SslCertificateLocation := bound_value f5 flag (kt_SslCertificateLocation c)\<rparr>)"
  "bind_flag (map_option (\<lambda>v. Inr (f6 v)) flag) (\<lambda>x c. c\<lparr>kt_SslKeyLocation := x\<rparr>) (Inr (c :: producer_config)) = Inr (c\<lparr>kt_SslKeyLocation := bound_value f6 flag (kt_SslKeyLocation c)\<rparr>)"
  "bind_flag (map_option (\<lambda>v. Inr (f7 v)) flag) (\<lambda>x c. c\<lparr>kt_SslCaLocation := x\<rparr>) (Inr (c :: producer_config)) = Inr (c\<lparr>kt_SslCaLocation := bound_value f7 flag (kt_SslCaLocation c)\<rparr>)"
  by (rule bind_field, simp)+

interpretation producer_flags: flag_config producer_RegisterFlags producer_values producer_BindFlags
proof (unfold_locales, goal_cases)
  case (1 c)
  show ?case by (simp add: producer_values_def producer_RegisterFlags_def Let_def)
next
  case (2 fs c)
  note typed = 2 [unfolded parsed_flags_def producer_RegisterFlags_def Let_def, simplified, unfolded same_kind_simps]
  show ?case
    unfolding producer_BindFlags_def producer_values_def overlay_def
    by (simp add: get_typed typed bind_producer_fields bound_flag)
qed

section \<open>Health\<close>

lemma count_states_eq:
  "count_states brokers u d =
     (u + length (filter (\<lambda>(_, m). map_of m ''state'' = Some (AnyStr UpState)) brokers),
      d + length (filter (\<lambda>(_, m). map_of m ''state'' = Some (AnyStr DownState)) brokers))"
  by (induction brokers u d rule: count_states.induct) (auto simp: UpState_def DownState_def)

lemma length_filter_all: "length (filter P xs) = length xs \<longleftrightarrow> (\<forall>x \<in> set xs. P x)"
proof
  assume "length (filter P xs) = length xs"
  then show "\<forall>x \<in> set xs. P x" by (metis length_filter_less less_irrefl)
qed simp

lemma ParseStatus_down:
  "ParseStatus brokers = DownState \<longleftrightarrow> brokers \<noteq> [] \<and>
     (\<forall>(_, m) \<in> set brokers. map_of m ''state'' = Some (AnyStr DownState))"
proof (cases "brokers = []")
  case False
  have both: "\<not> (\<forall>(_, m) \<in> set brokers. map_of m ''state'' = Some (AnyStr UpState))"
    if "\<forall>(_, m) \<in> set brokers. map_of m ''state'' = Some (AnyStr DownState)"
    using that False by (cases brokers) (auto simp: UpState_def DownState_def)
  show ?thesis
    using False both
    by (auto simp: ParseStatus_def count_states_eq length_filter_all DownState_def UpState_def
        UnknownState_def PartialState_def split: prod.splits)
qed (simp add: ParseStatus_def DownState_def UnknownState_def)

lemma fold_update_map_of:
  "map_of (fold (\<lambda>(k, v) m. AList.update k v m) ups m0) k =
     (case map_of (rev ups) k of None \<Rightarrow> map_of m0 k | Some v \<Rightarrow> Some v)"
  by (induction ups arbitrary: m0) (auto simp: map_add_def split: option.splits)

lemma Load_keeps_brokers:
  "Load parse data st = (st', e) \<Longrightarrow> map_of (st_Brokers st) b \<noteq> None \<Longrightarrow> map_of (st_Brokers st') b \<noteq> None"
  by (auto simp: Load_def fold_update_map_of split: prod.splits option.splits)

text \<open>
  A stats event that can be parsed makes the consumer healthy exactly when its group is steady and up
  and not every known broker is down; the route shows the same. Brokers once known stay known.
\<close>

lemma stats_event_health:
  assumes "consumer_handleStatsEvent parse c ev = (c', r)" "snd (parse ev) = None"
  shows "(r = None \<longleftrightarrow> IsConsumerUp (co_stats c') \<and> (st_Brokers (co_stats c') = [] \<or>
      (\<exists>(_, m) \<in> set (st_Brokers (co_stats c')). map_of m ''state'' \<noteq> Some (AnyStr DownState)))) \<and>
    (fst (HandleStatus (co_status c')) = 200 \<longleftrightarrow> r = None) \<and>
    (\<forall>b. map_of (st_Brokers (co_stats c)) b \<noteq> None \<longrightarrow> map_of (st_Brokers (co_stats c')) b \<noteq> None)"
proof -
  obtain st where st: "Load parse ev (co_stats c) = (st, None)"
    using assms(2) by (cases "parse ev") (auto simp: Load_def)
  then have c': "co_stats c' = st" "co_status c' = Refresh (Some (NewInternalStatus st (IsConsumerUp st))) 0 (co_status c)"
    "r = (if status_IsHealthy (co_status c') then None else Some (wrap1 ErrConsumerNotHealthy))"
    using assms(1) by (auto simp: consumer_handleStatsEvent_def Let_def)
  have h: "status_IsHealthy (co_status c') \<longleftrightarrow> IsConsumerUp st \<and> ParseStatus (st_Brokers st) \<noteq> DownState"
    by (simp add: c'(2) status_IsHealthy_def Refresh_def NewInternalStatus_def UpState_def DownState_def)
  have "ParseStatus (st_Brokers st) \<noteq> DownState \<longleftrightarrow> st_Brokers st = [] \<or>
      (\<exists>(_, m) \<in> set (st_Brokers st). map_of m ''state'' \<noteq> Some (AnyStr DownState))"
    using ParseStatus_down by auto
  with h c' Load_keeps_brokers [OF st] show ?thesis by (simp add: HandleStatus_def)
qed

section \<open>Offsets\<close>

type_synonym offsets = "string \<times> int \<Rightarrow> int option"

definition store_offset :: "kmessage \<Rightarrow> offsets \<Rightarrow> offsets" where
  "store_offset m f = f((km_Topic m, km_Partition m) \<mapsto> km_Offset m + 1)"

text \<open>
  The law of the client: storing the offset of a message records, for its partition, the next one, or
  fails and records nothing. The handler of the messages does not touch the stored offsets; its
  verdict may depend on anything.
\<close>

definition stores_offsets :: "'s consumer_client \<Rightarrow> ('s \<Rightarrow> offsets) \<Rightarrow> bool" where
  "stores_offsets C abst \<longleftrightarrow> (\<forall>m s. abst (fst (kc_StoreMessage C m s)) =
     (if snd (kc_StoreMessage C m s) = None then store_offset m (abst s) else abst s))"

definition keeps_offsets :: "'s handler \<Rightarrow> ('s \<Rightarrow> offsets) \<Rightarrow> bool" where
  "keeps_offsets process abst \<longleftrightarrow> (\<forall>m s. abst (fst (process m s)) = abst s)"

text \<open>
  What becomes of a message: the handler refuses it, its offset is stored, storing fails, or the
  offset is left alone in a dry run; and of a list of messages, one after the other.
\<close>

datatype fate = Refused err | Stored | NotStored err | LeftAlone

definition attempt :: "'s consumer_client \<Rightarrow> bool \<Rightarrow> 's handler \<Rightarrow> kmessage \<Rightarrow> 's \<Rightarrow> 's \<times> fate" where
  "attempt C commit process m s =
     (case process m s of
        (s1, Some e) \<Rightarrow> (s1, Refused e)
      | (s1, None) \<Rightarrow>
          if commit then
            (case kc_StoreMessage C m s1 of
               (s2, Some e) \<Rightarrow> (s2, NotStored e)
             | (s2, None) \<Rightarrow> (s2, Stored))
          else (s1, LeftAlone))"

fun attempts ::
  "'s consumer_client \<Rightarrow> bool \<Rightarrow> 's handler \<Rightarrow> kmessage list \<Rightarrow> 's \<Rightarrow> 's \<times> (kmessage \<times> fate) list" where
  "attempts C commit process [] s = (s, [])"
| "attempts C commit process (m # ms) s =
     (case attempt C commit process m s of (s1, f) \<Rightarrow>
      case attempts C commit process ms s1 of (s2, fs) \<Rightarrow> (s2, (m, f) # fs))"

abbreviation stored_messages :: "(kmessage \<times> fate) list \<Rightarrow> kmessage list" where
  "stored_messages fs \<equiv> map fst (filter (\<lambda>(m, f). f = Stored) fs)"

lemma attempt_offsets:
  assumes "stores_offsets C abst" "keeps_offsets process abst" "attempt C commit process m s = (s', f)"
  shows "abst s' = (if f = Stored then store_offset m (abst s) else abst s)"
    and "f = Stored \<Longrightarrow> commit"
proof -
  obtain s1 r1 where p: "process m s = (s1, r1)" by fastforce
  have a: "abst s1 = abst s" using assms(2) p unfolding keeps_offsets_def by (metis fst_conv)
  obtain s2 r2 where k: "kc_StoreMessage C m s1 = (s2, r2)" by fastforce
  have "abst s2 = (if r2 = None then store_offset m (abst s1) else abst s1)"
    using assms(1) k unfolding stores_offsets_def by (metis fst_conv snd_conv)
  with assms(3) p a k show "abst s' = (if f = Stored then store_offset m (abst s) else abst s)"
    by (auto simp: attempt_def split: option.splits if_splits)
  show "f = Stored \<Longrightarrow> commit" using assms(3) p by (auto simp: attempt_def split: option.splits if_splits)
qed

lemma attempts_offsets:
  assumes "stores_offsets C abst" "keeps_offsets process abst"
  shows "attempts C commit process ms s = (s', fs) \<Longrightarrow>
    map fst fs = ms \<and> abst s' = fold store_offset (stored_messages fs) (abst s) \<and>
    (\<not> commit \<longrightarrow> stored_messages fs = [])"
proof (induction ms arbitrary: s fs)
  case (Cons m ms)
  obtain s1 f where a: "attempt C commit process m s = (s1, f)" by fastforce
  obtain s2 fs' where r: "attempts C commit process ms s1 = (s2, fs')" by fastforce
  with Cons.prems a have "s' = s2" "fs = (m, f) # fs'" by auto
  with Cons.IH [of s1 fs'] r attempt_offsets [OF assms a] show ?case by auto
qed simp

lemma attempts_append:
  "attempts C commit process (ms @ ns) s =
     (case attempts C commit process ms s of (s1, fs) \<Rightarrow>
      case attempts C commit process ns s1 of (s2, gs) \<Rightarrow> (s2, fs @ gs))"
  by (induction ms arbitrary: s) (auto split: prod.split)

text \<open>The messages with content that are polled before the context ends.\<close>

fun polled :: "consumer_step list \<Rightarrow> kmessage list" where
  "polled [] = []"
| "polled (CtxEnded # steps) = []"
| "polled (PollEvent (KMessage (Some m)) # steps) = (if km_Value m = [] then polled steps else m # polled steps)"
| "polled (_ # steps) = polled steps"

lemma handleEvent_keeps:
  "consumer_handleEvent parse process ev c s = (c', s', r) \<Longrightarrow>
   co_enableAutoCommit c' = co_enableAutoCommit c \<and> co_client c' = co_client c \<and> co_errCh c' = co_errCh c"
  by (auto simp: consumer_handleEvent_def consumer_handleStatsEvent_def consumer_handleErrorEvent_def Let_def
      split: kevent.splits prod.splits option.splits if_splits)

lemma sendError_keeps [simp]:
  "co_enableAutoCommit (consumer_sendError c ev e) = co_enableAutoCommit c"
  "co_client (consumer_sendError c ev e) = co_client c"
  by (simp_all add: consumer_sendError_def)

text \<open>One event: the message that it brings is attempted.\<close>

lemma handleEvent_attempts:
  assumes e: "consumer_handleEvent parse (Some process) ev c s = (c', s', r)"
  shows "fst (attempts (co_client c) (co_enableAutoCommit c) process (polled [PollEvent ev]) s) = s'"
proof (cases "\<exists>m. ev = KMessage (Some m) \<and> km_Value m \<noteq> []")
  case True
  then obtain m where m: "ev = KMessage (Some m)" "km_Value m \<noteq> []" by blast
  obtain s1 r1 where p: "process m s = (s1, r1)" by fastforce
  obtain s2 r2 where k: "kc_StoreMessage (co_client c) m s1 = (s2, r2)" by fastforce
  show ?thesis using e m p k
    by (cases r1; cases r2) (auto simp: consumer_handleEvent_def consumer_handleMessageEvent_def
        StoreMessage_def attempt_def split: if_splits)
next
  case False
  then have "polled [PollEvent ev] = []" by (cases ev) (auto split: option.split, metis option.exhaust polled.simps)
  moreover have "s' = s"
    using e False by (cases ev) (auto simp: consumer_handleEvent_def consumer_handleMessageEvent_def
        split: option.splits prod.splits)
  ultimately show ?thesis by simp
qed

lemma polled_Cons: "st \<noteq> CtxEnded \<Longrightarrow> polled (st # steps) = polled [st] @ polled steps"
proof (cases st)
  case (PollEvent ev)
  show ?thesis
  proof (cases ev)
    case (KMessage m)
    then show ?thesis by (cases m) (simp_all add: PollEvent)
  qed (simp_all add: PollEvent)
qed auto

lemma HandleEvents_attempts:
  assumes "HandleEvents parse (Some process) steps c s = (c', s', r)"
  shows "fst (attempts (co_client c) (co_enableAutoCommit c) process (polled steps) s) = s'"
  using assms
proof (induction parse "Some process" steps c s rule: HandleEvents.induct)
  case (4 parse ev steps c s)
  obtain c1 s1 r1 where e: "consumer_handleEvent parse (Some process) ev c s = (c1, s1, r1)" by (metis prod_cases3)
  note k = handleEvent_keeps [OF e]
  note o1 = handleEvent_attempts [OF e]
  have "fst (attempts (co_client c) (co_enableAutoCommit c) process (polled steps) s1) = s'"
  proof (cases r1)
    case None
    with e 4(3) have "HandleEvents parse (Some process) steps c1 s1 = (c', s', r)" by simp
    from 4(1) [OF e [symmetric] refl None this] k show ?thesis by simp
  next
    case (Some er)
    with e 4(3) have "HandleEvents parse (Some process) steps (consumer_sendError c1 ev er) s1 = (c', s', r)" by simp
    from 4(2) [OF e [symmetric] refl Some this] k show ?thesis by simp
  qed
  with o1 polled_Cons [of "PollEvent ev" steps] show ?case
    by (auto simp: attempts_append split: prod.splits)
qed auto

section \<open>The error channel\<close>

lemma HandleEvents_bounded:
  "HandleEvents parse process steps c s = (c', s', r) \<Longrightarrow> length (co_errCh c) \<le> errCh_capacity \<Longrightarrow>
   length (co_errCh c') \<le> errCh_capacity"
proof (induction parse process steps c s rule: HandleEvents.induct)
  case (4 parse process ev steps c s)
  obtain c1 s1 r1 where e: "consumer_handleEvent parse process ev c s = (c1, s1, r1)" by (metis prod_cases3)
  note k = handleEvent_keeps [OF e]
  show ?case
  proof (cases r1)
    case None
    with e 4(3) have "HandleEvents parse process steps c1 s1 = (c', s', r)" by simp
    from 4(1) [OF e [symmetric] refl None this] 4(4) k show ?thesis by simp
  next
    case (Some er)
    with e 4(3) have "HandleEvents parse process steps (consumer_sendError c1 ev er) s1 = (c', s', r)" by simp
    from 4(2) [OF e [symmetric] refl Some this] 4(4) k show ?thesis by (simp add: consumer_sendError_def)
  qed
qed auto

section \<open>Properties\<close>

text \<open>
  C26. Over any events, every message with content that is polled before the context ends is handled
  once, in order: the handler refuses it, or its offset is stored, or storing fails, or the offset is
  left alone in a dry run. The stored offsets are those after exactly the messages whose storing
  succeeded, in order, and none in a dry run; a message that was refused or could not be stored is
  passed over as soon as a later one of its partition is stored. \<open>StoreMessage\<close> of the client records
  the next offset or fails and records nothing, and the handler does not touch the stored offsets.
\<close>

theorem HandleEvents_stores_accepted:
  assumes "stores_offsets (co_client c) abst" "keeps_offsets process abst"
    and "HandleEvents parse (Some process) steps c s = (c', s', r)"
  shows "\<exists>fates. attempts (co_client c) (co_enableAutoCommit c) process (polled steps) s = (s', fates) \<and>
    map fst fates = polled steps \<and> abst s' = fold store_offset (stored_messages fates) (abst s) \<and>
    (\<not> co_enableAutoCommit c \<longrightarrow> stored_messages fates = [])"
proof -
  obtain s1 fs where a: "attempts (co_client c) (co_enableAutoCommit c) process (polled steps) s = (s1, fs)"
    by fastforce
  with HandleEvents_attempts [OF assms(3)] have "s1 = s'" by simp
  with a attempts_offsets [OF assms(1,2) a] show ?thesis by blast
qed

text \<open>A consumer that counts nothing but offsets, and two messages of a partition.\<close>

definition example_consumer :: "offsets consumer" where
  "example_consumer = \<lparr>co_client = \<lparr>kc_StoreMessage = (\<lambda>m s. if km_Offset m < 0 then (s, Some (new_error ''invalid'')) else (store_offset m s, None)),
       kc_Commit = \<lambda>s. (s, None), kc_CommitMessage = \<lambda>m s. (s, None)\<rparr>,
     co_stats = stats_New, co_status = DefaultKafkaStatus, co_enableAutoCommit = True, co_errCh = []\<rparr>"

definition example_message :: "int \<Rightarrow> string \<Rightarrow> kmessage" where
  "example_message n v = \<lparr>km_Topic = ''t'', km_Partition = 0, km_Offset = n, km_Value = v, km_Headers = [], km_Error = None\<rparr>"

definition no_statistics :: "string \<Rightarrow> stats_update \<times> err option" where
  "no_statistics data = (\<lparr>up_IdempState = None, up_JoinState = None, up_CgrpState = None,
     up_Brokers = []\<rparr>, Some (new_error ''not parsed''))"

theorem HandleEvents_stores_accepted_witness:
  "\<exists>c' s' r. HandleEvents no_statistics (Some (\<lambda>m s. (s, if km_Value m = ''bad'' then Some (new_error []) else None)))
      [PollEvent (KMessage (Some (example_message 5 ''bad''))), PollEvent (KMessage (Some (example_message 6 ''ok''))),
       PollEvent (KMessage (Some (example_message (- 1) ''ok'')))]
      example_consumer Map.empty = (c', s', r) \<and> s' (''t'', 0) = Some 7"
proof -
  let ?p = "\<lambda>m s. (s, if km_Value m = ''bad'' then Some (new_error []) else None)"
  let ?steps = "[PollEvent (KMessage (Some (example_message 5 ''bad''))), PollEvent (KMessage (Some (example_message 6 ''ok''))),
       PollEvent (KMessage (Some (example_message (- 1) ''ok'')))]"
  obtain c' s' r where e: "HandleEvents no_statistics (Some ?p) ?steps example_consumer Map.empty = (c', s', r)"
    by (metis prod_cases3)
  have "stores_offsets (co_client example_consumer) (\<lambda>s. s)"
    by (simp add: stores_offsets_def example_consumer_def)
  moreover have "keeps_offsets ?p (\<lambda>s. s)" by (simp add: keeps_offsets_def)
  ultimately obtain fates where f: "attempts (co_client example_consumer) (co_enableAutoCommit example_consumer) ?p
      (polled ?steps) Map.empty = (s', fates)" "s' = fold store_offset (stored_messages fates) Map.empty"
    using HandleEvents_stores_accepted [OF _ _ e] by blast
  from f(1) have "s' (''t'', 0) = Some 7"
    by (auto simp: attempt_def example_consumer_def example_message_def store_offset_def)
  with e show ?thesis by blast
qed

end
