(* ===== verification/Dynamic.thy ===== *)
theory Dynamic
  imports Kube HTTP_Client
begin

text \<open>
  The dynamic Kubernetes backend, \<open>pkg/store/backends/kubernetes\<close>: \<open>DynamicResource\<close> on the dynamic
  client, and \<open>CachedDynamicResource\<close>, which reads from the index of an informer.

  An unstructured object is its name, its labels, its resource version and the rest of its JSON. The
  conversions between values and objects (\<open>encoding/json\<close>, the decoding serializer, the unstructured
  converter) are arguments, the client is that of \<open>Kube\<close>, with the laws of the API server for objects
  of any kind, \<open>dyn_laws\<close>.
\<close>

section \<open>Options\<close>

record unstructured =
  u_Name :: string
  u_Labels :: labels
  u_ResourceVersion :: string
  u_Body :: string

definition WithSubResourceOnly :: opt where
  "WithSubResourceOnly = OBool ''subresource'' True"

definition MatchSubResourceOnly :: "opt slice \<Rightarrow> bool option \<times> opt slice" where
  "MatchSubResourceOnly = match_bool ''subresource''"

definition WithResolveConflict :: opt where
  "WithResolveConflict = OBool ''resolveConflict'' True"

definition MatchResolveConflict :: "opt slice \<Rightarrow> bool option \<times> opt slice" where
  "MatchResolveConflict = match_bool ''resolveConflict''"

record CreateOption =
  co_DryRun :: bool

record UpdateOption =
  uo_DryRun :: bool
  uo_SubResourceOnly :: bool

record ApplyOption =
  ao_DryRun :: bool
  ao_ResolveConflict :: bool
  ao_SubResourceOnly :: bool

record ListOption =
  lo_LabelSelector :: string
  lo_ListKeysOnly :: bool
  lo_Prefix :: string

record DeleteOption =
  do_DryRun :: bool

definition exhausted :: "opt slice \<Rightarrow> 'o \<Rightarrow> (err + 'o) \<times> opt slice" where
  "exhausted opts o' = (case CheckOptionsExhausted opts of Some e \<Rightarrow> (Inl e, opts) | None \<Rightarrow> (Inr o', opts))"

definition buildCreateOptions :: "opt slice \<Rightarrow> (err + CreateOption) \<times> opt slice" where
  "buildCreateOptions opts =
     (if len opts = 0 then (Inr \<lparr>co_DryRun = False\<rparr>, opts)
      else case MatchDryRun opts of (dryRun, opts) \<Rightarrow>
        exhausted opts \<lparr>co_DryRun = or_false dryRun\<rparr>)"

definition buildUpdateOptions :: "opt slice \<Rightarrow> (err + UpdateOption) \<times> opt slice" where
  "buildUpdateOptions opts =
     (if len opts = 0 then (Inr \<lparr>uo_DryRun = False, uo_SubResourceOnly = False\<rparr>, opts)
      else case MatchDryRun opts of (dryRun, opts) \<Rightarrow>
        (case MatchSubResourceOnly opts of (subResourceOnly, opts) \<Rightarrow>
         exhausted opts \<lparr>uo_DryRun = or_false dryRun, uo_SubResourceOnly = or_false subResourceOnly\<rparr>))"

definition buildDeleteOptions :: "opt slice \<Rightarrow> (err + DeleteOption) \<times> opt slice" where
  "buildDeleteOptions opts =
     (if len opts = 0 then (Inr \<lparr>do_DryRun = False\<rparr>, opts)
      else case MatchDryRun opts of (dryRun, opts) \<Rightarrow>
        exhausted opts \<lparr>do_DryRun = or_false dryRun\<rparr>)"

definition buildApplyOptions :: "opt slice \<Rightarrow> (err + ApplyOption) \<times> opt slice" where
  "buildApplyOptions opts =
     (if len opts = 0
      then (Inr \<lparr>ao_DryRun = False, ao_ResolveConflict = False, ao_SubResourceOnly = False\<rparr>, opts)
      else case MatchDryRun opts of (dryRun, opts) \<Rightarrow>
        (case MatchSubResourceOnly opts of (subresourceonly, opts) \<Rightarrow>
         case MatchResolveConflict opts of (resolveConflict, opts) \<Rightarrow>
         exhausted opts \<lparr>ao_DryRun = or_false dryRun, ao_ResolveConflict = or_false resolveConflict,
           ao_SubResourceOnly = or_false subresourceonly\<rparr>))"

section \<open>The store\<close>

record dr_config =
  dr_Namespace :: string
  dr_Group :: string
  dr_Version :: string
  dr_Resource :: string
  dr_ImmutableLabels :: labels

record ('s, 'v) dynamic_resource =
  dr_client :: "('s, unstructured) kube_client"
  dr_cfg :: dr_config
  dr_labelsEnricher :: "('v \<Rightarrow> err + labels) option"
  to_object :: "'v \<Rightarrow> err + unstructured"
  from_object :: "unstructured \<Rightarrow> err + 'v"
  dr_zero :: 'v

definition WithLabelsEnricher ::
  "('v \<Rightarrow> err + labels) option \<Rightarrow> ('s, 'v) dynamic_resource cfg_option" where
  "WithLabelsEnricher enricher d = Inr (d\<lparr>dr_labelsEnricher := enricher\<rparr>)"

definition DR_New ::
  "('v \<Rightarrow> err + unstructured) \<Rightarrow> (unstructured \<Rightarrow> err + 'v) \<Rightarrow> 'v \<Rightarrow> dr_config \<Rightarrow>
   ('s, unstructured) kube_client \<Rightarrow> ('s, 'v) dynamic_resource cfg_option option list \<Rightarrow>
   err + ('s, 'v) dynamic_resource" where
  "DR_New toU fromU zero cfg client opts =
     (case ApplyOpts \<lparr>dr_client = client, dr_cfg = cfg, dr_labelsEnricher = None, to_object = toU,
          from_object = fromU, dr_zero = zero\<rparr> opts of
        Inl e \<Rightarrow> Inl (Errorf ''failed to apply options'' [e])
      | Inr dyn \<Rightarrow> Inr dyn)"

definition DR_BuildLabels ::
  "('s, 'v) dynamic_resource \<Rightarrow> 'v \<Rightarrow> opt slice \<Rightarrow> (err + labels) \<times> opt slice" where
  "DR_BuildLabels c obj opts = BuildLabels obj (dr_ImmutableLabels (dr_cfg c)) (dr_labelsEnricher c) opts"

definition buildListOptions ::
  "('sel, 'req) selectors \<Rightarrow> ('s, 'v) dynamic_resource \<Rightarrow> opt slice \<Rightarrow> (err + ListOption) \<times> opt slice" where
  "buildListOptions K c opts =
     (if len opts = 0 then (Inr \<lparr>lo_LabelSelector = [], lo_ListKeysOnly = False, lo_Prefix = []\<rparr>, opts)
      else case MatchPrefix opts of (pre, opts) \<Rightarrow>
        (case MatchListKeyOnly opts of (listKeyOnly, opts) \<Rightarrow>
         case MatchLabelSelector opts of (selector, opts) \<Rightarrow>
         case GenerateLabelSelector K (dr_ImmutableLabels (dr_cfg c)) (or_empty selector) of
           Inl e \<Rightarrow> (Inl (Errorf ''failed to parse label selector'' [e]), opts)
         | Inr labelSelector \<Rightarrow>
             exhausted opts \<lparr>lo_LabelSelector = sel_String K labelSelector,
               lo_ListKeysOnly = or_false listKeyOnly, lo_Prefix = or_empty pre\<rparr>))"

definition toUnstructured ::
  "('s, 'v) dynamic_resource \<Rightarrow> 'v \<Rightarrow> opt slice \<Rightarrow> (err + unstructured) \<times> opt slice" where
  "toUnstructured c v opts =
     (case to_object c v of
        Inl e \<Rightarrow> (Inl e, opts)
      | Inr obj \<Rightarrow>
          (case DR_BuildLabels c v opts of
             (Inl e, opts) \<Rightarrow> (Inl e, opts)
           | (Inr cmLabels, opts) \<Rightarrow> (Inr (obj\<lparr>u_Labels := cmLabels\<rparr>), opts)))"

definition dr_create ::
  "('s, 'v) dynamic_resource \<Rightarrow> unstructured \<Rightarrow> CreateOption \<Rightarrow> 's \<Rightarrow> 's \<times> err option" where
  "dr_create c obj opt s =
     (case kc_Create (dr_client c) (DryRunOption (co_DryRun opt)) obj s of
        (s, Some e) \<Rightarrow>
          (s, Some (if IsAlreadyExists (apierrors_IsAlreadyExists (dr_client c)) e
             then Errorf [] [e, http_err ErrConflict] else e))
      | (s, None) \<Rightarrow> (s, None))"

definition dr_update ::
  "('s, 'v) dynamic_resource \<Rightarrow> unstructured \<Rightarrow> UpdateOption \<Rightarrow> 's \<Rightarrow> 's \<times> err option" where
  "dr_update c obj opt s =
     (if uo_SubResourceOnly opt then kc_UpdateStatus (dr_client c) (DryRunOption (uo_DryRun opt)) obj s
      else kc_Update (dr_client c) (DryRunOption (uo_DryRun opt)) obj s)"

definition dr_apply ::
  "('s, 'v) dynamic_resource \<Rightarrow> string \<Rightarrow> unstructured \<Rightarrow> ApplyOption \<Rightarrow> 's \<Rightarrow> 's \<times> err option" where
  "dr_apply c key obj opt s =
     (case kc_Get (dr_client c) key s of
        Inl e \<Rightarrow>
          if IsNotFound (apierrors_IsNotFound (dr_client c)) e then
            dr_create c obj \<lparr>co_DryRun = ao_DryRun opt\<rparr> s
          else (s, Some e)
      | Inr existing \<Rightarrow>
          (let obj = (if ao_ResolveConflict opt then obj\<lparr>u_ResourceVersion := u_ResourceVersion existing\<rparr>
                      else obj)
           in dr_update c obj \<lparr>uo_DryRun = ao_DryRun opt, uo_SubResourceOnly = ao_SubResourceOnly opt\<rparr> s))"

definition DR_Create ::
  "('s, 'v) dynamic_resource \<Rightarrow> opt slice \<Rightarrow> string \<Rightarrow> 'v \<Rightarrow> 's \<Rightarrow> ('s, err option) outcome" where
  "DR_Create c opts key v s =
     (case toUnstructured c v opts of
        (Inl e, opts) \<Rightarrow> (s, arr opts, Some e)
      | (Inr obj, opts) \<Rightarrow>
          (let obj = (if key \<noteq> [] then obj\<lparr>u_Name := key\<rparr> else obj) in
           case buildCreateOptions opts of
             (Inl e, opts) \<Rightarrow> (s, arr opts, Some e)
           | (Inr opt, opts) \<Rightarrow> (case dr_create c obj opt s of (s, r) \<Rightarrow> (s, arr opts, r))))"

definition DR_Read ::
  "('s, 'v) dynamic_resource \<Rightarrow> opt slice \<Rightarrow> string \<Rightarrow> 's \<Rightarrow> ('s, err + 'v) outcome" where
  "DR_Read c opts key s =
     (s, arr opts,
      if len opts > 0 then Inl (Sentinel ErrUnsupportedOption)
      else case kc_Get (dr_client c) key s of
          Inl e \<Rightarrow>
            if IsNotFound (apierrors_IsNotFound (dr_client c)) e
            then Inl (Errorf [] [e, http_err ErrNotFound]) else Inl e
        | Inr ul \<Rightarrow> from_object c ul)"

definition DR_Update ::
  "('s, 'v) dynamic_resource \<Rightarrow> opt slice \<Rightarrow> string \<Rightarrow> 'v \<Rightarrow> 's \<Rightarrow> ('s, err option) outcome" where
  "DR_Update c opts key v s =
     (case toUnstructured c v opts of
        (Inl e, opts) \<Rightarrow> (s, arr opts, Some e)
      | (Inr obj, opts) \<Rightarrow>
          (case buildUpdateOptions opts of
             (Inl e, opts) \<Rightarrow> (s, arr opts, Some e)
           | (Inr opt, opts) \<Rightarrow> (case dr_update c obj opt s of (s, r) \<Rightarrow> (s, arr opts, r))))"

definition DR_Apply ::
  "('s, 'v) dynamic_resource \<Rightarrow> opt slice \<Rightarrow> string \<Rightarrow> 'v \<Rightarrow> 's \<Rightarrow> ('s, err option) outcome" where
  "DR_Apply c opts key v s =
     (case toUnstructured c v opts of
        (Inl e, opts) \<Rightarrow> (s, arr opts, Some e)
      | (Inr obj, opts) \<Rightarrow>
          (case buildApplyOptions opts of
             (Inl e, opts) \<Rightarrow> (s, arr opts, Some e)
           | (Inr opt, opts) \<Rightarrow>
               (case (if ao_SubResourceOnly opt
                      then kc_ApplyStatus (dr_client c) (DryRunOption (ao_DryRun opt)) key obj s
                      else dr_apply c key obj opt s) of
                  (s, r) \<Rightarrow> (s, arr opts, r))))"

definition DR_Delete ::
  "('s, 'v) dynamic_resource \<Rightarrow> opt slice \<Rightarrow> string \<Rightarrow> 's \<Rightarrow> ('s, err option) outcome" where
  "DR_Delete c opts key s =
     (case buildDeleteOptions opts of
        (Inl e, opts) \<Rightarrow> (s, arr opts, Some e)
      | (Inr opt, opts) \<Rightarrow>
          (case kc_Delete (dr_client c) (DryRunOption (do_DryRun opt)) key s of (s, r) \<Rightarrow> (s, arr opts, r)))"

fun DR_List_loop ::
  "('s, 'v) dynamic_resource \<Rightarrow> ListOption \<Rightarrow> unstructured list \<Rightarrow> (string, 'v) ListItems \<Rightarrow>
   err + (string, 'v) ListItems" where
  "DR_List_loop c opt [] items = Inr items"
| "DR_List_loop c opt (item # ul) items =
     (if lo_Prefix opt \<noteq> [] \<and> \<not> prefix (lo_Prefix opt) (u_Name item) then DR_List_loop c opt ul items
      else case (if \<not> lo_ListKeysOnly opt then from_object c item else Inr (dr_zero c)) of
          Inl e \<Rightarrow> Inl e
        | Inr v \<Rightarrow> DR_List_loop c opt ul (items @ [(u_Name item, v)]))"

definition DR_List ::
  "('sel, 'req) selectors \<Rightarrow> ('s, 'v) dynamic_resource \<Rightarrow> opt slice \<Rightarrow> 's \<Rightarrow>
   ('s, err + (string, 'v) ListItems) outcome" where
  "DR_List K c opts s =
     (case buildListOptions K c opts of
        (Inl e, opts) \<Rightarrow> (s, arr opts, Inl e)
      | (Inr opt, opts) \<Rightarrow>
          (s, arr opts,
           case kc_List (dr_client c) (lo_LabelSelector opt) s of
             Inl e \<Rightarrow> Inl e
           | Inr ul \<Rightarrow> DR_List_loop c opt ul []))"

definition DynamicResource ::
  "('sel, 'req) selectors \<Rightarrow> ('s, 'v) dynamic_resource \<Rightarrow> ('s, string, 'v) store" where
  "DynamicResource K c =
     \<lparr>Create = DR_Create c, Read = DR_Read c, Update = DR_Update c, Apply = DR_Apply c,
      Delete = DR_Delete c, List = DR_List K c\<rparr>"

section \<open>The cached store\<close>

text \<open>
  The index of the informer, which only its watch changes, maps keys to items that need not be
  unstructured. The list order of the index is open.
\<close>

datatype cached_item = CachedObject unstructured | OtherItem

type_synonym indexer = "(string, cached_item) gomap"

record cached_config =
  cc_Config :: dr_config
  ResyncPeriod :: int
  WaitForCacheToSync :: bool

text \<open>\<open>newCachedStore\<close>: the base store, and an error when the wait for the cache ends early.\<close>

definition newCachedStore ::
  "('v \<Rightarrow> err + unstructured) \<Rightarrow> (unstructured \<Rightarrow> err + 'v) \<Rightarrow> 'v \<Rightarrow> cached_config \<Rightarrow>
   ('s, unstructured) kube_client \<Rightarrow> bool \<Rightarrow> err + ('s, 'v) dynamic_resource" where
  "newCachedStore toU fromU zero cfg dynClient synced =
     (case DR_New toU fromU zero (cc_Config cfg) dynClient [] of
        Inl e \<Rightarrow> Inl e
      | Inr baseStore \<Rightarrow>
          if WaitForCacheToSync cfg \<and> \<not> synced
          then Inl (new_error ''timed out waiting for cache to sync'')
          else Inr baseStore)"

definition NamespaceKeyFunc :: "string \<Rightarrow> string \<Rightarrow> string" where
  "NamespaceKeyFunc namespace name = (if namespace \<noteq> [] then namespace @ ''/'' @ name else name)"

definition Cached_Read ::
  "('s, 'v) dynamic_resource \<Rightarrow> indexer \<Rightarrow> opt slice \<Rightarrow> string \<Rightarrow> 's \<Rightarrow> ('s, err + 'v) outcome" where
  "Cached_Read c idx opts key s =
     (case MatchNoCache opts of (noCache, opts) \<Rightarrow>
      if len opts > 0 then (s, arr opts, Inl (Sentinel ErrUnsupportedOption))
      else if or_false noCache then DR_Read c opts key s
      else case map_of idx (NamespaceKeyFunc (dr_Namespace (dr_cfg c)) key) of
          None \<Rightarrow> DR_Read c opts key s
        | Some OtherItem \<Rightarrow> (s, arr opts, Inl (new_error ''cached item is not *unstructured.Unstructured''))
        | Some (CachedObject u) \<Rightarrow> (s, arr opts, from_object c u))"

fun Cached_List_loop ::
  "(unstructured \<Rightarrow> err + 'v) \<Rightarrow> cached_item list \<Rightarrow> (string, 'v) ListItems \<Rightarrow> err + (string, 'v) ListItems" where
  "Cached_List_loop FromUnstructured [] result = Inr result"
| "Cached_List_loop FromUnstructured (OtherItem # items) result = Cached_List_loop FromUnstructured items result"
| "Cached_List_loop FromUnstructured (CachedObject u # items) result =
     (case FromUnstructured u of
        Inl e \<Rightarrow> Inl e
      | Inr v \<Rightarrow> Cached_List_loop FromUnstructured items (result @ [(u_Name u, v)]))"

definition Cached_List ::
  "('sel, 'req) selectors \<Rightarrow> (unstructured \<Rightarrow> err + 'v) \<Rightarrow> ('s, 'v) dynamic_resource \<Rightarrow> indexer \<Rightarrow>
   opt slice \<Rightarrow> 's \<Rightarrow> ('s, err + (string, 'v) ListItems) outcome" where
  "Cached_List K FromUnstructured c idx opts s =
     (case MatchNoCache opts of (noCache, opts) \<Rightarrow>
      if len opts > 0 then (s, arr opts, Inl (Sentinel ErrUnsupportedOption))
      else if or_false noCache then DR_List K c opts s
      else if length idx = 0 then DR_List K c opts s
      else (s, arr opts, Cached_List_loop FromUnstructured (map snd idx) []))"

text \<open>The embedded store provides the other operations.\<close>

definition CachedDynamicResource ::
  "('sel, 'req) selectors \<Rightarrow> (unstructured \<Rightarrow> err + 'v) \<Rightarrow> ('s, 'v) dynamic_resource \<Rightarrow> indexer \<Rightarrow>
   ('s, string, 'v) store" where
  "CachedDynamicResource K FromUnstructured c idx =
     (DynamicResource K c)\<lparr>Read := Cached_Read c idx, List := Cached_List K FromUnstructured c idx\<rparr>"

text \<open>Closing the stop channel once.\<close>

definition Stop :: "bool \<Rightarrow> bool" where
  "Stop closed = (if closed then closed else True)"

section \<open>The API server\<close>

text \<open>
  What the documentation says of reads: by name, by the text of a selector, and of the whole
  namespace, where a listing has each object once, in some order.
\<close>

definition read_laws ::
  "('sel, 'req) selectors \<Rightarrow> ('s, unstructured) kube_client \<Rightarrow> ('s \<Rightarrow> string \<Rightarrow> unstructured option) \<Rightarrow> bool"
where
  "read_laws K C abst \<longleftrightarrow>
     (\<forall>s n. case abst s n of Some o' \<Rightarrow> kc_Get C n s = Inr o'
        | None \<Rightarrow> n \<noteq> [] \<longrightarrow> (\<exists>e. kc_Get C n s = Inl e \<and> apierrors_IsNotFound C e)) \<and>
     (\<forall>s n o'. abst s n = Some o' \<longrightarrow> u_Name o' = n) \<and>
     (\<forall>sel s. \<exists>os. kc_List C (sel_String K sel) s = Inr os \<and>
        lists (abst s) (\<lambda>o'. Matches K sel (u_Labels o')) u_Name os) \<and>
     (\<forall>s. \<exists>os. kc_List C [] s = Inr os \<and> lists (abst s) (\<lambda>_. True) u_Name os)"

lemma read_lawsD:
  assumes "read_laws K C abst"
  shows "abst s n = Some o' \<Longrightarrow> kc_Get C n s = Inr o'"
    and "abst s n = None \<Longrightarrow> n \<noteq> [] \<Longrightarrow> \<exists>e. kc_Get C n s = Inl e \<and> apierrors_IsNotFound C e"
    and "abst s n = Some o' \<Longrightarrow> u_Name o' = n"
    and "\<exists>os. kc_List C (sel_String K sel) s = Inr os \<and> lists (abst s) (\<lambda>o'. Matches K sel (u_Labels o')) u_Name os"
    and "\<exists>os. kc_List C [] s = Inr os \<and> lists (abst s) (\<lambda>_. True) u_Name os"
proof -
  note l = assms [unfolded read_laws_def]
  note g = l [THEN conjunct1, THEN spec, of s, THEN spec, of n]
  show "kc_Get C n s = Inr o'" if "abst s n = Some o'" using g that by simp
  show "\<exists>e. kc_Get C n s = Inl e \<and> apierrors_IsNotFound C e" if "abst s n = None" "n \<noteq> []"
    using g that by simp
  show "u_Name o' = n" if "abst s n = Some o'" using l [THEN conjunct2, THEN conjunct1] that by blast
  note l = l [THEN conjunct2, THEN conjunct2]
  show "\<exists>os. kc_List C (sel_String K sel) s = Inr os \<and> lists (abst s) (\<lambda>o'. Matches K sel (u_Labels o')) u_Name os"
    using l by blast
  show "\<exists>os. kc_List C [] s = Inr os \<and> lists (abst s) (\<lambda>_. True) u_Name os"
    using l by blast
qed

lemma kube_read_laws: "kube_laws K C u_Name u_Labels abst \<Longrightarrow> read_laws K C abst"
  unfolding read_laws_def using kube_lawsD(1,2,3,10,11) [of K C u_Name u_Labels abst]
  by (auto split: option.split)

text \<open>
  And of writes. A server has its objects by name; \<open>as_accepts\<close> says which objects its schema and its
  admission accept; \<open>as_strip\<close> leaves of an object what a client decides, without the version, the
  identity, the times and the defaults the server sets; \<open>as_unconditional\<close> says whether the kind of
  object allows an update without a version (most built-in kinds do, custom resources do not);
  \<open>as_removable\<close> objects are gone when they are deleted, as they have no finalizers and no grace
  period. What the server stores for an accepted object agrees with it up to \<open>as_strip\<close>. A create needs
  a free name and no version; an update needs the version of the stored object, or none where that is
  allowed, and any other version is answered with 409. Nobody else writes meanwhile.
\<close>

record 's api_server =
  as_objects :: "'s \<Rightarrow> string \<Rightarrow> unstructured option"
  as_accepts :: "unstructured \<Rightarrow> bool"
  as_strip :: "unstructured \<Rightarrow> unstructured"
  as_unconditional :: bool
  as_removable :: "unstructured \<Rightarrow> bool"

definition stores :: "'s api_server \<Rightarrow> unstructured \<Rightarrow> 's \<Rightarrow> 's \<Rightarrow> bool" where
  "stores A obj s s' \<longleftrightarrow> (\<exists>o'. as_strip A o' = as_strip A obj \<and>
     as_objects A s' = (as_objects A s)(u_Name obj \<mapsto> o'))"

definition create_law :: "('s, unstructured) kube_client \<Rightarrow> 's api_server \<Rightarrow> bool" where
  "create_law C A \<longleftrightarrow> (\<forall>obj s. u_Name obj \<noteq> [] \<longrightarrow>
     (case kc_Create C [] obj s of (s', r) \<Rightarrow>
        if as_objects A s (u_Name obj) \<noteq> None then r \<noteq> None \<and> as_objects A s' = as_objects A s
        else as_accepts A obj \<and> u_ResourceVersion obj = [] \<longrightarrow> r = None \<and> stores A obj s s'))"

definition update_law :: "('s, unstructured) kube_client \<Rightarrow> 's api_server \<Rightarrow> bool" where
  "update_law C A \<longleftrightarrow> (\<forall>obj s. u_Name obj \<noteq> [] \<longrightarrow>
     (case kc_Update C [] obj s of (s', r) \<Rightarrow>
        case as_objects A s (u_Name obj) of
          None \<Rightarrow> r \<noteq> None \<and> as_objects A s' = as_objects A s
        | Some cur \<Rightarrow> as_accepts A obj \<longrightarrow>
            (if u_ResourceVersion obj = u_ResourceVersion cur \<or> u_ResourceVersion obj = [] \<and> as_unconditional A
             then r = None \<and> stores A obj s s'
             else as_objects A s' = as_objects A s \<and> r \<noteq> None \<and>
               (u_ResourceVersion obj \<noteq> [] \<longrightarrow> r = Some (ApiError 409 ''Conflict'')))))"

definition delete_law :: "('s, unstructured) kube_client \<Rightarrow> 's api_server \<Rightarrow> bool" where
  "delete_law C A \<longleftrightarrow> (\<forall>n s. n \<noteq> [] \<longrightarrow>
     (case kc_Delete C [] n s of (s', r) \<Rightarrow>
        case as_objects A s n of
          None \<Rightarrow> r \<noteq> None \<and> as_objects A s' = as_objects A s
        | Some o' \<Rightarrow> as_removable A o' \<longrightarrow> r = None \<and> as_objects A s' = (as_objects A s)(n := None)))"

definition dyn_laws ::
  "('sel, 'req) selectors \<Rightarrow> ('s, unstructured) kube_client \<Rightarrow> 's api_server \<Rightarrow> bool" where
  "dyn_laws K C A \<longleftrightarrow>
     read_laws K C (as_objects A) \<and> create_law C A \<and> update_law C A \<and> delete_law C A \<and>
     (\<forall>o' v. as_strip A (o'\<lparr>u_ResourceVersion := v\<rparr>) = as_strip A o' \<and>
        as_accepts A (o'\<lparr>u_ResourceVersion := v\<rparr>) = as_accepts A o') \<and>
     (\<forall>o1 o2. as_strip A o1 = as_strip A o2 \<longrightarrow> as_removable A o1 = as_removable A o2)"

lemma dyn_lawsD:
  assumes "dyn_laws K C A"
  shows "read_laws K C (as_objects A)"
    and "kc_Create C [] obj s = (s', r) \<Longrightarrow> u_Name obj \<noteq> [] \<Longrightarrow> as_objects A s (u_Name obj) \<noteq> None \<Longrightarrow>
      r \<noteq> None \<and> as_objects A s' = as_objects A s"
    and "kc_Create C [] obj s = (s', r) \<Longrightarrow> u_Name obj \<noteq> [] \<Longrightarrow> as_objects A s (u_Name obj) = None \<Longrightarrow>
      as_accepts A obj \<Longrightarrow> u_ResourceVersion obj = [] \<Longrightarrow> r = None \<and> stores A obj s s'"
    and "kc_Update C [] obj s = (s', r) \<Longrightarrow> u_Name obj \<noteq> [] \<Longrightarrow> as_objects A s (u_Name obj) = None \<Longrightarrow>
      r \<noteq> None \<and> as_objects A s' = as_objects A s"
    and "kc_Update C [] obj s = (s', r) \<Longrightarrow> u_Name obj \<noteq> [] \<Longrightarrow> as_objects A s (u_Name obj) = Some cur \<Longrightarrow>
      as_accepts A obj \<Longrightarrow>
      u_ResourceVersion obj = u_ResourceVersion cur \<or> u_ResourceVersion obj = [] \<and> as_unconditional A \<Longrightarrow>
      r = None \<and> stores A obj s s'"
    and "kc_Update C [] obj s = (s', r) \<Longrightarrow> u_Name obj \<noteq> [] \<Longrightarrow> as_objects A s (u_Name obj) = Some cur \<Longrightarrow>
      as_accepts A obj \<Longrightarrow> u_ResourceVersion obj \<noteq> [] \<Longrightarrow> u_ResourceVersion obj \<noteq> u_ResourceVersion cur \<Longrightarrow>
      r = Some (ApiError 409 ''Conflict'') \<and> as_objects A s' = as_objects A s"
    and "kc_Delete C [] n s = (s', r) \<Longrightarrow> n \<noteq> [] \<Longrightarrow> as_objects A s n = None \<Longrightarrow>
      r \<noteq> None \<and> as_objects A s' = as_objects A s"
    and "kc_Delete C [] n s = (s', r) \<Longrightarrow> n \<noteq> [] \<Longrightarrow> as_objects A s n = Some o' \<Longrightarrow> as_removable A o' \<Longrightarrow>
      r = None \<and> as_objects A s' = (as_objects A s)(n := None)"
    and "as_strip A (o'\<lparr>u_ResourceVersion := v\<rparr>) = as_strip A o'"
    and "as_accepts A (o'\<lparr>u_ResourceVersion := v\<rparr>) = as_accepts A o'"
    and "as_strip A o1 = as_strip A o2 \<Longrightarrow> as_removable A o1 = as_removable A o2"
proof -
  from assms have cr: "create_law C A" and up: "update_law C A" and de: "delete_law C A"
    by (simp_all add: dyn_laws_def)
  note cr = cr [unfolded create_law_def, THEN spec, of obj, THEN spec, of s]
  note up = up [unfolded update_law_def, THEN spec, of obj, THEN spec, of s]
  note de = de [unfolded delete_law_def, THEN spec, of n, THEN spec, of s]
  show "r \<noteq> None \<and> as_objects A s' = as_objects A s"
    if "kc_Create C [] obj s = (s', r)" "u_Name obj \<noteq> []" "as_objects A s (u_Name obj) \<noteq> None"
    using cr that by simp
  show "r = None \<and> stores A obj s s'"
    if "kc_Create C [] obj s = (s', r)" "u_Name obj \<noteq> []" "as_objects A s (u_Name obj) = None"
      "as_accepts A obj" "u_ResourceVersion obj = []"
    using cr that by simp
  show "r \<noteq> None \<and> as_objects A s' = as_objects A s"
    if "kc_Update C [] obj s = (s', r)" "u_Name obj \<noteq> []" "as_objects A s (u_Name obj) = None"
    using up that by simp
  show "r = None \<and> stores A obj s s'"
    if "kc_Update C [] obj s = (s', r)" "u_Name obj \<noteq> []" "as_objects A s (u_Name obj) = Some cur"
      "as_accepts A obj"
      "u_ResourceVersion obj = u_ResourceVersion cur \<or> u_ResourceVersion obj = [] \<and> as_unconditional A"
    using up that by simp
  show "r = Some (ApiError 409 ''Conflict'') \<and> as_objects A s' = as_objects A s"
    if "kc_Update C [] obj s = (s', r)" "u_Name obj \<noteq> []" "as_objects A s (u_Name obj) = Some cur"
      "as_accepts A obj" "u_ResourceVersion obj \<noteq> []" "u_ResourceVersion obj \<noteq> u_ResourceVersion cur"
    using up that by simp
  show "r \<noteq> None \<and> as_objects A s' = as_objects A s"
    if "kc_Delete C [] n s = (s', r)" "n \<noteq> []" "as_objects A s n = None"
    using de that by simp
  show "r = None \<and> as_objects A s' = (as_objects A s)(n := None)"
    if "kc_Delete C [] n s = (s', r)" "n \<noteq> []" "as_objects A s n = Some o'" "as_removable A o'"
    using de that by simp
  show "read_laws K C (as_objects A)" using assms by (simp add: dyn_laws_def)
  note l = assms [unfolded dyn_laws_def, THEN conjunct2, THEN conjunct2, THEN conjunct2, THEN conjunct2]
  note v = l [THEN conjunct1] and m = l [THEN conjunct2]
  show "as_strip A (o'\<lparr>u_ResourceVersion := v\<rparr>) = as_strip A o'"
    "as_accepts A (o'\<lparr>u_ResourceVersion := v\<rparr>) = as_accepts A o'"
    using v [THEN spec, of o', THEN spec, of v] by simp_all
  show "as_removable A o1 = as_removable A o2" if "as_strip A o1 = as_strip A o2"
    using m [THEN spec, of o1, THEN spec, of o2] that by simp
qed

section \<open>The contract of the store\<close>

definition dr_value :: "('s, 'v) dynamic_resource \<Rightarrow> unstructured \<Rightarrow> 'v" where
  "dr_value c u = (case from_object c u of Inl _ \<Rightarrow> dr_zero c | Inr v \<Rightarrow> v)"

definition DR_abs :: "('s, 'v) dynamic_resource \<Rightarrow> (string \<Rightarrow> unstructured option) \<Rightarrow> string \<Rightarrow> 'v option" where
  "DR_abs c m k = map_option (dr_value c) (m k)"

text \<open>Every object of the namespace can be read as a value.\<close>

definition DR_inv :: "('s, 'v) dynamic_resource \<Rightarrow> (string \<Rightarrow> unstructured option) \<Rightarrow> bool" where
  "DR_inv c m \<longleftrightarrow> (\<forall>k u. m k = Some u \<longrightarrow> \<not> isl (from_object c u))"

text \<open>
  A value that can be kept at a key: its object bears that name, no version, and is accepted and
  removable; whatever the server stores for it reads back, seen through \<open>pay\<close>, as the value. \<open>pay\<close> hides
  what the server sets from those who look at a value.
\<close>

definition DR_vok ::
  "('s, 'v) dynamic_resource \<Rightarrow> 's api_server \<Rightarrow> ('v \<Rightarrow> 'v) \<Rightarrow> string \<Rightarrow> 'v \<Rightarrow> bool" where
  "DR_vok c A pay k v \<longleftrightarrow> (case toUnstructured c v nil_slice of
     (Inl _, _) \<Rightarrow> False
   | (Inr u, _) \<Rightarrow> u_Name u = k \<and> u_ResourceVersion u = [] \<and> as_accepts A u \<and> as_removable A u \<and>
       (\<forall>o'. as_strip A o' = as_strip A u \<longrightarrow>
          (case from_object c o' of Inl _ \<Rightarrow> False | Inr w \<Rightarrow> pay w = v)))"

text \<open>Every object of the cluster can be read as a value and is gone when it is deleted.\<close>

definition DR_state :: "('s, 'v) dynamic_resource \<Rightarrow> 's api_server \<Rightarrow> (string \<Rightarrow> unstructured option) \<Rightarrow> bool" where
  "DR_state c A m \<longleftrightarrow> DR_inv c m \<and> (\<forall>k u. m k = Some u \<longrightarrow> k \<noteq> [] \<and> as_removable A u)"

definition DR_view :: "('s, 'v) dynamic_resource \<Rightarrow> ('v \<Rightarrow> 'v) \<Rightarrow> (string \<Rightarrow> unstructured option) \<Rightarrow> string \<Rightarrow> 'v option" where
  "DR_view c pay m k = map_option pay (DR_abs c m k)"

text \<open>A store whose values are looked at through a function.\<close>

definition seen_through :: "('v \<Rightarrow> 'v) \<Rightarrow> ('s, 'k, 'v) store \<Rightarrow> ('s, 'k, 'v) store" where
  "seen_through pay S = S\<lparr>Read := \<lambda>opts k s. case Read S opts k s of
       (s, a, r) \<Rightarrow> (s, a, map_sum id pay r),
     List := \<lambda>opts s. case List S opts s of
       (s, a, r) \<Rightarrow> (s, a, map_sum id (map (\<lambda>(k, v). (k, pay v))) r)\<rparr>"

lemma seen_through_simps [simp]:
  "Create (seen_through pay S) = Create S" "Update (seen_through pay S) = Update S"
  "Apply (seen_through pay S) = Apply S" "Delete (seen_through pay S) = Delete S"
  "Read S opts k s = (s', a, r) \<Longrightarrow> Read (seen_through pay S) opts k s = (s', a, map_sum id pay r)"
  "List S opts s = (s', a, r') \<Longrightarrow>
    List (seen_through pay S) opts s = (s', a, map_sum id (map (\<lambda>(k, v). (k, pay v))) r')"
  by (simp_all add: seen_through_def)

lemma seen_items:
  assumes "listing m items"
  shows "listing (\<lambda>k. map_option pay (m k)) (map (\<lambda>(k, v). (k, pay v)) items)"
proof -
  have "map_of (map (\<lambda>(k, v). (k, pay v)) items) = (\<lambda>k. map_option pay (map_of items k))"
    by (simp add: map_of_map fun_eq_iff comp_def)
  moreover have "map fst (map (\<lambda>(k, v). (k, pay v)) items) = map fst items" by (rule map_fst_blank)
  ultimately show ?thesis using assms by (simp only: listing_def)
qed

lemmas DR_defs = DynamicResource_def DR_Create_def DR_Read_def DR_Update_def DR_Apply_def DR_Delete_def
  dr_create_def dr_update_def dr_apply_def buildCreateOptions_def buildUpdateOptions_def
  buildDeleteOptions_def buildApplyOptions_def

lemma DR_abs_simps [simp]:
  "DR_abs c (m(k \<mapsto> u)) = (DR_abs c m)(k \<mapsto> dr_value c u)"
  "DR_abs c (m(k := None)) = (DR_abs c m)(k := None)"
  "DR_abs c m k = None \<longleftrightarrow> m k = None"
  by (auto simp: DR_abs_def fun_eq_iff)

lemma DR_inv_upd:
  "DR_inv c m \<Longrightarrow> DR_inv c (m(k := None))"
  "DR_inv c m \<Longrightarrow> \<not> isl (from_object c u) \<Longrightarrow> DR_inv c (m(k \<mapsto> u))"
  by (auto simp: DR_inv_def)

lemma toUnstructured_nil:
  "toUnstructured c v nil_slice = (r, opts) \<Longrightarrow> opts = nil_slice"
  by (auto simp: toUnstructured_def DR_BuildLabels_def BuildLabels_def Let_def split: sum.splits option.splits prod.splits)

text \<open>What a write of such a value sends, and what has become of the cluster when it is stored.\<close>

lemma DR_write_ok:
  assumes "DR_vok c A pay k v"
  obtains u where "toUnstructured c v nil_slice = (Inr u, nil_slice)" "u_Name u = k"
    "u_ResourceVersion u = []" "as_accepts A u" "as_removable A u"
    "\<And>o'. as_strip A o' = as_strip A u \<Longrightarrow> \<not> isl (from_object c o') \<and> pay (dr_value c o') = v"
proof -
  obtain r opts where e: "toUnstructured c v nil_slice = (r, opts)" by fastforce
  from assms obtain u where u: "r = Inr u" "u_Name u = k" "u_ResourceVersion u = []" "as_accepts A u"
    "as_removable A u" and f: "\<forall>o'. as_strip A o' = as_strip A u \<longrightarrow>
      (case from_object c o' of Inl _ \<Rightarrow> False | Inr w \<Rightarrow> pay w = v)"
    unfolding DR_vok_def e prod.case by (cases r) (simp_all only: sum.case, blast)
  have "\<not> isl (from_object c o') \<and> pay (dr_value c o') = v" if "as_strip A o' = as_strip A u" for o'
    using f [THEN spec, of o'] that by (cases "from_object c o'") (simp_all add: dr_value_def)
  with u toUnstructured_nil [OF e] e show thesis by (intro that [of u]) simp_all
qed

lemma DR_stored:
  assumes A: "dyn_laws K C A" and st: "stores A u s s'" and inv: "DR_state c A (as_objects A s)"
    and u: "u_Name u = k" "k \<noteq> []" "as_removable A u"
      "\<And>o'. as_strip A o' = as_strip A u \<Longrightarrow> \<not> isl (from_object c o') \<and> pay (dr_value c o') = v"
  shows "DR_state c A (as_objects A s') \<and>
    DR_view c pay (as_objects A s') = (DR_view c pay (as_objects A s))(k \<mapsto> v)"
proof -
  from st obtain o' where o': "as_strip A o' = as_strip A u" "as_objects A s' = (as_objects A s)(k \<mapsto> o')"
    unfolding stores_def u(1) by blast
  have "as_removable A o'" using dyn_lawsD(11) [OF A o'(1)] u(3) by simp
  with u(2) u(4) [OF o'(1)] inv have "DR_state c A ((as_objects A s)(k \<mapsto> o'))"
    by (simp add: DR_state_def DR_inv_upd)
  with u(4) [OF o'(1)] show ?thesis by (simp add: o'(2) DR_view_def [abs_def] fun_eq_iff)
qed

lemma DR_List_loop_ok:
  "(\<And>u. u \<in> set ul \<Longrightarrow> \<not> isl (from_object c u)) \<Longrightarrow> \<not> lo_ListKeysOnly opt \<Longrightarrow>
   DR_List_loop c opt ul items =
     Inr (items @ map (\<lambda>u. (u_Name u, dr_value c u)) (filter (\<lambda>u. lo_Prefix opt = [] \<or> prefix (lo_Prefix opt) (u_Name u)) ul))"
proof (induction ul arbitrary: items)
  case (Cons u ul)
  then have "\<not> isl (from_object c u)" by simp
  then obtain v where "from_object c u = Inr v" by (cases "from_object c u") auto
  with Cons show ?case by (simp add: dr_value_def)
qed simp

text \<open>The listing of the objects a selector chose.\<close>

lemma DR_listing:
  assumes C: "read_laws K C abst" and inv: "DR_inv c (abst s)"
    and os: "lists (abst s) P u_Name os" and opt: "\<not> lo_ListKeysOnly opt"
  shows "\<exists>items. DR_List_loop c opt os [] = Inr items \<and>
    listing (\<lambda>k. case abst s k of None \<Rightarrow> None
      | Some u \<Rightarrow> if P u \<and> prefix (lo_Prefix opt) k then Some (dr_value c u) else None) (sort_key fst items)"
proof -
  have d: "\<not> isl (from_object c u)" if "u \<in> set os" for u
    using that os inv by (auto simp: lists_def DR_inv_def)
  let ?os = "filter (\<lambda>u. prefix (lo_Prefix opt) (u_Name u)) os"
  have "lists (abst s) (\<lambda>u. P u \<and> prefix (lo_Prefix opt) (u_Name u)) u_Name ?os"
    using os by (auto simp: lists_def distinct_map_filter)
  from lists_listing [where f = "dr_value c", OF this read_lawsD(3) [OF C]]
  have "listing (\<lambda>k. case abst s k of None \<Rightarrow> None
      | Some u \<Rightarrow> if P u \<and> prefix (lo_Prefix opt) (u_Name u) then Some (dr_value c u) else None)
    (sort_key fst (map (\<lambda>u. (u_Name u, dr_value c u)) ?os))" by simp
  also have "(\<lambda>k. case abst s k of None \<Rightarrow> None
      | Some u \<Rightarrow> if P u \<and> prefix (lo_Prefix opt) (u_Name u) then Some (dr_value c u) else None) =
    (\<lambda>k. case abst s k of None \<Rightarrow> None
      | Some u \<Rightarrow> if P u \<and> prefix (lo_Prefix opt) k then Some (dr_value c u) else None)"
    using read_lawsD(3) [OF C] by (auto simp: fun_eq_iff split: option.split)
  finally show ?thesis
    using DR_List_loop_ok [OF d opt, of os "[]"] by (cases "lo_Prefix opt = []") (simp_all cong: filter_cong)
qed

lemma DR_List_all:
  assumes C: "read_laws K (dr_client c) abst" and inv: "DR_inv c (abst s)"
  obtains items where "DR_List K c nil_slice s = (s, [], Inr items)" "listing (DR_abs c (abst s)) (sort_key fst items)"
proof -
  from read_lawsD(5) [OF C] obtain os where
    os: "kc_List (dr_client c) [] s = Inr os" "lists (abst s) (\<lambda>_. True) u_Name os" by blast
  let ?o = "\<lparr>lo_LabelSelector = [], lo_ListKeysOnly = False, lo_Prefix = []\<rparr>"
  have f: "(\<lambda>k. case abst s k of None \<Rightarrow> None
      | Some u \<Rightarrow> if True \<and> prefix (lo_Prefix ?o) k then Some (dr_value c u) else None) = DR_abs c (abst s)"
    by (simp add: fun_eq_iff DR_abs_def split: option.split)
  obtain items where it: "DR_List_loop c ?o os [] = Inr items" "listing (DR_abs c (abst s)) (sort_key fst items)"
    using DR_listing [OF C inv os(2), of ?o] unfolding f by auto
  have "DR_List K c nil_slice s = (s, [], Inr items)"
    using os(1) it(1) by (simp add: DR_List_def buildListOptions_def)
  from this it(2) show thesis by (rule that)
qed

lemma DynamicResource_contract:
  assumes A: "dyn_laws K (dr_client c) A" and U: "as_unconditional A"
  shows "kv_store (seen_through pay (sorted_lists (DynamicResource K c)))
    (\<lambda>s. DR_view c pay (as_objects A s)) (\<lambda>s. DR_state c A (as_objects A s)) (\<lambda>k. k \<noteq> []) (DR_vok c A pay)"
proof (unfold_locales, goal_cases)
  case (1 s k) then show ?case by (auto simp: DR_state_def DR_view_def DR_abs_def)
next
  case (2 s k v s' a r)
  from DR_write_ok [OF 2(3)] obtain u where w: "toUnstructured c v nil_slice = (Inr u, nil_slice)"
    "u_Name u = k" "u_ResourceVersion u = []" "as_accepts A u" "as_removable A u"
    "\<And>o'. as_strip A o' = as_strip A u \<Longrightarrow> \<not> isl (from_object c o') \<and> pay (dr_value c o') = v" by metis
  then have n: "(if k \<noteq> [] then u\<lparr>u_Name := k\<rparr> else u) = u" by auto
  obtain s1 r1 where e: "kc_Create (dr_client c) [] u s = (s1, r1)" by fastforce
  have "as_objects A s (u_Name u) = None" using 2(4) w(2) by (simp add: DR_view_def)
  from dyn_lawsD(3) [OF A e _ this w(4,3)] 2(2) w(2) have r: "r1 = None" "stores A u s s1" by auto
  with DR_stored [OF A r(2) 2(1) w(2) 2(2) w(5,6)] 2(5) w(1) e show ?case by (simp add: DR_defs n)
next
  case (3 s k v s' a r)
  from DR_write_ok [OF 3(3)] obtain u where w: "toUnstructured c v nil_slice = (Inr u, nil_slice)" "u_Name u = k" by metis
  then have n: "(if k \<noteq> [] then u\<lparr>u_Name := k\<rparr> else u) = u" by auto
  obtain s1 r1 where e: "kc_Create (dr_client c) [] u s = (s1, r1)" by fastforce
  have "as_objects A s (u_Name u) \<noteq> None" using 3(4) w(2) by (auto simp: DR_view_def)
  from dyn_lawsD(2) [OF A e _ this] 3(2) w(2) have "r1 \<noteq> None" "as_objects A s1 = as_objects A s" by auto
  with 3 w e show ?case by (auto simp: DR_defs n)
next
  case (4 s k v s' a r)
  then obtain u where u: "as_objects A s k = Some u" "v = pay (dr_value c u)"
    by (auto simp: DR_view_def DR_abs_def)
  with 4(1) have "\<not> isl (from_object c u)" by (auto simp: DR_state_def DR_inv_def)
  then have f: "from_object c u = Inr (dr_value c u)" by (cases "from_object c u") (auto simp: dr_value_def)
  have "Read (DynamicResource K c) nil_slice k s = (s, [], Inr (dr_value c u))"
    using read_lawsD(1) [OF dyn_lawsD(1) [OF A] u(1)] f by (simp add: DR_defs)
  then have "Read (seen_through pay (sorted_lists (DynamicResource K c))) nil_slice k s = (s, [], Inr v)"
    using u(2) by (simp add: seen_through_def)
  with 4 show ?case by simp
next
  case (5 s k s' a r)
  then have "as_objects A s k = None" by (simp add: DR_view_def)
  from read_lawsD(2) [OF dyn_lawsD(1) [OF A] this 5(2)] 5(1,4) show ?case
    by (auto simp: DR_defs seen_through_def isl_def split: if_splits)
next
  case (6 s k v s' a r)
  from DR_write_ok [OF 6(3)] obtain u where w: "toUnstructured c v nil_slice = (Inr u, nil_slice)"
    "u_Name u = k" "u_ResourceVersion u = []" "as_accepts A u" "as_removable A u"
    "\<And>o'. as_strip A o' = as_strip A u \<Longrightarrow> \<not> isl (from_object c o') \<and> pay (dr_value c o') = v" by metis
  obtain s1 r1 where e: "kc_Update (dr_client c) [] u s = (s1, r1)" by fastforce
  obtain cur where "as_objects A s (u_Name u) = Some cur" using 6(4) w(2) by (auto simp: DR_view_def)
  from dyn_lawsD(5) [OF A e _ this w(4)] 6(2) w(2,3) U have r: "r1 = None" "stores A u s s1" by auto
  with DR_stored [OF A r(2) 6(1) w(2) 6(2) w(5,6)] 6(5) w(1) e show ?case by (simp add: DR_defs)
next
  case (7 s k v s' a r)
  from DR_write_ok [OF 7(3)] obtain u where w: "toUnstructured c v nil_slice = (Inr u, nil_slice)" "u_Name u = k" by metis
  obtain s1 r1 where e: "kc_Update (dr_client c) [] u s = (s1, r1)" by fastforce
  have "as_objects A s (u_Name u) = None" using 7(4) w(2) by (simp add: DR_view_def)
  from dyn_lawsD(4) [OF A e _ this] 7(2) w(2) have "r1 \<noteq> None" "as_objects A s1 = as_objects A s" by auto
  with 7 w e show ?case by (auto simp: DR_defs)
next
  case (8 s k v s' a r)
  from DR_write_ok [OF 8(3)] obtain u where w: "toUnstructured c v nil_slice = (Inr u, nil_slice)"
    "u_Name u = k" "u_ResourceVersion u = []" "as_accepts A u" "as_removable A u"
    "\<And>o'. as_strip A o' = as_strip A u \<Longrightarrow> \<not> isl (from_object c o') \<and> pay (dr_value c o') = v" by metis
  show ?case
  proof (cases "as_objects A s k")
    case None
    from read_lawsD(2) [OF dyn_lawsD(1) [OF A] None 8(2)] obtain er where
      g: "kc_Get (dr_client c) k s = Inl er" "apierrors_IsNotFound (dr_client c) er" by blast
    obtain s2 r2 where e: "kc_Create (dr_client c) [] u s = (s2, r2)" by fastforce
    from dyn_lawsD(3) [OF A e _ _ w(4,3)] None 8(2) w(2) have r: "r2 = None" "stores A u s s2" by auto
    have "IsNotFound (apierrors_IsNotFound (dr_client c)) er" using g(2) by (simp add: IsNotFound_def)
    with DR_stored [OF A r(2) 8(1) w(2) 8(2) w(5,6)] 8(4) w(1) e g r(1) show ?thesis by (simp add: DR_defs)
  next
    case (Some cur)
    obtain s1 r1 where e: "kc_Update (dr_client c) [] u s = (s1, r1)" by fastforce
    from dyn_lawsD(5) [OF A e _ _ w(4), of cur] Some 8(2) w(2,3) U have r: "r1 = None" "stores A u s s1" by auto
    with DR_stored [OF A r(2) 8(1) w(2) 8(2) w(5,6)] 8(4) w(1) e read_lawsD(1) [OF dyn_lawsD(1) [OF A] Some]
    show ?thesis by (simp add: DR_defs Let_def)
  qed
next
  case (9 s k s' a r)
  then obtain u where u: "as_objects A s k = Some u" by (auto simp: DR_view_def)
  with 9(1) have "as_removable A u" by (auto simp: DR_state_def)
  obtain s1 r1 where e: "kc_Delete (dr_client c) [] k s = (s1, r1)" by fastforce
  from dyn_lawsD(8) [OF A e 9(2) u \<open>as_removable A u\<close>]
  have "r1 = None" "as_objects A s1 = (as_objects A s)(k := None)" by auto
  with 9 e show ?case by (auto simp: DR_defs DR_state_def DR_inv_def DR_view_def DR_abs_def fun_eq_iff split: if_splits)
next
  case (10 s k s' a r)
  then have "as_objects A s k = None" by (simp add: DR_view_def)
  obtain s1 r1 where e: "kc_Delete (dr_client c) [] k s = (s1, r1)" by fastforce
  from dyn_lawsD(7) [OF A e 10(2) \<open>as_objects A s k = None\<close>] obtain er where
    "r1 = Some er" "as_objects A s1 = as_objects A s" by auto
  with 10 e show ?case by (auto simp: DR_defs)
next
  case (11 s s' a r)
  from 11(1) have "DR_inv c (as_objects A s)" by (simp add: DR_state_def)
  from DR_List_all [OF dyn_lawsD(1) [OF A] this] obtain items where
    l: "DR_List K c nil_slice s = (s, [], Inr items)" "listing (DR_abs c (as_objects A s)) (sort_key fst items)" .
  then have "List (DynamicResource K c) nil_slice s = (s, [], Inr items)" by (simp add: DynamicResource_def)
  from seen_through_simps(6) [OF sorted_List [OF this], of pay] seen_items [OF l(2), of pay] 11 show ?case
    by (auto simp: DR_view_def [abs_def])
qed

text \<open>
  Versions. An \<open>Update\<close> of a value that carries a version other than that of the stored object is refused
  with 409; \<open>Apply\<close> with \<open>WithResolveConflict\<close> takes the version of the stored object and goes through, also
  for kinds of objects that do not allow an update without a version.
\<close>

lemma no_labels_option:
  "MatchLabels (slice_of [WithResolveConflict]) = (None, slice_of [WithResolveConflict])"
  "MatchLabels nil_slice = (None, nil_slice)"
  "MatchDryRun (slice_of [WithResolveConflict]) = (None, slice_of [WithResolveConflict])"
  "MatchSubResourceOnly (slice_of [WithResolveConflict]) = (None, slice_of [WithResolveConflict])"
  "MatchResolveConflict (slice_of [WithResolveConflict]) = (Some True, Slice [WithResolveConflict] 0)"
  by (simp_all add: MatchLabels_def MatchSubResourceOnly_def MatchResolveConflict_def WithResolveConflict_def
      matcher_defs slice_of_def option_simps)

lemma toUnstructured_resolve:
  "toUnstructured c v nil_slice = (Inr u, nil_slice) \<Longrightarrow>
   toUnstructured c v (slice_of [WithResolveConflict]) = (Inr u, slice_of [WithResolveConflict])"
  by (auto simp: toUnstructured_def DR_BuildLabels_def BuildLabels_def no_labels_option
      Let_def split: sum.splits option.splits prod.splits)

lemma stale_update_conflicts:
  assumes A: "dyn_laws K (dr_client c) A" and w: "toUnstructured c v nil_slice = (Inr u, nil_slice)"
    and u: "u_Name u = k" "k \<noteq> []" "as_accepts A u" "u_ResourceVersion u \<noteq> []"
    and cur: "as_objects A s k = Some cur" "u_ResourceVersion u \<noteq> u_ResourceVersion cur"
  shows "\<exists>s1. DR_Update c nil_slice k v s = (s1, [], Some (ApiError 409 ''Conflict'')) \<and>
      as_objects A s1 = as_objects A s"
    and "\<exists>s2 a. DR_Apply c (slice_of [WithResolveConflict]) k v s = (s2, a, None) \<and> stores A u s s2"
proof -
  obtain s1 r1 where e: "kc_Update (dr_client c) [] u s = (s1, r1)" by fastforce
  from dyn_lawsD(6) [OF A e _ _ u(3,4), of cur] u cur
  have "r1 = Some (ApiError 409 ''Conflict'')" "as_objects A s1 = as_objects A s" by auto
  with w e show "\<exists>s1. DR_Update c nil_slice k v s = (s1, [], Some (ApiError 409 ''Conflict'')) \<and>
      as_objects A s1 = as_objects A s" by (simp add: DR_defs)
  let ?u = "u\<lparr>u_ResourceVersion := u_ResourceVersion cur\<rparr>"
  obtain s2 r2 where e2: "kc_Update (dr_client c) [] ?u s = (s2, r2)" by fastforce
  have "r2 = None \<and> stores A ?u s s2"
    using dyn_lawsD(5) [OF A e2, of cur] u cur dyn_lawsD(10) [where o' = u, OF A] by simp
  then have r: "r2 = None" "stores A u s s2" by (simp_all add: stores_def dyn_lawsD(9) [OF A])
  have "\<exists>a. DR_Apply c (slice_of [WithResolveConflict]) k v s = (s2, a, None)"
    using toUnstructured_resolve [OF w] e2 r(1) read_lawsD(1) [OF dyn_lawsD(1) [OF A] cur(1)]
    by (simp add: DR_defs no_labels_option exhausted_def Let_def)
  with r(2) show "\<exists>s2 a. DR_Apply c (slice_of [WithResolveConflict]) k v s = (s2, a, None) \<and> stores A u s s2"
    by blast
qed

section \<open>The cache\<close>

text \<open>The index in step with the cluster: it holds exactly the objects of the namespace.\<close>

definition index_synced :: "string \<Rightarrow> (string \<Rightarrow> unstructured option) \<Rightarrow> indexer \<Rightarrow> bool" where
  "index_synced namespace m idx \<longleftrightarrow> wf_map idx \<and>
     (\<forall>k i. (k, i) \<in> set idx \<longleftrightarrow> (\<exists>n u. m n = Some u \<and> k = NamespaceKeyFunc namespace n \<and> i = CachedObject u))"

lemma NamespaceKeyFunc_inj: "NamespaceKeyFunc ns m = NamespaceKeyFunc ns n \<longleftrightarrow> m = n"
  by (simp add: NamespaceKeyFunc_def)

lemma index_synced_lookup:
  assumes "index_synced ns m idx"
  shows "map_of idx (NamespaceKeyFunc ns n) = map_option CachedObject (m n)"
proof (cases "m n")
  case None
  have "(NamespaceKeyFunc ns n, i) \<notin> set idx" for i
    using assms None by (auto simp: index_synced_def NamespaceKeyFunc_inj)
  then show ?thesis using None by (auto simp: map_of_eq_None_iff)
next
  case (Some u)
  then have "(NamespaceKeyFunc ns n, CachedObject u) \<in> set idx" using assms by (auto simp: index_synced_def)
  with assms show ?thesis using Some by (simp add: index_synced_def)
qed

lemma Cached_List_loop_ok:
  "(\<And>u. CachedObject u \<in> set items \<Longrightarrow> F u = Inr (f u)) \<Longrightarrow> OtherItem \<notin> set items \<Longrightarrow>
   Cached_List_loop F items result =
     Inr (result @ map (\<lambda>i. case i of CachedObject u \<Rightarrow> (u_Name u, f u) | OtherItem \<Rightarrow> undefined) items)"
proof (induction items arbitrary: result)
  case (Cons i items)
  then show ?case by (cases i) auto
qed simp

lemma cached_objects:
  "\<forall>i \<in> set items. \<exists>u. i = CachedObject u \<Longrightarrow>
   items = map CachedObject (map (\<lambda>i. case i of CachedObject u \<Rightarrow> u | OtherItem \<Rightarrow> undefined) items)"
  by (induction items) auto

lemma index_synced_lists:
  assumes "index_synced ns m idx" "\<And>n u. m n = Some u \<Longrightarrow> u_Name u = n"
  obtains os where "map snd idx = map CachedObject os" "lists m (\<lambda>_. True) u_Name os"
proof -
  have all: "\<exists>u. i = CachedObject u" if "i \<in> set (map snd idx)" for i
    using that assms(1) by (auto simp: index_synced_def)
  let ?os = "map (\<lambda>i. case i of CachedObject u \<Rightarrow> u | OtherItem \<Rightarrow> undefined) (map snd idx)"
  have s: "map snd idx = map CachedObject ?os"
    by (rule cached_objects) (use all in blast)
  have key: "fst x = NamespaceKeyFunc ns (u_Name u)" "m (u_Name u) = Some u"
    if x: "x \<in> set idx" "snd x = CachedObject u" for x u
  proof -
    from x have "(fst x, CachedObject u) \<in> set idx" by (metis prod.collapse)
    then obtain n where "m n = Some u" "fst x = NamespaceKeyFunc ns n"
      using assms(1) unfolding index_synced_def by blast
    with assms(2) show "fst x = NamespaceKeyFunc ns (u_Name u)" "m (u_Name u) = Some u" by auto
  qed
  have "distinct (map u_Name ?os)"
  proof -
    have "distinct (map fst idx)" using assms(1) by (simp add: index_synced_def)
    moreover have "map fst idx = map (NamespaceKeyFunc ns) (map u_Name ?os)"
    proof (simp, rule ballI)
      fix x assume x: "x \<in> set idx"
      with all obtain u where "snd x = CachedObject u" by fastforce
      with key(1) [OF x this]
      show "fst x = NamespaceKeyFunc ns (u_Name (case snd x of CachedObject u \<Rightarrow> u | OtherItem \<Rightarrow> undefined))" by simp
    qed
    ultimately show ?thesis by (metis distinct_map)
  qed
  moreover have "u \<in> set ?os \<longleftrightarrow> m (u_Name u) = Some u" for u
  proof
    assume "u \<in> set ?os"
    then have "CachedObject u \<in> set (map snd idx)" using s by (metis image_eqI list.set_map)
    then show "m (u_Name u) = Some u" using key(2) by auto
  next
    assume "m (u_Name u) = Some u"
    then have "(NamespaceKeyFunc ns (u_Name u), CachedObject u) \<in> set idx" using assms(1) by (auto simp: index_synced_def)
    then show "u \<in> set ?os" by force
  qed
  ultimately show thesis using s by (intro that [of ?os]) (auto simp: lists_def)
qed

lemma listing_unique:
  assumes "listing m xs" "listing m ys"
  shows "xs = ys"
proof -
  have "set xs = set ys"
  proof (rule set_eqI)
    fix x
    have "x \<in> set zs \<longleftrightarrow> m (fst x) = Some (snd x)" if "listing m zs" for zs
      using that by (cases x) (simp add: listing_def flip: map_of_eq_Some_iff)
    with assms show "x \<in> set xs \<longleftrightarrow> x \<in> set ys" by simp
  qed
  moreover from this have "inj_on fst (set xs \<union> set ys)"
    using assms(1) by (simp add: listing_def distinct_map)
  ultimately show ?thesis
    using assms by (intro map_sorted_distinct_set_unique [of fst]) (simp_all add: listing_def)
qed

section \<open>Properties\<close>

text \<open>A store of objects that are their own values, under one immutable label.\<close>

definition example_dr :: "(unstructured list, unstructured) dynamic_resource" where
  "example_dr = \<lparr>dr_client = list_client u_Name u_Labels,
     dr_cfg = \<lparr>dr_Namespace = ''ns'', dr_Group = [], dr_Version = ''v1'', dr_Resource = ''pods'',
       dr_ImmutableLabels = [(''app'', ''x'')]\<rparr>,
     dr_labelsEnricher = None, to_object = Inr, from_object = Inr,
     dr_zero = \<lparr>u_Name = [], u_Labels = [], u_ResourceVersion = [], u_Body = []\<rparr>\<rparr>"

definition example_pod :: unstructured where
  "example_pod = \<lparr>u_Name = ''a'', u_Labels = [(''app'', ''x'')], u_ResourceVersion = ''1'', u_Body = ''b''\<rparr>"

definition foreign_pod :: unstructured where
  "foreign_pod = \<lparr>u_Name = ''ab'', u_Labels = [(''app'', ''y'')], u_ResourceVersion = ''1'', u_Body = ''b''\<rparr>"

lemmas example_dr_defs = example_dr_def example_pod_def foreign_pod_def list_client_def Let_def

lemma example_dr_laws:
  "kube_laws text_selectors (dr_client example_dr) u_Name u_Labels (\<lambda>s n. find (\<lambda>u. u_Name u = n) s)"
  using list_client_laws [of u_Name u_Labels] by (simp add: example_dr_def)

lemma example_dr_inv [simp]: "DR_inv example_dr m"
  by (simp add: DR_inv_def example_dr_def)

text \<open>
  A server with versions: it counts its writes, gives every object it stores the next version, and
  refuses objects with a version on creation and with a stale one on update.
\<close>

definition version_text :: "nat \<Rightarrow> string" where
  "version_text n = replicate (Suc n) (CHR ''i'')"

definition versioned_client :: "(nat \<times> unstructured list, unstructured) kube_client" where
  "versioned_client =
     (let L = list_client u_Name u_Labels;
          stamp = (\<lambda>n o'. o'\<lparr>u_ResourceVersion := version_text n\<rparr>) in
     \<lparr>kc_Get = (\<lambda>k (n, os). kc_Get L k os),
      kc_Create = (\<lambda>d o' (n, os).
        if u_ResourceVersion o' \<noteq> [] then ((n, os), Some (ApiError 400 ''BadRequest''))
        else (case kc_Create L d (stamp n o') os of (os', r) \<Rightarrow> ((Suc n, os'), r))),
      kc_Update = (\<lambda>d o' (n, os).
        if (case kc_Get L (u_Name o') os of Inl _ \<Rightarrow> False | Inr cur \<Rightarrow>
             u_ResourceVersion o' \<noteq> [] \<and> u_ResourceVersion o' \<noteq> u_ResourceVersion cur)
        then ((n, os), Some (ApiError 409 ''Conflict''))
        else (case kc_Update L d (stamp n o') os of (os', r) \<Rightarrow> ((Suc n, os'), r))),
      kc_UpdateStatus = (\<lambda>d o' s. (s, None)), kc_ApplyStatus = (\<lambda>d k o' s. (s, None)),
      kc_Delete = (\<lambda>d k (n, os). case kc_Delete L d k os of (os', r) \<Rightarrow> ((n, os'), r)),
      kc_List = (\<lambda>t (n, os). kc_List L t os),
      apierrors_IsNotFound = apierrors_IsNotFound L, apierrors_IsAlreadyExists = apierrors_IsAlreadyExists L\<rparr>)"

definition unversioned :: "unstructured \<Rightarrow> unstructured" where
  "unversioned u = u\<lparr>u_ResourceVersion := []\<rparr>"

definition versioned_server :: "(nat \<times> unstructured list) api_server" where
  "versioned_server = \<lparr>as_objects = (\<lambda>(n, os) k. find (\<lambda>u. u_Name u = k) os), as_accepts = (\<lambda>_. True),
     as_strip = unversioned, as_unconditional = True, as_removable = (\<lambda>_. True)\<rparr>"

definition versioned_dr :: "(nat \<times> unstructured list, unstructured) dynamic_resource" where
  "versioned_dr = \<lparr>dr_client = versioned_client, dr_cfg = dr_cfg example_dr, dr_labelsEnricher = None,
     to_object = Inr, from_object = Inr, dr_zero = dr_zero example_dr\<rparr>"

lemma versioned_stores:
  assumes "as_objects versioned_server s' = (as_objects versioned_server s)(u_Name obj \<mapsto> obj\<lparr>u_ResourceVersion := v\<rparr>)"
  shows "stores versioned_server obj s s'"
  unfolding stores_def
  by (rule exI [of _ "obj\<lparr>u_ResourceVersion := v\<rparr>"])
    (use assms in \<open>simp add: versioned_server_def unversioned_def\<close>)

lemma versioned_laws: "dyn_laws text_selectors versioned_client versioned_server"
proof -
  let ?L = "list_client u_Name u_Labels"
  note C = list_client_laws [of u_Name u_Labels]
  have objs: "as_objects versioned_server (n, os) = (\<lambda>k. find (\<lambda>u. u_Name u = k) os)" for n os
    by (simp add: versioned_server_def)
  have R: "read_laws text_selectors versioned_client (as_objects versioned_server)"
    unfolding read_laws_def
  proof (intro conjI allI, goal_cases)
    case (1 s k)
    obtain n os where s: "s = (n, os)" by (cases s)
    show ?case using kube_lawsD(1) [where s = os and n = k, OF C] kube_lawsD(2) [where s = os and n = k, OF C]
      by (auto simp: s objs versioned_client_def Let_def split: option.split)
  next
    case (2 s k o')
    then show ?case using kube_lawsD(3) [OF C] by (cases s) (auto simp: objs)
  next
    case (3 sel s)
    then show ?case using kube_lawsD(10) [where s = "snd s" and sel = sel, OF C]
      by (cases s) (simp add: objs versioned_client_def Let_def)
  next
    case (4 s)
    then show ?case using kube_lawsD(11) [where s = "snd s", OF C]
      by (cases s) (simp add: objs versioned_client_def Let_def)
  qed
  have "create_law versioned_client versioned_server"
    unfolding create_law_def
  proof (intro allI impI, goal_cases)
    case (1 obj s)
    obtain n os where s: "s = (n, os)" by (cases s)
    let ?o = "obj\<lparr>u_ResourceVersion := version_text n\<rparr>"
    obtain os' r where e: "kc_Create ?L [] ?o os = (os', r)" by fastforce
    note k = kube_create(1) [OF C e] kube_create(2) [OF C e]
    show ?case
      using k versioned_stores [of "(Suc n, os')" "(n, os)" obj "version_text n"]
      by (auto simp: s objs versioned_client_def Let_def e split: if_splits)
  qed
  moreover have "update_law versioned_client versioned_server"
    unfolding update_law_def
  proof (intro allI impI, goal_cases)
    case (1 obj s)
    obtain n os where s: "s = (n, os)" by (cases s)
    let ?o = "obj\<lparr>u_ResourceVersion := version_text n\<rparr>"
    obtain os' r where e: "kc_Update ?L [] ?o os = (os', r)" by fastforce
    note k = kube_update(1) [OF C e] kube_update(2) [OF C e]
    have u: "as_unconditional versioned_server" by (simp add: versioned_server_def)
    show ?case
    proof (cases "find (\<lambda>u. u_Name u = u_Name obj) os")
      case None
      with kube_lawsD(2) [OF C None] k show ?thesis
        by (auto simp: s objs versioned_client_def Let_def e)
    next
      case (Some cur)
      with kube_lawsD(1) [OF C Some] k u versioned_stores [of "(Suc n, os')" "(n, os)" obj "version_text n"]
      show ?thesis by (auto simp: s objs versioned_client_def Let_def e)
    qed
  qed
  moreover have "delete_law versioned_client versioned_server"
    unfolding delete_law_def
  proof (intro allI impI, goal_cases)
    case (1 k s)
    obtain n os where s: "s = (n, os)" by (cases s)
    obtain os' r where e: "kc_Delete ?L [] k os = (os', r)" by fastforce
    show ?case using kube_delete(1) [OF C e] kube_delete(2) [OF C e]
      by (auto simp: s objs versioned_client_def Let_def e split: option.split)
  qed
  ultimately show ?thesis using R by (simp add: dyn_laws_def versioned_server_def unversioned_def)
qed

text \<open>
  C22. The dynamic store on an API server that may set a version, defaults and other metadata: over a
  kind of objects that allows an update without a version, every sequence of calls without options
  answers as a map of values, seen without what the server sets, and listings up to order. Each value
  bears the name it is stored under and no version, its object with the labels of the store is accepted
  and removable, and whatever the server stores for it reads back as the value.
\<close>

theorem DynamicResource_refines_map:
  assumes "dyn_laws K (dr_client c) A" "as_unconditional A" "DR_state c A (as_objects A s)"
    and "\<forall>x \<in> set cs. call_ok (\<lambda>k. k \<noteq> []) (DR_vok c A pay) x"
    and "run (seen_through pay (sorted_lists (DynamicResource K c))) cs s = (s', answers)"
  shows "DR_state c A (as_objects A s') \<and>
    spec_run cs (DR_view c pay (as_objects A s)) (DR_view c pay (as_objects A s')) answers"
  using kv_store.run_refines [OF DynamicResource_contract [OF assms(1,2)] assms(3,4,5)] .

theorem DynamicResource_refines_map_witness:
  "\<exists>s'. run (seen_through unversioned (sorted_lists (DynamicResource text_selectors versioned_dr)))
      [CApply ''a'' (unversioned example_pod), CUpdate ''a'' (unversioned example_pod), CRead ''a''] (0, []) =
      (s', [Done, Done, Value (unversioned example_pod)]) \<and>
    snd s' = [example_pod\<lparr>u_ResourceVersion := ''ii''\<rparr>] \<and>
    spec_run [CApply ''a'' (unversioned example_pod), CUpdate ''a'' (unversioned example_pod), CRead ''a'']
      Map.empty [''a'' \<mapsto> unversioned example_pod] [Done, Done, Value (unversioned example_pod)]"
proof -
  let ?cs = "[CApply ''a'' (unversioned example_pod), CUpdate ''a'' (unversioned example_pod), CRead ''a'']"
  let ?S = "seen_through unversioned (sorted_lists (DynamicResource text_selectors versioned_dr))"
  let ?s = "(2, [example_pod\<lparr>u_ResourceVersion := ''ii''\<rparr>])"
  have run: "run ?S ?cs (0, []) = (?s, [Done, Done, Value (unversioned example_pod)])"
    by (simp add: versioned_dr_def versioned_client_def unversioned_def version_text_def example_dr_defs DR_defs
        seen_through_def toUnstructured_def DR_BuildLabels_def BuildLabels_def MergeMap_def
        maps_Copy_def IsNotFound_def NewNotFound_def answer_of_def numeral_2_eq_2)
  have "\<forall>x \<in> set ?cs. call_ok (\<lambda>k. k \<noteq> []) (DR_vok versioned_dr versioned_server unversioned) x"
    by (simp add: DR_vok_def toUnstructured_def DR_BuildLabels_def BuildLabels_def MergeMap_def
        maps_Copy_def versioned_dr_def versioned_server_def unversioned_def example_dr_def example_pod_def Let_def)
  moreover have "DR_state versioned_dr versioned_server (as_objects versioned_server (0, []))"
    by (simp add: DR_state_def DR_inv_def versioned_server_def)
  moreover have "dyn_laws text_selectors (dr_client versioned_dr) versioned_server" "as_unconditional versioned_server"
    using versioned_laws by (simp_all add: versioned_dr_def versioned_server_def)
  ultimately have "spec_run ?cs (DR_view versioned_dr unversioned (as_objects versioned_server (0, [])))
      (DR_view versioned_dr unversioned (as_objects versioned_server ?s)) [Done, Done, Value (unversioned example_pod)]"
    using DynamicResource_refines_map [OF _ _ _ _ run] by blast
  moreover have "DR_view versioned_dr unversioned (as_objects versioned_server (0, [])) = Map.empty"
    "DR_view versioned_dr unversioned (as_objects versioned_server ?s) = [''a'' \<mapsto> unversioned example_pod]"
    by (rule ext, simp add: DR_view_def DR_abs_def dr_value_def versioned_dr_def versioned_server_def
        unversioned_def example_pod_def)+
  ultimately show ?thesis using run by simp
qed

text \<open>
  C23. The immutable labels confine a listing with a prefix to the objects that bear them, as the
  configuration says, but a listing without options shows every object of the namespace.
\<close>

theorem DR_List_scope:
  assumes "selector_laws K rm" "read_laws K (dr_client c) abst"
    and "wf_map (dr_ImmutableLabels (dr_cfg c))" "DR_inv c (abst s)"
  shows "\<exists>items labelled a. DR_List K c nil_slice s = (s, [], Inr items) \<and>
      listing (DR_abs c (abst s)) (sort_key fst items) \<and>
      DR_List K c (slice_of [WithPrefix pre]) s = (s, a, Inr labelled) \<and>
      listing (\<lambda>k. case abst s k of None \<Rightarrow> None
        | Some u \<Rightarrow> if has_labels (dr_ImmutableLabels (dr_cfg c)) (u_Labels u) \<and> prefix pre k
            then DR_abs c (abst s) k else None) (sort_key fst labelled)"
proof -
  from DR_List_all [OF assms(2,4)] obtain items where
    all: "DR_List K c nil_slice s = (s, [], Inr items)" "listing (DR_abs c (abst s)) (sort_key fst items)" .
  from GenerateLabelSelector_none [OF assms(1,3)] obtain sel where
    sel: "GenerateLabelSelector K (dr_ImmutableLabels (dr_cfg c)) [] = Inr sel"
      "\<And>ls. Matches K sel ls \<longleftrightarrow> has_labels (dr_ImmutableLabels (dr_cfg c)) ls" by blast
  from read_lawsD(4) [OF assms(2), of sel s] obtain os where
    os: "kc_List (dr_client c) (sel_String K sel) s = Inr os"
      "lists (abst s) (\<lambda>u. Matches K sel (u_Labels u)) u_Name os" by blast
  let ?o = "\<lparr>lo_LabelSelector = sel_String K sel, lo_ListKeysOnly = False, lo_Prefix = pre\<rparr>"
  have b: "buildListOptions K c (slice_of [WithPrefix pre]) = (Inr ?o, Slice [WithPrefix pre] 0)"
    by (simp add: buildListOptions_def slice_of_def sel(1) exhausted_def)
  have f: "(\<lambda>k. case abst s k of None \<Rightarrow> None
      | Some u \<Rightarrow> if Matches K sel (u_Labels u) \<and> prefix (lo_Prefix ?o) k then Some (dr_value c u) else None) =
    (\<lambda>k. case abst s k of None \<Rightarrow> None
      | Some u \<Rightarrow> if has_labels (dr_ImmutableLabels (dr_cfg c)) (u_Labels u) \<and> prefix pre k
            then DR_abs c (abst s) k else None)"
    by (simp add: fun_eq_iff DR_abs_def sel(2) split: option.split)
  obtain labelled where "DR_List_loop c ?o os [] = Inr labelled"
    "listing (\<lambda>k. case abst s k of None \<Rightarrow> None
      | Some u \<Rightarrow> if has_labels (dr_ImmutableLabels (dr_cfg c)) (u_Labels u) \<and> prefix pre k
            then DR_abs c (abst s) k else None) (sort_key fst labelled)"
    using DR_listing [OF assms(2,4) os(2), of ?o] unfolding f by auto
  moreover from this(1) have "DR_List K c (slice_of [WithPrefix pre]) s = (s, [WithPrefix pre], Inr labelled)"
    using os(1) by (simp add: DR_List_def b)
  ultimately show ?thesis using all by blast
qed

theorem DR_List_scope_witness:
  "\<exists>items labelled a. DR_List text_selectors example_dr nil_slice [example_pod, foreign_pod] =
      ([example_pod, foreign_pod], [], Inr items) \<and>
    DR_List text_selectors example_dr (slice_of [WithPrefix ''a'']) [example_pod, foreign_pod] =
      ([example_pod, foreign_pod], a, Inr labelled) \<and>
    map_of (sort_key fst items) ''ab'' = Some foreign_pod \<and> map_of (sort_key fst labelled) ''ab'' = None"
proof -
  have w: "wf_map (dr_ImmutableLabels (dr_cfg example_dr))" by (simp add: example_dr_def)
  have v: "DR_abs example_dr (\<lambda>n. find (\<lambda>u. u_Name u = n) [example_pod, foreign_pod]) ''ab'' = Some foreign_pod"
    by (simp add: DR_abs_def dr_value_def example_dr_defs)
  have n: "\<not> has_labels (dr_ImmutableLabels (dr_cfg example_dr)) (u_Labels foreign_pod)"
    by (simp add: example_dr_def foreign_pod_def)
  have at: "find (\<lambda>u. u_Name u = ''ab'') [example_pod, foreign_pod] = Some foreign_pod"
    by (simp add: example_pod_def foreign_pod_def)
  from DR_List_scope [OF text_selector_laws kube_read_laws [OF example_dr_laws] w example_dr_inv, of "[example_pod, foreign_pod]" "''a''"]
  show ?thesis using v n at by (auto simp: listing_def)
qed

text \<open>
  With an index in step with the cluster, the cached store reads and lists as the store itself,
  listings up to order.
\<close>

theorem Cached_agrees:
  assumes "read_laws K (dr_client c) abst" "DR_inv c (abst s)"
    and "index_synced (dr_Namespace (dr_cfg c)) (abst s) idx"
    and "\<forall>n u. abst s n = Some u \<longrightarrow> FromUnstructured u = from_object c u"
  shows "Read (CachedDynamicResource K FromUnstructured c idx) nil_slice key s =
      Read (DynamicResource K c) nil_slice key s \<and>
    List (sorted_lists (CachedDynamicResource K FromUnstructured c idx)) nil_slice s =
      List (sorted_lists (DynamicResource K c)) nil_slice s"
proof
  note l = index_synced_lookup [OF assms(3)]
  show "Read (CachedDynamicResource K FromUnstructured c idx) nil_slice key s =
      Read (DynamicResource K c) nil_slice key s"
  proof (cases "abst s key")
    case None
    then show ?thesis
      by (simp add: CachedDynamicResource_def DynamicResource_def Cached_Read_def l MatchNoCache_def)
  next
    case (Some u)
    with read_lawsD(1) [OF assms(1)] show ?thesis
      by (simp add: CachedDynamicResource_def DynamicResource_def Cached_Read_def l DR_Read_def MatchNoCache_def)
  qed
  from DR_List_all [OF assms(1,2)] obtain items where
    all: "DR_List K c nil_slice s = (s, [], Inr items)" "listing (DR_abs c (abst s)) (sort_key fst items)" .
  show "List (sorted_lists (CachedDynamicResource K FromUnstructured c idx)) nil_slice s =
      List (sorted_lists (DynamicResource K c)) nil_slice s"
  proof (cases "idx = []")
    case True
    then show ?thesis
      by (simp add: CachedDynamicResource_def DynamicResource_def Cached_List_def sorted_lists_def MatchNoCache_def)
  next
    case False
    from index_synced_lists [OF assms(3) read_lawsD(3) [OF assms(1)]] obtain os where
      os: "map snd idx = map CachedObject os" "lists (abst s) (\<lambda>_. True) u_Name os" .
    have F: "FromUnstructured u = Inr (dr_value c u)" if "u \<in> set os" for u
    proof -
      have "abst s (u_Name u) = Some u" using that os(2) by (simp add: lists_def)
      with assms(2,4) show ?thesis by (auto simp: DR_inv_def dr_value_def isl_def split: sum.split)
    qed
    let ?xs = "map (\<lambda>u. (u_Name u, dr_value c u)) os"
    have "Cached_List_loop FromUnstructured (map snd idx) [] = Inr ?xs"
      using Cached_List_loop_ok [of "map snd idx" FromUnstructured "dr_value c" "[]"] F unfolding os(1) by (auto simp: comp_def)
    then have "List (CachedDynamicResource K FromUnstructured c idx) nil_slice s = (s, [], Inr ?xs)"
      using False by (simp add: CachedDynamicResource_def Cached_List_def MatchNoCache_def)
    moreover have "listing (DR_abs c (abst s)) (sort_key fst ?xs)"
    proof -
      have "DR_abs c (abst s) = (\<lambda>k. case abst s k of None \<Rightarrow> None
          | Some u \<Rightarrow> if True then Some (dr_value c u) else None)"
        by (rule ext) (simp add: DR_abs_def split: option.split)
      then show ?thesis
        using lists_listing [where f = "dr_value c", OF os(2) read_lawsD(3) [OF assms(1), of s]] by presburger
    qed
    then have "sort_key fst ?xs = sort_key fst items"
      using all(2) by (rule listing_unique)
    ultimately show ?thesis using all(1) by (simp add: sorted_lists_def DynamicResource_def)
  qed
qed

theorem Cached_agrees_witness:
  "Read (CachedDynamicResource text_selectors Inr example_dr [(''ns/a'', CachedObject example_pod)]) nil_slice ''a''
     [example_pod] = Read (DynamicResource text_selectors example_dr) nil_slice ''a'' [example_pod]"
proof -
  have "index_synced (dr_Namespace (dr_cfg example_dr)) (\<lambda>n. find (\<lambda>u. u_Name u = n) [example_pod])
      [(''ns/a'', CachedObject example_pod)]"
    by (auto simp: index_synced_def example_dr_def example_pod_def NamespaceKeyFunc_def)
  from Cached_agrees [OF kube_read_laws [OF example_dr_laws] example_dr_inv this] show ?thesis
    by (simp add: example_dr_def)
qed

end
