(* ===== verification/Kafka_Store.thy ===== *)
theory Kafka_Store
  imports Kafka Dynamic
begin

text \<open>
  The store middleware of \<open>pkg/store/middleware/kafka\<close>: after every change the wrapped store accepts it
  publishes a message. Its state is that of the wrapped store, the producer and the state of the bus.
\<close>

record publish_config =
  SendDryRun :: bool
  pub_WaitForDelivery :: bool
  pub_WaitForDeliveryTimeout :: int

datatype action = ActionCreated | ActionApplied | ActionUpdated | ActionDeleted

fun Action_text :: "action \<Rightarrow> string" where
  "Action_text ActionCreated = ''created''"
| "Action_text ActionApplied = ''applied''"
| "Action_text ActionUpdated = ''updated''"
| "Action_text ActionDeleted = ''deleted''"

record ('k, 'v) change =
  ch_Key :: 'k
  ch_Value :: 'v
  ch_Action :: string

text \<open>The middleware: the codec of its messages, the zero value of \<open>V\<close> and the choice of \<open>select\<close>.\<close>

record ('s, 'k, 'v) publisher =
  pub_cfg :: publish_config
  pub_store :: "('s, 'k, 'v) store"
  pub_enc :: "('k, 'v) change \<Rightarrow> err + string"
  pub_zero :: 'v
  pub_pick :: bool

definition publisher_New ::
  "('s, 'k, 'v) store \<Rightarrow> publish_config list \<Rightarrow> (('k, 'v) change \<Rightarrow> err + string) \<Rightarrow> 'v \<Rightarrow> bool \<Rightarrow>
   ('s, 'k, 'v) publisher" where
  "publisher_New S optCfg enc zero pick =
     \<lparr>pub_cfg = Opt \<lparr>SendDryRun = False, pub_WaitForDelivery = False, pub_WaitForDeliveryTimeout = 0\<rparr> optCfg,
      pub_store = S, pub_enc = enc, pub_zero = zero, pub_pick = pick\<rparr>"

text \<open>\<open>IsDryRun\<close>, and what it leaves of the array of its argument.\<close>

definition IsDryRun :: "opt slice \<Rightarrow> bool \<times> opt list" where
  "IsDryRun opts = (case MatchDryRun opts of (dryRun, opts) \<Rightarrow> (dryRun \<noteq> None, arr opts))"

type_synonym 'b bus = "'b producer \<times> 'b"

definition publish ::
  "('s, 'k, 'v) publisher \<Rightarrow> ('k, 'v) change \<Rightarrow> 'b bus \<Rightarrow> 'b bus \<times> err option" where
  "publish t change bus =
     (case pub_enc t change of
        Inl e \<Rightarrow> (bus, Some e)
      | Inr raw \<Rightarrow>
          (case bus of (p, b) \<Rightarrow>
           let msg = producer_NewMessage p raw [];
               produceOpts =
                 (if \<not> pub_WaitForDelivery (pub_cfg t) then []
                  else [WithWaitForDelivery True] @
                    (if pub_WaitForDeliveryTimeout (pub_cfg t) > 0
                     then [WithWaitForDeliveryTimeout (pub_WaitForDeliveryTimeout (pub_cfg t))] else []))
           in case Produce (pub_pick t) msg produceOpts p b of (p, b, r) \<Rightarrow> ((p, b), r)))"

text \<open>What the mutating operations do after the wrapped store has answered.\<close>

definition then_publish ::
  "('s, 'k, 'v) publisher \<Rightarrow> opt slice \<Rightarrow> ('k, 'v) change \<Rightarrow> ('s, err option) outcome \<Rightarrow> 'b bus \<Rightarrow>
   ('s \<times> 'b bus, err option) outcome" where
  "then_publish t opts change result bus =
     (case result of
        (s, a, Some e) \<Rightarrow> ((s, bus), a, Some e)
      | (s, a, None) \<Rightarrow>
          (case IsDryRun (caller_view opts a) of (dryRun, a) \<Rightarrow>
           if dryRun \<and> \<not> SendDryRun (pub_cfg t) then ((s, bus), a, None)
           else case publish t change bus of (bus, r) \<Rightarrow> ((s, bus), a, r)))"

definition Pub_Create ::
  "('s, 'k, 'v) publisher \<Rightarrow> opt slice \<Rightarrow> 'k \<Rightarrow> 'v \<Rightarrow> 's \<times> 'b bus \<Rightarrow> ('s \<times> 'b bus, err option) outcome" where
  "Pub_Create t opts key v w =
     then_publish t opts \<lparr>ch_Key = key, ch_Value = v, ch_Action = Action_text ActionCreated\<rparr>
       (Create (pub_store t) opts key v (fst w)) (snd w)"

definition Pub_Update ::
  "('s, 'k, 'v) publisher \<Rightarrow> opt slice \<Rightarrow> 'k \<Rightarrow> 'v \<Rightarrow> 's \<times> 'b bus \<Rightarrow> ('s \<times> 'b bus, err option) outcome" where
  "Pub_Update t opts key v w =
     then_publish t opts \<lparr>ch_Key = key, ch_Value = v, ch_Action = Action_text ActionUpdated\<rparr>
       (Update (pub_store t) opts key v (fst w)) (snd w)"

definition Pub_Apply ::
  "('s, 'k, 'v) publisher \<Rightarrow> opt slice \<Rightarrow> 'k \<Rightarrow> 'v \<Rightarrow> 's \<times> 'b bus \<Rightarrow> ('s \<times> 'b bus, err option) outcome" where
  "Pub_Apply t opts key v w =
     then_publish t opts \<lparr>ch_Key = key, ch_Value = v, ch_Action = Action_text ActionApplied\<rparr>
       (Apply (pub_store t) opts key v (fst w)) (snd w)"

definition Pub_Delete ::
  "('s, 'k, 'v) publisher \<Rightarrow> opt slice \<Rightarrow> 'k \<Rightarrow> 's \<times> 'b bus \<Rightarrow> ('s \<times> 'b bus, err option) outcome" where
  "Pub_Delete t opts key w =
     then_publish t opts \<lparr>ch_Key = key, ch_Value = pub_zero t, ch_Action = Action_text ActionDeleted\<rparr>
       (Delete (pub_store t) opts key (fst w)) (snd w)"

definition Pub_Read ::
  "('s, 'k, 'v) publisher \<Rightarrow> opt slice \<Rightarrow> 'k \<Rightarrow> 's \<times> 'b bus \<Rightarrow> ('s \<times> 'b bus, err + 'v) outcome" where
  "Pub_Read t opts key w =
     (case Read (pub_store t) opts key (fst w) of (s, a, r) \<Rightarrow> ((s, snd w), a, r))"

definition Pub_List ::
  "('s, 'k, 'v) publisher \<Rightarrow> opt slice \<Rightarrow> 's \<times> 'b bus \<Rightarrow> ('s \<times> 'b bus, err + ('k, 'v) ListItems) outcome" where
  "Pub_List t opts w =
     (case List (pub_store t) opts (fst w) of (s, a, r) \<Rightarrow> ((s, snd w), a, r))"

definition Publishing :: "('s, 'k, 'v) publisher \<Rightarrow> ('s \<times> 'b bus, 'k, 'v) store" where
  "Publishing t =
     \<lparr>Create = Pub_Create t, Read = Pub_Read t, Update = Pub_Update t, Apply = Pub_Apply t,
      Delete = Pub_Delete t, List = Pub_List t\<rparr>"

lemmas Pub_defs = Publishing_def Pub_Create_def Pub_Update_def Pub_Apply_def Pub_Delete_def
  Pub_Read_def Pub_List_def

section \<open>The stream of changes\<close>

text \<open>What a call that succeeded publishes.\<close>

fun change_of :: "'v \<Rightarrow> ('k, 'v) call \<Rightarrow> ('k, 'v) change option" where
  "change_of zero (CCreate k v) = Some \<lparr>ch_Key = k, ch_Value = v, ch_Action = ''created''\<rparr>"
| "change_of zero (CUpdate k v) = Some \<lparr>ch_Key = k, ch_Value = v, ch_Action = ''updated''\<rparr>"
| "change_of zero (CApply k v) = Some \<lparr>ch_Key = k, ch_Value = v, ch_Action = ''applied''\<rparr>"
| "change_of zero (CDelete k) = Some \<lparr>ch_Key = k, ch_Value = zero, ch_Action = ''deleted''\<rparr>"
| "change_of zero _ = None"

definition changes :: "'v \<Rightarrow> ('k, 'v) call list \<Rightarrow> ('k, 'v) answer list \<Rightarrow> ('k, 'v) change list" where
  "changes zero cs answers =
     List.map_filter (\<lambda>(c, x). if x = Done then change_of zero c else None) (zip cs answers)"

text \<open>
  A bus that works (\<open>up\<close>) takes every message and goes on working; \<open>sent\<close> is a view of what it has taken.
\<close>

definition bus_takes ::
  "('s, 'k, 'v) publisher \<Rightarrow> ('b bus \<Rightarrow> bool) \<Rightarrow> ('b bus \<Rightarrow> ('k, 'v) change list) \<Rightarrow> bool" where
  "bus_takes t up sent \<longleftrightarrow>
     (\<forall>m bus. up bus \<longrightarrow> (\<exists>bus'. publish t m bus = (bus', None) \<and> up bus' \<and> sent bus' = sent bus @ [m]))"

lemma IsDryRun_nil [simp]: "IsDryRun (Slice a 0) = (False, a)"
  by (simp add: IsDryRun_def MatchDryRun_def)

lemma then_publish_nil:
  assumes "bus_takes t up sent" "up bus"
  shows "\<exists>bus' a'. then_publish t nil_slice m (s, a, r) bus = ((s, bus'), a', r) \<and> up bus' \<and>
    sent bus' = sent bus @ (if r = None then [m] else [])"
proof (cases r)
  case None
  obtain bus' where "publish t m bus = (bus', None)" "up bus'" "sent bus' = sent bus @ [m]"
    using assms unfolding bus_takes_def by blast
  with None show ?thesis by (simp add: then_publish_def caller_view_def)
qed (simp add: then_publish_def assms(2))

lemma exec_Publishing:
  assumes "bus_takes t up sent" "up bus" "exec (pub_store t) c s = (s', x)"
  shows "\<exists>bus'. exec (Publishing t) c (s, bus) = ((s', bus'), x) \<and> up bus' \<and>
    sent bus' = sent bus @ changes (pub_zero t) [c] [x]"
proof -
  note p = then_publish_nil [OF assms(1,2)]
  show ?thesis
  proof (cases c)
    case (CCreate k v)
    obtain s1 a r where e: "Create (pub_store t) nil_slice k v s = (s1, a, r)" by (metis prod_cases3)
    with assms(2,3) CCreate p [of "\<lparr>ch_Key = k, ch_Value = v, ch_Action = ''created''\<rparr>" s1 a r] show ?thesis
      by (cases r) (auto simp: Pub_defs changes_def map_filter_def answer_of_def)
  next
    case (CUpdate k v)
    obtain s1 a r where e: "Update (pub_store t) nil_slice k v s = (s1, a, r)" by (metis prod_cases3)
    with assms(2,3) CUpdate p [of "\<lparr>ch_Key = k, ch_Value = v, ch_Action = ''updated''\<rparr>" s1 a r] show ?thesis
      by (cases r) (auto simp: Pub_defs changes_def map_filter_def answer_of_def)
  next
    case (CApply k v)
    obtain s1 a r where e: "Apply (pub_store t) nil_slice k v s = (s1, a, r)" by (metis prod_cases3)
    with assms(2,3) CApply p [of "\<lparr>ch_Key = k, ch_Value = v, ch_Action = ''applied''\<rparr>" s1 a r] show ?thesis
      by (cases r) (auto simp: Pub_defs changes_def map_filter_def answer_of_def)
  next
    case (CDelete k)
    obtain s1 a r where e: "Delete (pub_store t) nil_slice k s = (s1, a, r)" by (metis prod_cases3)
    with assms(2,3) CDelete p [of "\<lparr>ch_Key = k, ch_Value = pub_zero t, ch_Action = ''deleted''\<rparr>" s1 a r] show ?thesis
      by (cases r) (auto simp: Pub_defs changes_def map_filter_def answer_of_def)
  next
    case (CRead k)
    with assms(2,3) show ?thesis by (auto simp: Pub_defs changes_def map_filter_def split: prod.splits sum.splits)
  next
    case CList
    with assms(2,3) show ?thesis by (auto simp: Pub_defs changes_def map_filter_def split: prod.splits sum.splits)
  qed
qed

lemma changes_Cons: "changes zero (c # cs) (x # xs) = changes zero [c] [x] @ changes zero cs xs"
  by (simp add: changes_def map_filter_def)

section \<open>Properties\<close>

text \<open>
  C27. Over a bus that takes every message, the middleware answers every sequence of calls as the
  wrapped store and leaves it in the same state, and the bus has received exactly the changes the
  wrapped store accepted, in the order of the calls.
\<close>

theorem Publishing_streams_changes:
  assumes "bus_takes t up sent" "up bus" "run (pub_store t) cs s = (s', answers)"
  shows "\<exists>bus'. run (Publishing t) cs (s, bus) = ((s', bus'), answers) \<and> up bus' \<and>
    sent bus' = sent bus @ changes (pub_zero t) cs answers"
  using assms(2,3)
proof (induction cs arbitrary: s bus answers)
  case Nil
  then show ?case by (simp add: changes_def map_filter_def)
next
  case (Cons c cs)
  obtain s1 x where e: "exec (pub_store t) c s = (s1, x)" by fastforce
  obtain xs where r: "run (pub_store t) cs s1 = (s', xs)" "answers = x # xs"
    using Cons.prems(2) e by (auto split: prod.splits)
  from exec_Publishing [OF assms(1) Cons.prems(1) e] obtain bus1 where
    b1: "exec (Publishing t) c (s, bus) = ((s1, bus1), x)" "up bus1" "sent bus1 = sent bus @ changes (pub_zero t) [c] [x]" by blast
  from Cons.IH [OF b1(2) r(1)] obtain bus2 where
    b2: "run (Publishing t) cs (s1, bus1) = ((s', bus2), xs)" "up bus2" "sent bus2 = sent bus1 @ changes (pub_zero t) cs xs" by blast
  with b1 b2 r(2) show ?case by (simp add: changes_Cons [of _ c cs x xs])
qed

text \<open>A bus that keeps what it is sent, and messages whose text can be read back.\<close>

definition change_text :: "(string, unit) change \<Rightarrow> err + string" where
  "change_text m = Inr (text_of_string (ch_Key m) @ text_of_string (ch_Action m))"

definition text_change :: "string \<Rightarrow> (string, unit) change" where
  "text_change t = (case strings_of_text [] t of [k, a] \<Rightarrow> \<lparr>ch_Key = k, ch_Value = (), ch_Action = a\<rparr>)"

definition list_producer :: "kmessage list producer" where
  "list_producer = \<lparr>pr_client = \<lparr>kp_Produce = \<lambda>m b. (b @ [m], None), kp_Delivery = \<lambda>m b. None, kp_GetFatalError = \<lambda>b. None\<rparr>,
     pr_stats = stats_New, pr_status = DefaultKafkaStatus, pr_monitorErrCh = [], pr_dryRun = True,
     pr_deliveryCh = None, pr_isRetryableErrorFn = None, pr_topic = ''t''\<rparr>"

definition list_sent :: "kmessage list bus \<Rightarrow> (string, unit) change list" where
  "list_sent bus = map (\<lambda>m. text_change (km_Value m)) (snd bus)"

text \<open>The store whose objects are all alike: a pod of the name \<open>a\<close>.\<close>

definition unit_dr :: "(unstructured list, unit) dynamic_resource" where
  "unit_dr = \<lparr>dr_client = list_client u_Name u_Labels, dr_cfg = dr_cfg example_dr, dr_labelsEnricher = None,
     to_object = (\<lambda>_. Inr example_pod), from_object = (\<lambda>_. Inr ()), dr_zero = ()\<rparr>"

definition unit_publisher :: "(unstructured list, string, unit) publisher" where
  "unit_publisher = publisher_New (DynamicResource text_selectors unit_dr) [] change_text () True"

lemma unit_publisher_takes: "bus_takes unit_publisher (\<lambda>bus. fst bus = list_producer) list_sent"
proof -
  have "text_change (text_of_string k @ text_of_string a) = \<lparr>ch_Key = k, ch_Value = (), ch_Action = a\<rparr>" for k a
    using strings_of_text [of "[]" k "text_of_string a"] strings_of_text [of "[]" a "[]"]
    by (simp add: text_change_def)
  then show ?thesis
    by (auto simp: bus_takes_def unit_publisher_def publisher_New_def publish_def change_text_def Produce_def
        NewProduceOptions_def list_producer_def producer_NewMessage_def NewMessage_def list_sent_def Let_def)
qed

theorem Publishing_streams_changes_witness:
  "\<exists>bus. run (Publishing unit_publisher) [CApply ''a'' (), CUpdate ''b'' (), CDelete ''a''] ([], list_producer, []) =
     (([], bus), [Done, Done, Done]) \<and>
   list_sent bus = [\<lparr>ch_Key = ''a'', ch_Value = (), ch_Action = ''applied''\<rparr>,
     \<lparr>ch_Key = ''b'', ch_Value = (), ch_Action = ''updated''\<rparr>, \<lparr>ch_Key = ''a'', ch_Value = (), ch_Action = ''deleted''\<rparr>]"
proof -
  have "run (pub_store unit_publisher) [CApply ''a'' (), CUpdate ''b'' (), CDelete ''a''] [] = ([], [Done, Done, Done])"
    by (simp add: unit_publisher_def publisher_New_def unit_dr_def example_dr_defs DR_defs toUnstructured_def
        DR_BuildLabels_def BuildLabels_def MergeMap_def maps_Copy_def IsNotFound_def NewNotFound_def answer_of_def)
  from Publishing_streams_changes [OF unit_publisher_takes _ this, of "(list_producer, [])"] show ?thesis
    by (auto simp: list_sent_def changes_def map_filter_def unit_publisher_def publisher_New_def)
qed

text \<open>
  Whether a dry run publishes depends on the order of the options: over the dynamic Kubernetes store
  an \<open>Update\<close> of the status alone, asked for as a dry run, changes nothing but is published when the
  dry-run option comes first, because the wrapped store has removed it from the array they share.
\<close>

lemma toUnstructured_unlabelled:
  assumes "MatchLabels opts = (None, opts)" "toUnstructured c v nil_slice = (r, nil_slice)"
  shows "toUnstructured c v opts = (r, opts)"
  using assms(2) by (auto simp: toUnstructured_def DR_BuildLabels_def BuildLabels_def assms(1) Let_def
      split: sum.splits option.splits)

theorem Publishing_leaks_dry_run:
  assumes "pub_store t = DynamicResource K c" "\<not> SendDryRun (pub_cfg t)" "bus_takes t up sent" "up bus"
    and "toUnstructured c v nil_slice = (Inr u, nil_slice)"
    and "kc_UpdateStatus (dr_client c) [''All''] u s = (s', None)"
  shows "(\<exists>bus' a. Update (Publishing t) (slice_of [DryRun, WithSubResourceOnly]) key v (s, bus) = ((s', bus'), a, None) \<and>
      sent bus' = sent bus @ [\<lparr>ch_Key = key, ch_Value = v, ch_Action = ''updated''\<rparr>]) \<and>
    (\<exists>a. Update (Publishing t) (slice_of [WithSubResourceOnly, DryRun]) key v (s, bus) = ((s', bus), a, None))"
proof -
  let ?sub = WithSubResourceOnly
  note m = MatchLabels_def MatchSubResourceOnly_def DryRun_def WithSubResourceOnly_def matcher_defs slice_of_def
    MatchOption.simps MatchOption_loop.simps live_def
  have l: "MatchLabels (slice_of [DryRun, ?sub]) = (None, slice_of [DryRun, ?sub])"
    "MatchLabels (slice_of [?sub, DryRun]) = (None, slice_of [?sub, DryRun])" by (simp_all add: m)
  have d: "MatchDryRun (slice_of [DryRun, ?sub]) = (Some True, Slice [?sub, ?sub] 1)"
    "MatchSubResourceOnly (Slice [?sub, ?sub] 1) = (Some True, Slice [?sub, ?sub] 0)"
    "MatchDryRun (slice_of [?sub, DryRun]) = (Some True, Slice [?sub, DryRun] 1)"
    "MatchSubResourceOnly (Slice [?sub, DryRun] 1) = (Some True, Slice [?sub, DryRun] 0)" by (simp_all add: m)
  have dry: "IsDryRun (Slice [?sub, ?sub] (Suc (Suc 0))) = (False, [?sub, ?sub])"
    "IsDryRun (Slice [?sub, DryRun] (Suc (Suc 0))) = (True, [?sub, DryRun])" by (auto simp: IsDryRun_def m)
  have up: "dr_update c u \<lparr>uo_DryRun = True, uo_SubResourceOnly = True\<rparr> s = (s', None)"
    using assms(6) by (simp add: dr_update_def DryRunOption_def)
  have "Update (pub_store t) (slice_of [DryRun, ?sub]) key v s = (s', [?sub, ?sub], None)"
    by (simp add: assms(1) DynamicResource_def DR_Update_def toUnstructured_unlabelled [OF l(1) assms(5)]
        buildUpdateOptions_def d(1) d(2) [simplified] exhausted_def up)
  moreover have "Update (pub_store t) (slice_of [?sub, DryRun]) key v s = (s', [?sub, DryRun], None)"
    by (simp add: assms(1) DynamicResource_def DR_Update_def toUnstructured_unlabelled [OF l(2) assms(5)]
        buildUpdateOptions_def d(3) d(4) [simplified] exhausted_def up)
  moreover obtain bus' where "publish t \<lparr>ch_Key = key, ch_Value = v, ch_Action = ''updated''\<rparr> bus = (bus', None)"
    "sent bus' = sent bus @ [\<lparr>ch_Key = key, ch_Value = v, ch_Action = ''updated''\<rparr>]"
    using assms(3,4) unfolding bus_takes_def by blast
  ultimately show ?thesis
    using dry assms(2) by (auto simp: Publishing_def Pub_Update_def then_publish_def caller_view_def)
qed

theorem Publishing_leaks_dry_run_witness:
  "\<exists>bus' a. Update (Publishing unit_publisher) (slice_of [DryRun, WithSubResourceOnly]) ''a'' () ([], list_producer, []) =
      (([], bus'), a, None) \<and> list_sent bus' = [\<lparr>ch_Key = ''a'', ch_Value = (), ch_Action = ''updated''\<rparr>]"
proof -
  have "toUnstructured unit_dr () nil_slice = (Inr example_pod, nil_slice)"
    by (simp add: toUnstructured_def DR_BuildLabels_def BuildLabels_def unit_dr_def example_dr_def example_pod_def
        MergeMap_def maps_Copy_def Let_def)
  moreover have "kc_UpdateStatus (dr_client unit_dr) [''All''] example_pod [] = ([], None)"
    by (simp add: unit_dr_def list_client_def Let_def)
  ultimately show ?thesis
    using Publishing_leaks_dry_run [OF _ _ unit_publisher_takes, of text_selectors unit_dr "(list_producer, [])" "()" example_pod "[]" "[]" "''a''"]
    by (auto simp: unit_publisher_def publisher_New_def list_sent_def)
qed

end
