(* ===== verification/Orchestration.thy ===== *)
theory Orchestration
  imports Workflow
begin

text \<open>
  Orchestration of services: \<open>pkg/orchestration\<close> and the memory API of \<open>internal/example\<close> that it
  is shown with.

  A service is a record of its methods as tasks on a state \<open>'s\<close>, which holds the world and the
  service objects. The actions of a list of services run concurrently, by \<open>task.Run\<close> under a
  schedule. Goroutines that a call leaves behind are returned as \<open>spawned\<close> values: the rollback of
  a list of stages, one after the other, and the report of rollback errors.
\<close>

section \<open>Services\<close>

record ('s, 'd) service =
  svc_Name :: string
  Check :: "'s task"
  Recover :: "'s task"
  svc_Run :: "'s task"
  Rollback :: "'s task"
  GetResponse :: "'s \<Rightarrow> err option \<Rightarrow> 'd option"

datatype service_action = SERVICE_CHECK | SERVICE_RECOVER | SERVICE_RUN | SERVICE_ROLLBACK | OtherAction string

text \<open>\<open>ProtoService\<close>: an action of a service as a runnable.\<close>

definition ProtoService_Run :: "service_action \<Rightarrow> ('s, 'd) service \<Rightarrow> 's task" where
  "ProtoService_Run action service =
     (case action of
        SERVICE_CHECK \<Rightarrow> Check service
      | SERVICE_RECOVER \<Rightarrow> Recover service
      | SERVICE_RUN \<Rightarrow> svc_Run service
      | SERVICE_ROLLBACK \<Rightarrow> Rollback service
      | OtherAction a \<Rightarrow> (\<lambda>s. (s, Returned (Some (new_error
          (''ProtoService Run called with invalid action (did you init?): '' @ a))))))"

definition GetNames :: "('s, 'd) service list \<Rightarrow> string list" where
  "GetNames s = map (\<lambda>svc. CHR 0x22 # svc_Name svc @ [CHR 0x22]) s"

definition Recoverable_Recover :: "'s task option \<Rightarrow> 's task" where
  "Recoverable_Recover recovery s =
     (case recovery of Some r \<Rightarrow> r s | None \<Rightarrow> (s, Returned (Some (new_error ''recovery not possible''))))"

definition SimpleService_Check :: "'s task" where
  "SimpleService_Check s = (s, Returned None)"

definition SimpleService_Rollback :: "'s task" where
  "SimpleService_Rollback s = (s, Returned (Some (new_error ''rollback not implemented'')))"

text \<open>What a service replies: the text of an error, a value, or \<open>"ok"\<close>.\<close>

datatype 'd detail = ErrorText err | OkText | Detail 'd

definition Responder_GetResponse :: "bool \<Rightarrow> 'd option \<Rightarrow> err option \<Rightarrow> 'd detail option" where
  "Responder_GetResponse useNullResponseAsDefault response e =
     (case e of
        Some e \<Rightarrow> Some (ErrorText e)
      | None \<Rightarrow>
          if \<not> useNullResponseAsDefault \<and> response = None then Some OkText
          else map_option Detail response)"

definition Payload_GetResponse :: "'d option \<Rightarrow> err option \<Rightarrow> 'd detail option" where
  "Payload_GetResponse response e =
     (case e of
        Some e \<Rightarrow> Some (ErrorText e)
      | None \<Rightarrow> (case response of None \<Rightarrow> Some OkText | Some d \<Rightarrow> Some (Detail d)))"

text \<open>
  \<open>MakeDryRun\<close>: the wrapper, which may be \<open>nil\<close>; then \<open>Name\<close> and \<open>GetResponse\<close> panic, which is
  not modelled, and \<open>Check\<close> reports it.
\<close>

definition MakeDryRun :: "('s, 'd) service \<Rightarrow> ('s, 'd) service" where
  "MakeDryRun wrapper =
     \<lparr>svc_Name = svc_Name wrapper @ '' (dryRun)'',
      Check = Check wrapper,
      Recover = Recoverable_Recover None,
      svc_Run = (\<lambda>s. (s, Returned None)),
      Rollback = (\<lambda>s. (s, Returned None)),
      GetResponse = GetResponse wrapper\<rparr>"

section \<open>Calling services\<close>

record 's call_ctx =
  base_ctx :: "'s ctx"
  dryRun :: bool
  recover :: bool

record ('s, 'd) call_opts =
  SkipRollback :: bool
  OnActionError :: "(service_action \<Rightarrow> ('s, 'd) service list \<Rightarrow> err option list \<Rightarrow> 's \<Rightarrow> 's) option"
  OnStageStart :: "(('s, 'd) service list \<Rightarrow> 's \<Rightarrow> 's) option"

datatype ('s, 'd) spawned =
    RollbackStages "('s, 'd) service list list"
  | ReportErrors "('s, 'd) service list" "err option list"

text \<open>\<open>reporter\<close> says whether \<open>RollbackErrorReporter\<close> is set.\<close>

definition RunServiceAction ::
  "bool \<Rightarrow> 's ctx \<Rightarrow> nat list \<Rightarrow> ('s, 'd) service list \<Rightarrow> service_action \<Rightarrow> 's \<Rightarrow>
    's \<times> err option list \<times> ('s, 'd) spawned list" where
  "RunServiceAction reporter ctx order services action s =
     (case Run ctx order (map (ProtoService_Run action) services) s of
        (s, errs) \<Rightarrow>
          (s, errs,
           if action = SERVICE_ROLLBACK \<and> reporter then [ReportErrors services errs] else []))"

definition on_action_error ::
  "('s, 'd) call_opts \<Rightarrow> service_action \<Rightarrow> ('s, 'd) service list \<Rightarrow> err option list \<Rightarrow> 's \<Rightarrow> 's" where
  "on_action_error opts action services errs s =
     (case OnActionError opts of None \<Rightarrow> s | Some f \<Rightarrow> f action services errs s)"

text \<open>\<open>sched\<close> gives the schedule of each action of this call.\<close>

definition run_services ::
  "bool \<Rightarrow> 's call_ctx \<Rightarrow> (service_action \<Rightarrow> nat list) \<Rightarrow> ('s, 'd) service list \<Rightarrow> ('s, 'd) call_opts \<Rightarrow>
    err option list \<Rightarrow> 's \<Rightarrow> 's \<times> err option list \<times> err option \<times> ('s, 'd) spawned list" where
  "run_services reporter ctx sched services opts errs s =
     (if \<not> dryRun ctx then
        (case RunServiceAction reporter (base_ctx ctx) (sched SERVICE_RUN) services SERVICE_RUN s of
           (s, errs, _) \<Rightarrow>
             if AnyError errs then
               (on_action_error opts SERVICE_RUN services errs s, errs,
                Some (new_error ''one or more runs failed''),
                if \<not> SkipRollback opts then [RollbackStages [services]] else [])
             else (s, errs, None, []))
      else (s, errs, None, []))"

definition CallServices ::
  "bool \<Rightarrow> 's call_ctx \<Rightarrow> (service_action \<Rightarrow> nat list) \<Rightarrow> ('s, 'd) service list \<Rightarrow> ('s, 'd) call_opts \<Rightarrow>
    's \<Rightarrow> 's \<times> err option list \<times> err option \<times> ('s, 'd) spawned list" where
  "CallServices reporter ctx sched services opts s =
     (case RunServiceAction reporter (base_ctx ctx) (sched SERVICE_CHECK) services SERVICE_CHECK s of
        (s, errs, _) \<Rightarrow>
          if AnyError errs then
            (let s = on_action_error opts SERVICE_CHECK services errs s in
             if \<not> dryRun ctx \<and> recover ctx then
               (case RunServiceAction reporter (base_ctx ctx) (sched SERVICE_RECOVER) services
                   SERVICE_RECOVER s of
                  (s, recoverErrs, _) \<Rightarrow>
                    if AnyError recoverErrs then
                      (s, errs, Some (new_error ''unable to recover from one or more failed pre-run checks''), [])
                    else run_services reporter ctx sched services opts errs s)
             else (s, errs, Some (new_error ''one or more pre-run checks failed''), []))
          else run_services reporter ctx sched services opts errs s)"

fun CallStaged_loop ::
  "bool \<Rightarrow> 's call_ctx \<Rightarrow> (nat \<Rightarrow> service_action \<Rightarrow> nat list) \<Rightarrow> ('s, 'd) service list list \<Rightarrow>
    ('s, 'd) call_opts \<Rightarrow> nat \<Rightarrow> ('s, 'd) service list list \<Rightarrow> 's \<Rightarrow>
    's \<times> nat \<times> err option list \<times> err option \<times> ('s, 'd) spawned list" where
  "CallStaged_loop reporter ctx sched stages opts i [] s = (s, length stages, [], None, [])"
| "CallStaged_loop reporter ctx sched stages opts i (stage # rest) s =
     (let s = (case OnStageStart opts of None \<Rightarrow> s | Some f \<Rightarrow> f stage s) in
      case CallServices reporter ctx (sched i) stage opts s of
        (s, errs, Some e, sp) \<Rightarrow>
          (s, i, errs, Some e,
           sp @ (if \<not> SkipRollback opts then [RollbackStages (rev (take i stages))] else []))
      | (s, errs, None, sp) \<Rightarrow> CallStaged_loop reporter ctx sched stages opts (Suc i) rest s)"

definition CallStagedServices ::
  "bool \<Rightarrow> 's call_ctx \<Rightarrow> (nat \<Rightarrow> service_action \<Rightarrow> nat list) \<Rightarrow> ('s, 'd) service list list \<Rightarrow>
    ('s, 'd) call_opts \<Rightarrow> 's \<Rightarrow> 's \<times> nat \<times> err option list \<times> err option \<times> ('s, 'd) spawned list" where
  "CallStagedServices reporter ctx sched stages opts s =
     CallStaged_loop reporter ctx sched stages opts 0 stages s"

text \<open>What the goroutine of a rollback does, stage by stage.\<close>

fun run_rollback ::
  "bool \<Rightarrow> 's ctx \<Rightarrow> (nat \<Rightarrow> nat list) \<Rightarrow> nat \<Rightarrow> ('s, 'd) service list list \<Rightarrow> 's \<Rightarrow> 's" where
  "run_rollback reporter ctx order j [] s = s"
| "run_rollback reporter ctx order j (stage # stages) s =
     run_rollback reporter ctx order (Suc j) stages
       (fst (RunServiceAction reporter ctx (order j) stage SERVICE_ROLLBACK s))"

section \<open>Replies\<close>

record 'd response =
  resp_Status :: "err option"
  Details :: "(string \<times> 'd) list"

definition StatusOK :: int where "StatusOK = 200"
definition StatusInternalServerError :: int where "StatusInternalServerError = 500"

text \<open>\<open>Status\<close> is \<open>"ok"\<close> without an error and its text otherwise.\<close>

definition generateResponseContainer :: "err option \<Rightarrow> int \<times> 'd response" where
  "generateResponseContainer e =
     (if e \<noteq> None then StatusInternalServerError else StatusOK, \<lparr>resp_Status = e, Details = []\<rparr>)"

text \<open>\<open>None\<close>: the index \<open>errs[i]\<close> is out of range and the code panics.\<close>

fun details_of ::
  "'s \<Rightarrow> ('s, 'd) service list \<Rightarrow> err option list \<Rightarrow> (string \<times> 'd) list option" where
  "details_of s [] errs = Some []"
| "details_of s (service # services) [] = None"
| "details_of s (service # services) (e # errs) =
     (case details_of s services errs of
        None \<Rightarrow> None
      | Some ds \<Rightarrow>
          (case GetResponse service s e of
             None \<Rightarrow> Some ds
           | Some d \<Rightarrow> Some ((svc_Name service, d) # ds)))"

definition GenerateResponse ::
  "'s \<Rightarrow> ('s, 'd) service list \<Rightarrow> err option list \<Rightarrow> err option \<Rightarrow> (int \<times> 'd response) option" where
  "GenerateResponse s services errs e =
     (case generateResponseContainer e of
        (status, response) \<Rightarrow>
          (case details_of s services errs of
             None \<Rightarrow> None
           | Some ds \<Rightarrow> Some (status, response\<lparr>Details := ds\<rparr>)))"

fun staged_details :: "'s \<Rightarrow> ('s, 'd) service list list \<Rightarrow> (string \<times> 'd) list option" where
  "staged_details s [] = Some []"
| "staged_details s (stage # stages) =
     (case GenerateResponse s stage (replicate (length stage) None) None of
        None \<Rightarrow> None
      | Some (_, stageResponse) \<Rightarrow>
          (case staged_details s stages of
             None \<Rightarrow> None
           | Some ds \<Rightarrow> Some (Details stageResponse @ ds)))"

definition GenerateStagedResponse ::
  "'s \<Rightarrow> ('s, 'd) service list list \<Rightarrow> nat \<Rightarrow> err option list \<Rightarrow> err option \<Rightarrow>
    (int \<times> 'd response) option" where
  "GenerateStagedResponse s stages failedStageIndex errs e =
     (if e \<noteq> None then
        (if failedStageIndex < length stages then
           GenerateResponse s (stages ! failedStageIndex) errs e
         else None)
      else
        (case staged_details s stages of
           None \<Rightarrow> None
         | Some ds \<Rightarrow> Some (StatusOK, \<lparr>resp_Status = None, Details = ds\<rparr>)))"

definition CallServicesAndReply ::
  "bool \<Rightarrow> 's call_ctx \<Rightarrow> (service_action \<Rightarrow> nat list) \<Rightarrow> ('s, 'd) service list \<Rightarrow> ('s, 'd) call_opts \<Rightarrow>
    's \<Rightarrow> 's \<times> (int \<times> 'd response) option \<times> ('s, 'd) spawned list" where
  "CallServicesAndReply reporter ctx sched services opts s =
     (case CallServices reporter ctx sched services opts s of
        (s, errs, e, sp) \<Rightarrow> (s, GenerateResponse s services errs e, sp))"

definition CallStagedServicesAndReply ::
  "bool \<Rightarrow> 's call_ctx \<Rightarrow> (nat \<Rightarrow> service_action \<Rightarrow> nat list) \<Rightarrow> ('s, 'd) service list list \<Rightarrow>
    ('s, 'd) call_opts \<Rightarrow> 's \<Rightarrow> 's \<times> (int \<times> 'd response) option \<times> ('s, 'd) spawned list" where
  "CallStagedServicesAndReply reporter ctx sched stages opts s =
     (case CallStagedServices reporter ctx sched stages opts s of
        (s, n, errs, e, sp) \<Rightarrow> (s, GenerateStagedResponse s stages n errs e, sp))"

section \<open>REST APIs as services\<close>

text \<open>A REST API over a state \<open>'a\<close>, for objects \<open>'o\<close> with a name; every call returns a response and an error.\<close>

record ('a, 'o, 'd) rest_api =
  api_Get :: "string \<Rightarrow> 'a \<Rightarrow> 'a \<times> 'o option \<times> err option"
  api_Post :: "'o option \<Rightarrow> 'a \<Rightarrow> 'a \<times> 'd option \<times> err option"
  api_Put :: "'o option \<Rightarrow> 'a \<Rightarrow> 'a \<times> 'd option \<times> err option"
  api_Delete :: "string \<Rightarrow> 'a \<Rightarrow> 'a \<times> 'd option \<times> err option"
  api_List :: "'a \<Rightarrow> 'a \<times> 'd option \<times> err option"

datatype rest_action = REST_API_GET | REST_API_POST | REST_API_PUT | REST_API_DELETE | REST_API_LIST | OtherRestAction string

record ('o, 'd) rest_service =
  ApiName :: string
  Action :: rest_action
  RequestName :: string
  RequestPayload :: "'o option"
  rest_Response :: "'d option"
  backup :: "'o option"

text \<open>The state of a service is that of its API and its object; \<open>as_detail\<close> makes an object a response.\<close>

type_synonym ('a, 'o, 'd) rest_state = "'a \<times> ('o, 'd) rest_service"

definition Simple_GetResponse :: "('a, 'o, 'd) rest_state \<Rightarrow> err option \<Rightarrow> 'd detail option" where
  "Simple_GetResponse s e =
     (case e of Some e \<Rightarrow> Some (ErrorText e) | None \<Rightarrow> map_option Detail (rest_Response (snd s)))"

definition Simple_Check :: "'s task" where
  "Simple_Check s = (s, Returned None)"

definition Simple_Rollback :: "'s task" where
  "Simple_Rollback s = (s, Returned None)"

definition Simple_Run ::
  "('a, 'o, 'd) rest_api \<Rightarrow> ('o \<Rightarrow> 'd) \<Rightarrow> ('a, 'o, 'd) rest_state task" where
  "Simple_Run api as_detail s =
     (case s of (a, proto) \<Rightarrow>
        (case (case Action proto of
                 REST_API_GET \<Rightarrow>
                   Some (case api_Get api (RequestName proto) a of
                           (a, r, e) \<Rightarrow> (a, map_option as_detail r, e))
               | REST_API_POST \<Rightarrow> Some (api_Post api (RequestPayload proto) a)
               | REST_API_PUT \<Rightarrow> Some (api_Put api (RequestPayload proto) a)
               | REST_API_DELETE \<Rightarrow> Some (api_Delete api (RequestName proto) a)
               | REST_API_LIST \<Rightarrow> Some (api_List api a)
               | OtherRestAction _ \<Rightarrow> None) of
           None \<Rightarrow> (s, Returned (Some (new_error ''unrecognized RestApiService Action (did you init?)'')))
         | Some (a, response, e) \<Rightarrow> ((a, proto\<lparr>rest_Response := response\<rparr>), Returned e)))"

definition Rest_Check :: "('a, 'o, 'd) rest_api \<Rightarrow> ('a, 'o, 'd) rest_state task" where
  "Rest_Check api s =
     (case s of (a, proto) \<Rightarrow>
        if Action proto = REST_API_GET \<or> Action proto = REST_API_LIST then (s, Returned None)
        else
          (case api_Get api (RequestName proto) a of
             (a, backup', e) \<Rightarrow>
               if Action proto = REST_API_POST then
                 (if e = None then
                    ((a, proto), Returned (Some (new_error
                       (''cannot create '' @ RequestName proto @ '' because it already exists''))))
                  else ((a, proto), Returned None))
               else ((a, proto\<lparr>backup := backup'\<rparr>), Returned e)))"

definition Rest_Rollback ::
  "('o \<Rightarrow> string) \<Rightarrow> ('a, 'o, 'd) rest_api \<Rightarrow> ('a, 'o, 'd) rest_state task" where
  "Rest_Rollback name_of api s =
     (case s of (a, proto) \<Rightarrow>
        (case Action proto of
           REST_API_PUT \<Rightarrow>
             (case api_Put api (backup proto) a of (a, _, e) \<Rightarrow> ((a, proto), Returned e))
         | REST_API_POST \<Rightarrow>
             (case RequestPayload proto of
                None \<Rightarrow> (s, Panicked)
              | Some obj \<Rightarrow>
                  (case api_Delete api (name_of obj) a of (a, _, e) \<Rightarrow> ((a, proto), Returned e)))
         | REST_API_DELETE \<Rightarrow>
             (case api_Post api (backup proto) a of (a, _, e) \<Rightarrow> ((a, proto), Returned e))
         | _ \<Rightarrow> (s, Returned None)))"

definition new_rest_service ::
  "rest_action \<Rightarrow> string \<Rightarrow> string \<Rightarrow> 'o option \<Rightarrow> ('o, 'd) rest_service" where
  "new_rest_service action apiName name pl =
     \<lparr>ApiName = apiName, Action = action, RequestName = name, RequestPayload = pl,
      rest_Response = None, backup = None\<rparr>"

definition RestApiAsService ::
  "('o \<Rightarrow> string) \<Rightarrow> ('o \<Rightarrow> 'd) \<Rightarrow> ('a, 'o, 'd) rest_api \<Rightarrow> string \<Rightarrow>
    (('a, 'o, 'd) rest_state, 'd detail) service" where
  "RestApiAsService name_of as_detail api apiName =
     \<lparr>svc_Name = apiName, Check = Rest_Check api, Recover = Recoverable_Recover None,
      svc_Run = Simple_Run api as_detail, Rollback = Rest_Rollback name_of api,
      GetResponse = Simple_GetResponse\<rparr>"

section \<open>The memory API of the example\<close>

record claim =
  ClaimName :: string
  MemoryInMb :: int

record fake_db =
  fakeDb :: "(string, claim) gomap"
  AvailableMemoryMb :: int

definition FakeDbWrite :: "claim \<Rightarrow> fake_db \<Rightarrow> fake_db" where
  "FakeDbWrite c db = db\<lparr>fakeDb := AList.update (ClaimName c) c (fakeDb db)\<rparr>"

definition FakeDbDelete :: "string \<Rightarrow> fake_db \<Rightarrow> fake_db" where
  "FakeDbDelete name db = db\<lparr>fakeDb := AList.delete name (fakeDb db)\<rparr>"

definition FakeDbUpdateAvailableMemory :: "int \<Rightarrow> fake_db \<Rightarrow> fake_db" where
  "FakeDbUpdateAvailableMemory update db = db\<lparr>AvailableMemoryMb := AvailableMemoryMb db + update\<rparr>"

definition MyServiceApi_Get :: "string \<Rightarrow> string \<Rightarrow> fake_db \<Rightarrow> fake_db \<times> claim option \<times> err option" where
  "MyServiceApi_Get datacenter name db =
     (case map_of (fakeDb db) (datacenter @ name) of
        Some c \<Rightarrow> (db, Some c, None)
      | None \<Rightarrow> (db, None, Some (new_error ''not found'')))"

definition MyServiceApi_Post ::
  "string \<Rightarrow> claim option \<Rightarrow> fake_db \<Rightarrow> fake_db \<times> string option \<times> err option" where
  "MyServiceApi_Post datacenter obj db =
     (case obj of
        None \<Rightarrow> (db, None, Some (new_error ''not a memory claim''))
      | Some c \<Rightarrow>
          (let c = c\<lparr>ClaimName := datacenter @ ClaimName c\<rparr> in
           if map_of (fakeDb db) (ClaimName c) \<noteq> None then
             (db, None, Some (new_error ''already exists''))
           else if AvailableMemoryMb db - MemoryInMb c < 0 then
             (db, None, Some (new_error ''not enough memory available''))
           else
             (let db = FakeDbUpdateAvailableMemory (- MemoryInMb c) (FakeDbWrite c db) in
              if AvailableMemoryMb db < 0 then
                (db, None, Some (new_error ''not enough memory available after claiming''))
              else (db, Some ''ok'', None))))"

definition MyServiceApi_Put ::
  "string \<Rightarrow> claim option \<Rightarrow> fake_db \<Rightarrow> fake_db \<times> string option \<times> err option" where
  "MyServiceApi_Put datacenter obj db =
     (case obj of
        None \<Rightarrow> (db, None, Some (new_error ''not a memory claim''))
      | Some c \<Rightarrow>
          (let c = c\<lparr>ClaimName := datacenter @ ClaimName c\<rparr> in
           case map_of (fakeDb db) (ClaimName c) of
             None \<Rightarrow> (db, None, Some (new_error ''not found''))
           | Some existing \<Rightarrow>
               if AvailableMemoryMb db + MemoryInMb existing - MemoryInMb c < 0 then
                 (db, None, Some (new_error ''not enough memory available''))
               else
                 (FakeDbUpdateAvailableMemory (MemoryInMb existing - MemoryInMb c) (FakeDbWrite c db),
                  Some ''ok'', None)))"

definition MyServiceApi_Delete ::
  "string \<Rightarrow> string \<Rightarrow> fake_db \<Rightarrow> fake_db \<times> string option \<times> err option" where
  "MyServiceApi_Delete datacenter name db =
     (let name = datacenter @ name in
      case map_of (fakeDb db) name of
        None \<Rightarrow> (db, None, Some (new_error ''not found''))
      | Some c \<Rightarrow>
          (FakeDbUpdateAvailableMemory (MemoryInMb c) (FakeDbDelete name db), Some ''ok'', None))"

text \<open>\<open>List\<close> names the claims in the order of the map; \<open>show_names\<close> makes one response of them.\<close>

definition MyServiceApi ::
  "(string list \<Rightarrow> string) \<Rightarrow> string \<Rightarrow> (fake_db, claim, string) rest_api" where
  "MyServiceApi show_names datacenter =
     \<lparr>api_Get = MyServiceApi_Get datacenter, api_Post = MyServiceApi_Post datacenter,
      api_Put = MyServiceApi_Put datacenter, api_Delete = MyServiceApi_Delete datacenter,
      api_List = (\<lambda>db. (db, Some (show_names (map (\<lambda>(_, c). ClaimName c) (fakeDb db))), None))\<rparr>"

section \<open>The memory service of the example\<close>

record create_service =
  Datacenter :: string
  Claim :: claim
  ModifiedDb :: bool
  create_Response :: "string option"

definition Create_Check :: "(fake_db \<times> create_service) task" where
  "Create_Check s =
     (case s of (db, c) \<Rightarrow>
        (let c = c\<lparr>Claim := (Claim c)\<lparr>ClaimName := Datacenter c @ ClaimName (Claim c)\<rparr>\<rparr> in
         if map_of (fakeDb db) (ClaimName (Claim c)) \<noteq> None then
           ((db, c), Returned (Some (new_error ''already exists'')))
         else if AvailableMemoryMb db - MemoryInMb (Claim c) < 0 then
           ((db, c), Returned (Some (new_error ''not enough memory available'')))
         else ((db, c), Returned None)))"

definition Create_Run :: "(fake_db \<times> create_service) task" where
  "Create_Run s =
     (case s of (db, c) \<Rightarrow>
        (let db = FakeDbWrite (Claim c) (FakeDbUpdateAvailableMemory (- MemoryInMb (Claim c)) db);
             c = c\<lparr>create_Response := Some ''ok'', ModifiedDb := True\<rparr>
         in if AvailableMemoryMb db < 0 then
              ((db, c), Returned (Some (new_error ''not enough memory available'')))
            else ((db, c), Returned None)))"

definition Create_Rollback :: "(fake_db \<times> create_service) task" where
  "Create_Rollback s =
     (case s of (db, c) \<Rightarrow>
        (if ModifiedDb c then
           (FakeDbUpdateAvailableMemory (MemoryInMb (Claim c)) (FakeDbDelete (ClaimName (Claim c)) db), c)
         else (db, c), Returned None))"

definition MemoryApiCreate :: "string \<Rightarrow> (fake_db \<times> create_service, string detail) service" where
  "MemoryApiCreate datacenter =
     \<lparr>svc_Name = ''MyService Create '' @ datacenter, Check = Create_Check,
      Recover = Recoverable_Recover None, svc_Run = Create_Run, Rollback = Create_Rollback,
      GetResponse = (\<lambda>s. Payload_GetResponse (create_Response (snd s)))\<rparr>"

section \<open>Services that can be undone\<close>

text \<open>
  The contract that \<open>CallServices\<close> relies on: seen through \<open>abs\<close>, a check changes nothing, and after
  a check that passed and a run, however it ended, the rollback restores what was there.
\<close>

locale recoverable_service =
  fixes svc :: "('c, 'd) service"
    and abs :: "'c \<Rightarrow> 'v"
    and inv :: "'c \<Rightarrow> bool"
  assumes check: "inv c \<Longrightarrow> abs (fst (Check svc c)) = abs c"
    and undo: "inv c \<Longrightarrow> Check svc c = (c1, Returned None) \<Longrightarrow> svc_Run svc c1 = (c2, r) \<Longrightarrow>
      abs (fst (Rollback svc c2)) = abs c"
begin

lemma dry_run_changes_nothing:
  "inv c \<Longrightarrow> Check (MakeDryRun svc) c = (c1, r1) \<Longrightarrow> svc_Run (MakeDryRun svc) c1 = (c2, r2) \<Longrightarrow>
     abs c2 = abs c"
  using check [of c] by (auto simp: MakeDryRun_def)

end

text \<open>
  A REST API that implements a map from names to objects, where an object that was replaced or
  deleted can be put back. \<open>ok\<close> is what the client takes care of when it sends an object.
\<close>

locale rest_backend =
  fixes api :: "('a, 'o, 'd) rest_api"
    and name_of :: "'o \<Rightarrow> string"
    and as_detail :: "'o \<Rightarrow> 'd"
    and apiName :: string
    and objects :: "'a \<Rightarrow> string \<Rightarrow> 'o option"
    and api_inv :: "'a \<Rightarrow> bool"
    and ok :: "'o \<Rightarrow> bool"
  assumes get_pure: "api_Get api n a = (a', r, e) \<Longrightarrow> a' = a"
    and get_found: "api_inv a \<Longrightarrow> api_Get api n a = (a', r, None) \<Longrightarrow>
      \<exists>obj. r = Some obj \<and> objects a n = Some obj \<and> name_of obj = n \<and> ok obj"
    and get_missing: "api_inv a \<Longrightarrow> api_Get api n a = (a', r, Some x) \<Longrightarrow> objects a n = None"
    and list_pure: "api_List api a = (a', d, e) \<Longrightarrow> a' = a"
    and post: "api_inv a \<Longrightarrow> ok obj \<Longrightarrow> api_Post api (Some obj) a = (a', d, e) \<Longrightarrow> api_inv a' \<and>
      (if e = None then objects a (name_of obj) = None \<and> objects a' = (objects a)(name_of obj \<mapsto> obj)
       else objects a' = objects a)"
    and put: "api_inv a \<Longrightarrow> ok obj \<Longrightarrow> api_Put api (Some obj) a = (a', d, e) \<Longrightarrow> api_inv a' \<and>
      (if e = None then objects a (name_of obj) \<noteq> None \<and> objects a' = (objects a)(name_of obj \<mapsto> obj)
       else objects a' = objects a)"
    and delete: "api_inv a \<Longrightarrow> api_Delete api n a = (a', d, e) \<Longrightarrow> api_inv a' \<and>
      (if e = None then objects a n \<noteq> None \<and> objects a' = (objects a)(n := None)
       else objects a n = None \<and> objects a' = objects a)"
    and put_back: "api_inv a \<Longrightarrow> ok obj \<Longrightarrow> objects a (name_of obj) = Some old \<Longrightarrow>
      api_Put api (Some obj) a = (a', d, None) \<Longrightarrow> \<exists>a'' d. api_Put api (Some old) a' = (a'', d, None)"
    and post_back: "api_inv a \<Longrightarrow> objects a n = Some old \<Longrightarrow> api_Delete api n a = (a', d, None) \<Longrightarrow>
      \<exists>a'' d. api_Post api (Some old) a' = (a'', d, None)"
begin

text \<open>What a caller has to set: the name and, to create and replace, an object of that name.\<close>

definition configured :: "('a, 'o, 'd) rest_state \<Rightarrow> bool" where
  "configured s \<longleftrightarrow> api_inv (fst s) \<and>
     (Action (snd s) \<in> {REST_API_POST, REST_API_PUT} \<longrightarrow>
        (\<exists>obj. RequestPayload (snd s) = Some obj \<and> name_of obj = RequestName (snd s) \<and> ok obj))"

lemma Rest_Check_frame:
  assumes "Rest_Check api (a, proto) = ((a', proto'), r)"
  shows "a' = a \<and> (\<exists>b. proto' = proto\<lparr>backup := b\<rparr>)"
  using assms get_pure
  by (fastforce simp: Rest_Check_def split: if_splits prod.splits intro: exI [of _ "backup proto"])

lemma undo_post:
  assumes "api_inv a" "ok obj" "objects a (name_of obj) = None"
    "api_Post api (Some obj) a = (a1, d, e)" "api_Delete api (name_of obj) a1 = (a2, d', e')"
  shows "objects a2 = objects a"
  using post [OF assms(1,2,4)] delete [OF _ assms(5)] assms(3) by (auto split: if_splits)

lemma undo_put:
  assumes "api_inv a" "ok obj" "ok old" "name_of old = name_of obj" "objects a (name_of obj) = Some old"
    "api_Put api (Some obj) a = (a1, d, e)" "api_Put api (Some old) a1 = (a2, d', e')"
  shows "objects a2 = objects a"
proof (cases e)
  case None
  then obtain a'' d'' where "api_Put api (Some old) a1 = (a'', d'', None)"
    using put_back [OF assms(1,2,5)] assms(6) by blast
  then have "e' = None" using assms(7) by simp
  with None show ?thesis using put [OF assms(1,2,6)] put [OF _ assms(3,7)] assms(4,5)
    by (auto simp: fun_upd_idem)
next
  case (Some x)
  then show ?thesis using put [OF assms(1,2,6)] put [OF _ assms(3,7)] assms(4,5)
    by (auto simp: fun_upd_idem split: if_splits)
qed

lemma undo_delete:
  assumes "api_inv a" "ok old" "name_of old = n" "objects a n = Some old"
    "api_Delete api n a = (a1, d, e)" "api_Post api (Some old) a1 = (a2, d', e')"
  shows "objects a2 = objects a"
proof (cases e)
  case None
  then obtain a'' d'' where "api_Post api (Some old) a1 = (a'', d'', None)"
    using post_back [OF assms(1,4)] assms(5) by blast
  then have "e' = None" using assms(6) by simp
  with None show ?thesis using delete [OF assms(1,5)] post [OF _ assms(2,6)] assms(3,4)
    by (auto simp: fun_upd_idem)
next
  case (Some x)
  then show ?thesis using delete [OF assms(1,5)] assms(4) by simp
qed

lemma service_undo:
  assumes "configured c" "Rest_Check api c = (c1, Returned None)"
    "Simple_Run api as_detail c1 = (c2, r)"
  shows "objects (fst (fst (Rest_Rollback name_of api c2))) = objects (fst c)"
proof -
  obtain a p where c: "c = (a, p)" by (cases c)
  obtain a1 p1 where c1: "c1 = (a1, p1)" by (cases c1)
  obtain b where f: "a1 = a" "p1 = p\<lparr>backup := b\<rparr>"
    using Rest_Check_frame assms(2) unfolding c c1 by blast
  have inv: "api_inv a" using assms(1) by (simp add: configured_def c)
  show ?thesis
  proof (cases "Action p")
    case REST_API_GET
    then show ?thesis using assms(3)
      by (auto simp: c c1 f Simple_Run_def Rest_Rollback_def dest: get_pure split: prod.splits)
  next
    case REST_API_LIST
    then show ?thesis using assms(3)
      by (auto simp: c c1 f Simple_Run_def Rest_Rollback_def dest: list_pure split: prod.splits)
  next
    case (OtherRestAction x)
    then show ?thesis using assms(3)
      by (auto simp: c c1 f Simple_Run_def Rest_Rollback_def split: prod.splits)
  next
    case REST_API_POST
    then obtain obj where obj: "RequestPayload p = Some obj" "name_of obj = RequestName p" "ok obj"
      using assms(1) by (auto simp: configured_def c)
    have "objects a (name_of obj) = None"
      using assms(2) REST_API_POST get_missing [OF inv]
      by (auto simp: c c1 Rest_Check_def obj(2) split: prod.splits if_splits option.splits)
    then show ?thesis using assms(3) undo_post [OF inv obj(3)]
      by (auto simp: c c1 f REST_API_POST obj(1) Simple_Run_def Rest_Rollback_def split: prod.splits)
  next
    case REST_API_PUT
    then obtain obj where obj: "RequestPayload p = Some obj" "name_of obj = RequestName p" "ok obj"
      using assms(1) by (auto simp: configured_def c)
    obtain a' where g: "api_Get api (RequestName p) a = (a', b, None)"
      using assms(2) REST_API_PUT f by (auto simp: c c1 Rest_Check_def split: prod.splits)
         (metis rest_service.select_convs(6) rest_service.surjective rest_service.update_convs(6))
    then obtain old where old: "b = Some old" "objects a (RequestName p) = Some old"
        "name_of old = RequestName p" "ok old"
      using get_found [OF inv] by blast
    show ?thesis using assms(3) undo_put [OF inv obj(3) old(4)] old obj(2)
      by (auto simp: c c1 f REST_API_PUT obj(1) Simple_Run_def Rest_Rollback_def split: prod.splits)
  next
    case REST_API_DELETE
    obtain a' where g: "api_Get api (RequestName p) a = (a', b, None)"
      using assms(2) REST_API_DELETE f by (auto simp: c c1 Rest_Check_def split: prod.splits)
         (metis rest_service.select_convs(6) rest_service.surjective rest_service.update_convs(6))
    then obtain old where old: "b = Some old" "objects a (RequestName p) = Some old"
        "name_of old = RequestName p" "ok old"
      using get_found [OF inv] by blast
    show ?thesis using assms(3) undo_delete [OF inv old(4,3,2)] old
      by (auto simp: c c1 f REST_API_DELETE Simple_Run_def Rest_Rollback_def split: prod.splits)
  qed
qed

text \<open>
  Without the name of the object, as the comment on \<open>RequestName\<close> allows for \<open>POST\<close>, the check looks
  for another object: the creation then fails on the existing one and its rollback deletes it.
\<close>

lemma create_without_name:
  assumes "api_inv a" "ok obj" "objects a (name_of obj) = Some old" "objects a name = None"
    "c = (a, new_rest_service REST_API_POST apiName name (Some obj))"
  shows "\<exists>c1 c2 e. Rest_Check api c = (c1, Returned None) \<and>
    Simple_Run api as_detail c1 = (c2, Returned (Some e)) \<and>
    objects (fst c2) = objects a \<and>
    objects (fst (fst (Rest_Rollback name_of api c2))) = (objects a)(name_of obj := None)"
proof -
  obtain a1 r e where g: "api_Get api name a = (a1, r, e)" by (cases "api_Get api name a") auto
  have "a1 = a" using get_pure [OF g] .
  moreover have "e \<noteq> None" using get_found [OF assms(1), of name a1 r] g assms(4) by auto
  ultimately have chk: "Rest_Check api c = (c, Returned None)"
    using g by (auto simp: assms(5) Rest_Check_def new_rest_service_def)
  obtain a2 d e2 where p: "api_Post api (Some obj) a = (a2, d, e2)"
    by (cases "api_Post api (Some obj) a") auto
  have p': "api_inv a2" "e2 \<noteq> None" "objects a2 = objects a"
    using post [OF assms(1,2) p] assms(3) by (auto split: if_splits)
  obtain a3 d3 e3 where del: "api_Delete api (name_of obj) a2 = (a3, d3, e3)"
    by (cases "api_Delete api (name_of obj) a2") auto
  have "objects a3 = (objects a)(name_of obj := None)"
    using delete [OF p'(1) del] p'(3) assms(3) by (auto split: if_splits)
  with chk p p' del show ?thesis
    by (auto simp: assms(5) Simple_Run_def Rest_Rollback_def new_rest_service_def)
qed

end

sublocale rest_backend \<subseteq> undoable: recoverable_service "RestApiAsService name_of as_detail api apiName"
  "\<lambda>s. objects (fst s)" configured
proof (unfold_locales, goal_cases)
  case (1 c)
  then show ?case using Rest_Check_frame
    by (cases c; cases "Rest_Check api c"; fastforce simp: RestApiAsService_def)
next
  case (2 c c1 c2 r)
  then show ?case using service_undo by (auto simp: RestApiAsService_def)
qed

section \<open>The example provides the contracts\<close>

definition db_inv :: "fake_db \<Rightarrow> bool" where
  "db_inv db \<longleftrightarrow> 0 \<le> AvailableMemoryMb db \<and>
     (\<forall>n c. map_of (fakeDb db) n = Some c \<longrightarrow> ClaimName c = n \<and> 0 \<le> MemoryInMb c)"

lemmas example_db_defs = MyServiceApi_def MyServiceApi_Get_def MyServiceApi_Post_def
  MyServiceApi_Put_def MyServiceApi_Delete_def FakeDbWrite_def FakeDbDelete_def
  FakeDbUpdateAvailableMemory_def

interpretation memory_api: rest_backend "MyServiceApi show_names []" ClaimName as_detail apiName
  "\<lambda>db. map_of (fakeDb db)" db_inv "\<lambda>c. 0 \<le> MemoryInMb c"
  for show_names :: "string list \<Rightarrow> string" and as_detail :: "claim \<Rightarrow> string" and apiName :: string
proof (unfold_locales, goal_cases)
  case (1 n a a' r e) then show ?case by (auto simp: example_db_defs split: option.splits)
next
  case (2 a n a' r)
  then obtain c where "map_of (fakeDb a) n = Some c" "r = Some c"
    by (auto simp: example_db_defs split: option.splits)
  with 2(1) show ?case by (simp add: db_inv_def)
next
  case (3 a n a' r x) then show ?case by (auto simp: example_db_defs split: option.splits)
next
  case (4 a a' d e) then show ?case by (auto simp: example_db_defs)
next
  case (5 a obj a' d e) then show ?case
    by (auto simp: example_db_defs db_inv_def Let_def split: if_splits)
next
  case (6 a obj a' d e) then show ?case
    by (auto simp: example_db_defs db_inv_def Let_def split: if_splits option.splits)
next
  case (7 a n a' d e) then show ?case
    by (auto simp: example_db_defs db_inv_def Let_def split: if_splits option.splits)
next
  case (8 a obj old a' d) then show ?case
    by (auto simp: example_db_defs db_inv_def Let_def split: if_splits option.splits)
next
  case (9 a n old a' d) then show ?case
    by (auto simp: example_db_defs db_inv_def Let_def split: if_splits option.splits)
qed

interpretation memory_create: recoverable_service "MemoryApiCreate datacenter"
  "\<lambda>s. (map_of (fakeDb (fst s)), AvailableMemoryMb (fst s))" "\<lambda>s. \<not> ModifiedDb (snd s)"
proof (unfold_locales, goal_cases)
  case (1 c)
  then show ?case by (auto simp: MemoryApiCreate_def Create_Check_def Let_def split: prod.splits)
next
  case (2 c c1 c2 r)
  then show ?case
    by (auto simp: MemoryApiCreate_def Create_Check_def Create_Run_def Create_Rollback_def
        FakeDbWrite_def FakeDbDelete_def FakeDbUpdateAvailableMemory_def Let_def fun_upd_idem
        split: prod.splits if_splits)
qed

text \<open>
  With a datacenter the objects that \<open>Get\<close> returns carry it in their name and \<open>Post\<close> adds it again,
  so the rollback of a deletion does not bring the claim back.
\<close>

lemma datacenter_deletion_not_undone:
  assumes "dc \<noteq> []" "map_of (fakeDb db) (dc @ n) = Some c" "ClaimName c = dc @ n"
    and "s = (db, new_rest_service REST_API_DELETE apiName n None)"
  shows "\<exists>s1 s2. Rest_Check (MyServiceApi show_names dc) s = (s1, Returned None) \<and>
    Simple_Run (MyServiceApi show_names dc) as_detail s1 = (s2, Returned None) \<and>
    map_of (fakeDb (fst (fst (Rest_Rollback ClaimName (MyServiceApi show_names dc) s2)))) (dc @ n) = None"
  using assms
  by (auto simp: Rest_Check_def Simple_Run_def Rest_Rollback_def new_rest_service_def example_db_defs Let_def)

section \<open>Independent services\<close>

text \<open>Service \<open>i\<close> works on component \<open>i\<close> of a list of states.\<close>

definition on_component_service :: "nat \<Rightarrow> ('c, 'd) service \<Rightarrow> ('c list, 'd) service" where
  "on_component_service i svc =
     \<lparr>svc_Name = svc_Name svc, Check = on_component i (Check svc), Recover = on_component i (Recover svc),
      svc_Run = on_component i (svc_Run svc), Rollback = on_component i (Rollback svc),
      GetResponse = (\<lambda>xs. GetResponse svc (xs ! i))\<rparr>"

definition independent :: "('c, 'd) service list \<Rightarrow> ('c list, 'd) service list" where
  "independent svcs = map (\<lambda>i. on_component_service i (svcs ! i)) [0..<length svcs]"

lemma tasks_independent:
  "map (ProtoService_Run action) (independent svcs) = component_tasks (map (ProtoService_Run action) svcs)"
  by (auto simp: independent_def component_tasks_def on_component_service_def ProtoService_Run_def
      on_component_def split: service_action.split)

definition complete_order :: "nat list \<Rightarrow> nat \<Rightarrow> bool" where
  "complete_order order n \<longleftrightarrow> distinct order \<and> set order = {..<n}"

text \<open>The results of an action on each service alone.\<close>

definition each :: "service_action \<Rightarrow> ('c, 'd) service list \<Rightarrow> 'c list \<Rightarrow> ('c \<times> task_result) list" where
  "each action svcs xs = map (\<lambda>i. ProtoService_Run action (svcs ! i) (xs ! i)) [0..<length svcs]"

lemma length_each [simp]: "length (each action svcs xs) = length svcs"
  by (simp add: each_def)

lemma nth_each [simp]: "i < length svcs \<Longrightarrow> each action svcs xs ! i = ProtoService_Run action (svcs ! i) (xs ! i)"
  by (simp add: each_def)

lemma RunServiceAction_independent:
  assumes "length xs = length svcs" "complete_order order (length svcs)"
  shows "RunServiceAction reporter background order (independent svcs) action xs =
    (map fst (each action svcs xs), map (recovered \<circ> snd) (each action svcs xs),
     if action = SERVICE_ROLLBACK \<and> reporter
     then [ReportErrors (independent svcs) (map (recovered \<circ> snd) (each action svcs xs))] else [])"
  using assms
  by (simp add: RunServiceAction_def tasks_independent Run_schedule_independent complete_order_def
      each_def comp_def)

lemma recovered_None [simp]: "recovered r = None \<longleftrightarrow> r = Returned None"
  by (cases r) (auto simp: recovered_def)

lemma recovered_Returned [simp]: "recovered (Returned e) = e"
  by (simp add: recovered_def)

lemma AnyError_recovered:
  "AnyError (map (recovered \<circ> snd) rs) \<longleftrightarrow> (\<exists>r \<in> set rs. snd r \<noteq> Returned None)"
  by (induction rs) (auto simp: AnyError_iff)

definition run_spawned ::
  "bool \<Rightarrow> nat list \<Rightarrow> ('c list, 'd) spawned list \<Rightarrow> 'c list \<Rightarrow> 'c list" where
  "run_spawned reporter order sp xs =
     fold (\<lambda>g xs. case g of RollbackStages stages \<Rightarrow> run_rollback reporter background (\<lambda>_. order) 0 stages xs
       | ReportErrors _ _ \<Rightarrow> xs) sp xs"

definition plain_opts :: "('s, 'd) call_opts" where
  "plain_opts = \<lparr>SkipRollback = False, OnActionError = None, OnStageStart = None\<rparr>"

definition plain_ctx :: "'s call_ctx" where
  "plain_ctx = \<lparr>base_ctx = background, dryRun = False, recover = False\<rparr>"

text \<open>The two ways a call can end, after its checks.\<close>

lemma CallServices_independent:
  assumes "length xs = length svcs" "\<And>a. complete_order (sched a) (length svcs)"
  shows "CallServices reporter plain_ctx sched (independent svcs) plain_opts xs =
    (let checks = each SERVICE_CHECK svcs xs; runs = each SERVICE_RUN svcs (map fst checks) in
     if \<exists>r \<in> set checks. snd r \<noteq> Returned None then
       (map fst checks, map (recovered \<circ> snd) checks, Some (new_error ''one or more pre-run checks failed''), [])
     else if \<exists>r \<in> set runs. snd r \<noteq> Returned None then
       (map fst runs, map (recovered \<circ> snd) runs, Some (new_error ''one or more runs failed''),
        [RollbackStages [independent svcs]])
     else (map fst runs, map (recovered \<circ> snd) runs, None, []))"
  using assms
  by (simp add: CallServices_def run_services_def RunServiceAction_independent plain_ctx_def
      plain_opts_def on_action_error_def AnyError_recovered Let_def)

lemma run_spawned_rollback:
  assumes "length xs = length svcs" "complete_order order (length svcs)"
  shows "run_spawned reporter order [RollbackStages [independent svcs]] xs =
    map fst (each SERVICE_ROLLBACK svcs xs)"
  using assms by (simp add: run_spawned_def RunServiceAction_independent)

section \<open>Lengths\<close>

lemma length_Run_loop: "Run_loop ctx tasks order errs s = (s', errs') \<Longrightarrow> length errs' = length errs"
  by (induction order arbitrary: errs s) (auto split: prod.splits)

lemma length_RunServiceAction:
  "RunServiceAction reporter ctx order services action s = (s', errs, sp) \<Longrightarrow> length errs = length services"
  by (auto simp: RunServiceAction_def Run_def dest!: length_Run_loop split: prod.splits)

lemma length_CallServices:
  "CallServices reporter ctx sched services opts s = (s', errs, e, sp) \<Longrightarrow> length errs = length services"
  by (auto simp: CallServices_def run_services_def Let_def dest!: length_RunServiceAction
      split: prod.splits if_splits)

lemma details_of_total: "length errs = length services \<Longrightarrow> details_of s services errs \<noteq> None"
  by (induction s services errs rule: details_of.induct) (auto split: option.splits)

section \<open>Examples\<close>

definition memory_service :: "(((fake_db, claim, string) rest_state), string detail) service" where
  "memory_service = RestApiAsService ClaimName ClaimName (MyServiceApi concat []) ''memory''"

definition create_claim :: "int \<Rightarrow> string \<Rightarrow> (fake_db, claim, string) rest_state" where
  "create_claim available request =
     (\<lparr>fakeDb = [(''b'', \<lparr>ClaimName = ''b'', MemoryInMb = 1\<rparr>)], AvailableMemoryMb = available\<rparr>,
      new_rest_service REST_API_POST ''memory'' request (Some \<lparr>ClaimName = ''a'', MemoryInMb = 3\<rparr>))"

lemma memory_service_undoable:
  "recoverable_service memory_service (\<lambda>s. map_of (fakeDb (fst s)))
     (rest_backend.configured ClaimName db_inv (\<lambda>c. 0 \<le> MemoryInMb c))"
  unfolding memory_service_def by (rule memory_api.undoable.recoverable_service_axioms)

lemma create_claim_configured:
  "0 \<le> available \<Longrightarrow>
     rest_backend.configured ClaimName db_inv (\<lambda>c. 0 \<le> MemoryInMb c) (create_claim available ''a'')"
  by (subst memory_api.configured_def) (auto simp: create_claim_def new_rest_service_def db_inv_def)

definition forward :: "service_action \<Rightarrow> nat list" where
  "forward action = [0, 1]"

lemma forward_complete: "complete_order (forward action) (Suc (Suc 0))"
  by (auto simp: forward_def complete_order_def)

lemmas rest_service_defs = RestApiAsService_def Rest_Check_def Simple_Run_def Rest_Rollback_def
  new_rest_service_def

definition step_service :: "string \<Rightarrow> err option \<Rightarrow> (nat, nat) service" where
  "step_service name e =
     \<lparr>svc_Name = name, Check = SimpleService_Check, Recover = Recoverable_Recover None,
      svc_Run = (\<lambda>s. (Suc s, Returned e)), Rollback = SimpleService_Rollback,
      GetResponse = (\<lambda>s e. Some s)\<rparr>"

section \<open>Properties\<close>

text \<open>
  C31. All or nothing: when services that can be undone and do not interfere are called, either
  every check and every run has succeeded, or an error is reported and, once the goroutines the
  call leaves behind have run, the world is as it was before, whatever the schedules.
\<close>

theorem CallServices_all_or_nothing:
  assumes "length xs = length svcs" "\<And>a. complete_order (sched a) (length svcs)"
    and "complete_order order (length svcs)"
    and "\<forall>i < length svcs. recoverable_service (svcs ! i) view ready \<and> ready (xs ! i)"
    and "CallServices reporter plain_ctx sched (independent svcs) plain_opts xs = (xs', errs, e, sp)"
  shows "case e of
      None \<Rightarrow> sp = [] \<and> (\<forall>i < length svcs. \<exists>c. Check (svcs ! i) (xs ! i) = (c, Returned None) \<and>
        svc_Run (svcs ! i) c = (xs' ! i, Returned None))
    | Some _ \<Rightarrow> map view (run_spawned reporter order sp xs') = map view xs"
proof -
  let ?checks = "each SERVICE_CHECK svcs xs"
  let ?runs = "each SERVICE_RUN svcs (map fst ?checks)"
  note call = assms(5) [unfolded CallServices_independent [OF assms(1,2)] Let_def]
  consider (check) "\<exists>r \<in> set ?checks. snd r \<noteq> Returned None"
    | (run) "\<forall>r \<in> set ?checks. snd r = Returned None" "\<exists>r \<in> set ?runs. snd r \<noteq> Returned None"
    | (ok) "\<forall>r \<in> set ?checks. snd r = Returned None" "\<forall>r \<in> set ?runs. snd r = Returned None"
    by blast
  then show ?thesis
  proof cases
    case check
    with call have "xs' = map fst ?checks" "sp = []" "e \<noteq> None" by auto
    moreover have "view (fst (Check (svcs ! i) (xs ! i))) = view (xs ! i)" if "i < length svcs" for i
      using assms(4) that by (blast intro: recoverable_service.check)
    then have "map view (map fst ?checks) = map view xs"
      using assms(1) by (simp add: list_eq_iff_nth_eq ProtoService_Run_def)
    ultimately show ?thesis by (auto simp: run_spawned_def)
  next
    case run
    with call have e: "xs' = map fst ?runs" "sp = [RollbackStages [independent svcs]]" "e \<noteq> None"
      by auto
    have "view (fst (Rollback (svcs ! i) (xs' ! i))) = view (xs ! i)" if i: "i < length svcs" for i
    proof -
      obtain c where c: "Check (svcs ! i) (xs ! i) = (c, Returned None)"
      proof
        have "snd (?checks ! i) = Returned None" using run(1) i by (metis length_each nth_mem)
        then show "Check (svcs ! i) (xs ! i) = (fst (Check (svcs ! i) (xs ! i)), Returned None)"
          using i by (simp add: ProtoService_Run_def prod_eq_iff)
      qed
      obtain c2 r where r: "svc_Run (svcs ! i) c = (c2, r)" by (cases "svc_Run (svcs ! i) c")
      have "recoverable_service (svcs ! i) view ready" "ready (xs ! i)" using assms(4) i by simp_all
      then have "view (fst (Rollback (svcs ! i) c2)) = view (xs ! i)"
        using c r by (rule recoverable_service.undo)
      then show ?thesis using c r i by (simp add: e(1) ProtoService_Run_def)
    qed
    then have "map view (run_spawned reporter order sp xs') = map view xs"
      using assms(1) run_spawned_rollback [of xs' svcs order reporter] assms(3)
      by (simp add: list_eq_iff_nth_eq e(1,2) ProtoService_Run_def)
    with e(3) show ?thesis by auto
  next
    case ok
    with call have e: "xs' = map fst ?runs" "sp = []" "e = None" by auto
    have "\<exists>c. Check (svcs ! i) (xs ! i) = (c, Returned None) \<and> svc_Run (svcs ! i) c = (xs' ! i, Returned None)"
      if i: "i < length svcs" for i
    proof -
      have "snd (?checks ! i) = Returned None" "snd (?runs ! i) = Returned None"
        using ok i by (metis length_each nth_mem)+
      then show ?thesis using i by (auto simp: e(1) ProtoService_Run_def intro!: exI prod_eqI)
    qed
    with e show ?thesis by simp
  qed
qed

theorem CallServices_all_or_nothing_witness:
  "\<exists>xs' errs e sp. CallServices True plain_ctx forward (independent [memory_service, memory_service])
      plain_opts [create_claim 5 ''a'', create_claim 2 ''a''] = (xs', errs, Some e, sp) \<and>
    map_of (fakeDb (fst (xs' ! 0))) ''a'' \<noteq> None \<and>
    map (\<lambda>s. map_of (fakeDb (fst s))) (run_spawned True [1, 0] sp xs') =
      [map_of (fakeDb (fst (create_claim 5 ''a''))), map_of (fakeDb (fst (create_claim 2 ''a'')))]"
proof -
  let ?xs = "[create_claim 5 ''a'', create_claim 2 ''a'']"
  let ?svcs = "[memory_service, memory_service]"
  have len: "length ?xs = length ?svcs" by simp
  have o: "complete_order [1, 0] (length ?svcs)" by (auto simp: complete_order_def)
  have fc: "complete_order (forward a) (length ?svcs)" for a using forward_complete by simp
  have "\<exists>xs' errs e sp. CallServices True plain_ctx forward (independent ?svcs) plain_opts ?xs =
      (xs', errs, Some e, sp) \<and> map_of (fakeDb (fst (xs' ! 0))) ''a'' \<noteq> None"
    unfolding CallServices_independent [OF len fc]
    by (simp add: each_def memory_service_def rest_service_defs example_db_defs create_claim_def
        ProtoService_Run_def Let_def upt_rec)
  then obtain xs' errs e sp where c: "CallServices True plain_ctx forward (independent ?svcs) plain_opts ?xs =
      (xs', errs, Some e, sp)" "map_of (fakeDb (fst (xs' ! 0))) ''a'' \<noteq> None"
    by blast
  have "map (\<lambda>s. map_of (fakeDb (fst s))) (run_spawned True [1, 0] sp xs') =
      map (\<lambda>s. map_of (fakeDb (fst s))) ?xs"
    using CallServices_all_or_nothing [OF len fc o _ c(1), where
        view = "\<lambda>s. map_of (fakeDb (fst s))"
        and ready = "rest_backend.configured ClaimName db_inv (\<lambda>c. 0 \<le> MemoryInMb c)"]
      memory_service_undoable create_claim_configured
    by (auto simp: less_Suc_eq)
  with c show ?thesis by auto
qed

text \<open>
  C32. Staged calls: the result says how many stages have run; without an error that is all of them,
  and otherwise the failing stage is the one after them and the goroutine left behind rolls them
  back from the last to the first. The stages behind the failing one are not called: the outcome is
  the same whatever they are.
\<close>

theorem CallStagedServices_rolls_back:
  assumes "CallStagedServices reporter ctx sched stages opts s = (s', n, errs, e, sp)"
    "\<not> SkipRollback opts"
  shows "(e = None \<longrightarrow> n = length stages \<and> sp = []) \<and>
    (e \<noteq> None \<longrightarrow> n < length stages \<and> last sp = RollbackStages (rev (take n stages)) \<and>
       set (butlast sp) \<subseteq> {RollbackStages [stages ! n]} \<and>
       (\<forall>rest. CallStagedServices reporter ctx sched (take (Suc n) stages @ rest) opts s = (s', n, errs, e, sp)))"
proof -
  have loop: "(e = None \<longrightarrow> n = length stages \<and> sp = []) \<and>
    (e \<noteq> None \<longrightarrow> n < length stages \<and> last sp = RollbackStages (rev (take n stages)) \<and>
       set (butlast sp) \<subseteq> {RollbackStages [stages ! n]} \<and>
       (\<forall>rest. CallStaged_loop reporter ctx sched (take (Suc n) stages @ rest) opts i
          (take (Suc n - i) todo @ rest) s = (s', n, errs, e, sp)) \<and> i \<le> n)"
    if "CallStaged_loop reporter ctx sched stages opts i todo s = (s', n, errs, e, sp)"
      "drop i stages = todo" "i \<le> length stages" for i todo s
    using that
  proof (induction todo arbitrary: i s)
    case (Cons stage todo)
    let ?s = "case OnStageStart opts of None \<Rightarrow> s | Some f \<Rightarrow> f stage s"
    obtain s1 errs1 e1 sp1 where call: "CallServices reporter ctx (sched i) stage opts ?s = (s1, errs1, e1, sp1)"
      by (metis prod_cases4)
    from Cons.prems(2) have i: "i < length stages" "stages ! i = stage" "drop (Suc i) stages = todo"
      by (metis drop_eq_Nil2 leI list.distinct(1), metis nth_via_drop, metis drop_Suc list.sel(3) tl_drop)
    show ?case
    proof (cases e1)
      case None
      then have l: "CallStaged_loop reporter ctx sched stages opts (Suc i) todo s1 = (s', n, errs, e, sp)"
        using Cons.prems(1) call by simp
      have "take (Suc n - i) (stage # todo) = stage # take (Suc n - Suc i) todo" if "Suc i \<le> n"
        using that by (simp add: take_Cons')
      with Cons.IH [OF l i(3)] i(1) None call show ?thesis by auto
    next
      case (Some x)
      have "set sp1 \<subseteq> {RollbackStages [stage]}"
        using call by (auto simp: CallServices_def run_services_def Let_def split: prod.splits if_splits)
      with Cons.prems(1) Some call i assms(2) show ?thesis by (auto simp: take_Suc_conv_app_nth)
    qed
  qed simp
  show ?thesis
    using loop [of 0 stages s] assms(1) by (auto simp: CallStagedServices_def)
qed

theorem CallStagedServices_rolls_back_witness:
  "\<exists>s' errs e sp. CallStagedServices True plain_ctx (\<lambda>_ _. [0])
      [[step_service ''a'' None], [step_service ''b'' (Some (new_error ''full''))], [step_service ''c'' None]]
      plain_opts 0 = (s', 1, errs, Some e, sp) \<and> s' = 2 \<and>
    last sp = RollbackStages [[step_service ''a'' None]]"
proof -
  let ?stages = "[[step_service ''a'' None], [step_service ''b'' (Some (new_error ''full''))], [step_service ''c'' None]]"
  obtain errs e sp where c: "CallStagedServices True plain_ctx (\<lambda>_ _. [0]) ?stages plain_opts 0 =
      (2, 1, errs, Some e, sp)"
    by (simp add: CallStagedServices_def CallServices_def run_services_def RunServiceAction_def Run_def
        run_task_def step_service_def SimpleService_Check_def ProtoService_Run_def plain_ctx_def
        plain_opts_def on_action_error_def background_def select_result_def)
  show ?thesis using CallStagedServices_rolls_back [OF c] c by (simp add: plain_opts_def)
qed

text \<open>
  A reply never panics and its status is 200 exactly when the call has succeeded, and 500
  otherwise, with the error as its text.
\<close>

theorem CallServicesAndReply_answers:
  "\<exists>r. fst (snd (CallServicesAndReply reporter ctx sched services opts s)) = Some r \<and>
    (let e = fst (snd (snd (CallServices reporter ctx sched services opts s))) in
     fst r = (if e = None then StatusOK else StatusInternalServerError) \<and> resp_Status (snd r) = e)"
proof -
  obtain s' errs e sp where c: "CallServices reporter ctx sched services opts s = (s', errs, e, sp)"
    by (metis prod_cases4)
  obtain ds where "details_of s' services errs = Some ds"
    using details_of_total [OF length_CallServices [OF c]] by blast
  then show ?thesis
    by (simp add: CallServicesAndReply_def c GenerateResponse_def generateResponseContainer_def)
qed

text \<open>
  Creating an object that exists through a service that does not name it: over an API that
  implements a map, the check passes, the creation fails, and the rollback deletes the object that
  was there before, which somebody else has created.
\<close>

theorem rollback_deletes_existing_object:
  assumes "rest_backend api name_of objects api_inv ok"
    and "api_inv a" "ok obj" "objects a (name_of obj) = Some old" "objects a name = None"
    and "complete_order order 1" "\<And>action. complete_order (sched action) 1"
  shows "\<exists>xs' errs e sp.
    CallServices reporter plain_ctx sched (independent [RestApiAsService name_of as_detail api apiName])
      plain_opts [(a, new_rest_service REST_API_POST apiName name (Some obj))] = (xs', errs, Some e, sp) \<and>
    map (\<lambda>c. objects (fst c)) (run_spawned reporter order sp xs') = [(objects a)(name_of obj := None)]"
proof -
  let ?svc = "RestApiAsService name_of as_detail api apiName"
  let ?c = "(a, new_rest_service REST_API_POST apiName name (Some obj))"
  obtain c1 c2 e where c: "Check ?svc ?c = (c1, Returned None)" "svc_Run ?svc c1 = (c2, Returned (Some e))"
      "objects (fst (fst (Rollback ?svc c2))) = (objects a)(name_of obj := None)"
    using rest_backend.create_without_name [where as_detail = as_detail and apiName = apiName, OF assms(1-5) refl]
    by (auto simp: RestApiAsService_def)
  have "each SERVICE_CHECK [?svc] [?c] = [(c1, Returned None)]"
    "each SERVICE_RUN [?svc] [c1] = [(c2, Returned (Some e))]"
    "map fst (each SERVICE_ROLLBACK [?svc] [c2]) = [fst (Rollback ?svc c2)]"
    using c by (simp_all add: each_def ProtoService_Run_def)
  with c(3) assms(6,7) show ?thesis
    by (simp add: CallServices_independent run_spawned_rollback)
qed

theorem rollback_deletes_existing_object_witness:
  "\<exists>xs' errs e sp.
    CallServices True plain_ctx (\<lambda>_. [0])
      (independent [RestApiAsService ClaimName ClaimName (MyServiceApi concat []) ''memory''])
      plain_opts [(\<lparr>fakeDb = [(''b'', \<lparr>ClaimName = ''b'', MemoryInMb = 1\<rparr>)], AvailableMemoryMb = 5\<rparr>,
        new_rest_service REST_API_POST ''memory'' [] (Some \<lparr>ClaimName = ''b'', MemoryInMb = 3\<rparr>))] =
      (xs', errs, Some e, sp) \<and>
    map (\<lambda>c. map_of (fakeDb (fst c))) (run_spawned True [0] sp xs') = [Map.empty]"
proof -
  let ?db = "\<lparr>fakeDb = [(''b'', \<lparr>ClaimName = ''b'', MemoryInMb = 1\<rparr>)], AvailableMemoryMb = 5\<rparr>"
  have o: "complete_order [0] 1" by (auto simp: complete_order_def)
  have db: "db_inv ?db" by (auto simp: db_inv_def)
  have "(map_of (fakeDb ?db))(''b'' := None) = Map.empty" by auto
  then show ?thesis
    using rollback_deletes_existing_object [where obj = "\<lparr>ClaimName = ''b'', MemoryInMb = 3\<rparr>"
        and old = "\<lparr>ClaimName = ''b'', MemoryInMb = 1\<rparr>" and name = "[]" and order = "[0]"
        and sched = "\<lambda>_. [0]" and reporter = True and apiName = "''memory''" and as_detail = ClaimName,
        OF memory_api.rest_backend_axioms [where show_names = concat] db] o
    by simp
qed

end
