(* ===== verification/Status.thy ===== *)
theory Status
  imports Orchestration Access
begin

text \<open>
  What goes with orchestrated resources: \<open>pkg/orchestration/audit\<close>, the status with its history of
  conditions (\<open>status\<close>), and services whose actions become workflows (\<open>service\<close>).

  Times are integers and \<open>time.Now()\<close> is the argument \<open>now\<close>; the trace identifier of the context is
  an argument too. Copies of a status share the array of conditions in Go; here a status is a value.
\<close>

section \<open>Audits and conditions\<close>

record audit =
  audit_Timestamp :: int
  RequestedBy :: string
  Source :: string
  Controller :: string

definition audit_New :: "int \<Rightarrow> request_ctx \<Rightarrow> string \<Rightarrow> audit" where
  "audit_New now ctx controllerName =
     \<lparr>audit_Timestamp = now, RequestedBy = acc_Name (GetTrust ctx), Source = acc_Name (GetTrust ctx),
      Controller = controllerName\<rparr>"

record condition =
  cond_State :: string
  Message :: string
  Timestamp :: int
  LastSeen :: "int option"

definition NewCondition :: "int \<Rightarrow> string \<Rightarrow> string list \<Rightarrow> condition" where
  "NewCondition now state optMsg =
     \<lparr>cond_State = state, Message = Opt [] optMsg, Timestamp = now, LastSeen = None\<rparr>"

record rstatus =
  Succeeded :: bool
  State :: string
  TraceID :: string
  CreatedAt :: audit
  UpdatedAt :: audit
  Conditions :: "condition list"

definition NewStatus :: "int \<Rightarrow> string \<Rightarrow> audit \<Rightarrow> audit \<Rightarrow> string \<Rightarrow> rstatus" where
  "NewStatus now traceID createdAt updatedAt initialState =
     \<lparr>Succeeded = False, State = initialState, TraceID = traceID, CreatedAt = createdAt,
      UpdatedAt = updatedAt, Conditions = [NewCondition now initialState []]\<rparr>"

definition LastStatusMsg :: "rstatus \<Rightarrow> string" where
  "LastStatusMsg s = (case Conditions s of [] \<Rightarrow> [] | c # _ \<Rightarrow> Message c)"

text \<open>\<open>None\<close>: \<open>s.Conditions[0]\<close> is out of range.\<close>

definition status_Update :: "int \<Rightarrow> string \<Rightarrow> bool \<Rightarrow> string list \<Rightarrow> rstatus \<Rightarrow> rstatus option" where
  "status_Update now state isSucceeded optionalMsg s =
     (let msg = Opt [] optionalMsg in
      if State s = state \<and> msg = [] then Some s
      else if State s = state \<and> LastStatusMsg s = msg then
        (case Conditions s of
           [] \<Rightarrow> None
         | c # cs \<Rightarrow> Some (s\<lparr>Conditions := c\<lparr>LastSeen := Some now\<rparr> # cs\<rparr>))
      else Some (s\<lparr>Succeeded := isSucceeded, State := state,
        Conditions := NewCondition now state [msg] # Conditions s\<rparr>))"

definition SwitchState :: "int \<Rightarrow> string \<Rightarrow> string \<Rightarrow> rstatus \<Rightarrow> rstatus option" where
  "SwitchState now state msg s =
     (if State s = state then Some s else status_Update now state (Succeeded s) [msg] s)"

definition UpdateProgress :: "int \<Rightarrow> string \<Rightarrow> rstatus \<Rightarrow> rstatus option" where
  "UpdateProgress now msg s = status_Update now (State s) (Succeeded s) [msg] s"

section \<open>Services as workflows\<close>

record ('e, 's) target_service =
  target_Name :: string
  target_Validate :: "'e \<Rightarrow> 's task"
  target_Apply :: "'e \<Rightarrow> 's task"
  target_Delete :: "'e \<Rightarrow> 's task"

datatype target_action = ValidateAction | ApplyAction | DeleteAction | InvalidAction string

fun action_String :: "target_action \<Rightarrow> string" where
  "action_String ValidateAction = ''Validate''"
| "action_String ApplyAction = ''Apply''"
| "action_String DeleteAction = ''Delete''"
| "action_String (InvalidAction a) = a"

text \<open>\<open>None\<close> is the panic for an action that does not exist.\<close>

definition AsActivity ::
  "('e, 's) target_service \<Rightarrow> target_action \<Rightarrow> ('e, 's) activity option" where
  "AsActivity svc action =
     (case action of
        ValidateAction \<Rightarrow> Some (NewActivity (target_Name svc) (target_Validate svc))
      | ApplyAction \<Rightarrow> Some (NewActivity (target_Name svc) (target_Apply svc))
      | DeleteAction \<Rightarrow> Some (NewActivity (target_Name svc) (target_Delete svc))
      | InvalidAction _ \<Rightarrow> None)"

definition NewValidateWorkflow ::
  "'x backoff \<Rightarrow> ('e \<Rightarrow> string) \<Rightarrow> ('e, 's) target_service list \<Rightarrow> ('e, 's, 'x) workflow" where
  "NewValidateWorkflow DefaultBackoff xid svcs =
     NewWorkflow DefaultBackoff xid (action_String ValidateAction)
       (Transform svcs (\<lambda>item. the (AsActivity item ValidateAction)))"

definition NewApplyWorkflow ::
  "'x backoff \<Rightarrow> ('e \<Rightarrow> string) \<Rightarrow> ('e \<Rightarrow> string) \<Rightarrow> ('e, 's) target_service list \<Rightarrow>
    ('e, 's, 'x) workflow" where
  "NewApplyWorkflow DefaultBackoff xid ID svcs =
     WithWorkflowID ID (NewWorkflow DefaultBackoff xid (action_String ApplyAction)
       (Transform svcs (\<lambda>item. the (AsActivity item ApplyAction))))"

definition NewDeleteWorkflow ::
  "'x backoff \<Rightarrow> ('e \<Rightarrow> string) \<Rightarrow> ('e \<Rightarrow> string) \<Rightarrow> ('e, 's) target_service list \<Rightarrow>
    ('e, 's, 'x) workflow" where
  "NewDeleteWorkflow DefaultBackoff xid ID svcs =
     WithWorkflowID ID (NewWorkflow DefaultBackoff xid (action_String DeleteAction)
       (Transform svcs (\<lambda>item. the (AsActivity item DeleteAction))))"

lemma workflow_chains:
  "wf_chain (NewValidateWorkflow b xid svcs) = map (\<lambda>s. \<lparr>act_name = target_Name s, act_run = target_Validate s\<rparr>) svcs"
  "wf_chain (NewApplyWorkflow b xid i svcs) = map (\<lambda>s. \<lparr>act_name = target_Name s, act_run = target_Apply s\<rparr>) svcs"
  "wf_chain (NewDeleteWorkflow b xid i svcs) = map (\<lambda>s. \<lparr>act_name = target_Name s, act_run = target_Delete s\<rparr>) svcs"
  by (simp_all add: NewValidateWorkflow_def NewApplyWorkflow_def NewDeleteWorkflow_def NewWorkflow_def
      WithWorkflowID_def Transform_def AsActivity_def NewActivity_def)

text \<open>Deleting goes through the services in the order in which they were applied, not backwards.\<close>

lemma delete_in_apply_order:
  "map act_name (wf_chain (NewDeleteWorkflow b xid i svcs)) = map act_name (wf_chain (NewApplyWorkflow b xid i svcs))"
  by (simp add: workflow_chains)

section \<open>The history of a status\<close>

datatype status_call = CallUpdate string bool "string list" | CallSwitch string string | CallProgress string

fun status_step :: "int \<times> status_call \<Rightarrow> rstatus \<Rightarrow> rstatus option" where
  "status_step (now, CallUpdate state ok msg) s = status_Update now state ok msg s"
| "status_step (now, CallSwitch state msg) s = SwitchState now state msg s"
| "status_step (now, CallProgress msg) s = UpdateProgress now msg s"

fun status_run :: "(int \<times> status_call) list \<Rightarrow> rstatus \<Rightarrow> rstatus option" where
  "status_run [] s = Some s"
| "status_run (c # cs) s = (case status_step c s of None \<Rightarrow> None | Some s \<Rightarrow> status_run cs s)"

definition label :: "condition \<Rightarrow> string \<times> string" where
  "label c = (cond_State c, Message c)"

text \<open>
  The newest condition is that of the current state; the ones behind it are older, and no two
  neighbours say the same.
\<close>

definition wf_status :: "rstatus \<Rightarrow> bool" where
  "wf_status s \<longleftrightarrow>
     (\<exists>c cs. Conditions s = c # cs \<and> cond_State c = State s) \<and>
     sorted_wrt (\<ge>) (map Timestamp (Conditions s)) \<and>
     distinct_adj (map label (Conditions s))"

definition newest :: "rstatus \<Rightarrow> int" where
  "newest s = Timestamp (hd (Conditions s))"

text \<open>What a call does: nothing, a new sighting of the newest condition, or a new condition.\<close>

definition extends :: "rstatus \<Rightarrow> rstatus \<Rightarrow> bool" where
  "extends s s' \<longleftrightarrow> (\<exists>new. map label (Conditions s') = new @ map label (Conditions s)) \<and>
     CreatedAt s' = CreatedAt s \<and> UpdatedAt s' = UpdatedAt s"

lemma extends_refl: "extends s s"
  by (simp add: extends_def)

lemma extends_trans: "extends a b \<Longrightarrow> extends b c \<Longrightarrow> extends a c"
  unfolding extends_def by (metis append.assoc)

lemma label_LastSeen [simp]: "label (c\<lparr>LastSeen := x\<rparr>) = label c"
  by (simp add: label_def)

lemma status_Update_keeps:
  assumes "wf_status s" "newest s \<le> now"
  shows "\<exists>s'. status_Update now state ok msg s = Some s' \<and> wf_status s' \<and> newest s' \<le> now \<and> extends s s'"
proof -
  obtain c cs where c: "Conditions s = c # cs" "cond_State c = State s"
    using assms(1) by (auto simp: wf_status_def)
  have sorted: "\<forall>x \<in> set cs. Timestamp x \<le> Timestamp c" "Timestamp c \<le> now"
    using assms c by (auto simp: wf_status_def newest_def)
  show ?thesis
  proof (cases "State s = state \<and> (Opt [] msg = [] \<or> LastStatusMsg s = Opt [] msg)")
    case True
    then show ?thesis using assms c
      by (auto simp: status_Update_def Let_def wf_status_def newest_def extends_def)
  next
    case False
    then have "label (NewCondition now state [Opt [] msg]) \<noteq> label c"
      using c by (auto simp: label_def NewCondition_def LastStatusMsg_def)
    with False show ?thesis using assms c sorted
      by (auto simp: status_Update_def Let_def wf_status_def newest_def extends_def NewCondition_def)
  qed
qed

lemma status_step_keeps:
  assumes "wf_status s" "newest s \<le> now"
  shows "\<exists>s'. status_step (now, c) s = Some s' \<and> wf_status s' \<and> newest s' \<le> now \<and> extends s s'"
  using assms status_Update_keeps [OF assms] extends_refl
  by (cases c) (auto simp: SwitchState_def UpdateProgress_def)

section \<open>Properties\<close>

text \<open>
  C33. Whatever is called on a new status while time goes on, no call panics; the newest condition
  is that of the current state, the conditions are ordered by time and no two neighbours say the
  same; nothing of the history is lost, and the audits stay as they were.
\<close>

theorem status_history:
  assumes "sorted (start # map fst calls)"
  shows "\<exists>s'. status_run calls (NewStatus start traceID createdAt updatedAt initialState) = Some s' \<and>
    wf_status s' \<and> extends (NewStatus start traceID createdAt updatedAt initialState) s'"
proof -
  have run: "\<exists>s'. status_run calls s = Some s' \<and> wf_status s' \<and> extends s s'"
    if "wf_status s" "newest s \<le> t" "sorted (t # map fst calls)" for s t
    using that
  proof (induction calls arbitrary: s t)
    case Nil
    then show ?case by (simp add: extends_refl)
  next
    case (Cons call calls)
    obtain now c where call: "call = (now, c)" by (cases call)
    with Cons.prems have "newest s \<le> now" by simp
    then obtain s1 where s1: "status_step call s = Some s1" "wf_status s1" "newest s1 \<le> now" "extends s s1"
      using status_step_keeps Cons.prems(1) call by blast
    moreover have "sorted (now # map fst calls)" using Cons.prems(3) call by simp
    ultimately show ?case using Cons.IH [of s1 now] extends_trans [OF s1(4)] by auto
  qed
  show ?thesis
    by (rule run [OF _ _ assms]) (simp_all add: wf_status_def NewStatus_def NewCondition_def newest_def)
qed

definition example_audit :: audit where
  "example_audit = \<lparr>audit_Timestamp = 0, RequestedBy = [], Source = [], Controller = ''c''\<rparr>"

theorem status_history_witness:
  "\<exists>s'. status_run [(1, CallUpdate ''Running'' False []), (2, CallProgress ''half''), (2, CallProgress ''half''),
      (3, CallSwitch ''Ready'' ''done'')] (NewStatus 0 ''t'' example_audit example_audit ''New'') = Some s' \<and>
    wf_status s' \<and> State s' = ''Ready'' \<and> length (Conditions s') = 4"
proof -
  let ?calls = "[(1, CallUpdate ''Running'' False []), (2, CallProgress ''half''), (2, CallProgress ''half''),
      (3, CallSwitch ''Ready'' ''done'')]"
  obtain s' where "status_run ?calls (NewStatus 0 ''t'' example_audit example_audit ''New'') = Some s'" "wf_status s'"
    using status_history [of 0 ?calls "''t''" example_audit example_audit "''New''"] by auto
  moreover from this(1) have "State s' = ''Ready'' \<and> length (Conditions s') = 4"
    by (auto simp: status_Update_def SwitchState_def UpdateProgress_def NewStatus_def NewCondition_def
        LastStatusMsg_def Let_def)
  ultimately show ?thesis by blast
qed

text \<open>
  An update that reports success for the state the status is in already, without a message or with
  the same one, leaves \<open>Succeeded\<close> as it was.
\<close>

lemma success_of_same_state_is_dropped:
  assumes "status_Update now (State s) ok msg s = Some s'" "Opt [] msg \<in> {[], LastStatusMsg s}"
  shows "Succeeded s' = Succeeded s"
  using assms by (auto simp: status_Update_def Let_def split: if_splits list.splits)

end
