(* ===== verification/HTTPServer.thy ===== *)
theory HTTPServer
  imports Tls Graceful Strings
begin

text \<open>
  The HTTP server of \<open>pkg/httpserver\<close>: configuration, flags, options, and running with a graceful
  shutdown.

  Handlers are of an arbitrary type \<open>'h\<close>. \<open>http_world\<close> is what \<open>net/http\<close> does: when listening ends
  by itself and how, when the connections have become idle after a shutdown (\<open>None\<close> is never), the
  error of closing the listeners, and how ties are broken. Times are nanoseconds as in \<open>Graceful\<close>.
\<close>

section \<open>Configuration\<close>

definition http_DefaultHost :: string where "http_DefaultHost = []"
definition http_DefaultPort :: u16 where "http_DefaultPort = 8089"
definition DefaultReadTimeout :: int where "DefaultReadTimeout = 10000000000"
definition DefaultReadHeaderTimeout :: int where "DefaultReadHeaderTimeout = 10000000000"
definition DefaultWriteTimeout :: int where "DefaultWriteTimeout = 10000000000"
definition http_DefaultShutdownTimeout :: int where "http_DefaultShutdownTimeout = 30000000000"
definition DefaultMaxHeaderBytes :: int where "DefaultMaxHeaderBytes = 1048576"

record http_config =
  ht_Host :: string
  ht_Port :: u16
  ht_ReadTimeout :: int
  ht_ReadHeaderTimeout :: int
  ht_WriteTimeout :: int
  ht_ShutdownTimeout :: int
  ht_MaxHeaderBytes :: int

definition http_ApplyDefaults :: "http_config \<Rightarrow> http_config" where
  "http_ApplyDefaults c =
     c\<lparr>ht_Host := (if ht_Host c = [] then http_DefaultHost else ht_Host c),
       ht_Port := (if ht_Port c = 0 then http_DefaultPort else ht_Port c),
       ht_ReadTimeout := (if ht_ReadTimeout c = 0 then DefaultReadTimeout else ht_ReadTimeout c),
       ht_ReadHeaderTimeout :=
         (if ht_ReadHeaderTimeout c = 0 then DefaultReadHeaderTimeout else ht_ReadHeaderTimeout c),
       ht_WriteTimeout := (if ht_WriteTimeout c = 0 then DefaultWriteTimeout else ht_WriteTimeout c),
       ht_ShutdownTimeout :=
         (if ht_ShutdownTimeout c = 0 then http_DefaultShutdownTimeout else ht_ShutdownTimeout c),
       ht_MaxHeaderBytes := (if ht_MaxHeaderBytes c = 0 then DefaultMaxHeaderBytes else ht_MaxHeaderBytes c)\<rparr>"

definition http_DefaultConfig :: http_config where
  "http_DefaultConfig = http_ApplyDefaults
     \<lparr>ht_Host = [], ht_Port = 0, ht_ReadTimeout = 0, ht_ReadHeaderTimeout = 0, ht_WriteTimeout = 0,
      ht_ShutdownTimeout = 0, ht_MaxHeaderBytes = 0\<rparr>"

definition http_RegisterFlags :: "(string, flag_value) gomap" where
  "http_RegisterFlags =
     (let c = http_DefaultConfig in
     [(''http-host'', FString (ht_Host c)),
      (''http-port'', FPort (ht_Port c)),
      (''http-read-timeout'', FDuration (ht_ReadTimeout c)),
      (''http-read-header-timeout'', FDuration (ht_ReadHeaderTimeout c)),
      (''http-write-timeout'', FDuration (ht_WriteTimeout c)),
      (''http-shutdown-timeout'', FDuration (ht_ShutdownTimeout c)),
      (''http-max-header-bytes'', FInt (ht_MaxHeaderBytes c))])"

definition http_BindFlags :: "flags \<Rightarrow> http_config \<Rightarrow> err + http_config" where
  "http_BindFlags fs c = fold (\<lambda>bind. bind)
     [bind_flag (get_string fs ''http-host'') (\<lambda>x c. c\<lparr>ht_Host := x\<rparr>),
      bind_flag (get_port fs ''http-port'') (\<lambda>x c. c\<lparr>ht_Port := x\<rparr>),
      bind_flag (get_duration fs ''http-read-timeout'') (\<lambda>x c. c\<lparr>ht_ReadTimeout := x\<rparr>),
      bind_flag (get_duration fs ''http-read-header-timeout'') (\<lambda>x c. c\<lparr>ht_ReadHeaderTimeout := x\<rparr>),
      bind_flag (get_duration fs ''http-write-timeout'') (\<lambda>x c. c\<lparr>ht_WriteTimeout := x\<rparr>),
      bind_flag (get_duration fs ''http-shutdown-timeout'') (\<lambda>x c. c\<lparr>ht_ShutdownTimeout := x\<rparr>),
      bind_flag (get_int fs ''http-max-header-bytes'') (\<lambda>x c. c\<lparr>ht_MaxHeaderBytes := x\<rparr>)]
     (Inr c)"

text \<open>A nil configuration is \<open>None\<close>.\<close>

definition http_Validate :: "http_config option \<Rightarrow> err option" where
  "http_Validate c =
     (case c of
        None \<Rightarrow> Some (new_error ''http server config is nil'')
      | Some c \<Rightarrow>
          if unat (ht_Port c) > 65535 then Some (new_error ''port must be between 0 and 65535'')
          else if ht_ReadTimeout c < 0 then Some (new_error ''read timeout must be non-negative'')
          else if ht_ReadHeaderTimeout c < 0 then Some (new_error ''read header timeout must be non-negative'')
          else if ht_WriteTimeout c < 0 then Some (new_error ''write timeout must be non-negative'')
          else if ht_ShutdownTimeout c < 0 then Some (new_error ''shutdown timeout must be non-negative'')
          else if ht_MaxHeaderBytes c \<le> 0 then Some (new_error ''max header bytes must be positive'')
          else None)"

section \<open>Servers and options\<close>

record ('h, 'c, 'k) http_server =
  hs_Addr :: string
  hs_ReadTimeout :: int
  hs_ReadHeaderTimeout :: int
  hs_WriteTimeout :: int
  hs_MaxHeaderBytes :: int
  hs_Handler :: "'h option"
  hs_TLSConfig :: "('c, 'k) gotls option"

text \<open>
  The error channel: the one a server is made with, on which nothing is ever sent, or that of a run
  in the background, with the time at which its goroutine ends (if it does) and the error it sends
  before it closes the channel.
\<close>

datatype err_chan = NeverSent | FromRun "(int \<times> err option) option"

record ('h, 'c, 'k) server =
  sv_Server :: "('h, 'c, 'k) http_server option"
  sv_shutdownTimeout :: int
  sv_errChan :: "err_chan option"

definition WithHTTPServer :: "('h, 'c, 'k) http_server option \<Rightarrow> ('h, 'c, 'k) server cfg_option" where
  "WithHTTPServer srv s =
     (if srv = None then Inl (new_error ''http.Server cannot be nil'') else Inr (s\<lparr>sv_Server := srv\<rparr>))"

definition WithShutdownTimeout :: "int \<Rightarrow> ('h, 'c, 'k) server cfg_option" where
  "WithShutdownTimeout timeout s =
     (if timeout \<le> 0 then Inl (new_error ''shutdownTimeout must be a positive duration'')
      else Inr (s\<lparr>sv_shutdownTimeout := timeout\<rparr>))"

definition WithHandler :: "'h option \<Rightarrow> ('h, 'c, 'k) server cfg_option" where
  "WithHandler handler s =
     (case sv_Server s of
        None \<Rightarrow> Inl (new_error ''http.Server is not initialized'')
      | Some srv \<Rightarrow>
          if handler = None then Inl (new_error ''handler cannot be nil'')
          else Inr (s\<lparr>sv_Server := Some (srv\<lparr>hs_Handler := handler\<rparr>)\<rparr>))"

definition WithTLS :: "('c, 'k) gotls option \<Rightarrow> ('h, 'c, 'k) server cfg_option" where
  "WithTLS tlsConfig s =
     (case sv_Server s of
        None \<Rightarrow> Inl (new_error ''http.Server is not initialized'')
      | Some srv \<Rightarrow>
          (case tlsConfig of
             None \<Rightarrow> Inl (new_error ''tls.Config cannot be nil'')
           | Some _ \<Rightarrow> Inr (s\<lparr>sv_Server := Some (srv\<lparr>hs_TLSConfig := tlsConfig\<rparr>)\<rparr>)))"

definition WithAddr :: "string \<Rightarrow> ('h, 'c, 'k) server cfg_option" where
  "WithAddr addr s =
     (case sv_Server s of
        None \<Rightarrow> Inl (new_error ''http.Server is not initialized'')
      | Some srv \<Rightarrow>
          if addr = [] then Inl (new_error ''address cannot be empty'')
          else Inr (s\<lparr>sv_Server := Some (srv\<lparr>hs_Addr := addr\<rparr>)\<rparr>))"

definition server_Validate :: "('h, 'c, 'k) server \<Rightarrow> err option" where
  "server_Validate h =
     (case sv_Server h of
        None \<Rightarrow> Some (new_error ''httpServer cannot be nil'')
      | Some srv \<Rightarrow>
          if sv_shutdownTimeout h \<le> 0 then Some (new_error ''shutdownTimeout must be a positive duration'')
          else if hs_Addr srv = [] then Some (new_error ''httpServer address cannot be empty'')
          else if hs_ReadHeaderTimeout srv \<le> 0 then
            Some (new_error ''httpServer ReadHeaderTimeout must be a positive duration'')
          else if hs_WriteTimeout srv \<le> 0 then
            Some (new_error ''httpServer WriteTimeout must be a positive duration'')
          else if hs_MaxHeaderBytes srv \<le> 0 then
            Some (new_error ''httpServer MaxHeaderBytes must be a positive integer'')
          else
            (case hs_TLSConfig srv of
               Some t \<Rightarrow>
                 if go_MinVersion t < 0x303 then
                   Some (new_error ''httpServer TLSConfig must have a minimum version of TLS 1.2'')
                 else None
             | None \<Rightarrow> None))"

definition address :: "string \<Rightarrow> u16 \<Rightarrow> string" where
  "address host port = host @ '':'' @ itoa (unat port)"

definition DefaultServerConfig :: "('h, 'c, 'k) server" where
  "DefaultServerConfig =
     \<lparr>sv_Server = Some
        \<lparr>hs_Addr = address http_DefaultHost http_DefaultPort, hs_ReadTimeout = DefaultReadTimeout,
         hs_ReadHeaderTimeout = DefaultReadHeaderTimeout, hs_WriteTimeout = DefaultWriteTimeout,
         hs_MaxHeaderBytes = DefaultMaxHeaderBytes, hs_Handler = None, hs_TLSConfig = None\<rparr>,
      sv_shutdownTimeout = http_DefaultShutdownTimeout, sv_errChan = None\<rparr>"

definition server_ApplyDefaults :: "('h, 'c, 'k) server \<Rightarrow> ('h, 'c, 'k) server" where
  "server_ApplyDefaults h =
     (let srv = (case sv_Server h of
            Some srv \<Rightarrow> srv
          | None \<Rightarrow> \<lparr>hs_Addr = [], hs_ReadTimeout = 0, hs_ReadHeaderTimeout = 0, hs_WriteTimeout = 0,
              hs_MaxHeaderBytes = 0, hs_Handler = None, hs_TLSConfig = None\<rparr>);
          srv = srv
            \<lparr>hs_Addr := (if hs_Addr srv = [] then address http_DefaultHost http_DefaultPort else hs_Addr srv),
             hs_ReadTimeout := (if hs_ReadTimeout srv \<le> 0 then DefaultReadTimeout else hs_ReadTimeout srv),
             hs_ReadHeaderTimeout :=
               (if hs_ReadHeaderTimeout srv \<le> 0 then DefaultReadHeaderTimeout else hs_ReadHeaderTimeout srv),
             hs_WriteTimeout := (if hs_WriteTimeout srv \<le> 0 then DefaultWriteTimeout else hs_WriteTimeout srv),
             hs_MaxHeaderBytes :=
               (if hs_MaxHeaderBytes srv \<le> 0 then DefaultMaxHeaderBytes else hs_MaxHeaderBytes srv)\<rparr>
      in h\<lparr>sv_Server := Some srv,
           sv_shutdownTimeout :=
             (if sv_shutdownTimeout h \<le> 0 then http_DefaultShutdownTimeout else sv_shutdownTimeout h)\<rparr>)"

text \<open>\<open>NewForConfig\<close> fills in the defaults of its caller's configuration, which is the first result.\<close>

definition server_NewForConfig ::
  "http_config \<Rightarrow> ('h, 'c, 'k) server cfg_option option list \<Rightarrow> http_config \<times> (err + ('h, 'c, 'k) server)" where
  "server_NewForConfig cfg opts =
     (let cfg = http_ApplyDefaults cfg in
      (cfg,
       case http_Validate (Some cfg) of
         Some e \<Rightarrow> Inl (Errorf ''validation failed'' [e])
       | None \<Rightarrow>
           (case ApplyOpts
                \<lparr>sv_Server = Some
                   \<lparr>hs_Addr = address (ht_Host cfg) (ht_Port cfg), hs_ReadTimeout = ht_ReadTimeout cfg,
                    hs_ReadHeaderTimeout = ht_ReadHeaderTimeout cfg, hs_WriteTimeout = ht_WriteTimeout cfg,
                    hs_MaxHeaderBytes = ht_MaxHeaderBytes cfg, hs_Handler = None, hs_TLSConfig = None\<rparr>,
                 sv_shutdownTimeout = ht_ShutdownTimeout cfg, sv_errChan = Some NeverSent\<rparr> opts of
              Inl e \<Rightarrow> Inl (Errorf ''failed to apply TLS option'' [e])
            | Inr s \<Rightarrow>
                (case server_Validate s of
                   Some e \<Rightarrow> Inl (Errorf ''validation failed'' [e])
                 | None \<Rightarrow> Inr s))))"

definition server_New ::
  "('h, 'c, 'k) server cfg_option option list \<Rightarrow> err + ('h, 'c, 'k) server" where
  "server_New opts =
     (case snd (server_NewForConfig http_DefaultConfig opts) of
        Inl e \<Rightarrow> Inl (Errorf ''failed to create HTTP server'' [e])
      | Inr s \<Rightarrow> Inr s)"

text \<open>
  \<open>RegisterRoutes\<close> hands the routes to the handler's \<open>Use\<close>, which is there when the handler is a gin
  engine. \<open>None\<close> is a panic.
\<close>

fun RegisterRoutes ::
  "('r \<Rightarrow> 'h \<Rightarrow> 'h option) \<Rightarrow> 'r list \<Rightarrow> ('h, 'c, 'k) server \<Rightarrow> ('h, 'c, 'k) server option" where
  "RegisterRoutes Use [] h = Some h"
| "RegisterRoutes Use (route # routes) h =
     (case sv_Server h of
        None \<Rightarrow> None
      | Some srv \<Rightarrow>
          (case hs_Handler srv of
             None \<Rightarrow> None
           | Some handler \<Rightarrow>
               (case Use route handler of
                  None \<Rightarrow> None
                | Some handler \<Rightarrow>
                    RegisterRoutes Use routes (h\<lparr>sv_Server := Some (srv\<lparr>hs_Handler := Some handler\<rparr>)\<rparr>))))"

section \<open>Running\<close>

record ('h, 'c, 'k) http_world =
  hw_Listen :: "('h, 'c, 'k) http_server \<Rightarrow> bool \<Rightarrow> int \<Rightarrow> (int \<times> err) option"
  hw_drained :: "int \<Rightarrow> int option"
  hw_Close :: "err option"
  hw_fail_first :: bool
  hw_drain_first :: bool
  hw_shutdown_first :: bool

text \<open>\<open>Shutdown\<close>, called at time \<open>s\<close> with a context that ends at \<open>deadline\<close>: when it returns, and what.\<close>

definition Shutdown :: "('h, 'c, 'k) http_world \<Rightarrow> int \<Rightarrow> int \<Rightarrow> int \<times> err option" where
  "Shutdown w s deadline =
     (case hw_drained w s of
        Some d \<Rightarrow>
          if d \<le> s \<or> d < deadline \<or> d = deadline \<and> hw_drain_first w then (max s d, hw_Close w)
          else (max s deadline, Some (Sentinel CtxDeadlineExceeded))
      | None \<Rightarrow> (max s deadline, Some (Sentinel CtxDeadlineExceeded)))"

text \<open>
  The group of the two goroutines, started at \<open>t0\<close>: when both have returned, and the error of the one
  that returned first. Listening ends with an error of its own, or with \<open>ErrServerClosed\<close> at the moment
  the shutdown begins. The deadline of the shutdown is that of a context made at the start.
\<close>

definition run_group ::
  "('h, 'c, 'k) http_world \<Rightarrow> int \<Rightarrow> ('h, 'c, 'k) http_server \<Rightarrow> int \<Rightarrow> int option \<Rightarrow>
   (int \<times> err option) option" where
  "run_group w t0 srv shutdownTimeout c =
     (let deadline = t0 + shutdownTimeout;
          closed = (\<lambda>c. case Shutdown w c deadline of
             (t, None) \<Rightarrow> Some (t, Some (Sentinel HttpErrServerClosed))
           | (t, Some e) \<Rightarrow>
               Some (t, Some (if t = c \<and> hw_shutdown_first w then e else Sentinel HttpErrServerClosed)))
      in case (hw_Listen w srv (hs_TLSConfig srv \<noteq> None) t0, c) of
           (None, None) \<Rightarrow> None
         | (Some (f, e), None) \<Rightarrow> Some (fst (Shutdown w f deadline), Some e)
         | (None, Some c) \<Rightarrow> closed c
         | (Some (f, e), Some c) \<Rightarrow>
             if f < c \<or> f = c \<and> hw_fail_first w then Some (fst (Shutdown w f deadline), Some e)
             else closed c)"

definition run_do ::
  "('h, 'c, 'k) http_world \<Rightarrow> int \<Rightarrow> ('h, 'c, 'k) http_server \<Rightarrow> int \<Rightarrow> err option supervised" where
  "run_do w t0 srv shutdownTimeout c =
     (case run_group w t0 srv shutdownTimeout c of
        None \<Rightarrow> None
      | Some (t, r) \<Rightarrow>
          Some (t, Ends (case r of
              None \<Rightarrow> None
            | Some e \<Rightarrow>
                if is_err e HttpErrServerClosed then None else Some (Errorf ''server error'' [e]))))"

definition http_run ::
  "bool \<Rightarrow> ('h, 'c, 'k) http_world \<Rightarrow> int \<Rightarrow> go_ctx \<Rightarrow> ('h, 'c, 'k) http_server \<Rightarrow> int \<Rightarrow>
   (int \<times> err option) option" where
  "http_run pick w t0 ctx srv shutdownTimeout =
     (if hs_Handler srv = None then Some (t0, Some (new_error ''httpServer handler cannot be nil''))
      else Run pick t0 ctx (run_do w t0 srv shutdownTimeout) [NewRunOptions shutdownTimeout])"

text \<open>A server without its \<open>http.Server\<close> panics, which is the outer \<open>None\<close>.\<close>

definition server_Run ::
  "bool \<Rightarrow> ('h, 'c, 'k) http_world \<Rightarrow> int \<Rightarrow> go_ctx \<Rightarrow> ('h, 'c, 'k) server \<Rightarrow>
   (int \<times> err option) option option" where
  "server_Run pick w t0 ctx h =
     (case sv_Server h of
        None \<Rightarrow> None
      | Some srv \<Rightarrow> Some (http_run pick w t0 ctx srv (sv_shutdownTimeout h)))"

text \<open>In the background the run is a function that is supervised once more; there a panic is an error.\<close>

definition background_do ::
  "bool \<Rightarrow> ('h, 'c, 'k) http_world \<Rightarrow> int \<Rightarrow> ('h, 'c, 'k) server \<Rightarrow> err option supervised" where
  "background_do pick w t0 h c =
     (case server_Run pick w t0 \<lparr>cx_Err = None, cx_Done = c\<rparr> h of
        None \<Rightarrow> Some (t0, Panics)
      | Some r \<Rightarrow> map_option (\<lambda>(t, e). (t, Ends e)) r)"

definition server_RunBackground ::
  "bool \<Rightarrow> ('h, 'c, 'k) http_world \<Rightarrow> int \<Rightarrow> go_ctx \<Rightarrow> ('h, 'c, 'k) server \<Rightarrow> ('h, 'c, 'k) server" where
  "server_RunBackground pick w t0 ctx h =
     h\<lparr>sv_errChan := Some (FromRun (hd (RunBackground pick t0 ctx (background_do pick w t0 h) [])))\<rparr>"

text \<open>
  \<open>Wait\<close>, called at time \<open>t\<close>: when it returns and what (\<open>None\<close>: never), and the server whose channel
  has been read.
\<close>

definition server_Wait ::
  "int \<Rightarrow> ('h, 'c, 'k) server \<Rightarrow> (int \<times> err option) option \<times> ('h, 'c, 'k) server" where
  "server_Wait t h =
     (case sv_errChan h of
        None \<Rightarrow> (Some (t, None), h)
      | Some NeverSent \<Rightarrow> (None, h)
      | Some (FromRun None) \<Rightarrow> (None, h)
      | Some (FromRun (Some (t', e))) \<Rightarrow>
          (Some (max t t', e), h\<lparr>sv_errChan := Some (FromRun (Some (t', None)))\<rparr>))"

text \<open>The functions of the package; \<open>None\<close> is the exit of \<open>log.Fatalf\<close>.\<close>

definition defaultServer :: "('h, 'c, 'k) server option" where
  "defaultServer = (case server_New [] of Inl _ \<Rightarrow> None | Inr s \<Rightarrow> Some s)"

definition withHandler :: "'h \<Rightarrow> 'h option \<Rightarrow> ('h, 'c, 'k) server \<Rightarrow> ('h, 'c, 'k) server" where
  "withHandler DefaultServeMux handler h =
     (let handler = (case handler of None \<Rightarrow> DefaultServeMux | Some handler \<Rightarrow> handler) in
      h\<lparr>sv_Server := map_option (\<lambda>srv. srv\<lparr>hs_Handler := Some handler\<rparr>) (sv_Server h)\<rparr>)"

definition http_Run ::
  "bool \<Rightarrow> ('h, 'c, 'k) http_world \<Rightarrow> 'h \<Rightarrow> int \<Rightarrow> go_ctx \<Rightarrow> 'h option \<Rightarrow> (int \<times> err option) option option" where
  "http_Run pick w DefaultServeMux t0 ctx r =
     (case defaultServer of
        None \<Rightarrow> None
      | Some s \<Rightarrow> server_Run pick w t0 ctx (withHandler DefaultServeMux r s))"

definition http_RunTLS ::
  "bool \<Rightarrow> ('h, 'c, 'k) http_world \<Rightarrow> int \<Rightarrow> go_ctx \<Rightarrow> 'h option \<Rightarrow> ('c, 'k) gotls option \<Rightarrow>
   (int \<times> err option) option option" where
  "http_RunTLS pick w t0 ctx r tlsConfig =
     (case server_New [Some (WithHandler r), Some (WithTLS tlsConfig)] of
        Inl e \<Rightarrow> Some (Some (t0, Some e))
      | Inr s \<Rightarrow> server_Run pick w t0 ctx s)"

section \<open>Flags\<close>

text \<open>The fields of a configuration under the names of their flags.\<close>

definition http_values :: "http_config \<Rightarrow> (string, flag_value) gomap" where
  "http_values c =
     [(''http-host'', FString (ht_Host c)),
      (''http-port'', FPort (ht_Port c)),
      (''http-read-timeout'', FDuration (ht_ReadTimeout c)),
      (''http-read-header-timeout'', FDuration (ht_ReadHeaderTimeout c)),
      (''http-write-timeout'', FDuration (ht_WriteTimeout c)),
      (''http-shutdown-timeout'', FDuration (ht_ShutdownTimeout c)),
      (''http-max-header-bytes'', FInt (ht_MaxHeaderBytes c))]"

lemma bind_http_fields:
  "bind_flag (map_option (\<lambda>v. Inr (f0 v)) flag) (\<lambda>x c. c\<lparr>ht_Host := x\<rparr>) (Inr (c :: http_config)) = Inr (c\<lparr>ht_Host := bound_value f0 flag (ht_Host c)\<rparr>)"
  "bind_flag (map_option (\<lambda>v. Inr (f1 v)) flag) (\<lambda>x c. c\<lparr>ht_Port := x\<rparr>) (Inr (c :: http_config)) = Inr (c\<lparr>ht_Port := bound_value f1 flag (ht_Port c)\<rparr>)"
  "bind_flag (map_option (\<lambda>v. Inr (f2 v)) flag) (\<lambda>x c. c\<lparr>ht_ReadTimeout := x\<rparr>) (Inr (c :: http_config)) = Inr (c\<lparr>ht_ReadTimeout := bound_value f2 flag (ht_ReadTimeout c)\<rparr>)"
  "bind_flag (map_option (\<lambda>v. Inr (f3 v)) flag) (\<lambda>x c. c\<lparr>ht_ReadHeaderTimeout := x\<rparr>) (Inr (c :: http_config)) = Inr (c\<lparr>ht_ReadHeaderTimeout := bound_value f3 flag (ht_ReadHeaderTimeout c)\<rparr>)"
  "bind_flag (map_option (\<lambda>v. Inr (f4 v)) flag) (\<lambda>x c. c\<lparr>ht_WriteTimeout := x\<rparr>) (Inr (c :: http_config)) = Inr (c\<lparr>ht_WriteTimeout := bound_value f4 flag (ht_WriteTimeout c)\<rparr>)"
  "bind_flag (map_option (\<lambda>v. Inr (f5 v)) flag) (\<lambda>x c. c\<lparr>ht_ShutdownTimeout := x\<rparr>) (Inr (c :: http_config)) = Inr (c\<lparr>ht_ShutdownTimeout := bound_value f5 flag (ht_ShutdownTimeout c)\<rparr>)"
  "bind_flag (map_option (\<lambda>v. Inr (f6 v)) flag) (\<lambda>x c. c\<lparr>ht_MaxHeaderBytes := x\<rparr>) (Inr (c :: http_config)) = Inr (c\<lparr>ht_MaxHeaderBytes := bound_value f6 flag (ht_MaxHeaderBytes c)\<rparr>)"
  by (rule bind_field, simp)+

interpretation http_flags: flag_config http_RegisterFlags http_values http_BindFlags
proof (unfold_locales, goal_cases)
  case (1 c)
  show ?case by (simp add: http_values_def http_RegisterFlags_def Let_def)
next
  case (2 fs c)
  note typed = 2 [unfolded parsed_flags_def http_RegisterFlags_def Let_def, simplified, unfolded same_kind_simps]
  show ?case
    unfolding http_BindFlags_def http_values_def overlay_def
    by (simp add: get_typed typed bind_http_fields bound_flag)
qed

section \<open>Valid servers\<close>

lemma http_ApplyDefaults_idem [simp]: "http_ApplyDefaults (http_ApplyDefaults c) = http_ApplyDefaults c"
  by (simp add: http_ApplyDefaults_def http_DefaultPort_def DefaultReadTimeout_def
      DefaultReadHeaderTimeout_def DefaultWriteTimeout_def http_DefaultShutdownTimeout_def
      DefaultMaxHeaderBytes_def)

text \<open>The range check of the port never fails: the port has 16 bits.\<close>

lemma port_range: "\<not> unat (p :: u16) > 65535"
  using unsigned_less [of p, where ?'a = nat] by simp

lemma http_Validate_defaults:
  "http_Validate (Some (http_ApplyDefaults c)) = None \<longleftrightarrow>
   0 \<le> ht_ReadTimeout c \<and> 0 \<le> ht_ReadHeaderTimeout c \<and> 0 \<le> ht_WriteTimeout c \<and>
   0 \<le> ht_ShutdownTimeout c \<and> 0 \<le> ht_MaxHeaderBytes c"
  using port_range
  by (auto simp: http_Validate_def http_ApplyDefaults_def DefaultReadTimeout_def
      DefaultReadHeaderTimeout_def DefaultWriteTimeout_def http_DefaultShutdownTimeout_def
      DefaultMaxHeaderBytes_def)

lemma address_ne [simp]: "address h p \<noteq> []"
  by (simp add: address_def)

text \<open>A server made from a configuration passes its own validation whatever the options did.\<close>

lemma server_NewForConfig_valid:
  "snd (server_NewForConfig cfg opts) = Inr s \<Longrightarrow> server_Validate s = None"
  by (auto simp: server_NewForConfig_def Let_def split: option.splits sum.splits)

lemma positive_defaults:
  "0 < DefaultReadTimeout" "0 < DefaultReadHeaderTimeout" "0 < DefaultWriteTimeout"
  "0 < http_DefaultShutdownTimeout" "0 < DefaultMaxHeaderBytes"
  by (simp_all add: DefaultReadTimeout_def DefaultReadHeaderTimeout_def DefaultWriteTimeout_def
      http_DefaultShutdownTimeout_def DefaultMaxHeaderBytes_def)

text \<open>\<open>ApplyDefaults\<close> of a server makes every server valid whose TLS version is.\<close>

lemma server_ApplyDefaults_valid:
  "server_Validate (server_ApplyDefaults h) = None \<longleftrightarrow>
   (\<forall>srv t. sv_Server h = Some srv \<longrightarrow> hs_TLSConfig srv = Some t \<longrightarrow> 0x303 \<le> go_MinVersion t)"
  using positive_defaults
  by (auto simp: server_Validate_def server_ApplyDefaults_def Let_def split: option.splits)

lemma server_NewForConfig_plain:
  assumes "http_Validate (Some (http_ApplyDefaults cfg)) = None"
  shows "\<exists>s srv. snd (server_NewForConfig cfg []) = Inr s \<and> sv_Server s = Some srv \<and>
    sv_shutdownTimeout s = ht_ShutdownTimeout (http_ApplyDefaults cfg) \<and> sv_errChan s = Some NeverSent \<and>
    hs_Handler srv = None \<and> hs_TLSConfig srv = None \<and>
    hs_Addr srv = address (ht_Host (http_ApplyDefaults cfg)) (ht_Port (http_ApplyDefaults cfg))"
proof -
  have "0 < ht_ShutdownTimeout (http_ApplyDefaults cfg)" "0 < ht_ReadHeaderTimeout (http_ApplyDefaults cfg)"
    "0 < ht_WriteTimeout (http_ApplyDefaults cfg)" "0 < ht_MaxHeaderBytes (http_ApplyDefaults cfg)"
    using assms positive_defaults unfolding http_Validate_defaults
    by (auto simp: http_ApplyDefaults_def)
  with assms show ?thesis by (simp add: server_NewForConfig_def Let_def server_Validate_def)
qed

lemma defaultServer_exists:
  "\<exists>s srv. (defaultServer :: ('h, 'c, 'k) server option) = Some s \<and> sv_Server s = Some srv"
proof -
  have "http_Validate (Some (http_ApplyDefaults http_DefaultConfig)) = None"
    unfolding http_Validate_defaults using positive_defaults
    by (simp add: http_DefaultConfig_def http_ApplyDefaults_def)
  then obtain s srv where "snd (server_NewForConfig http_DefaultConfig []) = Inr (s :: ('h, 'c, 'k) server)" "sv_Server s = Some srv"
    using server_NewForConfig_plain by blast
  then show ?thesis by (auto simp: defaultServer_def server_New_def)
qed

text \<open>\<open>Wait\<close> of a server that was made by \<open>New\<close> and not yet started never returns.\<close>

lemma Wait_before_run:
  "snd (server_NewForConfig cfg []) = Inr s \<Longrightarrow> fst (server_Wait t s) = None"
  by (auto simp: server_NewForConfig_def server_Wait_def Let_def split: option.splits sum.splits if_splits)

text \<open>
  An \<open>http.Server\<close> that was shut down refuses to listen with \<open>ErrServerClosed\<close>: a second run of the
  same server returns at once, without an error.
\<close>

lemma second_run_silent:
  assumes "hs_Handler srv \<noteq> None" "cx_Err ctx = None" "cx_Done ctx = None"
    and "hw_Listen w srv (hs_TLSConfig srv \<noteq> None) t0 = Some (t0, Sentinel HttpErrServerClosed)"
    and "hw_drained w t0 = Some t0" "0 < timeout"
  shows "http_run pick w t0 ctx srv timeout = Some (t0, None)"
  using assms by (simp add: http_run_def Run_def RunT_def run_do_def run_group_def Shutdown_def Let_def
      NewRunOptions_def)

section \<open>Shutting down\<close>

lemma is_err_wrong_sentinel [simp]:
  "is_err (Sentinel CtxDeadlineExceeded) HttpErrServerClosed = False"
  "is_err (Sentinel HttpErrServerClosed) HttpErrServerClosed"
  by simp_all

text \<open>A run whose listener does not fail before the cancellation \<open>c\<close> shuts down at \<open>c\<close>.\<close>

lemma run_do_cancelled:
  assumes "\<And>f e. hw_Listen w srv (hs_TLSConfig srv \<noteq> None) t0 = Some (f, e) \<Longrightarrow> c < f"
    and "Shutdown w c (t0 + timeout) = (t, r)"
  shows "run_do w t0 srv timeout (Some c) =
    Some (t, Ends (case r of
        None \<Rightarrow> None
      | Some e \<Rightarrow> if t = c \<and> hw_shutdown_first w \<and> \<not> is_err e HttpErrServerClosed
                then Some (Errorf ''server error'' [e]) else None))"
  using assms
  by (cases r) (auto simp: run_do_def run_group_def Let_def split: option.split)

lemma http_run_cancelled:
  assumes "hs_Handler srv \<noteq> None" "cx_Err ctx = None" "cx_Done ctx = Some c"
    and "run_do w t0 srv timeout (Some c) = Some (t, Ends r)" "c \<le> t" "t < c + timeout"
  shows "http_run pick w t0 ctx srv timeout = Some (t, r)"
proof -
  have "RunT pick None t0 ctx (run_do w t0 srv timeout) [timeout] = Some (t, ending_result None (Ends r))"
    using RunT_done(2) [where do' = "run_do w t0 srv timeout" and a = "Ends r" and t = t,
        OF assms(2,3,4)] assms(5,6) by auto
  with assms(1) show ?thesis by (cases r) (auto simp: http_run_def Run_def NewRunOptions_def)
qed

text \<open>A run whose requests end within the window, and the same run in the background.\<close>

lemma http_run_drained:
  assumes "hs_Handler srv \<noteq> None" "cx_Err ctx = None" "cx_Done ctx = Some c" "t0 < c" "0 < timeout"
    and "\<And>f e. hw_Listen w srv (hs_TLSConfig srv \<noteq> None) t0 = Some (f, e) \<Longrightarrow> c < f"
    and "hw_drained w c = Some d" "c < d" "hw_Close w = None" "d < t0 + timeout"
  shows "http_run pick w t0 ctx srv timeout = Some (d, None)"
proof -
  have s: "Shutdown w c (t0 + timeout) = (d, None)"
    using assms(7-10) by (auto simp: Shutdown_def)
  show ?thesis
    using http_run_cancelled [where pick = pick, OF assms(1-3)
        run_do_cancelled [where w = w and srv = srv, OF assms(6) s, simplified]] assms(4,8,10) by simp
qed

lemma RunBackground_one:
  assumes "Run pick t0 \<lparr>cx_Err = None, cx_Done = Some c\<rparr> fn [DefaultShutdownTimeout] = Some (t, e)" "c \<le> t"
  shows "RunBackground pick t0 \<lparr>cx_Err = None, cx_Done = Some c\<rparr> fn [] = [Some (t, e)]"
  using assms
  by (cases e) (simp_all add: RunBackground_def RunAllBackground_def DefaultFailFast_def Let_def
      first_failure_def failures_def List.map_filter_simps min_def)

section \<open>Properties\<close>

text \<open>
  C34. A server that was started at \<open>t0\<close> and is cancelled at \<open>c\<close> waits for its requests (idle at \<open>d\<close>)
  only until \<open>t0\<close> plus its shutdown timeout: a cancellation that comes later than that ends the run at
  once, with the requests cut off. Before, the run ends without an error when the requests have, or at
  the end of the window.
\<close>

theorem shutdown_window_from_start:
  assumes "hs_Handler srv \<noteq> None" "cx_Err ctx = None" "cx_Done ctx = Some c" "t0 < c" "0 < timeout"
    and "\<And>f e. hw_Listen w srv (hs_TLSConfig srv \<noteq> None) t0 = Some (f, e) \<Longrightarrow> c < f"
    and "hw_drained w c = Some d" "c < d" "hw_Close w = None" "d \<noteq> t0 + timeout"
  shows "if d < t0 + timeout then http_run pick w t0 ctx srv timeout = Some (d, None)
    else if c < t0 + timeout then http_run pick w t0 ctx srv timeout = Some (t0 + timeout, None)
    else \<exists>e. http_run pick w t0 ctx srv timeout = Some (c, e)"
proof -
  have s: "Shutdown w c (t0 + timeout) =
      (if d < t0 + timeout then (d, None) else (max c (t0 + timeout), Some (Sentinel CtxDeadlineExceeded)))"
    using assms(7-10) by (auto simp: Shutdown_def)
  obtain t r where t: "Shutdown w c (t0 + timeout) = (t, r)" by (cases "Shutdown w c (t0 + timeout)")
  note do' = run_do_cancelled [where w = w and srv = srv, OF assms(6) t, simplified]
  have b: "c \<le> t" "t < c + timeout" using s t assms(4,5,8) by (auto split: if_splits)
  note run = http_run_cancelled [where pick = pick, OF assms(1-3) do' b]
  show ?thesis using s t assms(8) by (auto simp: run split: if_splits)
qed

definition idle_world :: "int \<Rightarrow> (unit, unit, unit) http_world" where
  "idle_world n =
     \<lparr>hw_Listen = (\<lambda>_ _ _. None), hw_drained = (\<lambda>s. Some (s + n)), hw_Close = None, hw_fail_first = True,
      hw_drain_first = True, hw_shutdown_first = False\<rparr>"

definition idle_server :: "(unit, unit, unit) http_server" where
  "idle_server =
     \<lparr>hs_Addr = '':8089'', hs_ReadTimeout = 1, hs_ReadHeaderTimeout = 1, hs_WriteTimeout = 1,
      hs_MaxHeaderBytes = 1, hs_Handler = Some (), hs_TLSConfig = None\<rparr>"

theorem shutdown_window_from_start_witness:
  "\<exists>e. http_run False (idle_world 5) 0 \<lparr>cx_Err = None, cx_Done = Some 100\<rparr> idle_server 30 = Some (100, e)"
  using shutdown_window_from_start [of idle_server "\<lparr>cx_Err = None, cx_Done = Some 100\<rparr>" 100 0 30
      "idle_world 5" 105 False]
  by (simp add: idle_server_def idle_world_def)

text \<open>
  \<open>RunBackground\<close> supervises the run with the default timeout of 30 s whatever the server's own
  timeout is: a server that would end properly within its own window is reported as not finished after
  30 s.
\<close>

theorem RunBackground_ignores_timeout:
  assumes "sv_Server h = Some srv" "hs_Handler srv \<noteq> None" "t0 < c"
    and "\<And>f e. hw_Listen w srv (hs_TLSConfig srv \<noteq> None) t0 = Some (f, e) \<Longrightarrow> c < f"
    and "hw_drained w c = Some d" "hw_Close w = None"
    and "c + DefaultShutdownTimeout < d" "d < t0 + sv_shutdownTimeout h"
  shows "server_Run pick w t0 \<lparr>cx_Err = None, cx_Done = Some c\<rparr> h = Some (Some (d, None)) \<and>
    fst (server_Wait t (server_RunBackground pick w t0 \<lparr>cx_Err = None, cx_Done = Some c\<rparr> h)) =
      Some (max t (c + DefaultShutdownTimeout), Some shutdown_error)"
proof -
  have pos: "0 < DefaultShutdownTimeout" by (simp add: DefaultShutdownTimeout_def)
  have run: "server_Run pick w t0 \<lparr>cx_Err = None, cx_Done = Some c\<rparr> h = Some (Some (d, None))"
    unfolding server_Run_def assms(1)
    using http_run_drained [of srv _ c t0 "sv_shutdownTimeout h" w d pick] assms pos by simp
  then have "background_do pick w t0 h (Some c) = Some (d, Ends None)"
    by (simp add: background_do_def)
  moreover have "min d c = c" using assms(7) pos by simp
  ultimately have "Run pick t0 \<lparr>cx_Err = None, cx_Done = Some c\<rparr> (background_do pick w t0 h)
      [DefaultShutdownTimeout] = Some (c + DefaultShutdownTimeout, Some shutdown_error)"
    using assms(7) pos by (simp add: Run_def RunT_def Let_def)
  from RunBackground_one [OF this] pos run show ?thesis
    by (simp add: server_RunBackground_def server_Wait_def)
qed

theorem RunBackground_ignores_timeout_witness:
  "fst (server_Wait 0 (server_RunBackground True (idle_world 40000000000) 0 \<lparr>cx_Err = None, cx_Done = Some 1\<rparr>
     \<lparr>sv_Server = Some idle_server, sv_shutdownTimeout = 60000000000, sv_errChan = None\<rparr>)) =
   Some (30000000001, Some shutdown_error)"
  using RunBackground_ignores_timeout [of
      "\<lparr>sv_Server = Some idle_server, sv_shutdownTimeout = 60000000000, sv_errChan = None\<rparr>"
      idle_server 0 1 "idle_world 40000000000" "40000000001" True 0]
  by (simp add: idle_server_def idle_world_def DefaultShutdownTimeout_def)

end
