(* ===== verification/Transport.thy ===== *)
theory Transport
  imports Tls Strings
begin

text \<open>
  Clients made from a configuration: \<open>pkg/http\<close> (\<open>config.go\<close>, \<open>transport.go\<close>, \<open>NewForConfig\<close> and
  the client options), and the tripperwares of \<open>pkg/http/tripperware\<close> that observe: logging and metrics.

  A \<open>go_client\<close> is what the code sets on an \<open>http.Client\<close>: its transport, plain or traced, and
  whether redirects are followed. What such a client does when it sends a request is an argument.
\<close>

section \<open>Transports\<close>

datatype proxy_func = ProxyFromEnvironment | ProxyURL string

record ('c, 'k) http_transport =
  tr_Proxy :: proxy_func
  tr_DialTimeout :: int
  tr_KeepAlive :: int
  tr_ForceAttemptHTTP2 :: bool
  tr_MaxIdleConns :: nat
  tr_IdleConnTimeout :: int
  tr_TLSHandshakeTimeout :: int
  tr_ExpectContinueTimeout :: int
  tr_TLSClientConfig :: "('c, 'k) gotls option"

type_synonym ('c, 'k) transport_option = "('c, 'k) http_transport cfg_option"

fun ApplyTransportOptions ::
  "('c, 'k) http_transport \<Rightarrow> ('c, 'k) transport_option list \<Rightarrow> ('c, 'k) http_transport \<times> err option" where
  "ApplyTransportOptions transport [] = (transport, None)"
| "ApplyTransportOptions transport (option # options) =
     (case option transport of
        Inl e \<Rightarrow> (transport, Some e)
      | Inr transport \<Rightarrow> ApplyTransportOptions transport options)"

definition NewTransport ::
  "('c, 'k) transport_option list \<Rightarrow> ('c, 'k) http_transport \<times> err option" where
  "NewTransport options = ApplyTransportOptions
     \<lparr>tr_Proxy = ProxyFromEnvironment, tr_DialTimeout = 30000000000, tr_KeepAlive = 30000000000,
      tr_ForceAttemptHTTP2 = True, tr_MaxIdleConns = 100, tr_IdleConnTimeout = 90000000000,
      tr_TLSHandshakeTimeout = 10000000000, tr_ExpectContinueTimeout = 1000000000,
      tr_TLSClientConfig = None\<rparr> options"

definition WithProxy :: "(string \<Rightarrow> err + string) \<Rightarrow> string \<Rightarrow> ('c, 'k) transport_option" where
  "WithProxy url_Parse proxy t =
     (case url_Parse proxy of Inl e \<Rightarrow> Inl e | Inr u \<Rightarrow> Inr (t\<lparr>tr_Proxy := ProxyURL u\<rparr>))"

definition WithTLSConfig :: "('c, 'k) gotls option \<Rightarrow> ('c, 'k) transport_option" where
  "WithTLSConfig tlsconfig c = Inr (c\<lparr>tr_TLSClientConfig := tlsconfig\<rparr>)"

definition transport_WithTLS ::
  "('c, 'k) tls_env \<Rightarrow> string \<Rightarrow> string \<Rightarrow> string list \<Rightarrow> ('c, 'k) transport_option" where
  "transport_WithTLS E cert key cacerts c =
     (case tlsclient_New E cert key False cacerts of
        Inl e \<Rightarrow> Inl e
      | Inr cfg \<Rightarrow> Inr (c\<lparr>tr_TLSClientConfig := Some cfg\<rparr>))"

definition InsecureSkipVerify :: "('c, 'k) transport_option" where
  "InsecureSkipVerify t =
     (case tr_TLSClientConfig t of
        None \<Rightarrow>
          Inr (t\<lparr>tr_TLSClientConfig := Some
            \<lparr>go_MinVersion = 0, go_Certificates = [], go_RootCAs = None, go_ClientCAs = None,
             go_ClientAuth = NoClientCert, go_InsecureSkipVerify = True, go_VerifyPeerCertificate = None\<rparr>\<rparr>)
      | Some cfg \<Rightarrow> Inr (t\<lparr>tr_TLSClientConfig := Some (cfg\<lparr>go_InsecureSkipVerify := True\<rparr>)\<rparr>))"

section \<open>Clients\<close>

datatype ('c, 'k) round_tripper = Plain "('c, 'k) http_transport" | Traced "('c, 'k) http_transport"

text \<open>The redirect policy: that of \<open>net/http\<close>, the last response, or one given by the caller.\<close>

datatype 'r check_redirect = DefaultRedirect | UseLastResponse | CustomRedirect 'r

record ('c, 'k, 'r) go_client =
  gc_Transport :: "('c, 'k) round_tripper option"
  gc_CheckRedirect :: "'r check_redirect"

record ('s, 'c, 'k, 'r) client =
  ct_Http :: "('c, 'k, 'r) go_client"
  ct_Tripperware :: "'s tripperware option"
  ct_DefaultRequestOptions :: "request cfg_option option list"

type_synonym ('s, 'c, 'k, 'r) client_option = "('s, 'c, 'k, 'r) client cfg_option"

definition set_transport :: "('c, 'k) round_tripper \<Rightarrow> ('s, 'c, 'k, 'r) client_option" where
  "set_transport t c = Inr (c\<lparr>ct_Http := (ct_Http c)\<lparr>gc_Transport := Some t\<rparr>\<rparr>)"

definition client_WithTripperware :: "'s tripperware option \<Rightarrow> ('s, 'c, 'k, 'r) client_option" where
  "client_WithTripperware chain c = Inr (c\<lparr>ct_Tripperware := chain\<rparr>)"

definition WithTransport :: "('c, 'k) http_transport \<Rightarrow> ('s, 'c, 'k, 'r) client_option" where
  "WithTransport transport = set_transport (Plain transport)"

definition WithTraceTransport :: "('c, 'k) http_transport \<Rightarrow> ('s, 'c, 'k, 'r) client_option" where
  "WithTraceTransport transport = set_transport (Traced transport)"

definition WithNewTraceTransport :: "('c, 'k) transport_option list \<Rightarrow> ('s, 'c, 'k, 'r) client_option" where
  "WithNewTraceTransport options c =
     (case NewTransport options of
        (_, Some e) \<Rightarrow> Inl e
      | (transport, None) \<Rightarrow> set_transport (Traced transport) c)"

definition WithNewTransport :: "('c, 'k) transport_option list \<Rightarrow> ('s, 'c, 'k, 'r) client_option" where
  "WithNewTransport options c =
     (case NewTransport options of
        (_, Some e) \<Rightarrow> Inl e
      | (transport, None) \<Rightarrow> WithTransport transport c)"

definition WithCheckRedirect :: "'r check_redirect \<Rightarrow> ('s, 'c, 'k, 'r) client_option" where
  "WithCheckRedirect redirect c = Inr (c\<lparr>ct_Http := (ct_Http c)\<lparr>gc_CheckRedirect := redirect\<rparr>\<rparr>)"

definition client_WithRequestOptions ::
  "request cfg_option option list \<Rightarrow> ('s, 'c, 'k, 'r) client_option" where
  "client_WithRequestOptions opts c = Inr (c\<lparr>ct_DefaultRequestOptions := opts\<rparr>)"

definition http_NewClient ::
  "('s, 'c, 'k, 'r) client_option option list \<Rightarrow> err + ('s, 'c, 'k, 'r) client" where
  "http_NewClient opts =
     (case ApplyOpts
          \<lparr>ct_Http = \<lparr>gc_Transport = None, gc_CheckRedirect = DefaultRedirect\<rparr>,
           ct_Tripperware = Some (\<lambda>endpoint. endpoint), ct_DefaultRequestOptions = []\<rparr> opts of
        Inl e \<Rightarrow> Inl (Errorf ''failed to apply client options'' [e])
      | Inr client \<Rightarrow> Inr client)"

record client_config =
  clc_TLS :: tls_client_config
  clc_DefaultHeaders :: "(string, string) gomap option"

definition clc_ApplyDefaults :: "client_config \<Rightarrow> client_config" where
  "clc_ApplyDefaults cfg =
     (let cfg = cfg\<lparr>clc_TLS := tlsclient_ApplyDefaults (clc_TLS cfg)\<rparr>
      in if clc_DefaultHeaders cfg = None then cfg\<lparr>clc_DefaultHeaders := Some []\<rparr> else cfg)"

definition clc_zero :: client_config where
  "clc_zero =
     \<lparr>clc_TLS = \<lparr>tls_Cert = [], tls_Key = [], tls_RootCAs = [], tls_MinVersion = [], tls_Disabled = False,
        tc_InsecureSkipVerify = False\<rparr>,
      clc_DefaultHeaders = None\<rparr>"

definition clc_DefaultConfig :: client_config where
  "clc_DefaultConfig = clc_ApplyDefaults clc_zero"

definition clc_Validate :: "client_config \<Rightarrow> err option" where
  "clc_Validate c = None"

text \<open>
  The shallow copy that gets the defaults is only validated: TLS comes from the caller's
  configuration, and the default headers from neither.
\<close>

definition client_NewForConfig ::
  "('c, 'k) tls_env \<Rightarrow> 's tripperware \<Rightarrow> client_config \<Rightarrow> ('s, 'c, 'k, 'r) client_option option list \<Rightarrow>
   err + ('s, 'c, 'k, 'r) client" where
  "client_NewForConfig E DefaultTripperware c opts =
     (let cfg = clc_ApplyDefaults c in
      case clc_Validate cfg of
        Some e \<Rightarrow> Inl (Errorf ''invalid HTTP health check config'' [e])
      | None \<Rightarrow>
          (let clientOptions = [Some (WithCheckRedirect UseLastResponse)] in
           case (if UseTLS (Some (clc_TLS c)) then
                   (case tlsclient_NewForConfig E (clc_TLS c) [] of
                      Inl e \<Rightarrow> Inl (Errorf ''failed to create TLS config for health check'' [e])
                    | Inr tlsconfig \<Rightarrow>
                        Inr (clientOptions @ [Some (WithNewTransport [WithTLSConfig (Some tlsconfig)])]))
                 else Inr clientOptions) of
             Inl e \<Rightarrow> Inl e
           | Inr clientOptions \<Rightarrow>
               (case http_NewClient clientOptions of
                  Inl e \<Rightarrow> Inl (Errorf ''failed to create client'' [e])
                | Inr client \<Rightarrow>
                    (let client = (if ct_Tripperware client = None
                        then client\<lparr>ct_Tripperware := Some DefaultTripperware\<rparr> else client)
                     in case ApplyOpts client opts of
                          Inl e \<Rightarrow> Inl (Errorf ''failed to apply client options'' [e])
                        | Inr client \<Rightarrow> Inr client))))"

text \<open>The client as the requests use it; without a tripperware every request panics (\<open>None\<close>).\<close>

definition as_http_client ::
  "(('c, 'k, 'r) go_client \<Rightarrow> ('s, 'v) net) \<Rightarrow> ('s, 'c, 'k, 'r) client \<Rightarrow> ('s, 'v) http_client option" where
  "as_http_client net_of c =
     map_option (\<lambda>t. \<lparr>cl_Http = net_of (ct_Http c), Tripperware = t,
       DefaultRequestOptions = ct_DefaultRequestOptions c\<rparr>) (ct_Tripperware c)"

section \<open>Logging\<close>

record logging_options =
  lo_DisabledRequestLogger :: bool
  lo_DisabledResponseLogger :: bool
  lo_LogFailedRequests :: bool
  lo_RequestCutoffThreshold :: int
  lo_ResponseCutoffThreshold :: int
  lo_SkipPaths :: "string list option"

definition http_defaultSkipPaths :: "string list" where
  "http_defaultSkipPaths = [''/metrics'', ''/healthz'', ''/readyz'', ''/swagger'']"

definition LoggingOptions_zero :: logging_options where
  "LoggingOptions_zero =
     \<lparr>lo_DisabledRequestLogger = False, lo_DisabledResponseLogger = False, lo_LogFailedRequests = False,
      lo_RequestCutoffThreshold = 0, lo_ResponseCutoffThreshold = 0, lo_SkipPaths = None\<rparr>"

definition SetDefaults :: "logging_options \<Rightarrow> logging_options" where
  "SetDefaults opts =
     opts\<lparr>lo_RequestCutoffThreshold :=
         (if lo_RequestCutoffThreshold opts = 0 then 10240 else lo_RequestCutoffThreshold opts),
       lo_ResponseCutoffThreshold :=
         (if lo_ResponseCutoffThreshold opts = 0 then 1024 else lo_ResponseCutoffThreshold opts),
       lo_SkipPaths :=
         (if lo_SkipPaths opts = None then Some http_defaultSkipPaths else lo_SkipPaths opts)\<rparr>"

text \<open>
  \<open>ReadAll\<close> reads a body to its end or to an error; then the request keeps the body that was read from
  (\<open>drained\<close> is what is left of it). \<open>RawNil\<close> tells a response without bytes from one with none.
\<close>

record body_env =
  be_ReadAll :: "string \<Rightarrow> err + string"
  be_drained :: "string \<Rightarrow> string"
  be_RawNil :: "data \<Rightarrow> bool"

text \<open>\<open>None\<close> is the panic of a slice bound below zero.\<close>

definition readResponse :: "body_env \<Rightarrow> data \<Rightarrow> int \<Rightarrow> string option" where
  "readResponse E resp responseCutoffThreshold =
     (if be_RawNil E resp then Some []
      else if int (length (Raw resp)) > responseCutoffThreshold then
        (if responseCutoffThreshold < 0 then None
         else Some (take (nat responseCutoffThreshold) (Raw resp) @ ''...''))
      else Some (Raw resp))"

definition readRequest :: "body_env \<Rightarrow> request \<Rightarrow> int \<Rightarrow> request \<times> string" where
  "readRequest E request requestCutoffThreshold =
     (if requestCutoffThreshold \<le> 0 then (request, ''...'')
      else case Body request of
          None \<Rightarrow> (request, [])
        | Some body \<Rightarrow>
            (case be_ReadAll E body of
               Inl e \<Rightarrow> (request\<lparr>Body := Some (be_drained E body)\<rparr>, ''failed to read request body: '')
             | Inr bodyBytes \<Rightarrow>
                 (let request = request\<lparr>Body := Some bodyBytes\<rparr>
                  in if int (length bodyBytes) > requestCutoffThreshold
                     then (request, take (nat requestCutoffThreshold) bodyBytes @ ''...'')
                     else (request, bodyBytes))))"

datatype log_entry =
    LogExecuting string string string
  | LogFailed string string string int err
  | LogCertificates err
  | LogErrorResponse string string int err "string option"
  | LogResponse string string int "string option"

text \<open>
  The state is that of the rest of the chain and the log. \<open>is_cert_error\<close> is the type test for a
  \<open>tls.CertificateVerificationError\<close>, \<open>url_Path\<close> the path of a URL. A panic leaves \<open>None\<close>.
\<close>

definition Logging ::
  "body_env \<Rightarrow> (string \<Rightarrow> string) \<Rightarrow> (err \<Rightarrow> bool) \<Rightarrow> logging_options list \<Rightarrow>
   (request \<Rightarrow> 's \<Rightarrow> 's \<times> request \<times> data) \<Rightarrow> request \<Rightarrow> 's \<Rightarrow> log_entry list \<Rightarrow>
   ('s \<times> log_entry list \<times> request \<times> data) option" where
  "Logging E url_Path is_cert_error options next' request s log =
     (let opts = SetDefaults (Opt LoggingOptions_zero options);
          method = req_Method request; url = req_URL request in
      if url_Path url \<in> set (the (lo_SkipPaths opts)) then
        (case next' request s of (s, request, resp) \<Rightarrow> Some (s, log, request, resp))
      else
        (case (if \<not> lo_DisabledRequestLogger opts then
                 (case readRequest E request (lo_RequestCutoffThreshold opts) of
                    (request, text) \<Rightarrow> (request, log @ [LogExecuting method url text]))
               else (request, log)) of
           (request, log) \<Rightarrow>
        (case next' request s of
           (s, request, resp) \<Rightarrow>
        (case Error resp of
           Some e \<Rightarrow>
             (case (if lo_LogFailedRequests opts then
                      (case readRequest E request (lo_RequestCutoffThreshold opts) of
                         (request, text) \<Rightarrow> (request, log @ [LogFailed method url text (Status resp) e]))
                    else (request, log)) of
                (request, log) \<Rightarrow>
              (let log = (if is_cert_error e then log @ [LogCertificates e] else log) in
               if \<not> lo_DisabledResponseLogger opts then
                 (case readResponse E resp (lo_ResponseCutoffThreshold opts) of
                    None \<Rightarrow> None
                  | Some text \<Rightarrow>
                      Some (s, log @ [LogErrorResponse method url (Status resp) e (Some text)], request, resp))
               else Some (s, log @ [LogErrorResponse method url (Status resp) e None], request, resp)))
         | None \<Rightarrow>
             if \<not> lo_DisabledResponseLogger opts then
               (case readResponse E resp (lo_ResponseCutoffThreshold opts) of
                  None \<Rightarrow> None
                | Some text \<Rightarrow>
                    Some (s, log @ [LogResponse method url (Status resp) (Some text)], request, resp))
             else Some (s, log @ [LogResponse method url (Status resp) None], request, resp)))))"

section \<open>Metrics\<close>

text \<open>
  The callbacks of \<open>httptrace\<close>, each with the time at which the transport makes it, and the
  observations they leave. Zero times are \<open>None\<close>; durations start at zero.
\<close>

datatype trace_event =
    DNSStart | DNSDone | ConnectStart | ConnectDone | TLSHandshakeStart | TLSHandshakeDone
  | GotFirstResponseByte

datatype observation =
    ObsRequestSize int | ObsDNS int | ObsConnect int | ObsTLS int | ObsFirstResponse int
  | ObsDuration int | ObsCount | ObsResponseSize nat

record trace_state =
  ts_dnsStart :: "int option"
  ts_connectStart :: "int option"
  ts_tlsStart :: "int option"
  ts_dnsEnd :: int
  ts_connectEnd :: int
  ts_tlsEnd :: int
  ts_firstResponse :: int

definition trace_zero :: trace_state where
  "trace_zero =
     \<lparr>ts_dnsStart = None, ts_connectStart = None, ts_tlsStart = None, ts_dnsEnd = 0, ts_connectEnd = 0,
      ts_tlsEnd = 0, ts_firstResponse = 0\<rparr>"

fun trace_step ::
  "int \<Rightarrow> trace_event \<times> int \<Rightarrow> trace_state \<times> observation list \<Rightarrow> trace_state \<times> observation list" where
  "trace_step start (DNSStart, t) (ts, obs) = (ts\<lparr>ts_dnsStart := Some t\<rparr>, obs)"
| "trace_step start (DNSDone, t) (ts, obs) =
     (case ts_dnsStart ts of
        None \<Rightarrow> (ts, obs)
      | Some b \<Rightarrow> (ts\<lparr>ts_dnsEnd := t - b\<rparr>, obs @ [ObsDNS (t - b)]))"
| "trace_step start (ConnectStart, t) (ts, obs) = (ts\<lparr>ts_connectStart := Some t\<rparr>, obs)"
| "trace_step start (ConnectDone, t) (ts, obs) =
     (case ts_connectStart ts of
        None \<Rightarrow> (ts, obs)
      | Some b \<Rightarrow> (ts\<lparr>ts_connectEnd := t - b\<rparr>, obs @ [ObsConnect (t - b)]))"
| "trace_step start (TLSHandshakeStart, t) (ts, obs) = (ts\<lparr>ts_tlsStart := Some t\<rparr>, obs)"
| "trace_step start (TLSHandshakeDone, t) (ts, obs) =
     (case ts_tlsStart ts of
        None \<Rightarrow> (ts, obs)
      | Some b \<Rightarrow> (ts\<lparr>ts_tlsEnd := t - b\<rparr>, obs @ [ObsTLS (t - b)]))"
| "trace_step start (GotFirstResponseByte, t) (ts, obs) =
     (ts\<lparr>ts_firstResponse := t - start\<rparr>, obs @ [ObsFirstResponse (t - start)])"

text \<open>The end of the trace: the line that is logged for a failed or slow request, and the observations.\<close>

record trace_line =
  tl_dns :: int
  tl_connect :: int
  tl_tls :: int
  tl_first :: int
  tl_full :: int

definition afterReq ::
  "bool \<Rightarrow> int \<Rightarrow> int \<Rightarrow> data \<Rightarrow> trace_state \<times> observation list \<Rightarrow> trace_line option \<times> observation list" where
  "afterReq allowLog start now response st =
     (case st of (ts, obs) \<Rightarrow>
      (let end' = now - start in
       (if allowLog \<and> (Status response = 0 \<or> end' > 500000000) then
          Some \<lparr>tl_dns = ts_dnsEnd ts, tl_connect = ts_connectEnd ts, tl_tls = ts_tlsEnd ts,
                tl_first = ts_firstResponse ts, tl_full = end'\<rparr>
        else None,
        obs @ [ObsDuration end', ObsCount, ObsResponseSize (length (Raw response))])))"

text \<open>
  \<open>next'\<close> also tells what the transport reported and when the response was there. The labels of the
  observations are the method and the host, which are those of the request.
\<close>

definition http_Metrics ::
  "bool \<Rightarrow> int \<Rightarrow> int \<Rightarrow> (request \<Rightarrow> 's \<Rightarrow> 's \<times> data \<times> (trace_event \<times> int) list \<times> int) \<Rightarrow> request \<Rightarrow> 's \<Rightarrow>
   's \<times> data \<times> trace_line option \<times> observation list" where
  "http_Metrics logTransportTimesOnErr start ContentLength next' request s =
     (case next' request s of
        (s, resp, events, now) \<Rightarrow>
          (case afterReq logTransportTimesOnErr start now resp
              (fold (trace_step start) events (trace_zero, [ObsRequestSize ContentLength])) of
             (line, obs) \<Rightarrow> (s, resp, line, obs)))"

definition DefaultTripperware ::
  "'s tripperware \<Rightarrow> 's tripperware \<Rightarrow> 's tripperware \<Rightarrow> 's tripperware \<Rightarrow> 's tripperware \<Rightarrow> 's tripperware" where
  "DefaultTripperware retrier logging breaker limiter metrics =
     Chain retrier [logging, breaker, limiter, metrics]"

section \<open>Observers change nothing\<close>

lemma readRequest_keeps:
  "(\<And>b. Body request = Some b \<Longrightarrow> be_ReadAll E b = Inr b) \<Longrightarrow> fst (readRequest E request n) = request"
  by (cases "Body request") (auto simp: readRequest_def Let_def)

lemma readResponse_total: "0 \<le> n \<Longrightarrow> \<exists>text. readResponse E resp n = Some text"
  by (simp add: readResponse_def)

text \<open>A negative threshold for responses panics on every response with a body.\<close>

lemma readResponse_panics: "n < 0 \<Longrightarrow> \<not> be_RawNil E resp \<Longrightarrow> readResponse E resp n = None"
  by (simp add: readResponse_def)

lemma readRequest_id:
  "(\<And>b. be_ReadAll E b = Inr b) \<Longrightarrow> \<exists>text. readRequest E request n = (request, text)"
  using readRequest_keeps [of request E n] by (metis prod.collapse)

text \<open>
  Events in the order of time leave only durations that are not negative.
\<close>

fun duration_of :: "observation \<Rightarrow> int" where
  "duration_of (ObsDNS d) = d"
| "duration_of (ObsConnect d) = d"
| "duration_of (ObsTLS d) = d"
| "duration_of (ObsFirstResponse d) = d"
| "duration_of (ObsDuration d) = d"
| "duration_of _ = 0"

definition started_by :: "int \<Rightarrow> trace_state \<Rightarrow> bool" where
  "started_by t ts \<longleftrightarrow> pred_option (\<lambda>b. b \<le> t) (ts_dnsStart ts) \<and>
     pred_option (\<lambda>b. b \<le> t) (ts_connectStart ts) \<and> pred_option (\<lambda>b. b \<le> t) (ts_tlsStart ts)"

lemma started_by_mono: "started_by t ts \<Longrightarrow> t \<le> t' \<Longrightarrow> started_by t' ts"
  by (auto simp: started_by_def pred_option_def)

lemma trace_step_nonneg:
  assumes "trace_step start (ev, t) (ts, obs) = (ts', obs')" "started_by t ts" "start \<le> t"
    and "list_all (\<lambda>o'. 0 \<le> duration_of o') obs"
  shows "started_by t ts' \<and> list_all (\<lambda>o'. 0 \<le> duration_of o') obs'"
  using assms by (cases ev) (auto simp: started_by_def split: option.splits)

lemma trace_fold_nonneg:
  "sorted (map snd events) \<Longrightarrow> (\<And>ev t. (ev, t) \<in> set events \<Longrightarrow> b \<le> t) \<Longrightarrow> start \<le> b \<Longrightarrow>
   started_by b ts \<Longrightarrow> list_all (\<lambda>o'. 0 \<le> duration_of o') obs \<Longrightarrow>
   list_all (\<lambda>o'. 0 \<le> duration_of o') (snd (fold (trace_step start) events (ts, obs)))"
proof (induction events arbitrary: b ts obs)
  case (Cons e events)
  obtain ev t where e: "e = (ev, t)" by (cases e)
  obtain ts' obs' where st: "trace_step start (ev, t) (ts, obs) = (ts', obs')"
    by (cases "trace_step start (ev, t) (ts, obs)")
  have t: "b \<le> t" using Cons.prems(2) [of ev t] e by simp
  have "started_by t ts' \<and> list_all (\<lambda>o'. 0 \<le> duration_of o') obs'"
    using trace_step_nonneg [OF st started_by_mono [OF Cons.prems(4) t] _ Cons.prems(5)] t Cons.prems(3) by simp
  then show ?case
    using Cons.IH [of t ts' obs'] Cons.prems(1,3) t st e by fastforce
qed simp

section \<open>Properties\<close>

text \<open>
  The logging tripperware is transparent: with thresholds that are not negative and bodies that can
  be read it never panics, hands the request on unchanged and returns what the rest of the chain
  returns, leaving only entries at the end of the log.
\<close>

theorem Logging_transparent:
  assumes "\<And>b. be_ReadAll E b = Inr b" "0 \<le> lo_ResponseCutoffThreshold (Opt LoggingOptions_zero options)"
    and "next' request s = (s', request', resp)"
  shows "\<exists>entries. Logging E url_Path is_cert_error options next' request s log =
    Some (s', log @ entries, request', resp)"
proof -
  let ?opts = "SetDefaults (Opt LoggingOptions_zero options)"
  obtain t1 where t1: "readRequest E request (lo_RequestCutoffThreshold ?opts) = (request, t1)"
    using readRequest_id [OF assms(1)] by blast
  obtain t2 where t2: "readRequest E request' (lo_RequestCutoffThreshold ?opts) = (request', t2)"
    using readRequest_id [OF assms(1)] by blast
  have "0 \<le> lo_ResponseCutoffThreshold ?opts" using assms(2) by (simp add: SetDefaults_def)
  then obtain t3 where t3: "readResponse E resp (lo_ResponseCutoffThreshold ?opts) = Some t3"
    using readResponse_total by blast
  show ?thesis
    using assms(3) t1 t2 t3 by (cases "Error resp") (simp_all add: Logging_def Let_def)
qed

definition example_bodies :: body_env where
  "example_bodies = \<lparr>be_ReadAll = Inr, be_drained = (\<lambda>b. b), be_RawNil = (\<lambda>_. False)\<rparr>"

theorem Logging_transparent_witness:
  "\<exists>entries. Logging example_bodies (\<lambda>u. u) (\<lambda>_. False) []
     (\<lambda>r (n :: nat). (Suc n, r, \<lparr>Headers = [], Raw = ''ok'', Status = 500, Err = None\<rparr>))
     \<lparr>req_Method = ''GET'', req_URL = ''/a'', RawQuery = [], Header = [], Body = Some ''b''\<rparr> 0 [] =
   Some (1, [] @ entries, \<lparr>req_Method = ''GET'', req_URL = ''/a'', RawQuery = [], Header = [], Body = Some ''b''\<rparr>,
     \<lparr>Headers = [], Raw = ''ok'', Status = 500, Err = None\<rparr>)"
  by (rule Logging_transparent) (simp_all add: example_bodies_def LoggingOptions_zero_def)

text \<open>
  A client made from a configuration does not send the configured default headers, has none of the
  default tripperware (no retries, no circuit breaker, no rate limit), follows no redirects, and
  presents the configured certificate when one is configured.
\<close>

theorem client_from_config:
  "client_NewForConfig E D c [] =
     (case (if UseTLS (Some (clc_TLS c)) then map_sum id Some (tlsclient_NewForConfig E (clc_TLS c) []) else Inr None) of
        Inl e \<Rightarrow> Inl (Errorf ''failed to create TLS config for health check'' [e])
      | Inr tlsconfig \<Rightarrow>
          Inr \<lparr>ct_Http = \<lparr>gc_Transport = map_option (\<lambda>t. Plain (fst (NewTransport [WithTLSConfig (Some t)]))) tlsconfig,
                 gc_CheckRedirect = UseLastResponse\<rparr>,
               ct_Tripperware = Some (\<lambda>endpoint. endpoint), ct_DefaultRequestOptions = []\<rparr>)"
  by (auto simp: client_NewForConfig_def clc_Validate_def http_NewClient_def WithCheckRedirect_def
      WithNewTransport_def NewTransport_def WithTLSConfig_def WithTransport_def set_transport_def Let_def
      split: sum.split)

end
