(* ===== verification/Observability.thy ===== *)
theory Observability
  imports Tls Strings
begin

text \<open>
  What observes requests: the values of a context (\<open>pkg/utils\<close>), logging with request identifiers
  (\<open>pkg/logging\<close>), tracing (\<open>pkg/trace\<close>), and the gin middlewares \<open>requestid\<close>, \<open>metrics\<close> and \<open>logger\<close>.

  A middleware gets the rest of the chain as a function \<open>next'\<close> on \<open>http_ctx\<close>, which is what the
  middlewares read of the gin context; what they record is a list. OpenTelemetry, prometheus and
  logrus are not modelled beyond the calls made to them.
\<close>

section \<open>Values of a context\<close>

datatype ctx_value = CtxString string | CtxBool bool | CtxOther

type_synonym ctx_values = "string \<Rightarrow> ctx_value option"

definition RequestIdKey :: string where "RequestIdKey = ''rid''"
definition LoggerRequestIdKey :: string where "LoggerRequestIdKey = ''rid''"

definition GetValueFromContextOrDefault ::
  "(ctx_value \<Rightarrow> 't option) \<Rightarrow> ctx_values \<Rightarrow> string \<Rightarrow> 't \<Rightarrow> 't" where
  "GetValueFromContextOrDefault as_T ctx key def =
     (case (case ctx key of None \<Rightarrow> None | Some rawVal \<Rightarrow> as_T rawVal) of Some val \<Rightarrow> val | None \<Rightarrow> def)"

definition as_string :: "ctx_value \<Rightarrow> string option" where
  "as_string v = (case v of CtxString s \<Rightarrow> Some s | _ \<Rightarrow> None)"

definition GetRequestIDFromContext :: "ctx_values \<Rightarrow> string" where
  "GetRequestIDFromContext ctx = GetValueFromContextOrDefault as_string ctx RequestIdKey ''unknown''"

text \<open>\<open>xid\<close> is the identifier drawn.\<close>

definition NewRequestID :: "string \<Rightarrow> ctx_values \<Rightarrow> ctx_values" where
  "NewRequestID xid ctx = ctx(RequestIdKey \<mapsto> CtxString xid)"

definition SetRequestID :: "ctx_values \<Rightarrow> string \<Rightarrow> ctx_values" where
  "SetRequestID ctx requestID = ctx(RequestIdKey \<mapsto> CtxString requestID)"

record log_entry_of =
  le_Context :: "ctx_values option"
  le_Fields :: "(string, string) gomap"

definition GetLoggerFromContext :: "ctx_values \<Rightarrow> log_entry_of option \<Rightarrow> log_entry_of" where
  "GetLoggerFromContext ctx parentLogger =
     (let logger = (case parentLogger of Some l \<Rightarrow> l | None \<Rightarrow> \<lparr>le_Context = None, le_Fields = []\<rparr>);
          requestID = GetRequestIDFromContext ctx
      in logger\<lparr>le_Context := Some ctx,
           le_Fields := AList.update LoggerRequestIdKey requestID (le_Fields logger)\<rparr>)"

section \<open>Logging\<close>

record log_config =
  lc_Level :: string
  lc_Format :: string

datatype log_formatter = FmtRequestId | FmtJSON | FmtText

definition DefaultLogLevel :: string where "DefaultLogLevel = ''info''"
definition DefaultLogFormat :: string where "DefaultLogFormat = ''text''"

definition log_ApplyDefaults :: "log_config \<Rightarrow> log_config" where
  "log_ApplyDefaults c =
     (let c = (if lc_Level c = [] then c\<lparr>lc_Level := DefaultLogLevel\<rparr> else c)
      in if lc_Format c = [] then c\<lparr>lc_Format := DefaultLogFormat\<rparr> else c)"

definition log_DefaultConfig :: log_config where
  "log_DefaultConfig = log_ApplyDefaults \<lparr>lc_Level = [], lc_Format = []\<rparr>"

text \<open>\<open>ParseLevel\<close> is that of logrus. Validation also fills in the defaults.\<close>

definition log_Validate :: "(string \<Rightarrow> err + 'l) \<Rightarrow> log_config \<Rightarrow> log_config \<times> err option" where
  "log_Validate ParseLevel c =
     (let c = (if lc_Level c = [] then c\<lparr>lc_Level := DefaultLogLevel\<rparr> else c);
          c = (if lc_Format c = [] then c\<lparr>lc_Format := DefaultLogFormat\<rparr> else c)
      in (c, case ParseLevel (lc_Level c) of Inl e \<Rightarrow> Some e | Inr _ \<Rightarrow> None))"

text \<open>\<open>None\<close> is the panic of \<open>log.Panic\<close>.\<close>

definition LogLevel :: "(string \<Rightarrow> err + 'l) \<Rightarrow> string \<Rightarrow> 'l option" where
  "LogLevel ParseLevel level = (case ParseLevel level of Inl e \<Rightarrow> None | Inr l \<Rightarrow> Some l)"

definition LogFormatter :: "string \<Rightarrow> log_formatter" where
  "LogFormatter format =
     (if format = ''request-id'' then FmtRequestId
      else if format = ''json'' then FmtJSON
      else FmtText)"

record 'l logger_state =
  lg_formatter :: log_formatter
  lg_level :: 'l

text \<open>The formatter is set before the level is parsed, so a panic leaves it set.\<close>

definition SetLogFormatter ::
  "(string \<Rightarrow> err + 'l) \<Rightarrow> log_config \<Rightarrow> 'l logger_state \<Rightarrow> 'l logger_state \<times> bool" where
  "SetLogFormatter ParseLevel cfg lg =
     (let lg = lg\<lparr>lg_formatter := LogFormatter (lc_Format cfg)\<rparr>
      in case LogLevel ParseLevel (lc_Level cfg) of
           None \<Rightarrow> (lg, True)
         | Some l \<Rightarrow> (lg\<lparr>lg_level := l\<rparr>, False))"

definition DefaultLogger :: "(string \<Rightarrow> err + 'l) \<Rightarrow> 'l logger_state \<Rightarrow> 'l logger_state \<times> bool" where
  "DefaultLogger ParseLevel lg = SetLogFormatter ParseLevel log_DefaultConfig lg"

definition log_RegisterFlags :: "(string, flag_value) gomap" where
  "log_RegisterFlags =
     (let c = log_DefaultConfig in
     [(''log-level'', FString (lc_Level c)), (''log-format'', FString (lc_Format c))])"

definition log_BindFlags :: "flags \<Rightarrow> log_config \<Rightarrow> err + log_config" where
  "log_BindFlags fs c = fold (\<lambda>bind. bind)
     [bind_flag (get_string fs ''log-level'') (\<lambda>x c. c\<lparr>lc_Level := x\<rparr>),
      bind_flag (get_string fs ''log-format'') (\<lambda>x c. c\<lparr>lc_Format := x\<rparr>)]
     (Inr c)"

subsection \<open>The formatter with request identifiers\<close>

record log_line =
  ll_Context :: "ctx_values option"
  ll_Data :: "err + string"
  ll_Time :: string
  ll_Level :: string
  ll_Message :: string

definition logSize :: nat where "logSize = 5 * 1024"

definition entry_request_id :: "ctx_values option \<Rightarrow> string" where
  "entry_request_id ctx =
     (case ctx of
        None \<Rightarrow> ''unknown''
      | Some ctx \<Rightarrow>
          (case ctx ''rid'' of Some (CtxString s) \<Rightarrow> if s \<noteq> [] then s else ''unknown'' | _ \<Rightarrow> ''unknown''))"

definition log_data :: "string \<Rightarrow> string" where
  "log_data raw =
     (let raw = (if length raw = 2 then [] else raw)
      in if length raw > logSize then take logSize raw @ ''...'' else raw)"

text \<open>\<open>ll_Data\<close> is the result of marshalling the fields, \<open>ll_Time\<close> and \<open>ll_Level\<close> are formatted.\<close>

definition Format :: "log_line option \<Rightarrow> err + string" where
  "Format entry =
     (case entry of
        None \<Rightarrow> Inl (new_error ''empty entry'')
      | Some entry \<Rightarrow>
          (case ll_Data entry of
             Inl e \<Rightarrow> Inl (Errorf ''failed to marshal log data'' [e])
           | Inr raw \<Rightarrow>
               Inr (ll_Time entry @ '' ['' @ ll_Level entry @ ''] [rid:'' @ entry_request_id (ll_Context entry) @
                 ''] '' @ ll_Message entry @ '' '' @ log_data raw @ [CHR 0x0A])))"

section \<open>Middlewares that observe\<close>

record http_ctx =
  hx_Path :: string
  hx_FullPath :: string
  hx_Method :: string
  hx_Status :: int
  hx_Size :: int
  hx_ContentLength :: int
  hx_Values :: ctx_values
  hx_Errors :: "string list"
  hx_ClientIP :: string
  hx_UserAgent :: string
  hx_Referer :: string

type_synonym next_fn = "http_ctx \<Rightarrow> http_ctx"

definition requestid_Middleware :: "bool \<Rightarrow> string \<Rightarrow> next_fn \<Rightarrow> next_fn" where
  "requestid_Middleware Enabled xid next' c =
     (if \<not> Enabled then next' c
      else next' (c\<lparr>hx_Values := NewRequestID xid (hx_Values c)\<rparr>))"

record observer_config =
  oc_Enabled :: bool
  oc_SkipPaths :: "string list"

definition metrics_defaultSkipPaths :: "string list" where
  "metrics_defaultSkipPaths =
     [''/metrics'', ''/health'', ''/ready'', ''/healthz'', ''/readyz'', ''/swagger'']"

definition NewMetricsConfig :: "string list \<Rightarrow> observer_config" where
  "NewMetricsConfig skipPaths =
     \<lparr>oc_Enabled = False, oc_SkipPaths = Concat [metrics_defaultSkipPaths, skipPaths]\<rparr>"

record request_observation =
  ro_status :: int
  ro_path :: string
  ro_method :: string
  ro_milliseconds :: int
  ro_request_size :: int
  ro_response_size :: int

text \<open>\<open>start\<close> and \<open>stop\<close> are the times before and after the rest of the chain.\<close>

definition metrics_Middleware ::
  "observer_config \<Rightarrow> int \<Rightarrow> int \<Rightarrow> next_fn \<Rightarrow> http_ctx \<Rightarrow> request_observation list \<Rightarrow>
   http_ctx \<times> request_observation list" where
  "metrics_Middleware cfg start stop next' c obs =
     (if \<not> oc_Enabled cfg then (next' c, obs)
      else
        (let path = hx_Path c; method = hx_Method c; c = next' c in
         if path \<in> set (oc_SkipPaths cfg) then (c, obs)
         else (c, obs @ [\<lparr>ro_status = hx_Status c, ro_path = hx_FullPath c, ro_method = method,
             ro_milliseconds = (stop - start) div 1000000, ro_request_size = hx_ContentLength c,
             ro_response_size = max (hx_Size c) 0\<rparr>])))"

definition logger_defaultSkipPaths :: "string list" where
  "logger_defaultSkipPaths = [''/metrics'', ''/healthz'', ''/readyz'', ''/swagger'', ''/status'']"

definition NewLogger :: "string list \<Rightarrow> observer_config" where
  "NewLogger skipPaths = \<lparr>oc_Enabled = False, oc_SkipPaths = Concat [logger_defaultSkipPaths, skipPaths]\<rparr>"

record access_log =
  al_hostname :: string
  al_statusCode :: int
  al_latency :: int
  al_clientIP :: string
  al_method :: string
  al_path :: string
  al_referer :: string
  al_dataLength :: int
  al_userAgent :: string
  al_Context :: ctx_values
  al_errors :: "string list"

definition logger_Middleware ::
  "observer_config \<Rightarrow> err + string \<Rightarrow> int \<Rightarrow> int \<Rightarrow> next_fn \<Rightarrow> http_ctx \<Rightarrow> access_log list \<Rightarrow>
   http_ctx \<times> access_log list" where
  "logger_Middleware cfg Hostname start stop next' c log =
     (if \<not> oc_Enabled cfg then (next' c, log)
      else
        (let hostname = (case Hostname of Inl _ \<Rightarrow> ''unknown'' | Inr h \<Rightarrow> h); path = hx_Path c; c = next' c in
         if path \<in> set (oc_SkipPaths cfg) then (c, log)
         else (c, log @ [\<lparr>al_hostname = hostname, al_statusCode = hx_Status c,
             al_latency = (stop - start) div 1000000, al_clientIP = hx_ClientIP c, al_method = hx_Method c,
             al_path = path, al_referer = hx_Referer c, al_dataLength = max (hx_Size c) 0,
             al_userAgent = hx_UserAgent c, al_Context = hx_Values c, al_errors = hx_Errors c\<rparr>])))"

section \<open>Tracing\<close>

record trace_config =
  tc_Enabled :: bool
  tc_JaegerEndpoint :: string
  tc_ServiceName :: string
  tc_ServiceVersion :: string
  tc_Environment :: string
  tc_SkipPaths :: "string list"

definition trace_DefaultSkipPaths :: "string list" where
  "trace_DefaultSkipPaths = [''/metrics'', ''/healthz'', ''/readyz'', ''/swagger'']"

definition DefaultJaegerEndpoint :: string where
  "DefaultJaegerEndpoint = ''http://localhost:14268/api/traces''"

definition DefaultEnvironment :: string where
  "DefaultEnvironment = ''development''"

definition default_service_name :: "err + string \<Rightarrow> string" where
  "default_service_name Hostname =
     (case Hostname of Inl _ \<Rightarrow> ''unknown'' | Inr hostname \<Rightarrow> if hostname = [] then ''unknown'' else hostname)"

definition trace_ApplyDefaults :: "err + string \<Rightarrow> trace_config \<Rightarrow> trace_config" where
  "trace_ApplyDefaults Hostname cfg =
     cfg\<lparr>tc_ServiceName :=
         (if tc_ServiceName cfg = [] then default_service_name Hostname else tc_ServiceName cfg),
       tc_ServiceVersion := (if tc_ServiceVersion cfg = [] then ''0.0.0'' else tc_ServiceVersion cfg),
       tc_Environment := (if tc_Environment cfg = [] then DefaultEnvironment else tc_Environment cfg),
       tc_SkipPaths := (if length (tc_SkipPaths cfg) = 0 then trace_DefaultSkipPaths else tc_SkipPaths cfg),
       tc_JaegerEndpoint :=
         (if tc_JaegerEndpoint cfg = [] then DefaultJaegerEndpoint else tc_JaegerEndpoint cfg)\<rparr>"

definition trace_zero_config :: trace_config where
  "trace_zero_config =
     \<lparr>tc_Enabled = False, tc_JaegerEndpoint = [], tc_ServiceName = [], tc_ServiceVersion = [],
      tc_Environment = [], tc_SkipPaths = []\<rparr>"

definition trace_DefaultConfig :: "err + string \<Rightarrow> trace_config" where
  "trace_DefaultConfig Hostname = trace_ApplyDefaults Hostname trace_zero_config"

definition trace_RegisterFlags :: "err + string \<Rightarrow> (string, flag_value) gomap" where
  "trace_RegisterFlags Hostname =
     (let c = trace_DefaultConfig Hostname in
     [(''trace-endpoint'', FString (tc_JaegerEndpoint c)),
      (''trace-service-name'', FString (tc_ServiceName c)),
      (''trace-service-version'', FString (tc_ServiceVersion c)),
      (''trace-environment'', FString (tc_Environment c)),
      (''trace-enabled'', FBool (tc_Enabled c)),
      (''trace-skip-paths'', FStrings (tc_SkipPaths c))])"

definition trace_BindFlags :: "flags \<Rightarrow> trace_config \<Rightarrow> err + trace_config" where
  "trace_BindFlags fs c = fold (\<lambda>bind. bind)
     [bind_flag (wrap_flag ''jaeger endpoint'' (get_string fs ''trace-endpoint'')) (\<lambda>x c. c\<lparr>tc_JaegerEndpoint := x\<rparr>),
      bind_flag (wrap_flag ''service name'' (get_string fs ''trace-service-name'')) (\<lambda>x c. c\<lparr>tc_ServiceName := x\<rparr>),
      bind_flag (wrap_flag ''service version'' (get_string fs ''trace-service-version''))
        (\<lambda>x c. c\<lparr>tc_ServiceVersion := x\<rparr>),
      bind_flag (wrap_flag ''environment'' (get_string fs ''trace-environment'')) (\<lambda>x c. c\<lparr>tc_Environment := x\<rparr>),
      bind_flag (wrap_flag ''enabled'' (get_bool fs ''trace-enabled'')) (\<lambda>x c. c\<lparr>tc_Enabled := x\<rparr>),
      bind_flag (wrap_flag ''skip paths'' (get_strings fs ''trace-skip-paths'')) (\<lambda>x c. c\<lparr>tc_SkipPaths := x\<rparr>)]
     (Inr c)"

definition trace_Validate :: "trace_config \<Rightarrow> err option" where
  "trace_Validate c =
     (if tc_Enabled c then
        (if tc_JaegerEndpoint c = [] then Some (new_error ''jaeger endpoint is required when tracing is enabled'')
         else if tc_ServiceName c = [] then Some (new_error ''service name is required when tracing is enabled'')
         else if tc_ServiceVersion c = [] then
           Some (new_error ''service version is required when tracing is enabled'')
         else if tc_Environment c = [] then Some (new_error ''environment is required when tracing is enabled'')
         else None)
      else None)"

text \<open>The global state of the package and of \<open>otel\<close> and \<open>logrus\<close>: a provider, whether one was
  registered, and the number of hooks.\<close>

datatype tracer = NoopTracer | LiveTracer string string string string

record otel_state =
  ot_registered :: bool
  ot_provider :: "tracer option"
  ot_hooks :: nat

record trace_provider =
  tp_provider :: tracer
  tp_skipPaths :: "string list"
  tp_serviceName :: string

text \<open>The first result is the caller's configuration with the defaults; \<open>jaeger\<close> makes the exporter.\<close>

definition trace_NewForConfig ::
  "err + string \<Rightarrow> (string \<Rightarrow> err option) \<Rightarrow> trace_config option \<Rightarrow> otel_state \<Rightarrow>
   trace_config option \<times> (err + trace_provider) \<times> otel_state" where
  "trace_NewForConfig Hostname jaeger c st =
     (let cfg = trace_ApplyDefaults Hostname (case c of None \<Rightarrow> trace_zero_config | Some cfg \<Rightarrow> cfg);
          caller = map_option (\<lambda>_. cfg) c
      in if \<not> tc_Enabled cfg then
           (caller, Inr \<lparr>tp_provider = NoopTracer, tp_skipPaths = [], tp_serviceName = []\<rparr>, st)
         else case jaeger (tc_JaegerEndpoint cfg) of
             Some e \<Rightarrow> (caller, Inl e, st)
           | None \<Rightarrow>
               (let tp = LiveTracer (tc_JaegerEndpoint cfg) (tc_ServiceName cfg) (tc_ServiceVersion cfg)
                      (tc_Environment cfg)
                in (caller,
                    Inr \<lparr>tp_provider = tp, tp_skipPaths = tc_SkipPaths cfg, tp_serviceName = tc_ServiceName cfg\<rparr>,
                    st\<lparr>ot_registered := True, ot_provider := Some tp, ot_hooks := Suc (ot_hooks st)\<rparr>)))"

definition IsTracerProviderRegistered :: "otel_state \<Rightarrow> bool" where
  "IsTracerProviderRegistered st = ot_registered st"

definition trace_SkipPaths :: "string list \<Rightarrow> string \<Rightarrow> bool" where
  "trace_SkipPaths skipPaths path =
     (let allSkipPaths = Concat [skipPaths, trace_DefaultSkipPaths] in path \<notin> set allSkipPaths)"

text \<open>The options of the middleware that \<open>RouteRegister\<close> puts into the router.\<close>

datatype otelgin_option = WithTracerProvider tracer | WithPropagators | WithFilter "string \<Rightarrow> bool"

definition RouteRegister :: "trace_provider \<Rightarrow> otelgin_option list \<Rightarrow> string \<times> otelgin_option list" where
  "RouteRegister p opts =
     (tp_serviceName p,
      (let defaultOptions = [WithTracerProvider (tp_provider p)]
       in if length opts = 0 then
            defaultOptions @ [WithPropagators, WithFilter (trace_SkipPaths (tp_skipPaths p))]
          else defaultOptions))"

definition trace_Register :: "trace_provider \<Rightarrow> string \<times> otelgin_option list" where
  "trace_Register p = RouteRegister p []"

definition trace_Close :: "(tracer \<Rightarrow> err option) \<Rightarrow> trace_provider \<Rightarrow> err option" where
  "trace_Close Shutdown p = (case tp_provider p of NoopTracer \<Rightarrow> None | tp \<Rightarrow> Shutdown tp)"

section \<open>Flags\<close>

definition log_values :: "log_config \<Rightarrow> (string, flag_value) gomap" where
  "log_values c =
     [(''log-level'', FString (lc_Level c)),
      (''log-format'', FString (lc_Format c))]"

lemma bind_log_fields:
  "bind_flag (map_option (\<lambda>v. Inr (f0 v)) flag) (\<lambda>x c. c\<lparr>lc_Level := x\<rparr>) (Inr (c :: log_config)) = Inr (c\<lparr>lc_Level := bound_value f0 flag (lc_Level c)\<rparr>)"
  "bind_flag (map_option (\<lambda>v. Inr (f1 v)) flag) (\<lambda>x c. c\<lparr>lc_Format := x\<rparr>) (Inr (c :: log_config)) = Inr (c\<lparr>lc_Format := bound_value f1 flag (lc_Format c)\<rparr>)"
  by (rule bind_field, simp)+

interpretation log_flags: flag_config log_RegisterFlags log_values log_BindFlags
proof (unfold_locales, goal_cases)
  case (1 c)
  show ?case by (simp add: log_values_def log_RegisterFlags_def Let_def)
next
  case (2 fs c)
  note typed = 2 [unfolded parsed_flags_def log_RegisterFlags_def Let_def, simplified, unfolded same_kind_simps]
  show ?case
    unfolding log_BindFlags_def log_values_def overlay_def
    by (simp add: get_typed typed bind_log_fields bound_flag)
qed

definition trace_values :: "trace_config \<Rightarrow> (string, flag_value) gomap" where
  "trace_values c =
     [(''trace-endpoint'', FString (tc_JaegerEndpoint c)),
      (''trace-service-name'', FString (tc_ServiceName c)),
      (''trace-service-version'', FString (tc_ServiceVersion c)),
      (''trace-environment'', FString (tc_Environment c)),
      (''trace-enabled'', FBool (tc_Enabled c)),
      (''trace-skip-paths'', FStrings (tc_SkipPaths c))]"

lemma bind_trace_fields:
  "bind_flag (map_option (\<lambda>v. Inr (f0 v)) flag) (\<lambda>x c. c\<lparr>tc_JaegerEndpoint := x\<rparr>) (Inr (c :: trace_config)) = Inr (c\<lparr>tc_JaegerEndpoint := bound_value f0 flag (tc_JaegerEndpoint c)\<rparr>)"
  "bind_flag (map_option (\<lambda>v. Inr (f1 v)) flag) (\<lambda>x c. c\<lparr>tc_ServiceName := x\<rparr>) (Inr (c :: trace_config)) = Inr (c\<lparr>tc_ServiceName := bound_value f1 flag (tc_ServiceName c)\<rparr>)"
  "bind_flag (map_option (\<lambda>v. Inr (f2 v)) flag) (\<lambda>x c. c\<lparr>tc_ServiceVersion := x\<rparr>) (Inr (c :: trace_config)) = Inr (c\<lparr>tc_ServiceVersion := bound_value f2 flag (tc_ServiceVersion c)\<rparr>)"
  "bind_flag (map_option (\<lambda>v. Inr (f3 v)) flag) (\<lambda>x c. c\<lparr>tc_Environment := x\<rparr>) (Inr (c :: trace_config)) = Inr (c\<lparr>tc_Environment := bound_value f3 flag (tc_Environment c)\<rparr>)"
  "bind_flag (map_option (\<lambda>v. Inr (f4 v)) flag) (\<lambda>x c. c\<lparr>tc_Enabled := x\<rparr>) (Inr (c :: trace_config)) = Inr (c\<lparr>tc_Enabled := bound_value f4 flag (tc_Enabled c)\<rparr>)"
  "bind_flag (map_option (\<lambda>v. Inr (f5 v)) flag) (\<lambda>x c. c\<lparr>tc_SkipPaths := x\<rparr>) (Inr (c :: trace_config)) = Inr (c\<lparr>tc_SkipPaths := bound_value f5 flag (tc_SkipPaths c)\<rparr>)"
  by (rule bind_field, simp)+

interpretation trace_flags: flag_config "trace_RegisterFlags Hostname" trace_values trace_BindFlags
  for Hostname :: "err + string"
proof (unfold_locales, goal_cases)
  case (1 c)
  show ?case by (simp add: trace_values_def trace_RegisterFlags_def Let_def)
next
  case (2 fs c)
  note typed = 2 [unfolded parsed_flags_def trace_RegisterFlags_def Let_def, simplified, unfolded same_kind_simps]
  show ?case
    unfolding trace_BindFlags_def trace_values_def overlay_def
    by (simp add: get_typed typed bind_trace_fields bound_flag)
qed

section \<open>The contract of an observer\<close>

text \<open>
  A middleware that observes passes on what the rest of the chain did and adds an entry for the
  requests it counts. Over a sequence of requests it leaves one entry per counted request, in order.
\<close>

fun serve ::
  "(next_fn \<Rightarrow> http_ctx \<Rightarrow> 'l list \<Rightarrow> http_ctx \<times> 'l list) \<Rightarrow> next_fn \<Rightarrow> http_ctx list \<Rightarrow> 'l list \<Rightarrow>
   http_ctx list \<times> 'l list" where
  "serve mw next' [] log = ([], log)"
| "serve mw next' (c # cs) log =
     (case mw next' c log of (c, log) \<Rightarrow> case serve mw next' cs log of (cs, log) \<Rightarrow> (c # cs, log))"

locale observer =
  fixes mw :: "next_fn \<Rightarrow> http_ctx \<Rightarrow> 'l list \<Rightarrow> http_ctx \<times> 'l list"
    and counts :: "http_ctx \<Rightarrow> bool"
    and entry :: "http_ctx \<Rightarrow> http_ctx \<Rightarrow> 'l"
  assumes observes: "mw next' c log = (next' c, log @ (if counts c then [entry c (next' c)] else []))"
begin

lemma serve_observes:
  "serve mw next' cs log = (map next' cs, log @ map (\<lambda>c. entry c (next' c)) (filter counts cs))"
  by (induction cs arbitrary: log) (simp_all add: observes)

lemma serve_transparent: "fst (serve mw next' cs log) = map next' cs"
  by (simp add: serve_observes)

lemma serve_counts: "length (snd (serve mw next' cs log)) = length log + length (filter counts cs)"
  by (simp add: serve_observes)

end

definition observed :: "observer_config \<Rightarrow> http_ctx \<Rightarrow> bool" where
  "observed cfg c \<longleftrightarrow> oc_Enabled cfg \<and> hx_Path c \<notin> set (oc_SkipPaths cfg)"

interpretation metrics_observer: observer "metrics_Middleware cfg start stop" "observed cfg"
  "\<lambda>before after. \<lparr>ro_status = hx_Status after, ro_path = hx_FullPath after, ro_method = hx_Method before,
     ro_milliseconds = (stop - start) div 1000000, ro_request_size = hx_ContentLength after,
     ro_response_size = max (hx_Size after) 0\<rparr>"
  for cfg start stop
  by unfold_locales (simp add: metrics_Middleware_def observed_def Let_def)

interpretation logger_observer: observer "logger_Middleware cfg Hostname start stop" "observed cfg"
  "\<lambda>before after. \<lparr>al_hostname = (case Hostname of Inl _ \<Rightarrow> ''unknown'' | Inr h \<Rightarrow> h),
     al_statusCode = hx_Status after, al_latency = (stop - start) div 1000000,
     al_clientIP = hx_ClientIP after, al_method = hx_Method after, al_path = hx_Path before,
     al_referer = hx_Referer after, al_dataLength = max (hx_Size after) 0,
     al_userAgent = hx_UserAgent after, al_Context = hx_Values after, al_errors = hx_Errors after\<rparr>"
  for cfg Hostname start stop
  by unfold_locales (simp add: logger_Middleware_def observed_def Let_def)

section \<open>Lemmas\<close>

lemma length_log_data: "length (log_data raw) \<le> logSize + 3"
  by (simp add: log_data_def Let_def)

lemma trace_defaults_ne [simp]:
  "default_service_name H \<noteq> []" "DefaultEnvironment \<noteq> []" "DefaultJaegerEndpoint \<noteq> []"
  "trace_DefaultSkipPaths \<noteq> []"
  by (simp_all add: default_service_name_def DefaultEnvironment_def DefaultJaegerEndpoint_def
      trace_DefaultSkipPaths_def split: sum.split)

lemma trace_ApplyDefaults_idem [simp]:
  "trace_ApplyDefaults H (trace_ApplyDefaults H c) = trace_ApplyDefaults H c"
  by (simp add: trace_ApplyDefaults_def)

text \<open>With the defaults every trace configuration is valid.\<close>

lemma trace_ApplyDefaults_valid: "trace_Validate (trace_ApplyDefaults H c) = None"
  by (simp add: trace_Validate_def trace_ApplyDefaults_def)

text \<open>
  \<open>RouteRegister\<close> drops the options of its caller: with any option at all the middleware has neither
  these options nor the propagators and the filter of skipped paths.
\<close>

lemma RouteRegister_drops_options:
  "opts \<noteq> [] \<Longrightarrow> RouteRegister p opts = (tp_serviceName p, [WithTracerProvider (tp_provider p)])"
  by (simp add: RouteRegister_def)

text \<open>A second provider is registered over the first and adds another hook to the logger.\<close>

lemma second_provider_hooks:
  assumes "tc_Enabled cfg" "\<And>u. jaeger u = None"
  shows "ot_hooks (snd (snd (trace_NewForConfig H jaeger (Some cfg)
    (snd (snd (trace_NewForConfig H jaeger (Some cfg) st)))))) = ot_hooks st + 2"
proof -
  have "tc_Enabled (trace_ApplyDefaults H cfg)"
    using assms(1) by (simp add: trace_ApplyDefaults_def)
  with assms(2) show ?thesis by (simp add: trace_NewForConfig_def Let_def)
qed

section \<open>Properties\<close>

text \<open>
  Inside a request that went through the request-id middleware every log line that can be formatted
  carries the identifier drawn for the request, and holds at most 5 KiB of data besides its message.
\<close>

theorem request_id_in_log_lines:
  assumes "xid \<noteq> []"
  shows "requestid_Middleware True xid (\<lambda>c. c\<lparr>hx_Errors := [case Format (Some
      \<lparr>ll_Context = Some (hx_Values c), ll_Data = Inr raw, ll_Time = t, ll_Level = l, ll_Message = m\<rparr>) of
      Inl _ \<Rightarrow> [] | Inr line \<Rightarrow> line]\<rparr>) c =
    c\<lparr>hx_Values := NewRequestID xid (hx_Values c),
      hx_Errors := [t @ '' ['' @ l @ ''] [rid:'' @ xid @ ''] '' @ m @ '' '' @ log_data raw @ [CHR 0x0A]]\<rparr> \<and>
    GetRequestIDFromContext (NewRequestID xid (hx_Values c)) = xid \<and>
    length (log_data raw) \<le> 5 * 1024 + 3"
  using assms length_log_data [of raw]
  by (simp add: requestid_Middleware_def Format_def entry_request_id_def NewRequestID_def RequestIdKey_def
      GetRequestIDFromContext_def GetValueFromContextOrDefault_def as_string_def logSize_def)

theorem request_id_in_log_lines_witness:
  "GetRequestIDFromContext (NewRequestID ''abc'' (\<lambda>_. None)) = ''abc''"
  using request_id_in_log_lines [of "''abc''" "''{}''" "[]" "[]" "[]"
      "\<lparr>hx_Path = [], hx_FullPath = [], hx_Method = [], hx_Status = 0, hx_Size = 0, hx_ContentLength = 0,
        hx_Values = (\<lambda>_. None), hx_Errors = [], hx_ClientIP = [], hx_UserAgent = [], hx_Referer = []\<rparr>"]
  by simp

text \<open>
  Over any sequence of requests the metrics middleware changes no response and leaves exactly one
  observation per request whose path is not skipped, with the status of its response.
\<close>

theorem metrics_one_per_request:
  "fst (serve (metrics_Middleware cfg start stop) next' cs obs) = map next' cs \<and>
   map ro_status (snd (serve (metrics_Middleware cfg start stop) next' cs obs)) =
     map ro_status obs @ map (\<lambda>c. hx_Status (next' c)) (filter (observed cfg) cs)"
  unfolding metrics_observer.serve_observes by (simp add: comp_def)

end
