(* ===== verification/Gzip.thy ===== *)
theory Gzip
  imports Errors Strings
begin

text \<open>
  The compression middleware, \<open>pkg/middleware/gzip\<close>.

  A handler is described by the calls it makes on the gin context and on its compressor, in their
  order. What it asks the context, the size of the response so far, is an argument that may depend on
  the calls made until then. Bodies are of type \<open>'b\<close>; \<open>NewReader\<close> is \<open>gzip.NewReader\<close>. The pool of
  compressors is not modelled: each request gets one that was reset to its writer.
\<close>

section \<open>Configuration\<close>

datatype 'b gin_call =
    CallNext
  | AbortWithError int err
  | DelRequestHeader string
  | SetBody 'b
  | CloseBody 'b
  | SetHeader string string
  | AddHeader string string
  | ResetToWriter | ResetToDiscard
  | WrapWriter | UnwrapWriter
  | CloseCompressor

record 'b gz_request =
  gr_Header :: "string \<Rightarrow> string"
  gr_Path :: string
  gr_Body :: "'b option"

type_synonym excluded_extensions = "(string, unit) gomap"

record 'b gzip_options =
  excludedExtensions :: excluded_extensions
  excludedPaths :: "string list"
  excludedPathesRegexs :: "(string \<Rightarrow> bool) list"
  decompressFn :: "('b gz_request \<Rightarrow> 'b gin_call list) option"
  decompressOnly :: bool
  customShouldCompressFn :: "('b gz_request \<Rightarrow> bool) option"

definition NewExcludedExtensions :: "string list \<Rightarrow> excluded_extensions" where
  "NewExcludedExtensions extensions = fold (\<lambda>e res. AList.update e () res) extensions []"

definition Extensions_Contains :: "excluded_extensions \<Rightarrow> string \<Rightarrow> bool" where
  "Extensions_Contains e target \<longleftrightarrow> map_of e target \<noteq> None"

definition DefaultExcludedExtentions :: excluded_extensions where
  "DefaultExcludedExtentions = NewExcludedExtensions [''.png'', ''.gif'', ''.jpeg'', ''.jpg'']"

definition NewExcludedPaths :: "string list \<Rightarrow> string list" where
  "NewExcludedPaths paths = paths"

fun Paths_Contains :: "string list \<Rightarrow> string \<Rightarrow> bool" where
  "Paths_Contains [] requestURI = False"
| "Paths_Contains (path # e) requestURI =
     (if prefix path requestURI then True else Paths_Contains e requestURI)"

text \<open>\<open>compile\<close> is \<open>regexp.Compile\<close>; \<open>MustCompile\<close> panics where it fails, here \<open>None\<close>.\<close>

fun NewExcludedPathesRegexs ::
  "(string \<Rightarrow> (string \<Rightarrow> bool) option) \<Rightarrow> string list \<Rightarrow> (string \<Rightarrow> bool) list option" where
  "NewExcludedPathesRegexs compile [] = Some []"
| "NewExcludedPathesRegexs compile (reg # regexs) =
     (case compile reg of
        None \<Rightarrow> None
      | Some r \<Rightarrow> map_option ((#) r) (NewExcludedPathesRegexs compile regexs))"

fun Regexs_Contains :: "(string \<Rightarrow> bool) list \<Rightarrow> string \<Rightarrow> bool" where
  "Regexs_Contains [] requestURI = False"
| "Regexs_Contains (reg # e) requestURI = (if reg requestURI then True else Regexs_Contains e requestURI)"

type_synonym 'b gzip_option = "'b gzip_options \<Rightarrow> 'b gzip_options"

definition WithExcludedExtensions :: "string list \<Rightarrow> 'b gzip_option" where
  "WithExcludedExtensions args o' = o'\<lparr>excludedExtensions := NewExcludedExtensions args\<rparr>"

definition WithExcludedPaths :: "string list \<Rightarrow> 'b gzip_option" where
  "WithExcludedPaths args o' = o'\<lparr>excludedPaths := NewExcludedPaths args\<rparr>"

definition WithExcludedPathsRegexs ::
  "(string \<Rightarrow> (string \<Rightarrow> bool) option) \<Rightarrow> string list \<Rightarrow> 'b gzip_options \<Rightarrow> 'b gzip_options option" where
  "WithExcludedPathsRegexs compile args o' =
     map_option (\<lambda>rs. o'\<lparr>excludedPathesRegexs := rs\<rparr>) (NewExcludedPathesRegexs compile args)"

definition WithDecompressFn :: "('b gz_request \<Rightarrow> 'b gin_call list) option \<Rightarrow> 'b gzip_option" where
  "WithDecompressFn fn o' = o'\<lparr>decompressFn := fn\<rparr>"

definition WithDecompressOnly :: "'b gzip_option" where
  "WithDecompressOnly o' = o'\<lparr>decompressOnly := True\<rparr>"

definition WithCustomShouldCompressFn :: "('b gz_request \<Rightarrow> bool) option \<Rightarrow> 'b gzip_option" where
  "WithCustomShouldCompressFn fn o' = o'\<lparr>customShouldCompressFn := fn\<rparr>"

text \<open>The levels of \<open>compress/gzip\<close>.\<close>

definition DefaultCompression :: int where "DefaultCompression = -1"
definition NoCompression :: int where "NoCompression = 0"
definition BestSpeed :: int where "BestSpeed = 1"
definition BestCompression :: int where "BestCompression = 9"
definition HuffmanOnly :: int where "HuffmanOnly = -2"

definition isCompressionLevelValid :: "int \<Rightarrow> bool" where
  "isCompressionLevelValid level \<longleftrightarrow>
     level = DefaultCompression \<or> level = NoCompression \<or> (BestSpeed \<le> level \<and> level \<le> BestCompression)"

record 'b gzip_handler =
  gh_config :: "'b gzip_options"
  gh_level :: int

definition newGzipHandler :: "int \<Rightarrow> 'b gzip_option list \<Rightarrow> 'b gzip_handler" where
  "newGzipHandler level opts =
     (let cfg = \<lparr>excludedExtensions = DefaultExcludedExtentions, excludedPaths = [],
            excludedPathesRegexs = [], decompressFn = None, decompressOnly = False,
            customShouldCompressFn = None\<rparr>;
          cfg = fold (\<lambda>o' cfg. o' cfg) opts cfg;
          level = (if \<not> isCompressionLevelValid level then 4 else level)
      in \<lparr>gh_config = cfg, gh_level = level\<rparr>)"

section \<open>Decompressing requests\<close>

text \<open>
  The loop over the content encodings: the calls, the body and the bodies to close, and whether it has
  returned. It goes on after the answer 415.
\<close>

fun decompress_loop ::
  "('b \<Rightarrow> err + 'b) \<Rightarrow> string list \<Rightarrow> 'b \<Rightarrow> 'b list \<Rightarrow> 'b gin_call list \<times> 'b list \<times> bool" where
  "decompress_loop NewReader [] body toClose = ([], toClose, False)"
| "decompress_loop NewReader (encoding # encodings) body toClose =
     (let trimmedValue = TrimSpace encoding in
      if trimmedValue = [] then decompress_loop NewReader encodings body toClose
      else
        (let unsupported = (if trimmedValue \<noteq> ''gzip''
             then [AbortWithError 415 (Sentinel ErrUnsupportedContentEncoding)] else [])
         in case NewReader body of
              Inl e \<Rightarrow> (unsupported @ [AbortWithError 400 e], toClose, True)
            | Inr r \<Rightarrow>
                (case decompress_loop NewReader encodings r (toClose @ [body]) of
                   (calls, toClose, returned) \<Rightarrow> (unsupported @ SetBody r # calls, toClose, returned))))"

definition DefaultDecompressHandle ::
  "('b \<Rightarrow> err + 'b) \<Rightarrow> 'b gz_request \<Rightarrow> 'b gin_call list" where
  "DefaultDecompressHandle NewReader c =
     (case gr_Body c of
        None \<Rightarrow> []
      | Some body \<Rightarrow>
          (let contentEncodingField = split_at (CHR '','') (ToLower (gr_Header c ''Content-Encoding'')) in
           if length contentEncodingField = 0 then [CallNext]
           else case decompress_loop NewReader contentEncodingField body [] of
               (calls, toClose, returned) \<Rightarrow>
                 calls @
                 (if returned then []
                  else [DelRequestHeader ''Content-Encoding'', DelRequestHeader ''Content-Length'', CallNext]) @
                 map CloseBody (rev toClose)))"

section \<open>Compressing responses\<close>

text \<open>\<open>filepath.Ext\<close>.\<close>

definition filepath_Ext :: "string \<Rightarrow> string" where
  "filepath_Ext path =
     (let r = takeWhile (\<lambda>c. c \<noteq> CHR ''/'') (rev path) in
      if CHR ''.'' \<in> set r then CHR ''.'' # rev (takeWhile (\<lambda>c. c \<noteq> CHR ''.'') r) else [])"

definition shouldCompress :: "'b gzip_options \<Rightarrow> 'b gz_request \<Rightarrow> bool" where
  "shouldCompress g req =
     (if \<not> strings_Contains (gr_Header req ''Accept-Encoding'') ''gzip'' \<or>
         strings_Contains (gr_Header req ''Connection'') ''Upgrade'' then False
      else
        (let extension = filepath_Ext (gr_Path req) in
         if Extensions_Contains (excludedExtensions g) extension \<or>
            Paths_Contains (excludedPaths g) (gr_Path req) \<or>
            Regexs_Contains (excludedPathesRegexs g) (gr_Path req) then False
         else True))"

text \<open>\<open>Size calls\<close> is the size of the response after these calls, less than zero when nothing was written.\<close>

definition finish_compression :: "('b gin_call list \<Rightarrow> int) \<Rightarrow> 'b gin_call list \<Rightarrow> 'b gin_call list" where
  "finish_compression Size calls =
     (let calls = (if Size calls < 0
            then calls @ [ResetToDiscard, UnwrapWriter, SetHeader ''Content-Encoding'' []] else calls);
          calls = calls @ [CloseCompressor]
      in if Size calls > -1 then calls @ [SetHeader ''Content-Length'' (itoa (nat (Size calls)))] else calls)"

definition Handle ::
  "('b gin_call list \<Rightarrow> int) \<Rightarrow> 'b gzip_options \<Rightarrow> 'b gz_request \<Rightarrow> 'b gin_call list" where
  "Handle Size g c =
     (let calls = (case decompressFn g of
            Some fn \<Rightarrow> if strings_Contains (gr_Header c ''Content-Encoding'') ''gzip'' then fn c else []
          | None \<Rightarrow> [])
      in if decompressOnly g \<or>
            (case customShouldCompressFn g of Some f \<Rightarrow> \<not> f c | None \<Rightarrow> \<not> shouldCompress g c) then calls
         else
           (let originalEtag = gr_Header c ''ETag'' in
            finish_compression Size
              (calls @ [ResetToWriter, SetHeader ''Content-Encoding'' ''gzip'', AddHeader ''Vary'' ''Accept-Encoding''] @
               (if originalEtag \<noteq> [] \<and> \<not> prefix ''W/'' originalEtag then [SetHeader ''ETag'' (''W/'' @ originalEtag)]
                else []) @
               [WrapWriter, CallNext])))"

record gzip_config =
  gz_Enabled :: bool
  gz_CompressionMode :: int

definition Gzip :: "('b gin_call list \<Rightarrow> int) \<Rightarrow> int \<Rightarrow> 'b gzip_option list \<Rightarrow> 'b gz_request \<Rightarrow> 'b gin_call list" where
  "Gzip Size level options = Handle Size (gh_config (newGzipHandler level options))"

definition gzip_Middleware :: "('b gin_call list \<Rightarrow> int) \<Rightarrow> gzip_config \<Rightarrow> 'b gz_request \<Rightarrow> 'b gin_call list" where
  "gzip_Middleware Size cfg =
     (if \<not> gz_Enabled cfg then (\<lambda>c. [CallNext]) else Gzip Size (gz_CompressionMode cfg) [])"

text \<open>
  The writer that takes the place of the response writer: what it passes on to the compressor and to
  the writer below. A writer below without \<open>Hijack\<close> is \<open>None\<close>.
\<close>

datatype writer_call = DelHeader string | CompressorWrite string | CompressorFlush | WriterFlush | WriterWriteHeader int

definition gzipWriter_WriteString :: "string \<Rightarrow> writer_call list" where
  "gzipWriter_WriteString s = [DelHeader ''Content-Length'', CompressorWrite s]"

definition gzipWriter_Write :: "string \<Rightarrow> writer_call list" where
  "gzipWriter_Write data' = [DelHeader ''Content-Length'', CompressorWrite data']"

definition gzipWriter_Flush :: "writer_call list" where
  "gzipWriter_Flush = [CompressorFlush, WriterFlush]"

definition gzipWriter_WriteHeader :: "int \<Rightarrow> writer_call list" where
  "gzipWriter_WriteHeader code = [DelHeader ''Content-Length'', WriterWriteHeader code]"

definition gzipWriter_Hijack :: "(err + 'h) option \<Rightarrow> err + 'h" where
  "gzipWriter_Hijack hijacker =
     (case hijacker of
        None \<Rightarrow> Inl (new_error ''the ResponseWriter doesn't support the Hijacker interface'')
      | Some r \<Rightarrow> r)"

section \<open>What a client receives\<close>

text \<open>
  The response behind the calls of one request whose handlers write \<open>out\<close>: the handlers run at the
  first \<open>Next\<close> that is not after an abort; what they write goes to the compressor once the writer is
  wrapped; the compressor writes its stream, that of nothing for an empty one, when it is closed.
\<close>

record response_state =
  rs_ran :: bool
  rs_aborted :: bool
  rs_wrapped :: bool
  rs_discard :: bool
  rs_compressed :: string
  rs_bytes :: string

definition response_start :: response_state where
  "response_start =
     \<lparr>rs_ran = False, rs_aborted = False, rs_wrapped = False, rs_discard = False, rs_compressed = [],
      rs_bytes = []\<rparr>"

fun response_step :: "(string \<Rightarrow> string) \<Rightarrow> string \<Rightarrow> 'b gin_call \<Rightarrow> response_state \<Rightarrow> response_state" where
  "response_step gz out CallNext r =
     (if rs_ran r \<or> rs_aborted r then r
      else if rs_wrapped r then r\<lparr>rs_ran := True, rs_compressed := out\<rparr>
      else r\<lparr>rs_ran := True, rs_bytes := rs_bytes r @ out\<rparr>)"
| "response_step gz out (AbortWithError code e) r = r\<lparr>rs_aborted := True\<rparr>"
| "response_step gz out WrapWriter r = r\<lparr>rs_wrapped := True\<rparr>"
| "response_step gz out UnwrapWriter r = r\<lparr>rs_wrapped := False\<rparr>"
| "response_step gz out ResetToDiscard r = r\<lparr>rs_discard := True\<rparr>"
| "response_step gz out ResetToWriter r = r\<lparr>rs_discard := False, rs_compressed := []\<rparr>"
| "response_step gz out CloseCompressor r =
     (if rs_discard r then r else r\<lparr>rs_bytes := rs_bytes r @ gz (rs_compressed r)\<rparr>)"
| "response_step gz out _ r = r"

definition response :: "(string \<Rightarrow> string) \<Rightarrow> string \<Rightarrow> 'b gin_call list \<Rightarrow> response_state" where
  "response gz out calls = fold (response_step gz out) calls response_start"

text \<open>
  The size the writer reports: below zero until a status line was sent, which writing and aborting do.
\<close>

definition response_size :: "(string \<Rightarrow> string) \<Rightarrow> string \<Rightarrow> 'b gin_call list \<Rightarrow> int" where
  "response_size gz out calls =
     (let r = response gz out calls in
      if rs_bytes r = [] \<and> rs_compressed r = [] \<and> \<not> rs_aborted r then -1
      else int (length (rs_bytes r) + length (rs_compressed r)))"

section \<open>Lemmas\<close>

lemma Extensions_Contains_New: "Extensions_Contains (NewExcludedExtensions es) e \<longleftrightarrow> e \<in> set es"
proof -
  have "map_of (fold (\<lambda>e res. AList.update e () res) es m) e \<noteq> None \<longleftrightarrow> e \<in> set es \<or> map_of m e \<noteq> None" for m
    by (induction es arbitrary: m) (auto simp: update_conv')
  then show ?thesis by (simp add: Extensions_Contains_def NewExcludedExtensions_def)
qed

lemma Paths_Contains_iff: "Paths_Contains ps u \<longleftrightarrow> (\<exists>p \<in> set ps. prefix p u)"
  by (induction ps) auto

lemma Regexs_Contains_iff: "Regexs_Contains rs u \<longleftrightarrow> (\<exists>r \<in> set rs. r u)"
  by (induction rs) auto

text \<open>\<open>strings.Split\<close> gives at least one part: the branch of \<open>DefaultDecompressHandle\<close> for none is dead.\<close>

lemma no_empty_split: "length (split_at sep s) \<noteq> 0"
  by simp

text \<open>Every level of the configuration that \<open>compress/gzip\<close> accepts is kept, except \<open>HuffmanOnly\<close>.\<close>

lemma HuffmanOnly_replaced: "gh_level (newGzipHandler HuffmanOnly opts) = 4"
  by (simp add: newGzipHandler_def isCompressionLevelValid_def HuffmanOnly_def DefaultCompression_def
      NoCompression_def BestSpeed_def Let_def)

lemma decompress_nested:
  assumes "\<And>x. NewReader (gz x) = Inr x" "\<And>e. e \<in> set es \<Longrightarrow> TrimSpace e \<in> {[], ''gzip''}"
  shows "decompress_loop NewReader es ((gz ^^ length (filter (\<lambda>e. TrimSpace e \<noteq> []) es)) b) cl =
    (map (\<lambda>i. SetBody ((gz ^^ i) b)) (rev [0..<length (filter (\<lambda>e. TrimSpace e \<noteq> []) es)]),
     cl @ map (\<lambda>i. (gz ^^ i) b) (rev [1..<Suc (length (filter (\<lambda>e. TrimSpace e \<noteq> []) es))]), False)"
  using assms(2)
proof (induction es arbitrary: cl)
  case (Cons e es)
  let ?n = "length (filter (\<lambda>e. TrimSpace e \<noteq> []) es)"
  show ?case
  proof (cases "TrimSpace e = []")
    case True
    with Cons show ?thesis by simp
  next
    case False
    with Cons.prems [of e] have e: "TrimSpace e = ''gzip''" by simp
    have "NewReader ((gz ^^ Suc ?n) b) = Inr ((gz ^^ ?n) b)" using assms(1) by simp
    with Cons e show ?thesis by (simp add: Let_def)
  qed
qed simp

lemma response_SetBody [simp]: "fold (response_step gz out) (map (\<lambda>i. SetBody (f i)) xs) r = r"
  by (induction xs) simp_all

lemma response_CloseBody [simp]: "fold (response_step gz out) (map CloseBody xs) r = r"
  by (induction xs) simp_all

lemma response_append: "response gz out (xs @ ys) = fold (response_step gz out) ys (response gz out xs)"
  by (simp add: response_def)

text \<open>The end of a compressed response, by what was written until then.\<close>

lemma response_finish:
  assumes "response gz out calls = r" "rs_ran r \<or> rs_aborted r" "\<not> rs_discard r"
  shows "rs_bytes (response gz out (finish_compression (response_size gz out) calls @ [CallNext])) =
    (if rs_bytes r = [] \<and> rs_compressed r = [] \<and> \<not> rs_aborted r then [] else rs_bytes r @ gz (rs_compressed r))"
proof (cases "rs_bytes r = [] \<and> rs_compressed r = [] \<and> \<not> rs_aborted r")
  case True
  then have "response_size gz out calls < 0" using assms(1) by (simp add: response_size_def Let_def)
  with True assms show ?thesis by (simp add: finish_compression_def Let_def response_append)
next
  case False
  then have "\<not> response_size gz out calls < 0" using assms(1) by (auto simp: response_size_def Let_def)
  with False assms show ?thesis by (auto simp: finish_compression_def Let_def response_append)
qed

definition compression_start :: "string \<Rightarrow> 'b gin_call list" where
  "compression_start etag =
     [ResetToWriter, SetHeader ''Content-Encoding'' ''gzip'', AddHeader ''Vary'' ''Accept-Encoding''] @
     (if etag \<noteq> [] \<and> \<not> prefix ''W/'' etag then [SetHeader ''ETag'' (''W/'' @ etag)] else []) @
     [WrapWriter, CallNext]"

lemma fold_compression_start:
  "fold (response_step gz out) (compression_start etag :: 'b gin_call list) r =
   response_step gz out (CallNext :: 'b gin_call) (r\<lparr>rs_discard := False, rs_compressed := [], rs_wrapped := True\<rparr>)"
  by (simp add: compression_start_def)

lemma Handle_compresses:
  assumes "\<not> decompressOnly g" "customShouldCompressFn g = None" "shouldCompress g c"
  shows "Handle Size g c = finish_compression Size
    ((case decompressFn g of
        Some fn \<Rightarrow> if strings_Contains (gr_Header c ''Content-Encoding'') ''gzip'' then fn c else []
      | None \<Rightarrow> []) @ compression_start (gr_Header c ''ETag''))"
  using assms by (simp add: Handle_def compression_start_def Let_def)

lemma shouldCompress_iff:
  "shouldCompress g c \<longleftrightarrow> strings_Contains (gr_Header c ''Accept-Encoding'') ''gzip'' \<and>
   \<not> strings_Contains (gr_Header c ''Connection'') ''Upgrade'' \<and>
   map_of (excludedExtensions g) (filepath_Ext (gr_Path c)) = None \<and>
   (\<forall>p \<in> set (excludedPaths g). \<not> prefix p (gr_Path c)) \<and>
   (\<forall>r \<in> set (excludedPathesRegexs g). \<not> r (gr_Path c))"
  unfolding shouldCompress_def Extensions_Contains_def Paths_Contains_iff Regexs_Contains_iff Let_def
  by (simp only: if_False if_True simp_thms split: if_split) blast

section \<open>Properties\<close>

text \<open>
  C35. A request body that was compressed as many times as its header names the encoding is handed on
  as the original: one layer is taken off per name, the last body set is the original one, the rest of
  the chain runs once, and every body that was read from is closed, the innermost first.
\<close>

theorem nested_gzip_roundtrip:
  assumes "\<And>x. NewReader (gz x) = Inr x"
    and "encodings = split_at (CHR '','') (ToLower (gr_Header c ''Content-Encoding''))"
    and "\<And>e. e \<in> set encodings \<Longrightarrow> TrimSpace e \<in> {[], ''gzip''}"
    and "n = length (filter (\<lambda>e. TrimSpace e \<noteq> []) encodings)" "gr_Body c = Some ((gz ^^ n) b)"
  shows "DefaultDecompressHandle NewReader c =
    map (\<lambda>i. SetBody ((gz ^^ i) b)) (rev [0..<n]) @
    [DelRequestHeader ''Content-Encoding'', DelRequestHeader ''Content-Length'', CallNext] @
    map (\<lambda>i. CloseBody ((gz ^^ i) b)) [1..<Suc n]"
  using decompress_nested [of NewReader gz encodings b "[]", OF assms(1) assms(3)] assms(2,4,5)
  by (simp add: DefaultDecompressHandle_def Let_def rev_map [symmetric] comp_def del: upt_Suc)

definition twice_compressed :: "nat gz_request" where
  "twice_compressed =
     \<lparr>gr_Header = (\<lambda>h. if h = ''Content-Encoding'' then ''gzip, GZIP'' else ''gzip''), gr_Path = ''/a'',
      gr_Body = Some 7\<rparr>"

theorem nested_gzip_roundtrip_witness:
  "DefaultDecompressHandle (\<lambda>n. Inr (n - 1)) twice_compressed =
   [SetBody 6, SetBody 5, DelRequestHeader ''Content-Encoding'', DelRequestHeader ''Content-Length'', CallNext,
    CloseBody 6, CloseBody 7]"
proof -
  have e: "[''gzip'', '' gzip''] = split_at (CHR '','') (ToLower (gr_Header twice_compressed ''Content-Encoding''))"
    by code_simp
  have t: "TrimSpace ''gzip'' = ''gzip''" "TrimSpace '' gzip'' = ''gzip''" by code_simp+
  have "DefaultDecompressHandle (\<lambda>n. Inr (n - 1)) twice_compressed =
    map (\<lambda>i. SetBody ((Suc ^^ i) 5)) (rev [0..<2]) @
    [DelRequestHeader ''Content-Encoding'', DelRequestHeader ''Content-Length'', CallNext] @
    map (\<lambda>i. CloseBody ((Suc ^^ i) 5)) [1..<Suc 2]"
    by (rule nested_gzip_roundtrip [OF _ e]) (use t in \<open>auto simp: twice_compressed_def\<close>)
  then show ?thesis by (simp add: numeral_2_eq_2 upt_rec)
qed

text \<open>
  Without decompression a client that asks for it gets the compressed form of what the handlers
  wrote, nothing when they wrote nothing, and everybody else, also for the excluded paths and
  extensions, gets exactly what they wrote.
\<close>

theorem compressed_response:
  assumes "decompressFn (g :: 'b gzip_options) = None" "customShouldCompressFn g = None"
  shows "rs_bytes (response gz out (Handle (response_size gz out) g c @ [CallNext])) =
    (if \<not> decompressOnly g \<and> out \<noteq> [] \<and> strings_Contains (gr_Header c ''Accept-Encoding'') ''gzip'' \<and>
        \<not> strings_Contains (gr_Header c ''Connection'') ''Upgrade'' \<and>
        map_of (excludedExtensions g) (filepath_Ext (gr_Path c)) = None \<and>
        (\<forall>p \<in> set (excludedPaths g). \<not> prefix p (gr_Path c)) \<and>
        (\<forall>r \<in> set (excludedPathesRegexs g). \<not> r (gr_Path c))
     then gz out else out)"
proof (cases "\<not> decompressOnly g \<and> shouldCompress g c")
  case True
  have "response gz out (compression_start (gr_Header c ''ETag'') :: 'b gin_call list) =
      response_start\<lparr>rs_ran := True, rs_compressed := out, rs_wrapped := True\<rparr>"
    by (simp add: response_def fold_compression_start) (simp add: response_start_def)
  from response_finish [OF this]
  have "rs_bytes (response gz out (finish_compression (response_size gz out)
      (compression_start (gr_Header c ''ETag'') :: 'b gin_call list) @ [CallNext])) = (if out = [] then [] else gz out)"
    by (simp add: response_start_def)
  with True assms show ?thesis
    unfolding shouldCompress_iff [symmetric] by (simp add: Handle_compresses)
next
  case False
  then have "Handle (response_size gz out) g c = []" using assms by (auto simp: Handle_def)
  moreover have "rs_bytes (response gz out [CallNext :: 'b gin_call]) = out"
    by (simp add: response_def response_start_def)
  ultimately show ?thesis using False unfolding shouldCompress_iff [symmetric] by auto
qed

theorem compressed_response_witness:
  "rs_bytes (response (\<lambda>s. ''Z'' @ s) ''ok'' (Handle (response_size (\<lambda>s. ''Z'' @ s) ''ok'')
     (gh_config (newGzipHandler 9 [])) twice_compressed @ [CallNext])) = ''Zok''"
  by (subst compressed_response) (simp_all add: newGzipHandler_def DefaultExcludedExtentions_def
      NewExcludedExtensions_def twice_compressed_def filepath_Ext_def prefix_def Let_def)

text \<open>
  With the decompression of the package a compressed request to a client that takes compressed
  responses gets a broken one: the handlers run before the writer is wrapped, so their output is sent
  as it is, and the compressor then appends the stream of an empty text.
\<close>

theorem decompression_breaks_responses:
  assumes "decompressFn g = Some (DefaultDecompressHandle NewReader)" "\<not> decompressOnly g"
    and "customShouldCompressFn g = None" "shouldCompress g c" "out \<noteq> []"
    and "ToLower (gr_Header c ''Content-Encoding'') = ''gzip''" "gr_Header c ''Content-Encoding'' = ''gzip''"
    and "gr_Body c = Some body" "NewReader body = Inr plain"
  shows "rs_bytes (response gz out (Handle (response_size gz out) g c @ [CallNext])) = out @ gz []"
proof -
  have d: "DefaultDecompressHandle NewReader c =
      [SetBody plain, DelRequestHeader ''Content-Encoding'', DelRequestHeader ''Content-Length'', CallNext,
       CloseBody body]"
    using assms(6,8,9) by (simp add: DefaultDecompressHandle_def TrimSpace_def trim_right_def trim_left_def
        is_space_def Let_def)
  have "sublist ''gzip'' ''gzip''" by simp
  then have h: "strings_Contains (gr_Header c ''Content-Encoding'') ''gzip''"
    unfolding assms(7) strings_Contains_iff .
  have "response gz out (DefaultDecompressHandle NewReader c @ compression_start (gr_Header c ''ETag'')) =
      response_start\<lparr>rs_ran := True, rs_bytes := out, rs_wrapped := True\<rparr>"
    unfolding response_def fold_append d comp_apply fold_compression_start
    by (simp add: response_start_def)
  from response_finish [OF this]
  have "rs_bytes (response gz out (finish_compression (response_size gz out)
      (DefaultDecompressHandle NewReader c @ compression_start (gr_Header c ''ETag'')) @ [CallNext])) = out @ gz []"
    using assms(5) by (simp add: response_start_def)
  with assms(1-5) h show ?thesis by (simp add: Handle_compresses)
qed

definition unzip_ok :: "nat \<Rightarrow> err + nat" where
  "unzip_ok n = Inr n"

theorem decompression_breaks_responses_witness:
  "rs_bytes (response (\<lambda>s. ''Z'' @ s) ''ok'' (Handle (response_size (\<lambda>s. ''Z'' @ s) ''ok'')
     (WithDecompressFn (Some (DefaultDecompressHandle unzip_ok)) (gh_config (newGzipHandler 9 [])))
     \<lparr>gr_Header = (\<lambda>h. ''gzip''), gr_Path = ''/a'', gr_Body = Some 7\<rparr> @ [CallNext])) = ''okZ''"
proof -
  have c: "shouldCompress (WithDecompressFn (Some (DefaultDecompressHandle unzip_ok)) (gh_config (newGzipHandler 9 [])))
      \<lparr>gr_Header = (\<lambda>h. ''gzip''), gr_Path = ''/a'', gr_Body = Some (7 :: nat)\<rparr>"
    by code_simp
  have l: "ToLower ''gzip'' = ''gzip''" by code_simp
  show ?thesis
    by (subst decompression_breaks_responses [where NewReader = unzip_ok and body = 7 and plain = 7])
      (use c l in \<open>simp_all add: WithDecompressFn_def newGzipHandler_def unzip_ok_def Let_def\<close>)
qed

end
