(* ===== verification/Ginresponse.thy ===== *)
theory Ginresponse
  imports HTTP_Client Slices
begin

text \<open>
  Endpoints that return their response, \<open>pkg/ginresponse\<close>.

  A body is given by its dynamic type as \<open>Wrap\<close> tells them apart; other values are of type \<open>'v\<close>. What
  \<open>Wrap\<close> does to the gin context and the log is the sequence of its calls; gin itself is not modelled.
  A response is a pointer: the wrapper fills in the body and the status of the one it was given.
\<close>

section \<open>Responses\<close>

text \<open>A reader is what copying it writes and whether the copy fails.\<close>

datatype 'v body_value =
    BNil | BErrorValue err | BText string | BBytes string | BReader string "err option" | BValue 'v

record 'v gin_response =
  gp_Body :: "'v body_value"
  gp_StatusCode :: int
  gp_Headers :: "(string, string) gomap"
  gp_Err :: "err option"
  gp_Stream :: "(string \<times> err option) option"

definition response_New :: "'v body_value \<Rightarrow> 'v gin_response" where
  "response_New body =
     \<lparr>gp_Body = body, gp_StatusCode = 200, gp_Headers = [], gp_Err = None, gp_Stream = None\<rparr>"

definition NewWithError :: "err option \<Rightarrow> 'v gin_response" where
  "NewWithError e =
     \<lparr>gp_Body = BNil, gp_StatusCode = 0, gp_Headers = [], gp_Err = e, gp_Stream = None\<rparr>"

definition NewWithStream :: "(string \<times> err option) option \<Rightarrow> 'v gin_response" where
  "NewWithStream body =
     \<lparr>gp_Body = BNil, gp_StatusCode = 200, gp_Headers = [], gp_Err = None, gp_Stream = body\<rparr>"

definition WithStatus :: "int \<Rightarrow> 'v gin_response \<Rightarrow> 'v gin_response" where
  "WithStatus code r = r\<lparr>gp_StatusCode := code\<rparr>"

definition response_WithHeaders :: "(string, string) gomap \<Rightarrow> 'v gin_response \<Rightarrow> 'v gin_response" where
  "response_WithHeaders headers r = r\<lparr>gp_Headers := MergeMap (gp_Headers r) [headers]\<rparr>"

definition WithHeader :: "string \<Rightarrow> string \<Rightarrow> 'v gin_response \<Rightarrow> 'v gin_response" where
  "WithHeader key val r = r\<lparr>gp_Headers := AList.update key val (gp_Headers r)\<rparr>"

definition WithError :: "err option \<Rightarrow> 'v gin_response \<Rightarrow> 'v gin_response" where
  "WithError e r = r\<lparr>gp_Err := e\<rparr>"

section \<open>The wrapper\<close>

datatype 'v reply_call =
    ReplyStatus int
  | ReplyHeader string string
  | ReplyString int err
  | ReplyText int string
  | ReplyData int string string
  | ReplyCopy string
  | ReplyAbort int err
  | ReplyJSON int "'v body_value"
  | LogRequest | LogNoContent
  | LogError int err | LogText int string | LogBytes int nat | LogCopyFailed int err | LogStream int
  | LogBody int "'v body_value"

record 'v wrapper =
  ErrorToBody :: "err \<Rightarrow> 'v body_value"
  ErrorToStatus :: "err \<Rightarrow> int"
  w_SkipResponseLog :: bool
  w_SkipPaths :: "string list"

type_synonym 'v wrapper_option = "'v wrapper \<Rightarrow> 'v wrapper \<times> err option"

definition WithErrorToBody :: "(err \<Rightarrow> 'v body_value) \<Rightarrow> 'v wrapper_option" where
  "WithErrorToBody f w = (w\<lparr>ErrorToBody := f\<rparr>, None)"

definition WithErrorToStatus :: "(err \<Rightarrow> int) \<Rightarrow> 'v wrapper_option" where
  "WithErrorToStatus f w = (w\<lparr>ErrorToStatus := f\<rparr>, None)"

definition SkipResponseLog :: "bool \<Rightarrow> 'v wrapper_option" where
  "SkipResponseLog skip w = (w\<lparr>w_SkipResponseLog := skip\<rparr>, None)"

text \<open>\<open>error_json\<close> is \<open>gin.H{"error": err.Error()}\<close>, \<open>order\<close> the order of the table of statuses.\<close>

fun NewWrapper_loop :: "'v wrapper_option list \<Rightarrow> 'v wrapper \<Rightarrow> err + 'v wrapper" where
  "NewWrapper_loop [] w = Inr w"
| "NewWrapper_loop (option # options) w =
     (case option w of (w, Some e) \<Rightarrow> Inl e | (w, None) \<Rightarrow> NewWrapper_loop options w)"

definition NewWrapper ::
  "(err \<Rightarrow> 'v) \<Rightarrow> (sentinel \<times> int) list \<Rightarrow> 'v wrapper_option list \<Rightarrow> err + 'v wrapper" where
  "NewWrapper error_json order options =
     NewWrapper_loop options
       \<lparr>ErrorToBody = (\<lambda>e. BValue (error_json e)), ErrorToStatus = (\<lambda>e. ErrAsStatusCode order (Some e)),
        w_SkipResponseLog = False, w_SkipPaths = []\<rparr>"

text \<open>
  \<open>Wrap\<close>: the calls and the response as it leaves it. \<open>has_url\<close> says that the request and its URL are
  there; without them the target is not called.
\<close>

definition log_if :: "'v wrapper \<Rightarrow> 'v reply_call \<Rightarrow> 'v reply_call list" where
  "log_if w l = (if \<not> w_SkipResponseLog w then [l] else [])"

definition Wrap_reply :: "'v wrapper \<Rightarrow> 'v gin_response \<Rightarrow> 'v reply_call list" where
  "Wrap_reply w resp =
     (case gp_Body resp of
        BErrorValue r \<Rightarrow> ReplyString (gp_StatusCode resp) r # log_if w (LogError (gp_StatusCode resp) r)
      | BText r \<Rightarrow> ReplyText (gp_StatusCode resp) r # log_if w (LogText (gp_StatusCode resp) r)
      | BBytes r \<Rightarrow>
          ReplyData (gp_StatusCode resp) ''application/octet-stream'' r #
          log_if w (LogBytes (gp_StatusCode resp) (length r))
      | BReader r e \<Rightarrow>
          ReplyCopy r #
          (case e of
             Some e \<Rightarrow> log_if w (LogCopyFailed (gp_StatusCode resp) e) @ [ReplyAbort 500 e]
           | None \<Rightarrow> log_if w (LogStream (gp_StatusCode resp)))
      | body \<Rightarrow> log_if w (LogBody (gp_StatusCode resp) body) @ [ReplyJSON (gp_StatusCode resp) body])"

definition Wrap ::
  "'v wrapper \<Rightarrow> bool \<Rightarrow> (unit \<Rightarrow> 'v gin_response option) \<Rightarrow> 'v reply_call list \<times> 'v gin_response option" where
  "Wrap w has_url target =
     (if \<not> has_url then ([], None)
      else
        (case target () of
           None \<Rightarrow> (log_if w LogRequest @ [ReplyStatus 204] @ log_if w LogNoContent, None)
         | Some resp \<Rightarrow>
             (let headers = map (\<lambda>(header, val). ReplyHeader header val) (gp_Headers resp);
                  resp = (case gp_Err resp of
                      None \<Rightarrow> resp
                    | Some e \<Rightarrow>
                        (let resp = resp\<lparr>gp_Body := ErrorToBody w e\<rparr>
                         in if gp_StatusCode resp = 0 then resp\<lparr>gp_StatusCode := ErrorToStatus w e\<rparr> else resp))
              in (log_if w LogRequest @ headers @ Wrap_reply w resp, Some resp))))"

text \<open>The function for legacy handlers, with the default wrapper.\<close>

definition legacy_Wrap ::
  "'v wrapper \<Rightarrow> bool \<Rightarrow> (unit \<Rightarrow> int \<times> 'v body_value) \<Rightarrow> 'v reply_call list \<times> 'v gin_response option" where
  "legacy_Wrap DefaultWrapper has_url target =
     Wrap DefaultWrapper has_url (\<lambda>_. case target () of (status, body) \<Rightarrow> Some (WithStatus status (response_New body)))"

section \<open>Lemmas\<close>

text \<open>The reply of a wrapper: its calls that answer the client.\<close>

fun is_reply :: "'v reply_call \<Rightarrow> bool" where
  "is_reply (ReplyStatus _) = True"
| "is_reply (ReplyString _ _) = True"
| "is_reply (ReplyText _ _) = True"
| "is_reply (ReplyData _ _ _) = True"
| "is_reply (ReplyCopy _) = True"
| "is_reply (ReplyAbort _ _) = True"
| "is_reply (ReplyJSON _ _) = True"
| "is_reply _ = False"

definition replies :: "'v reply_call list \<Rightarrow> 'v reply_call list" where
  "replies calls = filter is_reply calls"

lemma replies_append [simp]: "replies (xs @ ys) = replies xs @ replies ys"
  by (simp add: replies_def)

lemma replies_headers [simp]: "replies (map (\<lambda>(h, v). ReplyHeader h v) hs) = []"
  by (induction hs) (auto simp: replies_def)

lemma replies_log [simp]: "\<not> is_reply l \<Longrightarrow> replies (log_if w l) = []"
  by (simp add: replies_def log_if_def)

text \<open>\<open>NewWithStream\<close>: no reader is ever copied, the client gets a JSON null.\<close>

lemma stream_is_ignored:
  "replies (fst (Wrap w True (\<lambda>_. Some (NewWithStream (Some s))))) = [ReplyJSON 200 BNil]"
  by (simp add: Wrap_def NewWithStream_def Wrap_reply_def) (simp add: replies_def)

text \<open>The status of a response whose body is a reader is never sent.\<close>

lemma reader_ignores_status:
  "replies (fst (Wrap w True (\<lambda>_. Some (WithStatus code (response_New (BReader text None)))))) = [ReplyCopy text]"
  by (simp add: Wrap_def WithStatus_def response_New_def Wrap_reply_def) (simp add: replies_def log_if_def)

section \<open>Properties\<close>

text \<open>
  An error keeps its identity over the wire: an endpoint that fails with an error of the status
  table is answered with its status and the body of the error, and the client's translation of that
  status is the same error, unless the endpoint has set another status.
\<close>

theorem wrapped_error_roundtrip:
  assumes "set order = set lookupErrAsStatus" "NewWrapper error_json order [] = Inr w"
  shows "\<exists>status. replies (fst (Wrap w True (\<lambda>_. Some (NewWithError (Some (Sentinel (Http h))))))) =
      [ReplyJSON status (BValue (error_json (Sentinel (Http h))))] \<and>
    StatusCodeAsErr status = Some (Sentinel (Http h)) \<and>
    (code \<noteq> 0 \<longrightarrow>
      replies (fst (Wrap w True (\<lambda>_. Some (WithStatus code (NewWithError (Some (Sentinel (Http h)))))))) =
        [ReplyJSON code (BValue (error_json (Sentinel (Http h))))])"
proof -
  obtain c where c: "(c, Http h) \<in> set lookupStatusAsErr" using every_http_error_has_a_status by blast
  have w: "w = \<lparr>ErrorToBody = (\<lambda>e. BValue (error_json e)), ErrorToStatus = (\<lambda>e. ErrAsStatusCode order (Some e)),
      w_SkipResponseLog = False, w_SkipPaths = []\<rparr>"
    using assms(2) by (simp add: NewWrapper_def)
  have "replies (fst (Wrap w True (\<lambda>_. Some (NewWithError (Some (Sentinel (Http h))))))) =
      [ReplyJSON c (BValue (error_json (Sentinel (Http h))))]"
    using ErrAsStatusCode_table [OF assms(1) c]
    by (simp add: Wrap_def NewWithError_def Wrap_reply_def w) (simp add: replies_def)
  moreover have "code \<noteq> 0 \<longrightarrow>
      replies (fst (Wrap w True (\<lambda>_. Some (WithStatus code (NewWithError (Some (Sentinel (Http h)))))))) =
        [ReplyJSON code (BValue (error_json (Sentinel (Http h))))]"
    by (simp add: Wrap_def NewWithError_def WithStatus_def Wrap_reply_def w) (simp add: replies_def)
  ultimately show ?thesis using StatusCodeAsErr_table [OF c] by blast
qed

theorem wrapped_error_roundtrip_witness:
  "\<exists>status. replies (fst (Wrap
      \<lparr>ErrorToBody = (\<lambda>e. BValue e), ErrorToStatus = (\<lambda>e. ErrAsStatusCode lookupErrAsStatus (Some e)),
       w_SkipResponseLog = False, w_SkipPaths = []\<rparr> True
      (\<lambda>_. Some (NewWithError (Some (Sentinel (Http ErrConflict))))))) =
      [ReplyJSON status (BValue (Sentinel (Http ErrConflict)))] \<and>
    StatusCodeAsErr status = Some (Sentinel (Http ErrConflict))"
  using wrapped_error_roundtrip [of lookupErrAsStatus "\<lambda>e. e" _ ErrConflict 0] by (auto simp: NewWrapper_def)

end
