(* ===== verification/Utilities.thy ===== *)
theory Utilities
  imports Errors
begin

text \<open>
  Patches, \<open>pkg/patch\<close>, and typed files, \<open>pkg/iofs\<close>.

  JSON and the patch library are arguments: raw JSON is a string, decoded patches are of type \<open>'p\<close>. A
  file system maps names to contents; \<open>DirFS\<close> is that of \<open>os\<close>, by directory. A panic is \<open>None\<close>.
\<close>

section \<open>Patches\<close>

record ('t, 'm, 'p) json_lib =
  jl_Marshal :: "'t \<Rightarrow> err + string"
  jl_MarshalMap :: "'m \<Rightarrow> err + string"
  jl_Unmarshal :: "string \<Rightarrow> 't \<times> err option"
  jl_DecodePatch :: "string \<Rightarrow> err + 'p"
  jl_Apply :: "'p \<Rightarrow> string \<Rightarrow> err + string"
  jl_MergePatch :: "string \<Rightarrow> string \<Rightarrow> err + string"

definition JsonPatch :: string where "JsonPatch = ''application/json-patch+json''"
definition MergePatch :: string where "MergePatch = ''application/merge-patch+json''"

definition Raw_patch :: "('t, 'm, 'p) json_lib \<Rightarrow> string \<Rightarrow> string \<Rightarrow> string \<Rightarrow> err + string" where
  "Raw_patch J original patch patchType =
     (if patchType = JsonPatch then
        (case jl_DecodePatch J patch of
           Inl e \<Rightarrow> Inl e
         | Inr decodedPatch \<Rightarrow> jl_Apply J decodedPatch original)
      else if patchType = MergePatch then jl_MergePatch J original patch
      else Inl (Sentinel ErrUnsupportedPatchType))"

text \<open>The object is \<open>None\<close> where the code returns \<open>nil\<close>; a failed decoding returns what was decoded.\<close>

definition Merge :: "('t, 'm, 'p) json_lib \<Rightarrow> 't \<Rightarrow> 'm \<Rightarrow> 't option \<times> err option" where
  "Merge J original patch =
     (case jl_Marshal J original of
        Inl e \<Rightarrow> (None, Some e)
      | Inr rawOriginal \<Rightarrow>
          (case jl_MarshalMap J patch of
             Inl e \<Rightarrow> (None, Some e)
           | Inr rawPatch \<Rightarrow>
               (case Raw_patch J rawOriginal rawPatch MergePatch of
                  Inl e \<Rightarrow> (None, Some e)
                | Inr rawMerged \<Rightarrow> (case jl_Unmarshal J rawMerged of (merged, e) \<Rightarrow> (Some merged, e)))))"

definition JSON_patch :: "('t, 'm, 'p) json_lib \<Rightarrow> 't \<Rightarrow> 'p \<Rightarrow> 't option \<times> err option" where
  "JSON_patch J original patch =
     (case jl_Marshal J original of
        Inl e \<Rightarrow> (None, Some e)
      | Inr rawOriginal \<Rightarrow>
          (case jl_Apply J patch rawOriginal of
             Inl e \<Rightarrow> (None, Some e)
           | Inr rawMerged \<Rightarrow> (case jl_Unmarshal J rawMerged of (merged, e) \<Rightarrow> (Some merged, e))))"

text \<open>A raw JSON patch and the same patch decoded agree.\<close>

lemma Raw_JSON_agree:
  assumes "jl_DecodePatch J patch = Inr p" "jl_Marshal J original = Inr raw"
  shows "JSON_patch J original p =
    (case Raw_patch J raw patch JsonPatch of
       Inl e \<Rightarrow> (None, Some e)
     | Inr merged \<Rightarrow> (Some (fst (jl_Unmarshal J merged)), snd (jl_Unmarshal J merged)))"
  using assms by (simp add: JSON_patch_def Raw_patch_def split: sum.split prod.split)

section \<open>Files\<close>

definition filepath_Split :: "string \<Rightarrow> string \<times> string" where
  "filepath_Split path =
     (let n = length (takeWhile (\<lambda>c. c \<noteq> CHR ''/'') (rev path))
      in (take (length path - n) path, drop (length path - n) path))"

definition ReadFileFS :: "(string \<Rightarrow> err + string) \<Rightarrow> string \<Rightarrow> err + string" where
  "ReadFileFS sysfs name = (case sysfs name of Inl e \<Rightarrow> Inl e | Inr b \<Rightarrow> Inr b)"

definition ReadFile :: "(string \<Rightarrow> string \<Rightarrow> err + string) \<Rightarrow> string \<Rightarrow> err + string" where
  "ReadFile DirFS name =
     (case filepath_Split name of (dir, file) \<Rightarrow>
      case ReadFileFS (DirFS dir) file of Inl e \<Rightarrow> Inl e | Inr b \<Rightarrow> Inr b)"

definition ReadFileOrDie :: "(string \<Rightarrow> string \<Rightarrow> err + string) \<Rightarrow> string \<Rightarrow> string option" where
  "ReadFileOrDie DirFS name = (case ReadFile DirFS name of Inl e \<Rightarrow> None | Inr f \<Rightarrow> Some f)"

definition file_Bytes :: "string \<Rightarrow> string" where "file_Bytes f = f"

definition file_String :: "string \<Rightarrow> string" where "file_String f = f"

definition file_Json :: "(string \<Rightarrow> 't \<times> err option) \<Rightarrow> string \<Rightarrow> 't \<times> err option" where
  "file_Json Unmarshal f = (case Unmarshal f of (data', Some e) \<Rightarrow> (data', Some e) | (data', None) \<Rightarrow> (data', None))"

definition file_JsonOrDie :: "(string \<Rightarrow> 't \<times> err option) \<Rightarrow> string \<Rightarrow> 't option" where
  "file_JsonOrDie Unmarshal f = (case file_Json Unmarshal f of (_, Some e) \<Rightarrow> None | (data', None) \<Rightarrow> Some data')"

lemma filepath_Split_append: "filepath_Split name = (dir, file) \<Longrightarrow> dir @ file = name"
  by (auto simp: filepath_Split_def Let_def)

text \<open>
  A name without a directory is looked up in \<open>os.DirFS("")\<close>, which refuses every name: such a file
  is never read, even when it exists in the working directory.
\<close>

lemma ReadFile_plain_name:
  assumes "\<And>f. isl (DirFS [] f)" "CHR ''/'' \<notin> set name"
  shows "isl (ReadFile DirFS name)"
proof -
  have tw: "takeWhile (\<lambda>c. c \<noteq> CHR ''/'') (rev name) = rev name"
    using assms(2) by (auto simp: takeWhile_eq_all_conv)
  have "filepath_Split name = ([], name)"
    unfolding filepath_Split_def tw Let_def by simp
  with assms(1) [of name] show ?thesis
    by (cases "DirFS [] name") (simp_all add: ReadFile_def ReadFileFS_def)
qed

end
