(* ===== verification/Proxy.thy ===== *)
theory Proxy
  imports Transport
begin

text \<open>
  The reverse proxy, \<open>pkg/ginserver/proxy\<close>: a client made from the configuration, the routes it is
  registered for, the choice of the target and the handler that relays a request.

  The handler's effect on the response writer is the list of calls it makes; \<open>io.Copy\<close> to the
  client, which may fail, is an argument. The world \<open>'s\<close> is that of the backend.
\<close>

section \<open>Configuration\<close>

record route =
  Prefix :: string
  Target :: string

record proxy_config =
  pc_HTTPConfig :: client_config
  pc_BasePath :: string
  pc_Routes :: "route list"

record 'cl proxy =
  px_basePath :: string
  px_httpClient :: 'cl
  px_routes :: "route list"

definition proxy_NewForConfig ::
  "('c, 'k) tls_env \<Rightarrow> 's tripperware \<Rightarrow> proxy_config \<Rightarrow> err + ('s, 'c, 'k, 'r) client proxy" where
  "proxy_NewForConfig E dflt cfg =
     (case client_NewForConfig E dflt (pc_HTTPConfig cfg) [] of
        Inl e \<Rightarrow> Inl (Errorf ''failed to create HTTP client'' [e])
      | Inr httpClient \<Rightarrow>
          Inr \<lparr>px_basePath = pc_BasePath cfg, px_httpClient = httpClient, px_routes = pc_Routes cfg\<rparr>)"

section \<open>Registration\<close>

definition anyMethods :: "string list" where
  "anyMethods = [''GET'', ''POST'', ''PUT'', ''PATCH'', ''HEAD'', ''OPTIONS'', ''DELETE'', ''CONNECT'',
     ''TRACE'']"

text \<open>The patterns, by method, that \<open>Register\<close> binds to the handler.\<close>

definition proxy_Register :: "'cl proxy \<Rightarrow> (string \<times> string) list" where
  "proxy_Register s =
     (let basePath = TrimSuffix (px_basePath s) ''/''
      in map (\<lambda>method. (method, basePath @ ''/*proxyPath'')) anyMethods)"

section \<open>Targets\<close>

definition CutPrefix :: "string \<Rightarrow> string \<Rightarrow> string option" where
  "CutPrefix s pre = (if prefix pre s then Some (drop (length pre) s) else None)"

fun targetURL_loop :: "string \<Rightarrow> string \<Rightarrow> route list \<Rightarrow> err + string" where
  "targetURL_loop basePath path [] = Inl (Errorf path [Sentinel (Http ErrBadRequest)])"
| "targetURL_loop basePath path (route # routes) =
     (case CutPrefix path (basePath @ Prefix route) of
        Some tail \<Rightarrow> Inr (Target route @ tail)
      | None \<Rightarrow> targetURL_loop basePath path routes)"

definition targetURL :: "'cl proxy \<Rightarrow> string \<Rightarrow> err + string" where
  "targetURL s path = targetURL_loop (px_basePath s) path (px_routes s)"

section \<open>The handler\<close>

text \<open>The request as it comes in, and the calls on the writer.\<close>

record incoming =
  in_Method :: string
  in_Path :: string
  in_RawQuery :: string
  in_Header :: headers
  in_Body :: string

datatype proxy_call =
    AbortJSON int string err
  | SetHeaders headers
  | SetStatus int
  | CopyBody string

definition Proxy ::
  "(string \<Rightarrow> err option) \<Rightarrow> ('s, 'v) http_client proxy \<Rightarrow> incoming \<Rightarrow> 's \<Rightarrow> 's \<times> proxy_call list" where
  "Proxy Copy s c w =
     (case targetURL s (in_Path c) of
        Inl e \<Rightarrow> (w, [AbortJSON 400 ''Failed to get target URL: '' e])
      | Inr target \<Rightarrow>
          (let target = (if in_RawQuery c \<noteq> [] then target @ ''?'' @ in_RawQuery c else target) in
           case NewRequest (cl_Http (px_httpClient s)) (in_Method c) target (Some (in_Body c)) of
             Inl e \<Rightarrow> (w, [AbortJSON 400 ''Failed to create request: '' e])
           | Inr req \<Rightarrow>
               (let req = req\<lparr>Header := in_Header c\<rparr> in
                case Exec_request (px_httpClient s) req [] w of
                  (w, resp) \<Rightarrow>
                    (case Error resp of
                       Some e \<Rightarrow> (w, [AbortJSON 502 ''Backend error: '' e])
                     | None \<Rightarrow>
                         (w, [SetHeaders (Headers resp), SetStatus (Status resp), CopyBody (Raw resp)] @
                             (case Copy (Raw resp) of
                                None \<Rightarrow> []
                              | Some e \<Rightarrow> [AbortJSON 500 ''Failed to proxy response: '' e]))))))"

section \<open>Lemmas\<close>

lemma Error_None_iff: "Error resp = None \<longleftrightarrow> IsOK resp"
  by (cases "Err resp") (auto simp: Error_def IsOK_def)

lemma CutPrefix_append [simp]: "CutPrefix (pre @ s) pre = Some s"
  by (simp add: CutPrefix_def)

lemma CutPrefix_Some: "CutPrefix s pre = Some rest \<longleftrightarrow> s = pre @ rest"
  by (auto simp: CutPrefix_def prefix_def)

text \<open>The first route whose prefix the path has, in the order of the configuration.\<close>

lemma targetURL_loop_find:
  "targetURL_loop basePath path routes =
     (case find (\<lambda>r. prefix (basePath @ Prefix r) path) routes of
        None \<Rightarrow> Inl (Errorf path [Sentinel (Http ErrBadRequest)])
      | Some r \<Rightarrow> Inr (Target r @ drop (length (basePath @ Prefix r)) path))"
  by (induction routes) (auto simp: CutPrefix_def)

lemma targetURL_find:
  "targetURL s path =
     (case find (\<lambda>r. prefix (px_basePath s @ Prefix r) path) (px_routes s) of
        None \<Rightarrow> Inl (Errorf path [Sentinel (Http ErrBadRequest)])
      | Some r \<Rightarrow> Inr (Target r @ drop (length (px_basePath s @ Prefix r)) path))"
  by (simp add: targetURL_def targetURL_loop_find)

lemma prefix_doubled: "prefix (b @ ''//'' @ p) path \<Longrightarrow> sublist ''//'' path"
  by (auto simp: prefix_def sublist_def)

text \<open>
  A base path that ends in a slash is registered without it, but looked for with it: with prefixes that
  start with a slash no path is served unless it has two in a row.
\<close>

lemma slash_ended_base_serves_nothing:
  assumes "px_basePath s = b @ ''/''" "\<And>r. r \<in> set (px_routes s) \<Longrightarrow> \<exists>p. Prefix r = ''/'' @ p"
    and "\<not> sublist ''//'' path"
  shows "targetURL s path = Inl (Errorf path [Sentinel (Http ErrBadRequest)])"
proof -
  have "\<not> prefix (px_basePath s @ Prefix r) path" if "r \<in> set (px_routes s)" for r
    using assms(2) [OF that] assms(1,3) prefix_doubled [of b _ path] by auto
  then show ?thesis by (auto simp: targetURL_find find_None_iff split: option.split)
qed

text \<open>The host of an absolute URL, from the text after the scheme.\<close>

definition authority :: "string \<Rightarrow> string" where
  "authority url = takeWhile (\<lambda>c. c \<notin> {CHR ''/'', CHR ''?'', CHR ''#''}) (drop (length ''http://'') url)"

lemma authority_append:
  assumes "set host \<inter> {CHR ''/'', CHR ''?'', CHR ''#''} = {}"
  shows "authority (''http://'' @ host @ ''/'' @ rest) = host"
proof -
  have "takeWhile (\<lambda>c. c \<notin> {CHR ''/'', CHR ''?'', CHR ''#''}) (host @ ''/'' @ rest) =
      host @ takeWhile (\<lambda>c. c \<notin> {CHR ''/'', CHR ''?'', CHR ''#''}) (''/'' @ rest)"
    using assms by (intro takeWhile_append2) blast
  then show ?thesis by (simp add: authority_def)
qed

text \<open>A client without tripperware and default options sends the request as it is.\<close>

lemma plain_Exec:
  assumes "Tripperware c = (\<lambda>endpoint. endpoint)" "DefaultRequestOptions c = []"
  shows "Exec_request c req [] w = send (cl_Http c) req w"
  using assms by (simp add: Exec_request_def do_request_def build_def)

section \<open>Properties\<close>

text \<open>
  C36. What the proxy, with a client without tripperware and default options, does with a path that a
  route serves and a response that can be read: the request reaches the backend with the method, the
  headers, the query and the body of the client, at the target of the first such route. A response whose status is not an error comes back with its headers, its status and its body (and a
  copy that fails is reported as a 500). A response with an error status does not come back: the client
  gets a 502 that names the error of the status, without the headers and the body of the backend.
\<close>

theorem Proxy_relays:
  assumes "find (\<lambda>r. prefix (px_basePath p @ Prefix r) (in_Path c)) (px_routes p) = Some r"
    and "in_Path c = px_basePath p @ Prefix r @ rest"
    and "Tripperware (px_httpClient p) = (\<lambda>endpoint. endpoint)" "DefaultRequestOptions (px_httpClient p) = []"
    and "NewRequest (cl_Http (px_httpClient p)) (in_Method c)
      (Target r @ rest @ (if in_RawQuery c = [] then [] else ''?'' @ in_RawQuery c)) (Some (in_Body c)) = Inr req"
    and "Do (cl_Http (px_httpClient p)) (req\<lparr>Header := in_Header c\<rparr>) w =
      (w', Inr \<lparr>resp_Status = status, resp_Header = hs, resp_Body = (body, None)\<rparr>)"
  shows "Proxy Copy p c w =
    (w', case StatusCodeAsErr status of
        Some e \<Rightarrow> [AbortJSON 502 ''Backend error: '' e]
      | None \<Rightarrow> [SetHeaders hs, SetStatus status, CopyBody body] @
          (case Copy body of None \<Rightarrow> [] | Some e \<Rightarrow> [AbortJSON 500 ''Failed to proxy response: '' e]))"
proof -
  have t: "targetURL p (in_Path c) = Inr (Target r @ rest)"
    using assms(1,2) by (simp add: targetURL_find)
  have e: "Exec_request (px_httpClient p) (req\<lparr>Header := in_Header c\<rparr>) [] w =
      (w', \<lparr>Headers = hs, Raw = body, Status = status, Err = None\<rparr>)"
    using assms(6) by (simp add: plain_Exec [OF assms(3,4)] send_def)
  have "Error \<lparr>Headers = hs, Raw = body, Status = status, Err = None\<rparr> = StatusCodeAsErr status"
    by (simp add: Error_def IsOK_def)
  with t e assms(5) show ?thesis
    by (cases "in_RawQuery c") (simp_all add: Proxy_def split: option.split)
qed

definition echo_net :: "(nat, unit) net" where
  "echo_net =
     \<lparr>NewRequest = (\<lambda>m u b. Inr \<lparr>req_Method = m, req_URL = u, RawQuery = [], Header = [], Body = b\<rparr>),
      Do = (\<lambda>r n. (Suc n, Inr \<lparr>resp_Status = 200, resp_Header = Header r, resp_Body = (req_URL r, None)\<rparr>)),
      Marshal = (\<lambda>_. Inr [])\<rparr>"

definition failing_net :: "(nat, unit) net" where
  "failing_net = echo_net\<lparr>Do := (\<lambda>r n. (Suc n,
     Inr \<lparr>resp_Status = 404, resp_Header = [(''X'', [''1''])], resp_Body = (''details'', None)\<rparr>))\<rparr>"

definition echo_proxy :: "(nat, unit) http_client proxy" where
  "echo_proxy =
     \<lparr>px_basePath = ''/api'',
      px_httpClient = \<lparr>cl_Http = echo_net, Tripperware = (\<lambda>endpoint. endpoint), DefaultRequestOptions = []\<rparr>,
      px_routes = [\<lparr>Prefix = ''/users'', Target = ''http://users''\<rparr>]\<rparr>"

definition incoming_at :: "string \<Rightarrow> incoming" where
  "incoming_at path = \<lparr>in_Method = ''GET'', in_Path = path, in_RawQuery = ''n=1'',
     in_Header = [(''Authorization'', [''t''])], in_Body = []\<rparr>"

theorem Proxy_relays_witness:
  "Proxy (\<lambda>_. None) echo_proxy (incoming_at (''/api'' @ ''/users'' @ ''/7'')) 0 =
     (1, [SetHeaders [(''Authorization'', [''t''])], SetStatus 200, CopyBody ''http://users/7?n=1'']) \<and>
   Proxy (\<lambda>_. None) (echo_proxy\<lparr>px_httpClient := px_httpClient echo_proxy\<lparr>cl_Http := failing_net\<rparr>\<rparr>)
     (incoming_at (''/api'' @ ''/users'' @ ''/7'')) 0 =
     (1, [AbortJSON 502 ''Backend error: '' (Sentinel (Http ErrNotFound))])"
proof -
  let ?r = "\<lparr>Prefix = ''/users'', Target = ''http://users''\<rparr>"
  let ?req = "\<lparr>req_Method = ''GET'', req_URL = ''http://users/7?n=1'', RawQuery = [], Header = [], Body = Some []\<rparr>"
  note defs = echo_proxy_def incoming_at_def echo_net_def failing_net_def StatusCodeAsErr_def lookupStatusAsErr_def
  show ?thesis
    using Proxy_relays [where p = echo_proxy and c = "incoming_at (''/api'' @ ''/users'' @ ''/7'')" and r = ?r and
        rest = "''/7''" and req = ?req and w = 0 and w' = 1 and status = 200 and
        hs = "[(''Authorization'', [''t''])]" and body = "''http://users/7?n=1''" and Copy = "\<lambda>_. None"]
      Proxy_relays [where p = "echo_proxy\<lparr>px_httpClient := px_httpClient echo_proxy\<lparr>cl_Http := failing_net\<rparr>\<rparr>" and
        c = "incoming_at (''/api'' @ ''/users'' @ ''/7'')" and r = ?r and
        rest = "''/7''" and req = ?req and w = 0 and w' = 1 and status = 404 and
        hs = "[(''X'', [''1''])]" and body = "''details''" and Copy = "\<lambda>_. None"]
    by (simp add: defs)
qed

text \<open>
  The rest of the path is glued to the target without a separator, so where a target ends in its
  host the client chooses the host: a path that continues the prefix with a dot goes, with the
  headers of the client, to a host below any domain.
\<close>

theorem Proxy_target_escapes:
  assumes "px_routes p = r # rs" "Target r = ''http://'' @ host"
    and "set (host @ domain) \<inter> {CHR ''/'', CHR ''?'', CHR ''#''} = {}"
  shows "\<exists>url. targetURL p (px_basePath p @ Prefix r @ ''.'' @ domain @ ''/'' @ rest) = Inr url \<and>
    authority url = host @ ''.'' @ domain"
proof -
  have "targetURL p (px_basePath p @ Prefix r @ ''.'' @ domain @ ''/'' @ rest) =
      Inr (''http://'' @ (host @ ''.'' @ domain) @ ''/'' @ rest)"
    using assms(1,2) by (simp add: targetURL_find)
  moreover have "authority (''http://'' @ (host @ ''.'' @ domain) @ ''/'' @ rest) = host @ ''.'' @ domain"
    using assms(3) by (intro authority_append) auto
  ultimately show ?thesis by blast
qed

theorem Proxy_target_escapes_witness:
  "\<exists>url. targetURL echo_proxy (px_basePath echo_proxy @ ''/users'' @ ''.'' @ ''evil.com'' @ ''/'' @ ''x'') = Inr url \<and>
     authority url = ''users'' @ ''.'' @ ''evil.com''"
  using Proxy_target_escapes [of echo_proxy "\<lparr>Prefix = ''/users'', Target = ''http://users''\<rparr>" "[]" "''users''"
      "''evil.com''" "''x''"]
  by (simp add: echo_proxy_def)

end
