(* ===== verification/Gin_Config.thy ===== *)
theory Gin_Config
  imports Proxy OAuth HTTPServer Health Reload Observability Gzip
begin

text \<open>
  The configuration of a gin server, \<open>pkg/ginserver/config.go\<close>: defaults, flags, validation, and the
  middlewares in the order in which requests meet them.

  A pointer to a part of the configuration is an option. \<open>'u\<close> are the URIs of certificates, \<open>'j\<close> raw
  JSON, \<open>'w\<close> the world health checks look at, \<open>'c\<close> and \<open>'k\<close> certificates and key pairs.
\<close>

section \<open>Configuration\<close>

definition ModeDebug :: string where "ModeDebug = ''debug''"
definition ModeRelease :: string where "ModeRelease = ''release''"
definition ModeTest :: string where "ModeTest = ''test''"
definition DefaultMetricsPath :: string where "DefaultMetricsPath = ''/metrics''"

record trace_mw_config =
  tm_Enabled :: bool
  tm_ServiceName :: string
  tm_SkipPaths :: "string list"

text \<open>Of the recovery and the request id only \<open>Enabled\<close> is there.\<close>

record ('j, 'u) middleware_config =
  mw_Recovery :: "bool option"
  mw_Metrics :: "observer_config option"
  mw_Logger :: "observer_config option"
  mw_Trace :: "trace_mw_config option"
  mw_RequestID :: "bool option"
  mw_GZIP :: "gzip_config option"
  mw_Oauth :: "oauth_config option"
  mw_UserAuth :: "'u user_config option"
  mw_NPAAuth :: "'j npa_config option"
  mw_CertificateAuth :: "'j certificate_config option"

record metric_config =
  mc_Path :: string
  mc_Enabled :: bool

record ('w, 'c, 'k) healthcheck_config =
  hs_Enabled :: bool
  hs_Config :: "('w, 'c, 'k) hconfig"

record reloader_config =
  rs_Enabled :: bool
  rs_Config :: reload_config

record proxy_service =
  ps_Enabled :: bool
  ps_Config :: proxy_config

record ('w, 'c, 'k) service_config =
  sc_PProf :: "bool option"
  sc_Metric :: "metric_config option"
  sc_Healthcheck :: "('w, 'c, 'k) healthcheck_config option"
  sc_Reloader :: "reloader_config option"
  sc_Proxy :: "proxy_service option"

record ('j, 'u, 'w, 'c, 'k) gin_config =
  gn_Mode :: string
  gn_TLS :: tls_server_config
  gn_HTTPServer :: http_config
  gn_Middleware :: "('j, 'u) middleware_config"
  gn_Services :: "('w, 'c, 'k) service_config"

section \<open>Middlewares\<close>

text \<open>
  A handler of the chain. The middlewares that authorize carry what decides about a request; of the
  others the configuration is kept. \<open>GivenMW\<close> is one the caller adds.
\<close>

datatype ('j, 'u, 'b) mw =
    RecoveryMW
  | TraceMW string "string \<Rightarrow> bool"
  | RequestIDMW
  | MetricsMW observer_config
  | LoggerMW observer_config
  | GzipMW gzip_config
  | CertificateMW "'j certificate_config"
  | UserMW "'u user_config"
  | NPAMW "'j npa_config"
  | OAuthMW "('u, 'b) handler"
  | GivenMW "('u, 'b) handler"

text \<open>What a request meets; \<open>rest\<close> is what the observing middlewares and gzip do.\<close>

fun mw_handler :: "(('j, 'u, 'b) mw \<Rightarrow> ('u, 'b) handler) \<Rightarrow> ('j, 'u, 'b) mw \<Rightarrow> ('u, 'b) handler" where
  "mw_handler rest (CertificateMW c) = certificate_Middleware c"
| "mw_handler rest (UserMW c) = user_Middleware c"
| "mw_handler rest (NPAMW c) = npa_Middleware c"
| "mw_handler rest (OAuthMW h) = h"
| "mw_handler rest (GivenMW h) = h"
| "mw_handler rest m = rest m"

text \<open>\<open>oauth.Middleware\<close> for a configuration and options; \<open>None\<close> is the end of the process.\<close>

type_synonym ('u, 'b) oauth_maker =
  "oauth_config \<Rightarrow> ('u, 'b) oauth_state cfg_option option list \<Rightarrow> ('u, 'b) handler option"

type_synonym ('u, 'b) middleware_option = "('u, 'b) oauth_state cfg_option option list"

definition when_enabled :: "('x \<Rightarrow> bool) \<Rightarrow> ('x \<Rightarrow> 'm) \<Rightarrow> 'x option \<Rightarrow> 'm list" where
  "when_enabled enabled mk c = (case c of None \<Rightarrow> [] | Some c \<Rightarrow> if enabled c then [mk c] else [])"

definition NewMiddlewareForConfig ::
  "('u, 'b) oauth_maker \<Rightarrow> ('j, 'u) middleware_config option \<Rightarrow> ('u, 'b) middleware_option list \<Rightarrow>
   (err + ('j, 'u, 'b) mw list) option" where
  "NewMiddlewareForConfig oauth c opts =
     (case c of
        None \<Rightarrow> Some (Inl (new_error ''middleware config is nil''))
      | Some cfg \<Rightarrow>
          (let middlewareOpts = Opt [] opts;
               handlers =
                 when_enabled (\<lambda>e. e) (\<lambda>_. RecoveryMW) (mw_Recovery cfg) @
                 when_enabled tm_Enabled (\<lambda>t. TraceMW (tm_ServiceName t) (trace_SkipPaths (tm_SkipPaths t)))
                   (mw_Trace cfg) @
                 when_enabled (\<lambda>e. e) (\<lambda>_. RequestIDMW) (mw_RequestID cfg) @
                 when_enabled oc_Enabled MetricsMW (mw_Metrics cfg) @
                 when_enabled oc_Enabled LoggerMW (mw_Logger cfg) @
                 when_enabled gz_Enabled GzipMW (mw_GZIP cfg) @
                 when_enabled cert_Enabled CertificateMW (mw_CertificateAuth cfg) @
                 when_enabled user_Enabled UserMW (mw_UserAuth cfg) @
                 when_enabled npa_Enabled NPAMW (mw_NPAAuth cfg)
           in case mw_Oauth cfg of
                None \<Rightarrow> Some (Inr handlers)
              | Some o' \<Rightarrow>
                  if oauth_Enabled o' then
                    (case oauth o' middlewareOpts of
                       None \<Rightarrow> None
                     | Some h \<Rightarrow> Some (Inr (handlers @ [OAuthMW h])))
                  else Some (Inr handlers)))"

section \<open>Defaults\<close>

definition services_ApplyDefaults :: "('w, 'c, 'k) service_config \<Rightarrow> ('w, 'c, 'k) service_config" where
  "services_ApplyDefaults s =
     s\<lparr>sc_PProf := (if sc_PProf s = None then Some False else sc_PProf s),
       sc_Metric := (if sc_Metric s = None then Some \<lparr>mc_Path = DefaultMetricsPath, mc_Enabled = True\<rparr>
         else sc_Metric s),
       sc_Healthcheck := (case sc_Healthcheck s of
         None \<Rightarrow> Some \<lparr>hs_Enabled = True, hs_Config = hcfg_zero\<rparr> | h \<Rightarrow> h),
       sc_Reloader := (if sc_Reloader s = None then
           Some \<lparr>rs_Enabled = False,
             rs_Config = \<lparr>rl_Namespace = [], rl_Deployment = [], rl_Files = [], rl_Interval = 0\<rparr>\<rparr>
         else sc_Reloader s),
       sc_Proxy := (if sc_Proxy s = None then
           Some \<lparr>ps_Enabled = False, ps_Config = \<lparr>pc_HTTPConfig = clc_zero, pc_BasePath = [], pc_Routes = []\<rparr>\<rparr>
         else sc_Proxy s)\<rparr>"

definition oauth_zero :: oauth_config where
  "oauth_zero =
     \<lparr>oauth_Enabled = False, ClientCAFile = [], ClientID = [], ClientSecret = [], ReviewCAs = [],
      ServiceAccount = [], DelegateURLs = [], ReviewByHostURL = [], Resources = [], LoginURL = [],
      RedeemURL = [], ReviewURL = [], oauth_ValidateURL = [], oauth_Scope = [], BypassAuthForPaths = []\<rparr>"

definition middleware_ApplyDefaults ::
  "('j, 'u) parsers \<Rightarrow> ('j, 'u) middleware_config \<Rightarrow> ('j, 'u) middleware_config" where
  "middleware_ApplyDefaults registry m =
     m\<lparr>mw_Recovery := (if mw_Recovery m = None then Some True else mw_Recovery m),
       mw_Metrics := (if mw_Metrics m = None then
           Some \<lparr>oc_Enabled = True, oc_SkipPaths = metrics_defaultSkipPaths\<rparr> else mw_Metrics m),
       mw_Logger := (if mw_Logger m = None then
           Some \<lparr>oc_Enabled = True, oc_SkipPaths = logger_defaultSkipPaths\<rparr> else mw_Logger m),
       mw_RequestID := (if mw_RequestID m = None then Some True else mw_RequestID m),
       mw_GZIP := (if mw_GZIP m = None then
           Some \<lparr>gz_Enabled = False, gz_CompressionMode = DefaultCompression\<rparr> else mw_GZIP m),
       mw_UserAuth := (case mw_UserAuth m of
           None \<Rightarrow> Some \<lparr>user_Enabled = False, UsernameHeader = [], user_ScopeType = [], user_ScopeParser = None\<rparr>
         | u \<Rightarrow> u),
       mw_NPAAuth := (case mw_NPAAuth m of
           None \<Rightarrow> Some \<lparr>npa_Enabled = False, npa_Header = [], AllowedNPAs = [], npa_ScopeType = [],
             npa_ScopeParser = None\<rparr>
         | n \<Rightarrow> n),
       mw_CertificateAuth := (case mw_CertificateAuth m of
           None \<Rightarrow> Some \<lparr>cert_Enabled = False, SkipServerCNInjection = False, Certificates = [], SkipPaths = None,
             cert_ScopeType = [], cert_ScopeParser = None\<rparr>
         | Some c \<Rightarrow> Some (certificate_ApplyDefaults registry c)),
       mw_Oauth := (if mw_Oauth m = None then Some oauth_zero else mw_Oauth m),
       mw_Trace := (if mw_Trace m = None then
           Some \<lparr>tm_Enabled = False, tm_ServiceName = [], tm_SkipPaths = []\<rparr> else mw_Trace m)\<rparr>"

text \<open>
  \<open>injectServerCNs\<close>: \<open>ders\<close> are the certificates of a key pair in DER. The names of the server's own
  certificate become an allowed certificate with every scope.
\<close>

fun parse_keypair ::
  "('u certificate, 'k) tls_env \<Rightarrow> string list \<Rightarrow> err + 'u certificate list" where
  "parse_keypair E [] = Inr []"
| "parse_keypair E (certDER # rest) =
     (case ParseCertificate E certDER of
        Inl e \<Rightarrow> Inl (Errorf ''failed to parse certificate'' [e])
      | Inr cert \<Rightarrow>
          (case parse_keypair E rest of Inl e \<Rightarrow> Inl e | Inr certs \<Rightarrow> Inr (cert # certs)))"

definition wildcard_scope :: scope where
  "wildcard_scope = basic \<lparr>Actions = [''*''], Environments = [''*''], Teams = [''*''], Roles = [''*'']\<rparr>"

definition ownedCertificate :: "string list \<Rightarrow> 'j allowed_certificate" where
  "ownedCertificate cns = \<lparr>CNs = cns, cert_Scopes = [wildcard_scope], cert_RawScopes = []\<rparr>"

definition injectServerCNs ::
  "('u certificate, 'k) tls_env \<Rightarrow> ('k \<Rightarrow> string list) \<Rightarrow> ('j, 'u, 'w, 'c, 'k) gin_config \<Rightarrow>
   ('j, 'u, 'w, 'c, 'k) gin_config \<times> err option" where
  "injectServerCNs E ders c =
     (if \<not> UseTLS (Some (gn_TLS c)) then (c, None)
      else case mw_CertificateAuth (gn_Middleware c) of
          None \<Rightarrow> (c, None)
        | Some cc \<Rightarrow>
            if \<not> cert_Enabled cc then (c, None)
            else if SkipServerCNInjection cc then (c, None)
            else case LoadX509KeyPair E (tls_Cert (gn_TLS c)) (tls_Key (gn_TLS c)) of
                Inl e \<Rightarrow> (c, Some (Errorf ''failed to load webserver certificate'' [e]))
              | Inr keypair \<Rightarrow>
                  (case parse_keypair E (ders keypair) of
                     Inl e \<Rightarrow> (c, Some e)
                   | Inr certs \<Rightarrow>
                       (let cns = ExtractDNSNames certs in
                        if length cns = 0 then (c, None)
                        else
                          (c\<lparr>gn_Middleware := (gn_Middleware c)\<lparr>mw_CertificateAuth := Some
                             (cc\<lparr>Certificates := Certificates cc @ [ownedCertificate cns]\<rparr>)\<rparr>\<rparr>, None))))"

definition watch_certificate :: "('j, 'u, 'w, 'c, 'k) gin_config \<Rightarrow> ('j, 'u, 'w, 'c, 'k) gin_config" where
  "watch_certificate c =
     (case sc_Reloader (gn_Services c) of
        Some r \<Rightarrow>
          if rs_Enabled r \<and> length (rl_Files (rs_Config r)) = 0 \<and> UseTLS (Some (gn_TLS c)) then
            c\<lparr>gn_Services := (gn_Services c)\<lparr>sc_Reloader := Some
              (r\<lparr>rs_Config := (rs_Config r)\<lparr>rl_Files := [tls_Cert (gn_TLS c)]\<rparr>\<rparr>)\<rparr>\<rparr>
          else c
      | None \<Rightarrow> c)"

definition gin_ApplyDefaults ::
  "('j, 'u) parsers \<Rightarrow> ('u certificate, 'k) tls_env \<Rightarrow> ('k \<Rightarrow> string list) \<Rightarrow>
   ('j, 'u, 'w, 'c, 'k) gin_config \<Rightarrow> ('j, 'u, 'w, 'c, 'k) gin_config \<times> err option" where
  "gin_ApplyDefaults registry E ders c =
     injectServerCNs E ders (watch_certificate
       (c\<lparr>gn_Mode := (if gn_Mode c = [] then ModeRelease else gn_Mode c),
          gn_Middleware := middleware_ApplyDefaults registry (gn_Middleware c),
          gn_TLS := tlsserver_ApplyDefaults (gn_TLS c),
          gn_HTTPServer := http_ApplyDefaults (gn_HTTPServer c),
          gn_Services := services_ApplyDefaults (gn_Services c)\<rparr>))"

text \<open>\<open>ApplyDefaultConfig\<close> drops the error.\<close>

definition gin_ApplyDefaultConfig ::
  "('j, 'u) parsers \<Rightarrow> ('u certificate, 'k) tls_env \<Rightarrow> ('k \<Rightarrow> string list) \<Rightarrow>
   ('j, 'u, 'w, 'c, 'k) gin_config \<Rightarrow> ('j, 'u, 'w, 'c, 'k) gin_config" where
  "gin_ApplyDefaultConfig registry E ders cfg = fst (gin_ApplyDefaults registry E ders cfg)"

definition middleware_zero :: "('j, 'u) middleware_config" where
  "middleware_zero =
     \<lparr>mw_Recovery = None, mw_Metrics = None, mw_Logger = None, mw_Trace = None, mw_RequestID = None,
      mw_GZIP = None, mw_Oauth = None, mw_UserAuth = None, mw_NPAAuth = None, mw_CertificateAuth = None\<rparr>"

definition gin_zero :: "('j, 'u, 'w, 'c, 'k) gin_config" where
  "gin_zero =
     \<lparr>gn_Mode = [],
      gn_TLS = \<lparr>tls_Cert = [], tls_Key = [], tls_RootCAs = [], tls_MinVersion = [], tls_Disabled = False,
        ClientAuthType = []\<rparr>,
      gn_HTTPServer = \<lparr>ht_Host = [], ht_Port = 0, ht_ReadTimeout = 0, ht_ReadHeaderTimeout = 0,
        ht_WriteTimeout = 0, ht_ShutdownTimeout = 0, ht_MaxHeaderBytes = 0\<rparr>,
      gn_Middleware = middleware_zero,
      gn_Services = \<lparr>sc_PProf = None, sc_Metric = None, sc_Healthcheck = None, sc_Reloader = None,
        sc_Proxy = None\<rparr>\<rparr>"

definition gin_DefaultConfig ::
  "('j, 'u) parsers \<Rightarrow> ('u certificate, 'k) tls_env \<Rightarrow> ('k \<Rightarrow> string list) \<Rightarrow> ('j, 'u, 'w, 'c, 'k) gin_config"
where
  "gin_DefaultConfig registry E ders = fst (gin_ApplyDefaults registry E ders gin_zero)"

section \<open>Validation\<close>

definition gin_Validate :: "('j, 'u, 'w, 'c, 'k) gin_config \<Rightarrow> err option" where
  "gin_Validate c =
     (case (if UseTLS (Some (gn_TLS c)) then tlsserver_Validate (gn_TLS c) else None) of
        Some e \<Rightarrow> Some e
      | None \<Rightarrow>
          (case http_Validate (Some (gn_HTTPServer c)) of
             Some e \<Rightarrow> Some e
           | None \<Rightarrow>
               (case mw_CertificateAuth (gn_Middleware c) of
                  None \<Rightarrow> None
                | Some cc \<Rightarrow>
                    if \<not> cert_Enabled cc then None
                    else case certificate_Validate cc of
                        Some e \<Rightarrow> Some e
                      | None \<Rightarrow>
                          if \<not> UseTLS (Some (gn_TLS c)) then
                            Some (new_error ''TLSConfig is required when MTLSConfig.Enabled'')
                          else case ParseClientAuthType (ClientAuthType (gn_TLS c)) of
                              Inl e \<Rightarrow> Some e
                            | Inr clientAuthType \<Rightarrow>
                                if clientAuthType \<in> {NoClientCert, VerifyClientCertIfGiven, RequestClientCert}
                                then Some (new_error (''ClientAuthType must be RequireAndVerifyClientCert or '' @
                                  ''RequireAnyClientCert when MTLSConfig.Enabled''))
                                else None)))"

section \<open>Flags\<close>

definition enabled_of :: "('x \<Rightarrow> bool) \<Rightarrow> 'x option \<Rightarrow> flag_value" where
  "enabled_of enabled x = FBool (case x of None \<Rightarrow> False | Some x \<Rightarrow> enabled x)"

definition gin_RegisterFlags ::
  "('j, 'u, 'w, 'c, 'k) gin_config \<Rightarrow> (string, flag_value) gomap" where
  "gin_RegisterFlags c =
     (let m = gn_Middleware c; s = gn_Services c in
      http_RegisterFlags @ tlsserver_RegisterFlags @ certificate_RegisterFlags @
      [(''gin-mode'', FString (gn_Mode c)),
       (''internal-service-pprof-enabled'', enabled_of (\<lambda>e. e) (sc_PProf s)),
       (''internal-service-metrics-enabled'', enabled_of mc_Enabled (sc_Metric s)),
       (''internal-service-healthcheck-enabled'', enabled_of hs_Enabled (sc_Healthcheck s)),
       (''internal-service-certificate-reloader-enabled'', enabled_of rs_Enabled (sc_Reloader s)),
       (''middleware-recovery-enabled'', enabled_of (\<lambda>e. e) (mw_Recovery m)),
       (''middleware-metrics-enabled'', enabled_of oc_Enabled (mw_Metrics m)),
       (''middleware-logger-enabled'', enabled_of oc_Enabled (mw_Logger m)),
       (''middleware-requestid-enabled'', enabled_of (\<lambda>e. e) (mw_RequestID m)),
       (''middleware-gzip-enabled'', enabled_of gz_Enabled (mw_GZIP m)),
       (''middleware-gzip-compression'', FInt (case mw_GZIP m of
           None \<Rightarrow> DefaultCompression | Some g \<Rightarrow> gz_CompressionMode g)),
       (''middleware-user-auth-enabled'', enabled_of user_Enabled (mw_UserAuth m)),
       (''middleware-oauth-enabled'', enabled_of oauth_Enabled (mw_Oauth m)),
       (''middleware-npa-auth-enabled'', enabled_of npa_Enabled (mw_NPAAuth m)),
       (''middleware-trace-enabled'', enabled_of tm_Enabled (mw_Trace m))])"

text \<open>A flag of a part of the configuration is looked at only when that part is there.\<close>

definition bind_part ::
  "string \<Rightarrow> (err + 'x) option \<Rightarrow> ('c \<Rightarrow> 'p option) \<Rightarrow> ('p option \<Rightarrow> 'c \<Rightarrow> 'c) \<Rightarrow> ('x \<Rightarrow> 'p \<Rightarrow> 'p) \<Rightarrow>
   err + 'c \<Rightarrow> err + 'c" where
  "bind_part msg flag get put set' c =
     (case c of
        Inl e \<Rightarrow> Inl e
      | Inr c \<Rightarrow>
          (case get c of
             None \<Rightarrow> Inr c
           | Some p \<Rightarrow> bind_flag (wrap_flag msg flag) (\<lambda>x c. put (Some (set' x p)) c) (Inr c)))"

definition services_BindFlags ::
  "flags \<Rightarrow> ('w, 'c, 'k) service_config \<Rightarrow> err + ('w, 'c, 'k) service_config" where
  "services_BindFlags fs s = fold (\<lambda>bind. bind)
     [bind_part ''pprof'' (get_bool fs ''internal-service-pprof-enabled'') sc_PProf (\<lambda>p s. s\<lparr>sc_PProf := p\<rparr>)
        (\<lambda>x _. x),
      bind_part ''metrics'' (get_bool fs ''internal-service-metrics-enabled'') sc_Metric
        (\<lambda>p s. s\<lparr>sc_Metric := p\<rparr>) (\<lambda>x m. m\<lparr>mc_Enabled := x\<rparr>),
      bind_part ''healthcheck'' (get_bool fs ''internal-service-healthcheck-enabled'') sc_Healthcheck
        (\<lambda>p s. s\<lparr>sc_Healthcheck := p\<rparr>) (\<lambda>x h. h\<lparr>hs_Enabled := x\<rparr>),
      bind_part ''certificate reloader'' (get_bool fs ''internal-service-certificate-reloader-enabled'')
        sc_Reloader (\<lambda>p s. s\<lparr>sc_Reloader := p\<rparr>) (\<lambda>x r. r\<lparr>rs_Enabled := x\<rparr>)]
     (Inr s)"

definition bind_certificate ::
  "flags \<Rightarrow> err + ('j, 'u) middleware_config \<Rightarrow> err + ('j, 'u) middleware_config" where
  "bind_certificate fs m =
     (case m of
        Inl e \<Rightarrow> Inl e
      | Inr m \<Rightarrow>
          (case mw_CertificateAuth m of
             None \<Rightarrow> Inr m
           | Some c \<Rightarrow>
               (case certificate_BindFlags fs c of
                  Inl e \<Rightarrow> Inl (Errorf ''certificateAuth'' [e])
                | Inr c \<Rightarrow> Inr (m\<lparr>mw_CertificateAuth := Some c\<rparr>))))"

definition middleware_BindFlags ::
  "flags \<Rightarrow> ('j, 'u) middleware_config \<Rightarrow> err + ('j, 'u) middleware_config" where
  "middleware_BindFlags fs m = fold (\<lambda>bind. bind)
     [bind_part ''recovery'' (get_bool fs ''middleware-recovery-enabled'') mw_Recovery
        (\<lambda>p m. m\<lparr>mw_Recovery := p\<rparr>) (\<lambda>x _. x),
      bind_certificate fs,
      bind_part ''npaAuth'' (get_bool fs ''middleware-npa-auth-enabled'') mw_NPAAuth
        (\<lambda>p m. m\<lparr>mw_NPAAuth := p\<rparr>) (\<lambda>x n. n\<lparr>npa_Enabled := x\<rparr>),
      bind_part ''userAuth'' (get_bool fs ''middleware-user-auth-enabled'') mw_UserAuth
        (\<lambda>p m. m\<lparr>mw_UserAuth := p\<rparr>) (\<lambda>x u. u\<lparr>user_Enabled := x\<rparr>),
      bind_part ''metrics'' (get_bool fs ''middleware-metrics-enabled'') mw_Metrics
        (\<lambda>p m. m\<lparr>mw_Metrics := p\<rparr>) (\<lambda>x o'. o'\<lparr>oc_Enabled := x\<rparr>),
      bind_part ''logger'' (get_bool fs ''middleware-logger-enabled'') mw_Logger
        (\<lambda>p m. m\<lparr>mw_Logger := p\<rparr>) (\<lambda>x o'. o'\<lparr>oc_Enabled := x\<rparr>),
      bind_part ''requestID'' (get_bool fs ''middleware-requestid-enabled'') mw_RequestID
        (\<lambda>p m. m\<lparr>mw_RequestID := p\<rparr>) (\<lambda>x _. x),
      bind_part ''gzip'' (get_bool fs ''middleware-gzip-enabled'') mw_GZIP
        (\<lambda>p m. m\<lparr>mw_GZIP := p\<rparr>) (\<lambda>x g. g\<lparr>gz_Enabled := x\<rparr>),
      bind_part ''gzipCompression'' (get_int fs ''middleware-gzip-compression'') mw_GZIP
        (\<lambda>p m. m\<lparr>mw_GZIP := p\<rparr>) (\<lambda>x g. g\<lparr>gz_CompressionMode := x\<rparr>),
      bind_part ''trace'' (get_bool fs ''middleware-trace-enabled'') mw_Trace
        (\<lambda>p m. m\<lparr>mw_Trace := p\<rparr>) (\<lambda>x t. t\<lparr>tm_Enabled := x\<rparr>)]
     (Inr m)"

text \<open>\<open>defined\<close> is \<open>Lookup\<close>, and \<open>text_of\<close> the text of a flag's value.\<close>

definition gin_BindFlags ::
  "(string \<Rightarrow> bool) \<Rightarrow> (flag_value \<Rightarrow> string) \<Rightarrow> flags \<Rightarrow> ('j, 'u, 'w, 'c, 'k) gin_config \<Rightarrow>
   err + ('j, 'u, 'w, 'c, 'k) gin_config" where
  "gin_BindFlags defined text_of fs c =
     (if \<not> defined ''gin-mode'' then Inl (new_error ''flag gin-mode not found'')
      else
        (let c = (case fs ''gin-mode'' of None \<Rightarrow> c | Some v \<Rightarrow> c\<lparr>gn_Mode := text_of v\<rparr>) in
         case http_BindFlags fs (gn_HTTPServer c) of
           Inl e \<Rightarrow> Inl (Errorf ''httpserver'' [e])
         | Inr h \<Rightarrow>
             (case tlsserver_BindFlags fs (gn_TLS c) of
                Inl e \<Rightarrow> Inl (Errorf ''tlsserver'' [e])
              | Inr t \<Rightarrow>
                  (case middleware_BindFlags fs (gn_Middleware c) of
                     Inl e \<Rightarrow> Inl (Errorf ''middleware'' [e])
                   | Inr m \<Rightarrow>
                       (case services_BindFlags fs (gn_Services c) of
                          Inl e \<Rightarrow> Inl (Errorf ''serviceConfig'' [e])
                        | Inr s \<Rightarrow>
                            Inr (c\<lparr>gn_HTTPServer := h, gn_TLS := t, gn_Middleware := m, gn_Services := s\<rparr>))))))"

section \<open>Lemmas\<close>

subsection \<open>Defaults\<close>

lemma default_middlewares:
  "NewMiddlewareForConfig oauth (Some (gn_Middleware (gin_DefaultConfig registry E ders))) opts =
     Some (Inr [RecoveryMW, RequestIDMW, MetricsMW \<lparr>oc_Enabled = True, oc_SkipPaths = metrics_defaultSkipPaths\<rparr>,
       LoggerMW \<lparr>oc_Enabled = True, oc_SkipPaths = logger_defaultSkipPaths\<rparr>])"
  by (simp add: NewMiddlewareForConfig_def gin_DefaultConfig_def gin_ApplyDefaults_def gin_zero_def
      middleware_zero_def middleware_ApplyDefaults_def injectServerCNs_def watch_certificate_def
      services_ApplyDefaults_def tlsserver_ApplyDefaults_def tls_ApplyDefaults_def UseTLS_def
      when_enabled_def oauth_zero_def Let_def)

lemma default_config_valid: "gin_Validate (gin_DefaultConfig registry E ders) = None"
  by (simp add: gin_DefaultConfig_def gin_ApplyDefaults_def gin_zero_def
      middleware_zero_def middleware_ApplyDefaults_def injectServerCNs_def watch_certificate_def
      services_ApplyDefaults_def tlsserver_ApplyDefaults_def tls_ApplyDefaults_def UseTLS_def
      gin_Validate_def http_ApplyDefaults_def http_Validate_def http_DefaultPort_def DefaultReadTimeout_def
      DefaultReadHeaderTimeout_def DefaultWriteTimeout_def http_DefaultShutdownTimeout_def
      DefaultMaxHeaderBytes_def Let_def)

text \<open>The middlewares that authorize come after those that observe, in a fixed order.\<close>

fun mw_rank :: "('j, 'u, 'b) mw \<Rightarrow> nat" where
  "mw_rank RecoveryMW = 0"
| "mw_rank (TraceMW _ _) = 1"
| "mw_rank RequestIDMW = 2"
| "mw_rank (MetricsMW _) = 3"
| "mw_rank (LoggerMW _) = 4"
| "mw_rank (GzipMW _) = 5"
| "mw_rank (CertificateMW _) = 6"
| "mw_rank (UserMW _) = 7"
| "mw_rank (NPAMW _) = 8"
| "mw_rank (OAuthMW _) = 9"
| "mw_rank (GivenMW _) = 10"

lemma when_enabled_cases: "when_enabled enabled mk c = [] \<or> (\<exists>x. c = Some x \<and> when_enabled enabled mk c = [mk x])"
  by (cases c) (auto simp: when_enabled_def)

lemma when_enabled_in: "c = Some x \<Longrightarrow> enabled x \<Longrightarrow> mk x \<in> set (when_enabled enabled mk c)"
  by (simp add: when_enabled_def)

lemma when_enabled_all: "(\<And>x. P (mk x)) \<Longrightarrow> list_all P (when_enabled enabled mk c)"
  by (cases c) (auto simp: when_enabled_def)

lemma when_enabled_sorted:
  assumes "sorted_wrt (<) (map mw_rank ms)" "\<And>x. list_all (\<lambda>m'. mw_rank (mk x) < mw_rank m') ms"
  shows "sorted_wrt (<) (map mw_rank (when_enabled enabled mk c @ ms))"
  using assms when_enabled_cases [of enabled mk c] by (auto simp: list_all_iff)

lemma NewMiddlewareForConfig_shape:
  assumes "NewMiddlewareForConfig oauth (Some m) opts = Some (Inr mws)"
  shows "\<exists>os. (os = [] \<or> (\<exists>h. os = [OAuthMW h])) \<and> mws = when_enabled (\<lambda>e. e) (\<lambda>_. RecoveryMW) (mw_Recovery m) @
      when_enabled tm_Enabled (\<lambda>t. TraceMW (tm_ServiceName t) (trace_SkipPaths (tm_SkipPaths t))) (mw_Trace m) @
      when_enabled (\<lambda>e. e) (\<lambda>_. RequestIDMW) (mw_RequestID m) @
      when_enabled oc_Enabled MetricsMW (mw_Metrics m) @ when_enabled oc_Enabled LoggerMW (mw_Logger m) @
      when_enabled gz_Enabled GzipMW (mw_GZIP m) @ when_enabled cert_Enabled CertificateMW (mw_CertificateAuth m) @
      when_enabled user_Enabled UserMW (mw_UserAuth m) @ when_enabled npa_Enabled NPAMW (mw_NPAAuth m) @ os"
proof (cases "mw_Oauth m")
  case None
  then show ?thesis using assms by (intro exI [of _ "[]"]) (simp add: NewMiddlewareForConfig_def Let_def)
next
  case (Some o')
  show ?thesis
  proof (cases "oauth_Enabled o'")
    case True
    then obtain h where "oauth o' (Opt [] opts) = Some h"
      using assms Some by (cases "oauth o' (Opt [] opts)") (simp_all add: NewMiddlewareForConfig_def Let_def)
    then show ?thesis using assms Some True
      by (intro exI [of _ "[OAuthMW h]"]) (simp add: NewMiddlewareForConfig_def Let_def)
  next
    case False
    then show ?thesis using assms Some
      by (intro exI [of _ "[]"]) (simp add: NewMiddlewareForConfig_def Let_def)
  qed
qed

lemma middlewares_in_order:
  assumes "NewMiddlewareForConfig oauth (Some m) opts = Some (Inr mws)"
  shows "sorted_wrt (<) (map mw_rank mws)"
proof -
  from NewMiddlewareForConfig_shape [OF assms] obtain os where os: "os = [] \<or> (\<exists>h. os = [OAuthMW h])"
    "mws = when_enabled (\<lambda>e. e) (\<lambda>_. RecoveryMW) (mw_Recovery m) @
      when_enabled tm_Enabled (\<lambda>t. TraceMW (tm_ServiceName t) (trace_SkipPaths (tm_SkipPaths t))) (mw_Trace m) @
      when_enabled (\<lambda>e. e) (\<lambda>_. RequestIDMW) (mw_RequestID m) @
      when_enabled oc_Enabled MetricsMW (mw_Metrics m) @ when_enabled oc_Enabled LoggerMW (mw_Logger m) @
      when_enabled gz_Enabled GzipMW (mw_GZIP m) @ when_enabled cert_Enabled CertificateMW (mw_CertificateAuth m) @
      when_enabled user_Enabled UserMW (mw_UserAuth m) @ when_enabled npa_Enabled NPAMW (mw_NPAAuth m) @ os" by blast
  from os(1) have "sorted_wrt (<) (map mw_rank os)" "\<And>n. n < 9 \<Longrightarrow> list_all (\<lambda>m'. n < mw_rank m') os" by auto
  then show ?thesis unfolding os(2)
    by (intro when_enabled_sorted) (simp_all add: when_enabled_all)
qed

lemma certificate_middleware_installed:
  assumes "NewMiddlewareForConfig oauth (Some m) opts = Some (Inr mws)"
    and "mw_CertificateAuth m = Some cc" "cert_Enabled cc"
  shows "CertificateMW cc \<in> set mws"
  using NewMiddlewareForConfig_shape [OF assms(1)]
  by (elim exE conjE) (simp add: when_enabled_in [of "mw_CertificateAuth m" cc cert_Enabled, OF assms(2,3)])

subsection \<open>Flags\<close>

text \<open>A flag is registered for the OAuth middleware, but no \<open>BindFlags\<close> reads it.\<close>

lemma get_bool_upd: "n \<noteq> k \<Longrightarrow> get_bool (fs(k := v)) n = get_bool fs n"
  and get_int_upd: "n \<noteq> k \<Longrightarrow> get_int (fs(k := v)) n = get_int fs n"
  by (simp_all add: get_bool_def get_int_def)

lemma certificate_BindFlags_upd:
  "n \<noteq> FlagCertificateAuthEnabled \<Longrightarrow> certificate_BindFlags (fs(n := v)) c = certificate_BindFlags fs c"
  by (simp add: certificate_BindFlags_def get_bool_upd)

lemma bind_certificate_upd:
  "n \<noteq> FlagCertificateAuthEnabled \<Longrightarrow> bind_certificate (fs(n := v)) m = bind_certificate fs m"
  by (simp add: bind_certificate_def certificate_BindFlags_upd split: sum.split option.split)

lemma oauth_flag_is_ignored:
  "middleware_BindFlags (fs(''middleware-oauth-enabled'' := v)) m = middleware_BindFlags fs m"
  by (simp add: middleware_BindFlags_def get_bool_upd get_int_upd bind_certificate_upd
      FlagCertificateAuthEnabled_def)

lemma oauth_flag_is_registered:
  "(''middleware-oauth-enabled'', enabled_of oauth_Enabled (mw_Oauth (gn_Middleware c))) \<in> set (gin_RegisterFlags c)"
  by (simp add: gin_RegisterFlags_def Let_def)

text \<open>Before the defaults are applied there is nothing a flag of a middleware could set.\<close>

lemma flags_need_defaults: "middleware_BindFlags fs middleware_zero = Inr middleware_zero"
  by (simp add: middleware_BindFlags_def bind_part_def bind_certificate_def middleware_zero_def)

subsection \<open>The names of the server\<close>

lemma parse_keypair_Inr: "parse_keypair E xs = Inr certs \<Longrightarrow> map (ParseCertificate E) xs = map Inr certs"
  by (induction xs arbitrary: certs) (auto split: sum.splits)

text \<open>An unreadable key pair is an error of \<open>ApplyDefaults\<close> that \<open>ApplyDefaultConfig\<close> swallows.\<close>

lemma injection_error_swallowed:
  assumes "injectServerCNs E ders c = (c', Some e)"
  shows "c' = c"
  using assms by (auto simp: injectServerCNs_def Let_def split: if_splits option.splits sum.splits)

lemma first_error_enumerate:
  assumes "\<And>i x. f i x = None \<longleftrightarrow> P x"
  shows "Auth.first_error (map (\<lambda>(i, x). f i x) (enumerate n xs)) = None \<longleftrightarrow> (\<forall>x \<in> set xs. P x)"
proof (induction xs arbitrary: n)
  case (Cons x xs)
  then show ?case using assms [of n x] by (cases "f n x") simp_all
qed simp

lemma certificate_Validate_iff:
  "certificate_Validate c = None \<longleftrightarrow>
     (cert_Enabled c \<longrightarrow> Certificates c \<noteq> []) \<and>
     (\<forall>cert \<in> set (Certificates c). CNs cert \<noteq> [] \<and> (\<forall>s \<in> set (cert_Scopes cert). scope_Validate s = None))"
proof -
  have i: "Auth.first_error (map (\<lambda>s. case scope_Validate s of None \<Rightarrow> None | Some e \<Rightarrow> Some (g e)) ss) = None \<longleftrightarrow>
      (\<forall>s \<in> set ss. scope_Validate s = None)" for g :: "err \<Rightarrow> err" and ss
    by (induction ss) (auto split: option.split)
  show ?thesis unfolding certificate_Validate_def
    by (cases "cert_Enabled c \<and> Certificates c = []")
      (simp, simp only: if_False, subst first_error_enumerate
        [where P = "\<lambda>cert. CNs cert \<noteq> [] \<and> (\<forall>s \<in> set (cert_Scopes cert). scope_Validate s = None)"],
        auto simp: i)
qed

lemma wildcard_grants:
  assumes "Roles s \<noteq> []"
  shows "MatchScope [wildcard_scope] (basic s)"
proof -
  have "Find rs (fst (Insert [''*'', ''*'', ''*'', ''*''] (Node [])))" if "rs \<in> set (Basic_AsLabels s)" for rs
  proof -
    have "length rs = 4" using that assms by (auto simp: Basic_AsLabels_def)
    then obtain a b c d where "rs = [a, b, c, d]"
      by (auto simp: numeral_eq_Suc length_Suc_conv)
    then show ?thesis
      using Find_fold_Insert [of "[[''*'', ''*'', ''*'', ''*'']]" rs "Node []"] by (simp add: Wildcard_def)
  qed
  then show ?thesis
    by (simp add: MatchScope_tree list_all_iff wildcard_scope_def basic_def Basic_AsLabels_def)
qed

lemma certificate_ApplyDefaults_keeps [simp]:
  "cert_Enabled (certificate_ApplyDefaults registry c) = cert_Enabled c"
  "SkipServerCNInjection (certificate_ApplyDefaults registry c) = SkipServerCNInjection c"
  "Certificates (certificate_ApplyDefaults registry c) = Certificates c"
  by (simp_all add: certificate_ApplyDefaults_def Let_def)

lemma tlsserver_ApplyDefaults_keeps [simp]:
  "UseTLS (Some (tlsserver_ApplyDefaults c)) = UseTLS (Some c)"
  "tls_Cert (tlsserver_ApplyDefaults c) = tls_Cert c"
  "tls_Key (tlsserver_ApplyDefaults c) = tls_Key c"
  by (simp_all add: tlsserver_ApplyDefaults_def tls_ApplyDefaults_def UseTLS_def Let_def)

lemma tlsserver_ApplyDefaults_more [simp]:
  "ClientAuthType c \<noteq> [] \<Longrightarrow> ClientAuthType (tlsserver_ApplyDefaults c) = ClientAuthType c"
  "tls_RootCAs (tlsserver_ApplyDefaults c) = tls_RootCAs c"
  by (simp_all add: tlsserver_ApplyDefaults_def tls_ApplyDefaults_def Let_def)

lemma watch_certificate_keeps [simp]:
  "gn_TLS (watch_certificate c) = gn_TLS c" "gn_Middleware (watch_certificate c) = gn_Middleware c"
  "gn_HTTPServer (watch_certificate c) = gn_HTTPServer c" "gn_Mode (watch_certificate c) = gn_Mode c"
  by (auto simp: watch_certificate_def split: option.split)

lemma tlsserver_ClientAuth:
  assumes "tlsserver_NewForConfig E t [] = Inr t'" "ClientAuthType t \<noteq> []"
  shows "ParseClientAuthType (ClientAuthType t) = Inr (go_ClientAuth t')"
  using assms by (auto simp: tlsserver_NewForConfig_def cfg_ParseClientAuthType_def Let_def TLSConfig_Validate_def
      split: sum.splits if_splits prod.splits)

text \<open>What a configuration with certificates becomes.\<close>

definition server_names ::
  "('u certificate, 'k) tls_env \<Rightarrow> ('k \<Rightarrow> string list) \<Rightarrow> tls_server_config \<Rightarrow> string list" where
  "server_names E ders t =
     (case LoadX509KeyPair E (tls_Cert t) (tls_Key t) of
        Inl e \<Rightarrow> []
      | Inr keypair \<Rightarrow>
          (case parse_keypair E (ders keypair) of Inl e \<Rightarrow> [] | Inr certs \<Rightarrow> ExtractDNSNames certs))"

lemma ApplyDefaults_injects:
  assumes "UseTLS (Some (gn_TLS c))" "mw_CertificateAuth (gn_Middleware c) = Some cc" "cert_Enabled cc"
    and "\<not> SkipServerCNInjection cc" "server_names E ders (gn_TLS c) \<noteq> []"
  shows "\<exists>c' cc'. gin_ApplyDefaults registry E ders c = (c', None) \<and>
    gn_TLS c' = tlsserver_ApplyDefaults (gn_TLS c) \<and> gn_HTTPServer c' = http_ApplyDefaults (gn_HTTPServer c) \<and>
    mw_CertificateAuth (gn_Middleware c') = Some cc' \<and> cert_Enabled cc' \<and>
    Certificates cc' = Certificates cc @ [ownedCertificate (server_names E ders (gn_TLS c))]"
proof -
  obtain keypair certs where "LoadX509KeyPair E (tls_Cert (gn_TLS c)) (tls_Key (gn_TLS c)) = Inr keypair"
    "parse_keypair E (ders keypair) = Inr certs" "ExtractDNSNames certs = server_names E ders (gn_TLS c)"
    using assms(5) by (auto simp: server_names_def split: sum.splits)
  with assms show ?thesis
    by (simp add: gin_ApplyDefaults_def injectServerCNs_def middleware_ApplyDefaults_def Let_def)
qed

text \<open>
  The configuration is changed through the caller's pointer: every further set of defaults appends the
  certificate once more.
\<close>

lemma injection_repeats:
  assumes "UseTLS (Some (gn_TLS c))" "mw_CertificateAuth (gn_Middleware c) = Some cc" "cert_Enabled cc"
    and "\<not> SkipServerCNInjection cc" "server_names E ders (gn_TLS c) \<noteq> []"
    and "c' = fst (gin_ApplyDefaults registry E ders c)"
    and "mw_CertificateAuth (gn_Middleware c') = Some cc'" "\<not> SkipServerCNInjection cc'"
  shows "\<exists>cc''. mw_CertificateAuth (gn_Middleware (fst (gin_ApplyDefaults registry E ders c'))) = Some cc'' \<and>
    Certificates cc'' = Certificates cc @ replicate 2 (ownedCertificate (server_names E ders (gn_TLS c)))"
proof -
  from ApplyDefaults_injects [OF assms(1-5), of registry] assms(6,7)
  have c': "gn_TLS c' = tlsserver_ApplyDefaults (gn_TLS c)" "cert_Enabled cc'"
    "Certificates cc' = Certificates cc @ [ownedCertificate (server_names E ders (gn_TLS c))]" by auto
  have n: "server_names E ders (gn_TLS c') = server_names E ders (gn_TLS c)"
    by (simp add: server_names_def c')
  from ApplyDefaults_injects [of c' cc' E ders registry] assms(1,5,7,8) c' n show ?thesis
    by (auto simp: numeral_2_eq_2)
qed

lemma MatchAny_only:
  assumes "set names = {n}" "n \<in> set cns"
  shows "MatchAny cns names = Some n"
proof (cases "MatchAny cns names")
  case None
  then have "set cns \<inter> set names = {}" by (simp only: MatchAny_None)
  with assms show ?thesis by auto
next
  case (Some v)
  then show ?thesis using MatchAny_Some [OF Some] assms(1) by simp
qed

text \<open>The account a lone name gets when no other entry has it.\<close>

lemma lone_name_matched:
  assumes "\<forall>h \<in> set hosts. n \<notin> set (CNs h)" "n \<in> set cns" "n \<noteq> []"
    and "PeerCertificates r = Some [leaf]" "CommonName leaf = n" "DNSNames leaf = []"
    and "cert_Enabled cc" "Certificates cc = hosts @ [ownedCertificate cns]"
  shows "certificate_Middleware cc r = Next (r\<lparr>req_Context := Some (TrustAccount
    \<lparr>Trust = TrustCertificate, acc_Name = n, Scopes = [wildcard_scope]\<rparr>)\<rparr>)"
proof -
  have names: "presented_names [leaf] = {n}" using assms(3,5,6) by (auto simp: presented_names_def)
  have "set (Concat [ExtractCommonNames [leaf], ExtractDNSNames [leaf]]) = {n}"
    using set_presented_names [of "[leaf]"] names by simp
  then have m: "MatchAny cns (Concat [ExtractCommonNames [leaf], ExtractDNSNames [leaf]]) = Some n"
    using MatchAny_only [OF _ assms(2)] by blast
  have "find (\<lambda>h. n \<in> set (CNs h)) (hosts @ [ownedCertificate cns]) = Some (ownedCertificate cns)"
    using assms(1,2) by (auto simp: find_append ownedCertificate_def find_Some_iff split: option.split)
  then have f: "find (\<lambda>h. set (CNs h) \<inter> presented_names [leaf] \<noteq> {}) (Certificates cc) = Some (ownedCertificate cns)"
    unfolding names assms(8) by simp
  show ?thesis
    by (subst certificate_Middleware_Next [OF assms(7)])
      (use assms(4) f m in \<open>auto simp: certificate_account_def ownedCertificate_def Account_Validate_def
        TrustCertificate_def wildcard_scope_def basic_def Basic_Validate_def\<close>)
qed

section \<open>Properties\<close>

text \<open>
  C37. The names of the server's own certificate are allowed with every scope, and \<open>RequireAnyClientCert\<close>,
  under which certificates of clients are not verified, passes validation: whoever presents a
  self-signed certificate with a name of the server gets an account that every scope is granted to.
\<close>

theorem unverified_server_name_gets_every_scope:
  assumes "UseTLS (Some (gn_TLS c))" "ClientAuthType (gn_TLS c) = ''RequireAnyClientCert''"
    and "mw_CertificateAuth (gn_Middleware c) = Some cc" "cert_Enabled cc" "\<not> SkipServerCNInjection cc"
    and "http_Validate (Some (http_ApplyDefaults (gn_HTTPServer c))) = None"
    and "\<forall>h \<in> set (Certificates cc). CNs h \<noteq> [] \<and> n \<notin> set (CNs h) \<and>
      (\<forall>s \<in> set (cert_Scopes h). scope_Validate s = None)"
    and "n \<in> set (server_names E ders (gn_TLS c))" "n \<noteq> []"
    and "PeerCertificates r = Some [leaf]" "CommonName leaf = n" "DNSNames leaf = []" "Roles s \<noteq> []"
  shows "\<exists>c' cc' a. gin_ApplyDefaults registry E ders c = (c', None) \<and> gin_Validate c' = None \<and>
    (\<forall>t. tlsserver_NewForConfig E (gn_TLS c') [] = Inr t \<longrightarrow> go_ClientAuth t = RequireAnyClientCert) \<and>
    mw_CertificateAuth (gn_Middleware c') = Some cc' \<and>
    certificate_Middleware cc' r = Next (r\<lparr>req_Context := Some (TrustAccount a)\<rparr>) \<and>
    MatchScope (Scopes a) (basic s)"
proof -
  have ne: "server_names E ders (gn_TLS c) \<noteq> []" using assms(8) by auto
  from ApplyDefaults_injects [OF assms(1,3,4,5) ne, of registry] obtain c' cc' where
    c': "gin_ApplyDefaults registry E ders c = (c', None)" "gn_TLS c' = tlsserver_ApplyDefaults (gn_TLS c)"
    "gn_HTTPServer c' = http_ApplyDefaults (gn_HTTPServer c)" "mw_CertificateAuth (gn_Middleware c') = Some cc'"
    "cert_Enabled cc'" "Certificates cc' = Certificates cc @ [ownedCertificate (server_names E ders (gn_TLS c))]"
    by blast
  have v: "certificate_Validate cc' = None"
    using assms(7) ne
    by (auto simp: certificate_Validate_iff c'(6) ownedCertificate_def wildcard_scope_def basic_def Basic_Validate_def)
  have t: "UseTLS (Some (gn_TLS c'))" "ClientAuthType (gn_TLS c') = ''RequireAnyClientCert''"
    using assms(1,2) by (simp_all add: c'(2))
  have "tlsserver_Validate (gn_TLS c') = None"
    using t by (auto simp: tlsserver_Validate_def ParseClientAuthType_def ParseTLSVersion_def UseTLS_def split: if_splits)
  then have "gin_Validate c' = None"
    using t v c'(4) assms(6) by (simp add: gin_Validate_def c'(3) ParseClientAuthType_def)
  moreover have "go_ClientAuth t' = RequireAnyClientCert" if "tlsserver_NewForConfig E (gn_TLS c') [] = Inr t'" for t'
    using that t(2) tlsserver_ClientAuth [OF that] by (simp add: ParseClientAuthType_def)
  moreover have "certificate_Middleware cc' r = Next (r\<lparr>req_Context := Some (TrustAccount
      \<lparr>Trust = TrustCertificate, acc_Name = n, Scopes = [wildcard_scope]\<rparr>)\<rparr>)"
    using assms(7) by (intro lone_name_matched [OF _ assms(8-12) c'(5,6)]) blast
  ultimately show ?thesis
    using c'(1,4) wildcard_grants [OF assms(13)] by (intro exI [of _ c'] exI [of _ cc'] exI) auto
qed

definition named_env :: "(unit certificate, unit) tls_env" where
  "named_env =
     \<lparr>filepath_Clean = (\<lambda>p. p), tls_ReadFile = (\<lambda>_. Inr ''pem''), parse_pem = (\<lambda>_. []),
      LoadX509KeyPair = (\<lambda>_ _. Inr ()),
      ParseCertificate = (\<lambda>_. Inr \<lparr>CommonName = ''srv'', DNSNames = [''srv.local''], URIs = []\<rparr>),
      cert_Verify = (\<lambda>_ _. None)\<rparr>"

definition mtls_certificates :: "unit certificate_config" where
  "mtls_certificates =
     \<lparr>cert_Enabled = True, SkipServerCNInjection = False, Certificates = [], SkipPaths = None,
      cert_ScopeType = [], cert_ScopeParser = None\<rparr>"

definition mtls_config :: "(unit, unit, nat, unit certificate, unit) gin_config" where
  "mtls_config = gin_zero
     \<lparr>gn_TLS := \<lparr>tls_Cert = ''crt'', tls_Key = ''key'', tls_RootCAs = [], tls_MinVersion = [],
        tls_Disabled = False, ClientAuthType = ''RequireAnyClientCert''\<rparr>,
      gn_Middleware := middleware_zero\<lparr>mw_CertificateAuth := Some mtls_certificates\<rparr>\<rparr>"

definition request_by :: "string \<Rightarrow> unit gin_request" where
  "request_by name =
     \<lparr>req_Path = ''/x'', GetHeader = (\<lambda>_. []),
      PeerCertificates = Some [\<lparr>CommonName = name, DNSNames = [], URIs = []\<rparr>],
      req_Context = None, gin_Keys = []\<rparr>"

theorem unverified_server_name_gets_every_scope_witness:
  "\<exists>c' cc' a. gin_ApplyDefaults [] named_env (\<lambda>_. [''der'']) mtls_config = (c', None) \<and> gin_Validate c' = None \<and>
    (\<forall>t. tlsserver_NewForConfig named_env (gn_TLS c') [] = Inr t \<longrightarrow> go_ClientAuth t = RequireAnyClientCert) \<and>
    mw_CertificateAuth (gn_Middleware c') = Some cc' \<and>
    (certificate_Middleware cc' (request_by ''srv.local'') :: (unit, unit) Auth.outcome) =
      Next (request_by ''srv.local''\<lparr>req_Context := Some (TrustAccount a)\<rparr>) \<and>
    MatchScope (Scopes a) (basic (NewScope ''DELETE'' ''prd'' ''payments'' ''admin''))"
  by (rule unverified_server_name_gets_every_scope
      [where cc = mtls_certificates and leaf = "\<lparr>CommonName = ''srv.local'', DNSNames = [], URIs = []\<rparr>"])
    (simp_all add: mtls_config_def mtls_certificates_def gin_zero_def UseTLS_def request_by_def NewScope_def
      server_names_def named_env_def ExtractDNSNames_def http_Validate_defaults FlatMap_eq
      Filter_eq Unique_def UniqueCmp_def)

end
