(* ===== verification/Gin_Server.thy ===== *)
theory Gin_Server
  imports Gin_Config
begin

text \<open>
  The gin server, \<open>pkg/ginserver/ginserver.go\<close> and \<open>options.go\<close>: an engine with its router, HTTP server
  and services, how it is made from a configuration, its options, and how it runs.

  A router is the middlewares in use and the routes registered so far, each with the middlewares in
  use at that time, as gin keeps them. \<open>gin_env\<close> is the rest of gin: which routes its tree accepts (it
  panics otherwise), how paths are joined, the modes it knows and the routes of pprof. \<open>None\<close> is a
  panic or the end of the process.
\<close>

text \<open>What may panic, fail or go on.\<close>

definition and_then :: "(err + 'a) option \<Rightarrow> ('a \<Rightarrow> (err + 'b) option) \<Rightarrow> (err + 'b) option" where
  "and_then r f = (case r of None \<Rightarrow> None | Some (Inl e) \<Rightarrow> Some (Inl e) | Some (Inr x) \<Rightarrow> f x)"

definition wrapping :: "string \<Rightarrow> (err + 'a) option \<Rightarrow> (err + 'a) option" where
  "wrapping msg r = map_option (map_sum (\<lambda>e. Errorf msg [e]) (\<lambda>x. x)) r"

lemma and_then_ok: "and_then r f = Some (Inr y) \<longleftrightarrow> (\<exists>x. r = Some (Inr x) \<and> f x = Some (Inr y))"
  by (auto simp: and_then_def split: option.split sum.split)

lemma wrapping_ok: "wrapping msg r = Some (Inr x) \<longleftrightarrow> r = Some (Inr x)"
  by (cases r; cases "the r") (auto simp: wrapping_def)

section \<open>Routers\<close>

datatype 'h target =
    ProxyTarget
  | HealthTarget endpoint_path
  | MetricsTarget
  | PProfTarget
  | GivenTarget 'h

record ('m, 'h) engine_route =
  er_Method :: string
  er_Path :: string
  er_Chain :: "'m list"
  er_Target :: "'h target"

record ('m, 'h) router =
  rt_Base :: string
  rt_Handlers :: "'m list"
  rt_Routes :: "('m, 'h) engine_route list"

record gin_env =
  ge_accepts :: "(string \<times> string) list \<Rightarrow> string \<Rightarrow> string \<Rightarrow> bool"
  ge_join :: "string \<Rightarrow> string \<Rightarrow> string"
  ge_knows_mode :: "string \<Rightarrow> bool"
  ge_pprof :: "(string \<times> string) list"

definition router_New :: "('m, 'h) router" where
  "router_New = \<lparr>rt_Base = ''/'', rt_Handlers = [], rt_Routes = []\<rparr>"

definition router_Use :: "'m list \<Rightarrow> ('m, 'h) router \<Rightarrow> ('m, 'h) router" where
  "router_Use ms r = r\<lparr>rt_Handlers := rt_Handlers r @ ms\<rparr>"

definition router_Handle ::
  "gin_env \<Rightarrow> string \<Rightarrow> string \<Rightarrow> 'h target \<Rightarrow> ('m, 'h) router \<Rightarrow> ('m, 'h) router option" where
  "router_Handle G meth path target r =
     (let absolutePath = ge_join G (rt_Base r) path in
      if ge_accepts G (map (\<lambda>x. (er_Method x, er_Path x)) (rt_Routes r)) meth absolutePath then
        Some (r\<lparr>rt_Routes := rt_Routes r @
          [\<lparr>er_Method = meth, er_Path = absolutePath, er_Chain = rt_Handlers r, er_Target = target\<rparr>]\<rparr>)
      else None)"

text \<open>A group is the router seen with a longer base path and more handlers; its routes go to the same tree.\<close>

definition GroupWithMiddlewares ::
  "gin_env \<Rightarrow> ('m, 'h) router \<Rightarrow> string \<Rightarrow> 'm list \<Rightarrow> ('m, 'h) router" where
  "GroupWithMiddlewares G rg apiPath middlewares =
     fold (\<lambda>m prefixRouter. router_Use [m] prefixRouter) middlewares
       (rg\<lparr>rt_Base := ge_join G (rt_Base rg) apiPath\<rparr>)"

text \<open>The routes registered in a group stay when the group is left.\<close>

definition in_group ::
  "gin_env \<Rightarrow> string \<Rightarrow> 'm list \<Rightarrow> (('m, 'h) router \<Rightarrow> ('m, 'h) router option) \<Rightarrow>
   ('m, 'h) router \<Rightarrow> ('m, 'h) router option" where
  "in_group G path ms reg r =
     map_option (\<lambda>g. r\<lparr>rt_Routes := rt_Routes g\<rparr>) (reg (GroupWithMiddlewares G r path ms))"

fun handle_all ::
  "gin_env \<Rightarrow> (string \<times> string \<times> 'h target) list \<Rightarrow> ('m, 'h) router \<Rightarrow> ('m, 'h) router option" where
  "handle_all G [] r = Some r"
| "handle_all G ((meth, path, target) # routes) r =
     (case router_Handle G meth path target r of
        None \<Rightarrow> None
      | Some r \<Rightarrow> handle_all G routes r)"

text \<open>A \<open>Route\<close> is what its \<open>Register\<close> does to the router; \<open>None\<close> is a nil route.\<close>

type_synonym ('m, 'h) gin_route = "('m, 'h) router \<Rightarrow> ('m, 'h) router option"

fun gin_RegisterRoutes ::
  "('m, 'h) gin_route option list \<Rightarrow> ('m, 'h) router \<Rightarrow> ('m, 'h) router option" where
  "gin_RegisterRoutes [] r = Some r"
| "gin_RegisterRoutes (None # routes) r = gin_RegisterRoutes routes r"
| "gin_RegisterRoutes (Some reg # routes) r =
     (case reg r of None \<Rightarrow> None | Some r \<Rightarrow> gin_RegisterRoutes routes r)"

definition register_proxy :: "gin_env \<Rightarrow> 'cl proxy \<Rightarrow> ('m, 'h) gin_route" where
  "register_proxy G p = handle_all G (map (\<lambda>(meth, path). (meth, path, ProxyTarget)) (proxy_Register p))"

definition register_health :: "gin_env \<Rightarrow> 'w health \<Rightarrow> ('m, 'h) gin_route" where
  "register_health G h r =
     fold (\<lambda>(group, path, _) r. case r of None \<Rightarrow> None
       | Some r \<Rightarrow> in_group G group [] (router_Handle G ''GET'' path (HealthTarget path)) r)
       (Health.RouteRegister h []) (Some r)"

section \<open>Engines\<close>

record ('w, 's) services =
  sv_prober :: "'w health option"
  sv_reloader :: "'s deployment_reloader option"

text \<open>The mode is a variable of gin for the whole process.\<close>

record ('m, 'h, 'w, 's, 'c, 'k) engine =
  eg_Router :: "('m, 'h) router"
  eg_HTTPServer :: "(unit, 'c, 'k) server option"
  eg_Services :: "('w, 's) services option"
  eg_errChan :: "(int \<times> err list) option option"
  eg_Mode :: string

text \<open>An option fails, panics (\<open>None\<close>), or changes the engine.\<close>

type_synonym ('m, 'h, 'w, 's, 'c, 'k) engine_option =
  "('m, 'h, 'w, 's, 'c, 'k) engine \<Rightarrow> (err + ('m, 'h, 'w, 's, 'c, 'k) engine) option"

fun apply_engine_options ::
  "('m, 'h, 'w, 's, 'c, 'k) engine_option option list \<Rightarrow> ('m, 'h, 'w, 's, 'c, 'k) engine_option" where
  "apply_engine_options [] e = Some (Inr e)"
| "apply_engine_options (None # opts) e = apply_engine_options opts e"
| "apply_engine_options (Some o' # opts) e =
     (case o' e of
        Some (Inr e) \<Rightarrow> apply_engine_options opts e
      | r \<Rightarrow> r)"

definition engine_With ::
  "('m, 'h, 'w, 's, 'c, 'k) engine_option option list \<Rightarrow> ('m, 'h, 'w, 's, 'c, 'k) engine_option" where
  "engine_With opts e = apply_engine_options opts e"

definition WithMode :: "gin_env \<Rightarrow> string \<Rightarrow> ('m, 'h, 'w, 's, 'c, 'k) engine_option" where
  "WithMode G mode e = (if ge_knows_mode G mode then Some (Inr (e\<lparr>eg_Mode := mode\<rparr>)) else None)"

definition new_services :: "('w, 's) services option \<Rightarrow> ('w, 's) services" where
  "new_services s = (case s of None \<Rightarrow> \<lparr>sv_prober = None, sv_reloader = None\<rparr> | Some s \<Rightarrow> s)"

definition WithHealthChecks ::
  "('w, 'c, 'k) probe_env \<Rightarrow> 'w health cfg_option option list \<Rightarrow> ('m, 'h, 'w, 's, 'c, 'k) engine_option" where
  "WithHealthChecks P opts e =
     (let s = new_services (eg_Services e) in
      case (case sv_prober s of None \<Rightarrow> health_New P opts | Some h \<Rightarrow> health_With h opts) of
        Inl err \<Rightarrow> Some (Inl err)
      | Inr h \<Rightarrow> Some (Inr (e\<lparr>eg_Services := Some (s\<lparr>sv_prober := Some h\<rparr>)\<rparr>)))"

definition WithHealthCheckAdd ::
  "('w, 'c, 'k) probe_env \<Rightarrow> ('w, 'c, 'k) hjob_config list \<Rightarrow> ('m, 'h, 'w, 's, 'c, 'k) engine_option" where
  "WithHealthCheckAdd P jobs e =
     (case eg_Services e of
        None \<Rightarrow> Some (Inl (new_error ''services not initialized''))
      | Some s \<Rightarrow>
          (case sv_prober s of
             None \<Rightarrow> Some (Inl (new_error ''prober not initialized''))
           | Some h \<Rightarrow>
               (case Add P jobs h of
                  (h, Some err) \<Rightarrow> Some (Inl err)
                | (h, None) \<Rightarrow> Some (Inr (e\<lparr>eg_Services := Some (s\<lparr>sv_prober := Some h\<rparr>)\<rparr>)))))"

text \<open>Unlike \<open>RegisterRoutes\<close>, \<open>WithRoutes\<close> calls a nil route.\<close>

fun register_each :: "('m, 'h) gin_route option list \<Rightarrow> ('m, 'h) router \<Rightarrow> ('m, 'h) router option" where
  "register_each [] r = Some r"
| "register_each (None # routes) r = None"
| "register_each (Some reg # routes) r =
     (case reg r of None \<Rightarrow> None | Some r \<Rightarrow> register_each routes r)"

definition WithRoutes ::
  "('m, 'h) gin_route option list \<Rightarrow> ('m, 'h, 'w, 's, 'c, 'k) engine_option" where
  "WithRoutes routes e = map_option (\<lambda>r. Inr (e\<lparr>eg_Router := r\<rparr>)) (register_each routes (eg_Router e))"

definition engine_WithAddr :: "string \<Rightarrow> ('m, 'h, 'w, 's, 'c, 'k) engine_option" where
  "engine_WithAddr addr e =
     (case eg_HTTPServer e of
        None \<Rightarrow> None
      | Some s \<Rightarrow>
          (case sv_Server s of
             None \<Rightarrow> None
           | Some srv \<Rightarrow>
               Some (Inr (e\<lparr>eg_HTTPServer := Some (s\<lparr>sv_Server := Some (srv\<lparr>hs_Addr := addr\<rparr>)\<rparr>)\<rparr>))))"

definition WithServices :: "('w, 's) services option \<Rightarrow> ('m, 'h, 'w, 's, 'c, 'k) engine_option" where
  "WithServices s e = Some (Inr (e\<lparr>eg_Services := s\<rparr>))"

definition WithMiddleware :: "'m list \<Rightarrow> ('m, 'h, 'w, 's, 'c, 'k) engine_option" where
  "WithMiddleware ms e = Some (Inr (e\<lparr>eg_Router := router_Use ms (eg_Router e)\<rparr>))"

section \<open>Making an engine\<close>

text \<open>
  What the constructors use of the other components and of the outside: the parsers of scopes, files
  and certificates, the OAuth middleware, the checks' world, the client of the proxy, the reloader
  made from its configuration, and the trace provider.
\<close>

record ('j, 'u, 'b, 'w, 's, 'k) server_env =
  se_gin :: gin_env
  se_parsers :: "('j, 'u) parsers"
  se_tls :: "('u certificate, 'k) tls_env"
  se_ders :: "'k \<Rightarrow> string list"
  se_oauth :: "('u, 'b) oauth_maker"
  se_probe :: "('w, 'u certificate, 'k) probe_env"
  se_tripperware :: "'s tripperware"
  se_reloader :: "reload_config \<Rightarrow> err + 's deployment_reloader"
  se_otel :: otel_state

definition engine_Validate :: "('m, 'h, 'w, 's, 'c, 'k) engine \<Rightarrow> err option" where
  "engine_Validate e =
     (case eg_HTTPServer e of
        None \<Rightarrow> Some (new_error ''http server is nil'')
      | Some s \<Rightarrow> server_Validate s)"

definition HasHealthChecks :: "('m, 'h, 'w, 's, 'c, 'k) engine \<Rightarrow> bool" where
  "HasHealthChecks e = (case eg_Services e of None \<Rightarrow> False | Some s \<Rightarrow> sv_prober s \<noteq> None)"

text \<open>The options \<open>NewEngine\<close> is given are not applied by it.\<close>

definition NewEngine ::
  "('j, 'u, 'b, 'w, 's, 'k) server_env \<Rightarrow> ('j, 'u, 'w, 'u certificate, 'k) gin_config option \<Rightarrow>
   ('m, 'h, 'w, 's, 'u certificate, 'k) engine_option option list \<Rightarrow>
   (err + ('m, 'h, 'w, 's, 'u certificate, 'k) engine) option" where
  "NewEngine E c opts =
     (case c of
        None \<Rightarrow> Some (Inl (new_error ''config is nil''))
      | Some cfg \<Rightarrow>
          if \<not> ge_knows_mode (se_gin E) (gn_Mode cfg) then None
          else
            (case (if UseTLS (Some (gn_TLS cfg)) then
                     (case tlsserver_NewForConfig (se_tls E) (gn_TLS cfg) [] of
                        Inl err \<Rightarrow> Inl err
                      | Inr tlsconfig \<Rightarrow> Inr [Some (WithHandler (Some ())), Some (WithTLS (Some tlsconfig))])
                   else Inr [Some (WithHandler (Some ()))]) of
               Inl err \<Rightarrow> Some (Inl err)
             | Inr serverOptions \<Rightarrow>
                 (case snd (server_NewForConfig (gn_HTTPServer cfg) serverOptions) of
                    Inl err \<Rightarrow> Some (Inl err)
                  | Inr srv \<Rightarrow>
                      (let e = \<lparr>eg_Router = router_New, eg_HTTPServer = Some srv, eg_Services = None,
                         eg_errChan = None, eg_Mode = gn_Mode cfg\<rparr>
                       in case engine_Validate e of
                            Some err \<Rightarrow> Some (Inl (Errorf ''validation failed'' [err]))
                          | None \<Rightarrow> Some (Inr e)))))"

definition UseMiddleware ::
  "('u, 'b) oauth_maker \<Rightarrow> ('j, 'u) middleware_config \<Rightarrow> ('u, 'b) middleware_option list \<Rightarrow>
   (('j, 'u, 'b) mw, 'h, 'w, 's, 'c, 'k) engine_option" where
  "UseMiddleware oauth cfg opts e =
     (case NewMiddlewareForConfig oauth (Some cfg) opts of
        None \<Rightarrow> None
      | Some (Inl err) \<Rightarrow> Some (Inl (Errorf ''failed to create middleware'' [err]))
      | Some (Inr middleware) \<Rightarrow> Some (Inr (e\<lparr>eg_Router := router_Use middleware (eg_Router e)\<rparr>)))"

text \<open>The steps of \<open>RegisterServices\<close>; a part that is missing is a nil pointer, and its use panics.\<close>

definition services_prober ::
  "('w, 'c, 'k) probe_env \<Rightarrow> ('w, 'c, 'k) healthcheck_config option \<Rightarrow> ('m, 'h, 'w, 's, 'c, 'k) engine_option"
where
  "services_prober P cfg e =
     (if HasHealthChecks e then Some (Inr e)
      else case cfg of
          None \<Rightarrow> None
        | Some cfg \<Rightarrow>
            if \<not> hs_Enabled cfg then Some (Inr e)
            else Some (case NewForConfig P (Some (hs_Config cfg)) [] of
                Inl err \<Rightarrow> Inl err
              | Inr h \<Rightarrow> Inr (e\<lparr>eg_Services := Some ((new_services (eg_Services e))\<lparr>sv_prober := Some h\<rparr>)\<rparr>)))"

definition on_router ::
  "('m, 'h) gin_route \<Rightarrow> ('m, 'h, 'w, 's, 'c, 'k) engine \<Rightarrow> ('m, 'h, 'w, 's, 'c, 'k) engine option" where
  "on_router reg e = map_option (\<lambda>r. e\<lparr>eg_Router := r\<rparr>) (reg (eg_Router e))"

definition services_proxy ::
  "gin_env \<Rightarrow> ('c, 'k) tls_env \<Rightarrow> 's tripperware \<Rightarrow> proxy_service option \<Rightarrow>
   ('m, 'h, 'w, 's, 'c, 'k) engine_option" where
  "services_proxy G T dflt cfg e =
     (case cfg of
        None \<Rightarrow> None
      | Some cfg \<Rightarrow>
          if ps_Enabled cfg then
            (case proxy_NewForConfig T dflt (ps_Config cfg) of
               Inl err \<Rightarrow> Some (Inl err)
             | Inr p \<Rightarrow> map_option Inr
                 (on_router (register_proxy G (p :: ('s, 'c, 'k, unit) client proxy)) e))
          else Some (Inr e))"

definition services_reloader ::
  "(reload_config \<Rightarrow> err + 's deployment_reloader) \<Rightarrow> reloader_config option \<Rightarrow>
   ('m, 'h, 'w, 's, 'c, 'k) engine_option" where
  "services_reloader mk cfg e =
     (case cfg of
        None \<Rightarrow> None
      | Some cfg \<Rightarrow>
          if rs_Enabled cfg then
            Some (case mk (rs_Config cfg) of
                Inl err \<Rightarrow> Inl err
              | Inr r \<Rightarrow> Inr (e\<lparr>eg_Services := Some ((new_services (eg_Services e))\<lparr>sv_reloader := Some r\<rparr>)\<rparr>))
          else Some (Inr e))"

definition health_routes ::
  "gin_env \<Rightarrow> ('w, 'c, 'k) healthcheck_config option \<Rightarrow> 'w health option \<Rightarrow> ('m, 'h) gin_route" where
  "health_routes G cfg prober r =
     (case prober of
        None \<Rightarrow> Some r
      | Some h \<Rightarrow>
          (case cfg of
             None \<Rightarrow> None
           | Some cfg \<Rightarrow> if hs_Enabled cfg then register_health G h r else Some r))"

definition metric_routes :: "gin_env \<Rightarrow> metric_config option \<Rightarrow> ('m, 'h) gin_route" where
  "metric_routes G cfg r =
     (case cfg of
        None \<Rightarrow> None
      | Some cfg \<Rightarrow> if mc_Enabled cfg then router_Handle G ''GET'' (mc_Path cfg) MetricsTarget r else Some r)"

definition pprof_routes :: "gin_env \<Rightarrow> bool option \<Rightarrow> ('m, 'h) gin_route" where
  "pprof_routes G cfg r =
     (case cfg of
        None \<Rightarrow> None
      | Some enabled \<Rightarrow>
          if enabled then handle_all G (map (\<lambda>(m, p). (m, p, PProfTarget)) (ge_pprof G)) r else Some r)"

definition services_routes ::
  "gin_env \<Rightarrow> ('w, 'c, 'k) service_config \<Rightarrow> ('m, 'h, 'w, 's, 'c, 'k) engine_option" where
  "services_routes G cfg e = map_option Inr (on_router
     (\<lambda>r. Option.bind (health_routes G (sc_Healthcheck cfg) (sv_prober (new_services (eg_Services e))) r)
       (\<lambda>r. Option.bind (metric_routes G (sc_Metric cfg) r) (pprof_routes G (sc_PProf cfg)))) e)"

definition RegisterServices ::
  "('j, 'u, 'b, 'w, 's, 'k) server_env \<Rightarrow> ('w, 'u certificate, 'k) service_config \<Rightarrow>
   ('m, 'h, 'w, 's, 'u certificate, 'k) engine_option" where
  "RegisterServices E cfg e =
     and_then (services_prober (se_probe E) (sc_Healthcheck cfg)
         (e\<lparr>eg_Services := Some (new_services (eg_Services e))\<rparr>)) (\<lambda>e.
     and_then (services_proxy (se_gin E) (se_tls E) (se_tripperware E) (sc_Proxy cfg) e) (\<lambda>e.
     and_then (services_reloader (se_reloader E) (sc_Reloader cfg) e)
       (services_routes (se_gin E) cfg)))"

text \<open>Tracing needs a registered provider, which is found out last.\<close>

definition check_tracing ::
  "otel_state \<Rightarrow> trace_mw_config option \<Rightarrow> 'e \<Rightarrow> (err + 'e) option" where
  "check_tracing otel cfg e =
     (if IsTracerProviderRegistered otel then Some (Inr e)
      else case cfg of
          None \<Rightarrow> None
        | Some t \<Rightarrow>
            if tm_Enabled t then
              Some (Inl (new_error ''middleware tracing is enabled but no trace provider is configured''))
            else Some (Inr e))"

definition NewCustomEngine ::
  "('j, 'u, 'b, 'w, 's, 'k) server_env \<Rightarrow> ('j, 'u, 'w, 'u certificate, 'k) gin_config option \<Rightarrow>
   ('u, 'b) middleware_option \<Rightarrow>
   (('j, 'u, 'b) mw, 'h, 'w, 's, 'u certificate, 'k) engine_option option list \<Rightarrow>
   (err + (('j, 'u, 'b) mw, 'h, 'w, 's, 'u certificate, 'k) engine) option" where
  "NewCustomEngine E c middlewareOption engineOption =
     (case c of
        None \<Rightarrow> Some (Inl (new_error ''config is nil''))
      | Some c \<Rightarrow>
          (let cfg = gin_ApplyDefaultConfig (se_parsers E) (se_tls E) (se_ders E) c in
           case gin_Validate cfg of
             Some err \<Rightarrow> Some (Inl (Errorf ''validation failed'' [err]))
           | None \<Rightarrow>
               and_then (NewEngine E (Some cfg) engineOption) (\<lambda>e.
               and_then (UseMiddleware (se_oauth E) (gn_Middleware cfg) [middlewareOption] e) (\<lambda>e.
               and_then (wrapping ''failed to create middleware'' (RegisterServices E (gn_Services cfg) e)) (\<lambda>e.
               and_then (wrapping ''failed to apply Engine option'' (apply_engine_options engineOption e))
                 (check_tracing (se_otel E) (mw_Trace (gn_Middleware cfg))))))))"

definition engine_NewForConfig ::
  "('j, 'u, 'b, 'w, 's, 'k) server_env \<Rightarrow> ('j, 'u, 'w, 'u certificate, 'k) gin_config option \<Rightarrow>
   (('j, 'u, 'b) mw, 'h, 'w, 's, 'u certificate, 'k) engine_option option list \<Rightarrow>
   (err + (('j, 'u, 'b) mw, 'h, 'w, 's, 'u certificate, 'k) engine) option" where
  "engine_NewForConfig E c opts = NewCustomEngine E c [] opts"

definition engine_New ::
  "('j, 'u, 'b, 'w, 's, 'k) server_env \<Rightarrow>
   (('j, 'u, 'b) mw, 'h, 'w, 's, 'u certificate, 'k) engine_option option list \<Rightarrow>
   (err + (('j, 'u, 'b) mw, 'h, 'w, 's, 'u certificate, 'k) engine) option" where
  "engine_New E opts =
     (case engine_NewForConfig E (Some (gin_DefaultConfig (se_parsers E) (se_tls E) (se_ders E))) opts of
        Some (Inl err) \<Rightarrow> Some (Inl (Errorf ''failed to create HTTP server'' [err]))
      | r \<Rightarrow> r)"

text \<open>\<open>DefaultEngine\<close> ends the process when there is no engine.\<close>

definition DefaultEngine ::
  "('j, 'u, 'b, 'w, 's, 'k) server_env \<Rightarrow> (('j, 'u, 'b) mw, 'h, 'w, 's, 'u certificate, 'k) engine option" where
  "DefaultEngine E = (case engine_New E [] of Some (Inr e) \<Rightarrow> Some e | _ \<Rightarrow> None)"

text \<open>
  The caller's configuration afterwards: \<open>NewCustomEngine\<close> copies the structure but not what its
  pointers lead to, so the certificates and the reloader's files change for the caller too.
\<close>

definition callers_config ::
  "('j, 'u, 'b, 'w, 's, 'k) server_env \<Rightarrow> ('j, 'u, 'w, 'u certificate, 'k) gin_config \<Rightarrow>
   ('j, 'u, 'w, 'u certificate, 'k) gin_config" where
  "callers_config E c =
     (let cfg = gin_ApplyDefaultConfig (se_parsers E) (se_tls E) (se_ders E) c in
      c\<lparr>gn_Middleware := (gn_Middleware c)\<lparr>mw_CertificateAuth :=
          (if mw_CertificateAuth (gn_Middleware c) = None then None else mw_CertificateAuth (gn_Middleware cfg))\<rparr>,
        gn_Services := (gn_Services c)\<lparr>sc_Reloader :=
          (if sc_Reloader (gn_Services c) = None then None else sc_Reloader (gn_Services cfg))\<rparr>\<rparr>)"

section \<open>Routes and running\<close>

definition engine_Register ::
  "('m, 'h) gin_route option list \<Rightarrow> ('m, 'h, 'w, 's, 'c, 'k) engine \<Rightarrow> ('m, 'h, 'w, 's, 'c, 'k) engine option"
where
  "engine_Register routes e = on_router (gin_RegisterRoutes routes) e"

text \<open>The routes in the order in which \<open>PrintRoutes\<close> logs them.\<close>

definition PrintRoutes :: "('m, 'h, 'w, 's, 'c, 'k) engine \<Rightarrow> (string \<times> string) list" where
  "PrintRoutes e = map (\<lambda>r. (er_Method r, er_Path r)) (sort_key er_Path (rt_Routes (eg_Router e)))"

text \<open>\<open>Shutdown\<close> of an engine, nil or not; the server it is called on is promoted from the HTTP server.\<close>

definition engine_Shutdown ::
  "('x, 'c, 'k) http_world \<Rightarrow> int \<Rightarrow> int \<Rightarrow> ('m, 'h, 'w, 's, 'c, 'k) engine option \<Rightarrow> (int \<times> err option) option"
where
  "engine_Shutdown w t deadline e =
     (case Option.bind e eg_HTTPServer of
        None \<Rightarrow> Some (t, None)
      | Some s \<Rightarrow> map_option (\<lambda>_. Shutdown w t deadline) (sv_Server s))"

text \<open>
  The background functions in their order; \<open>prober_run\<close> and \<open>reloader_run\<close> are the \<open>RunBackground\<close> of
  the services as functions of the time of cancellation. Without services the call panics, and so does
  printing the routes when the address is missing.
\<close>

definition background_fns ::
  "('w health \<Rightarrow> channel_fn) \<Rightarrow> ('s deployment_reloader \<Rightarrow> channel_fn) \<Rightarrow> bool \<Rightarrow>
   (unit, 'c, 'k) http_world \<Rightarrow> int \<Rightarrow> ('m, 'h, 'w, 's, 'c, 'k) engine \<Rightarrow> channel_fn list option" where
  "background_fns prober_run reloader_run pick w t0 e =
     (case (eg_Services e, eg_HTTPServer e) of
        (Some s, Some srv) \<Rightarrow>
          if sv_Server srv = None \<and> rt_Routes (eg_Router e) \<noteq> [] then None
          else Some ((case sv_prober s of None \<Rightarrow> [] | Some h \<Rightarrow> [prober_run h]) @
            (case sv_reloader s of None \<Rightarrow> [] | Some r \<Rightarrow> [reloader_run r]) @
            [\<lambda>c. hd (RunBackground pick t0 \<lparr>cx_Err = None, cx_Done = c\<rparr> (background_do pick w t0 srv) [])])
      | _ \<Rightarrow> None)"

definition engine_RunBackground ::
  "('w health \<Rightarrow> channel_fn) \<Rightarrow> ('s deployment_reloader \<Rightarrow> channel_fn) \<Rightarrow> bool \<Rightarrow>
   (unit, 'c, 'k) http_world \<Rightarrow> int \<Rightarrow> go_ctx \<Rightarrow> ('m, 'h, 'w, 's, 'c, 'k) engine \<Rightarrow>
   ('m, 'h, 'w, 's, 'c, 'k) engine option" where
  "engine_RunBackground prober_run reloader_run pick w t0 ctx e =
     map_option (\<lambda>doFn. e\<lparr>eg_errChan := Some (error_channel (RunAllBackgroundFunc pick t0 ctx doFn [FailFast]))\<rparr>)
       (background_fns prober_run reloader_run pick w t0 e)"

text \<open>\<open>err = errors.Join(err, errCh)\<close> over the channel; the inner \<open>None\<close> is a channel that is never closed.\<close>

definition join_channel :: "err list \<Rightarrow> err option" where
  "join_channel errs = fold (\<lambda>e err. join_errors [err, Some e]) errs None"

definition engine_Run ::
  "('w health \<Rightarrow> channel_fn) \<Rightarrow> ('s deployment_reloader \<Rightarrow> channel_fn) \<Rightarrow> bool \<Rightarrow>
   (unit, 'c, 'k) http_world \<Rightarrow> int \<Rightarrow> go_ctx \<Rightarrow> ('m, 'h, 'w, 's, 'c, 'k) engine \<Rightarrow>
   (int \<times> err option) option option" where
  "engine_Run prober_run reloader_run pick w t0 ctx e =
     map_option (\<lambda>e. map_option (\<lambda>(t, errs). (t, join_channel errs)) (the (eg_errChan e)))
       (engine_RunBackground prober_run reloader_run pick w t0 ctx e)"

definition engine_Wait ::
  "int \<Rightarrow> ('m, 'h, 'w, 's, 'c, 'k) engine \<Rightarrow> (int \<times> err option) option" where
  "engine_Wait t e =
     (case eg_errChan e of
        None \<Rightarrow> Some (t, None)
      | Some ch \<Rightarrow> map_option (\<lambda>(t', errs). (max t t', join_channel errs)) ch)"

section \<open>The contract of registration\<close>

text \<open>
  Whatever registers routes only appends: routes that run behind the handlers in use, and handlers
  after those in use. Then handlers that guard a router guard it afterwards.
\<close>

definition router_extends :: "('m, 'h) router \<Rightarrow> ('m, 'h) router \<Rightarrow> bool" where
  "router_extends r r' \<longleftrightarrow> (\<exists>ms rs. rt_Handlers r' = rt_Handlers r @ ms \<and> rt_Routes r' = rt_Routes r @ rs \<and>
     (\<forall>x \<in> set rs. prefix (rt_Handlers r) (er_Chain x)))"

definition guarded :: "'m list \<Rightarrow> ('m, 'h) router \<Rightarrow> bool" where
  "guarded ms r \<longleftrightarrow> prefix ms (rt_Handlers r) \<and> (\<forall>x \<in> set (rt_Routes r). prefix ms (er_Chain x))"

definition appends :: "('m, 'h) gin_route \<Rightarrow> bool" where
  "appends f \<longleftrightarrow> (\<forall>r r'. f r = Some r' \<longrightarrow> router_extends r r')"

definition engine_appends :: "('m, 'h, 'w, 's, 'c, 'k) engine_option \<Rightarrow> bool" where
  "engine_appends f \<longleftrightarrow> (\<forall>e e'. f e = Some (Inr e') \<longrightarrow> router_extends (eg_Router e) (eg_Router e'))"

lemma router_extends_refl [simp]: "router_extends r r"
  by (simp add: router_extends_def)

lemma router_extends_trans:
  assumes "router_extends r s" "router_extends s t"
  shows "router_extends r t"
proof -
  from assms(1) obtain hs rs where 1: "rt_Handlers s = rt_Handlers r @ hs" "rt_Routes s = rt_Routes r @ rs"
    "\<forall>x \<in> set rs. prefix (rt_Handlers r) (er_Chain x)" unfolding router_extends_def by blast
  from assms(2) obtain hs' rs' where 2: "rt_Handlers t = rt_Handlers s @ hs'" "rt_Routes t = rt_Routes s @ rs'"
    "\<forall>x \<in> set rs'. prefix (rt_Handlers s) (er_Chain x)" unfolding router_extends_def by blast
  have "prefix (rt_Handlers r) (rt_Handlers s)" by (simp add: 1)
  then have "\<forall>x \<in> set rs'. prefix (rt_Handlers r) (er_Chain x)" using 2(3) prefix_order.trans by blast
  with 1 2 show ?thesis by (auto simp: router_extends_def)
qed

lemma router_extends_Use [simp]: "router_extends r (router_Use ms r)"
  by (simp add: router_extends_def router_Use_def)

lemma router_extends_guarded:
  assumes "guarded ms r" "router_extends r r'"
  shows "guarded ms r'"
proof -
  from assms(2) obtain hs rs where r': "rt_Handlers r' = rt_Handlers r @ hs"
    "rt_Routes r' = rt_Routes r @ rs" "\<forall>x \<in> set rs. prefix (rt_Handlers r) (er_Chain x)"
    unfolding router_extends_def by blast
  from assms(1) have "prefix ms (er_Chain x)" if "x \<in> set rs" for x
    using r'(3) that prefix_order.trans unfolding guarded_def by blast
  with assms(1) r' show ?thesis by (auto simp: guarded_def)
qed

locale registration =
  fixes f :: "('m, 'h) gin_route"
  assumes law: "appends f"
begin

lemma keeps_guard: "f r = Some r' \<Longrightarrow> guarded ms r \<Longrightarrow> guarded ms r'"
  using law router_extends_guarded unfolding appends_def by blast

lemma keeps_routes: "f r = Some r' \<Longrightarrow> set (rt_Routes r) \<subseteq> set (rt_Routes r')"
  using law unfolding appends_def router_extends_def by fastforce

end

locale engine_step =
  fixes f :: "('m, 'h, 'w, 's, 'c, 'k) engine_option"
  assumes law: "engine_appends f"
begin

lemma keeps_guard: "f e = Some (Inr e') \<Longrightarrow> guarded ms (eg_Router e) \<Longrightarrow> guarded ms (eg_Router e')"
  using law router_extends_guarded unfolding engine_appends_def by blast

end

lemma appends_Handle: "appends (router_Handle G meth path target)"
  by (auto simp: appends_def router_Handle_def router_extends_def Let_def)

lemma appendsD: "appends f \<Longrightarrow> f r = Some r' \<Longrightarrow> router_extends r r'"
  by (simp add: appends_def)

lemmas Handle_extends = appendsD [OF appends_Handle]

lemma appends_id: "appends Some"
  by (simp add: appends_def)

lemma appends_trans: "appends f \<Longrightarrow> appends g \<Longrightarrow> appends (\<lambda>r. Option.bind (f r) g)"
  unfolding appends_def bind_eq_Some_conv using router_extends_trans by blast

lemma appends_handle_all: "appends (handle_all G routes)"
proof (induction routes)
  case Nil
  then show ?case using appends_id by (simp add: appends_def)
next
  case (Cons x routes)
  obtain meth path target where x: "x = (meth, path, target)" by (cases x)
  have e: "handle_all G (x # routes) = (\<lambda>r. Option.bind (router_Handle G meth path target r) (handle_all G routes))"
    by (rule ext) (simp add: x split: option.split)
  show ?case unfolding e by (rule appends_trans [OF appends_Handle Cons.IH])
qed

text \<open>A group shows its handlers only to the routes registered in it.\<close>

lemma GroupWithMiddlewares_eq:
  "GroupWithMiddlewares G r path ms =
     r\<lparr>rt_Base := ge_join G (rt_Base r) path, rt_Handlers := rt_Handlers r @ ms\<rparr>"
proof -
  have "fold (\<lambda>m r. router_Use [m] r) ms g = g\<lparr>rt_Handlers := rt_Handlers g @ ms\<rparr>" for g :: "('a, 'b) router"
    by (induction ms arbitrary: g) (simp_all add: router_Use_def)
  then show ?thesis by (simp add: GroupWithMiddlewares_def)
qed

lemma appends_group:
  assumes "appends f"
  shows "appends (in_group G path ms f)"
  unfolding appends_def
proof (intro allI impI)
  fix r r'
  assume "in_group G path ms f r = Some r'"
  then obtain g where g: "f (GroupWithMiddlewares G r path ms) = Some g" "r' = r\<lparr>rt_Routes := rt_Routes g\<rparr>"
    by (auto simp: in_group_def)
  from assms g(1) obtain rs where "rt_Routes g = rt_Routes (GroupWithMiddlewares G r path ms) @ rs"
    "\<forall>x \<in> set rs. prefix (rt_Handlers (GroupWithMiddlewares G r path ms)) (er_Chain x)"
    unfolding appends_def router_extends_def by blast
  then have "rt_Routes g = rt_Routes r @ rs" "\<forall>x \<in> set rs. prefix (rt_Handlers r @ ms) (er_Chain x)"
    by (simp_all add: GroupWithMiddlewares_eq)
  with g(2) show "router_extends r r'"
    by (auto simp: router_extends_def dest: append_prefixD)
qed

lemma appends_fold:
  assumes "\<And>x. appends (step x)" "appends f"
  shows "appends (\<lambda>r. fold (\<lambda>x r. case r of None \<Rightarrow> None | Some r \<Rightarrow> step x r) routes (f r))"
  using assms(2)
proof (induction routes arbitrary: f)
  case (Cons x routes)
  have e: "(\<lambda>r. case f r of None \<Rightarrow> None | Some r \<Rightarrow> step x r) = (\<lambda>r. Option.bind (f r) (step x))"
    by (simp add: fun_eq_iff split: option.split)
  have "appends (\<lambda>r. case f r of None \<Rightarrow> None | Some r \<Rightarrow> step x r)"
    unfolding e by (rule appends_trans [OF Cons.prems assms(1)])
  from Cons.IH [OF this] show ?case by simp
qed simp

lemma appends_health: "appends (register_health G h)"
proof -
  have e: "(\<lambda>(group, path, _) r. case r of None \<Rightarrow> None
       | Some r \<Rightarrow> in_group G group [] (router_Handle G ''GET'' path (HealthTarget path)) r) =
    (\<lambda>x r. case r of None \<Rightarrow> None
       | Some r \<Rightarrow> in_group G (fst x) [] (router_Handle G ''GET'' (fst (snd x)) (HealthTarget (fst (snd x)))) r)"
    by (simp add: fun_eq_iff split: prod.split option.split)
  show ?thesis unfolding register_health_def e
    by (rule appends_fold [OF appends_group [OF appends_Handle] appends_id])
qed

lemma appends_each: "(\<And>f. Some f \<in> set routes \<Longrightarrow> appends f) \<Longrightarrow> appends (register_each routes)"
proof (induction routes)
  case (Cons x routes)
  show ?case
  proof (cases x)
    case None
    then show ?thesis by (simp add: appends_def)
  next
    case (Some f)
    have e: "register_each (x # routes) = (\<lambda>r. Option.bind (f r) (register_each routes))"
      by (rule ext) (simp add: Some split: option.split)
    show ?thesis unfolding e using Cons Some by (intro appends_trans) auto
  qed
qed (simp add: appends_def)

lemma appends_RegisterRoutes:
  "(\<And>f. Some f \<in> set routes \<Longrightarrow> appends f) \<Longrightarrow> appends (gin_RegisterRoutes routes)"
proof (induction routes)
  case (Cons x routes)
  show ?case
  proof (cases x)
    case None
    then have e: "gin_RegisterRoutes (x # routes) = gin_RegisterRoutes routes" by (simp add: fun_eq_iff)
    show ?thesis unfolding e using Cons by auto
  next
    case (Some f)
    have e: "gin_RegisterRoutes (x # routes) = (\<lambda>r. Option.bind (f r) (gin_RegisterRoutes routes))"
      by (rule ext) (simp add: Some split: option.split)
    show ?thesis unfolding e using Cons Some by (intro appends_trans) auto
  qed
qed (simp add: appends_def)

lemma appends_services:
  "appends (register_proxy G p)" "appends (metric_routes G m)" "appends (pprof_routes G pp)"
  "appends (health_routes G c h)"
proof -
  show "appends (register_proxy G p)" unfolding register_proxy_def by (rule appends_handle_all)
  show "appends (metric_routes G m)"
    by (auto simp: appends_def metric_routes_def intro: Handle_extends split: option.splits if_splits)
  show "appends (pprof_routes G pp)"
    by (auto simp: appends_def pprof_routes_def intro: appendsD [OF appends_handle_all]
        split: option.splits if_splits)
  show "appends (health_routes G c h)"
    by (auto simp: appends_def health_routes_def intro: appendsD [OF appends_health]
        split: option.splits if_splits)
qed

text \<open>Every way in which the package registers routes keeps the contract.\<close>

interpretation handling: registration "router_Handle G meth path target"
  by unfold_locales (rule appends_Handle)

interpretation proxying: registration "register_proxy G p"
  by unfold_locales (rule appends_services)

interpretation probing: registration "register_health G h"
  by unfold_locales (rule appends_health)

text \<open>So does every option of the package, and the registration of the services.\<close>

lemma engine_appends_same:
  assumes "\<And>e e'. f e = Some (Inr e') \<Longrightarrow> eg_Router e' = eg_Router e"
  shows "engine_appends f"
  using assms by (simp add: engine_appends_def)

lemma engine_appends_router: "appends f \<Longrightarrow> engine_appends (\<lambda>e. map_option Inr (on_router f e))"
  by (auto simp: engine_appends_def appends_def on_router_def)

lemma engine_appends_and_then:
  assumes "engine_appends f" "engine_appends g"
  shows "engine_appends (\<lambda>e. and_then (f e) g)"
  using assms router_extends_trans unfolding engine_appends_def and_then_ok by blast

interpretation mode_option: engine_step "WithMode G mode"
  by unfold_locales (rule engine_appends_same, auto simp: WithMode_def split: if_splits)

interpretation health_option: engine_step "WithHealthChecks P opts"
  by unfold_locales (rule engine_appends_same, auto simp: WithHealthChecks_def Let_def split: sum.splits option.splits)

interpretation health_add_option: engine_step "WithHealthCheckAdd P jobs"
  by unfold_locales
    (rule engine_appends_same, auto simp: WithHealthCheckAdd_def split: option.splits prod.splits)

interpretation addr_option: engine_step "engine_WithAddr addr"
  by unfold_locales (rule engine_appends_same, auto simp: engine_WithAddr_def split: option.splits)

interpretation services_option: engine_step "WithServices s"
  by unfold_locales (rule engine_appends_same, auto simp: WithServices_def)

interpretation middleware_option: engine_step "WithMiddleware ms"
  by unfold_locales (auto simp: engine_appends_def WithMiddleware_def)

lemma engine_appends_WithRoutes:
  "(\<And>f. Some f \<in> set routes \<Longrightarrow> appends f) \<Longrightarrow> engine_appends (WithRoutes routes)"
  using appends_each [of routes] by (auto simp: engine_appends_def appends_def WithRoutes_def)

lemma engine_appends_options:
  "(\<And>f. Some f \<in> set opts \<Longrightarrow> engine_appends f) \<Longrightarrow> engine_appends (apply_engine_options opts)"
proof (induction opts)
  case (Cons x opts)
  show ?case
  proof (cases x)
    case None
    then have e: "apply_engine_options (x # opts) = apply_engine_options opts" by (simp add: fun_eq_iff)
    show ?thesis unfolding e using Cons by auto
  next
    case (Some f)
    have e: "apply_engine_options (x # opts) = (\<lambda>e. and_then (f e) (apply_engine_options opts))"
      by (rule ext) (simp add: Some and_then_def split: option.split sum.split)
    show ?thesis unfolding e using Cons Some by (intro engine_appends_and_then) auto
  qed
qed (simp add: engine_appends_def)

lemma services_routes_appends: "engine_appends (services_routes G cfg)"
proof -
  have "appends (\<lambda>r. Option.bind (health_routes G c h r) (\<lambda>r. Option.bind (metric_routes G m r) (pprof_routes G pp)))"
    for c h m pp by (intro appends_trans appends_services)
  from appendsD [OF this] show ?thesis
    by (auto simp: engine_appends_def services_routes_def on_router_def)
qed

lemma engine_appends_after:
  "engine_appends f \<Longrightarrow> (\<And>e. eg_Router (g e) = eg_Router e) \<Longrightarrow> engine_appends (\<lambda>e. f (g e))"
  unfolding engine_appends_def by metis

interpretation services_registration: engine_step "RegisterServices E cfg"
proof unfold_locales
  have p: "engine_appends (services_prober P c)" for P c
    by (rule engine_appends_same)
      (auto simp: services_prober_def split: if_splits option.splits sum.splits)
  have r: "engine_appends (services_reloader mk c)" for mk c
    by (rule engine_appends_same)
      (auto simp: services_reloader_def split: if_splits option.splits sum.splits)
  have x: "engine_appends (services_proxy G T dflt c)" for G T dflt c
    by (auto simp: engine_appends_def services_proxy_def on_router_def
        intro: appendsD [OF appends_services(1)] split: if_splits option.splits sum.splits)
  have "engine_appends (\<lambda>e. and_then (services_prober (se_probe E) (sc_Healthcheck cfg) e) (\<lambda>e.
     and_then (services_proxy (se_gin E) (se_tls E) (se_tripperware E) (sc_Proxy cfg) e) (\<lambda>e.
     and_then (services_reloader (se_reloader E) (sc_Reloader cfg) e) (services_routes (se_gin E) cfg))))"
    by (intro engine_appends_and_then p x r services_routes_appends)
  from engine_appends_after [OF this, of "\<lambda>e. e\<lparr>eg_Services := Some (new_services (eg_Services e))\<rparr>"]
  show "engine_appends (RegisterServices E cfg)"
    by (simp add: RegisterServices_def [abs_def])
qed

section \<open>Requests in the chain of a route\<close>

lemma run_chain_member:
  assumes "run_chain hs r = Next r'" "h \<in> set hs"
    and "\<And>h r r'. h \<in> set hs \<Longrightarrow> h r = Next r' \<Longrightarrow> PeerCertificates r' = PeerCertificates r"
  shows "\<exists>r1 r2. h r1 = Next r2 \<and> PeerCertificates r1 = PeerCertificates r"
  using assms
proof (induction hs arbitrary: r)
  case (Cons g hs)
  obtain r1 where r1: "g r = Next r1" "run_chain hs r1 = Next r'"
    using Cons.prems(1) by (auto split: outcome.splits)
  show ?case
  proof (cases "h = g")
    case True
    with r1 show ?thesis by blast
  next
    case False
    then have "h \<in> set hs" using Cons.prems(2) by simp
    have "\<exists>r2 r3. h r2 = Next r3 \<and> PeerCertificates r2 = PeerCertificates r1"
      by (rule Cons.IH [OF r1(2) \<open>h \<in> set hs\<close>]) (meson Cons.prems(3) list.set_intros(2))
    then obtain r2 r3 where "h r2 = Next r3" "PeerCertificates r2 = PeerCertificates r1" by blast
    moreover have "PeerCertificates r1 = PeerCertificates r" by (rule Cons.prems(3) [of g]) (simp_all add: r1(1))
    ultimately show ?thesis by auto
  qed
qed simp

fun authorizes :: "('j, 'u, 'b) mw \<Rightarrow> bool" where
  "authorizes (CertificateMW _) = True"
| "authorizes (UserMW _) = True"
| "authorizes (NPAMW _) = True"
| "authorizes _ = False"

lemma authorizes_keeps:
  "authorizes m \<Longrightarrow> mw_handler rest m r = Next r' \<Longrightarrow> PeerCertificates r' = PeerCertificates r"
  by (cases m) (auto dest: certificate_handler.keeps_certificates user_handler.keeps_certificates
      npa_handler.keeps_certificates)

lemma NewCustomEngine_guarded:
  assumes "NewCustomEngine E (Some c) mo opts = Some (Inr e)" "\<And>f. Some f \<in> set opts \<Longrightarrow> engine_appends f"
    and "cfg = gin_ApplyDefaultConfig (se_parsers E) (se_tls E) (se_ders E) c"
  shows "\<exists>mws. NewMiddlewareForConfig (se_oauth E) (Some (gn_Middleware cfg)) [mo] = Some (Inr mws) \<and>
    guarded mws (eg_Router e)"
proof -
  obtain e0 e1 e2 where e: "NewEngine E (Some cfg) opts = Some (Inr e0)"
    "UseMiddleware (se_oauth E) (gn_Middleware cfg) [mo] e0 = Some (Inr e1)"
    "RegisterServices E (gn_Services cfg) e1 = Some (Inr e2)" "apply_engine_options opts e2 = Some (Inr e)"
    using assms(1,3)
    by (auto simp: NewCustomEngine_def Let_def and_then_ok wrapping_ok check_tracing_def
        split: option.splits if_splits)
  have "eg_Router e0 = router_New"
    using e(1) by (auto simp: NewEngine_def Let_def split: option.splits if_splits sum.splits)
  with e(2) obtain mws where mws: "NewMiddlewareForConfig (se_oauth E) (Some (gn_Middleware cfg)) [mo] = Some (Inr mws)"
    "eg_Router e1 = router_Use mws router_New"
    by (auto simp: UseMiddleware_def split: option.splits sum.splits)
  then have "guarded mws (eg_Router e1)" by (simp add: guarded_def router_Use_def router_New_def)
  from services_registration.keeps_guard [OF e(3) this] engine_appends_options [OF assms(2)] e(4)
  have "guarded mws (eg_Router e)"
    using router_extends_guarded unfolding engine_appends_def by blast
  with mws(1) show ?thesis by blast
qed

lemma injectServerCNs_certificates:
  assumes "mw_CertificateAuth (gn_Middleware c) = Some cc"
  shows "\<exists>own. mw_CertificateAuth (gn_Middleware (fst (injectServerCNs E ders c))) =
    Some (cc\<lparr>Certificates := Certificates cc @ own\<rparr>)"
proof (cases "fst (injectServerCNs E ders c) = c")
  case True
  then show ?thesis using assms by (intro exI [of _ "[]"]) simp
next
  case False
  then obtain keypair certs where "LoadX509KeyPair E (tls_Cert (gn_TLS c)) (tls_Key (gn_TLS c)) = Inr keypair"
    "parse_keypair E (ders keypair) = Inr certs" "ExtractDNSNames certs \<noteq> []"
    using assms by (simp add: injectServerCNs_def Let_def split: if_splits sum.splits)
  then show ?thesis using assms False
    by (intro exI [of _ "[ownedCertificate (ExtractDNSNames certs)]"])
      (simp add: injectServerCNs_def Let_def split: if_splits)
qed

lemma certificate_auth_survives:
  assumes "mw_CertificateAuth (gn_Middleware c) = Some cc" "cert_Enabled cc"
  shows "\<exists>cc'. mw_CertificateAuth (gn_Middleware (gin_ApplyDefaultConfig registry E ders c)) = Some cc' \<and>
    cert_Enabled cc' \<and> (\<exists>own. Certificates cc' = Certificates cc @ own)"
proof -
  let ?c = "watch_certificate (c\<lparr>gn_Mode := (if gn_Mode c = [] then ModeRelease else gn_Mode c),
          gn_Middleware := middleware_ApplyDefaults registry (gn_Middleware c),
          gn_TLS := tlsserver_ApplyDefaults (gn_TLS c),
          gn_HTTPServer := http_ApplyDefaults (gn_HTTPServer c),
          gn_Services := services_ApplyDefaults (gn_Services c)\<rparr>)"
  have "mw_CertificateAuth (gn_Middleware ?c) = Some (certificate_ApplyDefaults registry cc)"
    using assms(1) by (simp add: middleware_ApplyDefaults_def)
  from injectServerCNs_certificates [OF this, of E ders] assms(2) show ?thesis
    by (auto simp: gin_ApplyDefaultConfig_def gin_ApplyDefaults_def)
qed

section \<open>Running\<close>

lemma error_channel_bounded:
  assumes "\<forall>r \<in> set rs. \<exists>t e. r = Some (t, e) \<and> t \<le> b"
  shows "\<exists>t errs. error_channel rs = Some (t, errs) \<and> t \<le> max 0 b"
proof -
  have n: "None \<notin> set rs" using assms by auto
  have "x \<le> max 0 b" if "x \<in> insert 0 (fst ` the ` set rs)" for x
    using assms that by fastforce
  then have "Max (insert 0 (fst ` the ` set rs)) \<le> max 0 b" by (simp add: Max_le_iff)
  with n show ?thesis by (simp add: error_channel_def)
qed

lemma FailFast_cancelled:
  assumes "cx_Err ctx = None" "cx_Done ctx = Some c"
  shows "\<forall>r \<in> set (RunAllBackground pick t0 ctx fns [FailFast]).
    \<exists>t e. r = Some (t, e) \<and> t \<le> c + DefaultShutdownTimeout"
proof -
  have "\<exists>t e. Run pick t0 (ctx\<lparr>cx_Done := earliest (cx_Done ctx) f\<rparr>) fn [DefaultShutdownTimeout] = Some (t, e) \<and>
      t \<le> c + DefaultShutdownTimeout" for fn f
  proof -
    obtain c' where c': "earliest (cx_Done ctx) f = Some c'" "c' \<le> c"
      using assms(2) by (cases f) auto
    have "\<exists>t e. Run pick t0 (ctx\<lparr>cx_Done := Some c'\<rparr>) fn [DefaultShutdownTimeout] = Some (t, e) \<and>
        t \<le> c' + max 0 DefaultShutdownTimeout"
      by (rule Run_cancelled) (simp_all add: assms(1))
    with c' show ?thesis by (auto simp: DefaultShutdownTimeout_def)
  qed
  then show ?thesis
    by (auto simp: RunAllBackground_def FailFast_def DefaultRunAllOptions_def DefaultFailFast_def Let_def)
qed

text \<open>An engine straight from \<open>NewEngine\<close> has no services and cannot be run.\<close>

lemma NewEngine_cannot_run:
  assumes "NewEngine E c opts = Some (Inr e)"
  shows "engine_Run prober_run reloader_run pick w t0 ctx e = None"
proof -
  have "eg_Services e = None"
    using assms by (auto simp: NewEngine_def Let_def split: option.splits if_splits sum.splits)
  then show ?thesis by (simp add: engine_Run_def engine_RunBackground_def background_fns_def)
qed

text \<open>Checks that an option sets up after the services are never routed.\<close>

lemma late_checks_have_no_routes:
  "WithHealthChecks P opts e = Some (Inr e') \<Longrightarrow> eg_Router e' = eg_Router e"
  by (auto simp: WithHealthChecks_def Let_def split: sum.splits option.splits)

subsection \<open>Default services\<close>

lemma default_health:
  fixes P :: "('w, 'c, 'k) probe_env"
  shows "\<exists>h. NewForConfig P (Some hcfg_zero) [] = Inr h \<and>
    map (\<lambda>(g, p, _). (g, p)) (Health.RouteRegister h []) = [(''/'', ''/status''), (''/'', ''/healthz''), (''/'', ''/readyz'')]"
proof -
  have d: "hcfg_ApplyDefaults (hcfg_zero :: ('w, 'c, 'k) hconfig) = hcfg_zero
      \<lparr>hcfg_Interval := 5000000000,
       hcfg_CacheConfig := \<lparr>RefreshAgeOnRead = False, SyncPeriod = 10000000000, MaxAge = 20000000000\<rparr>\<rparr>"
    by (simp add: hcfg_ApplyDefaults_def hcfg_zero_def wrap64_id Let_def)
  have v: "hcfg_Validate (hcfg_ApplyDefaults (hcfg_zero :: ('w, 'c, 'k) hconfig)) = None"
    unfolding d by (simp add: hcfg_Validate_def hcfg_zero_def timed_Validate_def)
  obtain cache where c: "NewTimedCache (hcfg_CacheConfig (hcfg_ApplyDefaults (hcfg_zero :: ('w, 'c, 'k) hconfig))) = Inr cache"
    unfolding d by (simp add: NewTimedCache_def Timed_New_def timed_Validate_def New_def)
  have n: "hcfg_Jobs (hcfg_ApplyDefaults (hcfg_zero :: ('w, 'c, 'k) hconfig)) = []"
    unfolding d by (simp add: hcfg_zero_def)
  show ?thesis
    by (simp add: NewForConfig_def ApplyDefaultConfig_def v c n DefaultCheck_def NewHandlerFor_def job_New_def
        job_ApplyDefaults_def job_Validate_def job_config_Validate_def lift_add_def Health.RouteRegister_def
        HasEndpoint_def RootEndpoint_def StatusEndpoint_def HealthEndpoint_def ReadyEndpoint_def Let_def)
qed

lemma default_config_twice:
  fixes c :: "('j, 'u, 'w, 'x, 'y) gin_config" and registry :: "('j, 'u) parsers" and E :: "('u certificate, 'y) tls_env"
  assumes "c = gin_ApplyDefaultConfig registry E ders (gin_DefaultConfig registry E ders)"
  shows "gn_Mode c = ModeRelease" "\<not> UseTLS (Some (gn_TLS c))" "gn_HTTPServer c = http_DefaultConfig"
    "gin_Validate c = None" "mw_Trace (gn_Middleware c) = Some \<lparr>tm_Enabled = False, tm_ServiceName = [], tm_SkipPaths = []\<rparr>"
    "NewMiddlewareForConfig oauth (Some (gn_Middleware c)) opts =
      Some (Inr [RecoveryMW, RequestIDMW, MetricsMW \<lparr>oc_Enabled = True, oc_SkipPaths = metrics_defaultSkipPaths\<rparr>,
       LoggerMW \<lparr>oc_Enabled = True, oc_SkipPaths = logger_defaultSkipPaths\<rparr>])"
    "gn_Services c = services_ApplyDefaults (gn_Services (gin_zero :: ('j, 'u, 'w, 'x, 'y) gin_config))"
proof -
  have eq: "c = (gin_DefaultConfig registry E ders)\<lparr>gn_Middleware := (gn_Middleware
      (gin_DefaultConfig registry E ders :: ('j, 'u, 'w, 'x, 'y) gin_config))
      \<lparr>mw_CertificateAuth := Some (certificate_ApplyDefaults registry \<lparr>cert_Enabled = False,
        SkipServerCNInjection = False, Certificates = [], SkipPaths = None, cert_ScopeType = [],
        cert_ScopeParser = None\<rparr>)\<rparr>\<rparr>"
    by (simp add: assms gin_ApplyDefaultConfig_def gin_DefaultConfig_def gin_ApplyDefaults_def gin_zero_def
      middleware_zero_def middleware_ApplyDefaults_def injectServerCNs_def watch_certificate_def
      services_ApplyDefaults_def tlsserver_ApplyDefaults_def tls_ApplyDefaults_def UseTLS_def ModeRelease_def
      http_ApplyDefaults_def http_DefaultPort_def DefaultReadTimeout_def http_DefaultHost_def
      DefaultReadHeaderTimeout_def DefaultWriteTimeout_def http_DefaultShutdownTimeout_def
      DefaultMaxHeaderBytes_def ClientAuthType_String.simps VersionName_def DefaultMinVersion_def Let_def)
  have d: "gin_DefaultConfig registry E ders = (gin_zero :: ('j, 'u, 'w, 'x, 'y) gin_config)
     \<lparr>gn_Mode := ModeRelease, gn_Middleware := middleware_ApplyDefaults registry middleware_zero,
      gn_TLS := tlsserver_ApplyDefaults (gn_TLS (gin_zero :: ('j, 'u, 'w, 'x, 'y) gin_config)),
      gn_HTTPServer := http_DefaultConfig, gn_Services := services_ApplyDefaults (gn_Services (gin_zero :: ('j, 'u, 'w, 'x, 'y) gin_config))\<rparr>"
    by (simp add: gin_DefaultConfig_def gin_ApplyDefaults_def gin_zero_def injectServerCNs_def watch_certificate_def
        services_ApplyDefaults_def UseTLS_def http_DefaultConfig_def)
  show "gn_Mode c = ModeRelease" "gn_HTTPServer c = http_DefaultConfig"
    "gn_Services c = services_ApplyDefaults (gn_Services (gin_zero :: ('j, 'u, 'w, 'x, 'y) gin_config))" by (simp_all add: eq d)
  show "\<not> UseTLS (Some (gn_TLS c))" by (simp add: eq d gin_zero_def UseTLS_def)
  show "mw_Trace (gn_Middleware c) = Some \<lparr>tm_Enabled = False, tm_ServiceName = [], tm_SkipPaths = []\<rparr>"
    by (simp add: eq d middleware_ApplyDefaults_def middleware_zero_def)
  have "http_Validate (Some http_DefaultConfig) = None"
    by (simp add: http_DefaultConfig_def http_Validate_defaults)
  moreover have "\<not> UseTLS (Some (gn_TLS (gin_zero :: ('j, 'u, 'w, 'x, 'y) gin_config)))"
    by (simp add: gin_zero_def UseTLS_def)
  ultimately show "gin_Validate c = None"
    by (simp add: eq d gin_Validate_def certificate_Validate_iff)
  show "NewMiddlewareForConfig oauth (Some (gn_Middleware c)) opts =
      Some (Inr [RecoveryMW, RequestIDMW, MetricsMW \<lparr>oc_Enabled = True, oc_SkipPaths = metrics_defaultSkipPaths\<rparr>,
       LoggerMW \<lparr>oc_Enabled = True, oc_SkipPaths = logger_defaultSkipPaths\<rparr>])"
    by (simp add: eq d NewMiddlewareForConfig_def middleware_ApplyDefaults_def middleware_zero_def when_enabled_def
        oauth_zero_def Let_def)
qed

lemma default_NewEngine:
  fixes E :: "('j, 'u, 'b, 'w, 's, 'k) server_env" and c :: "('j, 'u, 'w, 'u certificate, 'k) gin_config"
  assumes "ge_knows_mode (se_gin E) (gn_Mode c)" "\<not> UseTLS (Some (gn_TLS c))" "gn_HTTPServer c = http_DefaultConfig"
  shows "\<exists>srv. NewEngine E (Some c) opts = Some (Inr \<lparr>eg_Router = router_New, eg_HTTPServer = Some srv,
    eg_Services = None, eg_errChan = None, eg_Mode = gn_Mode c\<rparr>)"
proof -
  obtain srv0 :: "(unit, 'u certificate, 'k) server" where
    "snd (server_NewForConfig http_DefaultConfig [Some (WithHandler (Some ()))]) = Inr srv0" "server_Validate srv0 = None"
    by (simp add: server_NewForConfig_def http_DefaultConfig_def http_ApplyDefaults_idem http_Validate_defaults
        WithHandler_def server_Validate_def http_ApplyDefaults_def DefaultReadTimeout_def address_ne
        DefaultReadHeaderTimeout_def DefaultWriteTimeout_def http_DefaultShutdownTimeout_def
        DefaultMaxHeaderBytes_def http_Validate_def http_DefaultPort_def Let_def)
  then show ?thesis using assms by (simp add: NewEngine_def engine_Validate_def Let_def)
qed

lemma default_services:
  assumes "\<And>p. ge_join (se_gin E) ''/'' (CHR ''/'' # p) = CHR ''/'' # p"
    and "\<And>rs m p. p \<notin> snd ` set rs \<Longrightarrow> ge_accepts (se_gin E) rs m p"
    and "eg_Services e = None" "eg_Router e = \<lparr>rt_Base = ''/'', rt_Handlers = ms, rt_Routes = []\<rparr>"
    and "NewForConfig (se_probe E) (Some hcfg_zero) [] = Inr h"
    and "Health.RouteRegister h [] = [(''/'', ''/status'', f1), (''/'', ''/healthz'', f2), (''/'', ''/readyz'', f3)]"
  shows "RegisterServices E (services_ApplyDefaults (gn_Services (gin_zero :: ('j, 'u, 'w, 'x, 'y) gin_config))) e =
    Some (Inr (e\<lparr>eg_Services := Some \<lparr>sv_prober = Some h, sv_reloader = None\<rparr>,
      eg_Router := \<lparr>rt_Base = ''/'', rt_Handlers = ms, rt_Routes = map (\<lambda>(p, t).
        \<lparr>er_Method = ''GET'', er_Path = p, er_Chain = ms, er_Target = t\<rparr>)
        [(''/status'', HealthTarget ''/status''), (''/healthz'', HealthTarget ''/healthz''),
         (''/readyz'', HealthTarget ''/readyz''), (''/metrics'', MetricsTarget)]\<rparr>\<rparr>))"
proof -
  let ?s = "services_ApplyDefaults (gn_Services (gin_zero :: ('j, 'u, 'w, 'x, 'y) gin_config))"
  have s: "sc_PProf ?s = Some False" "sc_Metric ?s = Some \<lparr>mc_Path = ''/metrics'', mc_Enabled = True\<rparr>"
    "sc_Healthcheck ?s = Some \<lparr>hs_Enabled = True, hs_Config = hcfg_zero\<rparr>"
    "\<exists>rc. sc_Reloader ?s = Some \<lparr>rs_Enabled = False, rs_Config = rc\<rparr>"
    "\<exists>pc. sc_Proxy ?s = Some \<lparr>ps_Enabled = False, ps_Config = pc\<rparr>"
    by (simp_all add: services_ApplyDefaults_def gin_zero_def DefaultMetricsPath_def)
  then obtain rc pc where s': "sc_Reloader ?s = Some \<lparr>rs_Enabled = False, rs_Config = rc\<rparr>"
    "sc_Proxy ?s = Some \<lparr>ps_Enabled = False, ps_Config = pc\<rparr>" by blast
  have H: "register_health (se_gin E) h \<lparr>rt_Base = ''/'', rt_Handlers = ms, rt_Routes = []\<rparr> =
    Some \<lparr>rt_Base = ''/'', rt_Handlers = ms, rt_Routes = map (\<lambda>(p, t).
        \<lparr>er_Method = ''GET'', er_Path = p, er_Chain = ms, er_Target = t\<rparr>)
        [(''/status'', HealthTarget ''/status''), (''/healthz'', HealthTarget ''/healthz''),
         (''/readyz'', HealthTarget ''/readyz'')]\<rparr>"
    by (simp add: register_health_def assms(1,2,6) in_group_def GroupWithMiddlewares_eq router_Handle_def Let_def)
  show ?thesis
    by (simp add: RegisterServices_def services_prober_def HasHealthChecks_def new_services_def assms(3,4,5) s s'
        and_then_def services_proxy_def services_reloader_def services_routes_def on_router_def health_routes_def
        H metric_routes_def pprof_routes_def router_Handle_def assms(1,2) Let_def)
qed

section \<open>Properties\<close>

text \<open>
  The default engine: release mode, the status, health, readiness and metrics routes, each behind the
  recovery, request id, metrics and logging middlewares in this order.
\<close>

theorem default_engine_routes:
  fixes E :: "('j, 'u, 'b, 'w, 's, 'k) server_env"
  assumes "ge_knows_mode (se_gin E) ModeRelease" "\<And>p. ge_join (se_gin E) ''/'' (CHR ''/'' # p) = CHR ''/'' # p"
    and "\<And>rs m p. p \<notin> snd ` set rs \<Longrightarrow> ge_accepts (se_gin E) rs m p"
  shows "\<exists>e :: (('j, 'u, 'b) mw, 'h, 'w, 's, 'u certificate, 'k) engine. engine_New E [] = Some (Inr e) \<and> eg_Mode e = ModeRelease \<and>
    map (\<lambda>x. (er_Method x, er_Path x, er_Target x)) (rt_Routes (eg_Router e)) =
      [(''GET'', ''/status'', HealthTarget ''/status''), (''GET'', ''/healthz'', HealthTarget ''/healthz''),
       (''GET'', ''/readyz'', HealthTarget ''/readyz''), (''GET'', ''/metrics'', MetricsTarget)] \<and>
    (\<forall>x \<in> set (rt_Routes (eg_Router e)). er_Chain x =
      [RecoveryMW, RequestIDMW, MetricsMW \<lparr>oc_Enabled = True, oc_SkipPaths = metrics_defaultSkipPaths\<rparr>,
       LoggerMW \<lparr>oc_Enabled = True, oc_SkipPaths = logger_defaultSkipPaths\<rparr>])"
proof -
  let ?c = "gin_ApplyDefaultConfig (se_parsers E) (se_tls E) (se_ders E)
    (gin_DefaultConfig (se_parsers E) (se_tls E) (se_ders E)) :: ('j, 'u, 'w, 'u certificate, 'k) gin_config"
  note c = default_config_twice
    [OF refl, where registry = "se_parsers E" and E = "se_tls E" and ders = "se_ders E"]
  have "ge_knows_mode (se_gin E) (gn_Mode ?c)" unfolding c(1) by (rule assms(1))
  from default_NewEngine [OF this c(2,3), of "[] :: (('j, 'u, 'b) mw, 'h, 'w, 's, 'u certificate, 'k) engine_option option list"]
  obtain srv where e: "NewEngine E (Some ?c) ([] :: (('j, 'u, 'b) mw, 'h, 'w, 's, 'u certificate, 'k) engine_option option list) =
    Some (Inr \<lparr>eg_Router = router_New, eg_HTTPServer = Some srv,
    eg_Services = None, eg_errChan = None, eg_Mode = ModeRelease\<rparr>)"
    unfolding c(1) by blast
  obtain h where h: "NewForConfig (se_probe E) (Some hcfg_zero) [] = Inr h"
    "map (\<lambda>(g, p, _). (g, p)) (Health.RouteRegister h []) = [(''/'', ''/status''), (''/'', ''/healthz''), (''/'', ''/readyz'')]"
    using default_health [of "se_probe E"] by (elim exE conjE)
  then obtain f1 f2 f3 where r: "Health.RouteRegister h [] =
      [(''/'', ''/status'', f1), (''/'', ''/healthz'', f2), (''/'', ''/readyz'', f3)]"
    by (auto simp: map_eq_Cons_conv)
  show ?thesis
    by (simp add: engine_New_def engine_NewForConfig_def NewCustomEngine_def c e and_then_def UseMiddleware_def
        wrapping_def router_New_def router_Use_def default_services [OF assms(2,3) _ _ h(1) r] check_tracing_def Let_def)
qed

definition plain_gin :: gin_env where
  "plain_gin =
     \<lparr>ge_accepts = (\<lambda>rs m p. p \<notin> snd ` set rs), ge_join = (\<lambda>b p. p), ge_knows_mode = (\<lambda>m. m = ModeRelease),
      ge_pprof = []\<rparr>"

definition named_probe :: "(nat, unit certificate, unit) probe_env" where
  "named_probe =
     \<lparr>pe_tls = named_env, parse_url = Inr, ParseIP = (\<lambda>_. False), Dial = (\<lambda>_ _ _ _ _. Inr None),
      transport_for = (\<lambda>_. echo_net), pe_kubeconfig = Inr ''t'', pe_canonical = (\<lambda>h. h),
      latency = (\<lambda>_. Some 1)\<rparr>"

definition plain_server_env :: "(unit, unit, unit, nat, nat, unit) server_env" where
  "plain_server_env =
     \<lparr>se_gin = plain_gin, se_parsers = [], se_tls = named_env, se_ders = (\<lambda>_. [''der'']),
      se_oauth = (\<lambda>_ _. None), se_probe = named_probe, se_tripperware = (\<lambda>endpoint. endpoint),
      se_reloader = (\<lambda>_. Inl (new_error ''no cluster'')),
      se_otel = \<lparr>ot_registered = False, ot_provider = None, ot_hooks = 0\<rparr>\<rparr>"

theorem default_engine_routes_witness:
  "\<exists>e :: ((unit, unit, unit) mw, unit, nat, nat, unit certificate, unit) engine.
    engine_New plain_server_env [] = Some (Inr e) \<and> eg_Mode e = ModeRelease \<and>
    map (\<lambda>x. (er_Method x, er_Path x, er_Target x)) (rt_Routes (eg_Router e)) =
      [(''GET'', ''/status'', HealthTarget ''/status''), (''GET'', ''/healthz'', HealthTarget ''/healthz''),
       (''GET'', ''/readyz'', HealthTarget ''/readyz''), (''GET'', ''/metrics'', MetricsTarget)] \<and>
    (\<forall>x \<in> set (rt_Routes (eg_Router e)). er_Chain x =
      [RecoveryMW, RequestIDMW, MetricsMW \<lparr>oc_Enabled = True, oc_SkipPaths = metrics_defaultSkipPaths\<rparr>,
       LoggerMW \<lparr>oc_Enabled = True, oc_SkipPaths = logger_defaultSkipPaths\<rparr>])"
  by (rule default_engine_routes) (simp_all add: plain_server_env_def plain_gin_def)

text \<open>
  C38. With certificate authentication enabled no request reaches anything an engine serves, health
  checks, metrics and the proxy included, unless its client presents a certificate with a name that
  the configuration allows. The other handlers of the chain need only leave the certificates alone.
\<close>

theorem engine_needs_certificate:
  fixes rest :: "('j, 'u, 'b) mw \<Rightarrow> ('u, 'b) handler"
  assumes "NewCustomEngine E (Some c) mo opts = Some (Inr e)" "\<And>f. Some f \<in> set opts \<Longrightarrow> engine_appends f"
    and "mw_CertificateAuth (gn_Middleware c) = Some cc" "cert_Enabled cc"
    and "x \<in> set (rt_Routes (eg_Router e))" "run_chain (map (mw_handler rest) (er_Chain x)) r = Next r'"
    and "\<And>m r r'. m \<in> set (er_Chain x) \<Longrightarrow> \<not> authorizes m \<Longrightarrow> mw_handler rest m r = Next r' \<Longrightarrow>
      PeerCertificates r' = PeerCertificates r"
  shows "\<exists>cc' certs host. mw_CertificateAuth (gn_Middleware
      (gin_ApplyDefaultConfig (se_parsers E) (se_tls E) (se_ders E) c)) = Some cc' \<and>
    PeerCertificates r = Some certs \<and> host \<in> set (Certificates cc') \<and> set (CNs host) \<inter> presented_names certs \<noteq> {}"
proof -
  obtain cc' where cc': "mw_CertificateAuth (gn_Middleware
      (gin_ApplyDefaultConfig (se_parsers E) (se_tls E) (se_ders E) c)) = Some cc'" "cert_Enabled cc'"
    using certificate_auth_survives [OF assms(3,4)] by blast
  from NewCustomEngine_guarded [OF assms(1,2) refl] obtain mws where mws:
    "NewMiddlewareForConfig (se_oauth E) (Some (gn_Middleware
      (gin_ApplyDefaultConfig (se_parsers E) (se_tls E) (se_ders E) c))) [mo] = Some (Inr mws)"
    "guarded mws (eg_Router e)" by blast
  have "CertificateMW cc' \<in> set (er_Chain x)"
    using certificate_middleware_installed [OF mws(1) cc'] mws(2) assms(5)
    by (auto simp: guarded_def dest: set_mono_prefix)
  then have m: "certificate_Middleware cc' \<in> set (map (mw_handler rest) (er_Chain x))" by force
  have keep: "PeerCertificates r' = PeerCertificates r"
    if "h \<in> set (map (mw_handler rest) (er_Chain x))" "h r = Next r'" for h r r'
    using that assms(7) authorizes_keeps by fastforce
  have "\<exists>r1 r2. certificate_Middleware cc' r1 = (Next r2 :: ('u, 'b) Auth.outcome) \<and>
      PeerCertificates r1 = PeerCertificates r"
    by (rule run_chain_member [OF assms(6) m]) (rule keep)
  then obtain r1 r2 where
    r1: "certificate_Middleware cc' r1 = (Next r2 :: ('u, 'b) Auth.outcome)" "PeerCertificates r1 = PeerCertificates r"
    by blast
  from r1(1) [unfolded certificate_Middleware_Next [OF cc'(2)]] r1(2) obtain certs host where
    "PeerCertificates r = Some certs"
    "find (\<lambda>h. set (CNs h) \<inter> presented_names certs \<noteq> {}) (Certificates cc') = Some host" by auto
  with cc'(1) show ?thesis using nth_mem by (fastforce simp: find_Some_iff)
qed

definition own_certificates :: "unit certificate_config" where
  "own_certificates =
     \<lparr>cert_Enabled = True, SkipServerCNInjection = True,
      Certificates = [ownedCertificate [''client.local'']], SkipPaths = Some [], cert_ScopeType = ScopeType,
      cert_ScopeParser = Some (\<lambda>_. (None, None))\<rparr>"

definition mtls_server :: "(unit, unit, nat, unit certificate, unit) gin_config" where
  "mtls_server =
     \<lparr>gn_Mode = ModeRelease,
      gn_TLS = \<lparr>tls_Cert = ''crt'', tls_Key = ''key'', tls_RootCAs = [], tls_MinVersion = ''TLS 1.2'',
        tls_Disabled = False, ClientAuthType = ''RequireAnyClientCert''\<rparr>,
      gn_HTTPServer = http_DefaultConfig,
      gn_Middleware = middleware_zero\<lparr>mw_CertificateAuth := Some own_certificates\<rparr>,
      gn_Services = \<lparr>sc_PProf = Some False, sc_Metric = Some \<lparr>mc_Path = ''/metrics'', mc_Enabled = True\<rparr>,
        sc_Healthcheck = Some \<lparr>hs_Enabled = False, hs_Config = hcfg_zero\<rparr>,
        sc_Reloader = None, sc_Proxy = None\<rparr>\<rparr>"

lemma own_certificates_ApplyDefaults: "certificate_ApplyDefaults registry own_certificates = own_certificates"
  by (simp add: own_certificates_def certificate_ApplyDefaults_def)

lemma mtls_server_config:
  "gn_Mode mtls_server = ModeRelease" "gn_HTTPServer mtls_server = http_DefaultConfig"
  "UseTLS (Some (gn_TLS mtls_server))" "tlsserver_ApplyDefaults (gn_TLS mtls_server) = gn_TLS mtls_server"
  "tlsserver_Validate (gn_TLS mtls_server) = None"
  "ParseClientAuthType (ClientAuthType (gn_TLS mtls_server)) = Inr RequireAnyClientCert"
  by (simp_all add: mtls_server_def UseTLS_def tlsserver_ApplyDefaults_def tls_ApplyDefaults_def tlsserver_Validate_def
      ParseClientAuthType_def ParseTLSVersion_def)

lemma mtls_server_defaults:
  fixes c :: "(unit, unit, nat, unit certificate, unit) gin_config"
  assumes "c = gin_ApplyDefaultConfig [] named_env (\<lambda>_. [''der'']) mtls_server"
  shows "gn_Mode c = ModeRelease" "gn_HTTPServer c = http_DefaultConfig" "gn_TLS c = gn_TLS mtls_server"
    "gn_Middleware c = middleware_ApplyDefaults [] (gn_Middleware mtls_server)"
    "gn_Services c = services_ApplyDefaults (gn_Services mtls_server)"
proof -
  let ?m = "middleware_ApplyDefaults [] (middleware_zero\<lparr>mw_CertificateAuth := Some own_certificates\<rparr>)"
  have m: "gn_Middleware mtls_server = middleware_zero\<lparr>mw_CertificateAuth := Some own_certificates\<rparr>"
    by (simp add: mtls_server_def)
  have i: "mw_CertificateAuth ?m = Some own_certificates" "SkipServerCNInjection own_certificates"
    by (simp_all add: middleware_ApplyDefaults_def own_certificates_ApplyDefaults)
      (simp add: own_certificates_def)
  have w: "sc_Reloader (services_ApplyDefaults (gn_Services mtls_server)) = Some \<lparr>rs_Enabled = False,
      rs_Config = \<lparr>rl_Namespace = [], rl_Deployment = [], rl_Files = [], rl_Interval = 0\<rparr>\<rparr>"
    by (simp add: mtls_server_def services_ApplyDefaults_def)
  have "http_ApplyDefaults http_DefaultConfig = http_DefaultConfig"
    by (simp add: http_DefaultConfig_def http_ApplyDefaults_idem)
  then show "gn_Mode c = ModeRelease" "gn_HTTPServer c = http_DefaultConfig" "gn_TLS c = gn_TLS mtls_server"
    "gn_Middleware c = middleware_ApplyDefaults [] (gn_Middleware mtls_server)"
    "gn_Services c = services_ApplyDefaults (gn_Services mtls_server)"
    by (simp_all add: assms gin_ApplyDefaultConfig_def gin_ApplyDefaults_def watch_certificate_def w m
        injectServerCNs_def i mtls_server_config ModeRelease_def)
qed

lemma mtls_engine:
  "\<exists>(e :: ((unit, unit, unit) mw, unit, nat, nat, unit certificate, unit) engine) x.
    NewCustomEngine plain_server_env (Some mtls_server) [] [] = Some (Inr e) \<and>
    rt_Routes (eg_Router e) = [x] \<and> er_Chain x = [RecoveryMW, RequestIDMW,
      MetricsMW \<lparr>oc_Enabled = True, oc_SkipPaths = metrics_defaultSkipPaths\<rparr>,
      LoggerMW \<lparr>oc_Enabled = True, oc_SkipPaths = logger_defaultSkipPaths\<rparr>, CertificateMW own_certificates]"
proof -
  let ?c = "gin_ApplyDefaultConfig [] named_env (\<lambda>_. [''der'']) mtls_server"
  note c = mtls_server_defaults [OF refl]
  have m: "gn_Middleware mtls_server = middleware_zero\<lparr>mw_CertificateAuth := Some own_certificates\<rparr>"
    by (simp add: mtls_server_def)
  then have own: "mw_CertificateAuth (gn_Middleware mtls_server) = Some own_certificates" by simp
  have certs: "certificate_Validate own_certificates = None"
    by (auto simp: certificate_Validate_iff own_certificates_def ownedCertificate_def wildcard_scope_def basic_def
        Basic_Validate_def)
  have http: "http_Validate (Some http_DefaultConfig) = None"
    by (simp add: http_DefaultConfig_def http_Validate_defaults)
  have valid: "gin_Validate ?c = None"
    by (simp add: gin_Validate_def c mtls_server_config middleware_ApplyDefaults_def own certs
        own_certificates_ApplyDefaults http)
  have mws: "NewMiddlewareForConfig oauth (Some (gn_Middleware ?c)) opts = Some (Inr [RecoveryMW, RequestIDMW,
      MetricsMW \<lparr>oc_Enabled = True, oc_SkipPaths = metrics_defaultSkipPaths\<rparr>,
      LoggerMW \<lparr>oc_Enabled = True, oc_SkipPaths = logger_defaultSkipPaths\<rparr>, CertificateMW own_certificates])"
    for oauth :: "(unit, unit) oauth_maker" and opts
    by (simp add: c(4) m NewMiddlewareForConfig_def middleware_ApplyDefaults_def middleware_zero_def
        when_enabled_def oauth_zero_def own_certificates_ApplyDefaults Let_def) (simp add: own_certificates_def)
  have "\<exists>t. tlsserver_NewForConfig named_env (gn_TLS mtls_server) [] = Inr t \<and> 771 \<le> go_MinVersion t"
    by (simp add: tlsserver_NewForConfig_def mtls_server_config(3,4) cfg_ParseClientAuthType_def
        mtls_server_config(6) NewX509KeyPair_def NewCertPool_def)
      (simp add: mtls_server_def named_env_def ParseTLSVersion_def TLSConfig_Validate_def)
  then obtain t where tls: "tlsserver_NewForConfig named_env (gn_TLS mtls_server) [] = Inr t" "771 \<le> go_MinVersion t"
    by blast
  have "\<exists>srv. NewEngine plain_server_env (Some ?c) ([] :: ((unit, unit, unit) mw, unit, nat, nat, unit certificate,
      unit) engine_option option list) = Some (Inr \<lparr>eg_Router = router_New, eg_HTTPServer = Some srv,
      eg_Services = None, eg_errChan = None, eg_Mode = ModeRelease\<rparr>)"
    using tls(2) by (simp add: NewEngine_def c(1-3) plain_server_env_def plain_gin_def mtls_server_config(3) tls(1)
        server_NewForConfig_def http_DefaultConfig_def http_ApplyDefaults_idem http_Validate_defaults
        WithHandler_def WithTLS_def server_Validate_def engine_Validate_def http_ApplyDefaults_def DefaultReadTimeout_def
        address_ne DefaultReadHeaderTimeout_def DefaultWriteTimeout_def http_DefaultShutdownTimeout_def
        DefaultMaxHeaderBytes_def http_Validate_def http_DefaultPort_def Let_def)
  then obtain srv where e: "NewEngine plain_server_env (Some ?c) ([] :: ((unit, unit, unit) mw, unit, nat, nat,
      unit certificate, unit) engine_option option list) = Some (Inr \<lparr>eg_Router = router_New,
      eg_HTTPServer = Some srv, eg_Services = None, eg_errChan = None, eg_Mode = ModeRelease\<rparr>)" by blast
  have s: "gn_Services ?c = \<lparr>sc_PProf = Some False, sc_Metric = Some \<lparr>mc_Path = ''/metrics'', mc_Enabled = True\<rparr>,
      sc_Healthcheck = Some \<lparr>hs_Enabled = False, hs_Config = hcfg_zero\<rparr>,
      sc_Reloader = Some \<lparr>rs_Enabled = False, rs_Config =
        \<lparr>rl_Namespace = [], rl_Deployment = [], rl_Files = [], rl_Interval = 0\<rparr>\<rparr>,
      sc_Proxy = Some \<lparr>ps_Enabled = False, ps_Config = \<lparr>pc_HTTPConfig = clc_zero, pc_BasePath = [], pc_Routes = []\<rparr>\<rparr>\<rparr>"
    by (simp add: c(5) services_ApplyDefaults_def) (simp add: mtls_server_def)
  have env: "se_parsers plain_server_env = []" "se_tls plain_server_env = named_env"
    "se_ders plain_server_env = (\<lambda>_. [''der''])" "se_gin plain_server_env = plain_gin"
    "IsTracerProviderRegistered (se_otel plain_server_env) = False"
    by (simp_all add: plain_server_env_def IsTracerProviderRegistered_def)
  have tr: "mw_Trace (gn_Middleware ?c) = Some \<lparr>tm_Enabled = False, tm_ServiceName = [], tm_SkipPaths = []\<rparr>"
    by (simp add: c(4) m middleware_ApplyDefaults_def middleware_zero_def)
  show ?thesis
    by (simp add: NewCustomEngine_def env valid e and_then_def UseMiddleware_def mws s RegisterServices_def
        services_prober_def HasHealthChecks_def new_services_def services_proxy_def services_reloader_def
        services_routes_def on_router_def health_routes_def metric_routes_def pprof_routes_def router_Handle_def
        wrapping_def router_Use_def router_New_def plain_gin_def check_tracing_def tr Let_def)
qed

theorem engine_needs_certificate_witness:
  "\<exists>(e :: ((unit, unit, unit) mw, unit, nat, nat, unit certificate, unit) engine) x cc' certs host.
    NewCustomEngine plain_server_env (Some mtls_server) [] [] = Some (Inr e) \<and>
    x \<in> set (rt_Routes (eg_Router e)) \<and>
    mw_CertificateAuth (gn_Middleware (gin_ApplyDefaultConfig [] named_env (\<lambda>_. [''der'']) mtls_server)) = Some cc' \<and>
    PeerCertificates (request_by ''client.local'') = Some certs \<and> host \<in> set (Certificates cc') \<and>
    set (CNs host) \<inter> presented_names certs \<noteq> {}"
proof -
  obtain e :: "((unit, unit, unit) mw, unit, nat, nat, unit certificate, unit) engine" and x where
    e: "NewCustomEngine plain_server_env (Some mtls_server) [] [] = Some (Inr e)" "rt_Routes (eg_Router e) = [x]"
    "er_Chain x = [RecoveryMW, RequestIDMW,
      MetricsMW \<lparr>oc_Enabled = True, oc_SkipPaths = metrics_defaultSkipPaths\<rparr>,
      LoggerMW \<lparr>oc_Enabled = True, oc_SkipPaths = logger_defaultSkipPaths\<rparr>, CertificateMW own_certificates]"
    using mtls_engine by blast
  have o': "mw_CertificateAuth (gn_Middleware mtls_server) = Some own_certificates" "cert_Enabled own_certificates"
    by (simp_all add: mtls_server_def own_certificates_def)
  have x: "x \<in> set (rt_Routes (eg_Router e))" by (simp add: e(2))
  have "\<exists>r'. (certificate_Middleware own_certificates (request_by ''client.local'') :: (unit, unit) Auth.outcome) = Next r'"
    by (rule exI, rule lone_name_matched [of "[]" "''client.local''" "[''client.local'']"
        _ "\<lparr>CommonName = ''client.local'', DNSNames = [], URIs = []\<rparr>"])
      (simp_all add: request_by_def own_certificates_def)
  then have "\<exists>r'. run_chain (map (mw_handler (\<lambda>_. Next)) (er_Chain x)) (request_by ''client.local'') =
      (Next r' :: (unit, unit) Auth.outcome)"
    by (auto simp: e(3))
  then obtain r' where r: "run_chain (map (mw_handler (\<lambda>_. Next)) (er_Chain x)) (request_by ''client.local'') =
      (Next r' :: (unit, unit) Auth.outcome)" by blast
  have "\<exists>cc' certs host. mw_CertificateAuth (gn_Middleware
      (gin_ApplyDefaultConfig (se_parsers plain_server_env) (se_tls plain_server_env) (se_ders plain_server_env)
        mtls_server)) = Some cc' \<and>
    PeerCertificates (request_by ''client.local'') = Some certs \<and> host \<in> set (Certificates cc') \<and>
    set (CNs host) \<inter> presented_names certs \<noteq> {}"
    by (rule engine_needs_certificate [OF e(1) _ o' x r]) (auto simp: e(3))
  with e(1) x show ?thesis by (force simp: plain_server_env_def)
qed

text \<open>
  \<open>Run\<close> returns within the default shutdown timeout of the group after its context is done, whatever
  the health checks, the reloader and the HTTP server do; a longer shutdown timeout of the
  configuration does not count.
\<close>

theorem engine_Run_returns_in_time:
  assumes "background_fns prober_run reloader_run pick w t0 e = Some fns"
    and "cx_Err ctx = None" "cx_Done ctx = Some c"
  shows "\<exists>t err. engine_Run prober_run reloader_run pick w t0 ctx e = Some (Some (t, err)) \<and>
    t \<le> max 0 (c + DefaultShutdownTimeout)"
proof -
  from error_channel_bounded [OF FailFast_cancelled [OF assms(2,3)]]
  obtain t errs where "error_channel (RunAllBackgroundFunc pick t0 ctx fns [FailFast]) = Some (t, errs)"
    "t \<le> max 0 (c + DefaultShutdownTimeout)" unfolding RunAllBackgroundFunc_def by blast
  with assms(1) show ?thesis by (simp add: engine_Run_def engine_RunBackground_def)
qed

definition idle_engine :: "(unit, unit, nat, nat, unit, unit) engine" where
  "idle_engine =
     \<lparr>eg_Router = router_New,
      eg_HTTPServer = Some \<lparr>sv_Server = Some idle_server, sv_shutdownTimeout = 60000000000, sv_errChan = None\<rparr>,
      eg_Services = Some \<lparr>sv_prober = None, sv_reloader = None\<rparr>, eg_errChan = None, eg_Mode = ModeRelease\<rparr>"

theorem engine_Run_returns_in_time_witness:
  "\<exists>t err. engine_Run (\<lambda>_ _. None) (\<lambda>_ _. None) True (idle_world 5) 0 \<lparr>cx_Err = None, cx_Done = Some 10\<rparr> idle_engine =
     Some (Some (t, err)) \<and> t \<le> max 0 (10 + DefaultShutdownTimeout)"
  by (rule engine_Run_returns_in_time) (simp_all add: background_fns_def idle_engine_def)

end
