(* ===== verification/Gin_Manager.thy ===== *)
theory Gin_Manager
  imports Gin_Server
begin

text \<open>
  The manager of servers, \<open>pkg/ginserver/manager\<close>: a web server, a sidecar that checks it and serves the
  metrics, and a proxy in front of it, made from one configuration.

  The configuration is copied for each server, but what its pointers lead to is shared with the copies
  and with the caller, so the caller's configuration is part of the state: the constructors return it
  as it is afterwards. Different pointers of the caller's configuration lead to different objects.
\<close>

section \<open>Configuration\<close>

definition DefaultSidecarHost :: string where "DefaultSidecarHost = ''127.0.0.1''"
definition DefaultSidecarPort :: u16 where "DefaultSidecarPort = 9090"
definition DefaultProxyHost :: string where "DefaultProxyHost = ''127.0.0.1''"
definition DefaultProxyPort :: u16 where "DefaultProxyPort = 9092"

record sidecar_config =
  sd_Host :: string
  sd_Port :: u16

record ('j, 'u, 'w, 'c, 'k) proxycar_config =
  mp_Host :: string
  mp_Port :: u16
  mp_Enabled :: bool
  mp_Config :: proxy_config
  mp_Override :: "('j, 'u, 'w, 'c, 'k) gin_config"

record ('j, 'u, 'w, 'c, 'k) manager_config =
  mg_Config :: "('j, 'u, 'w, 'c, 'k) gin_config"
  mg_SidecarServices :: "('w, 'c, 'k) service_config"
  mg_Sidecar :: sidecar_config
  mg_Proxy :: "('j, 'u, 'w, 'c, 'k) proxycar_config"

record ('m, 'h, 'w, 's, 'c, 'k) manager =
  mgr_Webserver :: "('m, 'h, 'w, 's, 'c, 'k) engine"
  mgr_Sidecar :: "('m, 'h, 'w, 's, 'c, 'k) engine"
  mgr_Proxy :: "('m, 'h, 'w, 's, 'c, 'k) engine option"
  mgr_shutdownTimeout :: int

section \<open>Health checks\<close>

definition reuseTLSConfig :: "tls_server_config \<Rightarrow> tls_client_config" where
  "reuseTLSConfig s = tlsclient_NewConfig (tls_Cert s) (tls_Key s) True (tls_RootCAs s)"

definition newHTTPCheck ::
  "string \<Rightarrow> string \<Rightarrow> string \<Rightarrow> u16 \<Rightarrow> tls_client_config \<Rightarrow> ('w, 'c, 'k) hjob_config" where
  "newHTTPCheck nm desc host port tlsConfig =
     \<lparr>hj_Config = \<lparr>job_Name = nm, job_Description = desc, job_MayFail = False, job_Timeout = 3000000000\<rparr>,
      HTTPGet = Some \<lparr>hc_Path = HealthEndpoint, hc_Scheme = [], hc_Host = host, hc_Port = port,
        hc_TLSConfig = tlsConfig, hc_HTTPHeaders = []\<rparr>,
      OK = False, Telnet = None, hj_CustomHandler = None, Endpoints = [HealthEndpoint, ReadyEndpoint]\<rparr>"

definition newTelnetCheck ::
  "string \<Rightarrow> string \<Rightarrow> string \<Rightarrow> tls_client_config \<Rightarrow> ('w, 'c, 'k) hjob_config" where
  "newTelnetCheck nm desc addr tlsConfig =
     \<lparr>hj_Config = \<lparr>job_Name = nm, job_Description = desc, job_MayFail = False, job_Timeout = 1000000000\<rparr>,
      HTTPGet = None, OK = False,
      Telnet = Some \<lparr>tn_Address = addr, tn_RequestTimeout = 0, tn_TLSConfig = tlsConfig, tn_Protocol = []\<rparr>,
      hj_CustomHandler = None, Endpoints = [HealthEndpoint, ReadyEndpoint]\<rparr>"

definition healthcheck_on :: "('w, 'c, 'k) healthcheck_config option \<Rightarrow> bool" where
  "healthcheck_on h = (case h of None \<Rightarrow> False | Some h \<Rightarrow> hs_Enabled h)"

definition webserver_address :: "('j, 'u, 'w, 'c, 'k) manager_config \<Rightarrow> string" where
  "webserver_address source =
     address (ht_Host (gn_HTTPServer (mg_Config source))) (ht_Port (gn_HTTPServer (mg_Config source)))"

definition createDefaultHealthChecks ::
  "('j, 'u, 'w, 'c, 'k) manager_config \<Rightarrow> ('w, 'c, 'k) hjob_config list" where
  "createDefaultHealthChecks source =
     (let g = mg_Config source; p = mg_Proxy source;
          defaultWebserverCheck =
            (if healthcheck_on (sc_Healthcheck (gn_Services g)) then
               newHTTPCheck ''default-main-webserver-check'' ''Default HTTP health check for main webserver''
                 (ht_Host (gn_HTTPServer g)) (ht_Port (gn_HTTPServer g)) (reuseTLSConfig (gn_TLS g))
             else
               newTelnetCheck ''default-main-webserver-check''
                 ''Default telnet health check for main webserver'' (webserver_address source)
                 (reuseTLSConfig (gn_TLS g)));
          o' = mp_Override p;
          proxyHasHealthCheck = healthcheck_on (sc_Healthcheck (gn_Services o'));
          proxyInheritHealthCheck = (sc_Healthcheck (gn_Services o') = None \<and>
            healthcheck_on (sc_Healthcheck (gn_Services g)));
          tlsconfig = (if tls_Disabled (gn_TLS o') then gn_TLS (gin_zero :: ('j, 'u, 'w, 'c, 'k) gin_config)
            else gn_TLS g)
      in defaultWebserverCheck #
         (if mp_Enabled p then
            [if proxyHasHealthCheck \<or> proxyInheritHealthCheck then
               newHTTPCheck ''default-proxy-check'' ''Default HTTP health check for ProxyCar''
                 (mp_Host p) (mp_Port p) (reuseTLSConfig tlsconfig)
             else
               newTelnetCheck ''default-proxy-check'' ''Default telnet health check for ProxyCar''
                 (address (mp_Host p) (mp_Port p)) (reuseTLSConfig tlsconfig)]
          else []))"

text \<open>What \<open>injectConfig\<close> does to a probe of the sidecar; \<open>sameAddress\<close> is computed before \<open>WithAddress\<close>.\<close>

definition inject_HTTPGet ::
  "('w, 'c, 'k) probe_env \<Rightarrow> ('j, 'u, 'w, 'c, 'k) manager_config \<Rightarrow> http_check_config \<Rightarrow>
   err + http_check_config" where
  "inject_HTTPGet P source c =
     (let g = mg_Config source;
          noAddress = (hc_Host c = [] \<and> hc_Port c = 0);
          sameAddress = (hc_Host c = ht_Host (gn_HTTPServer g) \<and> hc_Port c = ht_Port (gn_HTTPServer g))
      in case (if noAddress \<or> sameAddress then WithAddress P (webserver_address source) c else Inr c) of
           Inl e \<Rightarrow> Inl (Errorf ''failed to upgrade HTTPGet probe address'' [e])
         | Inr c \<Rightarrow>
             (let c = (if hc_Scheme c \<noteq> ''http'' \<and> \<not> UseTLS (Some (hc_TLSConfig c)) \<and> UseTLS (Some (gn_TLS g))
                       then c\<lparr>hc_TLSConfig := reuseTLSConfig (gn_TLS g)\<rparr> else c)
              in Inr (if sameAddress \<and> (case mw_Oauth (gn_Middleware g) of None \<Rightarrow> False | Some o' \<Rightarrow> oauth_Enabled o')
                      then c\<lparr>hc_HTTPHeaders := hc_HTTPHeaders c @ [[(''Authorization'', UseContextToken)]]\<rparr>
                      else c)))"

definition inject_Telnet ::
  "('j, 'u, 'w, 'c, 'k) manager_config \<Rightarrow> telnet_config \<Rightarrow> telnet_config" where
  "inject_Telnet source c =
     (if tn_Address c = webserver_address source \<and> \<not> UseTLS (Some (tn_TLSConfig c)) \<and>
         UseTLS (Some (gn_TLS (mg_Config source)))
      then c\<lparr>tn_TLSConfig := reuseTLSConfig (gn_TLS (mg_Config source))\<rparr> else c)"

text \<open>The loop over the probes, which changes them in place up to the first error.\<close>

fun inject_probes ::
  "('w, 'c, 'k) probe_env \<Rightarrow> ('j, 'u, 'w, 'c, 'k) manager_config \<Rightarrow> ('w, 'c, 'k) hjob_config list \<Rightarrow>
   ('w, 'c, 'k) hjob_config list \<times> err option" where
  "inject_probes P source [] = ([], None)"
| "inject_probes P source (probe # probes) =
     (case (case HTTPGet probe of
              None \<Rightarrow> Inr probe
            | Some c \<Rightarrow>
                (case inject_HTTPGet P source c of
                   Inl e \<Rightarrow> Inl e
                 | Inr c \<Rightarrow> Inr (probe\<lparr>HTTPGet := Some c\<rparr>))) of
        Inl e \<Rightarrow> (probe # probes, Some e)
      | Inr probe \<Rightarrow>
          (let probe = probe\<lparr>Telnet := map_option (inject_Telnet source) (Telnet probe)\<rparr> in
           case inject_probes P source probes of (probes, e) \<Rightarrow> (probe # probes, e)))"

definition probes_of :: "('w, 'c, 'k) service_config \<Rightarrow> ('w, 'c, 'k) hjob_config list option" where
  "probes_of s = map_option (\<lambda>h. hcfg_Jobs (hs_Config h)) (sc_Healthcheck s)"

definition with_probes ::
  "('w, 'c, 'k) hjob_config list \<Rightarrow> ('w, 'c, 'k) service_config \<Rightarrow> ('w, 'c, 'k) service_config" where
  "with_probes jobs s = s\<lparr>sc_Healthcheck := map_option (\<lambda>h. h\<lparr>hs_Config := (hs_Config h)\<lparr>hcfg_Jobs := jobs\<rparr>\<rparr>)
     (sc_Healthcheck s)\<rparr>"

definition injectConfig ::
  "('w, 'c, 'k) probe_env \<Rightarrow> ('j, 'u, 'w, 'c, 'k) manager_config \<Rightarrow> ('j, 'u, 'w, 'c, 'k) manager_config \<Rightarrow>
   ('j, 'u, 'w, 'c, 'k) manager_config \<times> err option" where
  "injectConfig P dest source =
     (case (case probes_of (mg_SidecarServices dest) of
              Some jobs \<Rightarrow>
                (case inject_probes P source jobs of (jobs, e) \<Rightarrow> (with_probes jobs (mg_SidecarServices dest), e))
            | None \<Rightarrow>
                ((mg_SidecarServices dest)\<lparr>sc_Healthcheck := Some
                   \<lparr>hs_Enabled = True, hs_Config =
                      hcfg_zero\<lparr>hcfg_Jobs := createDefaultHealthChecks source, hcfg_Interval := 5000000000,
                        hcfg_SystemInfo := True\<rparr>\<rparr>\<rparr>, None)) of
        (services, Some e) \<Rightarrow> (dest\<lparr>mg_SidecarServices := services\<rparr>, Some e)
      | (services, None) \<Rightarrow>
          (dest\<lparr>mg_SidecarServices := services,
             mg_Config := (mg_Config dest)\<lparr>gn_Services := services\<rparr>\<rparr>, None))"

section \<open>Shared configuration\<close>

text \<open>
  What a caller's configuration becomes when a copy of it has become \<open>copy\<close> without new pointers: the
  objects that the manager changes through pointers are those of the copy.
\<close>

definition shared :: "'p option \<Rightarrow> 'p option \<Rightarrow> 'p option" where
  "shared mine copied = (if mine = None then None else copied)"

definition written_back ::
  "('j, 'u, 'w, 'c, 'k) gin_config \<Rightarrow> ('j, 'u, 'w, 'c, 'k) gin_config \<Rightarrow> ('j, 'u, 'w, 'c, 'k) gin_config" where
  "written_back c copy =
     c\<lparr>gn_Middleware := (gn_Middleware c)\<lparr>mw_CertificateAuth :=
         shared (mw_CertificateAuth (gn_Middleware c)) (mw_CertificateAuth (gn_Middleware copy))\<rparr>,
       gn_Services := (gn_Services c)\<lparr>sc_Reloader := shared (sc_Reloader (gn_Services c)) (sc_Reloader (gn_Services copy)),
         sc_Metric := shared (sc_Metric (gn_Services c)) (sc_Metric (gn_Services copy))\<rparr>\<rparr>"

definition no_metrics :: "('j, 'u, 'w, 'c, 'k) gin_config \<Rightarrow> ('j, 'u, 'w, 'c, 'k) gin_config" where
  "no_metrics g = g\<lparr>gn_Services := (gn_Services g)\<lparr>sc_Metric :=
     map_option (\<lambda>m. m\<lparr>mc_Enabled := False\<rparr>) (sc_Metric (gn_Services g))\<rparr>\<rparr>"

section \<open>The sidecar\<close>

definition sidecar_host :: "sidecar_config \<Rightarrow> string" where
  "sidecar_host s = (if sd_Host s \<noteq> [] then sd_Host s else DefaultSidecarHost)"

definition sidecar_port :: "sidecar_config \<Rightarrow> u16" where
  "sidecar_port s = (if sd_Port s > 0 then sd_Port s else DefaultSidecarPort)"

definition no_client_certs :: "tls_server_config \<Rightarrow> tls_server_config" where
  "no_client_certs t =
     (if UseTLS (Some t) then t\<lparr>ClientAuthType := ClientAuthType_String NoClientCert\<rparr> else t)"

definition ApplySidecarDefaults ::
  "('j, 'u) parsers \<Rightarrow> ('u certificate, 'k) tls_env \<Rightarrow> ('k \<Rightarrow> string list) \<Rightarrow>
   ('j, 'u, 'w, 'c, 'k) manager_config \<Rightarrow> ('j, 'u, 'w, 'c, 'k) manager_config \<times> err option" where
  "ApplySidecarDefaults registry T ders c =
     (case gin_ApplyDefaults registry T ders (mg_Config c) of
        (g, Some e) \<Rightarrow> (c\<lparr>mg_Config := g\<rparr>, Some e)
      | (g, None) \<Rightarrow>
          (c\<lparr>mg_Config := g\<lparr>gn_HTTPServer := (gn_HTTPServer g)\<lparr>ht_Host := sidecar_host (mg_Sidecar c),
                ht_Port := sidecar_port (mg_Sidecar c)\<rparr>,
              gn_TLS := no_client_certs (gn_TLS g),
              gn_Middleware := middleware_zero\<lparr>mw_Recovery := Some True\<rparr>\<rparr>\<rparr>, None))"

section \<open>The proxy\<close>

text \<open>What \<open>ApplyProxyDefaults\<close> changes through pointers, and then in its own copy.\<close>

definition proxycar_disables :: "('j, 'u, 'w, 'c, 'k) gin_config \<Rightarrow> ('j, 'u, 'w, 'c, 'k) gin_config" where
  "proxycar_disables g = (no_metrics g)\<lparr>gn_Middleware := (gn_Middleware g)\<lparr>mw_CertificateAuth :=
     map_option (\<lambda>cc. cc\<lparr>cert_Enabled := False\<rparr>) (mw_CertificateAuth (gn_Middleware g))\<rparr>\<rparr>"

definition override :: "'p option \<Rightarrow> 'p option \<Rightarrow> 'p option" where
  "override o' p = (if o' \<noteq> None then o' else p)"

definition override_middleware ::
  "('j, 'u) middleware_config \<Rightarrow> ('j, 'u) middleware_config \<Rightarrow> ('j, 'u) middleware_config" where
  "override_middleware o' m =
     \<lparr>mw_Recovery = override (mw_Recovery o') (mw_Recovery m), mw_Metrics = override (mw_Metrics o') (mw_Metrics m),
      mw_Logger = override (mw_Logger o') (mw_Logger m), mw_Trace = override (mw_Trace o') (mw_Trace m),
      mw_RequestID = override (mw_RequestID o') (mw_RequestID m), mw_GZIP = override (mw_GZIP o') (mw_GZIP m),
      mw_Oauth = override (mw_Oauth o') (mw_Oauth m), mw_UserAuth = override (mw_UserAuth o') (mw_UserAuth m),
      mw_NPAAuth = override (mw_NPAAuth o') (mw_NPAAuth m),
      mw_CertificateAuth = override (mw_CertificateAuth o') (mw_CertificateAuth m)\<rparr>"

definition proxycar_assigns ::
  "('j, 'u, 'w, 'c, 'k) proxycar_config \<Rightarrow> ('j, 'u, 'w, 'c, 'k) gin_config \<Rightarrow> ('j, 'u, 'w, 'c, 'k) gin_config" where
  "proxycar_assigns p g =
     g\<lparr>gn_Services := (gn_Services g)\<lparr>sc_Proxy := None, sc_Reloader := None\<rparr>,
       gn_HTTPServer := (gn_HTTPServer g)\<lparr>ht_Host := (if mp_Host p \<noteq> [] then mp_Host p else DefaultProxyHost),
         ht_Port := (if mp_Port p > 0 then mp_Port p else DefaultProxyPort)\<rparr>,
       gn_TLS := (if tls_Disabled (gn_TLS (mp_Override p)) then gn_TLS (gin_zero :: ('j, 'u, 'w, 'c, 'k) gin_config)
         else no_client_certs (gn_TLS g)),
       gn_Middleware := override_middleware (gn_Middleware (mp_Override p)) (gn_Middleware g)\<rparr>"

definition ApplyProxyDefaults ::
  "('j, 'u) parsers \<Rightarrow> ('u certificate, 'k) tls_env \<Rightarrow> ('k \<Rightarrow> string list) \<Rightarrow>
   ('j, 'u, 'w, 'c, 'k) manager_config \<Rightarrow> ('j, 'u, 'w, 'c, 'k) manager_config \<times> err option" where
  "ApplyProxyDefaults registry T ders c =
     (case gin_ApplyDefaults registry T ders (mg_Config c) of
        (g, Some e) \<Rightarrow> (c\<lparr>mg_Config := g\<rparr>, Some e)
      | (g, None) \<Rightarrow> (c\<lparr>mg_Config := proxycar_assigns (mg_Proxy c) (proxycar_disables g)\<rparr>, None))"

definition injectProxyConfig ::
  "('j, 'u, 'w, 'c, 'k) manager_config \<Rightarrow> ('j, 'u, 'w, 'c, 'k) manager_config \<Rightarrow> ('j, 'u, 'w, 'c, 'k) manager_config"
where
  "injectProxyConfig c webserverConfig =
     (let t = gn_TLS (mg_Config webserverConfig) in
      if UseTLS (Some t) then
        c\<lparr>mg_Proxy := (mg_Proxy c)\<lparr>mp_Config := (mp_Config (mg_Proxy c))\<lparr>pc_HTTPConfig :=
          (pc_HTTPConfig (mp_Config (mg_Proxy c)))\<lparr>clc_TLS := reuseTLSConfig t\<rparr>\<rparr>\<rparr>\<rparr>
      else c)"

text \<open>The caller's configuration after \<open>ApplyProxyDefaults\<close> on a copy of it.\<close>

definition after_proxy_defaults ::
  "('j, 'u) parsers \<Rightarrow> ('u certificate, 'k) tls_env \<Rightarrow> ('k \<Rightarrow> string list) \<Rightarrow>
   ('j, 'u, 'w, 'c, 'k) manager_config \<Rightarrow> ('j, 'u, 'w, 'c, 'k) manager_config" where
  "after_proxy_defaults registry T ders c =
     c\<lparr>mg_Config := written_back (mg_Config c)
        (case gin_ApplyDefaults registry T ders (mg_Config c) of
           (g, Some e) \<Rightarrow> g
         | (g, None) \<Rightarrow> proxycar_disables g)\<rparr>"

definition override_back ::
  "('j, 'u, 'w, 'c, 'k) gin_config \<Rightarrow> ('j, 'u, 'w, 'c, 'k) manager_config \<Rightarrow> ('j, 'u, 'w, 'c, 'k) manager_config" where
  "override_back g c =
     (let o' = mp_Override (mg_Proxy c) in
      c\<lparr>mg_Proxy := (mg_Proxy c)\<lparr>mp_Override := o'\<lparr>gn_Middleware := (gn_Middleware o')\<lparr>mw_CertificateAuth :=
        shared (mw_CertificateAuth (gn_Middleware o')) (mw_CertificateAuth (gn_Middleware g))\<rparr>\<rparr>\<rparr>\<rparr>)"

text \<open>\<open>newProxyCar\<close>; the engine is \<open>None\<close> without an enabled proxy that has routes.\<close>

definition newProxyCar ::
  "('j, 'u, 'b, 'w, 's, 'k) server_env \<Rightarrow> ('j, 'u, 'w, 'u certificate, 'k) manager_config \<Rightarrow>
   ('j, 'u, 'w, 'u certificate, 'k) manager_config \<Rightarrow>
   (err + (('j, 'u, 'b) mw, 'h, 'w, 's, 'u certificate, 'k) engine option) option \<times>
   ('j, 'u, 'w, 'u certificate, 'k) manager_config" where
  "newProxyCar E c mainConfig =
     (if mp_Enabled (mg_Proxy mainConfig) \<and> length (pc_Routes (mp_Config (mg_Proxy mainConfig))) > 0 then
        (let c' = after_proxy_defaults (se_parsers E) (se_tls E) (se_ders E) c in
         case ApplyProxyDefaults (se_parsers E) (se_tls E) (se_ders E) c of
           (p, Some e) \<Rightarrow> (Some (Inl (Errorf ''failed to apply proxy defaults'' [e])), c')
         | (p, None) \<Rightarrow>
             (let p = injectProxyConfig p mainConfig in
              case proxy_NewForConfig (se_tls E) (se_tripperware E) (mp_Config (mg_Proxy p)) of
                Inl e \<Rightarrow> (Some (Inl (Errorf ''failed to create proxy client'' [e])), c')
              | Inr proxyclient \<Rightarrow>
                  (map_option (map_sum (\<lambda>e. Errorf ''failed to create proxy server'' [e]) Some)
                     (engine_NewForConfig E (Some (mg_Config p)) [Some (WithRoutes
                        [Some (register_proxy (se_gin E) (proxyclient :: ('s, 'u certificate, 'k, unit) client proxy))])]),
                   override_back (callers_config E (mg_Config p)) c')))
      else (Some (Inr None), c))"

section \<open>The manager\<close>

text \<open>The web server with its configuration, and the caller's configuration afterwards.\<close>

definition manager_webserver ::
  "('j, 'u, 'b, 'w, 's, 'k) server_env \<Rightarrow> ('j, 'u, 'w, 'u certificate, 'k) manager_config \<Rightarrow>
   (err + ('j, 'u, 'w, 'u certificate, 'k) manager_config \<times>
     (('j, 'u, 'b) mw, 'h, 'w, 's, 'u certificate, 'k) engine) option \<times>
   ('j, 'u, 'w, 'u certificate, 'k) manager_config" where
  "manager_webserver E c =
     (case gin_ApplyDefaults (se_parsers E) (se_tls E) (se_ders E) (mg_Config c) of
        (g, Some e) \<Rightarrow> (Some (Inl e), c\<lparr>mg_Config := written_back (mg_Config c) g\<rparr>)
      | (g, None) \<Rightarrow>
          (let after' = callers_config E (no_metrics g) in
           (map_option (map_sum (\<lambda>e. Errorf ''failed to create HTTP server'' [e]) (Pair (c\<lparr>mg_Config := after'\<rparr>)))
              (engine_NewForConfig E (Some (no_metrics g)) []),
            c\<lparr>mg_Config := written_back (mg_Config c) after'\<rparr>)))"

text \<open>The services of the sidecar are the caller's, pointers included.\<close>

definition services_back ::
  "('j, 'u, 'b, 'w, 's, 'k) server_env \<Rightarrow> ('j, 'u, 'w, 'u certificate, 'k) manager_config \<Rightarrow>
   ('j, 'u, 'w, 'u certificate, 'k) manager_config \<Rightarrow> ('j, 'u, 'w, 'u certificate, 'k) manager_config" where
  "services_back E s c =
     c\<lparr>mg_SidecarServices := (mg_SidecarServices c)\<lparr>
         sc_Healthcheck := shared (sc_Healthcheck (mg_SidecarServices c)) (sc_Healthcheck (mg_SidecarServices s)),
         sc_Reloader := shared (sc_Reloader (mg_SidecarServices c))
           (sc_Reloader (gn_Services (callers_config E (mg_Config s))))\<rparr>\<rparr>"

definition manager_sidecar ::
  "('j, 'u, 'b, 'w, 's, 'k) server_env \<Rightarrow> ('j, 'u, 'w, 'u certificate, 'k) manager_config \<Rightarrow>
   ('j, 'u, 'w, 'u certificate, 'k) manager_config \<Rightarrow>
   (err + (('j, 'u, 'b) mw, 'h, 'w, 's, 'u certificate, 'k) engine) option \<times>
   ('j, 'u, 'w, 'u certificate, 'k) manager_config" where
  "manager_sidecar E webserverConfig c =
     (let c' = c\<lparr>mg_Config := written_back (mg_Config c)
            (fst (gin_ApplyDefaults (se_parsers E) (se_tls E) (se_ders E) (mg_Config c)))\<rparr> in
      case ApplySidecarDefaults (se_parsers E) (se_tls E) (se_ders E) c of
        (s, Some e) \<Rightarrow> (Some (Inl (Errorf ''failed to apply sidecar defaults'' [e])), c')
      | (s, None) \<Rightarrow>
          (case injectConfig (se_probe E) s webserverConfig of
             (s, Some e) \<Rightarrow>
               (Some (Inl (Errorf ''failed to apply default sidecar configuration'' [e])),
                c'\<lparr>mg_SidecarServices := mg_SidecarServices s\<rparr>)
           | (s, None) \<Rightarrow>
               (map_option (map_sum (\<lambda>e. Errorf ''failed to create HTTP server'' [e]) (\<lambda>srv. srv))
                  (engine_NewForConfig E (Some (mg_Config s)) []),
                services_back E s c')))"

type_synonym ('m, 'h, 'w, 's, 'c, 'k) manager_option =
  "('m, 'h, 'w, 's, 'c, 'k) manager \<Rightarrow> (err + ('m, 'h, 'w, 's, 'c, 'k) manager) option"

fun manager_With ::
  "('m, 'h, 'w, 's, 'c, 'k) manager_option option list \<Rightarrow> ('m, 'h, 'w, 's, 'c, 'k) manager_option" where
  "manager_With [] m = Some (Inr m)"
| "manager_With (None # opts) m = manager_With opts m"
| "manager_With (Some o' # opts) m =
     (case o' m of
        Some (Inr m) \<Rightarrow> manager_With opts m
      | r \<Rightarrow> r)"

definition NewManager ::
  "('j, 'u, 'b, 'w, 's, 'k) server_env \<Rightarrow> ('j, 'u, 'w, 'u certificate, 'k) manager_config option \<Rightarrow>
   (('j, 'u, 'b) mw, 'h, 'w, 's, 'u certificate, 'k) manager_option option list \<Rightarrow>
   (err + (('j, 'u, 'b) mw, 'h, 'w, 's, 'u certificate, 'k) manager) option \<times>
   ('j, 'u, 'w, 'u certificate, 'k) manager_config option" where
  "NewManager E c opts =
     (case c of
        None \<Rightarrow> (Some (Inl (new_error ''config is nil'')), None)
      | Some c \<Rightarrow>
          (case manager_webserver E c of
             (None, c) \<Rightarrow> (None, Some c)
           | (Some (Inl e), c) \<Rightarrow> (Some (Inl e), Some c)
           | (Some (Inr (webserverConfig, webserver)), c) \<Rightarrow>
               (case manager_sidecar E webserverConfig c of
                  (None, c) \<Rightarrow> (None, Some c)
                | (Some (Inl e), c) \<Rightarrow> (Some (Inl e), Some c)
                | (Some (Inr sidecar), c) \<Rightarrow>
                    (case newProxyCar E c webserverConfig of
                       (None, c) \<Rightarrow> (None, Some c)
                     | (Some (Inl e), c) \<Rightarrow> (Some (Inl e), Some c)
                     | (Some (Inr proxycar), c) \<Rightarrow>
                         (wrapping ''failed to apply Engine option'' (manager_With opts
                            \<lparr>mgr_Webserver = webserver, mgr_Sidecar = sidecar, mgr_Proxy = proxycar,
                             mgr_shutdownTimeout = ht_ShutdownTimeout (gn_HTTPServer (mg_Config webserverConfig))\<rparr>),
                          Some c)))))"

text \<open>
  The options. What an option for the proxy does to a nil engine, when there is no proxy, comes with
  it: most of them panic.
\<close>

definition WithWebserverOptions ::
  "('m, 'h, 'w, 's, 'c, 'k) engine_option option list \<Rightarrow> ('m, 'h, 'w, 's, 'c, 'k) manager_option" where
  "WithWebserverOptions opts m =
     map_option (map_sum (\<lambda>e. e) (\<lambda>e. m\<lparr>mgr_Webserver := e\<rparr>)) (engine_With opts (mgr_Webserver m))"

definition WithSidecarOptions ::
  "('m, 'h, 'w, 's, 'c, 'k) engine_option option list \<Rightarrow> ('m, 'h, 'w, 's, 'c, 'k) manager_option" where
  "WithSidecarOptions opts m =
     map_option (map_sum (\<lambda>e. e) (\<lambda>e. m\<lparr>mgr_Sidecar := e\<rparr>)) (engine_With opts (mgr_Sidecar m))"

fun With_nil :: "err option option option list \<Rightarrow> err option option" where
  "With_nil [] = Some None"
| "With_nil (None # opts) = With_nil opts"
| "With_nil (Some None # opts) = None"
| "With_nil (Some (Some (Some e)) # opts) = Some (Some e)"
| "With_nil (Some (Some None) # opts) = With_nil opts"

definition WithProxycarOptions ::
  "(('m, 'h, 'w, 's, 'c, 'k) engine_option \<times> err option option) option list \<Rightarrow>
   ('m, 'h, 'w, 's, 'c, 'k) manager_option" where
  "WithProxycarOptions opts m =
     (case mgr_Proxy m of
        Some p \<Rightarrow> map_option (map_sum (\<lambda>e. e) (\<lambda>e. m\<lparr>mgr_Proxy := Some e\<rparr>))
          (engine_With (map (map_option fst) opts) p)
      | None \<Rightarrow>
          (case With_nil (map (map_option snd) opts) of
             None \<Rightarrow> None
           | Some (Some e) \<Rightarrow> Some (Inl e)
           | Some None \<Rightarrow> Some (Inr m)))"

section \<open>Running\<close>

text \<open>
  The first value on the channel of a group, \<open>nil\<close> when it is closed without one. An engine in the
  group of the manager is run by the goroutine that waits for that value, so its panic is recovered.
\<close>

definition first_value :: "(int \<times> err option) option list \<Rightarrow> (int \<times> err option) option" where
  "first_value rs =
     (case sort_key fst (failures rs) of
        (t, e) # _ \<Rightarrow> Some (t, Some e)
      | [] \<Rightarrow> if None \<in> set rs then None else Some (Max (insert 0 (fst ` the ` set rs)), None))"

definition engine_supervised ::
  "('w health \<Rightarrow> channel_fn) \<Rightarrow> ('s deployment_reloader \<Rightarrow> channel_fn) \<Rightarrow> bool \<Rightarrow>
   (unit, 'c, 'k) http_world \<Rightarrow> int \<Rightarrow> ('m, 'h, 'w, 's, 'c, 'k) engine \<Rightarrow> err option supervised" where
  "engine_supervised prober_run reloader_run pick w t0 e =
     (\<lambda>c. case background_fns prober_run reloader_run pick w t0 e of
        None \<Rightarrow> Some (t0, Panics)
      | Some doFn \<Rightarrow> map_option (\<lambda>(t, e). (t, Ends e))
          (first_value (RunAllBackgroundFunc pick t0 \<lparr>cx_Err = None, cx_Done = c\<rparr> doFn [FailFast])))"

text \<open>\<open>wv\<close>, \<open>sd\<close> and \<open>px\<close> are what the three servers meet.\<close>

definition manager_RunBackground ::
  "('w health \<Rightarrow> channel_fn) \<Rightarrow> ('s deployment_reloader \<Rightarrow> channel_fn) \<Rightarrow> bool \<Rightarrow>
   (unit, 'c, 'k) http_world \<Rightarrow> (unit, 'c, 'k) http_world \<Rightarrow> (unit, 'c, 'k) http_world \<Rightarrow> int \<Rightarrow> go_ctx \<Rightarrow>
   ('m, 'h, 'w, 's, 'c, 'k) manager \<Rightarrow> (int \<times> err option) option list" where
  "manager_RunBackground prober_run reloader_run pick wv sd px t0 ctx m =
     (let run = engine_supervised prober_run reloader_run pick;
          runAll = [run wv t0 (mgr_Webserver m), run sd t0 (mgr_Sidecar m)] @
            (case mgr_Proxy m of None \<Rightarrow> [] | Some p \<Rightarrow> [run px t0 p])
      in RunAllBackground pick t0 ctx runAll [NewRunAllOptions True (mgr_shutdownTimeout m)])"

definition manager_Run ::
  "('w health \<Rightarrow> channel_fn) \<Rightarrow> ('s deployment_reloader \<Rightarrow> channel_fn) \<Rightarrow> bool \<Rightarrow>
   (unit, 'c, 'k) http_world \<Rightarrow> (unit, 'c, 'k) http_world \<Rightarrow> (unit, 'c, 'k) http_world \<Rightarrow> int \<Rightarrow> go_ctx \<Rightarrow>
   ('m, 'h, 'w, 's, 'c, 'k) manager \<Rightarrow> (int \<times> err option) option" where
  "manager_Run prober_run reloader_run pick wv sd px t0 ctx m =
     RunAllBackgroundFuncE pick t0 ctx
       [\<lambda>c. first_value (manager_RunBackground prober_run reloader_run pick wv sd px t0
          \<lparr>cx_Err = None, cx_Done = c\<rparr> m)] []"

section \<open>Lemmas\<close>

subsection \<open>Configurations\<close>

lemma written_back_Middleware [simp]:
  "mw_CertificateAuth (gn_Middleware (written_back c g)) =
     shared (mw_CertificateAuth (gn_Middleware c)) (mw_CertificateAuth (gn_Middleware g))"
  by (simp add: written_back_def)

lemma no_metrics_same [simp]:
  "gn_Middleware (no_metrics g) = gn_Middleware g" "gn_TLS (no_metrics g) = gn_TLS g"
  "gn_HTTPServer (no_metrics g) = gn_HTTPServer g" "gn_Mode (no_metrics g) = gn_Mode g"
  by (simp_all add: no_metrics_def)

lemma shared_Some [simp]: "shared (Some x) y = y" "shared None y = None"
  by (simp_all add: shared_def)

lemma injectServerCNs_keeps:
  "gn_Services (fst (injectServerCNs T ders c)) = gn_Services c \<and>
   gn_HTTPServer (fst (injectServerCNs T ders c)) = gn_HTTPServer c \<and>
   gn_TLS (fst (injectServerCNs T ders c)) = gn_TLS c"
  by (simp add: injectServerCNs_def Let_def split: option.split sum.split)

lemma ApplyDefaults_keeps [simp]:
  "sc_Healthcheck (gn_Services (fst (gin_ApplyDefaults registry T ders c))) =
     sc_Healthcheck (services_ApplyDefaults (gn_Services c))"
  "gn_HTTPServer (fst (gin_ApplyDefaults registry T ders c)) = http_ApplyDefaults (gn_HTTPServer c)"
  by (simp_all add: gin_ApplyDefaults_def injectServerCNs_keeps)
    (simp add: watch_certificate_def split: option.split)

text \<open>Defaults and injected names neither enable nor disable certificate authentication.\<close>

lemma ApplyDefaults_cert_Enabled:
  assumes "mw_CertificateAuth (gn_Middleware c) = Some cc"
  shows "\<exists>cc'. mw_CertificateAuth (gn_Middleware (gin_ApplyDefaultConfig registry T ders c)) = Some cc' \<and>
    cert_Enabled cc' = cert_Enabled cc"
proof -
  let ?c = "watch_certificate (c\<lparr>gn_Mode := (if gn_Mode c = [] then ModeRelease else gn_Mode c),
          gn_Middleware := middleware_ApplyDefaults registry (gn_Middleware c),
          gn_TLS := tlsserver_ApplyDefaults (gn_TLS c),
          gn_HTTPServer := http_ApplyDefaults (gn_HTTPServer c),
          gn_Services := services_ApplyDefaults (gn_Services c)\<rparr>)"
  have "mw_CertificateAuth (gn_Middleware ?c) = Some (certificate_ApplyDefaults registry cc)"
    using assms(1) by (simp add: middleware_ApplyDefaults_def)
  from injectServerCNs_certificates [OF this, of T ders] show ?thesis
    by (auto simp: gin_ApplyDefaultConfig_def gin_ApplyDefaults_def)
qed

lemma callers_config_cert:
  assumes "mw_CertificateAuth (gn_Middleware c) = Some cc"
  shows "\<exists>cc'. mw_CertificateAuth (gn_Middleware (callers_config E c)) = Some cc' \<and>
    cert_Enabled cc' = cert_Enabled cc"
  using ApplyDefaults_cert_Enabled [OF assms, of "se_parsers E" "se_tls E" "se_ders E"] assms
  by (simp add: callers_config_def Let_def)

lemma CertificateMW_enabled:
  assumes "NewMiddlewareForConfig oauth (Some m) opts = Some (Inr mws)" "CertificateMW cc \<in> set mws"
  shows "mw_CertificateAuth m = Some cc \<and> cert_Enabled cc"
proof -
  have w: "x \<in> set (when_enabled en mk o') \<longleftrightarrow> (\<exists>p. o' = Some p \<and> en p \<and> x = mk p)" for x :: "('a, 'b, 'c) mw" and en mk o'
    by (auto simp: when_enabled_def split: option.split)
  show ?thesis using NewMiddlewareForConfig_shape [OF assms(1)] assms(2)
    by (elim exE conjE) (auto simp: w)
qed

text \<open>
  The certificates of the web server: its defaults are applied twice, by the manager and by the engine,
  and the injection appends the server's own names each time.
\<close>

definition server_certificates ::
  "('j, 'u, 'b, 'w, 's, 'k) server_env \<Rightarrow> ('j, 'u, 'w, 'u certificate, 'k) gin_config \<Rightarrow>
   'j certificate_config \<Rightarrow> 'j certificate_config" where
  "server_certificates E c cc =
     (certificate_ApplyDefaults (se_parsers E) cc)\<lparr>Certificates := Certificates cc @
        (let names = server_names (se_tls E) (se_ders E) (gn_TLS c) in
         if UseTLS (Some (gn_TLS c)) \<and> \<not> SkipServerCNInjection cc \<and> names \<noteq> []
         then replicate 2 (ownedCertificate names) else [])\<rparr>"

lemma same_certificates [simp]:
  "(certificate_ApplyDefaults registry cc)\<lparr>Certificates := Certificates cc\<rparr> = certificate_ApplyDefaults registry cc"
  by (cases cc) (simp add: certificate_ApplyDefaults_def Let_def)

lemma certificate_ApplyDefaults_again [simp]:
  "certificate_ApplyDefaults registry ((certificate_ApplyDefaults registry cc)\<lparr>Certificates := cs\<rparr>) =
     (certificate_ApplyDefaults registry cc)\<lparr>Certificates := cs\<rparr>"
  by (cases cc) (simp add: certificate_ApplyDefaults_def ScopeType_def Let_def)

lemma injectServerCNs_names:
  assumes "mw_CertificateAuth (gn_Middleware c) = Some cc" "cert_Enabled cc"
  shows "fst (injectServerCNs T ders c) =
    (if UseTLS (Some (gn_TLS c)) \<and> \<not> SkipServerCNInjection cc \<and> server_names T ders (gn_TLS c) \<noteq> []
     then c\<lparr>gn_Middleware := (gn_Middleware c)\<lparr>mw_CertificateAuth := Some (cc\<lparr>Certificates := Certificates cc @
       [ownedCertificate (server_names T ders (gn_TLS c))]\<rparr>)\<rparr>\<rparr> else c)"
proof (cases "LoadX509KeyPair T (tls_Cert (gn_TLS c)) (tls_Key (gn_TLS c))")
  case (Inl e)
  with assms show ?thesis by (simp add: injectServerCNs_def server_names_def)
next
  case (Inr keypair)
  with assms show ?thesis
    by (cases "parse_keypair T (ders keypair)") (simp_all add: injectServerCNs_def server_names_def Let_def)
qed

lemma ApplyDefaults_certificates:
  assumes "mw_CertificateAuth (gn_Middleware c) = Some cc" "cert_Enabled cc"
  shows "mw_CertificateAuth (gn_Middleware (fst (gin_ApplyDefaults registry T ders c))) =
      Some ((certificate_ApplyDefaults registry cc)\<lparr>Certificates := Certificates cc @
        (if UseTLS (Some (gn_TLS c)) \<and> \<not> SkipServerCNInjection cc \<and> server_names T ders (gn_TLS c) \<noteq> []
         then [ownedCertificate (server_names T ders (gn_TLS c))] else [])\<rparr>)"
    and "gn_TLS (fst (gin_ApplyDefaults registry T ders c)) = tlsserver_ApplyDefaults (gn_TLS c)"
proof -
  let ?c = "watch_certificate (c\<lparr>gn_Mode := (if gn_Mode c = [] then ModeRelease else gn_Mode c),
          gn_Middleware := middleware_ApplyDefaults registry (gn_Middleware c),
          gn_TLS := tlsserver_ApplyDefaults (gn_TLS c),
          gn_HTTPServer := http_ApplyDefaults (gn_HTTPServer c),
          gn_Services := services_ApplyDefaults (gn_Services c)\<rparr>)"
  have d: "mw_CertificateAuth (gn_Middleware ?c) = Some (certificate_ApplyDefaults registry cc)"
    using assms(1) by (simp add: middleware_ApplyDefaults_def)
  have n: "server_names T ders (tlsserver_ApplyDefaults (gn_TLS c)) = server_names T ders (gn_TLS c)"
    by (simp add: server_names_def)
  note i = injectServerCNs_names [OF d, of T ders, simplified certificate_ApplyDefaults_keeps, OF assms(2)]
  show "mw_CertificateAuth (gn_Middleware (fst (gin_ApplyDefaults registry T ders c))) =
      Some ((certificate_ApplyDefaults registry cc)\<lparr>Certificates := Certificates cc @
        (if UseTLS (Some (gn_TLS c)) \<and> \<not> SkipServerCNInjection cc \<and> server_names T ders (gn_TLS c) \<noteq> []
         then [ownedCertificate (server_names T ders (gn_TLS c))] else [])\<rparr>)"
    using d by (simp add: gin_ApplyDefaults_def i n)
  show "gn_TLS (fst (gin_ApplyDefaults registry T ders c)) = tlsserver_ApplyDefaults (gn_TLS c)"
    by (simp add: gin_ApplyDefaults_def injectServerCNs_keeps)
qed

lemma webserver_certificates:
  assumes "mw_CertificateAuth (gn_Middleware c) = Some cc" "cert_Enabled cc"
    and "gin_ApplyDefaults (se_parsers E) (se_tls E) (se_ders E) c = (g, None)"
  shows "mw_CertificateAuth (gn_Middleware (gin_ApplyDefaultConfig (se_parsers E) (se_tls E) (se_ders E)
      (no_metrics g))) = Some (server_certificates E c cc) \<and> cert_Enabled (server_certificates E c cc)"
proof -
  note 1 = ApplyDefaults_certificates [OF assms(1,2), where registry = "se_parsers E" and T = "se_tls E"
      and ders = "se_ders E", unfolded assms(3) fst_conv]
  have "server_names (se_tls E) (se_ders E) (tlsserver_ApplyDefaults (gn_TLS c)) =
      server_names (se_tls E) (se_ders E) (gn_TLS c)" by (simp add: server_names_def)
  with 1 assms(2) ApplyDefaults_certificates(1) [of "no_metrics g" _ "se_parsers E" "se_tls E" "se_ders E"]
  show ?thesis
    by (simp add: gin_ApplyDefaultConfig_def server_certificates_def numeral_2_eq_2 Let_def)
qed

text \<open>A configuration that asks for recovery only gets the four default middlewares all the same.\<close>

lemma recovery_only_middlewares:
  assumes "gn_Middleware g = middleware_zero\<lparr>mw_Recovery := Some True\<rparr>"
  shows "NewMiddlewareForConfig oauth (Some (gn_Middleware (gin_ApplyDefaultConfig registry T ders g))) opts =
     Some (Inr [RecoveryMW, RequestIDMW, MetricsMW \<lparr>oc_Enabled = True, oc_SkipPaths = metrics_defaultSkipPaths\<rparr>,
       LoggerMW \<lparr>oc_Enabled = True, oc_SkipPaths = logger_defaultSkipPaths\<rparr>])"
proof -
  have "gn_Middleware (gin_ApplyDefaultConfig registry T ders g) = middleware_ApplyDefaults registry (gn_Middleware g)"
    by (simp add: gin_ApplyDefaultConfig_def gin_ApplyDefaults_def injectServerCNs_def assms
        middleware_ApplyDefaults_def middleware_zero_def)
  then show ?thesis
    by (simp add: assms NewMiddlewareForConfig_def middleware_ApplyDefaults_def middleware_zero_def
        when_enabled_def oauth_zero_def Let_def)
qed

subsection \<open>The servers\<close>

lemma map_sum_ok: "map_option (map_sum f g) r = Some (Inr y) \<longleftrightarrow> (\<exists>x. r = Some (Inr x) \<and> y = g x)"
  by (cases r; cases "the r") auto

lemma map_sum_is_Inr: "map_sum f g r = Inr y \<longleftrightarrow> (\<exists>x. r = Inr x \<and> y = g x)"
  by (cases r) auto

lemma manager_webserver_ok:
  assumes "manager_webserver E c = (Some (Inr (w, e)), c')"
  shows "\<exists>g. gin_ApplyDefaults (se_parsers E) (se_tls E) (se_ders E) (mg_Config c) = (g, None) \<and>
    engine_NewForConfig E (Some (no_metrics g)) [] = Some (Inr e) \<and>
    w = c\<lparr>mg_Config := callers_config E (no_metrics g)\<rparr> \<and>
    c' = c\<lparr>mg_Config := written_back (mg_Config c) (callers_config E (no_metrics g))\<rparr>"
proof (cases "gin_ApplyDefaults (se_parsers E) (se_tls E) (se_ders E) (mg_Config c)")
  case (Pair g err)
  then show ?thesis using assms
    by (cases err) (auto simp: manager_webserver_def map_sum_is_Inr Let_def)
qed

lemma manager_sidecar_ok:
  assumes "manager_sidecar E w c = (Some (Inr e), c')"
  shows "\<exists>s s'. ApplySidecarDefaults (se_parsers E) (se_tls E) (se_ders E) c = (s, None) \<and>
    injectConfig (se_probe E) s w = (s', None) \<and> engine_NewForConfig E (Some (mg_Config s')) [] = Some (Inr e) \<and>
    mg_Config c' = written_back (mg_Config c)
      (fst (gin_ApplyDefaults (se_parsers E) (se_tls E) (se_ders E) (mg_Config c))) \<and> mg_Proxy c' = mg_Proxy c"
proof -
  obtain s err s' err' where s: "ApplySidecarDefaults (se_parsers E) (se_tls E) (se_ders E) c = (s, err)"
    "injectConfig (se_probe E) s w = (s', err')" by fastforce
  show ?thesis using assms
    by (cases err; cases err') (auto simp: manager_sidecar_def services_back_def s map_sum_is_Inr Let_def)
qed

lemma NewManager_steps:
  fixes E :: "('j, 'u, 'b, 'w, 's, 'k) server_env"
    and m :: "(('j, 'u, 'b) mw, 'h, 'w, 's, 'u certificate, 'k) manager"
  assumes "NewManager E (Some c) opts = (Some (Inr m), Some c')"
  shows "\<exists>w e c1 sd c2 px. manager_webserver E c = (Some (Inr (w, e)), c1) \<and>
    manager_sidecar E w c1 = (Some (Inr sd), c2) \<and> newProxyCar E c2 w = (Some (Inr px), c') \<and>
    manager_With opts \<lparr>mgr_Webserver = e, mgr_Sidecar = sd, mgr_Proxy = px,
      mgr_shutdownTimeout = ht_ShutdownTimeout (gn_HTTPServer (mg_Config w))\<rparr> = Some (Inr m)"
proof -
  obtain r1 :: "(err + ('j, 'u, 'w, 'u certificate, 'k) manager_config \<times>
      (('j, 'u, 'b) mw, 'h, 'w, 's, 'u certificate, 'k) engine) option" and c1
    where 1: "manager_webserver E c = (r1, c1)" by fastforce
  then obtain w e where r1: "r1 = Some (Inr (w, e))"
    using assms by (cases r1; cases "the r1") (auto simp: NewManager_def)
  obtain r2 :: "(err + (('j, 'u, 'b) mw, 'h, 'w, 's, 'u certificate, 'k) engine) option" and c2
    where 2: "manager_sidecar E w c1 = (r2, c2)" by fastforce
  then obtain sd where r2: "r2 = Some (Inr sd)"
    using assms 1 r1 by (cases r2; cases "the r2") (auto simp: NewManager_def)
  obtain r3 :: "(err + (('j, 'u, 'b) mw, 'h, 'w, 's, 'u certificate, 'k) engine option) option" and c3
    where 3: "newProxyCar E c2 w = (r3, c3)" by fastforce
  then obtain px where r3: "r3 = Some (Inr px)"
    using assms 1 r1 2 r2 by (cases r3; cases "the r3") (auto simp: NewManager_def)
  show ?thesis using assms 1 2 3 r1 r2 r3
    by (cases "manager_With opts \<lparr>mgr_Webserver = e, mgr_Sidecar = sd, mgr_Proxy = px,
        mgr_shutdownTimeout = ht_ShutdownTimeout (gn_HTTPServer (mg_Config w))\<rparr>")
      (auto simp: NewManager_def wrapping_ok)
qed

lemma NewManager_ok:
  assumes "NewManager E (Some c) [] = (Some (Inr m), Some c')"
  shows "\<exists>w c1 c2. manager_webserver E c = (Some (Inr (w, mgr_Webserver m)), c1) \<and>
    manager_sidecar E w c1 = (Some (Inr (mgr_Sidecar m)), c2) \<and>
    newProxyCar E c2 w = (Some (Inr (mgr_Proxy m)), c')"
  using NewManager_steps [OF assms] by (elim exE conjE) auto

text \<open>
  The options of a manager come after its servers are made. Those of the package append to the routers
  of the web server, the sidecar and the proxy when the engine options they carry do.
\<close>

lemma NewManager_options:
  fixes m0 :: "(('j, 'u, 'b) mw, 'h, 'w, 's, 'u certificate, 'k) manager"
  assumes "NewManager E (Some c) [] = (Some (Inr m0), Some c')"
  shows "NewManager E (Some c) opts = (wrapping ''failed to apply Engine option'' (manager_With opts m0), Some c')"
proof -
  from NewManager_steps [OF assms] obtain w c1 c2 px and e sd :: "(('j, 'u, 'b) mw, 'h, 'w, 's, 'u certificate, 'k) engine"
    where "manager_webserver E c = (Some (Inr (w, e)), c1)" "manager_sidecar E w c1 = (Some (Inr sd), c2)"
    "newProxyCar E c2 w = (Some (Inr px), c')"
    "m0 = \<lparr>mgr_Webserver = e, mgr_Sidecar = sd, mgr_Proxy = px,
      mgr_shutdownTimeout = ht_ShutdownTimeout (gn_HTTPServer (mg_Config w))\<rparr>" by auto
  then show ?thesis by (simp add: NewManager_def)
qed

lemma NewManager_base:
  fixes m :: "(('j, 'u, 'b) mw, 'h, 'w, 's, 'u certificate, 'k) manager"
  assumes "NewManager E (Some c) opts = (Some (Inr m), Some c')"
  shows "\<exists>m0. NewManager E (Some c) [] = (Some (Inr m0), Some c') \<and> manager_With opts m0 = Some (Inr m)"
proof -
  from NewManager_steps [OF assms] obtain w c1 c2 px and e sd :: "(('j, 'u, 'b) mw, 'h, 'w, 's, 'u certificate, 'k) engine"
    where s: "manager_webserver E c = (Some (Inr (w, e)), c1)" "manager_sidecar E w c1 = (Some (Inr sd), c2)"
    "newProxyCar E c2 w = (Some (Inr px), c')"
    "manager_With opts \<lparr>mgr_Webserver = e, mgr_Sidecar = sd, mgr_Proxy = px,
      mgr_shutdownTimeout = ht_ShutdownTimeout (gn_HTTPServer (mg_Config w))\<rparr> = Some (Inr m)" by auto
  let ?m = "\<lparr>mgr_Webserver = e, mgr_Sidecar = sd, mgr_Proxy = px,
      mgr_shutdownTimeout = ht_ShutdownTimeout (gn_HTTPServer (mg_Config w))\<rparr>"
  from s(1-3) have "NewManager E (Some c) [] = (Some (Inr ?m), Some c')" by (simp add: NewManager_def wrapping_def)
  with s(4) show ?thesis by blast
qed

definition manager_appends :: "('m, 'h, 'w, 's, 'c, 'k) manager_option \<Rightarrow> bool" where
  "manager_appends f \<longleftrightarrow> (\<forall>m m'. f m = Some (Inr m') \<longrightarrow>
     router_extends (eg_Router (mgr_Webserver m)) (eg_Router (mgr_Webserver m')) \<and>
     router_extends (eg_Router (mgr_Sidecar m)) (eg_Router (mgr_Sidecar m')) \<and>
     (mgr_Proxy m' = None \<longleftrightarrow> mgr_Proxy m = None))"

lemma manager_appendsD:
  assumes "manager_appends f" "f m = Some (Inr m')"
  shows "router_extends (eg_Router (mgr_Webserver m)) (eg_Router (mgr_Webserver m'))"
    and "router_extends (eg_Router (mgr_Sidecar m)) (eg_Router (mgr_Sidecar m'))"
    and "mgr_Proxy m' = None \<longleftrightarrow> mgr_Proxy m = None"
  using assms unfolding manager_appends_def by auto

definition server_option :: "('m, 'h, 'w, 's, 'c, 'k) manager_option \<Rightarrow> bool" where
  "server_option f \<longleftrightarrow>
     (\<exists>os. (\<forall>g. Some g \<in> set os \<longrightarrow> engine_appends g) \<and> (f = WithWebserverOptions os \<or> f = WithSidecarOptions os)) \<or>
     (\<exists>os. (\<forall>g e. Some (g, e) \<in> set os \<longrightarrow> engine_appends g) \<and> f = WithProxycarOptions os)"

lemma server_option_appends:
  assumes "server_option f"
  shows "manager_appends f"
proof -
  have eng: "engine_appends (engine_With os)" if "\<And>g. Some g \<in> set os \<Longrightarrow> engine_appends g"
    for os :: "('a, 'b, 'c, 'd, 'e, 'f) engine_option option list"
    using engine_appends_options [OF that] by (simp add: engine_With_def [abs_def])
  from assms consider os where "\<forall>g. Some g \<in> set os \<longrightarrow> engine_appends g" "f = WithWebserverOptions os"
    | os where "\<forall>g. Some g \<in> set os \<longrightarrow> engine_appends g" "f = WithSidecarOptions os"
    | os where "f = WithProxycarOptions os"
    unfolding server_option_def by blast
  then show ?thesis
  proof cases
    case 1
    from 1(1) have e: "engine_appends (engine_With os)" by (intro eng) blast
    show ?thesis unfolding 1(2) manager_appends_def WithWebserverOptions_def map_sum_ok
      using e by (auto simp: engine_appends_def)
  next
    case 2
    from 2(1) have e: "engine_appends (engine_With os)" by (intro eng) blast
    show ?thesis unfolding 2(2) manager_appends_def WithSidecarOptions_def map_sum_ok
      using e by (auto simp: engine_appends_def)
  next
    case 3
    then show ?thesis
      by (auto simp: manager_appends_def WithProxycarOptions_def map_sum_is_Inr split: option.splits)
  qed
qed

lemma manager_With_appends:
  "(\<And>f. Some f \<in> set opts \<Longrightarrow> manager_appends f) \<Longrightarrow> manager_appends (manager_With opts)"
proof (induction opts)
  case (Cons o' opts)
  have rest: "manager_appends (manager_With opts)" by (rule Cons.IH) (rule Cons.prems, simp)
  show ?case
  proof (cases o')
    case None
    with rest show ?thesis by (simp add: manager_appends_def)
  next
    case (Some f)
    have f: "manager_appends f" by (rule Cons.prems) (simp add: Some)
    show ?thesis unfolding Some manager_appends_def
    proof (intro allI impI)
      fix m m'
      assume "manager_With (Some f # opts) m = Some (Inr m')"
      then obtain m1 where m1: "f m = Some (Inr m1)" "manager_With opts m1 = Some (Inr m')"
        by (cases "f m"; cases "the (f m)") simp_all
      note f = manager_appendsD [OF f m1(1)] and rest = manager_appendsD [OF rest m1(2)]
      show "router_extends (eg_Router (mgr_Webserver m)) (eg_Router (mgr_Webserver m')) \<and>
          router_extends (eg_Router (mgr_Sidecar m)) (eg_Router (mgr_Sidecar m')) \<and>
          (mgr_Proxy m' = None \<longleftrightarrow> mgr_Proxy m = None)"
        using router_extends_trans [OF f(1) rest(1)] router_extends_trans [OF f(2) rest(2)] f(3) rest(3) by simp
    qed
  qed
qed (simp add: manager_appends_def)

lemma newProxyCar_None:
  assumes "newProxyCar E c w = (Some (Inr px), c')"
  shows "px \<noteq> None \<longleftrightarrow> mp_Enabled (mg_Proxy w) \<and> pc_Routes (mp_Config (mg_Proxy w)) \<noteq> []"
proof (cases "ApplyProxyDefaults (se_parsers E) (se_tls E) (se_ders E) c")
  case (Pair p err)
  then show ?thesis using assms
    by (cases err) (auto simp: newProxyCar_def map_sum_is_Inr Let_def split: if_splits sum.splits)
qed

lemma newProxyCar_disables:
  assumes "newProxyCar E c w = (Some (Inr (Some px)), c')"
    and "mw_CertificateAuth (gn_Middleware (mg_Config c)) = Some cc"
  shows "\<exists>cc'. mw_CertificateAuth (gn_Middleware (mg_Config c')) = Some cc' \<and> \<not> cert_Enabled cc'"
proof (cases "gin_ApplyDefaults (se_parsers E) (se_tls E) (se_ders E) (mg_Config c)")
  case (Pair g err)
  have "\<exists>cc'. mw_CertificateAuth (gn_Middleware g) = Some cc'"
    using ApplyDefaults_cert_Enabled [OF assms(2), of "se_parsers E" "se_tls E" "se_ders E"] Pair
    by (auto simp: gin_ApplyDefaultConfig_def)
  moreover have "mg_Config c' = written_back (mg_Config c) (proxycar_disables g)"
    using assms(1) Pair
    by (cases err) (auto simp: newProxyCar_def ApplyProxyDefaults_def after_proxy_defaults_def override_back_def
        map_sum_is_Inr Let_def split: if_splits sum.splits)
  ultimately show ?thesis using assms(2) by (auto simp: proxycar_disables_def)
qed

text \<open>What the servers of a manager without options are made from.\<close>

lemma NewManager_shape:
  assumes "NewManager E (Some c) [] = (Some (Inr m), Some c')"
  shows "\<exists>g s c2 w. gin_ApplyDefaults (se_parsers E) (se_tls E) (se_ders E) (mg_Config c) = (g, None) \<and>
    engine_NewForConfig E (Some (no_metrics g)) [] = Some (Inr (mgr_Webserver m)) \<and>
    gn_Middleware s = middleware_zero\<lparr>mw_Recovery := Some True\<rparr> \<and>
    engine_NewForConfig E (Some s) [] = Some (Inr (mgr_Sidecar m)) \<and>
    newProxyCar E c2 w = (Some (Inr (mgr_Proxy m)), c') \<and> mg_Proxy w = mg_Proxy c \<and>
    (\<forall>cc. mw_CertificateAuth (gn_Middleware (mg_Config c)) = Some cc \<longrightarrow>
      mw_CertificateAuth (gn_Middleware (mg_Config c2)) \<noteq> None)"
proof -
  obtain w c1 c2 where m: "manager_webserver E c = (Some (Inr (w, mgr_Webserver m)), c1)"
    "manager_sidecar E w c1 = (Some (Inr (mgr_Sidecar m)), c2)" "newProxyCar E c2 w = (Some (Inr (mgr_Proxy m)), c')"
    using NewManager_ok [OF assms] by blast
  from manager_webserver_ok [OF m(1)] obtain g where
    g: "gin_ApplyDefaults (se_parsers E) (se_tls E) (se_ders E) (mg_Config c) = (g, None)"
      "engine_NewForConfig E (Some (no_metrics g)) [] = Some (Inr (mgr_Webserver m))"
      "w = c\<lparr>mg_Config := callers_config E (no_metrics g)\<rparr>"
      "c1 = c\<lparr>mg_Config := written_back (mg_Config c) (callers_config E (no_metrics g))\<rparr>" by blast
  from manager_sidecar_ok [OF m(2)] obtain s s' where
    s: "ApplySidecarDefaults (se_parsers E) (se_tls E) (se_ders E) c1 = (s, None)"
      "injectConfig (se_probe E) s w = (s', None)" "engine_NewForConfig E (Some (mg_Config s')) [] = Some (Inr (mgr_Sidecar m))"
      "mg_Config c2 = written_back (mg_Config c1)
        (fst (gin_ApplyDefaults (se_parsers E) (se_tls E) (se_ders E) (mg_Config c1)))" by blast
  have "gn_Middleware (mg_Config s) = middleware_zero\<lparr>mw_Recovery := Some True\<rparr>"
    using s(1) by (auto simp: ApplySidecarDefaults_def split: prod.splits option.splits)
  then have s': "gn_Middleware (mg_Config s') = middleware_zero\<lparr>mw_Recovery := Some True\<rparr>"
    using s(2) by (auto simp: injectConfig_def split: prod.splits option.splits)
  have "mw_CertificateAuth (gn_Middleware (mg_Config c2)) \<noteq> None"
    if cc: "mw_CertificateAuth (gn_Middleware (mg_Config c)) = Some cc" for cc
  proof -
    have "\<exists>cc'. mw_CertificateAuth (gn_Middleware (no_metrics g)) = Some cc'"
      using ApplyDefaults_cert_Enabled [OF cc, of "se_parsers E" "se_tls E" "se_ders E"] g(1)
      by (auto simp: gin_ApplyDefaultConfig_def)
    then have "\<exists>cc'. mw_CertificateAuth (gn_Middleware (mg_Config c1)) = Some cc'"
      using callers_config_cert cc by (fastforce simp: g(4))
    then show ?thesis
      using ApplyDefaults_cert_Enabled [of "mg_Config c1" _ "se_parsers E" "se_tls E" "se_ders E"]
      by (auto simp: s(4) gin_ApplyDefaultConfig_def)
  qed
  with g(1,2) s' s(3) m(3) show ?thesis
    by (intro exI [of _ g] exI [of _ "mg_Config s'"] exI [of _ c2] exI [of _ w]) (auto simp: g(3))
qed

lemma NewForConfig_guarded:
  assumes "engine_NewForConfig E (Some c) [] = Some (Inr e)"
  shows "\<exists>mws. NewMiddlewareForConfig (se_oauth E) (Some (gn_Middleware
      (gin_ApplyDefaultConfig (se_parsers E) (se_tls E) (se_ders E) c))) [[]] = Some (Inr mws) \<and>
    guarded mws (eg_Router e)"
  using assms by (intro NewCustomEngine_guarded) (auto simp: engine_NewForConfig_def)

subsection \<open>Checks\<close>

text \<open>
  The default check of a web server that listens on every address has no host, which its own validation
  refuses, so does the default check of a proxy whose host is left to its default.
\<close>

lemma Add_fails_at:
  assumes "c \<in> set jobs" "NewHandlerFor P c = Inl e"
  shows "\<exists>h' e. Add P jobs h = (h', Some e)"
  using assms(1)
  by (induction jobs arbitrary: h) (auto simp: assms(2) split: sum.splits)

lemma HTTP_check_without_host:
  assumes "HTTPGet c = Some cfg" "hc_Host cfg = []" "\<not> OK c"
  shows "\<exists>e. NewHandlerFor P c = Inl e"
  using assms by (simp add: NewHandlerFor_def hc_New_def hc_Validate_def)

lemma NewForConfig_fails_at:
  assumes "c \<in> set (hcfg_Jobs cfg)" "HTTPGet c = Some hc" "hc_Host hc = []" "\<not> OK c"
  shows "\<exists>e. NewForConfig P (Some cfg) [] = Inl e"
proof -
  obtain e where "NewHandlerFor P c = Inl e" using HTTP_check_without_host [OF assms(2-4)] by blast
  from Add_fails_at [OF assms(1) this] have a: "\<exists>h' e. Add P (hcfg_Jobs cfg) h = (h', Some e)" for h .
  have j: "hcfg_Jobs (Health.ApplyDefaultConfig cfg) = hcfg_Jobs cfg"
    by (simp add: ApplyDefaultConfig_def hcfg_ApplyDefaults_def Let_def)
  have "hcfg_Jobs cfg \<noteq> []" using assms(1) by auto
  then show ?thesis
    using a by (auto simp: NewForConfig_def j lift_add_def Let_def split: option.split sum.split prod.split)
      (metis option.distinct(1) prod.inject)
qed

text \<open>An engine whose health check cannot be made is not made.\<close>

lemma engine_needs_prober:
  assumes "sc_Healthcheck (gn_Services g) = Some h" "hs_Enabled h"
    and "NewForConfig (se_probe E) (Some (hs_Config h)) [] = Inl err"
  shows "engine_NewForConfig E (Some g) opts \<noteq> Some (Inr e)"
proof
  let ?c = "gin_ApplyDefaultConfig (se_parsers E) (se_tls E) (se_ders E) g"
  assume "engine_NewForConfig E (Some g) opts = Some (Inr e)"
  then obtain e0 e1 e2 where e: "NewEngine E (Some ?c) opts = Some (Inr e0)"
    "UseMiddleware (se_oauth E) (gn_Middleware ?c) [[]] e0 = Some (Inr e1)"
    "RegisterServices E (gn_Services ?c) e1 = Some (Inr e2)"
    by (auto simp: engine_NewForConfig_def NewCustomEngine_def Let_def and_then_ok wrapping_ok split: option.splits)
  have "eg_Services e0 = None"
    using e(1) by (auto simp: NewEngine_def Let_def split: option.splits if_splits sum.splits)
  with e(2) have "\<not> HasHealthChecks (e1\<lparr>eg_Services := Some (new_services (eg_Services e1))\<rparr>)"
    by (auto simp: UseMiddleware_def HasHealthChecks_def new_services_def split: option.splits sum.splits)
  moreover have "sc_Healthcheck (gn_Services ?c) = Some h"
    using assms(1) by (simp add: gin_ApplyDefaultConfig_def services_ApplyDefaults_def)
  ultimately show False
    using e(3) assms(2,3) by (simp add: RegisterServices_def services_prober_def and_then_def)
qed

subsection \<open>Running\<close>

lemma RunAllBackground_default: "RunAllBackground pick t0 ctx fns [] = RunAllBackground pick t0 ctx fns [FailFast]"
  by (simp add: RunAllBackground_def FailFast_def DefaultRunAllOptions_def)

text \<open>
  \<open>Run\<close> ends within the default shutdown timeout after its context is done, whatever shutdown timeout is
  configured; and it returns at the first error of a server, while the others may still shut down.
\<close>

lemma manager_Run_bounded:
  assumes "cx_Err ctx = None" "cx_Done ctx = Some c"
  shows "\<exists>t err. manager_Run prober_run reloader_run pick wv sd px t0 ctx m = Some (t, err) \<and>
    t \<le> max 0 (c + DefaultShutdownTimeout)"
  using error_channel_bounded [OF FailFast_cancelled [OF assms]]
  unfolding manager_Run_def RunAllBackgroundFuncE_def RunAllBackgroundFunc_def RunAllBackground_default
  by fastforce

lemma manager_Run_first_error:
  assumes "cx_Err ctx = None" "cx_Done ctx = None" "0 \<le> t"
    and "\<And>c. first_value (manager_RunBackground prober_run reloader_run pick wv sd px t0
      \<lparr>cx_Err = None, cx_Done = c\<rparr> m) = Some (t, Some e)"
  shows "manager_Run prober_run reloader_run pick wv sd px t0 ctx m = Some (t, join_errors [Some e])"
  using assms
  by (simp add: manager_Run_def RunAllBackgroundFuncE_def RunAllBackgroundFunc_def RunAllBackground_def Run_def
      RunT_def receive_from_def DefaultShutdownTimeout_def DefaultFailFast_def first_failure_def failures_def
      error_channel_def map_filter_def Let_def)

section \<open>An example\<close>

text \<open>
  A web server with certificate authentication and a proxy in front of it, whose services are switched
  off but for the metrics; gin takes each route once.
\<close>

definition manager_env :: "(unit, unit, unit, nat, nat, unit) server_env" where
  "manager_env = plain_server_env\<lparr>se_gin := plain_gin\<lparr>ge_accepts := (\<lambda>rs m p. (m, p) \<notin> set rs)\<rparr>\<rparr>"

definition quiet_services :: "bool \<Rightarrow> (nat, unit certificate, unit) service_config" where
  "quiet_services metrics =
     \<lparr>sc_PProf = Some False, sc_Metric = Some \<lparr>mc_Path = ''/metrics'', mc_Enabled = metrics\<rparr>,
      sc_Healthcheck = Some \<lparr>hs_Enabled = False, hs_Config = hcfg_zero\<rparr>,
      sc_Reloader = Some \<lparr>rs_Enabled = False,
        rs_Config = \<lparr>rl_Namespace = [], rl_Deployment = [], rl_Files = [], rl_Interval = 0\<rparr>\<rparr>,
      sc_Proxy = Some \<lparr>ps_Enabled = False,
        ps_Config = \<lparr>pc_HTTPConfig = clc_zero, pc_BasePath = [], pc_Routes = []\<rparr>\<rparr>\<rparr>"

definition mtls_manager :: "(unit, unit, nat, unit certificate, unit) manager_config" where
  "mtls_manager =
     \<lparr>mg_Config = mtls_server\<lparr>gn_Services := quiet_services True\<rparr>, mg_SidecarServices = quiet_services True,
      mg_Sidecar = \<lparr>sd_Host = [], sd_Port = 0\<rparr>,
      mg_Proxy = \<lparr>mp_Host = [], mp_Port = 0, mp_Enabled = True,
        mp_Config = \<lparr>pc_HTTPConfig = clc_zero, pc_BasePath = [],
          pc_Routes = [\<lparr>Prefix = ''/api'', Target = ''https://main.local''\<rparr>]\<rparr>,
        mp_Override = gin_zero\<rparr>\<rparr>"

text \<open>Configurations that the defaults change in their middlewares only.\<close>

definition settled :: "(unit, unit, nat, unit certificate, unit) gin_config \<Rightarrow> bool" where
  "settled c \<longleftrightarrow> gn_Mode c = ModeRelease \<and>
     (\<exists>h p. p \<noteq> 0 \<and> gn_HTTPServer c = http_DefaultConfig\<lparr>ht_Host := h, ht_Port := p\<rparr>) \<and>
     tls_MinVersion (gn_TLS c) = ''TLS 1.2'' \<and>
     (ClientAuthType (gn_TLS c) = ''RequireAnyClientCert'' \<or>
       ClientAuthType (gn_TLS c) = ''NoClientCert'' \<and> mw_CertificateAuth (gn_Middleware c) = None \<or>
       ClientAuthType (gn_TLS c) = ''NoClientCert'' \<and>
         mw_CertificateAuth (gn_Middleware c) = Some (own_certificates\<lparr>cert_Enabled := False\<rparr>)) \<and>
     (mw_CertificateAuth (gn_Middleware c) = None \<or>
      (\<exists>on. mw_CertificateAuth (gn_Middleware c) = Some (own_certificates\<lparr>cert_Enabled := on\<rparr>))) \<and>
     (\<exists>b. services_ApplyDefaults (gn_Services c) = quiet_services b) \<and>
     tls_Cert (gn_TLS c) = ''crt'' \<and> tls_Key (gn_TLS c) = ''key'' \<and> tls_RootCAs (gn_TLS c) = [] \<and>
     \<not> tls_Disabled (gn_TLS c) \<and>
     (case mw_Oauth (gn_Middleware c) of None \<Rightarrow> True | Some o' \<Rightarrow> \<not> oauth_Enabled o') \<and>
     (case mw_Trace (gn_Middleware c) of None \<Rightarrow> True | Some t \<Rightarrow> \<not> tm_Enabled t)"

lemma settled_ApplyDefaults:
  assumes "settled c"
  shows "gin_ApplyDefaults [] named_env ders c = (c\<lparr>gn_Middleware := middleware_ApplyDefaults [] (gn_Middleware c),
    gn_Services := services_ApplyDefaults (gn_Services c)\<rparr>, None)"
proof -
  let ?c = "c\<lparr>gn_Middleware := middleware_ApplyDefaults [] (gn_Middleware c),
    gn_Services := services_ApplyDefaults (gn_Services c)\<rparr>"
  obtain h p where p: "p \<noteq> 0" "gn_HTTPServer c = http_DefaultConfig\<lparr>ht_Host := h, ht_Port := p\<rparr>"
    using assms by (auto simp: settled_def)
  have http: "http_ApplyDefaults (gn_HTTPServer c) = gn_HTTPServer c"
    by (simp add: p http_DefaultConfig_def http_ApplyDefaults_def http_DefaultHost_def DefaultReadTimeout_def
        DefaultReadHeaderTimeout_def DefaultWriteTimeout_def http_DefaultShutdownTimeout_def DefaultMaxHeaderBytes_def)
  have tls: "tlsserver_ApplyDefaults (gn_TLS c) = gn_TLS c"
    using assms by (auto simp: settled_def tlsserver_ApplyDefaults_def tls_ApplyDefaults_def)
  have mode: "gn_Mode c = ModeRelease" "ModeRelease \<noteq> []" using assms by (simp_all add: settled_def ModeRelease_def)
  have eq: "c\<lparr>gn_Mode := (if gn_Mode c = [] then ModeRelease else gn_Mode c),
          gn_Middleware := middleware_ApplyDefaults [] (gn_Middleware c),
          gn_TLS := tlsserver_ApplyDefaults (gn_TLS c),
          gn_HTTPServer := http_ApplyDefaults (gn_HTTPServer c),
          gn_Services := services_ApplyDefaults (gn_Services c)\<rparr> = ?c"
    using http tls mode by (cases c) simp
  obtain b where "services_ApplyDefaults (gn_Services c) = quiet_services b" using assms by (auto simp: settled_def)
  then have w: "watch_certificate ?c = ?c" by (simp add: watch_certificate_def quiet_services_def)
  have "injectServerCNs named_env ders ?c = (?c, None)"
  proof (cases "mw_CertificateAuth (gn_Middleware c)")
    case None
    then show ?thesis by (simp add: injectServerCNs_def middleware_ApplyDefaults_def)
  next
    case (Some cc)
    then have "\<exists>on. cc = own_certificates\<lparr>cert_Enabled := on\<rparr>" using assms by (auto simp: settled_def)
    then have "SkipServerCNInjection (certificate_ApplyDefaults [] cc)" by (auto simp: own_certificates_def)
    with Some show ?thesis by (simp add: injectServerCNs_def middleware_ApplyDefaults_def)
  qed
  with eq w show ?thesis by (simp add: gin_ApplyDefaults_def)
qed

lemma no_oauth_middlewares:
  assumes "case mw_Oauth m of None \<Rightarrow> True | Some o' \<Rightarrow> \<not> oauth_Enabled o'"
  shows "\<exists>mws. NewMiddlewareForConfig oauth (Some m) opts = Some (Inr mws)"
  using assms by (cases "mw_Oauth m") (simp_all add: NewMiddlewareForConfig_def Let_def)

lemma settled_TLS:
  assumes "settled c"
  shows "UseTLS (Some (gn_TLS c)) \<and> tlsserver_Validate (gn_TLS c) = None \<and>
    (\<exists>t. tlsserver_NewForConfig named_env (gn_TLS c) [] = Inr t \<and> 771 \<le> go_MinVersion t)"
proof -
  obtain a where c: "gn_TLS c = \<lparr>tls_Cert = ''crt'', tls_Key = ''key'', tls_RootCAs = [], tls_MinVersion = ''TLS 1.2'',
      tls_Disabled = False, ClientAuthType = a\<rparr>" "a = ''RequireAnyClientCert'' \<or> a = ''NoClientCert''"
    using assms by (cases "gn_TLS c") (auto simp: settled_def)
  then show ?thesis
    by (elim disjE) (simp_all add: UseTLS_def tlsserver_Validate_def tlsserver_NewForConfig_def
        tlsserver_ApplyDefaults_def tls_ApplyDefaults_def cfg_ParseClientAuthType_def NewX509KeyPair_def
        NewCertPool_def ParseClientAuthType_def ParseTLSVersion_def named_env_def TLSConfig_Validate_def)
qed

lemma settled_valid:
  assumes "settled c"
  shows "gin_Validate (gin_ApplyDefaultConfig [] named_env ders c) = None"
proof -
  obtain h p where p: "p \<noteq> 0" "gn_HTTPServer c = http_DefaultConfig\<lparr>ht_Host := h, ht_Port := p\<rparr>"
    using assms by (auto simp: settled_def)
  have port: "unat p \<le> 65535" for p :: u16 using unsigned_less [of p, where ?'a = nat] by simp
  have http: "http_Validate (Some (gn_HTTPServer c)) = None"
    using port [of p] by (simp add: p http_Validate_def http_DefaultConfig_def http_ApplyDefaults_def
        DefaultReadTimeout_def DefaultReadHeaderTimeout_def DefaultWriteTimeout_def
        http_DefaultShutdownTimeout_def DefaultMaxHeaderBytes_def)
  have certs: "certificate_Validate own_certificates = None"
    by (auto simp: certificate_Validate_iff own_certificates_def ownedCertificate_def wildcard_scope_def basic_def
        Basic_Validate_def)
  have own: "certificate_ApplyDefaults [] (own_certificates\<lparr>cert_Enabled := on\<rparr>) = own_certificates\<lparr>cert_Enabled := on\<rparr>"
    for on by (simp add: own_certificates_def certificate_ApplyDefaults_def)
  have on: "own_certificates\<lparr>cert_Enabled := True\<rparr> = own_certificates" by (simp add: own_certificates_def)
  have tls: "UseTLS (Some (gn_TLS c))" "tlsserver_Validate (gn_TLS c) = None" using settled_TLS [OF assms] by simp_all
  show ?thesis
  proof (cases "mw_CertificateAuth (gn_Middleware c)")
    case None
    then show ?thesis
      by (simp add: gin_ApplyDefaultConfig_def settled_ApplyDefaults [OF assms] gin_Validate_def tls http
          middleware_ApplyDefaults_def)
  next
    case (Some cc)
    with assms obtain b where "cc = own_certificates\<lparr>cert_Enabled := b\<rparr>"
      "b \<longrightarrow> ClientAuthType (gn_TLS c) = ''RequireAnyClientCert''"
      by (auto simp: settled_def own_certificates_def)
    note b = this
    have d: "mw_CertificateAuth (middleware_ApplyDefaults [] (gn_Middleware c)) = Some (own_certificates\<lparr>cert_Enabled := b\<rparr>)"
      using Some b(1) by (simp add: middleware_ApplyDefaults_def own)
    have en: "cert_Enabled own_certificates" by (simp add: own_certificates_def)
    show ?thesis
    proof (cases b)
      case True
      with b(2) have "ParseClientAuthType (ClientAuthType (gn_TLS c)) = Inr RequireAnyClientCert"
        by (simp add: ParseClientAuthType_def)
      then show ?thesis
        by (simp add: gin_ApplyDefaultConfig_def settled_ApplyDefaults [OF assms] gin_Validate_def tls http d True on
            en certs)
    next
      case False
      then show ?thesis
        by (simp add: gin_ApplyDefaultConfig_def settled_ApplyDefaults [OF assms] gin_Validate_def tls http d)
    qed
  qed
qed

text \<open>Such a configuration gives an engine, with one more route where that can be registered.\<close>

lemma settled_engine:
  fixes reg :: "((unit, unit, unit) mw, 'h) gin_route option"
  assumes "settled c"
    and "\<And>f r. reg = Some f \<Longrightarrow> rt_Base r = ''/'' \<Longrightarrow>
      (\<lambda>x. (er_Method x, er_Path x)) ` set (rt_Routes r) \<subseteq> {(''GET'', ''/metrics'')} \<Longrightarrow> f r \<noteq> None"
  shows "\<exists>e :: ((unit, unit, unit) mw, 'h, nat, nat, unit certificate, unit) engine.
    engine_NewForConfig manager_env (Some c) (case reg of None \<Rightarrow> [] | Some f \<Rightarrow> [Some (WithRoutes [Some f])]) =
      Some (Inr e)"
proof -
  obtain b where s: "services_ApplyDefaults (gn_Services c) = quiet_services b" using assms(1) by (auto simp: settled_def)
  let ?d = "c\<lparr>gn_Middleware := middleware_ApplyDefaults [] (gn_Middleware c), gn_Services := quiet_services b\<rparr>"
  have env: "se_parsers manager_env = []" "se_tls manager_env = named_env"
    "se_ders manager_env = (\<lambda>_. [''der''])" "se_gin manager_env = plain_gin\<lparr>ge_accepts := (\<lambda>rs m p. (m, p) \<notin> set rs)\<rparr>"
    "IsTracerProviderRegistered (se_otel manager_env) = False"
    by (simp_all add: manager_env_def plain_server_env_def IsTracerProviderRegistered_def)
  have d: "gin_ApplyDefaultConfig [] named_env (\<lambda>_. [''der'']) c = ?d"
    by (simp add: gin_ApplyDefaultConfig_def settled_ApplyDefaults [OF assms(1)] s)
  have valid: "gin_Validate ?d = None" using settled_valid [OF assms(1), of "\<lambda>_. [''der'']"] by (simp add: d)
  obtain t where tls: "UseTLS (Some (gn_TLS c))" "tlsserver_NewForConfig named_env (gn_TLS c) [] = Inr t"
    "771 \<le> go_MinVersion t" using settled_TLS [OF assms(1)] by blast
  obtain h p where http: "p \<noteq> 0" "gn_HTTPServer c = http_DefaultConfig\<lparr>ht_Host := h, ht_Port := p\<rparr>"
    using assms(1) by (auto simp: settled_def)
  have mode: "gn_Mode c = ModeRelease" using assms(1) by (simp add: settled_def)
  have tr: "\<exists>tc. mw_Trace (middleware_ApplyDefaults [] (gn_Middleware c)) = Some tc \<and> \<not> tm_Enabled tc"
    using assms(1) by (cases "mw_Trace (gn_Middleware c)") (simp_all add: settled_def middleware_ApplyDefaults_def)
  have oa: "case mw_Oauth (middleware_ApplyDefaults [] (gn_Middleware c)) of None \<Rightarrow> True | Some o' \<Rightarrow> \<not> oauth_Enabled o'"
    using assms(1) by (cases "mw_Oauth (gn_Middleware c)") (simp_all add: settled_def middleware_ApplyDefaults_def oauth_zero_def)
  obtain mws where mws: "NewMiddlewareForConfig (se_oauth manager_env)
      (Some (middleware_ApplyDefaults [] (gn_Middleware c))) [[]] = Some (Inr mws)"
    using no_oauth_middlewares [OF oa] by blast
  have port: "unat p \<le> 65535" using unsigned_less [of p, where ?'a = nat] by simp
  have "\<exists>srv. NewEngine manager_env (Some ?d) (opts :: ((unit, unit, unit) mw, 'h, nat, nat, unit certificate,
      unit) engine_option option list) = Some (Inr \<lparr>eg_Router = router_New, eg_HTTPServer = Some srv,
      eg_Services = None, eg_errChan = None, eg_Mode = ModeRelease\<rparr>)" for opts
    using tls(3) http(1) port
    by (simp add: NewEngine_def mode env plain_gin_def tls(1,2) http(2)
        server_NewForConfig_def http_DefaultConfig_def WithHandler_def WithTLS_def server_Validate_def
        engine_Validate_def http_ApplyDefaults_def DefaultReadTimeout_def
        address_def DefaultReadHeaderTimeout_def DefaultWriteTimeout_def http_DefaultShutdownTimeout_def
        DefaultMaxHeaderBytes_def http_Validate_def http_DefaultPort_def Let_def)
  then obtain srv where e: "NewEngine manager_env (Some ?d) (opts :: ((unit, unit, unit) mw, 'h, nat, nat, unit certificate,
      unit) engine_option option list) = Some (Inr \<lparr>eg_Router = router_New, eg_HTTPServer = Some (srv opts),
      eg_Services = None, eg_errChan = None, eg_Mode = ModeRelease\<rparr>)" for opts by metis
  have q: "sc_PProf (quiet_services b) = Some False"
    "sc_Metric (quiet_services b) = Some \<lparr>mc_Path = ''/metrics'', mc_Enabled = b\<rparr>"
    "sc_Healthcheck (quiet_services b) = Some \<lparr>hs_Enabled = False, hs_Config = hcfg_zero\<rparr>"
    "\<exists>rc. sc_Reloader (quiet_services b) = Some \<lparr>rs_Enabled = False, rs_Config = rc\<rparr>"
    "\<exists>pc. sc_Proxy (quiet_services b) = Some \<lparr>ps_Enabled = False, ps_Config = pc\<rparr>"
    by (simp_all add: quiet_services_def)
  then obtain rc pc where q': "sc_Reloader (quiet_services b) = Some \<lparr>rs_Enabled = False, rs_Config = rc\<rparr>"
    "sc_Proxy (quiet_services b) = Some \<lparr>ps_Enabled = False, ps_Config = pc\<rparr>" by blast
  let ?r = "\<lparr>rt_Base = ''/'', rt_Handlers = mws, rt_Routes = (if b then [\<lparr>er_Method = ''GET'', er_Path = ''/metrics'',
    er_Chain = mws, er_Target = MetricsTarget\<rparr>] else [])\<rparr> :: ((unit, unit, unit) mw, 'h) router"
  have r: "\<exists>r'. f ?r = Some r'" if "reg = Some f" for f
    using assms(2) [OF that, of ?r] by (cases b) auto
  have step: "NewCustomEngine manager_env (Some c) [] opts = and_then (wrapping ''failed to apply Engine option''
      (apply_engine_options opts \<lparr>eg_Router = ?r, eg_HTTPServer = Some (srv opts),
        eg_Services = Some \<lparr>sv_prober = None, sv_reloader = None\<rparr>, eg_errChan = None, eg_Mode = ModeRelease\<rparr>))
      (check_tracing (se_otel manager_env) (mw_Trace (middleware_ApplyDefaults [] (gn_Middleware c))))" for opts
    by (simp add: NewCustomEngine_def env d valid e and_then_def UseMiddleware_def mws q(1-3) q' RegisterServices_def
        services_prober_def HasHealthChecks_def new_services_def services_proxy_def services_reloader_def
        services_routes_def on_router_def health_routes_def metric_routes_def pprof_routes_def router_Handle_def
        router_Use_def router_New_def plain_gin_def wrapping_ok wrapping_def Let_def)
  show ?thesis
  proof (cases reg)
    case None
    then show ?thesis using tr
      by (auto simp: engine_NewForConfig_def step and_then_def wrapping_def check_tracing_def env)
  next
    case (Some f)
    with r obtain r' where "f ?r = Some r'" by blast
    with Some tr show ?thesis
      by (auto simp: engine_NewForConfig_def step and_then_def wrapping_def check_tracing_def env WithRoutes_def)
  qed
qed

lemma quiet_services_ApplyDefaults [simp]: "services_ApplyDefaults (quiet_services b) = quiet_services b"
  by (simp add: services_ApplyDefaults_def quiet_services_def)

lemma mtls_server_TLS: "gn_TLS mtls_server = \<lparr>tls_Cert = ''crt'', tls_Key = ''key'', tls_RootCAs = [],
    tls_MinVersion = ''TLS 1.2'', tls_Disabled = False, ClientAuthType = ''RequireAnyClientCert''\<rparr>"
  and mtls_server_Middleware: "gn_Middleware mtls_server = middleware_zero\<lparr>mw_CertificateAuth := Some own_certificates\<rparr>"
  and mtls_server_update: "mtls_server\<lparr>gn_Services := s, gn_Middleware :=
    middleware_zero\<lparr>mw_CertificateAuth := Some own_certificates\<rparr>\<rparr> = mtls_server\<lparr>gn_Services := s\<rparr>"
  by (simp_all add: mtls_server_def)

lemma own_enabled: "own_certificates = own_certificates\<lparr>cert_Enabled := True\<rparr>"
  by (simp add: own_certificates_def)

lemma http_default_ports: "\<exists>h p. p \<noteq> 0 \<and> http_DefaultConfig = http_DefaultConfig\<lparr>ht_Host := h, ht_Port := p\<rparr>"
  by (rule exI [of _ "ht_Host http_DefaultConfig"], rule exI [of _ "ht_Port http_DefaultConfig"])
    (simp add: http_DefaultConfig_def http_ApplyDefaults_def http_DefaultPort_def)

lemma changed_ports: "p \<noteq> 0 \<Longrightarrow> \<exists>h' p'. p' \<noteq> 0 \<and>
    http_DefaultConfig\<lparr>ht_Host := h, ht_Port := p\<rparr> = http_DefaultConfig\<lparr>ht_Host := h', ht_Port := p'\<rparr>"
  by blast

lemma settled_mtls: "settled (mtls_server\<lparr>gn_Services := quiet_services b\<rparr>)"
  using http_default_ports own_enabled
  by (auto simp: settled_def mtls_server_TLS mtls_server_Middleware mtls_server_config middleware_zero_def)

lemma mtls_middlewares: "mw_CertificateAuth (middleware_ApplyDefaults [] (gn_Middleware mtls_server)) = Some own_certificates"
  by (simp add: mtls_server_Middleware middleware_ApplyDefaults_def own_certificates_ApplyDefaults)

lemma own_certificates_keeps:
  "mw_CertificateAuth m = Some own_certificates \<Longrightarrow> mw_CertificateAuth (middleware_ApplyDefaults [] m) = Some own_certificates"
  by (simp add: middleware_ApplyDefaults_def own_certificates_ApplyDefaults)

lemma no_metrics_quiet: "no_metrics (g\<lparr>gn_Services := quiet_services b\<rparr>) = g\<lparr>gn_Services := quiet_services False\<rparr>"
  by (simp add: no_metrics_def quiet_services_def)

text \<open>The web server's configuration with its defaults.\<close>

definition mtls_filled :: "bool \<Rightarrow> (unit, unit, nat, unit certificate, unit) gin_config" where
  "mtls_filled b = mtls_server\<lparr>gn_Middleware := middleware_ApplyDefaults [] (gn_Middleware mtls_server),
     gn_Services := quiet_services b\<rparr>"

lemma mtls_filled: "gin_ApplyDefaults [] named_env ders (mtls_server\<lparr>gn_Services := quiet_services b\<rparr>) = (mtls_filled b, None)"
  by (simp add: settled_ApplyDefaults [OF settled_mtls] mtls_filled_def)

lemma settled_filled: "settled (mtls_filled b)"
  using http_default_ports own_enabled
  by (auto simp: settled_def mtls_filled_def mtls_server_TLS mtls_middlewares mtls_server_config)
    (simp_all add: middleware_ApplyDefaults_def mtls_server_Middleware middleware_zero_def oauth_zero_def)

lemma written_back_filled:
  "written_back (mtls_server\<lparr>gn_Services := quiet_services b\<rparr>) (callers_config manager_env (mtls_filled b')) =
     mtls_server\<lparr>gn_Services := quiet_services b'\<rparr>"
  "written_back (mtls_server\<lparr>gn_Services := quiet_services b\<rparr>) (mtls_filled b') =
     mtls_server\<lparr>gn_Services := quiet_services b'\<rparr>"
proof -
  have env: "se_parsers manager_env = []" "se_tls manager_env = named_env" "se_ders manager_env = (\<lambda>_. [''der''])"
    by (simp_all add: manager_env_def plain_server_env_def)
  have f: "gin_ApplyDefaultConfig [] named_env (\<lambda>_. [''der'']) (mtls_filled b') =
      (mtls_filled b')\<lparr>gn_Middleware := middleware_ApplyDefaults [] (gn_Middleware (mtls_filled b'))\<rparr>"
    by (simp add: gin_ApplyDefaultConfig_def settled_ApplyDefaults [OF settled_filled]) (simp add: mtls_filled_def)
  have m: "mw_CertificateAuth (gn_Middleware (mtls_filled b')) = Some own_certificates"
    by (simp add: mtls_filled_def mtls_middlewares)
  have q: "gn_Services (mtls_filled b') = quiet_services b'" by (simp add: mtls_filled_def)
  have c: "mw_CertificateAuth (gn_Middleware (callers_config manager_env (mtls_filled b'))) = Some own_certificates"
    "gn_Services (callers_config manager_env (mtls_filled b')) = quiet_services b'"
    by (simp_all add: callers_config_def env f m own_certificates_keeps q Let_def quiet_services_def)
  show "written_back (mtls_server\<lparr>gn_Services := quiet_services b\<rparr>) (callers_config manager_env (mtls_filled b')) =
     mtls_server\<lparr>gn_Services := quiet_services b'\<rparr>"
    by (simp add: written_back_def c mtls_server_Middleware) (simp add: quiet_services_def mtls_server_def)
  show "written_back (mtls_server\<lparr>gn_Services := quiet_services b\<rparr>) (mtls_filled b') =
     mtls_server\<lparr>gn_Services := quiet_services b'\<rparr>"
    by (simp add: written_back_def m q mtls_server_Middleware) (simp add: quiet_services_def mtls_server_def)
qed

lemma proxy_client_made:
  assumes "clc_TLS (pc_HTTPConfig cfg) = reuseTLSConfig (gn_TLS mtls_server)"
  shows "\<exists>p. proxy_NewForConfig named_env (se_tripperware manager_env) cfg = Inr p \<and> px_basePath p = pc_BasePath cfg"
proof -
  have t: "clc_TLS (pc_HTTPConfig cfg) = \<lparr>tls_Cert = ''crt'', tls_Key = ''key'', tls_RootCAs = [],
      tls_MinVersion = VersionName DefaultMinVersion, tls_Disabled = False, tc_InsecureSkipVerify = True\<rparr>"
    by (simp add: assms reuseTLSConfig_def mtls_server_TLS tlsclient_NewConfig_def tls_NewConfig_def
        tls_config.defs tls_client_config.defs)
  have "\<exists>g. tlsclient_NewForConfig named_env (clc_TLS (pc_HTTPConfig cfg)) [] = Inr g"
    by (simp add: t tlsclient_NewForConfig_def tlsclient_ApplyDefaults_def tls_ApplyDefaults_def NewX509KeyPair_def
        NewCertPool_def named_env_def ParseTLSVersion_def TLSConfig_Validate_def VersionName_def DefaultMinVersion_def
        Let_def)
  then show ?thesis
    by (auto simp: proxy_NewForConfig_def client_NewForConfig_def t UseTLS_def clc_Validate_def http_NewClient_def
        WithCheckRedirect_def WithNewTransport_def NewTransport_def WithTLSConfig_def WithTransport_def
        set_transport_def Let_def)
qed

lemma proxy_registers:
  assumes "px_basePath p = []" "rt_Base r = ''/''"
    and "(\<lambda>x. (er_Method x, er_Path x)) ` set (rt_Routes r) \<subseteq> {(''GET'', ''/metrics'')}"
  shows "register_proxy (se_gin manager_env) p r \<noteq> None"
proof -
  have "(m, ''/*proxyPath'') \<notin> (\<lambda>x. (er_Method x, er_Path x)) ` set (rt_Routes r)" for m
    using assms(3) by (auto dest!: subsetD)
  then show ?thesis
    by (simp add: register_proxy_def proxy_Register_def anyMethods_def assms(1,2) TrimSuffix_def router_Handle_def
        manager_env_def plain_server_env_def plain_gin_def Let_def)
qed

lemma newProxyCar_made:
  fixes px :: "('s, 'u certificate, 'k, unit) client proxy" and E :: "('j, 'u, 'b, 'w, 's, 'k) server_env"
    and pe :: "(('j, 'u, 'b) mw, 'h, 'w, 's, 'u certificate, 'k) engine"
  assumes "mp_Enabled (mg_Proxy w)" "pc_Routes (mp_Config (mg_Proxy w)) \<noteq> []"
    and "ApplyProxyDefaults (se_parsers E) (se_tls E) (se_ders E) c = (p, None)"
    and "proxy_NewForConfig (se_tls E) (se_tripperware E) (mp_Config (mg_Proxy (injectProxyConfig p w))) = Inr px"
    and "engine_NewForConfig E (Some (mg_Config (injectProxyConfig p w)))
      [Some (WithRoutes [Some (register_proxy (se_gin E) px)])] = Some (Inr pe)"
  shows "\<exists>c3. newProxyCar E c w = (Some (Inr (Some pe)), c3) \<and>
    mg_Config c3 = mg_Config (after_proxy_defaults (se_parsers E) (se_tls E) (se_ders E) c)"
  using assms by (simp add: newProxyCar_def override_back_def Let_def)

lemma injected_TLS:
  assumes "UseTLS (Some (gn_TLS (mg_Config w)))"
  shows "mp_Config (mg_Proxy (injectProxyConfig c w)) = (mp_Config (mg_Proxy c))\<lparr>pc_HTTPConfig :=
    (pc_HTTPConfig (mp_Config (mg_Proxy c)))\<lparr>clc_TLS := reuseTLSConfig (gn_TLS (mg_Config w))\<rparr>\<rparr>"
  using assms by (simp add: injectProxyConfig_def Let_def)

lemma mtls_manager_runs:
  "\<exists>(m :: ((unit, unit, unit) mw, 'h, nat, nat, unit certificate, unit) manager) c'.
    NewManager manager_env (Some mtls_manager) [] = (Some (Inr m), Some c') \<and>
    (\<exists>mws. NewMiddlewareForConfig (se_oauth manager_env) (Some (gn_Middleware
      (gin_ApplyDefaultConfig (se_parsers manager_env) (se_tls manager_env) (se_ders manager_env) (mg_Config c')))) [[]] =
      Some (Inr mws))"
proof -
  let ?c0 = "mtls_server\<lparr>gn_Services := quiet_services True\<rparr>"
  let ?c1 = "mtls_manager\<lparr>mg_Config := mtls_server\<lparr>gn_Services := quiet_services False\<rparr>\<rparr>"
  let ?w = "mtls_manager\<lparr>mg_Config := callers_config manager_env (mtls_filled False)\<rparr>"
  have env: "se_parsers manager_env = []" "se_tls manager_env = named_env" "se_ders manager_env = (\<lambda>_. [''der''])"
    by (simp_all add: manager_env_def plain_server_env_def)
  have c0: "mg_Config mtls_manager = ?c0" "mg_SidecarServices mtls_manager = quiet_services True"
    "mg_Sidecar mtls_manager = \<lparr>sd_Host = [], sd_Port = 0\<rparr>" by (simp_all add: mtls_manager_def)
  have nm: "no_metrics (mtls_filled b) = mtls_filled False" for b
    by (simp add: mtls_filled_def no_metrics_quiet)
  obtain web :: "((unit, unit, unit) mw, 'h, nat, nat, unit certificate, unit) engine" where
    "engine_NewForConfig manager_env (Some (mtls_filled False)) [] = Some (Inr web)"
    using settled_engine [OF settled_filled, of None False] by auto
  then have web: "manager_webserver manager_env mtls_manager = (Some (Inr (?w, web)), ?c1)"
    by (simp add: manager_webserver_def env c0 mtls_filled nm written_back_filled)
  let ?t = "(gn_TLS mtls_server)\<lparr>ClientAuthType := ''NoClientCert''\<rparr>"
  let ?s = "(mtls_filled False)\<lparr>gn_HTTPServer := http_DefaultConfig\<lparr>ht_Host := DefaultSidecarHost,
      ht_Port := DefaultSidecarPort\<rparr>, gn_TLS := ?t, gn_Middleware := middleware_zero\<lparr>mw_Recovery := Some True\<rparr>\<rparr>"
  have t: "no_client_certs (gn_TLS mtls_server) = ?t"
    by (simp add: no_client_certs_def mtls_server_config(3) ClientAuthType_String.simps)
  have side: "ApplySidecarDefaults [] named_env (\<lambda>_. [''der'']) ?c1 = (mtls_manager\<lparr>mg_Config := ?s\<rparr>, None)"
    by (simp add: ApplySidecarDefaults_def mtls_filled c0 t sidecar_host_def sidecar_port_def)
      (simp add: mtls_filled_def mtls_server_config t)
  let ?s' = "?s\<lparr>gn_Services := quiet_services True\<rparr>"
  have inj: "injectConfig P (mtls_manager\<lparr>mg_Config := ?s\<rparr>) ?w = (mtls_manager\<lparr>mg_Config := ?s'\<rparr>, None)" for P
  proof -
    have q: "with_probes [] (quiet_services True) = quiet_services True" "probes_of (quiet_services True) = Some []"
      by (simp_all add: with_probes_def probes_of_def quiet_services_def hcfg_zero_def)
    show ?thesis by (simp add: injectConfig_def c0 q mtls_manager_def)
  qed
  have "settled ?s'"
    using changed_ports [of DefaultSidecarPort DefaultSidecarHost]
    by (auto simp: settled_def mtls_filled_def mtls_server_TLS mtls_server_config middleware_zero_def
        DefaultSidecarPort_def)
  from settled_engine [OF this, of None] obtain sd :: "((unit, unit, unit) mw, 'h, nat, nat, unit certificate, unit) engine"
    where sd: "engine_NewForConfig manager_env (Some ?s') [] = Some (Inr sd)" by auto
  let ?c2 = "services_back manager_env (mtls_manager\<lparr>mg_Config := ?s'\<rparr>) ?c1"
  have c2: "manager_sidecar manager_env ?w ?c1 = (Some (Inr sd), ?c2)"
    using sd by (simp add: manager_sidecar_def env side inj mtls_filled written_back_filled Let_def)
  let ?p = "(mtls_filled False)\<lparr>gn_HTTPServer := http_DefaultConfig\<lparr>ht_Host := DefaultProxyHost,
      ht_Port := DefaultProxyPort\<rparr>, gn_TLS := ?t, gn_Middleware := (gn_Middleware (mtls_filled False))
      \<lparr>mw_CertificateAuth := Some (own_certificates\<lparr>cert_Enabled := False\<rparr>)\<rparr>,
      gn_Services := (quiet_services False)\<lparr>sc_Proxy := None, sc_Reloader := None\<rparr>\<rparr>"
  have prx: "mg_Proxy mtls_manager = \<lparr>mp_Host = [], mp_Port = 0, mp_Enabled = True,
        mp_Config = \<lparr>pc_HTTPConfig = clc_zero, pc_BasePath = [],
          pc_Routes = [\<lparr>Prefix = ''/api'', Target = ''https://main.local''\<rparr>]\<rparr>,
        mp_Override = gin_zero\<rparr>" by (simp add: mtls_manager_def)
  have dis: "proxycar_disables (mtls_filled False) = (mtls_filled False)\<lparr>gn_Middleware :=
      (gn_Middleware (mtls_filled False))\<lparr>mw_CertificateAuth := Some (own_certificates\<lparr>cert_Enabled := False\<rparr>)\<rparr>\<rparr>"
    by (simp add: proxycar_disables_def nm) (simp add: mtls_filled_def mtls_middlewares)
  have ov: "override_middleware (gn_Middleware (gin_zero :: (unit, unit, nat, unit certificate, unit) gin_config)) m = m" for m
    by (simp add: override_middleware_def override_def gin_zero_def middleware_zero_def)
  have asg: "proxycar_assigns (mg_Proxy mtls_manager) (proxycar_disables (mtls_filled False)) = ?p"
    by (simp add: proxycar_assigns_def prx dis ov) (simp add: mtls_filled_def mtls_server_config t gin_zero_def)
  have pset: "settled ?p"
    using settled_filled [of False] changed_ports [of DefaultProxyPort DefaultProxyHost]
    by (auto simp: settled_def mtls_filled_def mtls_server_TLS mtls_server_config DefaultProxyPort_def
        services_ApplyDefaults_def quiet_services_def)
  let ?c2' = "?c2\<lparr>mg_Config := ?p\<rparr>"
  have apd: "ApplyProxyDefaults [] named_env (\<lambda>_. [''der'']) ?c2 = (?c2', None)"
    using asg by (simp add: ApplyProxyDefaults_def services_back_def mtls_filled)
  obtain px :: "(nat, unit certificate, unit, unit) client proxy" where px: "proxy_NewForConfig named_env (se_tripperware manager_env)
      (mp_Config (mg_Proxy (injectProxyConfig ?c2' ?w))) = Inr px" "px_basePath px = []"
  proof -
    have w: "gn_TLS (mg_Config ?w) = gn_TLS mtls_server"
      by (simp add: callers_config_def Let_def) (simp add: mtls_filled_def)
    have p0: "mg_Proxy ?c2' = mg_Proxy mtls_manager" by (simp add: services_back_def)
    note i = injected_TLS [of ?w ?c2', unfolded w p0, OF mtls_server_config(3)]
    have "clc_TLS (pc_HTTPConfig (mp_Config (mg_Proxy (injectProxyConfig ?c2' ?w)))) = reuseTLSConfig (gn_TLS mtls_server)"
      "pc_BasePath (mp_Config (mg_Proxy (injectProxyConfig ?c2' ?w))) = []"
      unfolding i by (simp_all add: prx)
    then show thesis using proxy_client_made that by metis
  qed
  have "\<exists>e :: ((unit, unit, unit) mw, 'h, nat, nat, unit certificate, unit) engine.
      engine_NewForConfig manager_env (Some ?p) [Some (WithRoutes [Some (register_proxy (se_gin manager_env) px)])] =
      Some (Inr e)"
  proof -
    have reg: "f r \<noteq> None" if "Some (register_proxy (se_gin manager_env) px) = Some f" "rt_Base r = ''/''"
      "(\<lambda>x. (er_Method x, er_Path x)) ` set (rt_Routes r) \<subseteq> {(''GET'', ''/metrics'')}"
      for f :: "((unit, unit, unit) mw, 'h) gin_route" and r
      using that proxy_registers [OF px(2)] by auto
    have "\<exists>e :: ((unit, unit, unit) mw, 'h, nat, nat, unit certificate, unit) engine. engine_NewForConfig manager_env (Some ?p)
        (case Some (register_proxy (se_gin manager_env) px) of None \<Rightarrow> [] | Some f \<Rightarrow> [Some (WithRoutes [Some f])]) =
        Some (Inr e)"
      by (rule settled_engine [OF pset]) (rule reg)
    then show ?thesis by simp
  qed
  then obtain pe :: "((unit, unit, unit) mw, 'h, nat, nat, unit certificate, unit) engine" where
    pe: "engine_NewForConfig manager_env (Some ?p) [Some (WithRoutes [Some (register_proxy (se_gin manager_env) px)])] =
      Some (Inr pe)" by blast
  have cfg: "mg_Config (injectProxyConfig ?c2' ?w) = ?p" by (simp add: injectProxyConfig_def Let_def)
  have pw: "mg_Proxy ?w = mg_Proxy mtls_manager" by simp
  have "\<exists>c3. newProxyCar manager_env ?c2 ?w = (Some (Inr (Some pe)), c3) \<and>
      mg_Config c3 = mg_Config (after_proxy_defaults (se_parsers manager_env) (se_tls manager_env) (se_ders manager_env) ?c2)"
  proof (rule newProxyCar_made [where px = px and p = ?c2'])
    show "mp_Enabled (mg_Proxy ?w)" "pc_Routes (mp_Config (mg_Proxy ?w)) \<noteq> []" by (simp_all add: prx)
    show "ApplyProxyDefaults (se_parsers manager_env) (se_tls manager_env) (se_ders manager_env) ?c2 = (?c2', None)"
      unfolding env by (rule apd)
    show "proxy_NewForConfig (se_tls manager_env) (se_tripperware manager_env)
        (mp_Config (mg_Proxy (injectProxyConfig ?c2' ?w))) = Inr px" unfolding env by (rule px(1))
    show "engine_NewForConfig manager_env (Some (mg_Config (injectProxyConfig ?c2' ?w)))
        [Some (WithRoutes [Some (register_proxy (se_gin manager_env) px)])] = Some (Inr pe)" unfolding cfg by (rule pe)
  qed
  then obtain c3 where c3: "newProxyCar manager_env ?c2 ?w = (Some (Inr (Some pe)), c3)"
    "mg_Config c3 = mg_Config (after_proxy_defaults [] named_env (\<lambda>_. [''der'']) ?c2)" unfolding env by blast
  have off: "mg_Config c3 = mtls_server\<lparr>gn_Middleware := middleware_zero\<lparr>mw_CertificateAuth :=
      Some (own_certificates\<lparr>cert_Enabled := False\<rparr>)\<rparr>, gn_Services := quiet_services False\<rparr>"
    by (simp add: c3(2) after_proxy_defaults_def services_back_def mtls_filled dis)
      (simp add: written_back_def mtls_filled_def mtls_server_Middleware quiet_services_def mtls_server_def)
  have "settled (mg_Config c3)"
    using http_default_ports by (auto simp: off settled_def mtls_server_TLS mtls_server_config middleware_zero_def)
  from settled_ApplyDefaults [OF this] have "mw_Oauth (gn_Middleware (gin_ApplyDefaultConfig [] named_env (\<lambda>_. [''der''])
      (mg_Config c3))) = Some oauth_zero"
    by (simp add: gin_ApplyDefaultConfig_def) (simp add: off middleware_ApplyDefaults_def middleware_zero_def)
  then have mws: "\<exists>mws. NewMiddlewareForConfig (se_oauth manager_env) (Some (gn_Middleware
      (gin_ApplyDefaultConfig (se_parsers manager_env) (se_tls manager_env) (se_ders manager_env) (mg_Config c3)))) [[]] =
      Some (Inr mws)"
    unfolding env by (intro no_oauth_middlewares) (simp add: oauth_zero_def)
  have "\<exists>m. NewManager manager_env (Some mtls_manager) [] =
      (Some (Inr (m :: ((unit, unit, unit) mw, 'h, nat, nat, unit certificate, unit) manager)), Some c3)"
    by (simp add: NewManager_def wrapping_def web c2 c3(1))
  with mws show ?thesis by blast
qed

lemma mtls_manager_config:
  "mw_CertificateAuth (gn_Middleware (mg_Config mtls_manager)) = Some own_certificates" "cert_Enabled own_certificates"
  "mp_Enabled (mg_Proxy mtls_manager)" "pc_Routes (mp_Config (mg_Proxy mtls_manager)) \<noteq> []"
  by (simp_all add: mtls_manager_def mtls_server_Middleware own_certificates_def)

section \<open>Properties\<close>

text \<open>
  C39. The servers of a manager, whatever options of the package it is made with, the applications'
  routes included. With certificate authentication enabled, every route of the web server has the
  middleware of exactly the configured certificates in its chain: the caller's, with their defaults, and
  the two copies of the server's own that the injection appends when it applies. Every route of the
  sidecar runs behind recovery, request id, metrics and logging. There is a proxy exactly when it is
  enabled and has routes. The options are those of the package, over engine options that append to a
  router, as all of the engine's do.
\<close>

theorem manager_servers:
  fixes E :: "('j, 'u, 'b, 'w, 's, 'k) server_env"
    and m :: "(('j, 'u, 'b) mw, 'h, 'w, 's, 'u certificate, 'k) manager"
  assumes "NewManager E (Some c) opts = (Some (Inr m), Some c')"
    and "\<And>f. Some f \<in> set opts \<Longrightarrow> server_option f"
    and "mw_CertificateAuth (gn_Middleware (mg_Config c)) = Some cc" "cert_Enabled cc"
  shows "(\<forall>x \<in> set (rt_Routes (eg_Router (mgr_Webserver m))).
      CertificateMW (server_certificates E (mg_Config c) cc) \<in> set (er_Chain x)) \<and>
    (\<forall>x \<in> set (rt_Routes (eg_Router (mgr_Sidecar m))). prefix [RecoveryMW, RequestIDMW,
        MetricsMW \<lparr>oc_Enabled = True, oc_SkipPaths = metrics_defaultSkipPaths\<rparr>,
        LoggerMW \<lparr>oc_Enabled = True, oc_SkipPaths = logger_defaultSkipPaths\<rparr>] (er_Chain x)) \<and>
    (mgr_Proxy m \<noteq> None \<longleftrightarrow> mp_Enabled (mg_Proxy c) \<and> pc_Routes (mp_Config (mg_Proxy c)) \<noteq> [])"
proof -
  from NewManager_base [OF assms(1)] obtain m0 :: "(('j, 'u, 'b) mw, 'h, 'w, 's, 'u certificate, 'k) manager" where
    m0: "NewManager E (Some c) [] = (Some (Inr m0), Some c')" "manager_With opts m0 = Some (Inr m)" by blast
  note ext = manager_appendsD [OF manager_With_appends [of opts, OF server_option_appends, OF assms(2)] m0(2)]
  from NewManager_shape [OF m0(1)] obtain g s c2 w where
    g: "gin_ApplyDefaults (se_parsers E) (se_tls E) (se_ders E) (mg_Config c) = (g, None)"
      "engine_NewForConfig E (Some (no_metrics g)) [] = Some (Inr (mgr_Webserver m0))"
    and s: "gn_Middleware s = middleware_zero\<lparr>mw_Recovery := Some True\<rparr>"
      "engine_NewForConfig E (Some s) [] = Some (Inr (mgr_Sidecar m0))"
    and p: "newProxyCar E c2 w = (Some (Inr (mgr_Proxy m0)), c')" "mg_Proxy w = mg_Proxy c" by blast
  from NewForConfig_guarded [OF g(2)] obtain mws where
    mws: "NewMiddlewareForConfig (se_oauth E) (Some (gn_Middleware
      (gin_ApplyDefaultConfig (se_parsers E) (se_tls E) (se_ders E) (no_metrics g)))) [[]] = Some (Inr mws)"
    "guarded mws (eg_Router (mgr_Webserver m0))" by blast
  have "CertificateMW (server_certificates E (mg_Config c) cc) \<in> set mws"
    by (rule certificate_middleware_installed [OF mws(1)])
      (use webserver_certificates [OF assms(3,4) g(1)] assms(4) in auto)
  with router_extends_guarded [OF mws(2) ext(1)]
  have "\<forall>x \<in> set (rt_Routes (eg_Router (mgr_Webserver m))).
      CertificateMW (server_certificates E (mg_Config c) cc) \<in> set (er_Chain x)"
    by (auto simp: guarded_def dest: set_mono_prefix)
  moreover from NewForConfig_guarded [OF s(2)] have "guarded [RecoveryMW, RequestIDMW,
        MetricsMW \<lparr>oc_Enabled = True, oc_SkipPaths = metrics_defaultSkipPaths\<rparr>,
        LoggerMW \<lparr>oc_Enabled = True, oc_SkipPaths = logger_defaultSkipPaths\<rparr>] (eg_Router (mgr_Sidecar m0))"
    by (simp add: recovery_only_middlewares [OF s(1)])
  moreover note router_extends_guarded [OF this ext(2)]
  ultimately show ?thesis using newProxyCar_None [OF p(1)] ext(3) by (auto simp: guarded_def p(2))
qed

theorem manager_servers_witness:
  "\<exists>(m :: ((unit, unit, unit) mw, unit, nat, nat, unit certificate, unit) manager) c'.
    NewManager manager_env (Some mtls_manager)
      [Some (WithWebserverOptions [Some (WithMiddleware [RecoveryMW])]), None,
       Some (WithSidecarOptions [Some (WithMiddleware [RequestIDMW])])] = (Some (Inr m), Some c') \<and>
    (\<forall>x \<in> set (rt_Routes (eg_Router (mgr_Webserver m))).
      CertificateMW (server_certificates manager_env (mg_Config mtls_manager) own_certificates) \<in> set (er_Chain x)) \<and>
    mgr_Proxy m \<noteq> None"
proof -
  let ?opts = "[Some (WithWebserverOptions [Some (WithMiddleware [RecoveryMW])]), None,
       Some (WithSidecarOptions [Some (WithMiddleware [RequestIDMW])])]
    :: ((unit, unit, unit) mw, unit, nat, nat, unit certificate, unit) manager_option option list"
  obtain m0 :: "((unit, unit, unit) mw, unit, nat, nat, unit certificate, unit) manager" and c' where
    m0: "NewManager manager_env (Some mtls_manager) [] = (Some (Inr m0), Some c')" using mtls_manager_runs by blast
  obtain m where "manager_With ?opts m0 = Some (Inr m)"
    by (simp add: WithWebserverOptions_def WithSidecarOptions_def engine_With_def WithMiddleware_def)
  then have m: "NewManager manager_env (Some mtls_manager) ?opts = (Some (Inr m), Some c')"
    by (simp only: NewManager_options [OF m0] wrapping_def) simp
  have mid: "\<forall>g. Some g \<in> set [Some (WithMiddleware ms)] \<longrightarrow> engine_appends g"
    for ms
    by (simp add: middleware_option.law)
  have "server_option f" if "Some f \<in> set ?opts" for f
  proof -
    from that have "f = WithWebserverOptions [Some (WithMiddleware [RecoveryMW])] \<or>
        f = WithSidecarOptions [Some (WithMiddleware [RequestIDMW])]" by simp
    then show ?thesis unfolding server_option_def using mid by metis
  qed
  from manager_servers [OF m this mtls_manager_config(1,2)] m mtls_manager_config(3,4) show ?thesis by blast
qed

text \<open>
  C40. A manager with a proxy disables certificate authentication in its caller's configuration, through
  a pointer it shares: nothing made from that configuration afterwards has the certificate middleware.
\<close>

theorem manager_disables_callers_certificates:
  fixes E :: "('j, 'u, 'b, 'w, 's, 'k) server_env"
    and m :: "(('j, 'u, 'b) mw, 'h, 'w, 's, 'u certificate, 'k) manager"
  assumes "NewManager E (Some c) [] = (Some (Inr m), Some c')"
    and "mw_CertificateAuth (gn_Middleware (mg_Config c)) = Some cc" "cert_Enabled cc"
    and "mp_Enabled (mg_Proxy c)" "pc_Routes (mp_Config (mg_Proxy c)) \<noteq> []"
    and "NewMiddlewareForConfig (se_oauth E) (Some (gn_Middleware
      (gin_ApplyDefaultConfig (se_parsers E) (se_tls E) (se_ders E) (mg_Config c')))) opts = Some (Inr mws)"
  shows "CertificateMW cc' \<notin> set mws"
proof
  assume "CertificateMW cc' \<in> set mws"
  from CertificateMW_enabled [OF assms(6) this] have on: "mw_CertificateAuth (gn_Middleware
      (gin_ApplyDefaultConfig (se_parsers E) (se_tls E) (se_ders E) (mg_Config c'))) = Some cc'" "cert_Enabled cc'"
    by simp_all
  from NewManager_shape [OF assms(1)] obtain c2 w where
    p: "newProxyCar E c2 w = (Some (Inr (mgr_Proxy m)), c')" "mg_Proxy w = mg_Proxy c"
      "mw_CertificateAuth (gn_Middleware (mg_Config c2)) \<noteq> None" using assms(2) by blast
  have "mgr_Proxy m \<noteq> None" using newProxyCar_None [OF p(1)] p(2) assms(4,5) by simp
  then obtain px where px: "mgr_Proxy m = Some px" by blast
  with p(1) have "newProxyCar E c2 w = (Some (Inr (Some px)), c')" by simp
  from newProxyCar_disables [OF this] p(3) obtain off where
    "mw_CertificateAuth (gn_Middleware (mg_Config c')) = Some off" "\<not> cert_Enabled off" by auto
  from ApplyDefaults_cert_Enabled [OF this(1), of "se_parsers E" "se_tls E" "se_ders E"] this(2) on show False
    by auto
qed

theorem manager_disables_callers_certificates_witness:
  "\<exists>(m :: ((unit, unit, unit) mw, unit, nat, nat, unit certificate, unit) manager) c' mws.
    NewManager manager_env (Some mtls_manager) [] = (Some (Inr m), Some c') \<and>
    NewMiddlewareForConfig (se_oauth manager_env) (Some (gn_Middleware
      (gin_ApplyDefaultConfig (se_parsers manager_env) (se_tls manager_env) (se_ders manager_env) (mg_Config c')))) [[]] =
      Some (Inr mws) \<and> CertificateMW own_certificates \<notin> set mws"
proof -
  obtain m :: "((unit, unit, unit) mw, unit, nat, nat, unit certificate, unit) manager" and c' mws where
    m: "NewManager manager_env (Some mtls_manager) [] = (Some (Inr m), Some c')"
      "NewMiddlewareForConfig (se_oauth manager_env) (Some (gn_Middleware
      (gin_ApplyDefaultConfig (se_parsers manager_env) (se_tls manager_env) (se_ders manager_env) (mg_Config c')))) [[]] =
      Some (Inr mws)" using mtls_manager_runs by blast
  from manager_disables_callers_certificates [OF m(1) mtls_manager_config m(2)] m show ?thesis by blast
qed

text \<open>
  A manager needs the host of its web server: with the host left to its default, which listens on
  every address, and no checks for the sidecar, the default check is refused and there is no manager.
\<close>

theorem manager_needs_a_host:
  fixes E :: "('j, 'u, 'b, 'w, 's, 'k) server_env"
    and m :: "(('j, 'u, 'b) mw, 'h, 'w, 's, 'u certificate, 'k) manager"
  assumes "ht_Host (gn_HTTPServer (mg_Config c)) = []" "sc_Healthcheck (mg_SidecarServices c) = None"
    and "sc_Healthcheck (gn_Services (mg_Config c)) = None \<or> healthcheck_on (sc_Healthcheck (gn_Services (mg_Config c)))"
  shows "fst (NewManager E (Some c) opts) \<noteq> Some (Inr m)"
proof
  assume "fst (NewManager E (Some c) opts) = Some (Inr m)"
  moreover obtain r c' where r: "NewManager E (Some c) opts = (r, c')" by fastforce
  ultimately have "NewManager E (Some c) opts = (Some (Inr m), c')" by simp
  moreover have "c' \<noteq> None" using r by (auto simp: NewManager_def split: prod.splits option.splits sum.splits)
  ultimately obtain c'' where "NewManager E (Some c) opts = (Some (Inr m), Some c'')" by auto
  from NewManager_steps [OF this] obtain w c1 c2 and e sd :: "(('j, 'u, 'b) mw, 'h, 'w, 's, 'u certificate, 'k) engine"
    where m: "manager_webserver E c = (Some (Inr (w, e)), c1)" "manager_sidecar E w c1 = (Some (Inr sd), c2)" by blast
  from manager_webserver_ok [OF m(1)] obtain g where
    g: "gin_ApplyDefaults (se_parsers E) (se_tls E) (se_ders E) (mg_Config c) = (g, None)"
      "w = c\<lparr>mg_Config := callers_config E (no_metrics g)\<rparr>"
      "c1 = c\<lparr>mg_Config := written_back (mg_Config c) (callers_config E (no_metrics g))\<rparr>" by blast
  from manager_sidecar_ok [OF m(2)] obtain s s' where
    s: "ApplySidecarDefaults (se_parsers E) (se_tls E) (se_ders E) c1 = (s, None)"
      "injectConfig (se_probe E) s w = (s', None)" "engine_NewForConfig E (Some (mg_Config s')) [] = Some (Inr sd)"
    by blast
  have host: "ht_Host (gn_HTTPServer (mg_Config w)) = []"
    using assms(1) ApplyDefaults_keeps(2) [of "se_parsers E" "se_tls E" "se_ders E" "mg_Config c"] g(1)
    by (simp add: g(2) callers_config_def http_ApplyDefaults_def http_DefaultHost_def Let_def)
  have "healthcheck_on (sc_Healthcheck (gn_Services (mg_Config w)))"
    using assms(3) ApplyDefaults_keeps(1) [of "se_parsers E" "se_tls E" "se_ders E" "mg_Config c"] g(1)
    by (auto simp: g(2) callers_config_def services_ApplyDefaults_def healthcheck_on_def no_metrics_def Let_def
        split: option.splits)
  then obtain job where job: "job \<in> set (createDefaultHealthChecks w)"
    "HTTPGet job = Some \<lparr>hc_Path = HealthEndpoint, hc_Scheme = [], hc_Host = [],
       hc_Port = ht_Port (gn_HTTPServer (mg_Config w)), hc_TLSConfig = reuseTLSConfig (gn_TLS (mg_Config w)),
       hc_HTTPHeaders = []\<rparr>" "\<not> OK job"
    using host by (fastforce simp: createDefaultHealthChecks_def newHTTPCheck_def Let_def)
  have "mg_SidecarServices s = mg_SidecarServices c"
    using s(1) by (auto simp: ApplySidecarDefaults_def g(3) split: prod.splits option.splits)
  then obtain h where h: "sc_Healthcheck (gn_Services (mg_Config s')) = Some h" "hs_Enabled h"
    "hcfg_Jobs (hs_Config h) = createDefaultHealthChecks w"
    using s(2) assms(2) by (auto simp: injectConfig_def probes_of_def)
  have "\<exists>err. NewForConfig (se_probe E) (Some (hs_Config h)) [] = Inl err"
    by (rule NewForConfig_fails_at [of job, OF _ job(2) _ job(3)]) (simp_all add: h(3) job(1))
  then obtain err where "NewForConfig (se_probe E) (Some (hs_Config h)) [] = Inl err" by blast
  from engine_needs_prober [OF h(1,2) this] s(3) show False by blast
qed

theorem manager_needs_a_host_witness:
  "\<nexists>m :: ((unit, unit, unit) mw, unit, nat, nat, unit certificate, unit) manager.
    fst (NewManager plain_server_env (Some \<lparr>mg_Config = gin_zero,
      mg_SidecarServices = (quiet_services True)\<lparr>sc_Healthcheck := None\<rparr>, mg_Sidecar = \<lparr>sd_Host = [], sd_Port = 0\<rparr>,
      mg_Proxy = mg_Proxy mtls_manager\<rparr>) []) = Some (Inr m)"
  by (intro notI, elim exE, erule notE [rotated], rule manager_needs_a_host) (simp_all add: gin_zero_def)

end
