(* ===== verification/S3_AWS.thy ===== *)
theory S3_AWS
  imports S3
begin

text \<open>
  The S3 client over the AWS SDK, \<open>pkg/store/backends/s3/aws.go\<close>. The SDK is the record
  \<open>aws_sdk\<close>: its operations on a state, and its paginator with its own state \<open>'p\<close>. The loop over the pages
  ends when the paginator says so, hence the \<open>partial_function\<close>: the outer \<open>None\<close> of a listing is a
  loop that does not end, the inner one the panic at a key that is nil.
\<close>

section \<open>The SDK\<close>

record aws_config =
  ac_Region :: string
  ac_Credentials :: "string \<times> string \<times> string"
  ac_EndpointResolver :: "string \<Rightarrow> string \<Rightarrow> string \<times> string"

record ('a, 'p) aws_sdk =
  sdk_Put :: "string \<Rightarrow> string \<Rightarrow> string \<Rightarrow> 'a \<Rightarrow> 'a \<times> err option"
  sdk_Get :: "string \<Rightarrow> string \<Rightarrow> 'a \<Rightarrow> err + (err + string)"
  sdk_Delete :: "string \<Rightarrow> string \<Rightarrow> 'a \<Rightarrow> 'a \<times> err option"
  sdk_CreateBucket :: "string \<Rightarrow> 'a \<Rightarrow> 'a \<times> err option"
  sdk_DeleteBucket :: "string \<Rightarrow> 'a \<Rightarrow> 'a \<times> err option"
  sdk_Paginator :: "string \<Rightarrow> 'a \<Rightarrow> 'p"
  sdk_HasMorePages :: "'p \<Rightarrow> bool"
  sdk_NextPage :: "'a \<Rightarrow> 'p \<Rightarrow> 'p \<times> (err + string option list)"

section \<open>The client\<close>

record aws_client_config =
  aw_Namespace :: string
  aw_Username :: string
  aw_Password :: string
  aw_URL :: string

definition awsConfigFromCustom :: "aws_client_config \<Rightarrow> err + aws_config" where
  "awsConfigFromCustom cfg =
     Inr \<lparr>ac_Region = aw_Namespace cfg, ac_Credentials = (aw_Username cfg, aw_Password cfg, []),
       ac_EndpointResolver = (\<lambda>service region. (aw_URL cfg, aw_Namespace cfg))\<rparr>"

text \<open>\<open>NewFromConfig\<close> of the SDK with \<open>UsePathStyle\<close>.\<close>

definition NewAwsS3Client ::
  "(aws_config \<Rightarrow> bool \<Rightarrow> ('a, 'p) aws_sdk) \<Rightarrow> aws_client_config \<Rightarrow> err + ('a, 'p) aws_sdk" where
  "NewAwsS3Client NewFromConfig cfg =
     (case awsConfigFromCustom cfg of
        Inl e \<Rightarrow> Inl e
      | Inr awsCfg \<Rightarrow> Inr (NewFromConfig awsCfg True))"

definition AWS_PutObject :: "('a, 'p) aws_sdk \<Rightarrow> string \<Rightarrow> string \<Rightarrow> string \<Rightarrow> 'a \<Rightarrow> 'a \<times> err option" where
  "AWS_PutObject A bucket key body a = sdk_Put A bucket key body a"

definition AWS_GetObject :: "('a, 'p) aws_sdk \<Rightarrow> string \<Rightarrow> string \<Rightarrow> 'a \<Rightarrow> err + string" where
  "AWS_GetObject A bucket key a =
     (case sdk_Get A bucket key a of
        Inl e \<Rightarrow> Inl e
      | Inr body \<Rightarrow> body)"

definition AWS_DeleteObject :: "('a, 'p) aws_sdk \<Rightarrow> string \<Rightarrow> string \<Rightarrow> 'a \<Rightarrow> 'a \<times> err option" where
  "AWS_DeleteObject A bucket key a = sdk_Delete A bucket key a"

definition AWS_CreateBucket :: "('a, 'p) aws_sdk \<Rightarrow> string \<Rightarrow> 'a \<Rightarrow> 'a \<times> err option" where
  "AWS_CreateBucket A bucket a = sdk_CreateBucket A bucket a"

definition AWS_DeleteBucket :: "('a, 'p) aws_sdk \<Rightarrow> string \<Rightarrow> 'a \<Rightarrow> 'a \<times> err option" where
  "AWS_DeleteBucket A bucket a = sdk_DeleteBucket A bucket a"

text \<open>The keys of a page; a nil key panics.\<close>

fun page_keys :: "string option list \<Rightarrow> string list option" where
  "page_keys [] = Some []"
| "page_keys (None # contents) = None"
| "page_keys (Some key # contents) = map_option ((#) key) (page_keys contents)"

partial_function (option) ListPages ::
  "('a, 'p) aws_sdk \<Rightarrow> 'a \<Rightarrow> 'p \<Rightarrow> string list \<Rightarrow> (err + string list) option option" where
  "ListPages A a p keys =
     (if \<not> sdk_HasMorePages A p then Some (Some (Inr keys))
      else case sdk_NextPage A a p of
          (p, Inl e) \<Rightarrow> Some (Some (Inl e))
        | (p, Inr contents) \<Rightarrow>
            (case page_keys contents of
               None \<Rightarrow> Some None
             | Some ks \<Rightarrow> ListPages A a p (keys @ ks)))"

definition AWS_ListObjects :: "('a, 'p) aws_sdk \<Rightarrow> string \<Rightarrow> 'a \<Rightarrow> (err + string list) option option" where
  "AWS_ListObjects A bucket a = ListPages A a (sdk_Paginator A bucket a) []"

text \<open>The client as the store uses it, where every listing ends without a panic.\<close>

definition ClientAWS :: "('a, 'p) aws_sdk \<Rightarrow> 'a client" where
  "ClientAWS A =
     \<lparr>PutObject = AWS_PutObject A, GetObject = AWS_GetObject A, DeleteObject = AWS_DeleteObject A,
      ListObjects = (\<lambda>bucket a. the (the (AWS_ListObjects A bucket a))), CreateBucket = AWS_CreateBucket A\<rparr>"

section \<open>Pages\<close>

lemma page_keys_Some [simp]: "page_keys (map Some ks) = Some ks"
  by (induction ks) auto

text \<open>
  What the SDK promises of its paginator: it goes through a list of pages, and there are more pages as
  long as that is not empty.
\<close>

definition paginates :: "('a, 'p) aws_sdk \<Rightarrow> ('a \<Rightarrow> 'p \<Rightarrow> string list list) \<Rightarrow> bool" where
  "paginates A rest \<longleftrightarrow>
     (\<forall>a p. (sdk_HasMorePages A p \<longleftrightarrow> rest a p \<noteq> []) \<and>
       (\<forall>page ps. rest a p = page # ps \<longrightarrow>
         (\<exists>p'. sdk_NextPage A a p = (p', Inr (map Some page)) \<and> rest a p' = ps)))"

lemma all_pages:
  assumes "paginates A rest"
  shows "ListPages A a p keys = Some (Some (Inr (keys @ concat (rest a p))))"
proof (induction "rest a p" arbitrary: p keys)
  case Nil
  then have "rest a p = []" by simp
  moreover from this assms have "\<not> sdk_HasMorePages A p" unfolding paginates_def by blast
  ultimately show ?case by (subst ListPages.simps) simp
next
  case (Cons page ps)
  have r: "rest a p = page # ps" using Cons.hyps(2) by simp
  have "sdk_HasMorePages A p \<longleftrightarrow> rest a p \<noteq> []"
    using assms [unfolded paginates_def, THEN spec, THEN spec, THEN conjunct1] .
  then have more: "sdk_HasMorePages A p" by (simp add: r)
  have "\<exists>p'. sdk_NextPage A a p = (p', Inr (map Some page)) \<and> rest a p' = ps"
    using assms [unfolded paginates_def, THEN spec, THEN spec, THEN conjunct2, THEN spec, THEN spec, THEN mp, OF r] .
  then obtain p' where p': "sdk_NextPage A a p = (p', Inr (map Some page))" "rest a p' = ps" by blast
  have "ListPages A a p' (keys @ page) = Some (Some (Inr ((keys @ page) @ concat ps)))"
    using Cons.hyps(1) [OF p'(2) [symmetric], of "keys @ page"] by (simp only: p'(2))
  moreover have "ListPages A a p keys = ListPages A a p' (keys @ page)"
    by (rule trans, rule ListPages.simps) (simp add: more p'(1))
  ultimately show ?case by (simp add: r)
qed

lemma lists_all:
  "paginates A rest \<Longrightarrow> AWS_ListObjects A bucket a = Some (Some (Inr (concat (rest a (sdk_Paginator A bucket a)))))"
  by (simp add: AWS_ListObjects_def all_pages)

text \<open>An error of a page is the error of the listing, whatever was read before.\<close>

lemma page_error:
  assumes "sdk_HasMorePages A p" "sdk_NextPage A a p = (p', Inl e)"
  shows "ListPages A a p keys = Some (Some (Inl e))"
  using assms by (subst ListPages.simps) simp

section \<open>A service with pages\<close>

text \<open>
  The service that keeps the objects as the mock does and answers listings in pages of \<open>n\<close> keys; the
  state of its paginator is what has not been listed yet.
\<close>

fun chunks :: "nat \<Rightarrow> nat \<Rightarrow> 'x list \<Rightarrow> 'x list list" where
  "chunks fuel n [] = []"
| "chunks 0 n xs = []"
| "chunks (Suc fuel) n xs = take n xs # chunks fuel n (drop n xs)"

definition paged_service :: "nat \<Rightarrow> (mock, string list) aws_sdk" where
  "paged_service n =
     \<lparr>sdk_Put = Mock_PutObject,
      sdk_Get = (\<lambda>bucket key m. case Mock_GetObject bucket key m of Inl e \<Rightarrow> Inl e | Inr data \<Rightarrow> Inr (Inr data)),
      sdk_Delete = Mock_DeleteObject, sdk_CreateBucket = Mock_CreateBucket, sdk_DeleteBucket = Mock_DeleteBucket,
      sdk_Paginator = (\<lambda>bucket m. Mock_ListObjects_loop (bucket @ ''|'') (mock_objects m)),
      sdk_HasMorePages = (\<lambda>ks. ks \<noteq> []),
      sdk_NextPage = (\<lambda>m ks. (drop (Suc n) ks, Inr (map Some (take (Suc n) ks))))\<rparr>"

lemma chunks_concat: "length xs \<le> fuel \<Longrightarrow> concat (chunks fuel (Suc n) xs) = xs"
  by (induction fuel "Suc n" xs rule: chunks.induct) auto

lemma chunks_more: "length xs \<le> fuel \<Longrightarrow> length xs \<le> fuel' \<Longrightarrow> chunks fuel (Suc n) xs = chunks fuel' (Suc n) xs"
proof (induction fuel "Suc n" xs arbitrary: fuel' rule: chunks.induct)
  case (3 fuel x xs)
  then show ?case by (cases fuel') auto
qed auto

lemma paged_service_paginates: "paginates (paged_service n) (\<lambda>m ks. chunks (length ks) (Suc n) ks)"
proof -
  have more: "sdk_HasMorePages (paged_service n) p \<longleftrightarrow> chunks (length p) (Suc n) p \<noteq> []" for p
    by (cases p) (simp_all add: paged_service_def)
  have "\<exists>p'. sdk_NextPage (paged_service n) a p = (p', Inr (map Some page)) \<and> chunks (length p') (Suc n) p' = ps"
    if "chunks (length p) (Suc n) p = page # ps" for a p page ps
  proof (cases p)
    case Nil
    with that show ?thesis by simp
  next
    case (Cons x xs)
    with that show ?thesis
      using chunks_more [of "drop n xs" "length (drop n xs)" "length xs" n] by (simp add: paged_service_def)
  qed
  with more show ?thesis unfolding paginates_def by blast
qed

text \<open>Over it the client is the mock, whatever the size of the pages.\<close>

lemma ClientAWS_is_mock: "ClientAWS (paged_service n) = MockS3Client"
proof -
  have list: "the (the (AWS_ListObjects (paged_service n) bucket m)) = Mock_ListObjects bucket m" for bucket m
    by (simp add: lists_all [OF paged_service_paginates] chunks_concat)
      (simp add: paged_service_def Mock_ListObjects_def)
  have "AWS_PutObject (paged_service n) = Mock_PutObject" "AWS_DeleteObject (paged_service n) = Mock_DeleteObject"
    "AWS_CreateBucket (paged_service n) = Mock_CreateBucket" "AWS_GetObject (paged_service n) = Mock_GetObject"
    by (intro ext; simp add: AWS_PutObject_def AWS_DeleteObject_def AWS_CreateBucket_def AWS_GetObject_def
        paged_service_def split: sum.split)+
  then show ?thesis by (simp add: ClientAWS_def MockS3Client_def list)
qed

section \<open>Properties\<close>

text \<open>
  The S3 store over the client of the AWS SDK implements a map, whatever the size of the pages in
  which the service answers listings.
\<close>

theorem AWS_refines_map:
  assumes "S3_inv m" "\<forall>c \<in> set cs. call_ok S3_key (\<lambda>_. S3_encodable cfg) c"
    and "run (S3_Store (ClientAWS (paged_service n)) cfg zero) cs m = (m', answers)"
  shows "S3_inv m' \<and> spec_run cs (S3_abs cfg m) (S3_abs cfg m') answers"
  using assms unfolding ClientAWS_is_mock by (rule s3.run_refines)

theorem AWS_refines_map_witness:
  "\<exists>m'. run (S3_Store (ClientAWS (paged_service 0))
      \<lparr>SkipBucketCreate = True, Bucket = ''b'', Encode = Inr, Decode = Inr\<rparr> [])
     [CCreate ''k'' ''v'', CDelete ''x''] NewMockS3Client = (m', [Done, Done]) \<and> S3_inv m'"
proof -
  let ?cfg = "\<lparr>SkipBucketCreate = True, Bucket = ''b'', Encode = Inr, Decode = Inr\<rparr>"
  obtain m' where r: "run (S3_Store (ClientAWS (paged_service 0)) ?cfg []) [CCreate ''k'' ''v'', CDelete ''x'']
      NewMockS3Client = (m', [Done, Done])"
    by (simp add: S3_defs answer_of_def NewMockS3Client_def ClientAWS_is_mock)
  have "S3_inv NewMockS3Client" by (simp add: S3_inv_def NewMockS3Client_def)
  from AWS_refines_map [OF this _ r] r show ?thesis by (auto simp: S3_key_def S3_encodable_def)
qed

end
