(* ===== verification/Tripperware.thy ===== *)
theory Tripperware
  imports HTTP_Client
begin

text \<open>
  The tripperwares of the HTTP client as objects, \<open>pkg/http/tripperware\<close>: the settings, constructors and
  options of circuit breakers (\<open>breaker.go\<close>) and rate limiters (\<open>rate.go\<close>) around the handlers of
  \<open>HTTP_Client\<close>, what a breaker does to a sequence of requests, and the retrier's default constructor and
  its clones of a request (\<open>retry.go\<close>). The breakers of \<open>gobreaker\<close>, the limiters of \<open>rate\<close> and the
  reader of a body are parameters.
\<close>

section \<open>Breakers\<close>

text \<open>The settings of \<open>gobreaker\<close> that are set; \<open>ReadyToTrip\<close> sees the consecutive failures.\<close>

record go_breaker =
  gb_MaxRequests :: nat
  gb_Interval :: int
  gb_Timeout :: int
  gb_ReadyToTrip :: "nat \<Rightarrow> bool"
  gb_IsSuccessful :: "err option \<Rightarrow> bool"

record breaker_settings =
  bs_BreakerPool :: string
  bs_GoBreaker :: go_breaker

record 'b breaker =
  br_Settings :: "breaker_settings option"
  br_Pool :: "(string, 'b) gomap"

text \<open>The options change the breaker; what they return is dropped.\<close>

type_synonym 'b breaker_option = "'b breaker \<Rightarrow> 'b breaker \<times> err option"

definition NewBreaker :: "'b breaker_option list \<Rightarrow> 'b breaker" where
  "NewBreaker opts = fold (\<lambda>o' b. fst (o' b)) opts
     \<lparr>br_Settings = Some \<lparr>bs_BreakerPool = [], bs_GoBreaker =
        \<lparr>gb_MaxRequests = 100, gb_Interval = 60000000000, gb_Timeout = 1000000000,
         gb_ReadyToTrip = (\<lambda>failures. 10 \<le> failures), gb_IsSuccessful = (\<lambda>e. e = None)\<rparr>\<rparr>,
      br_Pool = []\<rparr>"

definition WithCircuitBreakerSettings :: "breaker_settings option \<Rightarrow> 'b breaker_option" where
  "WithCircuitBreakerSettings settings b = (b\<lparr>br_Settings := settings\<rparr>, None)"

text \<open>
  A request through the tripperware. It names the pool after the host, in the settings it may share with
  other breakers; without settings it panics.
\<close>

definition breaker_call ::
  "(request \<Rightarrow> err + string) \<Rightarrow> (go_breaker \<Rightarrow> 'b) \<Rightarrow> ('b, 's) execute \<Rightarrow> 's endpoint \<Rightarrow> request \<Rightarrow>
   'b breaker \<Rightarrow> 's \<Rightarrow> ('b breaker \<times> 's \<times> data) option" where
  "breaker_call url_Host mk Execute next' request b s =
     (case br_Settings b of
        None \<Rightarrow> (case url_Host request of Inl e \<Rightarrow> Some (b, s, err_data e) | Inr _ \<Rightarrow> None)
      | Some settings \<Rightarrow>
          map_option (\<lambda>(pool, s, resp).
              (b\<lparr>br_Settings := Some (case url_Host request of Inl _ \<Rightarrow> settings | Inr host \<Rightarrow> settings\<lparr>bs_BreakerPool := host\<rparr>),
                 br_Pool := pool\<rparr>, s, resp))
            (Breaker_Tripperware url_Host (mk (bs_GoBreaker settings)) Execute next' request (br_Pool b) s))"

section \<open>Rate limiters\<close>

record limit_settings =
  rl_Endpoints :: "(string, int \<times> int) gomap"
  rl_DefaultInterval :: int
  rl_DefaultBurst :: int

record 'l limiter =
  rl_Settings :: "limit_settings option"
  rl_Pool :: "(string, 'l) gomap"

type_synonym 'l limiter_option = "'l limiter \<Rightarrow> 'l limiter \<times> err option"

definition NewRateLimiter :: "'l limiter_option list \<Rightarrow> 'l limiter" where
  "NewRateLimiter opts = fold (\<lambda>o' l. fst (o' l)) opts
     \<lparr>rl_Settings = Some \<lparr>rl_Endpoints = [], rl_DefaultInterval = 50000000, rl_DefaultBurst = 10\<rparr>, rl_Pool = []\<rparr>"

definition WithRateLimitSettings :: "limit_settings option \<Rightarrow> 'l limiter_option" where
  "WithRateLimitSettings settings l = (l\<lparr>rl_Settings := settings\<rparr>, None)"

definition limiter_call ::
  "(request \<Rightarrow> err + string) \<Rightarrow> (int \<times> int \<Rightarrow> 'l) \<Rightarrow> ('l \<Rightarrow> 's \<Rightarrow> 'l \<times> 's \<times> err option) \<Rightarrow> 's endpoint \<Rightarrow>
   request \<Rightarrow> 'l limiter \<Rightarrow> 's \<Rightarrow> ('l limiter \<times> 's \<times> data) option" where
  "limiter_call url_Host NewLimiter Wait next' request l s =
     (case rl_Settings l of
        None \<Rightarrow>
          (case url_Host request of
             Inl e \<Rightarrow> Some (l, s, err_data e)
           | Inr host \<Rightarrow>
               if map_of (rl_Pool l) host = None then None
               else (case RateLimiter_Tripperware url_Host NewLimiter Wait [] (0, 0) next' request (rl_Pool l) s of
                   (pool, s, resp) \<Rightarrow> Some (l\<lparr>rl_Pool := pool\<rparr>, s, resp)))
      | Some c \<Rightarrow>
          (case RateLimiter_Tripperware url_Host NewLimiter Wait (rl_Endpoints c)
               (rl_DefaultInterval c, rl_DefaultBurst c) next' request (rl_Pool l) s of
             (pool, s, resp) \<Rightarrow> Some (l\<lparr>rl_Pool := pool\<rparr>, s, resp)))"

section \<open>Retriers\<close>

text \<open>
  \<open>NewRetrier\<close> only logs the error of an option. The options before it have been applied by then, and those
  after it never are.
\<close>

fun applied_until_error :: "'t \<Rightarrow> 't cfg_option option list \<Rightarrow> 't" where
  "applied_until_error base [] = base"
| "applied_until_error base (None # opts) = applied_until_error base opts"
| "applied_until_error base (Some o' # opts) =
     (case o' base of Inl e \<Rightarrow> base | Inr base \<Rightarrow> applied_until_error base opts)"

definition NewRetrier :: "retrier cfg_option option list \<Rightarrow> retrier" where
  "NewRetrier opts =
     applied_until_error
       \<lparr>RetryableErrorFn = IsRetryable,
        Backoff = NewDefaultBackoff (Retries DefaultRetrierConfig) (rc_Duration DefaultRetrierConfig)\<rparr> opts"

text \<open>A body can be read once; \<open>ReadAll\<close> is what reading it gives. The buffer is \<open>None\<close> without a body.\<close>

record cloned_request =
  cl_Original :: request
  cl_Body :: "string option"

definition NewClonedRequest :: "(string \<Rightarrow> err + string) \<Rightarrow> request \<Rightarrow> err + cloned_request" where
  "NewClonedRequest ReadAll req =
     (case Body req of
        None \<Rightarrow> Inr \<lparr>cl_Original = req, cl_Body = None\<rparr>
      | Some body \<Rightarrow>
          (case ReadAll body of
             Inl e \<Rightarrow> Inl e
           | Inr bodyBytes \<Rightarrow>
               Inr \<lparr>cl_Original = req\<lparr>Body := Some bodyBytes\<rparr>, cl_Body = Some bodyBytes\<rparr>))"

text \<open>The clone shares the body of the original unless there is a buffer.\<close>

definition GetRequest :: "cloned_request \<Rightarrow> request" where
  "GetRequest c =
     (case cl_Body c of
        None \<Rightarrow> cl_Original c
      | Some b \<Rightarrow> (cl_Original c)\<lparr>Body := Some b\<rparr>)"

text \<open>A clone of a request whose body can be read is that request, and so is every further one.\<close>

lemma GetRequest_clone:
  "NewClonedRequest ReadAll req = Inr c \<Longrightarrow> (\<And>b. Body req = Some b \<Longrightarrow> ReadAll b = Inr b) \<Longrightarrow> GetRequest c = req"
  by (cases req) (auto simp: NewClonedRequest_def GetRequest_def split: option.splits sum.splits)

text \<open>Without options that fail the default constructor is the one for the default configuration.\<close>

lemma applied_all: "ApplyOpts base opts = Inr r \<Longrightarrow> applied_until_error base opts = r"
  by (induction base opts rule: ApplyOpts.induct) (auto split: sum.splits)

lemma DefaultRetrierConfig_defaulted: "ApplyDefaultRetrierConfig DefaultRetrierConfig = DefaultRetrierConfig"
  by (simp add: DefaultRetrierConfig_def ApplyDefaultRetrierConfig_def DefaultRetryAttempts_def DefaultRetryDelay_def)

lemma NewRetrier_is_default:
  "NewRetrierForConfig (Some DefaultRetrierConfig) opts = Inr r \<Longrightarrow> NewRetrier opts = r"
  by (auto simp: NewRetrierForConfig_def NewRetrier_def DefaultRetrierConfig_defaulted
      Let_def split: option.splits sum.splits intro!: applied_all)

section \<open>Sequences of requests\<close>

fun breaker_calls ::
  "(request \<Rightarrow> err + string) \<Rightarrow> (go_breaker \<Rightarrow> 'b) \<Rightarrow> ('b, 's) execute \<Rightarrow> 's endpoint \<Rightarrow> request list \<Rightarrow>
   'b breaker \<Rightarrow> 's \<Rightarrow> ('b breaker \<times> 's \<times> data list) option" where
  "breaker_calls url_Host mk Execute next' [] b s = Some (b, s, [])"
| "breaker_calls url_Host mk Execute next' (r # rs) b s =
     (case breaker_call url_Host mk Execute next' r b s of
        None \<Rightarrow> None
      | Some (b, s, resp) \<Rightarrow>
          map_option (\<lambda>(b, s, resps). (b, s, resp # resps)) (breaker_calls url_Host mk Execute next' rs b s))"

fun plain_calls :: "'s endpoint \<Rightarrow> request list \<Rightarrow> 's \<Rightarrow> 's \<times> data list" where
  "plain_calls next' [] s = (s, [])"
| "plain_calls next' (r # rs) s =
     (case next' r s of (s, resp) \<Rightarrow> case plain_calls next' rs s of (s, resps) \<Rightarrow> (s, resp # resps))"

text \<open>
  The documented behaviour of a breaker that is closed: it runs the function, returns its results, and
  stays closed when \<open>IsSuccessful\<close> holds of the error.
\<close>

definition closed_law :: "('b, 's) execute \<Rightarrow> (go_breaker \<Rightarrow> 'b) \<Rightarrow> go_breaker \<Rightarrow> ('b \<Rightarrow> bool) \<Rightarrow> bool" where
  "closed_law Execute mk c closed \<longleftrightarrow>
     closed (mk c) \<and>
     (\<forall>b f s s' resp e. closed b \<longrightarrow> f s = (s', resp, e) \<longrightarrow> gb_IsSuccessful c e \<longrightarrow>
        (\<exists>b'. Execute b f s = (b', s', resp, e) \<and> closed b'))"

lemma closed_lawD:
  assumes "closed_law Execute mk c closed" "closed b" "f s = (s', resp, e)" "gb_IsSuccessful c e"
  obtains b' where "Execute b f s = (b', s', resp, e)" "closed b'"
proof -
  have "closed b \<longrightarrow> f s = (s', resp, e) \<longrightarrow> gb_IsSuccessful c e \<longrightarrow>
      (\<exists>b'. Execute b f s = (b', s', resp, e) \<and> closed b')"
    using assms(1) [unfolded closed_law_def, THEN conjunct2, THEN spec [of _ b], THEN spec [of _ f],
      THEN spec [of _ s], THEN spec [of _ s'], THEN spec [of _ resp], THEN spec [of _ e]] .
  with assms(2-4) that show ?thesis by blast
qed

definition all_closed :: "('b \<Rightarrow> bool) \<Rightarrow> (string, 'b) gomap \<Rightarrow> bool" where
  "all_closed closed pool \<longleftrightarrow> (\<forall>h x. map_of pool h = Some x \<longrightarrow> closed x)"

lemma all_closed_update: "all_closed closed pool \<Longrightarrow> closed x \<Longrightarrow> all_closed closed (AList.update h x pool)"
  by (simp add: all_closed_def update_conv')

lemma pool_closed:
  assumes "GetBreakerWithSettings new host pool = (x, pool')" "all_closed closed pool" "closed new"
  shows "closed x \<and> all_closed closed pool'"
proof (cases "map_of pool host")
  case None
  with assms show ?thesis by (auto simp: GetBreakerWithSettings_def intro: all_closed_update)
next
  case (Some y)
  with assms show ?thesis by (auto simp: GetBreakerWithSettings_def all_closed_def)
qed

lemma breaker_call_closed:
  assumes "closed_law Execute mk (bs_GoBreaker c) closed" "gb_IsSuccessful (bs_GoBreaker c) None"
    and "br_Settings b = Some c" "all_closed closed (br_Pool b)"
    and "url_Host r = Inr host" "next' r s = (s', resp)"
  shows "\<exists>b'. breaker_call url_Host mk Execute next' r b s = Some (b', s', resp) \<and>
    br_Settings b' = Some (c\<lparr>bs_BreakerPool := host\<rparr>) \<and> all_closed closed (br_Pool b')"
proof -
  let ?f = "\<lambda>s. case next' r s of (s, resp) \<Rightarrow> (s, Some resp, None)"
  obtain x pool where p: "GetBreakerWithSettings (mk (bs_GoBreaker c)) host (br_Pool b) = (x, pool)" by fastforce
  have "closed (mk (bs_GoBreaker c))" using assms(1) by (simp only: closed_law_def)
  from pool_closed [OF p assms(4) this] have x: "closed x" "all_closed closed pool" by simp_all
  have f: "?f s = (s', Some resp, None)" using assms(6) by simp
  obtain y where y: "Execute x ?f s = (y, s', Some resp, None)" "closed y"
    by (rule closed_lawD [where f = ?f and s = s, OF assms(1) x(1) f assms(2)])
  with p assms(3,5) all_closed_update [OF x(2) y(2)] show ?thesis
    by (simp add: breaker_call_def Breaker_Tripperware_def)
qed

lemma breaker_calls_closed:
  assumes "closed_law Execute mk (bs_GoBreaker c) closed" "gb_IsSuccessful (bs_GoBreaker c) None"
    and "br_Settings b = Some c" "all_closed closed (br_Pool b)" "\<forall>r \<in> set rs. \<exists>host. url_Host r = Inr host"
  shows "\<exists>b'. breaker_calls url_Host mk Execute next' rs b s =
    Some (b', fst (plain_calls next' rs s), snd (plain_calls next' rs s))"
  using assms
proof (induction rs arbitrary: b c s)
  case Nil
  then show ?case by simp
next
  case (Cons r rs)
  obtain host where h: "url_Host r = Inr host" using Cons.prems(5) by auto
  obtain s' resp where n: "next' r s = (s', resp)" by fastforce
  let ?c = "c\<lparr>bs_BreakerPool := host\<rparr>"
  obtain b' where b': "breaker_call url_Host mk Execute next' r b s = Some (b', s', resp)"
    "br_Settings b' = Some ?c" "all_closed closed (br_Pool b')"
    using breaker_call_closed [where url_Host = url_Host and r = r and next' = next' and s = s, OF Cons.prems(1-4) h n] by blast
  have "closed_law Execute mk (bs_GoBreaker ?c) closed" "gb_IsSuccessful (bs_GoBreaker ?c) None"
    using Cons.prems(1,2) by simp_all
  from Cons.IH [OF this b'(2,3), of s'] Cons.prems(5)
  obtain b'' where "breaker_calls url_Host mk Execute next' rs b' s' =
      Some (b'', fst (plain_calls next' rs s'), snd (plain_calls next' rs s'))" by auto
  with b'(1) n show ?case by (auto split: prod.split)
qed

section \<open>Properties\<close>

text \<open>
  A breaker protects nothing. The function it is given reports no error, so with the default notion
  of success it never opens: however many responses fail, every request of a sequence is sent on and
  answered as without a breaker.
\<close>

theorem breaker_never_opens:
  assumes "closed_law Execute mk (bs_GoBreaker c) closed" "gb_IsSuccessful (bs_GoBreaker c) None"
    and "br_Settings b = Some c" "all_closed closed (br_Pool b)" "\<forall>r \<in> set rs. \<exists>host. url_Host r = Inr host"
  shows "\<exists>b'. breaker_calls url_Host mk Execute next' rs b s =
    Some (b', fst (plain_calls next' rs s), snd (plain_calls next' rs s))"
  using assms by (rule breaker_calls_closed)

text \<open>A breaker that counts consecutive failures and opens at ten.\<close>

definition counting_execute :: "(nat, nat) execute" where
  "counting_execute b f s =
     (if 10 \<le> b then (b, s, None, Some (new_error ''circuit breaker is open''))
      else case f s of (s, resp, e) \<Rightarrow> (if e = None then 0 else b + 1, s, resp, e))"

definition failing_endpoint :: "nat endpoint" where
  "failing_endpoint r s = (Suc s, err_data (new_error ''connection refused''))"

lemma counting_closed: "gb_IsSuccessful c = (\<lambda>e. e = None) \<Longrightarrow> closed_law counting_execute (\<lambda>_. 0) c (\<lambda>b. b < 10)"
  by (simp add: closed_law_def counting_execute_def)

lemma failing_calls:
  "plain_calls failing_endpoint rs s =
     (s + length rs, replicate (length rs) (err_data (new_error ''connection refused'')))"
  by (induction rs arbitrary: s) (simp_all add: failing_endpoint_def)

theorem breaker_never_opens_witness:
  "\<forall>r. \<exists>b'. breaker_calls (\<lambda>_. Inr ''host'') (\<lambda>_. 0) counting_execute failing_endpoint
      (replicate 20 r) (NewBreaker []) 0 = Some (b', 20, replicate 20 (err_data (new_error ''connection refused'')))"
proof
  fix r
  let ?c = "the (br_Settings (NewBreaker [] :: nat breaker))"
  have c: "gb_IsSuccessful (bs_GoBreaker ?c) = (\<lambda>e. e = None)" by (simp add: NewBreaker_def)
  have "br_Settings (NewBreaker [] :: nat breaker) = Some ?c" "all_closed (\<lambda>b. b < 10) (br_Pool (NewBreaker [] :: nat breaker))"
    by (simp_all add: NewBreaker_def all_closed_def)
  from breaker_never_opens [OF counting_closed [OF c] _ this, of "replicate 20 r" "\<lambda>_. Inr ''host''" failing_endpoint 0] c
  show "\<exists>b'. breaker_calls (\<lambda>_. Inr ''host'') (\<lambda>_. 0) counting_execute failing_endpoint
      (replicate 20 r) (NewBreaker []) 0 = Some (b', 20, replicate 20 (err_data (new_error ''connection refused'')))"
    by (simp add: failing_calls del: replicate.simps)
qed

end
