(* ===== verification/Kafka_Routes.thy ===== *)
theory Kafka_Routes
  imports Gin_Server Ginresponse Kafka
begin

text \<open>
  The routes of Kafka clients, \<open>pkg/kafka/stats/handler.go\<close>, with the handlers of the consumer and the
  producer, and the timeout middleware, \<open>pkg/middleware/timeout\<close>, both on the router of \<open>Gin_Server\<close>.
  The middleware of gin that runs a handler against the clock is a parameter.
\<close>

section \<open>Routes\<close>

record stats_endpoints =
  st_Root :: string
  st_Stats :: string
  st_Status :: string

text \<open>A handler gets the client as it is when the request comes in.\<close>

record ('k, 'v) stats_handler =
  sh_HandleStats :: "'k \<Rightarrow> 'v gin_response option"
  sh_HandleStatus :: "'k \<Rightarrow> 'v gin_response option"

type_synonym ('k, 'v) wrapped = "bool \<Rightarrow> 'k \<Rightarrow> 'v reply_call list \<times> 'v gin_response option"

definition wrap_handler :: "'v wrapper \<Rightarrow> ('k \<Rightarrow> 'v gin_response option) \<Rightarrow> ('k, 'v) wrapped" where
  "wrap_handler w f has_url k = Wrap w has_url (\<lambda>_. f k)"

definition kafka_RouteRegister ::
  "gin_env \<Rightarrow> (err \<Rightarrow> 'v) \<Rightarrow> (sentinel \<times> int) list \<Rightarrow> ('k, 'v) stats_handler \<Rightarrow> stats_endpoints list \<Rightarrow>
   ('m, ('k, 'v) wrapped) gin_route" where
  "kafka_RouteRegister G error_json order h prefixOpt r =
     (case NewWrapper error_json order [SkipResponseLog True] of
        Inl e \<Rightarrow> None
      | Inr w \<Rightarrow>
          (let pre = Opt \<lparr>st_Root = ''/kafka'', st_Stats = ''/stats'', st_Status = ''/status''\<rparr> prefixOpt
           in in_group G (st_Root pre) []
                (handle_all G
                  [(''GET'', st_Stats pre, GivenTarget (wrap_handler w (sh_HandleStats h))),
                   (''GET'', st_Status pre, GivenTarget (wrap_handler w (sh_HandleStatus h)))]) r))"

section \<open>The handlers of the clients\<close>

text \<open>Values of the responses: the statistics and the status.\<close>

datatype kafka_value = KStats statistics | KStatus kafka_status | KError err

definition kafka_reply :: "int \<times> kafka_value \<Rightarrow> kafka_value gin_response option" where
  "kafka_reply x = Some (WithStatus (fst x) (response_New (BValue (snd x))))"

definition consumer_HandleStats :: "'s consumer \<Rightarrow> kafka_value gin_response option" where
  "consumer_HandleStats c = kafka_reply (map_prod id KStats (HandleStats (co_stats c)))"

definition consumer_HandleStatus :: "'s consumer \<Rightarrow> kafka_value gin_response option" where
  "consumer_HandleStatus c = kafka_reply (map_prod id KStatus (HandleStatus (co_status c)))"

definition consumer_Register ::
  "gin_env \<Rightarrow> (sentinel \<times> int) list \<Rightarrow> ('m, ('s consumer, kafka_value) wrapped) gin_route" where
  "consumer_Register G order =
     kafka_RouteRegister G KError order \<lparr>sh_HandleStats = consumer_HandleStats, sh_HandleStatus = consumer_HandleStatus\<rparr> []"

definition producer_HandleStats :: "'b producer \<Rightarrow> kafka_value gin_response option" where
  "producer_HandleStats p = kafka_reply (map_prod id KStats (HandleStats (pr_stats p)))"

definition producer_HandleStatus :: "'b producer \<Rightarrow> kafka_value gin_response option" where
  "producer_HandleStatus p = kafka_reply (map_prod id KStatus (HandleStatus (pr_status p)))"

definition producer_Register ::
  "gin_env \<Rightarrow> (sentinel \<times> int) list \<Rightarrow> ('m, ('b producer, kafka_value) wrapped) gin_route" where
  "producer_Register G order =
     kafka_RouteRegister G KError order \<lparr>sh_HandleStats = producer_HandleStats, sh_HandleStatus = producer_HandleStatus\<rparr> []"

section \<open>The timeout middleware\<close>

text \<open>
  \<open>gintimeout_New\<close> gets the duration and the handler of the response; the middleware takes the lock
  around that handler, which is one step here.
\<close>

definition ErrTimeout :: err where
  "ErrTimeout = new_error ''request timed out''"

record ('u, 'b) timeout_options =
  to_Body :: "'u gin_request \<Rightarrow> err \<Rightarrow> 'b body"

definition timeoutResponse :: "('u gin_request \<Rightarrow> err \<Rightarrow> 'b body) \<Rightarrow> 'u gin_request \<Rightarrow> ('u, 'b) Auth.outcome" where
  "timeoutResponse fn c = Abort 408 (Some (fn c ErrTimeout))"

definition NoContent :: "'u gin_request \<Rightarrow> err \<Rightarrow> 'b body" where
  "NoContent c e = ErrorJSON e"

definition timeout_Middleware ::
  "(int \<Rightarrow> ('u gin_request \<Rightarrow> ('u, 'b) Auth.outcome) \<Rightarrow> 'm) \<Rightarrow> int \<Rightarrow> ('u, 'b) timeout_options list \<Rightarrow> 'm" where
  "timeout_Middleware gintimeout_New timed opts =
     gintimeout_New timed (timeoutResponse (to_Body (Opt \<lparr>to_Body = NoContent\<rparr> opts)))"

section \<open>Lemmas\<close>

lemma NewWrapper_skips_log:
  "NewWrapper error_json order [SkipResponseLog True] =
     Inr \<lparr>ErrorToBody = (\<lambda>e. BValue (error_json e)), ErrorToStatus = (\<lambda>e. ErrAsStatusCode order (Some e)),
       w_SkipResponseLog = True, w_SkipPaths = []\<rparr>"
  by (simp add: NewWrapper_def SkipResponseLog_def)

lemma appends_kafka: "appends (kafka_RouteRegister G error_json order h prefixOpt)"
  unfolding appends_def
proof (intro allI impI)
  fix r r'
  assume "kafka_RouteRegister G error_json order h prefixOpt r = Some r'"
  then obtain path routes where "in_group G path [] (handle_all G routes) r = Some r'"
    by (auto simp: kafka_RouteRegister_def NewWrapper_skips_log Let_def)
  then show "router_extends r r'" by (rule appendsD [OF appends_group [OF appends_handle_all]])
qed

text \<open>The Kafka routes keep the contract of registration.\<close>

interpretation kafka_routes: registration "kafka_RouteRegister G error_json order h prefixOpt"
  by unfold_locales (rule appends_kafka)

text \<open>The routes they are, in the group with its own base path.\<close>

lemma kafka_routes_registered:
  assumes "kafka_RouteRegister G error_json order h [] r = Some r'"
  shows "\<exists>w. NewWrapper error_json order [SkipResponseLog True] = Inr w \<and>
    rt_Routes r' = rt_Routes r @ map (\<lambda>(path, f).
        \<lparr>er_Method = ''GET'', er_Path = ge_join G (ge_join G (rt_Base r) ''/kafka'') path, er_Chain = rt_Handlers r,
         er_Target = GivenTarget (wrap_handler w f)\<rparr>)
      [(''/stats'', sh_HandleStats h), (''/status'', sh_HandleStatus h)]"
  using assms
  by (auto simp: kafka_RouteRegister_def NewWrapper_skips_log in_group_def GroupWithMiddlewares_def
      router_Handle_def Let_def split: if_splits option.splits)

lemma status_reply:
  assumes "NewWrapper error_json order [SkipResponseLog True] = Inr w"
  shows "wrap_handler w (\<lambda>c. kafka_reply (code c, value c)) True k =
    ([ReplyJSON (code k) (BValue (value k))], Some (WithStatus (code k) (response_New (BValue (value k)))))"
  using assms [symmetric]
  by (simp add: NewWrapper_skips_log wrap_handler_def kafka_reply_def Wrap_def Wrap_reply_def log_if_def
      WithStatus_def response_New_def)

lemma consumer_HandleStatus_eq:
  "consumer_HandleStatus =
     (\<lambda>c. kafka_reply (if status_IsHealthy (co_status c) then 200 else 503, KStatus (co_status c)))"
  by (intro ext) (simp add: consumer_HandleStatus_def HandleStatus_def)

section \<open>Properties\<close>

text \<open>
  A registered consumer can be probed: the last route is \<open>/status\<close> below \<open>/kafka\<close>, behind the
  middlewares in use, and it answers every request with the status of the consumer, with the code 200 if the
  consumer is healthy and 503 if not.
\<close>

theorem consumer_status_route:
  assumes "consumer_Register G order r = Some r'"
  shows "\<exists>f. last (rt_Routes r') =
      \<lparr>er_Method = ''GET'', er_Path = ge_join G (ge_join G (rt_Base r) ''/kafka'') ''/status'',
       er_Chain = rt_Handlers r, er_Target = GivenTarget f\<rparr> \<and>
    (\<forall>c. fst (f True c) =
      [ReplyJSON (if status_IsHealthy (co_status c) then 200 else 503) (BValue (KStatus (co_status c)))])"
proof -
  from kafka_routes_registered [OF assms [unfolded consumer_Register_def]] obtain w where
    w: "NewWrapper KError order [SkipResponseLog True] = Inr w"
    and r': "last (rt_Routes r') =
      \<lparr>er_Method = ''GET'', er_Path = ge_join G (ge_join G (rt_Base r) ''/kafka'') ''/status'',
       er_Chain = rt_Handlers r, er_Target = GivenTarget (wrap_handler w consumer_HandleStatus)\<rparr>" by auto
  have "\<forall>c. fst (wrap_handler w consumer_HandleStatus True c) =
      [ReplyJSON (if status_IsHealthy (co_status c) then 200 else 503) (BValue (KStatus (co_status c)))]"
    by (simp only: consumer_HandleStatus_eq status_reply [OF w] fst_conv) blast
  with r' show ?thesis by blast
qed

theorem consumer_status_route_witness:
  "\<exists>r' f. consumer_Register plain_gin [] (router_New :: (nat, (unit consumer, kafka_value) wrapped) router) = Some r' \<and>
     er_Path (last (rt_Routes r')) = ''/status'' \<and> er_Target (last (rt_Routes r')) = GivenTarget f \<and>
     (\<forall>c. fst (f True c) =
        [ReplyJSON (if status_IsHealthy (co_status c) then 200 else 503) (BValue (KStatus (co_status c)))])"
proof -
  obtain r' where r': "consumer_Register plain_gin [] (router_New :: (nat, (unit consumer, kafka_value) wrapped) router) = Some r'"
    by (simp add: consumer_Register_def kafka_RouteRegister_def NewWrapper_skips_log in_group_def
        GroupWithMiddlewares_def router_Handle_def Let_def plain_gin_def router_New_def)
  from consumer_status_route [OF r'] r' show ?thesis by (auto simp: plain_gin_def)
qed

end
