(* ===== verification/Spans.thy ===== *)
theory Spans
  imports Observability
begin

text \<open>
  Spans of traces, \<open>pkg/trace/span.go\<close>. OpenTelemetry is the record \<open>otel\<close>: a context is the values of
  \<open>Observability\<close> and what OpenTelemetry keeps in it, \<open>'c\<close>; \<open>'sp\<close> are its spans and \<open>'o\<close> its options.
\<close>

section \<open>OpenTelemetry\<close>

record span_context =
  so_TraceID :: string
  so_SpanID :: string
  so_TraceFlags :: nat
  so_Remote :: bool

record 'c span_ctx =
  sx_Values :: ctx_values
  sx_Otel :: 'c

record ('c, 'sp, 'o) otel =
  ot_Start :: "string \<Rightarrow> 'c span_ctx \<Rightarrow> string \<Rightarrow> 'o list \<Rightarrow> 'c span_ctx \<times> 'sp"
  ot_SpanFromContext :: "'c span_ctx \<Rightarrow> 'sp"
  ot_ContextWithSpan :: "'c span_ctx \<Rightarrow> 'sp \<Rightarrow> 'c span_ctx"
  ot_ContextWithRemoteSpanContext :: "'c span_ctx \<Rightarrow> span_context \<Rightarrow> 'c span_ctx"
  ot_SpanContext :: "'sp \<Rightarrow> span_context"
  ot_TraceIDFromHex :: "string \<Rightarrow> string \<times> err option"
  ot_SpanIDFromHex :: "string \<Rightarrow> string \<times> err option"
  ot_SetAttributes :: "(string \<times> string) list \<Rightarrow> 'sp \<Rightarrow> 'sp"
  ot_AddEvent :: "string \<Rightarrow> (string \<times> string) list \<Rightarrow> 'sp \<Rightarrow> 'sp"
  ot_RecordError :: "err \<Rightarrow> 'sp \<Rightarrow> 'sp"
  ot_SetErrorStatus :: "string \<Rightarrow> 'sp \<Rightarrow> 'sp"

section \<open>Spans\<close>

definition NewSpan :: "('c, 'sp, 'o) otel \<Rightarrow> 'c span_ctx \<Rightarrow> string \<Rightarrow> 'o list \<Rightarrow> 'c span_ctx \<times> 'sp" where
  "NewSpan T ctx name opts = ot_Start T [] ctx name opts"

definition NewSpanWithContext :: "('c, 'sp, 'o) otel \<Rightarrow> 'c span_ctx \<Rightarrow> 'c span_ctx \<times> 'sp" where
  "NewSpanWithContext T ctx = (let span = ot_SpanFromContext T ctx in (ot_ContextWithSpan T ctx span, span))"

definition GetTraceIDFromContext :: "('c, 'sp, 'o) otel \<Rightarrow> 'c span_ctx \<Rightarrow> string" where
  "GetTraceIDFromContext T ctx = so_TraceID (ot_SpanContext T (ot_SpanFromContext T ctx))"

text \<open>The errors of the identifiers are dropped; what came with them is used.\<close>

definition NewSpanFromID ::
  "('c, 'sp, 'o) otel \<Rightarrow> 'c span_ctx \<Rightarrow> string \<Rightarrow> string \<Rightarrow> string \<Rightarrow> 'c span_ctx \<times> 'sp" where
  "NewSpanFromID T ctx name traceId spanId =
     (let traceID = fst (ot_TraceIDFromHex T traceId);
          spanID = fst (ot_SpanIDFromHex T spanId);
          sc = \<lparr>so_TraceID = traceID, so_SpanID = spanID, so_TraceFlags = 1, so_Remote = True\<rparr>
      in NewSpan T (ot_ContextWithRemoteSpanContext T ctx sc) name [])"

text \<open>A map is given by the order in which it is iterated over.\<close>

definition AddSpanTags :: "('c, 'sp, 'o) otel \<Rightarrow> 'sp \<Rightarrow> (string, string) gomap \<Rightarrow> 'sp" where
  "AddSpanTags T span tags = ot_SetAttributes T (map (\<lambda>(k, v). (k, v)) tags) span"

definition AddSpanEvents :: "('c, 'sp, 'o) otel \<Rightarrow> 'sp \<Rightarrow> string \<Rightarrow> (string, string) gomap \<Rightarrow> 'sp" where
  "AddSpanEvents T span name events = ot_AddEvent T name (map (\<lambda>(k, v). (k, v)) events) span"

definition span_Error :: "('c, 'sp, 'o) otel \<Rightarrow> (err \<Rightarrow> string) \<Rightarrow> 'sp \<Rightarrow> err \<Rightarrow> 'sp" where
  "span_Error T text span e = ot_SetErrorStatus T (text e) (ot_RecordError T e span)"

definition RebuildTraceContext ::
  "('c, 'sp, 'o) otel \<Rightarrow> 'c span_ctx \<Rightarrow> string \<Rightarrow> string \<Rightarrow> string \<Rightarrow> string \<Rightarrow> 'c span_ctx \<times> 'sp" where
  "RebuildTraceContext T ctx name requestID traceID spanID =
     (case NewSpanFromID T ctx name traceID spanID of
        (c, span) \<Rightarrow> (c\<lparr>sx_Values := SetRequestID (sx_Values c) requestID\<rparr>, span))"

section \<open>Laws\<close>

text \<open>
  What OpenTelemetry documents: its functions keep the values of the context that are not its own, a
  context has the span that was put into it, and a span started below a valid span context is of the same
  trace. It finds a span by what it keeps in the context.
\<close>

definition otel_laws :: "('c, 'sp, 'o) otel \<Rightarrow> (string \<Rightarrow> bool) \<Rightarrow> bool" where
  "otel_laws T valid \<longleftrightarrow>
     (\<forall>c sc. sx_Values (ot_ContextWithRemoteSpanContext T c sc) = sx_Values c \<and>
        ot_SpanContext T (ot_SpanFromContext T (ot_ContextWithRemoteSpanContext T c sc)) = sc) \<and>
     (\<forall>c sp. ot_SpanFromContext T (ot_ContextWithSpan T c sp) = sp \<and> sx_Values (ot_ContextWithSpan T c sp) = sx_Values c) \<and>
     (\<forall>t c name opts. sx_Values (fst (ot_Start T t c name opts)) = sx_Values c \<and>
        ot_SpanFromContext T (fst (ot_Start T t c name opts)) = snd (ot_Start T t c name opts) \<and>
        (valid (so_TraceID (ot_SpanContext T (ot_SpanFromContext T c))) \<longrightarrow>
         valid (so_SpanID (ot_SpanContext T (ot_SpanFromContext T c))) \<longrightarrow>
         so_TraceID (ot_SpanContext T (snd (ot_Start T t c name opts))) =
         so_TraceID (ot_SpanContext T (ot_SpanFromContext T c)))) \<and>
     (\<forall>c f. ot_SpanFromContext T (c\<lparr>sx_Values := f\<rparr>) = ot_SpanFromContext T c)"

lemma otel_lawsD:
  assumes "otel_laws T valid"
  shows "sx_Values (ot_ContextWithRemoteSpanContext T c sc) = sx_Values c"
    and "ot_SpanContext T (ot_SpanFromContext T (ot_ContextWithRemoteSpanContext T c sc)) = sc"
    and "ot_SpanFromContext T (ot_ContextWithSpan T c sp) = sp"
    and "sx_Values (ot_ContextWithSpan T c sp) = sx_Values c"
    and "sx_Values (fst (ot_Start T t c name opts)) = sx_Values c"
    and "ot_SpanFromContext T (fst (ot_Start T t c name opts)) = snd (ot_Start T t c name opts)"
    and "valid (so_TraceID (ot_SpanContext T (ot_SpanFromContext T c))) \<Longrightarrow>
      valid (so_SpanID (ot_SpanContext T (ot_SpanFromContext T c))) \<Longrightarrow>
      so_TraceID (ot_SpanContext T (snd (ot_Start T t c name opts))) =
      so_TraceID (ot_SpanContext T (ot_SpanFromContext T c))"
    and "ot_SpanFromContext T (c\<lparr>sx_Values := f\<rparr>) = ot_SpanFromContext T c"
  using assms unfolding otel_laws_def by blast+

lemma NewSpanWithContext_keeps:
  "otel_laws T valid \<Longrightarrow> NewSpanWithContext T ctx = (ctx', span) \<Longrightarrow>
     ot_SpanFromContext T ctx' = span \<and> GetTraceIDFromContext T ctx' = GetTraceIDFromContext T ctx"
  by (auto simp: NewSpanWithContext_def GetTraceIDFromContext_def Let_def otel_lawsD(3))

section \<open>Properties\<close>

text \<open>
  A context rebuilt from the identifiers that were passed on continues the trace: it is of the trace
  given, its logs have the request identifier given, and all other values are those of the context it was
  built on.
\<close>

theorem RebuildTraceContext_continues:
  assumes "otel_laws T valid"
    and "ot_TraceIDFromHex T traceID = (tid, None)" "valid tid"
    and "ot_SpanIDFromHex T spanID = (sid, None)" "valid sid"
  shows "case RebuildTraceContext T ctx name requestID traceID spanID of (c, span) \<Rightarrow>
    GetTraceIDFromContext T c = tid \<and> ot_SpanFromContext T c = span \<and>
    GetRequestIDFromContext (sx_Values c) = requestID \<and>
    (\<forall>key. key \<noteq> RequestIdKey \<longrightarrow> sx_Values c key = sx_Values ctx key)"
proof -
  let ?sc = "\<lparr>so_TraceID = tid, so_SpanID = sid, so_TraceFlags = 1, so_Remote = True\<rparr>"
  let ?r = "ot_Start T [] (ot_ContextWithRemoteSpanContext T ctx ?sc) name []"
  have r: "RebuildTraceContext T ctx name requestID traceID spanID =
      ((fst ?r)\<lparr>sx_Values := SetRequestID (sx_Values (fst ?r)) requestID\<rparr>, snd ?r)"
    by (simp add: RebuildTraceContext_def NewSpanFromID_def NewSpan_def assms(2,4) split: prod.split)
  have "so_TraceID (ot_SpanContext T (snd ?r)) = tid"
    using otel_lawsD(7) [OF assms(1), of "ot_ContextWithRemoteSpanContext T ctx ?sc" "[]" name "[]"] assms(3,5)
    by (simp add: otel_lawsD(2) [OF assms(1)])
  then show ?thesis
    by (simp add: r GetTraceIDFromContext_def otel_lawsD(8,6,5,1) [OF assms(1)] GetRequestIDFromContext_def
        GetValueFromContextOrDefault_def SetRequestID_def as_string_def)
qed

text \<open>OpenTelemetry with one span context in the context; a span is its span context.\<close>

definition plain_otel :: "(span_context, span_context, unit) otel" where
  "plain_otel =
     \<lparr>ot_Start = (\<lambda>_ c _ _. (c\<lparr>sx_Otel := (sx_Otel c)\<lparr>so_SpanID := ''s2''\<rparr>\<rparr>, (sx_Otel c)\<lparr>so_SpanID := ''s2''\<rparr>)),
      ot_SpanFromContext = sx_Otel, ot_ContextWithSpan = (\<lambda>c sp. c\<lparr>sx_Otel := sp\<rparr>),
      ot_ContextWithRemoteSpanContext = (\<lambda>c sc. c\<lparr>sx_Otel := sc\<rparr>), ot_SpanContext = (\<lambda>sp. sp),
      ot_TraceIDFromHex = (\<lambda>h. (h, None)), ot_SpanIDFromHex = (\<lambda>h. (h, None)),
      ot_SetAttributes = (\<lambda>_ sp. sp), ot_AddEvent = (\<lambda>_ _ sp. sp), ot_RecordError = (\<lambda>_ sp. sp),
      ot_SetErrorStatus = (\<lambda>_ sp. sp)\<rparr>"

lemma plain_otel_laws: "otel_laws plain_otel (\<lambda>x. x \<noteq> [])"
  by (simp add: otel_laws_def plain_otel_def)

theorem RebuildTraceContext_continues_witness:
  "\<forall>ctx :: span_context span_ctx. \<exists>c span. RebuildTraceContext plain_otel ctx ''work'' ''r1'' ''4bf9'' ''00f0'' = (c, span) \<and>
     GetTraceIDFromContext plain_otel c = ''4bf9'' \<and> GetRequestIDFromContext (sx_Values c) = ''r1''"
proof
  fix ctx :: "span_context span_ctx"
  have "ot_TraceIDFromHex plain_otel ''4bf9'' = (''4bf9'', None)" "ot_SpanIDFromHex plain_otel ''00f0'' = (''00f0'', None)"
    by (simp_all add: plain_otel_def)
  from RebuildTraceContext_continues [where ctx = ctx and name = "''work''" and requestID = "''r1''",
      OF plain_otel_laws this(1) _ this(2)]
  show "\<exists>c span. RebuildTraceContext plain_otel ctx ''work'' ''r1'' ''4bf9'' ''00f0'' = (c, span) \<and>
     GetTraceIDFromContext plain_otel c = ''4bf9'' \<and> GetRequestIDFromContext (sx_Values c) = ''r1''"
    by (auto split: prod.splits)
qed

end
