(* ===== verification/Listers.thy ===== *)
theory Listers
  imports Kube
begin

text \<open>
  The listers over the fake client of \<open>pkg/kubemock\<close> for network policies, deployments, namespaces and, across
  namespaces, config maps. A client set gives the client of a kind in a namespace; the empty namespace
  stands for all.
\<close>

section \<open>Listers\<close>

type_synonym ('s, 'o) namespaced = "string \<Rightarrow> ('s, 'o) kube_client"

text \<open>The loop of every \<open>List\<close> makes pointers to the items.\<close>

fun item_pointers :: "'o list \<Rightarrow> 'o list \<Rightarrow> 'o list" where
  "item_pointers [] result = result"
| "item_pointers (item # items) result = item_pointers items (result @ [item])"

definition list_items ::
  "('sel, 'req) selectors \<Rightarrow> ('s, 'o) kube_client \<Rightarrow> 'sel \<Rightarrow> 's \<Rightarrow> err + 'o list" where
  "list_items K C selector s =
     (case kc_List C (sel_String K selector) s of
        Inl e \<Rightarrow> Inl e
      | Inr items \<Rightarrow> Inr (item_pointers items []))"

record ('s, 'o) namespace_lister =
  nl_Client :: "('s, 'o) namespaced"
  nl_Namespace :: string

subsection \<open>Network policies\<close>

definition NewMockNetworkPolicyNamespaceLister :: "('s, 'o) namespaced \<Rightarrow> string \<Rightarrow> ('s, 'o) namespace_lister" where
  "NewMockNetworkPolicyNamespaceLister client namespace = \<lparr>nl_Client = client, nl_Namespace = namespace\<rparr>"

definition NetworkPolicyNamespace_List ::
  "('sel, 'req) selectors \<Rightarrow> ('s, 'o) namespace_lister \<Rightarrow> 'sel \<Rightarrow> 's \<Rightarrow> err + 'o list" where
  "NetworkPolicyNamespace_List K m selector s = list_items K (nl_Client m (nl_Namespace m)) selector s"

definition NetworkPolicyNamespace_Get :: "('s, 'o) namespace_lister \<Rightarrow> string \<Rightarrow> 's \<Rightarrow> err + 'o" where
  "NetworkPolicyNamespace_Get m name s = kc_Get (nl_Client m (nl_Namespace m)) name s"

definition NetworkPolicies :: "('s, 'o) namespaced \<Rightarrow> string \<Rightarrow> ('s, 'o) namespace_lister" where
  "NetworkPolicies client namespace = \<lparr>nl_Client = client, nl_Namespace = namespace\<rparr>"

definition NetworkPolicy_List ::
  "('sel, 'req) selectors \<Rightarrow> ('s, 'o) namespaced \<Rightarrow> 'sel \<Rightarrow> 's \<Rightarrow> err + 'o list" where
  "NetworkPolicy_List K client selector s = list_items K (client []) selector s"

subsection \<open>Deployments\<close>

definition NewMockDeploymentNamespaceLister :: "('s, 'o) namespaced \<Rightarrow> string \<Rightarrow> ('s, 'o) namespace_lister" where
  "NewMockDeploymentNamespaceLister client namespace = \<lparr>nl_Client = client, nl_Namespace = namespace\<rparr>"

definition DeploymentNamespace_List ::
  "('sel, 'req) selectors \<Rightarrow> ('s, 'o) namespace_lister \<Rightarrow> 'sel \<Rightarrow> 's \<Rightarrow> err + 'o list" where
  "DeploymentNamespace_List K m selector s = list_items K (nl_Client m (nl_Namespace m)) selector s"

definition DeploymentNamespace_Get :: "('s, 'o) namespace_lister \<Rightarrow> string \<Rightarrow> 's \<Rightarrow> err + 'o" where
  "DeploymentNamespace_Get m name s = kc_Get (nl_Client m (nl_Namespace m)) name s"

definition Deployments :: "('s, 'o) namespaced \<Rightarrow> string \<Rightarrow> ('s, 'o) namespace_lister" where
  "Deployments client namespace = \<lparr>nl_Client = client, nl_Namespace = namespace\<rparr>"

definition Deployment_List ::
  "('sel, 'req) selectors \<Rightarrow> ('s, 'o) namespaced \<Rightarrow> 'sel \<Rightarrow> 's \<Rightarrow> err + 'o list" where
  "Deployment_List K client selector s = list_items K (client []) selector s"

subsection \<open>Namespaces and config maps\<close>

definition Namespace_List ::
  "('sel, 'req) selectors \<Rightarrow> ('s, 'o) kube_client \<Rightarrow> 'sel \<Rightarrow> 's \<Rightarrow> err + 'o list" where
  "Namespace_List K client selector s = list_items K client selector s"

definition Namespace_Get :: "('s, 'o) kube_client \<Rightarrow> string \<Rightarrow> 's \<Rightarrow> err + 'o" where
  "Namespace_Get client name s = kc_Get client name s"

definition ConfigMaps :: "('s, 'o) namespaced \<Rightarrow> string \<Rightarrow> ('s, 'o) namespace_lister" where
  "ConfigMaps client namespace = \<lparr>nl_Client = client, nl_Namespace = namespace\<rparr>"

definition ConfigMap_List ::
  "('sel, 'req) selectors \<Rightarrow> ('s, 'o) namespaced \<Rightarrow> 'sel \<Rightarrow> 's \<Rightarrow> err + 'o list" where
  "ConfigMap_List K client selector s = list_items K (client []) selector s"

section \<open>Lemmas\<close>

lemma item_pointers_all: "item_pointers items result = result @ items"
  by (induction items arbitrary: result) auto

lemma list_items_client: "list_items K C selector s = kc_List C (sel_String K selector) s"
  by (simp add: list_items_def item_pointers_all split: sum.split)

text \<open>
  The tracker of the fake client in a state: its objects in the order in which it lists them. Within a
  namespace a client sees the objects of that namespace, without one it sees all.
\<close>

definition tracked ::
  "('sel, 'req) selectors \<Rightarrow> ('s, 'o) namespaced \<Rightarrow> ('o \<Rightarrow> string) \<Rightarrow> ('o \<Rightarrow> string) \<Rightarrow> ('o \<Rightarrow> labels) \<Rightarrow>
   's \<Rightarrow> 'o list \<Rightarrow> bool" where
  "tracked K client ns nm lbl s objects \<longleftrightarrow>
     (\<forall>n sel. kc_List (client n) (sel_String K sel) s =
        Inr (filter (\<lambda>x. (n = [] \<or> ns x = n) \<and> Matches K sel (lbl x)) objects)) \<and>
     (\<forall>x \<in> set objects. ns x \<noteq> [] \<and> kc_Get (client (ns x)) (nm x) s = Inr x)"

lemma trackedD:
  assumes "tracked K client ns nm lbl s objects"
  shows "kc_List (client n) (sel_String K sel) s =
      Inr (filter (\<lambda>x. (n = [] \<or> ns x = n) \<and> Matches K sel (lbl x)) objects)"
    and "x \<in> set objects \<Longrightarrow> kc_Get (client (ns x)) (nm x) s = Inr x"
  using assms unfolding tracked_def by blast+

text \<open>The lister of a namespace lists the part of the whole listing that is in it, in the same order.\<close>

lemma namespace_listing:
  assumes "tracked K client ns nm lbl s objects" "n \<noteq> []"
  shows "\<exists>all. list_items K (client []) selector s = Inr all \<and>
    list_items K (client n) selector s = Inr (filter (\<lambda>x. ns x = n) all)"
  using trackedD(1) [OF assms(1), of "[]" selector] trackedD(1) [OF assms(1), of n selector] assms(2)
  by (auto simp: list_items_client intro!: filter_cong)

lemma listed_can_be_read:
  assumes "tracked K client ns nm lbl s objects" "n \<noteq> []" "list_items K (client n) selector s = Inr xs" "x \<in> set xs"
  shows "kc_Get (client n) (nm x) s = Inr x \<and> Matches K selector (lbl x)"
  using assms(2-4) trackedD [OF assms(1)] by (auto simp: list_items_client)

section \<open>Properties\<close>

text \<open>
  The listers of deployments agree: the lister of a namespace lists the deployments of that namespace
  among those that the lister for all namespaces lists, in the same order, and each can be read under its
  name with the same result.
\<close>

theorem deployment_listers_agree:
  assumes "tracked K client ns nm lbl s objects" "n \<noteq> []"
  shows "\<exists>all. Deployment_List K client selector s = Inr all \<and>
    DeploymentNamespace_List K (Deployments client n) selector s = Inr (filter (\<lambda>x. ns x = n) all) \<and>
    (\<forall>x \<in> set all. ns x = n \<longrightarrow> DeploymentNamespace_Get (Deployments client n) (nm x) s = Inr x)"
proof -
  obtain all where a: "list_items K (client []) selector s = Inr all"
    "list_items K (client n) selector s = Inr (filter (\<lambda>x. ns x = n) all)"
    using namespace_listing [OF assms, of selector] by blast
  have "\<forall>x \<in> set all. ns x = n \<longrightarrow> kc_Get (client n) (nm x) s = Inr x"
    using listed_can_be_read [OF assms a(2)] by auto
  with a show ?thesis
    by (simp add: Deployment_List_def DeploymentNamespace_List_def Deployments_def DeploymentNamespace_Get_def)
qed

text \<open>A tracker that is the list of its objects, here pairs of namespace and name without labels.\<close>

definition list_clients :: "((string \<times> string) list, string \<times> string) namespaced" where
  "list_clients n = (list_client snd (\<lambda>_. []))\<lparr>
     kc_Get := (\<lambda>name s. case find (\<lambda>x. x = (n, name)) s of None \<Rightarrow> Inl (NewNotFound name) | Some x \<Rightarrow> Inr x),
     kc_List := (\<lambda>t s. Inr (filter (\<lambda>x. (n = [] \<or> fst x = n) \<and>
       Matches text_selectors (pair_up (strings_of_text [] t)) []) s))\<rparr>"

lemma list_clients_tracked: "(\<forall>x \<in> set s. fst x \<noteq> []) \<Longrightarrow> tracked text_selectors list_clients fst snd (\<lambda>_. []) s s"
  by (auto simp: tracked_def list_clients_def text_selectors_read find_None_iff find_Some_iff
      split: option.split)

theorem deployment_listers_agree_witness:
  "\<exists>all. Deployment_List text_selectors list_clients [] [(''prod'', ''web''), (''test'', ''web'')] = Inr all \<and>
    DeploymentNamespace_List text_selectors (Deployments list_clients ''test'') [] [(''prod'', ''web''), (''test'', ''web'')] =
      Inr (filter (\<lambda>x. fst x = ''test'') all)"
proof -
  have "tracked text_selectors list_clients fst snd (\<lambda>_. []) [(''prod'', ''web''), (''test'', ''web'')]
      [(''prod'', ''web''), (''test'', ''web'')]" by (rule list_clients_tracked) simp
  from deployment_listers_agree [OF this, of "''test''" "[]"] show ?thesis by auto
qed

end
