(* ===== verification/Spec2Isabelle.thy ===== *)
theory Spec2Isabelle
  imports Middleware Cache FS S3 Replicate OAuth Labels HTTP_Store Threadsafe Health Reload Kafka_Store Status HTTPServer Transport Observability Gzip Ginresponse Utilities Gin_Manager S3_AWS Tripperware Kafka_Routes Spans Listers
begin

text \<open>
  A verification development for golibs, a collection of Go libraries for services: key-value stores
  over many backends, retries and workflows, access control, HTTP clients and servers, Kafka clients,
  health checks, and the gin server that puts them together. Every theory opens with what it models; this
  header is the map.

  \<^bold>\<open>The parts of the program and where they are modelled.\<close>

  \<^item> Vocabulary. \<open>Prelude\<close>: slices as a view of a backing array (so that \<open>append\<close> and in-place
    removal show through aliases), Go maps as association lists in iteration order (\<open>gomap\<close>), machine
    integers as words, and the lemma collections. \<open>Strings\<close>: what is used of \<open>strings\<close>, \<open>strconv\<close> and
    \<open>net\<close>. \<open>Slices\<close>: \<open>pkg/slices\<close>, \<open>pkg/opt\<close>, \<open>pkg/defaultmap\<close>. \<open>Flags\<close>: \<open>pkg/config\<close>, options
    (\<open>ApplyOpts\<close>) and command line flags, with the locale \<open>flag_config\<close> that configurations interpret.
  \<^item> Errors. \<open>Errors\<close>: \<open>pkg/errors\<close>. A Go error is the datatype \<open>err\<close>, a tree of sentinels, wrapped and
    joined errors, on which \<open>errors.Is\<close> and the tables between errors and HTTP status codes are defined.
  \<^item> Stores. \<open>Options\<close>: \<open>pkg/store/options.go\<close> and the serialised options; an operation consumes
    the options it matches from the caller's slice. \<open>Store_API\<close>: the interface of \<open>pkg/store/store.go\<close>
    as the record of operations \<open>opt slice \<Rightarrow> ... \<Rightarrow> 's \<Rightarrow> 's \<times> opt list \<times> result\<close>, its specification as
    operations on a map, and the locales that say what a store promises. The backends \<open>Memory\<close>, \<open>FS\<close>,
    \<open>S3\<close> and \<open>S3_AWS\<close>, \<open>Kube\<close> (ConfigMaps), \<open>Dynamic\<close> (custom resources and their informer cache), \<open>Labels\<close>,
    \<open>Replicate\<close> and \<open>HTTP_Store\<close> (client and server) model \<open>pkg/store/backends/*\<close>; \<open>Listers\<close>
    models the listers of \<open>pkg/kubemock\<close>; \<open>Middleware\<close>, \<open>Cache\<close>, \<open>Threadsafe\<close> and \<open>Kafka_Store\<close> model \<open>pkg/store/middleware/*\<close>; \<open>DefaultMap_Store\<close>,
    \<open>Timed\<close> and \<open>Claimlock\<close> model \<open>pkg/store/utilities/*\<close>.
  \<^item> Tasks. \<open>Retry\<close> (\<open>pkg/retry\<close>), \<open>Workflow\<close> (\<open>pkg/task/runnable\<close>, \<open>workflow\<close>), \<open>Job\<close>
    (\<open>pkg/task/job\<close>), \<open>Graceful\<close> (\<open>pkg/graceful\<close>), \<open>Orchestration\<close> and \<open>Status\<close>
    (\<open>pkg/orchestration\<close> and the example API of \<open>internal/example\<close> that it is used with).
  \<^item> Access. \<open>Access\<close>: \<open>pkg/access\<close>, the label tree that decides whether scopes cover a request.
    \<open>Auth\<close> and \<open>OAuth\<close>: \<open>pkg/middleware/authorization\<close>. A handler of gin is a function from the
    request to an \<open>outcome\<close> (\<open>Next\<close> with the request changed, or an abort), a chain is \<open>run_chain\<close>.
  \<^item> HTTP. \<open>HTTP_Client\<close>, \<open>Tripperware\<close> and \<open>Transport\<close>: \<open>pkg/http\<close> with its tripperwares, over
    the record \<open>net\<close> that stands for \<open>net/http\<close>; \<open>Tls\<close>: \<open>pkg/tlsutils\<close>, \<open>pkg/tlsclient\<close>, \<open>pkg/tlsserver\<close>;
    \<open>HTTPServer\<close>: \<open>pkg/httpserver\<close>; \<open>Gzip\<close>, \<open>Ginresponse\<close>, \<open>Observability\<close>, \<open>Spans\<close>: compression,
    responses of endpoints, logging, request identifiers, metrics and tracing.
  \<^item> Operation. \<open>Probes\<close> and \<open>Health\<close>: \<open>pkg/healthcheck\<close>; \<open>Reload\<close>: \<open>pkg/fsnotify\<close> and
    \<open>pkg/reloader\<close>; \<open>Kafka\<close>: \<open>pkg/kafka\<close>, whose routes are in \<open>Kafka_Routes\<close> with
    \<open>pkg/middleware/timeout\<close>; \<open>Utilities\<close>: \<open>pkg/patch\<close> and \<open>pkg/iofs\<close>.
  \<^item> The gin server. \<open>Proxy\<close>: \<open>pkg/ginserver/proxy\<close>; \<open>Gin_Config\<close> and \<open>Gin_Server\<close>:
    \<open>pkg/ginserver\<close>; \<open>Gin_Manager\<close>: \<open>pkg/ginserver/manager\<close>. A router is the log of its registrations,
    each route with the handlers in use at that time. The locales \<open>registration\<close> and \<open>engine_step\<close> say
    that everything that registers routes only appends; the options of an engine interpret them, and
    those of a manager carry engine options to its servers (\<open>server_option\<close>).

  \<^bold>\<open>How they interact.\<close> A store wraps a store: the middlewares and utilities take the record of
  operations of the store below. The HTTP store sends the serialised options to a server that runs a
  store; the gin server composes the configurations of the HTTP server, TLS, the middlewares, the health
  check, the reloader and the proxy, and runs them as one group of \<open>pkg/graceful\<close>.

  \<^bold>\<open>What the lemmas show.\<close>

  \<^item> Refinement: every backend and middleware answers each sequence of calls as the map
    specification of \<open>Store_API\<close> does, with the abstraction that fits it (unprefixed keys, decoded files
    or payloads, plain values under labels, the persistent half of a cache, the server's store). The
    sequences are lists of calls, the proofs one simulation per operation lifted once, in the locales.
  \<^item> Round trips: serialised options, error and status codes, nested compression.
  \<^item> Functional behaviour: label coverage, workflows, backoff, staged rollback, Kafka offsets,
    probes, default engines.
  \<^item> Safety: no request passes the authorization middlewares or a gin server with certificate
    authentication without the certificate, account, scope or session; calls under the threadsafe
    middleware are linearizable; lock delegation leaves no orphans; label listings stay in their scope.
  \<^item> Liveness and bounds: retries end, groups end within the shutdown timeout, reloads reach the pod
    template, sweeps remove exactly what is too old in whole seconds as the code computes them.
  \<^item> Errors: some lemmas state how the code fails where it does not do what its comments say (an
    appended certificate that authenticates, a listing without options that leaves its scope, ...).

  \<^bold>\<open>Loops, time and interleaving.\<close> A backoff that may run forever is a
  \<open>partial_function (option)\<close>, and the theorem that it returns says for which configurations it does.
  All other loops are structural or have a measure; there is no fuel. Background loops (sweeps,
  health ticks, lock rounds, watchers, Kafka polls) are explicit lists of events or ticks, over which
  the theorems quantify. Supervised functions (\<open>Graceful\<close>, \<open>Job\<close>, \<open>HTTPServer\<close>, \<open>Gin_Server\<close>) map the
  time of cancellation to the time and kind of their end, \<open>None\<close> being never; a flag \<open>pick\<close> stands for
  the choice of \<open>select\<close> between ready cases, in \<open>RunT\<close> those of both of its selects. \<open>Threadsafe\<close> is an inductive step relation between
  goroutines; services that run in parallel take the schedule as an argument. Times are \<open>int\<close>
  nanoseconds, wrapped to 64 bits where sums of configured values matter (\<open>wrap64\<close>); the seconds of a
  duration in \<open>Timed\<close> are computed in floating point, with its rounding; ports, levels and counters that
  overflow are words.

  \<^bold>\<open>What is a parameter.\<close> Code outside the repository is an argument: the file system, the AWS
  client, the Kubernetes clients, the Kafka library, \<open>net/http\<close>, \<open>crypto/tls\<close> and \<open>x509\<close>, gin's router,
  compression, JSON and YAML codecs, clocks, identifiers and hash functions, with the laws that are
  used as named hypotheses or locales, each instantiated in a witness or interpretation. They leave the other
  side free where its documentation does: the Kubernetes server refuses objects and stale versions and fills in
  fields (\<open>dyn_laws\<close>), storing an offset may fail (\<open>stores_offsets\<close>), responses carry headers of their own
  (\<open>codec_ok\<close>). A panic is an outer \<open>None\<close> or a constructor of its own.

  \<^bold>\<open>Not modelled.\<close>

  \<^item> Pure input and output and glue: the programs in \<open>cmd\<close> and \<open>examples\<close>, \<open>fsnotify\<close> on top
    of inotify, signals and random numbers, \<open>init\<close> functions, and constructors that only look up the
    configuration of a cluster.
  \<^item> Doubles for tests: \<open>NewFakeClient\<close> of \<open>pkg/kubemock\<close>, and \<open>pkg/tlsutils/testing.go\<close>, which makes
    certificates.
  \<^item> The pool of compressors of \<open>Gzip\<close>, log texts other than those the theorems speak of, and the
    rendering of OpenTelemetry and Prometheus data.
  \<^item> Data races: except in \<open>Threadsafe\<close> and for the schedules above, an operation is one step.
\<close>

end
